(* ===== verification/Prelude.thy ===== *)
theory Prelude
  imports Main "HOL-Library.Word"
begin

text \<open>
  Shared vocabulary of the development: the widths of the C integers, the fault values that
  stand for undefined or corrupting behaviour of the C code, the intrusive lists of
  \<^verbatim>\<open>lib/common/ch_list.h\<close> and the rings of \<^verbatim>\<open>lib/common/ch_ring.h\<close> as HOL lists, and
  the facts on words and lists that several components use.
\<close>

section \<open>Machine integers\<close>

unbundle bit_operations_syntax

type_synonym u8 = "8 word"
type_synonym u16 = "16 word"
type_synonym u32 = "32 word"
type_synonym u64 = "64 word"

text \<open>A \<^verbatim>\<open>size_t\<close> of the LP64 targets the program is built for is 64 bits wide.\<close>

type_synonym size_t = u64

type_synonym bytes = "u8 list"

text \<open>An address of an object handed out by a pool; \<^verbatim>\<open>NULL\<close> is modelled by \<open>None\<close>.\<close>

type_synonym addr = nat

named_theorems word_nat \<open>moving word arithmetic that does not wrap to the naturals\<close>

lemma unat_plus32 [word_nat]:
  "unat (a :: u32) + unat b < 4294967296 \<Longrightarrow> unat (a + b) = unat a + unat b"
  by (simp add: unat_word_ariths)

lemma unat_plus64 [word_nat]:
  "unat (a :: u64) + unat b < 18446744073709551616 \<Longrightarrow> unat (a + b) = unat a + unat b"
  by (simp add: unat_word_ariths)

lemma unat_minus_le [word_nat]:
  "b \<le> a \<Longrightarrow> unat (a - b :: 'a::len word) = unat a - unat b"
  by (rule unat_sub)

lemma unat_lt32 [simp]: "unat (a :: u32) < 4294967296"
  using unsigned_less [of a] by simp

lemma unat_lt64 [simp]: "unat (a :: u64) < 18446744073709551616"
  using unsigned_less [of a] by simp

lemma unat_ucast_u32_u64 [simp]: "unat (ucast (x :: u32) :: u64) = unat x"
  by (simp add: unsigned_ucast_eq take_bit_nat_eq_self less_trans [OF unat_lt32])

lemma unat_lt16 [simp]: "unat (a :: u16) < 65536"
  using unsigned_less [of a] by simp

lemma unat_lt8 [simp]: "unat (a :: u8) < 256"
  using unsigned_less [of a] by simp

lemma unat_pow2: "n < LENGTH('a) \<Longrightarrow> unat (2 ^ n :: 'a::len word) = 2 ^ n"
  by (metis of_nat_numeral of_nat_power take_bit_nat_eq_self unsigned_of_nat
      power_strict_increasing_iff one_less_numeral_iff semiring_norm(76))

lemma take_bit_word_self:
  fixes x :: "'a::len word"
  assumes "\<forall>k\<ge>n. \<not> bit x k"
  shows "take_bit n x = x"
proof (rule bit_word_eqI)
  fix k
  show "bit (take_bit n x) k = bit x k"
    using assms by (cases "k < n") (auto simp: bit_take_bit_iff)
qed

lemmas word_le_unat = word_le_nat_alt
lemmas word_less_unat = word_less_nat_alt

section \<open>Faults\<close>

text \<open>
  What the C code does when it goes wrong without noticing. An operation that can do so
  returns a value of \<open>ch_fault + 'a\<close>; the error returns the code itself makes (a \<^verbatim>\<open>NULL\<close>,
  a \<^verbatim>\<open>-1\<close>) stay ordinary results.
\<close>

datatype ch_fault =
    Double_Free       \<comment> \<open>an object is given back to a pool whose free list already holds it\<close>
  | Wild_Free         \<comment> \<open>an address is freed that the allocator never handed out\<close>
  | Aborted           \<comment> \<open>the process calls \<^verbatim>\<open>abort()\<close>\<close>
  | Null_Deref        \<comment> \<open>a \<^verbatim>\<open>NULL\<close> pointer or the head of an empty list is used as an object\<close>
  | Out_Of_Bounds     \<comment> \<open>a read or write outside the buffer\<close>
  | Use_After_Free    \<comment> \<open>a pointer is followed to an object that was given back\<close>

type_synonym 'a res = "ch_fault + 'a"

definition bind_res :: "'a res \<Rightarrow> ('a \<Rightarrow> 'b res) \<Rightarrow> 'b res" where
  "bind_res r f = (case r of Inl e \<Rightarrow> Inl e | Inr x \<Rightarrow> f x)"

lemma bind_res_simps [simp]:
  "bind_res (Inl e) f = Inl e"
  "bind_res (Inr x) f = f x"
  by (simp_all add: bind_res_def)

lemma bind_res_eq_Inr:
  "bind_res r f = Inr y \<longleftrightarrow> (\<exists>x. r = Inr x \<and> f x = Inr y)"
  by (cases r) auto

lemma bind_res_eq_Inl:
  "bind_res r f = Inl e \<longleftrightarrow> r = Inl e \<or> (\<exists>x. r = Inr x \<and> f x = Inl e)"
  by (cases r) auto

section \<open>Intrusive lists and rings\<close>

text \<open>
  A \<^verbatim>\<open>list_head\<close> list or a \<^verbatim>\<open>CH_RING\<close> is the list of its members from the first to the
  last. The macros become:
  \<^item> \<^verbatim>\<open>list_add(x, head)\<close> and \<^verbatim>\<open>CH_RING_INSERT_HEAD\<close>: \<open>x # xs\<close>;
  \<^item> \<^verbatim>\<open>list_add_tail(x, head)\<close>: \<open>xs @ [x]\<close>;
  \<^item> \<^verbatim>\<open>list_del(x)\<close>: \<open>list_del x xs\<close>, which takes the member out (an unlinked member,
    whose links are \<^verbatim>\<open>NULL\<close>, is left as it is);
  \<^item> \<^verbatim>\<open>CH_RING_INSERT_AFTER\<close>, \<^verbatim>\<open>CH_RING_INSERT_BEFORE\<close> and \<^verbatim>\<open>CH_RING_REMOVE\<close> at a member
    that is named by its position.
\<close>

definition list_del :: "'a \<Rightarrow> 'a list \<Rightarrow> 'a list" where
  "list_del x xs = remove1 x xs"

definition ring_insert_after :: "nat \<Rightarrow> 'a \<Rightarrow> 'a list \<Rightarrow> 'a list" where
  "ring_insert_after i x xs = take (Suc i) xs @ x # drop (Suc i) xs"

definition ring_insert_before :: "nat \<Rightarrow> 'a \<Rightarrow> 'a list \<Rightarrow> 'a list" where
  "ring_insert_before i x xs = take i xs @ x # drop i xs"

definition ring_remove :: "nat \<Rightarrow> 'a list \<Rightarrow> 'a list" where
  "ring_remove i xs = take i xs @ drop (Suc i) xs"

lemma set_list_del_distinct [simp]: "distinct xs \<Longrightarrow> set (list_del x xs) = set xs - {x}"
  by (simp add: list_del_def)

lemma distinct_list_del [simp]: "distinct xs \<Longrightarrow> distinct (list_del x xs)"
  by (simp add: list_del_def)

lemma list_del_notin [simp]: "x \<notin> set xs \<Longrightarrow> list_del x xs = xs"
  by (simp add: list_del_def remove1_idem)

lemma length_list_del [simp]: "x \<in> set xs \<Longrightarrow> length (list_del x xs) = length xs - 1"
  by (simp add: list_del_def length_remove1)

lemma set_list_del_subset: "set (list_del x xs) \<subseteq> set xs"
  by (simp add: list_del_def set_remove1_subset)

lemma length_list_del_le: "length (list_del x xs) \<le> length xs"
  by (simp add: list_del_def length_remove1)

lemma ring_insert_after_append [simp]:
  "ring_insert_after (length xs) y (xs @ x # ys) = xs @ x # y # ys"
  by (simp add: ring_insert_after_def)

lemma ring_insert_before_append [simp]:
  "ring_insert_before (length xs) y (xs @ ys) = xs @ y # ys"
  by (simp add: ring_insert_before_def)

lemma ring_remove_append [simp]:
  "ring_remove (length xs) (xs @ x # ys) = xs @ ys"
  by (simp add: ring_remove_def)

lemma ring_remove_append_Suc [simp]:
  "ring_remove (Suc (length xs)) (xs @ x # y # ys) = xs @ x # ys"
  by (simp add: ring_remove_def)

section \<open>Lists\<close>

lemma nth_list_update': "k < length xs \<Longrightarrow> xs[i := x] ! k = (if k = i then x else xs ! k)"
  by (cases "i = k") auto

lemma sum_list_map_update:
  fixes f :: "'a \<Rightarrow> 'b::ab_group_add"
  shows "i < length xs \<Longrightarrow> sum_list (map f (xs[i := y])) = sum_list (map f xs) - f (xs ! i) + f y"
  by (induction xs arbitrary: i) (auto simp: algebra_simps split: nat.splits)

lemma in_set_tlD: "x \<in> set (tl xs) \<Longrightarrow> x \<in> set xs"
  by (cases xs) auto

lemma find_Some_in_set: "find P xs = Some x \<Longrightarrow> x \<in> set xs \<and> P x"
  by (auto simp: find_Some_iff)

lemma distinct_concat_nthD:
  assumes "distinct (concat xss)" "i < length xss" "j < length xss"
    "x \<in> set (xss ! i)" "x \<in> set (xss ! j)"
  shows "i = j"
  using assms
proof (induction xss arbitrary: i j)
  case Nil
  then show ?case by simp
next
  case (Cons ys yss)
  then have disj: "set ys \<inter> (\<Union>zs\<in>set yss. set zs) = {}" by auto
  show ?case
  proof (cases i; cases j)
    fix k assume "i = 0" "j = Suc k"
    then have "x \<in> set ys" "x \<in> set (yss ! k)" "k < length yss" using Cons.prems by auto
    then show ?thesis using disj nth_mem by blast
  next
    fix k assume "i = Suc k" "j = 0"
    then have "x \<in> set ys" "x \<in> set (yss ! k)" "k < length yss" using Cons.prems by auto
    then show ?thesis using disj nth_mem by blast
  next
    fix k l assume "i = Suc k" "j = Suc l"
    then show ?thesis using Cons.prems Cons.IH [of k l] by auto
  qed simp
qed

end
