(* ===== verification/Pow2.thy ===== *)
theory Pow2
  imports Prelude
begin

text \<open>
  The power-of-two helpers of \<^verbatim>\<open>lib/common/ch_constants.h\<close>, which size the hash tables and
  the memory blocks: \<open>ch_align64pow2\<close> is the least power of two not below its argument, and
  \<open>ch_is_power_of_2\<close> (which takes a 32-bit argument) recognises powers of two.
\<close>

section \<open>Definitions\<close>

definition ch_is_power_of_2 :: "u32 \<Rightarrow> bool" where
  "ch_is_power_of_2 n \<longleftrightarrow> n \<noteq> 0 \<and> (n AND (n - 1)) = 0"

definition ch_align32pow2 :: "u32 \<Rightarrow> u32" where
  "ch_align32pow2 x =
     (let x = x - 1;
          x = x OR drop_bit 1 x;
          x = x OR drop_bit 2 x;
          x = x OR drop_bit 4 x;
          x = x OR drop_bit 8 x;
          x = x OR drop_bit 16 x
      in x + 1)"

definition ch_align64pow2 :: "u64 \<Rightarrow> u64" where
  "ch_align64pow2 v =
     (let v = v - 1;
          v = v OR drop_bit 1 v;
          v = v OR drop_bit 2 v;
          v = v OR drop_bit 4 v;
          v = v OR drop_bit 8 v;
          v = v OR drop_bit 16 v;
          v = v OR drop_bit 32 v
      in v + 1)"

section \<open>Smearing the highest set bit\<close>

text \<open>\<open>smeared x s y\<close>: bit \<open>k\<close> of \<open>y\<close> is set iff one of the bits \<open>k, \<dots>, k + s - 1\<close> of \<open>x\<close> is.\<close>

definition smeared :: "'a::len word \<Rightarrow> nat \<Rightarrow> 'a word \<Rightarrow> bool" where
  "smeared x s y \<longleftrightarrow> (\<forall>k. bit y k \<longleftrightarrow> (\<exists>j < s. bit x (k + j)))"

lemma smeared_1: "smeared x 1 x"
  by (simp add: smeared_def)

lemma smeared_double:
  assumes "smeared x s y"
  shows "smeared x (2 * s) (y OR drop_bit s y)"
  unfolding smeared_def
proof
  fix k
  have "bit (y OR drop_bit s y) k \<longleftrightarrow> (\<exists>j < s. bit x (k + j)) \<or> (\<exists>j < s. bit x (k + (s + j)))"
    using assms by (auto simp: smeared_def bit_or_iff bit_drop_bit_eq add.assoc add.commute [of s])
  also have "\<dots> \<longleftrightarrow> (\<exists>j<2 * s. bit x (k + j))"
  proof
    assume "\<exists>j<2 * s. bit x (k + j)"
    then obtain j where j: "j < 2 * s" "bit x (k + j)" by blast
    show "(\<exists>j < s. bit x (k + j)) \<or> (\<exists>j < s. bit x (k + (s + j)))"
    proof (cases "j < s")
      case True
      with j show ?thesis by blast
    next
      case False
      with j have "j - s < s" "bit x (k + (s + (j - s)))" by auto
      then show ?thesis by blast
    qed
  next
    assume "(\<exists>j < s. bit x (k + j)) \<or> (\<exists>j < s. bit x (k + (s + j)))"
    then consider j where "j < s" "bit x (k + j)" | j where "j < s" "bit x (k + (s + j))" by blast
    then show "\<exists>j<2 * s. bit x (k + j)"
    proof cases
      case (1 j)
      then show ?thesis by (intro exI [of _ j]) auto
    next
      case (2 j)
      then show ?thesis by (intro exI [of _ "s + j"]) auto
    qed
  qed
  finally show "bit (y OR drop_bit s y) k \<longleftrightarrow> (\<exists>j<2 * s. bit x (k + j))" .
qed

text \<open>The position one above the highest set bit.\<close>

lemma smeared_mask:
  fixes x :: "'a::len word"
  assumes sm: "smeared x s y" and s: "LENGTH('a) \<le> s"
  obtains n where "n \<le> LENGTH('a)" "y = mask n" "unat x < 2 ^ n" "n = 0 \<or> 2 ^ (n - 1) \<le> unat x"
proof -
  define P where "P n \<longleftrightarrow> (\<forall>k\<ge>n. \<not> bit x k)" for n
  define n where "n = (LEAST n. P n)"
  have PL: "P (LENGTH('a))" by (auto simp: P_def dest: bit_imp_le_length)
  then have Pn: "P n" and nle: "n \<le> LENGTH('a)"
    unfolding n_def by (auto intro: LeastI Least_le)
  have top: "bit x (n - 1)" if "n \<noteq> 0"
  proof -
    have "\<not> P (n - 1)" using that unfolding n_def by (metis not_less_Least diff_less less_one not_gr_zero)
    then obtain k where "n - 1 \<le> k" "bit x k" by (auto simp: P_def)
    moreover from \<open>bit x k\<close> Pn have "\<not> n \<le> k" by (auto simp: P_def)
    ultimately have "k = n - 1" using that by simp
    with \<open>bit x k\<close> show ?thesis by simp
  qed
  have "y = mask n"
  proof (rule bit_word_eqI)
    fix k assume k: "k < LENGTH('a)"
    show "bit y k \<longleftrightarrow> bit (mask n :: 'a word) k"
    proof (cases "k < n")
      case True
      then have "bit x (k + (n - 1 - k))" "n - 1 - k < s" using top nle s by auto
      then have "bit y k" using sm unfolding smeared_def by blast
      with True k show ?thesis by (simp add: bit_mask_iff)
    next
      case False
      then have "\<not> bit y k" using sm Pn unfolding smeared_def P_def by auto
      with False show ?thesis by (simp add: bit_mask_iff)
    qed
  qed
  moreover have "unat x < 2 ^ n"
  proof -
    have "take_bit n x = x" using Pn by (intro take_bit_word_self) (simp add: P_def)
    then have "unat x = take_bit n (unat x)" by (metis unsigned_take_bit_eq)
    then show ?thesis by (metis take_bit_nat_less_exp)
  qed
  moreover have "n = 0 \<or> 2 ^ (n - 1) \<le> unat x"
  proof (cases "n = 0")
    case False
    then have "bit (unat x) (n - 1)" using top by (simp add: bit_unsigned_iff bit_imp_le_length)
    then show ?thesis by (metis bit_nat_def div_less even_zero not_less)
  qed simp
  ultimately show thesis using that nle by blast
qed

lemma ch_align64pow2_smeared:
  obtains y where "smeared (v - 1) 64 y" "ch_align64pow2 v = y + 1"
proof -
  define x where "x = v - 1"
  define y1 where "y1 = x OR drop_bit 1 x"
  define y2 where "y2 = y1 OR drop_bit 2 y1"
  define y3 where "y3 = y2 OR drop_bit 4 y2"
  define y4 where "y4 = y3 OR drop_bit 8 y3"
  define y5 where "y5 = y4 OR drop_bit 16 y4"
  define y6 where "y6 = y5 OR drop_bit 32 y5"
  note ys = y1_def y2_def y3_def y4_def y5_def y6_def
  have "smeared x 2 y1" using smeared_double [OF smeared_1, of x] by (simp add: y1_def)
  then have "smeared x 4 y2" using smeared_double [of x 2 y1] by (simp add: y2_def)
  then have "smeared x 8 y3" using smeared_double [of x 4 y2] by (simp add: y3_def)
  then have "smeared x 16 y4" using smeared_double [of x 8 y3] by (simp add: y4_def)
  then have "smeared x 32 y5" using smeared_double [of x 16 y4] by (simp add: y5_def)
  then have "smeared x 64 y6" using smeared_double [of x 32 y5] by (simp add: y6_def)
  moreover have "ch_align64pow2 v = y6 + 1"
    by (simp only: ch_align64pow2_def Let_def ys x_def)
  ultimately show thesis using that x_def by simp
qed

lemma align64pow2_bounds:
  assumes "0 < unat v" "unat v \<le> 2 ^ 63"
  shows "\<exists>n\<le>63. unat (ch_align64pow2 v) = 2 ^ n \<and> unat v \<le> 2 ^ n \<and> (n = 0 \<or> 2 ^ (n - 1) < unat v)"
proof -
  obtain y where y: "smeared (v - 1) 64 y" "ch_align64pow2 v = y + 1"
    by (rule ch_align64pow2_smeared)
  obtain n where n: "n \<le> 64" "y = mask n" "unat (v - 1) < 2 ^ n" "n = 0 \<or> 2 ^ (n - 1) \<le> unat (v - 1)"
    using smeared_mask [OF y(1)] by auto
  have "1 \<le> v" using assms(1) by (simp add: word_le_unat)
  then have v1: "unat (v - 1) = unat v - 1" by (simp add: unat_sub)
  have "n \<noteq> 64" using n(4) v1 assms by auto
  with n(1) have "n \<le> 63" by simp
  moreover from this have "unat (ch_align64pow2 v) = 2 ^ n"
  proof -
    have "unat (2 ^ n :: u64) = 2 ^ n"
      using \<open>n \<le> 63\<close> by (simp add: unat_pow2)
    moreover have "mask n + 1 = (2 ^ n :: u64)"
      by (simp add: mask_eq_exp_minus_1)
    ultimately show ?thesis by (simp add: y(2) n(2))
  qed
  ultimately show ?thesis using n(3,4) v1 assms(1) by (intro exI [of _ n]) auto
qed

text \<open>
  For every size from 1 to \<open>2\<^sup>6\<^sup>3\<close>, \<^verbatim>\<open>ch_align64pow2\<close> returns the least power of two
  that is not below the size.
\<close>

theorem ch_align64pow2_least:
  assumes "0 < unat v" "unat v \<le> 2 ^ 63"
  shows "unat (ch_align64pow2 v) = (LEAST m. (\<exists>n. m = 2 ^ n) \<and> unat v \<le> m)"
proof (rule Least_equality [symmetric])
  obtain n where n: "unat (ch_align64pow2 v) = 2 ^ n" "unat v \<le> 2 ^ n" "n = 0 \<or> 2 ^ (n - 1) < unat v"
    using align64pow2_bounds [OF assms] by blast
  then show "(\<exists>n. unat (ch_align64pow2 v) = 2 ^ n) \<and> unat v \<le> unat (ch_align64pow2 v)" by auto
  fix m assume "(\<exists>k. m = 2 ^ k) \<and> unat v \<le> m"
  then obtain k where k: "m = 2 ^ k" "unat v \<le> 2 ^ k" by blast
  have "n \<le> k"
  proof (rule ccontr)
    assume "\<not> n \<le> k"
    then have "(2::nat) ^ k \<le> 2 ^ (n - 1)" by (intro power_increasing) auto
    then have "unat v \<le> 2 ^ (n - 1)" using k(2) by (rule order_trans [rotated])
    with n(3) \<open>\<not> n \<le> k\<close> show False by auto
  qed
  with n k show "unat (ch_align64pow2 v) \<le> m" by simp
qed

theorem ch_align64pow2_least_witness:
  "0 < unat (100 :: u64) \<and> unat (100 :: u64) \<le> 2 ^ 63 \<and>
   unat (ch_align64pow2 100) = (LEAST m. (\<exists>n. m = 2 ^ n) \<and> unat (100 :: u64) \<le> m)"
proof -
  have h: "0 < unat (100 :: u64)" "unat (100 :: u64) \<le> 2 ^ 63" by simp_all
  from ch_align64pow2_least [OF h] h show ?thesis by blast
qed

text \<open>A power of two is recognised: subtracting one flips exactly the bits below its only bit.\<close>

lemma power_of_2_imp: "k < 32 \<Longrightarrow> ch_is_power_of_2 (2 ^ k)"
proof -
  assume k: "k < 32"
  have "(2 ^ k :: u32) - 1 = mask k" by (simp add: mask_eq_exp_minus_1)
  then have "(2 ^ k AND (2 ^ k - 1) :: u32) = take_bit k (2 ^ k)" by (simp add: take_bit_eq_mask)
  also have "\<dots> = 0" using take_bit_push_bit [of k k "1 :: u32"] by (simp add: push_bit_eq_mult)
  finally show ?thesis
    using k by (auto simp: ch_is_power_of_2_def word_unat_eq_iff unat_pow2)
qed

end
