(* ===== verification/Memory.thy ===== *)
theory Memory
  imports Pow2
begin

text \<open>
  The block allocator of the TCP session pool, \<^verbatim>\<open>lib/ptables/ch_memory.c\<close>, and its cache of
  freed blocks, \<^verbatim>\<open>lib/ptables/ch_memory_cache.c\<close>. A block is its header
  \<open>ch_memory_item\<close>; the cache keeps freed blocks in one list per power of two. The clock
  (\<^verbatim>\<open>ch_get_current_timems()/1000\<close>) and the outcomes of \<^verbatim>\<open>rte_malloc\<close> and \<^verbatim>\<open>malloc\<close> are
  parameters, the record \<open>mem_env\<close>; every operation reads the clock once. Shown here: the
  cache never hands out a block that is too small, blocks of the allocator are freed without
  an abort, the well-formedness of the cache is kept by every operation, and the interface
  \<open>block_allocator\<close> the reassembly relies on.
\<close>

section \<open>State\<close>

datatype mem_source = FROM_SYS | FROM_DPDK

record ch_memory_item =
  m_protect :: int
  mi_type :: mem_source
  from_cache :: bool
  mi_size :: size_t
  mi_rsize :: size_t

record ch_memory_cache_header =
  n_hits :: size_t
  n_nohits :: size_t
  hc_n_caches :: size_t
  last_find_time :: u64
  hc_items :: "ch_memory_item list"

record ch_memory_cache =
  max_cache_size :: size_t
  cur_cache_size :: size_t
  mc_timeout :: u64
  cache_headers :: "ch_memory_cache_header list"

record ch_memory =
  mcache :: "ch_memory_cache option"
  use_size :: size_t
  use_sys_size :: size_t
  use_dpdk_size :: size_t
  cache_hits_size :: size_t

record mem_env =
  rte_malloc_ok :: "size_t \<Rightarrow> bool"
  malloc_ok :: "size_t \<Rightarrow> bool"
  now :: u64

definition M_PROTECT_V :: int where "M_PROTECT_V = 1234"
definition MAX_CACHE_POW :: nat where "MAX_CACHE_POW = 16"
definition MAX_CACHE_INDEX :: nat where "MAX_CACHE_INDEX = MAX_CACHE_POW + 1"
definition MAX_CACHE_SIZE_D :: size_t where "MAX_CACHE_SIZE_D = 67108864"

text \<open>\<^verbatim>\<open>sizeof(ch_memory_item_t)\<close> under LP64: 4 (+4), 16, 1, 1 (+6), 8 and 8 bytes.\<close>

definition sizeof_ch_memory_item :: size_t where "sizeof_ch_memory_item = 48"

section \<open>The cache of freed blocks\<close>

function get_index_from :: "nat \<Rightarrow> size_t \<Rightarrow> nat" where
  "get_index_from i sz =
     (if i \<le> MAX_CACHE_POW \<and> sz > push_bit i 1 then get_index_from (Suc i) sz else i)"
  by pat_completeness auto
termination
  by (relation "measure (\<lambda>(i, sz). Suc MAX_CACHE_POW - i)") auto

declare get_index_from.simps [simp del]

definition get_index :: "size_t \<Rightarrow> nat" where
  "get_index sz = get_index_from 0 sz"

definition cache_header_init :: "u64 \<Rightarrow> ch_memory_cache_header" where
  "cache_header_init t =
     \<lparr>n_hits = 0, n_nohits = 0, hc_n_caches = 0, last_find_time = t, hc_items = []\<rparr>"

definition ch_memory_cache_create :: "mem_env \<Rightarrow> size_t \<Rightarrow> u64 \<Rightarrow> ch_memory_cache" where
  "ch_memory_cache_create env max_size tmo =
     \<lparr>max_cache_size = (if max_size < MAX_CACHE_SIZE_D then MAX_CACHE_SIZE_D else max_size),
      cur_cache_size = 0,
      mc_timeout = tmo,
      cache_headers = replicate MAX_CACHE_INDEX (cache_header_init (now env))\<rparr>"

text \<open>
  \<^verbatim>\<open>ch_memory_item_free\<close>: gives a block back to its source. The size it takes off the
  counters is \<^verbatim>\<open>item->size\<close>, not \<^verbatim>\<open>item->rsize\<close>.
\<close>

definition ch_memory_item_free :: "ch_memory \<Rightarrow> ch_memory_item \<Rightarrow> ch_memory res" where
  "ch_memory_item_free mm item =
     (if m_protect item \<noteq> M_PROTECT_V then Inl Aborted
      else
        let rsize = mi_size item;
            mm = (case mi_type item of
                FROM_SYS \<Rightarrow> mm\<lparr>use_sys_size := use_sys_size mm - rsize\<rparr>
              | FROM_DPDK \<Rightarrow> mm\<lparr>use_dpdk_size := use_dpdk_size mm - rsize\<rparr>)
        in Inr (mm\<lparr>use_size := use_size mm - rsize\<rparr>))"

fun ch_memory_items_free :: "ch_memory \<Rightarrow> ch_memory_item list \<Rightarrow> ch_memory res" where
  "ch_memory_items_free mm [] = Inr mm"
| "ch_memory_items_free mm (item # items) =
     bind_res (ch_memory_item_free mm item) (\<lambda>mm. ch_memory_items_free mm items)"

fun ch_memory_headers_reset ::
  "mem_env \<Rightarrow> ch_memory \<Rightarrow> ch_memory_cache_header list \<Rightarrow> (ch_memory \<times> ch_memory_cache_header list) res"
where
  "ch_memory_headers_reset env mm [] = Inr (mm, [])"
| "ch_memory_headers_reset env mm (h # hs) =
     bind_res (ch_memory_items_free mm (hc_items h)) (\<lambda>mm.
     bind_res (ch_memory_headers_reset env mm hs) (\<lambda>(mm, hs).
       Inr (mm, cache_header_init (now env) # hs)))"

text \<open>\<^verbatim>\<open>ch_memory_cache_reset\<close>: the counters of \<open>mm\<close> and the emptied cache.\<close>

definition ch_memory_cache_reset ::
  "mem_env \<Rightarrow> ch_memory \<Rightarrow> ch_memory_cache \<Rightarrow> (ch_memory \<times> ch_memory_cache) res"
where
  "ch_memory_cache_reset env mm mc =
     bind_res (ch_memory_headers_reset env mm (cache_headers mc)) (\<lambda>(mm, hs).
       Inr (mm, mc\<lparr>cur_cache_size := 0, cache_headers := hs\<rparr>))"

definition ch_memory_cache_find ::
  "mem_env \<Rightarrow> ch_memory_cache \<Rightarrow> size_t \<Rightarrow> ch_memory_item option \<times> ch_memory_cache"
where
  "ch_memory_cache_find env mc sz =
     (let i = get_index sz in
      if i \<ge> MAX_CACHE_INDEX then (None, mc)
      else
        let h = (cache_headers mc ! i)\<lparr>last_find_time := now env\<rparr> in
        case hc_items h of
          [] \<Rightarrow> (None, mc\<lparr>cache_headers := (cache_headers mc)[i := h\<lparr>n_nohits := n_nohits h + 1\<rparr>]\<rparr>)
        | mitem # rest \<Rightarrow>
            (Some mitem, mc\<lparr>cache_headers := (cache_headers mc)[i :=
               h\<lparr>hc_items := rest, n_hits := n_hits h + 1, hc_n_caches := hc_n_caches h - 1\<rparr>]\<rparr>))"

definition should_update :: "mem_env \<Rightarrow> ch_memory_cache \<Rightarrow> ch_memory_cache_header \<Rightarrow> bool" where
  "should_update env mc h =
     (if hc_n_caches h = 0 then True
      else if now env - last_find_time h > mc_timeout mc then False
      else n_nohits h > hc_n_caches h)"

text \<open>
  \<^verbatim>\<open>ch_memory_cache_update\<close>: returns 0 (\<open>True\<close>) when the block was taken into the cache and
  -1 (\<open>False\<close>) otherwise; a reset before it may have freed cached blocks.
\<close>

definition ch_memory_cache_update ::
  "mem_env \<Rightarrow> ch_memory \<Rightarrow> ch_memory_cache \<Rightarrow> ch_memory_item \<Rightarrow> (bool \<times> ch_memory \<times> ch_memory_cache) res"
where
  "ch_memory_cache_update env mm mc mitem =
     bind_res
       (if cur_cache_size mc + mi_rsize mitem > max_cache_size mc
        then ch_memory_cache_reset env mm mc else Inr (mm, mc))
       (\<lambda>(mm, mc).
         let i = get_index (mi_rsize mitem) in
         if i \<ge> MAX_CACHE_INDEX then Inr (False, mm, mc)
         else
           let h = cache_headers mc ! i in
           if \<not> should_update env mc h then Inr (False, mm, mc)
           else
             let h = h\<lparr>hc_n_caches := hc_n_caches h + 1, hc_items := mitem # hc_items h\<rparr>;
                 mc = mc\<lparr>cache_headers := (cache_headers mc)[i := h]\<rparr>;
                 mc = (if \<not> from_cache mitem
                       then mc\<lparr>cur_cache_size := cur_cache_size mc + mi_rsize mitem\<rparr> else mc)
             in Inr (True, mm, mc))"

section \<open>The allocator\<close>

definition ch_memory_create :: "mem_env \<Rightarrow> size_t \<Rightarrow> u64 \<Rightarrow> ch_memory" where
  "ch_memory_create env max_size tmo =
     \<lparr>mcache = (if max_size > 0 then Some (ch_memory_cache_create env max_size tmo) else None),
      use_size = 0, use_sys_size = 0, use_dpdk_size = 0, cache_hits_size = 0\<rparr>"

text \<open>
  \<^verbatim>\<open>do_memory_alloc\<close>: the block, with a flag that says whether its bytes were zeroed, or
  \<open>None\<close> when both allocators fail. A block from the cache is returned as it is, also for
  \<^verbatim>\<open>ch_memory_calloc\<close>.
\<close>

definition do_memory_alloc ::
  "mem_env \<Rightarrow> ch_memory \<Rightarrow> size_t \<Rightarrow> bool \<Rightarrow> (ch_memory_item \<times> bool) option \<times> ch_memory"
where
  "do_memory_alloc env mm sz is_zero =
     (let rsize = ch_align64pow2 (sz + sizeof_ch_memory_item);
          (hit, mm) = (case mcache mm of
              None \<Rightarrow> (None, mm)
            | Some mc \<Rightarrow> (case ch_memory_cache_find env mc rsize of
                (r, mc) \<Rightarrow> (r, mm\<lparr>mcache := Some mc\<rparr>)))
      in case hit of
          Some item \<Rightarrow>
            (Some (item\<lparr>mi_size := sz, mi_rsize := rsize, from_cache := True\<rparr>, False),
             mm\<lparr>cache_hits_size := cache_hits_size mm + rsize\<rparr>)
        | None \<Rightarrow>
            (if \<not> rte_malloc_ok env rsize \<and> \<not> malloc_ok env rsize then (None, mm)
             else
               let ty = (if rte_malloc_ok env rsize then FROM_DPDK else FROM_SYS);
                   item = \<lparr>m_protect = M_PROTECT_V, mi_type = ty, from_cache = False,
                           mi_size = sz, mi_rsize = rsize\<rparr>;
                   mm = mm\<lparr>use_size := use_size mm + rsize\<rparr>;
                   mm = (case ty of
                       FROM_SYS \<Rightarrow> mm\<lparr>use_sys_size := use_sys_size mm + rsize\<rparr>
                     | FROM_DPDK \<Rightarrow> mm\<lparr>use_dpdk_size := use_dpdk_size mm + rsize\<rparr>)
               in (Some (item, is_zero), mm)))"

definition ch_memory_alloc ::
  "mem_env \<Rightarrow> ch_memory \<Rightarrow> size_t \<Rightarrow> ch_memory_item option \<times> ch_memory"
where
  "ch_memory_alloc env mm sz =
     (case do_memory_alloc env mm sz False of (r, mm) \<Rightarrow> (map_option fst r, mm))"

definition ch_memory_calloc ::
  "mem_env \<Rightarrow> ch_memory \<Rightarrow> size_t \<Rightarrow> (ch_memory_item \<times> bool) option \<times> ch_memory"
where
  "ch_memory_calloc env mm sz = do_memory_alloc env mm sz True"

definition ch_memory_free :: "mem_env \<Rightarrow> ch_memory \<Rightarrow> ch_memory_item \<Rightarrow> ch_memory res" where
  "ch_memory_free env mm item =
     (let rsize = mi_rsize item in
      if m_protect item \<noteq> M_PROTECT_V then Inl Aborted
      else
        bind_res
          (case mcache mm of
             None \<Rightarrow> Inr (False, mm)
           | Some mc \<Rightarrow> bind_res (ch_memory_cache_update env mm mc item) (\<lambda>(cached, mm, mc).
               Inr (cached, mm\<lparr>mcache := Some mc\<rparr>)))
          (\<lambda>(cached, mm).
            if cached then Inr mm
            else
              let mm = (case mi_type item of
                  FROM_SYS \<Rightarrow> mm\<lparr>use_sys_size := use_sys_size mm - rsize\<rparr>
                | FROM_DPDK \<Rightarrow> mm\<lparr>use_dpdk_size := use_dpdk_size mm - rsize\<rparr>)
              in Inr (mm\<lparr>use_size := use_size mm - rsize\<rparr>)))"


section \<open>Indexing the cache\<close>

lemma get_index_from_bounds:
  "i \<le> MAX_CACHE_INDEX \<Longrightarrow>
   i \<le> get_index_from i sz \<and> get_index_from i sz \<le> MAX_CACHE_INDEX \<and>
   (get_index_from i sz < MAX_CACHE_INDEX \<longrightarrow> unat sz \<le> 2 ^ get_index_from i sz) \<and>
   (\<forall>j. i \<le> j \<and> j < get_index_from i sz \<longrightarrow> 2 ^ j < unat sz)"
proof (induction i sz rule: get_index_from.induct)
  case (1 i sz)
  have pow: "i \<le> MAX_CACHE_POW \<Longrightarrow> unat (push_bit i 1 :: u64) = 2 ^ i"
    by (simp add: MAX_CACHE_POW_def push_bit_eq_mult unat_pow2)
  show ?case
  proof (cases "i \<le> MAX_CACHE_POW \<and> sz > push_bit i 1")
    case True
    then have step: "get_index_from i sz = get_index_from (Suc i) sz"
      by (simp add: get_index_from.simps [of i sz])
    have small: "2 ^ i < unat sz" using True pow by (simp add: word_less_unat)
    have IH: "Suc i \<le> get_index_from (Suc i) sz" "get_index_from (Suc i) sz \<le> MAX_CACHE_INDEX"
      "get_index_from (Suc i) sz < MAX_CACHE_INDEX \<Longrightarrow> unat sz \<le> 2 ^ get_index_from (Suc i) sz"
      "\<And>j. Suc i \<le> j \<Longrightarrow> j < get_index_from (Suc i) sz \<Longrightarrow> 2 ^ j < unat sz"
      using "1.IH" True by (auto simp: MAX_CACHE_INDEX_def)
    have "2 ^ j < unat sz" if "i \<le> j" "j < get_index_from (Suc i) sz" for j
      using that IH(4) [of j] small by (cases "j = i") auto
    with step IH show ?thesis by auto
  next
    case False
    then have "get_index_from i sz = i" by (subst get_index_from.simps) auto
    moreover have "unat sz \<le> 2 ^ i" if "i < MAX_CACHE_INDEX"
      using that False pow by (auto simp: MAX_CACHE_INDEX_def word_less_unat not_less)
    ultimately show ?thesis using "1.prems" by auto
  qed
qed

lemma get_index_le: "get_index sz \<le> MAX_CACHE_INDEX"
  using get_index_from_bounds [of 0 sz] by (simp add: get_index_def)

lemma get_index_upper: "get_index sz < MAX_CACHE_INDEX \<Longrightarrow> unat sz \<le> 2 ^ get_index sz"
  using get_index_from_bounds [of 0 sz] by (simp add: get_index_def)

lemma get_index_lower: "j < get_index sz \<Longrightarrow> 2 ^ j < unat sz"
  using get_index_from_bounds [of 0 sz] by (simp add: get_index_def)

lemma get_index_pow2:
  assumes "unat sz = 2 ^ n" "get_index sz < MAX_CACHE_INDEX"
  shows "get_index sz = n"
proof (rule antisym)
  show "get_index sz \<le> n"
  proof (rule ccontr)
    assume "\<not> ?thesis"
    then have "2 ^ n < unat sz" using get_index_lower [of n sz] by simp
    with assms(1) show False by simp
  qed
  show "n \<le> get_index sz" using get_index_upper [OF assms(2)] assms(1) by simp
qed

section \<open>Well-formedness\<close>

definition item_ok :: "ch_memory_item \<Rightarrow> bool" where
  "item_ok item \<longleftrightarrow> m_protect item = M_PROTECT_V \<and> (\<exists>n\<le>63. unat (mi_rsize item) = 2 ^ n) \<and>
     unat (mi_size item) + 48 \<le> unat (mi_rsize item)"

text \<open>The list \<open>i\<close> of the cache holds blocks of exactly \<open>2\<^sup>i\<close> bytes, and counts them.\<close>

definition header_ok :: "nat \<Rightarrow> ch_memory_cache_header \<Rightarrow> bool" where
  "header_ok i h \<longleftrightarrow> (\<forall>item\<in>set (hc_items h). item_ok item \<and> unat (mi_rsize item) = 2 ^ i) \<and>
     hc_n_caches h = of_nat (length (hc_items h))"

definition cache_ok :: "ch_memory_cache \<Rightarrow> bool" where
  "cache_ok mc \<longleftrightarrow> length (cache_headers mc) = MAX_CACHE_INDEX \<and>
     (\<forall>i<MAX_CACHE_INDEX. header_ok i (cache_headers mc ! i))"

definition memory_ok :: "ch_memory \<Rightarrow> bool" where
  "memory_ok mm \<longleftrightarrow> use_size mm = use_sys_size mm + use_dpdk_size mm \<and>
     (case mcache mm of None \<Rightarrow> True | Some mc \<Rightarrow> cache_ok mc)"

lemma header_ok_init [simp]: "header_ok i (cache_header_init t)"
  by (simp add: header_ok_def cache_header_init_def)

lemma cache_ok_update:
  "cache_ok mc \<Longrightarrow> header_ok i h \<Longrightarrow> cache_ok (mc\<lparr>cache_headers := (cache_headers mc)[i := h]\<rparr>)"
  by (auto simp: cache_ok_def nth_list_update')

lemma cache_ok_cur_size [simp]: "cache_ok (mc\<lparr>cur_cache_size := x\<rparr>) = cache_ok mc"
  by (simp add: cache_ok_def)

lemma memory_ok_create: "memory_ok (ch_memory_create env max_size tmo)"
  by (simp add: memory_ok_def ch_memory_create_def cache_ok_def ch_memory_cache_create_def)

text \<open>
  How far the total is from the sum of the two sources; 0 in every state of the allocator.
\<close>

definition imbalance :: "ch_memory \<Rightarrow> u64" where
  "imbalance mm = use_size mm - (use_sys_size mm + use_dpdk_size mm)"

lemma imbalance_0: "imbalance mm = 0 \<longleftrightarrow> use_size mm = use_sys_size mm + use_dpdk_size mm"
  by (simp add: imbalance_def)

text \<open>Freeing blocks that carry the guard value never aborts.\<close>

lemma ch_memory_item_free_ok:
  assumes "m_protect item = M_PROTECT_V"
  obtains mm' where "ch_memory_item_free mm item = Inr mm'" "mcache mm' = mcache mm"
    "use_size mm' = use_size mm - mi_size item"
    "imbalance mm' = imbalance mm"
  using assms that by (cases "mi_type item") (auto simp: ch_memory_item_free_def Let_def imbalance_def)

lemma ch_memory_items_free_ok:
  "\<forall>item\<in>set items. m_protect item = M_PROTECT_V \<Longrightarrow>
   \<exists>mm'. ch_memory_items_free mm items = Inr mm' \<and> mcache mm' = mcache mm \<and>
     use_size mm' = use_size mm - sum_list (map mi_size items) \<and>
     imbalance mm' = imbalance mm"
proof (induction items arbitrary: mm)
  case (Cons item items)
  obtain mm1 where mm1: "ch_memory_item_free mm item = Inr mm1" "mcache mm1 = mcache mm"
    "use_size mm1 = use_size mm - mi_size item"
    "imbalance mm1 = imbalance mm"
    using ch_memory_item_free_ok [of item mm] Cons.prems by auto
  with Cons.IH [of mm1] Cons.prems show ?case
    by (auto simp: algebra_simps)
qed simp

lemma ch_memory_headers_reset_ok:
  "\<forall>h\<in>set hs. \<forall>item\<in>set (hc_items h). m_protect item = M_PROTECT_V \<Longrightarrow>
   \<exists>mm'. ch_memory_headers_reset env mm hs =
       Inr (mm', replicate (length hs) (cache_header_init (now env))) \<and> mcache mm' = mcache mm \<and>
     use_size mm' = use_size mm - sum_list (map (\<lambda>h. sum_list (map mi_size (hc_items h))) hs) \<and>
     imbalance mm' = imbalance mm"
proof (induction hs arbitrary: mm)
  case (Cons h hs)
  obtain mm1 where mm1: "ch_memory_items_free mm (hc_items h) = Inr mm1" "mcache mm1 = mcache mm"
    "use_size mm1 = use_size mm - sum_list (map mi_size (hc_items h))"
    "imbalance mm1 = imbalance mm"
    using ch_memory_items_free_ok [of "hc_items h" mm] Cons.prems by auto
  with Cons.IH [of mm1] Cons.prems show ?case
    by (auto simp: algebra_simps)
qed simp

lemma cache_ok_protect:
  "cache_ok mc \<Longrightarrow> \<forall>h\<in>set (cache_headers mc). \<forall>item\<in>set (hc_items h). m_protect item = M_PROTECT_V"
  by (metis cache_ok_def header_ok_def item_ok_def in_set_conv_nth)

lemma ch_memory_cache_reset_ok:
  assumes "cache_ok mc"
  obtains mm' where
    "ch_memory_cache_reset env mm mc = Inr (mm', mc\<lparr>cur_cache_size := 0,
       cache_headers := replicate MAX_CACHE_INDEX (cache_header_init (now env))\<rparr>)"
    "mcache mm' = mcache mm"
    "use_size mm' = use_size mm - sum_list (map (\<lambda>h. sum_list (map mi_size (hc_items h))) (cache_headers mc))"
    "imbalance mm' = imbalance mm"
  using ch_memory_headers_reset_ok [OF cache_ok_protect [OF assms], of env mm] assms that
  by (auto simp: ch_memory_cache_reset_def cache_ok_def)


lemma ch_memory_cache_update_ok:
  assumes mc: "cache_ok mc" and item: "item_ok item"
  obtains cached mm' mc' where
    "ch_memory_cache_update env mm mc item = Inr (cached, mm', mc')"
    "cache_ok mc'" "mcache mm' = mcache mm" "imbalance mm' = imbalance mm"
proof -
  obtain mm1 mc1 where 1: "(if cur_cache_size mc + mi_rsize item > max_cache_size mc
        then ch_memory_cache_reset env mm mc else Inr (mm, mc)) = Inr (mm1, mc1)"
    and mc1: "cache_ok mc1" and mm1: "mcache mm1 = mcache mm" "imbalance mm1 = imbalance mm"
  proof (cases "cur_cache_size mc + mi_rsize item > max_cache_size mc")
    case True
    obtain mm' where "ch_memory_cache_reset env mm mc = Inr (mm', mc\<lparr>cur_cache_size := 0,
       cache_headers := replicate MAX_CACHE_INDEX (cache_header_init (now env))\<rparr>)"
      "mcache mm' = mcache mm" "imbalance mm' = imbalance mm"
      by (rule ch_memory_cache_reset_ok [OF mc])
    with True show ?thesis 
      by (intro that [of mm' "mc\<lparr>cur_cache_size := 0,
       cache_headers := replicate MAX_CACHE_INDEX (cache_header_init (now env))\<rparr>"]) (simp_all add: cache_ok_def)
  qed (use mc that in auto)
  let ?i = "get_index (mi_rsize item)" and ?h = "cache_headers mc1 ! get_index (mi_rsize item)"
  let ?h' = "?h\<lparr>hc_n_caches := hc_n_caches ?h + 1, hc_items := item # hc_items ?h\<rparr>"
  have "header_ok ?i ?h'" if "?i < MAX_CACHE_INDEX"
  proof -
    have "unat (mi_rsize item) = 2 ^ ?i" using item get_index_pow2 that by (auto simp: item_ok_def)
    with mc1 item that show ?thesis by (simp add: cache_ok_def header_ok_def)
  qed
  then have "cache_ok (mc1\<lparr>cache_headers := (cache_headers mc1)[?i := ?h']\<rparr>)" if "?i < MAX_CACHE_INDEX"
    using cache_ok_update [OF mc1] that by blast
  with mc1 mm1 have "\<exists>cached mm' mc'. ch_memory_cache_update env mm mc item = Inr (cached, mm', mc') \<and>
    cache_ok mc' \<and> mcache mm' = mcache mm \<and> imbalance mm' = imbalance mm"
    unfolding ch_memory_cache_update_def 1 by (auto simp: Let_def not_le)
  with that show thesis by blast
qed

lemma ch_memory_free_total:
  assumes "memory_ok mm" "item_ok item"
  shows "\<exists>mm'. ch_memory_free env mm item = Inr mm' \<and> memory_ok mm'"
proof -
  have prot: "m_protect item = M_PROTECT_V" using assms(2) by (simp add: item_ok_def)
  obtain cached mm1 where 1: "(case mcache mm of
             None \<Rightarrow> Inr (False, mm)
           | Some mc \<Rightarrow> bind_res (ch_memory_cache_update env mm mc item) (\<lambda>(cached, mm, mc).
               Inr (cached, mm\<lparr>mcache := Some mc\<rparr>))) = Inr (cached, mm1)"
    and mm1: "memory_ok mm1"
  proof (cases "mcache mm")
    case None
    with assms(1) show ?thesis by (intro that [of False mm]) simp_all
  next
    case (Some mc)
    then have "cache_ok mc" using assms(1) by (simp add: memory_ok_def)
    then obtain cached mm' mc' where "ch_memory_cache_update env mm mc item = Inr (cached, mm', mc')"
      "cache_ok mc'" "imbalance mm' = imbalance mm"
      using ch_memory_cache_update_ok [of mc item env mm] assms(2) by metis
    with Some assms(1) show ?thesis
      by (intro that [of cached "mm'\<lparr>mcache := Some mc'\<rparr>"]) (auto simp: memory_ok_def imbalance_def)
  qed
  show ?thesis
    using 1 mm1 prot
    by (cases "mi_type item") (auto simp: ch_memory_free_def Let_def memory_ok_def)
qed

lemma ch_memory_cache_find_ok:
  assumes mc: "cache_ok mc"
  shows "cache_ok (snd (ch_memory_cache_find env mc sz))"
    and "fst (ch_memory_cache_find env mc sz) = Some item \<Longrightarrow> unat sz = 2 ^ n \<Longrightarrow>
         item_ok item \<and> mi_rsize item = sz"
proof -
  let ?i = "get_index sz"
  have h: "header_ok ?i (cache_headers mc ! ?i)" if "?i < MAX_CACHE_INDEX"
    using mc that by (simp add: cache_ok_def)
  have "header_ok ?i ((cache_headers mc ! ?i)\<lparr>last_find_time := t, n_nohits := x\<rparr>)"
    if "?i < MAX_CACHE_INDEX" for t x
    using h [OF that] by (simp add: header_ok_def)
  moreover have "header_ok ?i ((cache_headers mc ! ?i)\<lparr>last_find_time := t, hc_items := rest,
      n_hits := x, hc_n_caches := hc_n_caches (cache_headers mc ! ?i) - 1\<rparr>)"
    if "?i < MAX_CACHE_INDEX" "hc_items (cache_headers mc ! ?i) = a # rest" for t x a rest
    using h [OF that(1)] that(2) by (simp add: header_ok_def)
  ultimately show "cache_ok (snd (ch_memory_cache_find env mc sz))"
    using mc by (auto simp: ch_memory_cache_find_def Let_def not_le intro!: cache_ok_update
        split: list.splits)
  assume "fst (ch_memory_cache_find env mc sz) = Some item" "unat sz = 2 ^ n"
  moreover from this have "?i < MAX_CACHE_INDEX"
    by (auto simp: ch_memory_cache_find_def Let_def split: if_splits)
  moreover from calculation have "item \<in> set (hc_items (cache_headers mc ! ?i))"
    by (auto simp: ch_memory_cache_find_def Let_def split: if_splits list.splits)
  ultimately show "item_ok item \<and> mi_rsize item = sz"
    using h get_index_pow2 [of sz n] by (auto simp: header_ok_def word_unat_eq_iff)
qed

lemma do_memory_alloc_ok:
  assumes "memory_ok mm" "unat sz + 48 \<le> 2 ^ 63" "do_memory_alloc env mm sz is_zero = (r, mm')"
  shows "memory_ok mm' \<and>
    (case r of
       None \<Rightarrow> \<not> rte_malloc_ok env (ch_align64pow2 (sz + 48)) \<and> \<not> malloc_ok env (ch_align64pow2 (sz + 48))
     | Some (item, zeroed) \<Rightarrow> item_ok item \<and> mi_size item = sz \<and>
         mi_rsize item = ch_align64pow2 (sz + 48))"
proof -
  let ?r = "ch_align64pow2 (sz + 48)"
  have sum: "unat (sz + 48) = unat sz + 48"
    using assms(2) by (subst unat_plus64) auto
  obtain n where n: "n \<le> 63" "unat ?r = 2 ^ n" "unat sz + 48 \<le> 2 ^ n"
    using align64pow2_bounds [of "sz + 48"] assms(2) sum by auto
  have big: "unat sz + 48 \<le> unat ?r" using n by simp
  show ?thesis
  proof (cases "mcache mm")
    case None
    with assms(1,3) n big show ?thesis
      by (auto simp: do_memory_alloc_def sizeof_ch_memory_item_def memory_ok_def
          item_ok_def Let_def split: if_splits)
  next
    case (Some mc)
    then have mc: "cache_ok mc" using assms(1) by (simp add: memory_ok_def)
    obtain hit mc' where f: "ch_memory_cache_find env mc ?r = (hit, mc')" by fastforce
    have mc': "cache_ok mc'" using ch_memory_cache_find_ok(1) [OF mc, of env ?r] f by simp
    show ?thesis
    proof (cases hit)
      case None
      with assms(1,3) n big mc' f Some show ?thesis
        by (auto simp: do_memory_alloc_def sizeof_ch_memory_item_def memory_ok_def
            item_ok_def Let_def split: if_splits)
    next
      case hit: (Some item)
      then have "item_ok item" using ch_memory_cache_find_ok(2) [OF mc, of env ?r item n] f n by simp
      with assms(1,3) n big mc' f Some hit show ?thesis
        by (auto simp: do_memory_alloc_def sizeof_ch_memory_item_def memory_ok_def
            item_ok_def Let_def)
    qed
  qed
qed


text \<open>
  \<^verbatim>\<open>ch_memory_alloc\<close> returns blocks that are large enough, cache hits included: the
  block's real size is a power of two that holds the header and the requested bytes. The
  allocator stays well-formed, and it fails only when both \<^verbatim>\<open>rte_malloc\<close> and \<^verbatim>\<open>malloc\<close> do.
\<close>

theorem ch_memory_alloc_ok:
  assumes "memory_ok mm" "unat sz + 48 \<le> 2 ^ 63" "ch_memory_alloc env mm sz = (r, mm')"
  shows "memory_ok mm' \<and>
    (case r of
       None \<Rightarrow> \<not> rte_malloc_ok env (ch_align64pow2 (sz + 48)) \<and> \<not> malloc_ok env (ch_align64pow2 (sz + 48))
     | Some item \<Rightarrow> item_ok item \<and> mi_size item = sz \<and> mi_rsize item = ch_align64pow2 (sz + 48))"
  using assms do_memory_alloc_ok [of mm sz env False]
  by (fastforce simp: ch_memory_alloc_def split: prod.splits option.splits)

section \<open>Accounting\<close>

text \<open>
  The bytes in the cache and the slack of the cached blocks (what they hold beyond the size
  they were last asked for), and the bytes in the hands of the clients according to the
  counters.
\<close>

definition cache_bytes :: "ch_memory_cache \<Rightarrow> u64" where
  "cache_bytes mc = sum_list (map (\<lambda>h. sum_list (map mi_rsize (hc_items h))) (cache_headers mc))"

definition cache_asked :: "ch_memory_cache \<Rightarrow> u64" where
  "cache_asked mc = sum_list (map (\<lambda>h. sum_list (map mi_size (hc_items h))) (cache_headers mc))"

definition live_bytes :: "ch_memory \<Rightarrow> u64" where
  "live_bytes mm = use_size mm - (case mcache mm of None \<Rightarrow> 0 | Some mc \<Rightarrow> cache_bytes mc)"

lemma cache_bytes_update:
  "i < length (cache_headers mc) \<Longrightarrow>
   cache_bytes (mc\<lparr>cache_headers := (cache_headers mc)[i := h]\<rparr>) =
     cache_bytes mc - sum_list (map mi_rsize (hc_items (cache_headers mc ! i))) + sum_list (map mi_rsize (hc_items h))"
  by (simp add: cache_bytes_def sum_list_map_update)

lemma cache_bytes_cur_size [simp]: "cache_bytes (mc\<lparr>cur_cache_size := x\<rparr>) = cache_bytes mc"
  by (simp add: cache_bytes_def)

lemma cache_bytes_reset [simp]:
  "cache_bytes (mc\<lparr>cur_cache_size := x, cache_headers := replicate n (cache_header_init t)\<rparr>) = 0"
  by (simp add: cache_bytes_def cache_header_init_def sum_list_replicate)

text \<open>The reset condition of \<^verbatim>\<open>ch_memory_cache_update\<close>, and the slack a reset loses count of.\<close>

definition free_resets :: "ch_memory \<Rightarrow> ch_memory_item \<Rightarrow> bool" where
  "free_resets mm item = (case mcache mm of None \<Rightarrow> False
     | Some mc \<Rightarrow> cur_cache_size mc + mi_rsize item > max_cache_size mc)"

definition reset_slack :: "ch_memory \<Rightarrow> u64" where
  "reset_slack mm = (case mcache mm of None \<Rightarrow> 0 | Some mc \<Rightarrow> cache_bytes mc - cache_asked mc)"

lemma ch_memory_cache_update_bytes:
  assumes mc: "cache_ok mc"
    and upd: "ch_memory_cache_update env mm mc item = Inr (cached, mm', mc')"
  shows "use_size mm' - cache_bytes mc' =
    use_size mm - cache_bytes mc - (if cached then mi_rsize item else 0) +
    (if cur_cache_size mc + mi_rsize item > max_cache_size mc then cache_bytes mc - cache_asked mc else 0)"
proof -
  obtain mm1 mc1 where 1: "(if cur_cache_size mc + mi_rsize item > max_cache_size mc
        then ch_memory_cache_reset env mm mc else Inr (mm, mc)) = Inr (mm1, mc1)"
    and len: "length (cache_headers mc1) = MAX_CACHE_INDEX"
    and b: "use_size mm1 - cache_bytes mc1 = use_size mm - cache_bytes mc +
      (if cur_cache_size mc + mi_rsize item > max_cache_size mc then cache_bytes mc - cache_asked mc else 0)"
  proof (cases "cur_cache_size mc + mi_rsize item > max_cache_size mc")
    case True
    obtain mm' where "ch_memory_cache_reset env mm mc = Inr (mm', mc\<lparr>cur_cache_size := 0,
       cache_headers := replicate MAX_CACHE_INDEX (cache_header_init (now env))\<rparr>)"
      "use_size mm' = use_size mm - cache_asked mc"
      unfolding cache_asked_def by (rule ch_memory_cache_reset_ok [OF mc])
    with True show ?thesis 
      by (intro that [of mm' "mc\<lparr>cur_cache_size := 0,
       cache_headers := replicate MAX_CACHE_INDEX (cache_header_init (now env))\<rparr>"]) simp_all
  next
    case False
    with mc show ?thesis by (intro that [of mm mc]) (simp_all add: cache_ok_def)
  qed
  have "get_index (mi_rsize item) < MAX_CACHE_INDEX \<Longrightarrow>
    get_index (mi_rsize item) < length (cache_headers mc1)" by (simp add: len)
  note bytes = cache_bytes_update [OF this]
  show ?thesis using upd 1 b
    by (auto simp: ch_memory_cache_update_def Let_def bytes not_le split: if_splits)
qed

text \<open>
  What \<^verbatim>\<open>use_size\<close> says is in the clients' hands goes down by the block's size when a
  block is freed, whether the cache takes it or not, except that a free which resets the
  cache leaves the counters too high by the slack of the blocks it drops: for those
  \<^verbatim>\<open>ch_memory_item_free\<close> subtracts \<^verbatim>\<open>size\<close> where \<^verbatim>\<open>rsize\<close> had been added.
\<close>

theorem ch_memory_free_live_bytes:
  assumes "memory_ok mm" "item_ok item" "ch_memory_free env mm item = Inr mm'"
  shows "live_bytes mm' =
    live_bytes mm - mi_rsize item + (if free_resets mm item then reset_slack mm else 0)"
proof (cases "mcache mm")
  case None
  with assms(3) show ?thesis
    by (cases "mi_type item") (auto simp: ch_memory_free_def Let_def live_bytes_def free_resets_def
        split: if_splits)
next
  case (Some mc)
  then have mc: "cache_ok mc" using assms(1) by (simp add: memory_ok_def)
  obtain cached mm1 mc1 where 1: "ch_memory_cache_update env mm mc item = Inr (cached, mm1, mc1)"
    by (rule ch_memory_cache_update_ok [OF mc assms(2)])
  from ch_memory_cache_update_bytes [OF mc 1] Some 1 assms(3) show ?thesis
    by (cases "mi_type item")
      (auto simp: ch_memory_free_def Let_def live_bytes_def free_resets_def reset_slack_def
        diff_eq_eq split: if_splits)
qed


section \<open>The interface the clients rely on\<close>

text \<open>
  A client sees an allocator through what it promises of every block: it can always be freed
  again. \<open>free_seq\<close> frees blocks one after the other.
\<close>

fun free_seq :: "('mm \<Rightarrow> 'item \<Rightarrow> 'mm res) \<Rightarrow> 'mm \<Rightarrow> 'item list \<Rightarrow> 'mm res" where
  "free_seq free mm [] = Inr mm"
| "free_seq free mm (item # items) = bind_res (free mm item) (\<lambda>mm. free_seq free mm items)"

lemma free_seq_append:
  "free_seq free mm (xs @ ys) = bind_res (free_seq free mm xs) (\<lambda>mm. free_seq free mm ys)"
  by (induction xs arbitrary: mm) (auto simp: bind_res_def split: sum.splits)

locale block_allocator =
  fixes alloc :: "'env \<Rightarrow> 'mm \<Rightarrow> size_t \<Rightarrow> 'item option \<times> 'mm"
    and free :: "'env \<Rightarrow> 'mm \<Rightarrow> 'item \<Rightarrow> 'mm res"
    and mm_ok :: "'mm \<Rightarrow> bool"
    and block_ok :: "size_t \<Rightarrow> 'item \<Rightarrow> bool"
  assumes alloc_keeps: "mm_ok mm \<Longrightarrow> unat sz + 48 \<le> 2 ^ 63 \<Longrightarrow> alloc env mm sz = (r, mm') \<Longrightarrow> mm_ok mm'"
    and alloc_block: "mm_ok mm \<Longrightarrow> unat sz + 48 \<le> 2 ^ 63 \<Longrightarrow> alloc env mm sz = (Some item, mm') \<Longrightarrow>
      block_ok sz item"
    and free_total: "mm_ok mm \<Longrightarrow> block_ok sz item \<Longrightarrow> \<exists>mm'. free env mm item = Inr mm' \<and> mm_ok mm'"
begin

lemma free_seq_total:
  "mm_ok mm \<Longrightarrow> \<forall>item\<in>set items. \<exists>sz. block_ok sz item \<Longrightarrow>
   \<exists>mm'. free_seq (free env) mm items = Inr mm' \<and> mm_ok mm'"
proof (induction items arbitrary: mm)
  case (Cons item items)
  then obtain sz where "block_ok sz item" by auto
  then obtain mm1 where "free env mm item = Inr mm1" "mm_ok mm1"
    using free_total Cons.prems by blast
  with Cons show ?case by auto
qed simp

text \<open>The states a client can reach: the allocator and the blocks it holds.\<close>

inductive client :: "'mm \<Rightarrow> 'mm \<times> 'item list \<Rightarrow> bool" for mm0 where
  start: "mm_ok mm0 \<Longrightarrow> client mm0 (mm0, [])"
| alloc: "client mm0 (mm, held) \<Longrightarrow> unat sz + 48 \<le> 2 ^ 63 \<Longrightarrow> alloc env mm sz = (Some item, mm') \<Longrightarrow>
    client mm0 (mm', item # held)"
| alloc_failed: "client mm0 (mm, held) \<Longrightarrow> unat sz + 48 \<le> 2 ^ 63 \<Longrightarrow> alloc env mm sz = (None, mm') \<Longrightarrow>
    client mm0 (mm', held)"
| free: "client mm0 (mm, held) \<Longrightarrow> i < length held \<Longrightarrow> free env mm (held ! i) = Inr mm' \<Longrightarrow>
    client mm0 (mm', ring_remove i held)"

lemma set_ring_remove: "set (ring_remove i xs) \<subseteq> set xs"
  using set_take_subset set_drop_subset by (fastforce simp: ring_remove_def)

lemma client_ok:
  "client mm0 s \<Longrightarrow> mm_ok (fst s) \<and> (\<forall>item\<in>set (snd s). \<exists>sz. block_ok sz item)"
proof (induction rule: client.induct)
  case (free mm held i env mm')
  then have "held ! i \<in> set held" by simp
  with free obtain sz where "block_ok sz (held ! i)" by fastforce
  then have "mm_ok mm'" using free free_total [of mm sz "held ! i" env] by auto
  then show ?case using free set_ring_remove [of i held] by auto
next
  case (alloc mm held sz env item mm')
  then have "mm_ok mm'" "block_ok sz item" using alloc_keeps alloc_block by (auto simp del: One_nat_def)
  with alloc.IH show ?case by auto
qed (use alloc_keeps in auto)

lemma client_free:
  "client mm0 (mm, held) \<Longrightarrow> item \<in> set held \<Longrightarrow> \<exists>mm'. free env mm item = Inr mm' \<and> mm_ok mm'"
  using client_ok [of mm0 "(mm, held)"] free_total by auto

end

text \<open>The block allocator of the session pool is one: a block of size \<open>sz\<close> holds \<open>sz\<close> bytes.\<close>

definition block_of :: "size_t \<Rightarrow> ch_memory_item \<Rightarrow> bool" where
  "block_of sz item \<longleftrightarrow> item_ok item \<and> mi_size item = sz"

interpretation mem: block_allocator ch_memory_alloc ch_memory_free memory_ok block_of
proof
  fix mm sz env r mm'
  assume a: "memory_ok mm" "unat sz + 48 \<le> 2 ^ 63" "ch_memory_alloc env mm sz = (r, mm')"
  then obtain r' where r': "do_memory_alloc env mm sz False = (r', mm')" "r = map_option fst r'"
    by (auto simp: ch_memory_alloc_def split: prod.splits)
  note ok = do_memory_alloc_ok [OF a(1,2) r'(1)]
  from ok show "memory_ok mm'" by simp
  fix item
  assume "ch_memory_alloc env mm sz = (Some item, mm')"
  with a(3) r'(2) obtain z where "r' = Some (item, z)" by (cases r') auto
  with ok show "block_of sz item" by (simp add: block_of_def)
next
  fix mm sz item env
  assume "memory_ok mm" "block_of sz item"
  then show "\<exists>mm'. ch_memory_free env mm item = Inr mm' \<and> memory_ok mm'"
    by (simp add: block_of_def ch_memory_free_total)
qed

text \<open>
  C4. Starting from a new allocator, a client that frees only blocks it holds never makes
  \<^verbatim>\<open>ch_memory_free\<close> abort, in whatever order it allocates and frees and whether the cache
  takes a block, refuses it or is reset.
\<close>

theorem ch_memory_free_safe:
  assumes "mem.client (ch_memory_create env0 max_size tmo) (mm, held)" "item \<in> set held"
  shows "\<exists>mm'. ch_memory_free env mm item = Inr mm' \<and> memory_ok mm'"
  using assms by (rule mem.client_free)


lemma ch_memory_alloc_some:
  assumes "memory_ok mm" "unat sz + 48 \<le> 2 ^ 63" "\<forall>n. malloc_ok env n" "ch_memory_alloc env mm sz = (r, mm')"
  shows "r \<noteq> None"
proof -
  obtain r' where r': "do_memory_alloc env mm sz False = (r', mm')" "r = map_option fst r'"
    using assms(4) by (auto simp: ch_memory_alloc_def split: prod.splits)
  then have "r' \<noteq> None" using do_memory_alloc_ok [OF assms(1,2) r'(1)] assms(3) by (auto split: option.splits)
  with r'(2) show ?thesis by simp
qed

definition sample_env :: mem_env where
  "sample_env = \<lparr>rte_malloc_ok = (\<lambda>_. False), malloc_ok = (\<lambda>_. True), now = 100\<rparr>"

text \<open>A block asked for 16 bytes, with a new allocator whose cache may hold 64 MB.\<close>

definition sample_item :: ch_memory_item where
  "sample_item = \<lparr>m_protect = 1234, mi_type = FROM_SYS, from_cache = False, mi_size = 16, mi_rsize = 64\<rparr>"

lemma sample_item_ok: "item_ok sample_item"
proof -
  have "unat (mi_rsize sample_item) = 2 ^ 6" by (simp add: sample_item_def)
  then have "\<exists>n\<le>63. unat (mi_rsize sample_item) = 2 ^ n" by (intro exI [of _ 6]) simp
  then show ?thesis by (simp add: item_ok_def sample_item_def M_PROTECT_V_def)
qed

lemma align_64: "ch_align64pow2 64 = 64"
  by (simp add: ch_align64pow2_def Let_def)

lemma sample_alloc:
  "ch_memory_alloc sample_env (ch_memory_create sample_env 0 60) 16 =
     (Some sample_item, (ch_memory_create sample_env 0 60)\<lparr>use_size := 64, use_sys_size := 64\<rparr>)"
  by (simp add: ch_memory_alloc_def do_memory_alloc_def ch_memory_create_def sizeof_ch_memory_item_def
      align_64 sample_env_def sample_item_def M_PROTECT_V_def)

theorem ch_memory_free_safe_witness:
  "mem.client (ch_memory_create sample_env 0 60)
     ((ch_memory_create sample_env 0 60)\<lparr>use_size := 64, use_sys_size := 64\<rparr>, [sample_item]) \<and>
   (\<exists>mm'. ch_memory_free sample_env
       ((ch_memory_create sample_env 0 60)\<lparr>use_size := 64, use_sys_size := 64\<rparr>) sample_item = Inr mm' \<and>
     memory_ok mm')"
proof -
  have "mem.client (ch_memory_create sample_env 0 60) (ch_memory_create sample_env 0 60, [])"
    by (rule mem.client.start) (rule memory_ok_create)
  then have c: "mem.client (ch_memory_create sample_env 0 60)
     ((ch_memory_create sample_env 0 60)\<lparr>use_size := 64, use_sys_size := 64\<rparr>, [sample_item])"
    by (rule mem.client.alloc [OF _ _ sample_alloc]) simp
  with ch_memory_free_safe [OF c, of sample_item sample_env] show ?thesis by simp
qed

theorem ch_memory_alloc_ok_witness:
  "memory_ok (ch_memory_create sample_env 0 60) \<and> item_ok sample_item \<and> mi_rsize sample_item = ch_align64pow2 (16 + 48)"
  using ch_memory_alloc_ok [OF memory_ok_create _ sample_alloc] memory_ok_create by simp

text \<open>An allocator whose cache is over its limit and holds one block of 64 bytes asked for 16.\<close>

definition full_mm :: ch_memory where
  "full_mm = \<lparr>mcache = Some \<lparr>max_cache_size = 0, cur_cache_size = 64, mc_timeout = 60,
       cache_headers = (replicate 17 (cache_header_init 0))[6 :=
         \<lparr>n_hits = 0, n_nohits = 0, hc_n_caches = 1, last_find_time = 0, hc_items = [sample_item]\<rparr>]\<rparr>,
     use_size = 128, use_sys_size = 128, use_dpdk_size = 0, cache_hits_size = 0\<rparr>"

lemma full_mm_ok: "memory_ok full_mm"
proof -
  have "header_ok 6 \<lparr>n_hits = 0, n_nohits = 0, hc_n_caches = 1, last_find_time = 0, hc_items = [sample_item]\<rparr>"
    using sample_item_ok by (simp add: header_ok_def sample_item_def)
  then show ?thesis
    by (auto simp: memory_ok_def full_mm_def cache_ok_def MAX_CACHE_INDEX_def MAX_CACHE_POW_def nth_list_update')
qed

theorem ch_memory_free_live_bytes_witness:
  "\<exists>mm'. ch_memory_free sample_env full_mm sample_item = Inr mm' \<and>
     free_resets full_mm sample_item \<and> reset_slack full_mm = 48 \<and>
     live_bytes mm' = live_bytes full_mm - mi_rsize sample_item + 48"
proof -
  obtain mm' where mm': "ch_memory_free sample_env full_mm sample_item = Inr mm'"
    using ch_memory_free_total [OF full_mm_ok sample_item_ok] by blast
  have "free_resets full_mm sample_item" "reset_slack full_mm = 48"
    by (simp_all add: free_resets_def full_mm_def sample_item_def reset_slack_def cache_bytes_def
        cache_asked_def sum_list_map_update cache_header_init_def sum_list_replicate)
  with ch_memory_free_live_bytes [OF full_mm_ok sample_item_ok mm'] mm' show ?thesis by simp
qed

end
