(* ===== verification/Assemble.thy ===== *)
theory Assemble
  imports Memory
begin

text \<open>
  The reassembly of out-of-order TCP data, \<^verbatim>\<open>tcp/session/ch_assemble_fragment.c\<close>: a ring of
  data fragments ordered by offset, each in a block of the session pool's allocator. A
  fragment that arrives is dropped when a fragment of the ring covers it, replaces the
  fragments it covers, is trimmed to the gap between its neighbours and merged with those it
  touches. Shown here: the ring stays sorted and disjoint with a gap between any two
  fragments, no operation reads or writes outside a buffer or aborts, and the ring holds
  exactly the bytes of the stream at the offsets that were pushed.
\<close>

section \<open>Fragments\<close>

text \<open>
  \<open>data\<close> is the memory from the fragment's pointer to the end of its buffer, \<open>None\<close> for
  \<^verbatim>\<open>NULL\<close>; a fragment of the ring carries the block it lives in.
\<close>

record ch_data_fragment =
  fdata :: "bytes option"
  foffset :: u32
  flen :: u32

record ring_fragment = ch_data_fragment +
  fblock :: ch_memory_item

type_synonym frag_ring = "ring_fragment list"

text \<open>\<^verbatim>\<open>sizeof(ch_data_fragment_t)\<close> under LP64: two links, a pointer and two 32-bit fields.\<close>

definition sizeof_ch_data_fragment :: size_t where "sizeof_ch_data_fragment = 32"

definition frag_end :: "'a ch_data_fragment_scheme \<Rightarrow> u32" where
  "frag_end f = foffset f + flen f"

text \<open>\<^verbatim>\<open>memcpy\<close> from a fragment: \<open>n\<close> bytes from its pointer.\<close>

definition read_data :: "bytes option \<Rightarrow> u32 \<Rightarrow> bytes res" where
  "read_data d n = (case d of None \<Rightarrow> Inl Null_Deref
     | Some bs \<Rightarrow> if unat n \<le> length bs then Inr (take (unat n) bs) else Inl Out_Of_Bounds)"

section \<open>Operations\<close>

fun ch_assemble_fragment_info_get :: "frag_ring \<Rightarrow> size_t \<times> size_t" where
  "ch_assemble_fragment_info_get [] = (0, 0)"
| "ch_assemble_fragment_info_get (df # dfs) =
     (case ch_assemble_fragment_info_get dfs of (c, l) \<Rightarrow> (c + 1, l + ucast (flen df)))"

definition ch_assemble_fragment_init :: frag_ring where
  "ch_assemble_fragment_init = []"

fun ch_assemble_fragment_fin :: "mem_env \<Rightarrow> ch_memory \<Rightarrow> frag_ring \<Rightarrow> (ch_memory \<times> frag_ring) res" where
  "ch_assemble_fragment_fin env mm [] = Inr (mm, [])"
| "ch_assemble_fragment_fin env mm (df # dfs) =
     bind_res (ch_memory_free env mm (fblock df)) (\<lambda>mm. ch_assemble_fragment_fin env mm dfs)"

definition frag_after :: "'a ch_data_fragment_scheme \<Rightarrow> 'b ch_data_fragment_scheme \<Rightarrow> bool" where
  "frag_after a b \<longleftrightarrow> foffset a \<ge> foffset b"

fun first_index :: "('a \<Rightarrow> bool) \<Rightarrow> 'a list \<Rightarrow> nat option" where
  "first_index P [] = None"
| "first_index P (x # xs) = (if P x then Some 0 else map_option Suc (first_index P xs))"

text \<open>The neighbours of a fragment, by their positions in the ring.\<close>

definition data_fragment_neighbors_get ::
  "frag_ring \<Rightarrow> ch_data_fragment \<Rightarrow> nat option \<times> nat option"
where
  "data_fragment_neighbors_get frs cur_df =
     (case first_index (\<lambda>df. frag_after df cur_df) frs of
        Some i \<Rightarrow> (if i = 0 then None else Some (i - 1), Some i)
      | None \<Rightarrow> (if frs = [] then None else Some (length frs - 1), None))"

definition data_fragment_trim ::
  "ch_data_fragment \<Rightarrow> ring_fragment option \<Rightarrow> ring_fragment option \<Rightarrow> ch_data_fragment"
where
  "data_fragment_trim df before after =
     (if fdata df = None then df
      else
        let df = (case before of
              None \<Rightarrow> df
            | Some b \<Rightarrow>
                if frag_end b > foffset df
                then let diff = frag_end b - foffset df
                     in df\<lparr>fdata := map_option (drop (unat diff)) (fdata df),
                           flen := flen df - diff,
                           foffset := foffset df + diff\<rparr>
                else df)
        in (case after of
              None \<Rightarrow> df
            | Some a \<Rightarrow>
                if frag_end df > foffset a
                then let diff = frag_end df - foffset a in df\<lparr>flen := flen df - diff\<rparr>
                else df))"

definition is_data_fragments_mergable ::
  "'a ch_data_fragment_scheme \<Rightarrow> 'b ch_data_fragment_scheme \<Rightarrow> bool"
where
  "is_data_fragments_mergable a b \<longleftrightarrow> frag_end a = foffset b"

text \<open>
  \<^verbatim>\<open>_data_fragments_merge\<close>: allocates the merged fragment, copies the data, links it and
  takes the merged neighbours out. The result is \<open>True\<close> with the new ring, or \<open>False\<close>
  (\<^verbatim>\<open>NULL\<close>) with the old one when there is no memory. Copying more bytes than the block was
  allocated for is a fault. When the fragment before was merged and removed, the one after has
  moved one position to the front.
\<close>

definition data_fragments_merge ::
  "mem_env \<Rightarrow> ch_memory \<Rightarrow> frag_ring \<Rightarrow> ch_data_fragment \<Rightarrow> nat option \<Rightarrow> nat option \<Rightarrow>
   (bool \<times> ch_memory \<times> frag_ring) res"
where
  "data_fragments_merge env mm frs df bi ai =
     (let bfd = map_option ((!) frs) bi;
          afd = map_option ((!) frs) ai;
          ma = (case bfd of None \<Rightarrow> False | Some b \<Rightarrow> is_data_fragments_mergable b df);
          mb = (case afd of None \<Rightarrow> False | Some a \<Rightarrow> is_data_fragments_mergable df a);
          off = (if ma then foffset (the bfd) else foffset df);
          tsize = flen df + (if ma then flen (the bfd) else 0) + (if mb then flen (the afd) else 0)
      in case ch_memory_alloc env mm (ucast tsize + sizeof_ch_data_fragment) of
           (None, mm) \<Rightarrow> Inr (False, mm, frs)
         | (Some blk, mm) \<Rightarrow>
             bind_res (if ma then read_data (fdata (the bfd)) (flen (the bfd)) else Inr []) (\<lambda>d1.
             bind_res (read_data (fdata df) (flen df)) (\<lambda>d2.
             bind_res (if mb then read_data (fdata (the afd)) (flen (the afd)) else Inr []) (\<lambda>d3.
               if length (d1 @ d2 @ d3) > unat tsize then Inl Out_Of_Bounds
               else
                 let mdf = \<lparr>fdata = Some (d1 @ d2 @ d3), foffset = off, flen = tsize, fblock = blk\<rparr>;
                     frs = (case bi of
                         Some b \<Rightarrow> ring_insert_after b mdf frs
                       | None \<Rightarrow> (case ai of
                           Some a \<Rightarrow> ring_insert_before a mdf frs
                         | None \<Rightarrow> mdf # frs));
                     frs = (if ma then ring_remove (the bi) frs else frs)
                 in bind_res (if ma then ch_memory_free env mm (fblock (the bfd)) else Inr mm) (\<lambda>mm.
                    let frs = (if mb then ring_remove (if ma then the ai else Suc (the ai)) frs else frs)
                    in bind_res (if mb then ch_memory_free env mm (fblock (the afd)) else Inr mm) (\<lambda>mm.
                         Inr (True, mm, frs)))))))"

definition data_fragment_covered ::
  "'a ch_data_fragment_scheme \<Rightarrow> 'b ch_data_fragment_scheme \<Rightarrow> bool"
where
  "data_fragment_covered a b \<longleftrightarrow> foffset a \<ge> foffset b \<and> frag_end b \<ge> frag_end a"

fun data_fragment_covered_free ::
  "mem_env \<Rightarrow> ch_memory \<Rightarrow> frag_ring \<Rightarrow> ch_data_fragment \<Rightarrow> (ch_memory \<times> frag_ring \<times> bool) res"
where
  "data_fragment_covered_free env mm [] df = Inr (mm, [], False)"
| "data_fragment_covered_free env mm (c # cs) df =
     (if data_fragment_covered c df then
        bind_res (ch_memory_free env mm (fblock c)) (\<lambda>mm. data_fragment_covered_free env mm cs df)
      else if data_fragment_covered df c then Inr (mm, c # cs, True)
      else bind_res (data_fragment_covered_free env mm cs df) (\<lambda>(mm, cs, is_covered).
             Inr (mm, c # cs, is_covered)))"

text \<open>\<^verbatim>\<open>ch_assemble_fragment_push\<close>: the return code (0 or -1), the allocator and the ring.\<close>

definition ch_assemble_fragment_push ::
  "mem_env \<Rightarrow> ch_memory \<Rightarrow> frag_ring \<Rightarrow> bytes option \<Rightarrow> u32 \<Rightarrow> u32 \<Rightarrow> (int \<times> ch_memory \<times> frag_ring) res"
where
  "ch_assemble_fragment_push env mm frs d dlen off =
     (let tmp_df = \<lparr>fdata = d, foffset = off, flen = dlen\<rparr>
      in bind_res (data_fragment_covered_free env mm frs tmp_df) (\<lambda>(mm, frs, is_covered).
         if is_covered then Inr (0, mm, frs)
         else
           let (bi, ai) = data_fragment_neighbors_get frs tmp_df;
               tmp_df = data_fragment_trim tmp_df (map_option ((!) frs) bi) (map_option ((!) frs) ai)
           in if fdata tmp_df = None \<or> flen tmp_df = 0 then Inr (0, mm, frs)
              else bind_res (data_fragments_merge env mm frs tmp_df bi ai) (\<lambda>(ok, mm, frs).
                     if ok then Inr (0, mm, frs) else Inr (-1, mm, frs))))"

definition is_covered_all :: "ring_fragment \<Rightarrow> u32 \<Rightarrow> bool" where
  "is_covered_all df last_offset \<longleftrightarrow> frag_end df \<le> last_offset"

definition is_covered_partial :: "ring_fragment \<Rightarrow> u32 \<Rightarrow> bool" where
  "is_covered_partial df last_offset \<longleftrightarrow> frag_end df > last_offset \<and> foffset df < last_offset"

fun data_fragments_covered_free ::
  "mem_env \<Rightarrow> ch_memory \<Rightarrow> frag_ring \<Rightarrow> u32 \<Rightarrow> (ch_memory \<times> frag_ring) res"
where
  "data_fragments_covered_free env mm [] last_offset = Inr (mm, [])"
| "data_fragments_covered_free env mm (df # dfs) last_offset =
     (if is_covered_all df last_offset then
        bind_res (ch_memory_free env mm (fblock df)) (\<lambda>mm. data_fragments_covered_free env mm dfs last_offset)
      else if is_covered_partial df last_offset then
        let diff = last_offset - foffset df
        in Inr (mm, df\<lparr>flen := flen df - diff, foffset := foffset df + diff,
                      fdata := map_option (drop (unat diff)) (fdata df)\<rparr> # dfs)
      else Inr (mm, df # dfs))"

text \<open>\<^verbatim>\<open>ch_assemble_fragment_pop\<close>: the fragment that starts at \<open>last_offset\<close>, taken out.\<close>

definition ch_assemble_fragment_pop ::
  "mem_env \<Rightarrow> ch_memory \<Rightarrow> frag_ring \<Rightarrow> u32 \<Rightarrow> (ring_fragment option \<times> ch_memory \<times> frag_ring) res"
where
  "ch_assemble_fragment_pop env mm frs last_offset =
     (if frs = [] then Inr (None, mm, frs)
      else bind_res (data_fragments_covered_free env mm frs last_offset) (\<lambda>(mm, frs).
        case frs of
          [] \<Rightarrow> Inr (None, mm, frs)
        | df # dfs \<Rightarrow> if last_offset = foffset df then Inr (Some df, mm, dfs) else Inr (None, mm, frs)))"

definition ch_assemble_data_fragment_free ::
  "mem_env \<Rightarrow> ch_memory \<Rightarrow> ring_fragment option \<Rightarrow> ch_memory res"
where
  "ch_assemble_data_fragment_free env mm df =
     (case df of None \<Rightarrow> Inr mm | Some df \<Rightarrow> ch_memory_free env mm (fblock df))"


section \<open>Fragments as intervals of offsets\<close>

text \<open>
  A fragment whose end does not pass the 32-bit range is the interval from \<open>lo\<close> to \<open>hi\<close>; the
  code's comparisons are then comparisons of natural numbers.
\<close>

definition lo :: "'a ch_data_fragment_scheme \<Rightarrow> nat" where
  "lo f = unat (foffset f)"

definition hi :: "'a ch_data_fragment_scheme \<Rightarrow> nat" where
  "hi f = unat (foffset f) + unat (flen f)"

definition in_range :: "'a ch_data_fragment_scheme \<Rightarrow> bool" where
  "in_range f \<longleftrightarrow> hi f < 2 ^ 32"

definition frag_bytes :: "'a ch_data_fragment_scheme \<Rightarrow> bytes" where
  "frag_bytes f = take (unat (flen f)) (case fdata f of None \<Rightarrow> [] | Some bs \<Rightarrow> bs)"

definition frag_ok :: "'a ch_data_fragment_scheme \<Rightarrow> bool" where
  "frag_ok f \<longleftrightarrow> in_range f \<and> lo f < hi f \<and> (\<exists>bs. fdata f = Some bs \<and> unat (flen f) \<le> length bs)"

definition block_held :: "ring_fragment \<Rightarrow> bool" where
  "block_held f \<longleftrightarrow> (\<exists>sz. block_of sz (fblock f))"

definition ring_ok :: "frag_ring \<Rightarrow> bool" where
  "ring_ok frs \<longleftrightarrow> (\<forall>f\<in>set frs. frag_ok f \<and> block_held f) \<and> sorted_wrt (\<lambda>a b. hi a < lo b) frs"

definition cover :: "'a ch_data_fragment_scheme list \<Rightarrow> nat set" where
  "cover frs = (\<Union>f\<in>set frs. {lo f..<hi f})"

text \<open>The bytes of a fragment are those of the stream \<open>strm\<close> at its offsets.\<close>

definition agrees :: "(nat \<Rightarrow> u8) \<Rightarrow> 'a ch_data_fragment_scheme \<Rightarrow> bool" where
  "agrees strm f \<longleftrightarrow> frag_bytes f = map strm [lo f..<hi f]"

named_theorems frag_nat \<open>fragment comparisons as facts on natural numbers\<close>

lemma unat_frag_end [frag_nat]: "in_range f \<Longrightarrow> unat (frag_end f) = hi f"
  by (simp add: in_range_def hi_def frag_end_def unat_plus32)

lemma frag_end_gt [frag_nat]: "in_range f \<Longrightarrow> frag_end f > x \<longleftrightarrow> hi f > unat x"
  by (simp add: word_less_unat unat_frag_end)

lemma covered_nat [frag_nat]:
  "in_range a \<Longrightarrow> in_range b \<Longrightarrow> data_fragment_covered a b \<longleftrightarrow> lo b \<le> lo a \<and> hi a \<le> hi b"
  by (simp add: data_fragment_covered_def word_le_unat unat_frag_end lo_def)

lemma mergable_nat [frag_nat]:
  "in_range a \<Longrightarrow> is_data_fragments_mergable a b \<longleftrightarrow> hi a = lo b"
  by (simp add: is_data_fragments_mergable_def word_unat_eq_iff unat_frag_end lo_def)

lemma frag_after_nat [frag_nat]: "frag_after a b \<longleftrightarrow> lo b \<le> lo a"
  by (simp add: frag_after_def word_le_unat lo_def)

lemma hi_lo: "hi f = lo f + unat (flen f)"
  by (simp add: hi_def lo_def)

lemma frag_okD: "frag_ok f \<Longrightarrow> in_range f \<and> lo f < hi f"
  by (simp add: frag_ok_def)

lemma read_data_ok: "frag_ok f \<Longrightarrow> read_data (fdata f) (flen f) = Inr (frag_bytes f)"
  by (auto simp: frag_ok_def read_data_def frag_bytes_def)

lemma length_frag_bytes: "frag_ok f \<Longrightarrow> length (frag_bytes f) = hi f - lo f"
  by (auto simp: frag_ok_def frag_bytes_def hi_def lo_def)

lemma ring_ok_Nil [simp]: "ring_ok []"
  by (simp add: ring_ok_def)

lemma cover_Nil [simp]: "cover [] = {}"
  by (simp add: cover_def)

lemma cover_Cons [simp]: "cover (f # fs) = {lo f..<hi f} \<union> cover fs"
  by (simp add: cover_def)

lemma cover_append [simp]: "cover (xs @ ys) = cover xs \<union> cover ys"
  by (simp add: cover_def)

section \<open>Freeing the covered fragments\<close>

lemma block_held_free:
  assumes "memory_ok mm" "block_held f"
  obtains mm' where "ch_memory_free env mm (fblock f) = Inr mm'" "memory_ok mm'"
  using assms mem.free_total [of mm _ "fblock f" env] by (auto simp: block_held_def)

lemma covered_free_ok:
  assumes "memory_ok mm" "ring_ok frs" "in_range df"
  shows "\<exists>mm' frs' cov. data_fragment_covered_free env mm frs df = Inr (mm', frs', cov) \<and>
    memory_ok mm' \<and> ring_ok frs' \<and> set frs' \<subseteq> set frs \<and>
    cover frs' \<union> {lo df..<hi df} = cover frs \<union> {lo df..<hi df} \<and>
    (cov \<longrightarrow> {lo df..<hi df} \<subseteq> cover frs') \<and>
    (\<not> cov \<longrightarrow> (\<forall>f\<in>set frs'. \<not> data_fragment_covered f df \<and> \<not> data_fragment_covered df f))"
  using assms
proof (induction frs arbitrary: mm)
  case Nil
  then show ?case by (intro exI [of _ mm] exI [of _ "[]"] exI [of _ False]) simp
next
  case (Cons c cs)
  then have c: "in_range c" "block_held c" "frag_ok c" and cs: "ring_ok cs"
    by (auto simp: ring_ok_def frag_ok_def)
  consider (drop) "data_fragment_covered c df"
    | (stop) "\<not> data_fragment_covered c df" "data_fragment_covered df c"
    | (keep) "\<not> data_fragment_covered c df" "\<not> data_fragment_covered df c" by blast
  then show ?case
  proof cases
    case drop
    then have sub: "{lo c..<hi c} \<subseteq> {lo df..<hi df}" using c Cons.prems(3) by (auto simp: frag_nat)
    obtain mm1 where "ch_memory_free env mm (fblock c) = Inr mm1" "memory_ok mm1"
      using block_held_free Cons.prems(1) c(2) by blast
    moreover obtain mm2 cs' cov where "data_fragment_covered_free env mm1 cs df = Inr (mm2, cs', cov)"
      "memory_ok mm2" "ring_ok cs'" "set cs' \<subseteq> set cs"
      "cover cs' \<union> {lo df..<hi df} = cover cs \<union> {lo df..<hi df}"
      "cov \<longrightarrow> {lo df..<hi df} \<subseteq> cover cs'"
      "\<not> cov \<longrightarrow> (\<forall>f\<in>set cs'. \<not> data_fragment_covered f df \<and> \<not> data_fragment_covered df f)"
      using Cons.IH [OF \<open>memory_ok mm1\<close> cs Cons.prems(3)] by blast
    moreover have "cover (c # cs) \<union> {lo df..<hi df} = cover cs \<union> {lo df..<hi df}"
      using sub unfolding cover_Cons by blast
    ultimately show ?thesis using drop
      by (intro exI [of _ mm2] exI [of _ cs'] exI [of _ cov]) (simp only: data_fragment_covered_free.simps
        bind_res_simps if_True simp_thms list.set subset_insertI2)
  next
    case stop
    then have "{lo df..<hi df} \<subseteq> {lo c..<hi c}" using c Cons.prems(3) by (auto simp: frag_nat)
    with stop Cons.prems(1,2) show ?thesis
      by (intro exI [of _ mm] exI [of _ "c # cs"] exI [of _ True]) auto
  next
    case keep
    obtain mm1 cs' cov where IH: "data_fragment_covered_free env mm cs df = Inr (mm1, cs', cov)"
      "memory_ok mm1" "ring_ok cs'" "set cs' \<subseteq> set cs"
      "cover cs' \<union> {lo df..<hi df} = cover cs \<union> {lo df..<hi df}"
      "cov \<longrightarrow> {lo df..<hi df} \<subseteq> cover cs'"
      "\<not> cov \<longrightarrow> (\<forall>f\<in>set cs'. \<not> data_fragment_covered f df \<and> \<not> data_fragment_covered df f)"
      using Cons.IH [of mm] Cons.prems cs by blast
    have "ring_ok (c # cs')" using Cons.prems(2) IH(3,4) by (auto simp: ring_ok_def)
    with keep IH show ?thesis by auto
  qed
qed

section \<open>The neighbours of a fragment\<close>

lemma first_index_split:
  "first_index P xs = (if dropWhile (\<lambda>x. \<not> P x) xs = [] then None else Some (length (takeWhile (\<lambda>x. \<not> P x) xs)))"
  by (induction xs) auto

definition before_idx :: "'a list \<Rightarrow> nat option" where
  "before_idx xs = (if xs = [] then None else Some (length xs - 1))"

definition after_idx :: "'a list \<Rightarrow> 'a list \<Rightarrow> nat option" where
  "after_idx xs ys = (if ys = [] then None else Some (length xs))"

text \<open>A sorted ring splits at the offset of the fragment, into what starts before it and the rest.\<close>

lemma neighbors_split:
  assumes "ring_ok frs"
  obtains xs ys where "frs = xs @ ys"
    "data_fragment_neighbors_get frs df = (before_idx xs, after_idx xs ys)"
    "\<forall>x\<in>set xs. lo x < lo df" "\<forall>y\<in>set ys. lo df \<le> lo y"
proof -
  let ?xs = "takeWhile (\<lambda>x. \<not> frag_after x df) frs" and ?ys = "dropWhile (\<lambda>x. \<not> frag_after x df) frs"
  have split: "frs = ?xs @ ?ys" by simp
  have ys: "\<forall>y\<in>set ?ys. lo df \<le> lo y"
  proof (cases ?ys)
    case (Cons z zs)
    then have z: "lo df \<le> lo z" using hd_dropWhile [of "\<lambda>x. \<not> frag_after x df" frs] by (simp add: frag_after_nat)
    have "sorted_wrt (\<lambda>a b. hi a < lo b) (z # zs)" "frag_ok z"
      using assms split Cons unfolding ring_ok_def by (metis sorted_wrt_append, metis in_set_conv_decomp)
    then show ?thesis using z frag_okD [of z] unfolding Cons by fastforce
  next
    case Nil
    show ?thesis unfolding Nil by simp
  qed
  have xs: "\<forall>x\<in>set ?xs. lo x < lo df" by (auto dest: set_takeWhileD simp: frag_after_nat)
  have nb: "data_fragment_neighbors_get frs df = (before_idx ?xs, after_idx ?xs ?ys)"
  proof (cases "?ys = []")
    case True
    then have "?xs = frs" using split by (metis append_Nil2)
    then have "data_fragment_neighbors_get frs df = (before_idx frs, None)"
      using True unfolding data_fragment_neighbors_get_def first_index_split before_idx_def if_P [OF True] by simp
    then show ?thesis unfolding after_idx_def if_P [OF True] \<open>?xs = frs\<close> .
  next
    case False
    then show ?thesis
      unfolding data_fragment_neighbors_get_def first_index_split before_idx_def after_idx_def if_not_P [OF False]
      by simp
  qed
  show thesis using that [OF split nb xs ys] .
qed

lemma nth_before_idx: "map_option ((!) (xs @ ys)) (before_idx xs) = (if xs = [] then None else Some (last xs))"
  by (simp add: before_idx_def nth_append last_conv_nth)

lemma nth_after_idx: "map_option ((!) (xs @ ys)) (after_idx xs ys) = (if ys = [] then None else Some (hd ys))"
  by (simp add: after_idx_def nth_append hd_conv_nth)


section \<open>Trimming\<close>

lemma trim_bounds:
  assumes df: "frag_ok df"
    and b: "\<And>b. before = Some b \<Longrightarrow> in_range b \<and> hi b < hi df"
    and a: "\<And>a. after = Some a \<Longrightarrow> lo df < lo a"
    and ab: "\<And>a b. before = Some b \<Longrightarrow> after = Some a \<Longrightarrow> hi b < lo a"
  shows "frag_ok (data_fragment_trim df before after)"
    and "lo (data_fragment_trim df before after) =
      (case before of None \<Rightarrow> lo df | Some b \<Rightarrow> max (lo df) (hi b))"
    and "hi (data_fragment_trim df before after) =
      (case after of None \<Rightarrow> hi df | Some a \<Rightarrow> min (hi df) (lo a))"
    and "agrees strm df \<Longrightarrow> agrees strm (data_fragment_trim df before after)"
proof -
  obtain bs where bs: "fdata df = Some bs" "unat (flen df) \<le> length bs"
    and rng: "in_range df" "lo df < hi df" using df by (auto simp: frag_ok_def)
  define df1 where "df1 = (case before of None \<Rightarrow> df
    | Some b \<Rightarrow> if frag_end b > foffset df
        then let diff = frag_end b - foffset df
             in df\<lparr>fdata := map_option (drop (unat diff)) (fdata df),
                   flen := flen df - diff, foffset := foffset df + diff\<rparr>
        else df)"
  have df1: "frag_ok df1 \<and> hi df1 = hi df \<and>
      lo df1 = (case before of None \<Rightarrow> lo df | Some b \<Rightarrow> max (lo df) (hi b)) \<and>
      (agrees strm df \<longrightarrow> agrees strm df1)"
  proof (cases "\<exists>b. before = Some b \<and> frag_end b > foffset df")
    case False
    then show ?thesis using df b by (auto simp: df1_def max_def frag_nat lo_def split: option.splits)
  next
    case True
    then obtain b' where b': "before = Some b'" "frag_end b' > foffset df" by blast
    define diff where "diff = frag_end b' - foffset df"
    have nb: "hi b' < hi df" "lo df < hi b'" "unat (frag_end b') = hi b'"
      using b b' by (auto simp: frag_nat lo_def)
    have d: "unat diff = hi b' - lo df"
      using b'(2) nb by (simp add: diff_def unat_sub lo_def)
    have dl: "diff \<le> flen df" using nb d by (simp add: word_le_unat hi_lo)
    have eq: "df1 = df\<lparr>fdata := Some (drop (unat diff) bs), flen := flen df - diff, foffset := foffset df + diff\<rparr>"
      using b' bs by (simp add: df1_def diff_def Let_def)
    have l: "unat (flen df - diff) = hi df - hi b'" using dl d nb by (simp add: unat_sub hi_lo)
    have o: "unat (foffset df + diff) = hi b'"
      using d nb rng by (subst unat_plus32) (auto simp: in_range_def lo_def)
    have "take (hi df - hi b') (drop (hi b' - lo df) bs) = drop (hi b' - lo df) (take (unat (flen df)) bs)"
      using nb by (simp add: drop_take hi_lo add.commute)
    moreover have "drop (hi b' - lo df) (map strm [lo df..<hi df]) = map strm [hi b'..<hi df]"
      using nb by (simp add: drop_map drop_upt)
    ultimately have "agrees strm df \<Longrightarrow> agrees strm df1"
      using nb bs d l o by (simp add: eq agrees_def frag_bytes_def lo_def hi_def)
    then show ?thesis
      using nb bs d l o rng b'(1) by (auto simp: eq frag_ok_def in_range_def lo_def hi_def)
  qed
  define df2 where "df2 = data_fragment_trim df before after"
  have df2: "df2 = (case after of None \<Rightarrow> df1
    | Some a \<Rightarrow> if frag_end df1 > foffset a
        then let diff = frag_end df1 - foffset a in df1\<lparr>flen := flen df1 - diff\<rparr> else df1)"
    using bs unfolding df2_def data_fragment_trim_def df1_def [symmetric] by (simp add: Let_def)
  have "frag_ok df2 \<and> lo df2 = lo df1 \<and>
      hi df2 = (case after of None \<Rightarrow> hi df1 | Some a \<Rightarrow> min (hi df1) (lo a)) \<and>
      (agrees strm df1 \<longrightarrow> agrees strm df2)"
  proof (cases "\<exists>a. after = Some a \<and> frag_end df1 > foffset a")
    case False
    then show ?thesis using df1 frag_okD [of df1]
      by (auto simp: df2 min_def frag_nat lo_def split: option.splits)
  next
    case True
    then obtain a' where a': "after = Some a'" "frag_end df1 > foffset a'" by blast
    define diff where "diff = frag_end df1 - foffset a'"
    have r1: "in_range df1" using df1 by (simp add: frag_ok_def)
    have na: "lo a' < hi df1" "lo df1 < lo a'"
      using a a' ab b df1 r1 by (auto simp: frag_nat lo_def split: option.splits)
    have d: "unat diff = hi df1 - lo a'" using unat_sub [of "foffset a'" "frag_end df1"] a'(2) unat_frag_end [OF r1] by (simp add: diff_def lo_def)
    have dl: "diff \<le> flen df1" using na d by (simp add: word_le_unat hi_lo)
    have l: "unat (flen df1 - diff) = lo a' - lo df1" using dl d na by (simp add: unat_sub hi_lo)
    have eq: "df2 = df1\<lparr>flen := flen df1 - diff\<rparr>" using a' by (simp add: df2 diff_def Let_def)
    have "lo df1 + (lo a' - lo df1) = lo a'" using na by simp
    then have "agrees strm df1 \<Longrightarrow> agrees strm df2"
    proof -
      assume "agrees strm df1"
      then have "take (lo a' - lo df1) (frag_bytes df1) = map strm (take (lo a' - lo df1) [lo df1..<hi df1])"
        by (simp add: agrees_def take_map)
      moreover have "take (lo a' - lo df1) (frag_bytes df1) = frag_bytes df2"
        using na l by (simp add: eq frag_bytes_def hi_lo)
      ultimately show ?thesis using na l by (simp add: agrees_def eq lo_def hi_def take_upt)
    qed
    then show ?thesis
      using na l df1 a'(1) by (auto simp: eq frag_ok_def in_range_def lo_def hi_def)
  qed
  with df1 show "frag_ok (data_fragment_trim df before after)"
    and "lo (data_fragment_trim df before after) =
      (case before of None \<Rightarrow> lo df | Some b \<Rightarrow> max (lo df) (hi b))"
    and "hi (data_fragment_trim df before after) =
      (case after of None \<Rightarrow> hi df | Some a \<Rightarrow> min (hi df) (lo a))"
    and "agrees strm df \<Longrightarrow> agrees strm (data_fragment_trim df before after)"
    unfolding df2_def by (auto split: option.splits)
qed

section \<open>Merging\<close>

lemma merge_insert:
  "(case before_idx xs of
      Some b \<Rightarrow> ring_insert_after b m (xs @ ys)
    | None \<Rightarrow> (case after_idx xs ys of
        Some a \<Rightarrow> ring_insert_before a m (xs @ ys)
      | None \<Rightarrow> m # (xs @ ys))) = xs @ m # ys"
proof (cases xs rule: rev_cases)
  case Nil
  then show ?thesis
    using ring_insert_before_append [of "[]" m ys] by (simp add: before_idx_def after_idx_def)
next
  case (snoc zs z)
  then show ?thesis by (simp add: before_idx_def)
qed

definition merges_before :: "ring_fragment list \<Rightarrow> ch_data_fragment \<Rightarrow> bool" where
  "merges_before xs df \<longleftrightarrow> xs \<noteq> [] \<and> hi (last xs) = lo df"

definition merges_after :: "ch_data_fragment \<Rightarrow> ring_fragment list \<Rightarrow> bool" where
  "merges_after df ys \<longleftrightarrow> ys \<noteq> [] \<and> hi df = lo (hd ys)"

lemma merge_remove:
  assumes "mb \<longrightarrow> xs \<noteq> []" "ma \<longrightarrow> ys \<noteq> []"
    and frs_def: "frs = (if mb then ring_remove (the (before_idx xs)) (xs @ m # ys) else xs @ m # ys)"
  shows "(if ma then ring_remove (if mb then the (after_idx xs ys) else Suc (the (after_idx xs ys))) frs else frs) =
    (if mb then butlast xs else xs) @ m # (if ma then tl ys else ys)"
proof -
  have frs: "frs = (if mb then butlast xs else xs) @ m # ys"
  proof (cases mb)
    case True
    then have "xs @ m # ys = butlast xs @ last xs # m # ys" using assms(1) by simp
    then have "ring_remove (length (butlast xs)) (xs @ m # ys) = butlast xs @ m # ys"
      by (simp only: ring_remove_append)
    then show ?thesis using True assms(1) by (simp add: frs_def before_idx_def)
  qed (simp add: frs_def)
  show ?thesis
  proof (cases ma)
    case True
    then obtain y ys' where ys: "ys = y # ys'" using assms(2) by (cases ys) auto
    let ?p = "if mb then butlast xs else xs"
    have idx: "(if mb then the (after_idx xs ys) else Suc (the (after_idx xs ys))) = Suc (length ?p)"
      using assms(1) by (auto simp: after_idx_def ys)
    have "ring_remove (Suc (length ?p)) (?p @ m # ys) = ?p @ m # tl ys" unfolding ys by simp
    then show ?thesis unfolding idx frs if_P [OF True] .
  qed (simp add: frs)
qed

text \<open>The fragment that replaces \<open>df\<close> and the neighbours it touches, in block \<open>blk\<close>.\<close>

definition merged_fragment ::
  "ring_fragment list \<Rightarrow> ch_data_fragment \<Rightarrow> ring_fragment list \<Rightarrow> ch_memory_item \<Rightarrow> ring_fragment"
where
  "merged_fragment xs df ys blk =
     \<lparr>fdata = Some ((if merges_before xs df then frag_bytes (last xs) else []) @ frag_bytes df @
                   (if merges_after df ys then frag_bytes (hd ys) else [])),
      foffset = (if merges_before xs df then foffset (last xs) else foffset df),
      flen = flen df + (if merges_before xs df then flen (last xs) else 0) +
             (if merges_after df ys then flen (hd ys) else 0),
      fblock = blk\<rparr>"

definition merged_ring ::
  "ring_fragment list \<Rightarrow> ch_data_fragment \<Rightarrow> ring_fragment list \<Rightarrow> ch_memory_item \<Rightarrow> frag_ring"
where
  "merged_ring xs df ys blk =
     (if merges_before xs df then butlast xs else xs) @ merged_fragment xs df ys blk #
     (if merges_after df ys then tl ys else ys)"

text \<open>\<open>df\<close> fits between the fragments \<open>xs\<close> before it and \<open>ys\<close> after it.\<close>

definition fits :: "ring_fragment list \<Rightarrow> ch_data_fragment \<Rightarrow> ring_fragment list \<Rightarrow> bool" where
  "fits xs df ys \<longleftrightarrow> ring_ok (xs @ ys) \<and> frag_ok df \<and> (xs \<noteq> [] \<longrightarrow> hi (last xs) \<le> lo df) \<and>
     (ys \<noteq> [] \<longrightarrow> hi df \<le> lo (hd ys))"

lemma fits_last: "fits xs df ys \<Longrightarrow> xs \<noteq> [] \<Longrightarrow> frag_ok (last xs) \<and> block_held (last xs) \<and> hi (last xs) \<le> lo df"
  by (auto simp: fits_def ring_ok_def)

lemma fits_hd: "fits xs df ys \<Longrightarrow> ys \<noteq> [] \<Longrightarrow> frag_ok (hd ys) \<and> block_held (hd ys) \<and> hi df \<le> lo (hd ys)"
  by (auto simp: fits_def ring_ok_def)

lemma fits_df: "fits xs df ys \<Longrightarrow> frag_ok df"
  by (simp add: fits_def)

lemma merged_bounds:
  assumes "fits xs df ys"
  shows "lo (merged_fragment xs df ys blk) = (if merges_before xs df then lo (last xs) else lo df)"
    and "hi (merged_fragment xs df ys blk) = (if merges_after df ys then hi (hd ys) else hi df)"
    and "frag_ok (merged_fragment xs df ys blk)"
    and "unat (flen (merged_fragment xs df ys blk)) = length (the (fdata (merged_fragment xs df ys blk)))"
proof -
  let ?m = "merged_fragment xs df ys blk"
  let ?l1 = "if merges_before xs df then flen (last xs) else 0"
  let ?l3 = "if merges_after df ys then flen (hd ys) else 0"
  have df: "in_range df" "lo df < hi df" using fits_df [OF assms] by (auto simp: frag_ok_def)
  have l: "merges_before xs df \<Longrightarrow> in_range (last xs) \<and> lo (last xs) < hi (last xs) \<and> hi (last xs) = lo df"
    using fits_last [OF assms] by (auto simp: frag_ok_def merges_before_def)
  have h: "merges_after df ys \<Longrightarrow> in_range (hd ys) \<and> lo (hd ys) < hi (hd ys) \<and> hi df = lo (hd ys)"
    using fits_hd [OF assms] by (auto simp: frag_ok_def merges_after_def)
  have s1: "unat (flen df + ?l1) = unat (flen df) + unat ?l1"
    using l df by (intro unat_plus32) (auto simp: in_range_def hi_lo)
  have s2: "unat (flen df + ?l1 + ?l3) = unat (flen df) + unat ?l1 + unat ?l3"
    using l h df s1 by (subst unat_plus32) (auto simp: in_range_def hi_lo)
  have o: "unat (foffset f) = lo f" for f :: ring_fragment by (simp add: lo_def)
  have o': "unat (foffset f) = lo f" for f :: ch_data_fragment by (simp add: lo_def)
  show lo: "lo ?m = (if merges_before xs df then lo (last xs) else lo df)"
    by (simp add: lo_def merged_fragment_def)
  have len: "unat (flen ?m) = unat (flen df) + unat ?l1 + unat ?l3"
    using s2 by (simp add: merged_fragment_def)
  show hi: "hi ?m = (if merges_after df ys then hi (hd ys) else hi df)"
    unfolding hi_lo [of ?m] lo len using l h by (auto simp: hi_lo)
  have bl: "length (frag_bytes f) = unat (flen f)" if "frag_ok f" for f :: ring_fragment
    using that by (simp add: length_frag_bytes hi_lo)
  have dl: "length (frag_bytes df) = unat (flen df)"
    using fits_df [OF assms] by (simp add: length_frag_bytes hi_lo)
  show len2: "unat (flen ?m) = length (the (fdata ?m))"
    unfolding len using fits_last [OF assms] fits_hd [OF assms] bl dl
    by (simp add: merged_fragment_def merges_before_def merges_after_def)
  show "frag_ok ?m"
    using lo hi len2 df l h unfolding frag_ok_def in_range_def hi_def
    by (auto simp: merged_fragment_def)
qed

lemma sorted_merged:
  assumes "fits xs df ys"
  shows "ring_ok (merged_ring xs df ys blk) \<longleftrightarrow> block_held (merged_fragment xs df ys blk)"
proof -
  let ?m = "merged_fragment xs df ys blk"
  let ?xs = "if merges_before xs df then butlast xs else xs" and ?ys = "if merges_after df ys then tl ys else ys"
  have sorted: "sorted_wrt (\<lambda>a b. hi a < lo b) (xs @ ys)" and ok: "\<forall>f\<in>set (xs @ ys). frag_ok f \<and> block_held f"
    using assms by (auto simp: fits_def ring_ok_def)
  have rng: "lo f < hi f" if "f \<in> set (xs @ ys)" for f using ok that by (auto simp: frag_ok_def)
  have x: "hi f < lo ?m" if f: "f \<in> set ?xs" for f
  proof (cases xs rule: rev_cases)
    case (snoc zs z)
    have fz: "f \<in> set zs \<Longrightarrow> hi f < lo z" using sorted snoc by (auto simp: sorted_wrt_append)
    show ?thesis
    proof (cases "merges_before xs df")
      case True
      then show ?thesis unfolding merged_bounds(1) [OF assms] using f fz snoc by simp
    next
      case False
      then have "hi z < lo df" using fits_last [OF assms] snoc by (auto simp: merges_before_def)
      then show ?thesis unfolding merged_bounds(1) [OF assms] using f fz snoc False rng [of z] by auto
    qed
  qed (use f in \<open>auto split: if_splits\<close>)
  have y: "hi ?m < lo f" if f: "f \<in> set ?ys" for f
  proof (cases ys)
    case (Cons z zs)
    have fz: "f \<in> set zs \<Longrightarrow> hi z < lo f" using sorted Cons by (auto simp: sorted_wrt_append)
    show ?thesis
    proof (cases "merges_after df ys")
      case True
      then show ?thesis unfolding merged_bounds(2) [OF assms] using f fz Cons by simp
    next
      case False
      then have "hi df < lo z" using fits_hd [OF assms] Cons by (auto simp: merges_after_def)
      then show ?thesis unfolding merged_bounds(2) [OF assms] using f fz Cons False rng [of z] by auto
    qed
  qed (use f in \<open>auto split: if_splits\<close>)
  have sub: "set ?xs \<subseteq> set xs" "set ?ys \<subseteq> set ys" by (auto dest: in_set_butlastD in_set_tlD)
  have sx: "sorted_wrt (\<lambda>a b. hi a < lo b) ?xs"
    using sorted by (auto simp: sorted_wrt_append butlast_conv_take intro: sorted_wrt_take)
  have sy: "sorted_wrt (\<lambda>a b. hi a < lo b) ?ys"
    using sorted by (cases ys) (auto simp: sorted_wrt_append)
  have xy: "hi a < lo b" if "a \<in> set ?xs" "b \<in> set ?ys" for a b
    using sorted that sub by (fastforce simp: sorted_wrt_append)
  have "sorted_wrt (\<lambda>a b. hi a < lo b) (merged_ring xs df ys blk)"
    unfolding merged_ring_def sorted_wrt_append sorted_wrt.simps list.set using x y xy sx sy by blast
  moreover have "\<forall>f\<in>set (merged_ring xs df ys blk). f = ?m \<or> frag_ok f \<and> block_held f"
    using ok sub unfolding merged_ring_def by auto
  moreover have "?m \<in> set (merged_ring xs df ys blk)" by (simp add: merged_ring_def)
  ultimately show ?thesis using merged_bounds(3) [OF assms, of blk] unfolding ring_ok_def by metis
qed

lemma merged_cover:
  assumes "fits xs df ys"
  shows "cover (merged_ring xs df ys blk) = cover (xs @ ys) \<union> {lo df..<hi df}"
proof -
  have l: "xs \<noteq> [] \<Longrightarrow> cover xs = cover (butlast xs) \<union> {lo (last xs)..<hi (last xs)}"
    by (cases xs rule: rev_cases) auto
  have h: "ys \<noteq> [] \<Longrightarrow> cover ys = {lo (hd ys)..<hi (hd ys)} \<union> cover (tl ys)"
    by (cases ys) auto
  have lo: "merges_before xs df \<Longrightarrow> xs \<noteq> [] \<and> lo (last xs) < hi (last xs) \<and> hi (last xs) = lo df"
    using fits_last [OF assms] by (auto simp: merges_before_def frag_ok_def)
  have hi: "merges_after df ys \<Longrightarrow> ys \<noteq> [] \<and> lo (hd ys) < hi (hd ys) \<and> hi df = lo (hd ys)"
    using fits_hd [OF assms] by (auto simp: merges_after_def frag_ok_def)
  have d: "lo df < hi df" using fits_df [OF assms] by (simp add: frag_ok_def)
  let ?m = "merged_fragment xs df ys blk"
  have "{lo ?m..<hi ?m} = (if merges_before xs df then {lo (last xs)..<hi (last xs)} else {}) \<union> {lo df..<hi df} \<union>
      (if merges_after df ys then {lo (hd ys)..<hi (hd ys)} else {})"
    unfolding merged_bounds(1,2) [OF assms] using lo hi d by auto
  then show ?thesis using l h lo hi unfolding merged_ring_def cover_append cover_Cons by auto
qed

lemma map_upt_append: "i \<le> j \<Longrightarrow> j \<le> k \<Longrightarrow> map f [i..<j] @ map f [j..<k] = map f [i..<k]"
  by (metis le_add_diff_inverse map_append upt_add_eq_append)

lemma merged_agrees:
  assumes "fits xs df ys" "agrees strm df" "\<forall>f\<in>set (xs @ ys). agrees strm f"
  shows "\<forall>f\<in>set (merged_ring xs df ys blk). agrees strm f"
proof -
  let ?m = "merged_fragment xs df ys blk"
  have d: "lo df < hi df" using fits_df [OF assms(1)] by (simp add: frag_ok_def)
  have lo: "merges_before xs df \<Longrightarrow> lo (last xs) < hi (last xs) \<and> hi (last xs) = lo df \<and> agrees strm (last xs)"
    using fits_last [OF assms(1)] assms(3) by (auto simp: merges_before_def frag_ok_def)
  have hi: "merges_after df ys \<Longrightarrow> lo (hd ys) < hi (hd ys) \<and> hi df = lo (hd ys) \<and> agrees strm (hd ys)"
    using fits_hd [OF assms(1)] assms(3) by (auto simp: merges_after_def frag_ok_def)
  have "frag_bytes ?m = the (fdata ?m)"
    unfolding frag_bytes_def merged_bounds(4) [OF assms(1)] by (simp add: merged_fragment_def)
  also have "\<dots> = map strm [lo ?m..<hi ?m]"
    unfolding merged_bounds(1,2) [OF assms(1)] using lo hi d assms(2)
    by (auto simp: merged_fragment_def agrees_def map_upt_append)
  finally have "agrees strm ?m" by (simp add: agrees_def)
  then show ?thesis using assms(3) unfolding merged_ring_def
    by (auto dest: in_set_butlastD in_set_tlD)
qed

lemma merge_eq:
  assumes "fits xs df ys" "ch_memory_alloc env mm (ucast (flen (merged_fragment xs df ys blk)) + 32) = (r, mm1)"
  shows "data_fragments_merge env mm (xs @ ys) df (before_idx xs) (after_idx xs ys) =
    (case r of
       None \<Rightarrow> Inr (False, mm1, xs @ ys)
     | Some blk \<Rightarrow>
         bind_res (if merges_before xs df then ch_memory_free env mm1 (fblock (last xs)) else Inr mm1) (\<lambda>mm2.
         bind_res (if merges_after df ys then ch_memory_free env mm2 (fblock (hd ys)) else Inr mm2) (\<lambda>mm3.
           Inr (True, mm3, merged_ring xs df ys blk))))"
proof -
  have m1: "(case if xs = [] then None else Some (last xs) of None \<Rightarrow> False
      | Some b \<Rightarrow> is_data_fragments_mergable b df) = merges_before xs df"
    using fits_last [OF assms(1)] by (auto simp: merges_before_def frag_ok_def frag_nat)
  have m2: "(case if ys = [] then None else Some (hd ys) of None \<Rightarrow> False
      | Some a \<Rightarrow> is_data_fragments_mergable df a) = merges_after df ys"
    using fits_df [OF assms(1)] by (auto simp: merges_after_def frag_ok_def frag_nat)
  have l: "merges_before xs df \<Longrightarrow> xs \<noteq> [] \<and> read_data (fdata (last xs)) (flen (last xs)) = Inr (frag_bytes (last xs))"
    using fits_last [OF assms(1)] read_data_ok by (auto simp: merges_before_def)
  have h: "merges_after df ys \<Longrightarrow> ys \<noteq> [] \<and> read_data (fdata (hd ys)) (flen (hd ys)) = Inr (frag_bytes (hd ys))"
    using fits_hd [OF assms(1)] read_data_ok by (auto simp: merges_after_def)
  have d: "read_data (fdata df) (flen df) = Inr (frag_bytes df)"
    using read_data_ok fits_df [OF assms(1)] by blast
  have len: "unat (flen (merged_fragment xs df ys b)) = length ((if merges_before xs df then frag_bytes (last xs) else []) @
      frag_bytes df @ (if merges_after df ys then frag_bytes (hd ys) else []))" for b
    using merged_bounds(4) [OF assms(1), of b] by (simp add: merged_fragment_def)
  have ts: "flen df + (if merges_before xs df then flen (the (if xs = [] then None else Some (last xs))) else 0) +
      (if merges_after df ys then flen (the (if ys = [] then None else Some (hd ys))) else 0) =
      flen (merged_fragment xs df ys blk)"
    using l h by (simp add: merged_fragment_def)
  have r1: "(if merges_before xs df then read_data (fdata (the (if xs = [] then None else Some (last xs))))
      (flen (the (if xs = [] then None else Some (last xs)))) else Inr []) =
      Inr (if merges_before xs df then frag_bytes (last xs) else [])"
    using l by simp
  have r3: "(if merges_after df ys then read_data (fdata (the (if ys = [] then None else Some (hd ys))))
      (flen (the (if ys = [] then None else Some (hd ys)))) else Inr []) =
      Inr (if merges_after df ys then frag_bytes (hd ys) else [])"
    using h by simp
  have f1: "(if merges_before xs df then ch_memory_free env mm' (fblock (the (if xs = [] then None else Some (last xs))))
      else Inr mm') = (if merges_before xs df then ch_memory_free env mm' (fblock (last xs)) else Inr mm')" for mm'
    using l by simp
  have f3: "(if merges_after df ys then ch_memory_free env mm' (fblock (the (if ys = [] then None else Some (hd ys))))
      else Inr mm') = (if merges_after df ys then ch_memory_free env mm' (fblock (hd ys)) else Inr mm')" for mm'
    using h by simp
  have mdf: "\<lparr>fdata = Some ((if merges_before xs df then frag_bytes (last xs) else []) @ frag_bytes df @
        (if merges_after df ys then frag_bytes (hd ys) else [])),
      foffset = (if merges_before xs df then foffset (the (if xs = [] then None else Some (last xs))) else foffset df),
      flen = flen (merged_fragment xs df ys blk), fblock = b\<rparr> = merged_fragment xs df ys b" for b
    using l by (simp add: merged_fragment_def)
  note rem = merge_remove [of "merges_before xs df" xs "merges_after df ys" ys, OF _ _ refl]
  show ?thesis
    unfolding data_fragments_merge_def nth_before_idx nth_after_idx Let_def m1 m2 ts sizeof_ch_data_fragment_def assms(2)
      r1 d r3 bind_res_simps mdf merge_insert f1 f3
    using l h rem len [of blk] by (cases r) (simp_all add: merged_ring_def)
qed

lemma merge_ok:
  assumes "memory_ok mm" "fits xs df ys"
  shows "\<exists>ok mm' frs'. data_fragments_merge env mm (xs @ ys) df (before_idx xs) (after_idx xs ys) = Inr (ok, mm', frs') \<and>
    memory_ok mm' \<and> ((\<forall>n. malloc_ok env n) \<longrightarrow> ok) \<and> (\<not> ok \<longrightarrow> frs' = xs @ ys) \<and>
    (ok \<longrightarrow> (\<exists>blk. frs' = merged_ring xs df ys blk \<and> ring_ok frs'))"
proof -
  let ?sz = "ucast (flen (merged_fragment xs df ys undefined)) + 32 :: size_t"
  obtain r mm1 where al: "ch_memory_alloc env mm ?sz = (r, mm1)" by fastforce
  have sz: "unat ?sz + 48 \<le> 2 ^ 63"
    using unat_lt32 [of "flen (merged_fragment xs df ys undefined)"] by (subst unat_plus64) (simp_all del: unat_lt32)
  have mm1: "memory_ok mm1" using mem.alloc_keeps [OF assms(1) sz al] .
  note eq = merge_eq [OF assms(2) al]
  show ?thesis
  proof (cases r)
    case None
    then have "\<not> (\<forall>n. malloc_ok env n)" using ch_memory_alloc_some [OF assms(1) sz _ al] by blast
    with None eq mm1 show ?thesis
      by (intro exI [of _ False] exI [of _ mm1] exI [of _ "xs @ ys"]) simp
  next
    case (Some blk)
    have "block_of ?sz blk" using mem.alloc_block [OF assms(1) sz] al Some by blast
    then have "block_held (merged_fragment xs df ys blk)" by (auto simp: block_held_def merged_fragment_def)
    then have ring: "ring_ok (merged_ring xs df ys blk)" using sorted_merged [OF assms(2)] by blast
    obtain mm2 where mm2: "(if merges_before xs df then ch_memory_free env mm1 (fblock (last xs)) else Inr mm1) = Inr mm2"
      "memory_ok mm2"
      using block_held_free [OF mm1] fits_last [OF assms(2)] mm1 by (metis merges_before_def)
    obtain mm3 where mm3: "(if merges_after df ys then ch_memory_free env mm2 (fblock (hd ys)) else Inr mm2) = Inr mm3"
      "memory_ok mm3"
      using block_held_free [OF mm2(2)] fits_hd [OF assms(2)] mm2(2) by (metis merges_after_def)
    have "data_fragments_merge env mm (xs @ ys) df (before_idx xs) (after_idx xs ys) = Inr (True, mm3, merged_ring xs df ys blk)"
      unfolding eq Some option.case mm2(1) bind_res_simps mm3(1) ..
    with mm3(2) ring show ?thesis by blast
  qed
qed

section \<open>Pushing a fragment\<close>

text \<open>A fragment that no fragment of the ring covers, and that covers none, fits after the trimming.\<close>

lemma trimmed_fits:
  assumes ring: "ring_ok (xs @ ys)" and df: "frag_ok df"
    and un: "\<forall>f\<in>set (xs @ ys). \<not> data_fragment_covered f df \<and> \<not> data_fragment_covered df f"
    and xs: "\<forall>x\<in>set xs. lo x < lo df" and ys: "\<forall>y\<in>set ys. lo df \<le> lo y"
  defines "df' \<equiv> data_fragment_trim df (if xs = [] then None else Some (last xs)) (if ys = [] then None else Some (hd ys))"
  shows "fits xs df' ys" "cover (xs @ ys) \<union> {lo df'..<hi df'} = cover (xs @ ys) \<union> {lo df..<hi df}"
    "agrees strm df \<Longrightarrow> agrees strm df'"
proof -
  let ?b = "if xs = [] then None else Some (last xs)" and ?a = "if ys = [] then None else Some (hd ys)"
  have ok: "frag_ok f \<and> \<not> data_fragment_covered f df \<and> \<not> data_fragment_covered df f" if "f \<in> set xs \<union> set ys" for f
    using ring un that by (auto simp: ring_ok_def)
  have r: "in_range df" "lo df < hi df" using df by (auto simp: frag_ok_def)
  have b: "in_range (last xs) \<and> hi (last xs) < hi df \<and> lo (last xs) < lo df" if "xs \<noteq> []"
    using ok [of "last xs"] bspec [OF xs, of "last xs"] that r by (auto simp: frag_ok_def covered_nat)
  have a: "lo df < lo (hd ys) \<and> hi df < hi (hd ys)" if "ys \<noteq> []"
    using ok [of "hd ys"] bspec [OF ys, of "hd ys"] that r by (auto simp: frag_ok_def covered_nat)
  have ab: "hi (last xs) < lo (hd ys)" if "xs \<noteq> []" "ys \<noteq> []"
    using ring that by (auto simp: ring_ok_def sorted_wrt_append)
  note tb = trim_bounds [OF df, where before = ?b and after = ?a, folded df'_def]
  have pre: "\<And>b. ?b = Some b \<Longrightarrow> in_range b \<and> hi b < hi df" "\<And>a. ?a = Some a \<Longrightarrow> lo df < lo a"
    "\<And>a b. ?b = Some b \<Longrightarrow> ?a = Some a \<Longrightarrow> hi b < lo a"
    using a b ab by (auto split: if_splits)
  note t = tb [OF pre, simplified]
  show "fits xs df' ys" using ring t(1,2,3) by (auto simp: fits_def)
  show "agrees strm df \<Longrightarrow> agrees strm df'" using t(4) .
  have cb: "{lo (last xs)..<hi (last xs)} \<subseteq> cover (xs @ ys)" if "xs \<noteq> []"
    using that by (cases xs rule: rev_cases) auto
  have ca: "{lo (hd ys)..<hi (hd ys)} \<subseteq> cover (xs @ ys)" if "ys \<noteq> []"
    using that by (cases ys) auto
  have "{lo df'..<hi df'} \<subseteq> {lo df..<hi df}" using t(2,3) by (auto split: if_splits)
  moreover have "{lo df..<hi df} \<subseteq> cover (xs @ ys) \<union> {lo df'..<hi df'}"
  proof
    fix k assume k: "k \<in> {lo df..<hi df}"
    have "xs \<noteq> [] \<and> k < hi (last xs) \<or> ys \<noteq> [] \<and> lo (hd ys) \<le> k \<or> k \<in> {lo df'..<hi df'}"
      using k t(2,3) by (auto split: if_splits)
    then consider "xs \<noteq> []" "k < hi (last xs)" | "ys \<noteq> []" "lo (hd ys) \<le> k" | "k \<in> {lo df'..<hi df'}"
      by blast
    then show "k \<in> cover (xs @ ys) \<union> {lo df'..<hi df'}"
    proof cases
      case 1
      then show ?thesis using cb b k by (auto dest!: subsetD [of _ _ k])
    next
      case 2
      then show ?thesis using ca a k by (auto dest!: subsetD [of _ _ k])
    qed auto
  qed
  ultimately show "cover (xs @ ys) \<union> {lo df'..<hi df'} = cover (xs @ ys) \<union> {lo df..<hi df}" by blast
qed

lemma push_ok:
  assumes mm: "memory_ok mm" and ring: "ring_ok frs"
    and df: "frag_ok df" and df_def: "df = \<lparr>fdata = d, foffset = off, flen = dlen\<rparr>"
  shows "\<exists>rc mm' frs'. ch_assemble_fragment_push env mm frs d dlen off = Inr (rc, mm', frs') \<and>
    memory_ok mm' \<and> ring_ok frs' \<and> rc \<in> {0, -1} \<and> ((\<forall>n. malloc_ok env n) \<longrightarrow> rc = 0) \<and>
    cover frs - {lo df..<hi df} \<subseteq> cover frs' \<and>
    (rc = 0 \<longrightarrow> cover frs' = cover frs \<union> {lo df..<hi df}) \<and>
    (rc = -1 \<longrightarrow> cover frs' \<subseteq> cover frs) \<and>
    ((\<forall>f\<in>set frs. agrees strm f) \<and> agrees strm df \<longrightarrow> (\<forall>f\<in>set frs'. agrees strm f))"
proof -
  have r: "in_range df" using df by (simp add: frag_ok_def)
  obtain mm1 frs1 cov where cf: "data_fragment_covered_free env mm frs df = Inr (mm1, frs1, cov)" "memory_ok mm1"
    "ring_ok frs1" "set frs1 \<subseteq> set frs" "cover frs1 \<union> {lo df..<hi df} = cover frs \<union> {lo df..<hi df}"
    "cov \<longrightarrow> {lo df..<hi df} \<subseteq> cover frs1"
    "\<not> cov \<longrightarrow> (\<forall>f\<in>set frs1. \<not> data_fragment_covered f df \<and> \<not> data_fragment_covered df f)"
    using covered_free_ok [OF mm ring r, of env] by blast
  have sub: "cover frs1 \<subseteq> cover frs" using cf(4) by (auto simp: cover_def)
  show ?thesis
  proof (cases cov)
    case True
    then have "ch_assemble_fragment_push env mm frs d dlen off = Inr (0, mm1, frs1)"
      by (simp add: ch_assemble_fragment_push_def df_def [symmetric] cf(1))
    then show ?thesis using cf(2-6) True sub by (intro exI [of _ 0] exI [of _ mm1] exI [of _ frs1]) auto
  next
    case False
    then have un: "\<forall>f\<in>set frs1. \<not> data_fragment_covered f df \<and> \<not> data_fragment_covered df f" using cf(7) by blast
    obtain xs ys where sp: "frs1 = xs @ ys" "data_fragment_neighbors_get frs1 df = (before_idx xs, after_idx xs ys)"
      "\<forall>x\<in>set xs. lo x < lo df" "\<forall>y\<in>set ys. lo df \<le> lo y" using neighbors_split [OF cf(3)] .
    define df' where "df' = data_fragment_trim df (if xs = [] then None else Some (last xs)) (if ys = [] then None else Some (hd ys))"
    note tf = trimmed_fits [OF cf(3) [unfolded sp(1)] df un [unfolded sp(1)] sp(3,4), folded df'_def]
    obtain ok mm2 frs2 where mg: "data_fragments_merge env mm1 (xs @ ys) df' (before_idx xs) (after_idx xs ys) = Inr (ok, mm2, frs2)"
      "memory_ok mm2" "(\<forall>n. malloc_ok env n) \<longrightarrow> ok" "\<not> ok \<longrightarrow> frs2 = xs @ ys"
      "ok \<longrightarrow> (\<exists>blk. frs2 = merged_ring xs df' ys blk \<and> ring_ok frs2)"
      using merge_ok [OF cf(2) tf(1), of env] by blast
    have ne: "fdata df' \<noteq> None" "flen df' \<noteq> 0"
      using fits_df [OF tf(1)] by (auto simp: frag_ok_def hi_lo)
    have ev: "ch_assemble_fragment_push env mm frs d dlen off = Inr (if ok then 0 else -1, mm2, frs2)"
      unfolding ch_assemble_fragment_push_def Let_def df_def [symmetric] cf(1) bind_res_simps prod.case if_not_P [OF False] sp(2)
      unfolding sp(1) nth_before_idx nth_after_idx df'_def [symmetric] using mg(1) ne by auto
    show ?thesis
    proof (cases ok)
      case True
      then obtain blk where blk: "frs2 = merged_ring xs df' ys blk" "ring_ok frs2" using mg(5) by blast
      have "cover frs2 = cover frs \<union> {lo df..<hi df}"
        using merged_cover [OF tf(1), of blk] tf(2) cf(5) sp(1) blk(1) by auto
      moreover have "(\<forall>f\<in>set frs. agrees strm f) \<and> agrees strm df \<longrightarrow> (\<forall>f\<in>set frs2. agrees strm f)"
        using merged_agrees [OF tf(1) tf(3), of strm blk] cf(4) sp(1) blk(1) by blast
      ultimately show ?thesis unfolding ev using True mg(2) blk(2) by auto
    next
      case False
      then have "frs2 = frs1" "\<not> (\<forall>n. malloc_ok env n)" using mg(3,4) sp(1) by auto
      then show ?thesis unfolding ev using False mg(2) cf(3-5) sub by auto
    qed
  qed
qed

section \<open>Popping a fragment\<close>

lemma cut_front:
  assumes ok: "frag_ok df" and cut: "lo df < unat off" "unat off < hi df"
  defines "df' \<equiv> df\<lparr>flen := flen df - (off - foffset df), foffset := foffset df + (off - foffset df),
    fdata := map_option (drop (unat (off - foffset df))) (fdata df)\<rparr>"
  shows "frag_ok df'" "lo df' = unat off" "hi df' = hi df" "agrees strm df \<Longrightarrow> agrees strm df'"
proof -
  have le: "foffset df \<le> off" using cut(1) by (simp add: word_le_unat lo_def)
  have d: "unat (off - foffset df) = unat off - lo df" using le by (simp add: unat_sub lo_def)
  have "off - foffset df \<le> flen df" using cut d by (simp add: word_le_unat hi_lo)
  then have l: "unat (flen df - (off - foffset df)) = hi df - unat off"
    using cut d by (simp add: unat_sub hi_lo)
  show lo: "lo df' = unat off" by (simp add: df'_def lo_def)
  have fl: "unat (flen df') = hi df - unat off" using l by (simp add: df'_def)
  show hi: "hi df' = hi df" unfolding hi_lo [of df'] lo fl using cut by simp
  obtain bs where bs: "fdata df = Some bs" "unat (flen df) \<le> length bs" using ok by (auto simp: frag_ok_def)
  have fd: "fdata df' = Some (drop (unat off - lo df) bs)" using bs d by (simp add: df'_def)
  show "frag_ok df'"
    using ok cut bs fd lo hi fl by (auto simp: frag_ok_def in_range_def hi_lo)
  assume "agrees strm df"
  then have "drop (unat off - lo df) (take (unat (flen df)) bs) = map strm (drop (unat off - lo df) [lo df..<hi df])"
    using bs by (simp add: agrees_def frag_bytes_def drop_map)
  moreover have "unat (flen df) - (unat off - lo df) = hi df - unat off" using cut by (simp add: hi_lo)
  ultimately show "agrees strm df'"
    using cut by (simp add: agrees_def frag_bytes_def fd fl lo hi drop_take drop_upt)
qed

lemma fragments_covered_free_ok:
  assumes "memory_ok mm" "ring_ok frs"
  shows "\<exists>mm' frs'. data_fragments_covered_free env mm frs off = Inr (mm', frs') \<and> memory_ok mm' \<and> ring_ok frs' \<and>
    cover frs' = cover frs \<inter> {unat off..} \<and> (\<forall>f\<in>set frs'. unat off \<le> lo f) \<and>
    ((\<forall>f\<in>set frs. agrees strm f) \<longrightarrow> (\<forall>f\<in>set frs'. agrees strm f))"
  using assms
proof (induction frs arbitrary: mm)
  case (Cons df dfs)
  then have df: "frag_ok df" "in_range df" "block_held df" "lo df < hi df" and dfs: "ring_ok dfs"
    and gap: "\<And>f. f \<in> set dfs \<Longrightarrow> hi df < lo f"
    by (auto simp: ring_ok_def frag_ok_def)
  have cut: "cover dfs \<inter> {unat off..} = cover dfs" if "unat off < hi df"
    using that gap by (fastforce simp: cover_def)
  have c: "is_covered_all df off \<longleftrightarrow> hi df \<le> unat off"
      "is_covered_partial df off \<longleftrightarrow> unat off < hi df \<and> lo df < unat off"
    using df(2) by (auto simp: is_covered_all_def is_covered_partial_def word_le_unat word_less_unat unat_frag_end lo_def)
  consider (all) "hi df \<le> unat off" | (part) "unat off < hi df" "lo df < unat off" | (none) "unat off \<le> lo df" by linarith
  then show ?case
  proof cases
    case all
    obtain mm1 where mm1: "ch_memory_free env mm (fblock df) = Inr mm1" "memory_ok mm1"
      using block_held_free Cons.prems(1) df(3) by blast
    obtain mm2 frs2 where IH: "data_fragments_covered_free env mm1 dfs off = Inr (mm2, frs2)" "memory_ok mm2"
      "ring_ok frs2" "cover frs2 = cover dfs \<inter> {unat off..}" "\<forall>f\<in>set frs2. unat off \<le> lo f"
      "(\<forall>f\<in>set dfs. agrees strm f) \<longrightarrow> (\<forall>f\<in>set frs2. agrees strm f)"
      using Cons.IH [OF mm1(2) dfs] by blast
    then show ?thesis using all mm1 c by (intro exI [of _ mm2] exI [of _ frs2]) auto
  next
    case part
    let ?df = "df\<lparr>flen := flen df - (off - foffset df), foffset := foffset df + (off - foffset df),
      fdata := map_option (drop (unat (off - foffset df))) (fdata df)\<rparr>"
    note cf = cut_front [OF df(1) part(2,1)]
    have ev: "data_fragments_covered_free env mm (df # dfs) off = Inr (mm, ?df # dfs)"
      using part c by (simp add: Let_def)
    have ring: "ring_ok (?df # dfs)"
      using Cons.prems(2) cf(1,3) by (auto simp: ring_ok_def block_held_def)
    have cov: "cover (?df # dfs) = cover (df # dfs) \<inter> {unat off..}"
      unfolding cover_Cons cf(2,3) Int_Un_distrib2 cut [OF part(1)] using part by auto
    have "\<forall>f\<in>set (?df # dfs). unat off \<le> lo f" using cf(2) gap part by fastforce
    with ev ring cov cf(4) Cons.prems(1) show ?thesis
      by (intro exI [of _ mm] exI [of _ "?df # dfs"]) (simp del: ch_data_fragment.simps)
  next
    case none
    have "cover (df # dfs) \<inter> {unat off..} = cover (df # dfs)"
      using cut none df(4) by (subst cover_Cons, subst Int_Un_distrib2) (simp add: Int_absorb2 subset_iff)
    moreover have "\<forall>f\<in>set (df # dfs). unat off \<le> lo f" using gap none df(4) by fastforce
    moreover have "data_fragments_covered_free env mm (df # dfs) off = Inr (mm, df # dfs)"
      using none c df(4) by simp
    ultimately show ?thesis using Cons.prems by blast
  qed
qed simp

lemma pop_ok:
  assumes "memory_ok mm" "ring_ok frs"
  shows "\<exists>r mm' frs'. ch_assemble_fragment_pop env mm frs off = Inr (r, mm', frs') \<and> memory_ok mm' \<and> ring_ok frs' \<and>
    ((\<forall>f\<in>set frs. agrees strm f) \<longrightarrow> (\<forall>f\<in>set frs'. agrees strm f)) \<and>
    (case r of
       None \<Rightarrow> unat off \<notin> cover frs \<and> cover frs' = cover frs \<inter> {unat off..}
     | Some df \<Rightarrow> frag_ok df \<and> block_held df \<and> foffset df = off \<and> {unat off..<hi df} \<subseteq> cover frs \<and>
         hi df \<notin> cover frs \<and> cover frs' = cover frs \<inter> {hi df..} \<and>
         ((\<forall>f\<in>set frs. agrees strm f) \<longrightarrow> agrees strm df))"
proof (cases "frs = []")
  case True
  then show ?thesis using assms by (simp add: ch_assemble_fragment_pop_def)
next
  case False
  obtain mm1 frs1 where cf: "data_fragments_covered_free env mm frs off = Inr (mm1, frs1)" "memory_ok mm1" "ring_ok frs1"
    "cover frs1 = cover frs \<inter> {unat off..}" "\<forall>f\<in>set frs1. unat off \<le> lo f"
    "(\<forall>f\<in>set frs. agrees strm f) \<longrightarrow> (\<forall>f\<in>set frs1. agrees strm f)"
    using fragments_covered_free_ok [OF assms, of env off strm] by blast
  have ev: "ch_assemble_fragment_pop env mm frs off = (case frs1 of [] \<Rightarrow> Inr (None, mm1, frs1)
      | df # dfs \<Rightarrow> if off = foffset df then Inr (Some df, mm1, dfs) else Inr (None, mm1, frs1))"
    using False by (simp add: ch_assemble_fragment_pop_def cf(1))
  show ?thesis
  proof (cases "\<exists>df dfs. frs1 = df # dfs \<and> off = foffset df")
    case True
    then obtain df dfs where f: "frs1 = df # dfs" "off = foffset df" by blast
    have df: "frag_ok df" "block_held df" "lo df < hi df" "ring_ok dfs" "\<And>g. g \<in> set dfs \<Longrightarrow> hi df < lo g"
      using cf(3) f by (auto simp: ring_ok_def frag_ok_def)
    have lo: "lo df = unat off" using f by (simp add: lo_def)
    have c1: "cover frs \<inter> {unat off..} = {unat off..<hi df} \<union> cover dfs" using cf(4) f lo by simp
    have c2: "cover dfs \<subseteq> {Suc (hi df)..}" using df(5) by (fastforce simp: cover_def)
    have "{unat off..<hi df} \<subseteq> cover frs" using c1 by blast
    moreover have "hi df \<notin> cover frs"
    proof
      assume "hi df \<in> cover frs"
      then have "hi df \<in> cover frs \<inter> {unat off..}" using df(3) lo by simp
      then show False unfolding c1 using c2 by auto
    qed
    moreover have "cover dfs = cover frs \<inter> {hi df..}"
    proof -
      have "cover frs \<inter> {hi df..} = (cover frs \<inter> {unat off..}) \<inter> {hi df..}" using df(3) lo by auto
      then show ?thesis unfolding c1 using c2 by auto
    qed
    ultimately show ?thesis using ev f cf(2,6) df(1,2,4)
      by (intro exI [of _ "Some df"] exI [of _ mm1] exI [of _ dfs]) simp
  next
    case False
    then have "ch_assemble_fragment_pop env mm frs off = Inr (None, mm1, frs1)" using ev by (auto split: list.splits)
    moreover have "unat off \<notin> cover frs1"
    proof (cases frs1)
      case (Cons df dfs)
      then have "off \<noteq> foffset df" using False by blast
      then have "unat off < lo df" using cf(5) Cons by (force simp: lo_def word_unat_eq_iff)
      moreover have "\<And>g. g \<in> set dfs \<Longrightarrow> lo df < lo g" using cf(3) Cons by (fastforce simp: ring_ok_def frag_ok_def)
      ultimately show ?thesis using Cons by (fastforce simp: cover_def)
    qed simp
    ultimately show ?thesis using cf(2-4,6)
      by (intro exI [of _ None] exI [of _ mm1] exI [of _ frs1]) auto
  qed
qed

lemma fin_eq: "ch_assemble_fragment_fin env mm frs =
    bind_res (free_seq (ch_memory_free env) mm (map fblock frs)) (\<lambda>mm. Inr (mm, []))"
  by (induction frs arbitrary: mm) (auto simp: bind_res_def split: sum.splits)

lemma fin_ok:
  assumes "memory_ok mm" "ring_ok frs"
  shows "\<exists>mm'. ch_assemble_fragment_fin env mm frs = Inr (mm', []) \<and> memory_ok mm'"
proof -
  have "\<forall>item\<in>set (map fblock frs). \<exists>sz. block_of sz item" using assms(2) by (auto simp: ring_ok_def block_held_def)
  from mem.free_seq_total [OF assms(1) this, of env] show ?thesis by (auto simp: fin_eq)
qed

section \<open>Segments in any order\<close>

text \<open>The segments \<open>(off, dlen)\<close> of a stream pushed one after the other, as long as none fails.\<close>

fun push_segments ::
  "mem_env \<Rightarrow> (nat \<Rightarrow> u8) \<Rightarrow> ch_memory \<Rightarrow> frag_ring \<Rightarrow> (u32 \<times> u32) list \<Rightarrow> (int \<times> ch_memory \<times> frag_ring) res"
where
  "push_segments env strm mm frs [] = Inr (0, mm, frs)"
| "push_segments env strm mm frs ((off, dlen) # segs) =
     bind_res (ch_assemble_fragment_push env mm frs (Some (map strm [unat off..<unat off + unat dlen])) dlen off)
       (\<lambda>(rc, mm, frs). if rc \<noteq> 0 then Inr (rc, mm, frs) else push_segments env strm mm frs segs)"

definition seg_ok :: "u32 \<times> u32 \<Rightarrow> bool" where
  "seg_ok seg \<longleftrightarrow> snd seg \<noteq> 0 \<and> unat (fst seg) + unat (snd seg) < 2 ^ 32"

definition seg_range :: "u32 \<times> u32 \<Rightarrow> nat set" where
  "seg_range seg = {unat (fst seg)..<unat (fst seg) + unat (snd seg)}"

lemma frag_okI:
  "dlen \<noteq> 0 \<Longrightarrow> unat off + unat dlen < 2 ^ 32 \<Longrightarrow> unat dlen \<le> length bs \<Longrightarrow>
   frag_ok \<lparr>fdata = Some bs, foffset = off, flen = dlen\<rparr>"
  by (auto simp: frag_ok_def in_range_def hi_def lo_def unat_gt_0)

lemma push_segments_ok:
  assumes "memory_ok mm" "ring_ok frs" "\<forall>f\<in>set frs. agrees strm f" "\<forall>n. malloc_ok env n" "\<forall>seg\<in>set segs. seg_ok seg"
  shows "\<exists>mm' frs'. push_segments env strm mm frs segs = Inr (0, mm', frs') \<and> memory_ok mm' \<and> ring_ok frs' \<and>
    (\<forall>f\<in>set frs'. agrees strm f) \<and> cover frs' = cover frs \<union> (\<Union>seg\<in>set segs. seg_range seg)"
  using assms
proof (induction segs arbitrary: mm frs)
  case (Cons seg segs)
  obtain off dlen where seg: "seg = (off, dlen)" by fastforce
  define df where "df = \<lparr>fdata = Some (map strm [unat off..<unat off + unat dlen]), foffset = off, flen = dlen\<rparr>"
  have ok: "frag_ok df" using Cons.prems(5) seg unfolding df_def by (intro frag_okI) (auto simp: seg_ok_def)
  have ag: "agrees strm df" by (simp add: agrees_def frag_bytes_def df_def lo_def hi_def)
  obtain rc mm1 frs1 where p: "ch_assemble_fragment_push env mm frs (Some (map strm [unat off..<unat off + unat dlen])) dlen off
      = Inr (rc, mm1, frs1)" "memory_ok mm1" "ring_ok frs1" "rc = 0" "\<forall>f\<in>set frs1. agrees strm f"
      "cover frs1 = cover frs \<union> {lo df..<hi df}"
    using push_ok [OF Cons.prems(1,2) ok df_def, of env strm] Cons.prems(3,4) ag by blast
  have "{lo df..<hi df} = seg_range seg" by (simp add: df_def lo_def hi_def seg seg_range_def)
  with p Cons.IH [OF p(2,3,5) Cons.prems(4)] Cons.prems(5) show ?case by (auto simp: seg Un_assoc)
qed simp

section \<open>Properties\<close>

text \<open>
  C2. A TCP stream is reassembled whatever the order, the overlap and the repetition of its
  segments: if the segments of a stream that were pushed into an empty ring cover the offsets
  from \<open>a\<close> to \<open>b\<close> and nothing else, then no push fails or corrupts memory and
  \<^verbatim>\<open>ch_assemble_fragment_pop\<close> at \<open>a\<close> returns one fragment that holds exactly the bytes of
  the stream from \<open>a\<close> to \<open>b\<close>, and leaves the ring empty.
\<close>

theorem reassembly_any_order:
  assumes "memory_ok mm" "\<forall>n. malloc_ok env n" "\<forall>seg\<in>set segs. seg_ok seg"
    "(\<Union>seg\<in>set segs. seg_range seg) = {unat a..<b}" "unat a < b"
  shows "\<exists>mm1 frs mm2 df. push_segments env strm mm ch_assemble_fragment_init segs = Inr (0, mm1, frs) \<and>
    ch_assemble_fragment_pop env mm1 frs a = Inr (Some df, mm2, []) \<and>
    memory_ok mm2 \<and> frag_bytes df = map strm [unat a..<b]"
proof -
  obtain mm1 frs where p: "push_segments env strm mm [] segs = Inr (0, mm1, frs)" "memory_ok mm1" "ring_ok frs"
    "\<forall>f\<in>set frs. agrees strm f" "cover frs = {unat a..<b}"
    using push_segments_ok [OF assms(1) ring_ok_Nil _ assms(2,3), of strm] assms(4) by auto
  obtain r mm2 frs2 where q: "ch_assemble_fragment_pop env mm1 frs a = Inr (r, mm2, frs2)" "memory_ok mm2" "ring_ok frs2"
    "case r of
       None \<Rightarrow> unat a \<notin> cover frs \<and> cover frs2 = cover frs \<inter> {unat a..}
     | Some df \<Rightarrow> frag_ok df \<and> block_held df \<and> foffset df = a \<and> {unat a..<hi df} \<subseteq> cover frs \<and>
         hi df \<notin> cover frs \<and> cover frs2 = cover frs \<inter> {hi df..} \<and>
         ((\<forall>f\<in>set frs. agrees strm f) \<longrightarrow> agrees strm df)"
    using pop_ok [OF p(2,3), of env a strm] by blast
  obtain df where df: "r = Some df" using q(4) p(5) assms(5) by (cases r) auto
  have d: "frag_ok df" "lo df = unat a" "agrees strm df" "{unat a..<hi df} \<subseteq> {unat a..<b}" "hi df \<notin> {unat a..<b}"
    "cover frs2 = {unat a..<b} \<inter> {hi df..}" using q(4) df p(4,5) by (auto simp: lo_def)
  have lt: "lo df < hi df" using d(1) by (simp add: frag_ok_def)
  have hi: "hi df = b" using d(2,4,5) lt by (cases "hi df \<le> b") (auto dest!: subsetD [of _ _ b])
  have "cover frs2 = {}" using d(6) hi by auto
  then have "frs2 = []" using q(3) by (cases frs2) (auto simp: ring_ok_def frag_ok_def)
  then show ?thesis using p(1) q(1,2) df d(2,3) hi by (auto simp: agrees_def ch_assemble_fragment_init_def)
qed

text \<open>
  \<^verbatim>\<open>ch_assemble_fragment_push\<close> on any well-formed ring, under any outcome of the
  allocations: it never faults, keeps the ring well-formed (ordered, pairwise disjoint, never
  adjacent, each fragment in a block it holds), keeps every byte equal to the stream's, and
  adds exactly the offsets of the segment; when it returns -1 there was no memory, and it has
  lost no offset outside the segment.
\<close>

theorem ch_assemble_fragment_push_correct:
  assumes "memory_ok mm" "ring_ok frs" "\<forall>f\<in>set frs. agrees strm f" "seg_ok (off, dlen)" "unat dlen \<le> length bs"
    "take (unat dlen) bs = map strm [unat off..<unat off + unat dlen]"
  shows "\<exists>rc mm' frs'. ch_assemble_fragment_push env mm frs (Some bs) dlen off = Inr (rc, mm', frs') \<and>
    memory_ok mm' \<and> ring_ok frs' \<and> (\<forall>f\<in>set frs'. agrees strm f) \<and>
    (rc = 0 \<and> cover frs' = cover frs \<union> seg_range (off, dlen) \<or>
     rc = -1 \<and> \<not> (\<forall>n. malloc_ok env n) \<and> cover frs - seg_range (off, dlen) \<subseteq> cover frs' \<and> cover frs' \<subseteq> cover frs)"
proof -
  define df where "df = \<lparr>fdata = Some bs, foffset = off, flen = dlen\<rparr>"
  have ok: "frag_ok df" using assms(4,5) unfolding df_def by (intro frag_okI) (auto simp: seg_ok_def)
  have ag: "agrees strm df" using assms(6) by (simp add: agrees_def frag_bytes_def df_def lo_def hi_def)
  have "{lo df..<hi df} = seg_range (off, dlen)" by (simp add: df_def lo_def hi_def seg_range_def)
  then show ?thesis using push_ok [OF assms(1,2) ok df_def, of env strm] assms(3) ag by fastforce
qed

text \<open>
  \<^verbatim>\<open>ch_assemble_fragment_pop\<close>: the fragment it returns starts at the offset asked for,
  holds the stream's bytes from there up to the first offset that is missing, and the ring
  keeps the offsets behind it; \<^verbatim>\<open>NULL\<close> means that the byte at the offset is missing. Data
  before the offset is given up, and freeing the fragment then succeeds.
\<close>

theorem ch_assemble_fragment_pop_correct:
  assumes "memory_ok mm" "ring_ok frs" "\<forall>f\<in>set frs. agrees strm f"
  shows "\<exists>r mm' frs'. ch_assemble_fragment_pop env mm frs off = Inr (r, mm', frs') \<and> ring_ok frs' \<and>
    (\<forall>f\<in>set frs'. agrees strm f) \<and> (\<exists>mm2. ch_assemble_data_fragment_free env mm' r = Inr mm2 \<and> memory_ok mm2) \<and>
    (case r of
       None \<Rightarrow> unat off \<notin> cover frs \<and> cover frs' = cover frs \<inter> {unat off..}
     | Some df \<Rightarrow> foffset df = off \<and> unat off < hi df \<and> frag_bytes df = map strm [unat off..<hi df] \<and>
         {unat off..<hi df} \<subseteq> cover frs \<and> hi df \<notin> cover frs \<and> cover frs' = cover frs \<inter> {hi df..})"
proof -
  obtain r mm' frs' where q: "ch_assemble_fragment_pop env mm frs off = Inr (r, mm', frs')" "memory_ok mm'" "ring_ok frs'"
    "\<forall>f\<in>set frs'. agrees strm f"
    "case r of
       None \<Rightarrow> unat off \<notin> cover frs \<and> cover frs' = cover frs \<inter> {unat off..}
     | Some df \<Rightarrow> frag_ok df \<and> block_held df \<and> foffset df = off \<and> {unat off..<hi df} \<subseteq> cover frs \<and>
         hi df \<notin> cover frs \<and> cover frs' = cover frs \<inter> {hi df..} \<and>
         ((\<forall>f\<in>set frs. agrees strm f) \<longrightarrow> agrees strm df)"
    using pop_ok [OF assms(1,2), of env off strm] assms(3) by blast
  show ?thesis
  proof (cases r)
    case None
    then show ?thesis using q by (auto simp: ch_assemble_data_fragment_free_def)
  next
    case (Some df)
    then have df: "frag_ok df" "block_held df" "foffset df = off" "agrees strm df" using q(5) assms(3) by auto
    obtain mm2 where "ch_memory_free env mm' (fblock df) = Inr mm2" "memory_ok mm2"
      using block_held_free [OF q(2) df(2)] by blast
    moreover have "lo df = unat off" "lo df < hi df" using df by (auto simp: lo_def frag_ok_def)
    ultimately show ?thesis using q Some df(4) by (auto simp: ch_assemble_data_fragment_free_def agrees_def)
  qed
qed

text \<open>
  When a session ends, \<^verbatim>\<open>ch_assemble_fragment_fin\<close> gives back the block of every
  fragment of the ring, without an abort, and leaves the ring empty.
\<close>

theorem ch_assemble_fragment_fin_correct:
  assumes "memory_ok mm" "ring_ok frs"
  shows "\<exists>mm'. ch_assemble_fragment_fin env mm frs = Inr (mm', []) \<and> memory_ok mm' \<and>
    free_seq (ch_memory_free env) mm (map fblock frs) = Inr mm'"
  using fin_ok [OF assms, of env] by (auto simp: fin_eq bind_res_eq_Inr)

section \<open>Witnesses\<close>

definition sample_strm :: "nat \<Rightarrow> u8" where "sample_strm i = of_nat i"

definition sample_frag :: ring_fragment where
  "sample_frag = \<lparr>fdata = Some [3, 4], foffset = 3, flen = 2, fblock = sample_item\<rparr>"

lemma sample_ring:
  "memory_ok (ch_memory_create sample_env 0 60)" "ring_ok [sample_frag]" "\<forall>f\<in>set [sample_frag]. agrees sample_strm f"
proof -
  show "memory_ok (ch_memory_create sample_env 0 60)" by (rule memory_ok_create)
  show "ring_ok [sample_frag]"
    using sample_item_ok by (auto simp: ring_ok_def sample_frag_def frag_ok_def in_range_def hi_def lo_def
        block_held_def block_of_def)
  show "\<forall>f\<in>set [sample_frag]. agrees sample_strm f"
    by (simp add: agrees_def frag_bytes_def sample_frag_def hi_def lo_def sample_strm_def upt_rec)
qed

theorem reassembly_any_order_witness:
  "\<exists>mm1 frs mm2 df. push_segments sample_env sample_strm (ch_memory_create sample_env 0 60) ch_assemble_fragment_init
      [(5, 3), (1, 2), (2, 4)] = Inr (0, mm1, frs) \<and>
    ch_assemble_fragment_pop sample_env mm1 frs 1 = Inr (Some df, mm2, []) \<and>
    memory_ok mm2 \<and> frag_bytes df = map sample_strm [1..<8]"
proof -
  have "(\<Union>seg\<in>set [(5, 3), (1, 2), (2, 4)]. seg_range seg) = {unat (1 :: u32)..<8}"
    by (auto simp: seg_range_def)
  from reassembly_any_order [OF sample_ring(1) _ _ this, of sample_env sample_strm] show ?thesis
    by (simp add: sample_env_def seg_ok_def)
qed

theorem ch_assemble_fragment_push_correct_witness:
  "\<exists>rc mm' frs'. ch_assemble_fragment_push sample_env (ch_memory_create sample_env 0 60) [sample_frag] (Some [4, 5, 6]) 3 4 =
      Inr (rc, mm', frs') \<and>
    memory_ok mm' \<and> ring_ok frs' \<and> (\<forall>f\<in>set frs'. agrees sample_strm f) \<and> rc = 0 \<and> cover frs' = {3..<7}"
proof -
  have "cover [sample_frag] \<union> seg_range (4, 3) = {3..<7}"
    by (auto simp: sample_frag_def lo_def hi_def seg_range_def)
  moreover have "\<forall>n. malloc_ok sample_env n" by (simp add: sample_env_def)
  moreover have "seg_ok (4, 3)" by (simp add: seg_ok_def)
  moreover have "take (unat (3 :: u32)) [4, 5, 6] = map sample_strm [unat (4 :: u32)..<unat (4 :: u32) + unat (3 :: u32)]"
    by (simp add: sample_strm_def upt_rec)
  ultimately show ?thesis
    using ch_assemble_fragment_push_correct [OF sample_ring, of 4 3 "[4, 5, 6]" sample_env] by auto
qed

theorem ch_assemble_fragment_pop_correct_witness:
  "\<exists>df mm' frs'. ch_assemble_fragment_pop sample_env (ch_memory_create sample_env 0 60) [sample_frag] 4 =
      Inr (Some df, mm', frs') \<and> frag_bytes df = map sample_strm [4..<hi df] \<and> 4 < hi df"
proof -
  have "(4::nat) \<in> cover [sample_frag]" by (simp add: sample_frag_def lo_def hi_def)
  then show ?thesis
    using ch_assemble_fragment_pop_correct [OF sample_ring, of sample_env 4] by (auto split: option.splits)
qed

theorem ch_assemble_fragment_fin_correct_witness:
  "\<exists>mm'. ch_assemble_fragment_fin sample_env (ch_memory_create sample_env 0 60) [sample_frag] = Inr (mm', []) \<and>
     memory_ok mm' \<and> ch_memory_free sample_env (ch_memory_create sample_env 0 60) sample_item = Inr mm'"
  using ch_assemble_fragment_fin_correct [OF sample_ring(1,2), of sample_env]
  by (auto simp: sample_frag_def bind_res_eq_Inr)

end
