(* ===== verification/Jhash.thy ===== *)
theory Jhash
  imports Prelude "HOL-Library.Multiset"
begin

text \<open>
  The hash functions of \<^verbatim>\<open>lib/common/ch_jhash.h\<close> and the rotation they use from
  \<^verbatim>\<open>lib/common/ch_bitops.h\<close>. The sorted variants are what makes a session table find a
  session from the packets of both directions: they hash the multiset of their arguments.
\<close>

section \<open>Definitions\<close>

definition rol32 :: "u32 \<Rightarrow> nat \<Rightarrow> u32" where
  "rol32 w n = (push_bit n w OR drop_bit (32 - n) w)"

type_synonym jstate = "u32 \<times> u32 \<times> u32"

text \<open>One line of the macro \<^verbatim>\<open>__jhash_mix\<close>: \<^verbatim>\<open>x -= z; x ^= rol32(z, n); z += y\<close>.\<close>

definition mix_line :: "nat \<Rightarrow> jstate \<Rightarrow> jstate" where
  "mix_line n s = (case s of (x, y, z) \<Rightarrow>
     let x = x - z; x = x XOR rol32 z n; z = z + y in (x, y, z))"

definition jhash_mix :: "jstate \<Rightarrow> jstate" where
  "jhash_mix s = (case s of (a, b, c) \<Rightarrow>
     let (a, b, c) = mix_line 4 (a, b, c);
         (b, c, a) = mix_line 6 (b, c, a);
         (c, a, b) = mix_line 8 (c, a, b);
         (a, b, c) = mix_line 16 (a, b, c);
         (b, c, a) = mix_line 19 (b, c, a);
         (c, a, b) = mix_line 4 (c, a, b)
     in (a, b, c))"

definition jhash_final :: "jstate \<Rightarrow> jstate" where
  "jhash_final s = (case s of (a, b, c) \<Rightarrow>
     let c = c XOR b; c = c - rol32 b 14;
         a = a XOR c; a = a - rol32 c 11;
         b = b XOR a; b = b - rol32 a 25;
         c = c XOR b; c = c - rol32 b 16;
         a = a XOR c; a = a - rol32 c 4;
         b = b XOR a; b = b - rol32 a 14;
         c = c XOR b; c = c - rol32 b 24
     in (a, b, c))"

definition JHASH_INITVAL :: u32 where
  "JHASH_INITVAL = 0xdeadbeef"

text \<open>
  \<^verbatim>\<open>ch_jhash2\<close>: the loop runs while more than three words are left; the switch adds the
  last one to three words and mixes them finally, and a key of no words returns the
  initial state unmixed.
\<close>

fun jhash2_loop :: "jstate \<Rightarrow> u32 list \<Rightarrow> jstate \<times> u32 list" where
  "jhash2_loop (a, b, c) (k0 # k1 # k2 # k3 # ks) =
     jhash2_loop (jhash_mix (a + k0, b + k1, c + k2)) (k3 # ks)"
| "jhash2_loop s ks = (s, ks)"

definition jhash2_switch :: "jstate \<Rightarrow> u32 list \<Rightarrow> u32" where
  "jhash2_switch s ks = (case s of (a, b, c) \<Rightarrow>
     snd (snd (case ks of
         [] \<Rightarrow> (a, b, c)
       | [k0] \<Rightarrow> jhash_final (a + k0, b, c)
       | [k0, k1] \<Rightarrow> jhash_final (a + k0, b + k1, c)
       | k0 # k1 # k2 # _ \<Rightarrow> jhash_final (a + k0, b + k1, c + k2))))"

definition ch_jhash2 :: "u32 list \<Rightarrow> u32 \<Rightarrow> u32" where
  "ch_jhash2 k initval =
     (let v = JHASH_INITVAL + push_bit 2 (of_nat (length k)) + initval;
          (s, ks) = jhash2_loop (v, v, v) k
      in jhash2_switch s ks)"

text \<open>
  \<^verbatim>\<open>ch_jhash\<close> hashes bytes. Its main loop adds the bytes 0, 4 and 8 of every block of
  twelve, where the kernel's original reads three 32-bit words.
\<close>

function jhash_loop :: "jstate \<Rightarrow> bytes \<Rightarrow> jstate \<times> bytes" where
  "jhash_loop (a, b, c) k =
     (if length k > 12
      then jhash_loop (jhash_mix (a + ucast (k ! 0), b + ucast (k ! 4), c + ucast (k ! 8)))
             (drop 12 k)
      else ((a, b, c), k))"
  by pat_completeness auto
termination
  by (relation "measure (\<lambda>(s, k). length k)") auto

declare jhash_loop.simps [simp del]

text \<open>The bytes \<open>k[i]\<close> to \<open>k[i+3]\<close> that exist, as the fall-through switch adds them.\<close>

definition jbytes :: "bytes \<Rightarrow> nat \<Rightarrow> u32" where
  "jbytes k i =
     (if i + 3 < length k then push_bit 24 (ucast (k ! (i + 3))) else 0) +
     (if i + 2 < length k then push_bit 16 (ucast (k ! (i + 2))) else 0) +
     (if i + 1 < length k then push_bit 8 (ucast (k ! (i + 1))) else 0) +
     (if i < length k then ucast (k ! i) else 0)"

definition ch_jhash :: "bytes \<Rightarrow> u32 \<Rightarrow> u32" where
  "ch_jhash key initval =
     (let v = JHASH_INITVAL + of_nat (length key) + initval;
          ((a, b, c), k) = jhash_loop (v, v, v) key
      in if k = [] then c
         else snd (snd (jhash_final (a + jbytes k 0, b + jbytes k 4, c + jbytes k 8))))"

definition jhash_nwords :: "u32 \<Rightarrow> u32 \<Rightarrow> u32 \<Rightarrow> u32 \<Rightarrow> u32" where
  "jhash_nwords a b c initval =
     snd (snd (jhash_final (a + initval, b + initval, c + initval)))"

text \<open>The macro \<^verbatim>\<open>__do_swap\<close>: exchange the two variables when they are out of order.\<close>

definition do_swap :: "'a::linorder \<Rightarrow> 'a \<Rightarrow> 'a \<times> 'a" where
  "do_swap a b = (if a > b then (b, a) else (a, b))"

definition ch_jhash_4words :: "u32 \<Rightarrow> u32 \<Rightarrow> u32 \<Rightarrow> u32 \<Rightarrow> u32 \<Rightarrow> u32" where
  "ch_jhash_4words a b c d initval = ch_jhash2 [a, b, c, d] initval"

definition sort4 :: "'a::linorder \<Rightarrow> 'a \<Rightarrow> 'a \<Rightarrow> 'a \<Rightarrow> 'a list" where
  "sort4 a b c d =
     (let (a, b) = do_swap a b;
          (a, c) = do_swap a c;
          (a, d) = do_swap a d;
          (b, c) = do_swap b c;
          (b, d) = do_swap b d;
          (c, d) = do_swap c d
      in [a, b, c, d])"

definition ch_jhash_4words_sort :: "u32 \<Rightarrow> u32 \<Rightarrow> u32 \<Rightarrow> u32 \<Rightarrow> u32 \<Rightarrow> u32" where
  "ch_jhash_4words_sort a b c d initval = ch_jhash2 (sort4 a b c d) initval"

definition ch_jhash_3words :: "u32 \<Rightarrow> u32 \<Rightarrow> u32 \<Rightarrow> u32 \<Rightarrow> u32" where
  "ch_jhash_3words a b c initval =
     jhash_nwords a b c (initval + JHASH_INITVAL + push_bit 2 3)"

definition sort3 :: "'a::linorder \<Rightarrow> 'a \<Rightarrow> 'a \<Rightarrow> 'a \<times> 'a \<times> 'a" where
  "sort3 a b c =
     (let (a, b) = do_swap a b;
          (a, c) = do_swap a c;
          (b, c) = do_swap b c
      in (a, b, c))"

definition ch_jhash_3words_sort :: "u32 \<Rightarrow> u32 \<Rightarrow> u32 \<Rightarrow> u32 \<Rightarrow> u32" where
  "ch_jhash_3words_sort a b c initval =
     (let (a, b, c) = sort3 a b c
      in jhash_nwords a b c (initval + JHASH_INITVAL + push_bit 2 3))"

definition ch_jhash_2words :: "u32 \<Rightarrow> u32 \<Rightarrow> u32 \<Rightarrow> u32" where
  "ch_jhash_2words a b initval = jhash_nwords a b 0 (initval + JHASH_INITVAL + push_bit 2 2)"

definition ch_jhash_2words_sort :: "u32 \<Rightarrow> u32 \<Rightarrow> u32 \<Rightarrow> u32" where
  "ch_jhash_2words_sort a b initval =
     (let (a, b) = do_swap a b
      in jhash_nwords a b 0 (initval + JHASH_INITVAL + push_bit 2 2))"

definition ch_jhash_1word :: "u32 \<Rightarrow> u32 \<Rightarrow> u32" where
  "ch_jhash_1word a initval = jhash_nwords a 0 0 (initval + JHASH_INITVAL + push_bit 2 1)"

section \<open>The sorting networks sort\<close>

lemma do_swapD:
  "do_swap a b = (x, y) \<Longrightarrow> x \<le> y \<and> x \<le> a \<and> x \<le> b \<and> y \<in> {a, b} \<and> x \<in> {a, b}"
  by (auto simp: do_swap_def split: if_splits)

lemma sorted_sort4: "sorted (sort4 a b c d)"
proof -
  obtain a1 b1 where s1: "do_swap a b = (a1, b1)" by fastforce
  obtain a2 c1 where s2: "do_swap a1 c = (a2, c1)" by fastforce
  obtain a3 d1 where s3: "do_swap a2 d = (a3, d1)" by fastforce
  obtain b2 c2 where s4: "do_swap b1 c1 = (b2, c2)" by fastforce
  obtain b3 d2 where s5: "do_swap b2 d1 = (b3, d2)" by fastforce
  obtain c3 d3 where s6: "do_swap c2 d2 = (c3, d3)" by fastforce
  have "a3 \<le> b1 \<and> a3 \<le> c1 \<and> a3 \<le> d1"
    using do_swapD [OF s1] do_swapD [OF s2] do_swapD [OF s3] by auto
  moreover from this have "a3 \<le> b3 \<and> b3 \<le> c2 \<and> b3 \<le> d2 \<and> a3 \<le> c2 \<and> a3 \<le> d2"
    using do_swapD [OF s4] do_swapD [OF s5] by auto
  ultimately have "a3 \<le> b3 \<and> b3 \<le> c3 \<and> c3 \<le> d3"
    using do_swapD [OF s6] by auto
  then show ?thesis by (auto simp: sort4_def s1 s2 s3 s4 s5 s6)
qed

lemma sort4_sort: "sort4 a b c d = sort [a, b, c, d]"
proof (rule properties_for_sort [symmetric])
  show "mset (sort4 a b c d) = mset [a, b, c, d]"
    by (simp add: sort4_def do_swap_def Let_def)
qed (rule sorted_sort4)

lemma sort_cong_mset: "mset xs = mset ys \<Longrightarrow> sort xs = sort ys"
  by (metis properties_for_sort sorted_sort mset_sort)

lemma ch_jhash_4words_sort_mset:
  assumes "mset [a, b, c, d] = mset [a', b', c', d']"
  shows "ch_jhash_4words_sort a b c d i = ch_jhash_4words_sort a' b' c' d' i"
  unfolding ch_jhash_4words_sort_def sort4_sort by (subst sort_cong_mset [OF assms]) (rule refl)

lemma sort3_swap: "sort3 a b c = sort3 a c (b :: 'a::linorder)"
  by (auto simp: sort3_def do_swap_def)

lemma ch_jhash_3words_sort_swap:
  "ch_jhash_3words_sort a b c i = ch_jhash_3words_sort a c b i"
  by (simp add: ch_jhash_3words_sort_def sort3_swap [of a b c])

lemma do_swap_commute: "do_swap a b = do_swap b (a :: 'a::linorder)"
  by (auto simp: do_swap_def)

lemma ch_jhash_2words_sort_commute:
  "ch_jhash_2words_sort a b i = ch_jhash_2words_sort b a i"
  by (simp add: ch_jhash_2words_sort_def do_swap_commute [of a b])

section \<open>The mixing steps lose nothing\<close>

lemma xor_xor_same [simp]: "(a XOR b) XOR b = (a :: 'a::len word)"
  by (simp add: xor.assoc)

lemma inj_on_inverse: "(\<And>x. g (f x) = x) \<Longrightarrow> inj f"
  by (metis injI)

lemma inj_mix_line: "inj (mix_line n)"
  by (rule inj_on_inverse [where g = "\<lambda>(x, y, z). ((x XOR rol32 (z - y) n) + (z - y), y, z - y)"])
    (simp add: mix_line_def Let_def split: prod.splits)

lemma jhash_mix_lines:
  "jhash_mix = (\<lambda>(c, a, b). (a, b, c)) \<circ> mix_line 4 \<circ> (\<lambda>(b, c, a). (c, a, b)) \<circ> mix_line 19
     \<circ> (\<lambda>(a, b, c). (b, c, a)) \<circ> mix_line 16 \<circ> (\<lambda>(c, a, b). (a, b, c)) \<circ> mix_line 8
     \<circ> (\<lambda>(b, c, a). (c, a, b)) \<circ> mix_line 6 \<circ> (\<lambda>(a, b, c). (b, c, a)) \<circ> mix_line 4"
proof (rule ext)
  fix s :: jstate
  obtain a b c where s: "s = (a, b, c)" by (rule prod_cases3)
  obtain a1 b1 c1 where 1: "mix_line 4 (a, b, c) = (a1, b1, c1)" by (rule prod_cases3)
  obtain b2 c2 a2 where 2: "mix_line 6 (b1, c1, a1) = (b2, c2, a2)" by (rule prod_cases3)
  obtain c3 a3 b3 where 3: "mix_line 8 (c2, a2, b2) = (c3, a3, b3)" by (rule prod_cases3)
  obtain a4 b4 c4 where 4: "mix_line 16 (a3, b3, c3) = (a4, b4, c4)" by (rule prod_cases3)
  obtain b5 c5 a5 where 5: "mix_line 19 (b4, c4, a4) = (b5, c5, a5)" by (rule prod_cases3)
  obtain c6 a6 b6 where 6: "mix_line 4 (c5, a5, b5) = (c6, a6, b6)" by (rule prod_cases3)
  show "jhash_mix s = ((\<lambda>(c, a, b). (a, b, c)) \<circ> mix_line 4 \<circ> (\<lambda>(b, c, a). (c, a, b)) \<circ> mix_line 19
     \<circ> (\<lambda>(a, b, c). (b, c, a)) \<circ> mix_line 16 \<circ> (\<lambda>(c, a, b). (a, b, c)) \<circ> mix_line 8
     \<circ> (\<lambda>(b, c, a). (c, a, b)) \<circ> mix_line 6 \<circ> (\<lambda>(a, b, c). (b, c, a)) \<circ> mix_line 4) s"
    by (simp add: jhash_mix_def s 1 2 3 4 5 6)
qed

lemma inj_jhash_mix: "inj jhash_mix"
  unfolding jhash_mix_lines by (intro inj_compose inj_mix_line) (auto intro: injI)

definition jhash_unfinal :: "jstate \<Rightarrow> jstate" where
  "jhash_unfinal s = (case s of (a, b, c) \<Rightarrow>
     let c = c + rol32 b 24; c = c XOR b;
         b = b + rol32 a 14; b = b XOR a;
         a = a + rol32 c 4;  a = a XOR c;
         c = c + rol32 b 16; c = c XOR b;
         b = b + rol32 a 25; b = b XOR a;
         a = a + rol32 c 11; a = a XOR c;
         c = c + rol32 b 14; c = c XOR b
     in (a, b, c))"

lemma jhash_unfinal_final: "jhash_unfinal (jhash_final s) = s"
  by (cases s) (simp add: jhash_unfinal_def jhash_final_def Let_def)

lemma inj_jhash_final: "inj jhash_final"
  by (rule inj_on_inverse) (rule jhash_unfinal_final)

text \<open>
  The comment above \<^verbatim>\<open>__jhash_mix\<close> promises that it mixes its three words
  reversibly: both mixing steps are injective, so no information of the state is lost.
\<close>

theorem jhash_mix_final_inj: "inj jhash_mix \<and> inj jhash_final"
  by (simp add: inj_jhash_mix inj_jhash_final)

end
