(* ===== verification/Packet.thy ===== *)
theory Packet
  imports Jhash
begin

text \<open>
  The packet parser, \<^verbatim>\<open>packet/ch_packet*.c\<close> and the views of \<^verbatim>\<open>ch_packet_tcp.h\<close> and
  \<^verbatim>\<open>ch_packet_udp.h\<close>: Ethernet with VLAN tags, IPv4, ARP, TCP, UDP and ICMP, and the IPv6
  parser that is written but not registered. A packet is its bytes and the fields the parsers
  fill in, at their widths. The headers are read from the wire format: offsets and sizes are
  those of the packed DPDK structs, 16-bit and 32-bit fields the code converts are big-endian,
  addresses are read as they are by a little-endian machine. A result code is an \<open>int\<close>; a
  \<^verbatim>\<open>NULL\<close> header that is read is the fault \<open>Null_Deref\<close>. Shown here: the parser returns and
  does not fault, every header it accepts lies inside the packet, both directions of a flow
  have the same hash, and when the payload of a TCP packet lies inside the packet.
\<close>

section \<open>Packets\<close>

record ch_packet =
  pkt_type :: u16
  l2_len :: u16
  l3_len :: u16
  l4_len :: u16
  l3_proto :: u16
  l4_proto :: u16
  parse_off :: u16
  pkt_hash :: u32
  is_ipv6 :: bool
  timestamp :: u64
  dlen :: u16
  pkt_data :: bytes

definition PKT_PARSE_OK :: int where "PKT_PARSE_OK = 0"
definition PKT_PARSE_DROP :: int where "PKT_PARSE_DROP = -1"
definition PKT_PARSE_BREAK :: int where "PKT_PARSE_BREAK = 1"

lemmas pkt_rc_defs = PKT_PARSE_OK_def PKT_PARSE_DROP_def PKT_PARSE_BREAK_def

definition PKT_TYPE_OTHER :: u16 where "PKT_TYPE_OTHER = 0"
definition PKT_TYPE_TCP :: u16 where "PKT_TYPE_TCP = 1"
definition PKT_TYPE_UDP :: u16 where "PKT_TYPE_UDP = 2"
definition PKT_TYPE_ICMP :: u16 where "PKT_TYPE_ICMP = 3"
definition PKT_TYPE_ARP :: u16 where "PKT_TYPE_ARP = 4"

lemmas pkt_type_defs = PKT_TYPE_OTHER_def PKT_TYPE_TCP_def PKT_TYPE_UDP_def PKT_TYPE_ICMP_def PKT_TYPE_ARP_def

definition CH_ETH_P_IP :: u16 where "CH_ETH_P_IP = 0x0800"
definition CH_ETH_P_ARP :: u16 where "CH_ETH_P_ARP = 0x0806"
definition CH_ETH_P_8021Q :: u16 where "CH_ETH_P_8021Q = 0x8100"
definition CH_ETH_P_IPV6 :: u16 where "CH_ETH_P_IPV6 = 0x86DD"
definition CH_ETH_P_8021AD :: u16 where "CH_ETH_P_8021AD = 0x88A8"
definition CH_ETH_P_802_3_MIN :: u16 where "CH_ETH_P_802_3_MIN = 0x0600"
definition CH_ETH_LENGTH_MAX :: u16 where "CH_ETH_LENGTH_MAX = 0x05DC"
definition CH_IPPROTO_ICMP :: u16 where "CH_IPPROTO_ICMP = 1"
definition CH_IPPROTO_TCP :: u16 where "CH_IPPROTO_TCP = 6"
definition CH_IPPROTO_UDP :: u16 where "CH_IPPROTO_UDP = 17"
definition CH_IPPROTO_MAX :: u16 where "CH_IPPROTO_MAX = 256"

lemmas proto_defs = CH_ETH_P_IP_def CH_ETH_P_ARP_def CH_ETH_P_8021Q_def CH_ETH_P_IPV6_def CH_ETH_P_8021AD_def
  CH_ETH_P_802_3_MIN_def CH_ETH_LENGTH_MAX_def CH_IPPROTO_ICMP_def CH_IPPROTO_TCP_def CH_IPPROTO_UDP_def CH_IPPROTO_MAX_def

text \<open>
  \<^verbatim>\<open>ch_packet_data_read\<close>: the packet's bytes from \<open>off\<close> on, if \<open>len\<close> of them are there. Both
  arguments are 16 bits wide, their sum is computed as an \<^verbatim>\<open>int\<close>.
\<close>

definition ch_packet_data_read :: "ch_packet \<Rightarrow> u16 \<Rightarrow> u16 \<Rightarrow> bytes option" where
  "ch_packet_data_read pkt off len =
     (if unat off + unat len > unat (dlen pkt) then None else Some (drop (unat off) (pkt_data pkt)))"

definition be16 :: "bytes \<Rightarrow> nat \<Rightarrow> u16" where
  "be16 h i = of_nat (256 * unat (h ! i) + unat (h ! (i + 1)))"

definition be32 :: "bytes \<Rightarrow> nat \<Rightarrow> u32" where
  "be32 h i = of_nat (16777216 * unat (h ! i) + 65536 * unat (h ! (i + 1)) + 256 * unat (h ! (i + 2)) + unat (h ! (i + 3)))"

definition le32 :: "bytes \<Rightarrow> nat \<Rightarrow> u32" where
  "le32 h i = of_nat (unat (h ! i) + 256 * unat (h ! (i + 1)) + 65536 * unat (h ! (i + 2)) + 16777216 * unat (h ! (i + 3)))"

text \<open>\<^verbatim>\<open>_packet_init\<close>, for an mbuf whose data is \<open>d\<close> in one segment.\<close>

definition packet_init :: "bytes \<Rightarrow> u32 \<Rightarrow> ch_packet" where
  "packet_init d pkt_len =
     \<lparr>pkt_type = PKT_TYPE_OTHER, l2_len = 0, l3_len = 0, l4_len = 0, l3_proto = 0, l4_proto = 0, parse_off = 0,
      pkt_hash = 0, is_ipv6 = False, timestamp = 0, dlen = ucast pkt_len, pkt_data = d\<rparr>"

section \<open>Ethernet\<close>

text \<open>
  The loop over VLAN tags. The offset is 32 bits wide and cut to 16 bits when the packet is
  read, so that the loop need not end for a packet of nearly 64 KB: \<open>None\<close> is a loop that does
  not return.
\<close>

partial_function (option) vlan_loop :: "ch_packet \<Rightarrow> u32 \<Rightarrow> u16 \<Rightarrow> (u32 \<times> u16) option option" where
  "vlan_loop pkt off proto =
     (if proto = CH_ETH_P_8021Q then
        (case ch_packet_data_read pkt (ucast off) 4 of
           None \<Rightarrow> Some None
         | Some vh \<Rightarrow> vlan_loop pkt (off + 4) (be16 vh 2))
      else if proto = CH_ETH_P_8021AD then
        (case ch_packet_data_read pkt (ucast (off + 4)) 4 of
           None \<Rightarrow> Some None
         | Some vh \<Rightarrow> vlan_loop pkt (off + 8) (be16 vh 2))
      else Some (Some (off, proto)))"

definition ch_packet_ether_parse :: "ch_packet \<Rightarrow> (int \<times> ch_packet) option" where
  "ch_packet_ether_parse pkt =
     (case ch_packet_data_read pkt 0 14 of
        None \<Rightarrow> Some (PKT_PARSE_DROP, pkt)
      | Some eh \<Rightarrow>
          let proto = be16 eh 12 in
          if proto \<ge> CH_ETH_LENGTH_MAX \<and> proto \<le> CH_ETH_P_802_3_MIN then Some (PKT_PARSE_DROP, pkt)
          else if proto < CH_ETH_LENGTH_MAX then Some (PKT_PARSE_DROP, pkt)
          else
            (case vlan_loop pkt 14 proto of
               None \<Rightarrow> None
             | Some None \<Rightarrow> Some (PKT_PARSE_DROP, pkt)
             | Some (Some (off, proto)) \<Rightarrow>
                 Some (PKT_PARSE_OK, pkt\<lparr>l2_len := ucast off, parse_off := ucast off, l3_proto := proto\<rparr>)))"

section \<open>Level 3\<close>

definition IPV :: "bytes \<Rightarrow> u8" where "IPV h = drop_bit 4 (h ! 0 AND 0xf0)"
definition IPHL :: "bytes \<Rightarrow> u8" where "IPHL h = h ! 0 AND 0x0f"

definition packet_ipv4_parse :: "ch_packet \<Rightarrow> (int \<times> ch_packet) res" where
  "packet_ipv4_parse pkt =
     (case ch_packet_data_read pkt (parse_off pkt) 20 of
        None \<Rightarrow> Inr (PKT_PARSE_DROP, pkt)
      | Some ip4h \<Rightarrow>
          if IPHL ip4h < 5 \<or> IPV ip4h \<noteq> 4 then Inr (PKT_PARSE_DROP, pkt)
          else
            let pkt = pkt\<lparr>l3_len := ucast (IPHL ip4h) * 4\<rparr>;
                pkt = pkt\<lparr>parse_off := parse_off pkt + l3_len pkt\<rparr>
            in if be16 ip4h 6 AND 0x3fff \<noteq> 0
               then Inr (PKT_PARSE_BREAK, pkt\<lparr>l4_len := 0, l4_proto := 0\<rparr>)
               else
                 let pkt = pkt\<lparr>l4_proto := ucast (ip4h ! 9)\<rparr>
                 in if l4_proto pkt \<le> 0 \<or> l4_proto pkt \<ge> CH_IPPROTO_MAX then Inr (PKT_PARSE_DROP, pkt)
                    else Inr (PKT_PARSE_OK, pkt))"

definition packet_arp_parse :: "ch_packet \<Rightarrow> (int \<times> ch_packet) res" where
  "packet_arp_parse pkt =
     (case ch_packet_data_read pkt (parse_off pkt) 28 of
        None \<Rightarrow> Inr (PKT_PARSE_DROP, pkt)
      | Some arp \<Rightarrow>
          let pkt = pkt\<lparr>pkt_type := PKT_TYPE_ARP, l3_len := 28\<rparr>;
              pkt = pkt\<lparr>parse_off := parse_off pkt + l3_len pkt\<rparr>
          in Inr (PKT_PARSE_OK, pkt\<lparr>pkt_hash := ch_jhash_4words_sort (le32 arp 14) (le32 arp 24) 0 0 0\<rparr>))"

text \<open>
  The extension headers of IPv6: hop-by-hop (0), routing (43), fragment (44), ESP (50), AH
  (51), none (59) and destination options (60). \<open>None\<close> is the result -1; otherwise the next
  protocol, the offset behind the headers and whether there was a fragment header.
\<close>

fun net_skip_ip6_ext :: "nat \<Rightarrow> u16 \<Rightarrow> ch_packet \<Rightarrow> u16 \<Rightarrow> (u16 \<times> u16 \<times> bool) option" where
  "net_skip_ip6_ext 0 proto pkt off = None"
| "net_skip_ip6_ext (Suc n) proto pkt off =
     (if proto \<in> {0, 43, 60} then
        (case ch_packet_data_read pkt off 2 of
           None \<Rightarrow> None
         | Some xh \<Rightarrow> net_skip_ip6_ext n (ucast (xh ! 0)) pkt (off + (ucast (xh ! 1) + 1) * 8))
      else if proto = 44 then
        (case ch_packet_data_read pkt off 2 of
           None \<Rightarrow> None
         | Some xh \<Rightarrow> Some (ucast (xh ! 0), off + 8, True))
      else if proto = 59 then Some (0, off, False)
      else Some (proto, off, False))"

definition MAX_EXT_HDRS :: nat where "MAX_EXT_HDRS = 5"

definition RTE_PTYPE_L3_IPV6 :: u32 where "RTE_PTYPE_L3_IPV6 = 0x40"
definition RTE_PTYPE_L3_IPV6_EXT :: u32 where "RTE_PTYPE_L3_IPV6_EXT = 0xc0"
definition RTE_PTYPE_L3_MASK :: u32 where "RTE_PTYPE_L3_MASK = 0xf0"

definition ptype_l3_ip6 :: "u8 \<Rightarrow> u32" where
  "ptype_l3_ip6 p = RTE_PTYPE_L3_IPV6 +
     (if p \<in> {0, 43, 44, 50, 51, 60} then RTE_PTYPE_L3_IPV6_EXT - RTE_PTYPE_L3_IPV6 else 0)"

definition packet_ipv6_parse :: "ch_packet \<Rightarrow> (int \<times> ch_packet) res" where
  "packet_ipv6_parse pkt =
     (case ch_packet_data_read pkt (parse_off pkt) 40 of
        None \<Rightarrow> Inr (PKT_PARSE_DROP, pkt)
      | Some ip6h \<Rightarrow>
          let off = parse_off pkt + 40;
              proto = ucast (ip6h ! 6) :: u16;
              pkt = pkt\<lparr>l3_len := 40, parse_off := parse_off pkt + 40, is_ipv6 := True\<rparr>
          in case (if ptype_l3_ip6 (ucast proto) AND RTE_PTYPE_L3_MASK = RTE_PTYPE_L3_IPV6_EXT
                   then (case net_skip_ip6_ext MAX_EXT_HDRS proto pkt off of
                       None \<Rightarrow> None
                     | Some (ret, off, frag) \<Rightarrow>
                         Some (ret, frag, pkt\<lparr>l3_len := off - l2_len pkt, parse_off := off\<rparr>))
                   else Some (proto, False, pkt)) of
               None \<Rightarrow> Inr (PKT_PARSE_DROP, pkt)
             | Some (proto, frag, pkt) \<Rightarrow>
                 if proto = 0 then Inr (PKT_PARSE_DROP, pkt)
                 else if frag then Inr (PKT_PARSE_BREAK, pkt\<lparr>l4_len := 0, l4_proto := 0\<rparr>)
                 else Inr (PKT_PARSE_OK, pkt\<lparr>l4_proto := proto\<rparr>))"

section \<open>Level 4\<close>

definition TH_OFF :: "bytes \<Rightarrow> u8" where "TH_OFF h = drop_bit 4 (h ! 12 AND 0xf0)"

definition packet_tcp_parse :: "ch_packet \<Rightarrow> (int \<times> ch_packet) res" where
  "packet_tcp_parse pkt =
     (let iph = ch_packet_data_read pkt (l2_len pkt) 20;
          th = ch_packet_data_read pkt (parse_off pkt) 20;
          pkt = pkt\<lparr>pkt_type := PKT_TYPE_TCP\<rparr>
      in case th of
           None \<Rightarrow> Inr (PKT_PARSE_DROP, pkt)
         | Some th \<Rightarrow>
             if TH_OFF th < 5 then Inr (PKT_PARSE_DROP, pkt)
             else
               let pkt = pkt\<lparr>l4_len := ucast (TH_OFF th) * 4\<rparr>;
                   pkt = pkt\<lparr>parse_off := parse_off pkt + l4_len pkt\<rparr>
               in case iph of
                    None \<Rightarrow> Inl Null_Deref
                  | Some iph \<Rightarrow> Inr (PKT_PARSE_OK, pkt\<lparr>pkt_hash :=
                      ch_jhash_4words_sort (le32 iph 12) (le32 iph 16) (ucast (be16 th 0)) (ucast (be16 th 2)) 0\<rparr>))"

definition packet_udp_parse :: "ch_packet \<Rightarrow> (int \<times> ch_packet) res" where
  "packet_udp_parse pkt =
     (let pkt = pkt\<lparr>pkt_type := PKT_TYPE_UDP\<rparr>
      in case (ch_packet_data_read pkt (l2_len pkt) 20, ch_packet_data_read pkt (parse_off pkt) 8) of
           (Some iph, Some uh) \<Rightarrow>
             let pkt = pkt\<lparr>l4_len := 8\<rparr>;
                 pkt = pkt\<lparr>parse_off := parse_off pkt + l4_len pkt\<rparr>
             in Inr (PKT_PARSE_OK, pkt\<lparr>pkt_hash :=
                  ch_jhash_4words_sort (le32 iph 12) (le32 iph 16) (ucast (be16 uh 0)) (ucast (be16 uh 2)) 0\<rparr>)
         | _ \<Rightarrow> Inr (PKT_PARSE_DROP, pkt))"

definition packet_icmp_parse :: "ch_packet \<Rightarrow> (int \<times> ch_packet) res" where
  "packet_icmp_parse pkt =
     (case ch_packet_data_read pkt (l2_len pkt) 20 of
        None \<Rightarrow> Inr (PKT_PARSE_DROP, pkt)
      | Some iph \<Rightarrow>
          let pkt = pkt\<lparr>pkt_type := PKT_TYPE_ICMP, l4_len := 8\<rparr>;
              pkt = pkt\<lparr>parse_off := parse_off pkt + l4_len pkt\<rparr>
          in Inr (PKT_PARSE_OK, pkt\<lparr>pkt_hash := ch_jhash_4words_sort (le32 iph 12) (le32 iph 16) 0 0 0\<rparr>))"

section \<open>The parser tables\<close>

record ch_packet_parser =
  parser_proto :: u16
  parser_parse :: "ch_packet \<Rightarrow> (int \<times> ch_packet) res"

definition L3_INDEX :: nat where "L3_INDEX = 1"
definition L4_INDEX :: nat where "L4_INDEX = 2"
definition L_MAX :: nat where "L_MAX = 3"

definition ch_packet_parser_register ::
  "ch_packet_parser \<Rightarrow> nat \<Rightarrow> ch_packet_parser list list \<Rightarrow> ch_packet_parser list list"
where
  "ch_packet_parser_register parser level parsers = parsers[level := parsers ! level @ [parser]]"

definition ipv4_parser :: ch_packet_parser where
  "ipv4_parser = \<lparr>parser_proto = CH_ETH_P_IP, parser_parse = packet_ipv4_parse\<rparr>"
definition ipv6_parser :: ch_packet_parser where
  "ipv6_parser = \<lparr>parser_proto = CH_ETH_P_IPV6, parser_parse = packet_ipv6_parse\<rparr>"
definition tcp_parser :: ch_packet_parser where
  "tcp_parser = \<lparr>parser_proto = CH_IPPROTO_TCP, parser_parse = packet_tcp_parse\<rparr>"
definition udp_parser :: ch_packet_parser where
  "udp_parser = \<lparr>parser_proto = CH_IPPROTO_UDP, parser_parse = packet_udp_parse\<rparr>"
definition arp_parser :: ch_packet_parser where
  "arp_parser = \<lparr>parser_proto = CH_ETH_P_ARP, parser_parse = packet_arp_parse\<rparr>"
definition icmp_parser :: ch_packet_parser where
  "icmp_parser = \<lparr>parser_proto = CH_IPPROTO_ICMP, parser_parse = packet_icmp_parse\<rparr>"

text \<open>\<^verbatim>\<open>ch_packet_init\<close> registers all parsers but that of IPv6.\<close>

definition ch_packet_init :: "ch_packet_parser list list" where
  "ch_packet_init =
     (ch_packet_parser_register icmp_parser L4_INDEX \<circ> ch_packet_parser_register arp_parser L3_INDEX \<circ>
      ch_packet_parser_register udp_parser L4_INDEX \<circ> ch_packet_parser_register tcp_parser L4_INDEX \<circ>
      ch_packet_parser_register ipv4_parser L3_INDEX) (replicate L_MAX [])"

definition packet_parser_find :: "ch_packet_parser list list \<Rightarrow> nat \<Rightarrow> u16 \<Rightarrow> ch_packet_parser option" where
  "packet_parser_find parsers level proto = find (\<lambda>p. parser_proto p = proto) (parsers ! level)"

definition ch_packet_parse ::
  "ch_packet_parser list list \<Rightarrow> bytes \<Rightarrow> u32 \<Rightarrow> (int \<times> ch_packet) res option"
where
  "ch_packet_parse parsers d pkt_len =
     (case ch_packet_ether_parse (packet_init d pkt_len) of
        None \<Rightarrow> None
      | Some (rc, pkt) \<Rightarrow>
          if rc \<noteq> PKT_PARSE_OK then Some (Inr (rc, pkt))
          else case packet_parser_find parsers L3_INDEX (l3_proto pkt) of
              None \<Rightarrow> Some (Inr (rc, pkt))
            | Some parser \<Rightarrow> Some (bind_res (parser_parse parser pkt) (\<lambda>(rc, pkt).
                if rc \<noteq> PKT_PARSE_OK then Inr (rc, pkt)
                else case packet_parser_find parsers L4_INDEX (l4_proto pkt) of
                    None \<Rightarrow> Inr (rc, pkt)
                  | Some parser \<Rightarrow> parser_parse parser pkt)))"

section \<open>The views of TCP and UDP packets\<close>

record ch_packet_tcp =
  t_is_ipv6 :: bool
  t_src_ip :: u32
  t_dst_ip :: u32
  t_src_addr :: bytes
  t_dst_addr :: bytes
  t_src_port :: u16
  t_dst_port :: u16
  t_ip_dlen :: u16
  tcp_flags :: u8
  sent_seq :: u32
  recv_ack :: u32
  tth_len :: u32
  payload_len :: u32
  pdata_off :: "nat option"

definition CH_TH_FIN :: u8 where "CH_TH_FIN = 0x01"
definition CH_TH_SYN :: u8 where "CH_TH_SYN = 0x02"
definition CH_TH_RST :: u8 where "CH_TH_RST = 0x04"
definition CH_TH_ACK :: u8 where "CH_TH_ACK = 0x10"

definition is_tcp_syn_packet :: "'z ch_packet_tcp_scheme \<Rightarrow> bool" where
  "is_tcp_syn_packet p \<longleftrightarrow> tcp_flags p AND CH_TH_SYN \<noteq> 0 \<and> tcp_flags p AND CH_TH_ACK = 0"

definition is_tcp_syn_ack_packet :: "'z ch_packet_tcp_scheme \<Rightarrow> bool" where
  "is_tcp_syn_ack_packet p \<longleftrightarrow> tcp_flags p AND CH_TH_SYN \<noteq> 0 \<and> tcp_flags p AND CH_TH_ACK \<noteq> 0"

definition is_tcp_fin_packet :: "'z ch_packet_tcp_scheme \<Rightarrow> bool" where
  "is_tcp_fin_packet p \<longleftrightarrow> tcp_flags p AND CH_TH_FIN \<noteq> 0"

definition is_tcp_rst_packet :: "'z ch_packet_tcp_scheme \<Rightarrow> bool" where
  "is_tcp_rst_packet p \<longleftrightarrow> tcp_flags p AND CH_TH_RST \<noteq> 0"

text \<open>
  The length of the payload, shared by the four \<^verbatim>\<open>init_from_pkt\<close> functions: \<open>ip_dlen\<close> and
  \<open>mbdlen\<close> are 16 bits wide and wrap.
\<close>

definition pkt_tth_len :: "ch_packet \<Rightarrow> u32" where
  "pkt_tth_len pkt = ucast (l2_len pkt) + ucast (l3_len pkt) + ucast (l4_len pkt)"

definition pkt_payload_len :: "ch_packet \<Rightarrow> u16 \<Rightarrow> u32" where
  "pkt_payload_len pkt ip_dlen =
     (let mbdlen = ucast (ucast (dlen pkt) - pkt_tth_len pkt) :: u16 in ucast (min mbdlen ip_dlen))"

definition pkt_pdata_off :: "ch_packet \<Rightarrow> u16 \<Rightarrow> nat option" where
  "pkt_pdata_off pkt ip_dlen = (if pkt_payload_len pkt ip_dlen > 0 then Some (unat (pkt_tth_len pkt)) else None)"

definition ch_packet_tcp_init_from_pkt_ipv4 :: "ch_packet \<Rightarrow> ch_packet_tcp option" where
  "ch_packet_tcp_init_from_pkt_ipv4 pkt =
     (case (ch_packet_data_read pkt (l2_len pkt) 20, ch_packet_data_read pkt (l2_len pkt + l3_len pkt) 20) of
        (Some iph, Some th) \<Rightarrow>
          let ip_dlen = be16 iph 2 - l3_len pkt - l4_len pkt
          in Some \<lparr>t_is_ipv6 = False, t_src_ip = le32 iph 12, t_dst_ip = le32 iph 16, t_src_addr = [], t_dst_addr = [],
                   t_src_port = be16 th 0, t_dst_port = be16 th 2, t_ip_dlen = ip_dlen,
                   tcp_flags = th ! 13, sent_seq = be32 th 4, recv_ack = be32 th 8,
                   tth_len = pkt_tth_len pkt, payload_len = pkt_payload_len pkt ip_dlen,
                   pdata_off = pkt_pdata_off pkt ip_dlen\<rparr>
      | _ \<Rightarrow> None)"

text \<open>For IPv6 the two 32-bit addresses are left as they were; they are taken as 0 here.\<close>

definition ch_packet_tcp_init_from_pkt_ipv6 :: "ch_packet \<Rightarrow> ch_packet_tcp option" where
  "ch_packet_tcp_init_from_pkt_ipv6 pkt =
     (case (ch_packet_data_read pkt (l2_len pkt) 40, ch_packet_data_read pkt (l2_len pkt + l3_len pkt) 20) of
        (Some iph, Some th) \<Rightarrow>
          let ip_dlen = be16 iph 4 - l3_len pkt - l4_len pkt
          in Some \<lparr>t_is_ipv6 = True, t_src_ip = 0, t_dst_ip = 0,
                   t_src_addr = take 16 (drop 8 iph), t_dst_addr = take 16 (drop 24 iph),
                   t_src_port = be16 th 0, t_dst_port = be16 th 2, t_ip_dlen = ip_dlen,
                   tcp_flags = th ! 13, sent_seq = be32 th 4, recv_ack = be32 th 8,
                   tth_len = pkt_tth_len pkt, payload_len = pkt_payload_len pkt ip_dlen,
                   pdata_off = pkt_pdata_off pkt ip_dlen\<rparr>
      | _ \<Rightarrow> None)"

definition ch_packet_tcp_init_from_pkt :: "ch_packet \<Rightarrow> ch_packet_tcp option" where
  "ch_packet_tcp_init_from_pkt pkt =
     (if is_ipv6 pkt then ch_packet_tcp_init_from_pkt_ipv6 pkt else ch_packet_tcp_init_from_pkt_ipv4 pkt)"

record ch_packet_udp =
  u_is_ipv6 :: bool
  u_src_ip :: u32
  u_dst_ip :: u32
  u_src_addr :: bytes
  u_dst_addr :: bytes
  u_src_port :: u16
  u_dst_port :: u16
  u_ip_dlen :: u16
  u_tth_len :: u32
  u_payload_len :: u32
  u_pdata_off :: "nat option"

definition ch_packet_udp_init_from_pkt_ipv4 :: "ch_packet \<Rightarrow> ch_packet_udp option" where
  "ch_packet_udp_init_from_pkt_ipv4 pkt =
     (case (ch_packet_data_read pkt (l2_len pkt) 20, ch_packet_data_read pkt (l2_len pkt + l3_len pkt) 8) of
        (Some iph, Some uh) \<Rightarrow>
          let ip_dlen = be16 iph 2 - l3_len pkt - l4_len pkt
          in Some \<lparr>u_is_ipv6 = False, u_src_ip = le32 iph 12, u_dst_ip = le32 iph 16, u_src_addr = [], u_dst_addr = [],
                   u_src_port = be16 uh 0, u_dst_port = be16 uh 2, u_ip_dlen = ip_dlen,
                   u_tth_len = pkt_tth_len pkt, u_payload_len = pkt_payload_len pkt ip_dlen,
                   u_pdata_off = pkt_pdata_off pkt ip_dlen\<rparr>
      | _ \<Rightarrow> None)"

definition ch_packet_udp_init_from_pkt_ipv6 :: "ch_packet \<Rightarrow> ch_packet_udp option" where
  "ch_packet_udp_init_from_pkt_ipv6 pkt =
     (case (ch_packet_data_read pkt (l2_len pkt) 40, ch_packet_data_read pkt (l2_len pkt + l3_len pkt) 8) of
        (Some iph, Some uh) \<Rightarrow>
          let ip_dlen = be16 iph 4 - l3_len pkt - l4_len pkt
          in Some \<lparr>u_is_ipv6 = True, u_src_ip = 0, u_dst_ip = 0,
                   u_src_addr = take 16 (drop 8 iph), u_dst_addr = take 16 (drop 24 iph),
                   u_src_port = be16 uh 0, u_dst_port = be16 uh 2, u_ip_dlen = ip_dlen,
                   u_tth_len = pkt_tth_len pkt, u_payload_len = pkt_payload_len pkt ip_dlen,
                   u_pdata_off = pkt_pdata_off pkt ip_dlen\<rparr>
      | _ \<Rightarrow> None)"

definition ch_packet_udp_init_from_pkt :: "ch_packet \<Rightarrow> ch_packet_udp option" where
  "ch_packet_udp_init_from_pkt pkt =
     (if is_ipv6 pkt then ch_packet_udp_init_from_pkt_ipv6 pkt else ch_packet_udp_init_from_pkt_ipv4 pkt)"

section \<open>Packets in several segments\<close>

text \<open>\<^verbatim>\<open>ch_packets_merge\<close>: the bytes written to a buffer of \<open>pbsize\<close> bytes, from the segments of an mbuf.\<close>

fun packets_merge_loop :: "size_t \<Rightarrow> bytes \<Rightarrow> bytes list \<Rightarrow> bytes" where
  "packets_merge_loop pbsize out [] = out"
| "packets_merge_loop pbsize out (seg # segs) =
     (if of_nat (length out) + of_nat (length seg) \<ge> pbsize then out
      else packets_merge_loop pbsize (out @ seg) segs)"

definition ch_packets_merge :: "size_t \<Rightarrow> bytes list \<Rightarrow> bytes" where
  "ch_packets_merge pbsize segs = packets_merge_loop pbsize [] segs"

text \<open>
  \<^verbatim>\<open>ch_packets_copy\<close>: the copied packet, in a buffer of \<open>pbsize\<close> bytes that starts with the
  packet struct of \<open>sizeof_pkt\<close> bytes. One segment is copied without a test of the size.
\<close>

definition ch_packets_copy :: "size_t \<Rightarrow> size_t \<Rightarrow> ch_packet \<Rightarrow> bytes list \<Rightarrow> ch_packet res" where
  "ch_packets_copy sizeof_pkt pbsize pkt segs =
     (let room = pbsize - sizeof_pkt in
      case segs of
        [] \<Rightarrow> Inl Null_Deref
      | [seg] \<Rightarrow> if length seg > unat room then Inl Out_Of_Bounds
                 else Inr (pkt\<lparr>pkt_data := seg, dlen := of_nat (length seg)\<rparr>)
      | _ \<Rightarrow> let d = ch_packets_merge room segs in Inr (pkt\<lparr>pkt_data := d, dlen := of_nat (length d)\<rparr>))"

section \<open>The parser returns\<close>

lemma unat_ucast_u32_u16: "unat x < 65536 \<Longrightarrow> unat (ucast (x :: u32) :: u16) = unat x"
  by (simp add: unsigned_ucast_eq take_bit_nat_eq_self)

lemma data_read_eq_Some:
  "ch_packet_data_read pkt off len = Some h \<longleftrightarrow> unat off + unat len \<le> unat (dlen pkt) \<and> h = drop (unat off) (pkt_data pkt)"
  by (auto simp: ch_packet_data_read_def)

lemma data_read_cong:
  "dlen p = dlen q \<Longrightarrow> pkt_data p = pkt_data q \<Longrightarrow> ch_packet_data_read p = ch_packet_data_read q"
  by (intro ext) (simp add: ch_packet_data_read_def)

lemma vlan_loop_total:
  assumes "unat (dlen pkt) \<le> 65000" "unat off \<le> unat (dlen pkt)"
  shows "\<exists>r. vlan_loop pkt off proto = Some r \<and>
    (\<forall>off' proto'. r = Some (off', proto') \<longrightarrow> unat off' \<le> unat (dlen pkt))"
  using assms(2)
proof (induction "unat (dlen pkt) - unat off" arbitrary: off proto rule: less_induct)
  case less
  have off: "unat (off + 4) = unat off + 4" "unat (off + 8) = unat off + 8"
    using less.prems assms(1) by (auto simp: unat_plus32)
  have step: "\<exists>r. vlan_loop pkt (off + n) q = Some r \<and> (\<forall>off' proto'. r = Some (off', proto') \<longrightarrow> unat off' \<le> unat (dlen pkt))"
    if "unat (off + n) \<le> unat (dlen pkt)" "unat off < unat (off + n)" for n q
    using that by (intro less.hyps) auto
  have u: "unat (ucast off :: u16) = unat off" "unat (ucast (off + 4) :: u16) = unat off + 4"
    using less.prems assms(1) off by (auto simp: unat_ucast_u32_u16)
  show ?case
  proof (cases "proto = CH_ETH_P_8021Q")
    case True
    then show ?thesis using step [of 4] off u(1)
      by (subst vlan_loop.simps) (auto simp: ch_packet_data_read_def)
  next
    case False
    then show ?thesis using step [of 8] off u(2) less.prems
      by (subst vlan_loop.simps) (auto simp: ch_packet_data_read_def)
  qed
qed

lemma ether_parse_total:
  assumes "unat (dlen pkt) \<le> 65000"
  shows "\<exists>rc pkt'. ch_packet_ether_parse pkt = Some (rc, pkt') \<and> (rc = PKT_PARSE_OK \<or> rc = PKT_PARSE_DROP) \<and>
    (rc = PKT_PARSE_OK \<longrightarrow> parse_off pkt' = l2_len pkt' \<and> unat (l2_len pkt') \<le> unat (dlen pkt) \<and>
      (\<exists>l p. pkt' = pkt\<lparr>l2_len := l, parse_off := l, l3_proto := p\<rparr>))"
proof (cases "ch_packet_data_read pkt 0 14")
  case None
  then show ?thesis by (simp add: ch_packet_ether_parse_def pkt_rc_defs)
next
  case (Some eh)
  then have "unat (14 :: u32) \<le> unat (dlen pkt)" by (simp add: ch_packet_data_read_def split: if_splits)
  then obtain r where r: "vlan_loop pkt 14 (be16 eh 12) = Some r"
    "\<forall>off' proto'. r = Some (off', proto') \<longrightarrow> unat off' \<le> unat (dlen pkt)"
    using vlan_loop_total [OF assms] by blast
  have u: "unat (ucast off :: u16) \<le> unat (dlen pkt)" if "r = Some (off, p)" for off p
    using r(2) that assms by (auto simp: unat_ucast_u32_u16)
  show ?thesis using Some r(1) u
    by (auto simp: ch_packet_ether_parse_def Let_def pkt_rc_defs split: option.splits)
qed

lemma find_l3: "packet_parser_find ch_packet_init L3_INDEX p =
    (if p = CH_ETH_P_IP then Some ipv4_parser else if p = CH_ETH_P_ARP then Some arp_parser else None)"
  by (simp add: packet_parser_find_def ch_packet_init_def ch_packet_parser_register_def L3_INDEX_def L4_INDEX_def
      L_MAX_def eval_nat_numeral ipv4_parser_def arp_parser_def)

lemma find_l4: "packet_parser_find ch_packet_init L4_INDEX p =
    (if p = CH_IPPROTO_TCP then Some tcp_parser else if p = CH_IPPROTO_UDP then Some udp_parser
     else if p = CH_IPPROTO_ICMP then Some icmp_parser else None)"
  by (simp add: packet_parser_find_def ch_packet_init_def ch_packet_parser_register_def L3_INDEX_def L4_INDEX_def
      L_MAX_def eval_nat_numeral tcp_parser_def udp_parser_def icmp_parser_def)

text \<open>What the IPv4 parser leaves when the packet goes on to level 4.\<close>

definition ip4_accepted :: "ch_packet \<Rightarrow> bool" where
  "ip4_accepted p \<longleftrightarrow> (\<exists>iph. ch_packet_data_read p (l2_len p) 20 = Some iph \<and> 5 \<le> IPHL iph \<and> IPV iph = 4 \<and>
     l3_len p = ucast (IPHL iph) * 4 \<and> parse_off p = l2_len p + l3_len p \<and> pkt_type p = PKT_TYPE_OTHER \<and> \<not> is_ipv6 p)"

lemma ipv4_parse_cases:
  assumes "parse_off pkt = l2_len pkt" "pkt_type pkt = PKT_TYPE_OTHER" "\<not> is_ipv6 pkt"
  shows "\<exists>rc pkt'. packet_ipv4_parse pkt = Inr (rc, pkt') \<and> dlen pkt' = dlen pkt \<and> pkt_data pkt' = pkt_data pkt \<and>
    l2_len pkt' = l2_len pkt \<and> pkt_type pkt' = PKT_TYPE_OTHER \<and> (rc = PKT_PARSE_OK \<longrightarrow> ip4_accepted pkt')"
proof (cases "ch_packet_data_read pkt (parse_off pkt) 20")
  case None
  then show ?thesis using assms by (simp add: packet_ipv4_parse_def pkt_rc_defs)
next
  case (Some iph)
  have iph: "unat (parse_off pkt) + 20 \<le> unat (dlen pkt)" "iph = drop (unat (parse_off pkt)) (pkt_data pkt)"
    using Some by (simp_all add: data_read_eq_Some)
  show ?thesis unfolding packet_ipv4_parse_def Some option.case Let_def using assms iph
    by (auto simp: pkt_rc_defs ip4_accepted_def data_read_eq_Some not_less)
qed

lemma IPHL_le: "unat (IPHL h) \<le> 15"
proof -
  have "IPHL h \<le> 0x0f" unfolding IPHL_def by (rule word_and_le1)
  then show ?thesis by (simp add: word_le_unat)
qed

lemma TH_OFF_le: "unat (TH_OFF h) \<le> 15"
proof -
  have "unat (TH_OFF h) = unat (h ! 12 AND 0xf0) div 16" by (simp add: TH_OFF_def drop_bit_eq_div unat_div)
  moreover have "unat (h ! 12 AND 0xf0) < 256" by simp
  ultimately show ?thesis by (simp del: unat_lt8)
qed

lemma unat_words4: "unat (w :: u8) \<le> 15 \<Longrightarrow> unat (ucast w * 4 :: u16) = unat w * 4"
proof -
  assume "unat w \<le> 15"
  moreover have "unat (ucast w :: u16) = unat w"
    by (simp add: unsigned_ucast_eq take_bit_nat_eq_self less_trans [OF unat_lt8])
  ultimately show ?thesis by (simp add: unat_word_ariths)
qed

text \<open>What an accepted TCP packet looks like.\<close>

definition tcp_accepted :: "ch_packet \<Rightarrow> bool" where
  "tcp_accepted p \<longleftrightarrow> (\<exists>iph th. ch_packet_data_read p (l2_len p) 20 = Some iph \<and>
     ch_packet_data_read p (l2_len p + l3_len p) 20 = Some th \<and> 5 \<le> IPHL iph \<and> 5 \<le> TH_OFF th \<and>
     l3_len p = ucast (IPHL iph) * 4 \<and> l4_len p = ucast (TH_OFF th) * 4 \<and> \<not> is_ipv6 p \<and>
     pkt_hash p = ch_jhash_4words_sort (le32 iph 12) (le32 iph 16) (ucast (be16 th 0)) (ucast (be16 th 2)) 0)"

lemma tcp_parse_cases:
  assumes "ip4_accepted pkt"
  shows "\<exists>rc pkt'. packet_tcp_parse pkt = Inr (rc, pkt') \<and> dlen pkt' = dlen pkt \<and> (rc = PKT_PARSE_OK \<longrightarrow> tcp_accepted pkt')"
proof -
  obtain iph where i: "ch_packet_data_read pkt (l2_len pkt) 20 = Some iph" "5 \<le> IPHL iph"
    "l3_len pkt = ucast (IPHL iph) * 4" "parse_off pkt = l2_len pkt + l3_len pkt" "\<not> is_ipv6 pkt"
    using assms by (auto simp: ip4_accepted_def)
  show ?thesis
  proof (cases "ch_packet_data_read pkt (parse_off pkt) 20")
    case None
    then show ?thesis by (simp add: packet_tcp_parse_def pkt_rc_defs)
  next
    case (Some th)
    show ?thesis
    proof (cases "TH_OFF th < 5")
      case True
      then show ?thesis using Some by (simp add: packet_tcp_parse_def pkt_rc_defs Let_def)
    next
      case False
      let ?p = "pkt\<lparr>pkt_type := PKT_TYPE_TCP, l4_len := ucast (TH_OFF th) * 4, parse_off := parse_off pkt + ucast (TH_OFF th) * 4,
        pkt_hash := ch_jhash_4words_sort (le32 iph 12) (le32 iph 16) (ucast (be16 th 0)) (ucast (be16 th 2)) 0\<rparr>"
      have ev: "packet_tcp_parse pkt = Inr (PKT_PARSE_OK, ?p)"
        using i(1) Some False by (simp add: packet_tcp_parse_def Let_def)
      have rd: "ch_packet_data_read ?p = ch_packet_data_read pkt" by (rule data_read_cong) simp_all
      have "tcp_accepted ?p" unfolding tcp_accepted_def rd using i Some False by (simp add: not_less)
      then show ?thesis using ev by (intro exI [of _ PKT_PARSE_OK] exI [of _ ?p]) simp
    qed
  qed
qed

lemma udp_icmp_cases:
  "\<exists>rc pkt'. packet_udp_parse pkt = Inr (rc, pkt') \<and> pkt_type pkt' = PKT_TYPE_UDP \<and> dlen pkt' = dlen pkt"
  "\<exists>rc pkt'. packet_icmp_parse pkt = Inr (rc, pkt') \<and> (rc = PKT_PARSE_OK \<longrightarrow> pkt_type pkt' = PKT_TYPE_ICMP) \<and> dlen pkt' = dlen pkt"
  "\<exists>rc pkt'. packet_arp_parse pkt = Inr (rc, pkt') \<and> (rc = PKT_PARSE_OK \<longrightarrow> pkt_type pkt' = PKT_TYPE_ARP) \<and>
     l4_proto pkt' = l4_proto pkt \<and> dlen pkt' = dlen pkt"
  by (auto simp: packet_udp_parse_def packet_icmp_parse_def packet_arp_parse_def Let_def pkt_rc_defs split: option.splits)

lemma parse_ok:
  assumes "unat (ucast len :: u16) \<le> 65000"
  shows "\<exists>rc pkt. ch_packet_parse ch_packet_init d len = Some (Inr (rc, pkt)) \<and> dlen pkt = ucast len \<and>
    (rc = PKT_PARSE_OK \<and> pkt_type pkt = PKT_TYPE_TCP \<longrightarrow> tcp_accepted pkt)"
proof -
  let ?p0 = "packet_init d len"
  have dl: "dlen ?p0 = ucast len" by (simp add: packet_init_def)
  obtain rc p1 where e: "ch_packet_ether_parse ?p0 = Some (rc, p1)" "rc = PKT_PARSE_OK \<or> rc = PKT_PARSE_DROP"
    "rc = PKT_PARSE_OK \<longrightarrow> parse_off p1 = l2_len p1 \<and> unat (l2_len p1) \<le> unat (dlen ?p0) \<and>
      (\<exists>l p. p1 = ?p0\<lparr>l2_len := l, parse_off := l, l3_proto := p\<rparr>)"
    using ether_parse_total [of ?p0] assms dl by auto
  show ?thesis
  proof (cases "rc = PKT_PARSE_OK")
    case False
    then have "ch_packet_parse ch_packet_init d len = Some (Inr (rc, p1))" using e(1) by (simp add: ch_packet_parse_def)
    moreover have "p1 = ?p0"
      using e(1) False by (auto simp: ch_packet_ether_parse_def Let_def pkt_rc_defs split: option.splits if_splits)
    ultimately show ?thesis using False dl by simp
  next
    case True
    then obtain l p where p1: "p1 = ?p0\<lparr>l2_len := l, parse_off := l, l3_proto := p\<rparr>" using e(3) by blast
    have f: "dlen p1 = ucast len" "pkt_type p1 = PKT_TYPE_OTHER" "\<not> is_ipv6 p1" "l4_proto p1 = 0" "l3_proto p1 = p" "parse_off p1 = l2_len p1"
      by (simp_all add: p1 packet_init_def)
    have ev: "ch_packet_parse ch_packet_init d len = (case packet_parser_find ch_packet_init L3_INDEX p of
        None \<Rightarrow> Some (Inr (PKT_PARSE_OK, p1))
      | Some parser \<Rightarrow> Some (bind_res (parser_parse parser p1) (\<lambda>(rc, pkt).
          if rc \<noteq> PKT_PARSE_OK then Inr (rc, pkt)
          else case packet_parser_find ch_packet_init L4_INDEX (l4_proto pkt) of
              None \<Rightarrow> Inr (rc, pkt) | Some parser \<Rightarrow> parser_parse parser pkt)))"
      using e(1) True f(5) by (simp add: ch_packet_parse_def)
    consider (ip) "p = CH_ETH_P_IP" | (arp) "p = CH_ETH_P_ARP" | (other) "p \<noteq> CH_ETH_P_IP" "p \<noteq> CH_ETH_P_ARP" by blast
    then show ?thesis
    proof cases
      case other
      then show ?thesis using ev f by (simp add: find_l3 pkt_type_defs)
    next
      case arp
      obtain rc2 p2 where "packet_arp_parse p1 = Inr (rc2, p2)" "rc2 = PKT_PARSE_OK \<longrightarrow> pkt_type p2 = PKT_TYPE_ARP" "l4_proto p2 = 0" "dlen p2 = dlen p1"
        using udp_icmp_cases(3) [of p1] f(4) by auto
      then show ?thesis using ev arp f(1) by (simp add: find_l3 find_l4 arp_parser_def proto_defs pkt_type_defs)
    next
      case ip
      obtain rc2 p2 where i: "packet_ipv4_parse p1 = Inr (rc2, p2)" "dlen p2 = dlen p1" "pkt_type p2 = PKT_TYPE_OTHER"
        "rc2 = PKT_PARSE_OK \<longrightarrow> ip4_accepted p2"
        using ipv4_parse_cases [OF f(6,2,3)] by blast
      have ev2: "ch_packet_parse ch_packet_init d len = Some (if rc2 \<noteq> PKT_PARSE_OK then Inr (rc2, p2)
          else case packet_parser_find ch_packet_init L4_INDEX (l4_proto p2) of
              None \<Rightarrow> Inr (rc2, p2) | Some parser \<Rightarrow> parser_parse parser p2)"
        using ev ip i(1) by (simp add: find_l3 ipv4_parser_def)
      obtain rt pt where t: "rc2 = PKT_PARSE_OK \<longrightarrow> packet_tcp_parse p2 = Inr (rt, pt) \<and> dlen pt = dlen p2 \<and>
          (rt = PKT_PARSE_OK \<longrightarrow> tcp_accepted pt)" using tcp_parse_cases i(4) by blast
      obtain ru pu where u: "packet_udp_parse p2 = Inr (ru, pu)" "pkt_type pu = PKT_TYPE_UDP" "dlen pu = dlen p2"
        using udp_icmp_cases(1) by blast
      obtain ri pi where c: "packet_icmp_parse p2 = Inr (ri, pi)" "ri = PKT_PARSE_OK \<longrightarrow> pkt_type pi = PKT_TYPE_ICMP" "dlen pi = dlen p2"
        using udp_icmp_cases(2) by blast
      show ?thesis
        using t u c i(2,3) f(1) unfolding ev2 find_l4
        by (auto simp: tcp_parser_def udp_parser_def icmp_parser_def pkt_type_defs)
    qed
  qed
qed

section \<open>The view of an accepted TCP packet\<close>

lemma tcp_view:
  assumes "tcp_accepted p"
  shows "\<exists>t. ch_packet_tcp_init_from_pkt p = Some t \<and> tth_len t = pkt_tth_len p \<and>
    pkt_hash p = ch_jhash_4words_sort (t_src_ip t) (t_dst_ip t) (ucast (t_src_port t)) (ucast (t_dst_port t)) 0"
  using assms by (auto simp: tcp_accepted_def ch_packet_tcp_init_from_pkt_def ch_packet_tcp_init_from_pkt_ipv4_def Let_def)

lemma unat_ucast_u16_u32 [simp]: "unat (ucast (x :: u16) :: u32) = unat x"
  by (simp add: unsigned_ucast_eq take_bit_nat_eq_self less_trans [OF unat_lt16])

lemma unat_tth_len: "unat (pkt_tth_len pkt) = unat (l2_len pkt) + unat (l3_len pkt) + unat (l4_len pkt)"
proof -
  have b: "unat (l2_len pkt) < 65536" "unat (l3_len pkt) < 65536" "unat (l4_len pkt) < 65536" by simp_all
  have "unat (ucast (l2_len pkt) + ucast (l3_len pkt) :: u32) = unat (l2_len pkt) + unat (l3_len pkt)"
    by (subst unat_plus32) (use b in \<open>simp_all del: unat_lt16\<close>)
  then show ?thesis unfolding pkt_tth_len_def
    by (subst unat_plus32) (use b in \<open>simp_all del: unat_lt16\<close>)
qed

lemma payload_inside:
  assumes "unat (pkt_tth_len pkt) \<le> unat (dlen pkt)"
  shows "unat (pkt_tth_len pkt) + unat (pkt_payload_len pkt n) \<le> unat (dlen pkt)"
proof -
  have le: "pkt_tth_len pkt \<le> ucast (dlen pkt)" using assms by (simp add: word_le_unat)
  have d: "unat (ucast (dlen pkt) - pkt_tth_len pkt :: u32) = unat (dlen pkt) - unat (pkt_tth_len pkt)"
    using le by (simp add: unat_sub)
  have "unat (dlen pkt) < 65536" by simp
  then have m: "unat (ucast (ucast (dlen pkt) - pkt_tth_len pkt :: u32) :: u16) = unat (dlen pkt) - unat (pkt_tth_len pkt)"
    using d by (subst unat_ucast_u32_u16) (auto simp del: unat_lt16)
  have "unat (pkt_payload_len pkt n) \<le> unat (ucast (ucast (dlen pkt) - pkt_tth_len pkt :: u32) :: u16)"
    by (simp add: pkt_payload_len_def Let_def min_def word_le_unat)
  then show ?thesis using m assms by simp
qed

section \<open>Properties\<close>

text \<open>The parsers only add to what is known of a packet: its data stay, and no registered parser marks it as IPv6.\<close>

lemma vlan_ether_keeps:
  "ch_packet_ether_parse pkt = Some (rc, pkt') \<Longrightarrow> pkt_data pkt' = pkt_data pkt \<and> dlen pkt' = dlen pkt \<and> is_ipv6 pkt' = is_ipv6 pkt"
  by (auto simp: ch_packet_ether_parse_def Let_def split: option.splits if_splits)

lemma parsers_keep:
  "packet_ipv4_parse pkt = Inr (rc, pkt') \<Longrightarrow> pkt_data pkt' = pkt_data pkt \<and> dlen pkt' = dlen pkt \<and> is_ipv6 pkt' = is_ipv6 pkt"
  "packet_arp_parse pkt = Inr (rc, pkt') \<Longrightarrow> pkt_data pkt' = pkt_data pkt \<and> dlen pkt' = dlen pkt \<and> is_ipv6 pkt' = is_ipv6 pkt"
  "packet_tcp_parse pkt = Inr (rc, pkt') \<Longrightarrow> pkt_data pkt' = pkt_data pkt \<and> dlen pkt' = dlen pkt \<and> is_ipv6 pkt' = is_ipv6 pkt"
  "packet_udp_parse pkt = Inr (rc, pkt') \<Longrightarrow> pkt_data pkt' = pkt_data pkt \<and> dlen pkt' = dlen pkt \<and> is_ipv6 pkt' = is_ipv6 pkt"
  "packet_icmp_parse pkt = Inr (rc, pkt') \<Longrightarrow> pkt_data pkt' = pkt_data pkt \<and> dlen pkt' = dlen pkt \<and> is_ipv6 pkt' = is_ipv6 pkt"
  by (auto simp: packet_ipv4_parse_def packet_arp_parse_def packet_tcp_parse_def packet_udp_parse_def packet_icmp_parse_def Let_def
      split: option.splits if_splits)

lemma packet_parse_keeps:
  assumes "ch_packet_parse ch_packet_init d len = Some (Inr (rc, pkt))"
  shows "pkt_data pkt = d \<and> dlen pkt = ucast len \<and> \<not> is_ipv6 pkt"
proof -
  let ?keeps = "\<lambda>p q. pkt_data q = pkt_data p \<and> dlen q = dlen p \<and> is_ipv6 q = is_ipv6 (p :: ch_packet)"
  have l3: "?keeps p q" if "packet_parser_find ch_packet_init L3_INDEX proto = Some f" "parser_parse f p = Inr (r, q)" for proto f p q r
    using that parsers_keep(1,2) [of p r q] unfolding find_l3 by (auto simp: ipv4_parser_def arp_parser_def split: if_splits)
  have l4: "?keeps p q" if "packet_parser_find ch_packet_init L4_INDEX proto = Some f" "parser_parse f p = Inr (r, q)" for proto f p q r
    using that parsers_keep(3-5) [of p r q] unfolding find_l4
    by (auto simp: tcp_parser_def udp_parser_def icmp_parser_def split: if_splits)
  obtain r1 p1 where e: "ch_packet_ether_parse (packet_init d len) = Some (r1, p1)"
    using assms by (auto simp: ch_packet_parse_def split: option.splits)
  have "pkt = p1 \<or> (\<exists>f r2 p2. packet_parser_find ch_packet_init L3_INDEX (l3_proto p1) = Some f \<and> parser_parse f p1 = Inr (r2, p2) \<and>
      (pkt = p2 \<or> (\<exists>g r3. packet_parser_find ch_packet_init L4_INDEX (l4_proto p2) = Some g \<and> parser_parse g p2 = Inr (r3, pkt))))"
    using assms e by (auto simp: ch_packet_parse_def bind_res_eq_Inr split: option.splits if_splits)
  then have "?keeps p1 pkt" using l3 l4 by metis
  then have "?keeps (packet_init d len) pkt" using vlan_ether_keeps [OF e] by simp
  then show ?thesis by (simp add: packet_init_def)
qed

text \<open>
  C5. The packet parser with the parsers that \<^verbatim>\<open>ch_packet_init\<close> registers: on every packet of
  up to 65000 bytes, whatever they are, \<^verbatim>\<open>ch_packet_parse\<close> returns and reads no \<^verbatim>\<open>NULL\<close>
  header. In a packet it accepts as TCP the whole IP header and the first 20 bytes of the TCP header lie inside
  the packet, one behind the other, and the lengths of both headers are four times what their length fields say, from 20 to 60 bytes. The
  options of the TCP header are not promised to lie inside.
\<close>

theorem ch_packet_parse_total:
  assumes "unat (ucast len :: u16) \<le> 65000"
  shows "\<exists>rc pkt. ch_packet_parse ch_packet_init d len = Some (Inr (rc, pkt)) \<and>
    (rc = PKT_PARSE_OK \<and> pkt_type pkt = PKT_TYPE_TCP \<longrightarrow>
       unat (l2_len pkt) + unat (l3_len pkt) + 20 \<le> unat (ucast len :: u16) \<and>
       unat (l3_len pkt) = 4 * unat (IPHL (drop (unat (l2_len pkt)) d)) \<and> unat (l3_len pkt) \<in> {20..60} \<and>
       unat (l4_len pkt) = 4 * unat (TH_OFF (drop (unat (l2_len pkt) + unat (l3_len pkt)) d)) \<and> unat (l4_len pkt) \<in> {20..60})"
proof -
  obtain rc pkt where p: "ch_packet_parse ch_packet_init d len = Some (Inr (rc, pkt))" "dlen pkt = ucast len"
    "rc = PKT_PARSE_OK \<and> pkt_type pkt = PKT_TYPE_TCP \<longrightarrow> tcp_accepted pkt" using parse_ok [OF assms] by blast
  have d: "pkt_data pkt = d" using packet_parse_keeps [OF p(1)] by simp
  have "unat (l2_len pkt) + unat (l3_len pkt) + 20 \<le> unat (ucast len :: u16) \<and>
       unat (l3_len pkt) = 4 * unat (IPHL (drop (unat (l2_len pkt)) d)) \<and> unat (l3_len pkt) \<in> {20..60} \<and>
       unat (l4_len pkt) = 4 * unat (TH_OFF (drop (unat (l2_len pkt) + unat (l3_len pkt)) d)) \<and> unat (l4_len pkt) \<in> {20..60}"
    if acc: "tcp_accepted pkt"
  proof -
    obtain iph th where a: "unat (l2_len pkt) + 20 \<le> unat (dlen pkt)" "unat (l2_len pkt + l3_len pkt) + 20 \<le> unat (dlen pkt)"
      "5 \<le> IPHL iph" "5 \<le> TH_OFF th" "l3_len pkt = ucast (IPHL iph) * 4" "l4_len pkt = ucast (TH_OFF th) * 4"
      "iph = drop (unat (l2_len pkt)) d" "th = drop (unat (l2_len pkt + l3_len pkt)) d"
      using acc by (auto simp: tcp_accepted_def data_read_eq_Some d)
    have l3: "unat (l3_len pkt) = 4 * unat (IPHL iph)" "unat (l3_len pkt) \<in> {20..60}"
      and l4: "unat (l4_len pkt) = 4 * unat (TH_OFF th)" "unat (l4_len pkt) \<in> {20..60}"
      using a(3-6) IPHL_le [of iph] TH_OFF_le [of th] by (auto simp: unat_words4 word_le_unat)
    have sum: "unat (l2_len pkt + l3_len pkt) = unat (l2_len pkt) + unat (l3_len pkt)"
      using a(1) l3(2) p(2) assms by (simp add: unat_word_ariths)
    show ?thesis using a(2) l3 l4 p(2) unfolding sum a(7,8) by simp
  qed
  then show ?thesis using p(1,3) by blast
qed

text \<open>
  C31. Both directions of a TCP connection get the same packet hash, so that they reach the same
  worker: two accepted TCP packets whose addresses and ports are each other's swapped have the
  same \<^verbatim>\<open>pkt->hash\<close>.
\<close>

theorem packet_hash_symmetric:
  assumes "unat (ucast len1 :: u16) \<le> 65000" "unat (ucast len2 :: u16) \<le> 65000"
    "ch_packet_parse ch_packet_init d1 len1 = Some (Inr (PKT_PARSE_OK, p1))" "pkt_type p1 = PKT_TYPE_TCP"
    "ch_packet_parse ch_packet_init d2 len2 = Some (Inr (PKT_PARSE_OK, p2))" "pkt_type p2 = PKT_TYPE_TCP"
    "ch_packet_tcp_init_from_pkt p1 = Some t1" "ch_packet_tcp_init_from_pkt p2 = Some t2"
    "t_src_ip t2 = t_dst_ip t1" "t_dst_ip t2 = t_src_ip t1" "t_src_port t2 = t_dst_port t1" "t_dst_port t2 = t_src_port t1"
  shows "pkt_hash p1 = pkt_hash p2"
proof -
  have a: "tcp_accepted p1" using parse_ok [OF assms(1), of d1] assms(3,4) by simp
  have b: "tcp_accepted p2" using parse_ok [OF assms(2), of d2] assms(5,6) by simp
  have "pkt_hash p1 = ch_jhash_4words_sort (t_src_ip t1) (t_dst_ip t1) (ucast (t_src_port t1)) (ucast (t_dst_port t1)) 0"
    "pkt_hash p2 = ch_jhash_4words_sort (t_dst_ip t1) (t_src_ip t1) (ucast (t_dst_port t1)) (ucast (t_src_port t1)) 0"
    using tcp_view [OF a] tcp_view [OF b] assms(7-12) by simp_all
  moreover have "ch_jhash_4words_sort (t_src_ip t1) (t_dst_ip t1) (ucast (t_src_port t1)) (ucast (t_dst_port t1)) 0 =
      ch_jhash_4words_sort (t_dst_ip t1) (t_src_ip t1) (ucast (t_dst_port t1)) (ucast (t_src_port t1)) 0"
    by (rule ch_jhash_4words_sort_mset) simp
  ultimately show ?thesis by simp
qed

text \<open>
  C32. When the headers of a packet lie inside it, so does the payload of its TCP view:
  \<^verbatim>\<open>tth_len + payload_len\<close> is at most the length of the packet, and there is payload data just
  if the length is not 0.
\<close>

theorem ch_packet_tcp_payload_inside:
  assumes "ch_packet_tcp_init_from_pkt pkt = Some t" "unat (l2_len pkt) + unat (l3_len pkt) + unat (l4_len pkt) \<le> unat (dlen pkt)"
  shows "unat (tth_len t) + unat (payload_len t) \<le> unat (dlen pkt) \<and>
    pdata_off t = (if payload_len t = 0 then None else Some (unat (tth_len t)))"
proof -
  obtain n where t: "tth_len t = pkt_tth_len pkt" "payload_len t = pkt_payload_len pkt n" "pdata_off t = pkt_pdata_off pkt n"
    using assms(1)
    by (auto simp: ch_packet_tcp_init_from_pkt_def ch_packet_tcp_init_from_pkt_ipv4_def ch_packet_tcp_init_from_pkt_ipv6_def
        Let_def split: if_splits option.splits)
  then show ?thesis using payload_inside [of pkt n] assms(2) by (auto simp: unat_tth_len pkt_pdata_off_def word_gt_0)
qed

text \<open>A TCP packet of 54 bytes whose data offset claims a header of 60 bytes and whose IP length claims 1080 bytes.\<close>

definition short_tcp_packet :: bytes where
  "short_tcp_packet =
     [0,0,0,0,0,0, 0,0,0,0,0,0, 0x08,0x00,
      0x45,0, 0x04,0x38, 0,0, 0,0, 64, 6, 0,0, 10,0,0,1, 10,0,0,2,
      0x10,0, 0x00,0x50, 0,0,0,1, 0,0,0,0, 0xf0,0x10, 0,0, 0,0, 0,0]"

lemma vlan_loop_done: "proto \<noteq> CH_ETH_P_8021Q \<Longrightarrow> proto \<noteq> CH_ETH_P_8021AD \<Longrightarrow> vlan_loop pkt off proto = Some (Some (off, proto))"
  by (subst vlan_loop.simps) simp

lemma short_tcp_packet_parse:
  "\<exists>h. ch_packet_parse ch_packet_init short_tcp_packet 54 = Some (Inr (PKT_PARSE_OK,
     (packet_init short_tcp_packet 54)\<lparr>l2_len := 14, parse_off := 94, l3_proto := 0x0800, l3_len := 20, l4_proto := 6,
       pkt_type := 1, l4_len := 60, pkt_hash := h\<rparr>))"
proof -
  let ?p = "(packet_init short_tcp_packet 54)\<lparr>l2_len := 14, parse_off := 14, l3_proto := 0x0800\<rparr>"
  have e: "ch_packet_ether_parse (packet_init short_tcp_packet 54) = Some (PKT_PARSE_OK, ?p)"
    by (simp add: ch_packet_ether_parse_def packet_init_def ch_packet_data_read_def short_tcp_packet_def be16_def
        proto_defs vlan_loop_done)
  let ?q = "?p\<lparr>l3_len := 20, parse_off := 34, l4_proto := 6\<rparr>"
  have i: "packet_ipv4_parse ?p = Inr (PKT_PARSE_OK, ?q)"
    by (simp add: packet_ipv4_parse_def packet_init_def ch_packet_data_read_def short_tcp_packet_def be16_def
        IPHL_def IPV_def proto_defs)
  have t: "\<exists>h. packet_tcp_parse ?q = Inr (PKT_PARSE_OK, ?q\<lparr>pkt_type := 1, l4_len := 60, parse_off := 94, pkt_hash := h\<rparr>)"
    by (simp add: packet_tcp_parse_def packet_init_def ch_packet_data_read_def short_tcp_packet_def TH_OFF_def PKT_TYPE_TCP_def)
  then obtain h where h: "packet_tcp_parse ?q = Inr (PKT_PARSE_OK, ?q\<lparr>pkt_type := 1, l4_len := 60, parse_off := 94, pkt_hash := h\<rparr>)" ..
  let ?r = "?q\<lparr>pkt_type := 1, l4_len := 60, parse_off := 94, pkt_hash := h\<rparr>"
  have ev: "ch_packet_parse ch_packet_init short_tcp_packet 54 = Some (Inr (PKT_PARSE_OK, ?r))"
    using e i h by (simp add: ch_packet_parse_def find_l3 find_l4 ipv4_parser_def tcp_parser_def proto_defs)
  then show ?thesis by (auto simp: packet_init_def)
qed

text \<open>
  \<^verbatim>\<open>_packet_tcp_parse\<close> does not compare the TCP header length with the packet: a packet of
  54 bytes is accepted whose payload is said to be 1000 bytes behind byte 94, since
  \<^verbatim>\<open>mbdlen = pkt->dlen - tth_len\<close> wraps.
\<close>

theorem short_tcp_packet_accepted:
  "\<exists>pkt t. ch_packet_parse ch_packet_init short_tcp_packet 54 = Some (Inr (PKT_PARSE_OK, pkt)) \<and>
    ch_packet_tcp_init_from_pkt pkt = Some t \<and> dlen pkt = 54 \<and> payload_len t = 1000 \<and> pdata_off t = Some 94"
proof -
  obtain h where ev: "ch_packet_parse ch_packet_init short_tcp_packet 54 = Some (Inr (PKT_PARSE_OK,
     (packet_init short_tcp_packet 54)\<lparr>l2_len := 14, parse_off := 94, l3_proto := 0x0800, l3_len := 20, l4_proto := 6,
       pkt_type := 1, l4_len := 60, pkt_hash := h\<rparr>))" (is "_ = Some (Inr (_, ?r))")
    using short_tcp_packet_parse by blast
  have "\<exists>t. ch_packet_tcp_init_from_pkt ?r = Some t \<and> payload_len t = 1000 \<and> pdata_off t = Some 94"
    by (simp add: ch_packet_tcp_init_from_pkt_def ch_packet_tcp_init_from_pkt_ipv4_def packet_init_def
        ch_packet_data_read_def short_tcp_packet_def be16_def pkt_payload_len_def pkt_tth_len_def pkt_pdata_off_def Let_def min_def)
  with ev show ?thesis by (auto simp: packet_init_def)
qed

lemma merge_loop_correct:
  assumes "length out + length (concat segs) < 2 ^ 64" "length out < unat pbsize \<or> out = []"
  shows "\<exists>k\<le>length segs. packets_merge_loop pbsize out segs = out @ concat (take k segs) \<and>
    (length (out @ concat (take k segs)) < unat pbsize \<or> out @ concat (take k segs) = []) \<and>
    (k < length segs \<longrightarrow> unat pbsize \<le> length (out @ concat (take (Suc k) segs)))"
  using assms
proof (induction segs arbitrary: out)
  case (Cons seg segs)
  have "length out + length seg < 18446744073709551616" using Cons.prems(1) by simp
  then have u: "unat (of_nat (length out) + of_nat (length seg) :: u64) = length out + length seg"
    by (simp add: unat_word_ariths unat_of_nat)
  show ?case
  proof (cases "of_nat (length out) + of_nat (length seg) \<ge> pbsize")
    case True
    then have "unat pbsize \<le> length out + length seg" using u by (simp add: word_le_unat)
    then show ?thesis using True Cons.prems(2) by (intro exI [of _ 0]) auto
  next
    case False
    then have lt: "length out + length seg < unat pbsize" using u by (simp add: word_le_unat)
    obtain k where "k \<le> length segs" "packets_merge_loop pbsize (out @ seg) segs = (out @ seg) @ concat (take k segs)"
      "length ((out @ seg) @ concat (take k segs)) < unat pbsize \<or> (out @ seg) @ concat (take k segs) = []"
      "k < length segs \<longrightarrow> unat pbsize \<le> length ((out @ seg) @ concat (take (Suc k) segs))"
      using Cons.IH [of "out @ seg"] Cons.prems(1) lt by auto
    then show ?thesis using False by (intro exI [of _ "Suc k"]) simp
  qed
qed simp

text \<open>
  \<^verbatim>\<open>ch_packets_merge\<close> never writes outside its buffer: it copies the longest run of leading
  segments whose total is less than the size of the buffer, whole, in order, and nothing else.
\<close>

theorem ch_packets_merge_correct:
  assumes "length (concat segs) < 2 ^ 64"
  shows "\<exists>k\<le>length segs. ch_packets_merge pbsize segs = concat (take k segs) \<and>
    length (ch_packets_merge pbsize segs) \<le> unat pbsize \<and>
    (k < length segs \<longrightarrow> unat pbsize \<le> length (concat (take (Suc k) segs)))"
proof -
  obtain k where "k \<le> length segs" "packets_merge_loop pbsize [] segs = [] @ concat (take k segs)"
    "length ([] @ concat (take k segs)) < unat pbsize \<or> [] @ concat (take k segs) = []"
    "k < length segs \<longrightarrow> unat pbsize \<le> length ([] @ concat (take (Suc k) segs))"
    using merge_loop_correct [of "[]" segs pbsize] assms by auto
  then show ?thesis unfolding ch_packets_merge_def append_Nil
    by (intro exI [of _ k]) (metis less_imp_le list.size(3) zero_le)
qed

section \<open>Witnesses\<close>

text \<open>A TCP packet without payload from host \<open>s\<close> port \<open>sp\<close> to host \<open>d\<close> port \<open>dp\<close>.\<close>

definition sample_packet :: "u8 \<Rightarrow> u8 \<Rightarrow> u8 \<Rightarrow> u8 \<Rightarrow> bytes" where
  "sample_packet s d sp dp =
     [0,0,0,0,0,0, 0,0,0,0,0,0, 0x08,0x00,
      0x45,0, 0,40, 0,0, 0,0, 64, 6, 0,0, 10,0,0,s, 10,0,0,d,
      0,sp, 0,dp, 0,0,0,1, 0,0,0,0, 0x50,0x10, 0,0, 0,0, 0,0]"

lemma sample_packet_parse:
  "\<exists>p t. ch_packet_parse ch_packet_init (sample_packet s d sp dp) 54 = Some (Inr (PKT_PARSE_OK, p)) \<and>
    pkt_type p = PKT_TYPE_TCP \<and> ch_packet_tcp_init_from_pkt p = Some t \<and>
    unat (l2_len p) + unat (l3_len p) + unat (l4_len p) \<le> unat (dlen p) \<and>
    t_src_ip t = le32 [10, 0, 0, s] 0 \<and> t_dst_ip t = le32 [10, 0, 0, d] 0 \<and>
    t_src_port t = be16 [0, sp] 0 \<and> t_dst_port t = be16 [0, dp] 0"
proof -
  let ?d = "sample_packet s d sp dp"
  let ?p = "(packet_init ?d 54)\<lparr>l2_len := 14, parse_off := 14, l3_proto := 0x0800\<rparr>"
  have e: "ch_packet_ether_parse (packet_init ?d 54) = Some (PKT_PARSE_OK, ?p)"
    by (simp add: ch_packet_ether_parse_def packet_init_def ch_packet_data_read_def sample_packet_def be16_def
        proto_defs vlan_loop_done)
  let ?q = "?p\<lparr>l3_len := 20, parse_off := 34, l4_proto := 6\<rparr>"
  have i: "packet_ipv4_parse ?p = Inr (PKT_PARSE_OK, ?q)"
    by (simp add: packet_ipv4_parse_def packet_init_def ch_packet_data_read_def sample_packet_def be16_def
        IPHL_def IPV_def proto_defs)
  have "\<exists>h. packet_tcp_parse ?q = Inr (PKT_PARSE_OK, ?q\<lparr>pkt_type := 1, l4_len := 20, parse_off := 54, pkt_hash := h\<rparr>)"
    by (simp add: packet_tcp_parse_def packet_init_def ch_packet_data_read_def sample_packet_def TH_OFF_def PKT_TYPE_TCP_def)
  then obtain h where h: "packet_tcp_parse ?q = Inr (PKT_PARSE_OK, ?q\<lparr>pkt_type := 1, l4_len := 20, parse_off := 54, pkt_hash := h\<rparr>)" ..
  let ?r = "?q\<lparr>pkt_type := 1, l4_len := 20, parse_off := 54, pkt_hash := h\<rparr>"
  have ev: "ch_packet_parse ch_packet_init ?d 54 = Some (Inr (PKT_PARSE_OK, ?r))"
    using e i h by (simp add: ch_packet_parse_def find_l3 find_l4 ipv4_parser_def tcp_parser_def proto_defs)
  have "\<exists>t. ch_packet_tcp_init_from_pkt ?r = Some t \<and>
      t_src_ip t = le32 [10, 0, 0, s] 0 \<and> t_dst_ip t = le32 [10, 0, 0, d] 0 \<and>
      t_src_port t = be16 [0, sp] 0 \<and> t_dst_port t = be16 [0, dp] 0"
    by (simp add: ch_packet_tcp_init_from_pkt_def ch_packet_tcp_init_from_pkt_ipv4_def packet_init_def
        ch_packet_data_read_def sample_packet_def be16_def le32_def Let_def)
  with ev show ?thesis by (auto simp: packet_init_def PKT_TYPE_TCP_def)
qed

theorem ch_packet_parse_total_witness:
  "\<exists>pkt. ch_packet_parse ch_packet_init (sample_packet 1 2 3 4) 54 = Some (Inr (PKT_PARSE_OK, pkt)) \<and>
     unat (l2_len pkt) + unat (l3_len pkt) + 20 \<le> 54 \<and> unat (l3_len pkt) \<in> {20..60} \<and> unat (l4_len pkt) \<in> {20..60}"
proof -
  obtain p where p: "ch_packet_parse ch_packet_init (sample_packet 1 2 3 4) 54 = Some (Inr (PKT_PARSE_OK, p))"
    "pkt_type p = PKT_TYPE_TCP" using sample_packet_parse by blast
  then have "unat (l2_len p) + unat (l3_len p) + 20 \<le> unat (ucast (54 :: u32) :: u16) \<and> unat (l3_len p) \<in> {20..60} \<and> unat (l4_len p) \<in> {20..60}"
    using ch_packet_parse_total [of 54 "sample_packet 1 2 3 4"] by auto
  with p(1) show ?thesis by auto
qed

theorem packet_hash_symmetric_witness:
  "\<exists>p1 p2. ch_packet_parse ch_packet_init (sample_packet 1 2 3 4) 54 = Some (Inr (PKT_PARSE_OK, p1)) \<and>
     ch_packet_parse ch_packet_init (sample_packet 2 1 4 3) 54 = Some (Inr (PKT_PARSE_OK, p2)) \<and> pkt_hash p1 = pkt_hash p2"
proof -
  obtain p1 t1 where 1: "ch_packet_parse ch_packet_init (sample_packet 1 2 3 4) 54 = Some (Inr (PKT_PARSE_OK, p1))"
    "pkt_type p1 = PKT_TYPE_TCP" "ch_packet_tcp_init_from_pkt p1 = Some t1"
    "t_src_ip t1 = le32 [10, 0, 0, 1] 0" "t_dst_ip t1 = le32 [10, 0, 0, 2] 0"
    "t_src_port t1 = be16 [0, 3] 0" "t_dst_port t1 = be16 [0, 4] 0" using sample_packet_parse by blast
  obtain p2 t2 where 2: "ch_packet_parse ch_packet_init (sample_packet 2 1 4 3) 54 = Some (Inr (PKT_PARSE_OK, p2))"
    "pkt_type p2 = PKT_TYPE_TCP" "ch_packet_tcp_init_from_pkt p2 = Some t2"
    "t_src_ip t2 = le32 [10, 0, 0, 2] 0" "t_dst_ip t2 = le32 [10, 0, 0, 1] 0"
    "t_src_port t2 = be16 [0, 4] 0" "t_dst_port t2 = be16 [0, 3] 0" using sample_packet_parse by blast
  have "pkt_hash p1 = pkt_hash p2"
    by (rule packet_hash_symmetric [OF _ _ 1(1,2) 2(1,2) 1(3) 2(3)]) (simp_all add: 1(4-7) 2(4-7))
  with 1(1) 2(1) show ?thesis by blast
qed

theorem ch_packet_tcp_payload_inside_witness:
  "\<exists>pkt t. ch_packet_tcp_init_from_pkt pkt = Some t \<and> unat (tth_len t) + unat (payload_len t) \<le> unat (dlen pkt)"
proof -
  obtain p t where p: "ch_packet_tcp_init_from_pkt p = Some t"
    "unat (l2_len p) + unat (l3_len p) + unat (l4_len p) \<le> unat (dlen p)" using sample_packet_parse [of 1 2 3 4] by blast
  then show ?thesis using ch_packet_tcp_payload_inside [OF p] by blast
qed

theorem ch_packets_merge_correct_witness:
  "\<exists>k. ch_packets_merge 4 [[1, 2, 3], [4, 5]] = concat (take k [[1, 2, 3], [4, 5]]) \<and>
     length (ch_packets_merge 4 [[1, 2, 3], [4, 5]]) \<le> 4"
  using ch_packets_merge_correct [of "[[1, 2, 3], [4, 5]]" 4] by auto

end
