(* ===== verification/Object_Pool.thy ===== *)
theory Object_Pool
  imports Pow2
begin

text \<open>
  The pool of fixed-size objects, \<^verbatim>\<open>lib/common/ch_object_pool.c\<close>, and the entry pool on top
  of it, \<^verbatim>\<open>lib/ptables/ch_entry_pool.c\<close>. Addresses are natural numbers. Objects are cut out
  of blocks of 64 KB; a free object is a member of the free list. The result of
  \<^verbatim>\<open>malloc(OBJECT_MEM_SIZE)\<close>, should it be called, is an argument (\<open>None\<close> for \<^verbatim>\<open>NULL\<close>);
  what the callback \<^verbatim>\<open>obj_init\<close> does to the contents of an object is outside the pool's
  state. Shown here: an object is never handed out twice, two objects never overlap, a client
  that puts back only what it holds never corrupts the free list.
\<close>

section \<open>State and operations\<close>

record ch_object_pool =
  mm_list :: "addr list"
  free_list :: "addr list"
  object_limits :: size_t
  object_size :: size_t
  n_objects :: size_t
  n_mms :: size_t
  n_frees :: size_t
  n_using :: size_t

definition OBJECT_MEM_SIZE :: nat where "OBJECT_MEM_SIZE = 64 * 1024"

text \<open>\<^verbatim>\<open>sizeof(ch_object_mem_t)\<close> and \<^verbatim>\<open>sizeof(ch_object_item_t)\<close> under LP64.\<close>

definition sizeof_ch_object_mem :: nat where "sizeof_ch_object_mem = 8"
definition sizeof_ch_object_item :: nat where "sizeof_ch_object_item = 16"

text \<open>The loop of \<^verbatim>\<open>_new_memory\<close>: the items cut out of the memory from \<open>pos\<close> to \<open>fin\<close>.\<close>

function new_items :: "nat \<Rightarrow> nat \<Rightarrow> nat \<Rightarrow> addr list" where
  "new_items pos fin r_item_size =
     (if 0 < r_item_size \<and> pos + r_item_size < fin
      then pos # new_items (pos + r_item_size) fin r_item_size else [])"
  by pat_completeness auto
termination
  by (relation "measure (\<lambda>(pos, fin, r). fin - pos)") auto

declare new_items.simps [simp del]

definition r_item_size :: "ch_object_pool \<Rightarrow> nat" where
  "r_item_size omp = unat (object_size omp) + sizeof_ch_object_item"

definition block_items :: "nat \<Rightarrow> addr \<Rightarrow> addr list" where
  "block_items r base = new_items (base + sizeof_ch_object_mem) (base + OBJECT_MEM_SIZE) r"

definition new_memory :: "addr option \<Rightarrow> ch_object_pool \<Rightarrow> int \<times> ch_object_pool" where
  "new_memory mem omp =
     (case mem of
        None \<Rightarrow> (-1, omp)
      | Some base \<Rightarrow>
          let items = block_items (r_item_size omp) base
          in (0, omp\<lparr>free_list := free_list omp @ items,
                     n_frees := n_frees omp + of_nat (length items),
                     n_objects := n_objects omp + of_nat (length items),
                     mm_list := base # mm_list omp,
                     n_mms := n_mms omp + 1\<rparr>))"

definition ch_object_pool_create :: "size_t \<Rightarrow> size_t \<Rightarrow> ch_object_pool option" where
  "ch_object_pool_create limits sz =
     (if unat sz \<ge> OBJECT_MEM_SIZE then None
      else Some \<lparr>mm_list = [], free_list = [], object_limits = limits, object_size = sz,
                 n_objects = 0, n_mms = 0, n_frees = 0, n_using = 0\<rparr>)"

text \<open>\<^verbatim>\<open>ch_object_pool_destroy\<close>: the blocks it hands to \<^verbatim>\<open>free\<close>, in this order.\<close>

definition ch_object_pool_destroy :: "ch_object_pool \<Rightarrow> addr list" where
  "ch_object_pool_destroy omp = mm_list omp"

text \<open>\<^verbatim>\<open>list_first_entry\<close> of an empty free list is the head itself, taken for an item.\<close>

definition ch_object_pool_get :: "addr option \<Rightarrow> ch_object_pool \<Rightarrow> (addr option \<times> ch_object_pool) res" where
  "ch_object_pool_get mem omp =
     (let (rc, omp) =
        (if free_list omp = [] then
           if object_limits omp \<noteq> 0 \<and> n_objects omp > object_limits omp then (-1, omp)
           else new_memory mem omp
         else (0, omp))
      in if rc \<noteq> 0 then Inr (None, omp)
         else case free_list omp of
             [] \<Rightarrow> Inl Null_Deref
           | item # rest \<Rightarrow>
               Inr (Some (item + sizeof_ch_object_item),
                    omp\<lparr>free_list := rest, n_frees := n_frees omp - 1, n_using := n_using omp + 1\<rparr>))"

text \<open>Linking an item that is a member of the free list already corrupts the list.\<close>

definition ch_object_pool_put :: "ch_object_pool \<Rightarrow> addr option \<Rightarrow> ch_object_pool res" where
  "ch_object_pool_put omp obj =
     (case obj of
        None \<Rightarrow> Inr omp
      | Some obj \<Rightarrow>
          let item = obj - sizeof_ch_object_item
          in if item \<in> set (free_list omp) then Inl Double_Free
             else Inr (omp\<lparr>free_list := free_list omp @ [item],
                           n_frees := n_frees omp + 1, n_using := n_using omp - 1\<rparr>))"

section \<open>The entry pool\<close>

text \<open>
  DPDK's \<^verbatim>\<open>rte_mempool\<close> is a parameter: its operations are a record of functions on a
  state of type \<open>'mp\<close>.
\<close>

record 'mp rte_mempool_ops =
  rte_mempool_create :: "size_t \<Rightarrow> size_t \<Rightarrow> size_t \<Rightarrow> 'mp option"
  rte_mempool_get :: "'mp \<Rightarrow> addr option \<times> 'mp"
  rte_mempool_put :: "'mp \<Rightarrow> addr \<Rightarrow> 'mp"

datatype pool_type = FROM_DPDK_POOL | FROM_OBJ_POOL | POOL_TYPE_INVALID

datatype 'mp ep_union = SYS_MP ch_object_pool | DPDK_MP 'mp

record 'mp ch_entry_pool =
  ep_mp :: "'mp ep_union"
  entry_size :: size_t
  n_entries_limit :: size_t

definition ch_entry_pool_create ::
  "'mp rte_mempool_ops \<Rightarrow> pool_type \<Rightarrow> size_t \<Rightarrow> size_t \<Rightarrow> size_t \<Rightarrow> 'mp ch_entry_pool option"
where
  "ch_entry_pool_create ops ty esize elimit climit =
     (case ty of
        FROM_OBJ_POOL \<Rightarrow>
          (case ch_object_pool_create elimit esize of
             None \<Rightarrow> None
           | Some omp \<Rightarrow> Some \<lparr>ep_mp = SYS_MP omp, entry_size = esize, n_entries_limit = elimit\<rparr>)
      | FROM_DPDK_POOL \<Rightarrow>
          (case rte_mempool_create ops elimit esize climit of
             None \<Rightarrow> None
           | Some mp \<Rightarrow> Some \<lparr>ep_mp = DPDK_MP mp, entry_size = esize, n_entries_limit = elimit\<rparr>)
      | POOL_TYPE_INVALID \<Rightarrow> None)"

definition ch_entry_pool_alloc ::
  "'mp rte_mempool_ops \<Rightarrow> addr option \<Rightarrow> 'mp ch_entry_pool \<Rightarrow> (addr option \<times> 'mp ch_entry_pool) res"
where
  "ch_entry_pool_alloc ops mem ep =
     (case ep_mp ep of
        SYS_MP omp \<Rightarrow> bind_res (ch_object_pool_get mem omp) (\<lambda>(r, omp). Inr (r, ep\<lparr>ep_mp := SYS_MP omp\<rparr>))
      | DPDK_MP mp \<Rightarrow> (case rte_mempool_get ops mp of (r, mp) \<Rightarrow> Inr (r, ep\<lparr>ep_mp := DPDK_MP mp\<rparr>)))"

definition ch_entry_pool_free ::
  "'mp rte_mempool_ops \<Rightarrow> 'mp ch_entry_pool \<Rightarrow> addr \<Rightarrow> 'mp ch_entry_pool res"
where
  "ch_entry_pool_free ops ep pentry =
     (case ep_mp ep of
        SYS_MP omp \<Rightarrow> bind_res (ch_object_pool_put omp (Some pentry)) (\<lambda>omp. Inr (ep\<lparr>ep_mp := SYS_MP omp\<rparr>))
      | DPDK_MP mp \<Rightarrow> Inr (ep\<lparr>ep_mp := DPDK_MP (rte_mempool_put ops mp pentry)\<rparr>))"

section \<open>Items of a block\<close>

lemma new_items_bounds:
  "0 < r \<Longrightarrow> a \<in> set (new_items pos fin r) \<Longrightarrow> pos \<le> a \<and> a + r < fin"
proof (induction pos fin r rule: new_items.induct)
  case (1 pos fin r)
  show ?case using 1 by (subst (asm) (2) new_items.simps) (auto split: if_splits)
qed

lemma new_items_spaced:
  "0 < r \<Longrightarrow> sorted_wrt (\<lambda>a b. a + r \<le> b) (new_items pos fin r)"
proof (induction pos fin r rule: new_items.induct)
  case (1 pos fin r)
  show ?case using 1 new_items_bounds [of r _ "pos + r" fin]
    by (subst new_items.simps) auto
qed

lemma new_items_nonempty: "0 < r \<Longrightarrow> pos + r < fin \<Longrightarrow> new_items pos fin r \<noteq> []"
  by (subst new_items.simps) simp

lemma spaced_distinct: "0 < r \<Longrightarrow> sorted_wrt (\<lambda>a b. a + r \<le> (b::nat)) xs \<Longrightarrow> distinct xs"
  by (induction xs) auto

lemma spaced_disjoint:
  "sorted_wrt (\<lambda>a b. a + r \<le> (b::nat)) xs \<Longrightarrow> a \<in> set xs \<Longrightarrow> b \<in> set xs \<Longrightarrow> a \<noteq> b \<Longrightarrow> a + r \<le> b \<or> b + r \<le> a"
  by (induction xs) auto

lemma block_items_props:
  assumes "0 < r"
  shows "distinct (block_items r base)"
    and "a \<in> set (block_items r base) \<Longrightarrow> base + 8 \<le> a \<and> a + r < base + 65536"
    and "a \<in> set (block_items r base) \<Longrightarrow> b \<in> set (block_items r base) \<Longrightarrow> a \<noteq> b \<Longrightarrow> a + r \<le> b \<or> b + r \<le> a"
    and "r + 8 < 65536 \<Longrightarrow> block_items r base \<noteq> []"
proof -
  note sp = new_items_spaced [OF assms, of "base + sizeof_ch_object_mem" "base + OBJECT_MEM_SIZE"]
  show "distinct (block_items r base)" using spaced_distinct [OF assms sp] by (simp add: block_items_def)
  show "a \<in> set (block_items r base) \<Longrightarrow> base + 8 \<le> a \<and> a + r < base + 65536"
    using new_items_bounds [OF assms] by (fastforce simp: block_items_def sizeof_ch_object_mem_def OBJECT_MEM_SIZE_def)
  show "a \<in> set (block_items r base) \<Longrightarrow> b \<in> set (block_items r base) \<Longrightarrow> a \<noteq> b \<Longrightarrow> a + r \<le> b \<or> b + r \<le> a"
    using spaced_disjoint [OF sp] by (simp add: block_items_def)
  show "r + 8 < 65536 \<Longrightarrow> block_items r base \<noteq> []"
    using new_items_nonempty [OF assms] by (simp add: block_items_def sizeof_ch_object_mem_def OBJECT_MEM_SIZE_def)
qed

section \<open>Invariant\<close>

definition pool_items :: "ch_object_pool \<Rightarrow> addr list" where
  "pool_items omp = concat (map (block_items (r_item_size omp)) (mm_list omp))"

text \<open>The objects that are handed out.\<close>

definition live :: "ch_object_pool \<Rightarrow> addr set" where
  "live omp = (\<lambda>a. a + sizeof_ch_object_item) ` (set (pool_items omp) - set (free_list omp))"

definition blocks_apart :: "addr list \<Rightarrow> bool" where
  "blocks_apart ms \<longleftrightarrow> sorted_wrt (\<lambda>a b. a + 65536 \<le> b \<or> b + 65536 \<le> a) ms"

definition pool_ok :: "ch_object_pool \<Rightarrow> bool" where
  "pool_ok omp \<longleftrightarrow> unat (object_size omp) + 24 < 65536 \<and> blocks_apart (mm_list omp) \<and>
     distinct (free_list omp) \<and> set (free_list omp) \<subseteq> set (pool_items omp) \<and>
     n_mms omp = of_nat (length (mm_list omp)) \<and>
     n_objects omp = of_nat (length (pool_items omp)) \<and>
     n_frees omp = of_nat (length (free_list omp)) \<and>
     n_using omp = n_objects omp - n_frees omp"

text \<open>What \<^verbatim>\<open>malloc\<close> promises: a block that overlaps none of those handed out before.\<close>

definition fresh_mem :: "addr option \<Rightarrow> ch_object_pool \<Rightarrow> bool" where
  "fresh_mem mem omp \<longleftrightarrow> (\<forall>base. mem = Some base \<longrightarrow> blocks_apart (base # mm_list omp))"

lemma r_item_pos [simp]: "0 < r_item_size omp"
  by (simp add: r_item_size_def sizeof_ch_object_item_def)

lemma blocks_apartD:
  "blocks_apart ms \<Longrightarrow> m \<in> set ms \<Longrightarrow> n \<in> set ms \<Longrightarrow> m \<noteq> n \<Longrightarrow> m + 65536 \<le> n \<or> n + 65536 \<le> m"
  unfolding blocks_apart_def by (induction ms) auto

lemma pool_items_disjoint:
  assumes "blocks_apart (mm_list omp)" "a \<in> set (pool_items omp)" "b \<in> set (pool_items omp)" "a \<noteq> b"
  shows "a + r_item_size omp \<le> b \<or> b + r_item_size omp \<le> a"
proof -
  let ?r = "r_item_size omp"
  obtain m where m: "m \<in> set (mm_list omp)" "a \<in> set (block_items ?r m)" using assms(2) by (auto simp: pool_items_def)
  obtain n where n: "n \<in> set (mm_list omp)" "b \<in> set (block_items ?r n)" using assms(3) by (auto simp: pool_items_def)
  show ?thesis
  proof (cases "m = n")
    case True
    then show ?thesis using block_items_props(3) [of ?r a m b] m n assms(4) by simp
  next
    case False
    have "m + 65536 \<le> n \<or> n + 65536 \<le> m"
      using blocks_apartD [OF assms(1)] m(1) n(1) False by blast
    then show ?thesis using block_items_props(2) [of ?r a m] block_items_props(2) [of ?r b n] m n by auto
  qed
qed

lemma live_take:
  assumes "distinct (item # rest)" "set (item # rest) \<subseteq> set (pool_items omp)" "free_list omp = item # rest"
    and "pool_items omp' = pool_items omp" "free_list omp' = rest"
  shows "item + 16 \<notin> live omp" "live omp' = insert (item + 16) (live omp)"
  using assms by (auto simp: live_def sizeof_ch_object_item_def)

lemma pool_items_simps [simp]:
  "pool_items (omp\<lparr>free_list := f\<rparr>) = pool_items omp" "pool_items (omp\<lparr>n_frees := x\<rparr>) = pool_items omp"
  "pool_items (omp\<lparr>n_using := x\<rparr>) = pool_items omp" "pool_items (omp\<lparr>n_objects := x\<rparr>) = pool_items omp"
  "pool_items (omp\<lparr>n_mms := x\<rparr>) = pool_items omp"
  by (simp_all add: pool_items_def r_item_size_def)

lemma pool_take_ok:
  assumes "pool_ok omp" "free_list omp = item # rest"
  defines "omp' \<equiv> omp\<lparr>free_list := rest, n_frees := n_frees omp - 1, n_using := n_using omp + 1\<rparr>"
  shows "pool_ok omp'" "item + 16 \<notin> live omp" "live omp' = insert (item + 16) (live omp)"
proof -
  have f: "distinct (item # rest)" "set (item # rest) \<subseteq> set (pool_items omp)"
    using assms(1,2) by (auto simp: pool_ok_def)
  show "pool_ok omp'" using assms(1,2) unfolding pool_ok_def omp'_def by simp
  show "item + 16 \<notin> live omp" "live omp' = insert (item + 16) (live omp)"
    using live_take [OF f assms(2), of omp'] by (auto simp: omp'_def)
qed

lemma new_memory_ok:
  assumes "pool_ok omp" "free_list omp = []" "fresh_mem (Some base) omp" "new_memory (Some base) omp = (rc, omp')"
  shows "rc = 0" "pool_ok omp'" "free_list omp' \<noteq> []" "live omp' = live omp"
proof -
  let ?items = "block_items (r_item_size omp) base"
  have o: "omp' = omp\<lparr>free_list := ?items, n_frees := n_frees omp + of_nat (length ?items),
      n_objects := n_objects omp + of_nat (length ?items), mm_list := base # mm_list omp, n_mms := n_mms omp + 1\<rparr>"
    and rc: "rc = 0"
    using assms(2,4) by (simp_all add: new_memory_def Let_def)
  have r: "r_item_size omp' = r_item_size omp" by (simp add: o r_item_size_def)
  have pi: "pool_items omp' = ?items @ pool_items omp" unfolding pool_items_def r by (simp add: o)
  have apart: "blocks_apart (base # mm_list omp)" using assms(3) by (simp add: fresh_mem_def)
  then have "base \<notin> set (mm_list omp)" by (auto simp: blocks_apart_def)
  have disj: "set ?items \<inter> set (pool_items omp) = {}"
  proof (rule equals0I)
    fix a assume "a \<in> set ?items \<inter> set (pool_items omp)"
    then obtain m where m: "m \<in> set (mm_list omp)" "a \<in> set (block_items (r_item_size omp) m)" "a \<in> set ?items"
      by (auto simp: pool_items_def)
    then have "m + 65536 \<le> base \<or> base + 65536 \<le> m" using blocks_apartD [OF apart, of m base] \<open>base \<notin> _\<close> by auto
    then show False using block_items_props(2) [OF r_item_pos m(2)] block_items_props(2) [OF r_item_pos m(3)] by linarith
  qed
  show "rc = 0" by (rule rc)
  show "free_list omp' \<noteq> []"
    using block_items_props(4) [of "r_item_size omp" base] assms(1)
    by (simp add: o pool_ok_def r_item_size_def sizeof_ch_object_item_def)
  show "live omp' = live omp" unfolding live_def pi using disj assms(2) by (auto simp: o)
  show "pool_ok omp'"
    using assms(1,2) apart block_items_props(1) [of "r_item_size omp" base] unfolding pool_ok_def pi by (simp add: o)
qed

section \<open>The contract of an object pool\<close>

text \<open>
  What the tables rely on: \<open>get\<close> hands out an object that is not out, unless the pool is
  exhausted, \<open>put\<close> takes back one that is, neither faults, and the objects that are out are known.
\<close>

locale object_source =
  fixes get :: "'env \<Rightarrow> 'p \<Rightarrow> (addr option \<times> 'p) res"
    and put :: "'p \<Rightarrow> addr \<Rightarrow> 'p res"
    and ok :: "'p \<Rightarrow> bool"
    and out :: "'p \<Rightarrow> addr set"
    and fresh :: "'env \<Rightarrow> 'p \<Rightarrow> bool"
    and exhausted :: "'env \<Rightarrow> 'p \<Rightarrow> bool"
  assumes get_ok: "ok p \<Longrightarrow> fresh env p \<Longrightarrow> \<exists>r p'. get env p = Inr (r, p') \<and> ok p' \<and>
      (case r of None \<Rightarrow> out p' = out p | Some a \<Rightarrow> a \<notin> out p \<and> out p' = insert a (out p))"
    and get_none: "ok p \<Longrightarrow> fresh env p \<Longrightarrow> get env p = Inr (r, p') \<Longrightarrow> r = None \<longleftrightarrow> exhausted env p"
    and put_ok: "ok p \<Longrightarrow> a \<in> out p \<Longrightarrow> \<exists>p'. put p a = Inr p' \<and> ok p' \<and> out p' = out p - {a}"
    and put_twice: "ok p \<Longrightarrow> a \<in> out p \<Longrightarrow> put p a = Inr p' \<Longrightarrow> put p' a = Inl Double_Free"
begin

text \<open>A client that puts back only objects it holds.\<close>

inductive client :: "'p \<Rightarrow> 'p \<times> addr list \<Rightarrow> bool" for p0 where
  start: "ok p0 \<Longrightarrow> out p0 = {} \<Longrightarrow> client p0 (p0, [])"
| get: "client p0 (p, held) \<Longrightarrow> fresh env p \<Longrightarrow> get env p = Inr (Some a, p') \<Longrightarrow> client p0 (p', a # held)"
| get_failed: "client p0 (p, held) \<Longrightarrow> fresh env p \<Longrightarrow> get env p = Inr (None, p') \<Longrightarrow> client p0 (p', held)"
| put: "client p0 (p, held) \<Longrightarrow> a \<in> set held \<Longrightarrow> put p a = Inr p' \<Longrightarrow> client p0 (p', list_del a held)"

lemma client_inv: "client p0 s \<Longrightarrow> ok (fst s) \<and> distinct (snd s) \<and> set (snd s) = out (fst s)"
proof (induction rule: client.induct)
  case (get p held env a p')
  then show ?case using get_ok [of p env] by auto
next
  case (get_failed p held env p')
  then show ?case using get_ok [of p env] by auto
next
  case (put p held a p')
  then show ?case using put_ok [of p a] by auto
qed simp

lemma client_get:
  assumes "client p0 (p, held)" "fresh env p"
  shows "\<exists>r p'. get env p = Inr (r, p') \<and> ok p' \<and> (\<forall>a. r = Some a \<longrightarrow> a \<notin> set held)"
proof -
  have inv: "ok p" "set held = out p" using client_inv [OF assms(1)] by simp_all
  obtain r p' where "get env p = Inr (r, p')" "ok p'"
    "case r of None \<Rightarrow> out p' = out p | Some a \<Rightarrow> a \<notin> out p \<and> out p' = insert a (out p)"
    using get_ok [OF inv(1) assms(2)] by blast
  then show ?thesis using inv(2) by (cases r) auto
qed

lemma client_put:
  assumes "client p0 (p, held)" "a \<in> set held"
  shows "\<exists>p'. put p a = Inr p' \<and> ok p' \<and> put p' a = Inl Double_Free"
proof -
  have inv: "ok p" "a \<in> out p" using client_inv [OF assms(1)] assms(2) by simp_all
  then obtain p' where p': "put p a = Inr p'" "ok p'" using put_ok by blast
  with put_twice [OF inv p'(1)] show ?thesis by blast
qed

end

text \<open>No object is free, and the limit is passed or \<^verbatim>\<open>malloc\<close> fails.\<close>

definition pool_exhausted :: "addr option \<Rightarrow> ch_object_pool \<Rightarrow> bool" where
  "pool_exhausted mem omp \<longleftrightarrow>
     free_list omp = [] \<and> (object_limits omp \<noteq> 0 \<and> n_objects omp > object_limits omp \<or> mem = None)"

interpretation op: object_source ch_object_pool_get "\<lambda>omp a. ch_object_pool_put omp (Some a)" pool_ok live fresh_mem pool_exhausted
proof
  fix p env
  assume ok: "pool_ok p" and fr: "fresh_mem env p"
  show "\<exists>r p'. ch_object_pool_get env p = Inr (r, p') \<and> pool_ok p' \<and>
      (case r of None \<Rightarrow> live p' = live p | Some a \<Rightarrow> a \<notin> live p \<and> live p' = insert a (live p))"
  proof (cases "free_list p")
    case (Cons item rest)
    with pool_take_ok [OF ok Cons] show ?thesis
      by (auto simp: ch_object_pool_get_def Let_def sizeof_ch_object_item_def)
  next
    case Nil
    show ?thesis
    proof (cases "(object_limits p \<noteq> 0 \<and> n_objects p > object_limits p) \<or> env = None")
      case True
      then show ?thesis using Nil ok by (auto simp: ch_object_pool_get_def new_memory_def)
    next
      case False
      then obtain base where base: "env = Some base" by auto
      obtain rc p1 where nm: "new_memory (Some base) p = (rc, p1)" by fastforce
      note n = new_memory_ok [OF ok Nil fr [unfolded base] nm]
      obtain item rest where fl: "free_list p1 = item # rest" using n(3) by (cases "free_list p1") auto
      have "ch_object_pool_get env p = Inr (Some (item + 16),
          p1\<lparr>free_list := rest, n_frees := n_frees p1 - 1, n_using := n_using p1 + 1\<rparr>)"
        using False Nil nm n(1) fl by (auto simp: ch_object_pool_get_def base sizeof_ch_object_item_def)
      with pool_take_ok [OF n(2) fl] n(4) show ?thesis by auto
    qed
  qed
next
  fix p env r p'
  assume "pool_ok p" "fresh_mem env p" "ch_object_pool_get env p = Inr (r, p')"
  then show "r = None \<longleftrightarrow> pool_exhausted env p"
    by (auto simp: ch_object_pool_get_def pool_exhausted_def new_memory_def Let_def split: list.splits if_splits option.splits)
next
  fix p a
  assume ok: "pool_ok p" and a: "a \<in> live p"
  then obtain item where i: "a = item + 16" "item \<in> set (pool_items p)" "item \<notin> set (free_list p)"
    by (auto simp: live_def sizeof_ch_object_item_def)
  let ?p = "p\<lparr>free_list := free_list p @ [item], n_frees := n_frees p + 1, n_using := n_using p - 1\<rparr>"
  have ev: "ch_object_pool_put p (Some a) = Inr ?p"
    using i by (simp add: ch_object_pool_put_def sizeof_ch_object_item_def)
  have "pool_ok ?p" using ok i by (simp add: pool_ok_def)
  moreover have "live ?p = live p - {a}" using i by (auto simp: live_def sizeof_ch_object_item_def)
  ultimately show "\<exists>p'. ch_object_pool_put p (Some a) = Inr p' \<and> pool_ok p' \<and> live p' = live p - {a}"
    using ev by blast
  fix p'
  assume "ch_object_pool_put p (Some a) = Inr p'"
  then have "p' = ?p" using ev by simp
  then show "ch_object_pool_put p' (Some a) = Inl Double_Free"
    using i by (simp add: ch_object_pool_put_def sizeof_ch_object_item_def)
qed

text \<open>An entry pool over the object pool keeps the same contract.\<close>

definition ep_ok :: "'mp ch_entry_pool \<Rightarrow> bool" where
  "ep_ok ep = (case ep_mp ep of SYS_MP omp \<Rightarrow> pool_ok omp | DPDK_MP _ \<Rightarrow> False)"

definition ep_live :: "'mp ch_entry_pool \<Rightarrow> addr set" where
  "ep_live ep = (case ep_mp ep of SYS_MP omp \<Rightarrow> live omp | DPDK_MP _ \<Rightarrow> {})"

definition ep_fresh :: "addr option \<Rightarrow> 'mp ch_entry_pool \<Rightarrow> bool" where
  "ep_fresh mem ep = (case ep_mp ep of SYS_MP omp \<Rightarrow> fresh_mem mem omp | DPDK_MP _ \<Rightarrow> False)"

definition ep_exhausted :: "addr option \<Rightarrow> 'mp ch_entry_pool \<Rightarrow> bool" where
  "ep_exhausted mem ep = (case ep_mp ep of SYS_MP omp \<Rightarrow> pool_exhausted mem omp | DPDK_MP _ \<Rightarrow> False)"

lemma ep_okE:
  assumes "ep_ok ep"
  obtains omp where "ep_mp ep = SYS_MP omp" "pool_ok omp" "ep_live ep = live omp"
  using assms by (cases "ep_mp ep") (auto simp: ep_ok_def ep_live_def)

interpretation ep: object_source "ch_entry_pool_alloc ops" "ch_entry_pool_free ops" ep_ok ep_live ep_fresh ep_exhausted
  for ops :: "'mp rte_mempool_ops"
proof
  fix p :: "'mp ch_entry_pool" and env
  assume "ep_ok p" "ep_fresh env p"
  then obtain omp where o: "ep_mp p = SYS_MP omp" "pool_ok omp" "ep_live p = live omp" "fresh_mem env omp"
    by (auto elim!: ep_okE simp: ep_fresh_def)
  obtain r omp' where "ch_object_pool_get env omp = Inr (r, omp')" "pool_ok omp'"
    "case r of None \<Rightarrow> live omp' = live omp | Some a \<Rightarrow> a \<notin> live omp \<and> live omp' = insert a (live omp)"
    using op.get_ok [OF o(2,4)] by blast
  with o show "\<exists>r p'. ch_entry_pool_alloc ops env p = Inr (r, p') \<and> ep_ok p' \<and>
      (case r of None \<Rightarrow> ep_live p' = ep_live p | Some a \<Rightarrow> a \<notin> ep_live p \<and> ep_live p' = insert a (ep_live p))"
    by (auto simp: ch_entry_pool_alloc_def ep_ok_def ep_live_def split: option.splits)
next
  fix p :: "'mp ch_entry_pool" and env r p'
  assume "ep_ok p" "ep_fresh env p" "ch_entry_pool_alloc ops env p = Inr (r, p')"
  then show "r = None \<longleftrightarrow> ep_exhausted env p"
    using op.get_none by (cases "ep_mp p") (auto simp: ep_ok_def ep_fresh_def ep_exhausted_def ch_entry_pool_alloc_def bind_res_eq_Inr)
next
  fix p :: "'mp ch_entry_pool" and a
  assume "ep_ok p" "a \<in> ep_live p"
  then obtain omp where o: "ep_mp p = SYS_MP omp" "pool_ok omp" "ep_live p = live omp" "a \<in> live omp"
    by (auto elim!: ep_okE)
  obtain omp' where o': "ch_object_pool_put omp (Some a) = Inr omp'" "pool_ok omp'" "live omp' = live omp - {a}"
    using op.put_ok [OF o(2,4)] by blast
  then have ev: "ch_entry_pool_free ops p a = Inr (p\<lparr>ep_mp := SYS_MP omp'\<rparr>)"
    using o by (simp add: ch_entry_pool_free_def)
  with o o' show "\<exists>p'. ch_entry_pool_free ops p a = Inr p' \<and> ep_ok p' \<and> ep_live p' = ep_live p - {a}"
    by (auto simp: ep_ok_def ep_live_def)
  fix p'
  assume "ch_entry_pool_free ops p a = Inr p'"
  then show "ch_entry_pool_free ops p' a = Inl Double_Free"
    using ev op.put_twice [OF o(2,4) o'(1)] by (auto simp: ch_entry_pool_free_def)
qed

section \<open>Properties\<close>

lemma create_ok:
  "unat sz + 24 < 65536 \<Longrightarrow> ch_object_pool_create limits sz = Some omp \<Longrightarrow> pool_ok omp \<and> live omp = {}"
  by (auto simp: ch_object_pool_create_def OBJECT_MEM_SIZE_def pool_ok_def live_def pool_items_def blocks_apart_def
      split: if_splits)

lemma live_apart:
  assumes "pool_ok omp" "a \<in> live omp" "b \<in> live omp" "a \<noteq> b"
  shows "a + unat (object_size omp) \<le> b \<or> b + unat (object_size omp) \<le> a"
proof -
  obtain i where i: "a = i + 16" "i \<in> set (pool_items omp)" using assms(2) by (auto simp: live_def sizeof_ch_object_item_def)
  obtain j where j: "b = j + 16" "j \<in> set (pool_items omp)" using assms(3) by (auto simp: live_def sizeof_ch_object_item_def)
  have "i + r_item_size omp \<le> j \<or> j + r_item_size omp \<le> i"
    using pool_items_disjoint [of omp i j] assms(1,4) i j by (auto simp: pool_ok_def)
  then show ?thesis using i j by (auto simp: r_item_size_def)
qed

text \<open>
  C29. However a client gets and puts objects of a new object pool, as long as it puts back only
  what it holds: the objects it holds are distinct and never overlap, the next
  \<^verbatim>\<open>ch_object_pool_get\<close> does not fault and returns none of them, and a held object can be
  put back once, while a second put of it would link it into the free list twice.
\<close>

theorem ch_object_pool_no_sharing:
  assumes "unat sz + 24 < 65536" "ch_object_pool_create limits sz = Some omp0" "op.client omp0 (omp, held)"
    "fresh_mem mem omp" "a \<in> set held"
  shows "distinct held \<and>
    (\<forall>b\<in>set held. a \<noteq> b \<longrightarrow> a + unat (object_size omp) \<le> b \<or> b + unat (object_size omp) \<le> a) \<and>
    (\<exists>r omp'. ch_object_pool_get mem omp = Inr (r, omp') \<and> (\<forall>b. r = Some b \<longrightarrow> b \<notin> set held)) \<and>
    (\<exists>omp'. ch_object_pool_put omp (Some a) = Inr omp' \<and> ch_object_pool_put omp' (Some a) = Inl Double_Free)"
proof -
  have inv: "pool_ok omp" "distinct held" "set held = live omp" using op.client_inv [OF assms(3)] by auto
  have "\<forall>b\<in>set held. a \<noteq> b \<longrightarrow> a + unat (object_size omp) \<le> b \<or> b + unat (object_size omp) \<le> a"
    using live_apart [OF inv(1)] inv(3) assms(5) by auto
  moreover have "\<exists>r omp'. ch_object_pool_get mem omp = Inr (r, omp') \<and> (\<forall>b. r = Some b \<longrightarrow> b \<notin> set held)"
    using op.client_get [OF assms(3,4)] by blast
  moreover have "\<exists>omp'. ch_object_pool_put omp (Some a) = Inr omp' \<and> ch_object_pool_put omp' (Some a) = Inl Double_Free"
    using op.client_put [OF assms(3,5)] by blast
  ultimately show ?thesis using inv(2) by blast
qed

text \<open>
  \<^verbatim>\<open>ch_object_pool_create\<close> accepts object sizes from 65512 to 65535, for which a block of
  64 KB holds no object: the first \<^verbatim>\<open>ch_object_pool_get\<close> then takes the head of the empty
  free list for an object.
\<close>

theorem ch_object_pool_get_oversized:
  assumes "65512 \<le> unat sz" "unat sz < 65536"
  shows "\<exists>omp. ch_object_pool_create limits sz = Some omp \<and> ch_object_pool_get (Some base) omp = Inl Null_Deref"
proof -
  have "block_items (unat sz + 16) base = []"
    using assms unfolding block_items_def
    by (subst new_items.simps) (simp add: sizeof_ch_object_mem_def OBJECT_MEM_SIZE_def)
  then show ?thesis using assms
    by (simp add: ch_object_pool_create_def OBJECT_MEM_SIZE_def ch_object_pool_get_def new_memory_def
        r_item_size_def sizeof_ch_object_item_def)
qed

definition sample_pool :: ch_object_pool where
  "sample_pool = \<lparr>mm_list = [], free_list = [], object_limits = 10, object_size = 40000,
     n_objects = 0, n_mms = 0, n_frees = 0, n_using = 0\<rparr>"

definition sample_pool_used :: ch_object_pool where
  "sample_pool_used = \<lparr>mm_list = [4096], free_list = [], object_limits = 10, object_size = 40000,
     n_objects = 1, n_mms = 1, n_frees = 0, n_using = 1\<rparr>"

lemma sample_pool_create: "ch_object_pool_create 10 40000 = Some sample_pool"
  by (simp add: ch_object_pool_create_def sample_pool_def OBJECT_MEM_SIZE_def)

lemma sample_pool_get: "ch_object_pool_get (Some 4096) sample_pool = Inr (Some 4120, sample_pool_used)"
proof -
  have "block_items 40016 4096 = [4104]"
    unfolding block_items_def sizeof_ch_object_mem_def OBJECT_MEM_SIZE_def
    by (subst new_items.simps, subst new_items.simps) simp
  then show ?thesis
    by (simp add: ch_object_pool_get_def new_memory_def sample_pool_def sample_pool_used_def r_item_size_def
        sizeof_ch_object_item_def)
qed

lemma sample_pool_client: "op.client sample_pool (sample_pool_used, [4120])"
proof -
  have ok: "pool_ok sample_pool \<and> live sample_pool = {}" by (rule create_ok [OF _ sample_pool_create]) simp
  have "op.client sample_pool (sample_pool, [])" using ok by (intro op.client.start) auto
  moreover have "fresh_mem (Some 4096) sample_pool"
    by (simp add: fresh_mem_def sample_pool_def blocks_apart_def)
  ultimately show ?thesis by (rule op.client.get [OF _ _ sample_pool_get])
qed

theorem ch_object_pool_no_sharing_witness:
  "op.client sample_pool (sample_pool_used, [4120]) \<and>
   (\<exists>omp'. ch_object_pool_put sample_pool_used (Some 4120) = Inr omp' \<and>
      ch_object_pool_put omp' (Some 4120) = Inl Double_Free)"
proof -
  have "fresh_mem None sample_pool_used" by (simp add: fresh_mem_def)
  from ch_object_pool_no_sharing [OF _ sample_pool_create sample_pool_client this, of 4120] sample_pool_client
  show ?thesis by simp
qed

theorem ch_object_pool_get_oversized_witness:
  "\<exists>omp. ch_object_pool_create 10 65512 = Some omp \<and> ch_object_pool_get (Some 4096) omp = Inl Null_Deref"
  using ch_object_pool_get_oversized [of 65512 10 4096] by simp

end
