(* ===== verification/Ptable.thy ===== *)
theory Ptable
  imports Object_Pool
begin

text \<open>
  The hash table of sessions, \<^verbatim>\<open>lib/ptables/ch_ptable.c\<close>, and the task that watches it for
  timeouts, \<^verbatim>\<open>lib/ptables/ch_ptable_watch_task.c\<close>. Entries are objects of an entry pool,
  known by their addresses; what they hold is in \<open>heap\<close>: the time of the last use and the
  client's part, of type \<open>'d\<close>. An entry is a member of one bucket and of the list of recently
  used entries \<open>caches\<close>; \<open>last_entry\<close> is the one used last. The function pointers of the
  table are functions of the record; the callbacks that run when an entry is freed act on a
  state \<open>'w\<close> of the client and may fault. The clock is the argument \<open>now\<close>, in seconds.
  Shown here: the invariant of the table, that a find is complete whatever the caches hold, and
  what a timeout does to an entry that was freed before.
\<close>

section \<open>State\<close>

record 'd ptable_entry =
  last_time :: u64
  tv :: u64
  pdata :: 'd

record ('k, 'd, 'pd, 'w, 'mp) ch_ptable =
  ep :: "'mp ch_entry_pool"
  timeout_entries :: "addr list"
  ring_size :: size_t
  last_entry :: "addr option"
  entry_timeout :: u64
  tbl_size :: size_t
  tbl_mask :: size_t
  n_caches :: size_t
  n_caches_limits :: size_t
  last_clean_time :: u64
  priv_data :: 'pd
  entry_hash :: "'k \<Rightarrow> 'pd \<Rightarrow> size_t"
  entry_equal :: "'d \<Rightarrow> 'k \<Rightarrow> 'pd \<Rightarrow> bool"
  entry_clean :: "('d \<Rightarrow> 'pd \<Rightarrow> 'w \<Rightarrow> ('d \<times> 'w) res) option"
  entry_timeout_cb :: "('d \<Rightarrow> u64 \<Rightarrow> 'pd \<Rightarrow> 'w \<Rightarrow> ('d \<times> 'w) res) option"
  hits_num :: size_t
  no_hits_num :: size_t
  fail_num :: size_t
  timeout_num :: size_t
  caches :: "addr list"
  entries :: "addr list list"
  heap :: "addr \<Rightarrow> 'd ptable_entry"

section \<open>Creation\<close>

text \<open>\<^verbatim>\<open>_tbl_size_check\<close>: \<open>True\<close> when the size is refused. The test for a power of two takes 32 bits.\<close>

definition tbl_size_check :: "size_t \<Rightarrow> size_t \<Rightarrow> bool" where
  "tbl_size_check tsize elimit \<longleftrightarrow> tsize = 0 \<or> \<not> ch_is_power_of_2 (ucast tsize) \<or> tsize > elimit"

text \<open>
  \<^verbatim>\<open>ch_ptable_create\<close>; \<open>tbl_allocated\<close> and \<open>ring_created\<close> are the outcomes of \<^verbatim>\<open>ch_palloc\<close>
  and \<^verbatim>\<open>rte_ring_create\<close>, \<open>mem\<close> is what the memory of the objects holds before they are used.
\<close>

definition ch_ptable_create ::
  "'mp rte_mempool_ops \<Rightarrow> pool_type \<Rightarrow> size_t \<Rightarrow> size_t \<Rightarrow> size_t \<Rightarrow> size_t \<Rightarrow> u64 \<Rightarrow> size_t \<Rightarrow> bool \<Rightarrow> bool \<Rightarrow> size_t \<Rightarrow> 'pd \<Rightarrow>
   ('k \<Rightarrow> 'pd \<Rightarrow> size_t) \<Rightarrow> ('d \<Rightarrow> 'k \<Rightarrow> 'pd \<Rightarrow> bool) \<Rightarrow> ('d \<Rightarrow> 'pd \<Rightarrow> 'w \<Rightarrow> ('d \<times> 'w) res) option \<Rightarrow>
   ('d \<Rightarrow> u64 \<Rightarrow> 'pd \<Rightarrow> 'w \<Rightarrow> ('d \<times> 'w) res) option \<Rightarrow> u64 \<Rightarrow> (addr \<Rightarrow> 'd ptable_entry) \<Rightarrow>
   ('k, 'd, 'pd, 'w, 'mp) ch_ptable option"
where
  "ch_ptable_create ops ptype esize psize elimit tsize tmo climits tbl_allocated ring_created rsize pd hash eq clean tcb now mem =
     (let r_tbl_size = ch_align64pow2 tsize in
      if tbl_size_check r_tbl_size elimit \<or> \<not> tbl_allocated then None
      else case ch_entry_pool_create ops ptype (esize + psize) elimit climits of
          None \<Rightarrow> None
        | Some epool \<Rightarrow>
            if \<not> ring_created then None
            else Some \<lparr>ep = epool, timeout_entries = [], ring_size = rsize, last_entry = None,
                       entry_timeout = tmo, tbl_size = r_tbl_size, tbl_mask = r_tbl_size - 1,
                       n_caches = 0, n_caches_limits = climits, last_clean_time = now, priv_data = pd,
                       entry_hash = hash, entry_equal = eq, entry_clean = clean, entry_timeout_cb = tcb,
                       hits_num = 0, no_hits_num = 0, fail_num = 0, timeout_num = 0,
                       caches = [], entries = replicate (unat r_tbl_size) [], heap = mem\<rparr>)"

section \<open>Freeing an entry\<close>

text \<open>
  \<^verbatim>\<open>tbl_entry_free\<close>: the entry leaves its bucket and the caches, the callbacks run, and the
  pool takes it back. An entry that is linked nowhere passes the two \<^verbatim>\<open>list_del\<close> unharmed.
\<close>

definition tbl_entry_unlink ::
  "addr \<Rightarrow> ('k, 'd, 'pd, 'w, 'mp) ch_ptable \<Rightarrow> ('k, 'd, 'pd, 'w, 'mp) ch_ptable"
where
  "tbl_entry_unlink e tbl =
     (let tbl = tbl\<lparr>entries := map (list_del e) (entries tbl)\<rparr>;
          tbl = (if e \<in> set (caches tbl)
                 then tbl\<lparr>caches := list_del e (caches tbl), n_caches := n_caches tbl - 1\<rparr> else tbl)
      in if Some e = last_entry tbl then tbl\<lparr>last_entry := None\<rparr> else tbl)"

definition tbl_entry_free ::
  "'mp rte_mempool_ops \<Rightarrow> ('k, 'd, 'pd, 'w, 'mp) ch_ptable \<Rightarrow> 'w \<Rightarrow> addr \<Rightarrow> u64 \<Rightarrow>
   (('k, 'd, 'pd, 'w, 'mp) ch_ptable \<times> 'w) res"
where
  "tbl_entry_free ops tbl w e is_timeout =
     (let tbl = tbl_entry_unlink e tbl;
          d = pdata (heap tbl e);
          tbl = (if is_timeout \<noteq> 0 then tbl\<lparr>timeout_num := timeout_num tbl + 1\<rparr> else tbl)
      in bind_res (if is_timeout \<noteq> 0 then (case entry_timeout_cb tbl of
                        None \<Rightarrow> Inr (d, w) | Some cb \<Rightarrow> cb d is_timeout (priv_data tbl) w)
                   else Inr (d, w)) (\<lambda>(d, w).
         bind_res (case entry_clean tbl of None \<Rightarrow> Inr (d, w) | Some cl \<Rightarrow> cl d (priv_data tbl) w) (\<lambda>(d, w).
         bind_res (ch_entry_pool_free ops (ep tbl) e) (\<lambda>epool.
           Inr (tbl\<lparr>ep := epool, heap := (heap tbl)(e := (heap tbl e)\<lparr>pdata := d\<rparr>)\<rparr>, w)))))"

definition ch_ptable_entry_free ::
  "'mp rte_mempool_ops \<Rightarrow> ('k, 'd, 'pd, 'w, 'mp) ch_ptable \<Rightarrow> 'w \<Rightarrow> addr \<Rightarrow>
   (('k, 'd, 'pd, 'w, 'mp) ch_ptable \<times> 'w) res"
where
  "ch_ptable_entry_free ops tbl w e = tbl_entry_free ops tbl w e 0"

text \<open>The loop of \<^verbatim>\<open>ch_ptable_entries_timeout_free\<close> over what the timeout ring holds.\<close>

fun timeout_free_loop ::
  "'mp rte_mempool_ops \<Rightarrow> ('k, 'd, 'pd, 'w, 'mp) ch_ptable \<Rightarrow> 'w \<Rightarrow> size_t \<Rightarrow> addr list \<Rightarrow>
   (size_t \<times> ('k, 'd, 'pd, 'w, 'mp) ch_ptable \<times> 'w) res"
where
  "timeout_free_loop ops tbl w c [] = Inr (c, tbl, w)"
| "timeout_free_loop ops tbl w c (e # es) =
     (let tbl = tbl\<lparr>timeout_entries := es\<rparr>;
          t = tv (heap tbl e)
      in bind_res (tbl_entry_free ops tbl w e (if t \<le> 0 then 1 else t)) (\<lambda>(tbl, w).
           timeout_free_loop ops tbl w (c + 1) es))"

definition ch_ptable_entries_timeout_free ::
  "'mp rte_mempool_ops \<Rightarrow> ('k, 'd, 'pd, 'w, 'mp) ch_ptable \<Rightarrow> 'w \<Rightarrow>
   (size_t \<times> ('k, 'd, 'pd, 'w, 'mp) ch_ptable \<times> 'w) res"
where
  "ch_ptable_entries_timeout_free ops tbl w = timeout_free_loop ops tbl w 0 (timeout_entries tbl)"

section \<open>Creating an entry\<close>

definition entry_last_time_update ::
  "u64 \<Rightarrow> addr \<Rightarrow> ('k, 'd, 'pd, 'w, 'mp) ch_ptable \<Rightarrow> ('k, 'd, 'pd, 'w, 'mp) ch_ptable"
where
  "entry_last_time_update now e tbl = tbl\<lparr>heap := (heap tbl)(e := (heap tbl e)\<lparr>last_time := now\<rparr>)\<rparr>"

definition ptable_header_get :: "('k, 'd, 'pd, 'w, 'mp) ch_ptable \<Rightarrow> 'k \<Rightarrow> 'pd \<Rightarrow> nat" where
  "ptable_header_get tbl key pd = unat (entry_hash tbl key pd AND tbl_mask tbl)"

definition ptable_insert ::
  "('k, 'd, 'pd, 'w, 'mp) ch_ptable \<Rightarrow> addr \<Rightarrow> 'k \<Rightarrow> 'pd \<Rightarrow> ('k, 'd, 'pd, 'w, 'mp) ch_ptable"
where
  "ptable_insert tbl e key pd =
     (let h = ptable_header_get tbl key pd
      in tbl\<lparr>entries := (entries tbl)[h := e # (entries tbl ! h)]\<rparr>)"

definition ptable_caches_insert ::
  "('k, 'd, 'pd, 'w, 'mp) ch_ptable \<Rightarrow> addr \<Rightarrow> ('k, 'd, 'pd, 'w, 'mp) ch_ptable res"
where
  "ptable_caches_insert tbl e =
     bind_res
       (if n_caches tbl \<ge> n_caches_limits tbl then
          if caches tbl = [] then Inl Null_Deref else Inr (tbl\<lparr>caches := butlast (caches tbl)\<rparr>)
        else Inr (tbl\<lparr>n_caches := n_caches tbl + 1\<rparr>))
       (\<lambda>tbl. Inr (tbl\<lparr>caches := e # caches tbl\<rparr>))"

definition ptable_entry_init ::
  "u64 \<Rightarrow> ('k, 'd, 'pd, 'w, 'mp) ch_ptable \<Rightarrow> addr \<Rightarrow> 'k \<Rightarrow> 'pd \<Rightarrow> ('k, 'd, 'pd, 'w, 'mp) ch_ptable res"
where
  "ptable_entry_init now tbl e key pd =
     (let tbl = entry_last_time_update now e tbl;
          tbl = tbl\<lparr>last_entry := Some e\<rparr>
      in ptable_caches_insert (ptable_insert tbl e key pd) e)"

definition ch_ptable_entry_create_with_data ::
  "'mp rte_mempool_ops \<Rightarrow> addr option \<Rightarrow> u64 \<Rightarrow> ('k, 'd, 'pd, 'w, 'mp) ch_ptable \<Rightarrow> 'k \<Rightarrow> 'pd \<Rightarrow>
   (addr option \<times> ('k, 'd, 'pd, 'w, 'mp) ch_ptable) res"
where
  "ch_ptable_entry_create_with_data ops mem now tbl key pd =
     bind_res (ch_entry_pool_alloc ops mem (ep tbl)) (\<lambda>(r, epool).
       case r of
         None \<Rightarrow> Inr (None, tbl\<lparr>ep := epool, fail_num := fail_num tbl + 1\<rparr>)
       | Some e \<Rightarrow> bind_res (ptable_entry_init now (tbl\<lparr>ep := epool\<rparr>) e key pd) (\<lambda>tbl. Inr (Some e, tbl)))"

definition ch_ptable_entry_create ::
  "'mp rte_mempool_ops \<Rightarrow> addr option \<Rightarrow> u64 \<Rightarrow> ('k, 'd, 'pd, 'w, 'mp) ch_ptable \<Rightarrow> 'k \<Rightarrow>
   (addr option \<times> ('k, 'd, 'pd, 'w, 'mp) ch_ptable) res"
where
  "ch_ptable_entry_create ops mem now tbl key =
     ch_ptable_entry_create_with_data ops mem now tbl key (priv_data tbl)"

section \<open>Finding an entry\<close>

definition ptable_entry_equal :: "('k, 'd, 'pd, 'w, 'mp) ch_ptable \<Rightarrow> addr \<Rightarrow> 'k \<Rightarrow> bool" where
  "ptable_entry_equal tbl e key = entry_equal tbl (pdata (heap tbl e)) key (priv_data tbl)"

definition ptable_entry_find_from_caches ::
  "('k, 'd, 'pd, 'w, 'mp) ch_ptable \<Rightarrow> 'k \<Rightarrow> addr option \<times> ('k, 'd, 'pd, 'w, 'mp) ch_ptable"
where
  "ptable_entry_find_from_caches tbl key =
     (case find (\<lambda>e. ptable_entry_equal tbl e key) (caches tbl) of
        None \<Rightarrow> (None, tbl)
      | Some e \<Rightarrow>
          let tbl = tbl\<lparr>hits_num := hits_num tbl + 1\<rparr>;
              tbl = (if hd (caches tbl) \<noteq> e then tbl\<lparr>caches := e # list_del e (caches tbl)\<rparr> else tbl)
          in (Some e, tbl\<lparr>last_entry := Some e\<rparr>))"

definition ptable_entry_find ::
  "('k, 'd, 'pd, 'w, 'mp) ch_ptable \<Rightarrow> 'k \<Rightarrow> (addr option \<times> ('k, 'd, 'pd, 'w, 'mp) ch_ptable) res"
where
  "ptable_entry_find tbl key =
     (case find (\<lambda>e. ptable_entry_equal tbl e key) (entries tbl ! ptable_header_get tbl key (priv_data tbl)) of
        None \<Rightarrow> Inr (None, tbl)
      | Some e \<Rightarrow> bind_res (ptable_caches_insert tbl e) (\<lambda>tbl.
          Inr (Some e, tbl\<lparr>last_entry := Some e, no_hits_num := no_hits_num tbl + 1\<rparr>)))"

definition ch_ptable_entry_find ::
  "u64 \<Rightarrow> ('k, 'd, 'pd, 'w, 'mp) ch_ptable \<Rightarrow> 'k \<Rightarrow> (addr option \<times> ('k, 'd, 'pd, 'w, 'mp) ch_ptable) res"
where
  "ch_ptable_entry_find now tbl key =
     (let (r, tbl) = (case last_entry tbl of
              Some e \<Rightarrow> if ptable_entry_equal tbl e key then (Some e, tbl\<lparr>hits_num := hits_num tbl + 1\<rparr>)
                        else (None, tbl)
            | None \<Rightarrow> (None, tbl));
          (r, tbl) = (case r of None \<Rightarrow> ptable_entry_find_from_caches tbl key | Some e \<Rightarrow> (Some e, tbl))
      in bind_res (case r of None \<Rightarrow> ptable_entry_find tbl key | Some e \<Rightarrow> Inr (Some e, tbl)) (\<lambda>(r, tbl).
           case r of None \<Rightarrow> Inr (None, tbl) | Some e \<Rightarrow> Inr (Some e, entry_last_time_update now e tbl)))"

definition ch_ptable_entry_find_create ::
  "'mp rte_mempool_ops \<Rightarrow> addr option \<Rightarrow> u64 \<Rightarrow> ('k, 'd, 'pd, 'w, 'mp) ch_ptable \<Rightarrow> 'k \<Rightarrow>
   (addr option \<times> ('k, 'd, 'pd, 'w, 'mp) ch_ptable) res"
where
  "ch_ptable_entry_find_create ops mem now tbl key =
     bind_res (ch_ptable_entry_find now tbl key) (\<lambda>(r, tbl).
       case r of
         None \<Rightarrow> ch_ptable_entry_create ops mem now tbl key
       | Some e \<Rightarrow> Inr (Some e, tbl))"

section \<open>The watch task\<close>

text \<open>
  The ring between the watch task and the table's thread holds at most \<^verbatim>\<open>ring_size - 1\<close>
  entries. A pass over one bucket stops when the ring is full; the pass over the table goes on
  with the next bucket.
\<close>

definition entry_is_timeout :: "('k, 'd, 'pd, 'w, 'mp) ch_ptable \<Rightarrow> addr \<Rightarrow> u64 \<Rightarrow> u64" where
  "entry_is_timeout tbl e cur_time =
     (let t = cur_time - last_time (heap tbl e) in if t > entry_timeout tbl then t else 0)"

definition timeout_ring_full :: "('k, 'd, 'pd, 'w, 'mp) ch_ptable \<Rightarrow> bool" where
  "timeout_ring_full tbl \<longleftrightarrow> unat (ring_size tbl) \<le> Suc (length (timeout_entries tbl))"

fun watch_bucket ::
  "u64 \<Rightarrow> addr list \<Rightarrow> ('k, 'd, 'pd, 'w, 'mp) ch_ptable \<Rightarrow> ('k, 'd, 'pd, 'w, 'mp) ch_ptable"
where
  "watch_bucket cur_time [] tbl = tbl"
| "watch_bucket cur_time (e # es) tbl =
     (let t = entry_is_timeout tbl e cur_time
      in if t = 0 then watch_bucket cur_time es tbl
         else if timeout_ring_full tbl then tbl
         else watch_bucket cur_time es
           (tbl\<lparr>heap := (heap tbl)(e := (heap tbl e)\<lparr>tv := t\<rparr>), timeout_entries := timeout_entries tbl @ [e]\<rparr>))"

definition watch_ptable ::
  "u64 \<Rightarrow> ('k, 'd, 'pd, 'w, 'mp) ch_ptable \<Rightarrow> ('k, 'd, 'pd, 'w, 'mp) ch_ptable"
where
  "watch_ptable cur_time tbl = fold (watch_bucket cur_time) (entries tbl) tbl"

text \<open>One visit of the watch task to a table: it waits until the ring was emptied.\<close>

definition ptable_watch_visit ::
  "u64 \<Rightarrow> ('k, 'd, 'pd, 'w, 'mp) ch_ptable \<Rightarrow> ('k, 'd, 'pd, 'w, 'mp) ch_ptable"
where
  "ptable_watch_visit cur_time tbl = (if timeout_entries tbl \<noteq> [] then tbl else watch_ptable cur_time tbl)"

section \<open>Invariant\<close>

definition members :: "('k, 'd, 'pd, 'w, 'mp) ch_ptable \<Rightarrow> addr set" where
  "members tbl = set (concat (entries tbl))"

definition caches_ok :: "('k, 'd, 'pd, 'w, 'mp) ch_ptable \<Rightarrow> bool" where
  "caches_ok tbl \<longleftrightarrow> distinct (caches tbl) \<and> set (caches tbl) \<subseteq> members tbl \<and>
     n_caches tbl = of_nat (length (caches tbl)) \<and> length (caches tbl) \<le> unat (n_caches_limits tbl) \<and>
     0 < n_caches_limits tbl \<and> (\<forall>e. last_entry tbl = Some e \<longrightarrow> e \<in> members tbl)"

definition buckets_ok :: "('k, 'd, 'pd, 'w, 'mp) ch_ptable \<Rightarrow> bool" where
  "buckets_ok tbl \<longleftrightarrow> 0 < tbl_size tbl \<and> tbl_mask tbl = tbl_size tbl - 1 \<and> length (entries tbl) = unat (tbl_size tbl) \<and>
     distinct (concat (entries tbl)) \<and> ep_ok (ep tbl) \<and> members tbl \<subseteq> ep_live (ep tbl)"

definition ptable_ok :: "('k, 'd, 'pd, 'w, 'mp) ch_ptable \<Rightarrow> bool" where
  "ptable_ok tbl \<longleftrightarrow> buckets_ok tbl \<and> caches_ok tbl"

lemma members_nth: "e \<in> members tbl \<longleftrightarrow> (\<exists>i<length (entries tbl). e \<in> set (entries tbl ! i))"
  unfolding members_def by (auto simp: set_conv_nth [of "entries tbl"])

text \<open>Every entry is in the bucket of each key that it equals.\<close>

definition keyed :: "('k, 'd, 'pd, 'w, 'mp) ch_ptable \<Rightarrow> bool" where
  "keyed tbl \<longleftrightarrow> (\<forall>i<length (entries tbl). \<forall>e\<in>set (entries tbl ! i). \<forall>key.
     ptable_entry_equal tbl e key \<longrightarrow> ptable_header_get tbl key (priv_data tbl) = i)"

text \<open>Two states of a table that differ at most in caches, statistics and times.\<close>

definition same_table :: "('k, 'd, 'pd, 'w, 'mp) ch_ptable \<Rightarrow> ('k, 'd, 'pd, 'w, 'mp) ch_ptable \<Rightarrow> bool" where
  "same_table tbl tbl' \<longleftrightarrow> entries tbl' = entries tbl \<and> ep tbl' = ep tbl \<and> tbl_size tbl' = tbl_size tbl \<and>
     tbl_mask tbl' = tbl_mask tbl \<and> priv_data tbl' = priv_data tbl \<and> entry_hash tbl' = entry_hash tbl \<and>
     entry_equal tbl' = entry_equal tbl \<and> (\<forall>e. pdata (heap tbl' e) = pdata (heap tbl e))"

lemma same_table_refl: "same_table tbl tbl"
  by (simp add: same_table_def)

lemma same_table_trans: "same_table a b \<Longrightarrow> same_table b c \<Longrightarrow> same_table a c"
  by (simp add: same_table_def)

lemma same_table_facts:
  assumes "same_table tbl tbl'"
  shows "members tbl' = members tbl" "ptable_entry_equal tbl' = ptable_entry_equal tbl"
    "buckets_ok tbl' = buckets_ok tbl" "keyed tbl' = keyed tbl"
proof -
  note same = assms [unfolded same_table_def]
  show m: "members tbl' = members tbl" using same by (simp add: members_def)
  show eq: "ptable_entry_equal tbl' = ptable_entry_equal tbl"
    using same by (intro ext) (simp add: ptable_entry_equal_def)
  show "buckets_ok tbl' = buckets_ok tbl" using same m by (simp add: buckets_ok_def)
  have "ptable_header_get tbl' = ptable_header_get tbl" using same by (intro ext) (simp add: ptable_header_get_def)
  then show "keyed tbl' = keyed tbl" using same eq by (simp add: keyed_def)
qed

lemma header_get_less: "buckets_ok tbl \<Longrightarrow> ptable_header_get tbl key pd < length (entries tbl)"
proof -
  assume ok: "buckets_ok tbl"
  have "entry_hash tbl key pd AND tbl_mask tbl \<le> tbl_mask tbl" by (rule word_and_le1)
  moreover have "tbl_mask tbl < tbl_size tbl" using ok by (simp add: buckets_ok_def word_gt_0 word_less_unat unat_minus_one unat_gt_0)
  ultimately show ?thesis using ok by (simp add: ptable_header_get_def buckets_ok_def word_less_unat word_le_unat)
qed

section \<open>The list of recently used entries\<close>

lemma of_nat_le_unat: "n \<le> unat (l :: u64) \<Longrightarrow> unat (of_nat n :: u64) = n"
proof -
  assume "n \<le> unat l"
  then have "n < 18446744073709551616" using unat_lt64 [of l] by linarith
  then show ?thesis by (simp add: unat_of_nat)
qed

lemma caches_full: "caches_ok tbl \<Longrightarrow> n_caches tbl \<ge> n_caches_limits tbl \<longleftrightarrow> length (caches tbl) = unat (n_caches_limits tbl)"
  by (auto simp: caches_ok_def word_le_unat of_nat_le_unat)

lemma caches_insert_ok:
  assumes ok: "caches_ok tbl" and e: "e \<in> members tbl" "e \<notin> set (caches tbl)"
  shows "\<exists>tbl'. ptable_caches_insert tbl e = Inr tbl' \<and> caches_ok tbl' \<and> same_table tbl tbl' \<and>
    last_entry tbl' = last_entry tbl \<and> heap tbl' = heap tbl \<and> hd (caches tbl') = e"
proof (cases "n_caches tbl \<ge> n_caches_limits tbl")
  case True
  then have len: "length (caches tbl) = unat (n_caches_limits tbl)" using caches_full [OF ok] by simp
  have pos: "0 < unat (n_caches_limits tbl)" using ok by (simp add: caches_ok_def unat_gt_0 word_gt_0)
  with len have ne: "caches tbl \<noteq> []" by auto
  let ?tbl = "tbl\<lparr>caches := e # butlast (caches tbl)\<rparr>"
  have "caches_ok ?tbl"
    using ok e ne len pos by (auto simp: caches_ok_def members_def distinct_butlast dest: in_set_butlastD)
  then show ?thesis using True ne by (simp add: ptable_caches_insert_def same_table_def)
next
  case False
  then have "length (caches tbl) \<noteq> unat (n_caches_limits tbl)" using caches_full [OF ok] by simp
  then have "caches_ok (tbl\<lparr>n_caches := n_caches tbl + 1, caches := e # caches tbl\<rparr>)"
    using ok e by (auto simp: caches_ok_def members_def add.commute)
  then show ?thesis using False by (simp add: ptable_caches_insert_def same_table_def)
qed

section \<open>Finding an entry\<close>

lemma find_None_iff': "find P xs = None \<longleftrightarrow> (\<forall>x\<in>set xs. \<not> P x)"
  by (auto simp: find_None_iff)

lemma find_caches_ok:
  assumes ok: "caches_ok tbl"
  shows "\<exists>r tbl'. ptable_entry_find_from_caches tbl key = (r, tbl') \<and> caches_ok tbl' \<and> same_table tbl tbl' \<and>
    heap tbl' = heap tbl \<and>
    (case r of
       None \<Rightarrow> tbl' = tbl \<and> (\<forall>e\<in>set (caches tbl). \<not> ptable_entry_equal tbl e key)
     | Some e \<Rightarrow> e \<in> members tbl \<and> ptable_entry_equal tbl e key \<and> last_entry tbl' = Some e)"
proof (cases "find (\<lambda>e. ptable_entry_equal tbl e key) (caches tbl)")
  case None
  then show ?thesis unfolding ptable_entry_find_from_caches_def None option.case
    using ok same_table_refl [of tbl] None [unfolded find_None_iff'] by simp
next
  case (Some e)
  then have e: "e \<in> set (caches tbl)" "ptable_entry_equal tbl e key" using find_Some_in_set by fastforce+
  then have mem: "e \<in> members tbl" using ok by (auto simp: caches_ok_def)
  have len: "Suc (length (caches tbl) - Suc 0) = length (caches tbl)" using e(1) by (cases "caches tbl") auto
  have set: "insert e (set (caches tbl) - {e}) = set (caches tbl)" using e(1) by blast
  have "caches_ok (tbl\<lparr>hits_num := h, caches := e # list_del e (caches tbl), last_entry := Some e\<rparr>)"
      "caches_ok (tbl\<lparr>hits_num := h, last_entry := Some e\<rparr>)" for h
    using ok e(1) mem len set by (auto simp: caches_ok_def members_def)
  then show ?thesis using Some e mem
    by (auto simp: ptable_entry_find_from_caches_def Let_def same_table_def)
qed

lemma find_bucket_ok:
  assumes ok: "ptable_ok tbl" "keyed tbl" and no: "\<forall>e\<in>set (caches tbl). \<not> ptable_entry_equal tbl e key"
  shows "\<exists>r tbl'. ptable_entry_find tbl key = Inr (r, tbl') \<and> caches_ok tbl' \<and> same_table tbl tbl' \<and>
    heap tbl' = heap tbl \<and>
    (case r of
       None \<Rightarrow> \<forall>e\<in>members tbl. \<not> ptable_entry_equal tbl e key
     | Some e \<Rightarrow> e \<in> members tbl \<and> ptable_entry_equal tbl e key \<and> last_entry tbl' = Some e)"
proof -
  let ?h = "ptable_header_get tbl key (priv_data tbl)"
  have h: "?h < length (entries tbl)" using header_get_less [of tbl key "priv_data tbl"] ok(1) by (simp add: ptable_ok_def)
  have cok: "caches_ok tbl" using ok(1) by (simp add: ptable_ok_def)
  show ?thesis
  proof (cases "find (\<lambda>e. ptable_entry_equal tbl e key) (entries tbl ! ?h)")
    case None
    have "\<not> ptable_entry_equal tbl e key" if m: "e \<in> members tbl" for e
    proof
      assume eq: "ptable_entry_equal tbl e key"
      obtain i where i: "i < length (entries tbl)" "e \<in> set (entries tbl ! i)"
        using m by (auto simp: members_nth)
      then have "?h = i" using ok(2) eq by (simp add: keyed_def)
      then show False using None i(2) eq by (simp add: find_None_iff')
    qed
    then show ?thesis unfolding ptable_entry_find_def None option.case
      using cok same_table_refl [of tbl] by simp
  next
    case (Some e)
    then have e: "e \<in> set (entries tbl ! ?h)" "ptable_entry_equal tbl e key" using find_Some_in_set by fastforce+
    then have mem: "e \<in> members tbl" using h by (auto simp: members_def)
    have "e \<notin> set (caches tbl)" using no e(2) by blast
    then obtain tbl1 where t: "ptable_caches_insert tbl e = Inr tbl1" "caches_ok tbl1" "same_table tbl tbl1"
      "heap tbl1 = heap tbl" using caches_insert_ok [OF cok mem] by blast
    let ?tbl = "tbl1\<lparr>last_entry := Some e, no_hits_num := no_hits_num tbl1 + 1\<rparr>"
    have "caches_ok ?tbl" using t(2) mem same_table_facts(1) [OF t(3)] by (simp add: caches_ok_def members_def)
    moreover have "same_table tbl ?tbl" using t(3) by (simp add: same_table_def)
    ultimately show ?thesis using Some e mem t by (simp add: ptable_entry_find_def)
  qed
qed

lemma last_time_update_ok:
  "caches_ok (entry_last_time_update now e tbl) = caches_ok tbl" "same_table tbl (entry_last_time_update now e tbl)"
  by (auto simp: entry_last_time_update_def caches_ok_def members_def same_table_def)

lemma entry_find_ok:
  assumes ok: "ptable_ok tbl" "keyed tbl"
  shows "\<exists>r tbl'. ch_ptable_entry_find now tbl key = Inr (r, tbl') \<and> ptable_ok tbl' \<and> same_table tbl tbl' \<and>
    (case r of
       None \<Rightarrow> \<forall>e\<in>members tbl. \<not> ptable_entry_equal tbl e key
     | Some e \<Rightarrow> e \<in> members tbl \<and> ptable_entry_equal tbl e key \<and> last_entry tbl' = Some e \<and>
         last_time (heap tbl' e) = now)"
proof -
  have hit: ?thesis
    if "ch_ptable_entry_find now tbl key = Inr (Some e, entry_last_time_update now e tbl1)" "caches_ok tbl1"
      "same_table tbl tbl1" "e \<in> members tbl" "ptable_entry_equal tbl e key" "last_entry tbl1 = Some e" for e tbl1
  proof -
    let ?tbl = "entry_last_time_update now e tbl1"
    have same: "same_table tbl ?tbl" using same_table_trans [OF that(3) last_time_update_ok(2)] .
    moreover have "ptable_ok ?tbl"
      using that(2) ok(1) same_table_facts(3) [OF same] by (simp add: ptable_ok_def last_time_update_ok(1))
    moreover have "last_entry ?tbl = Some e" "last_time (heap ?tbl e) = now"
      using that(6) by (simp_all add: entry_last_time_update_def)
    ultimately show ?thesis using that(1,4,5) by (intro exI [of _ "Some e"] exI [of _ ?tbl]) simp
  qed
  have cok: "caches_ok tbl" using ok(1) by (simp add: ptable_ok_def)
  show ?thesis
  proof (cases "\<exists>e. last_entry tbl = Some e \<and> ptable_entry_equal tbl e key")
    case True
    then obtain e where e: "last_entry tbl = Some e" "ptable_entry_equal tbl e key" by blast
    let ?tbl = "tbl\<lparr>hits_num := hits_num tbl + 1\<rparr>"
    have "ch_ptable_entry_find now tbl key = Inr (Some e, entry_last_time_update now e ?tbl)"
      using e by (simp add: ch_ptable_entry_find_def)
    moreover have "caches_ok ?tbl" "same_table tbl ?tbl" "e \<in> members tbl" "last_entry ?tbl = Some e"
      using cok e by (auto simp: caches_ok_def members_def same_table_def)
    ultimately show ?thesis using hit e(2) by blast
  next
    case False
    obtain r1 tbl1 where c: "ptable_entry_find_from_caches tbl key = (r1, tbl1)" "caches_ok tbl1" "same_table tbl tbl1"
      "case r1 of None \<Rightarrow> tbl1 = tbl \<and> (\<forall>e\<in>set (caches tbl). \<not> ptable_entry_equal tbl e key)
       | Some e \<Rightarrow> e \<in> members tbl \<and> ptable_entry_equal tbl e key \<and> last_entry tbl1 = Some e"
      using find_caches_ok [OF cok, of key] by blast
    have ev: "ch_ptable_entry_find now tbl key =
        bind_res (case r1 of None \<Rightarrow> ptable_entry_find tbl1 key | Some e \<Rightarrow> Inr (Some e, tbl1)) (\<lambda>(r, tbl).
           case r of None \<Rightarrow> Inr (None, tbl) | Some e \<Rightarrow> Inr (Some e, entry_last_time_update now e tbl))"
      using False c(1) by (auto simp: ch_ptable_entry_find_def split: option.splits)
    show ?thesis
    proof (cases r1)
      case (Some e)
      then show ?thesis using hit [of e tbl1] ev c by simp
    next
      case None
      then have t1: "tbl1 = tbl" "\<forall>e\<in>set (caches tbl). \<not> ptable_entry_equal tbl e key" using c(4) by auto
      obtain r2 tbl2 where b: "ptable_entry_find tbl key = Inr (r2, tbl2)" "caches_ok tbl2" "same_table tbl tbl2"
        "case r2 of None \<Rightarrow> \<forall>e\<in>members tbl. \<not> ptable_entry_equal tbl e key
         | Some e \<Rightarrow> e \<in> members tbl \<and> ptable_entry_equal tbl e key \<and> last_entry tbl2 = Some e"
        using find_bucket_ok [OF ok t1(2)] by blast
      show ?thesis
      proof (cases r2)
        case (Some e)
        then show ?thesis using hit [of e tbl2] ev None t1 b by simp
      next
        case r2: None
        then have "ch_ptable_entry_find now tbl key = Inr (None, tbl2)" using ev None t1 b(1) by simp
        moreover have "ptable_ok tbl2" using b(2) ok(1) same_table_facts(3) [OF b(3)] by (simp add: ptable_ok_def)
        ultimately show ?thesis using b(3,4) r2 by (intro exI [of _ None] exI [of _ tbl2]) simp
      qed
    qed
  qed
qed

section \<open>The contract of a keyed store\<close>

text \<open>
  What the session pools rely on, of the hash table and of the list alike: a find returns a
  member that equals the key, fails only if there is none, and changes neither the members nor
  the keys they equal.
\<close>

locale keyed_store =
  fixes find_entry :: "u64 \<Rightarrow> 't \<Rightarrow> 'k \<Rightarrow> (addr option \<times> 't) res"
    and ok :: "'t \<Rightarrow> bool"
    and mem :: "'t \<Rightarrow> addr set"
    and matches :: "'t \<Rightarrow> addr \<Rightarrow> 'k \<Rightarrow> bool"
  assumes find_ok: "ok t \<Longrightarrow> \<exists>r t'. find_entry now t key = Inr (r, t') \<and> ok t' \<and> mem t' = mem t \<and> matches t' = matches t \<and>
      (case r of None \<Rightarrow> \<forall>e\<in>mem t. \<not> matches t e key | Some e \<Rightarrow> e \<in> mem t \<and> matches t e key)"
begin

text \<open>Finds one after the other, each with its own time.\<close>

fun find_seq :: "'t \<Rightarrow> (u64 \<times> 'k) list \<Rightarrow> (addr option list \<times> 't) res" where
  "find_seq t [] = Inr ([], t)"
| "find_seq t ((now, key) # qs) =
     bind_res (find_entry now t key) (\<lambda>(r, t). bind_res (find_seq t qs) (\<lambda>(rs, t). Inr (r # rs, t)))"

definition lookup :: "'t \<Rightarrow> 'k \<Rightarrow> addr option \<Rightarrow> bool" where
  "lookup t key r \<longleftrightarrow> (case r of None \<Rightarrow> \<forall>e\<in>mem t. \<not> matches t e key | Some e \<Rightarrow> e \<in> mem t \<and> matches t e key)"

lemma find_seq_ok:
  "ok t \<Longrightarrow> \<exists>rs t'. find_seq t qs = Inr (rs, t') \<and> ok t' \<and> mem t' = mem t \<and> matches t' = matches t \<and>
     list_all2 (\<lambda>(now, key) r. lookup t key r) qs rs"
proof (induction qs arbitrary: t)
  case (Cons q qs)
  obtain now key where q: "q = (now, key)" by fastforce
  obtain r t1 where f: "find_entry now t key = Inr (r, t1)" "ok t1" "mem t1 = mem t" "matches t1 = matches t" "lookup t key r"
    using find_ok [OF Cons.prems, of now key] unfolding lookup_def by blast
  obtain rs t2 where "find_seq t1 qs = Inr (rs, t2)" "ok t2" "mem t2 = mem t1" "matches t2 = matches t1"
    "list_all2 (\<lambda>(now, key) r. lookup t1 key r) qs rs" using Cons.IH [OF f(2)] by blast
  moreover have "lookup t1 = lookup t" using f(3,4) by (intro ext) (simp add: lookup_def split: option.splits)
  ultimately show ?case using f by (auto simp: q)
qed simp

text \<open>When no two members equal the same key, every find of a key has the same answer.\<close>

lemma lookup_unique:
  assumes "\<forall>a\<in>mem t. \<forall>b\<in>mem t. matches t a key \<and> matches t b key \<longrightarrow> a = b" "lookup t key r" "lookup t key r'"
  shows "r = r'"
  using assms by (auto simp: lookup_def split: option.splits)

end

interpretation pt: keyed_store ch_ptable_entry_find "\<lambda>tbl. ptable_ok tbl \<and> keyed tbl" members ptable_entry_equal
proof
  fix t now key
  assume ok: "ptable_ok t \<and> keyed t"
  then obtain r t' where r: "ch_ptable_entry_find now t key = Inr (r, t')" "ptable_ok t'" "same_table t t'"
    "case r of None \<Rightarrow> \<forall>e\<in>members t. \<not> ptable_entry_equal t e key
     | Some e \<Rightarrow> e \<in> members t \<and> ptable_entry_equal t e key \<and> last_entry t' = Some e \<and> last_time (heap t' e) = now"
    using entry_find_ok [of t now key] by blast
  then show "\<exists>r t'. ch_ptable_entry_find now t key = Inr (r, t') \<and> (ptable_ok t' \<and> keyed t') \<and> members t' = members t \<and>
      ptable_entry_equal t' = ptable_entry_equal t \<and>
      (case r of None \<Rightarrow> \<forall>e\<in>members t. \<not> ptable_entry_equal t e key | Some e \<Rightarrow> e \<in> members t \<and> ptable_entry_equal t e key)"
    using same_table_facts [OF r(3)] ok by (intro exI [of _ r] exI [of _ t']) (auto split: option.splits)
qed

section \<open>Creating an entry\<close>

lemma concat_update:
  assumes "i < length xss"
  shows "\<exists>ys zs. concat xss = ys @ zs \<and> concat (xss[i := x # xss ! i]) = ys @ x # zs"
proof -
  have "xss = take i xss @ xss ! i # drop (Suc i) xss" using assms by (rule id_take_nth_drop)
  then have "concat xss = concat (take i xss) @ (xss ! i @ concat (drop (Suc i) xss))"
    by (metis concat.simps(2) concat_append)
  moreover have "concat (xss[i := x # xss ! i]) = concat (take i xss) @ x # (xss ! i @ concat (drop (Suc i) xss))"
    using assms by (simp add: upd_conv_take_nth_drop)
  ultimately show ?thesis by blast
qed

lemma entry_create_ok:
  assumes ok: "ptable_ok tbl" and fr: "ep_fresh mem (ep tbl)"
  shows "\<exists>r tbl'. ch_ptable_entry_create_with_data ops mem now tbl key pd = Inr (r, tbl') \<and> ptable_ok tbl' \<and>
    priv_data tbl' = priv_data tbl \<and> entry_hash tbl' = entry_hash tbl \<and> entry_equal tbl' = entry_equal tbl \<and>
    tbl_mask tbl' = tbl_mask tbl \<and> (\<forall>a. pdata (heap tbl' a) = pdata (heap tbl a)) \<and> (r = None \<longleftrightarrow> ep_exhausted mem (ep tbl)) \<and>
    (case r of
       None \<Rightarrow> entries tbl' = entries tbl \<and> fail_num tbl' = fail_num tbl + 1
     | Some e \<Rightarrow> e \<notin> members tbl \<and> last_entry tbl' = Some e \<and>
         entries tbl' = (entries tbl)[ptable_header_get tbl key pd := e # (entries tbl ! ptable_header_get tbl key pd)])"
proof -
  have b: "buckets_ok tbl" and c: "caches_ok tbl" using ok by (auto simp: ptable_ok_def)
  obtain r epool where al: "ch_entry_pool_alloc ops mem (ep tbl) = Inr (r, epool)" "ep_ok epool"
    "case r of None \<Rightarrow> ep_live epool = ep_live (ep tbl)
     | Some a \<Rightarrow> a \<notin> ep_live (ep tbl) \<and> ep_live epool = insert a (ep_live (ep tbl))"
    using ep.get_ok [of "ep tbl" mem ops] b fr by (auto simp: buckets_ok_def)
  have ex: "r = None \<longleftrightarrow> ep_exhausted mem (ep tbl)" using ep.get_none [OF _ fr al(1)] b by (simp add: buckets_ok_def)
  show ?thesis
  proof (cases r)
    case None
    then have "ptable_ok (tbl\<lparr>ep := epool, fail_num := fail_num tbl + 1\<rparr>)"
      using al b c by (simp add: ptable_ok_def buckets_ok_def caches_ok_def members_def)
    then show ?thesis using None al ex by (simp add: ch_ptable_entry_create_with_data_def)
  next
    case (Some e)
    let ?h = "ptable_header_get tbl key pd"
    let ?ents = "(entries tbl)[?h := e # (entries tbl ! ?h)]"
    have e: "e \<notin> members tbl" using al(3) Some b by (auto simp: buckets_ok_def)
    have h: "?h < length (entries tbl)" using header_get_less [OF b] .
    obtain ys zs where sp: "concat (entries tbl) = ys @ zs" "concat ?ents = ys @ e # zs"
      using concat_update [OF h, of e] by blast
    have d: "distinct (concat ?ents)" using b e unfolding sp(2) by (auto simp: buckets_ok_def members_def sp(1))
    have m: "set (concat ?ents) = insert e (members tbl)" unfolding sp(2) by (auto simp: members_def sp(1))
    let ?t = "tbl\<lparr>ep := epool, heap := (heap tbl)(e := (heap tbl e)\<lparr>last_time := now\<rparr>), last_entry := Some e, entries := ?ents\<rparr>"
    have t: "ptable_insert ((entry_last_time_update now e (tbl\<lparr>ep := epool\<rparr>))\<lparr>last_entry := Some e\<rparr>) e key pd = ?t"
      by (simp add: ptable_insert_def entry_last_time_update_def ptable_header_get_def Let_def)
    have bt: "buckets_ok ?t" using b d m al(2,3) Some by (auto simp: buckets_ok_def members_def)
    have ct: "caches_ok ?t" using c m by (auto simp: caches_ok_def members_def)
    have et: "e \<in> members ?t" "e \<notin> set (caches ?t)" using m c e by (auto simp: members_def caches_ok_def)
    obtain tbl' where ins: "ptable_caches_insert ?t e = Inr tbl'" "caches_ok tbl'" "same_table ?t tbl'" "last_entry tbl' = Some e"
      using caches_insert_ok [OF ct et] by auto
    have ev: "ch_ptable_entry_create_with_data ops mem now tbl key pd = Inr (Some e, tbl')"
      using al(1) Some ins(1) t by (simp add: ch_ptable_entry_create_with_data_def ptable_entry_init_def Let_def)
    have "ptable_ok tbl'" using ins(2) bt same_table_facts(3) [OF ins(3)] by (simp add: ptable_ok_def)
    with ev show ?thesis using ins(3,4) e ex Some by (intro exI [of _ "Some e"] exI [of _ tbl']) (simp add: same_table_def)
  qed
qed

text \<open>The client writes its part of an entry.\<close>

definition entry_store :: "addr \<Rightarrow> 'd \<Rightarrow> ('k, 'd, 'pd, 'w, 'mp) ch_ptable \<Rightarrow> ('k, 'd, 'pd, 'w, 'mp) ch_ptable" where
  "entry_store e d tbl = tbl\<lparr>heap := (heap tbl)(e := (heap tbl e)\<lparr>pdata := d\<rparr>)\<rparr>"

lemma entry_store_simps [simp]:
  "members (entry_store e d tbl) = members tbl" "ptable_ok (entry_store e d tbl) = ptable_ok tbl"
  "entries (entry_store e d tbl) = entries tbl" "ptable_header_get (entry_store e d tbl) = ptable_header_get tbl"
  "priv_data (entry_store e d tbl) = priv_data tbl"
  "ptable_entry_equal (entry_store e d tbl) a key =
     (if a = e then entry_equal tbl d key (priv_data tbl) else ptable_entry_equal tbl a key)"
  by (auto simp: entry_store_def members_def ptable_ok_def buckets_ok_def caches_ok_def ptable_header_get_def fun_eq_iff
      ptable_entry_equal_def)

lemma keyed_create_store:
  assumes ok: "ptable_ok tbl" "keyed tbl" and e: "e \<notin> members tbl"
    and t': "entries tbl' = (entries tbl)[ptable_header_get tbl key (priv_data tbl) :=
        e # (entries tbl ! ptable_header_get tbl key (priv_data tbl))]"
      "priv_data tbl' = priv_data tbl" "entry_hash tbl' = entry_hash tbl" "entry_equal tbl' = entry_equal tbl"
      "tbl_mask tbl' = tbl_mask tbl" "\<forall>a. pdata (heap tbl' a) = pdata (heap tbl a)"
    and hash: "\<forall>k. entry_equal tbl d k (priv_data tbl) \<longrightarrow>
      ptable_header_get tbl k (priv_data tbl) = ptable_header_get tbl key (priv_data tbl)"
  shows "keyed (entry_store e d tbl')"
proof -
  have eq: "ptable_entry_equal tbl' = ptable_entry_equal tbl" "ptable_header_get tbl' = ptable_header_get tbl"
    using t' by (auto simp: ptable_entry_equal_def ptable_header_get_def fun_eq_iff)
  let ?h = "ptable_header_get tbl key (priv_data tbl)"
  have h: "?h < length (entries tbl)" using header_get_less [of tbl key "priv_data tbl"] ok(1) by (simp add: ptable_ok_def)
  have main: "ptable_header_get tbl k (priv_data tbl) = i"
    if i: "i < length (entries tbl)" "a \<in> set (entries tbl' ! i)"
      and m: "if a = e then entry_equal tbl d k (priv_data tbl) else ptable_entry_equal tbl a k" for i a k
  proof (cases "a = e")
    case True
    moreover have "e \<notin> set (entries tbl ! i)" using e i(1) by (auto simp: members_nth)
    ultimately have "i = ?h" using i t'(1) h by (auto simp: nth_list_update' split: if_splits)
    then show ?thesis using hash m True by simp
  next
    case False
    then have "a \<in> set (entries tbl ! i)" using i t'(1) h by (auto simp: nth_list_update' split: if_splits)
    then show ?thesis using ok(2) i(1) m False by (simp add: keyed_def)
  qed
  have len: "length (entries tbl') = length (entries tbl)" using t'(1) by simp
  show ?thesis
    unfolding keyed_def entry_store_simps t'(2,4) eq len using main by blast
qed

section \<open>Freeing an entry\<close>

definition callbacks_total :: "('k, 'd, 'pd, 'w, 'mp) ch_ptable \<Rightarrow> bool" where
  "callbacks_total tbl \<longleftrightarrow>
     (\<forall>f d t w. entry_timeout_cb tbl = Some f \<longrightarrow> (\<exists>d' w'. f d t (priv_data tbl) w = Inr (d', w'))) \<and>
     (\<forall>f d w. entry_clean tbl = Some f \<longrightarrow> (\<exists>d' w'. f d (priv_data tbl) w = Inr (d', w')))"

lemma concat_map_list_del: "distinct (concat xss) \<Longrightarrow> concat (map (list_del e) xss) = list_del e (concat xss)"
proof (induction xss)
  case (Cons xs xss)
  show ?case
  proof (cases "e \<in> set xs")
    case True
    then have "e \<notin> set (concat xss)" using Cons.prems by auto
    then have id: "map (list_del e) xss = xss" by (intro map_idI) auto
    show ?thesis using True unfolding list.map concat.simps id by (simp add: list_del_def remove1_append)
  next
    case False
    then show ?thesis using Cons by (simp add: list_del_def remove1_append remove1_idem)
  qed
qed (simp add: list_del_def)

lemma unlink_ok:
  assumes "ptable_ok tbl"
  shows "caches_ok (tbl_entry_unlink e tbl)" "distinct (concat (entries (tbl_entry_unlink e tbl)))"
    "members (tbl_entry_unlink e tbl) = members tbl - {e}"
    "entries (tbl_entry_unlink e tbl) = map (list_del e) (entries tbl)"
    "ptable_entry_equal (tbl_entry_unlink e tbl) = ptable_entry_equal tbl"
proof -
  have b: "distinct (concat (entries tbl))" and c: "caches_ok tbl" using assms by (auto simp: ptable_ok_def buckets_ok_def)
  show ents: "entries (tbl_entry_unlink e tbl) = map (list_del e) (entries tbl)"
    by (simp add: tbl_entry_unlink_def Let_def)
  show m: "members (tbl_entry_unlink e tbl) = members tbl - {e}"
    unfolding members_def ents concat_map_list_del [OF b] using b by simp
  show "distinct (concat (entries (tbl_entry_unlink e tbl)))"
    unfolding ents concat_map_list_del [OF b] using b by simp
  show "ptable_entry_equal (tbl_entry_unlink e tbl) = ptable_entry_equal tbl"
    by (intro ext) (simp add: tbl_entry_unlink_def Let_def ptable_entry_equal_def)
  let ?t = "tbl_entry_unlink e tbl"
  have cs: "caches ?t = list_del e (caches tbl)" "n_caches_limits ?t = n_caches_limits tbl"
    "last_entry ?t = (if last_entry tbl = Some e then None else last_entry tbl)"
    by (simp_all add: tbl_entry_unlink_def Let_def)
  have n: "n_caches ?t = of_nat (length (caches ?t))"
  proof (cases "e \<in> set (caches tbl)")
    case True
    then obtain k where "length (caches tbl) = Suc k" by (cases "caches tbl") auto
    then show ?thesis using True c unfolding cs by (simp add: tbl_entry_unlink_def Let_def caches_ok_def)
  next
    case False
    then show ?thesis using c unfolding cs by (simp add: tbl_entry_unlink_def Let_def caches_ok_def)
  qed
  have "length (list_del e (caches tbl)) \<le> unat (n_caches_limits tbl)"
    using length_list_del_le [of e "caches tbl"] c by (simp add: caches_ok_def)
  then show "caches_ok ?t" using c n unfolding caches_ok_def m cs by auto
qed

text \<open>The outcome of the callbacks for an entry, the timeout callback first.\<close>

definition run_callbacks ::
  "('k, 'd, 'pd, 'w, 'mp) ch_ptable \<Rightarrow> 'd \<Rightarrow> u64 \<Rightarrow> 'w \<Rightarrow> ('d \<times> 'w) res"
where
  "run_callbacks tbl d t w =
     bind_res (if t \<noteq> 0 then (case entry_timeout_cb tbl of None \<Rightarrow> Inr (d, w) | Some cb \<Rightarrow> cb d t (priv_data tbl) w)
               else Inr (d, w)) (\<lambda>(d, w).
       case entry_clean tbl of None \<Rightarrow> Inr (d, w) | Some cl \<Rightarrow> cl d (priv_data tbl) w)"

lemma callbacks_total_run: "callbacks_total tbl \<Longrightarrow> \<exists>d' w'. run_callbacks tbl d t w = Inr (d', w')"
proof -
  assume cb: "callbacks_total tbl"
  have "\<exists>d1 w1. (if t \<noteq> 0 then (case entry_timeout_cb tbl of None \<Rightarrow> Inr (d, w)
      | Some cb \<Rightarrow> cb d t (priv_data tbl) w) else Inr (d, w)) = Inr (d1, w1)"
    using cb by (simp add: callbacks_total_def split: option.splits)
  then obtain d1 w1 where w1: "(if t \<noteq> 0 then (case entry_timeout_cb tbl of None \<Rightarrow> Inr (d, w)
      | Some cb \<Rightarrow> cb d t (priv_data tbl) w) else Inr (d, w)) = Inr (d1, w1)" by blast
  have "\<exists>d2 w2. (case entry_clean tbl of None \<Rightarrow> Inr (d1, w1) | Some cl \<Rightarrow> cl d1 (priv_data tbl) w1) = Inr (d2, w2)"
    using cb by (simp add: callbacks_total_def split: option.splits)
  then show ?thesis unfolding run_callbacks_def w1 bind_res_simps prod.case .
qed

lemma entry_free_step:
  assumes ok: "ptable_ok tbl" and e: "e \<in> members tbl" and cb: "run_callbacks tbl (pdata (heap tbl e)) t w = Inr (d', w')"
  shows "\<exists>tbl'. tbl_entry_free ops tbl w e t = Inr (tbl', w') \<and> ptable_ok tbl' \<and> members tbl' = members tbl - {e} \<and>
    entries tbl' = map (list_del e) (entries tbl) \<and> heap tbl' = (heap tbl)(e := (heap tbl e)\<lparr>pdata := d'\<rparr>) \<and>
    (\<forall>a. a \<noteq> e \<longrightarrow> ptable_entry_equal tbl' a = ptable_entry_equal tbl a) \<and>
    ptable_header_get tbl' = ptable_header_get tbl \<and> entry_equal tbl' = entry_equal tbl \<and>
    priv_data tbl' = priv_data tbl \<and> timeout_entries tbl' = timeout_entries tbl \<and>
    timeout_num tbl' = timeout_num tbl + (if t = 0 then 0 else 1) \<and> entry_hash tbl' = entry_hash tbl \<and>
    entry_timeout_cb tbl' = entry_timeout_cb tbl \<and> entry_clean tbl' = entry_clean tbl \<and>
    ch_entry_pool_free ops (ep tbl) e = Inr (ep tbl')"
proof -
  let ?t = "tbl_entry_unlink e tbl"
  define t1 where "t1 = (if t \<noteq> 0 then ?t\<lparr>timeout_num := timeout_num ?t + 1\<rparr> else ?t)"
  have b: "buckets_ok tbl" using ok by (simp add: ptable_ok_def)
  have u: "ep ?t = ep tbl" "entry_timeout_cb ?t = entry_timeout_cb tbl" "entry_clean ?t = entry_clean tbl"
    "priv_data ?t = priv_data tbl" "heap ?t = heap tbl" "timeout_entries ?t = timeout_entries tbl"
    "tbl_mask ?t = tbl_mask tbl" "tbl_size ?t = tbl_size tbl" "entry_hash ?t = entry_hash tbl"
    "entry_equal ?t = entry_equal tbl" "timeout_num ?t = timeout_num tbl"
    by (simp_all add: tbl_entry_unlink_def Let_def)
  obtain epool where p: "ch_entry_pool_free ops (ep tbl) e = Inr epool" "ep_ok epool" "ep_live epool = ep_live (ep tbl) - {e}"
    using ep.put_ok [of "ep tbl" e ops] b e by (auto simp: buckets_ok_def)
  let ?d = "pdata (heap tbl e)"
  obtain d1 w1 where w1: "(if t \<noteq> 0 then (case entry_timeout_cb tbl of None \<Rightarrow> Inr (?d, w)
      | Some cb \<Rightarrow> cb ?d t (priv_data tbl) w) else Inr (?d, w)) = Inr (d1, w1)"
    and w2: "(case entry_clean tbl of None \<Rightarrow> Inr (d1, w1) | Some cl \<Rightarrow> cl d1 (priv_data tbl) w1) = Inr (d', w')"
    using cb unfolding run_callbacks_def bind_res_eq_Inr by auto
  let ?t2 = "t1\<lparr>ep := epool, heap := (heap tbl)(e := (heap tbl e)\<lparr>pdata := d'\<rparr>)\<rparr>"
  have t1: "ep t1 = ep tbl" "entry_timeout_cb t1 = entry_timeout_cb tbl" "entry_clean t1 = entry_clean tbl"
    "priv_data t1 = priv_data tbl" "heap t1 = heap tbl" by (simp_all add: t1_def u)
  have ev: "tbl_entry_free ops tbl w e t = Inr (?t2, w')"
    unfolding tbl_entry_free_def Let_def t1_def [symmetric] unfolding t1 u w1 bind_res_simps prod.case w2 p(1) ..
  have ents: "entries ?t2 = map (list_del e) (entries tbl)" using unlink_ok(4) [OF ok] by (simp add: t1_def)
  have mem: "members ?t2 = members tbl - {e}" using unlink_ok(3) [OF ok, of e] by (simp add: t1_def members_def)
  have "caches_ok ?t2" using unlink_ok(1) [OF ok, of e] by (simp add: t1_def caches_ok_def members_def)
  moreover have "buckets_ok ?t2"
    using b p(2,3) mem unlink_ok(2) [OF ok, of e] unfolding buckets_ok_def ents by (auto simp: t1_def u unlink_ok(4) [OF ok])
  ultimately have "ptable_ok ?t2" by (simp add: ptable_ok_def)
  moreover have "\<forall>a. a \<noteq> e \<longrightarrow> ptable_entry_equal ?t2 a = ptable_entry_equal tbl a"
      "ptable_header_get ?t2 = ptable_header_get tbl"
    by (simp_all add: t1_def u ptable_entry_equal_def ptable_header_get_def fun_eq_iff)
  ultimately show ?thesis using ev mem ents p(1)
    by (intro exI [of _ ?t2]) (simp add: t1_def u)
qed

lemma entry_free_ok:
  assumes ok: "ptable_ok tbl" and e: "e \<in> members tbl" and cb: "callbacks_total tbl"
  shows "\<exists>tbl' w'. tbl_entry_free ops tbl w e t = Inr (tbl', w') \<and> ptable_ok tbl' \<and> members tbl' = members tbl - {e} \<and>
    entries tbl' = map (list_del e) (entries tbl) \<and> callbacks_total tbl' \<and>
    (\<forall>a. a \<noteq> e \<longrightarrow> ptable_entry_equal tbl' a = ptable_entry_equal tbl a) \<and>
    ptable_header_get tbl' = ptable_header_get tbl \<and>
    priv_data tbl' = priv_data tbl \<and> timeout_entries tbl' = timeout_entries tbl \<and>
    ch_entry_pool_free ops (ep tbl) e = Inr (ep tbl')"
proof -
  obtain d' w' where "run_callbacks tbl (pdata (heap tbl e)) t w = Inr (d', w')" using callbacks_total_run [OF cb] by blast
  from entry_free_step [OF ok e this, of ops] cb show ?thesis by (auto simp: callbacks_total_def)
qed

lemma keyed_free:
  assumes "keyed tbl" "ptable_ok tbl" "entries tbl' = map (list_del e) (entries tbl)"
    "\<And>a. a \<noteq> e \<Longrightarrow> ptable_entry_equal tbl' a = ptable_entry_equal tbl a"
    "ptable_header_get tbl' = ptable_header_get tbl" "priv_data tbl' = priv_data tbl"
  shows "keyed tbl'"
  unfolding keyed_def assms(5,6)
proof (intro allI impI ballI)
  fix i a key
  assume i: "i < length (entries tbl')" "a \<in> set (entries tbl' ! i)" and eq: "ptable_entry_equal tbl' a key"
  have len: "i < length (entries tbl)" using i(1) assms(3) by simp
  have "distinct (entries tbl ! i)"
    using assms(2) len by (auto simp: ptable_ok_def buckets_ok_def distinct_concat_iff)
  then have "a \<noteq> e" "a \<in> set (entries tbl ! i)" using i(2) len assms(3) by auto
  then show "ptable_header_get tbl key (priv_data tbl) = i"
    using assms(1,4) len eq by (simp add: keyed_def)
qed

section \<open>Timeouts\<close>

lemma timeout_loop_ok:
  assumes "ptable_ok tbl" "keyed tbl" "callbacks_total tbl" "distinct es" "set es \<subseteq> members tbl"
  shows "\<exists>tbl' w'. timeout_free_loop ops tbl w c es = Inr (c + of_nat (length es), tbl', w') \<and> ptable_ok tbl' \<and> keyed tbl' \<and>
    members tbl' = members tbl - set es \<and>
    timeout_entries tbl' = (if es = [] then timeout_entries tbl else [])"
  using assms
proof (induction es arbitrary: tbl w c)
  case (Cons e es)
  let ?t = "tbl\<lparr>timeout_entries := es\<rparr>"
  have t: "ptable_ok ?t" "callbacks_total ?t" "members ?t = members tbl" "heap ?t = heap tbl" "entries ?t = entries tbl"
    "ptable_entry_equal ?t = ptable_entry_equal tbl" "ptable_header_get ?t = ptable_header_get tbl" "priv_data ?t = priv_data tbl"
    using Cons.prems(1,3)
    by (auto simp: ptable_ok_def buckets_ok_def caches_ok_def members_def callbacks_total_def ptable_entry_equal_def
        ptable_header_get_def fun_eq_iff)
  define d where "d = (if tv (heap tbl e) \<le> 0 then 1 else tv (heap tbl e))"
  obtain tbl1 w1 where f: "tbl_entry_free ops ?t w e d = Inr (tbl1, w1)" "ptable_ok tbl1" "members tbl1 = members tbl - {e}"
    "entries tbl1 = map (list_del e) (entries tbl)" "callbacks_total tbl1"
    "\<And>a. a \<noteq> e \<Longrightarrow> ptable_entry_equal tbl1 a = ptable_entry_equal tbl a" "ptable_header_get tbl1 = ptable_header_get tbl"
    "priv_data tbl1 = priv_data tbl" "timeout_entries tbl1 = es"
    using entry_free_ok [OF t(1) _ t(2), of e ops w d] Cons.prems(5) t by auto
  have "keyed tbl1" using keyed_free [OF Cons.prems(2,1) f(4,6,7,8)] .
  moreover have "distinct es" "set es \<subseteq> members tbl1" using Cons.prems(4,5) f(3) by auto
  ultimately obtain tbl' w' where "timeout_free_loop ops tbl1 w1 (c + 1) es = Inr (c + 1 + of_nat (length es), tbl', w')"
    "ptable_ok tbl'" "keyed tbl'" "members tbl' = members tbl1 - set es"
    "timeout_entries tbl' = (if es = [] then timeout_entries tbl1 else [])"
    using Cons.IH [OF f(2) _ f(5), of w1 "c + 1"] by blast
  moreover have "timeout_free_loop ops tbl w c (e # es) = timeout_free_loop ops tbl1 w1 (c + 1) es"
    using f(1) by (cases "tv (heap tbl e) = 0") (auto simp: Let_def d_def)
  ultimately show ?case using f(3,9) by (intro exI [of _ tbl'] exI [of _ w']) auto
qed simp

text \<open>Entries that were not used for longer than the timeout.\<close>

definition timed_out :: "('k, 'd, 'pd, 'w, 'mp) ch_ptable \<Rightarrow> u64 \<Rightarrow> addr \<Rightarrow> bool" where
  "timed_out tbl cur_time e \<longleftrightarrow> cur_time - last_time (heap tbl e) > entry_timeout tbl"

lemma entry_is_timeout_iff: "entry_is_timeout tbl e cur_time \<noteq> 0 \<longleftrightarrow> timed_out tbl cur_time e"
  by (auto simp: entry_is_timeout_def timed_out_def Let_def)

definition ring_step :: "('k, 'd, 'pd, 'w, 'mp) ch_ptable \<Rightarrow> ('k, 'd, 'pd, 'w, 'mp) ch_ptable \<Rightarrow> bool" where
  "ring_step tbl tbl' \<longleftrightarrow> (\<exists>h r. tbl' = tbl\<lparr>heap := h, timeout_entries := r\<rparr> \<and>
     (\<forall>e. last_time (h e) = last_time (heap tbl e) \<and> pdata (h e) = pdata (heap tbl e)))"

lemma ring_step_refl: "ring_step tbl tbl"
  unfolding ring_step_def by (rule exI [of _ "heap tbl"], rule exI [of _ "timeout_entries tbl"]) simp

lemma ring_step_trans:
  assumes "ring_step a b" "ring_step b c"
  shows "ring_step a c"
proof -
  obtain h r where "b = a\<lparr>heap := h, timeout_entries := r\<rparr>"
    "\<forall>e. last_time (h e) = last_time (heap a e) \<and> pdata (h e) = pdata (heap a e)"
    using assms(1) unfolding ring_step_def by blast
  moreover obtain h2 r2 where "c = b\<lparr>heap := h2, timeout_entries := r2\<rparr>"
    "\<forall>e. last_time (h2 e) = last_time (heap b e) \<and> pdata (h2 e) = pdata (heap b e)"
    using assms(2) unfolding ring_step_def by blast
  ultimately show ?thesis unfolding ring_step_def by (intro exI [of _ h2] exI [of _ r2]) simp
qed

lemma ring_step_facts:
  assumes "ring_step tbl tbl'"
  shows "timed_out tbl' = timed_out tbl" "ptable_ok tbl' = ptable_ok tbl" "keyed tbl' = keyed tbl"
    "members tbl' = members tbl" "callbacks_total tbl' = callbacks_total tbl" "ring_size tbl' = ring_size tbl"
proof -
  obtain h r where t: "tbl' = tbl\<lparr>heap := h, timeout_entries := r\<rparr>"
    and h: "\<And>e. last_time (h e) = last_time (heap tbl e)" "\<And>e. pdata (h e) = pdata (heap tbl e)"
    using assms unfolding ring_step_def by blast
  show "timed_out tbl' = timed_out tbl" by (simp add: t h timed_out_def fun_eq_iff)
  show m: "members tbl' = members tbl" by (simp add: t members_def)
  show "callbacks_total tbl' = callbacks_total tbl" "ring_size tbl' = ring_size tbl"
    by (simp_all add: t callbacks_total_def)
  show "ptable_ok tbl' = ptable_ok tbl" unfolding ptable_ok_def buckets_ok_def caches_ok_def m by (simp add: t)
  have "same_table tbl tbl'" by (simp add: same_table_def t h)
  then show "keyed tbl' = keyed tbl" by (rule same_table_facts(4))
qed

lemma watch_bucket_ok:
  assumes "length (timeout_entries tbl) + length (filter (timed_out tbl cur_time) es) < unat (ring_size tbl)"
  shows "ring_step tbl (watch_bucket cur_time es tbl) \<and>
    timeout_entries (watch_bucket cur_time es tbl) = timeout_entries tbl @ filter (timed_out tbl cur_time) es"
  using assms
proof (induction es arbitrary: tbl)
  case Nil
  then show ?case by (simp add: ring_step_refl)
next
  case (Cons e es)
  show ?case
  proof (cases "timed_out tbl cur_time e")
    case False
    then show ?thesis using Cons entry_is_timeout_iff [of tbl e cur_time] by (simp add: Let_def)
  next
    case True
    let ?t = "tbl\<lparr>heap := (heap tbl)(e := (heap tbl e)\<lparr>tv := entry_is_timeout tbl e cur_time\<rparr>),
      timeout_entries := timeout_entries tbl @ [e]\<rparr>"
    have st: "ring_step tbl ?t"
      unfolding ring_step_def by (intro exI conjI, rule refl) auto
    note rs = ring_step_facts [OF st]
    have "ring_step ?t (watch_bucket cur_time es ?t) \<and>
        timeout_entries (watch_bucket cur_time es ?t) = timeout_entries ?t @ filter (timed_out ?t cur_time) es"
      using Cons.prems True by (intro Cons.IH) (simp add: rs)
    moreover have "watch_bucket cur_time (e # es) tbl = watch_bucket cur_time es ?t"
      using True Cons.prems entry_is_timeout_iff [of tbl e cur_time] by (simp add: Let_def timeout_ring_full_def)
    ultimately show ?thesis using ring_step_trans [OF st] True by (simp add: rs(1))
  qed
qed

lemma watch_fold_ok:
  assumes "length (timeout_entries tbl) + length (filter (timed_out tbl cur_time) (concat bs)) < unat (ring_size tbl)"
  shows "ring_step tbl (fold (watch_bucket cur_time) bs tbl) \<and>
    timeout_entries (fold (watch_bucket cur_time) bs tbl) = timeout_entries tbl @ filter (timed_out tbl cur_time) (concat bs)"
  using assms
proof (induction bs arbitrary: tbl)
  case Nil
  then show ?case by (simp add: ring_step_refl)
next
  case (Cons b bs)
  let ?t = "watch_bucket cur_time b tbl"
  have w: "ring_step tbl ?t" "timeout_entries ?t = timeout_entries tbl @ filter (timed_out tbl cur_time) b"
    using watch_bucket_ok [of tbl cur_time b] Cons.prems by auto
  note rs = ring_step_facts [OF w(1)]
  have "ring_step ?t (fold (watch_bucket cur_time) bs ?t) \<and>
      timeout_entries (fold (watch_bucket cur_time) bs ?t) = timeout_entries ?t @ filter (timed_out ?t cur_time) (concat bs)"
    using Cons.prems by (intro Cons.IH) (simp add: rs w(2))
  then show ?case using ring_step_trans [OF w(1)] by (simp add: w(2) rs(1))
qed

section \<open>Properties\<close>

text \<open>
  C3. \<^verbatim>\<open>ch_ptable_entry_find\<close> is complete and sound whatever \<^verbatim>\<open>last_entry\<close> and the list of
  recently used entries hold: on a well-formed table it never faults, returns an entry of the
  table that equals the key if there is one and \<^verbatim>\<open>NULL\<close> only if there is none; the entry
  found becomes \<^verbatim>\<open>last_entry\<close> with a new time, the table keeps its entries and stays
  well-formed, and the list of recently used entries never exceeds its limit.
\<close>

theorem ch_ptable_entry_find_correct:
  assumes "ptable_ok tbl" "keyed tbl"
  shows "\<exists>r tbl'. ch_ptable_entry_find now tbl key = Inr (r, tbl') \<and> ptable_ok tbl' \<and> keyed tbl' \<and>
    entries tbl' = entries tbl \<and> length (caches tbl') \<le> unat (n_caches_limits tbl') \<and>
    (case r of
       None \<Rightarrow> \<forall>e\<in>members tbl. \<not> ptable_entry_equal tbl e key
     | Some e \<Rightarrow> e \<in> members tbl \<and> ptable_entry_equal tbl e key \<and> last_entry tbl' = Some e \<and>
         last_time (heap tbl' e) = now)"
proof -
  obtain r tbl' where f: "ch_ptable_entry_find now tbl key = Inr (r, tbl')" "ptable_ok tbl'" "same_table tbl tbl'"
    "case r of None \<Rightarrow> \<forall>e\<in>members tbl. \<not> ptable_entry_equal tbl e key
     | Some e \<Rightarrow> e \<in> members tbl \<and> ptable_entry_equal tbl e key \<and> last_entry tbl' = Some e \<and> last_time (heap tbl' e) = now"
    using entry_find_ok [OF assms, of now key] by blast
  moreover have "keyed tbl'" "entries tbl' = entries tbl" "length (caches tbl') \<le> unat (n_caches_limits tbl')"
    using same_table_facts(4) [OF f(3)] assms(2) f(2,3) by (auto simp: same_table_def ptable_ok_def caches_ok_def)
  ultimately show ?thesis by blast
qed

text \<open>
  Any sequence of finds answers like the table without caches: the answer to each key is
  a member that equals it, or \<^verbatim>\<open>NULL\<close> when there is none, independent of the finds before.
\<close>

theorem ch_ptable_find_sequence:
  assumes "ptable_ok tbl" "keyed tbl"
    "\<forall>key. \<forall>a\<in>members tbl. \<forall>b\<in>members tbl. ptable_entry_equal tbl a key \<and> ptable_entry_equal tbl b key \<longrightarrow> a = b"
  shows "\<exists>rs tbl'. pt.find_seq tbl qs = Inr (rs, tbl') \<and> length rs = length qs \<and>
    (\<forall>i<length qs. \<forall>e. rs ! i = Some e \<longleftrightarrow> e \<in> members tbl \<and> ptable_entry_equal tbl e (snd (qs ! i)))"
proof -
  obtain rs tbl' where f: "pt.find_seq tbl qs = Inr (rs, tbl')" "list_all2 (\<lambda>(now, key) r. pt.lookup tbl key r) qs rs"
    using pt.find_seq_ok [of tbl qs] assms(1,2) by blast
  have len: "length rs = length qs" using f(2) by (simp add: list_all2_lengthD)
  have lk: "pt.lookup tbl (snd (qs ! i)) (rs ! i)" if "i < length qs" for i
    using list_all2_nthD [OF f(2) that] by (simp add: case_prod_beta)
  have "rs ! i = Some e \<longleftrightarrow> e \<in> members tbl \<and> ptable_entry_equal tbl e (snd (qs ! i))" if "i < length qs" for i e
    using lk [OF that] assms(3) by (cases "rs ! i") (auto simp: pt.lookup_def)
  then show ?thesis using f(1) len by blast
qed

text \<open>
  Insert and lookup: when a key has no entry, an entry is created for it and the client
  stores data in it that equals the key and only keys of the same bucket, then the table stays
  well-formed, a find of the key returns the new entry, and the entries of all other keys are
  found as before; when the pool has no entry left, the failure is counted and nothing changes.
\<close>

theorem ch_ptable_create_find:
  assumes "ptable_ok tbl" "keyed tbl" "ep_fresh mem (ep tbl)" "\<forall>e\<in>members tbl. \<not> ptable_entry_equal tbl e key"
    "entry_equal tbl d key (priv_data tbl)"
    "\<forall>k. entry_equal tbl d k (priv_data tbl) \<longrightarrow>
       ptable_header_get tbl k (priv_data tbl) = ptable_header_get tbl key (priv_data tbl)"
  shows "\<exists>r tbl1. ch_ptable_entry_create ops mem now tbl key = Inr (r, tbl1) \<and> (r = None \<longleftrightarrow> ep_exhausted mem (ep tbl)) \<and>
    (case r of
       None \<Rightarrow> ptable_ok tbl1 \<and> entries tbl1 = entries tbl \<and> fail_num tbl1 = fail_num tbl + 1
     | Some e \<Rightarrow> e \<notin> members tbl \<and> ptable_ok (entry_store e d tbl1) \<and> keyed (entry_store e d tbl1) \<and>
         members (entry_store e d tbl1) = insert e (members tbl) \<and>
         (\<forall>a\<in>members tbl. \<forall>k. ptable_entry_equal (entry_store e d tbl1) a k = ptable_entry_equal tbl a k) \<and>
         (\<exists>tbl2. ch_ptable_entry_find now2 (entry_store e d tbl1) key = Inr (Some e, tbl2)))"
proof -
  obtain r tbl1 where c: "ch_ptable_entry_create_with_data ops mem now tbl key (priv_data tbl) = Inr (r, tbl1)" "ptable_ok tbl1"
    "priv_data tbl1 = priv_data tbl" "entry_hash tbl1 = entry_hash tbl" "entry_equal tbl1 = entry_equal tbl"
    "tbl_mask tbl1 = tbl_mask tbl" "\<forall>a. pdata (heap tbl1 a) = pdata (heap tbl a)"
    "case r of None \<Rightarrow> entries tbl1 = entries tbl \<and> fail_num tbl1 = fail_num tbl + 1
     | Some e \<Rightarrow> e \<notin> members tbl \<and> last_entry tbl1 = Some e \<and> entries tbl1 = (entries tbl)[ptable_header_get tbl key (priv_data tbl) :=
         e # (entries tbl ! ptable_header_get tbl key (priv_data tbl))]"
    "r = None \<longleftrightarrow> ep_exhausted mem (ep tbl)"
    using entry_create_ok [OF assms(1,3), of ops now key "priv_data tbl"] by blast
  show ?thesis
  proof (cases r)
    case None
    then show ?thesis using c(1,2,8,9) by (auto simp: ch_ptable_entry_create_def)
  next
    case (Some e)
    let ?t = "entry_store e d tbl1"
    have e: "e \<notin> members tbl" "entries tbl1 = (entries tbl)[ptable_header_get tbl key (priv_data tbl) :=
         e # (entries tbl ! ptable_header_get tbl key (priv_data tbl))]" using c(8) Some by auto
    have k: "keyed ?t" using keyed_create_store [OF assms(1,2) e c(3-7) assms(6)] .
    have "ptable_header_get tbl key (priv_data tbl) < length (entries tbl)"
      using header_get_less [of tbl key "priv_data tbl"] assms(1) by (simp add: ptable_ok_def)
    then obtain ys zs where "concat (entries tbl) = ys @ zs" "concat (entries tbl1) = ys @ e # zs"
      using concat_update e(2) by metis
    then have m: "members ?t = insert e (members tbl)" unfolding entry_store_simps by (auto simp: members_def)
    have eq: "ptable_entry_equal ?t a k = ptable_entry_equal tbl a k" if "a \<in> members tbl" for a k
    proof -
      have "a \<noteq> e" using that e(1) by blast
      then show ?thesis using c(3,5,7) unfolding entry_store_simps by (simp add: ptable_entry_equal_def)
    qed
    have eqe: "ptable_entry_equal ?t e key" using assms(5) c(3,5) by simp
    obtain r2 tbl2 where f: "ch_ptable_entry_find now2 ?t key = Inr (r2, tbl2)"
      "case r2 of None \<Rightarrow> \<forall>a\<in>members ?t. \<not> ptable_entry_equal ?t a key
       | Some a \<Rightarrow> a \<in> members ?t \<and> ptable_entry_equal ?t a key \<and> last_entry tbl2 = Some a \<and> last_time (heap tbl2 a) = now2"
      using entry_find_ok [of ?t now2 key] c(2) k by auto
    have "r2 = Some e"
      using f(2) m eqe eq assms(4) by (cases r2) auto
    then show ?thesis using c(1,2,9) Some e(1) k m eq f(1)
      by (intro exI [of _ r] exI [of _ tbl1]) (simp add: ch_ptable_entry_create_def)
  qed
qed

text \<open>
  C30. A sweep for timeouts removes exactly the idle entries: when the watch task visits a table
  with an empty ring that can take them all, and \<^verbatim>\<open>ch_ptable_entries_timeout_free\<close> then empties
  the ring, the entries left are those used within the timeout, each freed entry went back to
  the pool once, and the table stays well-formed.
\<close>

theorem ptable_timeout_sweep:
  assumes "ptable_ok tbl" "keyed tbl" "callbacks_total tbl" "timeout_entries tbl = []"
    "length (filter (timed_out tbl cur_time) (concat (entries tbl))) < unat (ring_size tbl)"
  shows "\<exists>n tbl' w'. ch_ptable_entries_timeout_free ops (ptable_watch_visit cur_time tbl) w = Inr (n, tbl', w') \<and>
    ptable_ok tbl' \<and> keyed tbl' \<and> timeout_entries tbl' = [] \<and>
    members tbl' = {e \<in> members tbl. \<not> timed_out tbl cur_time e} \<and>
    n = of_nat (length (filter (timed_out tbl cur_time) (concat (entries tbl))))"
proof -
  let ?t = "ptable_watch_visit cur_time tbl" and ?q = "filter (timed_out tbl cur_time) (concat (entries tbl))"
  have w: "ring_step tbl ?t" "timeout_entries ?t = ?q"
    using watch_fold_ok [of tbl cur_time "entries tbl"] assms(4,5) by (auto simp: ptable_watch_visit_def watch_ptable_def)
  note rs = ring_step_facts [OF w(1)]
  have "distinct ?q" "set ?q \<subseteq> members ?t"
    unfolding rs using assms(1) by (auto simp: ptable_ok_def buckets_ok_def members_def)
  then obtain tbl' w' where l: "timeout_free_loop ops ?t w 0 ?q = Inr (0 + of_nat (length ?q), tbl', w')" "ptable_ok tbl'" "keyed tbl'"
    "members tbl' = members ?t - set ?q" "timeout_entries tbl' = (if ?q = [] then timeout_entries ?t else [])"
    using timeout_loop_ok [of ?t ?q ops w 0] assms(1-3) by (auto simp: rs)
  have "members tbl' = {e \<in> members tbl. \<not> timed_out tbl cur_time e}" unfolding l(4) rs by (auto simp: members_def)
  moreover have "timeout_entries tbl' = []" using l(5) w(2) by auto
  ultimately show ?thesis using l(1-3) w(2) unfolding ch_ptable_entries_timeout_free_def by (simp only:) simp
qed

text \<open>
  An entry that the watch task has put into the timeout ring and that the table's thread
  frees (a closed session) before it empties the ring is freed a second time from the ring:
  \<^verbatim>\<open>ch_ptable_entry_free\<close> does not take it out of the ring.
\<close>

theorem ptable_free_then_timeout:
  assumes "ptable_ok tbl" "callbacks_total tbl" "timeout_entries tbl = [e]" "e \<in> members tbl"
  shows "\<exists>tbl1 w1. ch_ptable_entry_free ops tbl w e = Inr (tbl1, w1) \<and> ptable_ok tbl1 \<and>
    ch_ptable_entries_timeout_free ops tbl1 w1 = Inl Double_Free"
proof -
  obtain tbl1 w1 where f: "tbl_entry_free ops tbl w e 0 = Inr (tbl1, w1)" "ptable_ok tbl1" "callbacks_total tbl1"
    "timeout_entries tbl1 = [e]" "ch_entry_pool_free ops (ep tbl) e = Inr (ep tbl1)"
    using entry_free_ok [OF assms(1,4,2), of ops w 0] assms(3) by auto
  have twice: "ch_entry_pool_free ops (ep tbl1) e = Inl Double_Free"
    using ep.put_twice [OF _ _ f(5)] assms(1,4) by (auto simp: ptable_ok_def buckets_ok_def)
  let ?t = "tbl1\<lparr>timeout_entries := []\<rparr>"
  have cb: "callbacks_total ?t" using f(3) by (simp add: callbacks_total_def)
  have "tbl_entry_free ops ?t w1 e d = Inl Double_Free" for d
    using cb twice by (auto simp: tbl_entry_free_def Let_def tbl_entry_unlink_def callbacks_total_def bind_res_eq_Inl split: option.splits)
  then have "timeout_free_loop ops tbl1 w1 0 [e] = Inl Double_Free" by (simp add: Let_def)
  then show ?thesis using f(1,2,4) by (auto simp: ch_ptable_entry_free_def ch_ptable_entries_timeout_free_def)
qed

section \<open>Witnesses\<close>

text \<open>A table of two buckets with one entry, whose keys are natural numbers.\<close>

definition sample_ops :: "unit rte_mempool_ops" where
  "sample_ops = \<lparr>rte_mempool_create = (\<lambda>_ _ _. None), rte_mempool_get = (\<lambda>m. (None, m)), rte_mempool_put = (\<lambda>m _. m)\<rparr>"

definition sample_tbl :: "(nat, nat, unit, unit, unit) ch_ptable" where
  "sample_tbl = \<lparr>ep = \<lparr>ep_mp = SYS_MP sample_pool_used, entry_size = 40000, n_entries_limit = 10\<rparr>,
     timeout_entries = [], ring_size = 8, last_entry = Some 4120, entry_timeout = 60, tbl_size = 2, tbl_mask = 1,
     n_caches = 1, n_caches_limits = 3, last_clean_time = 0, priv_data = (), entry_hash = (\<lambda>k _. of_nat k),
     entry_equal = (\<lambda>d k _. d = k), entry_clean = None, entry_timeout_cb = None,
     hits_num = 0, no_hits_num = 0, fail_num = 0, timeout_num = 0,
     caches = [4120], entries = [[], [4120]],
     heap = (\<lambda>_. \<lparr>last_time = 10, tv = 0, pdata = 7\<rparr>)\<rparr>"

lemma sample_pool_used_ok: "pool_ok sample_pool_used" "live sample_pool_used = {4120}"
  using op.client_inv [OF sample_pool_client] by auto

lemma sample_members: "members sample_tbl = {4120}"
  by (simp add: members_def sample_tbl_def)

lemma sample_tbl_ok: "ptable_ok sample_tbl" "keyed sample_tbl" "callbacks_total sample_tbl"
proof -
  have ep: "ep_ok (ep sample_tbl)" "ep_live (ep sample_tbl) = {4120}"
    using sample_pool_used_ok by (auto simp: ep_ok_def ep_live_def sample_tbl_def)
  have "buckets_ok sample_tbl" unfolding buckets_ok_def sample_members ep(2) using ep(1) by (simp add: sample_tbl_def)
  moreover have "caches_ok sample_tbl" unfolding caches_ok_def sample_members by (simp add: sample_tbl_def)
  ultimately show "ptable_ok sample_tbl" by (simp add: ptable_ok_def)
  show "keyed sample_tbl"
    by (auto simp: keyed_def sample_tbl_def ptable_entry_equal_def ptable_header_get_def less_Suc_eq numeral_2_eq_2)
  show "callbacks_total sample_tbl" by (simp add: callbacks_total_def sample_tbl_def)
qed

theorem ch_ptable_entry_find_correct_witness:
  "\<exists>r tbl'. ch_ptable_entry_find 20 sample_tbl 7 = Inr (r, tbl') \<and> r = Some 4120 \<and> last_time (heap tbl' 4120) = 20"
proof -
  have "ptable_entry_equal sample_tbl 4120 7" by (simp add: ptable_entry_equal_def sample_tbl_def)
  then show ?thesis
    using ch_ptable_entry_find_correct [OF sample_tbl_ok(1,2), of 20 7] by (auto simp: sample_members split: option.splits)
qed

theorem ch_ptable_find_sequence_witness:
  "\<exists>rs tbl'. pt.find_seq sample_tbl [(20, 7), (21, 8)] = Inr (rs, tbl') \<and> rs ! 0 = Some 4120 \<and> rs ! 1 = None"
proof -
  have eq: "ptable_entry_equal sample_tbl a k \<longleftrightarrow> k = 7" for a k by (auto simp: ptable_entry_equal_def sample_tbl_def)
  obtain rs tbl' where f: "pt.find_seq sample_tbl [(20, 7), (21, 8)] = Inr (rs, tbl')" "length rs = 2"
    "\<forall>i<2. \<forall>e. rs ! i = Some e \<longleftrightarrow> e = 4120 \<and> snd ([(20 :: u64, 7 :: nat), (21, 8)] ! i) = 7"
    using ch_ptable_find_sequence [OF sample_tbl_ok(1,2), of "[(20, 7), (21, 8)]"] by (auto simp: sample_members eq)
  have "rs ! 0 = Some 4120" using f(3) by simp
  moreover have "rs ! 1 = None" using f(3) by (cases "rs ! 1") auto
  ultimately show ?thesis using f(1) by blast
qed

theorem ch_ptable_create_find_witness:
  "\<exists>r tbl1. ch_ptable_entry_create sample_ops (Some 100000) 20 sample_tbl 8 = Inr (r, tbl1) \<and>
    (case r of None \<Rightarrow> True
     | Some e \<Rightarrow> e \<noteq> 4120 \<and> (\<exists>tbl2. ch_ptable_entry_find 21 (entry_store e 8 tbl1) 8 = Inr (Some e, tbl2)))"
proof -
  have fr: "ep_fresh (Some 100000) (ep sample_tbl)"
    by (simp add: ep_fresh_def sample_tbl_def fresh_mem_def sample_pool_used_def blocks_apart_def)
  have h: "\<forall>e\<in>members sample_tbl. \<not> ptable_entry_equal sample_tbl e 8" "entry_equal sample_tbl 8 8 (priv_data sample_tbl)"
    "\<forall>k. entry_equal sample_tbl 8 k (priv_data sample_tbl) \<longrightarrow>
       ptable_header_get sample_tbl k (priv_data sample_tbl) = ptable_header_get sample_tbl 8 (priv_data sample_tbl)"
    by (auto simp: ptable_entry_equal_def sample_tbl_def)
  obtain r tbl1 where c: "ch_ptable_entry_create sample_ops (Some 100000) 20 sample_tbl 8 = Inr (r, tbl1)"
    "case r of None \<Rightarrow> ptable_ok tbl1 \<and> entries tbl1 = entries sample_tbl \<and> fail_num tbl1 = fail_num sample_tbl + 1
     | Some e \<Rightarrow> e \<notin> members sample_tbl \<and> ptable_ok (entry_store e 8 tbl1) \<and> keyed (entry_store e 8 tbl1) \<and>
         members (entry_store e 8 tbl1) = insert e (members sample_tbl) \<and>
         (\<forall>a\<in>members sample_tbl. \<forall>k. ptable_entry_equal (entry_store e 8 tbl1) a k = ptable_entry_equal sample_tbl a k) \<and>
         (\<exists>tbl2. ch_ptable_entry_find 21 (entry_store e 8 tbl1) 8 = Inr (Some e, tbl2))"
    using ch_ptable_create_find [OF sample_tbl_ok(1,2) fr h, of sample_ops 20 21] by blast
  then show ?thesis by (intro exI [of _ r] exI [of _ tbl1]) (auto simp: sample_members split: option.splits)
qed

theorem ptable_timeout_sweep_witness:
  "\<exists>n tbl' w'. ch_ptable_entries_timeout_free sample_ops (ptable_watch_visit 100 sample_tbl) () = Inr (n, tbl', w') \<and>
     members tbl' = {} \<and> n = 1"
proof -
  have t: "timed_out sample_tbl 100 = (\<lambda>_. True)" by (simp add: timed_out_def sample_tbl_def fun_eq_iff)
  have "timeout_entries sample_tbl = []" "length (filter (timed_out sample_tbl 100) (concat (entries sample_tbl))) < unat (ring_size sample_tbl)"
    unfolding t by (simp_all add: sample_tbl_def)
  from ptable_timeout_sweep [OF sample_tbl_ok this, of sample_ops "()"] show ?thesis
    unfolding t by (auto simp: sample_tbl_def)
qed

theorem ptable_free_then_timeout_witness:
  "\<exists>tbl1 w1. ch_ptable_entry_free sample_ops (sample_tbl\<lparr>timeout_entries := [4120]\<rparr>) () 4120 = Inr (tbl1, w1) \<and> ptable_ok tbl1 \<and>
    ch_ptable_entries_timeout_free sample_ops tbl1 w1 = Inl Double_Free"
proof -
  let ?t = "sample_tbl\<lparr>timeout_entries := [4120]\<rparr>"
  have "ring_step sample_tbl ?t" unfolding ring_step_def
    by (intro exI [of _ "heap sample_tbl"] exI [of _ "[4120]"]) simp
  note rs = ring_step_facts [OF this]
  show ?thesis
    by (rule ptable_free_then_timeout) (use rs sample_tbl_ok sample_members in simp_all)
qed

end
