(* ===== verification/Flow.thy ===== *)
theory Flow
  imports Ptable
begin

text \<open>
  Hash tables whose keys are packets of a flow: what the tables of sessions and of requests need
  of their hash and of their comparison, stated once for TCP and UDP, and what finding and creating
  entries leave as it was.
\<close>

section \<open>What finding and creating leave\<close>

text \<open>The timeout ring and the callbacks, which only the watch task and the creation set.\<close>

definition settings :: "('k, 'd, 'pd, 'w, 'mp) ch_ptable \<Rightarrow>
  addr list \<times> ('d \<Rightarrow> 'pd \<Rightarrow> 'w \<Rightarrow> ('d \<times> 'w) res) option \<times> ('d \<Rightarrow> u64 \<Rightarrow> 'pd \<Rightarrow> 'w \<Rightarrow> ('d \<times> 'w) res) option"
where
  "settings tbl = (timeout_entries tbl, entry_clean tbl, entry_timeout_cb tbl)"

lemma caches_insert_settings: "ptable_caches_insert tbl e = Inr tbl' \<Longrightarrow> settings tbl' = settings tbl"
  by (auto simp: settings_def ptable_caches_insert_def bind_res_eq_Inr split: if_splits)

lemma from_caches_settings: "ptable_entry_find_from_caches tbl k = (r, tbl') \<Longrightarrow> settings tbl' = settings tbl"
  by (auto simp: settings_def ptable_entry_find_from_caches_def Let_def split: option.splits if_splits)

lemma bucket_find_settings: "ptable_entry_find tbl k = Inr (r, tbl') \<Longrightarrow> settings tbl' = settings tbl"
  by (auto simp: settings_def ptable_entry_find_def bind_res_eq_Inr dest: caches_insert_settings [unfolded settings_def] split: option.splits)

lemma find_keeps_settings:
  assumes "ch_ptable_entry_find tm tbl k = Inr (r, tbl')"
  shows "settings tbl' = settings tbl"
proof -
  obtain r1 t1 where 1: "(case last_entry tbl of
        Some e \<Rightarrow> if ptable_entry_equal tbl e k then (Some e, tbl\<lparr>hits_num := hits_num tbl + 1\<rparr>) else (None, tbl)
      | None \<Rightarrow> (None, tbl)) = (r1, t1)" by fastforce
  then have t1: "settings t1 = settings tbl" by (auto simp: settings_def split: option.splits if_splits)
  obtain r2 t2 where 2: "(case r1 of None \<Rightarrow> ptable_entry_find_from_caches t1 k | Some e \<Rightarrow> (Some e, t1)) = (r2, t2)" by fastforce
  then have t2: "settings t2 = settings tbl" using t1 by (auto dest: from_caches_settings split: option.splits)
  obtain r3 t3 where 3: "(case r2 of None \<Rightarrow> ptable_entry_find t2 k | Some e \<Rightarrow> Inr (Some e, t2)) = Inr (r3, t3)"
    "tbl' = (case r3 of None \<Rightarrow> t3 | Some e \<Rightarrow> entry_last_time_update tm e t3)"
    using assms unfolding ch_ptable_entry_find_def Let_def 1 2 prod.case bind_res_eq_Inr by (auto split: option.splits)
  have "settings t3 = settings tbl" using 3(1) t2 by (auto dest: bucket_find_settings split: option.splits)
  then show ?thesis using 3(2) by (auto simp: settings_def entry_last_time_update_def split: option.splits)
qed

lemma entry_init_settings: "ptable_entry_init tm tbl e k pd = Inr tbl' \<Longrightarrow> settings tbl' = settings tbl"
  unfolding ptable_entry_init_def Let_def
  by (drule caches_insert_settings) (simp add: settings_def ptable_insert_def entry_last_time_update_def Let_def)

lemma create_keeps_settings: "ch_ptable_entry_create ops mem tm tbl k = Inr (r, tbl') \<Longrightarrow> settings tbl' = settings tbl"
  by (auto simp: settings_def ch_ptable_entry_create_def ch_ptable_entry_create_with_data_def bind_res_eq_Inr
      dest!: entry_init_settings [unfolded settings_def] split: option.splits)

lemma find_keeps_ring: "ch_ptable_entry_find tm tbl k = Inr (r, tbl') \<Longrightarrow> timeout_entries tbl' = timeout_entries tbl"
  using find_keeps_settings [of tm tbl k r tbl'] by (simp add: settings_def)

lemma create_keeps_ring: "ch_ptable_entry_create ops mem tm tbl k = Inr (r, tbl') \<Longrightarrow> timeout_entries tbl' = timeout_entries tbl"
  using create_keeps_settings [of ops mem tm tbl k r tbl'] by (simp add: settings_def)

lemma empty_ring: "timeout_entries tbl = [] \<Longrightarrow> ch_ptable_entries_timeout_free ops tbl w = Inr (0, tbl, w)"
  by (simp add: ch_ptable_entries_timeout_free_def)

lemma keyed_store:
  assumes "keyed tbl" "\<forall>k. entry_equal tbl d k (priv_data tbl) = ptable_entry_equal tbl e k"
  shows "keyed (entry_store e d tbl)"
  using assms by (auto simp: keyed_def)

lemma entry_store_heap:
  "heap (entry_store e d tbl) a = (if a = e then (heap tbl e)\<lparr>pdata := d\<rparr> else heap tbl a)"
  "entry_store e d2 (entry_store e d1 tbl) = entry_store e d2 tbl"
  "entry_store e (pdata (heap tbl e)) tbl = tbl"
  by (simp_all add: entry_store_def)

lemma entry_store_fields:
  "ep (entry_store e d tbl) = ep tbl" "entry_clean (entry_store e d tbl) = entry_clean tbl"
  "timeout_entries (entry_store e d tbl) = timeout_entries tbl" "entry_equal (entry_store e d tbl) = entry_equal tbl"
  "entry_hash (entry_store e d tbl) = entry_hash tbl" "entry_timeout_cb (entry_store e d tbl) = entry_timeout_cb tbl"
  by (simp_all add: entry_store_def)

section \<open>Keys of flows\<close>

text \<open>
  What a table of flows needs of its callbacks: an entry equals all packets of a flow or none,
  all packets of one family that it equals are of one flow, and a flow has one hash.
\<close>

locale flow_keys =
  fixes same :: "'k \<Rightarrow> 'k \<Rightarrow> bool"
    and v6 :: "'k \<Rightarrow> bool"
    and hash :: "'k \<Rightarrow> unit \<Rightarrow> size_t"
    and equal :: "'d \<Rightarrow> 'k \<Rightarrow> unit \<Rightarrow> bool"
    and v4 :: "'d \<Rightarrow> bool"
  assumes hash_flow: "same p1 p2 \<Longrightarrow> hash p1 pd = hash p2 pd"
    and equal_flow: "same p1 p2 \<Longrightarrow> equal d p1 pd = equal d p2 pd"
    and one_flow: "equal d p1 pd \<Longrightarrow> equal d p2 pd \<Longrightarrow> v6 p1 = v6 p2 \<Longrightarrow> same p1 p2"
    and v4_only: "v4 d \<Longrightarrow> equal d p pd \<Longrightarrow> \<not> v6 p"
begin

lemma one_hash: "equal d p1 pd \<Longrightarrow> equal d p2 pd \<Longrightarrow> v6 p1 = v6 p2 \<Longrightarrow> hash p1 pd = hash p2 pd"
  using one_flow hash_flow by blast

lemma bucket_of:
  fixes tbl :: "('k, 'd, unit, 'w, 'mp) ch_ptable"
  assumes "entry_hash tbl = hash" "entry_equal tbl = equal" "v4 d" "equal d p ()"
  shows "\<forall>k. entry_equal tbl d k (priv_data tbl) \<longrightarrow>
    ptable_header_get tbl k (priv_data tbl) = ptable_header_get tbl p (priv_data tbl)"
proof (intro allI impI)
  fix k
  assume "entry_equal tbl d k (priv_data tbl)"
  then have k: "equal d k ()" using assms(2) by simp
  then have "hash k () = hash p ()" using one_hash [OF k assms(4)] v4_only [OF assms(3)] assms(4) by blast
  then show "ptable_header_get tbl k (priv_data tbl) = ptable_header_get tbl p (priv_data tbl)"
    using assms(1) by (simp add: ptable_header_get_def)
qed

lemma create_keyed:
  fixes tbl :: "('k, 'd, unit, 'w, 'mp) ch_ptable"
  assumes tbl: "ptable_ok tbl" "keyed tbl" "ep_fresh mem (ep tbl)" "entry_hash tbl = hash" "entry_equal tbl = equal"
    and d: "v4 d" "equal d p ()"
  shows "\<exists>r tbl1. ch_ptable_entry_create ops mem tm tbl p = Inr (r, tbl1) \<and> entry_hash tbl1 = hash \<and> entry_equal tbl1 = equal \<and>
    (\<forall>a. pdata (heap tbl1 a) = pdata (heap tbl a)) \<and> (r = None \<longleftrightarrow> ep_exhausted mem (ep tbl)) \<and>
    (case r of
       None \<Rightarrow> ptable_ok tbl1 \<and> keyed tbl1 \<and> entries tbl1 = entries tbl
     | Some e \<Rightarrow> e \<notin> members tbl \<and> ptable_ok (entry_store e d tbl1) \<and> keyed (entry_store e d tbl1) \<and>
         members tbl1 = insert e (members tbl))"
proof -
  let ?h = "ptable_header_get tbl p (priv_data tbl)"
  obtain r tbl1 where c: "ch_ptable_entry_create_with_data ops mem tm tbl p (priv_data tbl) = Inr (r, tbl1)" "ptable_ok tbl1"
    "priv_data tbl1 = priv_data tbl" "entry_hash tbl1 = entry_hash tbl" "entry_equal tbl1 = entry_equal tbl"
    "tbl_mask tbl1 = tbl_mask tbl" "\<forall>a. pdata (heap tbl1 a) = pdata (heap tbl a)"
    "case r of None \<Rightarrow> entries tbl1 = entries tbl \<and> fail_num tbl1 = fail_num tbl + 1
     | Some e \<Rightarrow> e \<notin> members tbl \<and> last_entry tbl1 = Some e \<and> entries tbl1 = (entries tbl)[?h := e # (entries tbl ! ?h)]"
    "r = None \<longleftrightarrow> ep_exhausted mem (ep tbl)"
    using entry_create_ok [OF tbl(1,3), of ops tm p "priv_data tbl"] by blast
  show ?thesis
  proof (cases r)
    case None
    moreover have "keyed tbl1" if "entries tbl1 = entries tbl"
      using tbl(2) c(3-7) that by (simp add: keyed_def ptable_entry_equal_def ptable_header_get_def)
    ultimately show ?thesis using c tbl(4,5) by (simp add: ch_ptable_entry_create_def)
  next
    case (Some e)
    have e: "e \<notin> members tbl" "entries tbl1 = (entries tbl)[?h := e # (entries tbl ! ?h)]" using c(8) Some by auto
    have h: "?h < length (entries tbl)" by (rule header_get_less) (use tbl(1) in \<open>simp add: ptable_ok_def\<close>)
    obtain ys zs where sp: "concat (entries tbl) = ys @ zs" "concat (entries tbl1) = ys @ e # zs"
      using concat_update [OF h, of e] unfolding e(2) by blast
    have "members tbl1 = insert e (members tbl)" unfolding members_def sp by simp
    moreover have "keyed (entry_store e d tbl1)"
      using keyed_create_store [OF tbl(1,2) e(1,2) c(3-7) bucket_of [OF tbl(4,5) d]] .
    ultimately show ?thesis using c e tbl(4,5) Some by (simp add: ch_ptable_entry_create_def)
  qed
qed

lemma find_flow:
  fixes tbl :: "('k, 'd, unit, 'w, 'mp) ch_ptable"
  assumes tbl: "ptable_ok tbl" "keyed tbl" "entry_equal tbl = equal"
    and e: "e \<in> members tbl" "equal (pdata (heap tbl e)) p ()" "same p p'"
    and other: "\<forall>a\<in>members tbl. a \<noteq> e \<longrightarrow> \<not> equal (pdata (heap tbl a)) p ()"
  shows "\<exists>tbl'. ch_ptable_entry_find tm tbl p' = Inr (Some e, tbl') \<and> ptable_ok tbl' \<and> same_table tbl tbl'"
proof -
  obtain r tbl' where r: "ch_ptable_entry_find tm tbl p' = Inr (r, tbl')" "ptable_ok tbl'" "same_table tbl tbl'"
    "case r of None \<Rightarrow> \<forall>e\<in>members tbl. \<not> ptable_entry_equal tbl e p'
     | Some e \<Rightarrow> e \<in> members tbl \<and> ptable_entry_equal tbl e p' \<and> last_entry tbl' = Some e \<and> last_time (heap tbl' e) = tm"
    using entry_find_ok [OF tbl(1,2), of tm p'] by blast
  have eq: "ptable_entry_equal tbl a p' = equal (pdata (heap tbl a)) p ()" for a
    using tbl(3) equal_flow [OF e(3)] by (simp add: ptable_entry_equal_def)
  have "r = Some e" using r(4) e other by (cases r) (auto simp: eq)
  then show ?thesis using r by blast
qed

end

end
