(* ===== verification/Tcp_Session.thy ===== *)
theory Tcp_Session
  imports Assemble Packet Flow
begin

text \<open>
  TCP sessions and the requests they grow from: \<^verbatim>\<open>tcp/session/ch_tcp_session_endpoint.c\<close>,
  \<^verbatim>\<open>ch_tcp_session.c\<close>, the interface of the applications \<^verbatim>\<open>ch_tcp_app_pool.c\<close>, and the two
  tables \<^verbatim>\<open>ch_tcp_session_pool.c\<close> and \<^verbatim>\<open>ch_tcp_session_request_pool.c\<close>, which are hash tables
  of \<open>Ptable\<close> keyed by packets. An application is a record of functions on a state \<open>'a\<close> that
  stands for its own state, the session store and the memory pool agent. Shown here: which
  endpoint a packet belongs to, and that all packets of a session, in both directions, hash to
  the bucket the session is in, which is what the tables need.
\<close>

section \<open>Endpoints\<close>

text \<open>A TCP packet with its payload: the bytes from \<^verbatim>\<open>pdata\<close> on, and the packet's time.\<close>

record tcp_pkt = ch_packet_tcp +
  tp_data :: "bytes option"
  tp_timestamp :: u64

definition tcp_pkt_of :: "ch_packet \<Rightarrow> ch_packet_tcp \<Rightarrow> tcp_pkt" where
  "tcp_pkt_of pkt t = ch_packet_tcp.extend t
     (tcp_pkt.fields (map_option (\<lambda>off. drop off (pkt_data pkt)) (pdata_off t)) (timestamp pkt))"

record ch_tcp_session_endpoint =
  as_frag :: frag_ring
  ep_time :: u64
  last_offset :: u32
  last_ack :: u32
  init_seq :: u32
  ep_ip :: u32
  ep_port :: u16
  ep_addr :: bytes
  ep_is_ipv6 :: bool

definition ch_tcp_session_endpoint_offset_get :: "ch_tcp_session_endpoint \<Rightarrow> u32 \<Rightarrow> u32" where
  "ch_tcp_session_endpoint_offset_get q seq = seq - init_seq q"

text \<open>The IPv4 initialisation leaves the IPv6 address of the object as it was.\<close>

definition ch_tcp_session_endpoint_init ::
  "ch_tcp_session_endpoint \<Rightarrow> u32 \<Rightarrow> u16 \<Rightarrow> u32 \<Rightarrow> u64 \<Rightarrow> ch_tcp_session_endpoint"
where
  "ch_tcp_session_endpoint_init q ip port iseq time =
     q\<lparr>as_frag := ch_assemble_fragment_init, last_offset := 0, last_ack := 0, init_seq := iseq, ep_ip := ip,
        ep_port := port, ep_is_ipv6 := False, ep_time := time\<rparr>"

definition ch_tcp_session_endpoint_init_ipv6 ::
  "ch_tcp_session_endpoint \<Rightarrow> bytes \<Rightarrow> u16 \<Rightarrow> u32 \<Rightarrow> u64 \<Rightarrow> ch_tcp_session_endpoint"
where
  "ch_tcp_session_endpoint_init_ipv6 q addr port iseq time =
     q\<lparr>as_frag := ch_assemble_fragment_init, last_offset := 0, last_ack := 0, init_seq := iseq, ep_ip := 0,
        ep_port := port, ep_addr := addr, ep_is_ipv6 := True, ep_time := time\<rparr>"

definition ch_tcp_session_endpoint_fin ::
  "mem_env \<Rightarrow> ch_memory \<Rightarrow> ch_tcp_session_endpoint \<Rightarrow> (ch_memory \<times> ch_tcp_session_endpoint) res"
where
  "ch_tcp_session_endpoint_fin env mm q =
     bind_res (ch_assemble_fragment_fin env mm (as_frag q)) (\<lambda>(mm, frs). Inr (mm, q\<lparr>as_frag := frs\<rparr>))"

definition ch_tcp_session_endpoint_do ::
  "mem_env \<Rightarrow> ch_memory \<Rightarrow> ch_tcp_session_endpoint \<Rightarrow> bytes option \<Rightarrow> u32 \<Rightarrow> u32 \<Rightarrow>
   (int \<times> ch_memory \<times> ch_tcp_session_endpoint) res"
where
  "ch_tcp_session_endpoint_do env mm q d n off =
     bind_res (ch_assemble_fragment_push env mm (as_frag q) d n off) (\<lambda>(rc, mm, frs). Inr (rc, mm, q\<lparr>as_frag := frs\<rparr>))"

section \<open>Sessions and requests\<close>

datatype session_state = SESSION_STATE_INIT | SESSION_STATE_DATA | SESSION_STATE_FIN | SESSION_STATE_RST

datatype four_way = FOUR_WAY_INIT | FOUR_WAY_FIN1 | FOUR_WAY_FIN1_ACK | FOUR_WAY_FIN2 | FOUR_WAY_FIN2_ACK

text \<open>A pointer to one of the two endpoints of a session.\<close>

datatype ep_side = EP_REQ | EP_RES

record ch_tcp_session =
  endpoint_req :: ch_tcp_session_endpoint
  endpoint_res :: ch_tcp_session_endpoint
  s_app :: "nat option"
  sentry :: "addr option"
  cur_ep :: "ep_side option"
  session_id :: u64
  fin1_seq :: u32
  fin2_seq :: u32
  s_state :: session_state
  need_end :: bool
  four_way_state :: four_way

datatype three_way = THREE_WAY_INIT | THREE_WAY_SYN | THREE_WAY_SYN_ACK | THREE_WAY_ACK_ACK

record ch_tcp_session_request =
  req_sn_init :: u32
  res_sn_init :: u32
  r_is_ipv6 :: bool
  req_ip :: u32
  r_src_addr :: bytes
  req_port :: u16
  res_ip :: u32
  r_dst_addr :: bytes
  res_port :: u16
  three_way_state :: three_way

fun get_ep :: "ch_tcp_session \<Rightarrow> ep_side \<Rightarrow> ch_tcp_session_endpoint" where
  "get_ep s EP_REQ = endpoint_req s"
| "get_ep s EP_RES = endpoint_res s"

fun set_ep :: "ch_tcp_session \<Rightarrow> ep_side \<Rightarrow> ch_tcp_session_endpoint \<Rightarrow> ch_tcp_session" where
  "set_ep s EP_REQ q = s\<lparr>endpoint_req := q\<rparr>"
| "set_ep s EP_RES q = s\<lparr>endpoint_res := q\<rparr>"

definition ch_tcp_session_init ::
  "ch_tcp_session \<Rightarrow> ch_tcp_session_request \<Rightarrow> nat option \<Rightarrow> addr option \<Rightarrow> u64 \<Rightarrow> ch_tcp_session"
where
  "ch_tcp_session_init s sreq app sent time =
     (let s = (if r_is_ipv6 sreq then
            s\<lparr>endpoint_req := ch_tcp_session_endpoint_init_ipv6 (endpoint_req s) (r_src_addr sreq) (req_port sreq) (req_sn_init sreq) time,
              endpoint_res := ch_tcp_session_endpoint_init_ipv6 (endpoint_res s) (r_dst_addr sreq) (res_port sreq) (res_sn_init sreq) time\<rparr>
          else
            s\<lparr>endpoint_req := ch_tcp_session_endpoint_init (endpoint_req s) (req_ip sreq) (req_port sreq) (req_sn_init sreq) time,
              endpoint_res := ch_tcp_session_endpoint_init (endpoint_res s) (res_ip sreq) (res_port sreq) (res_sn_init sreq) time\<rparr>)
      in s\<lparr>s_state := SESSION_STATE_INIT, need_end := False, fin1_seq := 0, fin2_seq := 0,
           four_way_state := FOUR_WAY_INIT, cur_ep := None, s_app := app, sentry := sent\<rparr>)"

definition ch_tcp_session_fin ::
  "mem_env \<Rightarrow> ch_memory \<Rightarrow> ch_tcp_session \<Rightarrow> (ch_memory \<times> ch_tcp_session) res"
where
  "ch_tcp_session_fin env mm s =
     bind_res (ch_tcp_session_endpoint_fin env mm (endpoint_req s)) (\<lambda>(mm, req).
     bind_res (ch_tcp_session_endpoint_fin env mm (endpoint_res s)) (\<lambda>(mm, res).
       Inr (mm, s\<lparr>endpoint_req := req, endpoint_res := res\<rparr>)))"

definition endpoint_is_request ::
  "ch_tcp_session_endpoint \<Rightarrow> ch_tcp_session_endpoint \<Rightarrow> tcp_pkt \<Rightarrow> bool"
where
  "endpoint_is_request req res p =
     (if t_is_ipv6 p then
        ep_is_ipv6 req \<and> ep_addr req = t_src_addr p \<and> ep_port req = t_src_port p \<and>
        ep_is_ipv6 res \<and> ep_addr res = t_dst_addr p \<and> ep_port res = t_dst_port p
      else
        ep_ip req = t_src_ip p \<and> ep_port req = t_src_port p \<and> ep_ip res = t_dst_ip p \<and> ep_port res = t_dst_port p)"

definition endpoint_is_response ::
  "ch_tcp_session_endpoint \<Rightarrow> ch_tcp_session_endpoint \<Rightarrow> tcp_pkt \<Rightarrow> bool"
where
  "endpoint_is_response req res p =
     (if t_is_ipv6 p then
        ep_is_ipv6 req \<and> ep_addr req = t_dst_addr p \<and> ep_port req = t_dst_port p \<and>
        ep_is_ipv6 res \<and> ep_addr res = t_src_addr p \<and> ep_port res = t_src_port p
      else
        ep_ip req = t_dst_ip p \<and> ep_port req = t_dst_port p \<and> ep_ip res = t_src_ip p \<and> ep_port res = t_src_port p)"

definition ch_tcp_session_endpoint_get :: "ch_tcp_session \<Rightarrow> tcp_pkt \<Rightarrow> ep_side option" where
  "ch_tcp_session_endpoint_get s p =
     (if endpoint_is_request (endpoint_req s) (endpoint_res s) p then Some EP_REQ
      else if endpoint_is_response (endpoint_req s) (endpoint_res s) p then Some EP_RES
      else None)"

definition ch_tcp_session_pair_endpoint_get :: "ch_tcp_session \<Rightarrow> tcp_pkt \<Rightarrow> ep_side option" where
  "ch_tcp_session_pair_endpoint_get s p =
     (case ch_tcp_session_endpoint_get s p of
        None \<Rightarrow> None
      | Some side \<Rightarrow> Some (if side = EP_REQ then EP_RES else EP_REQ))"

section \<open>Applications\<close>

definition PARSE_DONE :: int where "PARSE_DONE = 0"
definition PARSE_CONTINUE :: int where "PARSE_CONTINUE = 1"
definition PARSE_BREAK :: int where "PARSE_BREAK = 2"

text \<open>Applications are known by their index in the pool.\<close>

record 'a ch_tcp_app =
  protocol_id :: u32
  find_by_port :: "(tcp_pkt \<Rightarrow> 'a \<Rightarrow> nat option \<times> 'a) option"
  find_by_content :: "(tcp_pkt \<Rightarrow> bytes \<Rightarrow> 'a \<Rightarrow> nat option \<times> 'a) option"
  proto_session_entry_create :: "('a \<Rightarrow> addr option \<times> 'a) option"
  proto_session_entry_clean :: "(ch_tcp_session \<Rightarrow> 'a \<Rightarrow> 'a) option"
  request_content_parse :: "(ch_tcp_session \<Rightarrow> bytes \<Rightarrow> 'a \<Rightarrow> int \<times> 'a) option"
  response_content_parse :: "(ch_tcp_session \<Rightarrow> bytes \<Rightarrow> 'a \<Rightarrow> int \<times> 'a) option"

definition ch_tcp_app_register :: "'a ch_tcp_app list \<Rightarrow> 'a ch_tcp_app \<Rightarrow> 'a ch_tcp_app list" where
  "ch_tcp_app_register apps app = apps @ [app]"

fun ch_tcp_app_find_by_port :: "'a ch_tcp_app list \<Rightarrow> tcp_pkt \<Rightarrow> 'a \<Rightarrow> nat option \<times> 'a" where
  "ch_tcp_app_find_by_port [] p a = (None, a)"
| "ch_tcp_app_find_by_port (app # apps) p a =
     (case find_by_port app of
        None \<Rightarrow> ch_tcp_app_find_by_port apps p a
      | Some f \<Rightarrow> (case f p a of
            (Some i, a) \<Rightarrow> (Some i, a)
          | (None, a) \<Rightarrow> ch_tcp_app_find_by_port apps p a))"

fun ch_tcp_app_find_by_content :: "'a ch_tcp_app list \<Rightarrow> tcp_pkt \<Rightarrow> bytes \<Rightarrow> 'a \<Rightarrow> nat option \<times> 'a" where
  "ch_tcp_app_find_by_content [] p d a = (None, a)"
| "ch_tcp_app_find_by_content (app # apps) p d a =
     (case find_by_content app of
        None \<Rightarrow> ch_tcp_app_find_by_content apps p d a
      | Some f \<Rightarrow> (case f p d a of
            (Some i, a) \<Rightarrow> (Some i, a)
          | (None, a) \<Rightarrow> ch_tcp_app_find_by_content apps p d a))"

definition get_app :: "'a ch_tcp_app list \<Rightarrow> nat option \<Rightarrow> 'a ch_tcp_app option" where
  "get_app apps i = (case i of None \<Rightarrow> None | Some i \<Rightarrow> if i < length apps then Some (apps ! i) else None)"

definition ch_tcp_app_request_content_parse ::
  "'a ch_tcp_app list \<Rightarrow> ch_tcp_session \<Rightarrow> bytes \<Rightarrow> 'a \<Rightarrow> int \<times> 'a"
where
  "ch_tcp_app_request_content_parse apps s d a =
     (case get_app apps (s_app s) of
        None \<Rightarrow> (PARSE_BREAK, a)
      | Some app \<Rightarrow> (case request_content_parse app of
            None \<Rightarrow> (PARSE_BREAK, a)
          | Some f \<Rightarrow> if sentry s = None then (PARSE_BREAK, a) else f s d a))"

definition ch_tcp_app_response_content_parse ::
  "'a ch_tcp_app list \<Rightarrow> ch_tcp_session \<Rightarrow> bytes \<Rightarrow> 'a \<Rightarrow> int \<times> 'a"
where
  "ch_tcp_app_response_content_parse apps s d a =
     (case get_app apps (s_app s) of
        None \<Rightarrow> (PARSE_BREAK, a)
      | Some app \<Rightarrow> (case response_content_parse app of
            None \<Rightarrow> (PARSE_BREAK, a)
          | Some f \<Rightarrow> if sentry s = None then (PARSE_BREAK, a) else f s d a))"

definition ch_tcp_app_session_entry_create :: "'a ch_tcp_app list \<Rightarrow> nat option \<Rightarrow> 'a \<Rightarrow> addr option \<times> 'a" where
  "ch_tcp_app_session_entry_create apps i a =
     (case get_app apps i of
        None \<Rightarrow> (None, a)
      | Some app \<Rightarrow> (case proto_session_entry_create app of None \<Rightarrow> (None, a) | Some f \<Rightarrow> f a))"

definition ch_tcp_app_session_entry_clean ::
  "'a ch_tcp_app list \<Rightarrow> ch_tcp_session \<Rightarrow> 'a \<Rightarrow> ch_tcp_session \<times> 'a"
where
  "ch_tcp_app_session_entry_clean apps s a =
     (if sentry s = None then (s, a)
      else
        let a = (case get_app apps (s_app s) of
              None \<Rightarrow> a
            | Some app \<Rightarrow> (case proto_session_entry_clean app of None \<Rightarrow> a | Some f \<Rightarrow> f s a))
        in (s\<lparr>sentry := None\<rparr>, a))"

section \<open>The table of sessions\<close>

definition ipv6_hash :: "bytes \<Rightarrow> bytes \<Rightarrow> u32" where
  "ipv6_hash s d = (le32 s 0 XOR le32 d 0) XOR (le32 s 4 XOR le32 d 4) XOR (le32 s 8 XOR le32 d 8) XOR (le32 s 12 XOR le32 d 12)"

definition tcp_session_entry_hash :: "tcp_pkt \<Rightarrow> 'pd \<Rightarrow> size_t" where
  "tcp_session_entry_hash p pd =
     (if t_is_ipv6 p then
        ucast (ch_jhash_3words_sort (ipv6_hash (t_src_addr p) (t_dst_addr p)) (ucast (t_src_port p)) (ucast (t_dst_port p)) 0)
      else ucast (ch_jhash_4words_sort (t_src_ip p) (t_dst_ip p) (ucast (t_src_port p)) (ucast (t_dst_port p)) 0))"

text \<open>\<^verbatim>\<open>_is_request\<close> and \<^verbatim>\<open>_is_response\<close> of the pool test what those of the session test.\<close>

definition tcp_session_entry_equal :: "ch_tcp_session \<Rightarrow> tcp_pkt \<Rightarrow> 'pd \<Rightarrow> bool" where
  "tcp_session_entry_equal s p pd \<longleftrightarrow>
     endpoint_is_request (endpoint_req s) (endpoint_res s) p \<or> endpoint_is_response (endpoint_req s) (endpoint_res s) p"

text \<open>The state the callbacks of the session table work on.\<close>

record 'a tcp_world =
  w_mm :: ch_memory
  w_env :: mem_env
  w_app :: 'a

definition tcp_session_entry_clean :: "ch_tcp_session \<Rightarrow> 'pd \<Rightarrow> 'a tcp_world \<Rightarrow> (ch_tcp_session \<times> 'a tcp_world) res" where
  "tcp_session_entry_clean s pd w =
     bind_res (ch_tcp_session_fin (w_env w) (w_mm w) s) (\<lambda>(mm, s). Inr (s, w\<lparr>w_mm := mm\<rparr>))"

record ch_tcp_context =
  tcp_session_pool_type :: pool_type
  tcp_session_limits :: size_t
  tcp_session_tbl_size :: size_t
  tcp_session_timeout :: u64
  tcp_session_cache_limits :: size_t
  tcp_session_request_pool_type :: pool_type
  tcp_session_request_limits :: size_t
  tcp_session_request_tbl_size :: size_t
  tcp_session_request_timeout :: u64
  tcp_session_request_cache_limits :: size_t
  ptable_ring_size :: size_t
  mm_max_cache_size :: size_t
  mm_timeout :: u64

text \<open>
  The pool's table holds its private data \<open>()\<close>; \<^verbatim>\<open>sizeof(ch_tcp_session_t)\<close> is the argument
  \<open>sz\<close>, the outcomes of the pool allocations are \<open>allocated\<close>, \<open>tbl_allocated\<close>, \<open>ring_created\<close>.
\<close>

definition ch_tcp_session_pool_create ::
  "'mp rte_mempool_ops \<Rightarrow> mem_env \<Rightarrow> ch_tcp_context \<Rightarrow> size_t \<Rightarrow> size_t \<Rightarrow>
   (ch_tcp_session \<Rightarrow> u64 \<Rightarrow> unit \<Rightarrow> 'a tcp_world \<Rightarrow> (ch_tcp_session \<times> 'a tcp_world) res) option \<Rightarrow>
   bool \<Rightarrow> bool \<Rightarrow> bool \<Rightarrow> u64 \<Rightarrow> (addr \<Rightarrow> ch_tcp_session ptable_entry) \<Rightarrow>
   ((tcp_pkt, ch_tcp_session, unit, 'a tcp_world, 'mp) ch_ptable \<times> ch_memory) option"
where
  "ch_tcp_session_pool_create ops env ctx sz psize tcb allocated tbl_allocated ring_created tm mem =
     (if \<not> allocated then None
      else case ch_ptable_create ops (tcp_session_pool_type ctx) sz psize (tcp_session_limits ctx) (tcp_session_tbl_size ctx)
             (tcp_session_timeout ctx) (tcp_session_cache_limits ctx) tbl_allocated ring_created (ptable_ring_size ctx) ()
             tcp_session_entry_hash tcp_session_entry_equal (Some tcp_session_entry_clean) tcb tm mem of
          None \<Rightarrow> None
        | Some tbl \<Rightarrow> Some (tbl, ch_memory_create env (mm_max_cache_size ctx) (mm_timeout ctx)))"

definition ch_tcp_session_pool_entry_create ::
  "'mp rte_mempool_ops \<Rightarrow> addr option \<Rightarrow> u64 \<Rightarrow> (tcp_pkt, ch_tcp_session, unit, 'a tcp_world, 'mp) ch_ptable \<Rightarrow>
   ch_tcp_session_request \<Rightarrow> nat option \<Rightarrow> addr option \<Rightarrow> tcp_pkt \<Rightarrow>
   (addr option \<times> (tcp_pkt, ch_tcp_session, unit, 'a tcp_world, 'mp) ch_ptable) res"
where
  "ch_tcp_session_pool_entry_create ops mem tm tbl sreq app sent p =
     bind_res (ch_ptable_entry_create ops mem tm tbl p) (\<lambda>(r, tbl).
       case r of
         None \<Rightarrow> Inr (None, tbl)
       | Some e \<Rightarrow> Inr (Some e, entry_store e
           (ch_tcp_session_init (pdata (heap tbl e)) sreq app sent (tp_timestamp p)) tbl))"

definition ch_tcp_session_pool_entry_find ::
  "u64 \<Rightarrow> (tcp_pkt, ch_tcp_session, unit, 'a tcp_world, 'mp) ch_ptable \<Rightarrow> tcp_pkt \<Rightarrow>
   (addr option \<times> (tcp_pkt, ch_tcp_session, unit, 'a tcp_world, 'mp) ch_ptable) res"
where
  "ch_tcp_session_pool_entry_find tm tbl p = ch_ptable_entry_find tm tbl p"

definition ch_tcp_session_pool_entry_free ::
  "'mp rte_mempool_ops \<Rightarrow> (tcp_pkt, ch_tcp_session, unit, 'a tcp_world, 'mp) ch_ptable \<Rightarrow> 'a tcp_world \<Rightarrow> addr \<Rightarrow>
   ((tcp_pkt, ch_tcp_session, unit, 'a tcp_world, 'mp) ch_ptable \<times> 'a tcp_world) res"
where
  "ch_tcp_session_pool_entry_free ops tbl w e = ch_ptable_entry_free ops tbl w e"

section \<open>The table of requests\<close>

definition session_request_entry_hash :: "tcp_pkt \<Rightarrow> 'pd \<Rightarrow> size_t" where
  "session_request_entry_hash p pd =
     (if t_is_ipv6 p then
        ucast (ch_jhash_3words_sort (ipv6_hash (t_src_addr p) (t_dst_addr p)) (ucast (t_src_port p)) (ucast (t_dst_port p)) 0)
      else ucast (ch_jhash_4words_sort (t_src_ip p) (t_dst_ip p) (ucast (t_src_port p)) (ucast (t_dst_port p)) 0))"

definition is_request :: "ch_tcp_session_request \<Rightarrow> tcp_pkt \<Rightarrow> bool" where
  "is_request r p =
     (if t_is_ipv6 p then
        r_is_ipv6 r \<and> r_src_addr r = t_src_addr p \<and> req_port r = t_src_port p \<and> r_dst_addr r = t_dst_addr p \<and> res_port r = t_dst_port p
      else
        req_ip r = t_src_ip p \<and> req_port r = t_src_port p \<and> res_ip r = t_dst_ip p \<and> res_port r = t_dst_port p)"

definition is_response :: "ch_tcp_session_request \<Rightarrow> tcp_pkt \<Rightarrow> bool" where
  "is_response r p =
     (if t_is_ipv6 p then
        r_is_ipv6 r \<and> r_src_addr r = t_dst_addr p \<and> req_port r = t_dst_port p \<and> r_dst_addr r = t_src_addr p \<and> res_port r = t_src_port p
      else
        req_ip r = t_dst_ip p \<and> req_port r = t_dst_port p \<and> res_ip r = t_src_ip p \<and> res_port r = t_src_port p)"

definition session_request_entry_equal :: "ch_tcp_session_request \<Rightarrow> tcp_pkt \<Rightarrow> 'pd \<Rightarrow> bool" where
  "session_request_entry_equal r p pd \<longleftrightarrow> is_request r p \<or> is_response r p"

definition session_request_entry_clean :: "ch_tcp_session_request \<Rightarrow> 'pd \<Rightarrow> 'w \<Rightarrow> (ch_tcp_session_request \<times> 'w) res" where
  "session_request_entry_clean r pd w = Inr (r, w)"

definition ch_tcp_session_request_pool_create ::
  "'mp rte_mempool_ops \<Rightarrow> ch_tcp_context \<Rightarrow> size_t \<Rightarrow> size_t \<Rightarrow> bool \<Rightarrow> bool \<Rightarrow> bool \<Rightarrow> u64 \<Rightarrow>
   (addr \<Rightarrow> ch_tcp_session_request ptable_entry) \<Rightarrow>
   ((tcp_pkt, ch_tcp_session_request, unit, unit, 'mp) ch_ptable \<times> size_t) option"
where
  "ch_tcp_session_request_pool_create ops ctx sz psize allocated tbl_allocated ring_created tm mem =
     (if \<not> allocated then None
      else case ch_ptable_create ops (tcp_session_request_pool_type ctx) sz psize (tcp_session_request_limits ctx)
             (tcp_session_request_tbl_size ctx) (tcp_session_request_timeout ctx) (tcp_session_request_cache_limits ctx)
             tbl_allocated ring_created (ptable_ring_size ctx) ()
             session_request_entry_hash session_request_entry_equal (Some session_request_entry_clean) None tm mem of
          None \<Rightarrow> None
        | Some tbl \<Rightarrow> Some (tbl, 0))"

definition ch_tcp_session_request_create ::
  "'mp rte_mempool_ops \<Rightarrow> addr option \<Rightarrow> u64 \<Rightarrow> (tcp_pkt, ch_tcp_session_request, unit, unit, 'mp) ch_ptable \<Rightarrow> size_t \<Rightarrow>
   tcp_pkt \<Rightarrow> (addr option \<times> (tcp_pkt, ch_tcp_session_request, unit, unit, 'mp) ch_ptable \<times> size_t) res"
where
  "ch_tcp_session_request_create ops mem tm tbl n_requests p =
     bind_res (ch_ptable_entry_create ops mem tm tbl p) (\<lambda>(r, tbl).
       case r of
         None \<Rightarrow> Inr (None, tbl, n_requests)
       | Some e \<Rightarrow> Inr (Some e, entry_store e ((pdata (heap tbl e))\<lparr>r_is_ipv6 := t_is_ipv6 p, req_sn_init := 0,
           res_sn_init := 0, req_ip := 0, req_port := 0, res_ip := 0, res_port := 0,
           three_way_state := THREE_WAY_INIT\<rparr>) tbl, n_requests + 1))"

definition ch_tcp_session_request_free ::
  "'mp rte_mempool_ops \<Rightarrow> (tcp_pkt, ch_tcp_session_request, unit, unit, 'mp) ch_ptable \<Rightarrow> size_t \<Rightarrow> addr \<Rightarrow>
   ((tcp_pkt, ch_tcp_session_request, unit, unit, 'mp) ch_ptable \<times> size_t) res"
where
  "ch_tcp_session_request_free ops tbl n_requests e =
     bind_res (ch_ptable_entry_free ops tbl () e) (\<lambda>(tbl, _). Inr (tbl, n_requests - 1))"

definition ch_tcp_session_request_find ::
  "u64 \<Rightarrow> (tcp_pkt, ch_tcp_session_request, unit, unit, 'mp) ch_ptable \<Rightarrow> tcp_pkt \<Rightarrow>
   (addr option \<times> (tcp_pkt, ch_tcp_session_request, unit, unit, 'mp) ch_ptable) res"
where
  "ch_tcp_session_request_find tm tbl p = ch_ptable_entry_find tm tbl p"

section \<open>The packets of a flow\<close>

text \<open>Two packets of one flow, in the same or in opposite directions.\<close>

definition same_flow :: "tcp_pkt \<Rightarrow> tcp_pkt \<Rightarrow> bool" where
  "same_flow p1 p2 \<longleftrightarrow> t_is_ipv6 p1 = t_is_ipv6 p2 \<and>
     (if t_is_ipv6 p1 then
        t_src_addr p1 = t_src_addr p2 \<and> t_dst_addr p1 = t_dst_addr p2 \<and> t_src_port p1 = t_src_port p2 \<and> t_dst_port p1 = t_dst_port p2 \<or>
        t_src_addr p1 = t_dst_addr p2 \<and> t_dst_addr p1 = t_src_addr p2 \<and> t_src_port p1 = t_dst_port p2 \<and> t_dst_port p1 = t_src_port p2
      else
        t_src_ip p1 = t_src_ip p2 \<and> t_dst_ip p1 = t_dst_ip p2 \<and> t_src_port p1 = t_src_port p2 \<and> t_dst_port p1 = t_dst_port p2 \<or>
        t_src_ip p1 = t_dst_ip p2 \<and> t_dst_ip p1 = t_src_ip p2 \<and> t_src_port p1 = t_dst_port p2 \<and> t_dst_port p1 = t_src_port p2)"

lemma same_flow_refl: "same_flow p p"
  by (simp add: same_flow_def)

lemma ipv6_hash_swap: "ipv6_hash s d = ipv6_hash d s"
  by (simp add: ipv6_hash_def xor.commute)

definition session_v4 :: "ch_tcp_session \<Rightarrow> bool" where
  "session_v4 s \<longleftrightarrow> \<not> ep_is_ipv6 (endpoint_req s) \<and> \<not> ep_is_ipv6 (endpoint_res s)"

lemmas session_key_defs = tcp_session_entry_equal_def endpoint_is_request_def endpoint_is_response_def same_flow_def

lemmas request_key_defs = session_request_entry_equal_def is_request_def is_response_def same_flow_def

lemma flow_hash:
  assumes "same_flow p1 p2"
  shows "tcp_session_entry_hash p1 pd = tcp_session_entry_hash p2 pd"
    "session_request_entry_hash p1 pd = session_request_entry_hash p2 pd"
proof -
  have "ch_jhash_4words_sort a b c d 0 = ch_jhash_4words_sort b a d c 0" for a b c d
    by (rule ch_jhash_4words_sort_mset) simp
  then show "tcp_session_entry_hash p1 pd = tcp_session_entry_hash p2 pd"
    using assms ipv6_hash_swap [of "t_src_addr p1"] ch_jhash_3words_sort_swap
    by (auto simp: tcp_session_entry_hash_def same_flow_def split: if_splits)
  then show "session_request_entry_hash p1 pd = session_request_entry_hash p2 pd"
    by (simp add: tcp_session_entry_hash_def session_request_entry_hash_def)
qed

interpretation sk: flow_keys same_flow t_is_ipv6 tcp_session_entry_hash tcp_session_entry_equal session_v4
proof
  fix p1 p2 p :: tcp_pkt and d :: ch_tcp_session and pd :: unit
  show "same_flow p1 p2 \<Longrightarrow> tcp_session_entry_hash p1 pd = tcp_session_entry_hash p2 pd" by (rule flow_hash)
  show "same_flow p1 p2 \<Longrightarrow> tcp_session_entry_equal d p1 pd = tcp_session_entry_equal d p2 pd"
    by (auto simp: session_key_defs split: if_splits)
  show "tcp_session_entry_equal d p1 pd \<Longrightarrow> tcp_session_entry_equal d p2 pd \<Longrightarrow> t_is_ipv6 p1 = t_is_ipv6 p2 \<Longrightarrow> same_flow p1 p2"
    by (auto simp: session_key_defs split: if_splits)
  show "session_v4 d \<Longrightarrow> tcp_session_entry_equal d p pd \<Longrightarrow> \<not> t_is_ipv6 p"
    by (auto simp: session_key_defs session_v4_def)
qed

interpretation rk: flow_keys same_flow t_is_ipv6 session_request_entry_hash session_request_entry_equal "\<lambda>r. \<not> r_is_ipv6 r"
proof
  fix p1 p2 p :: tcp_pkt and d :: ch_tcp_session_request and pd :: unit
  show "same_flow p1 p2 \<Longrightarrow> session_request_entry_hash p1 pd = session_request_entry_hash p2 pd" by (rule flow_hash)
  show "same_flow p1 p2 \<Longrightarrow> session_request_entry_equal d p1 pd = session_request_entry_equal d p2 pd"
    by (auto simp: request_key_defs split: if_splits)
  show "session_request_entry_equal d p1 pd \<Longrightarrow> session_request_entry_equal d p2 pd \<Longrightarrow> t_is_ipv6 p1 = t_is_ipv6 p2 \<Longrightarrow> same_flow p1 p2"
    by (auto simp: request_key_defs split: if_splits)
  show "\<not> r_is_ipv6 d \<Longrightarrow> session_request_entry_equal d p pd \<Longrightarrow> \<not> t_is_ipv6 p"
    by (auto simp: request_key_defs)
qed

section \<open>Sessions that are well-formed\<close>

definition ep_wf :: "ch_tcp_session_endpoint \<Rightarrow> bool" where
  "ep_wf q \<longleftrightarrow> ring_ok (as_frag q)"

definition session_wf :: "ch_tcp_session \<Rightarrow> bool" where
  "session_wf s \<longleftrightarrow> ep_wf (endpoint_req s) \<and> ep_wf (endpoint_res s)"

lemma session_init_wf: "session_wf (ch_tcp_session_init s sreq app sent time)"
  by (simp add: session_wf_def ep_wf_def ch_tcp_session_init_def ch_tcp_session_endpoint_init_def
      ch_tcp_session_endpoint_init_ipv6_def ch_assemble_fragment_init_def ring_ok_def)

lemma session_fin_ok:
  assumes "memory_ok mm" "session_wf s"
  shows "\<exists>mm'. ch_tcp_session_fin env mm s = Inr (mm', s\<lparr>endpoint_req := (endpoint_req s)\<lparr>as_frag := []\<rparr>,
      endpoint_res := (endpoint_res s)\<lparr>as_frag := []\<rparr>\<rparr>) \<and> memory_ok mm' \<and>
    free_seq (ch_memory_free env) mm (map fblock (as_frag (endpoint_req s) @ as_frag (endpoint_res s))) = Inr mm'"
proof -
  obtain mm1 where "ch_assemble_fragment_fin env mm (as_frag (endpoint_req s)) = Inr (mm1, [])" "memory_ok mm1"
    using fin_ok [OF assms(1)] assms(2) by (auto simp: session_wf_def ep_wf_def)
  moreover obtain mm2 where "ch_assemble_fragment_fin env mm1 (as_frag (endpoint_res s)) = Inr (mm2, [])" "memory_ok mm2"
    using fin_ok [OF \<open>memory_ok mm1\<close>] assms(2) by (auto simp: session_wf_def ep_wf_def)
  ultimately show ?thesis
    by (simp add: ch_tcp_session_fin_def ch_tcp_session_endpoint_fin_def free_seq_append) (simp add: fin_eq bind_res_eq_Inr)
qed

lemma session_init_equal:
  assumes "\<not> t_is_ipv6 p" "\<not> r_is_ipv6 sreq"
  shows "tcp_session_entry_equal (ch_tcp_session_init s sreq app sent time) p pd = session_request_entry_equal sreq p pd"
    "session_v4 (ch_tcp_session_init s sreq app sent time)"
  using assms by (auto simp: session_key_defs request_key_defs ch_tcp_session_init_def ch_tcp_session_endpoint_init_def session_v4_def)

section \<open>Properties\<close>

text \<open>
  C6. A session created from a request is found again by every packet of its flow, in both
  directions: when the table of IPv4 sessions has no session for the packet and the request is
  the packet's, \<^verbatim>\<open>ch_tcp_session_pool_entry_create\<close> adds one session, whose state is the initial one, and
  a find with any packet of the flow returns it. Only when the pool is exhausted none is added. In
  both cases the table stays well-formed and the sessions that were in it keep their data.
\<close>

theorem ch_tcp_session_create_find:
  assumes tbl: "ptable_ok tbl" "keyed tbl" "ep_fresh mem (ep tbl)" "entry_hash tbl = tcp_session_entry_hash"
      "entry_equal tbl = tcp_session_entry_equal"
    and none: "\<forall>a\<in>members tbl. \<not> tcp_session_entry_equal (pdata (heap tbl a)) p ()"
    and req: "\<not> t_is_ipv6 p" "\<not> r_is_ipv6 sreq" "session_request_entry_equal sreq p ()"
  shows "\<exists>r tbl1. ch_tcp_session_pool_entry_create ops mem tm tbl sreq app sent p = Inr (r, tbl1) \<and> ptable_ok tbl1 \<and> keyed tbl1 \<and>
    (\<forall>a\<in>members tbl. pdata (heap tbl1 a) = pdata (heap tbl a)) \<and>
    (if ep_exhausted mem (ep tbl) then r = None \<and> entries tbl1 = entries tbl
     else \<exists>e. r = Some e \<and> members tbl1 = insert e (members tbl) \<and> e \<notin> members tbl \<and>
         pdata (heap tbl1 e) = ch_tcp_session_init (pdata (heap tbl e)) sreq app sent (tp_timestamp p) \<and>
         (\<forall>p'. same_flow p p' \<longrightarrow> (\<exists>tbl2. ch_tcp_session_pool_entry_find tm2 tbl1 p' = Inr (Some e, tbl2))))"
proof -
  let ?s = "\<lambda>e. ch_tcp_session_init (pdata (heap tbl e)) sreq app sent (tp_timestamp p)"
  have d: "session_v4 (?s e)" "tcp_session_entry_equal (?s e) p ()" for e
    using req(3) by (simp_all add: session_init_equal [OF req(1,2)])
  obtain r tbl1 where c: "ch_ptable_entry_create ops mem tm tbl p = Inr (r, tbl1)" "r = None \<longleftrightarrow> ep_exhausted mem (ep tbl)"
    using sk.create_keyed [OF tbl d [of 0], of ops tm] by blast
  show ?thesis
  proof (cases r)
    case None
    then show ?thesis using sk.create_keyed [OF tbl d [of 0], of ops tm] c by (auto simp: ch_tcp_session_pool_entry_create_def)
  next
    case (Some e)
    have f: "e \<notin> members tbl" "ptable_ok (entry_store e (?s e) tbl1)" "keyed (entry_store e (?s e) tbl1)"
        "members tbl1 = insert e (members tbl)" "\<forall>a. pdata (heap tbl1 a) = pdata (heap tbl a)" "entry_equal tbl1 = tcp_session_entry_equal"
      using sk.create_keyed [OF tbl d [of e], of ops tm] c Some by auto
    let ?t = "entry_store e (?s e) tbl1"
    have h: "pdata (heap ?t a) = (if a = e then ?s e else pdata (heap tbl a))" for a using f(5) by (simp add: entry_store_def)
    have eq: "entry_equal ?t = tcp_session_entry_equal" using f(6) by (simp add: entry_store_def)
    have "\<exists>tbl2. ch_ptable_entry_find tm2 ?t p' = Inr (Some e, tbl2)" if "same_flow p p'" for p'
      using sk.find_flow [OF f(2,3) eq _ _ that, of e tm2] f(4) none d by (auto simp: h)
    moreover have "ch_tcp_session_pool_entry_create ops mem tm tbl sreq app sent p = Inr (Some e, ?t)"
      using c Some f(5) by (simp add: ch_tcp_session_pool_entry_create_def)
    moreover have "\<forall>a\<in>members tbl. pdata (heap ?t a) = pdata (heap tbl a)" using h f(1) by auto
    moreover have "\<not> ep_exhausted mem (ep tbl)" using c(2) Some by simp
    ultimately show ?thesis using f h by (intro exI [of _ "Some e"] exI [of _ ?t]) (simp add: ch_tcp_session_pool_entry_find_def)
  qed
qed

text \<open>
  Which endpoint a packet belongs to: for an IPv4 session whose endpoints differ, a packet
  from the requesting side is matched with the request endpoint and the opposite packet with
  the response endpoint, the pair endpoint is the other one, and a packet of another flow has
  no endpoint.
\<close>

theorem ch_tcp_session_endpoint_get_correct:
  assumes "\<not> t_is_ipv6 p" "(ep_ip (endpoint_req s), ep_port (endpoint_req s)) \<noteq> (ep_ip (endpoint_res s), ep_port (endpoint_res s))"
  shows "(ch_tcp_session_endpoint_get s p = Some side \<longleftrightarrow>
      ep_ip (get_ep s side) = t_src_ip p \<and> ep_port (get_ep s side) = t_src_port p \<and>
      (\<exists>other. other \<noteq> side \<and> ch_tcp_session_pair_endpoint_get s p = Some other \<and>
         ep_ip (get_ep s other) = t_dst_ip p \<and> ep_port (get_ep s other) = t_dst_port p)) \<and>
    (ch_tcp_session_endpoint_get s p = None \<longleftrightarrow> \<not> tcp_session_entry_equal s p ())"
  using assms
  by (cases side) (auto simp: ch_tcp_session_endpoint_get_def ch_tcp_session_pair_endpoint_get_def session_key_defs)

text \<open>
  Cleaning a session frees all fragments of both endpoints: it succeeds on every
  well-formed session, leaves the allocator well-formed and both rings empty, and a session
  just initialised is well-formed.
\<close>

theorem tcp_session_entry_clean_correct:
  assumes "memory_ok (w_mm w)" "session_wf s"
  shows "\<exists>s' w'. tcp_session_entry_clean s pd w = Inr (s', w') \<and> memory_ok (w_mm w') \<and> w_app w' = w_app w \<and>
    as_frag (endpoint_req s') = [] \<and> as_frag (endpoint_res s') = [] \<and>
    session_wf (ch_tcp_session_init s' sreq app sent time)"
  using session_fin_ok [OF assms, of "w_env w"] session_init_wf
  by (auto simp: tcp_session_entry_clean_def)

section \<open>Witnesses\<close>

text \<open>A session from port 1000 of host 1 to port 80 of host 2, alone in a table of one bucket.\<close>

definition sample_request :: ch_tcp_session_request where
  "sample_request = \<lparr>req_sn_init = 101, res_sn_init = 501, r_is_ipv6 = False, req_ip = 1, r_src_addr = [], req_port = 1000,
     res_ip = 2, r_dst_addr = [], res_port = 80, three_way_state = THREE_WAY_ACK_ACK\<rparr>"

definition sample_tpkt :: "u16 \<Rightarrow> bytes \<Rightarrow> u32 \<Rightarrow> tcp_pkt" where
  "sample_tpkt port d seq = \<lparr>t_is_ipv6 = False, t_src_ip = 1, t_dst_ip = 2, t_src_addr = [], t_dst_addr = [],
     t_src_port = port, t_dst_port = 80, t_ip_dlen = 0, tcp_flags = CH_TH_ACK, sent_seq = seq, recv_ack = 501,
     tth_len = 54, payload_len = of_nat (length d), pdata_off = (if d = [] then None else Some 54),
     tp_data = (if d = [] then None else Some d), tp_timestamp = 7\<rparr>"

definition blank_endpoint :: ch_tcp_session_endpoint where
  "blank_endpoint = \<lparr>as_frag = [], ep_time = 0, last_offset = 0, last_ack = 0, init_seq = 0, ep_ip = 0, ep_port = 0,
     ep_addr = [], ep_is_ipv6 = False\<rparr>"

definition blank_session :: ch_tcp_session where
  "blank_session = \<lparr>endpoint_req = blank_endpoint, endpoint_res = blank_endpoint, s_app = None, sentry = None, cur_ep = None,
     session_id = 0, fin1_seq = 0, fin2_seq = 0, s_state = SESSION_STATE_INIT, need_end = False, four_way_state = FOUR_WAY_INIT\<rparr>"

definition sample_session :: ch_tcp_session where
  "sample_session = ch_tcp_session_init blank_session sample_request (Some 0) (Some 9000) 7"

definition sample_stbl :: "(tcp_pkt, ch_tcp_session, unit, bytes tcp_world, unit) ch_ptable" where
  "sample_stbl = \<lparr>ep = \<lparr>ep_mp = SYS_MP sample_pool_used, entry_size = 40000, n_entries_limit = 10\<rparr>,
     timeout_entries = [], ring_size = 8, last_entry = Some 4120, entry_timeout = 60, tbl_size = 1, tbl_mask = 0,
     n_caches = 1, n_caches_limits = 3, last_clean_time = 0, priv_data = (), entry_hash = tcp_session_entry_hash,
     entry_equal = tcp_session_entry_equal, entry_clean = Some tcp_session_entry_clean, entry_timeout_cb = None,
     hits_num = 0, no_hits_num = 0, fail_num = 0, timeout_num = 0,
     caches = [4120], entries = [[4120]],
     heap = (\<lambda>_. \<lparr>last_time = 10, tv = 0, pdata = sample_session\<rparr>)\<rparr>"

lemma sample_smembers: "members sample_stbl = {4120}"
  by (simp add: members_def sample_stbl_def)

lemma sample_stbl_ok:
  "ptable_ok sample_stbl" "keyed sample_stbl" "ep_fresh (Some 100000) (ep sample_stbl)"
  "entry_hash sample_stbl = tcp_session_entry_hash" "entry_equal sample_stbl = tcp_session_entry_equal"
proof -
  have ep: "ep_ok (ep sample_stbl)" "ep_live (ep sample_stbl) = {4120}"
    using sample_pool_used_ok by (auto simp: ep_ok_def ep_live_def sample_stbl_def)
  have "buckets_ok sample_stbl" unfolding buckets_ok_def sample_smembers ep(2) using ep(1) by (simp add: sample_stbl_def)
  moreover have "caches_ok sample_stbl" unfolding caches_ok_def sample_smembers by (simp add: sample_stbl_def)
  ultimately show "ptable_ok sample_stbl" by (simp add: ptable_ok_def)
  show "keyed sample_stbl" by (simp add: keyed_def ptable_header_get_def sample_stbl_def)
  show "ep_fresh (Some 100000) (ep sample_stbl)"
    by (simp add: ep_fresh_def sample_stbl_def fresh_mem_def sample_pool_used_def blocks_apart_def)
qed (simp_all add: sample_stbl_def)

lemmas sample_session_simps = sample_session_def ch_tcp_session_init_def ch_tcp_session_endpoint_init_def sample_request_def
  blank_session_def blank_endpoint_def ch_assemble_fragment_init_def

lemma sample_session_equal: "tcp_session_entry_equal sample_session (sample_tpkt port d seq) pd \<longleftrightarrow> port = 1000"
  by (auto simp: session_key_defs sample_session_simps sample_tpkt_def)

lemma sample_not_exhausted: "\<not> ep_exhausted (Some 100000) (ep sample_stbl)"
  by (simp add: ep_exhausted_def pool_exhausted_def sample_stbl_def sample_pool_used_def)

theorem ch_tcp_session_create_find_witness:
  "\<exists>e tbl1 tbl2. ch_tcp_session_pool_entry_create sample_ops (Some 100000) 20 sample_stbl (sample_request\<lparr>req_port := 1001\<rparr>)
      (Some 0) (Some 9001) (sample_tpkt 1001 [1] 101) = Inr (Some e, tbl1) \<and> members tbl1 = {e, 4120} \<and> e \<noteq> 4120 \<and>
    pdata (heap tbl1 4120) = sample_session \<and> ch_tcp_session_pool_entry_find 21 tbl1 (sample_tpkt 1001 [2, 3] 102) = Inr (Some e, tbl2)"
proof -
  let ?p = "sample_tpkt 1001 [1] 101"
  have none: "\<forall>a\<in>members sample_stbl. \<not> tcp_session_entry_equal (pdata (heap sample_stbl a)) ?p ()"
    unfolding sample_smembers by (simp add: sample_stbl_def sample_session_equal)
  have r: "\<not> t_is_ipv6 ?p" "\<not> r_is_ipv6 (sample_request\<lparr>req_port := 1001\<rparr>)"
    "session_request_entry_equal (sample_request\<lparr>req_port := 1001\<rparr>) ?p ()"
    by (simp_all add: request_key_defs sample_tpkt_def sample_request_def)
  have flow: "same_flow ?p (sample_tpkt 1001 [2, 3] 102)" by (simp add: same_flow_def sample_tpkt_def)
  have s: "pdata (heap sample_stbl 4120) = sample_session" by (simp add: sample_stbl_def)
  show ?thesis
    using ch_tcp_session_create_find [OF sample_stbl_ok none r, of sample_ops 20 "Some 0" "Some 9001" 21] flow s
    unfolding if_not_P [OF sample_not_exhausted] sample_smembers by fastforce
qed

theorem ch_tcp_session_endpoint_get_correct_witness:
  "ch_tcp_session_endpoint_get sample_session (sample_tpkt 1000 [1] 101) = Some EP_REQ"
  using ch_tcp_session_endpoint_get_correct [of "sample_tpkt 1000 [1] 101" sample_session EP_REQ]
  by (simp add: sample_tpkt_def ch_tcp_session_pair_endpoint_get_def ch_tcp_session_endpoint_get_def endpoint_is_request_def
      sample_session_simps)

definition sample_world :: "bytes tcp_world" where
  "sample_world = \<lparr>w_mm = ch_memory_create sample_env 0 60, w_env = sample_env, w_app = []\<rparr>"

theorem tcp_session_entry_clean_correct_witness:
  "\<exists>s' w'. tcp_session_entry_clean sample_session () sample_world = Inr (s', w') \<and> as_frag (endpoint_req s') = []"
proof -
  have "memory_ok (w_mm sample_world)" by (simp add: sample_world_def memory_ok_create)
  moreover have "session_wf sample_session" unfolding sample_session_def by (rule session_init_wf)
  ultimately show ?thesis using tcp_session_entry_clean_correct [of sample_world sample_session "()"] by blast
qed

end
