(* ===== verification/Tcp_Handler.thy ===== *)
theory Tcp_Handler
  imports Tcp_Session
begin

text \<open>
  What happens to a packet of a TCP session: \<^verbatim>\<open>tcp/session/ch_tcp_session_handler.c\<close>, for data,
  FIN, RST and ACK packets. A session is the object at its address in the session table; the
  memory of a freed object can still be read, as it can in the pool. Shown here: the bytes of a
  direction of a session reach the parser in order, without gaps and once, whatever the order in
  which the segments come; the four packets that close a session; and two places where the code
  goes wrong: the second close of a session, and the FIN that carries data.
\<close>

section \<open>The session handler\<close>

type_synonym ('a, 'mp) session_tbl = "(tcp_pkt, ch_tcp_session, unit, 'a tcp_world, 'mp) ch_ptable"

abbreviation sess :: "('a, 'mp) session_tbl \<Rightarrow> addr \<Rightarrow> ch_tcp_session" where
  "sess tbl e \<equiv> pdata (heap tbl e)"

definition content_data_output ::
  "'a ch_tcp_app list \<Rightarrow> ch_tcp_session \<Rightarrow> bytes \<Rightarrow> 'a \<Rightarrow> int \<times> 'a"
where
  "content_data_output apps s d a =
     (if cur_ep s = Some EP_REQ then ch_tcp_app_request_content_parse apps s d a
      else ch_tcp_app_response_content_parse apps s d a)"

definition tcp_session_timeout_cb ::
  "'a ch_tcp_app list \<Rightarrow> ch_tcp_session \<Rightarrow> u64 \<Rightarrow> unit \<Rightarrow> 'a tcp_world \<Rightarrow> (ch_tcp_session \<times> 'a tcp_world) res"
where
  "tcp_session_timeout_cb apps s t pd w =
     (case ch_tcp_app_session_entry_clean apps s (w_app w) of (s, a) \<Rightarrow> Inr (s, w\<lparr>w_app := a\<rparr>))"

definition is_fin1_ack :: "ch_tcp_session \<Rightarrow> tcp_pkt \<Rightarrow> bool" where
  "is_fin1_ack s p \<longleftrightarrow> tcp_flags p AND CH_TH_ACK \<noteq> 0 \<and> recv_ack p = fin1_seq s + 1"

definition is_fin2_ack :: "ch_tcp_session \<Rightarrow> tcp_pkt \<Rightarrow> bool" where
  "is_fin2_ack s p \<longleftrightarrow> tcp_flags p AND CH_TH_ACK \<noteq> 0 \<and> recv_ack p = fin2_seq s + 1"

definition process_fin_packet :: "ch_tcp_session \<Rightarrow> tcp_pkt \<Rightarrow> ch_tcp_session" where
  "process_fin_packet s p =
     (if four_way_state s = FOUR_WAY_INIT then s\<lparr>fin1_seq := sent_seq p, four_way_state := FOUR_WAY_FIN1\<rparr>
      else if four_way_state s = FOUR_WAY_FIN1 \<or> four_way_state s = FOUR_WAY_FIN1_ACK
      then s\<lparr>fin2_seq := sent_seq p, four_way_state := FOUR_WAY_FIN2\<rparr>
      else s)"

definition tcp_session_close ::
  "'mp rte_mempool_ops \<Rightarrow> 'a ch_tcp_app list \<Rightarrow> ('a, 'mp) session_tbl \<Rightarrow> 'a tcp_world \<Rightarrow> addr \<Rightarrow>
   (('a, 'mp) session_tbl \<times> 'a tcp_world) res"
where
  "tcp_session_close ops apps tbl w e =
     (let (s, a) = ch_tcp_app_session_entry_clean apps (sess tbl e) (w_app w)
      in ch_tcp_session_pool_entry_free ops (entry_store e s tbl) (w\<lparr>w_app := a\<rparr>) e)"

definition process_rst_packet ::
  "'mp rte_mempool_ops \<Rightarrow> 'a ch_tcp_app list \<Rightarrow> ('a, 'mp) session_tbl \<Rightarrow> 'a tcp_world \<Rightarrow> addr \<Rightarrow>
   (('a, 'mp) session_tbl \<times> 'a tcp_world) res"
where
  "process_rst_packet ops apps tbl w e = tcp_session_close ops apps tbl w e"

text \<open>
  The parser gets a pointer and a length; here it gets the bytes, and it is a fault if there are
  fewer. The payload pointer and length that the code moves in the packet are not read again.
\<close>

definition process_data_packet ::
  "'mp rte_mempool_ops \<Rightarrow> 'a ch_tcp_app list \<Rightarrow> ('a, 'mp) session_tbl \<Rightarrow> 'a tcp_world \<Rightarrow> addr \<Rightarrow> ep_side \<Rightarrow> tcp_pkt \<Rightarrow>
   (('a, 'mp) session_tbl \<times> 'a tcp_world) res"
where
  "process_data_packet ops apps tbl w e side p =
     (let q = get_ep (sess tbl e) side;
          offset = ch_tcp_session_endpoint_offset_get q (sent_seq p);
          end_offset = offset + payload_len p
      in if end_offset \<le> last_offset q then Inr (tbl, w)
         else if offset > last_offset q then
           bind_res (ch_tcp_session_endpoint_do (w_env w) (w_mm w) q (tp_data p) (payload_len p) offset) (\<lambda>(rc, mm, q).
             let tbl = entry_store e (set_ep (sess tbl e) side q) tbl;
                 w = w\<lparr>w_mm := mm\<rparr>
             in if rc \<noteq> 0 then tcp_session_close ops apps tbl w e else Inr (tbl, w))
         else
           let diff = last_offset q - offset;
               tbl = entry_store e (set_ep (sess tbl e) side (q\<lparr>last_offset := end_offset\<rparr>)) tbl
           in bind_res (read_data (map_option (drop (unat diff)) (tp_data p)) (payload_len p - diff)) (\<lambda>bs.
                let (rc, a) = content_data_output apps (sess tbl e) bs (w_app w);
                    w = w\<lparr>w_app := a\<rparr>
                in if rc = PARSE_BREAK then tcp_session_close ops apps tbl w e
                   else
                     let q = get_ep (sess tbl e) side
                     in bind_res (ch_assemble_fragment_pop (w_env w) (w_mm w) (as_frag q) (last_offset q)) (\<lambda>(df, mm, frs).
                          let tbl = entry_store e (set_ep (sess tbl e) side (q\<lparr>as_frag := frs\<rparr>)) tbl;
                              w = w\<lparr>w_mm := mm\<rparr>
                          in case df of
                               None \<Rightarrow> Inr (tbl, w)
                             | Some f \<Rightarrow>
                                 bind_res (read_data (fdata f) (flen f)) (\<lambda>bs.
                                   let (rc, a) = content_data_output apps (sess tbl e) bs (w_app w);
                                       w = w\<lparr>w_app := a\<rparr>
                                   in bind_res
                                        (if rc = PARSE_BREAK then tcp_session_close ops apps tbl w e
                                         else Inr (entry_store e (set_ep (sess tbl e) side
                                                ((get_ep (sess tbl e) side)\<lparr>last_offset := foffset f + flen f\<rparr>)) tbl, w))
                                        (\<lambda>(tbl, w).
                                           bind_res (ch_assemble_data_fragment_free (w_env w) (w_mm w) (Some f)) (\<lambda>mm.
                                             Inr (tbl, w\<lparr>w_mm := mm\<rparr>)))))))"

definition process_fin1_ack_packet :: "ch_tcp_session \<Rightarrow> ch_tcp_session" where
  "process_fin1_ack_packet s = s\<lparr>four_way_state := FOUR_WAY_FIN1_ACK\<rparr>"

definition process_fin2_ack_packet ::
  "'mp rte_mempool_ops \<Rightarrow> 'a ch_tcp_app list \<Rightarrow> ('a, 'mp) session_tbl \<Rightarrow> 'a tcp_world \<Rightarrow> addr \<Rightarrow>
   (('a, 'mp) session_tbl \<times> 'a tcp_world) res"
where
  "process_fin2_ack_packet ops apps tbl w e =
     tcp_session_close ops apps (entry_store e ((sess tbl e)\<lparr>four_way_state := FOUR_WAY_FIN2_ACK\<rparr>) tbl) w e"

text \<open>
  \<^verbatim>\<open>ch_tcp_session_packet_handle\<close>, in two steps: what is done for the packet, and the whole,
  which then frees the sessions that timed out. It always returns 0.
\<close>

definition session_packet_do ::
  "'mp rte_mempool_ops \<Rightarrow> 'a ch_tcp_app list \<Rightarrow> ('a, 'mp) session_tbl \<Rightarrow> 'a tcp_world \<Rightarrow> addr \<Rightarrow> tcp_pkt \<Rightarrow>
   (('a, 'mp) session_tbl \<times> 'a tcp_world) res"
where
  "session_packet_do ops apps tbl w e p =
     (case ch_tcp_session_endpoint_get (sess tbl e) p of
        None \<Rightarrow> Inr (tbl, w)
      | Some side \<Rightarrow>
          let tbl = entry_store e ((sess tbl e)\<lparr>cur_ep := Some side\<rparr>) tbl
          in bind_res (if tp_data p \<noteq> None then process_data_packet ops apps tbl w e side p else Inr (tbl, w)) (\<lambda>(tbl, w).
               let q = get_ep (sess tbl e) side
               in if tp_data p \<noteq> None \<and> last_ack q > last_offset q then tcp_session_close ops apps tbl w e
                  else if is_tcp_fin_packet p then Inr (entry_store e (process_fin_packet (sess tbl e) p) tbl, w)
                  else if is_tcp_rst_packet p then process_rst_packet ops apps tbl w e
                  else if is_fin1_ack (sess tbl e) p then Inr (entry_store e (process_fin1_ack_packet (sess tbl e)) tbl, w)
                  else if is_fin2_ack (sess tbl e) p then process_fin2_ack_packet ops apps tbl w e
                  else Inr (tbl, w)))"

definition ch_tcp_session_packet_handle ::
  "'mp rte_mempool_ops \<Rightarrow> 'a ch_tcp_app list \<Rightarrow> ('a, 'mp) session_tbl \<Rightarrow> 'a tcp_world \<Rightarrow> addr \<Rightarrow> tcp_pkt \<Rightarrow>
   (int \<times> ('a, 'mp) session_tbl \<times> 'a tcp_world) res"
where
  "ch_tcp_session_packet_handle ops apps tbl w e p =
     bind_res (session_packet_do ops apps tbl w e p) (\<lambda>(tbl, w).
     bind_res (ch_ptable_entries_timeout_free ops tbl w) (\<lambda>(c, tbl, w). Inr (0, tbl, w)))"

section \<open>In-order delivery\<close>

declare entry_store_heap [simp]

lemma ep_simps [simp]:
  "get_ep (set_ep s side q) side = q" "set_ep (set_ep s side q) side r = set_ep s side r" "set_ep s side (get_ep s side) = s"
  "cur_ep (set_ep s side q) = cur_ep s" "s_app (set_ep s side q) = s_app s" "sentry (set_ep s side q) = sentry s"
  "side' \<noteq> side \<Longrightarrow> get_ep (set_ep s side q) side' = get_ep s side'"
  "fin1_seq (set_ep s side q) = fin1_seq s" "fin2_seq (set_ep s side q) = fin2_seq s"
  "four_way_state (set_ep s side q) = four_way_state s" "s_state (set_ep s side q) = s_state s"
  by (cases side; cases side'; simp)+

text \<open>The offsets of a direction that have arrived, and the state of an endpoint that agrees with its stream.\<close>

definition received :: "ch_tcp_session_endpoint \<Rightarrow> nat set" where
  "received q = {0..<unat (last_offset q)} \<union> cover (as_frag q)"

definition stream_ok :: "(nat \<Rightarrow> u8) \<Rightarrow> ch_tcp_session_endpoint \<Rightarrow> bool" where
  "stream_ok strm q \<longleftrightarrow> ring_ok (as_frag q) \<and> (\<forall>f\<in>set (as_frag q). agrees strm f) \<and>
     cover (as_frag q) \<subseteq> {unat (last_offset q)<..}"

text \<open>The last offset is then the first that is missing.\<close>

lemma stream_ok_first_gap:
  assumes "stream_ok strm q"
  shows "unat (last_offset q) \<notin> received q" "n < unat (last_offset q) \<Longrightarrow> n \<in> received q"
  using assms by (auto simp: stream_ok_def received_def)

lemma stream_ok_least: "stream_ok strm q \<Longrightarrow> unat (last_offset q) = (LEAST n. n \<notin> received q)"
  using stream_ok_first_gap [of strm q] by (intro Least_equality [symmetric]) (auto simp: not_less [symmetric])

text \<open>A packet that carries a segment of the stream, and its offsets.\<close>

definition pkt_off :: "u32 \<Rightarrow> tcp_pkt \<Rightarrow> nat" where
  "pkt_off iseq p = unat (sent_seq p - iseq)"

definition pkt_seg :: "u32 \<Rightarrow> tcp_pkt \<Rightarrow> nat set" where
  "pkt_seg iseq p = {pkt_off iseq p..<pkt_off iseq p + unat (payload_len p)}"

definition carries :: "(nat \<Rightarrow> u8) \<Rightarrow> u32 \<Rightarrow> tcp_pkt \<Rightarrow> bool" where
  "carries strm iseq p \<longleftrightarrow> payload_len p > 0 \<and> pkt_off iseq p + unat (payload_len p) < 2 ^ 32 \<and>
     (\<exists>d. tp_data p = Some d \<and> unat (payload_len p) \<le> length d \<and>
        take (unat (payload_len p)) d = map strm [pkt_off iseq p..<pkt_off iseq p + unat (payload_len p)])"

text \<open>Chunks given to the parser one after the other, and a parser that wants them all.\<close>

definition feed :: "'a ch_tcp_app list \<Rightarrow> (ch_tcp_session \<times> bytes) list \<Rightarrow> 'a \<Rightarrow> 'a" where
  "feed apps cs a = fold (\<lambda>(s, d) a. snd (content_data_output apps s d a)) cs a"

definition parser_goes_on :: "'a ch_tcp_app list \<Rightarrow> ch_tcp_session \<Rightarrow> bool" where
  "parser_goes_on apps s \<longleftrightarrow> (\<forall>s' d a. s_app s' = s_app s \<and> sentry s' = sentry s \<and> cur_ep s' = cur_ep s \<longrightarrow>
     fst (content_data_output apps s' d a) \<noteq> PARSE_BREAK)"

definition chunk_of :: "ch_tcp_session \<Rightarrow> ch_tcp_session \<times> bytes \<Rightarrow> bool" where
  "chunk_of s c \<longleftrightarrow> s_app (fst c) = s_app s \<and> sentry (fst c) = sentry s \<and> cur_ep (fst c) = cur_ep s"

text \<open>What one data packet does to an endpoint, to the allocator and to the parser.\<close>

definition data_step ::
  "'a ch_tcp_app list \<Rightarrow> (nat \<Rightarrow> u8) \<Rightarrow> ('a, 'mp) session_tbl \<Rightarrow> 'a tcp_world \<Rightarrow> addr \<Rightarrow> ep_side \<Rightarrow> nat set \<Rightarrow>
   ('a, 'mp) session_tbl \<Rightarrow> 'a tcp_world \<Rightarrow> bool"
where
  "data_step apps strm tbl w e side seg tbl' w' \<longleftrightarrow>
     (\<exists>frs l mm cs. let s = sess tbl e; q = get_ep s side; q' = q\<lparr>as_frag := frs, last_offset := l\<rparr> in
        tbl' = entry_store e (set_ep s side q') tbl \<and>
        w' = w\<lparr>w_mm := mm, w_app := feed apps cs (w_app w)\<rparr> \<and> memory_ok mm \<and> stream_ok strm q' \<and>
        received q' = received q \<union> seg \<and> last_offset q \<le> l \<and>
        concat (map snd cs) = map strm [unat (last_offset q)..<unat l] \<and> list_all (chunk_of s) cs)"

lemma carries_nat:
  assumes "carries strm iseq p"
  shows "unat (sent_seq p - iseq + payload_len p) = pkt_off iseq p + unat (payload_len p)"
  using assms unat_plus32 [of "sent_seq p - iseq" "payload_len p"] by (simp add: carries_def pkt_off_def)

lemma data_step_stale:
  assumes w: "memory_ok (w_mm w)" and q: "q = get_ep (sess tbl e) side" "stream_ok strm q"
    and p: "carries strm (init_seq q) p" "pkt_off (init_seq q) p + unat (payload_len p) \<le> unat (last_offset q)"
  shows "process_data_packet ops apps tbl w e side p = Inr (tbl, w) \<and>
    data_step apps strm tbl w e side (pkt_seg (init_seq q) p) tbl w"
proof
  show "process_data_packet ops apps tbl w e side p = Inr (tbl, w)"
    using carries_nat [OF p(1)] p(2) q(1)
    by (simp add: process_data_packet_def Let_def ch_tcp_session_endpoint_offset_get_def word_le_unat)
  have "received q = received q \<union> pkt_seg (init_seq q) p" using p(2) by (auto simp: received_def pkt_seg_def)
  then show "data_step apps strm tbl w e side (pkt_seg (init_seq q) p) tbl w"
    unfolding data_step_def Let_def q(1) [symmetric] using w q(2)
    by (intro exI [of _ "as_frag q"] exI [of _ "last_offset q"] exI [of _ "w_mm w"] exI [of _ "[]"])
       (simp add: q(1) feed_def)
qed

lemma data_step_ahead:
  assumes w: "memory_ok (w_mm w)" "\<forall>n. malloc_ok (w_env w) n" and q: "q = get_ep (sess tbl e) side" "stream_ok strm q"
    and p: "carries strm (init_seq q) p" "pkt_off (init_seq q) p > unat (last_offset q)"
  shows "\<exists>tbl' w'. process_data_packet ops apps tbl w e side p = Inr (tbl', w') \<and>
    data_step apps strm tbl w e side (pkt_seg (init_seq q) p) tbl' w'"
proof -
  obtain d where d: "tp_data p = Some d" "unat (payload_len p) \<le> length d"
    "take (unat (payload_len p)) d = map strm [pkt_off (init_seq q) p..<pkt_off (init_seq q) p + unat (payload_len p)]"
    using p(1) by (auto simp: carries_def)
  let ?off = "sent_seq p - init_seq q"
  define df where "df = \<lparr>fdata = Some d, foffset = ?off, flen = payload_len p\<rparr>"
  have iv: "lo df = pkt_off (init_seq q) p" "hi df = pkt_off (init_seq q) p + unat (payload_len p)"
    by (simp_all add: df_def lo_def hi_def pkt_off_def)
  have df: "frag_ok df" using p(1) d iv by (auto simp: frag_ok_def in_range_def carries_def df_def word_gt_0 unat_gt_0)
  have ag: "agrees strm df" using d(3) iv by (simp add: agrees_def frag_bytes_def df_def)
  have ring: "ring_ok (as_frag q)" "\<forall>f\<in>set (as_frag q). agrees strm f" using q(2) by (auto simp: stream_ok_def)
  obtain rc mm frs where push0: "ch_assemble_fragment_push (w_env w) (w_mm w) (as_frag q) (Some d) (payload_len p) ?off = Inr (rc, mm, frs)"
    "memory_ok mm" "ring_ok frs" "(\<forall>n. malloc_ok (w_env w) n) \<longrightarrow> rc = 0" "rc = 0 \<longrightarrow> cover frs = cover (as_frag q) \<union> {lo df..<hi df}"
    "(\<forall>f\<in>set (as_frag q). agrees strm f) \<and> agrees strm df \<longrightarrow> (\<forall>f\<in>set frs. agrees strm f)"
    using push_ok [OF w(1) ring(1) df df_def, of "w_env w" strm] by blast
  have rc: "rc = 0" using push0(4) w(2) by blast
  have push: "ch_assemble_fragment_push (w_env w) (w_mm w) (as_frag q) (Some d) (payload_len p) ?off = Inr (0, mm, frs)"
    "memory_ok mm" "ring_ok frs" "cover frs = cover (as_frag q) \<union> {lo df..<hi df}" "\<forall>f\<in>set frs. agrees strm f"
    using push0 rc ring(2) ag by auto
  let ?q = "q\<lparr>as_frag := frs\<rparr>"
  have seg: "{lo df..<hi df} = pkt_seg (init_seq q) p" by (simp add: iv pkt_seg_def)
  have ev: "process_data_packet ops apps tbl w e side p = Inr (entry_store e (set_ep (sess tbl e) side ?q) tbl, w\<lparr>w_mm := mm\<rparr>)"
    using carries_nat [OF p(1)] p(2) push(1) d(1) q(1)
    by (simp add: process_data_packet_def Let_def ch_tcp_session_endpoint_offset_get_def word_le_unat word_less_unat
        ch_tcp_session_endpoint_do_def pkt_off_def)
  have "stream_ok strm ?q" using push p(2) q(2) iv by (auto simp: stream_ok_def)
  moreover have "received ?q = received q \<union> pkt_seg (init_seq q) p" using push(4) seg by (auto simp: received_def)
  ultimately have "data_step apps strm tbl w e side (pkt_seg (init_seq q) p) (entry_store e (set_ep (sess tbl e) side ?q) tbl) (w\<lparr>w_mm := mm\<rparr>)"
    unfolding data_step_def Let_def q(1) [symmetric] using push(2)
    by (intro exI [of _ frs] exI [of _ "last_offset q"] exI [of _ mm] exI [of _ "[]"]) (simp add: feed_def)
  then show ?thesis using ev by blast
qed

lemma output_goes_on:
  assumes "parser_goes_on apps s" "s_app s' = s_app s" "sentry s' = sentry s" "cur_ep s' = cur_ep s"
  shows "\<exists>rc. content_data_output apps s' d a = (rc, feed apps [(s', d)] a) \<and> rc \<noteq> PARSE_BREAK"
  using assms by (auto simp: parser_goes_on_def feed_def prod_eq_iff)

lemma feed_append: "feed apps (cs1 @ cs2) a = feed apps cs2 (feed apps cs1 a)"
  by (simp add: feed_def)

text \<open>The payload from the last offset on.\<close>

lemma payload_rest:
  assumes p: "carries strm (init_seq q) p" and l: "pkt_off (init_seq q) p \<le> unat (last_offset q)"
      "unat (last_offset q) < pkt_off (init_seq q) p + unat (payload_len p)"
  shows "read_data (map_option (drop (unat (last_offset q - (sent_seq p - init_seq q)))) (tp_data p))
      (payload_len p - (last_offset q - (sent_seq p - init_seq q))) =
    Inr (map strm [unat (last_offset q)..<pkt_off (init_seq q) p + unat (payload_len p)])"
proof -
  obtain d where d: "tp_data p = Some d" "unat (payload_len p) \<le> length d"
    "take (unat (payload_len p)) d = map strm [pkt_off (init_seq q) p..<pkt_off (init_seq q) p + unat (payload_len p)]"
    using p by (auto simp: carries_def)
  let ?diff = "last_offset q - (sent_seq p - init_seq q)"
  have u: "unat ?diff = unat (last_offset q) - pkt_off (init_seq q) p"
    using l(1) by (simp add: unat_minus_le word_le_unat pkt_off_def)
  have n: "unat (payload_len p - ?diff) = unat (payload_len p) - unat ?diff"
    using l u by (simp add: unat_minus_le word_le_unat)
  have "take (unat (payload_len p) - unat ?diff) (drop (unat ?diff) d) = drop (unat ?diff) (take (unat (payload_len p)) d)"
    by (simp add: drop_take)
  also have "\<dots> = map strm [unat (last_offset q)..<pkt_off (init_seq q) p + unat (payload_len p)]"
    unfolding d(3) using l u by (simp add: drop_map)
  finally show ?thesis using d(1,2) by (simp add: read_data_def n)
qed

text \<open>The branch of the packet that continues the stream, up to the fragment that follows it.\<close>

lemma process_in_order_eq:
  assumes q: "q = get_ep (sess tbl e) side"
    and p: "carries strm (init_seq q) p" "pkt_off (init_seq q) p \<le> unat (last_offset q)"
      "unat (last_offset q) < pkt_off (init_seq q) p + unat (payload_len p)"
    and l: "l = sent_seq p - init_seq q + payload_len p" and s1: "s1 = set_ep (sess tbl e) side (q\<lparr>last_offset := l\<rparr>)"
    and bs: "bs = map strm [unat (last_offset q)..<unat l]"
    and out: "content_data_output apps s1 bs (w_app w) = (rc, a)" "rc \<noteq> PARSE_BREAK"
    and pop: "ch_assemble_fragment_pop (w_env w) (w_mm w) (as_frag q) l = Inr (r, mm, frs)"
    and t2: "s2 = set_ep (sess tbl e) side (q\<lparr>last_offset := l, as_frag := frs\<rparr>)" "w2 = w\<lparr>w_app := a, w_mm := mm\<rparr>"
  shows "process_data_packet ops apps tbl w e side p =
    (case r of
       None \<Rightarrow> Inr (entry_store e s2 tbl, w2)
     | Some f \<Rightarrow> bind_res (read_data (fdata f) (flen f)) (\<lambda>bs.
         let (rc, a) = content_data_output apps s2 bs (w_app w2); w = w2\<lparr>w_app := a\<rparr>
         in bind_res (if rc = PARSE_BREAK then tcp_session_close ops apps (entry_store e s2 tbl) w e
                      else Inr (entry_store e (set_ep s2 side ((get_ep s2 side)\<lparr>last_offset := foffset f + flen f\<rparr>)) tbl, w))
              (\<lambda>(tbl, w). bind_res (ch_assemble_data_fragment_free (w_env w) (w_mm w) (Some f)) (\<lambda>mm. Inr (tbl, w\<lparr>w_mm := mm\<rparr>)))))"
proof -
  have c: "\<not> l \<le> last_offset q" "\<not> sent_seq p - init_seq q > last_offset q"
    using carries_nat [OF p(1)] p(2,3) by (simp_all add: l word_le_unat word_less_unat pkt_off_def)
  have rd: "read_data (map_option (drop (unat (last_offset q - (sent_seq p - init_seq q)))) (tp_data p))
      (payload_len p - (last_offset q - (sent_seq p - init_seq q))) = Inr bs"
    using payload_rest [OF p] carries_nat [OF p(1)] by (simp add: bs l)
  show ?thesis
    unfolding process_data_packet_def Let_def q [symmetric] ch_tcp_session_endpoint_offset_get_def l [symmetric]
    using c by (simp add: rd s1 [symmetric] out cong: if_cong prod.case_cong option.case_cong)
      (simp add: s1 t2 pop cong: if_cong prod.case_cong option.case_cong)
qed

lemma upt_join: "i \<le> j \<Longrightarrow> j \<le> k \<Longrightarrow> [i..<j] @ [j..<k] = [i..<k]"
  by (metis le_add_diff_inverse upt_add_eq_append)

lemma map_upt_join: "i \<le> j \<Longrightarrow> j \<le> k \<Longrightarrow> map f [i..<j] @ map f [j..<k] = map f [i..<k]"
  by (simp add: upt_join flip: map_append)

lemma received_step:
  fixes C :: "nat set"
  assumes "a \<le> l" "l \<le> m" "m \<le> h" "{m..<h} \<subseteq> C"
  shows "{0..<h} \<union> (C \<inter> {h..}) = {0..<l} \<union> C \<union> {a..<m}"
proof -
  have "{0..<h} = {0..<l} \<union> {a..<m} \<union> {m..<h}" using assms(1-3) by auto
  then show ?thesis using assms by auto
qed

lemma data_step_in_order:
  assumes w: "memory_ok (w_mm w)" and q: "q = get_ep (sess tbl e) side" "stream_ok strm q"
    and p: "carries strm (init_seq q) p" "pkt_off (init_seq q) p \<le> unat (last_offset q)"
      "unat (last_offset q) < pkt_off (init_seq q) p + unat (payload_len p)"
    and go: "parser_goes_on apps (sess tbl e)"
  shows "\<exists>tbl' w'. process_data_packet ops apps tbl w e side p = Inr (tbl', w') \<and>
    data_step apps strm tbl w e side (pkt_seg (init_seq q) p) tbl' w'"
proof -
  let ?s = "sess tbl e"
  define l where "l = sent_seq p - init_seq q + payload_len p"
  have ul: "unat l = pkt_off (init_seq q) p + unat (payload_len p)" using carries_nat [OF p(1)] by (simp add: l_def)
  define s1 where "s1 = set_ep ?s side (q\<lparr>last_offset := l\<rparr>)"
  define bs where "bs = map strm [unat (last_offset q)..<unat l]"
  obtain rc where out: "content_data_output apps s1 bs (w_app w) = (rc, feed apps [(s1, bs)] (w_app w))" "rc \<noteq> PARSE_BREAK"
    using output_goes_on [OF go, of s1 bs "w_app w"] by (auto simp: s1_def)
  have ring: "ring_ok (as_frag q)" "\<forall>f\<in>set (as_frag q). agrees strm f" using q(2) by (auto simp: stream_ok_def)
  obtain r mm frs where pop: "ch_assemble_fragment_pop (w_env w) (w_mm w) (as_frag q) l = Inr (r, mm, frs)" "memory_ok mm" "ring_ok frs"
    "(\<forall>f\<in>set (as_frag q). agrees strm f) \<longrightarrow> (\<forall>f\<in>set frs. agrees strm f)"
    "case r of
       None \<Rightarrow> unat l \<notin> cover (as_frag q) \<and> cover frs = cover (as_frag q) \<inter> {unat l..}
     | Some df \<Rightarrow> frag_ok df \<and> block_held df \<and> foffset df = l \<and> {unat l..<hi df} \<subseteq> cover (as_frag q) \<and>
         hi df \<notin> cover (as_frag q) \<and> cover frs = cover (as_frag q) \<inter> {hi df..} \<and>
         ((\<forall>f\<in>set (as_frag q). agrees strm f) \<longrightarrow> agrees strm df)"
    using pop_ok [OF w ring(1), of "w_env w" l strm] by blast
  have ag: "\<forall>f\<in>set frs. agrees strm f" using pop(4) ring(2) by blast
  define s2 where "s2 = set_ep ?s side (q\<lparr>last_offset := l, as_frag := frs\<rparr>)"
  note eq = process_in_order_eq [OF q(1) p l_def s1_def bs_def out pop(1) s2_def refl, of ops]
  have lq: "last_offset q \<le> l" using p(3) ul by (simp add: word_le_unat)
  have c1: "chunk_of ?s (s1, bs)" by (simp add: chunk_of_def s1_def)
  show ?thesis
  proof (cases r)
    case None
    let ?q = "q\<lparr>as_frag := frs, last_offset := l\<rparr>"
    have swap: "q\<lparr>last_offset := l, as_frag := frs\<rparr> = ?q" by simp
    have cov: "unat l \<notin> cover (as_frag q)" "cover frs = cover (as_frag q) \<inter> {unat l..}" using pop(5) None by auto
    have "stream_ok strm ?q" using pop(3) ag cov by (auto simp: stream_ok_def order.strict_iff_order)
    moreover have "received ?q = received q \<union> pkt_seg (init_seq q) p" using received_step [OF p(2), of "unat l" "unat l" "cover (as_frag q)"] p(3) ul cov(2) by (simp add: received_def pkt_seg_def)
    ultimately have "data_step apps strm tbl w e side (pkt_seg (init_seq q) p) (entry_store e (set_ep ?s side ?q) tbl)
        (w\<lparr>w_mm := mm, w_app := feed apps [(s1, bs)] (w_app w)\<rparr>)"
      unfolding data_step_def Let_def q(1) [symmetric] using pop(2) lq c1
      by (intro exI [of _ frs] exI [of _ l] exI [of _ mm] exI [of _ "[(s1, bs)]"]) (simp add: bs_def)
    moreover have "process_data_packet ops apps tbl w e side p =
        Inr (entry_store e (set_ep ?s side ?q) tbl, w\<lparr>w_mm := mm, w_app := feed apps [(s1, bs)] (w_app w)\<rparr>)"
      using eq None unfolding s2_def swap by simp
    ultimately show ?thesis by blast
  next
    case (Some f)
    have f: "frag_ok f" "block_held f" "foffset f = l" "{unat l..<hi f} \<subseteq> cover (as_frag q)" "hi f \<notin> cover (as_frag q)"
      "cover frs = cover (as_frag q) \<inter> {hi f..}" "agrees strm f" using pop(5) Some ring(2) by auto
    define l2 where "l2 = foffset f + flen f"
    have ul2: "unat l2 = hi f" "lo f = unat l" "unat l < hi f"
      using unat_frag_end [of f] f(1,3) by (auto simp: l2_def frag_end_def frag_ok_def lo_def)
    have rd: "read_data (fdata f) (flen f) = Inr (map strm [unat l..<hi f])"
      using read_data_ok [OF f(1)] f(7) ul2(2) by (simp add: agrees_def)
    define a1 where "a1 = feed apps [(s1, bs)] (w_app w)"
    obtain rc2 where out2: "content_data_output apps s2 (map strm [unat l..<hi f]) a1 =
        (rc2, feed apps [(s2, map strm [unat l..<hi f])] a1)" "rc2 \<noteq> PARSE_BREAK"
      using output_goes_on [OF go, of s2 "map strm [unat l..<hi f]" a1] by (auto simp: s2_def)
    obtain mm2 where fr: "ch_memory_free (w_env w) mm (fblock f) = Inr mm2" "memory_ok mm2"
      using block_held_free [OF pop(2) f(2)] by blast
    let ?q = "q\<lparr>as_frag := frs, last_offset := l2\<rparr>" and ?cs = "[(s1, bs), (s2, map strm [unat l..<hi f])]"
    have ev: "process_data_packet ops apps tbl w e side p =
        Inr (entry_store e (set_ep ?s side ?q) tbl, w\<lparr>w_mm := mm2, w_app := feed apps ?cs (w_app w)\<rparr>)"
      using eq Some by (simp add: rd a1_def [symmetric] out2 ch_assemble_data_fragment_free_def fr)
        (simp add: s2_def l2_def a1_def feed_def)
    have "stream_ok strm ?q" using pop(3) ag f(5,6) ul2 by (auto simp: stream_ok_def order.strict_iff_order)
    moreover have "received ?q = received q \<union> pkt_seg (init_seq q) p"
      using received_step [OF p(2) _ _ f(4)] p(3) ul ul2 f(6) by (simp add: received_def pkt_seg_def)
    moreover have "concat (map snd ?cs) = map strm [unat (last_offset q)..<unat l2]"
      using lq ul2 by (simp add: bs_def word_le_unat upt_join flip: map_append)
    moreover have "last_offset q \<le> l2" using lq ul2 by (simp add: word_le_unat)
    moreover have "list_all (chunk_of ?s) ?cs" using c1 by (simp add: chunk_of_def s2_def)
    ultimately have "data_step apps strm tbl w e side (pkt_seg (init_seq q) p) (entry_store e (set_ep ?s side ?q) tbl)
        (w\<lparr>w_mm := mm2, w_app := feed apps ?cs (w_app w)\<rparr>)"
      unfolding data_step_def Let_def q(1) [symmetric] using fr(2)
      by (intro exI [of _ frs] exI [of _ l2] exI [of _ mm2] exI [of _ ?cs]) simp
    then show ?thesis using ev by blast
  qed
qed

lemma data_step_ok:
  assumes "memory_ok (w_mm w)" "\<forall>n. malloc_ok (w_env w) n" "q = get_ep (sess tbl e) side" "stream_ok strm q"
    "carries strm (init_seq q) p" "parser_goes_on apps (sess tbl e)"
  shows "\<exists>tbl' w'. process_data_packet ops apps tbl w e side p = Inr (tbl', w') \<and>
    data_step apps strm tbl w e side (pkt_seg (init_seq q) p) tbl' w'"
  using data_step_stale [OF assms(1,3-5)] data_step_ahead [OF assms(1-5)] data_step_in_order [OF assms(1,3-5) _ _ assms(6)]
  by (meson linorder_not_less)

text \<open>The data packets of one direction, one after the other.\<close>

fun process_data_packets ::
  "'mp rte_mempool_ops \<Rightarrow> 'a ch_tcp_app list \<Rightarrow> ('a, 'mp) session_tbl \<Rightarrow> 'a tcp_world \<Rightarrow> addr \<Rightarrow> ep_side \<Rightarrow> tcp_pkt list \<Rightarrow>
   (('a, 'mp) session_tbl \<times> 'a tcp_world) res"
where
  "process_data_packets ops apps tbl w e side [] = Inr (tbl, w)"
| "process_data_packets ops apps tbl w e side (p # ps) =
     bind_res (process_data_packet ops apps tbl w e side p) (\<lambda>(tbl, w). process_data_packets ops apps tbl w e side ps)"

lemma data_step_refl:
  assumes "memory_ok (w_mm w)" "stream_ok strm (get_ep (sess tbl e) side)"
  shows "data_step apps strm tbl w e side {} tbl w"
  unfolding data_step_def Let_def using assms
  by (intro exI [of _ "as_frag (get_ep (sess tbl e) side)"] exI [of _ "last_offset (get_ep (sess tbl e) side)"] exI [of _ "w_mm w"]
      exI [of _ "[]"]) (simp add: feed_def)

lemma data_step_facts:
  assumes "data_step apps strm tbl w e side seg tbl' w'"
  shows "memory_ok (w_mm w')" "w_env w' = w_env w" "stream_ok strm (get_ep (sess tbl' e) side)"
    "init_seq (get_ep (sess tbl' e) side) = init_seq (get_ep (sess tbl e) side)"
    "received (get_ep (sess tbl' e) side) = received (get_ep (sess tbl e) side) \<union> seg"
    "last_ack (get_ep (sess tbl' e) side) = last_ack (get_ep (sess tbl e) side)"
    "last_offset (get_ep (sess tbl e) side) \<le> last_offset (get_ep (sess tbl' e) side)"
    "parser_goes_on apps (sess tbl e) \<Longrightarrow> parser_goes_on apps (sess tbl' e)"
    "\<exists>cs. w_app w' = feed apps cs (w_app w) \<and> list_all (chunk_of (sess tbl e)) cs \<and>
      concat (map snd cs) = map strm [unat (last_offset (get_ep (sess tbl e) side))..<unat (last_offset (get_ep (sess tbl' e) side))]"
    "fin1_seq (sess tbl' e) = fin1_seq (sess tbl e)" "fin2_seq (sess tbl' e) = fin2_seq (sess tbl e)"
proof -
  let ?s = "sess tbl e"
  let ?q = "get_ep ?s side"
  obtain frs l mm cs where a: "tbl' = entry_store e (set_ep ?s side (?q\<lparr>as_frag := frs, last_offset := l\<rparr>)) tbl"
    "w' = w\<lparr>w_mm := mm, w_app := feed apps cs (w_app w)\<rparr>" "memory_ok mm" "stream_ok strm (?q\<lparr>as_frag := frs, last_offset := l\<rparr>)"
    "received (?q\<lparr>as_frag := frs, last_offset := l\<rparr>) = received ?q \<union> seg" "last_offset ?q \<le> l"
    "concat (map snd cs) = map strm [unat (last_offset ?q)..<unat l]" "list_all (chunk_of ?s) cs"
    using assms unfolding data_step_def Let_def by blast
  have s': "sess tbl' e = set_ep ?s side (?q\<lparr>as_frag := frs, last_offset := l\<rparr>)" by (simp add: a(1))
  show "memory_ok (w_mm w')" "w_env w' = w_env w" using a(2,3) by simp_all
  show "stream_ok strm (get_ep (sess tbl' e) side)" "received (get_ep (sess tbl' e) side) = received ?q \<union> seg"
    using a(4,5) by (simp_all add: s')
  show "init_seq (get_ep (sess tbl' e) side) = init_seq ?q" "last_ack (get_ep (sess tbl' e) side) = last_ack ?q"
    "last_offset ?q \<le> last_offset (get_ep (sess tbl' e) side)" using a(6) by (simp_all add: s')
  show "parser_goes_on apps ?s \<Longrightarrow> parser_goes_on apps (sess tbl' e)" by (simp add: parser_goes_on_def s')
  show "fin1_seq (sess tbl' e) = fin1_seq ?s" "fin2_seq (sess tbl' e) = fin2_seq ?s" by (simp_all add: s')
  show "\<exists>cs. w_app w' = feed apps cs (w_app w) \<and> list_all (chunk_of ?s) cs \<and>
      concat (map snd cs) = map strm [unat (last_offset ?q)..<unat (last_offset (get_ep (sess tbl' e) side))]"
    using a(2,7,8) by (intro exI [of _ cs]) (simp add: s')
qed

lemma data_step_trans:
  assumes "data_step apps strm tbl w e side seg1 tbl1 w1" "data_step apps strm tbl1 w1 e side seg2 tbl2 w2"
  shows "data_step apps strm tbl w e side (seg1 \<union> seg2) tbl2 w2"
proof -
  let ?s = "sess tbl e"
  let ?q = "get_ep ?s side"
  obtain frs1 l1 mm1 cs1 where a: "tbl1 = entry_store e (set_ep ?s side (?q\<lparr>as_frag := frs1, last_offset := l1\<rparr>)) tbl"
    "w1 = w\<lparr>w_mm := mm1, w_app := feed apps cs1 (w_app w)\<rparr>" "received (?q\<lparr>as_frag := frs1, last_offset := l1\<rparr>) = received ?q \<union> seg1"
    "last_offset ?q \<le> l1" "concat (map snd cs1) = map strm [unat (last_offset ?q)..<unat l1]" "list_all (chunk_of ?s) cs1"
    using assms(1) unfolding data_step_def Let_def by blast
  let ?s1 = "set_ep ?s side (?q\<lparr>as_frag := frs1, last_offset := l1\<rparr>)"
  have s1: "sess tbl1 e = ?s1" by (simp add: a(1))
  obtain frs2 l2 mm2 cs2 where b: "tbl2 = entry_store e (set_ep ?s1 side (get_ep ?s1 side\<lparr>as_frag := frs2, last_offset := l2\<rparr>)) tbl1"
    "w2 = w1\<lparr>w_mm := mm2, w_app := feed apps cs2 (w_app w1)\<rparr>" "memory_ok mm2"
    "stream_ok strm (get_ep ?s1 side\<lparr>as_frag := frs2, last_offset := l2\<rparr>)"
    "received (get_ep ?s1 side\<lparr>as_frag := frs2, last_offset := l2\<rparr>) = received (get_ep ?s1 side) \<union> seg2"
    "last_offset (get_ep ?s1 side) \<le> l2" "concat (map snd cs2) = map strm [unat (last_offset (get_ep ?s1 side))..<unat l2]"
    "list_all (chunk_of ?s1) cs2"
    using assms(2) unfolding data_step_def Let_def s1 by blast
  have c: "chunk_of ?s1 = chunk_of ?s" by (simp add: chunk_of_def fun_eq_iff)
  have cs: "concat (map snd (cs1 @ cs2)) = map strm [unat (last_offset ?q)..<unat l2]"
    using a(4,5) b(6,7) map_upt_join by (simp add: word_le_unat)
  show ?thesis unfolding data_step_def Let_def using a b c cs
    by (intro exI [of _ frs2] exI [of _ l2] exI [of _ mm2] exI [of _ "cs1 @ cs2"]) (auto simp: feed_append)
qed

lemma process_data_packets_ok:
  assumes "memory_ok (w_mm w)" "\<forall>n. malloc_ok (w_env w) n" "stream_ok strm (get_ep (sess tbl e) side)"
    "\<forall>p\<in>set ps. carries strm (init_seq (get_ep (sess tbl e) side)) p" "parser_goes_on apps (sess tbl e)"
  shows "\<exists>tbl' w'. process_data_packets ops apps tbl w e side ps = Inr (tbl', w') \<and>
    data_step apps strm tbl w e side (\<Union>p\<in>set ps. pkt_seg (init_seq (get_ep (sess tbl e) side)) p) tbl' w'"
  using assms
proof (induction ps arbitrary: tbl w)
  case Nil
  then show ?case by (simp add: data_step_refl)
next
  case (Cons p ps)
  let ?iseq = "init_seq (get_ep (sess tbl e) side)"
  obtain tbl1 w1 where p: "process_data_packet ops apps tbl w e side p = Inr (tbl1, w1)"
    "data_step apps strm tbl w e side (pkt_seg ?iseq p) tbl1 w1"
    using data_step_ok [OF Cons.prems(1,2) refl Cons.prems(3) _ Cons.prems(5), of p ops] Cons.prems(4) by auto
  note f = data_step_facts [OF p(2)]
  have "\<forall>n. malloc_ok (w_env w1) n" "\<forall>p\<in>set ps. carries strm (init_seq (get_ep (sess tbl1 e) side)) p"
    using Cons.prems(2,4) f(2,4) by auto
  then obtain tbl2 w2 where "process_data_packets ops apps tbl1 w1 e side ps = Inr (tbl2, w2)"
    "data_step apps strm tbl1 w1 e side (\<Union>p\<in>set ps. pkt_seg ?iseq p) tbl2 w2"
    using Cons.IH [OF f(1) _ f(3) _ f(8) [OF Cons.prems(5)]] f(4) by auto
  then show ?case using p data_step_trans [OF p(2)] by auto
qed

section \<open>Closing a session\<close>

declare entry_store_fields [simp]

lemma store_cong: "d = d' \<Longrightarrow> entry_store e d tbl = entry_store e d' tbl"
  by simp

lemma endpoint_get_upd [simp]:
  "ch_tcp_session_endpoint_get (s\<lparr>cur_ep := c\<rparr>) p = ch_tcp_session_endpoint_get s p"
  "ch_tcp_session_endpoint_get (s\<lparr>fin1_seq := n\<rparr>) p = ch_tcp_session_endpoint_get s p"
  "ch_tcp_session_endpoint_get (s\<lparr>fin2_seq := n\<rparr>) p = ch_tcp_session_endpoint_get s p"
  "ch_tcp_session_endpoint_get (s\<lparr>four_way_state := f\<rparr>) p = ch_tcp_session_endpoint_get s p"
  by (simp_all add: ch_tcp_session_endpoint_get_def)

definition session_ready :: "('a, 'mp) session_tbl \<Rightarrow> 'a tcp_world \<Rightarrow> addr \<Rightarrow> bool" where
  "session_ready tbl w e \<longleftrightarrow> ptable_ok tbl \<and> e \<in> members tbl \<and> entry_clean tbl = Some tcp_session_entry_clean \<and>
     memory_ok (w_mm w) \<and> session_wf (sess tbl e)"

lemma entry_clean_session:
  "\<exists>a'. ch_tcp_app_session_entry_clean apps s a = (s\<lparr>sentry := None\<rparr>, a')"
  by (cases "sentry s") (auto simp: ch_tcp_app_session_entry_clean_def Let_def)

lemma close_ok:
  assumes "session_ready tbl w e"
  shows "\<exists>tbl' w'. tcp_session_close ops apps tbl w e = Inr (tbl', w') \<and> ptable_ok tbl' \<and> members tbl' = members tbl - {e} \<and>
    memory_ok (w_mm w') \<and> session_wf (sess tbl' e) \<and> entry_clean tbl' = Some tcp_session_entry_clean \<and>
    timeout_entries tbl' = timeout_entries tbl \<and> ch_entry_pool_free ops (ep tbl) e = Inr (ep tbl') \<and>
    (\<forall>side. get_ep (sess tbl' e) side = (get_ep (sess tbl e) side)\<lparr>as_frag := []\<rparr>) \<and> sentry (sess tbl' e) = None \<and>
    four_way_state (sess tbl' e) = four_way_state (sess tbl e) \<and> (\<forall>a. a \<noteq> e \<longrightarrow> sess tbl' a = sess tbl a) \<and>
    free_seq (ch_memory_free (w_env w)) (w_mm w) (map fblock (as_frag (endpoint_req (sess tbl e)) @ as_frag (endpoint_res (sess tbl e)))) =
      Inr (w_mm w')"
proof -
  note r = assms [unfolded session_ready_def]
  obtain a' where c: "ch_tcp_app_session_entry_clean apps (sess tbl e) (w_app w) = ((sess tbl e)\<lparr>sentry := None\<rparr>, a')"
    using entry_clean_session [of apps "sess tbl e" "w_app w"] by blast
  let ?t = "entry_store e ((sess tbl e)\<lparr>sentry := None\<rparr>) tbl" and ?w = "w\<lparr>w_app := a'\<rparr>"
  let ?s = "(sess tbl e)\<lparr>sentry := None, endpoint_req := (endpoint_req (sess tbl e))\<lparr>as_frag := []\<rparr>,
      endpoint_res := (endpoint_res (sess tbl e))\<lparr>as_frag := []\<rparr>\<rparr>"
  obtain mm where mm: "ch_tcp_session_fin (w_env w) (w_mm w) ((sess tbl e)\<lparr>sentry := None\<rparr>) = Inr (mm, ?s)" "memory_ok mm"
    "free_seq (ch_memory_free (w_env w)) (w_mm w) (map fblock (as_frag (endpoint_req (sess tbl e)) @ as_frag (endpoint_res (sess tbl e)))) = Inr mm"
    using session_fin_ok [of "w_mm w" "(sess tbl e)\<lparr>sentry := None\<rparr>" "w_env w"] r by (auto simp: session_wf_def)
  have cb: "run_callbacks ?t (sess ?t e) 0 ?w = Inr (?s, ?w\<lparr>w_mm := mm\<rparr>)"
    using r mm(1) by (simp add: run_callbacks_def tcp_session_entry_clean_def)
  have ok: "ptable_ok ?t" "e \<in> members ?t" using r by auto
  obtain tbl' where t: "tbl_entry_free ops ?t ?w e 0 = Inr (tbl', ?w\<lparr>w_mm := mm\<rparr>)" "ptable_ok tbl'" "members tbl' = members tbl - {e}"
    "heap tbl' = (heap ?t)(e := (heap ?t e)\<lparr>pdata := ?s\<rparr>)" "timeout_entries tbl' = timeout_entries tbl"
    "entry_clean tbl' = entry_clean tbl" "ch_entry_pool_free ops (ep tbl) e = Inr (ep tbl')"
    using entry_free_step [OF ok cb, of ops] by auto
  have s': "sess tbl' e = ?s" using t(4) by simp
  have g: "get_ep ?s side = (get_ep (sess tbl e) side)\<lparr>as_frag := []\<rparr>" for side by (cases side) simp_all
  have wf: "session_wf ?s" by (simp add: session_wf_def ep_wf_def ring_ok_def)
  have other: "sess tbl' a = sess tbl a" if "a \<noteq> e" for a using t(4) that by (simp add: entry_store_heap)
  show ?thesis using t mm(2,3) r g wf other unfolding s'
    by (intro exI [of _ tbl'] exI [of _ "?w\<lparr>w_mm := mm\<rparr>"])
       (simp add: tcp_session_close_def c ch_tcp_session_pool_entry_free_def ch_ptable_entry_free_def)
qed

text \<open>Closing it again gives the object back a second time.\<close>

lemma close_again:
  assumes r: "session_ready tbl0 w0 e" "ch_entry_pool_free ops (ep tbl0) e = Inr (ep tbl)"
    and c: "entry_clean tbl = Some tcp_session_entry_clean" "memory_ok (w_mm w)" "session_wf (sess tbl e)"
  shows "tcp_session_close ops apps tbl w e = Inl Double_Free"
proof -
  have twice: "ch_entry_pool_free ops (ep tbl) e = Inl Double_Free"
    using ep.put_twice [OF _ _ r(2)] r(1) by (auto simp: session_ready_def ptable_ok_def buckets_ok_def)
  obtain a' where a: "ch_tcp_app_session_entry_clean apps (sess tbl e) (w_app w) = ((sess tbl e)\<lparr>sentry := None\<rparr>, a')"
    using entry_clean_session [of apps "sess tbl e" "w_app w"] by blast
  obtain mm s' where mm: "ch_tcp_session_fin (w_env w) (w_mm w) ((sess tbl e)\<lparr>sentry := None\<rparr>) = Inr (mm, s')"
    using session_fin_ok [of "w_mm w" "(sess tbl e)\<lparr>sentry := None\<rparr>" "w_env w"] c by (auto simp: session_wf_def)
  show ?thesis
    by (simp add: tcp_session_close_def a ch_tcp_session_pool_entry_free_def ch_ptable_entry_free_def tbl_entry_free_def
        tbl_entry_unlink_def Let_def c(1) tcp_session_entry_clean_def mm twice)
qed

text \<open>The packet next in order whose data the parser refuses: the session is closed.\<close>

lemma process_data_break:
  assumes r: "session_ready tbl w e" and q: "q = get_ep (sess tbl e) side"
    and p: "carries strm (init_seq q) p" "pkt_off (init_seq q) p = unat (last_offset q)"
    and brk: "\<forall>s d a. fst (content_data_output apps s d a) = PARSE_BREAK"
  shows "\<exists>tbl1 w1. process_data_packet ops apps tbl w e side p = Inr (tbl1, w1) \<and> members tbl1 = members tbl - {e} \<and>
    ch_entry_pool_free ops (ep tbl) e = Inr (ep tbl1) \<and> entry_clean tbl1 = Some tcp_session_entry_clean \<and>
    memory_ok (w_mm w1) \<and> session_wf (sess tbl1 e) \<and> last_ack (get_ep (sess tbl1 e) side) = last_ack q \<and>
    last_offset (get_ep (sess tbl1 e) side) = last_offset q + payload_len p"
proof -
  let ?l = "sent_seq p - init_seq q + payload_len p"
  let ?s = "set_ep (sess tbl e) side (q\<lparr>last_offset := ?l\<rparr>)" and ?bs = "map strm [unat (last_offset q)..<unat ?l]"
  have off: "sent_seq p - init_seq q = last_offset q" using p(2) by (simp add: pkt_off_def word_unat_eq_iff)
  have n: "payload_len p > 0" using p(1) by (simp add: carries_def)
  then have lt: "unat (last_offset q) < pkt_off (init_seq q) p + unat (payload_len p)" using p(2) by (simp add: word_less_unat)
  have rd: "read_data (map_option (drop (unat (last_offset q - (sent_seq p - init_seq q)))) (tp_data p))
      (payload_len p - (last_offset q - (sent_seq p - init_seq q))) = Inr ?bs"
    using payload_rest [OF p(1) _ lt] p(2) carries_nat [OF p(1)] by simp
  obtain a where out: "content_data_output apps ?s ?bs (w_app w) = (PARSE_BREAK, a)"
    using brk by (metis prod.collapse)
  have c: "\<not> ?l \<le> last_offset q" "\<not> sent_seq p - init_seq q > last_offset q"
    using carries_nat [OF p(1)] lt off by (simp_all add: word_le_unat)
  have ev: "process_data_packet ops apps tbl w e side p = tcp_session_close ops apps (entry_store e ?s tbl) (w\<lparr>w_app := a\<rparr>) e"
    unfolding process_data_packet_def Let_def q [symmetric] ch_tcp_session_endpoint_offset_get_def
    using c by (simp add: rd out)
  have ready: "session_ready (entry_store e ?s tbl) (w\<lparr>w_app := a\<rparr>) e"
    using r q by (cases side) (simp_all add: session_ready_def session_wf_def ep_wf_def)
  show ?thesis using close_ok [OF ready, of ops apps] by (fastforce simp: ev off)
qed

lemma session_packet_do_step:
  assumes "memory_ok (w_mm w)" "\<forall>n. malloc_ok (w_env w) n" "ch_tcp_session_endpoint_get (sess tbl e) p = Some side"
    "q = get_ep (sess tbl e) side" "stream_ok strm q" "carries strm (init_seq q) p" "last_ack q \<le> last_offset q"
    "parser_goes_on apps ((sess tbl e)\<lparr>cur_ep := Some side\<rparr>)"
    "\<not> is_tcp_fin_packet p" "\<not> is_tcp_rst_packet p" "\<not> is_fin1_ack (sess tbl e) p" "\<not> is_fin2_ack (sess tbl e) p"
  shows "\<exists>tbl' w'. session_packet_do ops apps tbl w e p = Inr (tbl', w') \<and>
    data_step apps strm (entry_store e ((sess tbl e)\<lparr>cur_ep := Some side\<rparr>) tbl) w e side (pkt_seg (init_seq q) p) tbl' w'"
proof -
  let ?t = "entry_store e ((sess tbl e)\<lparr>cur_ep := Some side\<rparr>) tbl"
  have g: "get_ep (sess ?t e) side = q" using assms(4) by (cases side) simp_all
  obtain tbl' w' where d: "process_data_packet ops apps ?t w e side p = Inr (tbl', w')"
    "data_step apps strm ?t w e side (pkt_seg (init_seq q) p) tbl' w'"
    using data_step_ok [OF assms(1,2) g [symmetric] assms(5,6), of apps ops] assms(8) by auto
  note f = data_step_facts [OF d(2), unfolded g]
  obtain dt where dt: "tp_data p = Some dt" using assms(6) by (auto simp: carries_def)
  have "\<not> last_ack (get_ep (sess tbl' e) side) > last_offset (get_ep (sess tbl' e) side)"
    using f(6,7) assms(7) by (simp add: not_less)
  moreover have "\<not> is_fin1_ack (sess tbl' e) p" "\<not> is_fin2_ack (sess tbl' e) p"
    using assms(11,12) f(10,11) by (simp_all add: is_fin1_ack_def is_fin2_ack_def)
  ultimately have "session_packet_do ops apps tbl w e p = Inr (tbl', w')"
    using assms(3,9,10) d(1) dt by (simp add: session_packet_do_def Let_def)
  then show ?thesis using d(2) by blast
qed

text \<open>Packets of one session, one after the other.\<close>

fun session_packets ::
  "'mp rte_mempool_ops \<Rightarrow> 'a ch_tcp_app list \<Rightarrow> ('a, 'mp) session_tbl \<Rightarrow> 'a tcp_world \<Rightarrow> addr \<Rightarrow> tcp_pkt list \<Rightarrow>
   (('a, 'mp) session_tbl \<times> 'a tcp_world) res"
where
  "session_packets ops apps tbl w e [] = Inr (tbl, w)"
| "session_packets ops apps tbl w e (p # ps) =
     bind_res (session_packet_do ops apps tbl w e p) (\<lambda>(tbl, w). session_packets ops apps tbl w e ps)"

section \<open>Properties\<close>

text \<open>
  C1. In-order delivery: the data packets of one direction of a new session come in any order,
  overlapping and repeated, and cover the offsets from 0 to \<open>n\<close>. Then no packet faults, the
  bytes that the parser gets, taken together, are exactly the bytes of the stream from 0 to
  \<open>n\<close> in order, and at the end nothing is left in the ring and the next offset is \<open>n\<close>.
\<close>

theorem tcp_in_order_delivery:
  assumes "memory_ok (w_mm w)" "\<forall>n. malloc_ok (w_env w) n" "q = get_ep (sess tbl e) side" "as_frag q = []" "last_offset q = 0"
    "\<forall>p\<in>set ps. carries strm (init_seq q) p" "parser_goes_on apps (sess tbl e)" "(\<Union>p\<in>set ps. pkt_seg (init_seq q) p) = {0..<n}"
  shows "\<exists>tbl' w' cs. process_data_packets ops apps tbl w e side ps = Inr (tbl', w') \<and>
    w_app w' = feed apps cs (w_app w) \<and> list_all (chunk_of (sess tbl e)) cs \<and> concat (map snd cs) = map strm [0..<n] \<and>
    unat (last_offset (get_ep (sess tbl' e) side)) = n \<and> as_frag (get_ep (sess tbl' e) side) = [] \<and> memory_ok (w_mm w')"
proof -
  have st: "stream_ok strm (get_ep (sess tbl e) side)" using assms(3,4) by (simp add: stream_ok_def ring_ok_def cover_def)
  obtain tbl' w' where p: "process_data_packets ops apps tbl w e side ps = Inr (tbl', w')"
    "data_step apps strm tbl w e side {0..<n} tbl' w'"
    using process_data_packets_ok [OF assms(1,2) st _ assms(7), of ps ops] assms(3,6,8) by auto
  note f = data_step_facts [OF p(2)]
  let ?q = "get_ep (sess tbl' e) side"
  have rec: "received ?q = {0..<n}" using f(5) assms(3,4,5) by (simp add: received_def cover_def)
  have l: "unat (last_offset ?q) = n"
    using stream_ok_first_gap(1) [OF f(3)] stream_ok_first_gap(2) [OF f(3), of n] rec
    by (metis atLeastLessThan_iff le_less_linear less_irrefl linorder_neqE_nat zero_le)
  have "cover (as_frag ?q) \<subseteq> {0..<n}" "cover (as_frag ?q) \<subseteq> {n<..}" using f(3) rec l by (auto simp: stream_ok_def received_def)
  then have "cover (as_frag ?q) = {}" by fastforce
  moreover have "cover (as_frag ?q) \<noteq> {}" if "as_frag ?q \<noteq> []"
    using f(3) that by (cases "as_frag ?q") (auto simp: stream_ok_def ring_ok_def frag_ok_def cover_def)
  ultimately show ?thesis using p(1) f(1,9) l assms(3,5) by auto
qed

text \<open>
  C28. One packet of a session, at any point of the stream: a data packet that does not end the
  session adds its segment to what was received; the parser of the session and of this direction gets exactly the bytes from the
  old to the new next offset, in order, and the new next offset is the first one that has not been received. The session stays open.
\<close>

theorem session_packet_do_data:
  assumes "memory_ok (w_mm w)" "\<forall>n. malloc_ok (w_env w) n" "ch_tcp_session_endpoint_get (sess tbl e) p = Some side"
    "q = get_ep (sess tbl e) side" "stream_ok strm q" "carries strm (init_seq q) p" "last_ack q \<le> last_offset q"
    "parser_goes_on apps ((sess tbl e)\<lparr>cur_ep := Some side\<rparr>)"
    "\<not> is_tcp_fin_packet p" "\<not> is_tcp_rst_packet p" "\<not> is_fin1_ack (sess tbl e) p" "\<not> is_fin2_ack (sess tbl e) p"
  shows "\<exists>tbl' w' cs q'. session_packet_do ops apps tbl w e p = Inr (tbl', w') \<and> members tbl' = members tbl \<and>
    q' = get_ep (sess tbl' e) side \<and> received q' = received q \<union> pkt_seg (init_seq q) p \<and> stream_ok strm q' \<and>
    last_offset q \<le> last_offset q' \<and> unat (last_offset q') = (LEAST n. n \<notin> received q \<union> pkt_seg (init_seq q) p) \<and>
    w_app w' = feed apps cs (w_app w) \<and> concat (map snd cs) = map strm [unat (last_offset q)..<unat (last_offset q')] \<and>
    (\<forall>s\<in>set (map fst cs). s_app s = s_app (sess tbl e) \<and> sentry s = sentry (sess tbl e) \<and> cur_ep s = Some side)"
proof -
  let ?t = "entry_store e ((sess tbl e)\<lparr>cur_ep := Some side\<rparr>) tbl"
  have g: "get_ep (sess ?t e) side = q" using assms(4) by (cases side) simp_all
  obtain tbl' w' where d: "session_packet_do ops apps tbl w e p = Inr (tbl', w')"
    "data_step apps strm ?t w e side (pkt_seg (init_seq q) p) tbl' w'"
    using session_packet_do_step [OF assms] by blast
  note f = data_step_facts [OF d(2), unfolded g]
  have m: "members tbl' = members tbl" using d(2) by (auto simp: data_step_def Let_def)
  obtain cs where cs: "w_app w' = feed apps cs (w_app w)" "list_all (chunk_of (sess ?t e)) cs"
    "concat (map snd cs) = map strm [unat (last_offset q)..<unat (last_offset (get_ep (sess tbl' e) side))]" using f(9) by blast
  have fst: "\<forall>s\<in>set (map fst cs). s_app s = s_app (sess tbl e) \<and> sentry s = sentry (sess tbl e) \<and> cur_ep s = Some side"
    using cs(2) by (auto simp: list_all_iff chunk_of_def)
  have "unat (last_offset (get_ep (sess tbl' e) side)) = (LEAST n. n \<notin> received q \<union> pkt_seg (init_seq q) p)"
    unfolding f(5) [symmetric] by (rule stream_ok_least [OF f(3)])
  then show ?thesis using d(1) m f(3,5,7) cs(1,3) fst by blast
qed

text \<open>
  C36. A packet whose data the parser refuses closes the session, and if the packet also carries
  the RST flag the handler closes the session a second time: the object is put back into the
  pool twice. \<^verbatim>\<open>ch_tcp_session_packet_handle\<close> goes on after \<^verbatim>\<open>_process_data_packet\<close> has closed
  the session.
\<close>

theorem refused_data_with_rst_double_free:
  assumes "session_ready tbl w e" "ch_tcp_session_endpoint_get (sess tbl e) p = Some side" "q = get_ep (sess tbl e) side"
    "carries strm (init_seq q) p" "pkt_off (init_seq q) p = unat (last_offset q)" "last_ack q \<le> last_offset q + payload_len p"
    "\<forall>s d a. fst (content_data_output apps s d a) = PARSE_BREAK" "\<not> is_tcp_fin_packet p" "is_tcp_rst_packet p"
  shows "ch_tcp_session_packet_handle ops apps tbl w e p = Inl Double_Free"
proof -
  let ?t = "entry_store e ((sess tbl e)\<lparr>cur_ep := Some side\<rparr>) tbl"
  have g: "get_ep (sess ?t e) side = q" using assms(3) by (cases side) simp_all
  have r: "session_ready ?t w e" using assms(1) by (simp add: session_ready_def session_wf_def)
  obtain tbl1 w1 where c: "process_data_packet ops apps ?t w e side p = Inr (tbl1, w1)"
    "ch_entry_pool_free ops (ep ?t) e = Inr (ep tbl1)" "entry_clean tbl1 = Some tcp_session_entry_clean"
    "memory_ok (w_mm w1)" "session_wf (sess tbl1 e)" "last_ack (get_ep (sess tbl1 e) side) = last_ack q"
    "last_offset (get_ep (sess tbl1 e) side) = last_offset q + payload_len p"
    using process_data_break [OF r g [symmetric] assms(4,5,7), of ops] by blast
  have "tcp_session_close ops apps tbl1 w1 e = Inl Double_Free" by (rule close_again [OF r c(2-5)])
  moreover obtain dt where "tp_data p = Some dt" using assms(4) by (auto simp: carries_def)
  ultimately have "session_packet_do ops apps tbl w e p = Inl Double_Free"
    using assms(2,6,8,9) c(1,6,7) by (simp add: session_packet_do_def Let_def process_rst_packet_def not_less)
  then show ?thesis by (simp add: ch_tcp_session_packet_handle_def)
qed

text \<open>
  C27. The four-way close: FIN, its acknowledgement, the FIN of the other side and its
  acknowledgement, none of them with data, take the session through the four states
  \<^verbatim>\<open>FIN1\<close>, \<^verbatim>\<open>FIN1_ACK\<close>, \<^verbatim>\<open>FIN2\<close>, \<^verbatim>\<open>FIN2_ACK\<close>. With the first three it stays in the table and nothing outside it changes; the
  last one closes it: the blocks of the fragments of both directions are given back to the allocator, each once, its object is
  given back to the pool, and the other sessions are as they were.
\<close>

theorem four_way_close:
  assumes r: "session_ready tbl w e" and init: "four_way_state (sess tbl e) = FOUR_WAY_INIT"
    and ep: "\<forall>p\<in>set [p1, p2, p3, p4]. ch_tcp_session_endpoint_get (sess tbl e) p \<noteq> None \<and> tp_data p = None \<and> \<not> is_tcp_rst_packet p"
    and fin: "is_tcp_fin_packet p1" "\<not> is_tcp_fin_packet p2" "is_tcp_fin_packet p3" "\<not> is_tcp_fin_packet p4"
    and ack: "tcp_flags p2 AND CH_TH_ACK \<noteq> 0" "recv_ack p2 = sent_seq p1 + 1" "tcp_flags p4 AND CH_TH_ACK \<noteq> 0"
      "recv_ack p4 = sent_seq p3 + 1" "sent_seq p1 \<noteq> sent_seq p3"
  shows "\<exists>tbl1 tbl2 tbl3 tbl4 w4.
    session_packet_do ops apps tbl w e p1 = Inr (tbl1, w) \<and> four_way_state (sess tbl1 e) = FOUR_WAY_FIN1 \<and> members tbl1 = members tbl \<and>
    session_packet_do ops apps tbl1 w e p2 = Inr (tbl2, w) \<and> four_way_state (sess tbl2 e) = FOUR_WAY_FIN1_ACK \<and> members tbl2 = members tbl \<and>
    session_packet_do ops apps tbl2 w e p3 = Inr (tbl3, w) \<and> four_way_state (sess tbl3 e) = FOUR_WAY_FIN2 \<and> members tbl3 = members tbl \<and>
    session_packet_do ops apps tbl3 w e p4 = Inr (tbl4, w4) \<and> four_way_state (sess tbl4 e) = FOUR_WAY_FIN2_ACK \<and>
    members tbl4 = members tbl - {e} \<and> ptable_ok tbl4 \<and> memory_ok (w_mm w4) \<and>
    free_seq (ch_memory_free (w_env w)) (w_mm w) (map fblock (as_frag (endpoint_req (sess tbl e)) @ as_frag (endpoint_res (sess tbl e)))) =
      Inr (w_mm w4) \<and>
    ch_entry_pool_free ops (ep tbl) e = Inr (ep tbl4) \<and> (\<forall>a. a \<noteq> e \<longrightarrow> sess tbl4 a = sess tbl a)"
proof -
  let ?s = "sess tbl e"
  obtain s1 s2 s3 s4 where g: "ch_tcp_session_endpoint_get ?s p1 = Some s1" "ch_tcp_session_endpoint_get ?s p2 = Some s2"
    "ch_tcp_session_endpoint_get ?s p3 = Some s3" "ch_tcp_session_endpoint_get ?s p4 = Some s4"
    using ep by auto
  let ?s3 = "?s\<lparr>cur_ep := Some s3, fin1_seq := sent_seq p1, fin2_seq := sent_seq p3, four_way_state := FOUR_WAY_FIN2\<rparr>"
  have d: "tp_data p1 = None" "tp_data p2 = None" "tp_data p3 = None" "tp_data p4 = None"
      "\<not> is_tcp_rst_packet p1" "\<not> is_tcp_rst_packet p2" "\<not> is_tcp_rst_packet p3" "\<not> is_tcp_rst_packet p4"
    using ep by auto
  have e1: "session_packet_do ops apps tbl w e p1 =
      Inr (entry_store e (?s\<lparr>cur_ep := Some s1, fin1_seq := sent_seq p1, four_way_state := FOUR_WAY_FIN1\<rparr>) tbl, w)"
    using g(1) d fin init by (simp add: session_packet_do_def process_fin_packet_def)
  have e2: "session_packet_do ops apps (entry_store e (?s\<lparr>cur_ep := Some s1, fin1_seq := sent_seq p1, four_way_state := FOUR_WAY_FIN1\<rparr>) tbl) w e p2 =
      Inr (entry_store e (?s\<lparr>cur_ep := Some s2, fin1_seq := sent_seq p1, four_way_state := FOUR_WAY_FIN1_ACK\<rparr>) tbl, w)"
    using g(2) d fin ack
    by (simp add: session_packet_do_def is_fin1_ack_def process_fin1_ack_packet_def) (rule store_cong, simp)
  have e3: "session_packet_do ops apps (entry_store e (?s\<lparr>cur_ep := Some s2, fin1_seq := sent_seq p1, four_way_state := FOUR_WAY_FIN1_ACK\<rparr>) tbl) w e p3 =
      Inr (entry_store e ?s3 tbl, w)"
    using g(3) d fin
    by (simp add: session_packet_do_def process_fin_packet_def) (rule store_cong, simp)
  let ?t = "entry_store e (?s3\<lparr>cur_ep := Some s4, four_way_state := FOUR_WAY_FIN2_ACK\<rparr>) tbl"
  have e4: "session_packet_do ops apps (entry_store e ?s3 tbl) w e p4 = tcp_session_close ops apps ?t w e"
    using g(4) d fin ack
    by (simp add: session_packet_do_def is_fin1_ack_def is_fin2_ack_def process_fin2_ack_packet_def)
  have "session_ready ?t w e" using r by (simp add: session_ready_def session_wf_def)
  from close_ok [OF this, of ops apps]
  obtain tbl4 w4 where c: "tcp_session_close ops apps ?t w e = Inr (tbl4, w4)" "ptable_ok tbl4" "members tbl4 = members ?t - {e}"
    "memory_ok (w_mm w4)" "ch_entry_pool_free ops (ep ?t) e = Inr (ep tbl4)" "four_way_state (sess tbl4 e) = four_way_state (sess ?t e)"
    "\<forall>a. a \<noteq> e \<longrightarrow> sess tbl4 a = sess ?t a"
    "free_seq (ch_memory_free (w_env w)) (w_mm w) (map fblock (as_frag (endpoint_req (sess ?t e)) @ as_frag (endpoint_res (sess ?t e)))) = Inr (w_mm w4)"
    by blast
  show ?thesis
    by (rule exI, rule exI, rule exI, rule exI [of _ tbl4], rule exI [of _ w4], intro conjI, rule e1, simp, simp, rule e2, simp, simp, rule e3)
      (use c e4 in \<open>simp_all add: entry_store_heap\<close>)
qed

text \<open>
  The acknowledgement of a FIN that carries data is not recognised: the handler remembers
  the sequence number of the packet as that of the FIN, which is the one behind the data.
\<close>

theorem fin_with_data_ack_missed:
  assumes "four_way_state s = FOUR_WAY_INIT" "payload_len p > 0" "recv_ack ack = sent_seq p + payload_len p + 1"
  shows "fin1_seq (process_fin_packet s p) = sent_seq p \<and> \<not> is_fin1_ack (process_fin_packet s p) ack"
  using assms by (auto simp: process_fin_packet_def is_fin1_ack_def)

section \<open>Witnesses\<close>

text \<open>An application that collects what it gets, and one that refuses all data.\<close>

definition collector :: "bytes ch_tcp_app" where
  "collector = \<lparr>protocol_id = 1, find_by_port = Some (\<lambda>p a. (Some 0, a)), find_by_content = None,
     proto_session_entry_create = Some (\<lambda>a. (Some 9000, a)), proto_session_entry_clean = None,
     request_content_parse = Some (\<lambda>s d a. (PARSE_CONTINUE, a @ d)), response_content_parse = Some (\<lambda>s d a. (PARSE_CONTINUE, a @ d))\<rparr>"

definition refuser :: "bytes ch_tcp_app" where
  "refuser = collector\<lparr>request_content_parse := None, response_content_parse := None\<rparr>"

lemma collector_goes_on: "parser_goes_on [collector] (sample_session\<lparr>cur_ep := c\<rparr>)"
  by (auto simp: parser_goes_on_def content_data_output_def ch_tcp_app_request_content_parse_def get_app_def
      ch_tcp_app_response_content_parse_def collector_def sample_session_simps PARSE_CONTINUE_def PARSE_BREAK_def)

lemma refuser_breaks: "fst (content_data_output [refuser] s d a) = PARSE_BREAK"
  by (auto simp: content_data_output_def ch_tcp_app_request_content_parse_def get_app_def
      ch_tcp_app_response_content_parse_def refuser_def split: option.splits)

lemma sample_carries:
  "carries sample_strm 101 (sample_tpkt 1000 [3, 4] 104)" "carries sample_strm 101 (sample_tpkt 1000 [0, 1, 2, 3] 101)"
  "pkt_seg 101 (sample_tpkt 1000 [3, 4] 104) = {3..<5}" "pkt_seg 101 (sample_tpkt 1000 [0, 1, 2, 3] 101) = {0..<4}"
  by (simp_all add: carries_def sample_tpkt_def pkt_off_def pkt_seg_def sample_strm_def upt_rec)

lemma sample_ep:
  "sess sample_stbl e = sample_session" "get_ep sample_session EP_REQ = endpoint_req sample_session"
  "as_frag (endpoint_req sample_session) = []" "last_offset (endpoint_req sample_session) = 0"
  "init_seq (endpoint_req sample_session) = 101" "last_ack (endpoint_req sample_session) = 0"
  by (simp_all add: sample_stbl_def sample_session_simps)

lemma sample_world_ok: "memory_ok (w_mm sample_world)" "\<forall>n. malloc_ok (w_env sample_world) n"
  by (simp_all add: sample_world_def memory_ok_create sample_env_def)

lemma sample_ready: "session_ready sample_stbl sample_world 4120"
proof -
  have "session_wf sample_session" unfolding sample_session_def by (rule session_init_wf)
  moreover have "entry_clean sample_stbl = Some tcp_session_entry_clean" by (simp add: sample_stbl_def)
  ultimately show ?thesis using sample_stbl_ok(1) sample_world_ok(1) by (simp add: session_ready_def sample_smembers sample_ep)
qed

lemma sample_side: "ch_tcp_session_endpoint_get sample_session (sample_tpkt 1000 d seq) = Some EP_REQ"
  by (simp add: ch_tcp_session_endpoint_get_def endpoint_is_request_def sample_session_simps sample_tpkt_def)

theorem tcp_in_order_delivery_witness:
  "\<exists>tbl' w' cs. process_data_packets sample_ops [collector] sample_stbl sample_world 4120 EP_REQ
      [sample_tpkt 1000 [3, 4] 104, sample_tpkt 1000 [0, 1, 2, 3] 101] = Inr (tbl', w') \<and>
    w_app w' = feed [collector] cs [] \<and> concat (map snd cs) = map sample_strm [0..<5]"
proof -
  let ?ps = "[sample_tpkt 1000 [3, 4] 104, sample_tpkt 1000 [0, 1, 2, 3] 101]" and ?q = "endpoint_req sample_session"
  have c: "\<forall>p\<in>set ?ps. carries sample_strm (init_seq ?q) p" using sample_carries by (simp add: sample_ep)
  have u: "(\<Union>p\<in>set ?ps. pkt_seg (init_seq ?q) p) = {0..<5}" by (auto simp: sample_ep sample_carries)
  have q: "?q = get_ep (sess sample_stbl 4120) EP_REQ" by (simp add: sample_ep)
  have g: "parser_goes_on [collector] (sess sample_stbl 4120)"
    using collector_goes_on [of "cur_ep sample_session"] by (simp add: sample_ep)
  show ?thesis using tcp_in_order_delivery [OF sample_world_ok q sample_ep(3,4) c g u, of sample_ops]
    by (auto simp: sample_world_def)
qed

theorem session_packet_do_data_witness:
  "\<exists>tbl' w' cs. session_packet_do sample_ops [collector] sample_stbl sample_world 4120 (sample_tpkt 1000 [0, 1, 2, 3] 101) = Inr (tbl', w') \<and>
    received (get_ep (sess tbl' 4120) EP_REQ) = {0..<4} \<and> unat (last_offset (get_ep (sess tbl' 4120) EP_REQ)) = 4 \<and>
    w_app w' = feed [collector] cs [] \<and> concat (map snd cs) = [0, 1, 2, 3]"
proof -
  let ?p = "sample_tpkt 1000 [0, 1, 2, 3] 101" and ?q = "endpoint_req sample_session"
  have e: "ch_tcp_session_endpoint_get (sess sample_stbl 4120) ?p = Some EP_REQ" "?q = get_ep (sess sample_stbl 4120) EP_REQ"
    by (simp_all add: sample_ep sample_side)
  have st: "stream_ok sample_strm ?q" "carries sample_strm (init_seq ?q) ?p" "last_ack ?q \<le> last_offset ?q"
    using sample_carries by (simp_all add: stream_ok_def sample_ep ring_ok_def cover_def)
  have f: "\<not> is_tcp_fin_packet ?p" "\<not> is_tcp_rst_packet ?p" "\<not> is_fin1_ack (sess sample_stbl 4120) ?p" "\<not> is_fin2_ack (sess sample_stbl 4120) ?p"
    by (simp_all add: is_tcp_fin_packet_def is_tcp_rst_packet_def is_fin1_ack_def is_fin2_ack_def sample_tpkt_def CH_TH_ACK_def
        CH_TH_FIN_def CH_TH_RST_def sample_stbl_def sample_session_simps)
  have r: "received ?q \<union> pkt_seg (init_seq ?q) ?p = {0..<4}" by (simp add: received_def sample_ep sample_carries cover_def)
  have g: "parser_goes_on [collector] ((sess sample_stbl 4120)\<lparr>cur_ep := Some EP_REQ\<rparr>)"
    using collector_goes_on by (simp add: sample_ep)
  have l: "(LEAST n. n \<notin> {0..<4::nat}) = 4" by (rule Least_equality) auto
  have o: "unat (last_offset ?q) = 0" by (simp add: sample_ep)
  have m: "map sample_strm [0..<4] = [0, 1, 2, 3]" by (simp add: sample_strm_def upt_rec)
  obtain tbl' w' cs where c: "session_packet_do sample_ops [collector] sample_stbl sample_world 4120 ?p = Inr (tbl', w')"
    "received (get_ep (sess tbl' 4120) EP_REQ) = {0..<4}" "unat (last_offset (get_ep (sess tbl' 4120) EP_REQ)) = (LEAST n. n \<notin> {0..<4::nat})"
    "w_app w' = feed [collector] cs (w_app sample_world)"
    "concat (map snd cs) = map sample_strm [unat (last_offset ?q)..<unat (last_offset (get_ep (sess tbl' 4120) EP_REQ))]"
    using session_packet_do_data [OF sample_world_ok e st g f, of sample_ops] unfolding r by blast
  have "w_app sample_world = []" by (simp add: sample_world_def)
  with c show ?thesis unfolding l o by (intro exI [of _ tbl'] exI [of _ w'] exI [of _ cs]) (simp add: m)
qed

theorem refused_data_with_rst_double_free_witness:
  "ch_tcp_session_packet_handle sample_ops [refuser] sample_stbl sample_world 4120
     ((sample_tpkt 1000 [0, 1, 2, 3] 101)\<lparr>tcp_flags := CH_TH_RST\<rparr>) = Inl Double_Free"
proof -
  let ?p = "(sample_tpkt 1000 [0, 1, 2, 3] 101)\<lparr>tcp_flags := CH_TH_RST\<rparr>" and ?q = "endpoint_req sample_session"
  have e: "ch_tcp_session_endpoint_get (sess sample_stbl 4120) ?p = Some EP_REQ" "?q = get_ep (sess sample_stbl 4120) EP_REQ"
    by (simp_all add: sample_ep ch_tcp_session_endpoint_get_def endpoint_is_request_def sample_session_simps sample_tpkt_def)
  have c: "carries sample_strm (init_seq ?q) ?p" "pkt_off (init_seq ?q) ?p = unat (last_offset ?q)"
      "last_ack ?q \<le> last_offset ?q + payload_len ?p"
    by (simp_all add: sample_ep carries_def sample_tpkt_def pkt_off_def sample_strm_def upt_rec)
  have f: "\<not> is_tcp_fin_packet ?p" "is_tcp_rst_packet ?p"
    by (simp_all add: is_tcp_fin_packet_def is_tcp_rst_packet_def CH_TH_FIN_def CH_TH_RST_def)
  have b: "\<forall>s d a. fst (content_data_output [refuser] s d a) = PARSE_BREAK" by (simp add: refuser_breaks)
  show ?thesis by (rule refused_data_with_rst_double_free [OF sample_ready e c b f])
qed

definition sample_ctl :: "bool \<Rightarrow> u8 \<Rightarrow> u32 \<Rightarrow> u32 \<Rightarrow> tcp_pkt" where
  "sample_ctl back flags seq ack =
     (let p = (sample_tpkt 1000 [] seq)\<lparr>tcp_flags := flags, recv_ack := ack\<rparr>
      in if back then p\<lparr>t_src_ip := 2, t_dst_ip := 1, t_src_port := 80, t_dst_port := 1000\<rparr> else p)"

theorem four_way_close_witness:
  "\<exists>tbl1 tbl2 tbl3 tbl4 w4. session_packet_do sample_ops [collector] sample_stbl sample_world 4120 (sample_ctl False 0x11 101 501) = Inr (tbl1, sample_world) \<and>
    session_packet_do sample_ops [collector] tbl1 sample_world 4120 (sample_ctl True 0x10 501 102) = Inr (tbl2, sample_world) \<and>
    session_packet_do sample_ops [collector] tbl2 sample_world 4120 (sample_ctl True 0x11 501 102) = Inr (tbl3, sample_world) \<and>
    four_way_state (sess tbl3 4120) = FOUR_WAY_FIN2 \<and>
    session_packet_do sample_ops [collector] tbl3 sample_world 4120 (sample_ctl False 0x10 102 502) = Inr (tbl4, w4) \<and> members tbl4 = {}"
proof -
  let ?p1 = "sample_ctl False 0x11 101 501" and ?p2 = "sample_ctl True 0x10 501 102"
    and ?p3 = "sample_ctl True 0x11 501 102" and ?p4 = "sample_ctl False 0x10 102 502"
  have init: "four_way_state (sess sample_stbl 4120) = FOUR_WAY_INIT" by (simp add: sample_stbl_def sample_session_simps)
  have ep: "\<forall>p\<in>set [?p1, ?p2, ?p3, ?p4]. ch_tcp_session_endpoint_get (sess sample_stbl 4120) p \<noteq> None \<and> tp_data p = None \<and> \<not> is_tcp_rst_packet p"
    by (simp add: sample_ep sample_ctl_def sample_tpkt_def ch_tcp_session_endpoint_get_def endpoint_is_request_def
        endpoint_is_response_def sample_session_simps is_tcp_rst_packet_def CH_TH_RST_def)
  have f: "is_tcp_fin_packet ?p1" "\<not> is_tcp_fin_packet ?p2" "is_tcp_fin_packet ?p3" "\<not> is_tcp_fin_packet ?p4"
    by (simp_all add: is_tcp_fin_packet_def CH_TH_FIN_def sample_ctl_def)
  have a: "tcp_flags ?p2 AND CH_TH_ACK \<noteq> 0" "recv_ack ?p2 = sent_seq ?p1 + 1" "tcp_flags ?p4 AND CH_TH_ACK \<noteq> 0"
    "recv_ack ?p4 = sent_seq ?p3 + 1" "sent_seq ?p1 \<noteq> sent_seq ?p3"
    by (simp_all add: CH_TH_ACK_def sample_ctl_def sample_tpkt_def)
  show ?thesis using four_way_close [OF sample_ready init ep f a, of sample_ops "[collector]"] unfolding sample_smembers by fastforce
qed

theorem fin_with_data_ack_missed_witness:
  "fin1_seq (process_fin_packet sample_session (sample_tpkt 1000 [7] 110)) = 110 \<and>
   \<not> is_fin1_ack (process_fin_packet sample_session (sample_tpkt 1000 [7] 110)) (sample_ctl True 0x10 501 112)"
  using fin_with_data_ack_missed [of sample_session "sample_tpkt 1000 [7] 110" "sample_ctl True 0x10 501 112"]
  by (simp add: sample_session_simps sample_tpkt_def sample_ctl_def)

end
