(* ===== verification/Tcp_Request.thy ===== *)
theory Tcp_Request
  imports Tcp_Handler
begin

text \<open>
  How a TCP packet is dispatched and how a session begins: the request handler
  \<^verbatim>\<open>tcp/session/ch_tcp_session_request_handler.c\<close> (the three-way handshake, the creation of
  sessions, the dispatch to them) and the task of \<^verbatim>\<open>tcp/main/ch_tcp_session_task.c\<close>. Shown
  here: the handshake of a flow, seen from the dispatcher, leaves one request with the sequence
  numbers of both sides, and a session only begins with a packet that carries data and comes
  after the handshake.
\<close>

section \<open>The request handler\<close>

type_synonym 'mp request_tbl = "(tcp_pkt, ch_tcp_session_request, unit, unit, 'mp) ch_ptable"

record ('a, 'mp) ch_tcp_session_request_handler =
  ta_pool :: "'a ch_tcp_app list"
  sess_tbl :: "('a, 'mp) session_tbl"
  world :: "'a tcp_world"
  req_tbl :: "'mp request_tbl"
  n_requests :: size_t
  cur_session_id :: u64

definition PROCESSOR_RET_OK :: int where "PROCESSOR_RET_OK = 0"
definition PROCESSOR_RET_DROP :: int where "PROCESSOR_RET_DROP = -1"

definition is_tcp_ack_ack_packet :: "ch_tcp_session_request \<Rightarrow> tcp_pkt \<Rightarrow> bool" where
  "is_tcp_ack_ack_packet r p \<longleftrightarrow>
     tcp_flags p AND CH_TH_ACK \<noteq> 0 \<and> three_way_state r = THREE_WAY_SYN_ACK \<and> recv_ack p = res_sn_init r"

definition is_tcp_data_packet :: "tcp_pkt \<Rightarrow> bool" where
  "is_tcp_data_packet p \<longleftrightarrow> payload_len p > 0"

definition state_is_closed :: "ch_tcp_session \<Rightarrow> bool" where
  "state_is_closed s \<longleftrightarrow> s_state s = SESSION_STATE_FIN \<or> s_state s = SESSION_STATE_RST"

definition set_tcp_state :: "ch_tcp_session \<Rightarrow> tcp_pkt \<Rightarrow> ch_tcp_session" where
  "set_tcp_state s p =
     (if state_is_closed s then s
      else if is_tcp_data_packet p then s\<lparr>s_state := SESSION_STATE_DATA\<rparr>
      else if is_tcp_fin_packet p then s\<lparr>s_state := SESSION_STATE_FIN\<rparr>
      else if is_tcp_rst_packet p then s\<lparr>s_state := SESSION_STATE_RST\<rparr>
      else s)"

definition need_update_last_ack :: "ch_tcp_session \<Rightarrow> tcp_pkt \<Rightarrow> bool" where
  "need_update_last_ack s p \<longleftrightarrow> \<not> state_is_closed s \<and> \<not> (is_tcp_fin_packet p \<or> is_tcp_rst_packet p)"

definition is_need_ignore :: "ch_tcp_session \<Rightarrow> tcp_pkt \<Rightarrow> bool" where
  "is_need_ignore s p \<longleftrightarrow> \<not> is_tcp_data_packet p \<and> \<not> state_is_closed s"

definition update_last_ack :: "ch_tcp_session \<Rightarrow> tcp_pkt \<Rightarrow> ch_tcp_session" where
  "update_last_ack s p =
     (case ch_tcp_session_pair_endpoint_get s p of
        None \<Rightarrow> s
      | Some side \<Rightarrow>
          let q = get_ep s side
          in set_ep s side (q\<lparr>last_ack := max (last_ack q) (ch_tcp_session_endpoint_offset_get q (recv_ack p))\<rparr>))"

definition tcp_session_data_process ::
  "'mp rte_mempool_ops \<Rightarrow> 'a ch_tcp_app list \<Rightarrow> ('a, 'mp) session_tbl \<Rightarrow> 'a tcp_world \<Rightarrow> addr \<Rightarrow> tcp_pkt \<Rightarrow>
   (int \<times> ('a, 'mp) session_tbl \<times> 'a tcp_world) res"
where
  "tcp_session_data_process ops apps tbl w e p =
     (let s = set_tcp_state (sess tbl e) p;
          s = (if need_update_last_ack s p then update_last_ack s p else s);
          tbl = entry_store e s tbl
      in if is_need_ignore s p then Inr (-1, tbl, w) else ch_tcp_session_packet_handle ops apps tbl w e p)"

text \<open>
  The outcomes of the allocations in the two pools are \<open>smem\<close> (sessions) and \<open>rmem\<close>
  (requests); \<open>tm\<close> is the time.
\<close>

definition tcp_session_create ::
  "'mp rte_mempool_ops \<Rightarrow> addr option \<Rightarrow> u64 \<Rightarrow> ('a, 'mp) ch_tcp_session_request_handler \<Rightarrow> ch_tcp_session_request \<Rightarrow>
   tcp_pkt \<Rightarrow> nat option \<Rightarrow> (int \<times> ('a, 'mp) ch_tcp_session_request_handler) res"
where
  "tcp_session_create ops smem tm h sreq p app =
     (let (sent, a) = ch_tcp_app_session_entry_create (ta_pool h) app (w_app (world h));
          h = h\<lparr>world := (world h)\<lparr>w_app := a\<rparr>\<rparr>
      in if sent = None then Inr (-1, h)
         else
           bind_res (ch_tcp_session_pool_entry_create ops smem tm (sess_tbl h) sreq app sent p) (\<lambda>(r, tbl).
             case r of
               None \<Rightarrow> Inr (-1, h\<lparr>sess_tbl := tbl\<rparr>)
             | Some e \<Rightarrow>
                 let id = cur_session_id h + 1;
                     tbl = entry_store e ((sess tbl e)\<lparr>session_id := id mod 0xFFFFFFFFFFFFFFFF\<rparr>) tbl;
                     h = h\<lparr>cur_session_id := id\<rparr>
                 in bind_res (tcp_session_data_process ops (ta_pool h) tbl (world h) e p) (\<lambda>(rc, tbl, w).
                      Inr (if rc \<noteq> 0 then -1 else 0, h\<lparr>sess_tbl := tbl, world := w\<rparr>))))"

definition request_free ::
  "'mp rte_mempool_ops \<Rightarrow> ('a, 'mp) ch_tcp_session_request_handler \<Rightarrow> addr \<Rightarrow> ('a, 'mp) ch_tcp_session_request_handler res"
where
  "request_free ops h r =
     bind_res (ch_tcp_session_request_free ops (req_tbl h) (n_requests h) r) (\<lambda>(tbl, n).
       Inr (h\<lparr>req_tbl := tbl, n_requests := n\<rparr>))"

definition create_and_free ::
  "'mp rte_mempool_ops \<Rightarrow> addr option \<Rightarrow> u64 \<Rightarrow> ('a, 'mp) ch_tcp_session_request_handler \<Rightarrow> addr \<Rightarrow>
   tcp_pkt \<Rightarrow> nat option \<Rightarrow> (int \<times> ('a, 'mp) ch_tcp_session_request_handler) res"
where
  "create_and_free ops smem tm h r p app =
     bind_res (tcp_session_create ops smem tm h (pdata (heap (req_tbl h) r)) p app) (\<lambda>(ret, h).
     bind_res (request_free ops h r) (\<lambda>h.
       Inr (if ret = 0 then PROCESSOR_RET_OK else PROCESSOR_RET_DROP, h)))"

text \<open>The request that a SYN packet starts.\<close>

definition syn_request :: "ch_tcp_session_request \<Rightarrow> tcp_pkt \<Rightarrow> ch_tcp_session_request" where
  "syn_request r p =
     (let r = r\<lparr>req_sn_init := sent_seq p + 1\<rparr>;
          r = (if t_is_ipv6 p then r\<lparr>r_is_ipv6 := True, r_src_addr := t_src_addr p, r_dst_addr := t_dst_addr p\<rparr>
               else r\<lparr>r_is_ipv6 := False, req_ip := t_src_ip p, res_ip := t_dst_ip p\<rparr>)
      in r\<lparr>req_port := t_src_port p, res_port := t_dst_port p, three_way_state := THREE_WAY_SYN\<rparr>)"

definition three_way_handshake_process ::
  "'mp rte_mempool_ops \<Rightarrow> addr option \<Rightarrow> addr option \<Rightarrow> u64 \<Rightarrow> ('a, 'mp) ch_tcp_session_request_handler \<Rightarrow>
   addr option \<Rightarrow> tcp_pkt \<Rightarrow> nat option \<Rightarrow> (int \<times> ('a, 'mp) ch_tcp_session_request_handler) res"
where
  "three_way_handshake_process ops rmem smem tm h sreq p app =
     (case sreq of
        None \<Rightarrow>
          if is_tcp_syn_packet p then
            bind_res (ch_tcp_session_request_create ops rmem tm (req_tbl h) (n_requests h) p) (\<lambda>(r, tbl, n).
              let h = h\<lparr>req_tbl := tbl, n_requests := n\<rparr>
              in case r of
                   None \<Rightarrow> Inr (PROCESSOR_RET_DROP, h)
                 | Some r \<Rightarrow> Inr (PROCESSOR_RET_DROP, h\<lparr>req_tbl := entry_store r (syn_request (pdata (heap tbl r)) p) tbl\<rparr>))
          else Inr (PROCESSOR_RET_DROP, h)
      | Some r \<Rightarrow>
          let sr = pdata (heap (req_tbl h) r)
          in if is_tcp_syn_packet p then Inr (PROCESSOR_RET_DROP, h)
             else if is_tcp_syn_ack_packet p then
               Inr (PROCESSOR_RET_DROP,
                 if three_way_state sr = THREE_WAY_SYN
                 then h\<lparr>req_tbl := entry_store r (sr\<lparr>res_sn_init := sent_seq p + 1, three_way_state := THREE_WAY_SYN_ACK\<rparr>) (req_tbl h)\<rparr>
                 else h)
             else if is_tcp_ack_ack_packet sr p then
               if three_way_state sr = THREE_WAY_SYN_ACK then
                 let h = h\<lparr>req_tbl := entry_store r (sr\<lparr>three_way_state := THREE_WAY_ACK_ACK\<rparr>) (req_tbl h)\<rparr>
                 in if is_tcp_data_packet p then create_and_free ops smem tm h r p app else Inr (PROCESSOR_RET_DROP, h)
               else Inr (PROCESSOR_RET_DROP, h)
             else if is_tcp_rst_packet p then
               bind_res (request_free ops h r) (\<lambda>h. Inr (PROCESSOR_RET_DROP, h))
             else if is_tcp_data_packet p then
               if three_way_state sr = THREE_WAY_ACK_ACK then create_and_free ops smem tm h r p app
               else Inr (PROCESSOR_RET_DROP, h)
             else Inr (PROCESSOR_RET_DROP, h))"

definition ch_tcp_session_request_packet_handle ::
  "'mp rte_mempool_ops \<Rightarrow> addr option \<Rightarrow> addr option \<Rightarrow> u64 \<Rightarrow> ('a, 'mp) ch_tcp_session_request_handler \<Rightarrow> tcp_pkt \<Rightarrow>
   (int \<times> ('a, 'mp) ch_tcp_session_request_handler) res"
where
  "ch_tcp_session_request_packet_handle ops rmem smem tm h p =
     (let (app, a) = ch_tcp_app_find_by_port (ta_pool h) p (w_app (world h));
          h = h\<lparr>world := (world h)\<lparr>w_app := a\<rparr>\<rparr>
      in bind_res
           (if app = None then Inr (PROCESSOR_RET_DROP, h)
            else
              bind_res
                (if \<not> is_tcp_syn_packet p \<and> \<not> is_tcp_syn_ack_packet p
                 then ch_tcp_session_pool_entry_find tm (sess_tbl h) p else Inr (None, sess_tbl h)) (\<lambda>(ts, tbl).
                let h = h\<lparr>sess_tbl := tbl\<rparr>
                in case ts of
                     Some e \<Rightarrow>
                       bind_res (tcp_session_data_process ops (ta_pool h) (sess_tbl h) (world h) e p) (\<lambda>(rc, tbl, w).
                         Inr (if rc \<noteq> 0 then PROCESSOR_RET_DROP else PROCESSOR_RET_OK, h\<lparr>sess_tbl := tbl, world := w\<rparr>))
                   | None \<Rightarrow>
                       bind_res (ch_tcp_session_request_find tm (req_tbl h) p) (\<lambda>(sreq, tbl).
                         three_way_handshake_process ops rmem smem tm (h\<lparr>req_tbl := tbl\<rparr>) sreq p app)))
           (\<lambda>(rc, h).
              bind_res (ch_ptable_entries_timeout_free ops (req_tbl h) ()) (\<lambda>(c, tbl, _).
                Inr (rc, h\<lparr>req_tbl := tbl\<rparr>))))"

text \<open>One run of the task: the packet it takes from its queue, if there is one.\<close>

definition tcp_session_task_run ::
  "'mp rte_mempool_ops \<Rightarrow> addr option \<Rightarrow> addr option \<Rightarrow> u64 \<Rightarrow> ('a, 'mp) ch_tcp_session_request_handler \<Rightarrow> ch_packet option \<Rightarrow>
   ('a, 'mp) ch_tcp_session_request_handler res"
where
  "tcp_session_task_run ops rmem smem tm h pkt =
     (case pkt of
        None \<Rightarrow> Inr h
      | Some pkt \<Rightarrow> (case ch_packet_tcp_init_from_pkt pkt of
            None \<Rightarrow> Inl Null_Deref
          | Some t \<Rightarrow> bind_res (ch_tcp_session_request_packet_handle ops rmem smem tm h (tcp_pkt_of pkt t)) (\<lambda>(rc, h). Inr h)))"


section \<open>The tables of the handler\<close>

definition req_ready :: "'mp request_tbl \<Rightarrow> bool" where
  "req_ready tbl \<longleftrightarrow> ptable_ok tbl \<and> keyed tbl \<and> timeout_entries tbl = [] \<and> entry_hash tbl = session_request_entry_hash \<and>
     entry_equal tbl = session_request_entry_equal"

text \<open>The one request of a flow.\<close>

definition tracks :: "'mp request_tbl \<Rightarrow> addr \<Rightarrow> tcp_pkt \<Rightarrow> bool" where
  "tracks tbl r p \<longleftrightarrow> req_ready tbl \<and> r \<in> members tbl \<and> session_request_entry_equal (pdata (heap tbl r)) p () \<and>
     (\<forall>a\<in>members tbl. a \<noteq> r \<longrightarrow> \<not> session_request_entry_equal (pdata (heap tbl a)) p ())"

lemma find_tracked:
  assumes "tracks tbl r p" "same_flow p p'"
  shows "\<exists>tbl'. ch_tcp_session_request_find tm tbl p' = Inr (Some r, tbl') \<and> tracks tbl' r p \<and> members tbl' = members tbl \<and>
    (\<forall>a. pdata (heap tbl' a) = pdata (heap tbl a))"
proof -
  note t = assms(1) [unfolded tracks_def req_ready_def]
  obtain tbl' where f: "ch_ptable_entry_find tm tbl p' = Inr (Some r, tbl')" "ptable_ok tbl'" "same_table tbl tbl'"
    using rk.find_flow [of tbl r p p' tm] t assms(2) by blast
  note same_table_facts [OF f(3)]
  moreover have "entry_hash tbl' = entry_hash tbl" "entry_equal tbl' = entry_equal tbl" "\<forall>a. pdata (heap tbl' a) = pdata (heap tbl a)"
    using f(3) by (simp_all add: same_table_def)
  ultimately show ?thesis using f(1,2) t find_keeps_ring [OF f(1)]
    by (intro exI [of _ tbl']) (simp add: tracks_def req_ready_def ch_tcp_session_request_find_def)
qed

lemma store_tracked:
  assumes "tracks tbl r p" "\<And>k. session_request_entry_equal d k () = session_request_entry_equal (pdata (heap tbl r)) k ()"
  shows "tracks (entry_store r d tbl) r p"
proof -
  note t = assms(1) [unfolded tracks_def req_ready_def]
  have "keyed (entry_store r d tbl)" using t assms(2) by (intro keyed_store) (simp_all add: ptable_entry_equal_def)
  then show ?thesis using t assms(2) by (simp add: tracks_def req_ready_def)
qed

lemma find_absent:
  assumes "req_ready tbl" "\<forall>a\<in>members tbl. \<not> session_request_entry_equal (pdata (heap tbl a)) p ()"
  shows "\<exists>tbl'. ch_tcp_session_request_find tm tbl p = Inr (None, tbl') \<and> req_ready tbl' \<and> same_table tbl tbl'"
proof -
  note t = assms(1) [unfolded req_ready_def]
  obtain r tbl' where f: "ch_ptable_entry_find tm tbl p = Inr (r, tbl')" "ptable_ok tbl'" "same_table tbl tbl'"
    "case r of None \<Rightarrow> \<forall>e\<in>members tbl. \<not> ptable_entry_equal tbl e p
     | Some e \<Rightarrow> e \<in> members tbl \<and> ptable_entry_equal tbl e p \<and> last_entry tbl' = Some e \<and> last_time (heap tbl' e) = tm"
    using entry_find_ok [of tbl tm p] t by blast
  have "r = None" using f(4) assms(2) t by (cases r) (auto simp: ptable_entry_equal_def)
  moreover have "req_ready tbl'"
    using f t find_keeps_ring [OF f(1)] same_table_facts(4) [OF f(3)] by (simp add: req_ready_def same_table_def)
  ultimately show ?thesis using f by (simp add: ch_tcp_session_request_find_def)
qed

section \<open>The packets of a handshake\<close>

text \<open>Every packet has an application that takes it, and looking for it changes nothing.\<close>

definition app_for_all :: "'a ch_tcp_app list \<Rightarrow> bool" where
  "app_for_all apps \<longleftrightarrow> (\<forall>p a. \<exists>i. ch_tcp_app_find_by_port apps p a = (Some i, a))"

lemma world_same [simp]: "(h :: ('a, 'mp) ch_tcp_session_request_handler)\<lparr>world := (world h)\<lparr>w_app := w_app (world h)\<rparr>\<rparr> = h"
  by (cases h) (auto intro: tcp_world.equality)

text \<open>The dispatch of a packet that has a request and no session.\<close>

lemma dispatch_tracked:
  assumes h: "app_for_all (ta_pool h)" "tracks (req_tbl h) r p0" "same_flow p0 p"
    and s: "\<not> is_tcp_syn_packet p \<and> \<not> is_tcp_syn_ack_packet p \<longrightarrow>
      ptable_ok (sess_tbl h) \<and> keyed (sess_tbl h) \<and> (\<forall>a\<in>members (sess_tbl h). \<not> ptable_entry_equal (sess_tbl h) a p)"
  shows "\<exists>h1 app. ch_tcp_session_request_packet_handle ops rmem smem tm h p =
      bind_res (three_way_handshake_process ops rmem smem tm h1 (Some r) p (Some app)) (\<lambda>(rc, h).
        bind_res (ch_ptable_entries_timeout_free ops (req_tbl h) ()) (\<lambda>(c, tbl, _). Inr (rc, h\<lparr>req_tbl := tbl\<rparr>))) \<and>
    tracks (req_tbl h1) r p0 \<and> members (req_tbl h1) = members (req_tbl h) \<and> (\<forall>a. pdata (heap (req_tbl h1) a) = pdata (heap (req_tbl h) a)) \<and>
    ta_pool h1 = ta_pool h \<and> same_table (sess_tbl h) (sess_tbl h1) \<and> n_requests h1 = n_requests h \<and> world h1 = world h \<and>
    (ptable_ok (sess_tbl h) \<longrightarrow> ptable_ok (sess_tbl h1))"
proof -
  obtain app where app: "ch_tcp_app_find_by_port (ta_pool h) p (w_app (world h)) = (Some app, w_app (world h))"
    using h(1) by (auto simp: app_for_all_def)
  have "\<exists>stbl. (if \<not> is_tcp_syn_packet p \<and> \<not> is_tcp_syn_ack_packet p
      then ch_tcp_session_pool_entry_find tm (sess_tbl h) p else Inr (None, sess_tbl h)) = Inr (None, stbl) \<and>
      same_table (sess_tbl h) stbl \<and> (ptable_ok (sess_tbl h) \<longrightarrow> ptable_ok stbl)"
  proof (cases "\<not> is_tcp_syn_packet p \<and> \<not> is_tcp_syn_ack_packet p")
    case True
    obtain x stbl where f: "ch_ptable_entry_find tm (sess_tbl h) p = Inr (x, stbl)" "ptable_ok stbl" "same_table (sess_tbl h) stbl"
      "case x of None \<Rightarrow> \<forall>e\<in>members (sess_tbl h). \<not> ptable_entry_equal (sess_tbl h) e p
       | Some e \<Rightarrow> e \<in> members (sess_tbl h) \<and> ptable_entry_equal (sess_tbl h) e p \<and> last_entry stbl = Some e \<and> last_time (heap stbl e) = tm"
      using entry_find_ok [of "sess_tbl h" tm p] s True by blast
    have "x = None" using f(4) s True by (cases x) auto
    then show ?thesis using f True by (simp add: ch_tcp_session_pool_entry_find_def)
  qed (auto simp: same_table_refl)
  then obtain stbl where st: "(if \<not> is_tcp_syn_packet p \<and> \<not> is_tcp_syn_ack_packet p
      then ch_tcp_session_pool_entry_find tm (sess_tbl h) p else Inr (None, sess_tbl h)) = Inr (None, stbl)"
    "same_table (sess_tbl h) stbl" "ptable_ok (sess_tbl h) \<longrightarrow> ptable_ok stbl" by blast
  obtain rtbl where rt: "ch_tcp_session_request_find tm (req_tbl h) p = Inr (Some r, rtbl)" "tracks rtbl r p0"
    "members rtbl = members (req_tbl h)" "\<forall>a. pdata (heap rtbl a) = pdata (heap (req_tbl h) a)"
    using find_tracked [OF h(2,3)] by blast
  let ?h = "h\<lparr>sess_tbl := stbl, req_tbl := rtbl\<rparr>"
  have "ch_tcp_session_request_packet_handle ops rmem smem tm h p =
      bind_res (three_way_handshake_process ops rmem smem tm ?h (Some r) p (Some app)) (\<lambda>(rc, h).
        bind_res (ch_ptable_entries_timeout_free ops (req_tbl h) ()) (\<lambda>(c, tbl, _). Inr (rc, h\<lparr>req_tbl := tbl\<rparr>)))"
    using st(1) rt(1) by (simp add: ch_tcp_session_request_packet_handle_def app)
  then show ?thesis using st rt by (intro exI [of _ ?h] exI [of _ app]) simp
qed

lemma tracks_ring: "tracks tbl r p \<Longrightarrow> timeout_entries tbl = []"
  by (simp add: tracks_def req_ready_def)

text \<open>SYN: a request begins.\<close>

lemma syn_step:
  assumes h: "app_for_all (ta_pool h)" "req_ready (req_tbl h)" "ep_fresh rmem (ep (req_tbl h))"
    and p: "is_tcp_syn_packet p" "\<not> t_is_ipv6 p"
    and none: "\<forall>a\<in>members (req_tbl h). \<not> session_request_entry_equal (pdata (heap (req_tbl h) a)) p ()"
  shows "\<exists>h1. ch_tcp_session_request_packet_handle ops rmem smem tm h p = Inr (PROCESSOR_RET_DROP, h1) \<and>
    ta_pool h1 = ta_pool h \<and> sess_tbl h1 = sess_tbl h \<and> world h1 = world h \<and>
    (\<forall>a\<in>members (req_tbl h). pdata (heap (req_tbl h1) a) = pdata (heap (req_tbl h) a)) \<and>
    (if ep_exhausted rmem (ep (req_tbl h)) then members (req_tbl h1) = members (req_tbl h) \<and> n_requests h1 = n_requests h
     else (\<exists>r. r \<notin> members (req_tbl h) \<and> members (req_tbl h1) = insert r (members (req_tbl h)) \<and> n_requests h1 = n_requests h + 1 \<and>
        tracks (req_tbl h1) r p \<and> three_way_state (pdata (heap (req_tbl h1) r)) = THREE_WAY_SYN \<and>
        req_sn_init (pdata (heap (req_tbl h1) r)) = sent_seq p + 1))"
proof -
  obtain app where app: "ch_tcp_app_find_by_port (ta_pool h) p (w_app (world h)) = (Some app, w_app (world h))"
    using h(1) by (auto simp: app_for_all_def)
  obtain t0 where f: "ch_tcp_session_request_find tm (req_tbl h) p = Inr (None, t0)" "req_ready t0" "same_table (req_tbl h) t0"
    using find_absent [OF h(2) none] by blast
  note sf = same_table_facts [OF f(3)]
  have same: "ep t0 = ep (req_tbl h)" "\<And>a. pdata (heap t0 a) = pdata (heap (req_tbl h) a)" using f(3) by (simp_all add: same_table_def)
  note rd = f(2) [unfolded req_ready_def]
  define d where "d e = syn_request ((pdata (heap t0 e))\<lparr>r_is_ipv6 := t_is_ipv6 p, req_sn_init := 0, res_sn_init := 0,
      req_ip := 0, req_port := 0, res_ip := 0, res_port := 0, three_way_state := THREE_WAY_INIT\<rparr>) p" for e
  have d: "\<not> r_is_ipv6 (d e)" "session_request_entry_equal (d e) p ()" "three_way_state (d e) = THREE_WAY_SYN"
      "req_sn_init (d e) = sent_seq p + 1" for e
    using p(2) by (simp_all add: d_def syn_request_def Let_def request_key_defs)
  have fr: "ep_fresh rmem (ep t0)" using h(3) same by simp
  have create: "\<And>e. \<exists>r tbl1. ch_ptable_entry_create ops rmem tm t0 p = Inr (r, tbl1) \<and> entry_hash tbl1 = session_request_entry_hash \<and>
      entry_equal tbl1 = session_request_entry_equal \<and> (\<forall>a. pdata (heap tbl1 a) = pdata (heap t0 a)) \<and>
      (r = None \<longleftrightarrow> ep_exhausted rmem (ep t0)) \<and>
      (case r of None \<Rightarrow> ptable_ok tbl1 \<and> keyed tbl1 \<and> entries tbl1 = entries t0
       | Some x \<Rightarrow> x \<notin> members t0 \<and> ptable_ok (entry_store x (d e) tbl1) \<and> keyed (entry_store x (d e) tbl1) \<and>
           members tbl1 = insert x (members t0))"
    using rk.create_keyed [of t0 rmem _ p ops tm] rd fr d by blast
  obtain r t1 where c: "ch_ptable_entry_create ops rmem tm t0 p = Inr (r, t1)" "r = None \<longleftrightarrow> ep_exhausted rmem (ep (req_tbl h))"
    using create [of 0] same(1) by auto
  have ring: "timeout_entries t1 = []" using create_keeps_ring [OF c(1)] rd by simp
  show ?thesis
  proof (cases r)
    case None
    have "members t1 = members t0" "\<forall>a. pdata (heap t1 a) = pdata (heap t0 a)" using create [of 0] c None by (auto simp: members_def)
    moreover have "ch_tcp_session_request_packet_handle ops rmem smem tm h p =
        Inr (PROCESSOR_RET_DROP, h\<lparr>req_tbl := t1, n_requests := n_requests h\<rparr>)"
      using f(1) c None ring p(1) by (simp add: ch_tcp_session_request_packet_handle_def app three_way_handshake_process_def
          ch_tcp_session_request_create_def empty_ring)
    ultimately show ?thesis using sf same(2) c(2) None by (intro exI [of _ "h\<lparr>req_tbl := t1, n_requests := n_requests h\<rparr>"]) simp
  next
    case (Some e)
    have x: "e \<notin> members t0" "ptable_ok (entry_store e (d e) t1)" "keyed (entry_store e (d e) t1)" "members t1 = insert e (members t0)"
      "\<forall>a. pdata (heap t1 a) = pdata (heap t0 a)" "entry_hash t1 = session_request_entry_hash" "entry_equal t1 = session_request_entry_equal"
      using create [of e] c Some by auto
    let ?t = "entry_store e (d e) t1"
    have ev: "ch_tcp_session_request_packet_handle ops rmem smem tm h p =
        Inr (PROCESSOR_RET_DROP, h\<lparr>req_tbl := ?t, n_requests := n_requests h + 1\<rparr>)"
      using f(1) c Some ring p(1) x(5) by (simp add: ch_tcp_session_request_packet_handle_def app three_way_handshake_process_def
          ch_tcp_session_request_create_def empty_ring d_def [symmetric])
    have "tracks ?t e p" using x d ring none same sf by (auto simp: tracks_def req_ready_def)
    moreover have "\<forall>a\<in>members (req_tbl h). pdata (heap ?t a) = pdata (heap (req_tbl h) a)" using x(1,5) same(2) sf by (auto simp: entry_store_heap)
    moreover have "\<not> ep_exhausted rmem (ep (req_tbl h))" using c(2) Some by simp
    ultimately show ?thesis using ev x d sf
      by (intro exI [of _ "h\<lparr>req_tbl := ?t, n_requests := n_requests h + 1\<rparr>"]) auto
  qed
qed

text \<open>SYN-ACK: the request learns the sequence number of the other side.\<close>

lemma syn_ack_step:
  assumes h: "app_for_all (ta_pool h)" "tracks (req_tbl h) r p0" "same_flow p0 p"
    and st: "three_way_state (pdata (heap (req_tbl h) r)) = THREE_WAY_SYN" and p: "is_tcp_syn_ack_packet p"
  shows "\<exists>h1. ch_tcp_session_request_packet_handle ops rmem smem tm h p = Inr (PROCESSOR_RET_DROP, h1) \<and>
    ta_pool h1 = ta_pool h \<and> same_table (sess_tbl h) (sess_tbl h1) \<and> (ptable_ok (sess_tbl h) \<longrightarrow> ptable_ok (sess_tbl h1)) \<and>
    world h1 = world h \<and> n_requests h1 = n_requests h \<and> members (req_tbl h1) = members (req_tbl h) \<and> tracks (req_tbl h1) r p0 \<and>
    pdata (heap (req_tbl h1) r) =
      (pdata (heap (req_tbl h) r))\<lparr>res_sn_init := sent_seq p + 1, three_way_state := THREE_WAY_SYN_ACK\<rparr> \<and>
    (\<forall>a. a \<noteq> r \<longrightarrow> pdata (heap (req_tbl h1) a) = pdata (heap (req_tbl h) a))"
proof -
  have np: "\<not> is_tcp_syn_packet p" using p by (simp add: is_tcp_syn_packet_def is_tcp_syn_ack_packet_def)
  obtain h1 app where d: "ch_tcp_session_request_packet_handle ops rmem smem tm h p =
      bind_res (three_way_handshake_process ops rmem smem tm h1 (Some r) p (Some app)) (\<lambda>(rc, h).
        bind_res (ch_ptable_entries_timeout_free ops (req_tbl h) ()) (\<lambda>(c, tbl, _). Inr (rc, h\<lparr>req_tbl := tbl\<rparr>)))"
    "tracks (req_tbl h1) r p0" "members (req_tbl h1) = members (req_tbl h)" "\<forall>a. pdata (heap (req_tbl h1) a) = pdata (heap (req_tbl h) a)"
    "ta_pool h1 = ta_pool h" "same_table (sess_tbl h) (sess_tbl h1)" "n_requests h1 = n_requests h" "world h1 = world h"
    "ptable_ok (sess_tbl h) \<longrightarrow> ptable_ok (sess_tbl h1)"
    using dispatch_tracked [OF h, of ops rmem smem tm] p by blast
  let ?sr = "(pdata (heap (req_tbl h) r))\<lparr>res_sn_init := sent_seq p + 1, three_way_state := THREE_WAY_SYN_ACK\<rparr>"
  let ?t = "entry_store r ?sr (req_tbl h1)"
  have tr: "tracks ?t r p0" using d(4) by (intro store_tracked [OF d(2)]) (simp add: request_key_defs)
  have "ch_tcp_session_request_packet_handle ops rmem smem tm h p = Inr (PROCESSOR_RET_DROP, h1\<lparr>req_tbl := ?t\<rparr>)"
    using d(1,4) st p np tracks_ring [OF tr] by (simp add: three_way_handshake_process_def Let_def empty_ring)
  then show ?thesis using d tr by (intro exI [of _ "h1\<lparr>req_tbl := ?t\<rparr>"]) (simp add: entry_store_heap)
qed

text \<open>ACK without data: the handshake is complete.\<close>

lemma ack_step:
  assumes h: "app_for_all (ta_pool h)" "tracks (req_tbl h) r p0" "same_flow p0 p"
    and st: "is_tcp_ack_ack_packet (pdata (heap (req_tbl h) r)) p"
    and p: "\<not> is_tcp_syn_packet p" "\<not> is_tcp_syn_ack_packet p" "\<not> is_tcp_data_packet p"
    and s: "ptable_ok (sess_tbl h)" "keyed (sess_tbl h)" "\<forall>a\<in>members (sess_tbl h). \<not> ptable_entry_equal (sess_tbl h) a p"
  shows "\<exists>h1. ch_tcp_session_request_packet_handle ops rmem smem tm h p = Inr (PROCESSOR_RET_DROP, h1) \<and>
    same_table (sess_tbl h) (sess_tbl h1) \<and> n_requests h1 = n_requests h \<and> members (req_tbl h1) = members (req_tbl h) \<and>
    tracks (req_tbl h1) r p0 \<and>
    pdata (heap (req_tbl h1) r) = (pdata (heap (req_tbl h) r))\<lparr>three_way_state := THREE_WAY_ACK_ACK\<rparr> \<and>
    (\<forall>a. a \<noteq> r \<longrightarrow> pdata (heap (req_tbl h1) a) = pdata (heap (req_tbl h) a))"
proof -
  obtain h1 app where d: "ch_tcp_session_request_packet_handle ops rmem smem tm h p =
      bind_res (three_way_handshake_process ops rmem smem tm h1 (Some r) p (Some app)) (\<lambda>(rc, h).
        bind_res (ch_ptable_entries_timeout_free ops (req_tbl h) ()) (\<lambda>(c, tbl, _). Inr (rc, h\<lparr>req_tbl := tbl\<rparr>)))"
    "tracks (req_tbl h1) r p0" "members (req_tbl h1) = members (req_tbl h)" "\<forall>a. pdata (heap (req_tbl h1) a) = pdata (heap (req_tbl h) a)"
    "same_table (sess_tbl h) (sess_tbl h1)" "n_requests h1 = n_requests h"
    using dispatch_tracked [OF h, of ops rmem smem tm] s by blast
  let ?t = "entry_store r ((pdata (heap (req_tbl h) r))\<lparr>three_way_state := THREE_WAY_ACK_ACK\<rparr>) (req_tbl h1)"
  have tr: "tracks ?t r p0" using d(4) by (intro store_tracked [OF d(2)]) (simp add: request_key_defs)
  have "three_way_state (pdata (heap (req_tbl h) r)) = THREE_WAY_SYN_ACK" using st by (simp add: is_tcp_ack_ack_packet_def)
  then have "ch_tcp_session_request_packet_handle ops rmem smem tm h p = Inr (PROCESSOR_RET_DROP, h1\<lparr>req_tbl := ?t\<rparr>)"
    using d(1,4) st p tracks_ring [OF tr] by (simp add: three_way_handshake_process_def Let_def empty_ring)
  then show ?thesis using d tr by (intro exI [of _ "h1\<lparr>req_tbl := ?t\<rparr>"]) (simp add: entry_store_heap)
qed

section \<open>The first data packet\<close>

lemma endpoint_get_more [simp]:
  "ch_tcp_session_endpoint_get (s\<lparr>s_state := x\<rparr>) p = ch_tcp_session_endpoint_get s p"
  "ch_tcp_session_endpoint_get (s\<lparr>session_id := n\<rparr>) p = ch_tcp_session_endpoint_get s p"
  by (simp_all add: ch_tcp_session_endpoint_get_def)

text \<open>The session after \<^verbatim>\<open>_set_tcp_state\<close> and \<^verbatim>\<open>_update_last_ack\<close> for its first packet.\<close>

lemma first_packet_session:
  assumes s: "s = (ch_tcp_session_init s0 sreq app sent t)\<lparr>session_id := n\<rparr>"
    and p: "\<not> r_is_ipv6 sreq" "\<not> t_is_ipv6 p" "is_request sreq p" "is_tcp_data_packet p" "\<not> is_tcp_fin_packet p" "\<not> is_tcp_rst_packet p"
  shows "\<exists>a. (let s1 = set_tcp_state s p in if need_update_last_ack s1 p then update_last_ack s1 p else s1) =
      s\<lparr>s_state := SESSION_STATE_DATA, endpoint_res := (endpoint_res s)\<lparr>last_ack := a\<rparr>\<rparr>"
    "ch_tcp_session_endpoint_get s p = Some EP_REQ" "as_frag (endpoint_req s) = []" "last_offset (endpoint_req s) = 0"
    "last_ack (endpoint_req s) = 0" "init_seq (endpoint_req s) = req_sn_init sreq" "fin1_seq s = 0" "fin2_seq s = 0" "s_app s = app" "sentry s = sent"
proof -
  show f: "as_frag (endpoint_req s) = []" "last_offset (endpoint_req s) = 0" "last_ack (endpoint_req s) = 0"
    "init_seq (endpoint_req s) = req_sn_init sreq" "fin1_seq s = 0" "fin2_seq s = 0" "s_app s = app" "sentry s = sent"
    using p(1) by (simp_all add: s ch_tcp_session_init_def ch_tcp_session_endpoint_init_def ch_assemble_fragment_init_def)
  show g: "ch_tcp_session_endpoint_get s p = Some EP_REQ"
    using p(1-3) by (simp add: s ch_tcp_session_endpoint_get_def endpoint_is_request_def is_request_def
        ch_tcp_session_init_def ch_tcp_session_endpoint_init_def)
  have "s_state s = SESSION_STATE_INIT" by (simp add: s ch_tcp_session_init_def)
  then have "set_tcp_state s p = s\<lparr>s_state := SESSION_STATE_DATA\<rparr>" using p(4) by (simp add: set_tcp_state_def state_is_closed_def)
  then show "\<exists>a. (let s1 = set_tcp_state s p in if need_update_last_ack s1 p then update_last_ack s1 p else s1) =
      s\<lparr>s_state := SESSION_STATE_DATA, endpoint_res := (endpoint_res s)\<lparr>last_ack := a\<rparr>\<rparr>"
    using g p(5,6) by (auto simp: need_update_last_ack_def state_is_closed_def update_last_ack_def ch_tcp_session_pair_endpoint_get_def
        Let_def [of "endpoint_res _"])
qed

lemma data_step_table:
  assumes "data_step apps strm tbl w e side seg tbl' w'"
  shows "members tbl' = members tbl" "timeout_entries tbl' = timeout_entries tbl" "ptable_ok tbl' = ptable_ok tbl"
    "a \<noteq> e \<Longrightarrow> sess tbl' a = sess tbl a"
  using assms by (auto simp: data_step_def Let_def entry_store_heap)

lemma first_segment_least:
  "(LEAST n. n \<notin> pkt_seg iseq p) = (if pkt_off iseq p = 0 then unat (payload_len p) else 0)"
  by (rule Least_equality) (auto simp: pkt_seg_def split: if_splits)

lemma first_packet_process:
  assumes s: "sess tbl e = (ch_tcp_session_init s0 sreq app sent t)\<lparr>session_id := n\<rparr>" and ring: "timeout_entries tbl = []"
    and p: "\<not> r_is_ipv6 sreq" "\<not> t_is_ipv6 p" "is_request sreq p" "\<not> is_tcp_fin_packet p" "\<not> is_tcp_rst_packet p"
      "recv_ack p \<noteq> 1" "carries strm (req_sn_init sreq) p"
    and w: "memory_ok (w_mm w)" "\<forall>n. malloc_ok (w_env w) n"
    and go: "\<forall>s. s_app s = app \<and> sentry s = sent \<and> cur_ep s = Some EP_REQ \<longrightarrow> parser_goes_on apps s"
  shows "\<exists>tbl' w' cs. tcp_session_data_process ops apps tbl w e p = Inr (0, tbl', w') \<and> members tbl' = members tbl \<and>
    ptable_ok tbl' = ptable_ok tbl \<and> received (endpoint_req (sess tbl' e)) = pkt_seg (req_sn_init sreq) p \<and>
    stream_ok strm (endpoint_req (sess tbl' e)) \<and> w_app w' = feed apps cs (w_app w) \<and>
    concat (map snd cs) = map strm [0..<unat (last_offset (endpoint_req (sess tbl' e)))] \<and>
    list_all (\<lambda>c. s_app (fst c) = app \<and> sentry (fst c) = sent \<and> cur_ep (fst c) = Some EP_REQ) cs \<and>
    (\<forall>a. a \<noteq> e \<longrightarrow> sess tbl' a = sess tbl a)"
proof -
  let ?s = "sess tbl e"
  have data: "is_tcp_data_packet p" using p(7) by (simp add: carries_def is_tcp_data_packet_def)
  note fs = first_packet_session [OF s p(1-3) data p(4,5)]
  obtain a where upd: "(let s1 = set_tcp_state ?s p in if need_update_last_ack s1 p then update_last_ack s1 p else s1) =
      ?s\<lparr>s_state := SESSION_STATE_DATA, endpoint_res := (endpoint_res ?s)\<lparr>last_ack := a\<rparr>\<rparr>" using fs(1) by blast
  let ?s2 = "?s\<lparr>s_state := SESSION_STATE_DATA, endpoint_res := (endpoint_res ?s)\<lparr>last_ack := a\<rparr>\<rparr>"
  let ?t = "entry_store e ?s2 tbl" and ?q = "endpoint_req ?s"
  have g: "ch_tcp_session_endpoint_get (sess ?t e) p = Some EP_REQ" "?q = get_ep (sess ?t e) EP_REQ"
    using fs(2) by (auto simp: ch_tcp_session_endpoint_get_def endpoint_is_request_def split: if_splits)
  have st: "stream_ok strm ?q" "carries strm (init_seq ?q) p" "last_ack ?q \<le> last_offset ?q"
    using p(7) by (simp_all add: stream_ok_def ring_ok_def cover_def fs(3-6))
  have go': "parser_goes_on apps ((sess ?t e)\<lparr>cur_ep := Some EP_REQ\<rparr>)" using go fs(9,10) by simp
  have fin: "\<not> is_fin1_ack (sess ?t e) p" "\<not> is_fin2_ack (sess ?t e) p"
    using p(6) fs(7,8) by (simp_all add: is_fin1_ack_def is_fin2_ack_def)
  obtain tbl' w' where d: "session_packet_do ops apps ?t w e p = Inr (tbl', w')"
    "data_step apps strm (entry_store e ((sess ?t e)\<lparr>cur_ep := Some EP_REQ\<rparr>) ?t) w e EP_REQ (pkt_seg (init_seq ?q) p) tbl' w'"
    using session_packet_do_step [OF w g st go' p(4,5) fin, of ops] by blast
  note df = data_step_facts [OF d(2)] and dt = data_step_table [OF d(2)]
  have tp: "tcp_session_data_process ops apps tbl w e p = Inr (0, tbl', w')"
    unfolding tcp_session_data_process_def using upd d(1) data empty_ring [of tbl' ops w'] dt(2) ring
    by (simp add: Let_def is_need_ignore_def ch_tcp_session_packet_handle_def)
  have "received (get_ep (sess tbl' e) EP_REQ) = pkt_seg (req_sn_init sreq) p"
    using df(5) fs(3,4,6) by (simp add: received_def cover_def)
  moreover obtain cs where "w_app w' = feed apps cs (w_app w)"
    "concat (map snd cs) = map strm [0..<unat (last_offset (get_ep (sess tbl' e) EP_REQ))]"
    "list_all (chunk_of ((sess ?t e)\<lparr>cur_ep := Some EP_REQ\<rparr>)) cs"
    using df(9) fs(4) by auto
  moreover have "chunk_of ((sess ?t e)\<lparr>cur_ep := Some EP_REQ\<rparr>) = (\<lambda>c. s_app (fst c) = app \<and> sentry (fst c) = sent \<and> cur_ep (fst c) = Some EP_REQ)"
    using fs(9,10) by (simp add: chunk_of_def fun_eq_iff)
  moreover have "sess tbl' b = sess tbl b" if "b \<noteq> e" for b using dt(4) [OF that] that by (simp add: entry_store_heap)
  ultimately show ?thesis using tp df(3) dt by (intro exI [of _ tbl'] exI [of _ w'] exI [of _ cs]) simp
qed

section \<open>Properties\<close>


text \<open>
  C9. No session without a handshake: for a packet without data, or whose flow has no request, or
  whose request has not seen the ACK of the handshake while the packet is not this ACK (with the
  sequence number of the SYN-ACK), \<^verbatim>\<open>_three_way_handshake_process\<close> drops the packet and leaves
  the session table as it is.
\<close>

theorem session_only_after_handshake:
  assumes "\<forall>r. sreq = Some r \<and> is_tcp_data_packet p \<longrightarrow>
    three_way_state (pdata (heap (req_tbl h) r)) \<noteq> THREE_WAY_ACK_ACK \<and>
    \<not> (three_way_state (pdata (heap (req_tbl h) r)) = THREE_WAY_SYN_ACK \<and> recv_ack p = res_sn_init (pdata (heap (req_tbl h) r)))"
  shows "case three_way_handshake_process ops rmem smem tm h sreq p app of
      Inl f \<Rightarrow> True
    | Inr (rc, h') \<Rightarrow> rc = PROCESSOR_RET_DROP \<and> sess_tbl h' = sess_tbl h"
proof -
  have free: "sess_tbl h2 = sess_tbl h1" if "request_free ops h1 r = Inr h2" for h1 h2 r
    using that by (auto simp: request_free_def bind_res_eq_Inr)
  have "rc = PROCESSOR_RET_DROP \<and> sess_tbl h' = sess_tbl h"
    if "three_way_handshake_process ops rmem smem tm h sreq p app = Inr (rc, h')" for rc h'
    using assms that
    by (auto simp: three_way_handshake_process_def Let_def bind_res_eq_Inr is_tcp_ack_ack_packet_def dest: free
        split: option.splits if_splits)
  then show ?thesis by (auto split: sum.splits)
qed


section \<open>Witnesses\<close>

text \<open>A handler with the sample session, and with one request of another flow.\<close>

definition sample_rtbl :: "unit request_tbl" where
  "sample_rtbl = \<lparr>ep = \<lparr>ep_mp = SYS_MP sample_pool_used, entry_size = 40000, n_entries_limit = 10\<rparr>,
     timeout_entries = [], ring_size = 8, last_entry = Some 4120, entry_timeout = 60, tbl_size = 1, tbl_mask = 0,
     n_caches = 1, n_caches_limits = 3, last_clean_time = 0, priv_data = (), entry_hash = session_request_entry_hash,
     entry_equal = session_request_entry_equal, entry_clean = Some session_request_entry_clean, entry_timeout_cb = None,
     hits_num = 0, no_hits_num = 0, fail_num = 0, timeout_num = 0,
     caches = [4120], entries = [[4120]],
     heap = (\<lambda>_. \<lparr>last_time = 10, tv = 0, pdata = sample_request\<rparr>)\<rparr>"

definition sample_handler :: "(bytes, unit) ch_tcp_session_request_handler" where
  "sample_handler = \<lparr>ta_pool = [collector], sess_tbl = sample_stbl, world = sample_world, req_tbl = sample_rtbl,
     n_requests = 1, cur_session_id = 0\<rparr>"

lemma sample_rmembers: "members sample_rtbl = {4120}"
  by (simp add: members_def sample_rtbl_def)

lemma sample_rtbl_ready: "req_ready sample_rtbl" "ep_fresh (Some 100000) (ep sample_rtbl)"
proof -
  have ep: "ep_ok (ep sample_rtbl)" "ep_live (ep sample_rtbl) = {4120}"
    using sample_pool_used_ok by (auto simp: ep_ok_def ep_live_def sample_rtbl_def)
  have "buckets_ok sample_rtbl" unfolding buckets_ok_def sample_rmembers ep(2) using ep(1) by (simp add: sample_rtbl_def)
  moreover have "caches_ok sample_rtbl" unfolding caches_ok_def sample_rmembers by (simp add: sample_rtbl_def)
  moreover have "keyed sample_rtbl" by (simp add: keyed_def ptable_header_get_def sample_rtbl_def)
  ultimately show "req_ready sample_rtbl" by (simp add: req_ready_def ptable_ok_def) (simp add: sample_rtbl_def)
  show "ep_fresh (Some 100000) (ep sample_rtbl)"
    by (simp add: ep_fresh_def sample_rtbl_def fresh_mem_def sample_pool_used_def blocks_apart_def)
qed

lemma collector_for_all: "app_for_all [collector]"
  by (simp add: app_for_all_def collector_def)

definition sample_hs :: "bool \<Rightarrow> u8 \<Rightarrow> u32 \<Rightarrow> u32 \<Rightarrow> tcp_pkt" where
  "sample_hs back flags seq ack =
     (let p = sample_ctl back flags seq ack in if back then p\<lparr>t_dst_port := 1001\<rparr> else p\<lparr>t_src_port := 1001\<rparr>)"

lemma sample_requests_left: "\<not> ep_exhausted (Some 100000) (ep (req_tbl sample_handler))" "\<not> ep_exhausted (Some 100000) (ep (sess_tbl sample_handler))"
  using sample_not_exhausted by (simp_all add: ep_exhausted_def pool_exhausted_def sample_handler_def sample_rtbl_def sample_pool_used_def)


theorem session_only_after_handshake_witness:
  "case three_way_handshake_process sample_ops None None 20 sample_handler None (sample_tpkt 1001 [1] 101) (Some 0) of
     Inl f \<Rightarrow> True | Inr (rc, h') \<Rightarrow> rc = PROCESSOR_RET_DROP \<and> sess_tbl h' = sess_tbl sample_handler"
  using session_only_after_handshake [of None "sample_tpkt 1001 [1] 101" sample_handler sample_ops None None 20 "Some 0"]
  by simp


end
