(* ===== verification/Plist.thy ===== *)
theory Plist
  imports Ptable
begin

text \<open>
  The list of pending entries with timeouts, \<^verbatim>\<open>lib/ptables/ch_plist.c\<close>, that the UDP session
  requests live in: the entries from the one used last to the one used first, in an entry
  pool. A find moves the entry to the front. Shown here: the list is a \<open>keyed_store\<close> like the
  hash table, and a clean-up frees exactly the entries that are idle or no longer needed.
\<close>

section \<open>State and operations\<close>

record 'd plist_entry =
  pl_last_time :: u64
  pl_pdata :: 'd

record ('k, 'd, 'pd, 'w, 'mp) ch_plist =
  pl_entries :: "addr list"
  pl_ep :: "'mp ch_entry_pool"
  pl_last_entry :: "addr option"
  pl_priv_data :: 'pd
  entry_num :: size_t
  entry_num_limits :: size_t
  pl_entry_timeout :: u64
  pl_last_clean_time :: u64
  pl_entry_equal :: "'d \<Rightarrow> 'k \<Rightarrow> 'pd \<Rightarrow> bool"
  pl_entry_clean :: "('d \<Rightarrow> 'pd \<Rightarrow> 'w \<Rightarrow> ('d \<times> 'w) res) option"
  pl_entry_timeout_cb :: "('d \<Rightarrow> u64 \<Rightarrow> 'pd \<Rightarrow> 'w \<Rightarrow> ('d \<times> 'w) res) option"
  pl_heap :: "addr \<Rightarrow> 'd plist_entry"

definition ch_plist_create ::
  "'mp rte_mempool_ops \<Rightarrow> pool_type \<Rightarrow> size_t \<Rightarrow> size_t \<Rightarrow> size_t \<Rightarrow> u64 \<Rightarrow> 'pd \<Rightarrow> ('d \<Rightarrow> 'k \<Rightarrow> 'pd \<Rightarrow> bool) \<Rightarrow>
   ('d \<Rightarrow> 'pd \<Rightarrow> 'w \<Rightarrow> ('d \<times> 'w) res) option \<Rightarrow> ('d \<Rightarrow> u64 \<Rightarrow> 'pd \<Rightarrow> 'w \<Rightarrow> ('d \<times> 'w) res) option \<Rightarrow> u64 \<Rightarrow>
   (addr \<Rightarrow> 'd plist_entry) \<Rightarrow> ('k, 'd, 'pd, 'w, 'mp) ch_plist option"
where
  "ch_plist_create ops ptype esize psize limits tmo pd eq clean tcb now mem =
     (case ch_entry_pool_create ops ptype (esize + psize) limits 0 of
        None \<Rightarrow> None
      | Some epool \<Rightarrow>
          Some \<lparr>pl_entries = [], pl_ep = epool, pl_last_entry = None, pl_priv_data = pd, entry_num = 0,
                entry_num_limits = limits, pl_entry_timeout = tmo, pl_last_clean_time = now,
                pl_entry_equal = eq, pl_entry_clean = clean, pl_entry_timeout_cb = tcb, pl_heap = mem\<rparr>)"

definition pl_entry_is_timeout :: "('k, 'd, 'pd, 'w, 'mp) ch_plist \<Rightarrow> addr \<Rightarrow> u64 \<Rightarrow> u64" where
  "pl_entry_is_timeout pl e cur_time =
     (let t = cur_time - pl_last_time (pl_heap pl e) in if t > pl_entry_timeout pl then t else 0)"

definition pl_entry_free ::
  "'mp rte_mempool_ops \<Rightarrow> ('k, 'd, 'pd, 'w, 'mp) ch_plist \<Rightarrow> 'w \<Rightarrow> addr \<Rightarrow> u64 \<Rightarrow>
   (('k, 'd, 'pd, 'w, 'mp) ch_plist \<times> 'w) res"
where
  "pl_entry_free ops pl w e is_timeout =
     (let pl = pl\<lparr>pl_entries := list_del e (pl_entries pl)\<rparr>;
          pl = (if Some e = pl_last_entry pl then pl\<lparr>pl_last_entry := None\<rparr> else pl);
          d = pl_pdata (pl_heap pl e)
      in bind_res (if is_timeout \<noteq> 0 then (case pl_entry_timeout_cb pl of
                        None \<Rightarrow> Inr (d, w) | Some cb \<Rightarrow> cb d is_timeout (pl_priv_data pl) w)
                   else Inr (d, w)) (\<lambda>(d, w).
         bind_res (case pl_entry_clean pl of None \<Rightarrow> Inr (d, w) | Some cl \<Rightarrow> cl d (pl_priv_data pl) w) (\<lambda>(d, w).
         bind_res (ch_entry_pool_free ops (pl_ep pl) e) (\<lambda>epool.
           Inr (pl\<lparr>pl_ep := epool, pl_heap := (pl_heap pl)(e := (pl_heap pl e)\<lparr>pl_pdata := d\<rparr>)\<rparr>, w)))))"

text \<open>
  The loops over the list, which read the next member before an entry is freed: \<open>need\<close> is the
  test besides the timeout, constantly false in \<^verbatim>\<open>_entries_timeout_free\<close>.
\<close>

fun pl_free_loop ::
  "'mp rte_mempool_ops \<Rightarrow> ('d \<Rightarrow> 'pd \<Rightarrow> bool) \<Rightarrow> u64 \<Rightarrow> ('k, 'd, 'pd, 'w, 'mp) ch_plist \<Rightarrow> 'w \<Rightarrow> size_t \<Rightarrow> addr list \<Rightarrow>
   (size_t \<times> ('k, 'd, 'pd, 'w, 'mp) ch_plist \<times> 'w) res"
where
  "pl_free_loop ops need cur_time pl w c [] = Inr (c, pl, w)"
| "pl_free_loop ops need cur_time pl w c (e # es) =
     (let t = pl_entry_is_timeout pl e cur_time
      in if t \<noteq> 0 \<or> need (pl_pdata (pl_heap pl e)) (pl_priv_data pl)
         then bind_res (pl_entry_free ops pl w e t) (\<lambda>(pl, w). pl_free_loop ops need cur_time pl w (c + 1) es)
         else pl_free_loop ops need cur_time pl w c es)"

definition entries_timeout_free ::
  "'mp rte_mempool_ops \<Rightarrow> u64 \<Rightarrow> ('k, 'd, 'pd, 'w, 'mp) ch_plist \<Rightarrow> 'w \<Rightarrow> (('k, 'd, 'pd, 'w, 'mp) ch_plist \<times> 'w) res"
where
  "entries_timeout_free ops cur_time pl w =
     bind_res (pl_free_loop ops (\<lambda>_ _. False) cur_time pl w 0 (pl_entries pl)) (\<lambda>(_, pl, w). Inr (pl, w))"

text \<open>
  \<^verbatim>\<open>ch_plist_entry_create\<close>: when the pool has no entry, idle ones are freed and the pool is
  asked again; \<open>mem1\<close> and \<open>mem2\<close> are the results of \<^verbatim>\<open>malloc\<close> in the two tries.
\<close>

definition ch_plist_entry_create ::
  "'mp rte_mempool_ops \<Rightarrow> addr option \<Rightarrow> addr option \<Rightarrow> u64 \<Rightarrow> ('k, 'd, 'pd, 'w, 'mp) ch_plist \<Rightarrow> 'w \<Rightarrow>
   (addr option \<times> ('k, 'd, 'pd, 'w, 'mp) ch_plist \<times> 'w) res"
where
  "ch_plist_entry_create ops mem1 mem2 now pl w =
     bind_res (ch_entry_pool_alloc ops mem1 (pl_ep pl)) (\<lambda>(r, epool).
       let pl = pl\<lparr>pl_ep := epool\<rparr> in
       bind_res
         (case r of
            Some e \<Rightarrow> Inr (Some e, pl, w)
          | None \<Rightarrow> bind_res (entries_timeout_free ops now pl w) (\<lambda>(pl, w).
              bind_res (ch_entry_pool_alloc ops mem2 (pl_ep pl)) (\<lambda>(r, epool). Inr (r, pl\<lparr>pl_ep := epool\<rparr>, w))))
         (\<lambda>(r, pl, w).
            case r of
              None \<Rightarrow> Inr (None, pl, w)
            | Some e \<Rightarrow>
                Inr (Some e,
                     pl\<lparr>pl_heap := (pl_heap pl)(e := (pl_heap pl e)\<lparr>pl_last_time := now\<rparr>),
                        pl_entries := e # pl_entries pl, entry_num := entry_num pl + 1, pl_last_entry := Some e\<rparr>, w)))"

definition ch_plist_entry_free ::
  "'mp rte_mempool_ops \<Rightarrow> ('k, 'd, 'pd, 'w, 'mp) ch_plist \<Rightarrow> 'w \<Rightarrow> addr \<Rightarrow> (('k, 'd, 'pd, 'w, 'mp) ch_plist \<times> 'w) res"
where
  "ch_plist_entry_free ops pl w e = pl_entry_free ops pl w e 0"

definition entry_is_equal :: "('k, 'd, 'pd, 'w, 'mp) ch_plist \<Rightarrow> addr \<Rightarrow> 'k \<Rightarrow> bool" where
  "entry_is_equal pl e key = pl_entry_equal pl (pl_pdata (pl_heap pl e)) key (pl_priv_data pl)"

definition ch_plist_entry_find ::
  "u64 \<Rightarrow> ('k, 'd, 'pd, 'w, 'mp) ch_plist \<Rightarrow> 'k \<Rightarrow> (addr option \<times> ('k, 'd, 'pd, 'w, 'mp) ch_plist) res"
where
  "ch_plist_entry_find now pl key =
     (let r = (case pl_last_entry pl of
            Some e \<Rightarrow> if entry_is_equal pl e key then Some e else find (\<lambda>e. entry_is_equal pl e key) (pl_entries pl)
          | None \<Rightarrow> find (\<lambda>e. entry_is_equal pl e key) (pl_entries pl))
      in case r of
           None \<Rightarrow> Inr (None, pl)
         | Some e \<Rightarrow>
             Inr (Some e,
                  pl\<lparr>pl_heap := (pl_heap pl)(e := (pl_heap pl e)\<lparr>pl_last_time := now\<rparr>),
                     pl_entries := e # list_del e (pl_entries pl), pl_last_entry := Some e\<rparr>))"

definition ch_plist_entry_find_create ::
  "'mp rte_mempool_ops \<Rightarrow> addr option \<Rightarrow> addr option \<Rightarrow> u64 \<Rightarrow> ('k, 'd, 'pd, 'w, 'mp) ch_plist \<Rightarrow> 'w \<Rightarrow> 'k \<Rightarrow>
   (addr option \<times> ('k, 'd, 'pd, 'w, 'mp) ch_plist \<times> 'w) res"
where
  "ch_plist_entry_find_create ops mem1 mem2 now pl w key =
     bind_res (ch_plist_entry_find now pl key) (\<lambda>(r, pl).
       case r of
         None \<Rightarrow> ch_plist_entry_create ops mem1 mem2 now pl w
       | Some e \<Rightarrow> Inr (Some e, pl, w))"

definition ch_plist_entries_timeout_free ::
  "'mp rte_mempool_ops \<Rightarrow> ('d \<Rightarrow> 'pd \<Rightarrow> bool) option \<Rightarrow> u64 \<Rightarrow> ('k, 'd, 'pd, 'w, 'mp) ch_plist \<Rightarrow> 'w \<Rightarrow>
   (size_t \<times> ('k, 'd, 'pd, 'w, 'mp) ch_plist \<times> 'w) res"
where
  "ch_plist_entries_timeout_free ops need_free cur_time pl w =
     (if pl_entries pl = [] then Inr (0, pl, w)
      else if cur_time - pl_last_clean_time pl < pl_entry_timeout pl then Inr (0, pl, w)
      else pl_free_loop ops (case need_free of None \<Rightarrow> (\<lambda>_ _. False) | Some f \<Rightarrow> f) cur_time
             (pl\<lparr>pl_last_clean_time := cur_time\<rparr>) w 0 (pl_entries pl))"

section \<open>Invariant\<close>

definition plist_ok :: "('k, 'd, 'pd, 'w, 'mp) ch_plist \<Rightarrow> bool" where
  "plist_ok pl \<longleftrightarrow> distinct (pl_entries pl) \<and> ep_ok (pl_ep pl) \<and> set (pl_entries pl) \<subseteq> ep_live (pl_ep pl) \<and>
     (\<forall>e. pl_last_entry pl = Some e \<longrightarrow> e \<in> set (pl_entries pl))"

interpretation pl: keyed_store ch_plist_entry_find plist_ok "\<lambda>pl. set (pl_entries pl)" entry_is_equal
proof
  fix t now key
  assume ok: "plist_ok t"
  show "\<exists>r t'. ch_plist_entry_find now t key = Inr (r, t') \<and> plist_ok t' \<and> set (pl_entries t') = set (pl_entries t) \<and>
      entry_is_equal t' = entry_is_equal t \<and>
      (case r of None \<Rightarrow> \<forall>e\<in>set (pl_entries t). \<not> entry_is_equal t e key
       | Some e \<Rightarrow> e \<in> set (pl_entries t) \<and> entry_is_equal t e key)"
  proof (cases "\<exists>e. pl_last_entry t = Some e \<and> entry_is_equal t e key \<or>
      find (\<lambda>e. entry_is_equal t e key) (pl_entries t) = Some e")
    case False
    then have n: "find (\<lambda>e. entry_is_equal t e key) (pl_entries t) = None" by (meson not_Some_eq)
    then have "ch_plist_entry_find now t key = Inr (None, t)"
      using False by (auto simp: ch_plist_entry_find_def simp del: find_None_iff' split: option.splits)
    then show ?thesis using ok n by (auto simp: find_None_iff')
  next
    case True
    define e where "e = (case pl_last_entry t of
        Some e \<Rightarrow> if entry_is_equal t e key then e else the (find (\<lambda>e. entry_is_equal t e key) (pl_entries t))
      | None \<Rightarrow> the (find (\<lambda>e. entry_is_equal t e key) (pl_entries t)))"
    have e: "e \<in> set (pl_entries t)" "entry_is_equal t e key"
      using True ok by (auto simp: e_def plist_ok_def dest: find_Some_in_set split: option.splits)
    let ?t = "t\<lparr>pl_heap := (pl_heap t)(e := (pl_heap t e)\<lparr>pl_last_time := now\<rparr>),
      pl_entries := e # list_del e (pl_entries t), pl_last_entry := Some e\<rparr>"
    have ev: "ch_plist_entry_find now t key = Inr (Some e, ?t)"
      using True by (auto simp: ch_plist_entry_find_def e_def split: option.splits)
    have st: "set (pl_entries ?t) = set (pl_entries t)" using ok e(1) by (auto simp: plist_ok_def)
    have "plist_ok ?t" using ok e(1) by (auto simp: plist_ok_def)
    moreover have "entry_is_equal ?t = entry_is_equal t" by (auto simp: entry_is_equal_def fun_eq_iff)
    ultimately show ?thesis using ev st e by (intro exI [of _ "Some e"] exI [of _ ?t]) simp
  qed
qed

section \<open>Freeing entries\<close>

definition pl_callbacks_total :: "('k, 'd, 'pd, 'w, 'mp) ch_plist \<Rightarrow> bool" where
  "pl_callbacks_total pl \<longleftrightarrow>
     (\<forall>f d t w. pl_entry_timeout_cb pl = Some f \<longrightarrow> (\<exists>d' w'. f d t (pl_priv_data pl) w = Inr (d', w'))) \<and>
     (\<forall>f d w. pl_entry_clean pl = Some f \<longrightarrow> (\<exists>d' w'. f d (pl_priv_data pl) w = Inr (d', w')))"

text \<open>What freeing entries leaves as it was: the functions, the private data, and which memory is apart from the pool's.\<close>

definition pl_frame :: "('k, 'd, 'pd, 'w, 'mp) ch_plist \<Rightarrow> ('d \<Rightarrow> 'k \<Rightarrow> 'pd \<Rightarrow> bool) \<times>
  ('d \<Rightarrow> 'pd \<Rightarrow> 'w \<Rightarrow> ('d \<times> 'w) res) option \<times> ('d \<Rightarrow> u64 \<Rightarrow> 'pd \<Rightarrow> 'w \<Rightarrow> ('d \<times> 'w) res) option \<times> 'pd \<times> (addr option \<Rightarrow> bool)"
where
  "pl_frame pl = (pl_entry_equal pl, pl_entry_clean pl, pl_entry_timeout_cb pl, pl_priv_data pl, \<lambda>m. ep_fresh m (pl_ep pl))"

lemma ep_free_fresh: "ch_entry_pool_free ops q e = Inr q' \<Longrightarrow> ep_fresh m q' = ep_fresh m q"
  by (cases "ep_mp q") (auto simp: ch_entry_pool_free_def ep_fresh_def fresh_mem_def ch_object_pool_put_def Let_def bind_res_eq_Inr split: if_splits)

lemma ep_alloc_None_fresh: "ch_entry_pool_alloc ops mem q = Inr (None, q') \<Longrightarrow> ep_ok q \<Longrightarrow> ep_fresh m q' = ep_fresh m q"
  by (cases "ep_mp q"; cases mem)
    (auto simp: ep_ok_def ch_entry_pool_alloc_def ep_fresh_def fresh_mem_def ch_object_pool_get_def new_memory_def Let_def
      bind_res_eq_Inr split: if_splits list.splits)

lemma pl_entry_free_ok:
  assumes ok: "plist_ok pl" and e: "e \<in> set (pl_entries pl)" and cb: "pl_callbacks_total pl"
  shows "\<exists>pl' w'. pl_entry_free ops pl w e t = Inr (pl', w') \<and> plist_ok pl' \<and> pl_callbacks_total pl' \<and>
    pl_entries pl' = list_del e (pl_entries pl) \<and> (\<forall>a. a \<noteq> e \<longrightarrow> pl_heap pl' a = pl_heap pl a) \<and> pl_entry_timeout pl' = pl_entry_timeout pl \<and>
    pl_frame pl' = pl_frame pl \<and> entry_num pl' = entry_num pl"
proof -
  define p1 where "p1 = (let pl = pl\<lparr>pl_entries := list_del e (pl_entries pl)\<rparr>
    in if Some e = pl_last_entry pl then pl\<lparr>pl_last_entry := None\<rparr> else pl)"
  have u: "pl_ep p1 = pl_ep pl" "pl_entry_timeout_cb p1 = pl_entry_timeout_cb pl" "pl_entry_clean p1 = pl_entry_clean pl"
    "pl_priv_data p1 = pl_priv_data pl" "pl_heap p1 = pl_heap pl" "pl_entries p1 = list_del e (pl_entries pl)"
    "pl_last_entry p1 = (if pl_last_entry pl = Some e then None else pl_last_entry pl)"
    "pl_entry_timeout p1 = pl_entry_timeout pl" "entry_num p1 = entry_num pl" "pl_entry_equal p1 = pl_entry_equal pl"
    by (simp_all add: p1_def Let_def)
  obtain epool where p: "ch_entry_pool_free ops (pl_ep pl) e = Inr epool" "ep_ok epool" "ep_live epool = ep_live (pl_ep pl) - {e}"
    using ep.put_ok [of "pl_ep pl" e ops] ok e by (auto simp: plist_ok_def)
  let ?d = "pl_pdata (pl_heap pl e)"
  have "\<exists>d1 w1. (if t \<noteq> 0 then (case pl_entry_timeout_cb pl of None \<Rightarrow> Inr (?d, w)
      | Some cb \<Rightarrow> cb ?d t (pl_priv_data pl) w) else Inr (?d, w)) = Inr (d1, w1)"
    using cb by (simp add: pl_callbacks_total_def split: option.splits)
  then obtain d1 w1 where w1: "(if t \<noteq> 0 then (case pl_entry_timeout_cb pl of None \<Rightarrow> Inr (?d, w)
      | Some cb \<Rightarrow> cb ?d t (pl_priv_data pl) w) else Inr (?d, w)) = Inr (d1, w1)" by blast
  have "\<exists>d2 w2. (case pl_entry_clean pl of None \<Rightarrow> Inr (d1, w1) | Some cl \<Rightarrow> cl d1 (pl_priv_data pl) w1) = Inr (d2, w2)"
    using cb by (simp add: pl_callbacks_total_def split: option.splits)
  then obtain d2 w2 where w2: "(case pl_entry_clean pl of None \<Rightarrow> Inr (d1, w1) | Some cl \<Rightarrow> cl d1 (pl_priv_data pl) w1) = Inr (d2, w2)"
    by blast
  let ?p = "p1\<lparr>pl_ep := epool, pl_heap := (pl_heap pl)(e := (pl_heap pl e)\<lparr>pl_pdata := d2\<rparr>)\<rparr>"
  have ev: "pl_entry_free ops pl w e t = Inr (?p, w2)"
    unfolding pl_entry_free_def Let_def p1_def [unfolded Let_def, symmetric] unfolding u w1 bind_res_simps prod.case w2 p(1) ..
  have "plist_ok ?p" using ok p(2,3) by (auto simp: plist_ok_def u)
  with ev show ?thesis using cb by (intro exI [of _ ?p] exI [of _ w2]) (simp add: u pl_callbacks_total_def pl_frame_def ep_free_fresh [OF p(1)])
qed

definition pl_idle :: "('k, 'd, 'pd, 'w, 'mp) ch_plist \<Rightarrow> ('d \<Rightarrow> 'pd \<Rightarrow> bool) \<Rightarrow> u64 \<Rightarrow> addr \<Rightarrow> bool" where
  "pl_idle pl need cur_time e \<longleftrightarrow> cur_time - pl_last_time (pl_heap pl e) > pl_entry_timeout pl \<or>
     need (pl_pdata (pl_heap pl e)) (pl_priv_data pl)"

lemma pl_idle_iff:
  "pl_entry_is_timeout pl e cur_time \<noteq> 0 \<or> need (pl_pdata (pl_heap pl e)) (pl_priv_data pl) \<longleftrightarrow> pl_idle pl need cur_time e"
  by (auto simp: pl_entry_is_timeout_def pl_idle_def Let_def)

lemma pl_free_loop_ok:
  assumes "plist_ok pl" "pl_callbacks_total pl" "distinct es" "set es \<subseteq> set (pl_entries pl)"
  shows "\<exists>pl' w'. pl_free_loop ops need cur_time pl w c es =
      Inr (c + of_nat (length (filter (pl_idle pl need cur_time) es)), pl', w') \<and>
    plist_ok pl' \<and> set (pl_entries pl') = set (pl_entries pl) - set (filter (pl_idle pl need cur_time) es) \<and>
    entry_num pl' = entry_num pl \<and> pl_frame pl' = pl_frame pl \<and>
    (\<forall>a\<in>set (pl_entries pl'). pl_heap pl' a = pl_heap pl a)"
  using assms
proof (induction es arbitrary: pl w c)
  case (Cons e es)
  show ?case
  proof (cases "pl_idle pl need cur_time e")
    case False
    then have "pl_free_loop ops need cur_time pl w c (e # es) = pl_free_loop ops need cur_time pl w c es"
      using pl_idle_iff [of pl e cur_time need] by (auto simp: Let_def)
    then show ?thesis using False Cons.IH [of pl w c] Cons.prems by auto
  next
    case True
    obtain pl1 w1 where f: "pl_entry_free ops pl w e (pl_entry_is_timeout pl e cur_time) = Inr (pl1, w1)" "plist_ok pl1"
      "pl_callbacks_total pl1" "pl_entries pl1 = list_del e (pl_entries pl)" "\<forall>a. a \<noteq> e \<longrightarrow> pl_heap pl1 a = pl_heap pl a"
      "pl_entry_timeout pl1 = pl_entry_timeout pl" "pl_frame pl1 = pl_frame pl" "entry_num pl1 = entry_num pl"
      using pl_entry_free_ok [OF Cons.prems(1) _ Cons.prems(2), of e ops w "pl_entry_is_timeout pl e cur_time"] Cons.prems(4)
      by auto
    have set1: "set (pl_entries pl1) = set (pl_entries pl) - {e}" using f(4) Cons.prems(1) by (simp add: plist_ok_def)
    have "pl_idle pl1 need cur_time a = pl_idle pl need cur_time a" if "a \<in> set es" for a
      using f(5-7) that Cons.prems(3) by (auto simp: pl_idle_def pl_frame_def)
    then have idle: "filter (pl_idle pl1 need cur_time) es = filter (pl_idle pl need cur_time) es" by (rule filter_cong [OF refl])
    have ev: "pl_free_loop ops need cur_time pl w c (e # es) = pl_free_loop ops need cur_time pl1 w1 (c + 1) es"
      using True pl_idle_iff [of pl e cur_time need] f(1) by (auto simp: Let_def)
    have tl: "distinct es" "set es \<subseteq> set (pl_entries pl1)" using Cons.prems(3,4) set1 by auto
    obtain pl' w' where "pl_free_loop ops need cur_time pl1 w1 (c + 1) es =
        Inr (c + 1 + of_nat (length (filter (pl_idle pl need cur_time) es)), pl', w')" "plist_ok pl'"
      "set (pl_entries pl') = set (pl_entries pl1) - set (filter (pl_idle pl need cur_time) es)" "entry_num pl' = entry_num pl1"
      "pl_frame pl' = pl_frame pl1" "\<forall>a\<in>set (pl_entries pl'). pl_heap pl' a = pl_heap pl1 a"
      using Cons.IH [OF f(2,3) tl, of w1 "c + 1"] unfolding idle by blast
    moreover have "set (pl_entries pl1) - X = set (pl_entries pl) - insert e X" for X using set1 by blast
    moreover have "a \<noteq> e" if "a \<in> set (pl_entries pl1) - X" for a X using that set1 by blast
    ultimately show ?thesis unfolding ev using True f(5,7,8)
      by (intro exI [of _ pl'] exI [of _ w']) (simp del: pl_free_loop.simps add: add.assoc)
  qed
qed simp

section \<open>Finding and creating entries\<close>

lemma pl_find_ok:
  assumes "plist_ok pl"
  shows "\<exists>r pl'. ch_plist_entry_find tm pl key = Inr (r, pl') \<and> plist_ok pl' \<and> set (pl_entries pl') = set (pl_entries pl) \<and>
    pl_frame pl' = pl_frame pl \<and> (\<forall>a. pl_pdata (pl_heap pl' a) = pl_pdata (pl_heap pl a)) \<and>
    (case r of None \<Rightarrow> \<forall>e\<in>set (pl_entries pl). \<not> entry_is_equal pl e key | Some e \<Rightarrow> e \<in> set (pl_entries pl) \<and> entry_is_equal pl e key)"
proof -
  obtain r pl' where f: "ch_plist_entry_find tm pl key = Inr (r, pl')" "plist_ok pl'" "set (pl_entries pl') = set (pl_entries pl)"
    "case r of None \<Rightarrow> \<forall>e\<in>set (pl_entries pl). \<not> entry_is_equal pl e key
     | Some e \<Rightarrow> e \<in> set (pl_entries pl) \<and> entry_is_equal pl e key"
    using pl.find_ok [OF assms, of tm key] by blast
  moreover have "pl_frame pl' = pl_frame pl \<and> (\<forall>a. pl_pdata (pl_heap pl' a) = pl_pdata (pl_heap pl a))"
    using f(1) by (auto simp: ch_plist_entry_find_def Let_def pl_frame_def split: option.splits)
  ultimately show ?thesis by blast
qed

text \<open>The client writes its part of an entry.\<close>

definition pl_store :: "addr \<Rightarrow> 'd \<Rightarrow> ('k, 'd, 'pd, 'w, 'mp) ch_plist \<Rightarrow> ('k, 'd, 'pd, 'w, 'mp) ch_plist" where
  "pl_store e d pl = pl\<lparr>pl_heap := (pl_heap pl)(e := (pl_heap pl e)\<lparr>pl_pdata := d\<rparr>)\<rparr>"

lemma pl_store_simps [simp]:
  "plist_ok (pl_store e d pl) = plist_ok pl" "pl_entries (pl_store e d pl) = pl_entries pl" "pl_frame (pl_store e d pl) = pl_frame pl"
  "pl_pdata (pl_heap (pl_store e d pl) a) = (if a = e then d else pl_pdata (pl_heap pl a))"
  by (simp_all add: pl_store_def plist_ok_def pl_frame_def)

lemma pl_create_ok:
  assumes ok: "plist_ok pl" "pl_callbacks_total pl" and fr: "ep_fresh mem1 (pl_ep pl)" "ep_fresh mem2 (pl_ep pl)"
  shows "\<exists>r pl' w'. ch_plist_entry_create ops mem1 mem2 tm pl w = Inr (r, pl', w') \<and> plist_ok pl' \<and>
    fst (pl_frame pl') = fst (pl_frame pl) \<and> pl_entry_clean pl' = pl_entry_clean pl \<and>
    pl_entry_timeout_cb pl' = pl_entry_timeout_cb pl \<and> pl_priv_data pl' = pl_priv_data pl \<and>
    (case r of
       None \<Rightarrow> set (pl_entries pl') \<subseteq> set (pl_entries pl)
     | Some e \<Rightarrow> e \<in> set (pl_entries pl') \<and> set (pl_entries pl') - {e} \<subseteq> set (pl_entries pl)) \<and>
    (\<forall>a\<in>set (pl_entries pl'). r \<noteq> Some a \<longrightarrow> pl_pdata (pl_heap pl' a) = pl_pdata (pl_heap pl a))"
proof -
  obtain r q where al: "ch_entry_pool_alloc ops mem1 (pl_ep pl) = Inr (r, q)" "ep_ok q"
    "case r of None \<Rightarrow> ep_live q = ep_live (pl_ep pl) | Some a \<Rightarrow> a \<notin> ep_live (pl_ep pl) \<and> ep_live q = insert a (ep_live (pl_ep pl))"
    using ep.get_ok [of "pl_ep pl" mem1 ops] ok fr by (auto simp: plist_ok_def)
  show ?thesis
  proof (cases r)
    case (Some e)
    then show ?thesis using al ok by (auto simp: ch_plist_entry_create_def Let_def plist_ok_def pl_frame_def)
  next
    case None
    let ?p = "pl\<lparr>pl_ep := q\<rparr>"
    have p: "plist_ok ?p" "pl_callbacks_total ?p" "distinct (pl_entries ?p)"
      using ok al None by (auto simp: plist_ok_def pl_callbacks_total_def)
    obtain pl1 w1 where l: "pl_free_loop ops (\<lambda>_ _. False) tm ?p w 0 (pl_entries ?p) =
        Inr (0 + of_nat (length (filter (pl_idle ?p (\<lambda>_ _. False) tm) (pl_entries ?p))), pl1, w1)" "plist_ok pl1"
      "set (pl_entries pl1) \<subseteq> set (pl_entries pl)" "pl_frame pl1 = pl_frame ?p"
      "\<forall>a\<in>set (pl_entries pl1). pl_heap pl1 a = pl_heap ?p a"
      using pl_free_loop_ok [OF p subset_refl, of ops "\<lambda>_ _. False" tm w 0] by fastforce
    have "ep_fresh mem2 (pl_ep pl1)"
      using l(4) ep_alloc_None_fresh [OF al(1) [unfolded None]] ok fr by (auto simp: pl_frame_def fun_eq_iff plist_ok_def)
    then obtain r2 q2 where a2: "ch_entry_pool_alloc ops mem2 (pl_ep pl1) = Inr (r2, q2)" "ep_ok q2"
      "case r2 of None \<Rightarrow> ep_live q2 = ep_live (pl_ep pl1) | Some a \<Rightarrow> a \<notin> ep_live (pl_ep pl1) \<and> ep_live q2 = insert a (ep_live (pl_ep pl1))"
      using ep.get_ok [of "pl_ep pl1" mem2 ops] l(2) by (auto simp: plist_ok_def)
    then show ?thesis using al None l
      by (cases r2) (auto simp: ch_plist_entry_create_def Let_def entries_timeout_free_def plist_ok_def pl_frame_def)
  qed
qed

section \<open>Properties\<close>

text \<open>
  \<^verbatim>\<open>ch_plist_entries_timeout_free\<close>, when its interval has passed, frees exactly the entries
  that were not used within the timeout or that the caller no longer needs, without a fault,
  and returns their number; \<^verbatim>\<open>entry_num\<close> is not lowered, it counts creations.
\<close>

theorem ch_plist_entries_timeout_free_correct:
  assumes "plist_ok pl" "pl_callbacks_total pl" "\<not> cur_time - pl_last_clean_time pl < pl_entry_timeout pl"
  shows "\<exists>n pl' w'. ch_plist_entries_timeout_free ops (Some need) cur_time pl w = Inr (n, pl', w') \<and> plist_ok pl' \<and>
    set (pl_entries pl') = {e \<in> set (pl_entries pl). \<not> pl_idle pl need cur_time e} \<and>
    n = of_nat (length (filter (pl_idle pl need cur_time) (pl_entries pl))) \<and> entry_num pl' = entry_num pl"
proof (cases "pl_entries pl = []")
  case True
  then show ?thesis using assms by (simp add: ch_plist_entries_timeout_free_def)
next
  case False
  let ?pl = "pl\<lparr>pl_last_clean_time := cur_time\<rparr>"
  have ok: "plist_ok ?pl" "pl_callbacks_total ?pl" "pl_idle ?pl need cur_time = pl_idle pl need cur_time"
    using assms by (auto simp: plist_ok_def pl_callbacks_total_def pl_idle_def fun_eq_iff)
  have d: "distinct (pl_entries pl)" using assms(1) by (simp add: plist_ok_def)
  show ?thesis
    using pl_free_loop_ok [OF ok(1,2) d, of ops need cur_time w 0] False assms(3)
    by (auto simp: ok(3) ch_plist_entries_timeout_free_def)
qed

text \<open>
  \<^verbatim>\<open>ch_plist_entry_find\<close> returns a member that equals the key, and \<^verbatim>\<open>NULL\<close> only when
  there is none, in any sequence of finds.
\<close>

theorem ch_plist_find_sequence:
  assumes "plist_ok pl"
  shows "\<exists>rs pl'. pl.find_seq pl qs = Inr (rs, pl') \<and> plist_ok pl' \<and> set (pl_entries pl') = set (pl_entries pl) \<and>
    list_all2 (\<lambda>q r. case r of
        None \<Rightarrow> \<forall>e\<in>set (pl_entries pl). \<not> entry_is_equal pl e (snd q)
      | Some e \<Rightarrow> e \<in> set (pl_entries pl) \<and> entry_is_equal pl e (snd q)) qs rs"
proof -
  obtain rs pl' where f: "pl.find_seq pl qs = Inr (rs, pl')" "plist_ok pl'" "set (pl_entries pl') = set (pl_entries pl)"
    "list_all2 (\<lambda>(now, key) r. pl.lookup pl key r) qs rs" using pl.find_seq_ok [OF assms, of qs] by blast
  have "list_all2 (\<lambda>q r. case r of
        None \<Rightarrow> \<forall>e\<in>set (pl_entries pl). \<not> entry_is_equal pl e (snd q)
      | Some e \<Rightarrow> e \<in> set (pl_entries pl) \<and> entry_is_equal pl e (snd q)) qs rs"
    by (rule list_all2_mono [OF f(4)]) (auto simp: pl.lookup_def split: option.splits)
  with f(1-3) show ?thesis by blast
qed

section \<open>Witnesses\<close>

definition sample_plist :: "(nat, nat, unit, unit, unit) ch_plist" where
  "sample_plist = \<lparr>pl_entries = [4120], pl_ep = ep sample_tbl, pl_last_entry = Some 4120, pl_priv_data = (),
     entry_num = 1, entry_num_limits = 10, pl_entry_timeout = 60, pl_last_clean_time = 0,
     pl_entry_equal = (\<lambda>d k _. d = k), pl_entry_clean = None, pl_entry_timeout_cb = None,
     pl_heap = (\<lambda>_. \<lparr>pl_last_time = 10, pl_pdata = 7\<rparr>)\<rparr>"

lemma sample_plist_ok: "plist_ok sample_plist" "pl_callbacks_total sample_plist"
  using sample_pool_used_ok
  by (auto simp: plist_ok_def sample_plist_def ep_ok_def ep_live_def sample_tbl_def pl_callbacks_total_def)

theorem ch_plist_entries_timeout_free_correct_witness:
  "\<exists>n pl' w'. ch_plist_entries_timeout_free sample_ops (Some (\<lambda>_ _. False)) 100 sample_plist () = Inr (n, pl', w') \<and>
     set (pl_entries pl') = {} \<and> n = 1"
proof -
  have i: "pl_idle sample_plist (\<lambda>_ _. False) 100 = (\<lambda>_. True)" by (simp add: pl_idle_def sample_plist_def fun_eq_iff)
  have "\<not> 100 - pl_last_clean_time sample_plist < pl_entry_timeout sample_plist" by (simp add: sample_plist_def)
  from ch_plist_entries_timeout_free_correct [OF sample_plist_ok this, of sample_ops "\<lambda>_ _. False" "()"] show ?thesis
    unfolding i by (auto simp: sample_plist_def)
qed

theorem ch_plist_find_sequence_witness:
  "\<exists>rs pl'. pl.find_seq sample_plist [(20, 7)] = Inr (rs, pl') \<and> rs = [Some 4120]"
proof -
  have "entry_is_equal sample_plist 4120 7" by (simp add: entry_is_equal_def sample_plist_def)
  moreover have "set (pl_entries sample_plist) = {4120}" by (simp add: sample_plist_def)
  ultimately show ?thesis
    using ch_plist_find_sequence [OF sample_plist_ok(1), of "[(20, 7)]"]
    by (auto simp: list_all2_Cons1 split: option.splits)
qed

end
