(* ===== verification/Rule_Utils.thy ===== *)
theory Rule_Utils
  imports Prelude "HOL-Library.Sublist"
begin

text \<open>
  The helpers of the rule engine: \<^verbatim>\<open>rule/ch_rule_utils.h\<close> (the operators, the conversion of
  binary data to text, the splitting of lists of values), the name tables of
  \<^verbatim>\<open>rule/ch_rule_constants.h\<close>, and what they use of \<^verbatim>\<open>ch_strtok\<close>, \<^verbatim>\<open>ch_ultoa\<close> and of the C
  library's \<^verbatim>\<open>strtol\<close> and \<^verbatim>\<open>strncasecmp\<close>. A C string is the list of its characters without
  the terminating zero, \<^verbatim>\<open>NULL\<close> is \<open>None\<close>; a buffer is the list of its bytes, and an access
  outside it is the fault \<open>Out_Of_Bounds\<close>. Shown here: the operators decide prefix, suffix,
  equality and occurrence, the decimal printer and \<^verbatim>\<open>strtol\<close> are inverse, the tables
  resolve every name they hold, and \<^verbatim>\<open>ch_rule_data_get\<close> stays inside its buffers.
\<close>

section \<open>Characters, numbers and tokens\<close>

type_synonym c_string = "string option"

definition str_empty :: "c_string \<Rightarrow> bool" where
  "str_empty s \<longleftrightarrow> s = None \<or> s = Some []"

definition char_code :: "char \<Rightarrow> nat" where
  "char_code c = of_char c"

definition is_space :: "char \<Rightarrow> bool" where
  "is_space c \<longleftrightarrow> char_code c = 32 \<or> 9 \<le> char_code c \<and> char_code c \<le> 13"

definition is_digit :: "char \<Rightarrow> bool" where
  "is_digit c \<longleftrightarrow> 48 \<le> char_code c \<and> char_code c \<le> 57"

definition to_lower :: "char \<Rightarrow> char" where
  "to_lower c = (if 65 \<le> char_code c \<and> char_code c \<le> 90 then char_of (char_code c + 32) else c)"

definition LONG_MAX :: int where "LONG_MAX = 2 ^ 63 - 1"
definition LONG_MIN :: int where "LONG_MIN = - (2 ^ 63)"

definition digits_value :: "string \<Rightarrow> int" where
  "digits_value ds = foldl (\<lambda>acc c. 10 * acc + int (char_code c - 48)) 0 ds"

text \<open>
  \<^verbatim>\<open>strtol(s, &ptr, 10)\<close>: blanks, an optional sign, as many digits as there are, and the
  ends of the range of a \<^verbatim>\<open>long\<close> where the number does not fit.
\<close>

definition strtol :: "string \<Rightarrow> int" where
  "strtol s =
     (let s = dropWhile is_space s;
          neg = (s \<noteq> [] \<and> hd s = CHR ''-'');
          s = (if s \<noteq> [] \<and> (hd s = CHR ''-'' \<or> hd s = CHR ''+'') then tl s else s);
          v = digits_value (takeWhile is_digit s)
      in if neg then max LONG_MIN (- v) else min LONG_MAX v)"

text \<open>
  \<^verbatim>\<open>ch_ultoa\<close> writes digits from the end of the buffer to its start, as long as there is
  room beside the terminator; \<open>room\<close> is \<^verbatim>\<open>start - buf\<close>.
\<close>

definition digit_char :: "nat \<Rightarrow> char" where
  "digit_char d = char_of (48 + d)"

fun ultoa_loop :: "nat \<Rightarrow> nat \<Rightarrow> string \<Rightarrow> string" where
  "ultoa_loop n room acc =
     (if room = 0 then acc
      else
        let acc = digit_char (n mod 10) # acc
        in if n div 10 = 0 then acc else ultoa_loop (n div 10) (room - 1) acc)"

declare ultoa_loop.simps [simp del]

definition text_bytes :: "string \<Rightarrow> bytes" where
  "text_bytes s = map (\<lambda>c. of_nat (char_code c)) s"

text \<open>The text from the returned pointer on, and the buffer, with the digits at its end.\<close>

definition ch_ultoa :: "u64 \<Rightarrow> bytes \<Rightarrow> (string \<times> bytes) res" where
  "ch_ultoa n buf =
     (if length buf = 0 then Inl Out_Of_Bounds
      else
        let s = ultoa_loop (unat n) (length buf - 1) []
        in Inr (s, take (length buf - 1 - length s) buf @ text_bytes s @ [0]))"

text \<open>
  \<^verbatim>\<open>ch_strtok\<close>: the next token and the rest of the string behind the separator that ends it.
  The code ends the token by writing a zero over that separator; what is left to read of the
  string from its start is \<open>strtok_cut\<close>.
\<close>

definition ch_strtok :: "string \<Rightarrow> string \<Rightarrow> (string \<times> string) option" where
  "ch_strtok str sep =
     (let str = dropWhile (\<lambda>c. c \<in> set sep) str
      in case str of
           [] \<Rightarrow> None
         | c # cs \<Rightarrow> Some (c # takeWhile (\<lambda>c. c \<notin> set sep) cs, tl (dropWhile (\<lambda>c. c \<notin> set sep) cs)))"

definition strtok_cut :: "string \<Rightarrow> string \<Rightarrow> string" where
  "strtok_cut str sep =
     (case ch_strtok str sep of
        None \<Rightarrow> str
      | Some (tok, rest) \<Rightarrow> takeWhile (\<lambda>c. c \<in> set sep) str @ tok)"

lemma ch_strtok_shorter: "ch_strtok str sep = Some (tok, rest) \<Longrightarrow> length rest < length str"
proof -
  assume a: "ch_strtok str sep = Some (tok, rest)"
  obtain c cs where d: "dropWhile (\<lambda>c. c \<in> set sep) str = c # cs" and r: "rest = tl (dropWhile (\<lambda>c. c \<notin> set sep) cs)"
    using a by (auto simp: ch_strtok_def Let_def split: list.splits)
  have "length rest \<le> length cs"
    unfolding r by (metis diff_le_self le_trans length_dropWhile_le length_tl)
  moreover have "length (c # cs) \<le> length str"
    by (metis d length_dropWhile_le)
  ultimately show ?thesis by simp
qed

text \<open>
  The loop of \<^verbatim>\<open>ch_strsplit_to_arrays\<close>. Its test for an empty token never succeeds, a token
  has at least one character.
\<close>

function strsplit :: "string \<Rightarrow> string \<Rightarrow> string list" where
  "strsplit str sep =
     (case ch_strtok str sep of
        None \<Rightarrow> []
      | Some (part, rest) \<Rightarrow> part # strsplit rest sep)"
  by auto
termination
  by (relation "measure (\<lambda>(str, sep). length str)") (auto dest: ch_strtok_shorter)

declare strsplit.simps [simp del]

text \<open>A \<^verbatim>\<open>NULL\<close> string makes the first call go on from an uninitialised pointer.\<close>

definition ch_strsplit_to_arrays :: "c_string \<Rightarrow> string \<Rightarrow> string list res" where
  "ch_strsplit_to_arrays str sep = (case str of None \<Rightarrow> Inl Null_Deref | Some s \<Rightarrow> Inr (strsplit s sep))"

section \<open>Protocols, targets and operators\<close>

definition PROTO_UNK :: int where "PROTO_UNK = -1"
definition PROTO_TCP :: int where "PROTO_TCP = 0"
definition PROTO_UDP :: int where "PROTO_UDP = 1"
definition PROTO_HTTP :: int where "PROTO_HTTP = 2"
definition PROTO_MAIL :: int where "PROTO_MAIL = 3"
definition PROTO_FTP :: int where "PROTO_FTP = 4"
definition PROTO_TELNET :: int where "PROTO_TELNET = 5"
definition PROTO_DNS :: int where "PROTO_DNS = 6"
definition PROTO_SSH :: int where "PROTO_SSH = 7"
definition PROTO_SMON :: int where "PROTO_SMON = 8"
definition PROTO_PKT :: int where "PROTO_PKT = 9"

definition TARGET_NONE :: int where "TARGET_NONE = -1"
definition TARGET_SRCIP :: int where "TARGET_SRCIP = 0"
definition TARGET_DSTIP :: int where "TARGET_DSTIP = 1"
definition TARGET_SRCPORT :: int where "TARGET_SRCPORT = 2"
definition TARGET_DSTPORT :: int where "TARGET_DSTPORT = 3"
definition TARGET_USER :: int where "TARGET_USER = 4"
definition TARGET_PASSWD :: int where "TARGET_PASSWD = 5"
definition TARGET_CONTENT :: int where "TARGET_CONTENT = 6"
definition TARGET_ID :: int where "TARGET_ID = 7"
definition TARGET_PROTO :: int where "TARGET_PROTO = 8"
definition TARGET_HTTP_METHOD :: int where "TARGET_HTTP_METHOD = 10"
definition TARGET_HTTP_URI :: int where "TARGET_HTTP_URI = 11"
definition TARGET_HTTP_EXTNAME :: int where "TARGET_HTTP_EXTNAME = 12"
definition TARGET_HTTP_PROTO :: int where "TARGET_HTTP_PROTO = 13"
definition TARGET_HTTP_FURI :: int where "TARGET_HTTP_FURI = 14"
definition TARGET_HTTP_HOST :: int where "TARGET_HTTP_HOST = 15"
definition TARGET_HTTP_UA :: int where "TARGET_HTTP_UA = 16"
definition TARGET_HTTP_STATUS :: int where "TARGET_HTTP_STATUS = 17"
definition TARGET_HTTP_REQHEADER :: int where "TARGET_HTTP_REQHEADER = 18"
definition TARGET_HTTP_RESHEADER :: int where "TARGET_HTTP_RESHEADER = 19"
definition TARGET_HTTP_REQBODY :: int where "TARGET_HTTP_REQBODY = 20"
definition TARGET_HTTP_RESBODY :: int where "TARGET_HTTP_RESBODY = 21"
definition TARGET_DNS_DOMAIN :: int where "TARGET_DNS_DOMAIN = 22"
definition TARGET_STREAM_REQDATA_SIZE :: int where "TARGET_STREAM_REQDATA_SIZE = 23"
definition TARGET_STREAM_RESDATA_SIZE :: int where "TARGET_STREAM_RESDATA_SIZE = 24"
definition TARGET_STREAM_REQDATA :: int where "TARGET_STREAM_REQDATA = 25"
definition TARGET_STREAM_RESDATA :: int where "TARGET_STREAM_RESDATA = 26"
definition TARGET_MAIL_FROM_MAIL :: int where "TARGET_MAIL_FROM_MAIL = 27"
definition TARGET_MAIL_TO_MAILS :: int where "TARGET_MAIL_TO_MAILS = 28"
definition TARGET_MAIL_CC_MAILS :: int where "TARGET_MAIL_CC_MAILS = 29"
definition TARGET_MAIL_TITLE :: int where "TARGET_MAIL_TITLE = 30"
definition TARGET_MAIL_CONTENT :: int where "TARGET_MAIL_CONTENT = 31"
definition TARGET_MAIL_ATTACH_NAMES :: int where "TARGET_MAIL_ATTACH_NAMES = 32"
definition TARGET_SMON_REQDATA :: int where "TARGET_SMON_REQDATA = 33"
definition TARGET_SMON_RESDATA :: int where "TARGET_SMON_RESDATA = 34"
definition TARGET_FTP_LOGIN_CODE :: int where "TARGET_FTP_LOGIN_CODE = 35"
definition TARGET_FTP_CMDS :: int where "TARGET_FTP_CMDS = 36"
definition TARGET_FTP_CMD_ARGS :: int where "TARGET_FTP_CMD_ARGS = 37"
definition TARGET_FTP_CMD_RES_CODES :: int where "TARGET_FTP_CMD_RES_CODES = 38"
definition TARGET_FTP_CMD_RES_PHRASE :: int where "TARGET_FTP_CMD_RES_PHRASE = 39"
definition TARGET_SSH_CVERSION :: int where "TARGET_SSH_CVERSION = 40"
definition TARGET_SSH_SVERSION :: int where "TARGET_SSH_SVERSION = 41"
definition TARGET_SSH_CPKTS :: int where "TARGET_SSH_CPKTS = 42"
definition TARGET_SSH_SPKTS :: int where "TARGET_SSH_SPKTS = 43"
definition TARGET_SSH_CBYTES :: int where "TARGET_SSH_CBYTES = 44"
definition TARGET_SSH_SBYTES :: int where "TARGET_SSH_SBYTES = 45"
definition TARGET_SSH_CENCPKTS :: int where "TARGET_SSH_CENCPKTS = 46"
definition TARGET_SSH_SENCPKTS :: int where "TARGET_SSH_SENCPKTS = 47"
definition TARGET_SSH_CENCBYTES :: int where "TARGET_SSH_CENCBYTES = 48"
definition TARGET_SSH_SENCBYTES :: int where "TARGET_SSH_SENCBYTES = 49"
definition TARGET_SSH_CENCMINBYTES :: int where "TARGET_SSH_CENCMINBYTES = 50"
definition TARGET_SSH_SENCMINBYTES :: int where "TARGET_SSH_SENCMINBYTES = 51"
definition TARGET_SSH_CENCMAXBYTES :: int where "TARGET_SSH_CENCMAXBYTES = 52"
definition TARGET_SSH_SENCMAXBYTES :: int where "TARGET_SSH_SENCMAXBYTES = 53"
definition TARGET_PKT_L3_PROTO :: int where "TARGET_PKT_L3_PROTO = 54"
definition TARGET_PKT_L4_PROTO :: int where "TARGET_PKT_L4_PROTO = 55"
definition TARGET_PKT_DATA_SIZE :: int where "TARGET_PKT_DATA_SIZE = 56"
definition TARGET_PKT_DATA :: int where "TARGET_PKT_DATA = 57"
definition TARGET_PKT_L2_HEADER_SIZE :: int where "TARGET_PKT_L2_HEADER_SIZE = 58"
definition TARGET_PKT_L2_HEADER :: int where "TARGET_PKT_L2_HEADER = 59"
definition TARGET_PKT_L3_HEADER_SIZE :: int where "TARGET_PKT_L3_HEADER_SIZE = 60"
definition TARGET_PKT_L3_HEADER :: int where "TARGET_PKT_L3_HEADER = 61"
definition TARGET_PKT_L4_HEADER_SIZE :: int where "TARGET_PKT_L4_HEADER_SIZE = 62"
definition TARGET_PKT_L4_HEADER :: int where "TARGET_PKT_L4_HEADER = 63"
definition TARGET_PKT_PAYLOAD_SIZE :: int where "TARGET_PKT_PAYLOAD_SIZE = 64"
definition TARGET_PKT_PAYLOAD :: int where "TARGET_PKT_PAYLOAD = 65"
definition TARGET_PKT_TYPE :: int where "TARGET_PKT_TYPE = 66"

definition OP_none :: int where "OP_none = -1"
definition OP_contains :: int where "OP_contains = 0"
definition OP_startsWith :: int where "OP_startsWith = 1"
definition OP_endsWith :: int where "OP_endsWith = 2"
definition OP_eq :: int where "OP_eq = 3"
definition OP_lt :: int where "OP_lt = 4"
definition OP_gt :: int where "OP_gt = 5"
definition OP_le :: int where "OP_le = 6"
definition OP_ge :: int where "OP_ge = 7"
definition OP_num :: int where "OP_num = 8"

lemmas proto_const_defs = PROTO_UNK_def PROTO_TCP_def PROTO_UDP_def PROTO_HTTP_def PROTO_MAIL_def
  PROTO_FTP_def PROTO_TELNET_def PROTO_DNS_def PROTO_SSH_def PROTO_SMON_def PROTO_PKT_def

lemmas target_const_defs = TARGET_NONE_def TARGET_SRCIP_def TARGET_DSTIP_def TARGET_SRCPORT_def
  TARGET_DSTPORT_def TARGET_USER_def TARGET_PASSWD_def TARGET_CONTENT_def TARGET_ID_def TARGET_PROTO_def
  TARGET_HTTP_METHOD_def TARGET_HTTP_URI_def TARGET_HTTP_EXTNAME_def TARGET_HTTP_PROTO_def
  TARGET_HTTP_FURI_def TARGET_HTTP_HOST_def TARGET_HTTP_UA_def TARGET_HTTP_STATUS_def
  TARGET_HTTP_REQHEADER_def TARGET_HTTP_RESHEADER_def TARGET_HTTP_REQBODY_def TARGET_HTTP_RESBODY_def
  TARGET_DNS_DOMAIN_def TARGET_STREAM_REQDATA_SIZE_def TARGET_STREAM_RESDATA_SIZE_def
  TARGET_STREAM_REQDATA_def TARGET_STREAM_RESDATA_def TARGET_MAIL_FROM_MAIL_def TARGET_MAIL_TO_MAILS_def
  TARGET_MAIL_CC_MAILS_def TARGET_MAIL_TITLE_def TARGET_MAIL_CONTENT_def TARGET_MAIL_ATTACH_NAMES_def
  TARGET_SMON_REQDATA_def TARGET_SMON_RESDATA_def TARGET_FTP_LOGIN_CODE_def TARGET_FTP_CMDS_def
  TARGET_FTP_CMD_ARGS_def TARGET_FTP_CMD_RES_CODES_def TARGET_FTP_CMD_RES_PHRASE_def TARGET_SSH_CVERSION_def
  TARGET_SSH_SVERSION_def TARGET_SSH_CPKTS_def TARGET_SSH_SPKTS_def TARGET_SSH_CBYTES_def
  TARGET_SSH_SBYTES_def TARGET_SSH_CENCPKTS_def TARGET_SSH_SENCPKTS_def TARGET_SSH_CENCBYTES_def
  TARGET_SSH_SENCBYTES_def TARGET_SSH_CENCMINBYTES_def TARGET_SSH_SENCMINBYTES_def TARGET_SSH_CENCMAXBYTES_def
  TARGET_SSH_SENCMAXBYTES_def TARGET_PKT_L3_PROTO_def TARGET_PKT_L4_PROTO_def TARGET_PKT_DATA_SIZE_def
  TARGET_PKT_DATA_def TARGET_PKT_L2_HEADER_SIZE_def TARGET_PKT_L2_HEADER_def TARGET_PKT_L3_HEADER_SIZE_def
  TARGET_PKT_L3_HEADER_def TARGET_PKT_L4_HEADER_SIZE_def TARGET_PKT_L4_HEADER_def TARGET_PKT_PAYLOAD_SIZE_def
  TARGET_PKT_PAYLOAD_def TARGET_PKT_TYPE_def

lemmas op_const_defs = OP_none_def OP_contains_def OP_startsWith_def OP_endsWith_def OP_eq_def OP_lt_def
  OP_gt_def OP_le_def OP_ge_def OP_num_def

text \<open>
  \<^verbatim>\<open>cmp_return\<close> compares without case and only as far as the name in the table is long, so the
  entries are tried in their order and a longer text than the name matches too.
\<close>

definition strncasecmp_eq :: "string \<Rightarrow> string \<Rightarrow> nat \<Rightarrow> bool" where
  "strncasecmp_eq a b n \<longleftrightarrow> map to_lower (take n a) = map to_lower (take n b)"

fun table_get :: "(string \<times> int) list \<Rightarrow> string \<Rightarrow> int \<Rightarrow> int" where
  "table_get [] s dflt = dflt"
| "table_get ((name, v) # t) s dflt = (if strncasecmp_eq s name (length name) then v else table_get t s dflt)"

definition op_table :: "(string \<times> int) list" where
  "op_table = [(''contains'', OP_contains), (''startsWith'', OP_startsWith), (''endsWith'', OP_endsWith),
     (''eq'', OP_eq), (''lt'', OP_lt), (''gt'', OP_gt), (''le'', OP_le), (''ge'', OP_ge)]"

definition ch_op_value_get :: "c_string \<Rightarrow> int" where
  "ch_op_value_get s = (case s of None \<Rightarrow> OP_none | Some s \<Rightarrow> if s = [] then OP_none else table_get op_table s OP_none)"

definition target_table :: "(string \<times> int) list" where
  "target_table = [(''srcIP'', TARGET_SRCIP), (''dstIP'', TARGET_DSTIP), (''srcPort'', TARGET_SRCPORT),
     (''dstPort'', TARGET_DSTPORT), (''user'', TARGET_USER), (''passwd'', TARGET_PASSWD),
     (''content'', TARGET_CONTENT), (''id'', TARGET_ID), (''proto'', TARGET_PROTO),
     (''method'', TARGET_HTTP_METHOD), (''uri'', TARGET_HTTP_URI), (''extName'', TARGET_HTTP_EXTNAME),
     (''furi'', TARGET_HTTP_FURI), (''host'', TARGET_HTTP_HOST), (''ua'', TARGET_HTTP_UA),
     (''status'', TARGET_HTTP_STATUS), (''reqHead'', TARGET_HTTP_REQHEADER),
     (''resHead'', TARGET_HTTP_RESHEADER), (''reqBody'', TARGET_HTTP_REQBODY),
     (''resBody'', TARGET_HTTP_RESBODY), (''domain'', TARGET_DNS_DOMAIN),
     (''reqDataSize'', TARGET_STREAM_REQDATA_SIZE), (''resDataSize'', TARGET_STREAM_RESDATA_SIZE),
     (''reqData'', TARGET_STREAM_REQDATA), (''resData'', TARGET_STREAM_RESDATA),
     (''fromMail'', TARGET_MAIL_FROM_MAIL), (''toMails'', TARGET_MAIL_TO_MAILS),
     (''ccMails'', TARGET_MAIL_CC_MAILS), (''title'', TARGET_MAIL_TITLE),
     (''attachNames'', TARGET_MAIL_ATTACH_NAMES), (''mreqData'', TARGET_SMON_REQDATA),
     (''mresData'', TARGET_SMON_RESDATA), (''loginCode'', TARGET_FTP_LOGIN_CODE),
     (''cmds'', TARGET_FTP_CMDS), (''cmdArgs'', TARGET_FTP_CMD_ARGS),
     (''cmdCode'', TARGET_FTP_CMD_RES_CODES), (''cmdPhrase'', TARGET_FTP_CMD_RES_PHRASE),
     (''cversion'', TARGET_SSH_CVERSION), (''sversion'', TARGET_SSH_SVERSION),
     (''cpkts'', TARGET_SSH_CPKTS), (''spkts'', TARGET_SSH_SPKTS), (''cbytes'', TARGET_SSH_CBYTES),
     (''sbytes'', TARGET_SSH_SBYTES), (''cEncPkts'', TARGET_SSH_CENCPKTS),
     (''sEncPkts'', TARGET_SSH_SENCPKTS), (''cEncBytes'', TARGET_SSH_CENCBYTES),
     (''sEncBytes'', TARGET_SSH_SENCBYTES), (''cEncMinBytes'', TARGET_SSH_CENCMINBYTES),
     (''sEncMinBytes'', TARGET_SSH_SENCMINBYTES), (''cEncMaxBytes'', TARGET_SSH_CENCMAXBYTES),
     (''sEncMaxBytes'', TARGET_SSH_SENCMAXBYTES), (''pktL3Proto'', TARGET_PKT_L3_PROTO),
     (''pktL4Proto'', TARGET_PKT_L4_PROTO), (''pktDataSize'', TARGET_PKT_DATA_SIZE),
     (''pktData'', TARGET_PKT_DATA), (''pktL2HeaderSize'', TARGET_PKT_L2_HEADER_SIZE),
     (''pktL2Header'', TARGET_PKT_L2_HEADER), (''pktL3HeaderSize'', TARGET_PKT_L3_HEADER_SIZE),
     (''pktL3Header'', TARGET_PKT_L3_HEADER), (''pktL4HeaderSize'', TARGET_PKT_L4_HEADER_SIZE),
     (''pktL4Header'', TARGET_PKT_L4_HEADER), (''pktPayLoadSize'', TARGET_PKT_PAYLOAD_SIZE),
     (''pktPayload'', TARGET_PKT_PAYLOAD), (''pktType'', TARGET_PKT_TYPE)]"

definition ch_target_value_get :: "c_string \<Rightarrow> int" where
  "ch_target_value_get s = (case s of None \<Rightarrow> TARGET_NONE | Some s \<Rightarrow> if s = [] then TARGET_NONE else table_get target_table s TARGET_NONE)"

definition proto_table :: "(string \<times> int) list" where
  "proto_table = [(''tcp'', PROTO_TCP), (''udp'', PROTO_UDP), (''http'', PROTO_HTTP), (''mail'', PROTO_MAIL),
     (''ftp'', PROTO_FTP), (''telnet'', PROTO_TELNET), (''dns'', PROTO_DNS), (''ssh'', PROTO_SSH),
     (''smon'', PROTO_SMON), (''pkt'', PROTO_PKT)]"

definition ch_proto_value_get :: "c_string \<Rightarrow> int" where
  "ch_proto_value_get s = (case s of None \<Rightarrow> PROTO_UNK | Some s \<Rightarrow> if s = [] then PROTO_UNK else table_get proto_table s PROTO_UNK)"

definition ch_protos_to_arrays :: "c_string \<Rightarrow> string \<Rightarrow> int list res" where
  "ch_protos_to_arrays str sep =
     (case str of None \<Rightarrow> Inl Null_Deref | Some s \<Rightarrow> Inr (map (\<lambda>part. ch_proto_value_get (Some part)) (strsplit s sep)))"

fun ch_rule_int_values_contains :: "int list \<Rightarrow> int \<Rightarrow> bool" where
  "ch_rule_int_values_contains [] v = False"
| "ch_rule_int_values_contains (e # es) v = (if e = v then True else ch_rule_int_values_contains es v)"

section \<open>Operators\<close>

text \<open>
  All operators answer 0 for a \<^verbatim>\<open>NULL\<close> or empty argument. \<^verbatim>\<open>memcmp\<close> on the part of a string
  compares the lists.
\<close>

text \<open>The scan of \<^verbatim>\<open>ch_rule_op_contains\<close> from position \<open>i\<close>, with \<open>k\<close> positions still to try.\<close>

fun contains_scan :: "string \<Rightarrow> string \<Rightarrow> nat \<Rightarrow> nat \<Rightarrow> bool" where
  "contains_scan target match i 0 = False"
| "contains_scan target match i (Suc k) =
     (if target ! i = match ! 0 \<and>
         (length match = 1 \<or> tl match = take (length match - 1) (drop (i + 1) target))
      then True else contains_scan target match (i + 1) k)"

definition ch_rule_op_contains :: "c_string \<Rightarrow> c_string \<Rightarrow> bool" where
  "ch_rule_op_contains target match =
     (case (target, match) of
        (Some t, Some m) \<Rightarrow>
          if length m = 0 \<or> length t = 0 then False
          else if length m > length t then False
          else let i_max = length t - length m in contains_scan t m 0 (i_max + 1)
      | _ \<Rightarrow> False)"

definition ch_rule_op_endsWith :: "c_string \<Rightarrow> c_string \<Rightarrow> bool" where
  "ch_rule_op_endsWith target match =
     (case (target, match) of
        (Some t, Some m) \<Rightarrow>
          if length m = 0 \<or> length t = 0 then False
          else if length m > length t then False
          else m = take (length m) (drop (length t - length m) t)
      | _ \<Rightarrow> False)"

definition ch_rule_op_startsWith :: "c_string \<Rightarrow> c_string \<Rightarrow> bool" where
  "ch_rule_op_startsWith target match =
     (case (target, match) of
        (Some t, Some m) \<Rightarrow>
          if length m = 0 \<or> length t = 0 then False
          else if length m > length t then False
          else take (length m) t = m
      | _ \<Rightarrow> False)"

definition ch_rule_op_eq :: "c_string \<Rightarrow> c_string \<Rightarrow> bool" where
  "ch_rule_op_eq target match =
     (case (target, match) of
        (Some t, Some m) \<Rightarrow>
          if length m = 0 \<or> length t = 0 then False
          else if length m \<noteq> length t then False
          else take (length m) t = m
      | _ \<Rightarrow> False)"

definition ch_rule_op_lt :: "c_string \<Rightarrow> c_string \<Rightarrow> bool" where
  "ch_rule_op_lt target match =
     (case (target, match) of
        (Some t, Some m) \<Rightarrow> if length m = 0 \<or> length t = 0 then False else strtol t < strtol m
      | _ \<Rightarrow> False)"

definition ch_rule_op_gt :: "c_string \<Rightarrow> c_string \<Rightarrow> bool" where
  "ch_rule_op_gt target match =
     (case (target, match) of
        (Some t, Some m) \<Rightarrow> if length m = 0 \<or> length t = 0 then False else strtol t > strtol m
      | _ \<Rightarrow> False)"

definition ch_rule_op_le :: "c_string \<Rightarrow> c_string \<Rightarrow> bool" where
  "ch_rule_op_le target match =
     (case (target, match) of
        (Some t, Some m) \<Rightarrow> if length m = 0 \<or> length t = 0 then False else strtol t \<le> strtol m
      | _ \<Rightarrow> False)"

definition ch_rule_op_ge :: "c_string \<Rightarrow> c_string \<Rightarrow> bool" where
  "ch_rule_op_ge target match =
     (case (target, match) of
        (Some t, Some m) \<Rightarrow> if length m = 0 \<or> length t = 0 then False else strtol t \<ge> strtol m
      | _ \<Rightarrow> False)"

section \<open>Binary data as text\<close>

definition buf_get :: "bytes \<Rightarrow> nat \<Rightarrow> u8 res" where
  "buf_get b i = (if i < length b then Inr (b ! i) else Inl Out_Of_Bounds)"

definition buf_put :: "bytes \<Rightarrow> nat \<Rightarrow> u8 \<Rightarrow> bytes res" where
  "buf_put b i v = (if i < length b then Inr (b[i := v]) else Inl Out_Of_Bounds)"

definition b2hex :: "u8 list" where
  "b2hex = [48, 49, 50, 51, 52, 53, 54, 55, 56, 57, 97, 98, 99, 100, 101, 102]"

text \<open>The loop from byte \<open>i\<close>, with \<open>k\<close> bytes to go; the output position \<open>j\<close> is \<open>2 * i\<close>.\<close>

fun hex_loop :: "bytes \<Rightarrow> bytes \<Rightarrow> nat \<Rightarrow> nat \<Rightarrow> bytes res" where
  "hex_loop hex data i 0 = buf_put hex (2 * i) 0"
| "hex_loop hex data i (Suc k) =
     bind_res (buf_get data i) (\<lambda>c.
     bind_res (buf_put hex (2 * i) (b2hex ! unat (drop_bit 4 c))) (\<lambda>hex.
     bind_res (buf_put hex (2 * i + 1) (b2hex ! unat (c AND 0x0f))) (\<lambda>hex.
       hex_loop hex data (i + 1) k)))"

definition ch_rule_to_hex_with_buff :: "bytes option \<Rightarrow> bytes \<Rightarrow> size_t \<Rightarrow> bytes option res" where
  "ch_rule_to_hex_with_buff hex data len =
     (case hex of None \<Rightarrow> Inr None | Some hex \<Rightarrow> bind_res (hex_loop hex data 0 (unat len)) (\<lambda>hex. Inr (Some hex)))"

text \<open>\<open>mem\<close> says whether the pool gives the memory, whose content is not set.\<close>

definition ch_rule_to_hex :: "(nat \<Rightarrow> bytes) option \<Rightarrow> bytes \<Rightarrow> size_t \<Rightarrow> bytes option res" where
  "ch_rule_to_hex mem data len =
     (case mem of
        None \<Rightarrow> Inr None
      | Some fresh \<Rightarrow> bind_res (hex_loop (fresh (unat (len * 2 + 1))) data 0 (unat len)) (\<lambda>hex. Inr (Some hex)))"

definition ch_rule_dot_key_get :: "c_string \<Rightarrow> c_string \<Rightarrow> c_string" where
  "ch_rule_dot_key_get v pre =
     (case (v, pre) of
        (Some v, Some p) \<Rightarrow>
          if length v = 0 \<or> length p = 0 \<or> length p \<ge> length v then None else Some (drop (length p) v)
      | _ \<Rightarrow> None)"

definition memcpy :: "bytes \<Rightarrow> bytes \<Rightarrow> nat \<Rightarrow> bytes res" where
  "memcpy dst source n =
     (if n \<le> length source \<and> n \<le> length dst then Inr (take n source @ drop n dst) else Inl Out_Of_Bounds)"

text \<open>
  \<open>data\<close> is what may be read from the pointer on; \<open>dlen\<close> is the length the caller gives. The
  result is the buffer, or \<open>None\<close> for \<^verbatim>\<open>NULL\<close>. The size of the hexadecimal text is computed in
  \<^verbatim>\<open>size_t\<close>: \<open>bsize div 2 - 1\<close> wraps for a buffer of one byte.
\<close>

definition ch_rule_data_get ::
  "bytes option \<Rightarrow> size_t \<Rightarrow> bytes option \<Rightarrow> size_t \<Rightarrow> size_t \<Rightarrow> size_t \<Rightarrow> bool \<Rightarrow> bytes option res"
where
  "ch_rule_data_get buff bsize data dlen offset len isHex =
     (case (buff, data) of
        (Some buff, Some data) \<Rightarrow>
          if bsize \<le> 0 \<or> dlen \<le> 0 \<or> offset \<ge> dlen then Inr None
          else
            let pdata = drop (unat offset) data;
                dlen = dlen - offset;
                dlen = (if len > 0 \<and> dlen > len then len else dlen);
                hbsize = bsize div 2 - 1;
                rlen = (if dlen \<ge> bsize then bsize - 1 else dlen)
            in if \<not> isHex then
                 bind_res (memcpy buff pdata (unat rlen)) (\<lambda>buff.
                 bind_res (buf_put buff (unat rlen) 0) (\<lambda>buff. Inr (Some buff)))
               else
                 let rlen = (if dlen \<ge> hbsize then hbsize else dlen)
                 in ch_rule_to_hex_with_buff (Some buff) pdata rlen
      | _ \<Rightarrow> Inr None)"

text \<open>What a reader of the buffer sees: the characters before the first zero.\<close>

definition c_string_of :: "bytes \<Rightarrow> string" where
  "c_string_of b = map (\<lambda>x. char_of (unat x)) (takeWhile (\<lambda>x. x \<noteq> 0) b)"

section \<open>What the operators decide\<close>

lemma contains_scan_iff:
  "match \<noteq> [] \<Longrightarrow> i + k + length match \<le> length target + 1 \<Longrightarrow>
   contains_scan target match i k \<longleftrightarrow> (\<exists>j. i \<le> j \<and> j < i + k \<and> take (length match) (drop j target) = match)"
proof (induction k arbitrary: i)
  case 0
  then show ?case by simp
next
  case (Suc k)
  have lt: "i < length target" using Suc.prems by (cases match) auto
  obtain c cs where m: "match = c # cs" using Suc.prems(1) by (cases match) auto
  have here: "target ! i = match ! 0 \<and> (length match = 1 \<or> tl match = take (length match - 1) (drop (i + 1) target))
      \<longleftrightarrow> take (length match) (drop i target) = match"
    using lt by (auto simp: m Cons_nth_drop_Suc [symmetric])
  have ih: "contains_scan target match (i + 1) k \<longleftrightarrow>
      (\<exists>j. i + 1 \<le> j \<and> j < i + 1 + k \<and> take (length match) (drop j target) = match)"
    by (rule Suc.IH) (use Suc.prems in auto)
  have split: "(\<exists>j. i \<le> j \<and> j < i + Suc k \<and> P j) \<longleftrightarrow> P i \<or> (\<exists>j. i + 1 \<le> j \<and> j < i + 1 + k \<and> P j)" for P
  proof -
    have "i \<le> j \<and> j < i + Suc k \<longleftrightarrow> j = i \<or> i + 1 \<le> j \<and> j < i + 1 + k" for j by auto
    then show ?thesis by metis
  qed
  show ?case
    unfolding contains_scan.simps here ih split by simp
qed

lemma sublist_iff_take_drop:
  "sublist m t \<longleftrightarrow> (\<exists>j. j + length m \<le> length t \<and> take (length m) (drop j t) = m)"
proof
  assume "sublist m t"
  then obtain a b where "t = a @ m @ b" by (auto simp: sublist_def)
  then have "length a + length m \<le> length t \<and> take (length m) (drop (length a) t) = m" by simp
  then show "\<exists>j. j + length m \<le> length t \<and> take (length m) (drop j t) = m" by blast
next
  assume "\<exists>j. j + length m \<le> length t \<and> take (length m) (drop j t) = m"
  then obtain j where "take (length m) (drop j t) = m" by blast
  then show "sublist m t"
    by (metis sublist_drop sublist_take sublist_order.order_trans)
qed

lemma ch_rule_op_contains_iff:
  "ch_rule_op_contains (Some t) (Some m) \<longleftrightarrow> m \<noteq> [] \<and> sublist m t"
proof (cases "m = [] \<or> length m > length t")
  case True
  then show ?thesis
    by (auto simp: ch_rule_op_contains_def dest: sublist_length_le)
next
  case False
  then have "ch_rule_op_contains (Some t) (Some m) \<longleftrightarrow>
      (\<exists>j. j < length t - length m + 1 \<and> take (length m) (drop j t) = m)"
    by (auto simp: ch_rule_op_contains_def Let_def contains_scan_iff simp del: contains_scan.simps)
  also have "\<dots> \<longleftrightarrow> (\<exists>j. j + length m \<le> length t \<and> take (length m) (drop j t) = m)"
  proof -
    have "j < length t - length m + 1 \<longleftrightarrow> j + length m \<le> length t" for j using False by auto
    then show ?thesis by simp
  qed
  finally show ?thesis
    using False by (simp add: sublist_iff_take_drop)
qed

lemma ch_rule_op_startsWith_iff:
  "ch_rule_op_startsWith (Some t) (Some m) \<longleftrightarrow> m \<noteq> [] \<and> prefix m t"
proof -
  have "prefix m t \<longleftrightarrow> length m \<le> length t \<and> take (length m) t = m"
    by (metis append_eq_conv_conj prefix_def prefix_length_le take_is_prefix)
  then show ?thesis by (auto simp: ch_rule_op_startsWith_def)
qed

lemma ch_rule_op_endsWith_iff:
  "ch_rule_op_endsWith (Some t) (Some m) \<longleftrightarrow> m \<noteq> [] \<and> suffix m t"
  by (auto simp: ch_rule_op_endsWith_def suffix_def not_less intro: exI [of _ "take (length t - length m) t"])
    (metis append_take_drop_id)

lemma ch_rule_op_eq_iff:
  "ch_rule_op_eq (Some t) (Some m) \<longleftrightarrow> m \<noteq> [] \<and> t = m"
  by (auto simp: ch_rule_op_eq_def)

section \<open>Numbers\<close>

lemma char_code_digit: "d < 10 \<Longrightarrow> char_code (digit_char d) = 48 + d"
  by (simp add: char_code_def digit_char_def)

fun digits :: "nat \<Rightarrow> nat list" where
  "digits n = (if n < 10 then [n] else digits (n div 10) @ [n mod 10])"

declare digits.simps [simp del]

lemma digits_lt: "d \<in> set (digits n) \<Longrightarrow> d < 10"
proof (induction n rule: digits.induct)
  case (1 n)
  then show ?case by (cases "n < 10") (auto simp: digits.simps [of n])
qed

lemma length_digits: "n < 10 ^ k \<Longrightarrow> 0 < k \<Longrightarrow> length (digits n) \<le> k"
proof (induction n arbitrary: k rule: digits.induct)
  case (1 n)
  show ?case
  proof (cases "n < 10")
    case True
    then show ?thesis using 1 by (simp add: digits.simps [of n])
  next
    case False
    then obtain j where k: "k = Suc j" "0 < j" using 1(2,3) by (cases k; cases "k - 1") auto
    have "length (digits (n div 10)) \<le> j"
      by (rule 1(1)) (use False 1(2) k in auto)
    then show ?thesis using False by (simp add: digits.simps [of n] k)
  qed
qed

lemma ultoa_loop_digits:
  "length (digits n) \<le> room \<Longrightarrow> ultoa_loop n room acc = map digit_char (digits n) @ acc"
proof (induction n room acc rule: ultoa_loop.induct)
  case (1 n room acc)
  show ?case
  proof (cases "n < 10")
    case True
    then show ?thesis using 1(2) by (simp add: ultoa_loop.simps [of n] digits.simps [of n])
  next
    case False
    then have d: "digits n = digits (n div 10) @ [n mod 10]" by (simp add: digits.simps [of n])
    have r: "room \<noteq> 0" "n div 10 \<noteq> 0" using 1(2) False by (auto simp: d)
    have "ultoa_loop (n div 10) (room - 1) (digit_char (n mod 10) # acc) =
        map digit_char (digits (n div 10)) @ digit_char (n mod 10) # acc"
      by (rule 1(1) [OF r(1) refl r(2)]) (use 1(2) in \<open>simp add: d\<close>)
    then show ?thesis using r by (simp add: ultoa_loop.simps [of n] d)
  qed
qed

lemma digits_value_digits: "digits_value (map digit_char (digits n)) = int n"
proof (induction n rule: digits.induct)
  case (1 n)
  show ?case
  proof (cases "n < 10")
    case True
    then show ?thesis by (simp add: digits.simps [of n] digits_value_def char_code_digit)
  next
    case False
    have "digits_value (map digit_char (digits (n div 10))) = int (n div 10)"
      using 1 False by simp
    then show ?thesis
      using False by (simp add: digits.simps [of n] digits_value_def char_code_digit) presburger
  qed
qed

definition decimal :: "nat \<Rightarrow> string" where
  "decimal n = map digit_char (digits n)"

lemma length_decimal: "length (decimal (unat (n :: u64))) \<le> 20"
proof -
  have "unat n < 10 ^ 20" using unat_lt64 [of n] by (rule less_trans) simp
  then show ?thesis unfolding decimal_def by (simp add: length_digits)
qed

lemma ch_ultoa_eq:
  assumes "20 < length buf"
  shows "ch_ultoa n buf = Inr (decimal (unat n),
    take (length buf - 1 - length (decimal (unat n))) buf @ text_bytes (decimal (unat n)) @ [0])"
proof -
  have "length (digits (unat n)) \<le> length buf - 1" using length_decimal [of n] assms by (simp add: decimal_def)
  then have "ultoa_loop (unat n) (length buf - 1) [] = decimal (unat n)"
    by (simp add: ultoa_loop_digits decimal_def)
  then show ?thesis using assms by (auto simp: ch_ultoa_def Let_def)
qed

lemma digits_nonempty [simp]: "digits n \<noteq> []"
  by (simp add: digits.simps [of n])

lemma strtol_decimal: "strtol (decimal n) = min LONG_MAX (int n)"
proof -
  let ?s = "map digit_char (digits n)"
  have dig: "is_digit c" "\<not> is_space c" "c \<noteq> CHR ''-''" "c \<noteq> CHR ''+''" if in_s: "c \<in> set ?s" for c
  proof -
    obtain d where d: "c = digit_char d" "d < 10" using in_s by (auto dest: digits_lt)
    have code: "char_code c = 48 + d" using d char_code_digit by simp
    have "char_code (CHR ''-'') = 45" "char_code (CHR ''+'') = 43" by (simp_all add: char_code_def)
    then show "is_digit c" "\<not> is_space c" "c \<noteq> CHR ''-''" "c \<noteq> CHR ''+''"
      using code d(2) by (auto simp: is_digit_def is_space_def)
  qed
  have hd: "hd ?s \<in> set ?s" "?s \<noteq> []" by (simp_all add: hd_in_set del: set_map)
  have "dropWhile is_space ?s = ?s" using dig(2) [OF hd(1)] hd(2) by (cases ?s) auto
  moreover have "takeWhile is_digit ?s = ?s" unfolding takeWhile_eq_all_conv using dig(1) by blast
  ultimately show ?thesis
    using dig(3,4) [OF hd(1)] by (simp only: decimal_def strtol_def Let_def digits_value_digits hd(2) simp_thms if_False)
qed

lemma char_code_lt: "char_code c < 256"
  by (simp add: char_code_def)

lemma c_string_of_text_bytes:
  "(\<forall>c \<in> set s. char_code c \<noteq> 0) \<Longrightarrow> c_string_of (text_bytes s) = s"
proof (induction s)
  case (Cons c s)
  have u: "unat (of_nat (char_code c) :: u8) = char_code c"
    by (simp add: unsigned_of_nat take_bit_nat_eq_self char_code_lt)
  moreover have "(of_nat (char_code c) :: u8) \<noteq> 0" using u Cons.prems by (metis list.set_intros(1) unsigned_0)
  moreover have "char_of (char_code c) = c" by (simp add: char_code_def)
  ultimately show ?case using Cons by (simp add: c_string_of_def text_bytes_def)
qed (simp add: c_string_of_def text_bytes_def)

section \<open>Binary data as text: correctness\<close>

definition hex_byte :: "u8 \<Rightarrow> bytes" where
  "hex_byte c = [b2hex ! unat (drop_bit 4 c), b2hex ! unat (c AND 0x0f)]"

definition hex_bytes :: "bytes \<Rightarrow> bytes" where
  "hex_bytes ds = concat (map hex_byte ds)"

lemma hex_bytes_simps [simp]:
  "hex_bytes [] = []" "hex_bytes (c # ds) = hex_byte c @ hex_bytes ds" "hex_bytes (a @ b) = hex_bytes a @ hex_bytes b"
  "length (hex_bytes ds) = 2 * length ds"
  by (simp_all add: hex_bytes_def) (induction ds, simp_all add: hex_byte_def)

lemma hex_loop_ok:
  "2 * (i + k) < length hex \<Longrightarrow> i + k \<le> length data \<Longrightarrow>
   hex_loop hex data i k = Inr (take (2 * i) hex @ hex_bytes (take k (drop i data)) @ 0 # drop (2 * (i + k) + 1) hex)"
proof (induction k arbitrary: i hex)
  case 0
  then show ?case by (simp add: buf_put_def upd_conv_take_nth_drop)
next
  case (Suc k)
  let ?c = "data ! i"
  let ?h = "hex[2 * i := b2hex ! unat (drop_bit 4 ?c), 2 * i + 1 := b2hex ! unat (?c AND 0x0f)]"
  have "hex_loop hex data i (Suc k) = hex_loop ?h data (i + 1) k"
    using Suc.prems by (simp add: buf_get_def buf_put_def)
  also have "\<dots> = Inr (take (2 * (i + 1)) ?h @ hex_bytes (take k (drop (i + 1) data)) @ 0 # drop (2 * (i + 1 + k) + 1) ?h)"
    by (rule Suc.IH) (use Suc.prems in auto)
  also have "take (2 * (i + 1)) ?h = take (2 * i) hex @ hex_byte ?c"
    using Suc.prems by (simp add: take_Suc_conv_app_nth hex_byte_def nth_list_update)
  also have "drop (2 * (i + 1 + k) + 1) ?h = drop (2 * (i + Suc k) + 1) hex" by simp
  finally show ?case
    using Suc.prems by (simp add: Cons_nth_drop_Suc [symmetric])
qed

lemma hex_digit_nonzero: "n < 16 \<Longrightarrow> b2hex ! n \<noteq> 0"
proof -
  assume "n < 16"
  then have "b2hex ! n \<in> set b2hex" by (intro nth_mem) (simp add: b2hex_def)
  then show ?thesis by (auto simp: b2hex_def)
qed

lemma nibble_lt: "unat (drop_bit 4 (c :: u8)) < 16" "unat ((c :: u8) AND 0x0f) < 16"
proof -
  have "unat (drop_bit 4 c) = unat c div 16" by (simp add: drop_bit_eq_div unat_div_distrib)
  then show "unat (drop_bit 4 c) < 16" using unat_lt8 [of c] by (simp add: less_mult_imp_div_less)
  have "(0x0f :: u8) = mask 4" by (simp add: mask_eq_exp_minus_1)
  then have "c AND 0x0f = take_bit 4 c" by (simp add: take_bit_eq_mask)
  then have "unat (c AND 0x0f) = unat c mod 16" by (simp add: take_bit_eq_mod unat_mod_distrib)
  then show "unat (c AND 0x0f) < 16" by simp
qed

lemma hex_bytes_nonzero: "x \<in> set (hex_bytes ds) \<Longrightarrow> x \<noteq> 0"
  by (auto simp: hex_bytes_def hex_byte_def hex_digit_nonzero nibble_lt)

lemma c_string_of_terminated:
  "c_string_of (a @ 0 # b) = c_string_of a"
  by (induction a) (simp_all add: c_string_of_def)

text \<open>The part of the data a target selects, and the text the rule is matched against.\<close>

definition data_part :: "bytes \<Rightarrow> size_t \<Rightarrow> size_t \<Rightarrow> size_t \<Rightarrow> bytes" where
  "data_part data dlen offset len =
     (let d = take (unat dlen - unat offset) (drop (unat offset) data) in if len = 0 then d else take (unat len) d)"

definition data_text :: "bytes \<Rightarrow> size_t \<Rightarrow> bool \<Rightarrow> string" where
  "data_text part bsize isHex =
     (if isHex then c_string_of (hex_bytes (take (unat bsize div 2 - 1) part))
      else c_string_of (take (unat bsize - 1) part))"

lemma data_part_eq:
  fixes dlen offset len :: size_t
  assumes "offset < dlen"
  defines "n \<equiv> dlen - offset"
  defines "k \<equiv> (if len > 0 \<and> n > len then len else n)"
  shows "data_part data dlen offset len = take (unat k) (drop (unat offset) data)"
proof -
  have "unat n = unat dlen - unat offset"
    unfolding n_def using assms(1) by (simp add: unat_sub)
  then show ?thesis
    by (cases "len = 0") (auto simp: data_part_def k_def Let_def min_def word_less_unat word_gt_0 unsigned_eq_0_iff)
qed

lemma unat_half: "2 \<le> (bsize :: size_t) \<Longrightarrow> unat (bsize div 2 - 1) = unat bsize div 2 - 1"
proof -
  assume b: "2 \<le> bsize"
  have d: "unat (bsize div 2) = unat bsize div 2" by (simp add: unat_div_distrib)
  moreover have "2 \<le> unat bsize" using b by (simp add: word_le_unat)
  ultimately have "1 \<le> bsize div 2" by (simp add: word_le_unat)
  then show ?thesis using d by (simp add: unat_sub)
qed

lemma ch_rule_data_get_null:
  "dlen \<le> offset \<Longrightarrow> ch_rule_data_get (Some buff) bsize (Some data) dlen offset len isHex = Inr None"
  by (simp add: ch_rule_data_get_def)

lemma ch_rule_data_get_text:
  assumes buf: "length buff = unat bsize" "2 \<le> bsize" and data: "unat dlen \<le> length data" and off: "offset < dlen"
  shows "\<exists>b. ch_rule_data_get (Some buff) bsize (Some data) dlen offset len isHex = Inr (Some b) \<and>
    length b = length buff \<and> c_string_of b = data_text (data_part data dlen offset len) bsize isHex"
proof -
  define n where "n = dlen - offset"
  define k where "k = (if len > 0 \<and> n > len then len else n)"
  let ?pd = "drop (unat offset) data"
  have part: "data_part data dlen offset len = take (unat k) ?pd"
    unfolding k_def n_def by (rule data_part_eq [OF off])
  have un: "unat n = unat dlen - unat offset" unfolding n_def using off by (simp add: unat_sub)
  have kn: "unat k \<le> unat n" by (auto simp: k_def word_less_unat)
  have kp: "unat k \<le> length ?pd" using kn un data by simp
  have b2: "2 \<le> unat bsize" using buf(2) by (simp add: word_le_unat)
  have guard: "\<not> (bsize \<le> 0 \<or> dlen \<le> 0 \<or> offset \<ge> dlen)"
    using off buf(2) by (auto simp: word_le_unat word_less_unat)
  show ?thesis
  proof (cases isHex)
    case False
    define r where "r = (if k \<ge> bsize then bsize - 1 else k)"
    have r: "unat r = min (unat k) (unat bsize - 1)"
      using b2 by (auto simp: r_def unat_sub word_le_unat min_def)
    have bs: "unat r < length buff" "unat r \<le> length ?pd" using r b2 buf(1) kp by auto
    have "ch_rule_data_get (Some buff) bsize (Some data) dlen offset len isHex =
        Inr (Some ((take (unat r) ?pd @ drop (unat r) buff)[unat r := 0]))"
      using guard False bs unfolding r_def
      by (cases "k \<ge> bsize")
        (simp_all add: ch_rule_data_get_def Let_def n_def [symmetric] k_def [symmetric] memcpy_def buf_put_def)
    moreover have "(take (unat r) ?pd @ drop (unat r) buff)[unat r := 0] = take (unat r) ?pd @ 0 # drop (unat r + 1) buff"
      using bs by (simp add: list_update_append upd_conv_take_nth_drop)
    moreover have "take (unat r) ?pd = take (unat bsize - 1) (data_part data dlen offset len)"
      unfolding part r by (simp add: min.commute)
    moreover have "length (take (unat bsize - 1) (data_part data dlen offset len)) = unat r"
      using kp unfolding part r by simp
    ultimately show ?thesis
      using False bs by (auto simp: c_string_of_terminated data_text_def)
  next
    case True
    define h where "h = bsize div 2 - 1"
    define r where "r = (if k \<ge> h then h else k)"
    have h: "unat h = unat bsize div 2 - 1" unfolding h_def by (rule unat_half [OF buf(2)])
    have r: "unat r = min (unat k) (unat h)" by (auto simp: r_def word_le_unat min_def)
    have bs: "2 * (0 + unat r) < length buff" "0 + unat r \<le> length ?pd" using r h b2 buf(1) kp by (auto simp: min_def)
    have "ch_rule_data_get (Some buff) bsize (Some data) dlen offset len isHex =
        bind_res (hex_loop buff ?pd 0 (unat r)) (\<lambda>b. Inr (Some b))"
      using guard True unfolding r_def h_def
      by (simp add: ch_rule_data_get_def Let_def n_def [symmetric] k_def [symmetric] ch_rule_to_hex_with_buff_def)
    moreover have "take (unat r) ?pd = take (unat bsize div 2 - 1) (data_part data dlen offset len)"
      unfolding part r h by (simp add: min.commute)
    moreover have "length (take (unat bsize div 2 - 1) (data_part data dlen offset len)) = unat r"
      using kp unfolding part r h by simp
    ultimately show ?thesis
      using True bs by (auto simp: hex_loop_ok c_string_of_terminated data_text_def)
  qed
qed

lemma ch_rule_data_get_empty:
  assumes "4 \<le> bsize" "offset < dlen"
  shows "ch_rule_data_get (Some buff) bsize (Some []) dlen offset len isHex = Inl Out_Of_Bounds"
proof -
  define n where "n = dlen - offset"
  define k where "k = (if len > 0 \<and> n > len then len else n)"
  have b: "4 \<le> unat bsize" using assms(1) by (simp add: word_le_unat)
  have "unat n = unat dlen - unat offset" unfolding n_def using assms(2) by (simp add: unat_sub)
  then have "0 < unat n" using assms(2) by (simp add: word_less_unat)
  then have k: "0 < unat k" by (auto simp: k_def word_less_unat)
  have guard: "\<not> (bsize \<le> 0 \<or> dlen \<le> 0 \<or> offset \<ge> dlen)"
    using assms b by (auto simp: word_le_unat word_less_unat)
  show ?thesis
  proof (cases isHex)
    case False
    have "0 < unat (if k \<ge> bsize then bsize - 1 else k)" using b k by (auto simp: unat_sub word_le_unat)
    then show ?thesis
      using guard False
      by (simp add: ch_rule_data_get_def Let_def n_def [symmetric] k_def [symmetric] memcpy_def split: if_splits)
  next
    case True
    define r where "r = (if k \<ge> bsize div 2 - 1 then bsize div 2 - 1 else k)"
    have "2 \<le> bsize" using b by (simp add: word_le_unat)
    then have "0 < unat r" using b k unat_half [of bsize] by (auto simp: r_def)
    then obtain j where "unat r = Suc j" by (cases "unat r") auto
    moreover have "ch_rule_data_get (Some buff) bsize (Some []) dlen offset len isHex =
        bind_res (hex_loop buff [] 0 (unat r)) (\<lambda>b. Inr (Some b))"
      using guard True unfolding r_def
      by (simp add: ch_rule_data_get_def Let_def n_def [symmetric] k_def [symmetric] ch_rule_to_hex_with_buff_def)
    ultimately show ?thesis by (simp add: buf_get_def)
  qed
qed

text \<open>
  C35. \<^verbatim>\<open>ch_rule_data_get\<close> writes only inside a buffer of two or more bytes and reads only inside the data.
  It returns \<^verbatim>\<open>NULL\<close> exactly if the offset is not inside the data; else the buffer holds, ended by
  a zero, the selected part of the data as far as the buffer is large enough, as it is or as
  two hexadecimal digits for each byte.
\<close>

theorem ch_rule_data_get_correct:
  assumes "length buff = unat bsize" "2 \<le> bsize" "unat dlen \<le> length data"
  shows "\<exists>r. ch_rule_data_get (Some buff) bsize (Some data) dlen offset len isHex = Inr r \<and>
    (r = None \<longleftrightarrow> dlen \<le> offset) \<and>
    (\<forall>b. r = Some b \<longrightarrow> length b = length buff \<and> c_string_of b = data_text (data_part data dlen offset len) bsize isHex)"
proof (cases "dlen \<le> offset")
  case True
  then show ?thesis using ch_rule_data_get_null by simp
next
  case False
  then have "offset < dlen" by simp
  then show ?thesis using ch_rule_data_get_text [OF assms, of offset len isHex] False by auto
qed

theorem ch_rule_data_get_correct_witness:
  "\<exists>r. ch_rule_data_get (Some (replicate 8 7)) 8 (Some [0x47, 0x45, 0x54, 0x20]) 4 1 2 True = Inr r \<and>
    r \<noteq> None \<and> c_string_of (the r) = ''4554''"
proof -
  have "data_text (data_part [0x47, 0x45, 0x54, 0x20] 4 1 2) 8 True = ''4554''" by code_simp
  then show ?thesis
    using ch_rule_data_get_correct [of "replicate 8 7" 8 4 "[0x47, 0x45, 0x54, 0x20]" 1 2 True]
    by (auto simp: word_le_unat)
qed

text \<open>A buffer of one byte: the room for digits wraps, and the first digit pair is written behind the buffer.\<close>

lemma ch_rule_data_get_small_buffer:
  "ch_rule_data_get (Some [b]) 1 (Some [c]) 1 0 0 True = Inl Out_Of_Bounds"
proof -
  have "\<not> (- 1 :: u64) \<le> 1" by code_simp
  then show ?thesis
    by (simp add: ch_rule_data_get_def ch_rule_to_hex_with_buff_def buf_get_def buf_put_def Let_def)
qed

section \<open>Searching bytes by their digits\<close>

lemma c_string_of_nonzero: "(\<forall>x \<in> set b. x \<noteq> 0) \<Longrightarrow> c_string_of b = map (\<lambda>x. char_of (unat x)) b"
  by (simp add: c_string_of_def takeWhile_eq_all_conv [THEN iffD2])

text \<open>
  A hexadecimal rule finds bytes: if the bytes occur in the selected data and the buffer holds all of it,
  their digits occur in the text.
\<close>

theorem hex_search_complete:
  assumes "m \<noteq> []" "sublist m d" "length d \<le> unat bsize div 2 - 1"
  shows "ch_rule_op_contains (Some (data_text d bsize True)) (Some (c_string_of (hex_bytes m)))"
proof -
  obtain a b where d: "d = a @ m @ b" using assms(2) by (auto simp: sublist_def)
  have t: "c_string_of (hex_bytes x) = map (\<lambda>x. char_of (unat x)) (hex_bytes x)" for x
    by (rule c_string_of_nonzero) (auto dest: hex_bytes_nonzero)
  have "sublist (c_string_of (hex_bytes m)) (c_string_of (hex_bytes d))"
    unfolding t d by (simp add: sublist_def) blast
  moreover have "c_string_of (hex_bytes m) \<noteq> []" unfolding t using assms(1) by (cases m) (simp_all add: hex_byte_def)
  ultimately show ?thesis using assms(3) by (simp add: data_text_def ch_rule_op_contains_iff)
qed

theorem hex_search_complete_witness:
  "ch_rule_op_contains (Some (data_text [0x12, 0x34, 0x56] 2048 True)) (Some (c_string_of (hex_bytes [0x34])))"
  by (rule hex_search_complete) (auto simp: sublist_def intro: exI [of _ "[0x12]"])

text \<open>The converse fails: the digits may occur across the boundary of two bytes.\<close>

lemma hex_search_misaligned:
  "ch_rule_op_contains (Some (data_text [0x12, 0x34] 2048 True)) (Some ''23'')" "\<not> sublist [0x23] [0x12, 0x34 :: u8]"
proof -
  show "ch_rule_op_contains (Some (data_text [0x12, 0x34] 2048 True)) (Some ''23'')" by code_simp
  show "\<not> sublist [0x23] [0x12, 0x34 :: u8]" by (auto simp: sublist_Cons_right)
qed

section \<open>The name tables\<close>

text \<open>A comparison that stops at the first difference, and the test that no name hides a later one.\<close>

fun is_prefix :: "string \<Rightarrow> string \<Rightarrow> bool" where
  "is_prefix [] ys = True"
| "is_prefix (x # xs) [] = False"
| "is_prefix (x # xs) (y # ys) = (if x = y then is_prefix xs ys else False)"

fun unshadowed :: "string list \<Rightarrow> bool" where
  "unshadowed [] = True"
| "unshadowed (x # xs) = (if list_all (\<lambda>y. \<not> is_prefix x y) xs \<and> x \<noteq> [] then unshadowed xs else False)"

lemma strncasecmp_eq_prefix:
  "strncasecmp_eq s name (length name) \<longleftrightarrow> is_prefix (map to_lower name) (map to_lower s)"
proof -
  have "is_prefix xs ys \<longleftrightarrow> take (length xs) ys = xs" for xs ys
    by (induction xs ys rule: is_prefix.induct) auto
  then show ?thesis by (simp add: strncasecmp_eq_def take_map)
qed

lemma is_prefix_refl [simp]: "is_prefix xs xs"
  by (induction xs) auto

lemma table_get_unshadowed:
  assumes "unshadowed (map (\<lambda>(name, v). map to_lower name) t)" "(name, v) \<in> set t" "map to_lower s = map to_lower name"
  shows "table_get t s dflt = v \<and> s \<noteq> []"
  using assms
proof (induction t)
  case (Cons e t)
  obtain n w where e: "e = (n, w)" by (cases e)
  show ?case
  proof (cases "(name, v) = e")
    case True
    then show ?thesis using Cons.prems by (auto simp: e strncasecmp_eq_prefix split: if_splits)
  next
    case False
    then have "(name, v) \<in> set t" using Cons.prems by simp
    moreover from this have "\<not> is_prefix (map to_lower n) (map to_lower name)"
      using Cons.prems(1) by (auto simp: e list_all_iff split: if_splits)
    ultimately show ?thesis
      using Cons by (auto simp: e strncasecmp_eq_prefix split: if_splits)
  qed
qed simp

lemma to_lower_chars:
  "to_lower (CHR ''A'') = CHR ''a''" "to_lower (CHR ''B'') = CHR ''b''" "to_lower (CHR ''C'') = CHR ''c''"
  "to_lower (CHR ''D'') = CHR ''d''" "to_lower (CHR ''E'') = CHR ''e''" "to_lower (CHR ''F'') = CHR ''f''"
  "to_lower (CHR ''G'') = CHR ''g''" "to_lower (CHR ''H'') = CHR ''h''" "to_lower (CHR ''I'') = CHR ''i''"
  "to_lower (CHR ''J'') = CHR ''j''" "to_lower (CHR ''K'') = CHR ''k''" "to_lower (CHR ''L'') = CHR ''l''"
  "to_lower (CHR ''M'') = CHR ''m''" "to_lower (CHR ''N'') = CHR ''n''" "to_lower (CHR ''O'') = CHR ''o''"
  "to_lower (CHR ''P'') = CHR ''p''" "to_lower (CHR ''Q'') = CHR ''q''" "to_lower (CHR ''R'') = CHR ''r''"
  "to_lower (CHR ''S'') = CHR ''s''" "to_lower (CHR ''T'') = CHR ''t''" "to_lower (CHR ''U'') = CHR ''u''"
  "to_lower (CHR ''V'') = CHR ''v''" "to_lower (CHR ''W'') = CHR ''w''" "to_lower (CHR ''X'') = CHR ''x''"
  "to_lower (CHR ''Y'') = CHR ''y''" "to_lower (CHR ''Z'') = CHR ''z''" "to_lower (CHR ''a'') = CHR ''a''"
  "to_lower (CHR ''b'') = CHR ''b''" "to_lower (CHR ''c'') = CHR ''c''" "to_lower (CHR ''d'') = CHR ''d''"
  "to_lower (CHR ''e'') = CHR ''e''" "to_lower (CHR ''f'') = CHR ''f''" "to_lower (CHR ''g'') = CHR ''g''"
  "to_lower (CHR ''h'') = CHR ''h''" "to_lower (CHR ''i'') = CHR ''i''" "to_lower (CHR ''j'') = CHR ''j''"
  "to_lower (CHR ''k'') = CHR ''k''" "to_lower (CHR ''l'') = CHR ''l''" "to_lower (CHR ''m'') = CHR ''m''"
  "to_lower (CHR ''n'') = CHR ''n''" "to_lower (CHR ''o'') = CHR ''o''" "to_lower (CHR ''p'') = CHR ''p''"
  "to_lower (CHR ''q'') = CHR ''q''" "to_lower (CHR ''r'') = CHR ''r''" "to_lower (CHR ''s'') = CHR ''s''"
  "to_lower (CHR ''t'') = CHR ''t''" "to_lower (CHR ''u'') = CHR ''u''" "to_lower (CHR ''v'') = CHR ''v''"
  "to_lower (CHR ''w'') = CHR ''w''" "to_lower (CHR ''x'') = CHR ''x''" "to_lower (CHR ''y'') = CHR ''y''"
  "to_lower (CHR ''z'') = CHR ''z''" "to_lower (CHR ''0'') = CHR ''0''" "to_lower (CHR ''1'') = CHR ''1''"
  "to_lower (CHR ''2'') = CHR ''2''" "to_lower (CHR ''3'') = CHR ''3''" "to_lower (CHR ''4'') = CHR ''4''"
  "to_lower (CHR ''5'') = CHR ''5''" "to_lower (CHR ''6'') = CHR ''6''" "to_lower (CHR ''7'') = CHR ''7''"
  "to_lower (CHR ''8'') = CHR ''8''" "to_lower (CHR ''9'') = CHR ''9''"
  by (simp_all add: to_lower_def char_code_def char_of_eq_iff take_bit_eq_mod)

lemma tables_unshadowed:
  "unshadowed (map (\<lambda>(name, v). map to_lower name) target_table)"
  "unshadowed (map (\<lambda>(name, v). map to_lower name) op_table)"
  "unshadowed (map (\<lambda>(name, v). map to_lower name) proto_table)"
  by (simp_all add: target_table_def op_table_def proto_table_def to_lower_chars)

lemma names_resolve:
  "(name, v) \<in> set target_table \<Longrightarrow> map to_lower s = map to_lower name \<Longrightarrow> ch_target_value_get (Some s) = v"
  "(name, v) \<in> set op_table \<Longrightarrow> map to_lower s = map to_lower name \<Longrightarrow> ch_op_value_get (Some s) = v"
  "(name, v) \<in> set proto_table \<Longrightarrow> map to_lower s = map to_lower name \<Longrightarrow> ch_proto_value_get (Some s) = v"
  using table_get_unshadowed [OF tables_unshadowed(1)] table_get_unshadowed [OF tables_unshadowed(2)]
    table_get_unshadowed [OF tables_unshadowed(3)]
  by (simp_all add: ch_target_value_get_def ch_op_value_get_def ch_proto_value_get_def)

text \<open>
  A name of the tables of targets, operators and protocols stands for its own constant in
  whatever case it is written: no entry is hidden by an earlier one that is its prefix.
\<close>

theorem rule_names_resolve:
  assumes "(tbl, get) \<in> {(target_table, ch_target_value_get), (op_table, ch_op_value_get), (proto_table, ch_proto_value_get)}"
    and "(name, v) \<in> set tbl" and "map to_lower s = map to_lower name"
  shows "get (Some s) = v"
  using assms by (auto intro: names_resolve)

theorem rule_names_resolve_witness:
  "ch_target_value_get (Some ''PKTDATASIZE'') = TARGET_PKT_DATA_SIZE"
  by (rule rule_names_resolve [of target_table _ "''pktDataSize''"]) (simp_all add: target_table_def to_lower_chars)

end
