(* ===== verification/Rule_Match.thy ===== *)
theory Rule_Match
  imports Rule_Utils
begin

text \<open>
  The rule engine of \<^verbatim>\<open>rule/\<close> and the filter engine of \<^verbatim>\<open>filter/\<close>: rules are read from JSON
  files that the rule groups name, every pool holds the rules of one group, and a session or
  packet is matched through a target context, which says for a target of a rule which text is to
  be compared. The JSON library is a parameter, a record of the functions that the code calls;
  files are functions from their names. Shown here: an engine answers exactly by the boolean
  reading of its rules (locale \<open>target_source\<close>), the pools that are read hold only rules that
  are enabled, have a protocol, items and operators, and what the matching of all
  rules collects.
\<close>

section \<open>Rules, pools and engines\<close>

record ch_rule_target =
  target_str :: c_string
  rt_target :: int
  rt_offset :: size_t
  rt_len :: size_t

record ch_rule_item =
  arr_values :: "string list option"
  item_value :: c_string
  item_target :: ch_rule_target
  op_str :: c_string
  item_op :: int
  item_isAnd :: bool
  isArray :: bool
  isHex :: bool
  isnot :: bool

record ch_rule =
  proto_str :: c_string
  rule_proto :: int
  rule_id :: u64
  rule_time :: u64
  rule_type :: c_string
  rule_msg :: c_string
  rule_name :: c_string
  rule_value :: c_string
  isEnable :: bool
  rule_isAnd :: bool
  rule_items :: "ch_rule_item list"

record ch_rule_group =
  rootDir :: c_string
  group_name :: c_string
  group_engine :: c_string
  group_enable :: bool
  isInline :: bool
  group_time :: u64
  ruleCounts :: u32
  enableRuleCounts :: u32
  disableRuleCounts :: u32

record ch_rule_pool =
  pool_rules :: "ch_rule list"
  pool_matchThenStop :: bool
  rgroup :: ch_rule_group
  accept_protos :: "int list option"

record ch_rule_engine_context =
  rpools :: "ch_rule_pool list"
  ruleGroupPath :: c_string
  context_engine :: c_string
  context_protos :: c_string
  context_matchThenStop :: bool

text \<open>The engine and the filter engine have the same members.\<close>

record ch_rule_engine =
  recontext :: ch_rule_engine_context
  engine_protos :: "int list"

text \<open>
  A target context: the protocol test and the text of a target. The text lies in a buffer of
  the context, \<^verbatim>\<open>data\<close>, that the next call overwrites; the engine reads it at once. The buffers
  are the state \<open>'s\<close> that the engine threads through its calls.
\<close>

record 's ch_rule_target_context =
  tc_proto :: string
  isMyProto :: "int \<Rightarrow> bool"
  tc_target :: "'s \<Rightarrow> ch_rule_target \<Rightarrow> bool \<Rightarrow> (c_string \<times> 's) res"

record ch_rule_match_context =
  match_rules :: "ch_rule list"
  match_n :: int

section \<open>Reading rules\<close>

text \<open>
  What the code calls of cJSON (\<^verbatim>\<open>cJSON_GetObjectItem\<close>, \<^verbatim>\<open>cJSON_IsArray\<close>, the array's items in their
  order, \<^verbatim>\<open>cJSON_GetStringValue\<close>, \<^verbatim>\<open>cJSON_IsTrue\<close>, \<^verbatim>\<open>cJSON_GetNumberValue\<close> cast to \<^verbatim>\<open>long\<close>), the files it
  reads, and whether a memory pool can be created for the pool with that file. A JSON file is
  \<open>None\<close> if it cannot be opened or is empty, and \<open>Some None\<close> if its text is not JSON.
\<close>

record 'j rule_env =
  get_object_item :: "'j \<Rightarrow> string \<Rightarrow> 'j option"
  is_array :: "'j \<Rightarrow> bool"
  array_items :: "'j \<Rightarrow> 'j list"
  string_value :: "'j \<Rightarrow> c_string"
  is_true :: "'j \<Rightarrow> bool"
  number_value :: "'j \<Rightarrow> int"
  json_file :: "string \<Rightarrow> 'j option option"
  lines_file :: "string \<Rightarrow> string list option"
  pool_memory :: "string \<Rightarrow> bool"

definition ch_json_str_value_get :: "'j rule_env \<Rightarrow> 'j \<Rightarrow> string \<Rightarrow> string \<Rightarrow> c_string" where
  "ch_json_str_value_get env obj key defv =
     (case get_object_item env obj key of None \<Rightarrow> Some defv | Some e \<Rightarrow> string_value env e)"

definition ch_json_bool_value_get :: "'j rule_env \<Rightarrow> 'j \<Rightarrow> string \<Rightarrow> bool \<Rightarrow> bool" where
  "ch_json_bool_value_get env obj key defv =
     (case get_object_item env obj key of None \<Rightarrow> defv | Some e \<Rightarrow> is_true env e)"

definition ch_json_num_value_get :: "'j rule_env \<Rightarrow> 'j \<Rightarrow> string \<Rightarrow> int \<Rightarrow> int" where
  "ch_json_num_value_get env obj key defv =
     (case get_object_item env obj key of None \<Rightarrow> defv | Some e \<Rightarrow> number_value env e)"

definition load_value_arrays_from_file :: "'j rule_env \<Rightarrow> string \<Rightarrow> string list option" where
  "load_value_arrays_from_file env path =
     map_option (filter (\<lambda>line. \<not> (line \<noteq> [] \<and> hd line = CHR ''#'' \<or> length line = 0))) (lines_file env path)"

text \<open>
  \<^verbatim>\<open>_load_value_arrays\<close> cuts the value it splits: the second component is what is left to read of it.
\<close>

definition load_value_arrays :: "'j rule_env \<Rightarrow> c_string \<Rightarrow> string list option \<times> c_string" where
  "load_value_arrays env v =
     (case v of
        None \<Rightarrow> (None, None)
      | Some s \<Rightarrow>
          if length s = 0 then (None, v)
          else
            case ch_strtok s '':'' of
              None \<Rightarrow> (None, v)
            | Some (part, rest) \<Rightarrow>
                let v = Some (strtok_cut s '':'')
                in if part = ''file'' then
                     (case ch_strtok rest '':'' of
                        None \<Rightarrow> (None, v)
                      | Some (part, rest) \<Rightarrow> (load_value_arrays_from_file env part, v))
                   else if part = ''inline'' then
                     (case ch_strtok rest '':'' of
                        None \<Rightarrow> (None, v)
                      | Some (key, rest) \<Rightarrow>
                          (case ch_strtok rest '':'' of
                             None \<Rightarrow> (None, v)
                           | Some (split_value, rest) \<Rightarrow> (Some (strsplit split_value '',''), v)))
                   else (None, v))"

definition rule_target_create :: "'j rule_env \<Rightarrow> 'j \<Rightarrow> ch_rule_target option" where
  "rule_target_create env entry =
     (let str = ch_json_str_value_get env entry ''target'' [];
          target = ch_target_value_get str
      in if target = TARGET_NONE then None
         else Some \<lparr>target_str = str, rt_target = target,
                    rt_offset = word_of_int (ch_json_num_value_get env entry ''offset'' 0),
                    rt_len = word_of_int (ch_json_num_value_get env entry ''len'' 0)\<rparr>)"

text \<open>An empty value is logged and kept.\<close>

definition rule_item_parse :: "'j rule_env \<Rightarrow> 'j \<Rightarrow> ch_rule_item option" where
  "rule_item_parse env entry =
     (case rule_target_create env entry of
        None \<Rightarrow> None
      | Some rule_target \<Rightarrow>
          let opstr = ch_json_str_value_get env entry ''op'' [];
              op = ch_op_value_get opstr
          in if op = OP_none then None
             else
               let v = ch_json_str_value_get env entry ''value'' [];
                   isA = ch_json_bool_value_get env entry ''isArray'' False;
                   item = (\<lambda>arr v. \<lparr>arr_values = arr, item_value = v, item_target = rule_target, op_str = opstr, item_op = op,
                     item_isAnd = ch_json_bool_value_get env entry ''isAnd'' False, isArray = isA,
                     isHex = ch_json_bool_value_get env entry ''isHex'' False,
                     isnot = ch_json_bool_value_get env entry ''isnot'' False\<rparr>)
               in if isA then
                    if \<not> ch_rule_op_startsWith v (Some ''file:'') \<and> \<not> ch_rule_op_startsWith v (Some ''inline:'') then None
                    else (case load_value_arrays env v of
                            (None, v) \<Rightarrow> None
                          | (Some arr, v) \<Rightarrow> Some (item (Some arr) v))
                  else Some (item None v))"

definition str_value_get :: "c_string \<Rightarrow> c_string" where
  "str_value_get v = (if str_empty v then None else v)"

fun rule_items_parse :: "'j rule_env \<Rightarrow> 'j list \<Rightarrow> ch_rule_item list option" where
  "rule_items_parse env [] = Some []"
| "rule_items_parse env (e # es) =
     (case rule_item_parse env e of
        None \<Rightarrow> None
      | Some item \<Rightarrow> map_option (\<lambda>items. item # items) (rule_items_parse env es))"

definition ch_rule_parse :: "'j rule_env \<Rightarrow> 'j \<Rightarrow> ch_rule option" where
  "ch_rule_parse env entry =
     (let enable = ch_json_bool_value_get env entry ''isEnable'' False
      in if \<not> enable then None
         else
           let pstr = ch_json_str_value_get env entry ''proto'' [];
               proto = ch_proto_value_get pstr
           in if proto = PROTO_UNK then None
              else
                case get_object_item env entry ''items'' of
                  None \<Rightarrow> None
                | Some items \<Rightarrow>
                    if \<not> is_array env items \<or> length (array_items env items) = 0 then None
                    else
                      case rule_items_parse env (array_items env items) of
                        None \<Rightarrow> None
                      | Some ritems \<Rightarrow>
                          Some \<lparr>proto_str = pstr, rule_proto = proto,
                            rule_id = word_of_int (ch_json_num_value_get env entry ''id'' 0),
                            rule_time = word_of_int (ch_json_num_value_get env entry ''time'' 0),
                            rule_type = str_value_get (ch_json_str_value_get env entry ''type'' []),
                            rule_msg = str_value_get (ch_json_str_value_get env entry ''msg'' []),
                            rule_name = str_value_get (ch_json_str_value_get env entry ''name'' []),
                            rule_value = str_value_get (ch_json_str_value_get env entry ''value'' []),
                            isEnable = enable, rule_isAnd = ch_json_bool_value_get env entry ''isAnd'' False,
                            rule_items = ritems\<rparr>)"

definition pool_is_valid_rule :: "'j rule_env \<Rightarrow> ch_rule_pool \<Rightarrow> 'j \<Rightarrow> bool" where
  "pool_is_valid_rule env rpool entry =
     (case accept_protos rpool of
        None \<Rightarrow> True
      | Some protos \<Rightarrow>
          if length protos = 0 then True
          else if \<not> ch_json_bool_value_get env entry ''isEnable'' True then False
          else
            let pstr = ch_json_str_value_get env entry ''proto'' []
            in if str_empty pstr then False
               else
                 let proto = ch_proto_value_get pstr
                 in if proto = PROTO_UNK then False else ch_rule_int_values_contains protos proto)"

fun rules_loop :: "'j rule_env \<Rightarrow> ch_rule_pool \<Rightarrow> 'j list \<Rightarrow> ch_rule_pool" where
  "rules_loop env rpool [] = rpool"
| "rules_loop env rpool (entry # es) =
     (if \<not> pool_is_valid_rule env rpool entry then rules_loop env rpool es
      else case ch_rule_parse env entry of
             None \<Rightarrow> rules_loop env rpool es
           | Some rule \<Rightarrow> rules_loop env (rpool\<lparr>pool_rules := pool_rules rpool @ [rule]\<rparr>) es)"

text \<open>\<^verbatim>\<open>cJSON_GetObjectItem\<close> of a \<^verbatim>\<open>NULL\<close> object is \<^verbatim>\<open>NULL\<close>.\<close>

definition rules_parse :: "'j rule_env \<Rightarrow> 'j option \<Rightarrow> ch_rule_pool \<Rightarrow> int \<times> ch_rule_pool" where
  "rules_parse env root rpool =
     (case Option.bind root (\<lambda>r. get_object_item env r ''rules'') of
        None \<Rightarrow> (-1, rpool)
      | Some rules \<Rightarrow>
          if \<not> is_array env rules then (-1, rpool) else (0, rules_loop env rpool (array_items env rules)))"

text \<open>A \<^verbatim>\<open>NULL\<close> string is printed as \<^verbatim>\<open>(null)\<close>; \<^verbatim>\<open>snprintf\<close> keeps \<open>len - 1\<close> characters.\<close>

definition printf_s :: "c_string \<Rightarrow> string" where
  "printf_s s = (case s of None \<Rightarrow> ''(null)'' | Some s \<Rightarrow> s)"

definition ch_rule_cfname_get :: "ch_rule_group \<Rightarrow> nat \<Rightarrow> string" where
  "ch_rule_cfname_get rg len =
     take (len - 1) (printf_s (rootDir rg) @ ''/'' @ printf_s (group_engine rg) @ ''/'' @ printf_s (group_name rg) @ ''/'' @
       printf_s (group_name rg) @ ''.json'')"

definition ch_rule_pool_create :: "'j rule_env \<Rightarrow> ch_rule_group \<Rightarrow> bool \<Rightarrow> c_string \<Rightarrow> ch_rule_pool option" where
  "ch_rule_pool_create env rg stop protos =
     (let cfname = ch_rule_cfname_get rg 1024
      in if length cfname = 0 then None
         else if \<not> pool_memory env cfname then None
         else
           let rpool = \<lparr>pool_rules = [], pool_matchThenStop = stop, rgroup = rg,
                 accept_protos = (if str_empty protos then None
                   else Some (map (\<lambda>part. ch_proto_value_get (Some part)) (strsplit (the protos) '','')))\<rparr>
           in case json_file env cfname of
                None \<Rightarrow> None
              | Some root \<Rightarrow> (let (rc, rpool) = rules_parse env root rpool in if rc \<noteq> 0 then None else Some rpool))"

section \<open>Groups and engines\<close>

definition parse_rule_group :: "'j rule_env \<Rightarrow> 'j \<Rightarrow> ch_rule_group" where
  "parse_rule_group env entry =
     \<lparr>rootDir = ch_json_str_value_get env entry ''rootDir'' [], group_name = ch_json_str_value_get env entry ''name'' [],
      group_engine = ch_json_str_value_get env entry ''engine'' [], group_enable = ch_json_bool_value_get env entry ''enable'' True,
      isInline = ch_json_bool_value_get env entry ''isInline'' False,
      group_time = word_of_int (ch_json_num_value_get env entry ''time'' 0),
      ruleCounts = word_of_int (ch_json_num_value_get env entry ''ruleCounts'' 0),
      enableRuleCounts = word_of_int (ch_json_num_value_get env entry ''enableRuleCounts'' 0),
      disableRuleCounts = word_of_int (ch_json_num_value_get env entry ''disableRuleCounts'' 0)\<rparr>"

definition rule_groups_parse :: "'j rule_env \<Rightarrow> 'j option \<Rightarrow> ch_rule_group list option" where
  "rule_groups_parse env root =
     (case Option.bind root (\<lambda>r. get_object_item env r ''groups'') of
        None \<Rightarrow> None
      | Some groups \<Rightarrow>
          if \<not> is_array env groups then None else Some (map (parse_rule_group env) (array_items env groups)))"

text \<open>\<^verbatim>\<open>fopen\<close> of a \<^verbatim>\<open>NULL\<close> name fails.\<close>

definition ch_rule_groups_load :: "'j rule_env \<Rightarrow> c_string \<Rightarrow> ch_rule_group list option" where
  "ch_rule_groups_load env cfname =
     (case Option.bind cfname (json_file env) of None \<Rightarrow> None | Some root \<Rightarrow> rule_groups_parse env root)"

text \<open>\<^verbatim>\<open>_do_parse\<close> of the engine's file; every member has its default if the text is not JSON.\<close>

definition engine_context_parse :: "'j rule_env \<Rightarrow> 'j option \<Rightarrow> ch_rule_engine_context" where
  "engine_context_parse env root =
     (let str = (\<lambda>key. case root of None \<Rightarrow> Some [] | Some r \<Rightarrow> ch_json_str_value_get env r key [])
      in \<lparr>rpools = [], ruleGroupPath = str ''ruleGroupPath'', context_engine = str ''engine'', context_protos = str ''protos'',
          context_matchThenStop =
            (case root of None \<Rightarrow> False | Some r \<Rightarrow> ch_json_bool_value_get env r ''matchThenStop'' False)\<rparr>)"

definition is_my_rule_group :: "ch_rule_engine_context \<Rightarrow> ch_rule_group \<Rightarrow> bool res" where
  "is_my_rule_group ctx rg =
     (if \<not> group_enable rg then Inr False
      else case (context_engine ctx, group_engine rg) of
             (Some a, Some b) \<Rightarrow> Inr (map to_lower a = map to_lower b)
           | _ \<Rightarrow> Inl Null_Deref)"

fun load_rule_pools :: "'j rule_env \<Rightarrow> ch_rule_engine_context \<Rightarrow> ch_rule_group list \<Rightarrow> ch_rule_engine_context res" where
  "load_rule_pools env ctx [] = Inr ctx"
| "load_rule_pools env ctx (rg # rgs) =
     bind_res (is_my_rule_group ctx rg) (\<lambda>mine.
       if mine then
         (case ch_rule_pool_create env rg (context_matchThenStop ctx) (context_protos ctx) of
            None \<Rightarrow> load_rule_pools env ctx rgs
          | Some rpool \<Rightarrow> load_rule_pools env (ctx\<lparr>rpools := rpools ctx @ [rpool]\<rparr>) rgs)
       else load_rule_pools env ctx rgs)"

definition ch_rule_engine_context_create :: "'j rule_env \<Rightarrow> string \<Rightarrow> ch_rule_engine_context option res" where
  "ch_rule_engine_context_create env cfname =
     (case json_file env cfname of
        None \<Rightarrow> Inr None
      | Some root \<Rightarrow>
          let ctx = engine_context_parse env root
          in case ch_rule_groups_load env (ruleGroupPath ctx) of
               None \<Rightarrow> Inr None
             | Some groups \<Rightarrow> bind_res (load_rule_pools env ctx groups) (\<lambda>ctx. Inr (Some ctx)))"

definition ch_rule_engine_create :: "'j rule_env \<Rightarrow> string \<Rightarrow> ch_rule_engine option res" where
  "ch_rule_engine_create env cfname =
     bind_res (ch_rule_engine_context_create env cfname) (\<lambda>ctx.
       case ctx of
         None \<Rightarrow> Inr None
       | Some ctx \<Rightarrow>
           bind_res (ch_protos_to_arrays (context_protos ctx) '','') (\<lambda>protos.
             Inr (Some \<lparr>recontext = ctx, engine_protos = protos\<rparr>)))"

section \<open>Matching\<close>

definition match_op_simple :: "c_string \<Rightarrow> c_string \<Rightarrow> int \<Rightarrow> bool" where
  "match_op_simple tvalue mvalue op =
     (if op = OP_contains then ch_rule_op_contains tvalue mvalue
      else if op = OP_startsWith then ch_rule_op_startsWith tvalue mvalue
      else if op = OP_endsWith then ch_rule_op_endsWith tvalue mvalue
      else if op = OP_eq then ch_rule_op_eq tvalue mvalue
      else if op = OP_lt then ch_rule_op_lt tvalue mvalue
      else if op = OP_gt then ch_rule_op_gt tvalue mvalue
      else if op = OP_le then ch_rule_op_le tvalue mvalue
      else if op = OP_ge then ch_rule_op_ge tvalue mvalue
      else False)"

fun match_arrays_loop :: "string list \<Rightarrow> c_string \<Rightarrow> bool \<Rightarrow> int \<Rightarrow> bool" where
  "match_arrays_loop [] tvalue isAnd op = isAnd"
| "match_arrays_loop (m # ms) tvalue isAnd op =
     (if match_op_simple tvalue (Some m) op
      then (if \<not> isAnd then True else match_arrays_loop ms tvalue isAnd op)
      else (if isAnd then False else match_arrays_loop ms tvalue isAnd op))"

definition match_op_arrays :: "string list \<Rightarrow> c_string \<Rightarrow> bool \<Rightarrow> int \<Rightarrow> bool" where
  "match_op_arrays arr tvalue isAnd op =
     (if length arr = 0 then False else match_arrays_loop arr tvalue isAnd op)"

definition do_match_item :: "'s ch_rule_target_context \<Rightarrow> 's \<Rightarrow> ch_rule_item \<Rightarrow> (bool \<times> 's) res" where
  "do_match_item tc st ritem =
     bind_res (tc_target tc st (item_target ritem) (isHex ritem)) (\<lambda>(target_value, st).
       let match_value = item_value ritem
       in if str_empty match_value \<or> str_empty target_value then Inr (False, st)
          else if isArray ritem then
            (case arr_values ritem of
               None \<Rightarrow> Inr (False, st)
             | Some arr \<Rightarrow>
                 if length arr = 0 then Inr (False, st)
                 else
                   let m = match_op_arrays arr target_value (item_isAnd ritem) (item_op ritem)
                   in Inr (if isnot ritem then \<not> m else m, st))
          else
            let m = match_op_simple target_value match_value (item_op ritem)
            in Inr (if isnot ritem then \<not> m else m, st))"

definition is_valid_rule :: "'s ch_rule_target_context \<Rightarrow> ch_rule \<Rightarrow> bool" where
  "is_valid_rule tc rule \<longleftrightarrow> isEnable rule \<and> rule_proto rule \<noteq> PROTO_UNK \<and> isMyProto tc (rule_proto rule)"

fun match_items_loop :: "'s ch_rule_target_context \<Rightarrow> bool \<Rightarrow> 's \<Rightarrow> ch_rule_item list \<Rightarrow> (bool \<times> 's) res" where
  "match_items_loop tc isAnd st [] = Inr (isAnd, st)"
| "match_items_loop tc isAnd st (ritem # ritems) =
     bind_res (do_match_item tc st ritem) (\<lambda>(m, st).
       if m then (if \<not> isAnd then Inr (True, st) else match_items_loop tc isAnd st ritems)
       else (if isAnd then Inr (False, st) else match_items_loop tc isAnd st ritems))"

definition do_match_rule :: "'s ch_rule_target_context \<Rightarrow> 's \<Rightarrow> ch_rule \<Rightarrow> (bool \<times> 's) res" where
  "do_match_rule tc st rule =
     (if \<not> is_valid_rule tc rule then Inr (False, st) else match_items_loop tc (rule_isAnd rule) st (rule_items rule))"

fun match_rules_loop :: "'s ch_rule_target_context \<Rightarrow> 's \<Rightarrow> ch_rule list \<Rightarrow> (bool \<times> 's) res" where
  "match_rules_loop tc st [] = Inr (False, st)"
| "match_rules_loop tc st (rule # rules) =
     bind_res (do_match_rule tc st rule) (\<lambda>(m, st). if m then Inr (True, st) else match_rules_loop tc st rules)"

definition ch_rule_match :: "'s ch_rule_target_context \<Rightarrow> 's \<Rightarrow> ch_rule_pool \<Rightarrow> (bool \<times> 's) res" where
  "ch_rule_match tc st rpool = match_rules_loop tc st (pool_rules rpool)"

fun nmatch_rules_loop ::
  "ch_rule_match_context \<Rightarrow> 's ch_rule_target_context \<Rightarrow> 's \<Rightarrow> bool \<Rightarrow> ch_rule list \<Rightarrow>
   (bool \<times> ch_rule_match_context \<times> 's) res"
where
  "nmatch_rules_loop mc tc st stop [] = Inr (match_n mc > 0, mc, st)"
| "nmatch_rules_loop mc tc st stop (rule # rules) =
     bind_res (do_match_rule tc st rule) (\<lambda>(m, st).
       if m then
         let mc = mc\<lparr>match_rules := match_rules mc @ [rule], match_n := match_n mc + 1\<rparr>
         in if stop then Inr (True, mc, st) else nmatch_rules_loop mc tc st stop rules
       else nmatch_rules_loop mc tc st stop rules)"

definition ch_rule_nmatch ::
  "ch_rule_match_context \<Rightarrow> 's ch_rule_target_context \<Rightarrow> 's \<Rightarrow> ch_rule_pool \<Rightarrow> (bool \<times> ch_rule_match_context \<times> 's) res"
where
  "ch_rule_nmatch mc tc st rpool =
     nmatch_rules_loop (mc\<lparr>match_n := 0, match_rules := []\<rparr>) tc st (pool_matchThenStop rpool) (pool_rules rpool)"

fun run_match_loop :: "ch_rule_pool list \<Rightarrow> 's ch_rule_target_context \<Rightarrow> 's \<Rightarrow> (bool \<times> 's) res" where
  "run_match_loop [] tc st = Inr (False, st)"
| "run_match_loop (rpool # rps) tc st =
     bind_res (ch_rule_match tc st rpool) (\<lambda>(m, st). if m then Inr (True, st) else run_match_loop rps tc st)"

definition ch_rule_engine_context_run_match ::
  "ch_rule_engine_context \<Rightarrow> 's ch_rule_target_context \<Rightarrow> 's \<Rightarrow> (bool \<times> 's) res"
where
  "ch_rule_engine_context_run_match ctx tc st = run_match_loop (rpools ctx) tc st"

fun run_nmatch_loop ::
  "bool \<Rightarrow> int \<Rightarrow> ch_rule_pool list \<Rightarrow> ch_rule_match_context \<Rightarrow> 's ch_rule_target_context \<Rightarrow> 's \<Rightarrow>
   (bool \<times> ch_rule_match_context \<times> 's) res"
where
  "run_nmatch_loop stop count [] mc tc st = Inr (count > 0, mc, st)"
| "run_nmatch_loop stop count (rpool # rps) mc tc st =
     bind_res (ch_rule_nmatch mc tc st rpool) (\<lambda>(m, mc, st).
       if m then (if stop then Inr (True, mc, st) else run_nmatch_loop stop (count + 1) rps mc tc st)
       else run_nmatch_loop stop count rps mc tc st)"

definition ch_rule_engine_context_run_nmatch ::
  "ch_rule_engine_context \<Rightarrow> ch_rule_match_context \<Rightarrow> 's ch_rule_target_context \<Rightarrow> 's \<Rightarrow>
   (bool \<times> ch_rule_match_context \<times> 's) res"
where
  "ch_rule_engine_context_run_nmatch ctx mc tc st = run_nmatch_loop (context_matchThenStop ctx) 0 (rpools ctx) mc tc st"

fun is_my_proto :: "'s ch_rule_target_context \<Rightarrow> int list \<Rightarrow> bool" where
  "is_my_proto tc [] = False"
| "is_my_proto tc (p # ps) = (if isMyProto tc p then True else is_my_proto tc ps)"

definition ch_rule_engine_match :: "ch_rule_engine \<Rightarrow> 's ch_rule_target_context \<Rightarrow> 's \<Rightarrow> (bool \<times> 's) res" where
  "ch_rule_engine_match rengine tc st =
     (if \<not> is_my_proto tc (engine_protos rengine) then Inr (False, st)
      else ch_rule_engine_context_run_match (recontext rengine) tc st)"

definition ch_rule_engine_nmatch ::
  "ch_rule_engine \<Rightarrow> 's ch_rule_target_context \<Rightarrow> 's \<Rightarrow> ch_rule_match_context \<Rightarrow> (bool \<times> ch_rule_match_context \<times> 's) res"
where
  "ch_rule_engine_nmatch rengine tc st mc =
     (if \<not> is_my_proto tc (engine_protos rengine) then Inr (False, mc, st)
      else ch_rule_engine_context_run_nmatch (recontext rengine) mc tc st)"

definition ch_filter_engine_accept :: "ch_rule_engine \<Rightarrow> 's ch_rule_target_context \<Rightarrow> 's \<Rightarrow> (bool \<times> 's) res" where
  "ch_filter_engine_accept fengine tc st =
     (if \<not> is_my_proto tc (engine_protos fengine) then Inr (True, st)
      else bind_res (ch_rule_engine_context_run_match (recontext fengine) tc st) (\<lambda>(m, st). Inr (\<not> m, st)))"

section \<open>The boolean reading of rules\<close>

text \<open>
  What a rule says of a session whose targets have the texts \<open>tgt\<close>: an item compares the text of its
  target with its value or with a list of values, an item without text or without value says
  nothing and fails, even if it is negated.
\<close>

definition op_spec :: "int \<Rightarrow> string \<Rightarrow> string \<Rightarrow> bool" where
  "op_spec op t m \<longleftrightarrow> t \<noteq> [] \<and> m \<noteq> [] \<and>
     (op = OP_contains \<and> sublist m t \<or> op = OP_startsWith \<and> prefix m t \<or> op = OP_endsWith \<and> suffix m t \<or>
      op = OP_eq \<and> t = m \<or> op = OP_lt \<and> strtol t < strtol m \<or> op = OP_gt \<and> strtol t > strtol m \<or>
      op = OP_le \<and> strtol t \<le> strtol m \<or> op = OP_ge \<and> strtol t \<ge> strtol m)"

definition item_spec :: "(ch_rule_target \<Rightarrow> bool \<Rightarrow> c_string) \<Rightarrow> ch_rule_item \<Rightarrow> bool" where
  "item_spec tgt it \<longleftrightarrow>
     (case (tgt (item_target it) (isHex it), item_value it) of
        (Some t, Some v) \<Rightarrow>
          t \<noteq> [] \<and> v \<noteq> [] \<and>
          (if isArray it then
             (case arr_values it of
                None \<Rightarrow> False
              | Some ms \<Rightarrow> ms \<noteq> [] \<and>
                  (isnot it \<noteq> (if item_isAnd it then \<forall>m \<in> set ms. op_spec (item_op it) t m
                                 else \<exists>m \<in> set ms. op_spec (item_op it) t m)))
           else isnot it \<noteq> op_spec (item_op it) t v)
      | _ \<Rightarrow> False)"

definition rule_spec :: "(int \<Rightarrow> bool) \<Rightarrow> (ch_rule_target \<Rightarrow> bool \<Rightarrow> c_string) \<Rightarrow> ch_rule \<Rightarrow> bool" where
  "rule_spec mine tgt r \<longleftrightarrow>
     isEnable r \<and> rule_proto r \<noteq> PROTO_UNK \<and> mine (rule_proto r) \<and>
     (if rule_isAnd r then \<forall>it \<in> set (rule_items r). item_spec tgt it else \<exists>it \<in> set (rule_items r). item_spec tgt it)"

definition engine_spec :: "(int \<Rightarrow> bool) \<Rightarrow> (ch_rule_target \<Rightarrow> bool \<Rightarrow> c_string) \<Rightarrow> ch_rule_engine \<Rightarrow> bool" where
  "engine_spec mine tgt eng \<longleftrightarrow>
     (\<exists>p \<in> set (engine_protos eng). mine p) \<and>
     (\<exists>pool \<in> set (rpools (recontext eng)). \<exists>r \<in> set (pool_rules pool). rule_spec mine tgt r)"

lemma match_op_simple_spec: "t \<noteq> [] \<Longrightarrow> match_op_simple (Some t) (Some m) op \<longleftrightarrow> op_spec op t m"
  by (auto simp: match_op_simple_def op_spec_def op_const_defs ch_rule_op_contains_iff ch_rule_op_startsWith_iff
      ch_rule_op_endsWith_iff ch_rule_op_eq_iff ch_rule_op_lt_def ch_rule_op_gt_def ch_rule_op_le_def ch_rule_op_ge_def)

lemma match_arrays_loop_spec:
  "t \<noteq> [] \<Longrightarrow> match_arrays_loop ms (Some t) isAnd op \<longleftrightarrow>
     (if isAnd then \<forall>m \<in> set ms. op_spec op t m else \<exists>m \<in> set ms. op_spec op t m)"
  by (induction ms) (auto simp: match_op_simple_spec)

lemma is_my_proto_iff: "is_my_proto tc ps \<longleftrightarrow> (\<exists>p \<in> set ps. isMyProto tc p)"
  by (induction ps) auto

text \<open>
  The interface between the engine and those who give it the texts: for an object and buffers that are
  in order, the target function of the object's context returns the text, which does not depend
  on the buffers, and leaves the buffers in order. The engine then answers by the reading of its rules.
\<close>

locale target_source =
  fixes ctx :: "'p \<Rightarrow> 's ch_rule_target_context"
    and tgt :: "'p \<Rightarrow> ch_rule_target \<Rightarrow> bool \<Rightarrow> c_string"
    and in_order :: "'p \<Rightarrow> 's \<Rightarrow> bool"
  assumes target_returns: "in_order p st \<Longrightarrow> \<exists>st'. tc_target (ctx p) st rt h = Inr (tgt p rt h, st') \<and> in_order p st'"
begin

abbreviation mine :: "'p \<Rightarrow> int \<Rightarrow> bool" where
  "mine p \<equiv> isMyProto (ctx p)"

lemma do_match_item_spec:
  assumes "in_order p st"
  shows "\<exists>st'. do_match_item (ctx p) st it = Inr (item_spec (tgt p) it, st') \<and> in_order p st'"
proof -
  obtain st' where st': "tc_target (ctx p) st (item_target it) (isHex it) = Inr (tgt p (item_target it) (isHex it), st')" "in_order p st'"
    using target_returns [OF assms] by blast
  have "do_match_item (ctx p) st it = Inr (item_spec (tgt p) it, st')"
  proof (cases "tgt p (item_target it) (isHex it)")
    case None
    then show ?thesis by (simp add: do_match_item_def st' item_spec_def str_empty_def)
  next
    case (Some t)
    then show ?thesis
      by (cases "item_value it"; cases "arr_values it"; cases "t = []")
        (simp_all add: do_match_item_def st' item_spec_def str_empty_def match_op_simple_spec
          match_op_arrays_def match_arrays_loop_spec Let_def)
  qed
  with st'(2) show ?thesis by blast
qed

lemma match_items_loop_spec:
  "in_order p st \<Longrightarrow> \<exists>st'. match_items_loop (ctx p) isAnd st items =
     Inr (if isAnd then \<forall>it \<in> set items. item_spec (tgt p) it else \<exists>it \<in> set items. item_spec (tgt p) it, st') \<and> in_order p st'"
proof (induction items arbitrary: st)
  case (Cons it items)
  obtain st1 where s1: "do_match_item (ctx p) st it = Inr (item_spec (tgt p) it, st1)" "in_order p st1"
    using do_match_item_spec [OF Cons.prems] by blast
  show ?case
    using Cons.IH [OF s1(2)] s1 by (cases "item_spec (tgt p) it"; cases isAnd) auto
qed simp

lemma do_match_rule_spec:
  "in_order p st \<Longrightarrow> \<exists>st'. do_match_rule (ctx p) st r = Inr (rule_spec (mine p) (tgt p) r, st') \<and> in_order p st'"
  using match_items_loop_spec [of p st "rule_isAnd r" "rule_items r"]
  by (auto simp: do_match_rule_def is_valid_rule_def rule_spec_def)

lemma ch_rule_match_spec:
  assumes "in_order p st"
  shows "\<exists>st'. ch_rule_match (ctx p) st rpool = Inr (\<exists>r \<in> set (pool_rules rpool). rule_spec (mine p) (tgt p) r, st') \<and> in_order p st'"
proof -
  have "\<exists>st'. match_rules_loop (ctx p) st rs = Inr (\<exists>r \<in> set rs. rule_spec (mine p) (tgt p) r, st') \<and> in_order p st'" for rs
    using assms
  proof (induction rs arbitrary: st)
    case (Cons r rs)
    obtain st1 where s1: "do_match_rule (ctx p) st r = Inr (rule_spec (mine p) (tgt p) r, st1)" "in_order p st1"
      using do_match_rule_spec [OF Cons.prems] by blast
    show ?case using Cons.IH [OF s1(2)] s1 by (cases "rule_spec (mine p) (tgt p) r") auto
  qed simp
  then show ?thesis by (simp add: ch_rule_match_def)
qed

lemma run_match_spec:
  assumes "in_order p st"
  shows "\<exists>st'. ch_rule_engine_context_run_match c (ctx p) st =
    Inr (\<exists>pool \<in> set (rpools c). \<exists>r \<in> set (pool_rules pool). rule_spec (mine p) (tgt p) r, st') \<and> in_order p st'"
proof -
  have "\<exists>st'. run_match_loop ps (ctx p) st =
      Inr (\<exists>pool \<in> set ps. \<exists>r \<in> set (pool_rules pool). rule_spec (mine p) (tgt p) r, st') \<and> in_order p st'" for ps
    using assms
  proof (induction ps arbitrary: st)
    case (Cons pool ps)
    let ?m = "\<exists>r \<in> set (pool_rules pool). rule_spec (mine p) (tgt p) r"
    obtain st1 where s1: "ch_rule_match (ctx p) st pool = Inr (?m, st1)" "in_order p st1"
      using ch_rule_match_spec [OF Cons.prems] by blast
    show ?case using Cons.IH [OF s1(2)] s1 by (cases ?m) auto
  qed simp
  then show ?thesis by (simp add: ch_rule_engine_context_run_match_def)
qed

lemma engine_match_spec:
  "in_order p st \<Longrightarrow> \<exists>st'. ch_rule_engine_match eng (ctx p) st = Inr (engine_spec (mine p) (tgt p) eng, st') \<and> in_order p st'"
  using run_match_spec [of p st "recontext eng"] by (auto simp: ch_rule_engine_match_def is_my_proto_iff engine_spec_def)

lemma filter_accept_spec:
  "in_order p st \<Longrightarrow>
   \<exists>st'. ch_filter_engine_accept eng (ctx p) st = Inr (\<not> engine_spec (mine p) (tgt p) eng, st') \<and> in_order p st'"
  using run_match_spec [of p st "recontext eng"] by (auto simp: ch_filter_engine_accept_def is_my_proto_iff engine_spec_def)

lemma nmatch_loop_spec:
  "in_order p st \<Longrightarrow> \<exists>st'. nmatch_rules_loop mc (ctx p) st False rs =
    Inr (match_n mc + int (length (filter (rule_spec (mine p) (tgt p)) rs)) > 0,
      mc\<lparr>match_rules := match_rules mc @ filter (rule_spec (mine p) (tgt p)) rs,
         match_n := match_n mc + int (length (filter (rule_spec (mine p) (tgt p)) rs))\<rparr>, st') \<and> in_order p st'"
proof (induction rs arbitrary: mc st)
  case (Cons r rs)
  obtain st1 where s1: "do_match_rule (ctx p) st r = Inr (rule_spec (mine p) (tgt p) r, st1)" "in_order p st1"
    using do_match_rule_spec [OF Cons.prems] by blast
  show ?case
    using Cons.IH [OF s1(2), of mc] s1
      Cons.IH [OF s1(2), of "mc\<lparr>match_rules := match_rules mc @ [r], match_n := match_n mc + 1\<rparr>"]
    by (cases "rule_spec (mine p) (tgt p) r") (auto simp: ac_simps)
qed simp

lemma nmatch_spec:
  assumes "in_order p st" "\<not> pool_matchThenStop rpool"
  shows "\<exists>st'. ch_rule_nmatch mc (ctx p) st rpool =
    (let ms = filter (rule_spec (mine p) (tgt p)) (pool_rules rpool)
     in Inr (ms \<noteq> [], mc\<lparr>match_rules := ms, match_n := int (length ms)\<rparr>, st')) \<and> in_order p st'"
  using assms(2) nmatch_loop_spec [OF assms(1), of "mc\<lparr>match_n := 0, match_rules := []\<rparr>" "pool_rules rpool"]
  by (auto simp: ch_rule_nmatch_def Let_def)

lemma run_nmatch_loop_spec:
  assumes "in_order p st" "\<forall>pool \<in> set ps. \<not> pool_matchThenStop pool"
  shows "\<exists>st'. run_nmatch_loop False c ps mc (ctx p) st =
    Inr (c + int (length (filter (\<lambda>pool. \<exists>r \<in> set (pool_rules pool). rule_spec (mine p) (tgt p) r) ps)) > 0,
      if ps = [] then mc
      else let ms = filter (rule_spec (mine p) (tgt p)) (pool_rules (last ps))
           in mc\<lparr>match_rules := ms, match_n := int (length ms)\<rparr>, st') \<and> in_order p st'"
  using assms
proof (induction ps arbitrary: c mc st)
  case (Cons pool ps)
  let ?ms = "filter (rule_spec (mine p) (tgt p)) (pool_rules pool)"
  let ?mc = "mc\<lparr>match_rules := ?ms, match_n := int (length ?ms)\<rparr>"
  obtain st1 where s1: "ch_rule_nmatch mc (ctx p) st pool = Inr (?ms \<noteq> [], ?mc, st1)" "in_order p st1"
    using nmatch_spec [OF Cons.prems(1), of pool mc] Cons.prems(2) by (auto simp: Let_def)
  have m: "?ms \<noteq> [] \<longleftrightarrow> (\<exists>r \<in> set (pool_rules pool). rule_spec (mine p) (tgt p) r)"
    by (auto simp: filter_empty_conv)
  have rest: "\<forall>pool \<in> set ps. \<not> pool_matchThenStop pool" using Cons.prems(2) by simp
  show ?case
    using Cons.IH [OF s1(2) rest, of c ?mc] Cons.IH [OF s1(2) rest, of "c + 1" ?mc] s1(1) m
    by (cases "?ms = []") (auto simp: Let_def ac_simps)
qed simp

end

text \<open>
  Every context whose target function always returns is such a source, with its own texts.
\<close>

interpretation any_context: target_source fst "\<lambda>(tc, f). f"
  "\<lambda>(tc, f) st. \<forall>st rt h. \<exists>st'. tc_target tc st rt h = Inr (f rt h, st')"
  by unfold_locales auto

section \<open>The rules that are read\<close>

definition item_ok :: "ch_rule_item \<Rightarrow> bool" where
  "item_ok it \<longleftrightarrow> item_op it \<noteq> OP_none \<and> rt_target (item_target it) \<noteq> TARGET_NONE \<and> (isArray it \<longleftrightarrow> arr_values it \<noteq> None)"

definition rule_ok :: "ch_rule \<Rightarrow> bool" where
  "rule_ok r \<longleftrightarrow> isEnable r \<and> rule_proto r \<noteq> PROTO_UNK \<and> rule_items r \<noteq> [] \<and> (\<forall>it \<in> set (rule_items r). item_ok it)"

definition pool_ok :: "ch_rule_pool \<Rightarrow> bool" where
  "pool_ok rpool \<longleftrightarrow> (\<forall>r \<in> set (pool_rules rpool). rule_ok r \<and>
     (\<forall>ps. accept_protos rpool = Some ps \<longrightarrow> ps = [] \<or> rule_proto r \<in> set ps))"

lemma rule_item_parse_ok: "rule_item_parse env e = Some it \<Longrightarrow> item_ok it"
  by (auto simp: rule_item_parse_def rule_target_create_def item_ok_def Let_def split: option.splits if_splits prod.splits)

lemma rule_items_parse_ok:
  "rule_items_parse env es = Some items \<Longrightarrow> length items = length es \<and> (\<forall>it \<in> set items. item_ok it)"
  by (induction es arbitrary: items) (auto split: option.splits dest: rule_item_parse_ok)

lemma ch_rule_parse_ok:
  assumes "ch_rule_parse env e = Some r"
  shows "rule_ok r" "rule_proto r = ch_proto_value_get (ch_json_str_value_get env e ''proto'' [])"
proof -
  obtain items ritems where i: "get_object_item env e ''items'' = Some items" "length (array_items env items) \<noteq> 0"
      "rule_items_parse env (array_items env items) = Some ritems" "rule_items r = ritems"
    and r: "isEnable r" "rule_proto r \<noteq> PROTO_UNK" "rule_proto r = ch_proto_value_get (ch_json_str_value_get env e ''proto'' [])"
    using assms by (auto simp: ch_rule_parse_def Let_def split: option.splits if_splits)
  show "rule_ok r" using i r rule_items_parse_ok [OF i(3)] by (auto simp: rule_ok_def)
  show "rule_proto r = ch_proto_value_get (ch_json_str_value_get env e ''proto'' [])" by (rule r(3))
qed

lemma int_values_contains_iff: "ch_rule_int_values_contains vs v \<longleftrightarrow> v \<in> set vs"
  by (induction vs) auto

lemma pool_is_valid_rule_proto:
  "pool_is_valid_rule env rpool e \<Longrightarrow> accept_protos rpool = Some ps \<Longrightarrow> ps \<noteq> [] \<Longrightarrow>
   ch_proto_value_get (ch_json_str_value_get env e ''proto'' []) \<in> set ps"
  by (auto simp: pool_is_valid_rule_def Let_def int_values_contains_iff split: if_splits)

lemma pool_ok_add:
  assumes "pool_ok rpool" "pool_is_valid_rule env rpool e" "ch_rule_parse env e = Some r"
  shows "pool_ok (rpool\<lparr>pool_rules := pool_rules rpool @ [r]\<rparr>)"
  using assms ch_rule_parse_ok [OF assms(3)] pool_is_valid_rule_proto [OF assms(2)] by (auto simp: pool_ok_def)

lemma rules_loop_ok: "pool_ok rpool \<Longrightarrow> pool_ok (rules_loop env rpool es)"
  by (induction env rpool es rule: rules_loop.induct) (auto split: option.splits intro: pool_ok_add)

lemma rules_parse_ok: "pool_ok rpool \<Longrightarrow> pool_ok (snd (rules_parse env root rpool))"
  by (simp add: rules_parse_def rules_loop_ok split: option.splits)

lemma ch_rule_pool_create_ok:
  assumes "ch_rule_pool_create env rg stop protos = Some rpool"
  shows "pool_ok rpool"
proof -
  define p0 where "p0 = \<lparr>pool_rules = [], pool_matchThenStop = stop, rgroup = rg,
    accept_protos = (if str_empty protos then None
      else Some (map (\<lambda>part. ch_proto_value_get (Some part)) (strsplit (the protos) '','')))\<rparr>"
  obtain root where r: "rules_parse env root p0 = (0, rpool)"
    using assms unfolding ch_rule_pool_create_def Let_def p0_def [symmetric] by (auto split: if_splits option.splits prod.splits)
  have "pool_ok p0" by (simp add: pool_ok_def p0_def)
  then show ?thesis using rules_parse_ok [of p0 env root] r by simp
qed

lemma load_rule_pools_ok:
  "load_rule_pools env ctx rgs = Inr ctx' \<Longrightarrow> list_all pool_ok (rpools ctx) \<Longrightarrow> list_all pool_ok (rpools ctx')"
proof (induction rgs arbitrary: ctx)
  case (Cons rg rgs)
  obtain mine where m: "is_my_rule_group ctx rg = Inr mine" using Cons.prems by (auto simp: bind_res_eq_Inr)
  show ?case
  proof (cases "mine \<and> ch_rule_pool_create env rg (context_matchThenStop ctx) (context_protos ctx) \<noteq> None")
    case True
    then obtain rpool where c: "ch_rule_pool_create env rg (context_matchThenStop ctx) (context_protos ctx) = Some rpool" by blast
    have "list_all pool_ok (rpools (ctx\<lparr>rpools := rpools ctx @ [rpool]\<rparr>))"
      using Cons.prems(2) ch_rule_pool_create_ok [OF c] by simp
    moreover have "load_rule_pools env (ctx\<lparr>rpools := rpools ctx @ [rpool]\<rparr>) rgs = Inr ctx'"
      using Cons.prems(1) True c by (simp add: m)
    ultimately show ?thesis using Cons.IH by blast
  next
    case False
    then have "load_rule_pools env ctx rgs = Inr ctx'" using Cons.prems(1) by (cases mine) (auto simp: m)
    then show ?thesis using Cons.IH Cons.prems(2) by blast
  qed
qed simp

text \<open>
  C34. An engine that is created from its files holds only rules that can say something: every rule is
  enabled, has a known protocol that its pool accepts and at least one item, every item a
  known target and operator, and a list of values exactly if it is an array item.
\<close>

theorem ch_rule_engine_create_rules_ok:
  assumes "ch_rule_engine_create env cfname = Inr (Some eng)"
  shows "list_all pool_ok (rpools (recontext eng))"
proof -
  obtain ctx groups where "load_rule_pools env ctx groups = Inr (recontext eng)" "rpools ctx = []"
    using assms by (auto simp: ch_rule_engine_create_def ch_rule_engine_context_create_def engine_context_parse_def Let_def
        bind_res_eq_Inr split: option.splits)
  then show ?thesis by (auto intro: load_rule_pools_ok)
qed

text \<open>A JSON value, for concrete files.\<close>

datatype json = JBool bool | JNum int | JStr string | JArr "json list" | JObj "(string \<times> json) list"

fun json_item :: "json \<Rightarrow> string \<Rightarrow> json option" where
  "json_item (JObj kvs) key = map_of kvs key"
| "json_item _ key = None"

fun json_array :: "json \<Rightarrow> json list" where
  "json_array (JArr js) = js"
| "json_array _ = []"

definition json_env :: "(string \<times> json) list \<Rightarrow> json rule_env" where
  "json_env files =
     \<lparr>get_object_item = json_item, is_array = (\<lambda>j. case j of JArr js \<Rightarrow> True | _ \<Rightarrow> False), array_items = json_array,
      string_value = (\<lambda>j. case j of JStr s \<Rightarrow> Some s | _ \<Rightarrow> None), is_true = (\<lambda>j. j = JBool True),
      number_value = (\<lambda>j. case j of JNum n \<Rightarrow> n | _ \<Rightarrow> 0), json_file = (\<lambda>name. map_option Some (map_of files name)),
      lines_file = (\<lambda>name. None), pool_memory = (\<lambda>name. True)\<rparr>"

definition sample_item :: "string \<Rightarrow> string \<Rightarrow> string \<Rightarrow> json" where
  "sample_item t op v = JObj [(''target'', JStr t), (''op'', JStr op), (''value'', JStr v)]"

definition sample_rule :: "bool \<Rightarrow> json list \<Rightarrow> json" where
  "sample_rule en items =
     JObj [(''isEnable'', JBool en), (''proto'', JStr ''pkt''), (''id'', JNum 7), (''isAnd'', JBool True), (''items'', JArr items)]"

definition sample_files :: "(string \<times> json) list" where
  "sample_files =
     [(''engine'', JObj [(''ruleGroupPath'', JStr ''groups''), (''engine'', JStr ''filter''), (''protos'', JStr ''http,pkt'')]),
      (''groups'', JObj [(''groups'', JArr [JObj [(''rootDir'', JStr ''d''), (''name'', JStr ''n''), (''engine'', JStr ''Filter'')]])]),
      (''d/Filter/n/n.json'', JObj [(''rules'', JArr [sample_rule False [], sample_rule True [],
         sample_rule True [sample_item ''dstPort'' ''eq'' ''80'', sample_item ''pktPayload'' ''contains'' ''GET'']])])]"

lemma json_env_simps [simp]:
  "get_object_item (json_env fs) = json_item" "array_items (json_env fs) = json_array"
  "is_array (json_env fs) (JArr js) = True" "string_value (json_env fs) (JStr s) = Some s"
  "is_true (json_env fs) (JBool b) = b" "number_value (json_env fs) (JNum n) = n"
  "json_file (json_env fs) name = map_option Some (map_of fs name)" "pool_memory (json_env fs) name = True"
  by (simp_all add: json_env_def)

lemma sample_names:
  "ch_target_value_get (Some ''dstPort'') = TARGET_DSTPORT" "ch_target_value_get (Some ''pktPayload'') = TARGET_PKT_PAYLOAD"
  "ch_op_value_get (Some ''eq'') = OP_eq" "ch_op_value_get (Some ''contains'') = OP_contains"
  "ch_proto_value_get (Some ''pkt'') = PROTO_PKT" "ch_proto_value_get (Some ''http'') = PROTO_HTTP"
  using names_resolve(1) [of "''dstPort''" TARGET_DSTPORT, OF _ refl]
    names_resolve(1) [of "''pktPayload''" TARGET_PKT_PAYLOAD, OF _ refl]
    names_resolve(2) [of "''eq''" OP_eq, OF _ refl] names_resolve(2) [of "''contains''" OP_contains, OF _ refl]
    names_resolve(3) [of "''pkt''" PROTO_PKT, OF _ refl] names_resolve(3) [of "''http''" PROTO_HTTP, OF _ refl]
  by (simp_all add: target_table_def op_table_def proto_table_def)

lemma sample_split: "strsplit ''http,pkt'' '','' = [''http'', ''pkt'']"
proof -
  have "ch_strtok ''http,pkt'' '','' = Some (''http'', ''pkt'')" "ch_strtok ''pkt'' '','' = Some (''pkt'', [])" "ch_strtok [] '','' = None"
    by (simp_all add: ch_strtok_def)
  then show ?thesis by (simp add: strsplit.simps [of "''http,pkt''"] strsplit.simps [of "''pkt''"] strsplit.simps [of "[]"])
qed

lemmas eval_json = ch_json_str_value_get_def ch_json_bool_value_get_def ch_json_num_value_get_def Let_def

lemma sample_item_eval:
  assumes "ch_target_value_get (Some t) \<noteq> TARGET_NONE" "ch_op_value_get (Some op) \<noteq> OP_none"
  shows "rule_item_parse (json_env fs) (sample_item t op v) =
    Some \<lparr>arr_values = None, item_value = Some v,
      item_target = \<lparr>target_str = Some t, rt_target = ch_target_value_get (Some t), rt_offset = 0, rt_len = 0\<rparr>,
      op_str = Some op, item_op = ch_op_value_get (Some op), item_isAnd = False, isArray = False, isHex = False, isnot = False\<rparr>"
  using assms by (simp add: rule_item_parse_def rule_target_create_def sample_item_def eval_json)

lemma sample_rule_eval:
  "ch_rule_parse (json_env fs) (sample_rule False items) = None"
  "ch_rule_parse (json_env fs) (sample_rule True []) = None"
  "\<exists>r. ch_rule_parse (json_env fs)
     (sample_rule True [sample_item ''dstPort'' ''eq'' ''80'', sample_item ''pktPayload'' ''contains'' ''GET'']) = Some r \<and>
     rule_id r = 7 \<and> length (rule_items r) = 2"
  "accept_protos p = Some [PROTO_HTTP, PROTO_PKT] \<Longrightarrow> pool_is_valid_rule (json_env fs) p (sample_rule en items) = en"
  by (simp_all add: ch_rule_parse_def sample_rule_def eval_json sample_item_eval sample_names proto_const_defs op_const_defs
      target_const_defs pool_is_valid_rule_def str_empty_def)

lemma sample_pool_eval:
  "\<exists>rpool. ch_rule_pool_create (json_env sample_files)
      \<lparr>rootDir = Some ''d'', group_name = Some ''n'', group_engine = Some ''Filter'', group_enable = True, isInline = False,
       group_time = 0, ruleCounts = 0, enableRuleCounts = 0, disableRuleCounts = 0\<rparr> False (Some ''http,pkt'') = Some rpool \<and>
     map rule_id (pool_rules rpool) = [7] \<and> accept_protos rpool = Some [PROTO_HTTP, PROTO_PKT]"
proof -
  obtain r where r: "ch_rule_parse (json_env sample_files)
     (sample_rule True [sample_item ''dstPort'' ''eq'' ''80'', sample_item ''pktPayload'' ''contains'' ''GET'']) = Some r" "rule_id r = 7"
    using sample_rule_eval(3) by blast
  show ?thesis
  by (simp add: r Let_def ch_rule_pool_create_def ch_rule_cfname_get_def printf_s_def rules_parse_def sample_files_def [THEN arg_cong [of _ _ map_of]]
      sample_rule_eval sample_names sample_split str_empty_def)
qed

lemma sample_engine_eval:
  "\<exists>eng. ch_rule_engine_create (json_env sample_files) ''engine'' = Inr (Some eng) \<and>
     map (map rule_id \<circ> pool_rules) (rpools (recontext eng)) = [[7]] \<and> engine_protos eng = [PROTO_HTTP, PROTO_PKT]"
  using sample_pool_eval
  by (auto simp: ch_rule_engine_create_def ch_rule_engine_context_create_def engine_context_parse_def ch_rule_groups_load_def
      rule_groups_parse_def parse_rule_group_def is_my_rule_group_def ch_protos_to_arrays_def
      sample_files_def [THEN arg_cong [of _ _ map_of]] eval_json sample_names sample_split to_lower_chars)

theorem ch_rule_engine_create_rules_ok_witness:
  "\<exists>eng. ch_rule_engine_create (json_env sample_files) ''engine'' = Inr (Some eng) \<and>
     map (map rule_id \<circ> pool_rules) (rpools (recontext eng)) = [[7]] \<and> list_all pool_ok (rpools (recontext eng))"
proof -
  obtain eng where e: "ch_rule_engine_create (json_env sample_files) ''engine'' = Inr (Some eng)"
      "map (map rule_id \<circ> pool_rules) (rpools (recontext eng)) = [[7]]"
    using sample_engine_eval by (elim exE conjE)
  show ?thesis by (intro exI [of _ eng] conjI e ch_rule_engine_create_rules_ok [OF e(1)])
qed

section \<open>Collecting the rules that match\<close>

text \<open>
  Matching a session against all rules without stopping at the first one answers whether any rule of
  any pool matches, but what it collects are the matching rules of the last pool only: every
  call of \<^verbatim>\<open>ch_rule_nmatch\<close> empties the list and its counter again.
\<close>

theorem run_nmatch_collects_last_pool:
  fixes tc :: "'s ch_rule_target_context"
  assumes "\<forall>st rt h. \<exists>st'. tc_target tc st rt h = Inr (f rt h, st')"
    and "\<not> context_matchThenStop c" "\<forall>pool \<in> set (rpools c). \<not> pool_matchThenStop pool" "rpools c \<noteq> []"
  shows "\<exists>st'. ch_rule_engine_context_run_nmatch c mc tc st =
    Inr (\<exists>pool \<in> set (rpools c). \<exists>r \<in> set (pool_rules pool). rule_spec (isMyProto tc) f r,
      mc\<lparr>match_rules := filter (rule_spec (isMyProto tc) f) (pool_rules (last (rpools c))),
         match_n := int (length (filter (rule_spec (isMyProto tc) f) (pool_rules (last (rpools c)))))\<rparr>, st')"
  using any_context.run_nmatch_loop_spec [of "(tc, f)" st "rpools c" 0 mc] assms
  by (auto simp: ch_rule_engine_context_run_nmatch_def Let_def filter_empty_conv)

definition sample_context :: "unit ch_rule_target_context" where
  "sample_context = \<lparr>tc_proto = ''tcp'', isMyProto = (\<lambda>p. p = PROTO_TCP), tc_target = (\<lambda>st rt h. Inr (Some ''80'', st))\<rparr>"

definition port_rule :: ch_rule where
  "port_rule = \<lparr>proto_str = Some ''tcp'', rule_proto = PROTO_TCP, rule_id = 1, rule_time = 0, rule_type = None, rule_msg = None,
     rule_name = None, rule_value = None, isEnable = True, rule_isAnd = True,
     rule_items = [\<lparr>arr_values = None, item_value = Some ''80'',
       item_target = \<lparr>target_str = Some ''dstPort'', rt_target = TARGET_DSTPORT, rt_offset = 0, rt_len = 0\<rparr>,
       op_str = Some ''eq'', item_op = OP_eq, item_isAnd = False, isArray = False, isHex = False, isnot = False\<rparr>]\<rparr>"

definition sample_pool :: "ch_rule list \<Rightarrow> ch_rule_pool" where
  "sample_pool rs = \<lparr>pool_rules = rs, pool_matchThenStop = False,
     rgroup = \<lparr>rootDir = None, group_name = None, group_engine = None, group_enable = True, isInline = False, group_time = 0,
       ruleCounts = 0, enableRuleCounts = 0, disableRuleCounts = 0\<rparr>, accept_protos = None\<rparr>"

definition two_pools :: ch_rule_engine_context where
  "two_pools = \<lparr>rpools = [sample_pool [port_rule], sample_pool []], ruleGroupPath = None, context_engine = None,
     context_protos = None, context_matchThenStop = False\<rparr>"

theorem run_nmatch_collects_last_pool_witness:
  "\<exists>st'. ch_rule_engine_context_run_nmatch two_pools \<lparr>match_rules = [], match_n = 0\<rparr> sample_context () =
     Inr (True, \<lparr>match_rules = [], match_n = 0\<rparr>, st')"
  using run_nmatch_collects_last_pool [of sample_context "\<lambda>rt h. Some ''80''" two_pools "\<lparr>match_rules = [], match_n = 0\<rparr>" "()"]
  by (simp add: sample_context_def two_pools_def sample_pool_def port_rule_def rule_spec_def item_spec_def op_spec_def
      proto_const_defs op_const_defs)

end
