(* ===== verification/Packet_Rule.thy ===== *)
theory Packet_Rule
  imports Packet Rule_Match
begin

text \<open>
  Packets under the rule engine: the targets of \<^verbatim>\<open>packet/ch_packet.c\<close>, \<^verbatim>\<open>ch_packet_ipv4.h\<close>,
  \<^verbatim>\<open>ch_packet_tcp.h\<close> and \<^verbatim>\<open>ch_packet_udp.h\<close>, with \<^verbatim>\<open>ch_ip_to_str\<close>, and \<^verbatim>\<open>ch_packet_rule_match\<close>. The
  target context of a packet is a \<open>target_source\<close> for the packets whose header lengths lie inside
  the packet, so that the engine answers by the reading of its rules; for a packet whose
  headers do not, the payload target reads outside the packet.
\<close>

section \<open>Targets of packets\<close>

definition PKT_SMALL_BUF_SIZE :: nat where "PKT_SMALL_BUF_SIZE = 64"
definition PKT_DATA_SIZE :: size_t where "PKT_DATA_SIZE = 2048"

definition fast_strings :: "string list" where
  "fast_strings = map (\<lambda>n. map digit_char (digits n)) [0..<256]"

definition MAX_IP_STR_LEN :: nat where "MAX_IP_STR_LEN = 16"

text \<open>
  The address is read byte by byte, in the order of the memory of a little-endian machine. The
  result is the text and the buffer; the text of the address 0 is a constant.
\<close>

definition ip_octet :: "u32 \<Rightarrow> nat \<Rightarrow> nat" where
  "ip_octet ip i = unat (drop_bit (8 * i) ip AND 0xff)"

definition ip_text :: "u32 \<Rightarrow> string" where
  "ip_text ip = fast_strings ! ip_octet ip 0 @ ''.'' @ fast_strings ! ip_octet ip 1 @ ''.'' @
     fast_strings ! ip_octet ip 2 @ ''.'' @ fast_strings ! ip_octet ip 3"

definition ch_ip_to_str :: "bytes \<Rightarrow> u32 \<Rightarrow> string \<times> bytes" where
  "ch_ip_to_str buf ip =
     (if length buf < MAX_IP_STR_LEN \<or> ip = 0 then (''0.0.0.0'', buf)
      else let s = ip_text ip in (s, text_bytes s @ 0 # drop (length s + 1) buf))"

text \<open>The buffers of a packet's rule context; nobody sets them before the first target is read.\<close>

record pkt_buffers =
  sbuff :: bytes
  dbuff :: bytes

type_synonym target_result = "(c_string \<times> pkt_buffers) res"

definition ultoa_target :: "pkt_buffers \<Rightarrow> u64 \<Rightarrow> target_result" where
  "ultoa_target st n = bind_res (ch_ultoa n (sbuff st)) (\<lambda>(s, buf). Inr (Some s, st\<lparr>sbuff := buf\<rparr>))"

definition ch_packet_ipv4_rule_target_get :: "pkt_buffers \<Rightarrow> ch_packet \<Rightarrow> int \<Rightarrow> target_result" where
  "ch_packet_ipv4_rule_target_get st pkt target =
     (if l3_proto pkt \<noteq> CH_ETH_P_IP then Inr (None, st)
      else case ch_packet_data_read pkt (l2_len pkt) 20 of
             None \<Rightarrow> Inr (None, st)
           | Some ip4h \<Rightarrow>
               if target = TARGET_SRCIP then
                 let (s, buf) = ch_ip_to_str (sbuff st) (le32 ip4h 12) in Inr (Some s, st\<lparr>sbuff := buf\<rparr>)
               else if target = TARGET_DSTIP then
                 let (s, buf) = ch_ip_to_str (sbuff st) (le32 ip4h 16) in Inr (Some s, st\<lparr>sbuff := buf\<rparr>)
               else Inr (None, st))"

definition ch_packet_tcp_rule_target_get :: "pkt_buffers \<Rightarrow> ch_packet \<Rightarrow> int \<Rightarrow> target_result" where
  "ch_packet_tcp_rule_target_get st pkt target =
     (case ch_packet_data_read pkt (l2_len pkt + l3_len pkt) 20 of
        None \<Rightarrow> Inr (None, st)
      | Some th \<Rightarrow>
          if target = TARGET_SRCPORT then ultoa_target st (ucast (be16 th 0))
          else if target = TARGET_DSTPORT then ultoa_target st (ucast (be16 th 2))
          else Inr (None, st))"

text \<open>
  The UDP variant returns the start of the buffer, not the pointer into it that \<^verbatim>\<open>ch_ultoa\<close> returns;
  the digits are at the end of the buffer.
\<close>

definition udp_port_target :: "pkt_buffers \<Rightarrow> u16 \<Rightarrow> target_result" where
  "udp_port_target st port =
     bind_res (ch_ultoa (ucast port) (sbuff st)) (\<lambda>(s, buf). Inr (Some (c_string_of buf), st\<lparr>sbuff := buf\<rparr>))"

definition ch_packet_udp_rule_target_get :: "pkt_buffers \<Rightarrow> ch_packet \<Rightarrow> int \<Rightarrow> target_result" where
  "ch_packet_udp_rule_target_get st pkt target =
     (case ch_packet_data_read pkt (l2_len pkt + l3_len pkt) 8 of
        None \<Rightarrow> Inr (None, st)
      | Some uh \<Rightarrow>
          if target = TARGET_SRCPORT then udp_port_target st (be16 uh 0)
          else if target = TARGET_DSTPORT then udp_port_target st (be16 uh 2)
          else Inr (None, st))"

text \<open>\<open>off\<close> and \<open>len\<close> are computed as an \<^verbatim>\<open>int\<close>; the length is then a \<^verbatim>\<open>size_t\<close>.\<close>

definition data_target :: "pkt_buffers \<Rightarrow> ch_packet \<Rightarrow> nat \<Rightarrow> int \<Rightarrow> ch_rule_target \<Rightarrow> bool \<Rightarrow> target_result" where
  "data_target st pkt off len rt hex =
     bind_res (ch_rule_data_get (Some (dbuff st)) PKT_DATA_SIZE (Some (drop off (pkt_data pkt))) (word_of_int len)
         (rt_offset rt) (rt_len rt) hex) (\<lambda>r.
       case r of
         None \<Rightarrow> Inr (None, st)
       | Some buf \<Rightarrow> Inr (Some (c_string_of buf), st\<lparr>dbuff := buf\<rparr>))"

definition pkt_payload_size :: "ch_packet \<Rightarrow> int" where
  "pkt_payload_size pkt = uint (dlen pkt) - uint (l2_len pkt) - uint (l3_len pkt) - uint (l4_len pkt)"

definition ch_packet_target_get :: "ch_packet \<Rightarrow> pkt_buffers \<Rightarrow> ch_rule_target \<Rightarrow> bool \<Rightarrow> target_result" where
  "ch_packet_target_get pkt st rt hex =
     (let target = rt_target rt
      in if target = TARGET_PKT_TYPE then ultoa_target st (ucast (pkt_type pkt))
         else if target = TARGET_PKT_L3_PROTO then ultoa_target st (ucast (l3_proto pkt))
         else if target = TARGET_PKT_L4_PROTO then ultoa_target st (ucast (l4_proto pkt))
         else if target = TARGET_SRCIP \<or> target = TARGET_DSTIP then ch_packet_ipv4_rule_target_get st pkt target
         else if target = TARGET_SRCPORT \<or> target = TARGET_DSTPORT then
           if pkt_type pkt = PKT_TYPE_TCP then ch_packet_tcp_rule_target_get st pkt target
           else if pkt_type pkt = PKT_TYPE_UDP then ch_packet_udp_rule_target_get st pkt target
           else Inr (None, st)
         else if target = TARGET_PKT_DATA_SIZE then ultoa_target st (ucast (dlen pkt))
         else if target = TARGET_PKT_DATA then data_target st pkt 0 (uint (dlen pkt)) rt hex
         else if target = TARGET_PKT_L2_HEADER_SIZE then ultoa_target st (ucast (l2_len pkt))
         else if target = TARGET_PKT_L2_HEADER then data_target st pkt 0 (uint (l2_len pkt)) rt hex
         else if target = TARGET_PKT_L3_HEADER_SIZE then ultoa_target st (ucast (l3_len pkt))
         else if target = TARGET_PKT_L3_HEADER then data_target st pkt (unat (l2_len pkt)) (uint (l3_len pkt)) rt hex
         else if target = TARGET_PKT_L4_HEADER_SIZE then ultoa_target st (ucast (l4_len pkt))
         else if target = TARGET_PKT_L4_HEADER then
           data_target st pkt (unat (l2_len pkt) + unat (l3_len pkt)) (uint (l4_len pkt)) rt hex
         else if target = TARGET_PKT_PAYLOAD_SIZE then ultoa_target st (word_of_int (pkt_payload_size pkt))
         else if target = TARGET_PKT_PAYLOAD then
           data_target st pkt (unat (l2_len pkt) + unat (l3_len pkt) + unat (l4_len pkt)) (pkt_payload_size pkt) rt hex
         else Inr (None, st))"

definition packet_isMyProto :: "int \<Rightarrow> bool" where
  "packet_isMyProto proto \<longleftrightarrow> proto = PROTO_PKT"

definition packet_target_context :: "ch_packet \<Rightarrow> pkt_buffers ch_rule_target_context" where
  "packet_target_context pkt = \<lparr>tc_proto = ''pkt'', isMyProto = packet_isMyProto, tc_target = ch_packet_target_get pkt\<rparr>"

text \<open>The buffers are on the stack; \<open>st\<close> is what is there.\<close>

definition ch_packet_rule_match :: "ch_rule_engine option \<Rightarrow> ch_packet \<Rightarrow> pkt_buffers \<Rightarrow> (bool \<times> pkt_buffers) res" where
  "ch_packet_rule_match rengine pkt st =
     (case rengine of
        None \<Rightarrow> Inr (False, st)
      | Some rengine \<Rightarrow> ch_rule_engine_match rengine (packet_target_context pkt) st)"

section \<open>Packets whose headers lie inside them\<close>

text \<open>
  The text of a target, from the packet alone. A number is in decimal, the parts of a packet are
  cut to what the target selects and to the buffer.
\<close>

definition pkt_ip_text :: "ch_packet \<Rightarrow> nat \<Rightarrow> c_string" where
  "pkt_ip_text pkt off =
     (if l3_proto pkt = CH_ETH_P_IP \<and> unat (l2_len pkt) + 20 \<le> unat (dlen pkt)
      then let ip = le32 (drop (unat (l2_len pkt)) (pkt_data pkt)) off in Some (if ip = 0 then ''0.0.0.0'' else ip_text ip)
      else None)"

definition pkt_port_text :: "ch_packet \<Rightarrow> nat \<Rightarrow> c_string" where
  "pkt_port_text pkt off =
     (if pkt_type pkt = PKT_TYPE_TCP \<and> unat (l2_len pkt) + unat (l3_len pkt) + 20 \<le> unat (dlen pkt)
      then Some (decimal (unat (be16 (drop (unat (l2_len pkt) + unat (l3_len pkt)) (pkt_data pkt)) off)))
      else None)"

definition pkt_part_text :: "ch_packet \<Rightarrow> nat \<Rightarrow> nat \<Rightarrow> ch_rule_target \<Rightarrow> bool \<Rightarrow> c_string" where
  "pkt_part_text pkt off n rt hex =
     (if n \<le> unat (rt_offset rt) then None
      else Some (data_text (data_part (drop off (pkt_data pkt)) (of_nat n) (rt_offset rt) (rt_len rt)) PKT_DATA_SIZE hex))"

definition packet_text :: "ch_packet \<Rightarrow> ch_rule_target \<Rightarrow> bool \<Rightarrow> c_string" where
  "packet_text pkt rt hex =
     (let target = rt_target rt; l2 = unat (l2_len pkt); l3 = unat (l3_len pkt); l4 = unat (l4_len pkt); n = unat (dlen pkt)
      in if target = TARGET_PKT_TYPE then Some (decimal (unat (pkt_type pkt)))
         else if target = TARGET_PKT_L3_PROTO then Some (decimal (unat (l3_proto pkt)))
         else if target = TARGET_PKT_L4_PROTO then Some (decimal (unat (l4_proto pkt)))
         else if target = TARGET_SRCIP then pkt_ip_text pkt 12
         else if target = TARGET_DSTIP then pkt_ip_text pkt 16
         else if target = TARGET_SRCPORT then pkt_port_text pkt 0
         else if target = TARGET_DSTPORT then pkt_port_text pkt 2
         else if target = TARGET_PKT_DATA_SIZE then Some (decimal n)
         else if target = TARGET_PKT_DATA then pkt_part_text pkt 0 n rt hex
         else if target = TARGET_PKT_L2_HEADER_SIZE then Some (decimal l2)
         else if target = TARGET_PKT_L2_HEADER then pkt_part_text pkt 0 l2 rt hex
         else if target = TARGET_PKT_L3_HEADER_SIZE then Some (decimal l3)
         else if target = TARGET_PKT_L3_HEADER then pkt_part_text pkt l2 l3 rt hex
         else if target = TARGET_PKT_L4_HEADER_SIZE then Some (decimal l4)
         else if target = TARGET_PKT_L4_HEADER then pkt_part_text pkt (l2 + l3) l4 rt hex
         else if target = TARGET_PKT_PAYLOAD_SIZE then Some (decimal (n - l2 - l3 - l4))
         else if target = TARGET_PKT_PAYLOAD then pkt_part_text pkt (l2 + l3 + l4) (n - l2 - l3 - l4) rt hex
         else None)"

text \<open>
  The packets in order: the headers and the data lie inside the packet, and it is not a UDP packet, whose
  port targets depend on the buffer.
\<close>

definition buffers_ok :: "pkt_buffers \<Rightarrow> bool" where
  "buffers_ok st \<longleftrightarrow> length (sbuff st) = PKT_SMALL_BUF_SIZE \<and> length (dbuff st) = unat PKT_DATA_SIZE"

definition packet_in_order :: "ch_packet \<Rightarrow> pkt_buffers \<Rightarrow> bool" where
  "packet_in_order pkt st \<longleftrightarrow>
     pkt_type pkt \<noteq> PKT_TYPE_UDP \<and> unat (dlen pkt) \<le> length (pkt_data pkt) \<and>
     unat (l2_len pkt) + unat (l3_len pkt) + unat (l4_len pkt) \<le> unat (dlen pkt) \<and> buffers_ok st"

lemma unat_ucast_u16_u64 [simp]: "unat (ucast (x :: u16) :: u64) = unat x"
  by (simp add: unsigned_ucast_eq take_bit_nat_eq_self less_trans [OF unat_lt16])

lemma unat_of_nat_u64: "k < 65536 \<Longrightarrow> unat (of_nat k :: u64) = k"
  by (simp add: unsigned_of_nat take_bit_nat_eq_self)

lemma ultoa_target_ok:
  assumes "buffers_ok st"
  shows "\<exists>st'. ultoa_target st n = Inr (Some (decimal (unat n)), st') \<and> buffers_ok st'"
proof -
  have l: "length (sbuff st) = 64" using assms by (simp add: buffers_ok_def PKT_SMALL_BUF_SIZE_def)
  then have "length (take (64 - 1 - length (decimal (unat n))) (sbuff st) @ text_bytes (decimal (unat n)) @ [0]) = 64"
    using length_decimal [of n] by (simp add: text_bytes_def)
  then show ?thesis
    using assms by (simp add: ultoa_target_def ch_ultoa_eq l buffers_ok_def PKT_SMALL_BUF_SIZE_def)
qed

lemma length_fast_string: "n < 256 \<Longrightarrow> length (fast_strings ! n) \<le> 3"
  by (simp add: fast_strings_def length_digits)

lemma ip_octet_lt: "ip_octet ip i < 256"
proof -
  have "(0xff :: u32) = mask 8" by (simp add: mask_eq_exp_minus_1)
  then have "drop_bit (8 * i) ip AND 0xff = take_bit 8 (drop_bit (8 * i) ip)" by (simp add: take_bit_eq_mask)
  then show ?thesis by (simp add: ip_octet_def take_bit_eq_mod unat_mod_distrib)
qed

lemma length_ip_text: "length (ip_text ip) \<le> 15"
proof -
  show ?thesis
    using ip_octet_lt [of ip] length_fast_string [of "ip_octet ip 0"] length_fast_string [of "ip_octet ip 1"]
      length_fast_string [of "ip_octet ip 2"] length_fast_string [of "ip_octet ip 3"]
    by (simp add: ip_text_def)
qed

lemma ch_ip_to_str_ok:
  "length buf = PKT_SMALL_BUF_SIZE \<Longrightarrow>
   \<exists>buf'. ch_ip_to_str buf ip = (if ip = 0 then ''0.0.0.0'' else ip_text ip, buf') \<and> length buf' = PKT_SMALL_BUF_SIZE"
  using length_ip_text [of ip] by (auto simp: ch_ip_to_str_def PKT_SMALL_BUF_SIZE_def MAX_IP_STR_LEN_def text_bytes_def Let_def)

lemma data_target_ok:
  assumes "buffers_ok st" "off + n \<le> length (pkt_data pkt)" "n < 65536"
  shows "\<exists>st'. data_target st pkt off (int n) rt hex = Inr (pkt_part_text pkt off n rt hex, st') \<and> buffers_ok st'"
proof -
  have b: "length (dbuff st) = unat PKT_DATA_SIZE" "2 \<le> PKT_DATA_SIZE" using assms(1) by (simp_all add: buffers_ok_def PKT_DATA_SIZE_def)
  let ?n = "of_nat n :: u64"
  have n: "unat ?n = n" using assms(3) by (rule unat_of_nat_u64)
  have w: "word_of_int (int n) = ?n" by simp
  show ?thesis
  proof (cases "n \<le> unat (rt_offset rt)")
    case True
    then have "?n \<le> rt_offset rt" by (simp add: word_le_unat n)
    then show ?thesis
      using True assms(1) by (simp add: data_target_def w ch_rule_data_get_null pkt_part_text_def del: of_int_of_nat_eq)
  next
    case False
    then have o: "rt_offset rt < ?n" by (simp add: word_less_unat n)
    have d: "unat ?n \<le> length (drop off (pkt_data pkt))" using assms(2) by (simp add: n)
    obtain buf where buf: "ch_rule_data_get (Some (dbuff st)) PKT_DATA_SIZE (Some (drop off (pkt_data pkt))) ?n (rt_offset rt) (rt_len rt) hex =
        Inr (Some buf)" "length buf = length (dbuff st)"
        "c_string_of buf = data_text (data_part (drop off (pkt_data pkt)) ?n (rt_offset rt) (rt_len rt)) PKT_DATA_SIZE hex"
      using ch_rule_data_get_text [OF b d o] by blast
    then show ?thesis
      using False assms(1) by (simp add: data_target_def w pkt_part_text_def buffers_ok_def del: of_int_of_nat_eq)
  qed
qed

lemma ip_target_ok:
  assumes "buffers_ok st"
  shows "\<exists>st'. ch_packet_ipv4_rule_target_get st pkt TARGET_SRCIP = Inr (pkt_ip_text pkt 12, st') \<and> buffers_ok st'"
    and "\<exists>st'. ch_packet_ipv4_rule_target_get st pkt TARGET_DSTIP = Inr (pkt_ip_text pkt 16, st') \<and> buffers_ok st'"
proof -
  let ?h = "drop (unat (l2_len pkt)) (pkt_data pkt)"
  have "\<exists>st'. (let (s, buf) = ch_ip_to_str (sbuff st) ip in Inr (Some s, st\<lparr>sbuff := buf\<rparr>)) =
      Inr (Some (if ip = 0 then ''0.0.0.0'' else ip_text ip), st') \<and> buffers_ok st'" for ip
    using ch_ip_to_str_ok [of "sbuff st" ip] assms by (auto simp: buffers_ok_def)
  from this [of "le32 ?h 12"] this [of "le32 ?h 16"]
  show "\<exists>st'. ch_packet_ipv4_rule_target_get st pkt TARGET_SRCIP = Inr (pkt_ip_text pkt 12, st') \<and> buffers_ok st'"
    "\<exists>st'. ch_packet_ipv4_rule_target_get st pkt TARGET_DSTIP = Inr (pkt_ip_text pkt 16, st') \<and> buffers_ok st'"
    using assms
    by (auto simp: ch_packet_ipv4_rule_target_get_def pkt_ip_text_def ch_packet_data_read_def target_const_defs Let_def)
qed

lemma tcp_port_target_ok:
  assumes "buffers_ok st" "pkt_type pkt = PKT_TYPE_TCP" "unat (l2_len pkt) + unat (l3_len pkt) < 65536"
  shows "\<exists>st'. ch_packet_tcp_rule_target_get st pkt TARGET_SRCPORT = Inr (pkt_port_text pkt 0, st') \<and> buffers_ok st'"
    and "\<exists>st'. ch_packet_tcp_rule_target_get st pkt TARGET_DSTPORT = Inr (pkt_port_text pkt 2, st') \<and> buffers_ok st'"
proof -
  have s: "unat (l2_len pkt + l3_len pkt) = unat (l2_len pkt) + unat (l3_len pkt)"
    using assms(3) by (simp add: unat_word_ariths)
  let ?th = "drop (unat (l2_len pkt) + unat (l3_len pkt)) (pkt_data pkt)"
  show "\<exists>st'. ch_packet_tcp_rule_target_get st pkt TARGET_SRCPORT = Inr (pkt_port_text pkt 0, st') \<and> buffers_ok st'"
    "\<exists>st'. ch_packet_tcp_rule_target_get st pkt TARGET_DSTPORT = Inr (pkt_port_text pkt 2, st') \<and> buffers_ok st'"
    using ultoa_target_ok [OF assms(1), of "ucast (be16 ?th 0)"] ultoa_target_ok [OF assms(1), of "ucast (be16 ?th 2)"] assms(1,2)
    by (simp_all add: ch_packet_tcp_rule_target_get_def pkt_port_text_def ch_packet_data_read_def s target_const_defs)
qed

lemma packet_target_returns:
  assumes "packet_in_order pkt st"
  shows "\<exists>st'. ch_packet_target_get pkt st rt hex = Inr (packet_text pkt rt hex, st') \<and> packet_in_order pkt st'"
proof -
  let ?l2 = "unat (l2_len pkt)" and ?l3 = "unat (l3_len pkt)" and ?l4 = "unat (l4_len pkt)" and ?n = "unat (dlen pkt)"
  have b: "buffers_ok st" and fits: "?n \<le> length (pkt_data pkt)" "?l2 + ?l3 + ?l4 \<le> ?n" and noudp: "pkt_type pkt \<noteq> PKT_TYPE_UDP"
    using assms by (auto simp: packet_in_order_def)
  have n: "?n < 65536" by simp
  have pay: "pkt_payload_size pkt = int (?n - ?l2 - ?l3 - ?l4)"
  proof -
    have "int n - int a - int b - int c = int (n - a - b - c)" if "a + b + c \<le> n" for n a b c using that by simp
    from this [OF fits(2)] show ?thesis by (simp only: pkt_payload_size_def uint_nat)
  qed
  have u: "\<exists>st'. ultoa_target st (ucast x) = Inr (Some (decimal (unat x)), st') \<and> buffers_ok st'" for x :: u16
    using ultoa_target_ok [OF b, of "ucast x"] by simp
  have upay: "\<exists>st'. ultoa_target st (word_of_int (pkt_payload_size pkt)) = Inr (Some (decimal (?n - ?l2 - ?l3 - ?l4)), st') \<and> buffers_ok st'"
  proof -
    have "unat (of_nat (?n - ?l2 - ?l3 - ?l4) :: u64) = ?n - ?l2 - ?l3 - ?l4"
      by (rule unat_of_nat_u64) (use n in linarith)
    then show ?thesis using ultoa_target_ok [OF b, of "of_nat (?n - ?l2 - ?l3 - ?l4)"] by (simp add: pay)
  qed
  have d: "\<exists>st'. data_target st pkt off (int k) rt hex = Inr (pkt_part_text pkt off k rt hex, st') \<and> buffers_ok st'"
    if "off + k \<le> ?n" for off k
    using data_target_ok [OF b, of off k pkt rt hex] that fits n by simp
  have ip: "\<exists>st'. ch_packet_ipv4_rule_target_get st pkt TARGET_SRCIP = Inr (pkt_ip_text pkt 12, st') \<and> buffers_ok st'"
    "\<exists>st'. ch_packet_ipv4_rule_target_get st pkt TARGET_DSTIP = Inr (pkt_ip_text pkt 16, st') \<and> buffers_ok st'"
    by (rule ip_target_ok [OF b])+
  have port: "\<exists>st'. (if pkt_type pkt = PKT_TYPE_TCP then ch_packet_tcp_rule_target_get st pkt t
        else if pkt_type pkt = PKT_TYPE_UDP then ch_packet_udp_rule_target_get st pkt t else Inr (None, st)) =
      Inr (pkt_port_text pkt off, st') \<and> buffers_ok st'"
    if "(t, off) \<in> {(TARGET_SRCPORT, 0), (TARGET_DSTPORT, 2)}" for t off
    using that tcp_port_target_ok [OF b, of pkt] noudp b fits n by (auto simp: pkt_port_text_def)
  note d' = d [of 0 ?n] d [of 0 ?l2] d [of ?l2 ?l3] d [of "?l2 + ?l3" ?l4] d [of "?l2 + ?l3 + ?l4" "?n - ?l2 - ?l3 - ?l4"]
  note port' = port [of TARGET_SRCPORT 0] port [of TARGET_DSTPORT 2]
  have "\<exists>st'. ch_packet_target_get pkt st rt hex = Inr (packet_text pkt rt hex, st') \<and> buffers_ok st'"
    using u upay d' ip port' fits(2) b
    by (auto simp: ch_packet_target_get_def packet_text_def Let_def pay target_const_defs)
  then show ?thesis using assms by (auto simp: packet_in_order_def)
qed

interpretation packet_rules: target_source packet_target_context packet_text packet_in_order
  by unfold_locales (simp add: packet_target_context_def packet_target_returns)

text \<open>
  C33. For a packet that is not a UDP packet and whose headers lie inside it, \<^verbatim>\<open>ch_packet_rule_match\<close>
  returns, whatever is in the buffers, and answers by the boolean reading of the engine's rules
  over the texts of the packet.
\<close>

theorem ch_packet_rule_match_correct:
  assumes "packet_in_order pkt st"
  shows "\<exists>st'. ch_packet_rule_match (Some eng) pkt st =
    Inr (engine_spec (\<lambda>proto. proto = PROTO_PKT) (packet_text pkt) eng, st')"
proof -
  have "isMyProto (packet_target_context pkt) = (\<lambda>proto. proto = PROTO_PKT)"
    by (simp add: packet_target_context_def packet_isMyProto_def fun_eq_iff)
  then show ?thesis
    using packet_rules.engine_match_spec [OF assms, of eng] by (auto simp: ch_packet_rule_match_def)
qed

section \<open>Packets whose headers do not lie inside them\<close>

text \<open>
  If the header lengths of a packet add up to more than the packet has, the payload size is negative and, as
  a \<^verbatim>\<open>size_t\<close>, huge: the payload target reads outside the packet.
\<close>

theorem payload_target_out_of_bounds:
  assumes "length (pkt_data pkt) = unat (dlen pkt)"
    and "unat (dlen pkt) < unat (l2_len pkt) + unat (l3_len pkt) + unat (l4_len pkt)"
    and "rt_target rt = TARGET_PKT_PAYLOAD" "unat (rt_offset rt) < 2 ^ 63"
  shows "ch_packet_target_get pkt st rt hex = Inl Out_Of_Bounds"
proof -
  define k where "k = unat (l2_len pkt) + unat (l3_len pkt) + unat (l4_len pkt) - unat (dlen pkt)"
  have k: "0 < k" "k < 3 * 65536"
    using assms(2) unat_lt16 [of "l2_len pkt"] unat_lt16 [of "l3_len pkt"] unat_lt16 [of "l4_len pkt"] unfolding k_def by linarith+
  have sz: "pkt_payload_size pkt = - int k"
    unfolding pkt_payload_size_def k_def using assms(2) by (simp only: uint_nat)
  have u: "uint (word_of_int (- int k) :: u64) = 18446744073709551616 - int k"
    by (subst uint_word_of_int) (use k in \<open>simp add: zmod_zminus1_eq_if\<close>)
  have "unat (rt_offset rt) < 9223372036854775808" using assms(4) by simp
  then have "int (unat (rt_offset rt)) < 18446744073709551616 - int k" using k(2) by linarith
  then have "rt_offset rt < word_of_int (- int k)"
    unfolding word_less_def u by (simp only: uint_nat)
  then have "ch_rule_data_get (Some (dbuff st)) PKT_DATA_SIZE (Some []) (word_of_int (pkt_payload_size pkt)) (rt_offset rt) (rt_len rt) hex =
      Inl Out_Of_Bounds"
    unfolding sz by (intro ch_rule_data_get_empty) (simp_all add: PKT_DATA_SIZE_def)
  then show ?thesis
    using assms(1-3) by (simp add: ch_packet_target_get_def data_target_def target_const_defs)
qed

theorem payload_target_out_of_bounds_witness:
  "\<exists>pkt. ch_packet_parse ch_packet_init short_tcp_packet 54 = Some (Inr (PKT_PARSE_OK, pkt)) \<and>
     ch_packet_target_get pkt \<lparr>sbuff = replicate 64 0, dbuff = replicate 2048 0\<rparr>
       \<lparr>target_str = Some ''pktPayload'', rt_target = TARGET_PKT_PAYLOAD, rt_offset = 0, rt_len = 0\<rparr> False = Inl Out_Of_Bounds"
proof -
  obtain h where h: "ch_packet_parse ch_packet_init short_tcp_packet 54 = Some (Inr (PKT_PARSE_OK,
     (packet_init short_tcp_packet 54)\<lparr>l2_len := 14, parse_off := 94, l3_proto := 0x0800, l3_len := 20, l4_proto := 6,
       pkt_type := 1, l4_len := 60, pkt_hash := h\<rparr>))" (is "_ = Some (Inr (_, ?p))")
    using short_tcp_packet_parse by blast
  moreover have "ch_packet_target_get ?p \<lparr>sbuff = replicate 64 0, dbuff = replicate 2048 0\<rparr>
       \<lparr>target_str = Some ''pktPayload'', rt_target = TARGET_PKT_PAYLOAD, rt_offset = 0, rt_len = 0\<rparr> False = Inl Out_Of_Bounds"
    by (rule payload_target_out_of_bounds) (simp_all add: packet_init_def short_tcp_packet_def)
  ultimately show ?thesis by blast
qed

section \<open>Ports of UDP packets\<close>

lemma ip_text_chars: "c \<in> set (ip_text ip) \<Longrightarrow> char_code c \<noteq> 0"
proof -
  assume c: "c \<in> set (ip_text ip)"
  have "ip_octet ip i < 256" for i by (rule ip_octet_lt)
  then have "c = CHR ''.'' \<or> (\<exists>n. c \<in> set (map digit_char (digits n)))"
    using c by (auto simp: ip_text_def fast_strings_def)
  then show ?thesis
    by (auto simp: char_code_def [of "CHR ''.''"] char_code_digit dest!: digits_lt)
qed

lemma udp_port_target_front:
  assumes "sbuff st = text_bytes s @ 0 # rest" "length (sbuff st) = 64" "length s \<le> 40" "\<forall>c \<in> set s. char_code c \<noteq> 0"
  shows "\<exists>st'. udp_port_target st port = Inr (Some s, st')"
proof -
  let ?d = "decimal (unat (ucast port :: u64))"
  have "length ?d \<le> 20" by (rule length_decimal)
  then have "take (63 - length ?d) (sbuff st) = text_bytes s @ 0 # take (63 - length ?d - length s - 1) rest"
    using assms(1,3) by (simp add: text_bytes_def take_Cons')
  then show ?thesis
    using assms by (simp add: udp_port_target_def ch_ultoa_eq c_string_of_terminated c_string_of_text_bytes)
qed

text \<open>
  \<^verbatim>\<open>ch_packet_udp_rule_target_get\<close> returns the start of the buffer and not the digits of the port:
  once the source address of a UDP packet has been read, the text of both port targets is that
  address.
\<close>

theorem udp_port_target_reads_address:
  fixes pkt :: ch_packet
  defines "ip \<equiv> le32 (drop (unat (l2_len pkt)) (pkt_data pkt)) 12"
  assumes "pkt_type pkt = PKT_TYPE_UDP" "l3_proto pkt = CH_ETH_P_IP" "buffers_ok st" "ip \<noteq> 0"
    and "unat (l2_len pkt) + 20 \<le> unat (dlen pkt)" "unat (l2_len pkt) + unat (l3_len pkt) + 8 \<le> unat (dlen pkt)"
    and "rt_target rt1 = TARGET_SRCIP" "rt_target rt2 \<in> {TARGET_SRCPORT, TARGET_DSTPORT}"
  shows "\<exists>st1 st2. ch_packet_target_get pkt st rt1 h1 = Inr (Some (ip_text ip), st1) \<and>
    ch_packet_target_get pkt st1 rt2 h2 = Inr (Some (ip_text ip), st2)"
proof -
  let ?s = "ip_text ip"
  let ?st1 = "st\<lparr>sbuff := text_bytes ?s @ 0 # drop (length ?s + 1) (sbuff st)\<rparr>"
  have l: "length (sbuff st) = 64" using assms(4) by (simp add: buffers_ok_def PKT_SMALL_BUF_SIZE_def)
  have s: "length ?s \<le> 15" by (rule length_ip_text)
  have 1: "ch_packet_target_get pkt st rt1 h1 = Inr (Some ?s, ?st1)"
    using assms(3,5,6,8) l
    by (simp add: ch_packet_target_get_def ch_packet_ipv4_rule_target_get_def ch_packet_data_read_def ch_ip_to_str_def
        MAX_IP_STR_LEN_def target_const_defs ip_def Let_def)
  have sum: "unat (l2_len pkt + l3_len pkt) = unat (l2_len pkt) + unat (l3_len pkt)"
  proof -
    have "unat (l2_len pkt) + unat (l3_len pkt) < 65536" using assms(7) unat_lt16 [of "dlen pkt"] by linarith
    then show ?thesis by (simp add: unat_word_ariths)
  qed
  have "length (sbuff ?st1) = 64" using l s by (simp add: text_bytes_def)
  then have "\<exists>st'. udp_port_target ?st1 port = Inr (Some ?s, st')" for port
    using s ip_text_chars by (intro udp_port_target_front) auto
  then have "\<exists>st2. ch_packet_target_get pkt ?st1 rt2 h2 = Inr (Some ?s, st2)"
    using assms(2,7,9)
    by (auto simp: ch_packet_target_get_def ch_packet_udp_rule_target_get_def ch_packet_data_read_def sum target_const_defs
        pkt_type_defs Let_def)
  with 1 show ?thesis by blast
qed

section \<open>Witnesses\<close>

text \<open>A packet from 10.0.0.1 port 53 to 10.0.0.2 port 80 as the parser leaves it, for TCP and for UDP.\<close>

definition parsed_packet :: "u16 \<Rightarrow> u16 \<Rightarrow> u16 \<Rightarrow> ch_packet" where
  "parsed_packet t proto l4 =
     \<lparr>pkt_type = t, l2_len = 14, l3_len = 20, l4_len = l4, l3_proto = 0x0800, l4_proto = proto, parse_off = 34 + l4, pkt_hash = 0,
      is_ipv6 = False, timestamp = 0, dlen = 54, pkt_data = sample_packet 1 2 53 80\<rparr>"

definition zero_buffers :: pkt_buffers where
  "zero_buffers = \<lparr>sbuff = replicate 64 0, dbuff = replicate 2048 0\<rparr>"

lemma zero_buffers_ok: "buffers_ok zero_buffers"
  by (simp add: buffers_ok_def zero_buffers_def PKT_SMALL_BUF_SIZE_def PKT_DATA_SIZE_def)

definition port_engine :: ch_rule_engine where
  "port_engine = \<lparr>recontext = two_pools\<lparr>rpools := [sample_pool [port_rule\<lparr>rule_proto := PROTO_PKT\<rparr>]]\<rparr>, engine_protos = [PROTO_PKT]\<rparr>"

lemma decimal_80: "decimal 80 = ''80''"
  by (simp add: decimal_def digits.simps digit_char_def char_of_eq_iff take_bit_eq_mod)

lemma packet_text_port_80:
  "rt_target rt = TARGET_DSTPORT \<Longrightarrow> packet_text (parsed_packet PKT_TYPE_TCP 6 20) rt hex = Some ''80''"
  by (simp add: packet_text_def pkt_port_text_def parsed_packet_def sample_packet_def be16_def decimal_80 target_const_defs)

theorem ch_packet_rule_match_correct_witness:
  "\<exists>st'. ch_packet_rule_match (Some port_engine) (parsed_packet PKT_TYPE_TCP 6 20) zero_buffers = Inr (True, st')"
proof -
  have "packet_in_order (parsed_packet PKT_TYPE_TCP 6 20) zero_buffers"
    using zero_buffers_ok by (simp add: packet_in_order_def parsed_packet_def sample_packet_def pkt_type_defs)
  moreover have "engine_spec (\<lambda>proto. proto = PROTO_PKT) (packet_text (parsed_packet PKT_TYPE_TCP 6 20)) port_engine"
    by (simp add: engine_spec_def port_engine_def sample_pool_def port_rule_def rule_spec_def item_spec_def op_spec_def
        packet_text_port_80 proto_const_defs op_const_defs)
  ultimately show ?thesis
    using ch_packet_rule_match_correct [of "parsed_packet PKT_TYPE_TCP 6 20" zero_buffers port_engine] by simp
qed

lemma ip_text_10_0_0_1: "ip_text 0x0100000a = ''10.0.0.1''"
proof -
  have "ip_octet 0x0100000a 0 = 10" "ip_octet 0x0100000a 1 = 0" "ip_octet 0x0100000a 2 = 0" "ip_octet 0x0100000a 3 = 1"
    by (simp_all add: ip_octet_def drop_bit_eq_div)
  then show ?thesis
    by (simp add: ip_text_def fast_strings_def digits.simps digit_char_def char_of_eq_iff take_bit_eq_mod)
qed

theorem udp_port_target_reads_address_witness:
  "\<exists>st1 st2. ch_packet_target_get (parsed_packet PKT_TYPE_UDP 17 8) zero_buffers
       \<lparr>target_str = None, rt_target = TARGET_SRCIP, rt_offset = 0, rt_len = 0\<rparr> False = Inr (Some ''10.0.0.1'', st1) \<and>
     ch_packet_target_get (parsed_packet PKT_TYPE_UDP 17 8) st1
       \<lparr>target_str = None, rt_target = TARGET_DSTPORT, rt_offset = 0, rt_len = 0\<rparr> False = Inr (Some ''10.0.0.1'', st2)"
proof -
  have "le32 (drop 14 (sample_packet 1 2 53 80)) 12 = 0x0100000a" by (simp add: le32_def sample_packet_def)
  then show ?thesis
    using udp_port_target_reads_address [of "parsed_packet PKT_TYPE_UDP 17 8" zero_buffers
        "\<lparr>target_str = None, rt_target = TARGET_SRCIP, rt_offset = 0, rt_len = 0\<rparr>"
        "\<lparr>target_str = None, rt_target = TARGET_DSTPORT, rt_offset = 0, rt_len = 0\<rparr>" False False] zero_buffers_ok
    by (simp add: parsed_packet_def ip_text_10_0_0_1 CH_ETH_P_IP_def)
qed

end
