(* ===== verification/Data_Output.thy ===== *)
theory Data_Output
  imports Prelude
begin

text \<open>
  The growing output buffer \<^verbatim>\<open>lib/common/ch_data_output.h\<close>, in which sessions are written, and the
  reader \<^verbatim>\<open>udp/session/ch_data_input.h\<close>. Integers are written with the most significant byte first.
  The buffer is what is between \<^verbatim>\<open>base\<close> and \<^verbatim>\<open>pos\<close>, and \<open>dsize\<close>, the distance from \<^verbatim>\<open>base\<close> to
  \<^verbatim>\<open>end\<close>; \<^verbatim>\<open>DOUT_SIZE_EXT\<close> more bytes are allocated. \<open>mal\<close> says for which sizes \<^verbatim>\<open>malloc\<close> succeeds.
  Signed integers are the words with the same bits. Shown here: what was written is read back,
  writes stay inside the buffer, and the one writer that can leave it.
\<close>

section \<open>The output buffer\<close>

definition DOUT_SIZE_DEFAULT :: size_t where "DOUT_SIZE_DEFAULT = 64 * 1024"
definition DOUT_SIZE_EXT :: size_t where "DOUT_SIZE_EXT = 32"

record ch_data_output =
  content :: bytes
  dsize :: size_t

type_synonym malloc_ok = "size_t \<Rightarrow> bool"

definition CH_DOUT_FULL :: "ch_data_output \<Rightarrow> size_t \<Rightarrow> bool" where
  "CH_DOUT_FULL dout sz \<longleftrightarrow> length (content dout) + unat sz > unat (dsize dout)"

definition CH_DOUT_RESET :: "ch_data_output \<Rightarrow> ch_data_output" where
  "CH_DOUT_RESET dout = dout\<lparr>content := []\<rparr>"

definition ch_dout_init :: "malloc_ok \<Rightarrow> ch_data_output option" where
  "ch_dout_init mal =
     (if mal (DOUT_SIZE_DEFAULT + DOUT_SIZE_EXT) then Some \<lparr>content = [], dsize = DOUT_SIZE_DEFAULT\<rparr> else None)"

definition ch_dout_incr :: "malloc_ok \<Rightarrow> ch_data_output \<Rightarrow> size_t \<Rightarrow> ch_data_output option" where
  "ch_dout_incr mal dout incr_size =
     (let nsize = dsize dout + incr_size in if mal (nsize + DOUT_SIZE_EXT) then Some (dout\<lparr>dsize := nsize\<rparr>) else None)"

definition DOUT_CHECK :: "malloc_ok \<Rightarrow> ch_data_output \<Rightarrow> size_t \<Rightarrow> ch_data_output option" where
  "DOUT_CHECK mal dout sz = (if CH_DOUT_FULL dout sz then ch_dout_incr mal dout (4 * sz) else Some dout)"

text \<open>\<open>k\<close> bytes are still to be written: the next one is at bit \<open>8 * (k - 1)\<close>.\<close>

primrec DOUT_VALUE_WRITE :: "'a::len word \<Rightarrow> nat \<Rightarrow> bytes" where
  "DOUT_VALUE_WRITE v 0 = []"
| "DOUT_VALUE_WRITE v (Suc k) = ucast (drop_bit (8 * k) v AND 0xff) # DOUT_VALUE_WRITE v k"

definition dout_write :: "ch_data_output \<Rightarrow> bytes \<Rightarrow> nat \<Rightarrow> ch_data_output res" where
  "dout_write dout bs len =
     (if len \<le> length bs \<and> length (content dout) + len \<le> unat (dsize dout + DOUT_SIZE_EXT)
      then Inr (dout\<lparr>content := content dout @ take len bs\<rparr>) else Inl Out_Of_Bounds)"

text \<open>The body the writers of integers share, for an integer of \<open>sz\<close> bytes; the result is \<open>sz\<close> or -1.\<close>

definition dout_int_write :: "malloc_ok \<Rightarrow> nat \<Rightarrow> ch_data_output \<Rightarrow> 'a::len word \<Rightarrow> (int \<times> ch_data_output) res" where
  "dout_int_write mal sz dout v =
     (case DOUT_CHECK mal dout (of_nat sz) of
        None \<Rightarrow> Inr (-1, dout)
      | Some dout \<Rightarrow> bind_res (dout_write dout (DOUT_VALUE_WRITE v sz) sz) (\<lambda>dout. Inr (int sz, dout)))"

definition ch_dout_bool_write :: "malloc_ok \<Rightarrow> ch_data_output \<Rightarrow> u32 \<Rightarrow> (int \<times> ch_data_output) res" where
  "ch_dout_bool_write mal dout v = dout_int_write mal 1 dout v"

definition ch_dout_short_write :: "malloc_ok \<Rightarrow> ch_data_output \<Rightarrow> u16 \<Rightarrow> (int \<times> ch_data_output) res" where
  "ch_dout_short_write mal dout v = dout_int_write mal 2 dout v"

definition ch_dout_int_write :: "malloc_ok \<Rightarrow> ch_data_output \<Rightarrow> u32 \<Rightarrow> (int \<times> ch_data_output) res" where
  "ch_dout_int_write mal dout v = dout_int_write mal 4 dout v"

definition ch_dout_long_write :: "malloc_ok \<Rightarrow> ch_data_output \<Rightarrow> u64 \<Rightarrow> (int \<times> ch_data_output) res" where
  "ch_dout_long_write mal dout v = dout_int_write mal 8 dout v"

definition ch_dout_ushort_write :: "malloc_ok \<Rightarrow> ch_data_output \<Rightarrow> u16 \<Rightarrow> (int \<times> ch_data_output) res" where
  "ch_dout_ushort_write mal dout v = dout_int_write mal 2 dout v"

definition ch_dout_uint_write :: "malloc_ok \<Rightarrow> ch_data_output \<Rightarrow> u32 \<Rightarrow> (int \<times> ch_data_output) res" where
  "ch_dout_uint_write mal dout v = dout_int_write mal 4 dout v"

definition ch_dout_ulong_write :: "malloc_ok \<Rightarrow> ch_data_output \<Rightarrow> u64 \<Rightarrow> (int \<times> ch_data_output) res" where
  "ch_dout_ulong_write mal dout v = dout_int_write mal 8 dout v"

definition ch_dout_size_write :: "malloc_ok \<Rightarrow> ch_data_output \<Rightarrow> u64 \<Rightarrow> (int \<times> ch_data_output) res" where
  "ch_dout_size_write mal dout v = dout_int_write mal 8 dout v"

definition ch_dout_ssize_write :: "malloc_ok \<Rightarrow> ch_data_output \<Rightarrow> u64 \<Rightarrow> (int \<times> ch_data_output) res" where
  "ch_dout_ssize_write mal dout v = dout_int_write mal 8 dout v"

definition ch_dout_off_write :: "malloc_ok \<Rightarrow> ch_data_output \<Rightarrow> u64 \<Rightarrow> (int \<times> ch_data_output) res" where
  "ch_dout_off_write mal dout v = dout_int_write mal 8 dout v"

definition ch_dout_int8_write :: "malloc_ok \<Rightarrow> ch_data_output \<Rightarrow> u8 \<Rightarrow> (int \<times> ch_data_output) res" where
  "ch_dout_int8_write mal dout v = dout_int_write mal 1 dout v"

definition ch_dout_int16_write :: "malloc_ok \<Rightarrow> ch_data_output \<Rightarrow> u16 \<Rightarrow> (int \<times> ch_data_output) res" where
  "ch_dout_int16_write mal dout v = dout_int_write mal 2 dout v"

definition ch_dout_int32_write :: "malloc_ok \<Rightarrow> ch_data_output \<Rightarrow> u32 \<Rightarrow> (int \<times> ch_data_output) res" where
  "ch_dout_int32_write mal dout v = dout_int_write mal 4 dout v"

definition ch_dout_int64_write :: "malloc_ok \<Rightarrow> ch_data_output \<Rightarrow> u64 \<Rightarrow> (int \<times> ch_data_output) res" where
  "ch_dout_int64_write mal dout v = dout_int_write mal 8 dout v"

definition ch_dout_uint8_write :: "malloc_ok \<Rightarrow> ch_data_output \<Rightarrow> u8 \<Rightarrow> (int \<times> ch_data_output) res" where
  "ch_dout_uint8_write mal dout v = dout_int_write mal 1 dout v"

definition ch_dout_uint16_write :: "malloc_ok \<Rightarrow> ch_data_output \<Rightarrow> u16 \<Rightarrow> (int \<times> ch_data_output) res" where
  "ch_dout_uint16_write mal dout v = dout_int_write mal 2 dout v"

definition ch_dout_uint32_write :: "malloc_ok \<Rightarrow> ch_data_output \<Rightarrow> u32 \<Rightarrow> (int \<times> ch_data_output) res" where
  "ch_dout_uint32_write mal dout v = dout_int_write mal 4 dout v"

definition ch_dout_uint64_write :: "malloc_ok \<Rightarrow> ch_data_output \<Rightarrow> u64 \<Rightarrow> (int \<times> ch_data_output) res" where
  "ch_dout_uint64_write mal dout v = dout_int_write mal 8 dout v"

text \<open>
  Bytes with their length before them. The result of the inner write is not looked at.
\<close>

definition ch_dout_bytes_write :: "malloc_ok \<Rightarrow> ch_data_output \<Rightarrow> bytes \<Rightarrow> size_t \<Rightarrow> (int \<times> ch_data_output) res" where
  "ch_dout_bytes_write mal dout bs len =
     (let rlen = len + 8
      in case DOUT_CHECK mal dout rlen of
           None \<Rightarrow> Inr (-1, dout)
         | Some dout \<Rightarrow>
             bind_res (ch_dout_size_write mal dout len) (\<lambda>(_, dout).
             bind_res (dout_write dout bs (unat len)) (\<lambda>dout. Inr (uint rlen, dout))))"

definition ch_dout_string_write :: "malloc_ok \<Rightarrow> ch_data_output \<Rightarrow> bytes \<Rightarrow> (int \<times> ch_data_output) res" where
  "ch_dout_string_write mal dout str =
     (let len = of_nat (length str);
          rlen = len + 8
      in case DOUT_CHECK mal dout rlen of
           None \<Rightarrow> Inr (-1, dout)
         | Some dout \<Rightarrow>
             bind_res (ch_dout_size_write mal dout len) (\<lambda>(_, dout).
             bind_res (dout_write dout str (unat len)) (\<lambda>dout. Inr (uint rlen, dout))))"

text \<open>\<^verbatim>\<open>rlen\<close> has 16 bits and wraps; a \<^verbatim>\<open>NULL\<close> string is read as the empty one, whose only byte is its zero.\<close>

definition ch_dout_string16_write :: "malloc_ok \<Rightarrow> ch_data_output \<Rightarrow> bytes option \<Rightarrow> u16 \<Rightarrow> (int \<times> ch_data_output) res" where
  "ch_dout_string16_write mal dout str len =
     (let str = (case str of None \<Rightarrow> [0] | Some s \<Rightarrow> s);
          rlen = len + 2
      in case DOUT_CHECK mal dout (ucast rlen) of
           None \<Rightarrow> Inr (-1, dout)
         | Some dout \<Rightarrow>
             bind_res (ch_dout_uint16_write mal dout len) (\<lambda>(_, dout).
             bind_res (dout_write dout str (unat len)) (\<lambda>dout. Inr (uint rlen, dout))))"

section \<open>The reader\<close>

text \<open>\<open>ibuf\<close> is what is between \<^verbatim>\<open>start\<close> and \<^verbatim>\<open>last\<close>, \<open>ipos\<close> the offset of \<^verbatim>\<open>pos\<close>.\<close>

record ch_data_input =
  ibuf :: bytes
  ipos :: nat

definition ch_data_input_read_over :: "ch_data_input \<Rightarrow> nat \<Rightarrow> bool" where
  "ch_data_input_read_over din sz \<longleftrightarrow> ipos din + sz > length (ibuf din)"

fun VALUE_READ :: "'a::len word \<Rightarrow> bytes \<Rightarrow> 'a word" where
  "VALUE_READ vv [] = vv"
| "VALUE_READ vv (b # bs) = VALUE_READ (vv + push_bit (8 * length bs) (ucast (b AND 0xff))) bs"

definition din_int_read :: "nat \<Rightarrow> ch_data_input \<Rightarrow> 'a::len word \<times> ch_data_input" where
  "din_int_read sz din =
     (if ch_data_input_read_over din sz then (0, din)
      else (VALUE_READ 0 (take sz (drop (ipos din) (ibuf din))), din\<lparr>ipos := ipos din + sz\<rparr>))"

definition ch_data_input_bool_read :: "ch_data_input \<Rightarrow> u32 \<times> ch_data_input" where
  "ch_data_input_bool_read din = din_int_read 1 din"

definition ch_data_input_short_read :: "ch_data_input \<Rightarrow> u16 \<times> ch_data_input" where
  "ch_data_input_short_read din = din_int_read 2 din"

definition ch_data_input_int_read :: "ch_data_input \<Rightarrow> u32 \<times> ch_data_input" where
  "ch_data_input_int_read din = din_int_read 4 din"

definition ch_data_input_long_read :: "ch_data_input \<Rightarrow> u64 \<times> ch_data_input" where
  "ch_data_input_long_read din = din_int_read 8 din"

definition ch_data_input_ushort_read :: "ch_data_input \<Rightarrow> u16 \<times> ch_data_input" where
  "ch_data_input_ushort_read din = din_int_read 2 din"

definition ch_data_input_uint_read :: "ch_data_input \<Rightarrow> u32 \<times> ch_data_input" where
  "ch_data_input_uint_read din = din_int_read 4 din"

definition ch_data_input_ulong_read :: "ch_data_input \<Rightarrow> u64 \<times> ch_data_input" where
  "ch_data_input_ulong_read din = din_int_read 8 din"

definition ch_data_input_size_read :: "ch_data_input \<Rightarrow> u64 \<times> ch_data_input" where
  "ch_data_input_size_read din = din_int_read 8 din"

definition ch_data_input_ssize_read :: "ch_data_input \<Rightarrow> u64 \<times> ch_data_input" where
  "ch_data_input_ssize_read din = din_int_read 8 din"

definition ch_data_input_off_read :: "ch_data_input \<Rightarrow> u64 \<times> ch_data_input" where
  "ch_data_input_off_read din = din_int_read 8 din"

definition ch_data_input_int8_read :: "ch_data_input \<Rightarrow> u8 \<times> ch_data_input" where
  "ch_data_input_int8_read din = din_int_read 1 din"

definition ch_data_input_int16_read :: "ch_data_input \<Rightarrow> u16 \<times> ch_data_input" where
  "ch_data_input_int16_read din = din_int_read 2 din"

definition ch_data_input_int32_read :: "ch_data_input \<Rightarrow> u32 \<times> ch_data_input" where
  "ch_data_input_int32_read din = din_int_read 4 din"

definition ch_data_input_int64_read :: "ch_data_input \<Rightarrow> u64 \<times> ch_data_input" where
  "ch_data_input_int64_read din = din_int_read 8 din"

definition ch_data_input_uint8_read :: "ch_data_input \<Rightarrow> u8 \<times> ch_data_input" where
  "ch_data_input_uint8_read din = din_int_read 1 din"

definition ch_data_input_uint16_read :: "ch_data_input \<Rightarrow> u16 \<times> ch_data_input" where
  "ch_data_input_uint16_read din = din_int_read 2 din"

definition ch_data_input_uint32_read :: "ch_data_input \<Rightarrow> u32 \<times> ch_data_input" where
  "ch_data_input_uint32_read din = din_int_read 4 din"

definition ch_data_input_uint64_read :: "ch_data_input \<Rightarrow> u64 \<times> ch_data_input" where
  "ch_data_input_uint64_read din = din_int_read 8 din"

text \<open>The length that is read is not compared with what is left.\<close>

definition ch_data_input_bytes_read :: "ch_data_input \<Rightarrow> (nat option \<times> size_t) \<times> ch_data_input" where
  "ch_data_input_bytes_read din =
     (if ch_data_input_read_over din 8 then ((None, 0), din)
      else
        let (len, din) = ch_data_input_size_read din
        in ((Some (ipos din), len), din\<lparr>ipos := ipos din + unat len\<rparr>))"

definition ch_data_input_bstring_read :: "ch_data_input \<Rightarrow> (nat option \<times> u8) \<times> ch_data_input" where
  "ch_data_input_bstring_read din =
     (if ch_data_input_read_over din 1 then ((None, 0), din)
      else
        let (len, din) = ch_data_input_uint8_read din
        in ((Some (ipos din), len), din\<lparr>ipos := ipos din + unat len\<rparr>))"

section \<open>Numbers as bytes\<close>

text \<open>The number that bytes denote, the most significant one first.\<close>

fun be_nat :: "bytes \<Rightarrow> nat" where
  "be_nat [] = 0"
| "be_nat (b # bs) = unat b * 256 ^ length bs + be_nat bs"

lemma and_ff: "(x :: 'a::len word) AND 0xff = take_bit 8 x"
proof -
  have "(0xff :: 'a word) = mask 8" by (simp add: mask_eq_exp_minus_1)
  then show ?thesis by (simp only: take_bit_eq_mask)
qed

lemma ucast_and_ff: "(ucast (x AND 0xff :: 'a::len word) :: u8) = ucast x"
  unfolding and_ff by (rule bit_word_eqI) (auto simp: bit_simps dest: bit_imp_le_length)

lemma length_DOUT_VALUE_WRITE [simp]: "length (DOUT_VALUE_WRITE v k) = k"
  by (induction k) auto

lemma be_nat_DOUT_VALUE_WRITE: "be_nat (DOUT_VALUE_WRITE (v :: 'a::len word) k) = unat v mod 256 ^ k"
proof (induction k)
  case (Suc k)
  have "unat (drop_bit (8 * k) v) = unat v div 256 ^ k"
    by (subst unat_drop_bit_eq) (simp add: drop_bit_eq_div power_mult)
  then have "unat (ucast (drop_bit (8 * k) v) :: u8) = unat v div 256 ^ k mod 256"
    by (simp add: unsigned_ucast_eq take_bit_eq_mod)
  then have "be_nat (DOUT_VALUE_WRITE v (Suc k)) = unat v div 256 ^ k mod 256 * 256 ^ k + unat v mod 256 ^ k"
    by (simp add: Suc ucast_and_ff)
  also have "\<dots> = unat v mod 256 ^ Suc k"
    using mod_mult2_eq [of "unat v" "256 ^ k" 256] by (simp add: ac_simps)
  finally show ?case .
qed simp

lemma push_bit_byte: "push_bit (8 * n) (ucast (b AND 0xff :: u8)) = (of_nat (unat b * 256 ^ n) :: 'a::len word)"
proof -
  have "b AND 0xff = b" by (simp add: and_ff take_bit_word_eq_self)
  then show ?thesis by (simp add: push_bit_eq_mult power_mult)
qed

lemma VALUE_READ_be: "VALUE_READ vv bs = vv + of_nat (be_nat bs)"
  by (induction vv bs rule: VALUE_READ.induct) (simp_all add: push_bit_byte del: of_nat_mult)

lemma VALUE_READ_WRITE:
  assumes "LENGTH('a) \<le> 8 * k"
  shows "VALUE_READ 0 (DOUT_VALUE_WRITE (v :: 'a::len word) k) = v"
proof -
  have "unat v < 2 ^ (8 * k)" using less_le_trans [OF unsigned_less power_increasing [OF assms]] by simp
  then show ?thesis by (simp add: VALUE_READ_be be_nat_DOUT_VALUE_WRITE power_mult)
qed

section \<open>Writes stay inside the buffer\<close>

text \<open>What was written fits, and \<open>n\<close> more bytes can be written before the size would wrap.\<close>

definition dout_ok :: "ch_data_output \<Rightarrow> nat \<Rightarrow> bool" where
  "dout_ok dout n \<longleftrightarrow> length (content dout) \<le> unat (dsize dout) \<and> unat (dsize dout) + 4 * n + 32 < 2 ^ 64"

lemma DOUT_CHECK_ok:
  assumes "dout_ok dout (unat sz + n)"
  shows "case DOUT_CHECK mal dout sz of
           None \<Rightarrow> \<exists>s. \<not> mal s
         | Some d \<Rightarrow> content d = content dout \<and> length (content d) + unat sz \<le> unat (dsize d) \<and> unat (dsize d) + 4 * n + 32 < 2 ^ 64"
proof (cases "CH_DOUT_FULL dout sz")
  case True
  have b: "unat (dsize dout) + 4 * unat sz + 4 * n + 32 < 2 ^ 64" "length (content dout) \<le> unat (dsize dout)"
    using assms by (auto simp: dout_ok_def)
  then have m: "unat (4 * sz) = 4 * unat sz" by (simp add: unat_word_ariths)
  then have "unat (dsize dout + 4 * sz) = unat (dsize dout) + 4 * unat sz" using b by (subst unat_plus64) simp_all
  then show ?thesis using True b by (auto simp: DOUT_CHECK_def ch_dout_incr_def Let_def)
next
  case False
  then show ?thesis using assms by (auto simp: DOUT_CHECK_def CH_DOUT_FULL_def dout_ok_def)
qed

lemma dout_write_ok:
  assumes "length (content d) + len \<le> unat (dsize d)" "unat (dsize d) + 32 < 2 ^ 64" "len \<le> length bs"
  shows "dout_write d bs len = Inr (d\<lparr>content := content d @ take len bs\<rparr>)"
proof -
  have "unat (dsize d + DOUT_SIZE_EXT) = unat (dsize d) + 32" using assms(2) by (simp add: DOUT_SIZE_EXT_def unat_plus64)
  then show ?thesis using assms by (simp add: dout_write_def)
qed

text \<open>What every writer does: it fails with the buffer as it was, or appends \<open>enc\<close> and returns its length.\<close>

definition appends :: "malloc_ok \<Rightarrow> ch_data_output \<Rightarrow> bytes \<Rightarrow> nat \<Rightarrow> (int \<times> ch_data_output) res \<Rightarrow> bool" where
  "appends mal dout enc n r \<longleftrightarrow>
     r = Inr (-1, dout) \<and> (\<exists>s. \<not> mal s) \<or>
     (\<exists>d. r = Inr (int (length enc), d) \<and> content d = content dout @ enc \<and> dout_ok d n)"

lemma dout_int_write_appends:
  assumes "dout_ok dout (sz + n)"
  shows "appends mal dout (DOUT_VALUE_WRITE v sz) n (dout_int_write mal sz dout v)"
proof -
  have sz: "unat (of_nat sz :: size_t) = sz" using assms by (simp add: dout_ok_def unat_of_nat)
  show ?thesis
    using DOUT_CHECK_ok [of dout "of_nat sz" n mal] assms
    by (auto simp: dout_int_write_def appends_def sz dout_write_ok dout_ok_def split: option.splits)
qed

lemma no_check_int_write:
  assumes "length (content d) + sz \<le> unat (dsize d)" "unat (dsize d) + 32 < 2 ^ 64"
  shows "dout_int_write mal sz d v = Inr (int sz, d\<lparr>content := content d @ DOUT_VALUE_WRITE v sz\<rparr>)"
proof -
  have "unat (of_nat sz :: size_t) = sz" using assms by (simp add: unat_of_nat)
  then have "DOUT_CHECK mal d (of_nat sz) = Some d" using assms by (simp add: DOUT_CHECK_def CH_DOUT_FULL_def)
  then show ?thesis using assms by (simp add: dout_int_write_def dout_write_ok)
qed

text \<open>The shape the three writers of bytes share: a check for all of it, the length, the bytes.\<close>

lemma prefixed_write_appends:
  fixes l :: "'l::len word"
  assumes "dout_ok dout (k + unat len + n)" "unat rlen = k + unat len" "unat len \<le> length bs"
  shows "appends mal dout (DOUT_VALUE_WRITE l k @ take (unat len) bs) n
    (case DOUT_CHECK mal dout rlen of
       None \<Rightarrow> Inr (-1, dout)
     | Some dout \<Rightarrow> bind_res (dout_int_write mal k dout l) (\<lambda>(_, dout).
         bind_res (dout_write dout bs (unat len)) (\<lambda>dout. Inr (int (k + unat len), dout))))"
proof -
  have "dout_ok dout (unat rlen + n)" using assms(1,2) by simp
  from DOUT_CHECK_ok [OF this, of mal] show ?thesis
    using assms(2,3)
    by (cases "DOUT_CHECK mal dout rlen")
      (auto simp: appends_def no_check_int_write dout_write_ok dout_ok_def)
qed


lemma bytes_write_appends:
  assumes "dout_ok dout (8 + unat len + n)" "unat len \<le> length bs"
  shows "appends mal dout (DOUT_VALUE_WRITE len 8 @ take (unat len) bs) n (ch_dout_bytes_write mal dout bs len)"
proof -
  have r: "unat (len + 8) = 8 + unat len" using assms(1) by (simp add: dout_ok_def unat_plus64)
  then have u: "uint (len + 8) = int (8 + unat len)" by (simp only: uint_nat)
  show ?thesis
    unfolding ch_dout_bytes_write_def ch_dout_size_write_def Let_def u
    by (rule prefixed_write_appends [OF assms(1) r assms(2)])
qed

lemma string_write_bytes:
  "ch_dout_string_write mal dout str = ch_dout_bytes_write mal dout str (of_nat (length str))"
  by (simp add: ch_dout_string_write_def ch_dout_bytes_write_def Let_def)

lemma string16_write_appends:
  assumes "dout_ok dout (2 + unat len + n)" "unat len < 65534" "unat len \<le> length str"
  shows "appends mal dout (DOUT_VALUE_WRITE len 2 @ take (unat len) str) n (ch_dout_string16_write mal dout (Some str) len)"
proof -
  have r: "unat (len + 2) = 2 + unat len" using assms(2) by (simp add: unat_word_ariths)
  then have u: "uint (len + 2) = int (2 + unat len)" by (simp only: uint_nat)
  have l: "unat (ucast len :: size_t) = unat len" "unat (ucast (len + 2) :: size_t) = 2 + unat len"
    by (simp_all add: unsigned_ucast_eq take_bit_nat_eq_self less_trans [OF unat_lt16] r)
  have "appends mal dout (DOUT_VALUE_WRITE len 2 @ take (unat (ucast len :: size_t)) str) n
    (case DOUT_CHECK mal dout (ucast (len + 2)) of
       None \<Rightarrow> Inr (-1, dout)
     | Some dout \<Rightarrow> bind_res (dout_int_write mal 2 dout len) (\<lambda>(_, dout).
         bind_res (dout_write dout str (unat (ucast len :: size_t))) (\<lambda>dout. Inr (int (2 + unat (ucast len :: size_t)), dout))))"
    by (rule prefixed_write_appends) (use assms l in simp_all)
  then show ?thesis
    unfolding ch_dout_string16_write_def ch_dout_uint16_write_def Let_def u option.case l(1) .
qed

section \<open>What was written is read back\<close>

text \<open>
  A record is a sequence of fields. The reader is told the shape of the field to read by
  one of the same shape.
\<close>

datatype field = F8 u8 | F16 u16 | F32 u32 | F64 u64 | FBytes bytes | FStr16 bytes

fun field_ok :: "field \<Rightarrow> bool" where
  "field_ok (FBytes bs) \<longleftrightarrow> length bs < 2 ^ 61"
| "field_ok (FStr16 bs) \<longleftrightarrow> length bs < 65534"
| "field_ok _ \<longleftrightarrow> True"

fun enc_field :: "field \<Rightarrow> bytes" where
  "enc_field (F8 v) = DOUT_VALUE_WRITE v 1"
| "enc_field (F16 v) = DOUT_VALUE_WRITE v 2"
| "enc_field (F32 v) = DOUT_VALUE_WRITE v 4"
| "enc_field (F64 v) = DOUT_VALUE_WRITE v 8"
| "enc_field (FBytes bs) = DOUT_VALUE_WRITE (of_nat (length bs) :: u64) 8 @ bs"
| "enc_field (FStr16 bs) = DOUT_VALUE_WRITE (of_nat (length bs) :: u16) 2 @ bs"

fun write_field :: "malloc_ok \<Rightarrow> ch_data_output \<Rightarrow> field \<Rightarrow> (int \<times> ch_data_output) res" where
  "write_field mal dout (F8 v) = ch_dout_uint8_write mal dout v"
| "write_field mal dout (F16 v) = ch_dout_uint16_write mal dout v"
| "write_field mal dout (F32 v) = ch_dout_uint32_write mal dout v"
| "write_field mal dout (F64 v) = ch_dout_uint64_write mal dout v"
| "write_field mal dout (FBytes bs) = ch_dout_bytes_write mal dout bs (of_nat (length bs))"
| "write_field mal dout (FStr16 bs) = ch_dout_string16_write mal dout (Some bs) (of_nat (length bs))"

text \<open>The \<^verbatim>\<open>CH_DOUT_*_WRITE\<close> macros one after the other: the lengths are added up, a failure ends the writing.\<close>

fun write_fields :: "malloc_ok \<Rightarrow> ch_data_output \<Rightarrow> int \<Rightarrow> field list \<Rightarrow> (int \<times> ch_data_output) res" where
  "write_fields mal dout len [] = Inr (len, dout)"
| "write_fields mal dout len (f # fs) =
     bind_res (write_field mal dout f) (\<lambda>(rc, dout). if rc = -1 then Inr (-1, dout) else write_fields mal dout (len + rc) fs)"

definition bytes_at :: "ch_data_input \<Rightarrow> nat option \<times> 'a::len word \<Rightarrow> bytes" where
  "bytes_at din pl = (case pl of (None, _) \<Rightarrow> [] | (Some i, len) \<Rightarrow> take (unat len) (drop i (ibuf din)))"

fun read_field :: "ch_data_input \<Rightarrow> field \<Rightarrow> field \<times> ch_data_input" where
  "read_field din (F8 _) = apfst F8 (ch_data_input_uint8_read din)"
| "read_field din (F16 _) = apfst F16 (ch_data_input_uint16_read din)"
| "read_field din (F32 _) = apfst F32 (ch_data_input_uint32_read din)"
| "read_field din (F64 _) = apfst F64 (ch_data_input_uint64_read din)"
| "read_field din (FBytes _) = apfst (FBytes \<circ> bytes_at din) (ch_data_input_bytes_read din)"
| "read_field din (FStr16 _) =
     (let (len, din) = ch_data_input_uint16_read din
      in (FStr16 (bytes_at din (Some (ipos din), len)), din\<lparr>ipos := ipos din + unat len\<rparr>))"

fun read_fields :: "ch_data_input \<Rightarrow> field list \<Rightarrow> field list \<times> ch_data_input" where
  "read_fields din [] = ([], din)"
| "read_fields din (f # fs) = (let (g, din) = read_field din f; (gs, din) = read_fields din fs in (g # gs, din))"

lemma write_field_appends:
  assumes "field_ok f" "dout_ok dout (length (enc_field f) + n)"
  shows "appends mal dout (enc_field f) n (write_field mal dout f)"
proof (cases f)
  case (FBytes bs)
  have "unat (of_nat (length bs) :: u64) = length bs" using assms(1) FBytes by (simp add: unat_of_nat)
  then show ?thesis using FBytes assms bytes_write_appends [of dout "of_nat (length bs)" n bs mal] by simp
next
  case (FStr16 bs)
  have "unat (of_nat (length bs) :: u16) = length bs" using assms(1) FStr16 by (simp add: unat_of_nat)
  then show ?thesis using FStr16 assms string16_write_appends [of dout "of_nat (length bs)" n bs mal] by simp
next
  case (F8 v)
  then show ?thesis using assms dout_int_write_appends [of dout 1 n mal v] by (simp add: ch_dout_uint8_write_def)
qed (use assms in \<open>simp_all add: dout_int_write_appends ch_dout_uint16_write_def ch_dout_uint32_write_def ch_dout_uint64_write_def\<close>)

lemma write_fields_appends:
  assumes "\<forall>f\<in>set fs. field_ok f" "dout_ok dout (length (concat (map enc_field fs)))"
  shows "(\<exists>s. \<not> mal s) \<and> (\<exists>d. write_fields mal dout len fs = Inr (-1, d)) \<or>
    (\<exists>d. write_fields mal dout len fs = Inr (len + int (length (concat (map enc_field fs))), d) \<and>
      content d = content dout @ concat (map enc_field fs) \<and> dout_ok d 0)"
  using assms
proof (induction fs arbitrary: dout len)
  case (Cons f fs)
  let ?n = "length (concat (map enc_field fs))"
  have "appends mal dout (enc_field f) ?n (write_field mal dout f)"
    using Cons.prems by (intro write_field_appends) auto
  then consider "write_field mal dout f = Inr (-1, dout)" "\<exists>s. \<not> mal s"
    | d where "write_field mal dout f = Inr (int (length (enc_field f)), d)" "content d = content dout @ enc_field f" "dout_ok d ?n"
    unfolding appends_def by blast
  then show ?case
  proof cases
    case 2
    have "\<forall>f\<in>set fs. field_ok f" using Cons.prems by simp
    from Cons.IH [OF this 2(3), of "len + int (length (enc_field f))"] show ?thesis using 2(1,2) by (auto simp: add.assoc)
  qed simp
qed simp

lemma din_int_read_at:
  assumes "LENGTH('a) \<le> 8 * k"
  shows "din_int_read k \<lparr>ibuf = pre @ DOUT_VALUE_WRITE (v :: 'a::len word) k @ suf, ipos = length pre\<rparr>
    = (v, \<lparr>ibuf = pre @ DOUT_VALUE_WRITE v k @ suf, ipos = length pre + k\<rparr>)"
  using assms by (simp add: din_int_read_def ch_data_input_read_over_def VALUE_READ_WRITE)

lemma read_field_at:
  assumes "field_ok f"
  shows "read_field \<lparr>ibuf = pre @ enc_field f @ suf, ipos = length pre\<rparr> f
    = (f, \<lparr>ibuf = pre @ enc_field f @ suf, ipos = length (pre @ enc_field f)\<rparr>)"
proof (cases f)
  case (FBytes bs)
  have "unat (of_nat (length bs) :: u64) = length bs" using assms FBytes by (simp add: unat_of_nat)
  then show ?thesis
    using FBytes din_int_read_at [of 8 pre "of_nat (length bs) :: u64" "bs @ suf"]
    by (simp add: ch_data_input_bytes_read_def ch_data_input_size_read_def ch_data_input_read_over_def bytes_at_def)
next
  case (FStr16 bs)
  have "unat (of_nat (length bs) :: u16) = length bs" using assms FStr16 by (simp add: unat_of_nat)
  then show ?thesis
    using FStr16 din_int_read_at [of 2 pre "of_nat (length bs) :: u16" "bs @ suf"]
    by (simp add: ch_data_input_uint16_read_def bytes_at_def)
next
  case (F8 v)
  then show ?thesis using din_int_read_at [of 1 pre v suf] by (simp add: ch_data_input_uint8_read_def)
qed (simp_all add: din_int_read_at ch_data_input_uint16_read_def
       ch_data_input_uint32_read_def ch_data_input_uint64_read_def)

lemma read_fields_at:
  assumes "\<forall>f\<in>set fs. field_ok f"
  shows "read_fields \<lparr>ibuf = pre @ concat (map enc_field fs) @ suf, ipos = length pre\<rparr> fs
    = (fs, \<lparr>ibuf = pre @ concat (map enc_field fs) @ suf, ipos = length (pre @ concat (map enc_field fs))\<rparr>)"
  using assms
proof (induction fs arbitrary: pre)
  case (Cons f fs)
  then show ?case
    using read_field_at [of f pre "concat (map enc_field fs) @ suf"] Cons.IH [of "pre @ enc_field f"] by simp
qed simp

section \<open>Properties\<close>

text \<open>
  When \<^verbatim>\<open>malloc\<close> succeeds, a sequence of integers, byte blocks and short strings is written
  behind what the buffer holds, the length returned is that of the bytes, the buffer stays well-formed,
  and reading fields of the same shapes from where the writing started gives the sequence back.
\<close>

theorem fields_write_read:
  assumes "\<forall>s. mal s" "\<forall>f\<in>set fs. field_ok f" "dout_ok dout (length (concat (map enc_field fs)))"
  shows "\<exists>len d. write_fields mal dout 0 fs = Inr (len, d) \<and> length (content d) = length (content dout) + nat len \<and>
    take (length (content dout)) (content d) = content dout \<and> dout_ok d 0 \<and>
    read_fields \<lparr>ibuf = content d, ipos = length (content dout)\<rparr> fs = (fs, \<lparr>ibuf = content d, ipos = length (content d)\<rparr>)"
proof -
  obtain d where d: "write_fields mal dout 0 fs = Inr (int (length (concat (map enc_field fs))), d)"
    "content d = content dout @ concat (map enc_field fs)" "dout_ok d 0"
    using write_fields_appends [OF assms(2,3), of mal 0] assms(1) by auto
  then show ?thesis using read_fields_at [OF assms(2), of "content dout" "[]"] by auto
qed

theorem fields_write_read_witness:
  "\<exists>len d. write_fields (\<lambda>_. True) \<lparr>content = [7], dsize = 4\<rparr> 0 [F16 0x1234, FBytes [1, 2, 3], FStr16 [9], F8 5] = Inr (len, d) \<and>
    length (content d) = 1 + nat len \<and> take 1 (content d) = [7] \<and> dout_ok d 0 \<and>
    read_fields \<lparr>ibuf = content d, ipos = 1\<rparr> [F16 0x1234, FBytes [1, 2, 3], FStr16 [9], F8 5] =
      ([F16 0x1234, FBytes [1, 2, 3], FStr16 [9], F8 5], \<lparr>ibuf = content d, ipos = length (content d)\<rparr>)"
  using fields_write_read [of "\<lambda>_. True" "[F16 0x1234, FBytes [1, 2, 3], FStr16 [9], F8 5]" "\<lparr>content = [7], dsize = 4\<rparr>"]
  by (simp add: dout_ok_def)

text \<open>
  Whatever \<^verbatim>\<open>malloc\<close> answers, writing fields never leaves the buffer; it either appends the
  bytes of all fields or returns -1, and it returns -1 only when \<^verbatim>\<open>malloc\<close> failed.
\<close>

theorem fields_write_inside:
  assumes "\<forall>f\<in>set fs. field_ok f" "dout_ok dout (length (concat (map enc_field fs)))"
  shows "\<exists>rc d. write_fields mal dout 0 fs = Inr (rc, d) \<and>
    (rc = -1 \<and> (\<exists>s. \<not> mal s) \<or> content d = content dout @ concat (map enc_field fs) \<and> length (content d) \<le> unat (dsize d))"
  using write_fields_appends [OF assms, of mal 0] unfolding dout_ok_def by blast

theorem fields_write_inside_witness:
  "\<exists>rc d. write_fields (\<lambda>_. False) \<lparr>content = [7], dsize = 4\<rparr> 0 [F16 1, F64 2] = Inr (rc, d) \<and>
    (rc = -1 \<and> (\<exists>s::size_t. \<not> False) \<or> content d = [7] @ concat (map enc_field [F16 1, F64 2]) \<and> length (content d) \<le> unat (dsize d))"
  using fields_write_inside [of "[F16 1, F64 2]" "\<lparr>content = [7], dsize = 4\<rparr>" "\<lambda>_. False"]
  by (simp add: dout_ok_def del: write_fields.simps)

text \<open>
  A string of 65534 or 65535 bytes leaves the buffer when little is left of it: \<^verbatim>\<open>rlen\<close>, a
  16-bit sum, wraps to 0 or 1, so \<^verbatim>\<open>ch_dout_string16_write\<close> asks for no room, and the copy passes
  the end of the allocation.
\<close>

theorem string16_write_overrun:
  assumes "65534 \<le> unat len" "unat len \<le> length str" "\<forall>s. mal s"
    "length (content dout) = unat (dsize dout)" "unat (dsize dout) < 2 ^ 63"
  shows "ch_dout_string16_write mal dout (Some str) len = Inl Out_Of_Bounds"
proof -
  have len: "len = 65534 \<or> len = 65535"
    using assms(1) unat_lt16 [of len] unfolding word_unat_eq_iff by (simp del: unat_lt16, linarith)
  have d: "unat (dsize dout + 8) = unat (dsize dout) + 8" "unat (dsize dout + 4) = unat (dsize dout) + 4"
    "unat (dsize dout + 8 + 32) = unat (dsize dout) + 40" "unat (dsize dout + 4 + 32) = unat (dsize dout) + 36"
    using assms(5) by (simp_all add: unat_plus64)
  show ?thesis
    using len
  proof
    assume [simp]: "len = 65534"
    show ?thesis using assms d
      by (simp add: ch_dout_string16_write_def ch_dout_uint16_write_def dout_int_write_def DOUT_CHECK_def
          CH_DOUT_FULL_def ch_dout_incr_def dout_write_def DOUT_SIZE_EXT_def)
  next
    assume [simp]: "len = 65535"
    show ?thesis using assms d
      by (simp add: ch_dout_string16_write_def ch_dout_uint16_write_def dout_int_write_def DOUT_CHECK_def
          CH_DOUT_FULL_def ch_dout_incr_def dout_write_def DOUT_SIZE_EXT_def)
  qed
qed

theorem string16_write_overrun_witness:
  "ch_dout_string16_write (\<lambda>_. True) \<lparr>content = [7, 8], dsize = 2\<rparr> (Some (replicate 65534 0)) 65534 = Inl Out_Of_Bounds"
  by (rule string16_write_overrun) simp_all

end
