(* ===== verification/Msgpack.thy ===== *)
theory Msgpack
  imports Rule_Utils
begin

text \<open>
  The store \<^verbatim>\<open>lib/common/ch_msgpack_store.h\<close> that sessions are packed into. The packer is the msgpack
  library; a call of it is a token, the store is the list of the calls. Shown here: when the calls
  make a sequence of complete objects, which is what a reader of the packed bytes relies on: a map of
  \<open>n\<close> entries must be followed by \<open>2 * n\<close> objects, an array by as many objects as it says.
\<close>

section \<open>The store\<close>

datatype mp_token =
    MP_Str bytes      \<comment> \<open>\<^verbatim>\<open>msgpack_pack_str\<close> and \<^verbatim>\<open>msgpack_pack_str_body\<close>\<close>
  | MP_Bin bytes      \<comment> \<open>\<^verbatim>\<open>msgpack_pack_bin\<close> and \<^verbatim>\<open>msgpack_pack_bin_body\<close>\<close>
  | MP_Map nat        \<comment> \<open>\<^verbatim>\<open>msgpack_pack_map\<close>\<close>
  | MP_Array nat      \<comment> \<open>\<^verbatim>\<open>msgpack_pack_array\<close>\<close>
  | MP_Uint nat       \<comment> \<open>\<^verbatim>\<open>msgpack_pack_unsigned_int\<close>, \<^verbatim>\<open>msgpack_pack_uint8\<close> to \<^verbatim>\<open>msgpack_pack_uint64\<close>\<close>

type_synonym ch_msgpack_store = "mp_token list"

definition ch_msgpack_store_create :: ch_msgpack_store where
  "ch_msgpack_store_create = []"

definition ch_msgpack_store_reset :: "ch_msgpack_store \<Rightarrow> ch_msgpack_store" where
  "ch_msgpack_store_reset d = []"

text \<open>A key is a C string, \<open>None\<close> for \<^verbatim>\<open>NULL\<close>.\<close>

definition mp_str_is_empty :: "c_string \<Rightarrow> bool" where
  "mp_str_is_empty v \<longleftrightarrow> v = None \<or> v = Some []"

definition ch_msgpack_store_write_str :: "ch_msgpack_store \<Rightarrow> string \<Rightarrow> ch_msgpack_store" where
  "ch_msgpack_store_write_str d str = d @ [MP_Str (text_bytes str)]"

definition mp_key :: "ch_msgpack_store \<Rightarrow> c_string \<Rightarrow> ch_msgpack_store" where
  "mp_key d k = (if mp_str_is_empty k then d else ch_msgpack_store_write_str d (the k))"

text \<open>With a length that is not the string's own: \<open>str\<close> is the memory at the pointer, \<open>None\<close> for \<^verbatim>\<open>NULL\<close>.\<close>

definition ch_msgpack_store_write_str_wlen :: "ch_msgpack_store \<Rightarrow> string \<Rightarrow> bytes option \<Rightarrow> size_t \<Rightarrow> ch_msgpack_store res" where
  "ch_msgpack_store_write_str_wlen d k str len =
     (let body = (if str = None \<or> len = 0 then [0] else the str)
      in if unat len \<le> length body then Inr (ch_msgpack_store_write_str d k @ [MP_Str (take (unat len) body)])
         else Inl Out_Of_Bounds)"

definition ch_msgpack_store_write_bin :: "ch_msgpack_store \<Rightarrow> bytes \<Rightarrow> size_t \<Rightarrow> ch_msgpack_store res" where
  "ch_msgpack_store_write_bin d bs len =
     (if unat len \<le> length bs then Inr (d @ [MP_Bin (take (unat len) bs)]) else Inl Out_Of_Bounds)"

definition ch_msgpack_store_write_bin_kv :: "ch_msgpack_store \<Rightarrow> c_string \<Rightarrow> bytes \<Rightarrow> size_t \<Rightarrow> ch_msgpack_store res" where
  "ch_msgpack_store_write_bin_kv d k bs len = ch_msgpack_store_write_bin (mp_key d k) bs len"

definition ch_msgpack_store_write_kv :: "ch_msgpack_store \<Rightarrow> string \<Rightarrow> c_string \<Rightarrow> ch_msgpack_store" where
  "ch_msgpack_store_write_kv d k v =
     ch_msgpack_store_write_str (ch_msgpack_store_write_str d k) (case v of None \<Rightarrow> [] | Some s \<Rightarrow> s)"

definition ch_msgpack_store_write_number_str :: "ch_msgpack_store \<Rightarrow> string \<Rightarrow> u64 \<Rightarrow> ch_msgpack_store" where
  "ch_msgpack_store_write_number_str d k number = ch_msgpack_store_write_kv d k (Some (decimal (unat number)))"

definition ch_msgpack_store_map_start :: "ch_msgpack_store \<Rightarrow> c_string \<Rightarrow> nat \<Rightarrow> ch_msgpack_store" where
  "ch_msgpack_store_map_start d k n = mp_key d k @ [MP_Map n]"

definition ch_msgpack_store_array_start :: "ch_msgpack_store \<Rightarrow> c_string \<Rightarrow> nat \<Rightarrow> ch_msgpack_store" where
  "ch_msgpack_store_array_start d k n = mp_key d k @ [MP_Array n]"

definition ch_msgpack_store_write_uint :: "ch_msgpack_store \<Rightarrow> c_string \<Rightarrow> u32 \<Rightarrow> ch_msgpack_store" where
  "ch_msgpack_store_write_uint d k v = mp_key d k @ [MP_Uint (unat v)]"

definition ch_msgpack_store_write_uint8 :: "ch_msgpack_store \<Rightarrow> c_string \<Rightarrow> u8 \<Rightarrow> ch_msgpack_store" where
  "ch_msgpack_store_write_uint8 d k v = mp_key d k @ [MP_Uint (unat v)]"

definition ch_msgpack_store_write_uint16 :: "ch_msgpack_store \<Rightarrow> c_string \<Rightarrow> u16 \<Rightarrow> ch_msgpack_store" where
  "ch_msgpack_store_write_uint16 d k v = mp_key d k @ [MP_Uint (unat v)]"

definition ch_msgpack_store_write_uint32 :: "ch_msgpack_store \<Rightarrow> c_string \<Rightarrow> u32 \<Rightarrow> ch_msgpack_store" where
  "ch_msgpack_store_write_uint32 d k v = mp_key d k @ [MP_Uint (unat v)]"

definition ch_msgpack_store_write_uint64 :: "ch_msgpack_store \<Rightarrow> c_string \<Rightarrow> u64 \<Rightarrow> ch_msgpack_store" where
  "ch_msgpack_store_write_uint64 d k v = mp_key d k @ [MP_Uint (unat v)]"

lemmas mp_write_defs = ch_msgpack_store_map_start_def ch_msgpack_store_array_start_def ch_msgpack_store_write_uint_def
  ch_msgpack_store_write_uint8_def ch_msgpack_store_write_uint16_def ch_msgpack_store_write_uint32_def
  ch_msgpack_store_write_uint64_def ch_msgpack_store_write_kv_def ch_msgpack_store_write_str_def mp_key_def mp_str_is_empty_def

section \<open>Complete objects\<close>

text \<open>What is left after \<open>n\<close> objects; \<open>None\<close> when the tokens end before.\<close>

fun mp_skip :: "nat \<Rightarrow> mp_token list \<Rightarrow> mp_token list option" where
  "mp_skip 0 ts = Some ts"
| "mp_skip (Suc n) [] = None"
| "mp_skip (Suc n) (MP_Map k # ts) = mp_skip (2 * k + n) ts"
| "mp_skip (Suc n) (MP_Array k # ts) = mp_skip (k + n) ts"
| "mp_skip (Suc n) (_ # ts) = mp_skip n ts"

definition mp_objects :: "nat \<Rightarrow> mp_token list \<Rightarrow> bool" where
  "mp_objects n ts \<longleftrightarrow> mp_skip n ts = Some []"

lemma mp_skip_append: "mp_skip n ts = Some [] \<Longrightarrow> mp_skip (n + m) (ts @ us) = mp_skip m us"
proof (induction n ts arbitrary: m rule: mp_skip.induct)
  case (3 n k ts)
  then show ?case using "3.IH" [of m] by (simp add: add.assoc)
next
  case (4 n k ts)
  then show ?case using "4.IH" [of m] by (simp add: add.assoc)
qed auto

lemma mp_objects_append: "mp_objects n ts \<Longrightarrow> mp_objects m us \<Longrightarrow> mp_objects (n + m) (ts @ us)"
  by (simp add: mp_objects_def mp_skip_append)

lemma mp_objects_simps [simp]:
  "mp_objects 0 ts \<longleftrightarrow> ts = []"
  "mp_objects (Suc n) (MP_Map k # ts) \<longleftrightarrow> mp_objects (2 * k + n) ts"
  "mp_objects (Suc n) (MP_Array k # ts) \<longleftrightarrow> mp_objects (k + n) ts"
  "mp_objects (Suc n) (MP_Str s # ts) \<longleftrightarrow> mp_objects n ts"
  "mp_objects (Suc n) (MP_Bin b # ts) \<longleftrightarrow> mp_objects n ts"
  "mp_objects (Suc n) (MP_Uint v # ts) \<longleftrightarrow> mp_objects n ts"
  by (auto simp: mp_objects_def)

text \<open>A stream of complete objects can be cut at one place only.\<close>

lemma mp_objects_unique: "mp_objects n ts \<Longrightarrow> mp_objects n (ts @ us) \<Longrightarrow> us = []"
  using mp_skip_append [of n ts 0 us] by (simp add: mp_objects_def)

end
