(* ===== verification/Dns_Name.thy ===== *)
theory Dns_Name
  imports Data_Output Msgpack
begin

text \<open>
  The reader of DNS packets \<^verbatim>\<open>udp/app/dns/ch_dns_data_input.h\<close> and the domain names of
  \<^verbatim>\<open>ch_dns_name.c\<close>. A pointer into the packet is its offset from \<^verbatim>\<open>base\<close>; \<open>dmem\<close> are the bytes that can be
  read from there on. A block of the memory pool is the list of its bytes, \<open>None\<close> stands for \<^verbatim>\<open>NULL\<close>; the
  pool does not run out, as the code assumes. Shown here: the parser of names ends, stays inside the
  packet and inside its buffer of 255 bytes, and accepts exactly the names that a declarative reading of the
  packet, compression included, has; what the readers of bytes do wrong.
\<close>

section \<open>The reader\<close>

record ch_dns_data_input =
  dmem :: bytes
  dpos :: nat
  dlast :: nat

definition ch_dns_data_input_init :: "bytes \<Rightarrow> nat \<Rightarrow> nat \<Rightarrow> ch_dns_data_input" where
  "ch_dns_data_input_init b p e = \<lparr>dmem = b, dpos = p, dlast = e\<rparr>"

definition ch_dns_data_input_pos_update :: "ch_dns_data_input \<Rightarrow> nat \<Rightarrow> ch_dns_data_input" where
  "ch_dns_data_input_pos_update din sz = din\<lparr>dpos := dpos din + sz\<rparr>"

definition ch_dns_data_input_read_over :: "ch_dns_data_input \<Rightarrow> nat \<Rightarrow> bool" where
  "ch_dns_data_input_read_over din sz \<longleftrightarrow> dpos din + sz > dlast din"

text \<open>A difference of pointers, negative when \<^verbatim>\<open>pos\<close> has gone past \<^verbatim>\<open>last\<close>.\<close>

definition ch_dns_data_input_rdlen :: "ch_dns_data_input \<Rightarrow> int" where
  "ch_dns_data_input_rdlen din = int (dlast din) - int (dpos din)"

definition ch_dns_data_input_empty :: "ch_dns_data_input \<Rightarrow> bool" where
  "ch_dns_data_input_empty din \<longleftrightarrow> dpos din \<ge> dlast din"

text \<open>The body the readers of integers share.\<close>

definition dns_int_read :: "nat \<Rightarrow> ch_dns_data_input \<Rightarrow> 'a::len word \<times> ch_dns_data_input" where
  "dns_int_read sz din =
     (if ch_dns_data_input_read_over din sz then (0, din)
      else (VALUE_READ 0 (take sz (drop (dpos din) (dmem din))), ch_dns_data_input_pos_update din sz))"

definition ch_dns_data_input_uint8_read :: "ch_dns_data_input \<Rightarrow> u8 \<times> ch_dns_data_input" where
  "ch_dns_data_input_uint8_read din = dns_int_read 1 din"

definition ch_dns_data_input_uint16_read :: "ch_dns_data_input \<Rightarrow> u16 \<times> ch_dns_data_input" where
  "ch_dns_data_input_uint16_read din = dns_int_read 2 din"

definition ch_dns_data_input_uint32_read :: "ch_dns_data_input \<Rightarrow> u32 \<times> ch_dns_data_input" where
  "ch_dns_data_input_uint32_read din = dns_int_read 4 din"

definition ch_dns_data_input_bstring_read :: "ch_dns_data_input \<Rightarrow> (nat option \<times> u8) \<times> ch_dns_data_input" where
  "ch_dns_data_input_bstring_read din =
     (if ch_dns_data_input_read_over din 1 then ((None, 0), din)
      else
        let (len, din) = ch_dns_data_input_uint8_read din
        in ((Some (dpos din), len), ch_dns_data_input_pos_update din (unat len)))"

text \<open>A copy of \<open>dlen\<close> bytes of the packet, with a zero behind them.\<close>

definition ch_dns_data_copy :: "bytes \<Rightarrow> nat \<Rightarrow> nat \<Rightarrow> bytes res" where
  "ch_dns_data_copy mem data dlen =
     (if data + dlen \<le> length mem then Inr (take dlen (drop data mem) @ [0]) else Inl Out_Of_Bounds)"

text \<open>What is left is taken before the length itself is read.\<close>

definition ch_dns_data_input_bstring_read_dup :: "ch_dns_data_input \<Rightarrow> (bytes option \<times> ch_dns_data_input) res" where
  "ch_dns_data_input_bstring_read_dup din =
     (if ch_dns_data_input_read_over din 1 then Inr (None, din)
      else
        let rdlen = nat (ch_dns_data_input_rdlen din);
            (l, din) = ch_dns_data_input_uint8_read din;
            dlen = (if rdlen < unat l then rdlen else unat l);
            data = dpos din
        in bind_res (ch_dns_data_copy (dmem din) data dlen) (\<lambda>blk.
             Inr (Some blk, ch_dns_data_input_pos_update din dlen)))"

text \<open>
  The difference of pointers becomes a \<^verbatim>\<open>size_t\<close>. The position is moved before the bytes are copied.
\<close>

definition ch_dns_data_input_bytes_read :: "ch_dns_data_input \<Rightarrow> nat \<Rightarrow> (bytes option \<times> ch_dns_data_input) res" where
  "ch_dns_data_input_bytes_read din bytes =
     (let rdlen = nat (ch_dns_data_input_rdlen din mod 2 ^ 64);
          r_bytes = (if rdlen < bytes then rdlen else bytes)
      in if r_bytes = 0 then Inr (None, din)
         else
           let din = ch_dns_data_input_pos_update din r_bytes
           in bind_res (ch_dns_data_copy (dmem din) (dpos din) r_bytes) (\<lambda>blk. Inr (Some blk, din)))"

definition ch_dns_data_input_rbytes_read :: "ch_dns_data_input \<Rightarrow> (bytes option \<times> ch_dns_data_input) res" where
  "ch_dns_data_input_rbytes_read din =
     (let data = dpos din;
          dlen = nat (ch_dns_data_input_rdlen din mod 2 ^ 64)
      in if dlen = 0 then Inr (None, din)
         else bind_res (ch_dns_data_copy (dmem din) data dlen) (\<lambda>blk. Inr (Some blk, din\<lparr>dpos := dlast din\<rparr>)))"

text \<open>Whether the macro lets the function go on.\<close>

definition CH_DNS_DLEN_CHECK :: "nat \<Rightarrow> ch_dns_data_input \<Rightarrow> bool" where
  "CH_DNS_DLEN_CHECK vvv din \<longleftrightarrow> \<not> (vvv > 512 \<or> int vvv > ch_dns_data_input_rdlen din mod 2 ^ 64)"

lemmas din_macros = ch_dns_data_input_init_def ch_dns_data_input_pos_update_def ch_dns_data_input_read_over_def
  ch_dns_data_input_rdlen_def ch_dns_data_input_empty_def

section \<open>Domain names\<close>

definition DNS_NAME_MAXLEN :: nat where "DNS_NAME_MAXLEN = 255"

text \<open>\<open>ndata\<close> is a block that ends with a zero.\<close>

record ch_dns_name =
  ndata :: "bytes option"
  name_length :: u16
  name_labels :: u16

definition CH_DNS_NAME_INIT :: ch_dns_name where
  "CH_DNS_NAME_INIT = \<lparr>ndata = None, name_length = 0, name_labels = 0\<rparr>"

datatype fw_state = fw_start | fw_ordinary | fw_newcurrent

text \<open>The variables of the loop; \<open>ns_ndata\<close> is what has been written to \<^verbatim>\<open>tmp_data\<close>.\<close>

record name_st =
  ns_current :: nat
  ns_state :: fw_state
  ns_n :: nat
  ns_labels :: nat
  ns_nused :: nat
  ns_len :: nat
  ns_ndata :: bytes
  ns_new_current :: nat
  ns_biggest :: nat
  ns_seen :: bool
  ns_cused :: nat
  ns_done :: bool

definition ndata_put :: "name_st \<Rightarrow> u8 \<Rightarrow> name_st res" where
  "ndata_put s b = (if length (ns_ndata s) < DNS_NAME_MAXLEN then Inr (s\<lparr>ns_ndata := ns_ndata s @ [b]\<rparr>) else Inl Out_Of_Bounds)"

text \<open>One turn of the loop on the byte \<open>b\<close>; \<open>None\<close> is the return of -1.\<close>

definition name_step :: "nat \<Rightarrow> name_st \<Rightarrow> u8 \<Rightarrow> name_st option res" where
  "name_step nmax s0 b =
     (let c = unat b;
          s = s0\<lparr>ns_current := ns_current s0 + 1, ns_cused := (if ns_seen s0 then ns_cused s0 else ns_cused s0 + 1)\<rparr>
      in case ns_state s of
           fw_start \<Rightarrow>
             if c < 64 then
               let labels = (if c \<noteq> 0 then ns_labels s + 1 else ns_labels s)
               in if ns_nused s + c + 1 > nmax then Inr None
                  else
                    let s = s\<lparr>ns_labels := labels, ns_nused := ns_nused s + c + 1, ns_len := ns_len s + c\<rparr>
                    in bind_res (if labels \<noteq> 1 \<and> c \<noteq> 0 then ndata_put (s\<lparr>ns_len := ns_len s + 1\<rparr>) 46 else Inr s) (\<lambda>s.
                         Inr (Some (s\<lparr>ns_done := (c = 0), ns_n := c, ns_state := fw_ordinary\<rparr>)))
             else if 128 \<le> c \<and> c < 192 then Inr None
             else if 192 \<le> c then Inr (Some (s\<lparr>ns_new_current := unat (b AND 0x3F), ns_state := fw_newcurrent\<rparr>))
             else Inr None
         | fw_ordinary \<Rightarrow>
             bind_res (ndata_put s b) (\<lambda>s.
               Inr (Some (s\<lparr>ns_n := ns_n s - 1, ns_state := (if ns_n s - 1 = 0 then fw_start else fw_ordinary)\<rparr>)))
         | fw_newcurrent \<Rightarrow>
             let nc = ns_new_current s * 256 + c
             in if nc \<ge> ns_biggest s then Inr None
                else Inr (Some (s\<lparr>ns_new_current := nc, ns_biggest := nc, ns_current := nc, ns_seen := True, ns_state := fw_start\<rparr>)))"

lemma name_step_measure:
  assumes "name_step nmax s b = Inr (Some s')"
  shows "ns_biggest s' < ns_biggest s \<or> ns_biggest s' = ns_biggest s \<and> ns_current s' = ns_current s + 1"
  using assms
  by (auto simp: name_step_def Let_def ndata_put_def bind_res_eq_Inr split: fw_state.splits if_splits)

function name_loop :: "bytes \<Rightarrow> nat \<Rightarrow> nat \<Rightarrow> name_st \<Rightarrow> name_st option res" where
  "name_loop mem l nmax s =
     (if ns_current s < l \<and> \<not> ns_done s then
        if ns_current s < length mem then
          case name_step nmax s (mem ! ns_current s) of
            Inl e \<Rightarrow> Inl e
          | Inr None \<Rightarrow> Inr None
          | Inr (Some s') \<Rightarrow> name_loop mem l nmax s'
        else Inl Out_Of_Bounds
      else Inr (Some s))"
  by pat_completeness auto

termination
proof (relation "measures [\<lambda>(mem, l, nmax, s). ns_biggest s, \<lambda>(mem, l, nmax, s). l - ns_current s]", goal_cases)
  case (2 mem l nmax s x2 s')
  then show ?case using name_step_measure [of nmax s "mem ! ns_current s" s'] by auto
qed simp

declare name_loop.simps [simp del]

text \<open>The most bytes that are taken, and the variables before the loop.\<close>

definition name_max :: "ch_dns_data_input \<Rightarrow> nat" where
  "name_max din = (if dlast din > DNS_NAME_MAXLEN then DNS_NAME_MAXLEN else dlast din)"

definition name_start :: "ch_dns_data_input \<Rightarrow> name_st" where
  "name_start din = \<lparr>ns_current = dpos din, ns_state = fw_start, ns_n = 0, ns_labels = 0, ns_nused = 0, ns_len = 0, ns_ndata = [],
     ns_new_current = 0, ns_biggest = dpos din, ns_seen = False, ns_cused = 0, ns_done = False\<rparr>"

definition ch_dns_name_parse :: "ch_dns_data_input \<Rightarrow> (ch_dns_name \<times> ch_dns_data_input) option res" where
  "ch_dns_name_parse din =
     bind_res (name_loop (dmem din) (dlast din) (name_max din) (name_start din)) (\<lambda>r.
       case r of
         None \<Rightarrow> Inr None
       | Some s \<Rightarrow>
           if \<not> ns_done s then Inr None
           else if length (ns_ndata s) \<ge> DNS_NAME_MAXLEN then Inl Out_Of_Bounds
           else Inr (Some (\<lparr>ndata = Some (takeWhile (\<lambda>b. b \<noteq> 0) (ns_ndata s) @ [0]), name_length = of_nat (ns_len s),
                            name_labels = of_nat (ns_labels s)\<rparr>,
                           ch_dns_data_input_pos_update din (ns_cused s))))"

text \<open>\<^verbatim>\<open>ch_pstrndup\<close> copies up to the zero.\<close>

definition ch_pstrndup :: "bytes option \<Rightarrow> nat \<Rightarrow> bytes option res" where
  "ch_pstrndup s n =
     (case s of
        None \<Rightarrow> Inr None
      | Some s \<Rightarrow>
          if 0 \<in> set (take n s) then Inr (Some (takeWhile (\<lambda>b. b \<noteq> 0) s @ [0]))
          else if n \<le> length s then Inr (Some (take n s @ [0])) else Inl Out_Of_Bounds)"

definition ch_dns_name_clone :: "ch_dns_name \<Rightarrow> ch_dns_name res" where
  "ch_dns_name_clone src = bind_res (ch_pstrndup (ndata src) (unat (name_length src))) (\<lambda>d. Inr (src\<lparr>ndata := d\<rparr>))"

definition ch_dns_name_store_wkey :: "ch_dns_name \<Rightarrow> ch_msgpack_store \<Rightarrow> string \<Rightarrow> ch_msgpack_store res" where
  "ch_dns_name_store_wkey name d k =
     (let d = ch_msgpack_store_map_start d (Some k) 2;
          d = ch_msgpack_store_write_uint16 d (Some ''labels'') (name_labels name)
      in ch_msgpack_store_write_str_wlen d ''name'' (ndata name) (ucast (name_length name)))"

definition ch_dns_name_store :: "ch_dns_name \<Rightarrow> ch_msgpack_store \<Rightarrow> ch_msgpack_store res" where
  "ch_dns_name_store name d =
     (let d = ch_msgpack_store_map_start d (Some ''name'') 2;
          d = ch_msgpack_store_write_uint16 d (Some ''labels'') (name_labels name)
      in ch_msgpack_store_write_str_wlen d ''name'' (ndata name) (ucast (name_length name)))"

text \<open>One of the writing macros: \<^verbatim>\<open>-1\<close> ends the function, anything else is added to \<^verbatim>\<open>len\<close>.\<close>

definition dout_then :: "(int \<times> ch_data_output) res \<Rightarrow> int \<Rightarrow> (int \<Rightarrow> ch_data_output \<Rightarrow> (int \<times> ch_data_output) res) \<Rightarrow> (int \<times> ch_data_output) res" where
  "dout_then w len k = bind_res w (\<lambda>(rc, dout). if rc = -1 then Inr (-1, dout) else k (len + rc) dout)"

definition ch_dns_name_write :: "malloc_ok \<Rightarrow> ch_data_output \<Rightarrow> ch_dns_name \<Rightarrow> (int \<times> ch_data_output) res" where
  "ch_dns_name_write mal dout name =
     dout_then (ch_dout_uint16_write mal dout (name_labels name)) 0 (\<lambda>len dout.
     dout_then (ch_dout_string16_write mal dout (ndata name) (name_length name)) len (\<lambda>len dout. Inr (len, dout)))"

section \<open>Names in a packet\<close>

text \<open>
  The labels of the name at offset \<open>p\<close> and the bytes it takes there. A pointer leads to an offset
  below \<open>big\<close>, which is the start of the name or the target of the pointer before.
\<close>

inductive dns_name_at :: "bytes \<Rightarrow> nat \<Rightarrow> nat \<Rightarrow> nat \<Rightarrow> bytes list \<Rightarrow> nat \<Rightarrow> bool" for mem l where
  root: "p < l \<Longrightarrow> mem ! p = 0 \<Longrightarrow> dns_name_at mem l big p [] 1"
| label: "p + k < l \<Longrightarrow> k = unat (mem ! p) \<Longrightarrow> 0 < k \<Longrightarrow> k < 64 \<Longrightarrow> dns_name_at mem l big (p + 1 + k) ls u \<Longrightarrow>
    dns_name_at mem l big p (take k (drop (p + 1) mem) # ls) (1 + k + u)"
| pointer: "p + 1 < l \<Longrightarrow> 192 \<le> unat (mem ! p) \<Longrightarrow> t = unat (mem ! p AND 0x3F) * 256 + unat (mem ! (p + 1)) \<Longrightarrow> t < big \<Longrightarrow>
    dns_name_at mem l t t ls u \<Longrightarrow> dns_name_at mem l big p ls 2"

text \<open>The bytes of the labels with their length bytes and the last one; the text with dots between the labels.\<close>

fun wire_len :: "bytes list \<Rightarrow> nat" where
  "wire_len [] = 1"
| "wire_len (x # ls) = 1 + length x + wire_len ls"

fun dotted :: "bool \<Rightarrow> bytes list \<Rightarrow> bytes" where
  "dotted fr [] = []"
| "dotted fr (x # ls) = (if fr then [] else [46]) @ x @ dotted False ls"

definition name_of_labels :: "bytes list \<Rightarrow> ch_dns_name" where
  "name_of_labels ls = \<lparr>ndata = Some (takeWhile (\<lambda>b. b \<noteq> 0) (dotted True ls) @ [0]), name_length = of_nat (length (dotted True ls)),
     name_labels = of_nat (length ls)\<rparr>"

lemma length_dotted:
  "ls \<noteq> [] \<Longrightarrow> length (dotted fr ls) + 1 + (if fr then 1 else 0) = wire_len ls"
proof (induction ls arbitrary: fr)
  case (Cons x ls)
  then show ?case by (cases ls) auto
qed simp

text \<open>The loop copies a label byte by byte.\<close>

lemma name_loop_label:
  assumes "ns_state s = fw_ordinary" "\<not> ns_done s" "0 < ns_n s" "length (ns_ndata s) + ns_n s \<le> 255" "l \<le> length mem"
    "ns_current s + ns_n s \<le> l"
  shows "name_loop mem l nmax s = name_loop mem l nmax (s\<lparr>ns_current := ns_current s + ns_n s,
    ns_cused := (if ns_seen s then ns_cused s else ns_cused s + ns_n s),
    ns_ndata := ns_ndata s @ take (ns_n s) (drop (ns_current s) mem), ns_n := 0, ns_state := fw_start\<rparr>)"
  using assms
proof (induction "ns_n s - 1" arbitrary: s)
  case 0
  then have "ns_n s = 1" by simp
  with 0 show ?case
    by (subst name_loop.simps) (simp add: name_step_def Let_def ndata_put_def DNS_NAME_MAXLEN_def take_Suc_conv_app_nth)
next
  case (Suc k)
  define s' where "s' = s\<lparr>ns_current := ns_current s + 1, ns_cused := (if ns_seen s then ns_cused s else ns_cused s + 1),
    ns_ndata := ns_ndata s @ [mem ! ns_current s], ns_n := ns_n s - 1, ns_state := fw_ordinary\<rparr>"
  have "1 < ns_n s" using Suc.hyps(2) by simp
  then have step: "name_loop mem l nmax s = name_loop mem l nmax s'"
    using Suc.prems
    by (subst name_loop.simps) (simp add: name_step_def Let_def ndata_put_def DNS_NAME_MAXLEN_def s'_def)
  have tk: "take (ns_n s) (drop (ns_current s) mem) = mem ! ns_current s # take (ns_n s - 1) (drop (ns_current s + 1) mem)"
    using Suc.prems Suc.hyps(2) by (cases "ns_n s") (auto simp: Cons_nth_drop_Suc [symmetric])
  have "name_loop mem l nmax s' = name_loop mem l nmax (s'\<lparr>ns_current := ns_current s' + ns_n s',
    ns_cused := (if ns_seen s' then ns_cused s' else ns_cused s' + ns_n s'),
    ns_ndata := ns_ndata s' @ take (ns_n s') (drop (ns_current s') mem), ns_n := 0, ns_state := fw_start\<rparr>)"
    using Suc.prems Suc.hyps(2) by (intro Suc.hyps(1)) (auto simp: s'_def)
  then show ?case
    unfolding step using Suc.prems Suc.hyps(2) tk by (simp add: s'_def)
qed

lemma name_loop_label_cut:
  assumes "ns_state s = fw_ordinary" "\<not> ns_done s" "length (ns_ndata s) + ns_n s \<le> 255" "l \<le> length mem" "ns_current s \<le> l"
    "ns_current s + ns_n s > l"
  shows "\<exists>s'. name_loop mem l nmax s = Inr (Some s') \<and> \<not> ns_done s'"
  using assms
proof (induction "l - ns_current s" arbitrary: s)
  case 0
  then show ?case by (subst name_loop.simps) auto
next
  case (Suc k)
  define s' where "s' = s\<lparr>ns_current := ns_current s + 1, ns_cused := (if ns_seen s then ns_cused s else ns_cused s + 1),
    ns_ndata := ns_ndata s @ [mem ! ns_current s], ns_n := ns_n s - 1, ns_state := fw_ordinary\<rparr>"
  have "ns_current s < l" using Suc.hyps(2) by simp
  then have "name_loop mem l nmax s = name_loop mem l nmax s'"
    using Suc.prems
    by (subst name_loop.simps) (simp add: name_step_def Let_def ndata_put_def DNS_NAME_MAXLEN_def s'_def)
  moreover have "\<exists>s''. name_loop mem l nmax s' = Inr (Some s'') \<and> \<not> ns_done s''"
    using Suc.prems Suc.hyps(2) by (intro Suc.hyps(1)) (auto simp: s'_def)
  ultimately show ?case by simp
qed

text \<open>The state between two labels.\<close>

definition at_label :: "nat \<Rightarrow> name_st \<Rightarrow> bool" where
  "at_label nmax s \<longleftrightarrow> ns_state s = fw_start \<and> \<not> ns_done s \<and> ns_nused s \<le> nmax \<and> nmax \<le> 255 \<and>
     (if ns_labels s = 0 then ns_nused s = 0 \<and> ns_ndata s = [] else length (ns_ndata s) + 1 = ns_nused s) \<and> ns_len s = length (ns_ndata s)"

text \<open>What a turn on a length byte, and the label behind it, do to such a state.\<close>

definition after_label :: "name_st \<Rightarrow> bytes \<Rightarrow> name_st" where
  "after_label s x = s\<lparr>ns_current := ns_current s + 1 + length x, ns_cused := (if ns_seen s then ns_cused s else ns_cused s + 1 + length x),
     ns_labels := ns_labels s + 1, ns_nused := ns_nused s + length x + 1,
     ns_len := ns_len s + length x + (if ns_labels s = 0 then 0 else 1),
     ns_ndata := ns_ndata s @ (if ns_labels s = 0 then [] else [46]) @ x, ns_n := 0, ns_state := fw_start\<rparr>"

lemma at_label_after:
  "at_label nmax s \<Longrightarrow> ns_nused s + length x + 1 \<le> nmax \<Longrightarrow> at_label nmax (after_label s x)"
  by (auto simp: at_label_def after_label_def split: if_splits)

lemma name_loop_one_label:
  assumes "at_label nmax s" "k = unat (mem ! ns_current s)" "0 < k" "k < 64" "l \<le> length mem" "ns_current s < l"
    "ns_nused s + k + 1 \<le> nmax"
  shows "ns_current s + k < l \<Longrightarrow>
      name_loop mem l nmax s = name_loop mem l nmax (after_label s (take k (drop (ns_current s + 1) mem)))"
    and "l \<le> ns_current s + k \<Longrightarrow> \<exists>s'. name_loop mem l nmax s = Inr (Some s') \<and> \<not> ns_done s'"
proof -
  define s' where "s' = s\<lparr>ns_current := ns_current s + 1, ns_cused := (if ns_seen s then ns_cused s else ns_cused s + 1),
     ns_labels := ns_labels s + 1, ns_nused := ns_nused s + k + 1, ns_len := ns_len s + k + (if ns_labels s = 0 then 0 else 1),
     ns_ndata := ns_ndata s @ (if ns_labels s = 0 then [] else [46]), ns_n := k, ns_state := fw_ordinary\<rparr>"
  have s: "ns_state s = fw_start" "\<not> ns_done s" "nmax \<le> 255" "ns_labels s \<noteq> 0 \<Longrightarrow> length (ns_ndata s) + 1 = ns_nused s"
    "ns_labels s = 0 \<Longrightarrow> ns_ndata s = []"
    using assms(1) by (auto simp: at_label_def split: if_splits)
  have "name_step nmax s (mem ! ns_current s) = Inr (Some s')"
    using s assms by (cases "ns_labels s = 0") (auto simp: name_step_def Let_def ndata_put_def DNS_NAME_MAXLEN_def s'_def)
  then have step: "name_loop mem l nmax s = name_loop mem l nmax s'"
    using s assms by (subst name_loop.simps) simp
  have s': "ns_state s' = fw_ordinary" "\<not> ns_done s'" "ns_n s' = k" "length (ns_ndata s') + ns_n s' \<le> 255"
    "ns_current s' = ns_current s + 1"
    using s assms by (cases "ns_labels s = 0"; simp add: s'_def)+
  show "name_loop mem l nmax s = name_loop mem l nmax (after_label s (take k (drop (ns_current s + 1) mem)))"
    if "ns_current s + k < l"
  proof -
    let ?t = "s'\<lparr>ns_current := ns_current s' + ns_n s',
      ns_cused := (if ns_seen s' then ns_cused s' else ns_cused s' + ns_n s'),
      ns_ndata := ns_ndata s' @ take (ns_n s') (drop (ns_current s') mem), ns_n := 0, ns_state := fw_start\<rparr>"
    have "?t = after_label s (take k (drop (ns_current s + 1) mem))"
      using that assms(5) by (intro name_st.equality) (simp_all add: s'_def after_label_def)
    then show ?thesis
      unfolding step using name_loop_label [of s' l mem nmax] s' that assms(3,5) by simp
  qed
  show "\<exists>s'. name_loop mem l nmax s = Inr (Some s') \<and> \<not> ns_done s'" if "l \<le> ns_current s + k"
    unfolding step using name_loop_label_cut [of s' l mem nmax] s' that assms(5,6) by simp
qed

text \<open>And what the two bytes of a pointer do.\<close>

definition after_pointer :: "name_st \<Rightarrow> nat \<Rightarrow> name_st" where
  "after_pointer s t = s\<lparr>ns_current := t, ns_cused := (if ns_seen s then ns_cused s else ns_cused s + 2), ns_state := fw_start,
     ns_new_current := t, ns_biggest := t, ns_seen := True\<rparr>"

lemma at_label_pointer: "at_label nmax s \<Longrightarrow> at_label nmax (after_pointer s t)"
  by (auto simp: at_label_def after_pointer_def)

lemma name_loop_pointer:
  assumes "at_label nmax s" "192 \<le> unat (mem ! ns_current s)" "l \<le> length mem" "ns_current s < l"
    "t = unat (mem ! ns_current s AND 0x3F) * 256 + unat (mem ! (ns_current s + 1))"
  shows "name_loop mem l nmax s =
    (if l \<le> ns_current s + 1 then Inr (Some (s\<lparr>ns_current := ns_current s + 1, ns_cused := (if ns_seen s then ns_cused s else ns_cused s + 1),
        ns_new_current := unat (mem ! ns_current s AND 0x3F), ns_state := fw_newcurrent\<rparr>))
     else if ns_biggest s \<le> t then Inr None else name_loop mem l nmax (after_pointer s t))"
proof -
  define s' where "s' = s\<lparr>ns_current := ns_current s + 1, ns_cused := (if ns_seen s then ns_cused s else ns_cused s + 1),
    ns_new_current := unat (mem ! ns_current s AND 0x3F), ns_state := fw_newcurrent\<rparr>"
  have s: "ns_state s = fw_start" "\<not> ns_done s" using assms(1) by (auto simp: at_label_def)
  have 1: "name_loop mem l nmax s = name_loop mem l nmax s'"
    using s assms by (subst name_loop.simps) (simp add: name_step_def Let_def s'_def)
  have 2: "name_loop mem l nmax s' = Inr (Some s')" if "l \<le> ns_current s + 1"
    using that by (subst name_loop.simps) (simp add: s'_def)
  let ?t = "s'\<lparr>ns_current := t, ns_cused := (if ns_seen s' then ns_cused s' else ns_cused s' + 1), ns_new_current := t, ns_biggest := t,
     ns_seen := True, ns_state := fw_start\<rparr>"
  have "?t = after_pointer s t"
    by (intro name_st.equality) (simp_all add: s'_def after_pointer_def)
  moreover have "name_step nmax s' (mem ! ns_current s') = (if ns_biggest s \<le> t then Inr None else Inr (Some ?t))"
    using assms(5) by (auto simp: name_step_def Let_def s'_def)
  ultimately have 3: "name_loop mem l nmax s' = (if ns_biggest s \<le> t then Inr None else name_loop mem l nmax (after_pointer s t))"
    if "ns_current s + 1 < l"
    using that s assms(3) by (subst name_loop.simps) (simp add: s'_def)
  show ?thesis
    unfolding 1 using 2 3 by (cases "l \<le> ns_current s + 1") (simp_all add: s'_def)
qed

text \<open>The last length byte.\<close>

lemma name_loop_root:
  assumes "at_label nmax s" "mem ! ns_current s = 0" "l \<le> length mem" "ns_current s < l" "ns_nused s + 1 \<le> nmax"
  shows "\<exists>s'. name_loop mem l nmax s = Inr (Some s') \<and> ns_done s' \<and> ns_ndata s' = ns_ndata s \<and> ns_len s' = ns_len s \<and>
    ns_labels s' = ns_labels s \<and> ns_cused s' = ns_cused s + (if ns_seen s then 0 else 1)"
proof -
  let ?s = "s\<lparr>ns_current := ns_current s + 1, ns_cused := (if ns_seen s then ns_cused s else ns_cused s + 1),
    ns_labels := ns_labels s, ns_nused := ns_nused s + 1, ns_len := ns_len s, ns_done := True, ns_n := 0, ns_state := fw_ordinary\<rparr>"
  have s: "ns_state s = fw_start" "\<not> ns_done s" using assms(1) by (auto simp: at_label_def)
  have "name_step nmax s (mem ! ns_current s) = Inr (Some ?s)"
    using s assms by (simp add: name_step_def Let_def)
  then have "name_loop mem l nmax s = name_loop mem l nmax ?s"
    using s assms by (subst name_loop.simps) (simp split del: if_split)
  also have "\<dots> = Inr (Some ?s)" by (subst name_loop.simps) simp
  finally show ?thesis by simp
qed

lemma name_loop_complete:
  assumes "dns_name_at mem l big p ls u" "l \<le> length mem"
  shows "at_label nmax s \<Longrightarrow> ns_current s = p \<Longrightarrow> ns_biggest s = big \<Longrightarrow> ns_nused s + wire_len ls \<le> nmax \<Longrightarrow>
    \<exists>s'. name_loop mem l nmax s = Inr (Some s') \<and> ns_done s' \<and> ns_ndata s' = ns_ndata s @ dotted (ns_labels s = 0) ls \<and>
      ns_len s' = length (ns_ndata s') \<and> ns_labels s' = ns_labels s + length ls \<and> ns_cused s' = ns_cused s + (if ns_seen s then 0 else u)"
  using assms
proof (induction arbitrary: s rule: dns_name_at.induct)
  case (root p big)
  then obtain s' where "name_loop mem l nmax s = Inr (Some s')" "ns_done s'" "ns_ndata s' = ns_ndata s" "ns_len s' = ns_len s"
    "ns_labels s' = ns_labels s" "ns_cused s' = ns_cused s + (if ns_seen s then 0 else 1)"
    using name_loop_root [of nmax s mem l] by auto
  moreover have "ns_len s = length (ns_ndata s)" using root by (simp add: at_label_def)
  ultimately show ?case by auto
next
  case (label p k big ls u)
  let ?x = "take k (drop (p + 1) mem)"
  have x: "length ?x = k" using label by simp
  have eq: "name_loop mem l nmax s = name_loop mem l nmax (after_label s ?x)"
    using name_loop_one_label(1) [of nmax s k mem l] label by simp
  have "\<exists>s'. name_loop mem l nmax (after_label s ?x) = Inr (Some s') \<and> ns_done s' \<and>
      ns_ndata s' = ns_ndata (after_label s ?x) @ dotted (ns_labels (after_label s ?x) = 0) ls \<and>
      ns_len s' = length (ns_ndata s') \<and> ns_labels s' = ns_labels (after_label s ?x) + length ls \<and>
      ns_cused s' = ns_cused (after_label s ?x) + (if ns_seen (after_label s ?x) then 0 else u)"
    using label.prems x at_label_after [of nmax s ?x]
    by (intro label.IH) (auto simp: after_label_def)
  then show ?case unfolding eq using x by (auto simp: after_label_def)
next
  case (pointer p t big ls u)
  have eq: "name_loop mem l nmax s = name_loop mem l nmax (after_pointer s t)"
    using name_loop_pointer [of nmax s mem l t] pointer by simp
  have "\<exists>s'. name_loop mem l nmax (after_pointer s t) = Inr (Some s') \<and> ns_done s' \<and>
      ns_ndata s' = ns_ndata (after_pointer s t) @ dotted (ns_labels (after_pointer s t) = 0) ls \<and>
      ns_len s' = length (ns_ndata s') \<and> ns_labels s' = ns_labels (after_pointer s t) + length ls \<and>
      ns_cused s' = ns_cused (after_pointer s t) + (if ns_seen (after_pointer s t) then 0 else u)"
    using pointer.prems at_label_pointer by (intro pointer.IH) (auto simp: after_pointer_def)
  then show ?case unfolding eq by (auto simp: after_pointer_def)
qed

lemma name_loop_sound:
  assumes "l \<le> length mem"
  shows "at_label nmax s \<Longrightarrow> \<exists>r. name_loop mem l nmax s = Inr r \<and> (\<forall>s'. r = Some s' \<longrightarrow> ns_done s' \<longrightarrow>
    (\<exists>ls u. dns_name_at mem l (ns_biggest s) (ns_current s) ls u \<and> ns_nused s + wire_len ls \<le> nmax))"
proof (induction s rule: wf_induct_rule [OF wf_measures [of "[ns_biggest, \<lambda>s. l - ns_current s]"]])
  case (1 s)
  note IH = 1(1) and al = 1(2)
  let ?c = "unat (mem ! ns_current s)"
  have stuck: ?case if "name_loop mem l nmax s = Inr None \<or> (\<exists>s'. name_loop mem l nmax s = Inr (Some s') \<and> \<not> ns_done s')"
    using that by auto
  have s: "ns_state s = fw_start" "\<not> ns_done s" using al by (auto simp: at_label_def)
  consider (over) "l \<le> ns_current s" | (root) "ns_current s < l" "?c = 0" | (label) "ns_current s < l" "0 < ?c" "?c < 64"
    | (bad) "ns_current s < l" "64 \<le> ?c" "?c < 192" | (pointer) "ns_current s < l" "192 \<le> ?c" by linarith
  then show ?case
  proof cases
    case over
    then show ?thesis using s by (intro stuck) (subst (1 2) name_loop.simps, simp)
  next
    case root
    then have z: "mem ! ns_current s = 0" by (simp add: unat_eq_zero)
    show ?thesis
    proof (cases "ns_nused s + 1 \<le> nmax")
      case True
      then show ?thesis using name_loop_root [OF al z assms root(1)] dns_name_at.root [of "ns_current s" l mem, OF root(1) z] by fastforce
    next
      case False
      have "name_loop mem l nmax s = Inr None"
        using False root z s assms by (subst name_loop.simps) (simp add: name_step_def Let_def)
      then show ?thesis by (intro stuck) simp
    qed
  next
    case label
    let ?x = "take ?c (drop (ns_current s + 1) mem)"
    show ?thesis
    proof (cases "ns_nused s + ?c + 1 \<le> nmax")
      case True
      show ?thesis
      proof (cases "ns_current s + ?c < l")
        case in_l: True
        then have x: "length ?x = ?c" using assms by simp
        have eq: "name_loop mem l nmax s = name_loop mem l nmax (after_label s ?x)"
          using name_loop_one_label(1) [OF al refl label(2,3) assms label(1) True in_l] .
        have "(after_label s ?x, s) \<in> measures [ns_biggest, \<lambda>s. l - ns_current s]"
          using x in_l by (simp add: after_label_def)
        from IH [OF this at_label_after [OF al]] True x obtain r where
          r: "name_loop mem l nmax (after_label s ?x) = Inr r"
          "\<forall>s'. r = Some s' \<longrightarrow> ns_done s' \<longrightarrow> (\<exists>ls u. dns_name_at mem l (ns_biggest (after_label s ?x)) (ns_current (after_label s ?x)) ls u \<and>
             ns_nused (after_label s ?x) + wire_len ls \<le> nmax)" by auto
        show ?thesis
        proof (intro exI [of _ r] conjI allI impI)
          show "name_loop mem l nmax s = Inr r" using eq r(1) by simp
          fix s' assume "r = Some s'" "ns_done s'"
          with r(2) x obtain ls u where "dns_name_at mem l (ns_biggest s) (ns_current s + 1 + ?c) ls u"
            "ns_nused s + ?c + 1 + wire_len ls \<le> nmax" by (auto simp: after_label_def)
          then have "dns_name_at mem l (ns_biggest s) (ns_current s) (?x # ls) (1 + ?c + u)" "ns_nused s + wire_len (?x # ls) \<le> nmax"
            using dns_name_at.label [OF in_l refl label(2,3)] x by auto
          then show "\<exists>ls u. dns_name_at mem l (ns_biggest s) (ns_current s) ls u \<and> ns_nused s + wire_len ls \<le> nmax" by blast
        qed
      next
        case False
        then show ?thesis using name_loop_one_label(2) [OF al refl label(2,3) assms label(1) True] by (intro stuck) simp
      qed
    next
      case False
      have "name_loop mem l nmax s = Inr None"
        using False label s assms by (subst name_loop.simps) (simp add: name_step_def Let_def)
      then show ?thesis by (intro stuck) simp
    qed
  next
    case bad
    have "name_loop mem l nmax s = Inr None"
      using bad s assms by (subst name_loop.simps) (simp add: name_step_def Let_def)
    then show ?thesis by (intro stuck) simp
  next
    case pointer
    define t where "t = unat (mem ! ns_current s AND 0x3F) * 256 + unat (mem ! (ns_current s + 1))"
    note eq = name_loop_pointer [OF al pointer(2) assms pointer(1) t_def]
    show ?thesis
    proof (cases "ns_current s + 1 < l \<and> t < ns_biggest s")
      case True
      then have "(after_pointer s t, s) \<in> measures [ns_biggest, \<lambda>s. l - ns_current s]" by (simp add: after_pointer_def)
      from IH [OF this at_label_pointer [OF al]] obtain r where
        r: "name_loop mem l nmax (after_pointer s t) = Inr r"
        "\<forall>s'. r = Some s' \<longrightarrow> ns_done s' \<longrightarrow> (\<exists>ls u. dns_name_at mem l t t ls u \<and> ns_nused s + wire_len ls \<le> nmax)"
        by (auto simp: after_pointer_def)
      then show ?thesis using eq True dns_name_at.pointer [OF _ pointer(2) t_def] by fastforce
    next
      case False
      then show ?thesis using eq s by (intro stuck) auto
    qed
  qed
qed

lemma parse_start: "at_label (name_max d) (name_start d)"
  by (simp add: at_label_def DNS_NAME_MAXLEN_def name_max_def name_start_def)

lemma name_max: "name_max d = min 255 (dlast d)"
  by (simp add: name_max_def DNS_NAME_MAXLEN_def)

lemma dotted_short: "wire_len ls \<le> 255 \<Longrightarrow> length (dotted True ls) < 254"
  using length_dotted [of ls True] by (cases ls) auto

lemma name_parse_at:
  assumes "dlast d \<le> length (dmem d)" "dns_name_at (dmem d) (dlast d) (dpos d) (dpos d) ls u" "wire_len ls \<le> min 255 (dlast d)"
  shows "ch_dns_name_parse d = Inr (Some (name_of_labels ls, d\<lparr>dpos := dpos d + u\<rparr>))"
proof -
  from name_loop_complete [OF assms(2,1) parse_start [of d]] assms(3) obtain s' where
    s': "name_loop (dmem d) (dlast d) (name_max d) (name_start d) = Inr (Some s')"
    "ns_done s'" "ns_ndata s' = dotted True ls" "ns_len s' = length (dotted True ls)" "ns_labels s' = length ls" "ns_cused s' = u"
    by (auto simp: name_start_def name_max)
  have "length (dotted True ls) < 254" using assms(3) dotted_short by simp
  then show ?thesis
    using s' by (simp add: ch_dns_name_parse_def Let_def name_of_labels_def DNS_NAME_MAXLEN_def din_macros)
qed

lemma name_parse_cases:
  assumes "dlast d \<le> length (dmem d)"
  obtains (fails) "ch_dns_name_parse d = Inr None"
    "\<nexists>ls u. dns_name_at (dmem d) (dlast d) (dpos d) (dpos d) ls u \<and> wire_len ls \<le> min 255 (dlast d)"
  | (parses) ls u where "ch_dns_name_parse d = Inr (Some (name_of_labels ls, d\<lparr>dpos := dpos d + u\<rparr>))"
    "dns_name_at (dmem d) (dlast d) (dpos d) (dpos d) ls u" "wire_len ls \<le> min 255 (dlast d)"
proof (cases "\<exists>ls u. dns_name_at (dmem d) (dlast d) (dpos d) (dpos d) ls u \<and> wire_len ls \<le> min 255 (dlast d)")
  case True
  then show ?thesis using name_parse_at [OF assms] parses by blast
next
  case False
  from name_loop_sound [OF assms parse_start [of d]] obtain r where
    r: "name_loop (dmem d) (dlast d) (name_max d) (name_start d) = Inr r"
    "\<forall>s'. r = Some s' \<longrightarrow> \<not> ns_done s'"
    using False by (auto simp: name_start_def name_max)
  then have "ch_dns_name_parse d = Inr None"
    by (cases r) (auto simp: ch_dns_name_parse_def Let_def)
  then show ?thesis using False fails by blast
qed

lemma dns_name_at_inside: "dns_name_at mem l big p ls u \<Longrightarrow> p + u \<le> l \<and> 0 < u"
  by (induction rule: dns_name_at.induct) auto

section \<open>The theorems\<close>

text \<open>
  C22. The parser of domain names returns on every packet without leaving the packet or its own buffer, and it
  accepts exactly the names that the packet has at the position, through pointers that lead
  to ever smaller offsets, of at most 255 bytes: the result is the labels with dots between them, and the position
  moves behind the name or behind its first pointer.
\<close>

theorem ch_dns_name_parse_correct:
  assumes "dlast d \<le> length (dmem d)"
  shows "\<exists>r. ch_dns_name_parse d = Inr r \<and> (\<forall>nm d'. r = Some (nm, d') \<longleftrightarrow>
    (\<exists>ls u. dns_name_at (dmem d) (dlast d) (dpos d) (dpos d) ls u \<and> wire_len ls \<le> min 255 (dlast d) \<and>
       nm = name_of_labels ls \<and> d' = d\<lparr>dpos := dpos d + u\<rparr>))"
  using assms
proof (cases rule: name_parse_cases)
  case fails
  then show ?thesis by auto
next
  case (parses ls u)
  show ?thesis
  proof (rule exI [of _ "Some (name_of_labels ls, d\<lparr>dpos := dpos d + u\<rparr>)"], rule conjI [OF parses(1)], intro allI iffI)
    fix nm d'
    assume "Some (name_of_labels ls, d\<lparr>dpos := dpos d + u\<rparr>) = Some (nm, d')"
    with parses(2,3) show "\<exists>ls u. dns_name_at (dmem d) (dlast d) (dpos d) (dpos d) ls u \<and> wire_len ls \<le> min 255 (dlast d) \<and>
        nm = name_of_labels ls \<and> d' = d\<lparr>dpos := dpos d + u\<rparr>" by blast
  next
    fix nm d'
    assume "\<exists>ls u. dns_name_at (dmem d) (dlast d) (dpos d) (dpos d) ls u \<and> wire_len ls \<le> min 255 (dlast d) \<and>
        nm = name_of_labels ls \<and> d' = d\<lparr>dpos := dpos d + u\<rparr>"
    then have "ch_dns_name_parse d = Inr (Some (nm, d'))" using name_parse_at [OF assms] by blast
    with parses(1) show "Some (name_of_labels ls, d\<lparr>dpos := dpos d + u\<rparr>) = Some (nm, d')" by simp
  qed
qed

text \<open>\<^verbatim>\<open>a.bc\<close>, then \<^verbatim>\<open>d\<close> and a pointer to the first name, behind which four bytes follow.\<close>

theorem ch_dns_name_parse_correct_witness:
  "let mem = [1, 97, 2, 98, 99, 0, 1, 100, 192, 0, 1, 2, 3, 4] :: bytes;
       nm = \<lparr>ndata = Some [100, 46, 97, 46, 98, 99, 0], name_length = 6, name_labels = 3\<rparr>
   in ch_dns_name_parse \<lparr>dmem = mem, dpos = 6, dlast = 14\<rparr> = Inr (Some (nm, \<lparr>dmem = mem, dpos = 10, dlast = 14\<rparr>)) \<and>
      (\<exists>ls. dns_name_at mem 14 6 6 ls 4 \<and> nm = name_of_labels ls)"
proof -
  let ?d = "\<lparr>dmem = [1, 97, 2, 98, 99, 0, 1, 100, 192, 0, 1, 2, 3, 4], dpos = 6, dlast = 14\<rparr> :: ch_dns_data_input"
  let ?n = "\<lparr>ndata = Some [100, 46, 97, 46, 98, 99, 0], name_length = 6, name_labels = 3\<rparr> :: ch_dns_name"
  have p: "ch_dns_name_parse ?d = Inr (Some (?n, ?d\<lparr>dpos := 10\<rparr>))" by code_simp
  have "\<exists>ls u. dns_name_at (dmem ?d) (dlast ?d) (dpos ?d) (dpos ?d) ls u \<and> wire_len ls \<le> min 255 (dlast ?d) \<and>
       ?n = name_of_labels ls \<and> ?d\<lparr>dpos := 10\<rparr> = ?d\<lparr>dpos := dpos ?d + u\<rparr>"
  proof -
    from ch_dns_name_parse_correct [of ?d] obtain r where r: "ch_dns_name_parse ?d = Inr r"
      "\<forall>nm d'. r = Some (nm, d') \<longleftrightarrow> (\<exists>ls u. dns_name_at (dmem ?d) (dlast ?d) (dpos ?d) (dpos ?d) ls u \<and>
         wire_len ls \<le> min 255 (dlast ?d) \<and> nm = name_of_labels ls \<and> d' = ?d\<lparr>dpos := dpos ?d + u\<rparr>)" by auto
    then have "r = Some (?n, ?d\<lparr>dpos := 10\<rparr>)" using p by simp
    then show ?thesis using r(2) by blast
  qed
  then obtain ls u where "dns_name_at (dmem ?d) 14 6 6 ls u" "?n = name_of_labels ls" "10 = 6 + u" by auto
  moreover from this(3) have "u = 4" by simp
  ultimately show ?thesis using p by (auto simp: Let_def)
qed

text \<open>The bytes of a name without pointers.\<close>

definition dns_name_bytes :: "bytes list \<Rightarrow> bytes" where
  "dns_name_bytes ls = concat (map (\<lambda>x. of_nat (length x) # x) ls) @ [0]"

lemma dns_name_bytes_simps [simp]:
  "dns_name_bytes [] = [0]" "dns_name_bytes (x # ls) = of_nat (length x) # x @ dns_name_bytes ls"
  by (simp_all add: dns_name_bytes_def)

lemma length_dns_name_bytes: "length (dns_name_bytes ls) = wire_len ls"
  by (induction ls) auto

lemma dns_name_bytes_at:
  "\<forall>x\<in>set ls. x \<noteq> [] \<and> length x < 64 \<Longrightarrow> length pre + wire_len ls \<le> l \<Longrightarrow>
   dns_name_at (pre @ dns_name_bytes ls @ post) l big (length pre) ls (wire_len ls)"
proof (induction ls arbitrary: pre)
  case Nil
  then show ?case using dns_name_at.root [of "length pre" l "pre @ 0 # post" big] by simp
next
  case (Cons x ls)
  let ?mem = "pre @ dns_name_bytes (x # ls) @ post"
  have k: "unat (?mem ! length pre) = length x" using Cons.prems(1) by (simp add: unat_of_nat)
  have "dns_name_at ((pre @ of_nat (length x) # x) @ dns_name_bytes ls @ post) l big (length (pre @ of_nat (length x) # x)) ls (wire_len ls)"
    using Cons.prems by (intro Cons.IH) auto
  then have "dns_name_at ?mem l big (length pre) (take (length x) (drop (length pre + 1) ?mem) # ls) (1 + length x + wire_len ls)"
    using Cons.prems k by (intro dns_name_at.label) (auto simp: add.assoc)
  moreover have "take (length x) (drop (length pre + 1) ?mem) = x" by simp
  ultimately show ?case by simp
qed

text \<open>
  A name written into a packet label by label is read back, wherever it stands, and the position moves just
  behind it.
\<close>

theorem dns_name_round_trip:
  assumes "\<forall>x\<in>set ls. x \<noteq> [] \<and> length x < 64" "wire_len ls \<le> 255" "length pre + wire_len ls \<le> l" "l \<le> length pre + wire_len ls + length post"
  shows "ch_dns_name_parse \<lparr>dmem = pre @ dns_name_bytes ls @ post, dpos = length pre, dlast = l\<rparr> =
    Inr (Some (name_of_labels ls, \<lparr>dmem = pre @ dns_name_bytes ls @ post, dpos = length pre + length (dns_name_bytes ls), dlast = l\<rparr>))"
  using name_parse_at [of "\<lparr>dmem = pre @ dns_name_bytes ls @ post, dpos = length pre, dlast = l\<rparr>" ls "wire_len ls"]
    dns_name_bytes_at [of ls pre l post "length pre"] assms
  by (simp add: length_dns_name_bytes)

theorem dns_name_round_trip_witness:
  "ch_dns_name_parse \<lparr>dmem = [7, 7] @ dns_name_bytes [[97], [98, 99]] @ [5], dpos = length [7, 7 :: u8], dlast = 9\<rparr> =
    Inr (Some (name_of_labels [[97], [98, 99]],
      \<lparr>dmem = [7, 7] @ dns_name_bytes [[97], [98, 99]] @ [5], dpos = length [7, 7 :: u8] + length (dns_name_bytes [[97], [98, 99]]), dlast = 9\<rparr>))"
  by (rule dns_name_round_trip) simp_all

end
