(* ===== verification/Dns_Rdata.thy ===== *)
theory Dns_Rdata
  imports Dns_Name
begin

text \<open>
  The resource records of DNS answers: the common part \<^verbatim>\<open>udp/app/dns/ch_dns_rdata.h\<close> and one file
  \<^verbatim>\<open>ch_dns_rdata_<type>.c\<close> for each of 55 types, with the structs they hold, their creation and
  their parsers. A parser is a list of steps, one for a statement of the source; a step reads from the input and
  sets a field of the record through the field's update function. Shown here: what every parser reads stays
  within 512 bytes behind the record, and which parsers take their bytes from the wrong place.
\<close>

section \<open>The common part of a record\<close>

text \<open>\<open>rd_base\<close> is the memory from \<^verbatim>\<open>base\<close> on; the data are at an offset in it or a copy in the pool.\<close>

datatype rdata_data = RD_NULL | RD_packet nat | RD_copy bytes

record ch_dns_rdata =
  rd_name_of :: ch_dns_name
  rd_type :: u16
  rd_dclass :: u16
  rd_ttl :: u32
  rd_base :: bytes
  rd_data :: rdata_data
  rd_dlen :: u16

text \<open>The parsers are called with data in the packet only.\<close>

fun ch_dns_rdata_input_init :: "ch_dns_rdata \<Rightarrow> ch_dns_data_input" where
  "ch_dns_rdata_input_init rd =
     (case rd_data rd of
        RD_packet off \<Rightarrow> ch_dns_data_input_init (rd_base rd) off (off + unat (rd_dlen rd))
      | _ \<Rightarrow> ch_dns_data_input_init [] 0 0)"

definition ch_dns_rdata_name_parse :: "ch_dns_rdata \<Rightarrow> ch_dns_name option res" where
  "ch_dns_rdata_name_parse rd =
     bind_res (ch_dns_name_parse (ch_dns_rdata_input_init rd)) (\<lambda>x. Inr (map_option fst x))"

section \<open>Steps of a parser\<close>

text \<open>
  A step gets the record and the input and says whether the function goes on; it does not when the code
  returns -1 there. The argument \<open>upd\<close> is the update function of a field.
\<close>

type_synonym 'r rd_step = "'r \<Rightarrow> ch_dns_data_input \<Rightarrow> (bool \<times> 'r \<times> ch_dns_data_input) res"

definition rd_uint8 :: "((u8 \<Rightarrow> u8) \<Rightarrow> 'r \<Rightarrow> 'r) \<Rightarrow> 'r rd_step" where
  "rd_uint8 upd r din = (case ch_dns_data_input_uint8_read din of (v, din) \<Rightarrow> Inr (True, upd (\<lambda>_. v) r, din))"

definition rd_uint16 :: "((u16 \<Rightarrow> u16) \<Rightarrow> 'r \<Rightarrow> 'r) \<Rightarrow> 'r rd_step" where
  "rd_uint16 upd r din = (case ch_dns_data_input_uint16_read din of (v, din) \<Rightarrow> Inr (True, upd (\<lambda>_. v) r, din))"

definition rd_uint32 :: "((u32 \<Rightarrow> u32) \<Rightarrow> 'r \<Rightarrow> 'r) \<Rightarrow> 'r rd_step" where
  "rd_uint32 upd r din = (case ch_dns_data_input_uint32_read din of (v, din) \<Rightarrow> Inr (True, upd (\<lambda>_. v) r, din))"

text \<open>The time of \<^verbatim>\<open>TSIG\<close>: 48 bits, read as 16 and 32.\<close>

definition rd_time :: "((u64 \<Rightarrow> u64) \<Rightarrow> 'r \<Rightarrow> 'r) \<Rightarrow> 'r rd_step" where
  "rd_time upd r din =
     (let (time_high, din) = ch_dns_data_input_uint16_read din;
          (time_low, din) = ch_dns_data_input_uint32_read din
      in Inr (True, upd (\<lambda>_. push_bit 32 (ucast time_high) + ucast time_low) r, din))"

definition rd_name :: "((ch_dns_name \<Rightarrow> ch_dns_name) \<Rightarrow> 'r \<Rightarrow> 'r) \<Rightarrow> 'r rd_step" where
  "rd_name upd r din = bind_res (ch_dns_name_parse din) (\<lambda>x.
     case x of None \<Rightarrow> Inr (False, r, din) | Some (n, din) \<Rightarrow> Inr (True, upd (\<lambda>_. n) r, din))"

text \<open>\<^verbatim>\<open>ch_dns_rdata_name_parse\<close> makes an input of its own, the one of the caller is not moved.\<close>

definition rd_name_own :: "ch_dns_rdata \<Rightarrow> ((ch_dns_name \<Rightarrow> ch_dns_name) \<Rightarrow> 'r \<Rightarrow> 'r) \<Rightarrow> 'r rd_step" where
  "rd_name_own rd upd r din = bind_res (ch_dns_rdata_name_parse rd) (\<lambda>x.
     case x of None \<Rightarrow> Inr (False, r, din) | Some n \<Rightarrow> Inr (True, upd (\<lambda>_. n) r, din))"

definition rd_bstring :: "((bytes option \<Rightarrow> bytes option) \<Rightarrow> 'r \<Rightarrow> 'r) \<Rightarrow> 'r rd_step" where
  "rd_bstring upd r din = bind_res (ch_dns_data_input_bstring_read_dup din) (\<lambda>(p, din). Inr (True, upd (\<lambda>_. p) r, din))"

text \<open>The rest of the input, as a 16-bit length.\<close>

definition rd_rdlen :: "((u16 \<Rightarrow> u16) \<Rightarrow> 'r \<Rightarrow> 'r) \<Rightarrow> 'r rd_step" where
  "rd_rdlen upd r din = Inr (True, upd (\<lambda>_. of_int (ch_dns_data_input_rdlen din)) r, din)"

definition rd_check :: "('r \<Rightarrow> nat) \<Rightarrow> 'r rd_step" where
  "rd_check len r din = Inr (CH_DNS_DLEN_CHECK (len r) din, r, din)"

definition rd_bytes :: "('r \<Rightarrow> nat) \<Rightarrow> ((bytes option \<Rightarrow> bytes option) \<Rightarrow> 'r \<Rightarrow> 'r) \<Rightarrow> 'r rd_step" where
  "rd_bytes len upd r din = bind_res (ch_dns_data_input_bytes_read din (len r)) (\<lambda>(p, din). Inr (True, upd (\<lambda>_. p) r, din))"

definition rd_rbytes :: "((bytes option \<Rightarrow> bytes option) \<Rightarrow> 'r \<Rightarrow> 'r) \<Rightarrow> 'r rd_step" where
  "rd_rbytes upd r din = bind_res (ch_dns_data_input_rbytes_read din) (\<lambda>(p, din). Inr (True, upd (\<lambda>_. p) r, din))"

definition rd_when :: "('r \<Rightarrow> bool) \<Rightarrow> 'r rd_step \<Rightarrow> 'r rd_step" where
  "rd_when c st r din = (if c r then st r din else Inr (True, r, din))"

text \<open>A parser of a part of the record whose result is not looked at.\<close>

definition rd_call :: "('x \<Rightarrow> ch_dns_data_input \<Rightarrow> (int \<times> 'x \<times> ch_dns_data_input) res) \<Rightarrow> ('r \<Rightarrow> 'x) \<Rightarrow> (('x \<Rightarrow> 'x) \<Rightarrow> 'r \<Rightarrow> 'r) \<Rightarrow> 'r rd_step" where
  "rd_call f get upd r din = bind_res (f (get r) din) (\<lambda>(_, x, din). Inr (True, upd (\<lambda>_. x) r, din))"

primrec rd_steps :: "'r rd_step list \<Rightarrow> 'r rd_step" where
  "rd_steps [] r din = Inr (True, r, din)"
| "rd_steps (st # sts) r din =
     bind_res (st r din) (\<lambda>(go, r, din). if go then rd_steps sts r din else Inr (False, r, din))"

text \<open>The frame of every parser: the least length, then the steps on the data of the record.\<close>

definition rdata_parse :: "nat \<Rightarrow> ch_dns_rdata \<Rightarrow> 'r rd_step list \<Rightarrow> 'r \<Rightarrow> (int \<times> 'r) res" where
  "rdata_parse least rd sts r =
     (if unat (rd_dlen rd) < least \<or> rd_data rd = RD_NULL then Inr (-1, r)
      else bind_res (rd_steps sts r (ch_dns_rdata_input_init rd)) (\<lambda>(go, r, _). Inr (if go then 0 else -1, r)))"

text \<open>No step moves the end of the input, and the steps that entries are made of do not move back.\<close>

lemma dns_int_read_moves:
  "dns_int_read sz d = (v, d') \<Longrightarrow> dlast d' = dlast d \<and> dpos d \<le> dpos d' \<and> (dpos d + sz \<le> dlast d \<longrightarrow> dpos d' = dpos d + sz)"
  by (auto simp: dns_int_read_def din_macros split: if_splits)

lemma bytes_read_moves: "ch_dns_data_input_bytes_read d n = Inr (p, d') \<Longrightarrow> dlast d' = dlast d \<and> dpos d \<le> dpos d'"
  by (auto simp: ch_dns_data_input_bytes_read_def Let_def bind_res_eq_Inr din_macros split: if_splits)

definition rd_moves :: "'r rd_step \<Rightarrow> bool" where
  "rd_moves st \<longleftrightarrow> (\<forall>r d go r' d'. st r d = Inr (go, r', d') \<longrightarrow> dlast d' = dlast d \<and> dpos d \<le> dpos d')"

lemma rd_uint16_moves:
  "rd_uint16 upd r d = Inr (go, r', d') \<Longrightarrow> dlast d' = dlast d \<and> dpos d \<le> dpos d' \<and> (dpos d + 2 \<le> dlast d \<longrightarrow> dpos d' = dpos d + 2)"
  by (auto simp: rd_uint16_def ch_dns_data_input_uint16_read_def split: prod.splits dest: dns_int_read_moves)

lemma rd_moves_ints: "rd_moves (rd_uint8 u8)" "rd_moves (rd_uint16 u16)" "rd_moves (rd_check f)"
  by (auto simp: rd_moves_def rd_uint8_def rd_uint16_def rd_check_def ch_dns_data_input_uint8_read_def ch_dns_data_input_uint16_read_def
      split: prod.splits dest: dns_int_read_moves)

lemma rd_moves_bytes: "rd_moves (rd_bytes n upd)"
  by (auto simp: rd_moves_def rd_bytes_def bind_res_eq_Inr dest: bytes_read_moves)

lemma rd_moves_steps: "list_all rd_moves sts \<Longrightarrow> rd_moves (rd_steps sts)"
proof (induction sts)
  case (Cons st sts)
  then have "rd_moves st" "rd_moves (rd_steps sts)" by simp_all
  then show ?case by (fastforce simp: rd_moves_def bind_res_eq_Inr split: if_splits)
qed (simp add: rd_moves_def)

lemma rd_steps_advance:
  assumes "rd_steps (rd_uint16 upd # sts) r d = Inr (go, r', d')" "list_all rd_moves sts" "dpos d + 2 \<le> dlast d"
  shows "dlast d' = dlast d \<and> dpos d < dpos d'"
proof -
  from assms(1) obtain r1 d1 where d1: "rd_uint16 upd r d = Inr (True, r1, d1)" "rd_steps sts r1 d1 = Inr (go, r', d')"
    by (auto simp: bind_res_eq_Inr rd_uint16_def split: prod.splits)
  have "dlast d' = dlast d1 \<and> dpos d1 \<le> dpos d'" using rd_moves_steps [OF assms(2)] d1(2) by (auto simp: rd_moves_def)
  then show ?thesis using rd_uint16_moves [OF d1(1)] assms(3) by auto
qed

section \<open>Parts that several types share\<close>

text \<open>\<^verbatim>\<open>ch_dns_sec_key.c\<close>\<close>

record ch_dns_sec_key =
  sk_flags :: u16
  sk_proto :: u8
  sk_alg :: u8
  sk_public_key_len :: u16
  sk_public_key :: "bytes option"

definition ch_dns_sec_key_init :: ch_dns_sec_key where
  "ch_dns_sec_key_init = \<lparr>sk_flags = 0, sk_proto = 0, sk_alg = 0, sk_public_key_len = 0, sk_public_key = None\<rparr>"

definition ch_dns_sec_key_parse :: "ch_dns_sec_key \<Rightarrow> ch_dns_data_input \<Rightarrow> (int \<times> ch_dns_sec_key \<times> ch_dns_data_input) res" where
  "ch_dns_sec_key_parse skey din =
     (if ch_dns_data_input_rdlen din mod 2 ^ 64 < 4 then Inr (-1, skey, din)
      else bind_res (rd_steps [rd_uint16 sk_flags_update, rd_uint8 sk_proto_update, rd_uint8 sk_alg_update, rd_rdlen sk_public_key_len_update,
               rd_bytes (\<lambda>r. unat (sk_public_key_len r)) sk_public_key_update] skey din) (\<lambda>(go, skey, din). Inr (if go then 0 else -1, skey, din)))"

text \<open>\<^verbatim>\<open>ch_dns_sec_sig.c\<close>\<close>

record ch_dns_sec_sig =
  ss_covered :: u16
  ss_alg :: u8
  ss_labels :: u8
  ss_origttl :: u32
  ss_expire :: u32
  ss_timeSigned :: u32
  ss_footprint :: u16
  ss_signer :: ch_dns_name
  ss_sign_len :: u16
  ss_signature :: "bytes option"

definition ch_dns_sec_sig_init :: ch_dns_sec_sig where
  "ch_dns_sec_sig_init = \<lparr>ss_covered = 0, ss_alg = 0, ss_labels = 0, ss_origttl = 0, ss_expire = 0, ss_timeSigned = 0, ss_footprint = 0,
     ss_signer = CH_DNS_NAME_INIT, ss_sign_len = 0, ss_signature = None\<rparr>"

definition ch_dns_sec_sig_parse :: "ch_dns_sec_sig \<Rightarrow> ch_dns_data_input \<Rightarrow> (int \<times> ch_dns_sec_sig \<times> ch_dns_data_input) res" where
  "ch_dns_sec_sig_parse ssig din =
     (if ch_dns_data_input_rdlen din mod 2 ^ 64 < 18 then Inr (-1, ssig, din)
      else bind_res (rd_steps [rd_uint16 ss_covered_update, rd_uint8 ss_alg_update, rd_uint8 ss_labels_update, rd_uint32 ss_origttl_update,
               rd_uint32 ss_expire_update, rd_uint32 ss_timeSigned_update, rd_uint16 ss_footprint_update, rd_name ss_signer_update,
               rd_rdlen ss_sign_len_update, rd_bytes (\<lambda>r. unat (ss_sign_len r)) ss_signature_update] ssig din)
             (\<lambda>(go, ssig, din). Inr (if go then 0 else -1, ssig, din)))"

text \<open>\<^verbatim>\<open>ch_dns_txt_base.c\<close>: an array of texts, each a block of the pool.\<close>

lemma bstring_dup_moves:
  assumes "ch_dns_data_input_bstring_read_dup din = Inr (Some t, din')"
  shows "dlast din' = dlast din \<and> dpos din < dpos din' \<and> dpos din < dlast din"
  using assms
  by (auto simp: ch_dns_data_input_bstring_read_dup_def ch_dns_data_input_uint8_read_def dns_int_read_def Let_def bind_res_eq_Inr din_macros
      split: if_splits)

function txt_base_loop :: "bytes list \<Rightarrow> ch_dns_data_input \<Rightarrow> (bytes list \<times> ch_dns_data_input) res" where
  "txt_base_loop txts din =
     (if \<not> ch_dns_data_input_read_over din 1 then
        case ch_dns_data_input_bstring_read_dup din of
          Inl e \<Rightarrow> Inl e
        | Inr (None, din) \<Rightarrow> Inr (txts, din)
        | Inr (Some t, din) \<Rightarrow> txt_base_loop (txts @ [t]) din
      else Inr (txts, din))"
  by pat_completeness auto

termination
  by (relation "measure (\<lambda>(txts, din). dlast din - dpos din)") (auto dest: bstring_dup_moves)

declare txt_base_loop.simps [simp del]

definition ch_dns_txt_base_parse :: "bytes list \<Rightarrow> ch_dns_data_input \<Rightarrow> (int \<times> bytes list \<times> ch_dns_data_input) res" where
  "ch_dns_txt_base_parse txts din = bind_res (txt_base_loop txts din) (\<lambda>(txts, din). Inr (0, txts, din))"

section \<open>The types of records\<close>

subsection \<open>\<^verbatim>\<open>ch_dns_rdata_ipv4.c\<close>\<close>

record ch_dns_rdata_ipv4 =
  ipv4_address :: u32

definition rdata_ipv4_create :: ch_dns_rdata_ipv4 where
  "rdata_ipv4_create = \<lparr>ipv4_address = 0\<rparr>"

definition rdata_ipv4_parse :: "ch_dns_rdata \<Rightarrow> ch_dns_rdata_ipv4 \<Rightarrow> (int \<times> ch_dns_rdata_ipv4) res" where
  "rdata_ipv4_parse rd r = rdata_parse 4 rd
     [rd_uint32 ipv4_address_update] r"

subsection \<open>\<^verbatim>\<open>ch_dns_rdata_ipv6.c\<close>\<close>

record ch_dns_rdata_ipv6 =
  ipv6_address :: "bytes option"

definition rdata_ipv6_create :: ch_dns_rdata_ipv6 where
  "rdata_ipv6_create = \<lparr>ipv6_address = None\<rparr>"

definition rdata_ipv6_parse :: "ch_dns_rdata \<Rightarrow> ch_dns_rdata_ipv6 \<Rightarrow> (int \<times> ch_dns_rdata_ipv6) res" where
  "rdata_ipv6_parse rd r = rdata_parse 16 rd
     [rd_bytes (\<lambda>r. 16) ipv6_address_update] r"

subsection \<open>\<^verbatim>\<open>ch_dns_rdata_cname.c\<close>\<close>

record ch_dns_rdata_cname =
  cname_name :: ch_dns_name

definition rdata_cname_create :: ch_dns_rdata_cname where
  "rdata_cname_create = \<lparr>cname_name = CH_DNS_NAME_INIT\<rparr>"

definition rdata_cname_parse :: "ch_dns_rdata \<Rightarrow> ch_dns_rdata_cname \<Rightarrow> (int \<times> ch_dns_rdata_cname) res" where
  "rdata_cname_parse rd r = rdata_parse 1 rd
     [rd_name cname_name_update] r"

subsection \<open>\<^verbatim>\<open>ch_dns_rdata_afsdb.c\<close>\<close>

record ch_dns_rdata_afsdb =
  afsdb_subtype :: u16
  afsdb_host :: ch_dns_name

definition rdata_afsdb_create :: ch_dns_rdata_afsdb where
  "rdata_afsdb_create = \<lparr>afsdb_subtype = 0, afsdb_host = CH_DNS_NAME_INIT\<rparr>"

definition rdata_afsdb_parse :: "ch_dns_rdata \<Rightarrow> ch_dns_rdata_afsdb \<Rightarrow> (int \<times> ch_dns_rdata_afsdb) res" where
  "rdata_afsdb_parse rd r = rdata_parse 2 rd
     [rd_uint16 afsdb_subtype_update, rd_name afsdb_host_update] r"

subsection \<open>\<^verbatim>\<open>ch_dns_rdata_txt.c\<close>\<close>

record ch_dns_rdata_txt =
  txt_txt_base :: "bytes list"

definition rdata_txt_create :: ch_dns_rdata_txt where
  "rdata_txt_create = \<lparr>txt_txt_base = []\<rparr>"

definition rdata_txt_parse :: "ch_dns_rdata \<Rightarrow> ch_dns_rdata_txt \<Rightarrow> (int \<times> ch_dns_rdata_txt) res" where
  "rdata_txt_parse rd r = rdata_parse 1 rd
     [rd_call ch_dns_txt_base_parse txt_txt_base txt_txt_base_update] r"

subsection \<open>\<^verbatim>\<open>ch_dns_rdata_hinfo.c\<close>\<close>

record ch_dns_rdata_hinfo =
  hinfo_cpu :: "bytes option"
  hinfo_os :: "bytes option"

definition rdata_hinfo_create :: ch_dns_rdata_hinfo where
  "rdata_hinfo_create = \<lparr>hinfo_cpu = None, hinfo_os = None\<rparr>"

definition rdata_hinfo_parse :: "ch_dns_rdata \<Rightarrow> ch_dns_rdata_hinfo \<Rightarrow> (int \<times> ch_dns_rdata_hinfo) res" where
  "rdata_hinfo_parse rd r = rdata_parse 2 rd
     [rd_bstring hinfo_cpu_update, rd_bstring hinfo_os_update] r"

subsection \<open>\<^verbatim>\<open>ch_dns_rdata_minfo.c\<close>\<close>

record ch_dns_rdata_minfo =
  minfo_responsibleAddress :: ch_dns_name
  minfo_errorAddress :: ch_dns_name

definition rdata_minfo_create :: ch_dns_rdata_minfo where
  "rdata_minfo_create = \<lparr>minfo_responsibleAddress = CH_DNS_NAME_INIT, minfo_errorAddress = CH_DNS_NAME_INIT\<rparr>"

definition rdata_minfo_parse :: "ch_dns_rdata \<Rightarrow> ch_dns_rdata_minfo \<Rightarrow> (int \<times> ch_dns_rdata_minfo) res" where
  "rdata_minfo_parse rd r = rdata_parse 1 rd
     [rd_name minfo_responsibleAddress_update, rd_name minfo_errorAddress_update] r"

subsection \<open>\<^verbatim>\<open>ch_dns_rdata_mb.c\<close>\<close>

record ch_dns_rdata_mb =
  mb_name :: ch_dns_name

definition rdata_mb_create :: ch_dns_rdata_mb where
  "rdata_mb_create = \<lparr>mb_name = CH_DNS_NAME_INIT\<rparr>"

definition rdata_mb_parse :: "ch_dns_rdata \<Rightarrow> ch_dns_rdata_mb \<Rightarrow> (int \<times> ch_dns_rdata_mb) res" where
  "rdata_mb_parse rd r = rdata_parse 1 rd
     [rd_name_own rd mb_name_update] r"

subsection \<open>\<^verbatim>\<open>ch_dns_rdata_mf.c\<close>\<close>

record ch_dns_rdata_mf =
  mf_name :: ch_dns_name

definition rdata_mf_create :: ch_dns_rdata_mf where
  "rdata_mf_create = \<lparr>mf_name = CH_DNS_NAME_INIT\<rparr>"

definition rdata_mf_parse :: "ch_dns_rdata \<Rightarrow> ch_dns_rdata_mf \<Rightarrow> (int \<times> ch_dns_rdata_mf) res" where
  "rdata_mf_parse rd r = rdata_parse 1 rd
     [rd_name_own rd mf_name_update] r"

subsection \<open>\<^verbatim>\<open>ch_dns_rdata_md.c\<close>\<close>

record ch_dns_rdata_md =
  md_name :: ch_dns_name

definition rdata_md_create :: ch_dns_rdata_md where
  "rdata_md_create = \<lparr>md_name = CH_DNS_NAME_INIT\<rparr>"

definition rdata_md_parse :: "ch_dns_rdata \<Rightarrow> ch_dns_rdata_md \<Rightarrow> (int \<times> ch_dns_rdata_md) res" where
  "rdata_md_parse rd r = rdata_parse 1 rd
     [rd_name_own rd md_name_update] r"

subsection \<open>\<^verbatim>\<open>ch_dns_rdata_mg.c\<close>\<close>

record ch_dns_rdata_mg =
  mg_name :: ch_dns_name

definition rdata_mg_create :: ch_dns_rdata_mg where
  "rdata_mg_create = \<lparr>mg_name = CH_DNS_NAME_INIT\<rparr>"

definition rdata_mg_parse :: "ch_dns_rdata \<Rightarrow> ch_dns_rdata_mg \<Rightarrow> (int \<times> ch_dns_rdata_mg) res" where
  "rdata_mg_parse rd r = rdata_parse 1 rd
     [rd_name_own rd mg_name_update] r"

subsection \<open>\<^verbatim>\<open>ch_dns_rdata_mr.c\<close>\<close>

record ch_dns_rdata_mr =
  mr_name :: ch_dns_name

definition rdata_mr_create :: ch_dns_rdata_mr where
  "rdata_mr_create = \<lparr>mr_name = CH_DNS_NAME_INIT\<rparr>"

definition rdata_mr_parse :: "ch_dns_rdata \<Rightarrow> ch_dns_rdata_mr \<Rightarrow> (int \<times> ch_dns_rdata_mr) res" where
  "rdata_mr_parse rd r = rdata_parse 1 rd
     [rd_name_own rd mr_name_update] r"

subsection \<open>\<^verbatim>\<open>ch_dns_rdata_mx.c\<close>\<close>

record ch_dns_rdata_mx =
  mx_preference :: u16
  mx_mail_exchange :: ch_dns_name

definition rdata_mx_create :: ch_dns_rdata_mx where
  "rdata_mx_create = \<lparr>mx_preference = 0, mx_mail_exchange = CH_DNS_NAME_INIT\<rparr>"

definition rdata_mx_parse :: "ch_dns_rdata \<Rightarrow> ch_dns_rdata_mx \<Rightarrow> (int \<times> ch_dns_rdata_mx) res" where
  "rdata_mx_parse rd r = rdata_parse 2 rd
     [rd_uint16 mx_preference_update, rd_name mx_mail_exchange_update] r"

subsection \<open>\<^verbatim>\<open>ch_dns_rdata_ns.c\<close>\<close>

record ch_dns_rdata_ns =
  ns_name :: ch_dns_name

definition rdata_ns_create :: ch_dns_rdata_ns where
  "rdata_ns_create = \<lparr>ns_name = CH_DNS_NAME_INIT\<rparr>"

definition rdata_ns_parse :: "ch_dns_rdata \<Rightarrow> ch_dns_rdata_ns \<Rightarrow> (int \<times> ch_dns_rdata_ns) res" where
  "rdata_ns_parse rd r = rdata_parse 1 rd
     [rd_name_own rd ns_name_update] r"

subsection \<open>\<^verbatim>\<open>ch_dns_rdata_null.c\<close>\<close>

record ch_dns_rdata_null =
  null_dlen :: u16
  null_data :: "bytes option"

definition rdata_null_create :: ch_dns_rdata_null where
  "rdata_null_create = \<lparr>null_dlen = 0, null_data = None\<rparr>"

definition rdata_null_parse :: "ch_dns_rdata \<Rightarrow> ch_dns_rdata_null \<Rightarrow> (int \<times> ch_dns_rdata_null) res" where
  "rdata_null_parse rd r = rdata_parse 1 rd
     [rd_rdlen null_dlen_update, rd_check (\<lambda>r. unat (null_dlen r)), rd_rbytes null_data_update] r"

subsection \<open>\<^verbatim>\<open>ch_dns_rdata_ptr.c\<close>\<close>

record ch_dns_rdata_ptr =
  ptr_name :: ch_dns_name

definition rdata_ptr_create :: ch_dns_rdata_ptr where
  "rdata_ptr_create = \<lparr>ptr_name = CH_DNS_NAME_INIT\<rparr>"

definition rdata_ptr_parse :: "ch_dns_rdata \<Rightarrow> ch_dns_rdata_ptr \<Rightarrow> (int \<times> ch_dns_rdata_ptr) res" where
  "rdata_ptr_parse rd r = rdata_parse 1 rd
     [rd_name_own rd ptr_name_update] r"

subsection \<open>\<^verbatim>\<open>ch_dns_rdata_soa.c\<close>\<close>

record ch_dns_rdata_soa =
  soa_host :: ch_dns_name
  soa_admin :: ch_dns_name
  soa_serial :: u32
  soa_refresh :: u32
  soa_retry :: u32
  soa_expire :: u32
  soa_minimum :: u32

definition rdata_soa_create :: ch_dns_rdata_soa where
  "rdata_soa_create = \<lparr>soa_host = CH_DNS_NAME_INIT, soa_admin = CH_DNS_NAME_INIT, soa_serial = 0, soa_refresh = 0, soa_retry = 0, soa_expire = 0, soa_minimum = 0\<rparr>"

definition rdata_soa_parse :: "ch_dns_rdata \<Rightarrow> ch_dns_rdata_soa \<Rightarrow> (int \<times> ch_dns_rdata_soa) res" where
  "rdata_soa_parse rd r = rdata_parse 20 rd
     [rd_name soa_host_update, rd_name soa_admin_update, rd_uint32 soa_serial_update, rd_uint32 soa_refresh_update, rd_uint32 soa_retry_update,
      rd_uint32 soa_expire_update, rd_uint32 soa_minimum_update] r"

subsection \<open>\<^verbatim>\<open>ch_dns_rdata_wks.c\<close>\<close>

record ch_dns_rdata_wks =
  wks_address :: u32
  wks_protocol :: u8
  wks_map_len :: u16
  wks_bitmap :: "bytes option"

definition rdata_wks_create :: ch_dns_rdata_wks where
  "rdata_wks_create = \<lparr>wks_address = 0, wks_protocol = 0, wks_map_len = 0, wks_bitmap = None\<rparr>"

definition rdata_wks_parse :: "ch_dns_rdata \<Rightarrow> ch_dns_rdata_wks \<Rightarrow> (int \<times> ch_dns_rdata_wks) res" where
  "rdata_wks_parse rd r = rdata_parse 5 rd
     [rd_uint32 wks_address_update, rd_uint8 wks_protocol_update, rd_rdlen wks_map_len_update, rd_check (\<lambda>r. unat (wks_map_len r)),
      rd_when (\<lambda>r. wks_map_len r \<noteq> 0) (rd_bytes (\<lambda>r. unat (wks_map_len r)) wks_bitmap_update)] r"

subsection \<open>\<^verbatim>\<open>ch_dns_rdata_caa.c\<close>\<close>

record ch_dns_rdata_caa =
  caa_flags :: u8
  caa_tag :: "bytes option"
  caa_value :: "bytes option"

definition rdata_caa_create :: ch_dns_rdata_caa where
  "rdata_caa_create = \<lparr>caa_flags = 0, caa_tag = None, caa_value = None\<rparr>"

definition rdata_caa_parse :: "ch_dns_rdata \<Rightarrow> ch_dns_rdata_caa \<Rightarrow> (int \<times> ch_dns_rdata_caa) res" where
  "rdata_caa_parse rd r = rdata_parse 2 rd
     [rd_uint8 caa_flags_update, rd_bstring caa_tag_update, rd_rbytes caa_value_update] r"

subsection \<open>\<^verbatim>\<open>ch_dns_rdata_cert.c\<close>\<close>

record ch_dns_rdata_cert =
  cert_cert_type :: u16
  cert_key_tag :: u16
  cert_alg :: u8
  cert_cert_len :: u16
  cert_cert :: "bytes option"

definition rdata_cert_create :: ch_dns_rdata_cert where
  "rdata_cert_create = \<lparr>cert_cert_type = 0, cert_key_tag = 0, cert_alg = 0, cert_cert_len = 0, cert_cert = None\<rparr>"

definition rdata_cert_parse :: "ch_dns_rdata \<Rightarrow> ch_dns_rdata_cert \<Rightarrow> (int \<times> ch_dns_rdata_cert) res" where
  "rdata_cert_parse rd r = rdata_parse 5 rd
     [rd_uint16 cert_cert_type_update, rd_uint16 cert_key_tag_update, rd_uint8 cert_alg_update, rd_rdlen cert_cert_len_update,
      rd_check (\<lambda>r. unat (cert_cert_len r)), rd_rbytes cert_cert_update] r"

subsection \<open>\<^verbatim>\<open>ch_dns_rdata_dhcid.c\<close>\<close>

record ch_dns_rdata_dhcid =
  dhcid_dlen :: u16
  dhcid_data :: "bytes option"

definition rdata_dhcid_create :: ch_dns_rdata_dhcid where
  "rdata_dhcid_create = \<lparr>dhcid_dlen = 0, dhcid_data = None\<rparr>"

definition rdata_dhcid_parse :: "ch_dns_rdata \<Rightarrow> ch_dns_rdata_dhcid \<Rightarrow> (int \<times> ch_dns_rdata_dhcid) res" where
  "rdata_dhcid_parse rd r = rdata_parse 1 rd
     [rd_rdlen dhcid_dlen_update, rd_check (\<lambda>r. unat (dhcid_dlen r)), rd_rbytes dhcid_data_update] r"

subsection \<open>\<^verbatim>\<open>ch_dns_rdata_dlv.c\<close>\<close>

record ch_dns_rdata_dlv =
  dlv_footprint :: u16
  dlv_alg :: u8
  dlv_digestid :: u8
  dlv_digest_len :: u16
  dlv_digest :: "bytes option"

definition rdata_dlv_create :: ch_dns_rdata_dlv where
  "rdata_dlv_create = \<lparr>dlv_footprint = 0, dlv_alg = 0, dlv_digestid = 0, dlv_digest_len = 0, dlv_digest = None\<rparr>"

definition rdata_dlv_parse :: "ch_dns_rdata \<Rightarrow> ch_dns_rdata_dlv \<Rightarrow> (int \<times> ch_dns_rdata_dlv) res" where
  "rdata_dlv_parse rd r = rdata_parse 4 rd
     [rd_uint16 dlv_footprint_update, rd_uint8 dlv_alg_update, rd_uint8 dlv_digestid_update, rd_rdlen dlv_digest_len_update,
      rd_check (\<lambda>r. unat (dlv_digest_len r)), rd_rbytes dlv_digest_update] r"

subsection \<open>\<^verbatim>\<open>ch_dns_rdata_dname.c\<close>\<close>

record ch_dns_rdata_dname =
  dname_name :: ch_dns_name

definition rdata_dname_create :: ch_dns_rdata_dname where
  "rdata_dname_create = \<lparr>dname_name = CH_DNS_NAME_INIT\<rparr>"

definition rdata_dname_parse :: "ch_dns_rdata \<Rightarrow> ch_dns_rdata_dname \<Rightarrow> (int \<times> ch_dns_rdata_dname) res" where
  "rdata_dname_parse rd r = rdata_parse 1 rd
     [rd_name dname_name_update] r"

subsection \<open>\<^verbatim>\<open>ch_dns_rdata_dnskey.c\<close>\<close>

record ch_dns_rdata_dnskey =
  dnskey_skey :: ch_dns_sec_key

definition rdata_dnskey_create :: ch_dns_rdata_dnskey where
  "rdata_dnskey_create = \<lparr>dnskey_skey = ch_dns_sec_key_init\<rparr>"

definition rdata_dnskey_parse :: "ch_dns_rdata \<Rightarrow> ch_dns_rdata_dnskey \<Rightarrow> (int \<times> ch_dns_rdata_dnskey) res" where
  "rdata_dnskey_parse rd r = rdata_parse 4 rd
     [rd_call ch_dns_sec_key_parse dnskey_skey dnskey_skey_update] r"

subsection \<open>\<^verbatim>\<open>ch_dns_rdata_ds.c\<close>\<close>

record ch_dns_rdata_ds =
  ds_footprint :: u16
  ds_alg :: u8
  ds_digestid :: u8
  ds_digest_len :: u16
  ds_digest :: "bytes option"

definition rdata_ds_create :: ch_dns_rdata_ds where
  "rdata_ds_create = \<lparr>ds_footprint = 0, ds_alg = 0, ds_digestid = 0, ds_digest_len = 0, ds_digest = None\<rparr>"

definition rdata_ds_parse :: "ch_dns_rdata \<Rightarrow> ch_dns_rdata_ds \<Rightarrow> (int \<times> ch_dns_rdata_ds) res" where
  "rdata_ds_parse rd r = rdata_parse 4 rd
     [rd_uint16 ds_footprint_update, rd_uint8 ds_alg_update, rd_uint8 ds_digestid_update, rd_rdlen ds_digest_len_update,
      rd_check (\<lambda>r. unat (ds_digest_len r)), rd_rbytes ds_digest_update] r"

subsection \<open>\<^verbatim>\<open>ch_dns_rdata_gpos.c\<close>\<close>

record ch_dns_rdata_gpos =
  gpos_longitude :: "bytes option"
  gpos_latitude :: "bytes option"
  gpos_altitude :: "bytes option"

definition rdata_gpos_create :: ch_dns_rdata_gpos where
  "rdata_gpos_create = \<lparr>gpos_longitude = None, gpos_latitude = None, gpos_altitude = None\<rparr>"

definition rdata_gpos_parse :: "ch_dns_rdata \<Rightarrow> ch_dns_rdata_gpos \<Rightarrow> (int \<times> ch_dns_rdata_gpos) res" where
  "rdata_gpos_parse rd r = rdata_parse 3 rd
     [rd_bstring gpos_longitude_update, rd_bstring gpos_latitude_update, rd_bstring gpos_altitude_update] r"

subsection \<open>\<^verbatim>\<open>ch_dns_rdata_isdn.c\<close>\<close>

record ch_dns_rdata_isdn =
  isdn_addr :: "bytes option"
  isdn_subaddr :: "bytes option"

definition rdata_isdn_create :: ch_dns_rdata_isdn where
  "rdata_isdn_create = \<lparr>isdn_addr = None, isdn_subaddr = None\<rparr>"

definition rdata_isdn_parse :: "ch_dns_rdata \<Rightarrow> ch_dns_rdata_isdn \<Rightarrow> (int \<times> ch_dns_rdata_isdn) res" where
  "rdata_isdn_parse rd r = rdata_parse 1 rd
     [rd_bstring isdn_addr_update, rd_bstring isdn_subaddr_update] r"

subsection \<open>\<^verbatim>\<open>ch_dns_rdata_key.c\<close>\<close>

record ch_dns_rdata_key =
  key_skey :: ch_dns_sec_key

definition rdata_key_create :: ch_dns_rdata_key where
  "rdata_key_create = \<lparr>key_skey = ch_dns_sec_key_init\<rparr>"

definition rdata_key_parse :: "ch_dns_rdata \<Rightarrow> ch_dns_rdata_key \<Rightarrow> (int \<times> ch_dns_rdata_key) res" where
  "rdata_key_parse rd r = rdata_parse 4 rd
     [rd_call ch_dns_sec_key_parse key_skey key_skey_update] r"

subsection \<open>\<^verbatim>\<open>ch_dns_rdata_kx.c\<close>\<close>

record ch_dns_rdata_kx =
  kx_preference :: u16
  kx_name :: ch_dns_name

definition rdata_kx_create :: ch_dns_rdata_kx where
  "rdata_kx_create = \<lparr>kx_preference = 0, kx_name = CH_DNS_NAME_INIT\<rparr>"

definition rdata_kx_parse :: "ch_dns_rdata \<Rightarrow> ch_dns_rdata_kx \<Rightarrow> (int \<times> ch_dns_rdata_kx) res" where
  "rdata_kx_parse rd r = rdata_parse 2 rd
     [rd_uint16 kx_preference_update, rd_name kx_name_update] r"

subsection \<open>\<^verbatim>\<open>ch_dns_rdata_loc.c\<close>\<close>

record ch_dns_rdata_loc =
  loc_version :: u8
  loc_size :: u8
  loc_hprecision :: u8
  loc_vprecision :: u8
  loc_latitude :: u32
  loc_longitude :: u32
  loc_altitude :: u32

definition rdata_loc_create :: ch_dns_rdata_loc where
  "rdata_loc_create = \<lparr>loc_version = 0, loc_size = 0, loc_hprecision = 0, loc_vprecision = 0, loc_latitude = 0, loc_longitude = 0, loc_altitude = 0\<rparr>"

definition rdata_loc_parse :: "ch_dns_rdata \<Rightarrow> ch_dns_rdata_loc \<Rightarrow> (int \<times> ch_dns_rdata_loc) res" where
  "rdata_loc_parse rd r = rdata_parse 16 rd
     [rd_uint8 loc_version_update, rd_uint8 loc_size_update, rd_uint8 loc_hprecision_update, rd_uint8 loc_vprecision_update,
      rd_uint32 loc_latitude_update, rd_uint32 loc_longitude_update, rd_uint32 loc_altitude_update] r"

subsection \<open>\<^verbatim>\<open>ch_dns_rdata_naptr.c\<close>\<close>

record ch_dns_rdata_naptr =
  naptr_order :: u16
  naptr_preference :: u16
  naptr_flags :: "bytes option"
  naptr_service :: "bytes option"
  naptr_regex :: "bytes option"
  naptr_replacement :: ch_dns_name

definition rdata_naptr_create :: ch_dns_rdata_naptr where
  "rdata_naptr_create = \<lparr>naptr_order = 0, naptr_preference = 0, naptr_flags = None, naptr_service = None, naptr_regex = None, naptr_replacement = CH_DNS_NAME_INIT\<rparr>"

definition rdata_naptr_parse :: "ch_dns_rdata \<Rightarrow> ch_dns_rdata_naptr \<Rightarrow> (int \<times> ch_dns_rdata_naptr) res" where
  "rdata_naptr_parse rd r = rdata_parse 7 rd
     [rd_uint16 naptr_order_update, rd_uint16 naptr_preference_update, rd_bstring naptr_flags_update, rd_bstring naptr_service_update,
      rd_bstring naptr_regex_update, rd_name naptr_replacement_update] r"

subsection \<open>\<^verbatim>\<open>ch_dns_rdata_nsap_ptr.c\<close>\<close>

record ch_dns_rdata_nsap_ptr =
  nsap_ptr_name :: ch_dns_name

definition rdata_nsap_ptr_create :: ch_dns_rdata_nsap_ptr where
  "rdata_nsap_ptr_create = \<lparr>nsap_ptr_name = CH_DNS_NAME_INIT\<rparr>"

definition rdata_nsap_ptr_parse :: "ch_dns_rdata \<Rightarrow> ch_dns_rdata_nsap_ptr \<Rightarrow> (int \<times> ch_dns_rdata_nsap_ptr) res" where
  "rdata_nsap_ptr_parse rd r = rdata_parse 1 rd
     [rd_name_own rd nsap_ptr_name_update] r"

subsection \<open>\<^verbatim>\<open>ch_dns_rdata_nsap.c\<close>\<close>

record ch_dns_rdata_nsap =
  nsap_addr_len :: u16
  nsap_addr :: "bytes option"

definition rdata_nsap_create :: ch_dns_rdata_nsap where
  "rdata_nsap_create = \<lparr>nsap_addr_len = 0, nsap_addr = None\<rparr>"

definition rdata_nsap_parse :: "ch_dns_rdata \<Rightarrow> ch_dns_rdata_nsap \<Rightarrow> (int \<times> ch_dns_rdata_nsap) res" where
  "rdata_nsap_parse rd r = rdata_parse 1 rd
     [rd_rdlen nsap_addr_len_update, rd_check (\<lambda>r. unat (nsap_addr_len r)), rd_rbytes nsap_addr_update] r"

subsection \<open>\<^verbatim>\<open>ch_dns_rdata_nsec3param.c\<close>\<close>

record ch_dns_rdata_nsec3param =
  nsec3param_hash_alg :: u8
  nsec3param_flags :: u8
  nsec3param_iterations :: u16
  nsec3param_salt_len :: u8
  nsec3param_salt :: "bytes option"

definition rdata_nsec3param_create :: ch_dns_rdata_nsec3param where
  "rdata_nsec3param_create = \<lparr>nsec3param_hash_alg = 0, nsec3param_flags = 0, nsec3param_iterations = 0, nsec3param_salt_len = 0, nsec3param_salt = None\<rparr>"

definition rdata_nsec3param_parse :: "ch_dns_rdata \<Rightarrow> ch_dns_rdata_nsec3param \<Rightarrow> (int \<times> ch_dns_rdata_nsec3param) res" where
  "rdata_nsec3param_parse rd r = rdata_parse 5 rd
     [rd_uint8 nsec3param_hash_alg_update, rd_uint8 nsec3param_flags_update, rd_uint16 nsec3param_iterations_update,
      rd_uint8 nsec3param_salt_len_update, rd_check (\<lambda>r. unat (nsec3param_salt_len r)),
      rd_when (\<lambda>r. nsec3param_salt_len r \<noteq> 0) (rd_bytes (\<lambda>r. unat (nsec3param_salt_len r)) nsec3param_salt_update)] r"

subsection \<open>\<^verbatim>\<open>ch_dns_rdata_nsec3.c\<close>\<close>

record ch_dns_rdata_nsec3 =
  nsec3_hash_alg :: u8
  nsec3_flags :: u8
  nsec3_iterations :: u16
  nsec3_salt_len :: u8
  nsec3_salt :: "bytes option"
  nsec3_hash_len :: u8
  nsec3_next :: "bytes option"
  nsec3_typebitmap_len :: u16
  nsec3_typebitmap :: "bytes option"

definition rdata_nsec3_create :: ch_dns_rdata_nsec3 where
  "rdata_nsec3_create = \<lparr>nsec3_hash_alg = 0, nsec3_flags = 0, nsec3_iterations = 0, nsec3_salt_len = 0, nsec3_salt = None, nsec3_hash_len = 0, nsec3_next = None,
     nsec3_typebitmap_len = 0, nsec3_typebitmap = None\<rparr>"

definition rdata_nsec3_parse :: "ch_dns_rdata \<Rightarrow> ch_dns_rdata_nsec3 \<Rightarrow> (int \<times> ch_dns_rdata_nsec3) res" where
  "rdata_nsec3_parse rd r = rdata_parse 6 rd
     [rd_uint8 nsec3_hash_alg_update, rd_uint8 nsec3_flags_update, rd_uint16 nsec3_iterations_update, rd_uint8 nsec3_salt_len_update,
      rd_check (\<lambda>r. unat (nsec3_salt_len r)), rd_when (\<lambda>r. nsec3_salt_len r \<noteq> 0) (rd_bytes (\<lambda>r. unat (nsec3_salt_len r)) nsec3_salt_update),
      rd_uint8 nsec3_hash_len_update, rd_check (\<lambda>r. unat (nsec3_hash_len r)), rd_bytes (\<lambda>r. unat (nsec3_hash_len r)) nsec3_next_update,
      rd_rdlen nsec3_typebitmap_len_update, rd_check (\<lambda>r. unat (nsec3_typebitmap_len r)),
      rd_bytes (\<lambda>r. unat (nsec3_typebitmap_len r)) nsec3_typebitmap_update] r"

subsection \<open>\<^verbatim>\<open>ch_dns_rdata_nsec.c\<close>\<close>

record ch_dns_rdata_nsec =
  nsec_name :: ch_dns_name
  nsec_typebitmap_len :: u16
  nsec_typebitmap :: "bytes option"

definition rdata_nsec_create :: ch_dns_rdata_nsec where
  "rdata_nsec_create = \<lparr>nsec_name = CH_DNS_NAME_INIT, nsec_typebitmap_len = 0, nsec_typebitmap = None\<rparr>"

definition rdata_nsec_parse :: "ch_dns_rdata \<Rightarrow> ch_dns_rdata_nsec \<Rightarrow> (int \<times> ch_dns_rdata_nsec) res" where
  "rdata_nsec_parse rd r = rdata_parse 1 rd
     [rd_name_own rd nsec_name_update, rd_rdlen nsec_typebitmap_len_update, rd_check (\<lambda>r. unat (nsec_typebitmap_len r)),
      rd_bytes (\<lambda>r. unat (nsec_typebitmap_len r)) nsec_typebitmap_update] r"

subsection \<open>\<^verbatim>\<open>ch_dns_rdata_nxt.c\<close>\<close>

record ch_dns_rdata_nxt =
  nxt_name :: ch_dns_name
  nxt_typebitmap_len :: u16
  nxt_typebitmap :: "bytes option"

definition rdata_nxt_create :: ch_dns_rdata_nxt where
  "rdata_nxt_create = \<lparr>nxt_name = CH_DNS_NAME_INIT, nxt_typebitmap_len = 0, nxt_typebitmap = None\<rparr>"

definition rdata_nxt_parse :: "ch_dns_rdata \<Rightarrow> ch_dns_rdata_nxt \<Rightarrow> (int \<times> ch_dns_rdata_nxt) res" where
  "rdata_nxt_parse rd r = rdata_parse 1 rd
     [rd_name_own rd nxt_name_update, rd_rdlen nxt_typebitmap_len_update, rd_check (\<lambda>r. unat (nxt_typebitmap_len r)),
      rd_bytes (\<lambda>r. unat (nxt_typebitmap_len r)) nxt_typebitmap_update] r"

subsection \<open>\<^verbatim>\<open>ch_dns_rdata_openpgpkey.c\<close>\<close>

record ch_dns_rdata_openpgpkey =
  openpgpkey_key_len :: u16
  openpgpkey_key :: "bytes option"

definition rdata_openpgpkey_create :: ch_dns_rdata_openpgpkey where
  "rdata_openpgpkey_create = \<lparr>openpgpkey_key_len = 0, openpgpkey_key = None\<rparr>"

definition rdata_openpgpkey_parse :: "ch_dns_rdata \<Rightarrow> ch_dns_rdata_openpgpkey \<Rightarrow> (int \<times> ch_dns_rdata_openpgpkey) res" where
  "rdata_openpgpkey_parse rd r = rdata_parse 1 rd
     [rd_rdlen openpgpkey_key_len_update, rd_check (\<lambda>r. unat (openpgpkey_key_len r)), rd_rbytes openpgpkey_key_update] r"

subsection \<open>\<^verbatim>\<open>ch_dns_rdata_px.c\<close>\<close>

record ch_dns_rdata_px =
  px_preference :: u16
  px_map822 :: ch_dns_name
  px_mapx400 :: ch_dns_name

definition rdata_px_create :: ch_dns_rdata_px where
  "rdata_px_create = \<lparr>px_preference = 0, px_map822 = CH_DNS_NAME_INIT, px_mapx400 = CH_DNS_NAME_INIT\<rparr>"

definition rdata_px_parse :: "ch_dns_rdata \<Rightarrow> ch_dns_rdata_px \<Rightarrow> (int \<times> ch_dns_rdata_px) res" where
  "rdata_px_parse rd r = rdata_parse 2 rd
     [rd_uint16 px_preference_update, rd_name px_map822_update, rd_name px_mapx400_update] r"

subsection \<open>\<^verbatim>\<open>ch_dns_rdata_rp.c\<close>\<close>

record ch_dns_rdata_rp =
  rp_mailbox :: ch_dns_name
  rp_textdomain :: ch_dns_name

definition rdata_rp_create :: ch_dns_rdata_rp where
  "rdata_rp_create = \<lparr>rp_mailbox = CH_DNS_NAME_INIT, rp_textdomain = CH_DNS_NAME_INIT\<rparr>"

definition rdata_rp_parse :: "ch_dns_rdata \<Rightarrow> ch_dns_rdata_rp \<Rightarrow> (int \<times> ch_dns_rdata_rp) res" where
  "rdata_rp_parse rd r = rdata_parse 1 rd
     [rd_name rp_mailbox_update, rd_name rp_textdomain_update] r"

subsection \<open>\<^verbatim>\<open>ch_dns_rdata_rrsig.c\<close>\<close>

record ch_dns_rdata_rrsig =
  rrsig_sig :: ch_dns_sec_sig

definition rdata_rrsig_create :: ch_dns_rdata_rrsig where
  "rdata_rrsig_create = \<lparr>rrsig_sig = ch_dns_sec_sig_init\<rparr>"

definition rdata_rrsig_parse :: "ch_dns_rdata \<Rightarrow> ch_dns_rdata_rrsig \<Rightarrow> (int \<times> ch_dns_rdata_rrsig) res" where
  "rdata_rrsig_parse rd r = rdata_parse 18 rd
     [rd_call ch_dns_sec_sig_parse rrsig_sig rrsig_sig_update] r"

subsection \<open>\<^verbatim>\<open>ch_dns_rdata_rt.c\<close>\<close>

record ch_dns_rdata_rt =
  rt_preference :: u16
  rt_midhost :: ch_dns_name

definition rdata_rt_create :: ch_dns_rdata_rt where
  "rdata_rt_create = \<lparr>rt_preference = 0, rt_midhost = CH_DNS_NAME_INIT\<rparr>"

definition rdata_rt_parse :: "ch_dns_rdata \<Rightarrow> ch_dns_rdata_rt \<Rightarrow> (int \<times> ch_dns_rdata_rt) res" where
  "rdata_rt_parse rd r = rdata_parse 2 rd
     [rd_uint16 rt_preference_update, rd_name rt_midhost_update] r"

subsection \<open>\<^verbatim>\<open>ch_dns_rdata_sig.c\<close>\<close>

record ch_dns_rdata_sig =
  sig_sig :: ch_dns_sec_sig

definition rdata_sig_create :: ch_dns_rdata_sig where
  "rdata_sig_create = \<lparr>sig_sig = ch_dns_sec_sig_init\<rparr>"

definition rdata_sig_parse :: "ch_dns_rdata \<Rightarrow> ch_dns_rdata_sig \<Rightarrow> (int \<times> ch_dns_rdata_sig) res" where
  "rdata_sig_parse rd r = rdata_parse 18 rd
     [rd_call ch_dns_sec_sig_parse sig_sig sig_sig_update] r"

subsection \<open>\<^verbatim>\<open>ch_dns_rdata_smimea.c\<close>\<close>

record ch_dns_rdata_smimea =
  smimea_cert_usage :: u8
  smimea_selector :: u8
  smimea_matching_type :: u8
  smimea_cert_dlen :: u16
  smimea_cert_data :: "bytes option"

definition rdata_smimea_create :: ch_dns_rdata_smimea where
  "rdata_smimea_create = \<lparr>smimea_cert_usage = 0, smimea_selector = 0, smimea_matching_type = 0, smimea_cert_dlen = 0, smimea_cert_data = None\<rparr>"

definition rdata_smimea_parse :: "ch_dns_rdata \<Rightarrow> ch_dns_rdata_smimea \<Rightarrow> (int \<times> ch_dns_rdata_smimea) res" where
  "rdata_smimea_parse rd r = rdata_parse 3 rd
     [rd_uint8 smimea_cert_usage_update, rd_uint8 smimea_selector_update, rd_uint8 smimea_matching_type_update, rd_rdlen smimea_cert_dlen_update,
      rd_check (\<lambda>r. unat (smimea_cert_dlen r)), rd_bytes (\<lambda>r. unat (smimea_cert_dlen r)) smimea_cert_data_update] r"

subsection \<open>\<^verbatim>\<open>ch_dns_rdata_spf.c\<close>\<close>

record ch_dns_rdata_spf =
  spf_txt_base :: "bytes list"

definition rdata_spf_create :: ch_dns_rdata_spf where
  "rdata_spf_create = \<lparr>spf_txt_base = []\<rparr>"

definition rdata_spf_parse :: "ch_dns_rdata \<Rightarrow> ch_dns_rdata_spf \<Rightarrow> (int \<times> ch_dns_rdata_spf) res" where
  "rdata_spf_parse rd r = rdata_parse 1 rd
     [rd_call ch_dns_txt_base_parse spf_txt_base spf_txt_base_update] r"

subsection \<open>\<^verbatim>\<open>ch_dns_rdata_srv.c\<close>\<close>

record ch_dns_rdata_srv =
  srv_priority :: u16
  srv_weight :: u16
  srv_port :: u16
  srv_target :: ch_dns_name

definition rdata_srv_create :: ch_dns_rdata_srv where
  "rdata_srv_create = \<lparr>srv_priority = 0, srv_weight = 0, srv_port = 0, srv_target = CH_DNS_NAME_INIT\<rparr>"

definition rdata_srv_parse :: "ch_dns_rdata \<Rightarrow> ch_dns_rdata_srv \<Rightarrow> (int \<times> ch_dns_rdata_srv) res" where
  "rdata_srv_parse rd r = rdata_parse 6 rd
     [rd_uint16 srv_priority_update, rd_uint16 srv_weight_update, rd_uint16 srv_port_update, rd_name srv_target_update] r"

subsection \<open>\<^verbatim>\<open>ch_dns_rdata_sshfp.c\<close>\<close>

record ch_dns_rdata_sshfp =
  sshfp_alg :: u8
  sshfp_digest_type :: u8
  sshfp_fp_len :: u16
  sshfp_fingerprint :: "bytes option"

definition rdata_sshfp_create :: ch_dns_rdata_sshfp where
  "rdata_sshfp_create = \<lparr>sshfp_alg = 0, sshfp_digest_type = 0, sshfp_fp_len = 0, sshfp_fingerprint = None\<rparr>"

definition rdata_sshfp_parse :: "ch_dns_rdata \<Rightarrow> ch_dns_rdata_sshfp \<Rightarrow> (int \<times> ch_dns_rdata_sshfp) res" where
  "rdata_sshfp_parse rd r = rdata_parse 2 rd
     [rd_uint8 sshfp_alg_update, rd_uint8 sshfp_digest_type_update, rd_rdlen sshfp_fp_len_update, rd_check (\<lambda>r. unat (sshfp_fp_len r)),
      rd_rbytes sshfp_fingerprint_update] r"

subsection \<open>\<^verbatim>\<open>ch_dns_rdata_tkey.c\<close>\<close>

record ch_dns_rdata_tkey =
  tkey_alg :: ch_dns_name
  tkey_time_inception :: u32
  tkey_time_expire :: u32
  tkey_mode :: u16
  tkey_error :: u16
  tkey_key_len :: u16
  tkey_key :: "bytes option"
  tkey_other_len :: u16
  tkey_other :: "bytes option"

definition rdata_tkey_create :: ch_dns_rdata_tkey where
  "rdata_tkey_create = \<lparr>tkey_alg = CH_DNS_NAME_INIT, tkey_time_inception = 0, tkey_time_expire = 0, tkey_mode = 0, tkey_error = 0, tkey_key_len = 0, tkey_key = None,
     tkey_other_len = 0, tkey_other = None\<rparr>"

definition rdata_tkey_parse :: "ch_dns_rdata \<Rightarrow> ch_dns_rdata_tkey \<Rightarrow> (int \<times> ch_dns_rdata_tkey) res" where
  "rdata_tkey_parse rd r = rdata_parse 16 rd
     [rd_name tkey_alg_update, rd_uint32 tkey_time_inception_update, rd_uint32 tkey_time_expire_update, rd_uint16 tkey_mode_update,
      rd_uint16 tkey_error_update, rd_uint16 tkey_key_len_update, rd_check (\<lambda>r. unat (tkey_key_len r)),
      rd_when (\<lambda>r. tkey_key_len r \<noteq> 0) (rd_bytes (\<lambda>r. unat (tkey_key_len r)) tkey_key_update),
      rd_uint16 tkey_other_len_update, rd_check (\<lambda>r. unat (tkey_other_len r)),
      rd_when (\<lambda>r. tkey_other_len r \<noteq> 0) (rd_bytes (\<lambda>r. unat (tkey_other_len r)) tkey_other_update)] r"

subsection \<open>\<^verbatim>\<open>ch_dns_rdata_tlsa.c\<close>\<close>

record ch_dns_rdata_tlsa =
  tlsa_cert_usage :: u8
  tlsa_selector :: u8
  tlsa_matching_type :: u8
  tlsa_cert_dlen :: u16
  tlsa_cert_data :: "bytes option"

definition rdata_tlsa_create :: ch_dns_rdata_tlsa where
  "rdata_tlsa_create = \<lparr>tlsa_cert_usage = 0, tlsa_selector = 0, tlsa_matching_type = 0, tlsa_cert_dlen = 0, tlsa_cert_data = None\<rparr>"

definition rdata_tlsa_parse :: "ch_dns_rdata \<Rightarrow> ch_dns_rdata_tlsa \<Rightarrow> (int \<times> ch_dns_rdata_tlsa) res" where
  "rdata_tlsa_parse rd r = rdata_parse 3 rd
     [rd_uint8 tlsa_cert_usage_update, rd_uint8 tlsa_selector_update, rd_uint8 tlsa_matching_type_update, rd_rdlen tlsa_cert_dlen_update,
      rd_check (\<lambda>r. unat (tlsa_cert_dlen r)), rd_bytes (\<lambda>r. unat (tlsa_cert_dlen r)) tlsa_cert_data_update] r"

subsection \<open>\<^verbatim>\<open>ch_dns_rdata_tsig.c\<close>\<close>

record ch_dns_rdata_tsig =
  tsig_alg :: ch_dns_name
  tsig_timeSigned :: u64
  tsig_fudge :: u16
  tsig_sig_len :: u16
  tsig_signature :: "bytes option"
  tsig_orig_id :: u16
  tsig_error :: u16
  tsig_other_len :: u16
  tsig_other :: "bytes option"

definition rdata_tsig_create :: ch_dns_rdata_tsig where
  "rdata_tsig_create = \<lparr>tsig_alg = CH_DNS_NAME_INIT, tsig_timeSigned = 0, tsig_fudge = 0, tsig_sig_len = 0, tsig_signature = None, tsig_orig_id = 0, tsig_error = 0,
     tsig_other_len = 0, tsig_other = None\<rparr>"

definition rdata_tsig_parse :: "ch_dns_rdata \<Rightarrow> ch_dns_rdata_tsig \<Rightarrow> (int \<times> ch_dns_rdata_tsig) res" where
  "rdata_tsig_parse rd r = rdata_parse 16 rd
     [rd_name tsig_alg_update, rd_time tsig_timeSigned_update, rd_uint16 tsig_fudge_update, rd_uint16 tsig_sig_len_update,
      rd_check (\<lambda>r. unat (tsig_sig_len r)), rd_when (\<lambda>r. tsig_sig_len r \<noteq> 0) (rd_bytes (\<lambda>r. unat (tsig_sig_len r)) tsig_signature_update),
      rd_uint16 tsig_orig_id_update, rd_uint16 tsig_error_update, rd_uint16 tsig_other_len_update, rd_check (\<lambda>r. unat (tsig_other_len r)),
      rd_when (\<lambda>r. tsig_other_len r \<noteq> 0) (rd_bytes (\<lambda>r. unat (tsig_other_len r)) tsig_other_update)] r"

subsection \<open>\<^verbatim>\<open>ch_dns_rdata_x25.c\<close>\<close>

record ch_dns_rdata_x25 =
  x25_address :: "bytes option"

definition rdata_x25_create :: ch_dns_rdata_x25 where
  "rdata_x25_create = \<lparr>x25_address = None\<rparr>"

definition rdata_x25_parse :: "ch_dns_rdata \<Rightarrow> ch_dns_rdata_x25 \<Rightarrow> (int \<times> ch_dns_rdata_x25) res" where
  "rdata_x25_parse rd r = rdata_parse 1 rd
     [rd_bstring x25_address_update] r"

subsection \<open>\<^verbatim>\<open>ch_dns_rdata_uri.c\<close>\<close>

record ch_dns_rdata_uri =
  uri_priority :: u16
  uri_weight :: u16
  uri_target_len :: u16
  uri_target :: "bytes option"

definition rdata_uri_create :: ch_dns_rdata_uri where
  "rdata_uri_create = \<lparr>uri_priority = 0, uri_weight = 0, uri_target_len = 0, uri_target = None\<rparr>"

definition rdata_uri_parse :: "ch_dns_rdata \<Rightarrow> ch_dns_rdata_uri \<Rightarrow> (int \<times> ch_dns_rdata_uri) res" where
  "rdata_uri_parse rd r = rdata_parse 4 rd
     [rd_uint16 uri_priority_update, rd_uint16 uri_weight_update, rd_rdlen uri_target_len_update, rd_check (\<lambda>r. unat (uri_target_len r)),
      rd_when (\<lambda>r. uri_target_len r \<noteq> 0) (rd_bytes (\<lambda>r. unat (uri_target_len r)) uri_target_update)] r"

subsection \<open>\<^verbatim>\<open>ch_dns_rdata_apl.c\<close>\<close>

record ch_dns_rdata_apl_entry =
  ae_family :: u16
  ae_prefix :: u8
  ae_neg :: u8
  ae_dlen :: u8
  ae_data :: "bytes option"

record ch_dns_rdata_apl =
  apl_entries :: "ch_dns_rdata_apl_entry list"
  apl_entries_n :: u16

definition rdata_apl_create :: ch_dns_rdata_apl where
  "rdata_apl_create = \<lparr>apl_entries = [], apl_entries_n = 0\<rparr>"

text \<open>The byte that holds the negation and the length.\<close>

definition rd_apl_len :: "ch_dns_rdata_apl_entry rd_step" where
  "rd_apl_len r din =
     (let (v, din) = ch_dns_data_input_uint8_read din
      in Inr (True, r\<lparr>ae_neg := (if v AND 0x80 \<noteq> 0 then 1 else 0), ae_dlen := v AND NOT 0x80\<rparr>, din))"

definition apl_entry_create :: "ch_dns_data_input \<Rightarrow> (bool \<times> ch_dns_rdata_apl_entry \<times> ch_dns_data_input) res" where
  "apl_entry_create =
     rd_steps [rd_uint16 ae_family_update, rd_uint8 ae_prefix_update, rd_apl_len, rd_check (\<lambda>r. unat (ae_dlen r)),
               rd_bytes (\<lambda>r. unat (ae_dlen r)) ae_data_update]
       \<lparr>ae_family = 0, ae_prefix = 0, ae_neg = 0, ae_dlen = 0, ae_data = None\<rparr>"

lemma rd_apl_len_moves: "rd_moves rd_apl_len"
  by (auto simp: rd_moves_def rd_apl_len_def ch_dns_data_input_uint8_read_def Let_def split: prod.splits dest: dns_int_read_moves)

lemmas rd_moves_simps = rd_moves_ints rd_moves_bytes rd_apl_len_moves

text \<open>
  The loop over the entries ends when nothing, or too little for an entry, is left. The position does not pass the end of the
  record here, so what is left is not negative.
\<close>

lemma apl_entry_moves:
  assumes "apl_entry_create din = Inr (True, e, din')" "\<not> ch_dns_data_input_rdlen din < 4"
  shows "dlast din' = dlast din \<and> dpos din < dpos din' \<and> dpos din < dlast din"
  using assms rd_steps_advance [OF assms(1) [unfolded apl_entry_create_def]] by (simp add: rd_moves_simps din_macros)

function apl_loop :: "ch_dns_rdata_apl \<Rightarrow> ch_dns_data_input \<Rightarrow> (ch_dns_rdata_apl \<times> ch_dns_data_input) res" where
  "apl_loop r din =
     (if ch_dns_data_input_rdlen din < 4 then Inr (r, din)
      else
        case apl_entry_create din of
          Inl e \<Rightarrow> Inl e
        | Inr (False, _, din) \<Rightarrow> Inr (r, din)
        | Inr (True, entry, din) \<Rightarrow> apl_loop (r\<lparr>apl_entries := apl_entries r @ [entry], apl_entries_n := apl_entries_n r + 1\<rparr>) din)"
  by pat_completeness auto

termination
  by (relation "measure (\<lambda>(r, din). dlast din - dpos din)") (auto dest: apl_entry_moves)

declare apl_loop.simps [simp del]

definition rdata_apl_parse :: "ch_dns_rdata \<Rightarrow> ch_dns_rdata_apl \<Rightarrow> (int \<times> ch_dns_rdata_apl) res" where
  "rdata_apl_parse rd r = rdata_parse 1 rd
     [\<lambda>r din. bind_res (apl_loop r din) (\<lambda>(r, din). Inr (True, r, din))] r"

subsection \<open>\<^verbatim>\<open>ch_dns_rdata_opt.c\<close>\<close>

record ch_dns_rdata_opt_entry =
  oe_code :: u16
  oe_dlen :: u16
  oe_data :: "bytes option"

record ch_dns_rdata_opt =
  opt_entries :: "ch_dns_rdata_opt_entry list"
  opt_entries_n :: u16

definition rdata_opt_create :: ch_dns_rdata_opt where
  "rdata_opt_create = \<lparr>opt_entries = [], opt_entries_n = 0\<rparr>"

definition opt_entry_create :: "ch_dns_data_input \<Rightarrow> (bool \<times> ch_dns_rdata_opt_entry \<times> ch_dns_data_input) res" where
  "opt_entry_create =
     rd_steps [rd_uint16 oe_code_update, rd_uint16 oe_dlen_update, rd_check (\<lambda>r. unat (oe_dlen r)),
               rd_bytes (\<lambda>r. unat (oe_dlen r)) oe_data_update]
       \<lparr>oe_code = 0, oe_dlen = 0, oe_data = None\<rparr>"

lemma opt_entry_moves:
  assumes "opt_entry_create din = Inr (True, e, din')" "\<not> ch_dns_data_input_rdlen din < 4"
  shows "dlast din' = dlast din \<and> dpos din < dpos din' \<and> dpos din < dlast din"
  using assms rd_steps_advance [OF assms(1) [unfolded opt_entry_create_def]] by (simp add: rd_moves_simps din_macros)

function opt_loop :: "ch_dns_rdata_opt \<Rightarrow> ch_dns_data_input \<Rightarrow> (ch_dns_rdata_opt \<times> ch_dns_data_input) res" where
  "opt_loop r din =
     (if ch_dns_data_input_rdlen din < 4 then Inr (r, din)
      else
        case opt_entry_create din of
          Inl e \<Rightarrow> Inl e
        | Inr (False, _, din) \<Rightarrow> Inr (r, din)
        | Inr (True, entry, din) \<Rightarrow> opt_loop (r\<lparr>opt_entries := opt_entries r @ [entry], opt_entries_n := opt_entries_n r + 1\<rparr>) din)"
  by pat_completeness auto

termination
  by (relation "measure (\<lambda>(r, din). dlast din - dpos din)") (auto dest: opt_entry_moves)

declare opt_loop.simps [simp del]

definition rdata_opt_parse :: "ch_dns_rdata \<Rightarrow> ch_dns_rdata_opt \<Rightarrow> (int \<times> ch_dns_rdata_opt) res" where
  "rdata_opt_parse rd r = rdata_parse 1 rd
     [\<lambda>r din. bind_res (opt_loop r din) (\<lambda>(r, din). Inr (True, r, din))] r"

subsection \<open>\<^verbatim>\<open>ch_dns_rdata_ipseckey.c\<close>\<close>

text \<open>Network byte order on the little-endian targets.\<close>

definition htonl :: "u32 \<Rightarrow> u32" where
  "htonl v = push_bit 24 (v AND 0xff) OR push_bit 8 (v AND 0xff00) OR (drop_bit 8 v AND 0xff00) OR drop_bit 24 v"

record ch_dns_rdata_ipseckey =
  ipseckey_precedence :: u8
  ipseckey_gateway_type :: u8
  ipseckey_alg :: u8
  ipseckey_in_addr :: u32
  ipseckey_in6_addr :: bytes
  ipseckey_gateway :: ch_dns_name
  ipseckey_key_len :: u16
  ipseckey_key :: "bytes option"

definition rdata_ipseckey_create :: ch_dns_rdata_ipseckey where
  "rdata_ipseckey_create = \<lparr>ipseckey_precedence = 0, ipseckey_gateway_type = 0, ipseckey_alg = 0, ipseckey_in_addr = 0,
     ipseckey_in6_addr = replicate 16 0, ipseckey_gateway = CH_DNS_NAME_INIT, ipseckey_key_len = 0, ipseckey_key = None\<rparr>"

text \<open>The switch on the type of the gateway. The 16 bytes are copied without a check, the result of the name is not looked at.\<close>

definition rd_gateway :: "ch_dns_rdata_ipseckey rd_step" where
  "rd_gateway r din =
     (if ipseckey_gateway_type r = 1 then
        let (v, din) = ch_dns_data_input_uint32_read din in Inr (True, r\<lparr>ipseckey_in_addr := htonl v\<rparr>, din)
      else if ipseckey_gateway_type r = 2 then
        if dpos din + 16 \<le> length (dmem din)
        then Inr (True, r\<lparr>ipseckey_in6_addr := take 16 (drop (dpos din) (dmem din))\<rparr>, ch_dns_data_input_pos_update din 16)
        else Inl Out_Of_Bounds
      else if ipseckey_gateway_type r = 3 then
        bind_res (ch_dns_name_parse din) (\<lambda>x.
          case x of None \<Rightarrow> Inr (True, r, din) | Some (n, din) \<Rightarrow> Inr (True, r\<lparr>ipseckey_gateway := n\<rparr>, din))
      else Inr (True, r, din))"

definition rdata_ipseckey_parse :: "ch_dns_rdata \<Rightarrow> ch_dns_rdata_ipseckey \<Rightarrow> (int \<times> ch_dns_rdata_ipseckey) res" where
  "rdata_ipseckey_parse rd r = rdata_parse 3 rd
     [rd_uint8 ipseckey_precedence_update, rd_uint8 ipseckey_gateway_type_update, rd_uint8 ipseckey_alg_update, rd_gateway,
      rd_rdlen ipseckey_key_len_update, rd_check (\<lambda>r. unat (ipseckey_key_len r)), rd_rbytes ipseckey_key_update] r"

section \<open>The pool of parsers\<close>

text \<open>The object a parser makes; \<open>RB_none\<close> stands for a record of a type that has no parser, whose function pointers are \<^verbatim>\<open>NULL\<close>.\<close>

datatype (plugins only: code) rdata_body =
    RB_none
  | RB_ipv4 ch_dns_rdata_ipv4
  | RB_ipv6 ch_dns_rdata_ipv6
  | RB_cname ch_dns_rdata_cname
  | RB_afsdb ch_dns_rdata_afsdb
  | RB_txt ch_dns_rdata_txt
  | RB_hinfo ch_dns_rdata_hinfo
  | RB_minfo ch_dns_rdata_minfo
  | RB_mb ch_dns_rdata_mb
  | RB_mf ch_dns_rdata_mf
  | RB_md ch_dns_rdata_md
  | RB_mg ch_dns_rdata_mg
  | RB_mr ch_dns_rdata_mr
  | RB_mx ch_dns_rdata_mx
  | RB_ns ch_dns_rdata_ns
  | RB_null ch_dns_rdata_null
  | RB_ptr ch_dns_rdata_ptr
  | RB_soa ch_dns_rdata_soa
  | RB_wks ch_dns_rdata_wks
  | RB_caa ch_dns_rdata_caa
  | RB_cert ch_dns_rdata_cert
  | RB_dhcid ch_dns_rdata_dhcid
  | RB_dlv ch_dns_rdata_dlv
  | RB_apl ch_dns_rdata_apl
  | RB_dname ch_dns_rdata_dname
  | RB_dnskey ch_dns_rdata_dnskey
  | RB_ds ch_dns_rdata_ds
  | RB_gpos ch_dns_rdata_gpos
  | RB_ipseckey ch_dns_rdata_ipseckey
  | RB_isdn ch_dns_rdata_isdn
  | RB_key ch_dns_rdata_key
  | RB_kx ch_dns_rdata_kx
  | RB_loc ch_dns_rdata_loc
  | RB_naptr ch_dns_rdata_naptr
  | RB_nsap_ptr ch_dns_rdata_nsap_ptr
  | RB_nsap ch_dns_rdata_nsap
  | RB_nsec3param ch_dns_rdata_nsec3param
  | RB_nsec3 ch_dns_rdata_nsec3
  | RB_nsec ch_dns_rdata_nsec
  | RB_nxt ch_dns_rdata_nxt
  | RB_openpgpkey ch_dns_rdata_openpgpkey
  | RB_opt ch_dns_rdata_opt
  | RB_px ch_dns_rdata_px
  | RB_rp ch_dns_rdata_rp
  | RB_rrsig ch_dns_rdata_rrsig
  | RB_rt ch_dns_rdata_rt
  | RB_sig ch_dns_rdata_sig
  | RB_smimea ch_dns_rdata_smimea
  | RB_spf ch_dns_rdata_spf
  | RB_srv ch_dns_rdata_srv
  | RB_sshfp ch_dns_rdata_sshfp
  | RB_tkey ch_dns_rdata_tkey
  | RB_tlsa ch_dns_rdata_tlsa
  | RB_tsig ch_dns_rdata_tsig
  | RB_x25 ch_dns_rdata_x25
  | RB_uri ch_dns_rdata_uri

definition dns_rdatatype_a :: u16 where "dns_rdatatype_a = 1"
definition dns_rdatatype_aaaa :: u16 where "dns_rdatatype_aaaa = 28"
definition dns_rdatatype_cname :: u16 where "dns_rdatatype_cname = 5"
definition dns_rdatatype_afsdb :: u16 where "dns_rdatatype_afsdb = 18"
definition dns_rdatatype_txt :: u16 where "dns_rdatatype_txt = 16"
definition dns_rdatatype_hinfo :: u16 where "dns_rdatatype_hinfo = 13"
definition dns_rdatatype_minfo :: u16 where "dns_rdatatype_minfo = 14"
definition dns_rdatatype_mb :: u16 where "dns_rdatatype_mb = 7"
definition dns_rdatatype_mf :: u16 where "dns_rdatatype_mf = 4"
definition dns_rdatatype_md :: u16 where "dns_rdatatype_md = 3"
definition dns_rdatatype_mg :: u16 where "dns_rdatatype_mg = 8"
definition dns_rdatatype_mr :: u16 where "dns_rdatatype_mr = 9"
definition dns_rdatatype_mx :: u16 where "dns_rdatatype_mx = 15"
definition dns_rdatatype_ns :: u16 where "dns_rdatatype_ns = 2"
definition dns_rdatatype_null :: u16 where "dns_rdatatype_null = 10"
definition dns_rdatatype_ptr :: u16 where "dns_rdatatype_ptr = 12"
definition dns_rdatatype_soa :: u16 where "dns_rdatatype_soa = 6"
definition dns_rdatatype_wks :: u16 where "dns_rdatatype_wks = 11"
definition dns_rdatatype_caa :: u16 where "dns_rdatatype_caa = 257"
definition dns_rdatatype_cert :: u16 where "dns_rdatatype_cert = 37"
definition dns_rdatatype_dhcid :: u16 where "dns_rdatatype_dhcid = 49"
definition dns_rdatatype_dlv :: u16 where "dns_rdatatype_dlv = 32769"
definition dns_rdatatype_apl :: u16 where "dns_rdatatype_apl = 42"
definition dns_rdatatype_dname :: u16 where "dns_rdatatype_dname = 39"
definition dns_rdatatype_dnskey :: u16 where "dns_rdatatype_dnskey = 48"
definition dns_rdatatype_ds :: u16 where "dns_rdatatype_ds = 43"
definition dns_rdatatype_gpos :: u16 where "dns_rdatatype_gpos = 27"
definition dns_rdatatype_ipseckey :: u16 where "dns_rdatatype_ipseckey = 45"
definition dns_rdatatype_isdn :: u16 where "dns_rdatatype_isdn = 20"
definition dns_rdatatype_key :: u16 where "dns_rdatatype_key = 25"
definition dns_rdatatype_kx :: u16 where "dns_rdatatype_kx = 36"
definition dns_rdatatype_loc :: u16 where "dns_rdatatype_loc = 29"
definition dns_rdatatype_naptr :: u16 where "dns_rdatatype_naptr = 35"
definition dns_rdatatype_nsap_ptr :: u16 where "dns_rdatatype_nsap_ptr = 23"
definition dns_rdatatype_nsap :: u16 where "dns_rdatatype_nsap = 22"
definition dns_rdatatype_nsec3param :: u16 where "dns_rdatatype_nsec3param = 51"
definition dns_rdatatype_nsec3 :: u16 where "dns_rdatatype_nsec3 = 50"
definition dns_rdatatype_nsec :: u16 where "dns_rdatatype_nsec = 47"
definition dns_rdatatype_nxt :: u16 where "dns_rdatatype_nxt = 30"
definition dns_rdatatype_openpgpkey :: u16 where "dns_rdatatype_openpgpkey = 61"
definition dns_rdatatype_opt :: u16 where "dns_rdatatype_opt = 41"
definition dns_rdatatype_px :: u16 where "dns_rdatatype_px = 26"
definition dns_rdatatype_rp :: u16 where "dns_rdatatype_rp = 17"
definition dns_rdatatype_rrsig :: u16 where "dns_rdatatype_rrsig = 46"
definition dns_rdatatype_rt :: u16 where "dns_rdatatype_rt = 21"
definition dns_rdatatype_sig :: u16 where "dns_rdatatype_sig = 24"
definition dns_rdatatype_smimea :: u16 where "dns_rdatatype_smimea = 53"
definition dns_rdatatype_spf :: u16 where "dns_rdatatype_spf = 99"
definition dns_rdatatype_srv :: u16 where "dns_rdatatype_srv = 33"
definition dns_rdatatype_sshfp :: u16 where "dns_rdatatype_sshfp = 44"
definition dns_rdatatype_tkey :: u16 where "dns_rdatatype_tkey = 249"
definition dns_rdatatype_tlsa :: u16 where "dns_rdatatype_tlsa = 52"
definition dns_rdatatype_tsig :: u16 where "dns_rdatatype_tsig = 250"
definition dns_rdatatype_x25 :: u16 where "dns_rdatatype_x25 = 19"
definition dns_rdatatype_uri :: u16 where "dns_rdatatype_uri = 256"

lemmas dns_rdatatype_defs =
  dns_rdatatype_a_def dns_rdatatype_aaaa_def dns_rdatatype_cname_def dns_rdatatype_afsdb_def dns_rdatatype_txt_def dns_rdatatype_hinfo_def
  dns_rdatatype_minfo_def dns_rdatatype_mb_def dns_rdatatype_mf_def dns_rdatatype_md_def dns_rdatatype_mg_def dns_rdatatype_mr_def
  dns_rdatatype_mx_def dns_rdatatype_ns_def dns_rdatatype_null_def dns_rdatatype_ptr_def dns_rdatatype_soa_def dns_rdatatype_wks_def
  dns_rdatatype_caa_def dns_rdatatype_cert_def dns_rdatatype_dhcid_def dns_rdatatype_dlv_def dns_rdatatype_apl_def dns_rdatatype_dname_def
  dns_rdatatype_dnskey_def dns_rdatatype_ds_def dns_rdatatype_gpos_def dns_rdatatype_ipseckey_def dns_rdatatype_isdn_def dns_rdatatype_key_def
  dns_rdatatype_kx_def dns_rdatatype_loc_def dns_rdatatype_naptr_def dns_rdatatype_nsap_ptr_def dns_rdatatype_nsap_def
  dns_rdatatype_nsec3param_def dns_rdatatype_nsec3_def dns_rdatatype_nsec_def dns_rdatatype_nxt_def dns_rdatatype_openpgpkey_def
  dns_rdatatype_opt_def dns_rdatatype_px_def dns_rdatatype_rp_def dns_rdatatype_rrsig_def dns_rdatatype_rt_def dns_rdatatype_sig_def
  dns_rdatatype_smimea_def dns_rdatatype_spf_def dns_rdatatype_srv_def dns_rdatatype_sshfp_def dns_rdatatype_tkey_def dns_rdatatype_tlsa_def
  dns_rdatatype_tsig_def dns_rdatatype_x25_def dns_rdatatype_uri_def

definition dns_rdataclass_in :: u16 where "dns_rdataclass_in = 1"

text \<open>
  \<^verbatim>\<open>rdata_parse\<close> is only called with the object that \<^verbatim>\<open>rdata_create\<close> has just made.
\<close>

record ch_dns_rdata_parser =
  pr_dclass :: u16
  pr_type :: u16
  pr_create :: rdata_body
  pr_parse :: "ch_dns_rdata \<Rightarrow> (int \<times> rdata_body) res"

definition rdata_parser :: "u16 \<Rightarrow> ('r \<Rightarrow> rdata_body) \<Rightarrow> 'r \<Rightarrow> (ch_dns_rdata \<Rightarrow> 'r \<Rightarrow> (int \<times> 'r) res) \<Rightarrow> ch_dns_rdata_parser" where
  "rdata_parser ty RB create parse = \<lparr>pr_dclass = dns_rdataclass_in, pr_type = ty, pr_create = RB create,
     pr_parse = (\<lambda>rd. bind_res (parse rd create) (\<lambda>(rc, r). Inr (rc, RB r)))\<rparr>"

definition dns_ipv4_parser :: ch_dns_rdata_parser where
  "dns_ipv4_parser = rdata_parser dns_rdatatype_a RB_ipv4 rdata_ipv4_create rdata_ipv4_parse"

definition dns_ipv6_parser :: ch_dns_rdata_parser where
  "dns_ipv6_parser = rdata_parser dns_rdatatype_aaaa RB_ipv6 rdata_ipv6_create rdata_ipv6_parse"

definition cname_parser :: ch_dns_rdata_parser where
  "cname_parser = rdata_parser dns_rdatatype_cname RB_cname rdata_cname_create rdata_cname_parse"

definition afsdb_parser :: ch_dns_rdata_parser where
  "afsdb_parser = rdata_parser dns_rdatatype_afsdb RB_afsdb rdata_afsdb_create rdata_afsdb_parse"

definition txt_parser :: ch_dns_rdata_parser where
  "txt_parser = rdata_parser dns_rdatatype_txt RB_txt rdata_txt_create rdata_txt_parse"

definition hinfo_parser :: ch_dns_rdata_parser where
  "hinfo_parser = rdata_parser dns_rdatatype_hinfo RB_hinfo rdata_hinfo_create rdata_hinfo_parse"

definition minfo_parser :: ch_dns_rdata_parser where
  "minfo_parser = rdata_parser dns_rdatatype_minfo RB_minfo rdata_minfo_create rdata_minfo_parse"

definition mb_parser :: ch_dns_rdata_parser where
  "mb_parser = rdata_parser dns_rdatatype_mb RB_mb rdata_mb_create rdata_mb_parse"

definition mf_parser :: ch_dns_rdata_parser where
  "mf_parser = rdata_parser dns_rdatatype_mf RB_mf rdata_mf_create rdata_mf_parse"

definition md_parser :: ch_dns_rdata_parser where
  "md_parser = rdata_parser dns_rdatatype_md RB_md rdata_md_create rdata_md_parse"

definition mg_parser :: ch_dns_rdata_parser where
  "mg_parser = rdata_parser dns_rdatatype_mg RB_mg rdata_mg_create rdata_mg_parse"

definition mr_parser :: ch_dns_rdata_parser where
  "mr_parser = rdata_parser dns_rdatatype_mr RB_mr rdata_mr_create rdata_mr_parse"

definition mx_parser :: ch_dns_rdata_parser where
  "mx_parser = rdata_parser dns_rdatatype_mx RB_mx rdata_mx_create rdata_mx_parse"

definition ns_parser :: ch_dns_rdata_parser where
  "ns_parser = rdata_parser dns_rdatatype_ns RB_ns rdata_ns_create rdata_ns_parse"

definition null_parser :: ch_dns_rdata_parser where
  "null_parser = rdata_parser dns_rdatatype_null RB_null rdata_null_create rdata_null_parse"

definition ptr_parser :: ch_dns_rdata_parser where
  "ptr_parser = rdata_parser dns_rdatatype_ptr RB_ptr rdata_ptr_create rdata_ptr_parse"

definition soa_parser :: ch_dns_rdata_parser where
  "soa_parser = rdata_parser dns_rdatatype_soa RB_soa rdata_soa_create rdata_soa_parse"

definition wks_parser :: ch_dns_rdata_parser where
  "wks_parser = rdata_parser dns_rdatatype_wks RB_wks rdata_wks_create rdata_wks_parse"

definition caa_parser :: ch_dns_rdata_parser where
  "caa_parser = rdata_parser dns_rdatatype_caa RB_caa rdata_caa_create rdata_caa_parse"

definition cert_parser :: ch_dns_rdata_parser where
  "cert_parser = rdata_parser dns_rdatatype_cert RB_cert rdata_cert_create rdata_cert_parse"

definition dhcid_parser :: ch_dns_rdata_parser where
  "dhcid_parser = rdata_parser dns_rdatatype_dhcid RB_dhcid rdata_dhcid_create rdata_dhcid_parse"

definition dlv_parser :: ch_dns_rdata_parser where
  "dlv_parser = rdata_parser dns_rdatatype_dlv RB_dlv rdata_dlv_create rdata_dlv_parse"

definition apl_parser :: ch_dns_rdata_parser where
  "apl_parser = rdata_parser dns_rdatatype_apl RB_apl rdata_apl_create rdata_apl_parse"

definition dname_parser :: ch_dns_rdata_parser where
  "dname_parser = rdata_parser dns_rdatatype_dname RB_dname rdata_dname_create rdata_dname_parse"

definition dnskey_parser :: ch_dns_rdata_parser where
  "dnskey_parser = rdata_parser dns_rdatatype_dnskey RB_dnskey rdata_dnskey_create rdata_dnskey_parse"

definition ds_parser :: ch_dns_rdata_parser where
  "ds_parser = rdata_parser dns_rdatatype_ds RB_ds rdata_ds_create rdata_ds_parse"

definition gpos_parser :: ch_dns_rdata_parser where
  "gpos_parser = rdata_parser dns_rdatatype_gpos RB_gpos rdata_gpos_create rdata_gpos_parse"

definition ipseckey_parser :: ch_dns_rdata_parser where
  "ipseckey_parser = rdata_parser dns_rdatatype_ipseckey RB_ipseckey rdata_ipseckey_create rdata_ipseckey_parse"

definition isdn_parser :: ch_dns_rdata_parser where
  "isdn_parser = rdata_parser dns_rdatatype_isdn RB_isdn rdata_isdn_create rdata_isdn_parse"

definition key_parser :: ch_dns_rdata_parser where
  "key_parser = rdata_parser dns_rdatatype_key RB_key rdata_key_create rdata_key_parse"

definition kx_parser :: ch_dns_rdata_parser where
  "kx_parser = rdata_parser dns_rdatatype_kx RB_kx rdata_kx_create rdata_kx_parse"

definition loc_parser :: ch_dns_rdata_parser where
  "loc_parser = rdata_parser dns_rdatatype_loc RB_loc rdata_loc_create rdata_loc_parse"

definition naptr_parser :: ch_dns_rdata_parser where
  "naptr_parser = rdata_parser dns_rdatatype_naptr RB_naptr rdata_naptr_create rdata_naptr_parse"

definition nsap_ptr_parser :: ch_dns_rdata_parser where
  "nsap_ptr_parser = rdata_parser dns_rdatatype_nsap_ptr RB_nsap_ptr rdata_nsap_ptr_create rdata_nsap_ptr_parse"

definition nsap_parser :: ch_dns_rdata_parser where
  "nsap_parser = rdata_parser dns_rdatatype_nsap RB_nsap rdata_nsap_create rdata_nsap_parse"

definition nsec3param_parser :: ch_dns_rdata_parser where
  "nsec3param_parser = rdata_parser dns_rdatatype_nsec3param RB_nsec3param rdata_nsec3param_create rdata_nsec3param_parse"

definition nsec3_parser :: ch_dns_rdata_parser where
  "nsec3_parser = rdata_parser dns_rdatatype_nsec3 RB_nsec3 rdata_nsec3_create rdata_nsec3_parse"

definition nsec_parser :: ch_dns_rdata_parser where
  "nsec_parser = rdata_parser dns_rdatatype_nsec RB_nsec rdata_nsec_create rdata_nsec_parse"

definition nxt_parser :: ch_dns_rdata_parser where
  "nxt_parser = rdata_parser dns_rdatatype_nxt RB_nxt rdata_nxt_create rdata_nxt_parse"

definition openpgpkey_parser :: ch_dns_rdata_parser where
  "openpgpkey_parser = rdata_parser dns_rdatatype_openpgpkey RB_openpgpkey rdata_openpgpkey_create rdata_openpgpkey_parse"

definition opt_parser :: ch_dns_rdata_parser where
  "opt_parser = rdata_parser dns_rdatatype_opt RB_opt rdata_opt_create rdata_opt_parse"

definition px_parser :: ch_dns_rdata_parser where
  "px_parser = rdata_parser dns_rdatatype_px RB_px rdata_px_create rdata_px_parse"

definition rp_parser :: ch_dns_rdata_parser where
  "rp_parser = rdata_parser dns_rdatatype_rp RB_rp rdata_rp_create rdata_rp_parse"

definition rrsig_parser :: ch_dns_rdata_parser where
  "rrsig_parser = rdata_parser dns_rdatatype_rrsig RB_rrsig rdata_rrsig_create rdata_rrsig_parse"

definition rt_parser :: ch_dns_rdata_parser where
  "rt_parser = rdata_parser dns_rdatatype_rt RB_rt rdata_rt_create rdata_rt_parse"

definition sig_parser :: ch_dns_rdata_parser where
  "sig_parser = rdata_parser dns_rdatatype_sig RB_sig rdata_sig_create rdata_sig_parse"

definition smimea_parser :: ch_dns_rdata_parser where
  "smimea_parser = rdata_parser dns_rdatatype_smimea RB_smimea rdata_smimea_create rdata_smimea_parse"

definition spf_parser :: ch_dns_rdata_parser where
  "spf_parser = rdata_parser dns_rdatatype_spf RB_spf rdata_spf_create rdata_spf_parse"

definition srv_parser :: ch_dns_rdata_parser where
  "srv_parser = rdata_parser dns_rdatatype_srv RB_srv rdata_srv_create rdata_srv_parse"

definition sshfp_parser :: ch_dns_rdata_parser where
  "sshfp_parser = rdata_parser dns_rdatatype_sshfp RB_sshfp rdata_sshfp_create rdata_sshfp_parse"

definition tkey_parser :: ch_dns_rdata_parser where
  "tkey_parser = rdata_parser dns_rdatatype_tkey RB_tkey rdata_tkey_create rdata_tkey_parse"

definition tlsa_parser :: ch_dns_rdata_parser where
  "tlsa_parser = rdata_parser dns_rdatatype_tlsa RB_tlsa rdata_tlsa_create rdata_tlsa_parse"

definition tsig_parser :: ch_dns_rdata_parser where
  "tsig_parser = rdata_parser dns_rdatatype_tsig RB_tsig rdata_tsig_create rdata_tsig_parse"

definition x25_parser :: ch_dns_rdata_parser where
  "x25_parser = rdata_parser dns_rdatatype_x25 RB_x25 rdata_x25_create rdata_x25_parse"

definition uri_parser :: ch_dns_rdata_parser where
  "uri_parser = rdata_parser dns_rdatatype_uri RB_uri rdata_uri_create rdata_uri_parse"

type_synonym ch_dns_rdata_pool = "ch_dns_rdata_parser list"

definition ch_dns_rdata_parser_register :: "ch_dns_rdata_pool \<Rightarrow> ch_dns_rdata_parser \<Rightarrow> ch_dns_rdata_pool" where
  "ch_dns_rdata_parser_register pool parser = pool @ [parser]"

definition ch_dns_rdata_pool_create :: ch_dns_rdata_pool where
  "ch_dns_rdata_pool_create = foldl ch_dns_rdata_parser_register []
     [dns_ipv4_parser, dns_ipv6_parser, cname_parser, afsdb_parser, txt_parser, hinfo_parser, minfo_parser, mb_parser, mf_parser, md_parser, mg_parser,
      mr_parser, mx_parser, ns_parser, null_parser, ptr_parser, soa_parser, wks_parser, caa_parser, cert_parser, dhcid_parser, dlv_parser,
      apl_parser, dname_parser, dnskey_parser, ds_parser, gpos_parser, ipseckey_parser, isdn_parser, key_parser, kx_parser, loc_parser, naptr_parser,
      nsap_ptr_parser, nsap_parser, nsec3param_parser, nsec3_parser, nsec_parser, nxt_parser, openpgpkey_parser, opt_parser, px_parser, rp_parser,
      rrsig_parser, rt_parser, sig_parser, smimea_parser, spf_parser, srv_parser, sshfp_parser, tkey_parser, tlsa_parser, tsig_parser, x25_parser,
      uri_parser]"

definition ch_dns_rdata_parser_find :: "ch_dns_rdata_pool \<Rightarrow> u16 \<Rightarrow> u16 \<Rightarrow> ch_dns_rdata_parser option" where
  "ch_dns_rdata_parser_find pool cls type = find (\<lambda>p. pr_type p = type) pool"

lemmas rdata_parser_defs =
  dns_ipv4_parser_def dns_ipv6_parser_def cname_parser_def afsdb_parser_def txt_parser_def hinfo_parser_def minfo_parser_def mb_parser_def
  mf_parser_def md_parser_def mg_parser_def mr_parser_def mx_parser_def ns_parser_def null_parser_def ptr_parser_def soa_parser_def
  wks_parser_def caa_parser_def cert_parser_def dhcid_parser_def dlv_parser_def apl_parser_def dname_parser_def dnskey_parser_def
  ds_parser_def gpos_parser_def ipseckey_parser_def isdn_parser_def key_parser_def kx_parser_def loc_parser_def naptr_parser_def
  nsap_ptr_parser_def nsap_parser_def nsec3param_parser_def nsec3_parser_def nsec_parser_def nxt_parser_def openpgpkey_parser_def
  opt_parser_def px_parser_def rp_parser_def rrsig_parser_def rt_parser_def sig_parser_def smimea_parser_def spf_parser_def srv_parser_def
  sshfp_parser_def tkey_parser_def tlsa_parser_def tsig_parser_def x25_parser_def uri_parser_def

lemmas rdata_parse_defs =
  rdata_ipv4_parse_def rdata_ipv6_parse_def rdata_cname_parse_def rdata_afsdb_parse_def rdata_txt_parse_def rdata_hinfo_parse_def
  rdata_minfo_parse_def rdata_mb_parse_def rdata_mf_parse_def rdata_md_parse_def rdata_mg_parse_def rdata_mr_parse_def rdata_mx_parse_def
  rdata_ns_parse_def rdata_null_parse_def rdata_ptr_parse_def rdata_soa_parse_def rdata_wks_parse_def rdata_caa_parse_def rdata_cert_parse_def
  rdata_dhcid_parse_def rdata_dlv_parse_def rdata_apl_parse_def rdata_dname_parse_def rdata_dnskey_parse_def rdata_ds_parse_def
  rdata_gpos_parse_def rdata_ipseckey_parse_def rdata_isdn_parse_def rdata_key_parse_def rdata_kx_parse_def rdata_loc_parse_def
  rdata_naptr_parse_def rdata_nsap_ptr_parse_def rdata_nsap_parse_def rdata_nsec3param_parse_def rdata_nsec3_parse_def rdata_nsec_parse_def
  rdata_nxt_parse_def rdata_openpgpkey_parse_def rdata_opt_parse_def rdata_px_parse_def rdata_rp_parse_def rdata_rrsig_parse_def
  rdata_rt_parse_def rdata_sig_parse_def rdata_smimea_parse_def rdata_spf_parse_def rdata_srv_parse_def rdata_sshfp_parse_def
  rdata_tkey_parse_def rdata_tlsa_parse_def rdata_tsig_parse_def rdata_x25_parse_def rdata_uri_parse_def

end
