(* ===== verification/Dns_Message.thy ===== *)
theory Dns_Message
  imports Dns_Rdata
begin

text \<open>
  DNS messages: the header \<^verbatim>\<open>udp/app/dns/ch_dns_header.c\<close>, questions and requests \<^verbatim>\<open>ch_dns_request.c\<close>, the record
  parser of \<^verbatim>\<open>ch_dns_rdata_pool.c\<close> and responses \<^verbatim>\<open>ch_dns_response.c\<close>. Shown here: a request is read back as it was
  encoded; how far outside the packet the parsers read; the records that crash the parser or are read from
  the wrong place.
\<close>

section \<open>The header\<close>

record ch_dns_header =
  hdr_id :: u16
  hdr_flags :: u16
  hdr_qcount :: u16
  hdr_ancount :: u16
  hdr_aucount :: u16
  hdr_adcount :: u16

definition ch_dns_hdr_rcode :: "u16 \<Rightarrow> u16" where
  "ch_dns_hdr_rcode flags = flags AND 0xF"

definition CHECK_INTV :: "u16 \<Rightarrow> bool" where
  "CHECK_INTV v \<longleftrightarrow> \<not> v \<ge> 1000"

text \<open>\<open>None\<close> for the return of -1, after which nobody looks at the header.\<close>

definition ch_dns_header_parse :: "ch_dns_data_input \<Rightarrow> (ch_dns_header \<times> ch_dns_data_input) option" where
  "ch_dns_header_parse din =
     (if ch_dns_data_input_rdlen din < 12 then None
      else
        let (id, din) = ch_dns_data_input_uint16_read din;
            (flags, din) = ch_dns_data_input_uint16_read din
        in if ch_dns_hdr_rcode flags > 5 then None
           else
             let (qcount, din) = ch_dns_data_input_uint16_read din
             in if \<not> CHECK_INTV qcount then None
                else
                  let (ancount, din) = ch_dns_data_input_uint16_read din
                  in if \<not> CHECK_INTV ancount then None
                     else
                       let (aucount, din) = ch_dns_data_input_uint16_read din
                       in if \<not> CHECK_INTV aucount then None
                          else
                            let (adcount, din) = ch_dns_data_input_uint16_read din
                            in if \<not> CHECK_INTV adcount then None
                               else Some (\<lparr>hdr_id = id, hdr_flags = flags, hdr_qcount = qcount, hdr_ancount = ancount,
                                           hdr_aucount = aucount, hdr_adcount = adcount\<rparr>, din))"

section \<open>Questions and requests\<close>

record ch_dns_question =
  qname :: ch_dns_name
  qtype :: u16
  qclass :: u16

record ch_dns_request =
  req_hdr :: ch_dns_header
  questions :: "ch_dns_question list"

definition ch_dns_question_parse :: "ch_dns_data_input \<Rightarrow> (ch_dns_question \<times> ch_dns_data_input) option res" where
  "ch_dns_question_parse din = bind_res (ch_dns_name_parse din) (\<lambda>x.
     case x of
       None \<Rightarrow> Inr None
     | Some (n, din) \<Rightarrow>
         if ch_dns_data_input_rdlen din < 4 then Inr None
         else
           let (qt, din) = ch_dns_data_input_uint16_read din;
               (qc, din) = ch_dns_data_input_uint16_read din
           in Inr (Some (\<lparr>qname = n, qtype = qt, qclass = qc\<rparr>, din)))"

text \<open>The loop over at most \<open>n\<close> items; \<open>None\<close> when an item cannot be parsed.\<close>

primrec parse_items :: "(ch_dns_data_input \<Rightarrow> ('x \<times> ch_dns_data_input) option res) \<Rightarrow> nat \<Rightarrow> 'x list \<Rightarrow> ch_dns_data_input \<Rightarrow>
    ('x list \<times> ch_dns_data_input) option res"
where
  "parse_items parse 0 xs din = Inr (Some (xs, din))"
| "parse_items parse (Suc n) xs din =
     (if ch_dns_data_input_empty din then Inr (Some (xs, din))
      else bind_res (parse din) (\<lambda>r.
        case r of None \<Rightarrow> Inr None | Some (x, din) \<Rightarrow> parse_items parse n (xs @ [x]) din))"

definition ch_dns_request_parse :: "ch_dns_data_input \<Rightarrow> (ch_dns_request \<times> ch_dns_data_input) option res" where
  "ch_dns_request_parse din =
     (case ch_dns_header_parse din of
        None \<Rightarrow> Inr None
      | Some (hdr, din) \<Rightarrow>
          bind_res (parse_items ch_dns_question_parse (unat (hdr_qcount hdr)) [] din) (\<lambda>r.
            case r of None \<Rightarrow> Inr None | Some (qs, din) \<Rightarrow> Inr (Some (\<lparr>req_hdr = hdr, questions = qs\<rparr>, din))))"

text \<open>The first name that is not empty.\<close>

definition ch_dns_request_name_get :: "ch_dns_request \<Rightarrow> bytes option" where
  "ch_dns_request_name_get req =
     (case find (\<lambda>q. ndata (qname q) \<noteq> None \<and> takeWhile (\<lambda>b. b \<noteq> 0) (the (ndata (qname q))) \<noteq> []) (questions req) of
        None \<Rightarrow> None
      | Some q \<Rightarrow> ndata (qname q))"

section \<open>Records and responses\<close>

record dns_rr =
  rr :: ch_dns_rdata
  rr_body :: rdata_body

definition ch_dns_rdata_parse :: "ch_dns_rdata_pool \<Rightarrow> ch_dns_data_input \<Rightarrow> (dns_rr \<times> ch_dns_data_input) option res" where
  "ch_dns_rdata_parse pool din =
     (if ch_dns_data_input_rdlen din < 10 then Inr None
      else bind_res (ch_dns_name_parse din) (\<lambda>x.
        case x of
          None \<Rightarrow> Inr None
        | Some (tmp_name, din) \<Rightarrow>
            let (type, din) = ch_dns_data_input_uint16_read din;
                (dclass, din) = ch_dns_data_input_uint16_read din;
                dns_parser = ch_dns_rdata_parser_find pool dclass type
            in bind_res (ch_dns_name_clone tmp_name) (\<lambda>name.
                 let (ttl, din) = ch_dns_data_input_uint32_read din;
                     (dlen, din) = ch_dns_data_input_uint16_read din
                 in if int (unat dlen) > ch_dns_data_input_rdlen din then Inr None
                    else
                      let rdata = \<lparr>rd_name_of = name, rd_type = type, rd_dclass = dclass, rd_ttl = ttl, rd_base = dmem din,
                                   rd_data = (if dlen > 0 then RD_packet (dpos din) else RD_NULL), rd_dlen = dlen\<rparr>;
                          din' = ch_dns_data_input_pos_update din (unat dlen)
                      in case dns_parser of
                           Some p \<Rightarrow>
                             if dlen > 0 then
                               bind_res (pr_parse p rdata) (\<lambda>(_, body). Inr (Some (\<lparr>rr = rdata, rr_body = body\<rparr>, din')))
                             else Inr (Some (\<lparr>rr = rdata, rr_body = pr_create p\<rparr>, din'))
                         | None \<Rightarrow>
                             if dlen > 0 then
                               if dpos din + unat dlen \<le> length (dmem din) then
                                 Inr (Some (\<lparr>rr = rdata\<lparr>rd_data := RD_copy (take (unat dlen) (drop (dpos din) (dmem din)) @ replicate 32 0)\<rparr>,
                                             rr_body = RB_none\<rparr>, din'))
                               else Inl Out_Of_Bounds
                             else Inr (Some (\<lparr>rr = rdata, rr_body = RB_none\<rparr>, din')))))"

record ch_dns_response =
  res_hdr :: ch_dns_header
  qlist :: "ch_dns_question list"
  alist :: "dns_rr list"
  aulist :: "dns_rr list"
  adlist :: "dns_rr list"

definition dns_rr_parse :: "ch_dns_rdata_pool \<Rightarrow> u16 \<Rightarrow> ch_dns_data_input \<Rightarrow> (dns_rr list \<times> ch_dns_data_input) option res" where
  "dns_rr_parse pool n din = parse_items (ch_dns_rdata_parse pool) (unat n) [] din"

definition ch_dns_response_parse :: "ch_dns_rdata_pool \<Rightarrow> ch_dns_data_input \<Rightarrow> (ch_dns_response \<times> ch_dns_data_input) option res" where
  "ch_dns_response_parse pool din =
     (case ch_dns_header_parse din of
        None \<Rightarrow> Inr None
      | Some (hdr, din) \<Rightarrow>
          bind_res (parse_items ch_dns_question_parse (unat (hdr_qcount hdr)) [] din) (\<lambda>x.
          case x of None \<Rightarrow> Inr None | Some (qs, din) \<Rightarrow>
          bind_res (dns_rr_parse pool (hdr_ancount hdr) din) (\<lambda>x.
          case x of None \<Rightarrow> Inr None | Some (as, din) \<Rightarrow>
          bind_res (dns_rr_parse pool (hdr_aucount hdr) din) (\<lambda>x.
          case x of None \<Rightarrow> Inr None | Some (us, din) \<Rightarrow>
          bind_res (dns_rr_parse pool (hdr_adcount hdr) din) (\<lambda>x.
          case x of None \<Rightarrow> Inr None | Some (ds, din) \<Rightarrow>
            Inr (Some (\<lparr>res_hdr = hdr, qlist = qs, alist = as, aulist = us, adlist = ds\<rparr>, din)))))))"

section \<open>How far the parsers read\<close>

text \<open>
  The position is at most \<open>k\<close> bytes behind the end of the input, which is a part of a packet of at most 512 bytes, and
  \<open>s\<close> more bytes behind that end can be read.
\<close>

definition din_in :: "nat \<Rightarrow> nat \<Rightarrow> ch_dns_data_input \<Rightarrow> bool" where
  "din_in k s d \<longleftrightarrow> dpos d \<le> dlast d + k \<and> dlast d \<le> 512 \<and> dlast d + s \<le> length (dmem d)"

definition same_input :: "ch_dns_data_input \<Rightarrow> ch_dns_data_input \<Rightarrow> bool" where
  "same_input d d' \<longleftrightarrow> dmem d' = dmem d \<and> dlast d' = dlast d"

text \<open>A step that, from such an input, does not fault and leads to such an input.\<close>

definition step_in :: "nat \<Rightarrow> nat \<Rightarrow> 'r rd_step \<Rightarrow> bool" where
  "step_in k s st \<longleftrightarrow> (\<forall>r d. din_in k s d \<longrightarrow> (\<exists>go r' d'. st r d = Inr (go, r', d') \<and> din_in k s d' \<and> same_input d d'))"

named_theorems step_in \<open>the steps that stay near the packet\<close>

lemma int_read_in:
  assumes "din_in k s d"
  shows "\<exists>v d'. dns_int_read sz d = (v, d') \<and> din_in k s d' \<and> same_input d d'"
  using assms by (auto simp: dns_int_read_def din_in_def same_input_def din_macros)

lemma name_parse_in:
  assumes "din_in k s d"
  obtains "ch_dns_name_parse d = Inr None"
  | ls d' where "ch_dns_name_parse d = Inr (Some (name_of_labels ls, d'))" "din_in k s d'" "same_input d d'" "wire_len ls \<le> 255"
proof -
  have "dlast d \<le> length (dmem d)" using assms by (simp add: din_in_def)
  then show ?thesis
  proof (cases rule: name_parse_cases)
    case fails
    then show ?thesis using that(1) by blast
  next
    case (parses ls u)
    then show ?thesis using assms that(2) [of ls "d\<lparr>dpos := dpos d + u\<rparr>"] dns_name_at_inside [OF parses(2)]
      by (auto simp: din_in_def same_input_def)
  qed
qed

lemma step_inI:
  "(\<And>r d. din_in k s d \<Longrightarrow> \<exists>go r' d'. st r d = Inr (go, r', d') \<and> din_in k s d' \<and> same_input d d') \<Longrightarrow> step_in k s st"
  by (simp add: step_in_def)

text \<open>A step that sets a field to what a reader returns.\<close>

lemma step_in_reader:
  assumes "\<And>r d. din_in k s d \<Longrightarrow> \<exists>x d'. f r d = Inr (x, d') \<and> din_in k s d' \<and> same_input d d'"
  shows "step_in k s (\<lambda>r d. bind_res (f r d) (\<lambda>(x, d). Inr (True, g x r, d)))"
proof (rule step_inI)
  fix r d
  assume "din_in k s d"
  from assms [OF this, of r] obtain x d' where "f r d = Inr (x, d')" "din_in k s d'" "same_input d d'" by blast
  then show "\<exists>go r' d'. bind_res (f r d) (\<lambda>(x, d). Inr (True, g x r, d)) = Inr (go, r', d') \<and> din_in k s d' \<and> same_input d d'" by auto
qed

lemma step_in_int: "step_in k s (\<lambda>r d. case dns_int_read sz d of (v, d) \<Rightarrow> Inr (True, g v r, d))"
proof (rule step_inI)
  fix r d
  assume "din_in k s d"
  from int_read_in [OF this, of sz] obtain v :: "'b word" and d' where "dns_int_read sz d = (v, d')" "din_in k s d'" "same_input d d'" by blast
  then show "\<exists>go r' d'. (case dns_int_read sz d of (v, d) \<Rightarrow> Inr (True, g v r, d)) = Inr (go, r', d') \<and> din_in k s d' \<and> same_input d d'" by auto
qed

lemma step_in_ints [step_in]: "step_in k s (rd_uint8 u8)" "step_in k s (rd_uint16 u16)" "step_in k s (rd_uint32 u32)"
  unfolding rd_uint8_def [abs_def] rd_uint16_def [abs_def] rd_uint32_def [abs_def] ch_dns_data_input_uint8_read_def
    ch_dns_data_input_uint16_read_def ch_dns_data_input_uint32_read_def
  by (rule step_in_int)+

lemma step_in_time [step_in]: "step_in k s (rd_time upd)"
proof (rule step_inI)
  fix r d
  assume d: "din_in k s d"
  from int_read_in [OF d, of 2] obtain v d1 where 1: "ch_dns_data_input_uint16_read d = (v, d1)" "din_in k s d1" "same_input d d1"
    unfolding ch_dns_data_input_uint16_read_def by blast
  from int_read_in [OF 1(2), of 4] obtain w d2 where "ch_dns_data_input_uint32_read d1 = (w, d2)" "din_in k s d2" "same_input d1 d2"
    unfolding ch_dns_data_input_uint32_read_def by blast
  then show "\<exists>go r' d'. rd_time upd r d = Inr (go, r', d') \<and> din_in k s d' \<and> same_input d d'"
    using 1 by (auto simp: rd_time_def same_input_def)
qed

lemma step_in_name [step_in]: "step_in k s (rd_name upd)"
  unfolding step_in_def
proof (intro allI impI)
  fix r d
  assume d: "din_in k s d"
  then show "\<exists>go r' d'. rd_name upd r d = Inr (go, r', d') \<and> din_in k s d' \<and> same_input d d'"
    by (rule name_parse_in) (auto simp: rd_name_def d same_input_def)
qed

lemma step_in_name_own [step_in]:
  assumes "din_in 0 s (ch_dns_rdata_input_init rd)"
  shows "step_in k s (rd_name_own rd upd)"
  using assms by (rule name_parse_in) (auto simp: rd_name_own_def ch_dns_rdata_name_parse_def step_in_def same_input_def)

lemma step_in_check [step_in]: "step_in k s (rd_rdlen upd)" "step_in k s (rd_check f)"
  by (auto simp: step_in_def rd_rdlen_def rd_check_def same_input_def)

lemma step_in_bstring [step_in]: "0 < s \<Longrightarrow> 0 < k \<Longrightarrow> step_in k s (rd_bstring upd)"
  by (auto simp: step_in_def rd_bstring_def ch_dns_data_input_bstring_read_dup_def ch_dns_data_input_uint8_read_def dns_int_read_def
      ch_dns_data_copy_def din_in_def same_input_def din_macros Let_def)

lemma bytes_read_in:
  assumes "din_in 0 512 d"
  shows "\<exists>p d'. ch_dns_data_input_bytes_read d n = Inr (p, d') \<and> din_in 0 512 d' \<and> same_input d d'"
proof -
  have "ch_dns_data_input_rdlen d mod 2 ^ 64 = int (dlast d - dpos d)"
    using assms by (simp add: din_in_def din_macros)
  then show ?thesis
    using assms by (auto simp: ch_dns_data_input_bytes_read_def ch_dns_data_copy_def din_in_def same_input_def din_macros Let_def)
qed

lemma rbytes_read_in:
  assumes "din_in 0 s d"
  shows "\<exists>p d'. ch_dns_data_input_rbytes_read d = Inr (p, d') \<and> din_in 0 s d' \<and> same_input d d'"
proof -
  have "ch_dns_data_input_rdlen d mod 2 ^ 64 = int (dlast d - dpos d)"
    using assms by (simp add: din_in_def din_macros)
  then show ?thesis
    using assms by (auto simp: ch_dns_data_input_rbytes_read_def ch_dns_data_copy_def din_in_def same_input_def Let_def)
qed

lemma step_in_bytes [step_in]: "step_in 0 512 (rd_bytes n upd)"
  unfolding rd_bytes_def [abs_def] by (rule step_in_reader) (rule bytes_read_in)

lemma step_in_rbytes [step_in]: "step_in 0 s (rd_rbytes upd)"
  unfolding rd_rbytes_def [abs_def] by (rule step_in_reader) (rule rbytes_read_in)

lemma step_in_when [step_in]: "step_in k s st \<Longrightarrow> step_in k s (rd_when c st)"
  by (auto simp: step_in_def rd_when_def same_input_def)

lemma step_in_steps: "list_all (step_in k s) sts \<Longrightarrow> step_in k s (rd_steps sts)"
proof (induction sts)
  case (Cons st sts)
  then have st: "step_in k s st" and sts: "step_in k s (rd_steps sts)" by simp_all
  show ?case
    unfolding step_in_def
  proof (intro allI impI)
    fix r d
    assume "din_in k s d"
    with st obtain go r1 d1 where 1: "st r d = Inr (go, r1, d1)" "din_in k s d1" "same_input d d1" unfolding step_in_def by blast
    with sts obtain go' r2 d2 where "rd_steps sts r1 d1 = Inr (go', r2, d2)" "din_in k s d2" "same_input d1 d2" unfolding step_in_def by blast
    with 1 show "\<exists>go r' d'. rd_steps (st # sts) r d = Inr (go, r', d') \<and> din_in k s d' \<and> same_input d d'"
      by (cases go) (auto simp: same_input_def)
  qed
qed (auto simp: step_in_def same_input_def)

lemma step_in_call [step_in]:
  assumes "\<And>x d. din_in k s d \<Longrightarrow> \<exists>rc x' d'. f x d = Inr (rc, x', d') \<and> din_in k s d' \<and> same_input d d'"
  shows "step_in k s (rd_call f get upd)"
proof (rule step_inI)
  fix r d
  assume "din_in k s d"
  from assms [OF this, of "get r"] obtain rc x d' where "f (get r) d = Inr (rc, x, d')" "din_in k s d'" "same_input d d'" by blast
  then show "\<exists>go r' d'. rd_call f get upd r d = Inr (go, r', d') \<and> din_in k s d' \<and> same_input d d'" by (auto simp: rd_call_def)
qed

lemma sec_key_parse_in:
  assumes "din_in 0 512 d"
  shows "\<exists>rc x' d'. ch_dns_sec_key_parse x d = Inr (rc, x', d') \<and> din_in 0 512 d' \<and> same_input d d'"
proof (cases "ch_dns_data_input_rdlen d mod 2 ^ 64 < 4")
  case False
  let ?sts = "[rd_uint16 sk_flags_update, rd_uint8 sk_proto_update, rd_uint8 sk_alg_update, rd_rdlen sk_public_key_len_update,
    rd_bytes (\<lambda>r. unat (sk_public_key_len r)) sk_public_key_update]"
  have "step_in 0 512 (rd_steps ?sts)" by (intro step_in_steps) (simp add: step_in)
  then obtain go x' d' where "rd_steps ?sts x d = Inr (go, x', d')" "din_in 0 512 d'" "same_input d d'"
    using assms unfolding step_in_def by blast
  then show ?thesis using False by (auto simp: ch_dns_sec_key_parse_def simp del: rd_steps.simps)
qed (use assms in \<open>simp add: ch_dns_sec_key_parse_def same_input_def\<close>)

lemma sec_sig_parse_in:
  assumes "din_in 0 512 d"
  shows "\<exists>rc x' d'. ch_dns_sec_sig_parse x d = Inr (rc, x', d') \<and> din_in 0 512 d' \<and> same_input d d'"
proof (cases "ch_dns_data_input_rdlen d mod 2 ^ 64 < 18")
  case False
  let ?sts = "[rd_uint16 ss_covered_update, rd_uint8 ss_alg_update, rd_uint8 ss_labels_update, rd_uint32 ss_origttl_update,
    rd_uint32 ss_expire_update, rd_uint32 ss_timeSigned_update, rd_uint16 ss_footprint_update, rd_name ss_signer_update,
    rd_rdlen ss_sign_len_update, rd_bytes (\<lambda>r. unat (ss_sign_len r)) ss_signature_update]"
  have "step_in 0 512 (rd_steps ?sts)" by (intro step_in_steps) (simp add: step_in)
  then obtain go x' d' where "rd_steps ?sts x d = Inr (go, x', d')" "din_in 0 512 d'" "same_input d d'"
    using assms unfolding step_in_def by blast
  then show ?thesis using False by (auto simp: ch_dns_sec_sig_parse_def simp del: rd_steps.simps)
qed (use assms in \<open>simp add: ch_dns_sec_sig_parse_def same_input_def\<close>)

lemma txt_base_loop_in:
  assumes "din_in k s d" "0 < s" "0 < k"
  shows "\<exists>x d'. txt_base_loop txts d = Inr (x, d') \<and> din_in k s d' \<and> same_input d d'"
  using assms
proof (induction txts d rule: txt_base_loop.induct)
  case (1 txts d)
  have "step_in k s (rd_bstring (\<lambda>f (x :: bytes option). f x))" using 1(3,4) by (intro step_in_bstring)
  then obtain p d' where p: "ch_dns_data_input_bstring_read_dup d = Inr (p, d')" "din_in k s d'" "same_input d d'"
    using 1(2) unfolding step_in_def rd_bstring_def
    by (cases "ch_dns_data_input_bstring_read_dup d") fastforce+
  show ?case
  proof (cases "\<not> ch_dns_data_input_read_over d 1 \<and> p \<noteq> None")
    case True
    then obtain t where t: "p = Some t" by blast
    from 1(1) [OF _ p(1) refl t p(2) 1(3,4)] True obtain x d2 where
      "txt_base_loop (txts @ [t]) d' = Inr (x, d2)" "din_in k s d2" "same_input d' d2" by auto
    then show ?thesis using True p t by (subst txt_base_loop.simps) (simp add: same_input_def)
  next
    case False
    then show ?thesis using 1(2) p by (subst txt_base_loop.simps) (auto simp: same_input_def)
  qed
qed

lemma step_in_calls [step_in]:
  "step_in 0 512 (rd_call ch_dns_sec_key_parse g u)" "step_in 0 512 (rd_call ch_dns_sec_sig_parse g' u')"
  "0 < s \<Longrightarrow> 0 < k \<Longrightarrow> step_in k s (rd_call ch_dns_txt_base_parse g'' u'')"
proof -
  show "step_in 0 512 (rd_call ch_dns_sec_key_parse g u)" by (intro step_in_call sec_key_parse_in)
  show "step_in 0 512 (rd_call ch_dns_sec_sig_parse g' u')" by (intro step_in_call sec_sig_parse_in)
  assume s: "0 < s" "0 < k"
  show "step_in k s (rd_call ch_dns_txt_base_parse g'' u'')"
  proof (rule step_in_call)
    fix x d
    assume "din_in k s d"
    from txt_base_loop_in [OF this s, of x] show "\<exists>rc x' d'. ch_dns_txt_base_parse x d = Inr (rc, x', d') \<and> din_in k s d' \<and> same_input d d'"
      by (auto simp: ch_dns_txt_base_parse_def)
  qed
qed

text \<open>The loops over entries.\<close>

lemma apl_len_in [step_in]: "step_in k s rd_apl_len"
  unfolding rd_apl_len_def [abs_def] ch_dns_data_input_uint8_read_def Let_def by (rule step_in_int)

lemma entry_create_in:
  "din_in 0 512 d \<Longrightarrow> \<exists>go e d'. apl_entry_create d = Inr (go, e, d') \<and> din_in 0 512 d' \<and> same_input d d'"
  "din_in 0 512 d \<Longrightarrow> \<exists>go e d'. opt_entry_create d = Inr (go, e, d') \<and> din_in 0 512 d' \<and> same_input d d'"
proof -
  have "step_in 0 512 (rd_steps [rd_uint16 ae_family_update, rd_uint8 ae_prefix_update, rd_apl_len, rd_check (\<lambda>r. unat (ae_dlen r)),
    rd_bytes (\<lambda>r. unat (ae_dlen r)) ae_data_update])" by (intro step_in_steps) (simp add: step_in)
  then show "din_in 0 512 d \<Longrightarrow> \<exists>go e d'. apl_entry_create d = Inr (go, e, d') \<and> din_in 0 512 d' \<and> same_input d d'"
    unfolding apl_entry_create_def step_in_def by blast
  have "step_in 0 512 (rd_steps [rd_uint16 oe_code_update, rd_uint16 oe_dlen_update, rd_check (\<lambda>r. unat (oe_dlen r)),
    rd_bytes (\<lambda>r. unat (oe_dlen r)) oe_data_update])" by (intro step_in_steps) (simp add: step_in)
  then show "din_in 0 512 d \<Longrightarrow> \<exists>go e d'. opt_entry_create d = Inr (go, e, d') \<and> din_in 0 512 d' \<and> same_input d d'"
    unfolding opt_entry_create_def step_in_def by blast
qed

lemma apl_loop_in: "din_in 0 512 d \<Longrightarrow> \<exists>r' d'. apl_loop r d = Inr (r', d') \<and> din_in 0 512 d' \<and> same_input d d'"
proof (induction r d rule: apl_loop.induct)
  case (1 r d)
  from entry_create_in(1) [OF 1(2)] obtain go e d1 where e: "apl_entry_create d = Inr (go, e, d1)" "din_in 0 512 d1" "same_input d d1" by blast
  show ?case
  proof (cases "\<not> ch_dns_data_input_rdlen d < 4 \<and> go")
    case True
    with 1(1) [OF _ e(1) refl _ refl e(2)] obtain r' d2 where
      "apl_loop (r\<lparr>apl_entries := apl_entries r @ [e], apl_entries_n := apl_entries_n r + 1\<rparr>) d1 = Inr (r', d2)"
      "din_in 0 512 d2" "same_input d1 d2" by auto
    then show ?thesis using True e by (subst apl_loop.simps) (simp add: same_input_def)
  next
    case False
    then show ?thesis using 1(2) e by (subst apl_loop.simps) (auto simp: same_input_def)
  qed
qed

lemma opt_loop_in: "din_in 0 512 d \<Longrightarrow> \<exists>r' d'. opt_loop r d = Inr (r', d') \<and> din_in 0 512 d' \<and> same_input d d'"
proof (induction r d rule: opt_loop.induct)
  case (1 r d)
  from entry_create_in(2) [OF 1(2)] obtain go e d1 where e: "opt_entry_create d = Inr (go, e, d1)" "din_in 0 512 d1" "same_input d d1" by blast
  show ?case
  proof (cases "\<not> ch_dns_data_input_rdlen d < 4 \<and> go")
    case True
    with 1(1) [OF _ e(1) refl _ refl e(2)] obtain r' d2 where
      "opt_loop (r\<lparr>opt_entries := opt_entries r @ [e], opt_entries_n := opt_entries_n r + 1\<rparr>) d1 = Inr (r', d2)"
      "din_in 0 512 d2" "same_input d1 d2" by auto
    then show ?thesis using True e by (subst opt_loop.simps) (simp add: same_input_def)
  next
    case False
    then show ?thesis using 1(2) e by (subst opt_loop.simps) (auto simp: same_input_def)
  qed
qed

lemma step_in_loops [step_in]:
  "step_in 0 512 (\<lambda>r din. bind_res (apl_loop r din) (\<lambda>(r, din). Inr (True, r, din)))"
  "step_in 0 512 (\<lambda>r din. bind_res (opt_loop r din) (\<lambda>(r, din). Inr (True, r, din)))"
  by (rule step_in_reader, erule apl_loop_in, rule step_in_reader, erule opt_loop_in)

text \<open>
  The gateway of an IPSECKEY record is copied without a check; if that leads behind the record, the length of the key is
  too large for the next check.
\<close>

lemma gateway_in:
  assumes "din_in 0 512 d"
  shows "\<exists>r' d'. rd_gateway r d = Inr (True, r', d') \<and> din_in 16 512 d' \<and> same_input d d'"
proof -
  have d: "din_in 16 512 d" "dpos d \<le> dlast d" "dlast d + 512 \<le> length (dmem d)" using assms by (auto simp: din_in_def)
  obtain v :: u32 and d1 where v: "dns_int_read 4 d = (v, d1)" "din_in 16 512 d1" "same_input d d1" using int_read_in [OF d(1)] by blast
  show ?thesis
    using d v by (rule_tac name_parse_in [OF d(1)])
      (auto simp: rd_gateway_def ch_dns_data_input_uint32_read_def same_input_def din_in_def din_macros)
qed

lemma key_tail_in:
  assumes "din_in 16 512 d"
  shows "\<exists>go r' d'. rd_steps [rd_rdlen ipseckey_key_len_update, rd_check (\<lambda>r. unat (ipseckey_key_len r)), rd_rbytes ipseckey_key_update] r d =
    Inr (go, r', d')"
proof (cases "dpos d \<le> dlast d")
  case True
  then have "din_in 0 512 d" using assms by (simp add: din_in_def)
  moreover have "step_in 0 512 (rd_steps [rd_rdlen ipseckey_key_len_update, rd_check (\<lambda>r. unat (ipseckey_key_len r)), rd_rbytes ipseckey_key_update])"
    by (intro step_in_steps) (simp add: step_in)
  ultimately show ?thesis unfolding step_in_def by blast
next
  case False
  define j where "j = dpos d - dlast d"
  have j: "0 < j" "j \<le> 16" "ch_dns_data_input_rdlen d = - int j" using False assms by (auto simp: j_def din_in_def din_macros)
  have "uint (word_of_int (- int j) :: u16) = 65536 - int j" using j(1,2) by (simp only: uint_word_of_int) (simp add: zmod_zminus1_eq_if)
  then have "unat (of_int (ch_dns_data_input_rdlen d) :: u16) = 65536 - j" using j by (simp only: unat_eq_nat_uint)
  then show ?thesis using j by (auto simp: rd_rdlen_def rd_check_def CH_DNS_DLEN_CHECK_def)
qed

lemma rdata_parse_in:
  assumes "list_all (step_in k s) sts" "din_in 0 s (ch_dns_rdata_input_init rd)"
  shows "\<exists>rc r'. rdata_parse n rd sts r = Inr (rc, r')"
proof -
  have "din_in k s (ch_dns_rdata_input_init rd)" using assms(2) by (simp add: din_in_def)
  then obtain go r' d' where "rd_steps sts r (ch_dns_rdata_input_init rd) = Inr (go, r', d')"
    using step_in_steps [OF assms(1)] unfolding step_in_def by blast
  then show ?thesis by (simp add: rdata_parse_def)
qed

definition parser_in :: "nat \<Rightarrow> ch_dns_rdata_parser \<Rightarrow> bool" where
  "parser_in s p \<longleftrightarrow> (\<forall>rd. din_in 0 s (ch_dns_rdata_input_init rd) \<longrightarrow> (\<exists>rc b. pr_parse p rd = Inr (rc, b)))"

lemma parser_inI:
  assumes "\<And>rd r. parse rd r = rdata_parse n rd (sts rd) r"
    "\<And>rd. din_in 0 s (ch_dns_rdata_input_init rd) \<Longrightarrow> list_all (step_in k s) (sts rd)"
  shows "parser_in s (rdata_parser ty RB create parse)"
  unfolding parser_in_def
proof (intro allI impI)
  fix rd
  assume rd: "din_in 0 s (ch_dns_rdata_input_init rd)"
  from rdata_parse_in [OF assms(2) [OF rd] rd, of n create] show "\<exists>rc b. pr_parse (rdata_parser ty RB create parse) rd = Inr (rc, b)"
    by (auto simp: rdata_parser_def assms(1))
qed

lemmas parser_in0 = parser_inI [where k = 0]
lemmas parser_in1 = parser_inI [where k = 1]

text \<open>The parsers that stay inside the record; those that stay near it.\<close>

lemma careful_parsers_in:
  "parser_in s dns_ipv4_parser" "parser_in s cname_parser" "parser_in s afsdb_parser" "parser_in s minfo_parser" "parser_in s mb_parser"
  "parser_in s mf_parser" "parser_in s md_parser" "parser_in s mg_parser" "parser_in s mr_parser" "parser_in s mx_parser"
  "parser_in s ns_parser" "parser_in s null_parser" "parser_in s ptr_parser" "parser_in s soa_parser" "parser_in s cert_parser"
  "parser_in s dhcid_parser" "parser_in s dlv_parser" "parser_in s dname_parser" "parser_in s ds_parser" "parser_in s kx_parser"
  "parser_in s loc_parser" "parser_in s nsap_ptr_parser" "parser_in s nsap_parser" "parser_in s openpgpkey_parser" "parser_in s px_parser"
  "parser_in s rp_parser" "parser_in s rt_parser" "parser_in s srv_parser" "parser_in s sshfp_parser"
  unfolding rdata_parser_defs by (rule parser_in0, rule rdata_parse_defs, simp add: step_in)+

lemma near_parsers_in:
  "parser_in 512 dns_ipv6_parser" "parser_in 512 wks_parser" "parser_in 512 dnskey_parser" "parser_in 512 key_parser"
  "parser_in 512 nsec3param_parser" "parser_in 512 nsec3_parser" "parser_in 512 nsec_parser" "parser_in 512 nxt_parser"
  "parser_in 512 rrsig_parser" "parser_in 512 sig_parser" "parser_in 512 smimea_parser" "parser_in 512 tkey_parser" "parser_in 512 tlsa_parser"
  "parser_in 512 tsig_parser" "parser_in 512 uri_parser" "parser_in 512 apl_parser" "parser_in 512 opt_parser"
  unfolding rdata_parser_defs by (rule parser_in0, rule rdata_parse_defs, simp add: step_in)+

lemma text_parsers_in:
  "parser_in 512 txt_parser" "parser_in 512 hinfo_parser" "parser_in 512 gpos_parser" "parser_in 512 isdn_parser" "parser_in 512 naptr_parser"
  "parser_in 512 spf_parser" "parser_in 512 x25_parser"
  unfolding rdata_parser_defs by (rule parser_in1, rule rdata_parse_defs, simp add: step_in)+

lemma rd_steps_append:
  "rd_steps (xs @ ys) r d = bind_res (rd_steps xs r d) (\<lambda>(go, r, d). if go then rd_steps ys r d else Inr (False, r, d))"
proof (induction xs arbitrary: r d)
  case (Cons x xs)
  then show ?case by (cases "x r d") (auto split: prod.splits)
qed simp

lemma ipseckey_parser_in: "parser_in 512 ipseckey_parser"
  unfolding parser_in_def
proof (intro allI impI)
  fix rd
  let ?d = "ch_dns_rdata_input_init rd"
  let ?hd = "[rd_uint8 ipseckey_precedence_update, rd_uint8 ipseckey_gateway_type_update, rd_uint8 ipseckey_alg_update]"
  assume d: "din_in 0 512 ?d"
  have "step_in 0 512 (rd_steps ?hd)" by (intro step_in_steps) (simp add: step_in)
  then obtain go r1 d1 where 1: "rd_steps ?hd rdata_ipseckey_create ?d = Inr (go, r1, d1)" "din_in 0 512 d1"
    using d unfolding step_in_def by blast
  from gateway_in [OF 1(2)] obtain r2 d2 where 2: "rd_gateway r1 d1 = Inr (True, r2, d2)" "din_in 16 512 d2" by blast
  from key_tail_in [OF 2(2)] obtain go' r3 d3 where "rd_steps [rd_rdlen ipseckey_key_len_update, rd_check (\<lambda>r. unat (ipseckey_key_len r)),
    rd_rbytes ipseckey_key_update] r2 d2 = Inr (go', r3, d3)" by blast
  then have "rd_steps (rd_gateway # [rd_rdlen ipseckey_key_len_update, rd_check (\<lambda>r. unat (ipseckey_key_len r)),
    rd_rbytes ipseckey_key_update]) r1 d1 = Inr (go', r3, d3)"
    by (subst rd_steps.simps(2)) (simp add: 2(1) del: rd_steps.simps)
  then have "\<exists>go r' d'. rd_steps (?hd @ rd_gateway # [rd_rdlen ipseckey_key_len_update, rd_check (\<lambda>r. unat (ipseckey_key_len r)),
    rd_rbytes ipseckey_key_update]) rdata_ipseckey_create ?d = Inr (go, r', d')"
    by (cases go) (simp_all only: rd_steps_append 1(1) bind_res_simps prod.case if_True if_False, blast+)
  then show "\<exists>rc b. pr_parse ipseckey_parser rd = Inr (rc, b)"
    by (auto simp: ipseckey_parser_def rdata_parser_def rdata_ipseckey_parse_def rdata_parse_def simp del: rd_steps.simps)
qed

text \<open>The parser of an item that, from a good input, does not fault and leads to a good input.\<close>

definition item_in :: "nat \<Rightarrow> (ch_dns_data_input \<Rightarrow> ('x \<times> ch_dns_data_input) option res) \<Rightarrow> bool" where
  "item_in s parse \<longleftrightarrow> (\<forall>d. din_in 0 s d \<longrightarrow> (\<exists>r. parse d = Inr r \<and> (\<forall>x d'. r = Some (x, d') \<longrightarrow> din_in 0 s d')))"

lemma parse_items_in:
  assumes "item_in s parse"
  shows "din_in 0 s d \<Longrightarrow> \<exists>r. parse_items parse n xs d = Inr r \<and> (\<forall>x d'. r = Some (x, d') \<longrightarrow> din_in 0 s d')"
proof (induction n arbitrary: xs d)
  case (Suc n)
  from assms Suc.prems obtain r where r: "parse d = Inr r" "\<forall>x d'. r = Some (x, d') \<longrightarrow> din_in 0 s d'" unfolding item_in_def by blast
  show ?case using Suc.IH Suc.prems r by (cases r) auto
qed simp

lemma int16_in: "din_in k s d \<Longrightarrow> ch_dns_data_input_uint16_read d = (v, d') \<Longrightarrow> din_in k s d'"
  by (auto simp: ch_dns_data_input_uint16_read_def dns_int_read_def din_in_def din_macros split: if_splits)

lemma int32_in: "din_in k s d \<Longrightarrow> ch_dns_data_input_uint32_read d = (v, d') \<Longrightarrow> din_in k s d'"
  by (auto simp: ch_dns_data_input_uint32_read_def dns_int_read_def din_in_def din_macros split: if_splits)

lemma header_parse_in: "din_in 0 s d \<Longrightarrow> ch_dns_header_parse d = Some (h, d') \<Longrightarrow> din_in 0 s d'"
  by (auto simp: ch_dns_header_parse_def Let_def split: if_splits prod.splits) (blast dest: int16_in)

lemma question_parse_in: "item_in s ch_dns_question_parse"
  unfolding item_in_def
proof (intro allI impI)
  fix d
  assume "din_in 0 s d"
  then show "\<exists>r. ch_dns_question_parse d = Inr r \<and> (\<forall>x d'. r = Some (x, d') \<longrightarrow> din_in 0 s d')"
    by (rule name_parse_in) (auto simp: ch_dns_question_parse_def Let_def split: prod.splits dest: int16_in)
qed

lemma name_clone_ok: "\<exists>n. ch_dns_name_clone (name_of_labels ls) = Inr n"
proof -
  let ?b = "takeWhile (\<lambda>b. b \<noteq> 0) (dotted True ls) @ [0]"
  have "0 \<in> set (take n ?b) \<or> n \<le> length ?b" for n by (cases "n \<le> length ?b") auto
  then show ?thesis by (auto simp: ch_dns_name_clone_def ch_pstrndup_def name_of_labels_def)
qed

lemma rdlen_le: "int n \<le> ch_dns_data_input_rdlen d \<longleftrightarrow> dpos d + n \<le> dlast d"
  unfolding ch_dns_data_input_rdlen_def by linarith

lemma rdata_parse_item_in:
  assumes "\<forall>p\<in>set pool. parser_in s p"
  shows "item_in s (ch_dns_rdata_parse pool)"
  unfolding item_in_def
proof (intro allI impI)
  fix d
  assume d: "din_in 0 s d"
  then show "\<exists>r. ch_dns_rdata_parse pool d = Inr r \<and> (\<forall>x d'. r = Some (x, d') \<longrightarrow> din_in 0 s d')"
  proof (rule name_parse_in)
    assume "ch_dns_name_parse d = Inr None"
    then show ?thesis by (simp add: ch_dns_rdata_parse_def)
  next
    fix ls d1
    assume n: "ch_dns_name_parse d = Inr (Some (name_of_labels ls, d1))" "din_in 0 s d1"
    obtain ty d2 where 2: "ch_dns_data_input_uint16_read d1 = (ty, d2)" by (cases "ch_dns_data_input_uint16_read d1") blast
    obtain cl d3 where 3: "ch_dns_data_input_uint16_read d2 = (cl, d3)" by (cases "ch_dns_data_input_uint16_read d2") blast
    obtain ttl d4 where 4: "ch_dns_data_input_uint32_read d3 = (ttl, d4)" by (cases "ch_dns_data_input_uint32_read d3") blast
    obtain dlen d5 where 5: "ch_dns_data_input_uint16_read d4 = (dlen, d5)" by (cases "ch_dns_data_input_uint16_read d4") blast
    have d5: "din_in 0 s d5" using n(2) 2 3 4 5 by (blast dest: int16_in int32_in)
    obtain nm where nm: "ch_dns_name_clone (name_of_labels ls) = Inr nm" using name_clone_ok by blast
    let ?rd = "\<lparr>rd_name_of = nm, rd_type = ty, rd_dclass = cl, rd_ttl = ttl, rd_base = dmem d5,
      rd_data = RD_packet (dpos d5), rd_dlen = dlen\<rparr>"
    have fit: "din_in 0 s (ch_dns_data_input_pos_update d5 (unat dlen))" "dpos d5 + unat dlen \<le> length (dmem d5)"
      "din_in 0 s (ch_dns_rdata_input_init ?rd)" if "int (unat dlen) \<le> ch_dns_data_input_rdlen d5"
      using that [unfolded rdlen_le] d5 by (auto simp: din_in_def din_macros)
    have "\<exists>rc b. pr_parse p ?rd = Inr (rc, b)" if "ch_dns_rdata_parser_find pool cl ty = Some p" "int (unat dlen) \<le> ch_dns_data_input_rdlen d5" for p
      using that assms fit(3) unfolding parser_in_def ch_dns_rdata_parser_find_def by (auto simp: find_Some_iff)
    then show ?thesis
      using n 2 3 4 5 nm fit by (auto simp: ch_dns_rdata_parse_def Let_def not_less split: option.splits)
  qed
qed

lemma response_parse_in:
  assumes "din_in 0 s d" "\<forall>p\<in>set pool. parser_in s p"
  shows "\<exists>r. ch_dns_response_parse pool d = Inr r"
proof (cases "ch_dns_header_parse d")
  case (Some hd)
  obtain h d1 where h: "ch_dns_header_parse d = Some (h, d1)" using Some by (cases hd) blast
  note items = parse_items_in [OF question_parse_in] parse_items_in [OF rdata_parse_item_in [OF assms(2)]]
  from items(1) [OF header_parse_in [OF assms(1) h], of "unat (hdr_qcount h)" "[]"] obtain r1 where
    r1: "parse_items ch_dns_question_parse (unat (hdr_qcount h)) [] d1 = Inr r1" "\<forall>x d'. r1 = Some (x, d') \<longrightarrow> din_in 0 s d'" by blast
  have rr: "\<exists>r. dns_rr_parse pool n d' = Inr r \<and> (\<forall>x d''. r = Some (x, d'') \<longrightarrow> din_in 0 s d'')" if "din_in 0 s d'" for n d'
    using items(2) [OF that] by (auto simp: dns_rr_parse_def)
  show ?thesis
  proof (cases r1)
    case None
    then show ?thesis using h r1 by (simp add: ch_dns_response_parse_def)
  next
    case (Some q)
    obtain qs d2 where q: "q = (qs, d2)" by (cases q)
    with r1 Some have 2: "din_in 0 s d2" by blast
    from rr [OF 2, of "hdr_ancount h"] obtain r2 where r2: "dns_rr_parse pool (hdr_ancount h) d2 = Inr r2" "\<forall>x d'. r2 = Some (x, d') \<longrightarrow> din_in 0 s d'" by blast
    have "\<exists>r. bind_res (dns_rr_parse pool (hdr_aucount h) d3) (\<lambda>x. case x of None \<Rightarrow> Inr None | Some (us, din) \<Rightarrow>
          bind_res (dns_rr_parse pool (hdr_adcount h) din) (\<lambda>x. case x of None \<Rightarrow> Inr None | Some (ds, din) \<Rightarrow>
            Inr (Some (\<lparr>res_hdr = h, qlist = qs, alist = as, aulist = us, adlist = ds\<rparr>, din)))) = Inr r" if "din_in 0 s d3" for as d3
    proof -
      from rr [OF that, of "hdr_aucount h"] obtain r3 where r3: "dns_rr_parse pool (hdr_aucount h) d3 = Inr r3" "\<forall>x d'. r3 = Some (x, d') \<longrightarrow> din_in 0 s d'" by blast
      show ?thesis
      proof (cases r3)
        case None
        then show ?thesis using r3 by simp
      next
        case (Some u)
        obtain us d4 where u: "u = (us, d4)" by (cases u)
        with r3 Some have "din_in 0 s d4" by blast
        from rr [OF this, of "hdr_adcount h"] obtain r4 where "dns_rr_parse pool (hdr_adcount h) d4 = Inr r4" by blast
        then show ?thesis using r3 Some u by (cases r4) auto
      qed
    qed
    then show ?thesis using h r1 Some q r2 by (cases r2) (auto simp: ch_dns_response_parse_def)
  qed
qed (simp add: ch_dns_response_parse_def)

text \<open>
  C24. Whatever the bytes of a packet of up to 512 bytes, the parser of responses returns, and it reads at most 512 bytes
  behind the packet, when the parser of CAA records is not registered.
\<close>

theorem dns_response_parse_near:
  assumes "l \<le> 512" "l + 512 \<le> length mem" "set pool \<subseteq> set ch_dns_rdata_pool_create - {caa_parser}"
  shows "\<exists>r. ch_dns_response_parse pool (ch_dns_data_input_init mem 0 l) = Inr r"
proof (rule response_parse_in)
  show "din_in 0 512 (ch_dns_data_input_init mem 0 l)" using assms(1,2) by (simp add: din_in_def din_macros)
  show "\<forall>p\<in>set pool. parser_in 512 p"
  proof
    fix p assume "p \<in> set pool"
    then have "p \<in> set ch_dns_rdata_pool_create" "p \<noteq> caa_parser" using assms(3) by auto
    then show "parser_in 512 p"
      using careful_parsers_in near_parsers_in text_parsers_in ipseckey_parser_in
      by (auto simp: ch_dns_rdata_pool_create_def ch_dns_rdata_parser_register_def)
  qed
qed

lemma near_pool: "set [dns_ipv6_parser, txt_parser] \<subseteq> set ch_dns_rdata_pool_create - {caa_parser}"
proof -
  have "pr_type dns_ipv6_parser \<noteq> pr_type caa_parser" "pr_type txt_parser \<noteq> pr_type caa_parser"
    by (simp_all add: dns_ipv6_parser_def txt_parser_def caa_parser_def rdata_parser_def dns_rdatatype_aaaa_def dns_rdatatype_txt_def dns_rdatatype_caa_def)
  then show ?thesis by (auto simp: ch_dns_rdata_pool_create_def ch_dns_rdata_parser_register_def)
qed

theorem dns_response_parse_near_witness:
  "(300 :: nat) \<le> 512 \<and> set [dns_ipv6_parser, txt_parser] \<subseteq> set ch_dns_rdata_pool_create - {caa_parser} \<and>
   (\<exists>r. ch_dns_response_parse [dns_ipv6_parser, txt_parser] (ch_dns_data_input_init (replicate 900 1) 0 300) = Inr r)"
  using dns_response_parse_near [of 300 "replicate 900 1" "[dns_ipv6_parser, txt_parser]", OF _ _ near_pool] near_pool by simp

definition careful_parsers :: "ch_dns_rdata_parser list" where
  "careful_parsers =
     [dns_ipv4_parser, cname_parser, afsdb_parser, minfo_parser, mb_parser, mf_parser, md_parser, mg_parser, mr_parser, mx_parser, ns_parser,
      null_parser, ptr_parser, soa_parser, cert_parser, dhcid_parser, dlv_parser, dname_parser, ds_parser, kx_parser, loc_parser,
      nsap_ptr_parser, nsap_parser, openpgpkey_parser, px_parser, rp_parser, rt_parser, srv_parser, sshfp_parser]"

text \<open>
  With the parsers that read integers, names and the rest of a record only, and for records of unknown types, the parser of
  responses does not read outside the packet.
\<close>

theorem dns_response_parse_inside:
  assumes "l \<le> 512" "l \<le> length mem" "set pool \<subseteq> set careful_parsers"
  shows "\<exists>r. ch_dns_response_parse pool (ch_dns_data_input_init mem 0 l) = Inr r"
proof (rule response_parse_in)
  show "din_in 0 0 (ch_dns_data_input_init mem 0 l)" using assms(1,2) by (simp add: din_in_def din_macros)
  have "list_all (parser_in 0) careful_parsers" by (simp add: careful_parsers_def careful_parsers_in)
  then show "\<forall>p\<in>set pool. parser_in 0 p" using assms(3) by (auto simp: list_all_iff)
qed

theorem dns_response_parse_inside_witness:
  "\<exists>r. ch_dns_response_parse [dns_ipv4_parser, mx_parser] (ch_dns_data_input_init
     [0, 1, 0x81, 0x80, 0, 0, 0, 1, 0, 0, 0, 0, 0, 0, 1, 0, 1, 0, 0, 0, 9, 0, 4, 10, 0, 0, 1] 0 27) = Inr r"
  by (rule dns_response_parse_inside) (simp_all add: careful_parsers_def)

section \<open>Records that are read from the wrong place\<close>

lemma rdlen_size:
  "dpos d \<le> dlast d \<Longrightarrow> dlast d - dpos d < 2 ^ 64 \<Longrightarrow> nat (ch_dns_data_input_rdlen d mod 2 ^ 64) = dlast d - dpos d"
  by (simp add: din_macros)

text \<open>
  The parser of AAAA records moves the position before it copies: the address it stores is the 16 bytes behind the
  address, and if the packet ends less than 16 bytes behind the address it reads outside the packet.
\<close>

theorem dns_aaaa_reads_behind:
  assumes "rd_data rd = RD_packet off" "16 \<le> unat (rd_dlen rd)"
  shows "rdata_ipv6_parse rd rdata_ipv6_create =
    (if off + 32 \<le> length (rd_base rd) then Inr (0, \<lparr>ipv6_address = Some (take 16 (drop (off + 16) (rd_base rd)) @ [0])\<rparr>)
     else Inl Out_Of_Bounds)"
proof -
  have "unat (rd_dlen rd) < 2 ^ 64" by (rule less_trans [OF unat_lt16]) simp
  then have l: "nat (ch_dns_data_input_rdlen (ch_dns_rdata_input_init rd) mod 2 ^ 64) = unat (rd_dlen rd)"
    using assms(1) by (subst rdlen_size) (simp_all add: ch_dns_data_input_init_def)
  show ?thesis
    unfolding rdata_ipv6_parse_def rdata_parse_def rd_steps.simps rd_bytes_def ch_dns_data_input_bytes_read_def Let_def l
    using assms by (simp add: rdata_ipv6_create_def din_macros ch_dns_data_copy_def)
qed

text \<open>The address \<^verbatim>\<open>::1\<close> at offset 0, and 16 bytes \<^verbatim>\<open>0x37\<close> behind it.\<close>

theorem dns_aaaa_reads_behind_witness:
  "let rd = \<lparr>rd_name_of = CH_DNS_NAME_INIT, rd_type = 28, rd_dclass = 1, rd_ttl = 0, rd_base = replicate 15 0 @ [1] @ replicate 16 0x37,
       rd_data = RD_packet 0, rd_dlen = 16\<rparr>
   in rdata_ipv6_parse rd rdata_ipv6_create = Inr (0, \<lparr>ipv6_address = Some (replicate 16 0x37 @ [0])\<rparr>)"
  by (simp add: dns_aaaa_reads_behind Let_def)

text \<open>
  C40. A CAA record whose tag says that it is longer than the rest of the record makes the parser run away: the position
  is then one byte behind the record, what is left becomes a size of nearly \<open>2\<^sup>6\<^sup>4\<close>, and so many bytes are copied.
\<close>

theorem dns_caa_tag_overrun:
  assumes "rd_data rd = RD_packet off" "2 \<le> unat (rd_dlen rd)" "off + unat (rd_dlen rd) \<le> length (rd_base rd)" "length (rd_base rd) < 2 ^ 63"
    "unat (rd_dlen rd) < unat (rd_base rd ! (off + 1)) + 2"
  shows "rdata_caa_parse rd rdata_caa_create = Inl Out_Of_Bounds"
proof -
  define d where "d = ch_dns_rdata_input_init rd"
  define k where "k = unat (rd_dlen rd)"
  have d: "dmem d = rd_base rd" "dpos d = off" "dlast d = off + k" using assms(1) by (simp_all add: d_def k_def din_macros)
  note assms = assms [folded k_def]
  have fl: "rd_uint8 caa_flags_update rdata_caa_create d = Inr (True, caa_flags_update (\<lambda>_. VALUE_READ 0 [rd_base rd ! off]) rdata_caa_create, d\<lparr>dpos := off + 1\<rparr>)"
    using assms d by (simp add: rd_uint8_def ch_dns_data_input_uint8_read_def dns_int_read_def din_macros take_Suc_conv_app_nth)
  have len: "unat (VALUE_READ 0 [rd_base rd ! (off + 1)] :: u8) = unat (rd_base rd ! (off + 1))" by (simp add: VALUE_READ_be)
  have k: "nat (int (off + k) - int (off + 1)) = k - 1" by simp
  have tag: "rd_bstring caa_tag_update r (d\<lparr>dpos := off + 1\<rparr>) = Inl Out_Of_Bounds \<or>
    (\<exists>r'. rd_bstring caa_tag_update r (d\<lparr>dpos := off + 1\<rparr>) = Inr (True, r', d\<lparr>dpos := dlast d + 1\<rparr>))" for r
    using assms(2-5) d len k
    by (auto simp: rd_bstring_def ch_dns_data_input_bstring_read_dup_def ch_dns_data_input_uint8_read_def dns_int_read_def din_macros Let_def
        take_Suc_conv_app_nth ch_dns_data_copy_def)
  have rest: "rd_rbytes caa_value_update r (d\<lparr>dpos := dlast d + 1\<rparr>) = Inl Out_Of_Bounds" for r :: ch_dns_rdata_caa
    using assms d by (simp add: rd_rbytes_def ch_dns_data_input_rbytes_read_def din_macros ch_dns_data_copy_def)
  show ?thesis
    using fl tag [of "caa_flags_update (\<lambda>_. VALUE_READ 0 [rd_base rd ! off]) rdata_caa_create"] rest assms(1,2)
    by (auto simp: rdata_caa_parse_def rdata_parse_def d_def [symmetric] k_def simp del: ch_dns_rdata_input_init.simps)
qed

theorem dns_caa_tag_overrun_witness:
  "let rd = \<lparr>rd_name_of = CH_DNS_NAME_INIT, rd_type = 257, rd_dclass = 1, rd_ttl = 0, rd_base = [0, 9, 105, 115] @ replicate 20 0,
       rd_data = RD_packet 0, rd_dlen = 4\<rparr>
   in rdata_caa_parse rd rdata_caa_create = Inl Out_Of_Bounds"
  unfolding Let_def by (rule dns_caa_tag_overrun [where off = 0]) simp_all

text \<open>
  The parser of NSEC records does not move the position behind the name it reads: the bitmap it stores is as long as
  the whole record, and consists of the bytes behind the record.
\<close>

theorem dns_nsec_bitmap_behind:
  assumes "rd_data rd = RD_packet off" "0 < unat (rd_dlen rd)" "unat (rd_dlen rd) \<le> 512" "off + 2 * unat (rd_dlen rd) \<le> length (rd_base rd)"
    "ch_dns_rdata_name_parse rd = Inr (Some n)"
  shows "rdata_nsec_parse rd rdata_nsec_create = Inr (0, \<lparr>nsec_name = n, nsec_typebitmap_len = rd_dlen rd,
    nsec_typebitmap = Some (take (unat (rd_dlen rd)) (drop (off + unat (rd_dlen rd)) (rd_base rd)) @ [0])\<rparr>)"
proof -
  define d where "d = ch_dns_rdata_input_init rd"
  have d: "dmem d = rd_base rd" "dpos d = off" "dlast d = off + unat (rd_dlen rd)" using assms(1) by (simp_all add: d_def din_macros)
  have l: "ch_dns_data_input_rdlen d = int (unat (rd_dlen rd))" using d by (simp add: ch_dns_data_input_rdlen_def)
  have "int k mod 2 ^ 64 = int k" if "k \<le> 512" for k using that by (subst mod_pos_pos_trivial) simp_all
  from this [OF assms(3)] have m: "int (unat (rd_dlen rd)) mod 2 ^ 64 = int (unat (rd_dlen rd))" .
  have w: "word_of_nat (unat (rd_dlen rd)) = rd_dlen rd" by simp
  show ?thesis
    using assms d
    by (simp add: rdata_nsec_parse_def rdata_parse_def d_def [symmetric] rd_name_own_def rd_rdlen_def rd_check_def rd_bytes_def
        CH_DNS_DLEN_CHECK_def ch_dns_data_input_bytes_read_def l m w Let_def ch_dns_data_input_pos_update_def ch_dns_data_copy_def rdata_nsec_create_def
        del: ch_dns_rdata_input_init.simps of_nat_unat)
qed

theorem dns_nsec_bitmap_behind_witness:
  "let rd = \<lparr>rd_name_of = CH_DNS_NAME_INIT, rd_type = 47, rd_dclass = 1, rd_ttl = 0, rd_base = [1, 97, 0, 0, 1, 0x40] @ replicate 6 0x37,
       rd_data = RD_packet 0, rd_dlen = 6\<rparr>
   in rdata_nsec_parse rd rdata_nsec_create = Inr (0, \<lparr>nsec_name = \<lparr>ndata = Some [97, 0], name_length = 1, name_labels = 1\<rparr>,
        nsec_typebitmap_len = 6, nsec_typebitmap = Some (replicate 6 0x37 @ [0])\<rparr>)"
proof -
  let ?rd = "\<lparr>rd_name_of = CH_DNS_NAME_INIT, rd_type = 47, rd_dclass = 1, rd_ttl = 0, rd_base = [1, 97, 0, 0, 1, 0x40] @ replicate 6 0x37,
       rd_data = RD_packet 0, rd_dlen = 6\<rparr>"
  have "ch_dns_rdata_name_parse ?rd = Inr (Some \<lparr>ndata = Some [97, 0], name_length = 1, name_labels = 1\<rparr>)" by code_simp
  from dns_nsec_bitmap_behind [OF _ _ _ _ this, of 0] show ?thesis by (simp add: Let_def)
qed

section \<open>Requests are read back\<close>

text \<open>The bytes of a question and of a header.\<close>

type_synonym question_spec = "bytes list \<times> u16 \<times> u16"

definition enc_question :: "question_spec \<Rightarrow> bytes" where
  "enc_question q = (case q of (ls, qt, qc) \<Rightarrow> dns_name_bytes ls @ DOUT_VALUE_WRITE qt 2 @ DOUT_VALUE_WRITE qc 2)"

definition question_of :: "question_spec \<Rightarrow> ch_dns_question" where
  "question_of q = (case q of (ls, qt, qc) \<Rightarrow> \<lparr>qname = name_of_labels ls, qtype = qt, qclass = qc\<rparr>)"

definition question_ok :: "question_spec \<Rightarrow> bool" where
  "question_ok q = (case q of (ls, _, _) \<Rightarrow> (\<forall>x\<in>set ls. x \<noteq> [] \<and> length x < 64) \<and> wire_len ls \<le> 255)"

definition enc_header :: "ch_dns_header \<Rightarrow> bytes" where
  "enc_header h = DOUT_VALUE_WRITE (hdr_id h) 2 @ DOUT_VALUE_WRITE (hdr_flags h) 2 @ DOUT_VALUE_WRITE (hdr_qcount h) 2 @
     DOUT_VALUE_WRITE (hdr_ancount h) 2 @ DOUT_VALUE_WRITE (hdr_aucount h) 2 @ DOUT_VALUE_WRITE (hdr_adcount h) 2"

definition dns_header_ok :: "ch_dns_header \<Rightarrow> bool" where
  "dns_header_ok h \<longleftrightarrow> ch_dns_hdr_rcode (hdr_flags h) \<le> 5 \<and> CHECK_INTV (hdr_qcount h) \<and> CHECK_INTV (hdr_ancount h) \<and>
     CHECK_INTV (hdr_aucount h) \<and> CHECK_INTV (hdr_adcount h)"

lemma uint16_at:
  assumes "drop (dpos d) (dmem d) = DOUT_VALUE_WRITE v 2 @ rest" "dpos d + 2 \<le> dlast d"
  shows "ch_dns_data_input_uint16_read d = (v, d\<lparr>dpos := dpos d + 2\<rparr>)" "drop (dpos d + 2) (dmem d) = rest"
proof -
  have "take 2 (drop (dpos d) (dmem d)) = DOUT_VALUE_WRITE v 2" unfolding assms(1) by (simp del: DOUT_VALUE_WRITE.simps)
  then show "ch_dns_data_input_uint16_read d = (v, d\<lparr>dpos := dpos d + 2\<rparr>)"
    using assms(2) by (simp add: ch_dns_data_input_uint16_read_def dns_int_read_def din_macros VALUE_READ_WRITE del: DOUT_VALUE_WRITE.simps)
  have "drop (dpos d + 2) (dmem d) = drop 2 (drop (dpos d) (dmem d))" by (simp add: add.commute)
  then show "drop (dpos d + 2) (dmem d) = rest" unfolding assms(1) by (simp del: DOUT_VALUE_WRITE.simps drop_drop)
qed

lemma name_at:
  assumes "drop (dpos d) (dmem d) = dns_name_bytes ls @ rest" "\<forall>x\<in>set ls. x \<noteq> [] \<and> length x < 64" "wire_len ls \<le> 255"
    "dpos d + wire_len ls \<le> dlast d" "dlast d \<le> length (dmem d)"
  shows "ch_dns_name_parse d = Inr (Some (name_of_labels ls, d\<lparr>dpos := dpos d + wire_len ls\<rparr>))" "drop (dpos d + wire_len ls) (dmem d) = rest"
proof -
  have mem: "dmem d = take (dpos d) (dmem d) @ dns_name_bytes ls @ rest" unfolding assms(1) [symmetric] by simp
  have pre: "length (take (dpos d) (dmem d)) = dpos d" using assms(4,5) by simp
  have "dns_name_at (dmem d) (dlast d) (dpos d) (dpos d) ls (wire_len ls)"
    using dns_name_bytes_at [OF assms(2), of "take (dpos d) (dmem d)" "dlast d" rest "dpos d"] assms(4) pre mem by simp
  then show "ch_dns_name_parse d = Inr (Some (name_of_labels ls, d\<lparr>dpos := dpos d + wire_len ls\<rparr>))"
    using assms(3-5) by (intro name_parse_at) auto
  have "drop (dpos d + wire_len ls) (dmem d) = drop (wire_len ls) (drop (dpos d) (dmem d))" by (simp add: add.commute)
  then show "drop (dpos d + wire_len ls) (dmem d) = rest" unfolding assms(1) by (simp add: length_dns_name_bytes del: drop_drop)
qed

lemma length_enc_question: "length (enc_question (ls, qt, qc)) = wire_len ls + 4"
  by (simp add: enc_question_def length_dns_name_bytes del: DOUT_VALUE_WRITE.simps)

lemma question_at:
  assumes "drop (dpos d) (dmem d) = enc_question q @ rest" "question_ok q" "dpos d + length (enc_question q) \<le> dlast d" "dlast d \<le> length (dmem d)"
  shows "ch_dns_question_parse d = Inr (Some (question_of q, d\<lparr>dpos := dpos d + length (enc_question q)\<rparr>))"
    "drop (dpos d + length (enc_question q)) (dmem d) = rest"
proof -
  obtain ls qt qc where q: "q = (ls, qt, qc)" by (cases q)
  note len = length_enc_question [of ls qt qc]
  have n: "ch_dns_name_parse d = Inr (Some (name_of_labels ls, d\<lparr>dpos := dpos d + wire_len ls\<rparr>))"
    "drop (dpos d + wire_len ls) (dmem d) = DOUT_VALUE_WRITE qt 2 @ DOUT_VALUE_WRITE qc 2 @ rest"
    using name_at [of d ls "DOUT_VALUE_WRITE qt 2 @ DOUT_VALUE_WRITE qc 2 @ rest"] assms q len
    by (simp_all add: enc_question_def question_ok_def del: DOUT_VALUE_WRITE.simps)
  let ?d1 = "d\<lparr>dpos := dpos d + wire_len ls\<rparr>"
  have 1: "ch_dns_data_input_uint16_read ?d1 = (qt, ?d1\<lparr>dpos := dpos d + wire_len ls + 2\<rparr>)"
    "drop (dpos d + wire_len ls + 2) (dmem d) = DOUT_VALUE_WRITE qc 2 @ rest"
    using uint16_at [of ?d1 qt "DOUT_VALUE_WRITE qc 2 @ rest"] n(2) assms(3) q len by (simp_all del: DOUT_VALUE_WRITE.simps)
  let ?d2 = "d\<lparr>dpos := dpos d + wire_len ls + 2\<rparr>"
  have 2: "ch_dns_data_input_uint16_read ?d2 = (qc, ?d2\<lparr>dpos := dpos d + wire_len ls + 4\<rparr>)" "drop (dpos d + wire_len ls + 4) (dmem d) = rest"
    using uint16_at [of ?d2 qc rest] 1(2) assms(3) q len by (simp_all add: eval_nat_numeral del: DOUT_VALUE_WRITE.simps)
  show "ch_dns_question_parse d = Inr (Some (question_of q, d\<lparr>dpos := dpos d + length (enc_question q)\<rparr>))"
    using n(1) 1(1) 2(1) assms(3) q len by (simp add: ch_dns_question_parse_def question_of_def ch_dns_data_input_rdlen_def)
  show "drop (dpos d + length (enc_question q)) (dmem d) = rest" using 2(2) q len by (simp add: add.assoc)
qed

lemma questions_at:
  assumes "drop (dpos d) (dmem d) = concat (map enc_question qs) @ rest" "\<forall>q\<in>set qs. question_ok q"
    "dpos d + length (concat (map enc_question qs)) \<le> dlast d" "dlast d \<le> length (dmem d)"
  shows "parse_items ch_dns_question_parse (length qs) xs d =
    Inr (Some (xs @ map question_of qs, d\<lparr>dpos := dpos d + length (concat (map enc_question qs))\<rparr>))"
  using assms
proof (induction qs arbitrary: xs d)
  case (Cons q qs)
  let ?d = "d\<lparr>dpos := dpos d + length (enc_question q)\<rparr>"
  have q: "ch_dns_question_parse d = Inr (Some (question_of q, ?d))" "drop (dpos ?d) (dmem ?d) = concat (map enc_question qs) @ rest"
    using question_at [of d q "concat (map enc_question qs) @ rest"] Cons.prems by simp_all
  have "\<not> ch_dns_data_input_empty d" using Cons.prems(3) length_enc_question by (cases q) (auto simp: ch_dns_data_input_empty_def)
  then show ?case using q Cons.IH [of ?d "xs @ [question_of q]"] Cons.prems by (simp add: add.assoc)
qed simp

lemma header_at:
  assumes "drop (dpos d) (dmem d) = enc_header h @ rest" "dns_header_ok h" "dpos d + 12 \<le> dlast d"
  shows "ch_dns_header_parse d = Some (h, d\<lparr>dpos := dpos d + 12\<rparr>)" "drop (dpos d + 12) (dmem d) = rest"
proof -
  let ?w = "\<lambda>v :: u16. DOUT_VALUE_WRITE v 2"
  let ?d = "\<lambda>n. d\<lparr>dpos := dpos d + n\<rparr>"
  have rd: "ch_dns_data_input_uint16_read (?d n) = (v, ?d (n + 2)) \<and> drop (dpos d + (n + 2)) (dmem d) = r"
    if "drop (dpos d + n) (dmem d) = ?w v @ r" "n + 2 \<le> 12" for n v r
    using uint16_at [of "?d n" v r] that assms(3) by (simp add: add.assoc del: DOUT_VALUE_WRITE.simps)
  have z: "drop (dpos d + 0) (dmem d) = ?w (hdr_id h) @ ?w (hdr_flags h) @ ?w (hdr_qcount h) @ ?w (hdr_ancount h) @ ?w (hdr_aucount h) @
    ?w (hdr_adcount h) @ rest" using assms(1) by (simp add: enc_header_def del: DOUT_VALUE_WRITE.simps)
  note 1 = rd [OF z] note 2 = rd [OF conjunct2 [OF 1]] note 3 = rd [OF conjunct2 [OF 2]] note 4 = rd [OF conjunct2 [OF 3]]
  note 5 = rd [OF conjunct2 [OF 4]] note 6 = rd [OF conjunct2 [OF 5]]
  show "ch_dns_header_parse d = Some (h, d\<lparr>dpos := dpos d + 12\<rparr>)"
    using 1 2 3 4 5 6 assms(2,3)
    by (simp add: ch_dns_header_parse_def ch_dns_data_input_rdlen_def dns_header_ok_def not_less Let_def)
  show "drop (dpos d + 12) (dmem d) = rest" using 6 by (simp add: eval_nat_numeral)
qed

lemma request_at:
  assumes "dns_header_ok h" "unat (hdr_qcount h) = length qs" "\<forall>q\<in>set qs. question_ok q"
    "mem = enc_header h @ concat (map enc_question qs) @ rest" "12 + length (concat (map enc_question qs)) \<le> l" "l \<le> length mem"
  shows "ch_dns_request_parse (ch_dns_data_input_init mem 0 l) =
    Inr (Some (\<lparr>req_hdr = h, questions = map question_of qs\<rparr>, ch_dns_data_input_init mem (12 + length (concat (map enc_question qs))) l))"
proof -
  let ?d = "ch_dns_data_input_init mem 0 l"
  have h: "ch_dns_header_parse ?d = Some (h, ?d\<lparr>dpos := 12\<rparr>)" "drop 12 mem = concat (map enc_question qs) @ rest"
    using header_at [of ?d h "concat (map enc_question qs) @ rest"] assms by (simp_all add: ch_dns_data_input_init_def)
  have "parse_items ch_dns_question_parse (length qs) [] (?d\<lparr>dpos := 12\<rparr>) =
    Inr (Some ([] @ map question_of qs, (?d\<lparr>dpos := 12\<rparr>)\<lparr>dpos := 12 + length (concat (map enc_question qs))\<rparr>))"
    using questions_at [of "?d\<lparr>dpos := 12\<rparr>" qs rest "[]"] h(2) assms by (simp add: ch_dns_data_input_init_def)
  then show ?thesis using h(1) assms(2) by (simp add: ch_dns_request_parse_def ch_dns_data_input_init_def)
qed

text \<open>
  C25. A request that was encoded with any number of questions, each with a name of any labels, is read back: the parser returns
  its header and all its questions, in order, and stops just behind them.
\<close>

theorem dns_request_round_trip:
  assumes "dns_header_ok h" "unat (hdr_qcount h) = length qs" "\<forall>q\<in>set qs. question_ok q"
    "mem = enc_header h @ concat (map enc_question qs) @ rest" "12 + length (concat (map enc_question qs)) \<le> l" "l \<le> length mem"
  shows "ch_dns_request_parse (ch_dns_data_input_init mem 0 l) =
    Inr (Some (\<lparr>req_hdr = h, questions = map question_of qs\<rparr>, ch_dns_data_input_init mem (12 + length (concat (map enc_question qs))) l))"
  using assms by (rule request_at)

theorem dns_request_round_trip_witness:
  "let h = \<lparr>hdr_id = 7, hdr_flags = 0x100, hdr_qcount = 2, hdr_ancount = 0, hdr_aucount = 0, hdr_adcount = 0\<rparr>;
       qs = [([[97, 98], [99]], 1, 1), ([[100]], 28, 1)];
       mem = enc_header h @ concat (map enc_question qs) @ []
   in ch_dns_request_parse (ch_dns_data_input_init mem 0 29) =
      Inr (Some (\<lparr>req_hdr = h, questions = map question_of qs\<rparr>, ch_dns_data_input_init mem (12 + length (concat (map enc_question qs))) 29))"
  unfolding Let_def
  by (rule dns_request_round_trip [OF _ _ _ refl])
    (simp_all add: dns_header_ok_def ch_dns_hdr_rcode_def CHECK_INTV_def question_ok_def length_enc_question enc_header_def del: DOUT_VALUE_WRITE.simps)

end
