(* ===== verification/Dns_Output.thy ===== *)
theory Dns_Output
  imports Dns_Message
begin

text \<open>
  What is written and stored of DNS records: the functions \<^verbatim>\<open>_rdata_<type>_write\<close> and \<^verbatim>\<open>_rdata_<type>_store\<close> of
  \<^verbatim>\<open>udp/app/dns/ch_dns_rdata_<type>.c\<close> and what they share. A writer is a list of the writing macros, a
  store function a list of calls of the store. Shown here: what a store function packs is one complete entry of a map.
\<close>

section \<open>Writing and storing\<close>

type_synonym dout_op = "malloc_ok \<Rightarrow> ch_data_output \<Rightarrow> (int \<times> ch_data_output) res"

text \<open>The writing macros in a row: each returns -1 from the function or adds to \<^verbatim>\<open>len\<close>.\<close>

primrec dout_seq :: "malloc_ok \<Rightarrow> dout_op list \<Rightarrow> int \<Rightarrow> ch_data_output \<Rightarrow> (int \<times> ch_data_output) res" where
  "dout_seq mal [] len dout = Inr (len, dout)"
| "dout_seq mal (w # ws) len dout = dout_then (w mal dout) len (dout_seq mal ws)"

definition w_uint8 :: "u8 \<Rightarrow> dout_op" where "w_uint8 v mal dout = ch_dout_uint8_write mal dout v"
definition w_uint16 :: "u16 \<Rightarrow> dout_op" where "w_uint16 v mal dout = ch_dout_uint16_write mal dout v"
definition w_uint32 :: "u32 \<Rightarrow> dout_op" where "w_uint32 v mal dout = ch_dout_uint32_write mal dout v"
definition w_uint64 :: "u64 \<Rightarrow> dout_op" where "w_uint64 v mal dout = ch_dout_uint64_write mal dout v"
definition w_string16 :: "bytes option \<Rightarrow> u16 \<Rightarrow> dout_op" where "w_string16 p len mal dout = ch_dout_string16_write mal dout p len"
definition w_name :: "ch_dns_name \<Rightarrow> dout_op" where "w_name n mal dout = ch_dns_name_write mal dout n"

text \<open>\<^verbatim>\<open>CH_DOUT_STRING16_WRITE2\<close>: with the length \<^verbatim>\<open>strlen\<close> finds.\<close>

definition w_string16z :: "bytes option \<Rightarrow> dout_op" where
  "w_string16z p mal dout =
     (case p of
        None \<Rightarrow> ch_dout_string16_write mal dout (Some [0]) 0
      | Some b \<Rightarrow> ch_dout_string16_write mal dout (Some b) (of_nat (length (takeWhile (\<lambda>x. x \<noteq> 0) b))))"

type_synonym store_op = "ch_msgpack_store \<Rightarrow> ch_msgpack_store res"

primrec store_seq :: "store_op list \<Rightarrow> store_op" where
  "store_seq [] d = Inr d"
| "store_seq (f # fs) d = bind_res (f d) (store_seq fs)"

definition s_map :: "string \<Rightarrow> nat \<Rightarrow> store_op" where "s_map k n d = Inr (ch_msgpack_store_map_start d (Some k) n)"
definition s_map_nokey :: "nat \<Rightarrow> store_op" where "s_map_nokey n d = Inr (ch_msgpack_store_map_start d None n)"
definition s_array :: "string \<Rightarrow> nat \<Rightarrow> store_op" where "s_array k n d = Inr (ch_msgpack_store_array_start d (Some k) n)"
definition s_uint8 :: "string \<Rightarrow> u8 \<Rightarrow> store_op" where "s_uint8 k v d = Inr (ch_msgpack_store_write_uint8 d (Some k) v)"
definition s_uint16 :: "string \<Rightarrow> u16 \<Rightarrow> store_op" where "s_uint16 k v d = Inr (ch_msgpack_store_write_uint16 d (Some k) v)"
definition s_uint32 :: "string \<Rightarrow> u32 \<Rightarrow> store_op" where "s_uint32 k v d = Inr (ch_msgpack_store_write_uint32 d (Some k) v)"
definition s_uint64 :: "string \<Rightarrow> u64 \<Rightarrow> store_op" where "s_uint64 k v d = Inr (ch_msgpack_store_write_uint64 d (Some k) v)"
definition s_kv :: "string \<Rightarrow> bytes option \<Rightarrow> store_op" where "s_kv k v d = Inr (ch_msgpack_store_write_kv d k (map_option c_string_of v))"
definition s_str :: "bytes \<Rightarrow> store_op" where "s_str v d = Inr (ch_msgpack_store_write_str d (c_string_of v))"
definition s_str_wlen :: "string \<Rightarrow> bytes option \<Rightarrow> nat \<Rightarrow> store_op" where
  "s_str_wlen k v n d = ch_msgpack_store_write_str_wlen d k v (of_nat n)"
definition s_name_wkey :: "string \<Rightarrow> ch_dns_name \<Rightarrow> store_op" where "s_name_wkey k n d = ch_dns_name_store_wkey n d k"

text \<open>The packer copies the bytes, from \<^verbatim>\<open>NULL\<close> as well.\<close>

definition s_bin :: "string \<Rightarrow> bytes option \<Rightarrow> nat \<Rightarrow> store_op" where
  "s_bin k p n d =
     (case p of
        None \<Rightarrow> if n = 0 then ch_msgpack_store_write_bin_kv d (Some k) [] 0 else Inl Null_Deref
      | Some b \<Rightarrow> ch_msgpack_store_write_bin_kv d (Some k) b (of_nat n))"

section \<open>Parts that several types share\<close>

definition ch_dns_sec_key_write :: "ch_dns_sec_key \<Rightarrow> dout_op" where
  "ch_dns_sec_key_write r mal dout = dout_seq mal
     [w_uint16 (sk_flags r), w_uint8 (sk_proto r), w_uint8 (sk_alg r), w_string16 (sk_public_key r) (sk_public_key_len r)] 0 dout"

definition ch_dns_sec_key_store :: "ch_dns_sec_key \<Rightarrow> store_op" where
  "ch_dns_sec_key_store r = store_seq
     [s_map ''skey'' 4, s_uint16 ''flags'' (sk_flags r), s_uint8 ''proto'' (sk_proto r), s_uint8 ''alg'' (sk_alg r),
      s_bin ''pubKey'' (sk_public_key r) (unat (sk_public_key_len r))]"

definition ch_dns_sec_sig_write :: "ch_dns_sec_sig \<Rightarrow> dout_op" where
  "ch_dns_sec_sig_write r mal dout = dout_seq mal
     [w_uint16 (ss_covered r), w_uint8 (ss_alg r), w_uint8 (ss_labels r), w_uint32 (ss_origttl r), w_uint32 (ss_expire r),
      w_uint32 (ss_timeSigned r), w_uint16 (ss_footprint r), w_name (ss_signer r), w_string16 (ss_signature r) (ss_sign_len r)] 0 dout"

definition ch_dns_sec_sig_store :: "ch_dns_sec_sig \<Rightarrow> store_op" where
  "ch_dns_sec_sig_store r = store_seq
     [s_map ''ssig'' 9, s_uint16 ''covered'' (ss_covered r), s_uint8 ''alg'' (ss_alg r), s_uint8 ''labels'' (ss_labels r),
      s_uint32 ''origttl'' (ss_origttl r), s_uint32 ''expire'' (ss_expire r), s_uint32 ''timeSigned'' (ss_timeSigned r),
      s_uint16 ''footprint'' (ss_footprint r), ch_dns_name_store (ss_signer r), s_bin ''signature'' (ss_signature r) (unat (ss_sign_len r))]"

text \<open>The number of texts has 16 bits in the writer and in the store; the loops go over as many.\<close>

definition ch_dns_txt_base_write :: "bytes list \<Rightarrow> dout_op" where
  "ch_dns_txt_base_write txts mal dout =
     (let n = of_nat (length txts) :: u16
      in dout_seq mal (w_uint16 n # map (\<lambda>t. w_string16z (Some t)) (take (unat n) txts)) 0 dout)"

definition ch_dns_txt_base_store :: "bytes list \<Rightarrow> store_op" where
  "ch_dns_txt_base_store txts =
     (let n = of_nat (length txts) :: u16 in store_seq (s_array ''texts'' (unat n) # map s_str (take (unat n) txts)))"

section \<open>The types of records\<close>

definition rdata_ipv4_write :: "ch_dns_rdata_ipv4 \<Rightarrow> dout_op" where
  "rdata_ipv4_write r = w_uint32 (ipv4_address r)"

definition rdata_ipv4_store :: "ch_dns_rdata_ipv4 \<Rightarrow> store_op" where
  "rdata_ipv4_store r = store_seq
     [s_map ''ipv4'' 1, s_uint32 ''addr'' (ipv4_address r)]"

definition rdata_ipv6_write :: "ch_dns_rdata_ipv6 \<Rightarrow> dout_op" where
  "rdata_ipv6_write r = w_string16 (ipv6_address r) 16"

definition rdata_ipv6_store :: "ch_dns_rdata_ipv6 \<Rightarrow> store_op" where
  "rdata_ipv6_store r = store_seq
     [s_map ''ipv6'' 1, s_bin ''addr'' (ipv6_address r) 16]"

definition rdata_cname_write :: "ch_dns_rdata_cname \<Rightarrow> dout_op" where
  "rdata_cname_write r = w_name (cname_name r)"

definition rdata_cname_store :: "ch_dns_rdata_cname \<Rightarrow> store_op" where
  "rdata_cname_store r = store_seq
     [s_map ''cname'' 1, ch_dns_name_store (cname_name r)]"

definition rdata_afsdb_write :: "ch_dns_rdata_afsdb \<Rightarrow> dout_op" where
  "rdata_afsdb_write r mal dout = dout_seq mal
     [w_uint16 (afsdb_subtype r), w_name (afsdb_host r)] 0 dout"

definition rdata_afsdb_store :: "ch_dns_rdata_afsdb \<Rightarrow> store_op" where
  "rdata_afsdb_store r = store_seq
     [s_map ''afsdb'' 2, s_uint16 ''subtype'' (afsdb_subtype r), ch_dns_name_store (afsdb_host r)]"

definition rdata_txt_write :: "ch_dns_rdata_txt \<Rightarrow> dout_op" where
  "rdata_txt_write r mal dout = dout_seq mal
     [ch_dns_txt_base_write (txt_txt_base r)] 0 dout"

definition rdata_txt_store :: "ch_dns_rdata_txt \<Rightarrow> store_op" where
  "rdata_txt_store r = store_seq
     [s_map ''txt'' 1, ch_dns_txt_base_store (txt_txt_base r)]"

definition rdata_hinfo_write :: "ch_dns_rdata_hinfo \<Rightarrow> dout_op" where
  "rdata_hinfo_write r mal dout = dout_seq mal
     [w_string16z (hinfo_cpu r), w_string16z (hinfo_os r)] 0 dout"

definition rdata_hinfo_store :: "ch_dns_rdata_hinfo \<Rightarrow> store_op" where
  "rdata_hinfo_store r = store_seq
     [s_map ''hinfo'' 2, s_kv ''cpu'' (hinfo_cpu r), s_kv ''os'' (hinfo_os r)]"

definition rdata_minfo_write :: "ch_dns_rdata_minfo \<Rightarrow> dout_op" where
  "rdata_minfo_write r mal dout = dout_seq mal
     [w_name (minfo_responsibleAddress r), w_name (minfo_errorAddress r)] 0 dout"

definition rdata_minfo_store :: "ch_dns_rdata_minfo \<Rightarrow> store_op" where
  "rdata_minfo_store r = store_seq
     [s_map ''minfo'' 2, s_name_wkey ''responsibleAddress'' (minfo_responsibleAddress r), s_name_wkey ''errorAddress'' (minfo_errorAddress r)]"

definition rdata_mb_write :: "ch_dns_rdata_mb \<Rightarrow> dout_op" where
  "rdata_mb_write r = w_name (mb_name r)"

definition rdata_mb_store :: "ch_dns_rdata_mb \<Rightarrow> store_op" where
  "rdata_mb_store r = store_seq
     [s_map ''mb'' 1, ch_dns_name_store (mb_name r)]"

definition rdata_mf_write :: "ch_dns_rdata_mf \<Rightarrow> dout_op" where
  "rdata_mf_write r = w_name (mf_name r)"

definition rdata_mf_store :: "ch_dns_rdata_mf \<Rightarrow> store_op" where
  "rdata_mf_store r = store_seq
     [s_map ''mf'' 1, ch_dns_name_store (mf_name r)]"

definition rdata_md_write :: "ch_dns_rdata_md \<Rightarrow> dout_op" where
  "rdata_md_write r = w_name (md_name r)"

definition rdata_md_store :: "ch_dns_rdata_md \<Rightarrow> store_op" where
  "rdata_md_store r = store_seq
     [s_map ''md'' 1, ch_dns_name_store (md_name r)]"

definition rdata_mg_write :: "ch_dns_rdata_mg \<Rightarrow> dout_op" where
  "rdata_mg_write r = w_name (mg_name r)"

definition rdata_mg_store :: "ch_dns_rdata_mg \<Rightarrow> store_op" where
  "rdata_mg_store r = store_seq
     [s_map ''mg'' 1, ch_dns_name_store (mg_name r)]"

definition rdata_mr_write :: "ch_dns_rdata_mr \<Rightarrow> dout_op" where
  "rdata_mr_write r = w_name (mr_name r)"

definition rdata_mr_store :: "ch_dns_rdata_mr \<Rightarrow> store_op" where
  "rdata_mr_store r = store_seq
     [s_map ''mr'' 1, ch_dns_name_store (mr_name r)]"

definition rdata_mx_write :: "ch_dns_rdata_mx \<Rightarrow> dout_op" where
  "rdata_mx_write r mal dout = dout_seq mal
     [w_uint16 (mx_preference r), w_name (mx_mail_exchange r)] 0 dout"

definition rdata_mx_store :: "ch_dns_rdata_mx \<Rightarrow> store_op" where
  "rdata_mx_store r = store_seq
     [s_map ''mx'' 2, s_uint16 ''preference'' (mx_preference r), ch_dns_name_store (mx_mail_exchange r)]"

definition rdata_ns_write :: "ch_dns_rdata_ns \<Rightarrow> dout_op" where
  "rdata_ns_write r = w_name (ns_name r)"

definition rdata_ns_store :: "ch_dns_rdata_ns \<Rightarrow> store_op" where
  "rdata_ns_store r = store_seq
     [s_map ''ns'' 1, ch_dns_name_store (ns_name r)]"

definition rdata_null_write :: "ch_dns_rdata_null \<Rightarrow> dout_op" where
  "rdata_null_write r mal dout = dout_seq mal
     [w_string16 (null_data r) (null_dlen r)] 0 dout"

definition rdata_null_store :: "ch_dns_rdata_null \<Rightarrow> store_op" where
  "rdata_null_store r = store_seq
     [s_map ''null'' 1, s_bin ''data'' (null_data r) (unat (null_dlen r))]"

definition rdata_ptr_write :: "ch_dns_rdata_ptr \<Rightarrow> dout_op" where
  "rdata_ptr_write r = w_name (ptr_name r)"

definition rdata_ptr_store :: "ch_dns_rdata_ptr \<Rightarrow> store_op" where
  "rdata_ptr_store r = store_seq
     [s_map ''ptr'' 1, ch_dns_name_store (ptr_name r)]"

definition rdata_soa_write :: "ch_dns_rdata_soa \<Rightarrow> dout_op" where
  "rdata_soa_write r mal dout = dout_seq mal
     [w_name (soa_host r), w_name (soa_admin r), w_uint32 (soa_serial r), w_uint32 (soa_refresh r), w_uint32 (soa_retry r), w_uint32 (soa_expire r),
      w_uint32 (soa_minimum r)] 0 dout"

definition rdata_soa_store :: "ch_dns_rdata_soa \<Rightarrow> store_op" where
  "rdata_soa_store r = store_seq
     [s_map ''soa'' 7, s_name_wkey ''host'' (soa_host r), s_name_wkey ''admin'' (soa_admin r), s_uint32 ''serial'' (soa_serial r),
      s_uint32 ''refresh'' (soa_refresh r), s_uint32 ''retry'' (soa_retry r), s_uint32 ''expire'' (soa_expire r), s_uint32 ''minimum'' (soa_minimum r)]"

definition rdata_wks_write :: "ch_dns_rdata_wks \<Rightarrow> dout_op" where
  "rdata_wks_write r mal dout = dout_seq mal
     [w_uint32 (wks_address r), w_uint8 (wks_protocol r), w_string16 (wks_bitmap r) (wks_map_len r)] 0 dout"

definition rdata_wks_store :: "ch_dns_rdata_wks \<Rightarrow> store_op" where
  "rdata_wks_store r = store_seq
     [s_map ''wks'' 3, s_bin ''addr'' (Some (DOUT_VALUE_WRITE (wks_address r) 4)) 4, s_uint8 ''protocol'' (wks_protocol r),
      s_bin ''bitmap'' (wks_bitmap r) (unat (wks_map_len r))]"

definition rdata_caa_write :: "ch_dns_rdata_caa \<Rightarrow> dout_op" where
  "rdata_caa_write r mal dout = dout_seq mal
     [w_uint8 (caa_flags r), w_string16z (caa_tag r), w_string16z (caa_value r)] 0 dout"

definition rdata_caa_store :: "ch_dns_rdata_caa \<Rightarrow> store_op" where
  "rdata_caa_store r = store_seq
     [s_map ''caa'' 3, s_uint8 ''flags'' (caa_flags r), s_kv ''tag'' (caa_tag r), s_kv ''value'' (caa_value r)]"

definition rdata_cert_write :: "ch_dns_rdata_cert \<Rightarrow> dout_op" where
  "rdata_cert_write r mal dout = dout_seq mal
     [w_uint16 (cert_cert_type r), w_uint16 (cert_key_tag r), w_uint8 (cert_alg r), w_string16 (cert_cert r) (cert_cert_len r)] 0 dout"

definition rdata_cert_store :: "ch_dns_rdata_cert \<Rightarrow> store_op" where
  "rdata_cert_store r = store_seq
     [s_map ''cert'' 4, s_uint16 ''type'' (cert_cert_type r), s_uint16 ''tag'' (cert_key_tag r), s_uint8 ''alg'' (cert_alg r),
      s_bin ''value'' (cert_cert r) (unat (cert_cert_len r))]"

definition rdata_dhcid_write :: "ch_dns_rdata_dhcid \<Rightarrow> dout_op" where
  "rdata_dhcid_write r mal dout = dout_seq mal
     [w_string16 (dhcid_data r) (dhcid_dlen r)] 0 dout"

definition rdata_dhcid_store :: "ch_dns_rdata_dhcid \<Rightarrow> store_op" where
  "rdata_dhcid_store r = store_seq
     [s_map ''dhcid'' 1, s_bin ''data'' (dhcid_data r) (unat (dhcid_dlen r))]"

definition rdata_dlv_write :: "ch_dns_rdata_dlv \<Rightarrow> dout_op" where
  "rdata_dlv_write r mal dout = dout_seq mal
     [w_uint16 (dlv_footprint r), w_uint8 (dlv_alg r), w_uint8 (dlv_digestid r), w_string16 (dlv_digest r) (dlv_digest_len r)] 0 dout"

definition rdata_dlv_store :: "ch_dns_rdata_dlv \<Rightarrow> store_op" where
  "rdata_dlv_store r = store_seq
     [s_map ''dlv'' 4, s_uint16 ''footprint'' (dlv_footprint r), s_uint8 ''alg'' (dlv_alg r), s_uint8 ''digestid'' (dlv_digestid r),
      s_bin ''digest'' (dlv_digest r) (unat (dlv_digest_len r))]"

definition rdata_dname_write :: "ch_dns_rdata_dname \<Rightarrow> dout_op" where
  "rdata_dname_write r = w_name (dname_name r)"

definition rdata_dname_store :: "ch_dns_rdata_dname \<Rightarrow> store_op" where
  "rdata_dname_store r = store_seq
     [s_map ''dname'' 1, ch_dns_name_store (dname_name r)]"

definition rdata_dnskey_write :: "ch_dns_rdata_dnskey \<Rightarrow> dout_op" where
  "rdata_dnskey_write r mal dout = dout_seq mal
     [ch_dns_sec_key_write (dnskey_skey r)] 0 dout"

definition rdata_dnskey_store :: "ch_dns_rdata_dnskey \<Rightarrow> store_op" where
  "rdata_dnskey_store r = store_seq
     [s_map ''dnskey'' 1, ch_dns_sec_key_store (dnskey_skey r)]"

definition rdata_ds_write :: "ch_dns_rdata_ds \<Rightarrow> dout_op" where
  "rdata_ds_write r mal dout = dout_seq mal
     [w_uint16 (ds_footprint r), w_uint8 (ds_alg r), w_uint8 (ds_digestid r), w_string16 (ds_digest r) (ds_digest_len r)] 0 dout"

definition rdata_ds_store :: "ch_dns_rdata_ds \<Rightarrow> store_op" where
  "rdata_ds_store r = store_seq
     [s_map ''ds'' 4, s_uint16 ''footprint'' (ds_footprint r), s_uint8 ''alg'' (ds_alg r), s_uint8 ''digestid'' (ds_digestid r),
      s_bin ''digest'' (ds_digest r) (unat (ds_digest_len r))]"

definition rdata_gpos_write :: "ch_dns_rdata_gpos \<Rightarrow> dout_op" where
  "rdata_gpos_write r mal dout = dout_seq mal
     [w_string16z (gpos_longitude r), w_string16z (gpos_latitude r), w_string16z (gpos_altitude r)] 0 dout"

definition rdata_gpos_store :: "ch_dns_rdata_gpos \<Rightarrow> store_op" where
  "rdata_gpos_store r = store_seq
     [s_map ''gpos'' 3, s_kv ''longitude'' (gpos_longitude r), s_kv ''latitude'' (gpos_latitude r), s_kv ''altitude'' (gpos_altitude r)]"

definition rdata_isdn_write :: "ch_dns_rdata_isdn \<Rightarrow> dout_op" where
  "rdata_isdn_write r mal dout = dout_seq mal
     [w_string16z (isdn_addr r), w_string16z (isdn_subaddr r)] 0 dout"

definition rdata_isdn_store :: "ch_dns_rdata_isdn \<Rightarrow> store_op" where
  "rdata_isdn_store r = store_seq
     [s_map ''isdn'' 2, s_kv ''addr'' (isdn_addr r), s_kv ''subaddr'' (isdn_subaddr r)]"

definition rdata_key_write :: "ch_dns_rdata_key \<Rightarrow> dout_op" where
  "rdata_key_write r mal dout = dout_seq mal
     [ch_dns_sec_key_write (key_skey r)] 0 dout"

definition rdata_key_store :: "ch_dns_rdata_key \<Rightarrow> store_op" where
  "rdata_key_store r = store_seq
     [s_map ''key'' 1, ch_dns_sec_key_store (key_skey r)]"

definition rdata_kx_write :: "ch_dns_rdata_kx \<Rightarrow> dout_op" where
  "rdata_kx_write r mal dout = dout_seq mal
     [w_uint16 (kx_preference r), w_name (kx_name r)] 0 dout"

definition rdata_kx_store :: "ch_dns_rdata_kx \<Rightarrow> store_op" where
  "rdata_kx_store r = store_seq
     [s_map ''kx'' 2, s_uint16 ''preference'' (kx_preference r), ch_dns_name_store (kx_name r)]"

definition rdata_loc_write :: "ch_dns_rdata_loc \<Rightarrow> dout_op" where
  "rdata_loc_write r mal dout = dout_seq mal
     [w_uint8 (loc_version r), w_uint8 (loc_size r), w_uint8 (loc_hprecision r), w_uint8 (loc_vprecision r), w_uint32 (loc_latitude r),
      w_uint32 (loc_longitude r), w_uint32 (loc_altitude r)] 0 dout"

definition rdata_loc_store :: "ch_dns_rdata_loc \<Rightarrow> store_op" where
  "rdata_loc_store r = store_seq
     [s_map ''loc'' 7, s_uint8 ''version'' (loc_version r), s_uint8 ''size'' (loc_size r), s_uint8 ''hprecision'' (loc_hprecision r),
      s_uint8 ''vprecision'' (loc_vprecision r), s_uint32 ''latitude'' (loc_latitude r), s_uint32 ''longitude'' (loc_longitude r),
      s_uint32 ''altitude'' (loc_altitude r)]"

definition rdata_naptr_write :: "ch_dns_rdata_naptr \<Rightarrow> dout_op" where
  "rdata_naptr_write r mal dout = dout_seq mal
     [w_uint16 (naptr_order r), w_uint16 (naptr_preference r), w_string16z (naptr_flags r), w_string16z (naptr_service r),
      w_string16z (naptr_regex r), w_name (naptr_replacement r)] 0 dout"

definition rdata_naptr_store :: "ch_dns_rdata_naptr \<Rightarrow> store_op" where
  "rdata_naptr_store r = store_seq
     [s_map ''naptr'' 6, s_uint16 ''order'' (naptr_order r), s_uint16 ''preference'' (naptr_preference r), s_kv ''flags'' (naptr_flags r),
      s_kv ''service'' (naptr_service r), s_kv ''regex'' (naptr_regex r), ch_dns_name_store (naptr_replacement r)]"

definition rdata_nsap_ptr_write :: "ch_dns_rdata_nsap_ptr \<Rightarrow> dout_op" where
  "rdata_nsap_ptr_write r = w_name (nsap_ptr_name r)"

definition rdata_nsap_ptr_store :: "ch_dns_rdata_nsap_ptr \<Rightarrow> store_op" where
  "rdata_nsap_ptr_store r = store_seq
     [s_map ''nsapptr'' 1, ch_dns_name_store (nsap_ptr_name r)]"

definition rdata_nsap_write :: "ch_dns_rdata_nsap \<Rightarrow> dout_op" where
  "rdata_nsap_write r mal dout = dout_seq mal
     [w_string16 (nsap_addr r) (nsap_addr_len r)] 0 dout"

definition rdata_nsap_store :: "ch_dns_rdata_nsap \<Rightarrow> store_op" where
  "rdata_nsap_store r = store_seq
     [s_map ''nsap'' 1, s_bin ''addr'' (nsap_addr r) (unat (nsap_addr_len r))]"

definition rdata_nsec3param_write :: "ch_dns_rdata_nsec3param \<Rightarrow> dout_op" where
  "rdata_nsec3param_write r mal dout = dout_seq mal
     [w_uint8 (nsec3param_hash_alg r), w_uint8 (nsec3param_flags r), w_uint16 (nsec3param_iterations r),
      w_string16 (nsec3param_salt r) (ucast (nsec3param_salt_len r))] 0 dout"

definition rdata_nsec3param_store :: "ch_dns_rdata_nsec3param \<Rightarrow> store_op" where
  "rdata_nsec3param_store r = store_seq
     [s_map ''nsec3param'' 4, s_uint8 ''alg'' (nsec3param_hash_alg r), s_uint8 ''flags'' (nsec3param_flags r),
      s_uint16 ''iterations'' (nsec3param_iterations r), s_bin ''salt'' (nsec3param_salt r) (unat (nsec3param_salt_len r))]"

definition rdata_nsec3_write :: "ch_dns_rdata_nsec3 \<Rightarrow> dout_op" where
  "rdata_nsec3_write r mal dout = dout_seq mal
     [w_uint8 (nsec3_hash_alg r), w_uint8 (nsec3_flags r), w_uint16 (nsec3_iterations r), w_string16 (nsec3_salt r) (ucast (nsec3_salt_len r)),
      w_string16 (nsec3_next r) (ucast (nsec3_hash_len r)), w_string16 (nsec3_typebitmap r) (nsec3_typebitmap_len r)] 0 dout"

definition rdata_nsec3_store :: "ch_dns_rdata_nsec3 \<Rightarrow> store_op" where
  "rdata_nsec3_store r = store_seq
     [s_map ''nsec3'' 6, s_uint8 ''alg'' (nsec3_hash_alg r), s_uint8 ''flags'' (nsec3_flags r), s_uint16 ''iterations'' (nsec3_iterations r),
      s_bin ''salt'' (nsec3_salt r) (unat (nsec3_salt_len r)), s_bin ''next'' (nsec3_next r) (unat (nsec3_hash_len r)),
      s_bin ''tbtm'' (nsec3_typebitmap r) (unat (nsec3_typebitmap_len r))]"

definition rdata_nsec_write :: "ch_dns_rdata_nsec \<Rightarrow> dout_op" where
  "rdata_nsec_write r mal dout = dout_seq mal
     [w_name (nsec_name r), w_string16 (nsec_typebitmap r) (nsec_typebitmap_len r)] 0 dout"

definition rdata_nsec_store :: "ch_dns_rdata_nsec \<Rightarrow> store_op" where
  "rdata_nsec_store r = store_seq
     [s_map ''nsec'' 2, ch_dns_name_store (nsec_name r), s_bin ''tbtm'' (nsec_typebitmap r) (unat (nsec_typebitmap_len r))]"

definition rdata_nxt_write :: "ch_dns_rdata_nxt \<Rightarrow> dout_op" where
  "rdata_nxt_write r mal dout = dout_seq mal
     [w_name (nxt_name r), w_string16 (nxt_typebitmap r) (nxt_typebitmap_len r)] 0 dout"

definition rdata_nxt_store :: "ch_dns_rdata_nxt \<Rightarrow> store_op" where
  "rdata_nxt_store r = store_seq
     [s_map ''nxt'' 2, ch_dns_name_store (nxt_name r), s_bin ''tbtm'' (nxt_typebitmap r) (unat (nxt_typebitmap_len r))]"

definition rdata_openpgpkey_write :: "ch_dns_rdata_openpgpkey \<Rightarrow> dout_op" where
  "rdata_openpgpkey_write r mal dout = dout_seq mal
     [w_string16 (openpgpkey_key r) (openpgpkey_key_len r)] 0 dout"

definition rdata_openpgpkey_store :: "ch_dns_rdata_openpgpkey \<Rightarrow> store_op" where
  "rdata_openpgpkey_store r = store_seq
     [s_map ''openpgpkey'' 1, s_bin ''key'' (openpgpkey_key r) (unat (openpgpkey_key_len r))]"

definition rdata_px_write :: "ch_dns_rdata_px \<Rightarrow> dout_op" where
  "rdata_px_write r mal dout = dout_seq mal
     [w_uint16 (px_preference r), w_name (px_map822 r), w_name (px_mapx400 r)] 0 dout"

definition rdata_px_store :: "ch_dns_rdata_px \<Rightarrow> store_op" where
  "rdata_px_store r = store_seq
     [s_map ''px'' 3, s_uint16 ''preference'' (px_preference r), s_name_wkey ''map822'' (px_map822 r), s_name_wkey ''mapx400'' (px_mapx400 r)]"

definition rdata_rp_write :: "ch_dns_rdata_rp \<Rightarrow> dout_op" where
  "rdata_rp_write r mal dout = dout_seq mal
     [w_name (rp_mailbox r), w_name (rp_textdomain r)] 0 dout"

definition rdata_rp_store :: "ch_dns_rdata_rp \<Rightarrow> store_op" where
  "rdata_rp_store r = store_seq
     [s_map ''rp'' 2, s_name_wkey ''mailbox'' (rp_mailbox r), s_name_wkey ''textdomain'' (rp_textdomain r)]"

definition rdata_rrsig_write :: "ch_dns_rdata_rrsig \<Rightarrow> dout_op" where
  "rdata_rrsig_write r mal dout = dout_seq mal
     [ch_dns_sec_sig_write (rrsig_sig r)] 0 dout"

definition rdata_rrsig_store :: "ch_dns_rdata_rrsig \<Rightarrow> store_op" where
  "rdata_rrsig_store r = store_seq
     [s_map ''rrsig'' 1, ch_dns_sec_sig_store (rrsig_sig r)]"

definition rdata_rt_write :: "ch_dns_rdata_rt \<Rightarrow> dout_op" where
  "rdata_rt_write r mal dout = dout_seq mal
     [w_uint16 (rt_preference r), w_name (rt_midhost r)] 0 dout"

definition rdata_rt_store :: "ch_dns_rdata_rt \<Rightarrow> store_op" where
  "rdata_rt_store r = store_seq
     [s_map ''rt'' 2, s_uint16 ''preference'' (rt_preference r), ch_dns_name_store (rt_midhost r)]"

definition rdata_sig_write :: "ch_dns_rdata_sig \<Rightarrow> dout_op" where
  "rdata_sig_write r mal dout = dout_seq mal
     [ch_dns_sec_sig_write (sig_sig r)] 0 dout"

definition rdata_sig_store :: "ch_dns_rdata_sig \<Rightarrow> store_op" where
  "rdata_sig_store r = store_seq
     [s_map ''sig'' 1, ch_dns_sec_sig_store (sig_sig r)]"

definition rdata_smimea_write :: "ch_dns_rdata_smimea \<Rightarrow> dout_op" where
  "rdata_smimea_write r mal dout = dout_seq mal
     [w_uint8 (smimea_cert_usage r), w_uint8 (smimea_selector r), w_uint8 (smimea_matching_type r),
      w_string16 (smimea_cert_data r) (smimea_cert_dlen r)] 0 dout"

definition rdata_smimea_store :: "ch_dns_rdata_smimea \<Rightarrow> store_op" where
  "rdata_smimea_store r = store_seq
     [s_map ''smimea'' 4, s_uint8 ''certUsage'' (smimea_cert_usage r), s_uint8 ''selector'' (smimea_selector r),
      s_uint8 ''matchingType'' (smimea_matching_type r), s_bin ''data'' (smimea_cert_data r) (unat (smimea_cert_dlen r))]"

definition rdata_spf_write :: "ch_dns_rdata_spf \<Rightarrow> dout_op" where
  "rdata_spf_write r mal dout = dout_seq mal
     [ch_dns_txt_base_write (spf_txt_base r)] 0 dout"

definition rdata_spf_store :: "ch_dns_rdata_spf \<Rightarrow> store_op" where
  "rdata_spf_store r = store_seq
     [s_map ''spf'' 1, ch_dns_txt_base_store (spf_txt_base r)]"

definition rdata_srv_write :: "ch_dns_rdata_srv \<Rightarrow> dout_op" where
  "rdata_srv_write r mal dout = dout_seq mal
     [w_uint16 (srv_priority r), w_uint16 (srv_weight r), w_uint16 (srv_port r), w_name (srv_target r)] 0 dout"

definition rdata_srv_store :: "ch_dns_rdata_srv \<Rightarrow> store_op" where
  "rdata_srv_store r = store_seq
     [s_map ''srv'' 4, s_uint16 ''priority'' (srv_priority r), s_uint16 ''weight'' (srv_weight r), s_uint16 ''port'' (srv_port r),
      ch_dns_name_store (srv_target r)]"

definition rdata_sshfp_write :: "ch_dns_rdata_sshfp \<Rightarrow> dout_op" where
  "rdata_sshfp_write r mal dout = dout_seq mal
     [w_uint8 (sshfp_alg r), w_uint8 (sshfp_digest_type r), w_string16 (sshfp_fingerprint r) (sshfp_fp_len r)] 0 dout"

definition rdata_sshfp_store :: "ch_dns_rdata_sshfp \<Rightarrow> store_op" where
  "rdata_sshfp_store r = store_seq
     [s_map ''sshfp'' 3, s_uint8 ''alg'' (sshfp_alg r), s_uint8 ''digestType'' (sshfp_digest_type r),
      s_bin ''fingerprint'' (sshfp_fingerprint r) (unat (sshfp_fp_len r))]"

definition rdata_tkey_write :: "ch_dns_rdata_tkey \<Rightarrow> dout_op" where
  "rdata_tkey_write r mal dout = dout_seq mal
     [w_name (tkey_alg r), w_uint32 (tkey_time_inception r), w_uint32 (tkey_time_expire r), w_uint16 (tkey_mode r), w_uint16 (tkey_error r),
      w_string16 (tkey_key r) (tkey_key_len r), w_string16 (tkey_other r) (tkey_other_len r)] 0 dout"

definition rdata_tkey_store :: "ch_dns_rdata_tkey \<Rightarrow> store_op" where
  "rdata_tkey_store r = store_seq
     [s_map ''tkey'' 7, ch_dns_name_store (tkey_alg r), s_uint32 ''timeInception'' (tkey_time_inception r),
      s_uint32 ''timeExpire'' (tkey_time_expire r), s_uint16 ''mode'' (tkey_mode r), s_uint16 ''error'' (tkey_error r),
      s_bin ''key'' (tkey_key r) (unat (tkey_key_len r)), s_bin ''other'' (tkey_other r) (unat (tkey_other_len r))]"

definition rdata_tlsa_write :: "ch_dns_rdata_tlsa \<Rightarrow> dout_op" where
  "rdata_tlsa_write r mal dout = dout_seq mal
     [w_uint8 (tlsa_cert_usage r), w_uint8 (tlsa_selector r), w_uint8 (tlsa_matching_type r), w_string16 (tlsa_cert_data r) (tlsa_cert_dlen r)] 0 dout"

definition rdata_tlsa_store :: "ch_dns_rdata_tlsa \<Rightarrow> store_op" where
  "rdata_tlsa_store r = store_seq
     [s_map ''tlsa'' 4, s_uint8 ''certUsage'' (tlsa_cert_usage r), s_uint8 ''selector'' (tlsa_selector r),
      s_uint8 ''matchingType'' (tlsa_matching_type r), s_bin ''data'' (tlsa_cert_data r) (unat (tlsa_cert_dlen r))]"

definition rdata_tsig_write :: "ch_dns_rdata_tsig \<Rightarrow> dout_op" where
  "rdata_tsig_write r mal dout = dout_seq mal
     [w_name (tsig_alg r), w_uint64 (tsig_timeSigned r), w_uint16 (tsig_fudge r), w_string16 (tsig_signature r) (tsig_sig_len r),
      w_uint16 (tsig_orig_id r), w_uint16 (tsig_error r), w_string16 (tsig_other r) (tsig_other_len r)] 0 dout"

definition rdata_tsig_store :: "ch_dns_rdata_tsig \<Rightarrow> store_op" where
  "rdata_tsig_store r = store_seq
     [s_map ''tsig'' 7, ch_dns_name_store (tsig_alg r), s_uint64 ''timeSigned'' (tsig_timeSigned r), s_uint16 ''fudge'' (tsig_fudge r),
      s_bin ''signature'' (tsig_signature r) (unat (tsig_sig_len r)), s_uint16 ''origID'' (tsig_orig_id r), s_uint16 ''error'' (tsig_error r),
      s_bin ''other'' (tsig_other r) (unat (tsig_other_len r))]"

definition rdata_x25_write :: "ch_dns_rdata_x25 \<Rightarrow> dout_op" where
  "rdata_x25_write r mal dout = dout_seq mal
     [w_string16z (x25_address r)] 0 dout"

definition rdata_x25_store :: "ch_dns_rdata_x25 \<Rightarrow> store_op" where
  "rdata_x25_store r = store_seq
     [s_map ''x25'' 1, s_kv ''address'' (x25_address r)]"

definition rdata_uri_write :: "ch_dns_rdata_uri \<Rightarrow> dout_op" where
  "rdata_uri_write r mal dout = dout_seq mal
     [w_uint16 (uri_priority r), w_uint16 (uri_weight r), w_string16 (uri_target r) (uri_target_len r)] 0 dout"

definition rdata_uri_store :: "ch_dns_rdata_uri \<Rightarrow> store_op" where
  "rdata_uri_store r = store_seq
     [s_map ''uri'' 3, s_uint16 ''priority'' (uri_priority r), s_uint16 ''weight'' (uri_weight r),
      s_str_wlen ''target'' (uri_target r) (unat (uri_target_len r))]"

definition apl_entry_write :: "ch_dns_rdata_apl_entry \<Rightarrow> dout_op" where
  "apl_entry_write e mal dout = dout_seq mal
     [w_uint16 (ae_family e), w_uint8 (ae_prefix e), w_uint8 (ae_neg e), w_string16 (ae_data e) (ucast (ae_dlen e))] 0 dout"

definition apl_entry_store :: "ch_dns_rdata_apl_entry \<Rightarrow> store_op" where
  "apl_entry_store e = store_seq
     [s_map_nokey 4, s_uint16 ''family'' (ae_family e), s_uint8 ''prefix'' (ae_prefix e), s_uint8 ''neg'' (ae_neg e),
      s_bin ''data'' (ae_data e) (unat (ae_dlen e))]"

definition rdata_apl_write :: "ch_dns_rdata_apl \<Rightarrow> dout_op" where
  "rdata_apl_write r mal dout = dout_seq mal (w_uint16 (apl_entries_n r) # map apl_entry_write (apl_entries r)) 0 dout"

definition rdata_apl_store :: "ch_dns_rdata_apl \<Rightarrow> store_op" where
  "rdata_apl_store r = store_seq
     ([s_map ''apl'' 1, s_array ''entries'' (unat (apl_entries_n r))] @ map apl_entry_store (apl_entries r))"

definition opt_entry_write :: "ch_dns_rdata_opt_entry \<Rightarrow> dout_op" where
  "opt_entry_write e mal dout = dout_seq mal [w_uint16 (oe_code e), w_string16 (oe_data e) (oe_dlen e)] 0 dout"

definition opt_entry_store :: "ch_dns_rdata_opt_entry \<Rightarrow> store_op" where
  "opt_entry_store e = store_seq [s_map_nokey 2, s_uint16 ''code'' (oe_code e), s_bin ''data'' (oe_data e) (unat (oe_dlen e))]"

definition rdata_opt_write :: "ch_dns_rdata_opt \<Rightarrow> dout_op" where
  "rdata_opt_write r mal dout = dout_seq mal (w_uint16 (opt_entries_n r) # map opt_entry_write (opt_entries r)) 0 dout"

definition rdata_opt_store :: "ch_dns_rdata_opt \<Rightarrow> store_op" where
  "rdata_opt_store r = store_seq
     ([s_map ''opt'' 1, s_array ''entries'' (unat (opt_entries_n r))] @ map opt_entry_store (opt_entries r))"

text \<open>The switch on the gateway; \<^verbatim>\<open>ntohl\<close> is \<^verbatim>\<open>htonl\<close>. The length of a gateway's name is not added.\<close>

definition w_gateway :: "ch_dns_rdata_ipseckey \<Rightarrow> dout_op" where
  "w_gateway r mal dout =
     (if ipseckey_gateway_type r = 1 then w_uint32 (htonl (ipseckey_in_addr r)) mal dout
      else if ipseckey_gateway_type r = 2 then w_string16 (Some (ipseckey_in6_addr r)) 16 mal dout
      else if ipseckey_gateway_type r = 3 then bind_res (ch_dns_name_write mal dout (ipseckey_gateway r)) (\<lambda>(_, dout). Inr (0, dout))
      else Inr (0, dout))"

definition rdata_ipseckey_write :: "ch_dns_rdata_ipseckey \<Rightarrow> dout_op" where
  "rdata_ipseckey_write r mal dout = dout_seq mal
     [w_uint8 (ipseckey_precedence r), w_uint8 (ipseckey_gateway_type r), w_uint8 (ipseckey_alg r), w_gateway r,
      w_string16 (ipseckey_key r) (ipseckey_key_len r)] 0 dout"

definition s_gateway :: "ch_dns_rdata_ipseckey \<Rightarrow> store_op" where
  "s_gateway r =
     (if ipseckey_gateway_type r = 1 then s_bin ''addr4'' (Some (DOUT_VALUE_WRITE (htonl (ipseckey_in_addr r)) 4)) 4
      else if ipseckey_gateway_type r = 2 then s_bin ''addr6'' (Some (ipseckey_in6_addr r)) 16
      else if ipseckey_gateway_type r = 3 then ch_dns_name_store (ipseckey_gateway r)
      else s_uint8 ''unknown'' 1)"

definition rdata_ipseckey_store :: "ch_dns_rdata_ipseckey \<Rightarrow> store_op" where
  "rdata_ipseckey_store r = store_seq
     [s_map ''ipseckey'' 5, s_uint8 ''precedence'' (ipseckey_precedence r), s_uint8 ''gatewayType'' (ipseckey_gateway_type r),
      s_uint8 ''alg'' (ipseckey_alg r), s_gateway r, s_bin ''key'' (ipseckey_key r) (unat (ipseckey_key_len r))]"

text \<open>The function pointers of a record.\<close>

definition rdata_write :: "rdata_body \<Rightarrow> dout_op option" where
  "rdata_write b =
     (case b of
        RB_none \<Rightarrow> None
      | RB_ipv4 r \<Rightarrow> Some (rdata_ipv4_write r)
      | RB_ipv6 r \<Rightarrow> Some (rdata_ipv6_write r)
      | RB_cname r \<Rightarrow> Some (rdata_cname_write r)
      | RB_afsdb r \<Rightarrow> Some (rdata_afsdb_write r)
      | RB_txt r \<Rightarrow> Some (rdata_txt_write r)
      | RB_hinfo r \<Rightarrow> Some (rdata_hinfo_write r)
      | RB_minfo r \<Rightarrow> Some (rdata_minfo_write r)
      | RB_mb r \<Rightarrow> Some (rdata_mb_write r)
      | RB_mf r \<Rightarrow> Some (rdata_mf_write r)
      | RB_md r \<Rightarrow> Some (rdata_md_write r)
      | RB_mg r \<Rightarrow> Some (rdata_mg_write r)
      | RB_mr r \<Rightarrow> Some (rdata_mr_write r)
      | RB_mx r \<Rightarrow> Some (rdata_mx_write r)
      | RB_ns r \<Rightarrow> Some (rdata_ns_write r)
      | RB_null r \<Rightarrow> Some (rdata_null_write r)
      | RB_ptr r \<Rightarrow> Some (rdata_ptr_write r)
      | RB_soa r \<Rightarrow> Some (rdata_soa_write r)
      | RB_wks r \<Rightarrow> Some (rdata_wks_write r)
      | RB_caa r \<Rightarrow> Some (rdata_caa_write r)
      | RB_cert r \<Rightarrow> Some (rdata_cert_write r)
      | RB_dhcid r \<Rightarrow> Some (rdata_dhcid_write r)
      | RB_dlv r \<Rightarrow> Some (rdata_dlv_write r)
      | RB_apl r \<Rightarrow> Some (rdata_apl_write r)
      | RB_dname r \<Rightarrow> Some (rdata_dname_write r)
      | RB_dnskey r \<Rightarrow> Some (rdata_dnskey_write r)
      | RB_ds r \<Rightarrow> Some (rdata_ds_write r)
      | RB_gpos r \<Rightarrow> Some (rdata_gpos_write r)
      | RB_ipseckey r \<Rightarrow> Some (rdata_ipseckey_write r)
      | RB_isdn r \<Rightarrow> Some (rdata_isdn_write r)
      | RB_key r \<Rightarrow> Some (rdata_key_write r)
      | RB_kx r \<Rightarrow> Some (rdata_kx_write r)
      | RB_loc r \<Rightarrow> Some (rdata_loc_write r)
      | RB_naptr r \<Rightarrow> Some (rdata_naptr_write r)
      | RB_nsap_ptr r \<Rightarrow> Some (rdata_nsap_ptr_write r)
      | RB_nsap r \<Rightarrow> Some (rdata_nsap_write r)
      | RB_nsec3param r \<Rightarrow> Some (rdata_nsec3param_write r)
      | RB_nsec3 r \<Rightarrow> Some (rdata_nsec3_write r)
      | RB_nsec r \<Rightarrow> Some (rdata_nsec_write r)
      | RB_nxt r \<Rightarrow> Some (rdata_nxt_write r)
      | RB_openpgpkey r \<Rightarrow> Some (rdata_openpgpkey_write r)
      | RB_opt r \<Rightarrow> Some (rdata_opt_write r)
      | RB_px r \<Rightarrow> Some (rdata_px_write r)
      | RB_rp r \<Rightarrow> Some (rdata_rp_write r)
      | RB_rrsig r \<Rightarrow> Some (rdata_rrsig_write r)
      | RB_rt r \<Rightarrow> Some (rdata_rt_write r)
      | RB_sig r \<Rightarrow> Some (rdata_sig_write r)
      | RB_smimea r \<Rightarrow> Some (rdata_smimea_write r)
      | RB_spf r \<Rightarrow> Some (rdata_spf_write r)
      | RB_srv r \<Rightarrow> Some (rdata_srv_write r)
      | RB_sshfp r \<Rightarrow> Some (rdata_sshfp_write r)
      | RB_tkey r \<Rightarrow> Some (rdata_tkey_write r)
      | RB_tlsa r \<Rightarrow> Some (rdata_tlsa_write r)
      | RB_tsig r \<Rightarrow> Some (rdata_tsig_write r)
      | RB_x25 r \<Rightarrow> Some (rdata_x25_write r)
      | RB_uri r \<Rightarrow> Some (rdata_uri_write r))"

definition rdata_store :: "rdata_body \<Rightarrow> store_op option" where
  "rdata_store b =
     (case b of
        RB_none \<Rightarrow> None
      | RB_ipv4 r \<Rightarrow> Some (rdata_ipv4_store r)
      | RB_ipv6 r \<Rightarrow> Some (rdata_ipv6_store r)
      | RB_cname r \<Rightarrow> Some (rdata_cname_store r)
      | RB_afsdb r \<Rightarrow> Some (rdata_afsdb_store r)
      | RB_txt r \<Rightarrow> Some (rdata_txt_store r)
      | RB_hinfo r \<Rightarrow> Some (rdata_hinfo_store r)
      | RB_minfo r \<Rightarrow> Some (rdata_minfo_store r)
      | RB_mb r \<Rightarrow> Some (rdata_mb_store r)
      | RB_mf r \<Rightarrow> Some (rdata_mf_store r)
      | RB_md r \<Rightarrow> Some (rdata_md_store r)
      | RB_mg r \<Rightarrow> Some (rdata_mg_store r)
      | RB_mr r \<Rightarrow> Some (rdata_mr_store r)
      | RB_mx r \<Rightarrow> Some (rdata_mx_store r)
      | RB_ns r \<Rightarrow> Some (rdata_ns_store r)
      | RB_null r \<Rightarrow> Some (rdata_null_store r)
      | RB_ptr r \<Rightarrow> Some (rdata_ptr_store r)
      | RB_soa r \<Rightarrow> Some (rdata_soa_store r)
      | RB_wks r \<Rightarrow> Some (rdata_wks_store r)
      | RB_caa r \<Rightarrow> Some (rdata_caa_store r)
      | RB_cert r \<Rightarrow> Some (rdata_cert_store r)
      | RB_dhcid r \<Rightarrow> Some (rdata_dhcid_store r)
      | RB_dlv r \<Rightarrow> Some (rdata_dlv_store r)
      | RB_apl r \<Rightarrow> Some (rdata_apl_store r)
      | RB_dname r \<Rightarrow> Some (rdata_dname_store r)
      | RB_dnskey r \<Rightarrow> Some (rdata_dnskey_store r)
      | RB_ds r \<Rightarrow> Some (rdata_ds_store r)
      | RB_gpos r \<Rightarrow> Some (rdata_gpos_store r)
      | RB_ipseckey r \<Rightarrow> Some (rdata_ipseckey_store r)
      | RB_isdn r \<Rightarrow> Some (rdata_isdn_store r)
      | RB_key r \<Rightarrow> Some (rdata_key_store r)
      | RB_kx r \<Rightarrow> Some (rdata_kx_store r)
      | RB_loc r \<Rightarrow> Some (rdata_loc_store r)
      | RB_naptr r \<Rightarrow> Some (rdata_naptr_store r)
      | RB_nsap_ptr r \<Rightarrow> Some (rdata_nsap_ptr_store r)
      | RB_nsap r \<Rightarrow> Some (rdata_nsap_store r)
      | RB_nsec3param r \<Rightarrow> Some (rdata_nsec3param_store r)
      | RB_nsec3 r \<Rightarrow> Some (rdata_nsec3_store r)
      | RB_nsec r \<Rightarrow> Some (rdata_nsec_store r)
      | RB_nxt r \<Rightarrow> Some (rdata_nxt_store r)
      | RB_openpgpkey r \<Rightarrow> Some (rdata_openpgpkey_store r)
      | RB_opt r \<Rightarrow> Some (rdata_opt_store r)
      | RB_px r \<Rightarrow> Some (rdata_px_store r)
      | RB_rp r \<Rightarrow> Some (rdata_rp_store r)
      | RB_rrsig r \<Rightarrow> Some (rdata_rrsig_store r)
      | RB_rt r \<Rightarrow> Some (rdata_rt_store r)
      | RB_sig r \<Rightarrow> Some (rdata_sig_store r)
      | RB_smimea r \<Rightarrow> Some (rdata_smimea_store r)
      | RB_spf r \<Rightarrow> Some (rdata_spf_store r)
      | RB_srv r \<Rightarrow> Some (rdata_srv_store r)
      | RB_sshfp r \<Rightarrow> Some (rdata_sshfp_store r)
      | RB_tkey r \<Rightarrow> Some (rdata_tkey_store r)
      | RB_tlsa r \<Rightarrow> Some (rdata_tlsa_store r)
      | RB_tsig r \<Rightarrow> Some (rdata_tsig_store r)
      | RB_x25 r \<Rightarrow> Some (rdata_x25_store r)
      | RB_uri r \<Rightarrow> Some (rdata_uri_store r))"

lemmas rdata_store_defs =
  rdata_ipv4_store_def rdata_ipv6_store_def rdata_cname_store_def rdata_afsdb_store_def rdata_txt_store_def rdata_hinfo_store_def
  rdata_minfo_store_def rdata_mb_store_def rdata_mf_store_def rdata_md_store_def rdata_mg_store_def rdata_mr_store_def rdata_mx_store_def
  rdata_ns_store_def rdata_null_store_def rdata_ptr_store_def rdata_soa_store_def rdata_wks_store_def rdata_caa_store_def rdata_cert_store_def
  rdata_dhcid_store_def rdata_dlv_store_def rdata_apl_store_def rdata_dname_store_def rdata_dnskey_store_def rdata_ds_store_def
  rdata_gpos_store_def rdata_ipseckey_store_def rdata_isdn_store_def rdata_key_store_def rdata_kx_store_def rdata_loc_store_def
  rdata_naptr_store_def rdata_nsap_ptr_store_def rdata_nsap_store_def rdata_nsec3param_store_def rdata_nsec3_store_def rdata_nsec_store_def
  rdata_nxt_store_def rdata_openpgpkey_store_def rdata_opt_store_def rdata_px_store_def rdata_rp_store_def rdata_rrsig_store_def
  rdata_rt_store_def rdata_sig_store_def rdata_smimea_store_def rdata_spf_store_def rdata_srv_store_def rdata_sshfp_store_def
  rdata_tkey_store_def rdata_tlsa_store_def rdata_tsig_store_def rdata_x25_store_def rdata_uri_store_def

section \<open>Complete entries\<close>

text \<open>
  A call after which, when \<open>a\<close> objects were still to come, \<open>b\<close> are; a call that packs a key and one value.
\<close>

definition pushes :: "store_op \<Rightarrow> nat \<Rightarrow> nat \<Rightarrow> bool" where
  "pushes f a b \<longleftrightarrow> (\<forall>d d'. f d = Inr d' \<longrightarrow> (\<exists>ts. d' = d @ ts \<and> (\<forall>us. mp_skip a (ts @ us) = mp_skip b us)))"

definition entry :: "store_op \<Rightarrow> bool" where
  "entry f \<longleftrightarrow> (\<forall>m. pushes f (m + 2) m)"

lemma pushesD: "pushes f a b \<Longrightarrow> f d = Inr d' \<Longrightarrow> \<exists>ts. d' = d @ ts \<and> (\<forall>us. mp_skip a (ts @ us) = mp_skip b us)"
  by (simp add: pushes_def)

lemma pushes_objects: "pushes f a 0 \<Longrightarrow> f d = Inr d' \<Longrightarrow> \<exists>ts. d' = d @ ts \<and> mp_objects a ts"
  using pushesD [of f a 0 d d'] unfolding mp_objects_def by (metis append.right_neutral mp_skip.simps(1))

lemma pushes_seq:
  assumes "pushes f a b" "pushes (store_seq fs) b c"
  shows "pushes (store_seq (f # fs)) a c"
  unfolding pushes_def
proof (intro allI impI)
  fix d d'
  assume "store_seq (f # fs) d = Inr d'"
  then obtain e where e: "f d = Inr e" "store_seq fs e = Inr d'" by (auto simp: bind_res_eq_Inr)
  from pushesD [OF assms(1) e(1)] obtain ts where ts: "e = d @ ts" "\<forall>us. mp_skip a (ts @ us) = mp_skip b us" by blast
  from pushesD [OF assms(2) e(2)] obtain ts' where "d' = e @ ts'" "\<forall>us. mp_skip b (ts' @ us) = mp_skip c us" by blast
  with ts show "\<exists>ts. d' = d @ ts \<and> (\<forall>us. mp_skip a (ts @ us) = mp_skip c us)" by (intro exI [of _ "ts @ ts'"]) simp
qed

lemma pushes_nil: "pushes (store_seq []) a a"
  by (simp add: pushes_def)

lemma pushes_entry:
  assumes "entry f" "2 \<le> a" "pushes (store_seq fs) (a - 2) c"
  shows "pushes (store_seq (f # fs)) a c"
proof (rule pushes_seq [OF _ assms(3)])
  have "a - 2 + 2 = a" using assms(2) by simp
  then show "pushes f a (a - 2)" using assms(1) unfolding entry_def by metis
qed

text \<open>A function that starts a map with a key makes a complete entry when as many entries follow.\<close>

lemma entry_map:
  assumes "pushes (store_seq fs) (2 * n) 0" "k \<noteq> []"
  shows "entry (store_seq (s_map k n # fs))"
  unfolding entry_def pushes_def
proof (intro allI impI)
  fix m d d'
  assume "store_seq (s_map k n # fs) d = Inr d'"
  then have "store_seq fs (d @ [MP_Str (text_bytes k), MP_Map n]) = Inr d'"
    using assms(2) by (simp add: s_map_def mp_write_defs)
  from pushes_objects [OF assms(1) this] obtain ts where ts: "d' = (d @ [MP_Str (text_bytes k), MP_Map n]) @ ts" "mp_objects (2 * n) ts" by blast
  then show "\<exists>ts. d' = d @ ts \<and> (\<forall>us. mp_skip (m + 2) (ts @ us) = mp_skip m us)"
    by (intro exI [of _ "[MP_Str (text_bytes k), MP_Map n] @ ts"]) (simp add: mp_skip_append mp_objects_def)
qed

lemma entry_ops [simp]:
  "k \<noteq> [] \<Longrightarrow> entry (s_uint8 k v8)" "k \<noteq> [] \<Longrightarrow> entry (s_uint16 k v16)" "k \<noteq> [] \<Longrightarrow> entry (s_uint32 k v32)" "k \<noteq> [] \<Longrightarrow> entry (s_uint64 k v64)"
  "entry (s_kv k p)" "entry (s_str_wlen k p n)" "k \<noteq> [] \<Longrightarrow> entry (s_bin k p n)"
  by (auto simp: entry_def pushes_def s_uint8_def s_uint16_def s_uint32_def s_uint64_def s_kv_def s_str_wlen_def s_bin_def mp_write_defs
      ch_msgpack_store_write_str_wlen_def ch_msgpack_store_write_bin_kv_def ch_msgpack_store_write_bin_def Let_def
      split: option.splits if_splits)

lemma entry_name [simp]: "entry (ch_dns_name_store n)" "k \<noteq> [] \<Longrightarrow> entry (s_name_wkey k n)"
  by (auto simp: entry_def pushes_def ch_dns_name_store_def s_name_wkey_def ch_dns_name_store_wkey_def mp_write_defs
      ch_msgpack_store_write_str_wlen_def Let_def numeral_2_eq_2 split: if_splits)

lemma entry_sec [simp]: "entry (ch_dns_sec_key_store sk)" "entry (ch_dns_sec_sig_store ss)"
  unfolding ch_dns_sec_key_store_def ch_dns_sec_sig_store_def by (rule entry_map; simp add: pushes_entry pushes_nil)+

text \<open>An array with as many elements as it says.\<close>

lemma pushes_elements:
  assumes "\<And>x m. x \<in> set xs \<Longrightarrow> pushes (f x) (Suc m) m"
  shows "pushes (store_seq (map f xs)) (length xs) 0"
  using assms
proof (induction xs)
  case (Cons x xs)
  then show ?case using pushes_seq [of "f x" "Suc (length xs)" "length xs" "map f xs" 0]
    by (simp del: store_seq.simps)
qed (simp add: pushes_nil del: store_seq.simps)

lemma pushes_array:
  assumes "\<And>x m. x \<in> set xs \<Longrightarrow> pushes (f x) (Suc m) m" "n = length xs" "k \<noteq> []"
  shows "pushes (store_seq (s_array k n # map f xs)) 2 0"
proof (rule pushes_seq [of _ _ n])
  show "pushes (s_array k n) 2 n" using assms(3) by (auto simp: pushes_def s_array_def mp_write_defs numeral_2_eq_2)
  show "pushes (store_seq (map f xs)) n 0" using pushes_elements [of xs f] assms(1,2) by simp
qed

lemma entry_array:
  assumes "\<And>x m. x \<in> set xs \<Longrightarrow> pushes (f x) (Suc m) m" "n = length xs" "k \<noteq> []"
  shows "entry (store_seq (s_array k n # map f xs))"
  unfolding entry_def pushes_def
proof (intro allI impI)
  fix m d d'
  assume "store_seq (s_array k n # map f xs) d = Inr d'"
  from pushes_objects [OF pushes_array [OF assms] this] obtain ts where "d' = d @ ts" "mp_objects 2 ts" by blast
  then show "\<exists>ts. d' = d @ ts \<and> (\<forall>us. mp_skip (m + 2) (ts @ us) = mp_skip m us)"
    using mp_skip_append [of 2 ts m] by (auto simp: mp_objects_def add.commute)
qed

lemma entry_texts [simp]: "entry (ch_dns_txt_base_store txts)"
proof -
  have "unat (of_nat (length txts) :: u16) \<le> length txts" by (simp add: unsigned_of_nat take_bit_eq_mod)
  moreover have "pushes (s_str x) (Suc m) m" for x m by (simp add: pushes_def s_str_def ch_msgpack_store_write_str_def)
  ultimately show ?thesis unfolding ch_dns_txt_base_store_def Let_def by (intro entry_array) simp_all
qed

lemma pushes_map_nokey:
  assumes "pushes (store_seq fs) (2 * n) 0"
  shows "pushes (store_seq (s_map_nokey n # fs)) (Suc m) m"
  unfolding pushes_def
proof (intro allI impI)
  fix d d'
  assume "store_seq (s_map_nokey n # fs) d = Inr d'"
  then have "store_seq fs (d @ [MP_Map n]) = Inr d'" by (simp add: s_map_nokey_def mp_write_defs)
  from pushes_objects [OF assms this] obtain ts where "d' = (d @ [MP_Map n]) @ ts" "mp_objects (2 * n) ts" by blast
  then show "\<exists>ts. d' = d @ ts \<and> (\<forall>us. mp_skip (Suc m) (ts @ us) = mp_skip m us)"
    by (intro exI [of _ "[MP_Map n] @ ts"]) (simp add: mp_skip_append mp_objects_def)
qed

lemma pushes_entries:
  "pushes (apl_entry_store ea) (Suc m) m" "pushes (opt_entry_store eo) (Suc m) m"
  unfolding apl_entry_store_def opt_entry_store_def by (rule pushes_map_nokey, simp add: pushes_entry pushes_nil)+

lemma entry_gateway [simp]: "entry (s_gateway r)"
  by (simp add: s_gateway_def)

text \<open>The two types that hold entries count them in 16 bits.\<close>

fun counts_ok :: "rdata_body \<Rightarrow> bool" where
  "counts_ok (RB_apl r) \<longleftrightarrow> unat (apl_entries_n r) = length (apl_entries r)"
| "counts_ok (RB_opt r) \<longleftrightarrow> unat (opt_entries_n r) = length (opt_entries r)"
| "counts_ok _ \<longleftrightarrow> True"

lemma entry_types:
  "entry (rdata_ipv4_store r_ipv4)" "entry (rdata_ipv6_store r_ipv6)" "entry (rdata_cname_store r_cname)" "entry (rdata_afsdb_store r_afsdb)"
  "entry (rdata_txt_store r_txt)" "entry (rdata_hinfo_store r_hinfo)" "entry (rdata_minfo_store r_minfo)" "entry (rdata_mb_store r_mb)"
  "entry (rdata_mf_store r_mf)" "entry (rdata_md_store r_md)" "entry (rdata_mg_store r_mg)" "entry (rdata_mr_store r_mr)"
  "entry (rdata_mx_store r_mx)" "entry (rdata_ns_store r_ns)" "entry (rdata_null_store r_null)" "entry (rdata_ptr_store r_ptr)"
  "entry (rdata_soa_store r_soa)" "entry (rdata_wks_store r_wks)" "entry (rdata_caa_store r_caa)" "entry (rdata_cert_store r_cert)"
  "entry (rdata_dhcid_store r_dhcid)" "entry (rdata_dlv_store r_dlv)" "entry (rdata_dname_store r_dname)" "entry (rdata_dnskey_store r_dnskey)"
  "entry (rdata_ds_store r_ds)" "entry (rdata_gpos_store r_gpos)" "entry (rdata_ipseckey_store r_ipseckey)" "entry (rdata_isdn_store r_isdn)"
  "entry (rdata_key_store r_key)" "entry (rdata_kx_store r_kx)" "entry (rdata_loc_store r_loc)" "entry (rdata_naptr_store r_naptr)"
  "entry (rdata_nsap_ptr_store r_nsap_ptr)" "entry (rdata_nsap_store r_nsap)" "entry (rdata_nsec3param_store r_nsec3param)"
  "entry (rdata_nsec3_store r_nsec3)" "entry (rdata_nsec_store r_nsec)" "entry (rdata_nxt_store r_nxt)"
  "entry (rdata_openpgpkey_store r_openpgpkey)" "entry (rdata_px_store r_px)" "entry (rdata_rp_store r_rp)" "entry (rdata_rrsig_store r_rrsig)"
  "entry (rdata_rt_store r_rt)" "entry (rdata_sig_store r_sig)" "entry (rdata_smimea_store r_smimea)" "entry (rdata_spf_store r_spf)"
  "entry (rdata_srv_store r_srv)" "entry (rdata_sshfp_store r_sshfp)" "entry (rdata_tkey_store r_tkey)" "entry (rdata_tlsa_store r_tlsa)"
  "entry (rdata_tsig_store r_tsig)" "entry (rdata_x25_store r_x25)" "entry (rdata_uri_store r_uri)"
  unfolding rdata_store_defs by (rule entry_map; simp add: pushes_entry pushes_nil)+

lemma entry_lists:
  assumes "unat (apl_entries_n ra) = length (apl_entries ra)"
  shows "entry (rdata_apl_store ra)"
  unfolding rdata_apl_store_def append.simps
  using pushes_array [of "apl_entries ra" apl_entry_store, OF pushes_entries(1) assms] by (intro entry_map) simp_all

lemma entry_list_opt:
  assumes "unat (opt_entries_n ro) = length (opt_entries ro)"
  shows "entry (rdata_opt_store ro)"
  unfolding rdata_opt_store_def append.simps
  using pushes_array [of "opt_entries ro" opt_entry_store, OF pushes_entries(2) assms] by (intro entry_map) simp_all

lemma rdata_store_entry: "counts_ok b \<Longrightarrow> rdata_store b = Some f \<Longrightarrow> entry f"
  by (cases b) (auto simp: rdata_store_def intro: entry_types entry_lists entry_list_opt)

text \<open>
  C26. For every one of the 55 types of records, what the type's store function packs, when it returns, is a key and
  one complete value: a map with as many entries as it announced. The number of entries of the two types that hold
  a list, APL and OPT, has to be right.
\<close>

theorem rdata_store_complete:
  assumes "counts_ok b" "rdata_store b = Some f" "f d = Inr d'"
  shows "\<exists>ts. d' = d @ ts \<and> mp_objects 2 ts"
  using pushes_objects [of f 2 d d'] rdata_store_entry [OF assms(1,2)] assms(3) unfolding entry_def by (metis add_0)

text \<open>An APL record with one entry.\<close>

theorem rdata_store_complete_witness:
  "let r = \<lparr>apl_entries = [\<lparr>ae_family = 1, ae_prefix = 8, ae_neg = 0, ae_dlen = 1, ae_data = Some [10, 0]\<rparr>], apl_entries_n = 1\<rparr>;
       d' = [MP_Uint 7, MP_Str (text_bytes ''apl''), MP_Map 1, MP_Str (text_bytes ''entries''), MP_Array 1, MP_Map 4,
             MP_Str (text_bytes ''family''), MP_Uint 1, MP_Str (text_bytes ''prefix''), MP_Uint 8, MP_Str (text_bytes ''neg''), MP_Uint 0,
             MP_Str (text_bytes ''data''), MP_Bin [10]]
   in rdata_apl_store r [MP_Uint 7] = Inr d' \<and> (\<exists>ts. d' = [MP_Uint 7] @ ts \<and> mp_objects 2 ts)"
  (is "let r = ?r; d' = ?d in _")
proof -
  have d: "rdata_apl_store ?r [MP_Uint 7] = Inr ?d"
    by (simp add: rdata_apl_store_def apl_entry_store_def s_map_def s_array_def s_map_nokey_def s_uint16_def s_uint8_def s_bin_def mp_write_defs
        ch_msgpack_store_write_bin_kv_def ch_msgpack_store_write_bin_def)
  have "counts_ok (RB_apl ?r)" "rdata_store (RB_apl ?r) = Some (rdata_apl_store ?r)" by (simp_all add: rdata_store_def)
  from rdata_store_complete [OF this d] d show ?thesis unfolding Let_def by blast
qed

section \<open>The counts of parsed records\<close>

text \<open>
  A loop that reads entries until less than four bytes are left and counts them in 16 bits. The entries take at least a byte
  each, so the count of a record of less than 65536 bytes does not wrap round.
\<close>

locale entry_loop =
  fixes run :: "'r \<Rightarrow> ch_dns_data_input \<Rightarrow> ('r \<times> ch_dns_data_input) res"
    and create :: "ch_dns_data_input \<Rightarrow> (bool \<times> 'e \<times> ch_dns_data_input) res"
    and add :: "'r \<Rightarrow> 'e \<Rightarrow> 'r"
    and elems :: "'r \<Rightarrow> 'e list"
    and num :: "'r \<Rightarrow> u16"
  assumes run: "run r din =
      (if ch_dns_data_input_rdlen din < 4 then Inr (r, din)
       else case create din of
          Inl e \<Rightarrow> Inl e
        | Inr (False, _, din) \<Rightarrow> Inr (r, din)
        | Inr (True, e, din) \<Rightarrow> run (add r e) din)"
    and moves: "create din = Inr (True, e, din') \<Longrightarrow> \<not> ch_dns_data_input_rdlen din < 4 \<Longrightarrow>
      dlast din' = dlast din \<and> dpos din < dpos din' \<and> dpos din < dlast din"
    and add: "elems (add r e) = elems r @ [e]" "num (add r e) = num r + 1"
begin

lemma count:
  assumes "run r din = Inr (r', din')" "unat (num r) = length (elems r)" "length (elems r) + (dlast din - dpos din) < 2 ^ 16"
  shows "unat (num r') = length (elems r')"
  using assms
proof (induction "dlast din - dpos din" arbitrary: r din rule: less_induct)
  case less
  note step = less.prems(1) [unfolded run [of r din]]
  show ?case
  proof (cases "ch_dns_data_input_rdlen din < 4")
    case False
    then obtain go e d where e: "create din = Inr (go, e, d)" using step by (auto split: sum.splits)
    show ?thesis
    proof (cases go)
      case True
      with e False have m: "dlast d = dlast din \<and> dpos din < dpos d \<and> dpos din < dlast din" using moves [of din e d] by simp
      then have "length (elems r) + 1 < 2 ^ 16" using less.prems(3) by linarith
      then have "unat (num r + 1) = length (elems r) + 1" using less.prems(2) by (simp add: unat_word_ariths)
      moreover have "dlast d - dpos d < dlast din - dpos din" "length (elems r) + 1 + (dlast d - dpos d) < 2 ^ 16"
        using m less.prems(3) by linarith+
      ultimately show ?thesis using less.hyps [of d "add r e"] step e True False by (simp add: add)
    qed (use step e False less.prems(2) in simp)
  qed (use step less.prems(2) in simp)
qed

end

interpretation apl: entry_loop apl_loop apl_entry_create
  "\<lambda>r e. r\<lparr>apl_entries := apl_entries r @ [e], apl_entries_n := apl_entries_n r + 1\<rparr>" apl_entries apl_entries_n
  by unfold_locales (simp_all add: apl_loop.simps, use apl_entry_moves in blast)

interpretation opt: entry_loop opt_loop opt_entry_create
  "\<lambda>r e. r\<lparr>opt_entries := opt_entries r @ [e], opt_entries_n := opt_entries_n r + 1\<rparr>" opt_entries opt_entries_n
  by unfold_locales (simp_all add: opt_loop.simps, use opt_entry_moves in blast)

definition parser_counts :: "ch_dns_rdata_parser \<Rightarrow> bool" where
  "parser_counts p \<longleftrightarrow> counts_ok (pr_create p) \<and> (\<forall>rd rc b. pr_parse p rd = Inr (rc, b) \<longrightarrow> counts_ok b)"

lemma input_init_size: "dlast (ch_dns_rdata_input_init rd) - dpos (ch_dns_rdata_input_init rd) < 2 ^ 16"
  using unat_lt16 [of "rd_dlen rd"] by (cases "rd_data rd") (simp_all add: din_macros)

text \<open>A parser that runs such a loop on the record.\<close>

lemma loop_parse_count:
  assumes "rdata_parse 1 rd [\<lambda>r din. bind_res (f r din) (\<lambda>(r, din). Inr (True, r, din))] r = Inr (rc, r')"
    and "P r" "\<And>din' r'. f r (ch_dns_rdata_input_init rd) = Inr (r', din') \<Longrightarrow> P r'"
  shows "P r'"
  using assms by (auto simp: rdata_parse_def bind_res_eq_Inr simp del: ch_dns_rdata_input_init.simps split: if_splits)

lemma apl_counts: "parser_counts apl_parser"
proof -
  have "unat (apl_entries_n r') = length (apl_entries r')" if "rdata_apl_parse rd rdata_apl_create = Inr (rc, r')" for rd rc r'
  proof (rule loop_parse_count [where P = "\<lambda>r. unat (apl_entries_n r) = length (apl_entries r)", OF that [unfolded rdata_apl_parse_def]])
    show "unat (apl_entries_n s) = length (apl_entries s)" if "apl_loop rdata_apl_create (ch_dns_rdata_input_init rd) = Inr (s, din)" for s din
      using apl.count [OF that] input_init_size [of rd] by (simp add: rdata_apl_create_def del: ch_dns_rdata_input_init.simps)
  qed (simp add: rdata_apl_create_def)
  then show ?thesis by (auto simp: parser_counts_def apl_parser_def rdata_parser_def rdata_apl_create_def bind_res_eq_Inr)
qed

lemma opt_counts: "parser_counts opt_parser"
proof -
  have "unat (opt_entries_n r') = length (opt_entries r')" if "rdata_opt_parse rd rdata_opt_create = Inr (rc, r')" for rd rc r'
  proof (rule loop_parse_count [where P = "\<lambda>r. unat (opt_entries_n r) = length (opt_entries r)", OF that [unfolded rdata_opt_parse_def]])
    show "unat (opt_entries_n s) = length (opt_entries s)" if "opt_loop rdata_opt_create (ch_dns_rdata_input_init rd) = Inr (s, din)" for s din
      using opt.count [OF that] input_init_size [of rd] by (simp add: rdata_opt_create_def del: ch_dns_rdata_input_init.simps)
  qed (simp add: rdata_opt_create_def)
  then show ?thesis by (auto simp: parser_counts_def opt_parser_def rdata_parser_def rdata_opt_create_def bind_res_eq_Inr)
qed

lemma rdata_parser_counts: "(\<And>r. counts_ok (RB r)) \<Longrightarrow> parser_counts (rdata_parser ty RB create parse)"
  by (auto simp: parser_counts_def rdata_parser_def bind_res_eq_Inr)

lemma pool_counts: "p \<in> set ch_dns_rdata_pool_create \<Longrightarrow> parser_counts p"
  using apl_counts opt_counts
  by (auto simp: ch_dns_rdata_pool_create_def ch_dns_rdata_parser_register_def rdata_parser_counts rdata_parser_defs)

end
