(* ===== verification/Udp_Session.thy ===== *)
theory Udp_Session
  imports Flow Plist Packet_Rule Data_Output Msgpack
begin

text \<open>
  UDP sessions: \<^verbatim>\<open>udp/session/ch_udp_session.c\<close>, the interface of the applications
  \<^verbatim>\<open>ch_udp_app_pool.c\<close>, the table of sessions \<^verbatim>\<open>ch_udp_session_pool.c\<close>, the list of requests
  \<^verbatim>\<open>ch_udp_session_request_pool.c\<close>.
  An application is a record of functions; the private data of its sessions have the type \<open>'a\<close>, its
  own state, with the memory agent, the type \<open>'w\<close>; a call that reads a packet or a session may be a fault. A session of an application belongs to one
  request or to one UDP session, so it is a value in them. What the handlers rely on of an application is the locale
  \<open>udp_application\<close>. Shown here: packets find their session,
  the table and the list stay well-formed, and what is written of a session is read back.
\<close>

section \<open>Packets and sessions\<close>

record udp_pkt = ch_packet_udp +
  up_data :: "bytes option"
  up_timestamp :: u64

definition udp_pkt_of :: "ch_packet \<Rightarrow> ch_packet_udp \<Rightarrow> udp_pkt" where
  "udp_pkt_of pkt u = ch_packet_udp.extend u
     (udp_pkt.fields (map_option (\<lambda>off. drop off (pkt_data pkt)) (u_pdata_off u)) (timestamp pkt))"

record ch_udp_session_endpoint =
  ue_port :: u16
  ue_ip :: u32
  ue_addr :: bytes
  ue_packets :: u64
  ue_bytes :: u64
  ue_start_time :: u64
  ue_last_time :: u64

definition PROCESS_CONTINUE :: int where "PROCESS_CONTINUE = 0"
definition PROCESS_DONE :: int where "PROCESS_DONE = 1"
definition PROCESS_ERR :: int where "PROCESS_ERR = 2"
definition PROCESS_REQ_SESSION_DONE :: int where "PROCESS_REQ_SESSION_DONE = 0"
definition PROCESS_REQ_SESSION_CONTINUE :: int where "PROCESS_REQ_SESSION_CONTINUE = 1"
definition PROCESS_REQ_SESSION_ERROR :: int where "PROCESS_REQ_SESSION_ERROR = -1"

lemmas process_defs = PROCESS_CONTINUE_def PROCESS_DONE_def PROCESS_ERR_def PROCESS_REQ_SESSION_DONE_def
  PROCESS_REQ_SESSION_CONTINUE_def PROCESS_REQ_SESSION_ERROR_def

text \<open>
  The callbacks of an application. \<^verbatim>\<open>request_session_equal\<close> is called for the requests of the application only, so an application
  without requests, whose pointer is \<^verbatim>\<open>NULL\<close>, may have any function here.
\<close>

record ('a, 'w) ch_udp_app =
  ua_type :: u8
  ua_session_create :: "udp_pkt \<Rightarrow> 'w \<Rightarrow> ('a option \<times> 'w) res"
  process_request_session :: "('a \<Rightarrow> udp_pkt \<Rightarrow> 'w \<Rightarrow> (int \<times> 'a \<times> 'w) res) option"
  request_session_equal :: "'a \<Rightarrow> udp_pkt \<Rightarrow> bool"
  ua_is_request :: "'a \<Rightarrow> udp_pkt \<Rightarrow> bool"
  req_pkt_process :: "'a \<Rightarrow> udp_pkt \<Rightarrow> 'w \<Rightarrow> (int \<times> 'a \<times> 'w) res"
  res_pkt_process :: "'a \<Rightarrow> udp_pkt \<Rightarrow> 'w \<Rightarrow> (int \<times> 'a \<times> 'w) res"
  ua_session_write :: "'a \<Rightarrow> malloc_ok \<Rightarrow> ch_data_output \<Rightarrow> (int \<times> ch_data_output) res"
  ua_session_store :: "'a \<Rightarrow> ch_msgpack_store \<Rightarrow> (int \<times> ch_msgpack_store) res"
  ua_session_isMyProto :: "('a \<Rightarrow> int \<Rightarrow> bool) option"
  ua_session_target_get :: "('a \<Rightarrow> ch_rule_target \<Rightarrow> bool \<Rightarrow> c_string res) option"
  ua_session_fin :: "('a \<Rightarrow> 'w \<Rightarrow> 'w) option"

record ('a, 'w) ch_udp_app_session =
  as_app :: "('a, 'w) ch_udp_app"
  as_priv_data :: 'a

record ('a, 'w) ch_udp_session =
  us_is_ipv6 :: bool
  us_endpoint_req :: ch_udp_session_endpoint
  us_endpoint_res :: ch_udp_session_endpoint
  us_session_id :: u64
  us_app_session :: "('a, 'w) ch_udp_app_session"

datatype udp_side = UDP_REQ | UDP_RES

fun udp_ep :: "('a, 'w) ch_udp_session \<Rightarrow> udp_side \<Rightarrow> ch_udp_session_endpoint" where
  "udp_ep s UDP_REQ = us_endpoint_req s"
| "udp_ep s UDP_RES = us_endpoint_res s"

fun set_udp_ep :: "('a, 'w) ch_udp_session \<Rightarrow> udp_side \<Rightarrow> ch_udp_session_endpoint \<Rightarrow> ('a, 'w) ch_udp_session" where
  "set_udp_ep s UDP_REQ q = s\<lparr>us_endpoint_req := q\<rparr>"
| "set_udp_ep s UDP_RES q = s\<lparr>us_endpoint_res := q\<rparr>"

definition is_udp_request :: "('a, 'w) ch_udp_session \<Rightarrow> udp_pkt \<Rightarrow> bool" where
  "is_udp_request s p =
     (let req = us_endpoint_req s; res = us_endpoint_res s
      in if u_is_ipv6 p then
           us_is_ipv6 s \<and> ue_addr req = u_src_addr p \<and> ue_port req = u_src_port p \<and> ue_addr res = u_dst_addr p \<and> ue_port res = u_dst_port p
         else
           ue_ip req = u_src_ip p \<and> ue_port req = u_src_port p \<and> ue_ip res = u_dst_ip p \<and> ue_port res = u_dst_port p)"

definition is_udp_response :: "('a, 'w) ch_udp_session \<Rightarrow> udp_pkt \<Rightarrow> bool" where
  "is_udp_response s p =
     (let req = us_endpoint_req s; res = us_endpoint_res s
      in if u_is_ipv6 p then
           us_is_ipv6 s \<and> ue_addr req = u_dst_addr p \<and> ue_port req = u_dst_port p \<and> ue_addr res = u_src_addr p \<and> ue_port res = u_src_port p
         else
           ue_ip req = u_dst_ip p \<and> ue_port req = u_dst_port p \<and> ue_ip res = u_src_ip p \<and> ue_port res = u_src_port p)"

definition ch_udp_session_init ::
  "('a, 'w) ch_udp_session \<Rightarrow> udp_pkt \<Rightarrow> ('a, 'w) ch_udp_app_session \<Rightarrow> u64 \<Rightarrow> ('a, 'w) ch_udp_session"
where
  "ch_udp_session_init s p app_session sid =
     (let tm = up_timestamp p;
          req = us_endpoint_req s;
          res = us_endpoint_res s;
          req = (if u_is_ipv6 p then req\<lparr>ue_addr := u_src_addr p\<rparr> else req);
          res = (if u_is_ipv6 p then res\<lparr>ue_addr := u_dst_addr p\<rparr> else res)
      in s\<lparr>us_session_id := sid, us_app_session := app_session, us_is_ipv6 := u_is_ipv6 p,
           us_endpoint_req := req\<lparr>ue_ip := u_src_ip p, ue_port := u_src_port p, ue_packets := 1, ue_bytes := ucast (u_payload_len p),
             ue_start_time := tm, ue_last_time := tm\<rparr>,
           us_endpoint_res := res\<lparr>ue_ip := u_dst_ip p, ue_port := u_dst_port p, ue_packets := 0, ue_bytes := 0,
             ue_start_time := tm, ue_last_time := tm\<rparr>\<rparr>)"

definition ch_udp_session_update :: "ch_udp_session_endpoint \<Rightarrow> udp_pkt \<Rightarrow> ch_udp_session_endpoint" where
  "ch_udp_session_update q p =
     (let tm = up_timestamp p;
          q = q\<lparr>ue_packets := ue_packets q + 1, ue_bytes := ue_bytes q + ucast (u_payload_len p)\<rparr>;
          q = (if ue_packets q = 0 then q\<lparr>ue_start_time := tm\<rparr> else q)
      in q\<lparr>ue_last_time := tm\<rparr>)"

definition ch_udp_session_endpoint_get :: "('a, 'w) ch_udp_session \<Rightarrow> udp_pkt \<Rightarrow> udp_side option" where
  "ch_udp_session_endpoint_get s p =
     (if is_udp_request s p then Some UDP_REQ else if is_udp_response s p then Some UDP_RES else None)"

definition ch_udp_session_pair_endpoint_get :: "('a, 'w) ch_udp_session \<Rightarrow> udp_pkt \<Rightarrow> udp_side option" where
  "ch_udp_session_pair_endpoint_get s p =
     (case ch_udp_session_endpoint_get s p of
        None \<Rightarrow> None
      | Some q \<Rightarrow> Some (if q = UDP_REQ then UDP_RES else UDP_REQ))"

section \<open>The interface of the applications\<close>

definition ch_udp_app_register :: "('a, 'w) ch_udp_app list \<Rightarrow> ('a, 'w) ch_udp_app \<Rightarrow> ('a, 'w) ch_udp_app list" where
  "ch_udp_app_register apps app = apps @ [app]"

fun ch_udp_app_session_create ::
  "('a, 'w) ch_udp_app list \<Rightarrow> udp_pkt \<Rightarrow> 'w \<Rightarrow> (('a, 'w) ch_udp_app_session option \<times> 'w) res"
where
  "ch_udp_app_session_create [] p w = Inr (None, w)"
| "ch_udp_app_session_create (app # apps) p w =
     bind_res (ua_session_create app p w) (\<lambda>(r, w).
       case r of
         Some priv \<Rightarrow> Inr (Some \<lparr>as_app = app, as_priv_data = priv\<rparr>, w)
       | None \<Rightarrow> ch_udp_app_session_create apps p w)"

text \<open>Called through a pointer that is \<^verbatim>\<open>NULL\<close> when the application has no requests.\<close>

definition ch_udp_app_session_request_process ::
  "('a, 'w) ch_udp_app_session \<Rightarrow> udp_pkt \<Rightarrow> 'w \<Rightarrow> (int \<times> ('a, 'w) ch_udp_app_session \<times> 'w) res"
where
  "ch_udp_app_session_request_process as p w =
     (case process_request_session (as_app as) of
        None \<Rightarrow> Inl Null_Deref
      | Some f \<Rightarrow> bind_res (f (as_priv_data as) p w) (\<lambda>(rc, priv, w). Inr (rc, as\<lparr>as_priv_data := priv\<rparr>, w)))"

definition ch_udp_app_session_request_equal :: "('a, 'w) ch_udp_app_session \<Rightarrow> udp_pkt \<Rightarrow> bool" where
  "ch_udp_app_session_request_equal as p = request_session_equal (as_app as) (as_priv_data as) p"

definition ch_udp_app_session_packet_process ::
  "('a, 'w) ch_udp_app_session \<Rightarrow> udp_pkt \<Rightarrow> 'w \<Rightarrow> (int \<times> ('a, 'w) ch_udp_app_session \<times> 'w) res"
where
  "ch_udp_app_session_packet_process as p w =
     (let app = as_app as
      in bind_res (if ua_is_request app (as_priv_data as) p then req_pkt_process app (as_priv_data as) p w
                   else res_pkt_process app (as_priv_data as) p w)
           (\<lambda>(rc, priv, w). Inr (rc, as\<lparr>as_priv_data := priv\<rparr>, w)))"

definition ch_udp_app_session_fin :: "('a, 'w) ch_udp_app_session \<Rightarrow> 'w \<Rightarrow> 'w" where
  "ch_udp_app_session_fin as w = (case ua_session_fin (as_app as) of None \<Rightarrow> w | Some f \<Rightarrow> f (as_priv_data as) w)"

text \<open>
  The filter that decides whether a session is written. The texts of addresses and ports are written into a
  buffer of 256 bytes that is cleared before.
\<close>

definition udp_filter_isMyProto :: "('a, 'w) ch_udp_session \<Rightarrow> int \<Rightarrow> bool" where
  "udp_filter_isMyProto s proto =
     (case ua_session_isMyProto (as_app (us_app_session s)) of
        None \<Rightarrow> False
      | Some f \<Rightarrow> f (as_priv_data (us_app_session s)) proto)"

definition udp_filter_target_get :: "('a, 'w) ch_udp_session \<Rightarrow> ch_rule_target \<Rightarrow> bool \<Rightarrow> c_string res" where
  "udp_filter_target_get s rt hex =
     (let target = rt_target rt; buff = replicate 256 0
      in if target = TARGET_SRCIP then Inr (Some (fst (ch_ip_to_str buff (ue_ip (us_endpoint_req s)))))
         else if target = TARGET_DSTIP then Inr (Some (fst (ch_ip_to_str buff (ue_ip (us_endpoint_res s)))))
         else if target = TARGET_SRCPORT then Inr (Some (decimal (unat (ue_port (us_endpoint_req s)))))
         else if target = TARGET_DSTPORT then Inr (Some (decimal (unat (ue_port (us_endpoint_res s)))))
         else (case ua_session_target_get (as_app (us_app_session s)) of
                 None \<Rightarrow> Inr None
               | Some f \<Rightarrow> f (as_priv_data (us_app_session s)) rt hex))"

definition udp_filter_context :: "('a, 'w) ch_udp_session \<Rightarrow> unit ch_rule_target_context" where
  "udp_filter_context s = \<lparr>tc_proto = ''udp_app'', isMyProto = udp_filter_isMyProto s,
     tc_target = (\<lambda>st rt hex. bind_res (udp_filter_target_get s rt hex) (\<lambda>t. Inr (t, st)))\<rparr>"

definition do_is_accept :: "ch_rule_engine option \<Rightarrow> ('a, 'w) ch_udp_session \<Rightarrow> bool res" where
  "do_is_accept filter_engine s =
     (case filter_engine of
        None \<Rightarrow> Inr True
      | Some fe \<Rightarrow> bind_res (ch_filter_engine_accept fe (udp_filter_context s) ()) (\<lambda>(acc, _). Inr acc))"

definition udp_common_fields :: "('a, 'w) ch_udp_session \<Rightarrow> field list" where
  "udp_common_fields s =
     (let req = us_endpoint_req s; res = us_endpoint_res s
      in [F64 (us_session_id s), F32 (ue_ip req), F32 (ue_ip res), F16 (ue_port req), F16 (ue_port res),
          F64 (ue_packets req), F64 (ue_bytes req), F64 (ue_packets res), F64 (ue_bytes res),
          F64 (ue_start_time req), F64 (ue_last_time req), F64 (ue_start_time res), F64 (ue_last_time res)])"

definition ch_udp_app_session_write ::
  "ch_rule_engine option \<Rightarrow> malloc_ok \<Rightarrow> ('a, 'w) ch_udp_session \<Rightarrow> ch_data_output \<Rightarrow> (int \<times> ch_data_output) res"
where
  "ch_udp_app_session_write fe mal s dout =
     bind_res (do_is_accept fe s) (\<lambda>acc.
       if \<not> acc then Inr (-1, dout)
       else bind_res (write_fields mal dout 0 (udp_common_fields s)) (\<lambda>(len, dout).
         if len = -1 then Inr (-1, dout)
         else bind_res (ua_session_write (as_app (us_app_session s)) (as_priv_data (us_app_session s)) mal dout) (\<lambda>(rc, dout).
           Inr (if rc < 0 then -1 else len + rc, dout))))"

definition ch_udp_app_session_store ::
  "ch_rule_engine option \<Rightarrow> ('a, 'w) ch_udp_session \<Rightarrow> ch_msgpack_store \<Rightarrow> (int \<times> ch_msgpack_store) res"
where
  "ch_udp_app_session_store fe s d =
     bind_res (do_is_accept fe s) (\<lambda>acc.
       if \<not> acc then Inr (-1, d)
       else
         let req = us_endpoint_req s; res = us_endpoint_res s;
             d = ch_msgpack_store_map_start d None 2;
             d = ch_msgpack_store_map_start d (Some ''common'') 13;
             d = ch_msgpack_store_write_uint64 d (Some ''sessionID'') (us_session_id s);
             d = ch_msgpack_store_write_uint32 d (Some ''srcIP'') (ue_ip req);
             d = ch_msgpack_store_write_uint32 d (Some ''dstIP'') (ue_ip res);
             d = ch_msgpack_store_write_uint16 d (Some ''srcPort'') (ue_port req);
             d = ch_msgpack_store_write_uint16 d (Some ''dstPort'') (ue_port res);
             d = ch_msgpack_store_write_uint64 d (Some ''reqPackets'') (ue_packets req);
             d = ch_msgpack_store_write_uint64 d (Some ''reqBytes'') (ue_bytes req);
             d = ch_msgpack_store_write_uint64 d (Some ''resPackets'') (ue_packets res);
             d = ch_msgpack_store_write_uint64 d (Some ''resBytes'') (ue_bytes res);
             d = ch_msgpack_store_write_uint64 d (Some ''reqStartTime'') (ue_start_time req);
             d = ch_msgpack_store_write_uint64 d (Some ''reqLastTime'') (ue_last_time req);
             d = ch_msgpack_store_write_uint64 d (Some ''resStartTime'') (ue_start_time res);
             d = ch_msgpack_store_write_uint64 d (Some ''resLastTime'') (ue_last_time res)
         in bind_res (ua_session_store (as_app (us_app_session s)) (as_priv_data (us_app_session s)) d) (\<lambda>(rc, d).
              Inr (if rc < 0 then -1 else 0, d)))"

section \<open>The table of sessions and the list of requests\<close>

definition udp_ipv6_hash :: "bytes \<Rightarrow> bytes \<Rightarrow> u32" where
  "udp_ipv6_hash s d = (le32 s 0 XOR le32 d 0) XOR (le32 s 4 XOR le32 d 4) XOR (le32 s 8 XOR le32 d 8) XOR (le32 s 12 XOR le32 d 12)"

definition udp_session_entry_hash :: "udp_pkt \<Rightarrow> unit \<Rightarrow> size_t" where
  "udp_session_entry_hash p pd =
     (if u_is_ipv6 p then
        ucast (ch_jhash_3words_sort (udp_ipv6_hash (u_src_addr p) (u_dst_addr p)) (ucast (u_src_port p)) (ucast (u_dst_port p)) 0)
      else ucast (ch_jhash_4words_sort (u_src_ip p) (u_dst_ip p) (ucast (u_src_port p)) (ucast (u_dst_port p)) 0))"

definition udp_session_entry_equal :: "('a, 'w) ch_udp_session \<Rightarrow> udp_pkt \<Rightarrow> unit \<Rightarrow> bool" where
  "udp_session_entry_equal s p pd \<longleftrightarrow> is_udp_request s p \<or> is_udp_response s p"

text \<open>What the callbacks of the table work on: the applications, the output buffers, the records put so far.\<close>

record 'w udp_world =
  uw_app :: 'w
  uw_dout :: ch_data_output
  uw_dstore :: ch_msgpack_store
  uw_records :: "(u8 \<times> u64 \<times> bytes) list"

type_synonym ('a, 'w, 'mp) udp_session_tbl = "(udp_pkt, ('a, 'w) ch_udp_session, unit, 'w udp_world, 'mp) ch_ptable"

record ch_udp_context =
  udp_session_pool_type :: pool_type
  udp_session_limits :: size_t
  udp_session_tbl_size :: size_t
  udp_session_timeout :: u64
  udp_session_cache_limits :: size_t
  udp_ptable_ring_size :: size_t
  udp_session_request_pool_type :: pool_type
  udp_session_request_limits :: size_t
  udp_session_request_timeout :: u64

definition ch_udp_session_pool_create ::
  "'mp rte_mempool_ops \<Rightarrow> ch_udp_context \<Rightarrow> size_t \<Rightarrow>
   (('a, 'w) ch_udp_session \<Rightarrow> u64 \<Rightarrow> unit \<Rightarrow> 'w udp_world \<Rightarrow> (('a, 'w) ch_udp_session \<times> 'w udp_world) res) option \<Rightarrow>
   bool \<Rightarrow> bool \<Rightarrow> bool \<Rightarrow> u64 \<Rightarrow> (addr \<Rightarrow> ('a, 'w) ch_udp_session ptable_entry) \<Rightarrow> ('a, 'w, 'mp) udp_session_tbl option"
where
  "ch_udp_session_pool_create ops ctx sz tcb allocated tbl_allocated ring_created tm mem =
     (if \<not> allocated then None
      else ch_ptable_create ops (udp_session_pool_type ctx) sz 0 (udp_session_limits ctx) (udp_session_tbl_size ctx)
             (udp_session_timeout ctx) (udp_session_cache_limits ctx) tbl_allocated ring_created (udp_ptable_ring_size ctx) ()
             udp_session_entry_hash udp_session_entry_equal None tcb tm mem)"

definition ch_udp_session_pool_entry_create ::
  "'mp rte_mempool_ops \<Rightarrow> addr option \<Rightarrow> u64 \<Rightarrow> ('a, 'w, 'mp) udp_session_tbl \<Rightarrow> udp_pkt \<Rightarrow> ('a, 'w) ch_udp_app_session \<Rightarrow> u64 \<Rightarrow>
   (addr option \<times> ('a, 'w, 'mp) udp_session_tbl) res"
where
  "ch_udp_session_pool_entry_create ops mem tm tbl p as sid =
     bind_res (ch_ptable_entry_create ops mem tm tbl p) (\<lambda>(r, tbl).
       case r of
         None \<Rightarrow> Inr (None, tbl)
       | Some e \<Rightarrow> Inr (Some e, entry_store e (ch_udp_session_init (pdata (heap tbl e)) p as sid) tbl))"

definition ch_udp_session_pool_entry_find ::
  "u64 \<Rightarrow> ('a, 'w, 'mp) udp_session_tbl \<Rightarrow> udp_pkt \<Rightarrow> (addr option \<times> ('a, 'w, 'mp) udp_session_tbl) res"
where
  "ch_udp_session_pool_entry_find tm tbl p = ch_ptable_entry_find tm tbl p"

definition ch_udp_session_pool_entry_free ::
  "'mp rte_mempool_ops \<Rightarrow> ('a, 'w, 'mp) udp_session_tbl \<Rightarrow> 'w udp_world \<Rightarrow> addr \<Rightarrow> (('a, 'w, 'mp) udp_session_tbl \<times> 'w udp_world) res"
where
  "ch_udp_session_pool_entry_free ops tbl w e = ch_ptable_entry_free ops tbl w e"

record ('a, 'w) ch_udp_session_request =
  ur_app_session :: "('a, 'w) ch_udp_app_session"
  ur_is_ipv6 :: bool
  ur_src_ip :: u32
  ur_dst_ip :: u32
  ur_src_addr :: bytes
  ur_dst_addr :: bytes
  ur_src_port :: u16
  ur_dst_port :: u16

type_synonym ('a, 'w, 'mp) udp_request_list = "(udp_pkt, ('a, 'w) ch_udp_session_request, unit, 'w udp_world, 'mp) ch_plist"

definition udp_session_request_entry_equal :: "('a, 'w) ch_udp_session_request \<Rightarrow> udp_pkt \<Rightarrow> unit \<Rightarrow> bool" where
  "udp_session_request_entry_equal r p pd = ch_udp_app_session_request_equal (ur_app_session r) p"

definition udp_session_request_timeout_cb ::
  "('a, 'w) ch_udp_session_request \<Rightarrow> u64 \<Rightarrow> unit \<Rightarrow> 'w udp_world \<Rightarrow> (('a, 'w) ch_udp_session_request \<times> 'w udp_world) res"
where
  "udp_session_request_timeout_cb r t pd w = Inr (r, w\<lparr>uw_app := ch_udp_app_session_fin (ur_app_session r) (uw_app w)\<rparr>)"

definition ch_udp_session_request_pool_create ::
  "'mp rte_mempool_ops \<Rightarrow> ch_udp_context \<Rightarrow> size_t \<Rightarrow> u64 \<Rightarrow> (addr \<Rightarrow> ('a, 'w) ch_udp_session_request plist_entry) \<Rightarrow>
   ('a, 'w, 'mp) udp_request_list option"
where
  "ch_udp_session_request_pool_create ops ctx sz tm mem =
     ch_plist_create ops (udp_session_request_pool_type ctx) sz 0 (udp_session_request_limits ctx)
       (udp_session_request_timeout ctx) () udp_session_request_entry_equal None (Some udp_session_request_timeout_cb) tm mem"

definition udp_request_init ::
  "('a, 'w) ch_udp_session_request \<Rightarrow> udp_pkt \<Rightarrow> ('a, 'w) ch_udp_app_session \<Rightarrow> ('a, 'w) ch_udp_session_request"
where
  "udp_request_init r p as =
     (let r = r\<lparr>ur_app_session := as, ur_is_ipv6 := u_is_ipv6 p\<rparr>;
          r = (if u_is_ipv6 p then r\<lparr>ur_src_addr := u_src_addr p, ur_dst_addr := u_dst_addr p\<rparr> else r)
      in r\<lparr>ur_src_ip := u_src_ip p, ur_dst_ip := u_dst_ip p, ur_src_port := u_src_port p, ur_dst_port := u_dst_port p\<rparr>)"

definition ch_udp_session_request_pool_entry_create ::
  "'mp rte_mempool_ops \<Rightarrow> addr option \<Rightarrow> addr option \<Rightarrow> u64 \<Rightarrow> ('a, 'w, 'mp) udp_request_list \<Rightarrow> 'w udp_world \<Rightarrow> udp_pkt \<Rightarrow>
   ('a, 'w) ch_udp_app_session \<Rightarrow> (addr option \<times> ('a, 'w, 'mp) udp_request_list \<times> 'w udp_world) res"
where
  "ch_udp_session_request_pool_entry_create ops mem1 mem2 tm pl w p as =
     bind_res (ch_plist_entry_create ops mem1 mem2 tm pl w) (\<lambda>(r, pl, w).
       case r of
         None \<Rightarrow> Inr (None, pl, w)
       | Some e \<Rightarrow> Inr (Some e, pl_store e (udp_request_init (pl_pdata (pl_heap pl e)) p as) pl, w))"

section \<open>The packets of a flow\<close>

definition same_udp_flow :: "udp_pkt \<Rightarrow> udp_pkt \<Rightarrow> bool" where
  "same_udp_flow p1 p2 \<longleftrightarrow> u_is_ipv6 p1 = u_is_ipv6 p2 \<and>
     (if u_is_ipv6 p1 then
        u_src_addr p1 = u_src_addr p2 \<and> u_dst_addr p1 = u_dst_addr p2 \<and> u_src_port p1 = u_src_port p2 \<and> u_dst_port p1 = u_dst_port p2 \<or>
        u_src_addr p1 = u_dst_addr p2 \<and> u_dst_addr p1 = u_src_addr p2 \<and> u_src_port p1 = u_dst_port p2 \<and> u_dst_port p1 = u_src_port p2
      else
        u_src_ip p1 = u_src_ip p2 \<and> u_dst_ip p1 = u_dst_ip p2 \<and> u_src_port p1 = u_src_port p2 \<and> u_dst_port p1 = u_dst_port p2 \<or>
        u_src_ip p1 = u_dst_ip p2 \<and> u_dst_ip p1 = u_src_ip p2 \<and> u_src_port p1 = u_dst_port p2 \<and> u_dst_port p1 = u_src_port p2)"

lemmas udp_key_defs = udp_session_entry_equal_def is_udp_request_def is_udp_response_def same_udp_flow_def Let_def

lemma udp_flow_hash:
  assumes "same_udp_flow p1 p2"
  shows "udp_session_entry_hash p1 pd = udp_session_entry_hash p2 pd"
proof -
  have "ch_jhash_4words_sort a b c d 0 = ch_jhash_4words_sort b a d c 0" for a b c d
    by (rule ch_jhash_4words_sort_mset) simp
  moreover have "udp_ipv6_hash s d = udp_ipv6_hash d s" for s d by (simp add: udp_ipv6_hash_def xor.commute)
  ultimately show ?thesis
    using assms ch_jhash_3words_sort_swap by (auto simp: udp_session_entry_hash_def same_udp_flow_def split: if_splits)
qed

interpretation uk: flow_keys same_udp_flow u_is_ipv6 udp_session_entry_hash udp_session_entry_equal "\<lambda>s. \<not> us_is_ipv6 s"
proof
  fix p1 p2 p :: udp_pkt and d :: "('a, 'w) ch_udp_session" and pd :: unit
  show "same_udp_flow p1 p2 \<Longrightarrow> udp_session_entry_hash p1 pd = udp_session_entry_hash p2 pd" by (rule udp_flow_hash)
  show "same_udp_flow p1 p2 \<Longrightarrow> udp_session_entry_equal d p1 pd = udp_session_entry_equal d p2 pd"
    by (auto simp: udp_key_defs split: if_splits)
  show "udp_session_entry_equal d p1 pd \<Longrightarrow> udp_session_entry_equal d p2 pd \<Longrightarrow> u_is_ipv6 p1 = u_is_ipv6 p2 \<Longrightarrow> same_udp_flow p1 p2"
    by (auto simp: udp_key_defs split: if_splits)
  show "\<not> us_is_ipv6 d \<Longrightarrow> udp_session_entry_equal d p pd \<Longrightarrow> \<not> u_is_ipv6 p"
    by (auto simp: udp_key_defs)
qed

text \<open>The key of a session does not depend on its counters or on its application.\<close>

lemma udp_session_simps [simp]:
  "udp_session_entry_equal (s\<lparr>us_app_session := as\<rparr>) = udp_session_entry_equal s"
  "us_app_session (set_udp_ep s side q) = us_app_session s" "us_session_id (set_udp_ep s side q) = us_session_id s"
  "us_is_ipv6 (set_udp_ep s side q) = us_is_ipv6 s"
  by (auto simp: fun_eq_iff udp_key_defs) (cases side; simp)+

lemma udp_update_key [simp]:
  "udp_session_entry_equal (set_udp_ep s side (ch_udp_session_update (udp_ep s side) p)) = udp_session_entry_equal s"
  by (cases side) (auto simp: fun_eq_iff udp_key_defs ch_udp_session_update_def)

lemma udp_init_equal:
  assumes "\<not> u_is_ipv6 p"
  shows "udp_session_entry_equal (ch_udp_session_init s p as sid) p pd" "\<not> us_is_ipv6 (ch_udp_session_init s p as sid)"
    "us_app_session (ch_udp_session_init s p as sid) = as"
  using assms by (auto simp: udp_key_defs ch_udp_session_init_def)

section \<open>Invariant of the table\<close>

definition utbl_ok :: "('a, 'w, 'mp) udp_session_tbl \<Rightarrow> bool" where
  "utbl_ok tbl \<longleftrightarrow> ptable_ok tbl \<and> keyed tbl \<and> timeout_entries tbl = [] \<and> entry_hash tbl = udp_session_entry_hash \<and>
     entry_equal tbl = udp_session_entry_equal \<and> entry_clean tbl = None"

lemma utbl_store:
  assumes "utbl_ok tbl" "udp_session_entry_equal s = udp_session_entry_equal (pdata (heap tbl e))"
  shows "utbl_ok (entry_store e s tbl)"
proof -
  have "keyed (entry_store e s tbl)"
    using assms by (intro keyed_store) (simp_all add: utbl_ok_def ptable_entry_equal_def)
  then show ?thesis using assms(1) by (simp add: utbl_ok_def entry_store_def ptable_ok_def buckets_ok_def caches_ok_def members_def)
qed

lemma utbl_find:
  assumes "utbl_ok tbl"
  shows "\<exists>r tbl'. ch_udp_session_pool_entry_find tm tbl p = Inr (r, tbl') \<and> utbl_ok tbl' \<and> same_table tbl tbl' \<and>
    (case r of None \<Rightarrow> \<forall>e\<in>members tbl. \<not> udp_session_entry_equal (pdata (heap tbl e)) p ()
     | Some e \<Rightarrow> e \<in> members tbl \<and> udp_session_entry_equal (pdata (heap tbl e)) p ())"
proof -
  note t = assms [unfolded utbl_ok_def]
  obtain r tbl' where f: "ch_ptable_entry_find tm tbl p = Inr (r, tbl')" "ptable_ok tbl'" "same_table tbl tbl'"
    "case r of None \<Rightarrow> \<forall>e\<in>members tbl. \<not> ptable_entry_equal tbl e p
     | Some e \<Rightarrow> e \<in> members tbl \<and> ptable_entry_equal tbl e p \<and> last_entry tbl' = Some e \<and> last_time (heap tbl' e) = tm"
    using entry_find_ok [of tbl tm p] t by blast
  have "utbl_ok tbl'"
    using f t find_keeps_settings [OF f(1)] same_table_facts(4) [OF f(3)] by (simp add: utbl_ok_def same_table_def settings_def)
  then show ?thesis using f t by (auto simp: ch_udp_session_pool_entry_find_def ptable_entry_equal_def split: option.splits)
qed

lemma utbl_create:
  assumes "utbl_ok tbl" "ep_fresh mem (ep tbl)" "\<not> u_is_ipv6 p"
  shows "\<exists>r tbl1. ch_udp_session_pool_entry_create ops mem tm tbl p as sid = Inr (r, tbl1) \<and> utbl_ok tbl1 \<and>
    (case r of
       None \<Rightarrow> members tbl1 = members tbl \<and> (\<forall>a. pdata (heap tbl1 a) = pdata (heap tbl a))
     | Some e \<Rightarrow> e \<notin> members tbl \<and> members tbl1 = insert e (members tbl) \<and>
         (\<forall>a. pdata (heap tbl1 a) = (if a = e then ch_udp_session_init (pdata (heap tbl e)) p as sid else pdata (heap tbl a))))"
proof -
  have t: "ptable_ok tbl" "keyed tbl" "entry_hash tbl = udp_session_entry_hash" "entry_equal tbl = udp_session_entry_equal"
    "timeout_entries tbl = []" "entry_clean tbl = None" using assms(1) by (simp_all add: utbl_ok_def)
  let ?s = "\<lambda>e. ch_udp_session_init (pdata (heap tbl e)) p as sid"
  note c = uk.create_keyed [OF t(1,2) assms(2) t(3,4) udp_init_equal(2,1) [OF assms(3)], where ops = ops and tm = tm]
  obtain r tbl1 where r: "ch_ptable_entry_create ops mem tm tbl p = Inr (r, tbl1)"
    using c by blast
  have set: "timeout_entries tbl1 = []" "entry_clean tbl1 = None"
    using create_keeps_settings [OF r] t by (simp_all add: settings_def)
  show ?thesis
  proof (cases r)
    case None
    then have "ptable_ok tbl1 \<and> entries tbl1 = entries tbl \<and> entry_hash tbl1 = udp_session_entry_hash \<and>
        entry_equal tbl1 = udp_session_entry_equal \<and> (\<forall>a. pdata (heap tbl1 a) = pdata (heap tbl a)) \<and> keyed tbl1"
      using c r by auto
    then show ?thesis using None r set
      by (simp add: ch_udp_session_pool_entry_create_def utbl_ok_def members_def)
  next
    case (Some e)
    then have f: "e \<notin> members tbl" "ptable_ok (entry_store e (?s e) tbl1)" "keyed (entry_store e (?s e) tbl1)"
        "members tbl1 = insert e (members tbl)" "\<forall>a. pdata (heap tbl1 a) = pdata (heap tbl a)"
        "entry_equal tbl1 = udp_session_entry_equal" "entry_hash tbl1 = udp_session_entry_hash"
      using c [of "pdata (heap tbl e)" as sid] r by auto
    have "ch_udp_session_pool_entry_create ops mem tm tbl p as sid = Inr (Some e, entry_store e (?s e) tbl1)"
      using r Some f(5) by (simp add: ch_udp_session_pool_entry_create_def)
    moreover have "utbl_ok (entry_store e (?s e) tbl1)" using f set by (simp add: utbl_ok_def) (simp add: entry_store_def)
    ultimately show ?thesis using f by (intro exI [of _ "Some e"] exI [of _ "entry_store e (?s e) tbl1"]) (simp add: entry_store_heap)
  qed
qed


lemma utbl_free:
  assumes "utbl_ok tbl" "e \<in> members tbl"
  shows "\<exists>tbl'. ch_udp_session_pool_entry_free ops tbl w e = Inr (tbl', w) \<and> utbl_ok tbl' \<and> members tbl' = members tbl - {e} \<and>
    heap tbl' = heap tbl"
proof -
  note t = assms(1) [unfolded utbl_ok_def]
  have "run_callbacks tbl (pdata (heap tbl e)) 0 w = Inr (pdata (heap tbl e), w)" using t by (simp add: run_callbacks_def)
  from entry_free_step [OF _ assms(2) this, of ops] t
  obtain tbl' where f: "tbl_entry_free ops tbl w e 0 = Inr (tbl', w)" "ptable_ok tbl'" "members tbl' = members tbl - {e}"
    "entries tbl' = map (list_del e) (entries tbl)" "heap tbl' = heap tbl"
    "\<And>a. a \<noteq> e \<Longrightarrow> ptable_entry_equal tbl' a = ptable_entry_equal tbl a"
    "ptable_header_get tbl' = ptable_header_get tbl" "entry_equal tbl' = entry_equal tbl" "priv_data tbl' = priv_data tbl"
    "timeout_entries tbl' = timeout_entries tbl" "entry_hash tbl' = entry_hash tbl" "entry_clean tbl' = entry_clean tbl" by auto
  have "keyed tbl'" using keyed_free [OF _ _ f(4,6,7,9)] t by blast
  then show ?thesis using f t by (simp add: utbl_ok_def ch_udp_session_pool_entry_free_def ch_ptable_entry_free_def)
qed

section \<open>Invariant of the list of requests\<close>

definition ureq_ok :: "('a, 'w, 'mp) udp_request_list \<Rightarrow> bool" where
  "ureq_ok pl \<longleftrightarrow> plist_ok pl \<and> pl_entry_equal pl = udp_session_request_entry_equal \<and> pl_entry_clean pl = None \<and>
     pl_entry_timeout_cb pl = Some udp_session_request_timeout_cb"

lemma ureq_callbacks: "ureq_ok pl \<Longrightarrow> pl_callbacks_total pl"
  by (auto simp: ureq_ok_def pl_callbacks_total_def udp_session_request_timeout_cb_def)

lemma ureq_store [simp]: "ureq_ok (pl_store e d pl) = ureq_ok pl"
  by (simp add: ureq_ok_def) (simp add: pl_store_def)

text \<open>Freeing requests reaches the world only through the ends of application sessions.\<close>

definition only_apps :: "'w udp_world \<Rightarrow> 'w udp_world \<Rightarrow> bool" where
  "only_apps w w' \<longleftrightarrow> (\<exists>a. w' = w\<lparr>uw_app := a\<rparr>)"

lemma only_apps_refl [simp]: "only_apps w w"
  unfolding only_apps_def by (intro exI [of _ "uw_app w"]) simp

lemma only_apps_upd [simp]: "only_apps w (w\<lparr>uw_app := a\<rparr>)"
  by (auto simp: only_apps_def)

lemma only_apps_trans: "only_apps w1 w2 \<Longrightarrow> only_apps w2 w3 \<Longrightarrow> only_apps w1 w3"
  by (auto simp: only_apps_def)

lemma only_apps_dout: "only_apps w w' \<Longrightarrow> uw_dout w' = uw_dout w \<and> uw_records w' = uw_records w \<and> uw_dstore w' = uw_dstore w"
  by (auto simp: only_apps_def)

lemma ureq_entry_free:
  assumes "ureq_ok pl" "pl_entry_free ops pl w e t = Inr (pl', w')"
  shows "only_apps w w'" "ureq_ok pl' \<or> e \<notin> set (pl_entries pl)" "t = 0 \<Longrightarrow> w' = w" "pl_frame pl' = pl_frame pl"
proof -
  note o = assms(1) [unfolded ureq_ok_def]
  show "only_apps w w'" "t = 0 \<Longrightarrow> w' = w"
    using assms(2) o by (auto simp: pl_entry_free_def Let_def bind_res_eq_Inr udp_session_request_timeout_cb_def split: if_splits)
  show "pl_frame pl' = pl_frame pl"
    using assms(2) by (auto simp: pl_entry_free_def Let_def bind_res_eq_Inr pl_frame_def ep_free_fresh fun_eq_iff split: if_splits)
  then show "ureq_ok pl' \<or> e \<notin> set (pl_entries pl)"
    using pl_entry_free_ok [of pl e ops w t] ureq_callbacks [OF assms(1)] o assms(2) by (auto simp: ureq_ok_def pl_frame_def)
qed

lemma ureq_free_loop:
  assumes "ureq_ok pl" "distinct es" "set es \<subseteq> set (pl_entries pl)" "pl_free_loop ops need tm pl w c es = Inr (c', pl', w')"
  shows "only_apps w w'"
  using assms
proof (induction es arbitrary: pl w c)
  case (Cons e es)
  let ?t = "pl_entry_is_timeout pl e tm"
  show ?case
  proof (cases "?t \<noteq> 0 \<or> need (pl_pdata (pl_heap pl e)) (pl_priv_data pl)")
    case True
    then obtain pl1 w1 where f: "pl_entry_free ops pl w e ?t = Inr (pl1, w1)"
      "pl_free_loop ops need tm pl1 w1 (c + 1) es = Inr (c', pl', w')"
      using Cons.prems(4) by (auto simp: Let_def bind_res_eq_Inr split: if_splits)
    have "plist_ok pl" "e \<in> set (pl_entries pl)" using Cons.prems by (auto simp: ureq_ok_def)
    from pl_entry_free_ok [OF this ureq_callbacks [OF Cons.prems(1)], of ops w ?t] f(1)
    have "set es \<subseteq> set (pl_entries pl1)" using Cons.prems by (auto simp: ureq_ok_def plist_ok_def)
    moreover have "ureq_ok pl1" using ureq_entry_free(2) [OF Cons.prems(1) f(1)] \<open>e \<in> set (pl_entries pl)\<close> by blast
    ultimately show ?thesis
      using Cons.IH [OF _ _ _ f(2)] ureq_entry_free(1) [OF Cons.prems(1) f(1)] Cons.prems(2) by (auto intro: only_apps_trans)
  next
    case False
    then show ?thesis using Cons.IH [of pl w c] Cons.prems by (auto simp: Let_def split: if_splits)
  qed
qed simp

lemma ureq_plist_create:
  assumes "ureq_ok pl" "ch_plist_entry_create ops mem1 mem2 tm pl w = Inr (r, pl', w')"
  shows "only_apps w w'"
proof -
  obtain r1 q where q: "ch_entry_pool_alloc ops mem1 (pl_ep pl) = Inr (r1, q)"
    using assms(2) by (auto simp: ch_plist_entry_create_def bind_res_eq_Inr)
  show ?thesis
  proof (cases r1)
    case None
    let ?p = "pl\<lparr>pl_ep := q\<rparr>"
    obtain c pl1 w1 where l: "pl_free_loop ops (\<lambda>_ _. False) tm ?p w 0 (pl_entries pl) = Inr (c, pl1, w1)" "w' = w1"
      using assms(2) q None
      by (auto simp: ch_plist_entry_create_def Let_def bind_res_eq_Inr entries_timeout_free_def split: option.splits)
    have "q = pl_ep pl"
      using q None assms(1) by (cases "ep_mp (pl_ep pl)"; cases mem1)
        (auto simp: ureq_ok_def plist_ok_def ep_ok_def ch_entry_pool_alloc_def ch_object_pool_get_def new_memory_def Let_def
          bind_res_eq_Inr split: if_splits list.splits)
    then have "ureq_ok ?p" "distinct (pl_entries pl)" using assms(1) by (auto simp: ureq_ok_def plist_ok_def)
    then show ?thesis using ureq_free_loop [OF _ _ _ l(1)] l(2) by simp
  next
    case (Some e)
    then show ?thesis using assms(2) q by (auto simp: ch_plist_entry_create_def Let_def)
  qed
qed

lemma ureq_create:
  assumes "ureq_ok pl" "ep_fresh mem1 (pl_ep pl)" "ep_fresh mem2 (pl_ep pl)"
  shows "\<exists>r pl' w'. ch_udp_session_request_pool_entry_create ops mem1 mem2 tm pl w p as = Inr (r, pl', w') \<and> ureq_ok pl' \<and> only_apps w w' \<and>
    (\<forall>a\<in>set (pl_entries pl'). if r = Some a then ur_app_session (pl_pdata (pl_heap pl' a)) = as
       else a \<in> set (pl_entries pl) \<and> pl_pdata (pl_heap pl' a) = pl_pdata (pl_heap pl a)) \<and>
    (\<forall>e. r = Some e \<longrightarrow> e \<in> set (pl_entries pl'))"
proof -
  have "plist_ok pl" using assms(1) by (simp add: ureq_ok_def)
  from pl_create_ok [OF this ureq_callbacks [OF assms(1)] assms(2,3), of ops tm w]
  obtain r pl1 w1 where c: "ch_plist_entry_create ops mem1 mem2 tm pl w = Inr (r, pl1, w1)" "plist_ok pl1"
    "fst (pl_frame pl1) = fst (pl_frame pl)" "pl_entry_clean pl1 = pl_entry_clean pl" "pl_entry_timeout_cb pl1 = pl_entry_timeout_cb pl"
    "case r of None \<Rightarrow> set (pl_entries pl1) \<subseteq> set (pl_entries pl)
     | Some e \<Rightarrow> e \<in> set (pl_entries pl1) \<and> set (pl_entries pl1) - {e} \<subseteq> set (pl_entries pl)"
    "\<forall>a\<in>set (pl_entries pl1). r \<noteq> Some a \<longrightarrow> pl_pdata (pl_heap pl1 a) = pl_pdata (pl_heap pl a)" by blast
  have ok: "ureq_ok pl1" using c(2-5) assms(1) by (simp add: ureq_ok_def pl_frame_def)
  have app: "ur_app_session (udp_request_init d p as) = as" for d by (simp add: udp_request_init_def Let_def)
  show ?thesis
    using c ok ureq_plist_create [OF assms(1) c(1)] app
    by (cases r) (auto simp: ch_udp_session_request_pool_entry_create_def)
qed

section \<open>Writing a session\<close>

text \<open>A session is a source of target texts for the filter, when those of its application can be read.\<close>

definition udp_targets_return :: "('a, 'w) ch_udp_session \<Rightarrow> bool" where
  "udp_targets_return s \<longleftrightarrow> (\<forall>rt hex. \<exists>t. udp_filter_target_get s rt hex = Inr t)"

definition udp_target_text :: "('a, 'w) ch_udp_session \<Rightarrow> ch_rule_target \<Rightarrow> bool \<Rightarrow> c_string" where
  "udp_target_text s rt hex = (case udp_filter_target_get s rt hex of Inr t \<Rightarrow> t | Inl _ \<Rightarrow> None)"

interpretation uf: target_source udp_filter_context udp_target_text "\<lambda>s _. udp_targets_return s"
proof
  fix s :: "('a, 'w) ch_udp_session" and st :: unit and rt h
  assume r: "udp_targets_return s"
  then obtain t where "udp_filter_target_get s rt h = Inr t" unfolding udp_targets_return_def by blast
  then show "\<exists>st'. tc_target (udp_filter_context s) st rt h = Inr (udp_target_text s rt h, st') \<and> udp_targets_return s"
    using r by (simp add: udp_filter_context_def udp_target_text_def)
qed

lemma do_is_accept_spec:
  assumes "udp_targets_return s"
  shows "do_is_accept fe s = Inr (case fe of None \<Rightarrow> True
     | Some eng \<Rightarrow> \<not> engine_spec (udp_filter_isMyProto s) (udp_target_text s) eng)"
proof (cases fe)
  case (Some eng)
  have "isMyProto (udp_filter_context s) = udp_filter_isMyProto s" by (simp add: udp_filter_context_def)
  then show ?thesis using uf.filter_accept_spec [OF assms, where st = "()" and eng = eng] Some by (auto simp: do_is_accept_def)
qed (simp add: do_is_accept_def)

text \<open>A buffer in use is at least as large as \<^verbatim>\<open>ch_dout_init\<close> makes it, and no \<^verbatim>\<open>malloc\<close> gives \<open>2\<^sup>4\<^sup>8\<close> bytes.\<close>

definition dout_in_use :: "ch_data_output \<Rightarrow> bool" where
  "dout_in_use d \<longleftrightarrow> length (content d) \<le> unat (dsize d) \<and> unat DOUT_SIZE_DEFAULT \<le> unat (dsize d) \<and> unat (dsize d) < 2 ^ 48"

lemma dout_init_in_use: "ch_dout_init mal = Some d \<Longrightarrow> dout_in_use d"
  by (auto simp: ch_dout_init_def dout_in_use_def DOUT_SIZE_DEFAULT_def split: if_splits)

lemma dout_reset_in_use: "dout_in_use d \<Longrightarrow> dout_in_use (CH_DOUT_RESET d)"
  by (simp add: dout_in_use_def CH_DOUT_RESET_def)

fun int_field :: "field \<Rightarrow> bool" where
  "int_field (FBytes _) = False"
| "int_field (FStr16 _) = False"
| "int_field _ = True"

lemma write_field_room:
  assumes "int_field f" "length (content d) + length (enc_field f) \<le> unat (dsize d)" "unat (dsize d) + 32 < 2 ^ 64"
  shows "write_field mal d f = Inr (int (length (enc_field f)), d\<lparr>content := content d @ enc_field f\<rparr>)"
proof (cases f)
  case (F8 v)
  then show ?thesis using assms no_check_int_write [of d 1 mal v] by (simp add: ch_dout_uint8_write_def)
qed (use assms in \<open>simp_all add: no_check_int_write ch_dout_uint16_write_def ch_dout_uint32_write_def ch_dout_uint64_write_def\<close>)

lemma write_fields_room:
  assumes "\<forall>f\<in>set fs. int_field f" "length (content d) + length (concat (map enc_field fs)) \<le> unat (dsize d)"
    "unat (dsize d) + 32 < 2 ^ 64"
  shows "write_fields mal d len fs =
    Inr (len + int (length (concat (map enc_field fs))), d\<lparr>content := content d @ concat (map enc_field fs)\<rparr>)"
  using assms
proof (induction fs arbitrary: d len)
  case (Cons f fs)
  let ?d = "d\<lparr>content := content d @ enc_field f\<rparr>"
  have "write_field mal d f = Inr (int (length (enc_field f)), ?d)" using Cons.prems by (intro write_field_room) auto
  moreover have "\<forall>f\<in>set fs. int_field f" "length (content ?d) + length (concat (map enc_field fs)) \<le> unat (dsize ?d)"
    "unat (dsize ?d) + 32 < 2 ^ 64" using Cons.prems by auto
  ultimately show ?case using Cons.IH [of ?d "len + int (length (enc_field f))"] by (simp add: add.assoc)
qed simp

text \<open>
  What the handlers rely on of an application: for the packets \<open>P\<close> and the private data \<open>I\<close> its callbacks return, and they
  keep \<open>I\<close>. The packets of a task are those whose payload the application can read, for TFTP for example those whose
  payload and the zeros behind it lie in the packet.
\<close>

locale udp_application =
  fixes P :: "udp_pkt \<Rightarrow> bool" and I :: "'a \<Rightarrow> bool" and app :: "('a, 'w) ch_udp_app"
  assumes create_returns: "P p \<Longrightarrow> \<exists>r w'. ua_session_create app p w = Inr (r, w') \<and> (\<forall>a. r = Some a \<longrightarrow> I a)"
    and request_returns: "process_request_session app = Some f \<Longrightarrow> P p \<Longrightarrow> I a \<Longrightarrow> \<exists>rc a' w'. f a p w = Inr (rc, a', w') \<and> I a'"
    and req_returns: "P p \<Longrightarrow> I a \<Longrightarrow> \<exists>rc a' w'. req_pkt_process app a p w = Inr (rc, a', w') \<and> I a'"
    and res_returns: "P p \<Longrightarrow> I a \<Longrightarrow> \<exists>rc a' w'. res_pkt_process app a p w = Inr (rc, a', w') \<and> I a'"
    and store_returns: "I a \<Longrightarrow> \<exists>rc d'. ua_session_store app a d = Inr (rc, d')"
    and target_returns: "ua_session_target_get app = Some g \<Longrightarrow> I a \<Longrightarrow> \<exists>t. g a rt hex = Inr t"
begin

lemma packet_process_returns:
  assumes "P p" "as_app as = app" "I (as_priv_data as)"
  shows "\<exists>rc as' w'. ch_udp_app_session_packet_process as p w = Inr (rc, as', w') \<and> as_app as' = app \<and> I (as_priv_data as')"
  using req_returns [OF assms(1,3), of w] res_returns [OF assms(1,3), of w] assms(2)
  by (auto simp: ch_udp_app_session_packet_process_def Let_def)

lemma request_process_returns:
  assumes "P p" "as_app as = app" "I (as_priv_data as)" "process_request_session app \<noteq> None"
  shows "\<exists>rc as' w'. ch_udp_app_session_request_process as p w = Inr (rc, as', w') \<and> as_app as' = app \<and> I (as_priv_data as')"
proof -
  obtain f where f: "process_request_session app = Some f" using assms(4) by blast
  from request_returns [OF f assms(1,3), of w] show ?thesis using assms(2) f by (auto simp: ch_udp_app_session_request_process_def)
qed

lemma targets_return:
  assumes "as_app (us_app_session s) = app" "I (as_priv_data (us_app_session s))"
  shows "udp_targets_return s"
  unfolding udp_targets_return_def udp_filter_target_get_def using target_returns [OF _ assms(2)] assms(1)
  by (auto simp: Let_def split: option.splits)

lemma session_store_returns:
  assumes "as_app (us_app_session s) = app" "I (as_priv_data (us_app_session s))"
  shows "\<exists>rc d'. ch_udp_app_session_store fe s d = Inr (rc, d')"
proof -
  obtain acc where acc: "do_is_accept fe s = Inr acc" using do_is_accept_spec [OF targets_return [OF assms]] by blast
  have "\<exists>rc d'. bind_res (ua_session_store app (as_priv_data (us_app_session s)) x) (\<lambda>(rc, d). Inr (if rc < 0 then -1 else 0 :: int, d)) = Inr (rc, d')" for x
    using store_returns [OF assms(2), of x] by auto
  then show ?thesis using acc assms(1) by (cases acc) (simp_all add: ch_udp_app_session_store_def Let_def)
qed

end

text \<open>And when the sessions are not packed with msgpack: its writer appends to the buffer and stays inside it.\<close>

definition udp_writer_ok :: "('a \<Rightarrow> bool) \<Rightarrow> ('a, 'w) ch_udp_app \<Rightarrow> bool" where
  "udp_writer_ok I app \<longleftrightarrow> (\<forall>a mal d. I a \<and> dout_in_use d \<longrightarrow> (\<exists>rc d'. ua_session_write app a mal d = Inr (rc, d') \<and> dout_in_use d' \<and>
     (0 \<le> rc \<longrightarrow> (\<exists>bs. content d' = content d @ bs \<and> int (length bs) = rc))))"

lemma common_fields:
  "\<forall>f\<in>set (udp_common_fields s). int_field f" "\<forall>f\<in>set (udp_common_fields s). field_ok f"
  "length (concat (map enc_field (udp_common_fields s))) = 84"
  by (simp_all add: udp_common_fields_def Let_def)

lemma session_write_ok:
  assumes "udp_writer_ok I (as_app (us_app_session s))" "dout_in_use d" "content d = []" "do_is_accept fe s = Inr acc"
    "I (as_priv_data (us_app_session s))"
  shows "\<exists>rc d'. ch_udp_app_session_write fe mal s d = Inr (rc, d') \<and> dout_in_use d' \<and>
    (0 \<le> rc \<longrightarrow> acc \<and> (\<exists>bs. content d' = concat (map enc_field (udp_common_fields s)) @ bs \<and> rc = 84 + int (length bs)))"
proof (cases acc)
  case True
  let ?d = "d\<lparr>content := concat (map enc_field (udp_common_fields s))\<rparr>"
  have d: "unat (dsize d) + 32 < 2 ^ 64" "84 \<le> unat (dsize d)"
    using assms(2) by (simp_all add: dout_in_use_def DOUT_SIZE_DEFAULT_def)
  have w: "write_fields mal d 0 (udp_common_fields s) = Inr (84, ?d)"
    using write_fields_room [OF common_fields(1) _ d(1), of s mal 0] assms(3) d(2) by (simp add: common_fields(3))
  have "dout_in_use ?d" using assms(2) by (simp add: dout_in_use_def common_fields(3) DOUT_SIZE_DEFAULT_def)
  then obtain rc d' where "ua_session_write (as_app (us_app_session s)) (as_priv_data (us_app_session s)) mal ?d = Inr (rc, d')"
    "dout_in_use d'" "0 \<le> rc \<longrightarrow> (\<exists>bs. content d' = content ?d @ bs \<and> int (length bs) = rc)"
    using assms(1,5) unfolding udp_writer_ok_def by blast
  then show ?thesis using True assms(4) w by (auto simp: ch_udp_app_session_write_def)
next
  case False
  then show ?thesis using assms by (simp add: ch_udp_app_session_write_def)
qed

text \<open>What is stored with msgpack: the common part, and what the application stores behind it.\<close>

definition common_tokens :: "('a, 'w) ch_udp_session \<Rightarrow> mp_token list" where
  "common_tokens s =
     (let req = us_endpoint_req s; res = us_endpoint_res s
      in concat (map (\<lambda>(k, v). [MP_Str (text_bytes k), MP_Uint v])
        [(''sessionID'', unat (us_session_id s)), (''srcIP'', unat (ue_ip req)), (''dstIP'', unat (ue_ip res)),
         (''srcPort'', unat (ue_port req)), (''dstPort'', unat (ue_port res)),
         (''reqPackets'', unat (ue_packets req)), (''reqBytes'', unat (ue_bytes req)),
         (''resPackets'', unat (ue_packets res)), (''resBytes'', unat (ue_bytes res)),
         (''reqStartTime'', unat (ue_start_time req)), (''reqLastTime'', unat (ue_last_time req)),
         (''resStartTime'', unat (ue_start_time res)), (''resLastTime'', unat (ue_last_time res))]))"

lemma session_store_tokens:
  assumes "do_is_accept fe s = Inr True"
  shows "ch_udp_app_session_store fe s [] =
    bind_res (ua_session_store (as_app (us_app_session s)) (as_priv_data (us_app_session s))
        (MP_Map 2 # MP_Str (text_bytes ''common'') # MP_Map 13 # common_tokens s))
      (\<lambda>(rc, d). Inr (if rc < 0 then -1 else 0, d))"
  using assms by (simp add: ch_udp_app_session_store_def mp_write_defs common_tokens_def Let_def)

lemma common_tokens_objects: "mp_objects 28 (common_tokens s @ us) \<longleftrightarrow> mp_objects 2 us"
  by (simp add: common_tokens_def Let_def eval_nat_numeral)

section \<open>Properties\<close>

text \<open>
  A UDP session that a packet creates is found again by every packet of its flow, in both
  directions: when no session of the table is the packet's, the creation either leaves the table as it is
  (the pool is empty) or adds one session, and a find with any packet of the flow returns that session.
\<close>

theorem ch_udp_session_create_find:
  assumes tbl: "utbl_ok tbl" "ep_fresh mem (ep tbl)" and p: "\<not> u_is_ipv6 p"
    and none: "\<forall>a\<in>members tbl. \<not> udp_session_entry_equal (pdata (heap tbl a)) p ()"
  shows "\<exists>r tbl1. ch_udp_session_pool_entry_create ops mem tm tbl p as sid = Inr (r, tbl1) \<and> utbl_ok tbl1 \<and>
    (case r of
       None \<Rightarrow> members tbl1 = members tbl
     | Some e \<Rightarrow> e \<notin> members tbl \<and> members tbl1 = insert e (members tbl) \<and>
         us_app_session (pdata (heap tbl1 e)) = as \<and> us_session_id (pdata (heap tbl1 e)) = sid \<and>
         (\<forall>p'. same_udp_flow p p' \<longrightarrow> (\<exists>tbl2. ch_udp_session_pool_entry_find tm2 tbl1 p' = Inr (Some e, tbl2))))"
proof -
  obtain r tbl1 where c: "ch_udp_session_pool_entry_create ops mem tm tbl p as sid = Inr (r, tbl1)" "utbl_ok tbl1"
    "case r of
       None \<Rightarrow> members tbl1 = members tbl \<and> (\<forall>a. pdata (heap tbl1 a) = pdata (heap tbl a))
     | Some e \<Rightarrow> e \<notin> members tbl \<and> members tbl1 = insert e (members tbl) \<and>
         (\<forall>a. pdata (heap tbl1 a) = (if a = e then ch_udp_session_init (pdata (heap tbl e)) p as sid else pdata (heap tbl a)))"
    using utbl_create [OF tbl p] by blast
  show ?thesis
  proof (cases r)
    case (Some e)
    have "udp_session_entry_equal (ch_udp_session_init (pdata (heap tbl e)) p as sid) p ()" by (rule udp_init_equal(1) [OF p])
    then have "\<exists>tbl2. ch_ptable_entry_find tm2 tbl1 p' = Inr (Some e, tbl2)" if "same_udp_flow p p'" for p'
      using uk.find_flow [of tbl1 e p p' tm2] c(2,3) Some that none by (auto simp: utbl_ok_def)
    then show ?thesis using c Some
      by (intro exI [of _ r] exI [of _ tbl1]) (auto simp: ch_udp_session_pool_entry_find_def ch_udp_session_init_def Let_def)
  qed (use c in auto)
qed

section \<open>Witnesses\<close>

text \<open>An application that counts its packets; its own state is the number of its sessions.\<close>

definition sample_uapp :: "(nat, nat) ch_udp_app" where
  "sample_uapp = \<lparr>ua_type = 6, ua_session_create = (\<lambda>p w. Inr (Some 0, w + 1)),
     process_request_session = Some (\<lambda>n p w. Inr (if u_payload_len p = 0 then PROCESS_REQ_SESSION_ERROR else PROCESS_REQ_SESSION_DONE, n, w)),
     request_session_equal = (\<lambda>n p. u_dst_port p = 69), ua_is_request = (\<lambda>n p. u_dst_port p = 53),
     req_pkt_process = (\<lambda>n p w. Inr (PROCESS_CONTINUE, n + 1, w)), res_pkt_process = (\<lambda>n p w. Inr (PROCESS_DONE, n + 1, w)),
     ua_session_write = (\<lambda>n mal d. Inr (0, d)),
     ua_session_store = (\<lambda>n d. Inr (0, ch_msgpack_store_write_uint8 d (Some ''n'') (of_nat n))),
     ua_session_isMyProto = None, ua_session_target_get = None, ua_session_fin = Some (\<lambda>n w. w - 1)\<rparr>"

lemma sample_uapp_ok: "udp_application (\<lambda>_. True) (\<lambda>_. True) sample_uapp" "udp_writer_ok (\<lambda>_. True) sample_uapp"
  by (simp_all add: udp_application_def udp_writer_ok_def sample_uapp_def)

definition sample_upkt :: "bool \<Rightarrow> u16 \<Rightarrow> u32 \<Rightarrow> udp_pkt" where
  "sample_upkt req port len = \<lparr>u_is_ipv6 = False, u_src_ip = (if req then 1 else 2), u_dst_ip = (if req then 2 else 1),
     u_src_addr = [], u_dst_addr = [], u_src_port = (if req then port else 53), u_dst_port = (if req then 53 else port),
     u_ip_dlen = 0, u_tth_len = 42, u_payload_len = len, u_pdata_off = Some 42, up_data = Some [1, 2, 3], up_timestamp = 7\<rparr>"

text \<open>A table with one session, whose application session is \<open>as\<close>.\<close>

definition blank_usession :: "('a, 'w) ch_udp_app_session \<Rightarrow> ('a, 'w) ch_udp_session" where
  "blank_usession as =
     (let q = \<lparr>ue_port = 0, ue_ip = 0, ue_addr = [], ue_packets = 0, ue_bytes = 0, ue_start_time = 0, ue_last_time = 0\<rparr>
      in \<lparr>us_is_ipv6 = False, us_endpoint_req = q, us_endpoint_res = q, us_session_id = 0, us_app_session = as\<rparr>)"

definition usession_of :: "('a, 'w) ch_udp_app_session \<Rightarrow> ('a, 'w) ch_udp_session" where
  "usession_of as = ch_udp_session_init (blank_usession as) (sample_upkt True 1000 3) as 5"

definition utbl_of :: "('a, 'w) ch_udp_app_session \<Rightarrow> ('a, 'w, unit) udp_session_tbl" where
  "utbl_of as = \<lparr>ep = \<lparr>ep_mp = SYS_MP sample_pool_used, entry_size = 40000, n_entries_limit = 10\<rparr>,
     timeout_entries = [], ring_size = 8, last_entry = Some 4120, entry_timeout = 60, tbl_size = 1, tbl_mask = 0,
     n_caches = 1, n_caches_limits = 3, last_clean_time = 0, priv_data = (), entry_hash = udp_session_entry_hash,
     entry_equal = udp_session_entry_equal, entry_clean = None, entry_timeout_cb = None,
     hits_num = 0, no_hits_num = 0, fail_num = 0, timeout_num = 0,
     caches = [4120], entries = [[4120]],
     heap = (\<lambda>_. \<lparr>last_time = 10, tv = 0, pdata = usession_of as\<rparr>)\<rparr>"

lemma utbl_of_members: "members (utbl_of as) = {4120}"
  by (simp add: members_def utbl_of_def)

lemma utbl_of_ok: "utbl_ok (utbl_of as)" "ep_fresh (Some 100000) (ep (utbl_of as))"
proof -
  have ep: "ep_ok (ep (utbl_of as))" "ep_live (ep (utbl_of as)) = {4120}"
    using sample_pool_used_ok by (auto simp: ep_ok_def ep_live_def utbl_of_def)
  have "buckets_ok (utbl_of as)" unfolding buckets_ok_def utbl_of_members ep(2) using ep(1) by (simp add: utbl_of_def)
  moreover have "caches_ok (utbl_of as)" unfolding caches_ok_def utbl_of_members by (simp add: utbl_of_def)
  moreover have "keyed (utbl_of as)" by (simp add: keyed_def ptable_header_get_def utbl_of_def)
  ultimately show "utbl_ok (utbl_of as)" by (simp add: utbl_ok_def ptable_ok_def) (simp add: utbl_of_def)
  show "ep_fresh (Some 100000) (ep (utbl_of as))"
    by (simp add: ep_fresh_def utbl_of_def fresh_mem_def sample_pool_used_def blocks_apart_def)
qed

abbreviation sample_uas :: "(nat, nat) ch_udp_app_session" where
  "sample_uas \<equiv> \<lparr>as_app = sample_uapp, as_priv_data = 0\<rparr>"

abbreviation sample_usession :: "(nat, nat) ch_udp_session" where
  "sample_usession \<equiv> usession_of sample_uas"

abbreviation sample_utbl :: "(nat, nat, unit) udp_session_tbl" where
  "sample_utbl \<equiv> utbl_of sample_uas"

lemmas sample_usession_simps = usession_of_def ch_udp_session_init_def blank_usession_def sample_upkt_def Let_def

theorem ch_udp_session_create_find_witness:
  "\<exists>r tbl1. ch_udp_session_pool_entry_create sample_ops (Some 100000) 20 sample_utbl (sample_upkt True 1001 9)
      \<lparr>as_app = sample_uapp, as_priv_data = 0\<rparr> 6 = Inr (r, tbl1) \<and>
    (case r of None \<Rightarrow> True
     | Some e \<Rightarrow> members tbl1 = {e, 4120} \<and> (\<exists>tbl2. ch_udp_session_pool_entry_find 21 tbl1 (sample_upkt False 1001 4) = Inr (Some e, tbl2)))"
proof -
  let ?p = "sample_upkt True 1001 9"
  have none: "\<forall>a\<in>members sample_utbl. \<not> udp_session_entry_equal (pdata (heap sample_utbl a)) ?p ()"
    unfolding utbl_of_members by (simp add: utbl_of_def udp_key_defs sample_usession_simps)
  have p: "\<not> u_is_ipv6 ?p" and flow: "same_udp_flow ?p (sample_upkt False 1001 4)"
    by (simp_all add: same_udp_flow_def sample_upkt_def)
  show ?thesis
    using ch_udp_session_create_find [OF utbl_of_ok p none, of sample_ops 20 "\<lparr>as_app = sample_uapp, as_priv_data = 0\<rparr>" 6 21] flow
    by (fastforce simp: utbl_of_members split: option.splits)
qed

end
