(* ===== verification/Dns_App.thy ===== *)
theory Dns_App
  imports Dns_Output Udp_Session
begin

text \<open>
  The DNS application \<^verbatim>\<open>udp/app/dns/ch_dns_app.c\<close> with its sessions \<^verbatim>\<open>ch_dns_session.h\<close>, and what is written and
  stored of messages (\<^verbatim>\<open>ch_dns_header.h\<close>, \<^verbatim>\<open>ch_dns_request.c\<close>, \<^verbatim>\<open>ch_dns_rdata.h\<close>, \<^verbatim>\<open>ch_dns_response.c\<close>). A session is the
  request and the response that have been parsed; a function that may read outside its data returns a
  \<open>res\<close>. Shown here: a packet with an encoded request gives the session the name that rules match on, a session is parsed
  once and then done, and how many objects the store of a session has too many.
\<close>

section \<open>Writing and storing messages\<close>

definition ch_dns_header_store :: "ch_dns_header \<Rightarrow> store_op" where
  "ch_dns_header_store hdr = store_seq
     [s_map ''header'' 6, s_uint16 ''id'' (hdr_id hdr), s_uint16 ''flags'' (hdr_flags hdr), s_uint16 ''qc'' (hdr_qcount hdr),
      s_uint16 ''anc'' (hdr_ancount hdr), s_uint16 ''auc'' (hdr_aucount hdr), s_uint16 ''adc'' (hdr_adcount hdr)]"

definition ch_dns_header_write :: "ch_dns_header \<Rightarrow> dout_op" where
  "ch_dns_header_write hdr mal dout = dout_seq mal
     [w_uint16 (hdr_id hdr), w_uint16 (hdr_flags hdr), w_uint16 (hdr_qcount hdr), w_uint16 (hdr_ancount hdr),
      w_uint16 (hdr_aucount hdr), w_uint16 (hdr_adcount hdr)] 0 dout"

definition ch_dns_question_store :: "ch_dns_question \<Rightarrow> store_op" where
  "ch_dns_question_store q = store_seq
     [s_map ''question'' 3, ch_dns_name_store (qname q), s_uint16 ''qtype'' (qtype q), s_uint16 ''qclass'' (qclass q)]"

definition ch_dns_question_write :: "ch_dns_question \<Rightarrow> dout_op" where
  "ch_dns_question_write q mal dout = dout_seq mal [w_name (qname q), w_uint16 (qtype q), w_uint16 (qclass q)] 0 dout"

text \<open>The counts of \<^verbatim>\<open>_dns_questions_count\<close>, \<^verbatim>\<open>_qlist_count\<close> and \<^verbatim>\<open>_rdata_list_count\<close> have 16 bits.\<close>

definition list_count :: "'x list \<Rightarrow> u16" where
  "list_count xs = fold (\<lambda>_ c. c + 1) xs 0"

definition ch_dns_request_store :: "ch_dns_request \<Rightarrow> store_op" where
  "ch_dns_request_store req = store_seq
     ([s_map ''req'' 2, ch_dns_header_store (req_hdr req), s_array ''questions'' (unat (list_count (questions req)))] @
      map ch_dns_question_store (questions req))"

definition ch_dns_request_write :: "ch_dns_request \<Rightarrow> dout_op" where
  "ch_dns_request_write req mal dout = dout_seq mal (ch_dns_header_write (req_hdr req) # map ch_dns_question_write (questions req)) 0 dout"

text \<open>The raw data of a record of an unknown type.\<close>

definition rd_raw :: "ch_dns_rdata \<Rightarrow> bytes option" where
  "rd_raw rd = (case rd_data rd of RD_NULL \<Rightarrow> None | RD_packet off \<Rightarrow> Some (drop off (rd_base rd)) | RD_copy b \<Rightarrow> Some b)"

definition ch_dns_rdata_store :: "dns_rr \<Rightarrow> store_op" where
  "ch_dns_rdata_store r = store_seq
     [s_map ''rdata'' 6, ch_dns_name_store (rd_name_of (rr r)), s_uint16 ''type'' (rd_type (rr r)), s_uint16 ''dclass'' (rd_dclass (rr r)),
      s_uint32 ''ttl'' (rd_ttl (rr r)), s_uint8 ''parsed'' (if rdata_store (rr_body r) = None then 0 else 1),
      (case rdata_store (rr_body r) of Some f \<Rightarrow> f | None \<Rightarrow> s_bin ''rdataRaw'' (rd_raw (rr r)) (unat (rd_dlen (rr r))))]"

definition ch_dns_rdata_write :: "dns_rr \<Rightarrow> dout_op" where
  "ch_dns_rdata_write r mal dout = dout_seq mal
     ([w_name (rd_name_of (rr r)), w_uint16 (rd_type (rr r)), w_uint16 (rd_dclass (rr r)), w_uint32 (rd_ttl (rr r))] @
      (case rdata_write (rr_body r) of
         Some f \<Rightarrow> [w_uint8 1, f]
       | None \<Rightarrow> [w_uint8 0, w_string16 (rd_raw (rr r)) (rd_dlen (rr r))])) 0 dout"

definition rdata_list_store :: "string \<Rightarrow> dns_rr list \<Rightarrow> store_op" where
  "rdata_list_store name rs = store_seq
     ([s_map name 1, s_array ''rdatas'' (unat (list_count rs))] @ map ch_dns_rdata_store rs)"

definition rdata_list_write :: "dns_rr list \<Rightarrow> dout_op" where
  "rdata_list_write rs mal dout = dout_seq mal (map ch_dns_rdata_write rs) 0 dout"

definition ch_dns_response_store :: "ch_dns_response \<Rightarrow> store_op" where
  "ch_dns_response_store res = store_seq
     ([s_map ''res'' 5, ch_dns_header_store (res_hdr res), s_array ''questions'' (unat (list_count (qlist res)))] @
      map ch_dns_question_store (qlist res) @
      [rdata_list_store ''alist'' (alist res), rdata_list_store ''aulist'' (aulist res), rdata_list_store ''adlist'' (adlist res)])"

definition ch_dns_response_write :: "ch_dns_response \<Rightarrow> dout_op" where
  "ch_dns_response_write res mal dout = dout_seq mal
     (ch_dns_header_write (res_hdr res) # map ch_dns_question_write (qlist res) @
      [rdata_list_write (alist res), rdata_list_write (aulist res), rdata_list_write (adlist res)]) 0 dout"

section \<open>Sessions\<close>

record ch_dns_session =
  dns_req :: "ch_dns_request option"
  dns_res :: "ch_dns_response option"

definition ch_dns_session_create :: ch_dns_session where
  "ch_dns_session_create = \<lparr>dns_req = None, dns_res = None\<rparr>"

definition ch_dns_session_write :: "ch_dns_session \<Rightarrow> dout_op" where
  "ch_dns_session_write ds mal dout =
     (if dns_req ds = None \<and> dns_res ds = None then Inr (0, dout)
      else dout_seq mal
        ([w_uint8 (if dns_req ds \<noteq> None then 1 else 0), w_uint8 (if dns_res ds \<noteq> None then 1 else 0)] @
         (case dns_req ds of Some req \<Rightarrow> [ch_dns_request_write req] | None \<Rightarrow> []) @
         (case dns_res ds of Some res \<Rightarrow> [ch_dns_response_write res] | None \<Rightarrow> [])) 0 dout)"

definition ch_dns_session_store :: "ch_dns_session \<Rightarrow> ch_msgpack_store \<Rightarrow> (int \<times> ch_msgpack_store) res" where
  "ch_dns_session_store ds d =
     (if dns_req ds = None \<and> dns_res ds = None then Inr (-1, d)
      else
        let n = (if dns_req ds \<noteq> None \<and> dns_res ds \<noteq> None then 4 else 3)
        in bind_res (store_seq
             ([s_map ''dns'' n, s_uint8 ''hasReq'' (if dns_req ds \<noteq> None then 1 else 0), s_uint8 ''hasRes'' (if dns_res ds \<noteq> None then 1 else 0)] @
              (case dns_req ds of Some req \<Rightarrow> [ch_dns_request_store req] | None \<Rightarrow> []) @
              (case dns_res ds of Some res \<Rightarrow> [ch_dns_response_store res] | None \<Rightarrow> [])) d) (\<lambda>d. Inr (0, d)))"

definition ch_dns_session_domain_get :: "ch_dns_session \<Rightarrow> bytes option" where
  "ch_dns_session_domain_get ds = (case dns_req ds of None \<Rightarrow> None | Some req \<Rightarrow> ch_dns_request_name_get req)"

text \<open>
  The number of A records and the addresses the function is called with. A record of type A that no parser made is
  not as long as \<^verbatim>\<open>ch_dns_rdata_ipv4_t\<close>: the read of \<^verbatim>\<open>address\<close> goes behind it.
\<close>

fun ipv4s_walk_loop :: "dns_rr list \<Rightarrow> int \<Rightarrow> u32 list \<Rightarrow> (int \<times> u32 list) res" where
  "ipv4s_walk_loop [] n as = Inr (n, as)"
| "ipv4s_walk_loop (r # rs) n as =
     (if rd_type (rr r) = dns_rdatatype_a then
        (case rr_body r of RB_ipv4 b \<Rightarrow> ipv4s_walk_loop rs (n + 1) (as @ [ipv4_address b]) | _ \<Rightarrow> Inl Out_Of_Bounds)
      else ipv4s_walk_loop rs n as)"

definition ch_dns_session_ipv4s_walk :: "ch_dns_session \<Rightarrow> (int \<times> u32 list) res" where
  "ch_dns_session_ipv4s_walk ds = (case dns_res ds of None \<Rightarrow> Inr (0, []) | Some res \<Rightarrow> ipv4s_walk_loop (alist res) 0 [])"

section \<open>The application\<close>

definition DNS_PORT_IS_MATCH :: "udp_pkt \<Rightarrow> bool" where
  "DNS_PORT_IS_MATCH p \<longleftrightarrow> u_dst_port p = 53"

text \<open>\<open>pool\<close> says whether the memory pool of the session can be had.\<close>

definition dns_app_session_create :: "bool \<Rightarrow> udp_pkt \<Rightarrow> ch_dns_session option" where
  "dns_app_session_create pool p =
     (if \<not> DNS_PORT_IS_MATCH p then None else if pool then Some ch_dns_session_create else None)"

definition dns_is_request :: "ch_dns_session \<Rightarrow> udp_pkt \<Rightarrow> bool" where
  "dns_is_request ds p \<longleftrightarrow> DNS_PORT_IS_MATCH p"

text \<open>
  The payload as the input of a parser. A packet whose data end before \<^verbatim>\<open>payload_len\<close> is an error here,
  however much of it the parser would read.
\<close>

definition payload_input :: "bytes \<Rightarrow> udp_pkt \<Rightarrow> ch_dns_data_input res" where
  "payload_input b p =
     (if unat (u_payload_len p) \<le> length b then Inr (ch_dns_data_input_init b 0 (unat (u_payload_len p))) else Inl Out_Of_Bounds)"

definition dns_req_pkt_process :: "ch_dns_session \<Rightarrow> udp_pkt \<Rightarrow> (int \<times> ch_dns_session) res" where
  "dns_req_pkt_process ds p =
     (if dns_req ds \<noteq> None then Inr (PROCESS_CONTINUE, ds)
      else
        case up_data p of
          None \<Rightarrow> Inr (PROCESS_CONTINUE, ds)
        | Some b \<Rightarrow>
            if u_payload_len p = 0 then Inr (PROCESS_CONTINUE, ds)
            else if u_payload_len p > 512 then Inr (PROCESS_ERR, ds)
            else bind_res (payload_input b p) (\<lambda>din. bind_res (ch_dns_request_parse din) (\<lambda>r.
              case r of
                None \<Rightarrow> Inr (PROCESS_ERR, ds\<lparr>dns_req := None\<rparr>)
              | Some (req, _) \<Rightarrow> Inr (PROCESS_CONTINUE, ds\<lparr>dns_req := Some req\<rparr>))))"

definition dns_res_pkt_process :: "ch_dns_rdata_pool \<Rightarrow> ch_dns_session \<Rightarrow> udp_pkt \<Rightarrow> (int \<times> ch_dns_session) res" where
  "dns_res_pkt_process pool ds p =
     (if dns_res ds \<noteq> None then Inr (PROCESS_DONE, ds)
      else
        case up_data p of
          None \<Rightarrow> Inr (PROCESS_CONTINUE, ds)
        | Some b \<Rightarrow>
            if u_payload_len p = 0 then Inr (PROCESS_CONTINUE, ds)
            else if u_payload_len p > 512 then Inr (PROCESS_ERR, ds)
            else bind_res (payload_input b p) (\<lambda>din. bind_res (ch_dns_response_parse pool din) (\<lambda>r.
              case r of
                None \<Rightarrow> Inr (PROCESS_ERR, ds\<lparr>dns_res := None\<rparr>)
              | Some (res, _) \<Rightarrow> Inr (PROCESS_DONE, ds\<lparr>dns_res := Some res\<rparr>))))"

definition dns_session_write :: "ch_dns_session option \<Rightarrow> dout_op" where
  "dns_session_write s mal dout = (case s of None \<Rightarrow> Inr (0, dout) | Some ds \<Rightarrow> ch_dns_session_write ds mal dout)"

definition dns_session_store :: "ch_dns_session option \<Rightarrow> ch_msgpack_store \<Rightarrow> (int \<times> ch_msgpack_store) res" where
  "dns_session_store s d =
     (case s of
        None \<Rightarrow> Inr (-1, d)
      | Some ds \<Rightarrow>
          if dns_req ds = None \<and> dns_res ds = None then Inr (-1, d)
          else bind_res (ch_dns_session_store ds d) (\<lambda>(_, d). Inr (0, d)))"

definition dns_session_isMyProto :: "ch_dns_session \<Rightarrow> int \<Rightarrow> bool" where
  "dns_session_isMyProto ds proto \<longleftrightarrow> proto = PROTO_DNS"

text \<open>\<open>mem\<close> as for \<open>ch_rule_to_hex\<close>; the result is what is read at the pointer as a C string.\<close>

definition dns_session_target_get :: "(nat \<Rightarrow> bytes) option \<Rightarrow> ch_dns_session option \<Rightarrow> ch_rule_target \<Rightarrow> bool \<Rightarrow> c_string res" where
  "dns_session_target_get mem s rtarget is_hex =
     (case s of
        None \<Rightarrow> Inr None
      | Some ds \<Rightarrow>
          (case if rt_target rtarget = TARGET_DNS_DOMAIN then ch_dns_session_domain_get ds else None of
             None \<Rightarrow> Inr None
           | Some b \<Rightarrow>
               if is_hex then
                 let len = length (takeWhile (\<lambda>x. x \<noteq> 0) b)
                 in if len = 0 then Inr None
                    else bind_res (ch_rule_to_hex mem b (of_nat len)) (\<lambda>h. Inr (map_option c_string_of h))
               else Inr (Some (c_string_of b))))"

text \<open>
  The application as the UDP handlers call it: \<^verbatim>\<open>dns_app\<close>. It has no requests: its sessions are made with their first packet. \<open>mp\<close> says
  whether a memory pool can be had; that \<^verbatim>\<open>_dns_session_fin\<close> gives it back is not seen here.
\<close>

definition PKT_RECORD_TYPE_UDP_DNS :: u8 where "PKT_RECORD_TYPE_UDP_DNS = 6"

definition dns_app :: "bool \<Rightarrow> ch_dns_rdata_pool \<Rightarrow> (nat \<Rightarrow> bytes) option \<Rightarrow> (ch_dns_session, unit) ch_udp_app" where
  "dns_app mp rdata_pool mem = \<lparr>ua_type = PKT_RECORD_TYPE_UDP_DNS, ua_session_create = (\<lambda>p w. Inr (dns_app_session_create mp p, w)),
     process_request_session = None, request_session_equal = (\<lambda>_ _. False), ua_is_request = dns_is_request,
     req_pkt_process = (\<lambda>ds p w. bind_res (dns_req_pkt_process ds p) (\<lambda>(rc, ds). Inr (rc, ds, w))),
     res_pkt_process = (\<lambda>ds p w. bind_res (dns_res_pkt_process rdata_pool ds p) (\<lambda>(rc, ds). Inr (rc, ds, w))),
     ua_session_write = (\<lambda>ds. dns_session_write (Some ds)), ua_session_store = (\<lambda>ds. dns_session_store (Some ds)),
     ua_session_isMyProto = Some dns_session_isMyProto, ua_session_target_get = Some (\<lambda>ds. dns_session_target_get mem (Some ds)),
     ua_session_fin = Some (\<lambda>ds w. w)\<rparr>"

section \<open>What is stored\<close>

text \<open>
  Where the store starts an array of \<open>n\<close> elements, the elements come with a key each, so \<open>n\<close> objects more follow than the
  array holds.
\<close>

lemma list_count_length: "length xs < 2 ^ 16 \<Longrightarrow> unat (list_count xs) = length xs"
proof -
  have "fold (\<lambda>_ c. c + 1) xs c = c + (of_nat (length xs) :: u16)" for c by (induction xs arbitrary: c) (simp_all add: add.assoc)
  then have "list_count xs = of_nat (length xs)" by (simp add: list_count_def)
  then show "length xs < 2 ^ 16 \<Longrightarrow> unat (list_count xs) = length xs" by (simp add: unsigned_of_nat take_bit_eq_mod)
qed

lemma pushes_append:
  assumes "pushes (store_seq fs) a b" "pushes (store_seq gs) b c"
  shows "pushes (store_seq (fs @ gs)) a c"
  unfolding pushes_def
proof (intro allI impI)
  fix d d'
  have app: "store_seq (fs @ gs) d = bind_res (store_seq fs d) (store_seq gs)" for d
    by (induction fs arbitrary: d) (simp_all add: bind_res_def split: sum.splits)
  assume "store_seq (fs @ gs) d = Inr d'"
  then obtain e where e: "store_seq fs d = Inr e" "store_seq gs e = Inr d'" by (auto simp: app bind_res_eq_Inr)
  from pushesD [OF assms(1) e(1)] obtain ts where "e = d @ ts" "\<forall>us. mp_skip a (ts @ us) = mp_skip b us" by blast
  moreover from pushesD [OF assms(2) e(2)] obtain ts' where "d' = e @ ts'" "\<forall>us. mp_skip b (ts' @ us) = mp_skip c us" by blast
  ultimately show "\<exists>ts. d' = d @ ts \<and> (\<forall>us. mp_skip a (ts @ us) = mp_skip c us)" by (intro exI [of _ "ts @ ts'"]) simp
qed

lemma pushes_keyed:
  assumes "\<forall>x\<in>set xs. entry (f x)"
  shows "pushes (store_seq (map f xs)) (m + 2 * length xs) m"
  using assms
proof (induction xs arbitrary: m)
  case (Cons x xs)
  then have "pushes (store_seq (map f xs)) (m + 2 * length xs) m" by simp
  then show ?case using Cons.prems by (simp del: store_seq.simps add: pushes_entry)
qed (simp add: pushes_nil del: store_seq.simps)

lemma pushes_map_start: "k \<noteq> [] \<Longrightarrow> pushes (s_map k n) (m + 2) (m + 2 * n)"
  by (auto simp: pushes_def s_map_def mp_write_defs add.commute)

lemma pushes_array_start: "k \<noteq> [] \<Longrightarrow> pushes (s_array k n) (m + 2) (m + n)"
  by (auto simp: pushes_def s_array_def mp_write_defs add.commute)

lemma pushes_keyed_array:
  assumes "\<forall>x\<in>set xs. entry (f x)" "length xs < 2 ^ 16" "k \<noteq> []"
  shows "pushes (store_seq (s_array k (unat (list_count xs)) # map f xs)) (m + length xs + 2) m"
proof (rule pushes_seq)
  show "pushes (s_array k (unat (list_count xs))) (m + length xs + 2) (m + length xs + length xs)"
    using pushes_array_start [OF assms(3), of "length xs" "m + length xs"] assms(2) by (simp add: list_count_length)
  show "pushes (store_seq (map f xs)) (m + length xs + length xs) m"
    using pushes_keyed [OF assms(1), of m] by (simp add: mult_2 add.assoc)
qed

lemma entry_header [simp]: "entry (ch_dns_header_store h)"
  unfolding ch_dns_header_store_def by (rule entry_map; simp add: pushes_entry pushes_nil)

lemma entry_question [simp]: "entry (ch_dns_question_store q)"
  unfolding ch_dns_question_store_def by (rule entry_map; simp add: pushes_entry pushes_nil)

lemma entry_rdata: "counts_ok (rr_body r) \<Longrightarrow> entry (ch_dns_rdata_store r)"
  unfolding ch_dns_rdata_store_def
  by (rule entry_map; simp add: pushes_entry pushes_nil split: option.splits) (auto intro!: pushes_entry pushes_nil dest: rdata_store_entry)

definition rrs_ok :: "dns_rr list \<Rightarrow> bool" where
  "rrs_ok rs \<longleftrightarrow> length rs < 2 ^ 16 \<and> (\<forall>r\<in>set rs. counts_ok (rr_body r))"

lemma pushes_request:
  assumes "length (questions req) < 2 ^ 16"
  shows "pushes (ch_dns_request_store req) (m + length (questions req) + 2) m"
proof -
  let ?n = "length (questions req)"
  have "pushes (store_seq (ch_dns_header_store (req_hdr req) # s_array ''questions'' (unat (list_count (questions req))) #
      map ch_dns_question_store (questions req))) (m + ?n + 4) m"
    using pushes_keyed_array [of "questions req" ch_dns_question_store "''questions''" m] assms by (intro pushes_entry [OF entry_header]) simp_all
  from pushes_seq [OF _ this] pushes_map_start [of "''req''" 2 "m + ?n"] show ?thesis
    by (simp add: ch_dns_request_store_def del: store_seq.simps)
qed

lemma pushes_rdata_list:
  assumes "rrs_ok rs" "k \<noteq> []"
  shows "pushes (rdata_list_store k rs) (m + length rs + 2) m"
  using pushes_seq [OF pushes_map_start [OF assms(2), of 1 "m + length rs"]] pushes_keyed_array [of rs ch_dns_rdata_store "''rdatas''" m] assms(1)
  by (simp add: rdata_list_store_def rrs_ok_def entry_rdata del: store_seq.simps)

definition response_ok :: "ch_dns_response \<Rightarrow> bool" where
  "response_ok res \<longleftrightarrow> length (qlist res) < 2 ^ 16 \<and> rrs_ok (alist res) \<and> rrs_ok (aulist res) \<and> rrs_ok (adlist res)"

definition response_items :: "ch_dns_response \<Rightarrow> nat" where
  "response_items res = length (qlist res) + length (alist res) + length (aulist res) + length (adlist res)"

lemma pushes_response:
  assumes "response_ok res"
  shows "pushes (ch_dns_response_store res) (m + response_items res + 2) m"
proof -
  let ?a = "length (alist res)" and ?u = "length (aulist res)" and ?d = "length (adlist res)" and ?q = "length (qlist res)"
  let ?ls = "[rdata_list_store ''alist'' (alist res), rdata_list_store ''aulist'' (aulist res), rdata_list_store ''adlist'' (adlist res)]"
  have ok: "rrs_ok (alist res)" "rrs_ok (aulist res)" "rrs_ok (adlist res)" "length (qlist res) < 2 ^ 16" using assms by (simp_all add: response_ok_def)
  have "pushes (store_seq ?ls) (m + ?d + 2 + ?u + 2 + ?a + 2) m"
    by (intro pushes_seq [OF pushes_rdata_list] pushes_nil ok) simp_all
  from pushes_append [OF pushes_keyed_array [of "qlist res" ch_dns_question_store "''questions''"] this] ok(4)
  have "pushes (store_seq ((s_array ''questions'' (unat (list_count (qlist res))) # map ch_dns_question_store (qlist res)) @ ?ls))
    (m + ?d + 2 + ?u + 2 + ?a + 2 + ?q + 2) m" by simp
  moreover have "m + ?d + 2 + ?u + 2 + ?a + 2 + ?q + 2 = m + response_items res + 2 * 5 - 2" by (simp add: response_items_def)
  ultimately have "pushes (store_seq (ch_dns_header_store (res_hdr res) #
    (s_array ''questions'' (unat (list_count (qlist res))) # map ch_dns_question_store (qlist res)) @ ?ls)) (m + response_items res + 2 * 5) m"
    by (intro pushes_entry [OF entry_header]) (simp, metis)
  from pushes_seq [OF _ this] pushes_map_start [of "''res''" 5 "m + response_items res"] show ?thesis
    by (simp add: ch_dns_response_store_def del: store_seq.simps)
qed

definition session_items :: "ch_dns_session \<Rightarrow> nat" where
  "session_items ds = (case dns_req ds of None \<Rightarrow> 0 | Some req \<Rightarrow> length (questions req)) + (case dns_res ds of None \<Rightarrow> 0 | Some res \<Rightarrow> response_items res)"

definition session_ok :: "ch_dns_session \<Rightarrow> bool" where
  "session_ok ds \<longleftrightarrow> (\<forall>req. dns_req ds = Some req \<longrightarrow> length (questions req) < 2 ^ 16) \<and> (\<forall>res. dns_res ds = Some res \<longrightarrow> response_ok res)"

lemma pushes_none: "pushes (store_seq (case x of None \<Rightarrow> [] | Some y \<Rightarrow> [f y])) (a + m) m"
  if "x = None \<Longrightarrow> a = 0" "\<And>y. x = Some y \<Longrightarrow> pushes (f y) (a + m) m"
  using that by (cases x) (auto simp del: store_seq.simps intro: pushes_seq pushes_nil)

lemma pushes_session:
  assumes "session_ok ds" "dns_req ds \<noteq> None \<or> dns_res ds \<noteq> None" "ch_dns_session_store ds d = Inr (rc, d')"
  shows "rc = 0 \<and> (\<exists>ts. d' = d @ ts \<and> mp_objects (session_items ds + 2) ts)"
proof -
  let ?n = "if dns_req ds \<noteq> None \<and> dns_res ds \<noteq> None then 4 else 3 :: nat"
  let ?q = "case dns_req ds of Some req \<Rightarrow> [ch_dns_request_store req] | None \<Rightarrow> []"
  let ?r = "case dns_res ds of Some res \<Rightarrow> [ch_dns_response_store res] | None \<Rightarrow> []"
  let ?b = "case dns_res ds of None \<Rightarrow> 0 | Some res \<Rightarrow> response_items res + 2"
  let ?a = "case dns_req ds of None \<Rightarrow> 0 | Some req \<Rightarrow> length (questions req) + 2"
  have "pushes (store_seq ?r) (?b + 0) 0"
    using assms(1) pushes_response [where m = 0] by (intro pushes_none) (auto simp: session_ok_def add.commute)
  moreover have "pushes (store_seq ?q) (?a + ?b) ?b"
    using assms(1) pushes_request [where m = ?b] by (intro pushes_none) (auto simp: session_ok_def add.commute add.left_commute)
  ultimately have "pushes (store_seq (?q @ ?r)) (?a + ?b) 0" by (intro pushes_append) simp_all
  then have "pushes (store_seq (s_uint8 ''hasReq'' x # s_uint8 ''hasRes'' y # ?q @ ?r)) (?a + ?b + 4) 0" for x y
    by (intro pushes_entry) simp_all
  moreover have "?a + ?b + 4 = session_items ds + 2 * ?n" using assms(2) by (auto simp: session_items_def split: option.splits)
  ultimately have p: "pushes (store_seq (s_map ''dns'' ?n # s_uint8 ''hasReq'' x # s_uint8 ''hasRes'' y # ?q @ ?r)) (session_items ds + 2) 0" for x y
    using pushes_seq [OF pushes_map_start [of "''dns''" ?n "session_items ds"]] by simp
  from assms(2,3) obtain x y where "store_seq (s_map ''dns'' ?n # s_uint8 ''hasReq'' x # s_uint8 ''hasRes'' y # ?q @ ?r) d = Inr d'" "rc = 0"
    unfolding ch_dns_session_store_def Let_def append.simps by (auto simp: bind_res_eq_Inr simp del: store_seq.simps split: if_splits)
  then show ?thesis using pushes_objects [OF p] by blast
qed

section \<open>Parsed messages\<close>

lemma parse_items_all:
  assumes "parse_items parse n xs d = Inr (Some (ys, d'))" "\<forall>x\<in>set xs. P x" "\<forall>x d d'. parse d = Inr (Some (x, d')) \<longrightarrow> P x"
  shows "length ys \<le> length xs + n \<and> (\<forall>y\<in>set ys. P y)"
  using assms(1,2)
proof (induction n arbitrary: xs d)
  case (Suc n)
  show ?case
  proof (cases "ch_dns_data_input_empty d")
    case False
    with Suc.prems(1) obtain x e where x: "parse d = Inr (Some (x, e))" "parse_items parse n (xs @ [x]) e = Inr (Some (ys, d'))"
      by (auto simp: bind_res_eq_Inr split: option.splits)
    with Suc.IH [OF x(2)] Suc.prems(2) assms(3) show ?thesis by fastforce
  qed (use Suc.prems in auto)
qed auto

lemma rdata_parse_body:
  assumes "ch_dns_rdata_parse pool d = Inr (Some (r, d'))"
  shows "case ch_dns_rdata_parser_find pool (rd_dclass (rr r)) (rd_type (rr r)) of
      None \<Rightarrow> rr_body r = RB_none
    | Some p \<Rightarrow> rr_body r = pr_create p \<and> rd_dlen (rr r) = 0 \<or> (\<exists>rc. pr_parse p (rr r) = Inr (rc, rr_body r))"
proof -
  from assms obtain n d1 where 1: "ch_dns_name_parse d = Inr (Some (n, d1))"
    by (auto simp: ch_dns_rdata_parse_def bind_res_eq_Inr split: if_splits option.splits)
  obtain t d2 where 2: "ch_dns_data_input_uint16_read d1 = (t, d2)" by fastforce
  obtain c d3 where 3: "ch_dns_data_input_uint16_read d2 = (c, d3)" by fastforce
  obtain ttl d4 where 4: "ch_dns_data_input_uint32_read d3 = (ttl, d4)" by fastforce
  obtain l d5 where 5: "ch_dns_data_input_uint16_read d4 = (l, d5)" by fastforce
  show ?thesis
    using assms by (cases "ch_dns_rdata_parser_find pool c t")
      (auto simp: ch_dns_rdata_parse_def 1 2 3 4 5 bind_res_eq_Inr Let_def word_neq_0_conv [symmetric] split: if_splits)
qed

lemma parser_find_in: "ch_dns_rdata_parser_find pool c t = Some p \<Longrightarrow> p \<in> set pool"
  by (auto simp: ch_dns_rdata_parser_find_def dest!: find_Some_iff [THEN iffD1] nth_mem)

lemma rdata_parse_counts:
  assumes "set pool \<subseteq> set ch_dns_rdata_pool_create" "ch_dns_rdata_parse pool d = Inr (Some (r, d'))"
  shows "counts_ok (rr_body r)"
proof (cases "ch_dns_rdata_parser_find pool (rd_dclass (rr r)) (rd_type (rr r))")
  case (Some p)
  with assms(1) have "parser_counts p" using parser_find_in pool_counts by blast
  with rdata_parse_body [OF assms(2)] Some show ?thesis by (auto simp: parser_counts_def)
qed (use rdata_parse_body [OF assms(2)] in simp)

lemma questions_count:
  assumes "parse_items ch_dns_question_parse (unat (n :: u16)) [] e = Inr (Some (q, e'))"
  shows "length q < 65536"
  using parse_items_all [OF assms, of "\<lambda>_. True"] le_less_trans [OF _ unat_lt16 [of n]] by simp

lemma response_parse_ok:
  assumes "set pool \<subseteq> set ch_dns_rdata_pool_create" "ch_dns_response_parse pool d = Inr (Some (res, d'))"
  shows "response_ok res"
proof -
  have all: "\<forall>r d d'. ch_dns_rdata_parse pool d = Inr (Some (r, d')) \<longrightarrow> counts_ok (rr_body r)" using rdata_parse_counts [OF assms(1)] by blast
  have rrs: "rrs_ok rs" if "dns_rr_parse pool n e = Inr (Some (rs, e'))" for n e rs e'
    using parse_items_all [OF that [unfolded dns_rr_parse_def] _ all] le_less_trans [OF _ unat_lt16 [of n]] by (simp add: rrs_ok_def)
  show ?thesis
    using assms(2) by (auto simp: ch_dns_response_parse_def bind_res_eq_Inr response_ok_def split: option.splits)
      (auto dest: rrs questions_count)
qed

lemma request_parse_ok: "ch_dns_request_parse d = Inr (Some (req, d')) \<Longrightarrow> length (questions req) < 2 ^ 16"
  by (auto simp: ch_dns_request_parse_def bind_res_eq_Inr split: option.splits)
    (auto dest: questions_count)

text \<open>The sessions of the application: created, then given packets in any order.\<close>

inductive dns_session :: "ch_dns_rdata_pool \<Rightarrow> ch_dns_session \<Rightarrow> bool" for pool where
  created: "dns_app_session_create True p = Some ds \<Longrightarrow> dns_session pool ds"
| request: "dns_session pool ds \<Longrightarrow> dns_req_pkt_process ds p = Inr (rc, ds') \<Longrightarrow> dns_session pool ds'"
| response: "dns_session pool ds \<Longrightarrow> dns_res_pkt_process pool ds p = Inr (rc, ds') \<Longrightarrow> dns_session pool ds'"

lemma req_process_cases:
  assumes "dns_req_pkt_process ds p = Inr (rc, ds')"
  obtains "ds' = ds" | "dns_req ds' = None" "dns_res ds' = dns_res ds"
  | req d d' where "ch_dns_request_parse d = Inr (Some (req, d'))" "ds' = ds\<lparr>dns_req := Some req\<rparr>"
  using assms by (auto simp: dns_req_pkt_process_def bind_res_eq_Inr split: if_splits option.split_asm)

lemma res_process_cases:
  assumes "dns_res_pkt_process pool ds p = Inr (rc, ds')"
  obtains "ds' = ds" | "dns_res ds' = None" "dns_req ds' = dns_req ds"
  | res d d' where "ch_dns_response_parse pool d = Inr (Some (res, d'))" "ds' = ds\<lparr>dns_res := Some res\<rparr>"
  using assms by (auto simp: dns_res_pkt_process_def bind_res_eq_Inr split: if_splits option.split_asm)

lemma process_ok:
  "session_ok ds \<Longrightarrow> dns_req_pkt_process ds p = Inr (rc, ds') \<Longrightarrow> session_ok ds'"
  "set pool \<subseteq> set ch_dns_rdata_pool_create \<Longrightarrow> session_ok ds \<Longrightarrow> dns_res_pkt_process pool ds p = Inr (rc, ds') \<Longrightarrow> session_ok ds'"
  by (auto elim!: req_process_cases res_process_cases simp: session_ok_def dest: request_parse_ok response_parse_ok)

lemma dns_session_ok: "dns_session pool ds \<Longrightarrow> set pool \<subseteq> set ch_dns_rdata_pool_create \<Longrightarrow> session_ok ds"
proof (induction rule: dns_session.induct)
  case (created p ds)
  then show ?case by (auto simp: dns_app_session_create_def ch_dns_session_create_def session_ok_def split: if_splits)
qed (auto intro: process_ok)

text \<open>
  C37. The store of a DNS session is not one object. Of every session that packets can make, the function packs the key and the
  value of the session and behind them one object more for every question and every record of it: the arrays announce
  their elements, and every element is packed with a key. So the packed bytes are well-formed exactly if
  there is no question and no record at all.
\<close>

theorem dns_session_store_surplus:
  assumes "set pool \<subseteq> set ch_dns_rdata_pool_create" "dns_session pool ds" "dns_session_store (Some ds) d = Inr (0, d')"
  shows "\<exists>ts. d' = d @ ts \<and> mp_objects (session_items ds + 2) ts \<and> (mp_objects 2 ts \<longleftrightarrow> session_items ds = 0)"
proof -
  have ds: "dns_req ds \<noteq> None \<or> dns_res ds \<noteq> None" "ch_dns_session_store ds d = Inr (0, d')"
    using assms(3) by (auto simp: dns_session_store_def ch_dns_session_store_def Let_def bind_res_eq_Inr split: if_splits)
  from pushes_session [OF dns_session_ok [OF assms(2,1)] ds] obtain ts where ts: "d' = d @ ts" "mp_objects (session_items ds + 2) ts" by blast
  have "session_items ds = 0" if "mp_objects 2 ts"
    using that ts(2) mp_skip_append [of 2 ts "session_items ds" "[]"] by (cases "session_items ds") (simp_all add: mp_objects_def)
  then show ?thesis using ts by (intro exI [of _ ts]) (auto simp: numeral_2_eq_2)
qed

text \<open>A request for the name \<^verbatim>\<open>a\<close>.\<close>

definition sample_dns_pkt :: udp_pkt where
  "sample_dns_pkt = \<lparr>u_is_ipv6 = False, u_src_ip = 1, u_dst_ip = 2, u_src_addr = [], u_dst_addr = [], u_src_port = 1000, u_dst_port = 53,
     u_ip_dlen = 19, u_tth_len = 8, u_payload_len = 19, u_pdata_off = Some 0,
     up_data = Some [0, 7, 1, 0, 0, 1, 0, 0, 0, 0, 0, 0, 1, 97, 0, 0, 1, 0, 1], up_timestamp = 0\<rparr>"

definition sample_dns_session :: ch_dns_session where
  "sample_dns_session = \<lparr>dns_req = Some \<lparr>req_hdr = \<lparr>hdr_id = 7, hdr_flags = 0x100, hdr_qcount = 1, hdr_ancount = 0, hdr_aucount = 0, hdr_adcount = 0\<rparr>,
     questions = [\<lparr>qname = \<lparr>ndata = Some [97, 0], name_length = 1, name_labels = 1\<rparr>, qtype = 1, qclass = 1\<rparr>]\<rparr>, dns_res = None\<rparr>"

lemma sample_dns_session_reached: "dns_session pool sample_dns_session"
proof (rule dns_session.request [OF dns_session.created])
  show "dns_app_session_create True sample_dns_pkt = Some ch_dns_session_create" by (simp add: dns_app_session_create_def DNS_PORT_IS_MATCH_def sample_dns_pkt_def)
  show "dns_req_pkt_process ch_dns_session_create sample_dns_pkt = Inr (PROCESS_CONTINUE, sample_dns_session)" by code_simp
qed

theorem dns_session_store_surplus_witness:
  "\<exists>d'. dns_session_store (Some sample_dns_session) [] = Inr (0, d') \<and> session_items sample_dns_session = 1 \<and>
     (\<exists>ts. d' = [] @ ts \<and> mp_objects 3 ts \<and> \<not> mp_objects 2 ts)"
proof -
  have "case dns_session_store (Some sample_dns_session) [] of Inl _ \<Rightarrow> False | Inr (rc, _) \<Rightarrow> rc = 0" by code_simp
  then obtain d' where d: "dns_session_store (Some sample_dns_session) [] = Inr (0, d')" by (auto split: sum.splits)
  have n: "session_items sample_dns_session = 1" by (simp add: session_items_def sample_dns_session_def)
  from dns_session_store_surplus [OF _ sample_dns_session_reached d, of "[]"] d n show ?thesis by (auto simp: eval_nat_numeral)
qed

section \<open>From the packet to the rules\<close>

definition named :: "question_spec \<Rightarrow> bool" where
  "named q \<longleftrightarrow> fst q \<noteq> [] \<and> hd (hd (fst q)) \<noteq> 0"

lemma name_text: "takeWhile (\<lambda>b. b \<noteq> 0) (the (ndata (name_of_labels ls))) = takeWhile (\<lambda>b. b \<noteq> 0) (dotted True ls)"
  by (subst takeWhile_idem [symmetric]) (simp add: name_of_labels_def takeWhile_tail)

lemma named_text:
  assumes "question_ok q"
  shows "takeWhile (\<lambda>b. b \<noteq> 0) (dotted True (fst q)) \<noteq> [] \<longleftrightarrow> named q"
proof (cases "fst q")
  case (Cons x ls)
  with assms have "x \<noteq> []" by (auto simp: question_ok_def split: prod.splits)
  then show ?thesis using Cons by (cases x) (simp_all add: named_def)
qed (simp add: named_def)

lemma request_name:
  assumes "\<forall>q\<in>set qs. question_ok q"
  shows "ch_dns_request_name_get \<lparr>req_hdr = h, questions = map question_of qs\<rparr> =
    (case find named qs of None \<Rightarrow> None | Some q \<Rightarrow> ndata (name_of_labels (fst q)))"
  using assms
proof (induction qs)
  case (Cons q qs)
  have "qname (question_of q) = name_of_labels (fst q)" by (cases q) (simp add: question_of_def)
  moreover have "ndata (name_of_labels ls) \<noteq> None" for ls by (simp add: name_of_labels_def)
  ultimately show ?case
    using Cons named_text [of q] by (auto simp: ch_dns_request_name_get_def name_text split: option.splits)
qed (simp add: ch_dns_request_name_get_def)

lemma question_text_length: "question_ok q \<Longrightarrow> length (takeWhile (\<lambda>b. b \<noteq> 0) (dotted True (fst q))) \<le> 254"
  using length_dotted [of "fst q" True] length_takeWhile_le [of "\<lambda>b. b \<noteq> 0" "dotted True (fst q)"]
  by (cases "fst q = []") (auto simp: question_ok_def split: prod.splits)

lemma to_hex_text:
  assumes "\<And>n. length (fresh n) = n" "length (takeWhile (\<lambda>x. x \<noteq> 0) b) \<le> 254"
  shows "bind_res (ch_rule_to_hex (Some fresh) b (of_nat (length (takeWhile (\<lambda>x. x \<noteq> 0) b)))) (\<lambda>h. Inr (map_option c_string_of h)) =
    Inr (Some (c_string_of (hex_bytes (takeWhile (\<lambda>x. x \<noteq> 0) b))))"
proof -
  define n where "n = length (takeWhile (\<lambda>x. x \<noteq> 0) b)"
  have "unat (of_nat k :: size_t) = k" if "k \<le> 509" for k using that by (simp add: unsigned_of_nat take_bit_eq_mod)
  from this [of n] this [of "2 * n + 1"] have n: "unat (of_nat n :: size_t) = n" "unat (of_nat n * 2 + 1 :: size_t) = 2 * n + 1" "n \<le> length b"
    using assms(2) [folded n_def] length_takeWhile_le [of "\<lambda>x. x \<noteq> 0" b, folded n_def] by (simp_all add: mult.commute add.commute)
  have t: "take n b = takeWhile (\<lambda>x. x \<noteq> 0) b" unfolding n_def by (rule takeWhile_eq_take [symmetric])
  have "hex_loop (fresh (2 * n + 1)) b 0 n = Inr (hex_bytes (take n b) @ 0 # drop (2 * n + 1) (fresh (2 * n + 1)))"
    using hex_loop_ok [of 0 n "fresh (2 * n + 1)" b] n(3) assms(1) by simp
  then have "ch_rule_to_hex (Some fresh) b (of_nat n) = Inr (Some (hex_bytes (take n b) @ 0 # drop (2 * n + 1) (fresh (2 * n + 1))))"
    by (simp only: ch_rule_to_hex_def option.case n(1,2) bind_res_simps)
  then show ?thesis by (simp only: n_def [symmetric] t bind_res_simps option.map c_string_of_terminated)
qed

text \<open>
  C23. A UDP packet to port 53 with an encoded request of at most 512 bytes makes a session, and the session, once it
  has processed the packet, answers the target \<^verbatim>\<open>domain\<close> of the rules with the dotted name of the first question that has one, as
  text or in hexadecimal digits.
\<close>

theorem dns_app_domain:
  assumes "dns_header_ok h" "unat (hdr_qcount h) = length qs" "\<forall>q\<in>set qs. question_ok q"
    "up_data p = Some (enc_header h @ concat (map enc_question qs) @ rest)" "u_dst_port p = 53"
    "unat (u_payload_len p) = length (enc_header h @ concat (map enc_question qs))" "unat (u_payload_len p) \<le> 512"
    "\<And>n. length (fresh n) = n" "rt_target t = TARGET_DNS_DOMAIN"
  shows "\<exists>ds ds'. dns_app_session_create True p = Some ds \<and> dns_is_request ds p \<and> dns_req_pkt_process ds p = Inr (PROCESS_CONTINUE, ds') \<and>
    (case find named qs of
       None \<Rightarrow> dns_session_target_get (Some fresh) (Some ds') t x = Inr None
     | Some q \<Rightarrow> dns_session_target_get (Some fresh) (Some ds') t x =
         Inr (Some (let b = takeWhile (\<lambda>b. b \<noteq> 0) (dotted True (fst q)) in c_string_of (if x then hex_bytes b else b))))"
proof -
  let ?req = "\<lparr>req_hdr = h, questions = map question_of qs\<rparr>"
  let ?ds = "\<lparr>dns_req = Some ?req, dns_res = None\<rparr>"
  have len: "length (enc_header h) = 12" by (simp add: enc_header_def del: DOUT_VALUE_WRITE.simps)
  then have "u_payload_len p \<noteq> 0" "\<not> u_payload_len p > 512" using assms(6,7) by (auto simp: word_less_nat_alt)
  then have "dns_req_pkt_process ch_dns_session_create p = Inr (PROCESS_CONTINUE, ?ds)"
    using request_at [OF assms(1-3) refl, of "unat (u_payload_len p)" rest] assms(4,6) len
    by (simp add: dns_req_pkt_process_def ch_dns_session_create_def payload_input_def)
  moreover have "case find named qs of
       None \<Rightarrow> dns_session_target_get (Some fresh) (Some ?ds) t x = Inr None
     | Some q \<Rightarrow> dns_session_target_get (Some fresh) (Some ?ds) t x =
         Inr (Some (let b = takeWhile (\<lambda>b. b \<noteq> 0) (dotted True (fst q)) in c_string_of (if x then hex_bytes b else b)))"
  proof (cases "find named qs")
    case None
    then show ?thesis by (simp add: dns_session_target_get_def ch_dns_session_domain_get_def request_name [OF assms(3)] assms(9))
  next
    case (Some q)
    then have q: "question_ok q" "named q" using assms(3) by (auto simp: find_Some_iff)
    obtain b where b: "ndata (name_of_labels (fst q)) = Some b" by (simp add: name_of_labels_def)
    have t: "takeWhile (\<lambda>b. b \<noteq> 0) b = takeWhile (\<lambda>b. b \<noteq> 0) (dotted True (fst q))" using name_text [of "fst q"] b by simp
    then have "c_string_of b = c_string_of (takeWhile (\<lambda>b. b \<noteq> 0) (dotted True (fst q)))" by (simp add: c_string_of_def)
    then show ?thesis
      using Some b t q(2) named_text [OF q(1)] question_text_length [OF q(1)] to_hex_text [OF assms(8), of b]
      by (simp add: dns_session_target_get_def ch_dns_session_domain_get_def request_name [OF assms(3)] assms(9) Let_def)
  qed
  ultimately show ?thesis using assms(5) by (auto simp: dns_app_session_create_def dns_is_request_def DNS_PORT_IS_MATCH_def)
qed

theorem dns_app_domain_witness:
  "let h = \<lparr>hdr_id = 7, hdr_flags = 0x100, hdr_qcount = 2, hdr_ancount = 0, hdr_aucount = 0, hdr_adcount = 0\<rparr>;
       qs = [([], 2, 1), ([[97, 98], [99]], 1, 1)];
       p = sample_dns_pkt\<lparr>u_payload_len := 27, up_data := Some (enc_header h @ concat (map enc_question qs) @ [])\<rparr>;
       t = \<lparr>target_str = None, rt_target = TARGET_DNS_DOMAIN, rt_offset = 0, rt_len = 0\<rparr>
   in \<exists>ds ds'. dns_app_session_create True p = Some ds \<and> dns_is_request ds p \<and> dns_req_pkt_process ds p = Inr (PROCESS_CONTINUE, ds') \<and>
        dns_session_target_get (Some (\<lambda>n. replicate n 0)) (Some ds') t False = Inr (Some ''ab.c'')"
proof -
  let ?h = "\<lparr>hdr_id = 7, hdr_flags = 0x100, hdr_qcount = 2, hdr_ancount = 0, hdr_aucount = 0, hdr_adcount = 0\<rparr>"
  let ?qs = "[([], 2, 1), ([[97, 98], [99]], 1, 1)] :: question_spec list"
  let ?p = "sample_dns_pkt\<lparr>u_payload_len := 27, up_data := Some (enc_header ?h @ concat (map enc_question ?qs) @ [])\<rparr>"
  let ?t = "\<lparr>target_str = None, rt_target = TARGET_DNS_DOMAIN, rt_offset = 0, rt_len = 0\<rparr> :: ch_rule_target"
  have f: "find named ?qs = Some ([[97, 98], [99]], 1, 1)" by (simp add: named_def)
  have c: "c_string_of (takeWhile (\<lambda>b. b \<noteq> 0) (dotted True [[97, 98], [99]])) = ''ab.c''" by code_simp
  have "dns_header_ok ?h" by (simp add: dns_header_ok_def ch_dns_hdr_rcode_def CHECK_INTV_def)
  moreover have "\<forall>q\<in>set ?qs. question_ok q" by (simp add: question_ok_def)
  moreover have "length (enc_header ?h @ concat (map enc_question ?qs)) = 27"
    by (simp add: enc_header_def length_enc_question del: DOUT_VALUE_WRITE.simps)
  ultimately show ?thesis
    using dns_app_domain [of ?h ?qs ?p "[]" "\<lambda>n. replicate n 0" ?t False] f c by (simp add: sample_dns_pkt_def Let_def del: find.simps)
qed

section \<open>The addresses of a response\<close>

definition typed_a :: "dns_rr \<Rightarrow> bool" where
  "typed_a r \<longleftrightarrow> (rd_type (rr r) = dns_rdatatype_a \<longrightarrow> (\<exists>b. rr_body r = RB_ipv4 b))"

fun addresses :: "dns_rr list \<Rightarrow> u32 list" where
  "addresses [] = []"
| "addresses (r # rs) = (case rr_body r of RB_ipv4 b \<Rightarrow> if rd_type (rr r) = dns_rdatatype_a then [ipv4_address b] else [] | _ \<Rightarrow> []) @ addresses rs"

lemma walk_addresses: "\<forall>r\<in>set rs. typed_a r \<Longrightarrow> ipv4s_walk_loop rs n as = Inr (n + int (length (addresses rs)), as @ addresses rs)"
  by (induction rs arbitrary: n as) (auto simp: typed_a_def split: rdata_body.splits)

lemma find_a: "ch_dns_rdata_parser_find ch_dns_rdata_pool_create c dns_rdatatype_a = Some dns_ipv4_parser"
  by (simp add: ch_dns_rdata_parser_find_def ch_dns_rdata_pool_create_def ch_dns_rdata_parser_register_def dns_ipv4_parser_def rdata_parser_def)

lemma rdata_parse_typed: "ch_dns_rdata_parse ch_dns_rdata_pool_create d = Inr (Some (r, d')) \<Longrightarrow> typed_a r"
  using rdata_parse_body [of ch_dns_rdata_pool_create d r d'] find_a [of "rd_dclass (rr r)"]
  by (auto simp: typed_a_def dns_ipv4_parser_def rdata_parser_def bind_res_eq_Inr eq_commute [of _ "rr_body r"])

text \<open>What holds of every parsed record holds of the answers of a session.\<close>

lemma dns_session_answers:
  assumes "dns_session pool ds" "dns_res ds = Some res" "\<forall>r d d'. ch_dns_rdata_parse pool d = Inr (Some (r, d')) \<longrightarrow> P r"
  shows "\<forall>r\<in>set (alist res). P r"
  using assms(1,2)
proof (induction arbitrary: res rule: dns_session.induct)
  case (created p ds)
  then show ?case by (auto simp: dns_app_session_create_def ch_dns_session_create_def split: if_splits)
next
  case (request ds p rc ds')
  from request.hyps(2) show ?case using request.IH request.prems by (cases rule: req_process_cases) auto
next
  case (response ds p rc ds')
  have as: "\<forall>r\<in>set rs. P r" if "dns_rr_parse pool n e = Inr (Some (rs, e'))" for n e rs e'
    using parse_items_all [OF that [unfolded dns_rr_parse_def] _ assms(3)] by simp
  from response.hyps(2) show ?case
  proof (cases rule: res_process_cases)
    case (3 res' d d')
    then have "ch_dns_response_parse pool d = Inr (Some (res, d'))" using response.prems by simp
    then show ?thesis by (auto simp: ch_dns_response_parse_def bind_res_eq_Inr split: option.splits) (auto dest: as)
  qed (use response.IH response.prems in auto)
qed

text \<open>
  The walk over the addresses of a response is safe: every record of type A of a session was made by the parser
  of A records, whatever its class, so the walk finds an address in it; it counts them all and passes them on in order.
\<close>

theorem dns_ipv4s_walk:
  assumes "dns_session ch_dns_rdata_pool_create ds" "dns_res ds = Some res"
  shows "ch_dns_session_ipv4s_walk ds = Inr (int (length (addresses (alist res))), addresses (alist res)) \<and>
    length (addresses (alist res)) = length (filter (\<lambda>r. rd_type (rr r) = dns_rdatatype_a) (alist res))"
proof
  have t: "\<forall>r\<in>set (alist res). typed_a r" using dns_session_answers [OF assms] rdata_parse_typed by blast
  then show "ch_dns_session_ipv4s_walk ds = Inr (int (length (addresses (alist res))), addresses (alist res))"
    using walk_addresses [of "alist res" 0 "[]"] assms(2) by (simp add: ch_dns_session_ipv4s_walk_def)
  have "\<forall>r\<in>set rs. typed_a r \<Longrightarrow> length (addresses rs) = length (filter (\<lambda>r. rd_type (rr r) = dns_rdatatype_a) rs)" for rs
    by (induction rs) (auto simp: typed_a_def split: rdata_body.splits)
  with t show "length (addresses (alist res)) = length (filter (\<lambda>r. rd_type (rr r) = dns_rdatatype_a) (alist res))" by blast
qed

text \<open>A response with the address 10.0.0.1, of the class Chaos.\<close>

theorem dns_ipv4s_walk_witness:
  "\<exists>ds. dns_res_pkt_process ch_dns_rdata_pool_create ch_dns_session_create
     (sample_dns_pkt\<lparr>u_payload_len := 27, up_data := Some [0, 7, 129, 128, 0, 0, 0, 1, 0, 0, 0, 0, 0, 0, 1, 0, 3, 0, 0, 0, 9, 0, 4, 10, 0, 0, 1]\<rparr>) =
     Inr (PROCESS_DONE, ds) \<and> ch_dns_session_ipv4s_walk ds = Inr (1, [0x0A000001])"
proof -
  let ?p = "sample_dns_pkt\<lparr>u_payload_len := 27, up_data := Some [0, 7, 129, 128, 0, 0, 0, 1, 0, 0, 0, 0, 0, 0, 1, 0, 3, 0, 0, 0, 9, 0, 4, 10, 0, 0, 1]\<rparr>"
  have "case dns_res_pkt_process ch_dns_rdata_pool_create ch_dns_session_create ?p of Inl _ \<Rightarrow> False
    | Inr (rc, ds) \<Rightarrow> rc = PROCESS_DONE \<and> (case dns_res ds of None \<Rightarrow> False | Some res \<Rightarrow> addresses (alist res) = [0x0A000001])" by code_simp
  then obtain ds res where ds: "dns_res_pkt_process ch_dns_rdata_pool_create ch_dns_session_create ?p = Inr (PROCESS_DONE, ds)"
    "dns_res ds = Some res" "addresses (alist res) = [0x0A000001]" by (auto split: sum.splits option.splits)
  have "dns_app_session_create True sample_dns_pkt = Some ch_dns_session_create" by (simp add: dns_app_session_create_def DNS_PORT_IS_MATCH_def sample_dns_pkt_def)
  from dns_ipv4s_walk [OF dns_session.response [OF dns_session.created [OF this] ds(1)] ds(2)] ds show ?thesis by auto
qed

section \<open>A record that crashes the store\<close>

lemma store_seq_fails: "f \<in> set fs \<Longrightarrow> \<forall>d. \<exists>e. f d = Inl e \<Longrightarrow> \<exists>e. store_seq fs d = Inl e"
proof (induction fs arbitrary: d)
  case (Cons g gs)
  then show ?case by (cases "g d") (auto, metis sum.distinct(1))
qed simp

lemma find_aaaa: "ch_dns_rdata_parser_find ch_dns_rdata_pool_create c dns_rdatatype_aaaa = Some dns_ipv6_parser"
  by (simp add: ch_dns_rdata_parser_find_def ch_dns_rdata_pool_create_def ch_dns_rdata_parser_register_def dns_ipv4_parser_def dns_ipv6_parser_def
      rdata_parser_def dns_rdatatype_a_def dns_rdatatype_aaaa_def)

lemma short_aaaa_body:
  assumes "ch_dns_rdata_parse ch_dns_rdata_pool_create d = Inr (Some (r, d'))" "rd_type (rr r) = dns_rdatatype_aaaa" "rd_dlen (rr r) < 16"
  shows "rr_body r = RB_ipv6 rdata_ipv6_create"
proof -
  have "unat (rd_dlen (rr r)) < 16" using assms(3) by (simp add: word_less_nat_alt)
  then show ?thesis
    using rdata_parse_body [OF assms(1)] find_aaaa [of "rd_dclass (rr r)"] assms(2)
    by (auto simp: dns_ipv6_parser_def rdata_parser_def rdata_ipv6_parse_def rdata_parse_def)
qed

text \<open>
  A response with an AAAA record of less than 16 bytes among its answers is accepted, since nobody looks at what the parser of the
  record returns, and the record is left without an address. The session cannot be stored: 16 bytes are
  copied from \<^verbatim>\<open>NULL\<close>.
\<close>

theorem dns_short_aaaa_crash:
  assumes "dns_session ch_dns_rdata_pool_create ds" "dns_res ds = Some res" "r \<in> set (alist res)"
    "rd_type (rr r) = dns_rdatatype_aaaa" "rd_dlen (rr r) < 16"
  shows "\<exists>e. dns_session_store (Some ds) d = Inl e"
proof -
  have "\<forall>r\<in>set (alist res). rd_type (rr r) = dns_rdatatype_aaaa \<and> rd_dlen (rr r) < 16 \<longrightarrow> rr_body r = RB_ipv6 rdata_ipv6_create"
    by (rule dns_session_answers [OF assms(1,2)]) (use short_aaaa_body in blast)
  with assms(3-5) have "rdata_store (rr_body r) = Some (rdata_ipv6_store rdata_ipv6_create)" by (auto simp: rdata_store_def)
  moreover have "\<exists>e. rdata_ipv6_store rdata_ipv6_create d = Inl e" for d by (simp add: rdata_ipv6_store_def rdata_ipv6_create_def s_bin_def s_map_def)
  ultimately have "\<exists>e. ch_dns_rdata_store r d = Inl e" for d unfolding ch_dns_rdata_store_def
    by (intro store_seq_fails [of "rdata_ipv6_store rdata_ipv6_create"]) auto
  then have "\<exists>e. rdata_list_store ''alist'' (alist res) d = Inl e" for d
    unfolding rdata_list_store_def using assms(3) by (intro store_seq_fails [of "ch_dns_rdata_store r"]) auto
  then have "\<exists>e. ch_dns_response_store res d = Inl e" for d
    unfolding ch_dns_response_store_def by (intro store_seq_fails [of "rdata_list_store ''alist'' (alist res)"]) auto
  then have "\<exists>e. store_seq (fs @ [ch_dns_response_store res]) d = Inl e" for fs d by (intro store_seq_fails) auto
  then show ?thesis
    using assms(2) unfolding dns_session_store_def ch_dns_session_store_def Let_def append_assoc [symmetric] option.case
    by (auto simp: bind_res_eq_Inl simp del: append_assoc append.simps)
qed

theorem dns_short_aaaa_crash_witness:
  "\<exists>ds. dns_res_pkt_process ch_dns_rdata_pool_create ch_dns_session_create
     (sample_dns_pkt\<lparr>u_payload_len := 27, up_data := Some [0, 7, 129, 128, 0, 0, 0, 1, 0, 0, 0, 0, 0, 0, 28, 0, 1, 0, 0, 0, 9, 0, 4, 10, 0, 0, 1]\<rparr>) =
     Inr (PROCESS_DONE, ds) \<and> (\<exists>e. dns_session_store (Some ds) [] = Inl e)"
proof -
  let ?p = "sample_dns_pkt\<lparr>u_payload_len := 27, up_data := Some [0, 7, 129, 128, 0, 0, 0, 1, 0, 0, 0, 0, 0, 0, 28, 0, 1, 0, 0, 0, 9, 0, 4, 10, 0, 0, 1]\<rparr>"
  have "case dns_res_pkt_process ch_dns_rdata_pool_create ch_dns_session_create ?p of Inl _ \<Rightarrow> False
    | Inr (rc, ds) \<Rightarrow> rc = PROCESS_DONE \<and>
        (case dns_res ds of None \<Rightarrow> False | Some res \<Rightarrow> list_ex (\<lambda>r. rd_type (rr r) = dns_rdatatype_aaaa \<and> rd_dlen (rr r) < 16) (alist res))"
    by code_simp
  then obtain ds res r where ds: "dns_res_pkt_process ch_dns_rdata_pool_create ch_dns_session_create ?p = Inr (PROCESS_DONE, ds)"
    "dns_res ds = Some res" "r \<in> set (alist res)" "rd_type (rr r) = dns_rdatatype_aaaa" "rd_dlen (rr r) < 16"
    by (auto simp: list_ex_iff split: sum.splits option.splits)
  have "dns_app_session_create True sample_dns_pkt = Some ch_dns_session_create" by (simp add: dns_app_session_create_def DNS_PORT_IS_MATCH_def sample_dns_pkt_def)
  from dns_short_aaaa_crash [OF dns_session.response [OF dns_session.created [OF this] ds(1)] ds(2-5)] ds(1) show ?thesis by blast
qed

end
