(* ===== verification/Udp_Handler.thy ===== *)
theory Udp_Handler
  imports Udp_Session
begin

text \<open>
  What happens to UDP packets: \<^verbatim>\<open>udp/session/ch_udp_session_handler.c\<close>,
  \<^verbatim>\<open>ch_udp_session_request_handler.c\<close> and the task \<^verbatim>\<open>udp/main/ch_udp_session_task.c\<close>. The records
  put into shared memory are a list. Shown here: what a packet does to its session, that no run of the
  task makes the tables or the buffers go wrong, and three errors.
\<close>

section \<open>The handler of sessions\<close>

text \<open>
  What the handler works with: the filter, whether sessions are packed with msgpack, the outcome of
  \<^verbatim>\<open>malloc\<close>, the packer, and which data fit into a record of the shared memory.
\<close>

record udp_env =
  ue_filter :: "ch_rule_engine option"
  use_msgpack :: bool
  ue_malloc :: malloc_ok
  ue_pack :: "ch_msgpack_store \<Rightarrow> bytes"
  ue_put_ok :: "bytes \<Rightarrow> bool"

text \<open>\<^verbatim>\<open>ch_packet_record_put\<close> waits while the memory is full and drops data that are too large.\<close>

definition udp_record_put :: "udp_env \<Rightarrow> u8 \<Rightarrow> u64 \<Rightarrow> bytes \<Rightarrow> 'w udp_world \<Rightarrow> 'w udp_world" where
  "udp_record_put env ty tm bs w = (if ue_put_ok env bs then w\<lparr>uw_records := uw_records w @ [(ty, tm, bs)]\<rparr> else w)"

definition udp_session_out :: "udp_env \<Rightarrow> ('a, 'w) ch_udp_session \<Rightarrow> 'w udp_world \<Rightarrow> 'w udp_world res" where
  "udp_session_out env s w =
     bind_res
       (if use_msgpack env then
          bind_res (ch_udp_app_session_store (ue_filter env) s (ch_msgpack_store_reset (uw_dstore w))) (\<lambda>(rc, d).
            Inr (w\<lparr>uw_dstore := d\<rparr>, if rc < 0 then None else Some (ue_pack env d)))
        else
          bind_res (ch_udp_app_session_write (ue_filter env) (ue_malloc env) s (CH_DOUT_RESET (uw_dout w))) (\<lambda>(rc, d).
            Inr (w\<lparr>uw_dout := d\<rparr>, if rc < 0 then None else Some (content d))))
       (\<lambda>(w, bs).
          case bs of
            None \<Rightarrow> Inr w
          | Some bs \<Rightarrow>
              if bs = [] then Inr w
              else Inr (udp_record_put env (ua_type (as_app (us_app_session s))) (ue_start_time (us_endpoint_req s)) bs w))"

definition udp_session_timeout_cb ::
  "udp_env \<Rightarrow> ('a, 'w) ch_udp_session \<Rightarrow> u64 \<Rightarrow> unit \<Rightarrow> 'w udp_world \<Rightarrow> (('a, 'w) ch_udp_session \<times> 'w udp_world) res"
where
  "udp_session_timeout_cb env s t pd w =
     bind_res (udp_session_out env s w) (\<lambda>w. Inr (s, w\<lparr>uw_app := ch_udp_app_session_fin (us_app_session s) (uw_app w)\<rparr>))"

text \<open>Both handlers of a task, with the counter of session ids, which is atomic and shared.\<close>

record ('a, 'w, 'mp) udp_handlers =
  uh_apps :: "('a, 'w) ch_udp_app list"
  uh_tbl :: "('a, 'w, 'mp) udp_session_tbl"
  uh_req :: "('a, 'w, 'mp) udp_request_list"
  uh_world :: "'w udp_world"
  cur_session_id :: u64

abbreviation usess :: "('a, 'w, 'mp) udp_handlers \<Rightarrow> addr \<Rightarrow> ('a, 'w) ch_udp_session" where
  "usess h e \<equiv> pdata (heap (uh_tbl h) e)"

definition udp_app_pkt_handle ::
  "'mp rte_mempool_ops \<Rightarrow> udp_env \<Rightarrow> ('a, 'w, 'mp) udp_handlers \<Rightarrow> addr \<Rightarrow> udp_pkt \<Rightarrow> ('a, 'w, 'mp) udp_handlers res"
where
  "udp_app_pkt_handle ops env h e p =
     bind_res (ch_udp_app_session_packet_process (us_app_session (usess h e)) p (uw_app (uh_world h))) (\<lambda>(rc, as, a).
      let s = (usess h e)\<lparr>us_app_session := as\<rparr>;
          h = h\<lparr>uh_tbl := entry_store e s (uh_tbl h), uh_world := (uh_world h)\<lparr>uw_app := a\<rparr>\<rparr>
      in if rc = PROCESS_CONTINUE then Inr h
         else bind_res (if rc = PROCESS_DONE then udp_session_out env s (uh_world h) else Inr (uh_world h)) (\<lambda>w.
           let w = w\<lparr>uw_app := ch_udp_app_session_fin as (uw_app w)\<rparr>
           in bind_res (ch_udp_session_pool_entry_free ops (uh_tbl h) w e) (\<lambda>(tbl, w). Inr (h\<lparr>uh_tbl := tbl, uh_world := w\<rparr>))))"

definition ch_udp_session_packet_handle ::
  "'mp rte_mempool_ops \<Rightarrow> udp_env \<Rightarrow> ('a, 'w, 'mp) udp_handlers \<Rightarrow> addr \<Rightarrow> udp_pkt \<Rightarrow> bool \<Rightarrow> (int \<times> ('a, 'w, 'mp) udp_handlers) res"
where
  "ch_udp_session_packet_handle ops env h e p is_new_created =
     (let s = usess h e
      in case (if is_new_created then Some UDP_REQ else ch_udp_session_endpoint_get s p) of
           None \<Rightarrow> Inr (-1, h)
         | Some side \<Rightarrow>
             let s = set_udp_ep s side (ch_udp_session_update (udp_ep s side) p)
             in bind_res (udp_app_pkt_handle ops env (h\<lparr>uh_tbl := entry_store e s (uh_tbl h)\<rparr>) e p) (\<lambda>h. Inr (0, h)))"

section \<open>The handler of requests and the task\<close>

definition create_udp_session_and_process ::
  "'mp rte_mempool_ops \<Rightarrow> udp_env \<Rightarrow> addr option \<Rightarrow> u64 \<Rightarrow> ('a, 'w, 'mp) udp_handlers \<Rightarrow> ('a, 'w) ch_udp_app_session \<Rightarrow> udp_pkt \<Rightarrow>
   (int \<times> ('a, 'w, 'mp) udp_handlers) res"
where
  "create_udp_session_and_process ops env smem tm h as p =
     (let h = h\<lparr>cur_session_id := cur_session_id h + 1\<rparr>;
          sid = cur_session_id h mod 0xffffffffffffffff
      in bind_res (ch_udp_session_pool_entry_create ops smem tm (uh_tbl h) p as sid) (\<lambda>(r, tbl).
           let h = h\<lparr>uh_tbl := tbl\<rparr>
           in case r of
                None \<Rightarrow> Inr (-1, h)
              | Some e \<Rightarrow> ch_udp_session_packet_handle ops env h e p True))"

definition udp_request_free ::
  "'mp rte_mempool_ops \<Rightarrow> ('a, 'w, 'mp) udp_handlers \<Rightarrow> addr \<Rightarrow> ('a, 'w, 'mp) udp_handlers res"
where
  "udp_request_free ops h r =
     bind_res (ch_plist_entry_free ops (uh_req h) (uh_world h) r) (\<lambda>(pl, w). Inr (h\<lparr>uh_req := pl, uh_world := w\<rparr>))"

text \<open>A packet whose request is found, and one that has neither session nor request.\<close>

definition udp_request_found ::
  "'mp rte_mempool_ops \<Rightarrow> udp_env \<Rightarrow> addr option \<Rightarrow> u64 \<Rightarrow> ('a, 'w, 'mp) udp_handlers \<Rightarrow> addr \<Rightarrow> udp_pkt \<Rightarrow>
   (int \<times> ('a, 'w, 'mp) udp_handlers) res"
where
  "udp_request_found ops env smem tm h r p =
     (let req = pl_pdata (pl_heap (uh_req h) r)
      in bind_res (ch_udp_app_session_request_process (ur_app_session req) p (uw_app (uh_world h))) (\<lambda>(rc, as, a).
           let h = h\<lparr>uh_req := pl_store r (req\<lparr>ur_app_session := as\<rparr>) (uh_req h), uh_world := (uh_world h)\<lparr>uw_app := a\<rparr>\<rparr>
           in if rc = PROCESS_REQ_SESSION_CONTINUE then Inr (0, h)
              else bind_res (if rc = PROCESS_REQ_SESSION_DONE then create_udp_session_and_process ops env smem tm h as p
                             else Inr (0, h)) (\<lambda>(_, h).
                bind_res (udp_request_free ops h r) (\<lambda>h. Inr (0, h)))))"

definition udp_request_new ::
  "'mp rte_mempool_ops \<Rightarrow> udp_env \<Rightarrow> addr option \<Rightarrow> addr option \<Rightarrow> addr option \<Rightarrow> u64 \<Rightarrow> ('a, 'w, 'mp) udp_handlers \<Rightarrow> udp_pkt \<Rightarrow>
   (int \<times> ('a, 'w, 'mp) udp_handlers) res"
where
  "udp_request_new ops env smem mem1 mem2 tm h p =
     bind_res (ch_udp_app_session_create (uh_apps h) p (uw_app (uh_world h))) (\<lambda>(as, a).
        let h = h\<lparr>uh_world := (uh_world h)\<lparr>uw_app := a\<rparr>\<rparr>
        in case as of
             None \<Rightarrow> Inr (-1, h)
           | Some as \<Rightarrow>
               if process_request_session (as_app as) \<noteq> None then
                 bind_res (ch_udp_session_request_pool_entry_create ops mem1 mem2 tm (uh_req h) (uh_world h) p as) (\<lambda>(r, pl, w).
                   Inr (if r = None then -1 else 0, h\<lparr>uh_req := pl, uh_world := w\<rparr>))
               else create_udp_session_and_process ops env smem tm h as p)"

definition udp_pkt_handle ::
  "'mp rte_mempool_ops \<Rightarrow> udp_env \<Rightarrow> addr option \<Rightarrow> addr option \<Rightarrow> addr option \<Rightarrow> u64 \<Rightarrow> ('a, 'w, 'mp) udp_handlers \<Rightarrow> udp_pkt \<Rightarrow>
   (int \<times> ('a, 'w, 'mp) udp_handlers) res"
where
  "udp_pkt_handle ops env smem mem1 mem2 tm h p =
     bind_res (ch_udp_session_pool_entry_find tm (uh_tbl h) p) (\<lambda>(r, tbl).
       let h = h\<lparr>uh_tbl := tbl\<rparr>
       in case r of
            Some e \<Rightarrow> ch_udp_session_packet_handle ops env h e p False
          | None \<Rightarrow> bind_res (ch_plist_entry_find tm (uh_req h) p) (\<lambda>(r, pl).
              let h = h\<lparr>uh_req := pl\<rparr>
              in case r of
                   Some r \<Rightarrow> udp_request_found ops env smem tm h r p
                 | None \<Rightarrow> udp_request_new ops env smem mem1 mem2 tm h p))"

definition ch_udp_session_request_packet_handle ::
  "'mp rte_mempool_ops \<Rightarrow> udp_env \<Rightarrow> addr option \<Rightarrow> addr option \<Rightarrow> addr option \<Rightarrow> u64 \<Rightarrow> ('a, 'w, 'mp) udp_handlers \<Rightarrow> ch_packet \<Rightarrow>
   (int \<times> ('a, 'w, 'mp) udp_handlers) res"
where
  "ch_udp_session_request_packet_handle ops env smem mem1 mem2 tm h pkt =
     (case ch_packet_udp_init_from_pkt pkt of
        None \<Rightarrow> Inr (-1, h)
      | Some u \<Rightarrow> udp_pkt_handle ops env smem mem1 mem2 tm h (udp_pkt_of pkt u))"

definition udp_task_handlers_timeout_free ::
  "'mp rte_mempool_ops \<Rightarrow> u64 \<Rightarrow> ('a, 'w, 'mp) udp_handlers \<Rightarrow> ('a, 'w, 'mp) udp_handlers res"
where
  "udp_task_handlers_timeout_free ops tm h =
     bind_res (ch_plist_entries_timeout_free ops None tm (uh_req h) (uh_world h)) (\<lambda>(_, pl, w).
     bind_res (ch_ptable_entries_timeout_free ops (uh_tbl h) w) (\<lambda>(_, tbl, w).
       Inr (h\<lparr>uh_req := pl, uh_tbl := tbl, uh_world := w\<rparr>)))"

definition udp_session_task_run ::
  "'mp rte_mempool_ops \<Rightarrow> udp_env \<Rightarrow> addr option \<Rightarrow> addr option \<Rightarrow> addr option \<Rightarrow> u64 \<Rightarrow> ('a, 'w, 'mp) udp_handlers \<Rightarrow> ch_packet option \<Rightarrow>
   ('a, 'w, 'mp) udp_handlers res"
where
  "udp_session_task_run ops env smem mem1 mem2 tm h pkt =
     bind_res (case pkt of
         None \<Rightarrow> Inr h
       | Some pkt \<Rightarrow> bind_res (ch_udp_session_request_packet_handle ops env smem mem1 mem2 tm h pkt) (\<lambda>(rc, h). Inr h))
     (udp_task_handlers_timeout_free ops tm)"

section \<open>Invariant of the handlers\<close>

text \<open>
  The applications are as the locale says for the packets \<open>P\<close> and the private data \<open>I\<close>, and where sessions are written without msgpack
  their writers stay inside the buffer.
\<close>

definition app_fit :: "udp_env \<Rightarrow> (udp_pkt \<Rightarrow> bool) \<Rightarrow> ('a \<Rightarrow> bool) \<Rightarrow> ('a, 'w) ch_udp_app \<Rightarrow> bool" where
  "app_fit env P I app \<longleftrightarrow> udp_application P I app \<and> (use_msgpack env \<or> udp_writer_ok I app)"

definition session_fit :: "udp_env \<Rightarrow> (udp_pkt \<Rightarrow> bool) \<Rightarrow> ('a \<Rightarrow> bool) \<Rightarrow> ('a, 'w) ch_udp_app_session \<Rightarrow> bool" where
  "session_fit env P I as \<longleftrightarrow> app_fit env P I (as_app as) \<and> I (as_priv_data as)"

definition apps_ok :: "udp_env \<Rightarrow> (udp_pkt \<Rightarrow> bool) \<Rightarrow> ('a \<Rightarrow> bool) \<Rightarrow> ('a, 'w, 'mp) udp_handlers \<Rightarrow> bool" where
  "apps_ok env P I h \<longleftrightarrow> (\<forall>app\<in>set (uh_apps h). app_fit env P I app) \<and>
     (\<forall>e\<in>members (uh_tbl h). session_fit env P I (us_app_session (usess h e))) \<and>
     (\<forall>r\<in>set (pl_entries (uh_req h)). let as = ur_app_session (pl_pdata (pl_heap (uh_req h) r))
        in session_fit env P I as \<and> process_request_session (as_app as) \<noteq> None)"

definition udp_ok :: "udp_env \<Rightarrow> (udp_pkt \<Rightarrow> bool) \<Rightarrow> ('a \<Rightarrow> bool) \<Rightarrow> ('a, 'w, 'mp) udp_handlers \<Rightarrow> bool" where
  "udp_ok env P I h \<longleftrightarrow> utbl_ok (uh_tbl h) \<and> ureq_ok (uh_req h) \<and> dout_in_use (uw_dout (uh_world h)) \<and> apps_ok env P I h"

lemma session_out_ok:
  assumes "session_fit env P I (us_app_session s)" "dout_in_use (uw_dout w)"
  shows "\<exists>w'. udp_session_out env s w = Inr w' \<and> uw_app w' = uw_app w \<and> dout_in_use (uw_dout w')"
proof -
  have app: "udp_application P I (as_app (us_app_session s))" and i: "I (as_priv_data (us_app_session s))"
    using assms(1) by (auto simp: session_fit_def app_fit_def)
  show ?thesis
  proof (cases "use_msgpack env")
    case True
    have "\<exists>rc d. ch_udp_app_session_store (ue_filter env) s (ch_msgpack_store_reset (uw_dstore w)) = Inr (rc, d)"
      by (rule udp_application.session_store_returns [OF app refl i])
    then show ?thesis using True assms(2) by (auto simp: udp_session_out_def udp_record_put_def)
  next
    case False
    then have wr: "udp_writer_ok I (as_app (us_app_session s))" using assms(1) by (simp add: session_fit_def app_fit_def)
    obtain acc where acc: "do_is_accept (ue_filter env) s = Inr acc"
      using do_is_accept_spec [OF udp_application.targets_return [OF app refl i]] by blast
    have "content (CH_DOUT_RESET (uw_dout w)) = []" by (simp add: CH_DOUT_RESET_def)
    from session_write_ok [OF wr dout_reset_in_use [OF assms(2)] this acc i, of "ue_malloc env"]
    obtain rc d where "ch_udp_app_session_write (ue_filter env) (ue_malloc env) s (CH_DOUT_RESET (uw_dout w)) = Inr (rc, d)" "dout_in_use d"
      by blast
    then show ?thesis using False by (auto simp: udp_session_out_def udp_record_put_def)
  qed
qed

lemma session_process_ok:
  assumes "session_fit env P I as" "P p"
  shows "\<exists>rc as' w'. ch_udp_app_session_packet_process as p w = Inr (rc, as', w') \<and> session_fit env P I as' \<and> as_app as' = as_app as"
  using udp_application.packet_process_returns [of P I "as_app as" p as w] assms by (fastforce simp: session_fit_def app_fit_def)

text \<open>What the handling by the application does to the handlers.\<close>

definition app_effect ::
  "udp_env \<Rightarrow> ('a, 'w, 'mp) udp_handlers \<Rightarrow> addr \<Rightarrow> int \<Rightarrow> ('a, 'w) ch_udp_session \<Rightarrow> 'w \<Rightarrow> ('a, 'w, 'mp) udp_handlers \<Rightarrow> bool"
where
  "app_effect env h e rc s' a h' \<longleftrightarrow> uh_apps h' = uh_apps h \<and> uh_req h' = uh_req h \<and>
     (\<forall>b. usess h' b = (if b = e then s' else usess h b)) \<and>
     (if rc = PROCESS_CONTINUE then members (uh_tbl h') = members (uh_tbl h) \<and> uh_world h' = (uh_world h)\<lparr>uw_app := a\<rparr>
      else members (uh_tbl h') = members (uh_tbl h) - {e} \<and>
        (\<exists>w. (if rc = PROCESS_DONE then udp_session_out env s' ((uh_world h)\<lparr>uw_app := a\<rparr>) else Inr ((uh_world h)\<lparr>uw_app := a\<rparr>)) = Inr w \<and>
          uw_app w = a \<and> uh_world h' = w\<lparr>uw_app := ch_udp_app_session_fin (us_app_session s') a\<rparr>))"

lemma app_pkt_handle_ok:
  assumes ok: "udp_ok env P I h" and e: "e \<in> members (uh_tbl h)"
    and pr: "ch_udp_app_session_packet_process (us_app_session (usess h e)) p (uw_app (uh_world h)) = Inr (rc, as, a)" and p: "P p"
  shows "\<exists>h'. udp_app_pkt_handle ops env h e p = Inr h' \<and> udp_ok env P I h' \<and> app_effect env h e rc ((usess h e)\<lparr>us_app_session := as\<rparr>) a h'"
proof -
  let ?s = "(usess h e)\<lparr>us_app_session := as\<rparr>"
  let ?t = "entry_store e ?s (uh_tbl h)"
  let ?w = "(uh_world h)\<lparr>uw_app := a\<rparr>"
  have t: "utbl_ok ?t" using ok by (intro utbl_store) (simp_all add: udp_ok_def)
  have fit: "session_fit env P I (us_app_session (usess h e))" using ok e by (simp add: udp_ok_def apps_ok_def)
  have apps: "session_fit env P I as" using session_process_ok [OF fit p, of "uw_app (uh_world h)"] pr by auto
  show ?thesis
  proof (cases "rc = PROCESS_CONTINUE")
    case True
    let ?h' = "h\<lparr>uh_tbl := ?t, uh_world := ?w\<rparr>"
    have "udp_ok env P I ?h'" using ok t apps by (simp add: udp_ok_def apps_ok_def entry_store_heap)
    then show ?thesis using pr True by (simp add: udp_app_pkt_handle_def Let_def app_effect_def entry_store_heap)
  next
    case False
    obtain w1 where w1: "(if rc = PROCESS_DONE then udp_session_out env ?s ?w else Inr ?w) = Inr w1" "dout_in_use (uw_dout w1)" "uw_app w1 = a"
      using session_out_ok [of env P I ?s ?w] apps ok by (cases "rc = PROCESS_DONE") (auto simp: udp_ok_def)
    let ?w2 = "w1\<lparr>uw_app := ch_udp_app_session_fin as (uw_app w1)\<rparr>"
    obtain t2 where t2: "ch_udp_session_pool_entry_free ops ?t ?w2 e = Inr (t2, ?w2)" "utbl_ok t2"
      "members t2 = members (uh_tbl h) - {e}" "heap t2 = heap ?t"
      using utbl_free [OF t, of e ops ?w2] e by auto
    let ?h' = "h\<lparr>uh_tbl := t2, uh_world := ?w2\<rparr>"
    have "udp_ok env P I ?h'" using ok t2 w1(2) by (simp add: udp_ok_def apps_ok_def entry_store_heap)
    moreover have "udp_app_pkt_handle ops env h e p = Inr ?h'"
      using False w1(1) t2(1) by (cases "rc = PROCESS_DONE") (auto simp: udp_app_pkt_handle_def pr Let_def)
    moreover have "app_effect env h e rc ?s a ?h'"
      unfolding app_effect_def using False w1 t2(3,4) by (simp add: entry_store_heap)
    ultimately show ?thesis by blast
  qed
qed

text \<open>A packet counted on one side of its session.\<close>

definition count_packet :: "('a, 'w) ch_udp_session \<Rightarrow> udp_side \<Rightarrow> udp_pkt \<Rightarrow> ('a, 'w) ch_udp_session" where
  "count_packet s side p = set_udp_ep s side (ch_udp_session_update (udp_ep s side) p)"

lemma count_packet_simps [simp]:
  "udp_session_entry_equal (count_packet s side p) = udp_session_entry_equal s" "us_app_session (count_packet s side p) = us_app_session s"
  by (simp_all add: count_packet_def)

lemma packet_handle_effect:
  assumes ok: "udp_ok env P I h" and e: "e \<in> members (uh_tbl h)"
    and side: "(if new then Some UDP_REQ else ch_udp_session_endpoint_get (usess h e) p) = Some side"
    and pr: "ch_udp_app_session_packet_process (us_app_session (usess h e)) p (uw_app (uh_world h)) = Inr (rc, as, a)" and p: "P p"
  shows "\<exists>h'. ch_udp_session_packet_handle ops env h e p new = Inr (0, h') \<and> udp_ok env P I h' \<and>
    app_effect env h e rc ((count_packet (usess h e) side p)\<lparr>us_app_session := as\<rparr>) a h'"
proof -
  let ?s = "count_packet (usess h e) side p"
  let ?h = "h\<lparr>uh_tbl := entry_store e ?s (uh_tbl h)\<rparr>"
  have "utbl_ok (uh_tbl ?h)" using ok utbl_store [of "uh_tbl h" ?s e] by (simp add: udp_ok_def)
  then have h: "udp_ok env P I ?h" using ok by (simp add: udp_ok_def apps_ok_def entry_store_heap)
  obtain h' where h': "udp_app_pkt_handle ops env ?h e p = Inr h'" "udp_ok env P I h'" "app_effect env ?h e rc (?s\<lparr>us_app_session := as\<rparr>) a h'"
    using app_pkt_handle_ok [OF h, of e p rc as a ops] e pr p by (auto simp: entry_store_heap)
  have "app_effect env h e rc (?s\<lparr>us_app_session := as\<rparr>) a h'"
    using h'(3) by (cases "rc = PROCESS_CONTINUE"; cases "rc = PROCESS_DONE") (auto simp: app_effect_def entry_store_heap)
  then show ?thesis using h' side by (simp add: ch_udp_session_packet_handle_def Let_def count_packet_def [symmetric])
qed

lemma packet_handle_ok:
  assumes ok: "udp_ok env P I h" and e: "e \<in> members (uh_tbl h)" and p: "P p"
  shows "\<exists>rc h'. ch_udp_session_packet_handle ops env h e p new = Inr (rc, h') \<and> udp_ok env P I h' \<and> uh_apps h' = uh_apps h \<and> uh_req h' = uh_req h"
proof (cases "if new then Some UDP_REQ else ch_udp_session_endpoint_get (usess h e) p")
  case None
  then show ?thesis using ok by (auto simp: ch_udp_session_packet_handle_def Let_def)
next
  case (Some side)
  have fit: "session_fit env P I (us_app_session (usess h e))" using ok e by (simp add: udp_ok_def apps_ok_def)
  obtain rc as a where "ch_udp_app_session_packet_process (us_app_session (usess h e)) p (uw_app (uh_world h)) = Inr (rc, as, a)"
    using session_process_ok [OF fit p] by blast
  from packet_handle_effect [OF ok e Some this p, of ops] show ?thesis by (auto simp: app_effect_def)
qed

lemma create_and_process_ok:
  assumes ok: "udp_ok env P I h" and fr: "ep_fresh smem (ep (uh_tbl h))" and p: "\<not> u_is_ipv6 p" and pp: "P p" and app: "session_fit env P I as"
  shows "\<exists>rc h'. create_udp_session_and_process ops env smem tm h as p = Inr (rc, h') \<and> udp_ok env P I h' \<and> uh_apps h' = uh_apps h \<and> uh_req h' = uh_req h"
proof -
  let ?sid = "(cur_session_id h + 1) mod 0xffffffffffffffff"
  have t: "utbl_ok (uh_tbl h)" using ok by (simp add: udp_ok_def)
  obtain r tbl where c: "ch_udp_session_pool_entry_create ops smem tm (uh_tbl h) p as ?sid = Inr (r, tbl)" "utbl_ok tbl"
    "case r of
       None \<Rightarrow> members tbl = members (uh_tbl h) \<and> (\<forall>a. pdata (heap tbl a) = pdata (heap (uh_tbl h) a))
     | Some e \<Rightarrow> e \<notin> members (uh_tbl h) \<and> members tbl = insert e (members (uh_tbl h)) \<and>
         (\<forall>a. pdata (heap tbl a) = (if a = e then ch_udp_session_init (pdata (heap (uh_tbl h) e)) p as ?sid else pdata (heap (uh_tbl h) a)))"
    using utbl_create [OF t fr p] by blast
  let ?h = "h\<lparr>cur_session_id := cur_session_id h + 1, uh_tbl := tbl\<rparr>"
  have h: "udp_ok env P I ?h"
    using ok c(2,3) app by (cases r) (auto simp: udp_ok_def apps_ok_def udp_init_equal(3) [OF p])
  show ?thesis
  proof (cases r)
    case None
    then show ?thesis using c(1) h by (simp add: create_udp_session_and_process_def Let_def)
  next
    case (Some e)
    then have "e \<in> members (uh_tbl ?h)" using c(3) by simp
    then show ?thesis using packet_handle_ok [OF h _ pp, of e ops True] c(1) Some
      by (auto simp: create_udp_session_and_process_def Let_def)
  qed
qed

lemma request_free_ok:
  assumes ok: "udp_ok env P I h" and r: "r \<in> set (pl_entries (uh_req h))"
  shows "\<exists>h'. udp_request_free ops h r = Inr h' \<and> udp_ok env P I h' \<and> uh_apps h' = uh_apps h \<and> uh_tbl h' = uh_tbl h \<and> uh_world h' = uh_world h \<and>
    set (pl_entries (uh_req h')) = set (pl_entries (uh_req h)) - {r}"
proof -
  have q: "ureq_ok (uh_req h)" "plist_ok (uh_req h)" using ok by (auto simp: udp_ok_def ureq_ok_def)
  obtain pl w where f: "pl_entry_free ops (uh_req h) (uh_world h) r 0 = Inr (pl, w)" "plist_ok pl"
    "pl_entries pl = list_del r (pl_entries (uh_req h))" "\<forall>a. a \<noteq> r \<longrightarrow> pl_heap pl a = pl_heap (uh_req h) a"
    using pl_entry_free_ok [OF q(2) r ureq_callbacks [OF q(1)], of ops "uh_world h" 0] by blast
  note e = ureq_entry_free [OF q(1) f(1)]
  have s: "set (pl_entries pl) = set (pl_entries (uh_req h)) - {r}" using f(3) q(2) by (simp add: plist_ok_def)
  have "udp_ok env P I (h\<lparr>uh_req := pl, uh_world := w\<rparr>)" using ok e r s f(4) by (auto simp: udp_ok_def apps_ok_def)
  then show ?thesis using f(1) e(3) s by (simp add: udp_request_free_def ch_plist_entry_free_def)
qed

lemma request_process_ok:
  assumes "session_fit env P I as" "P p" "process_request_session (as_app as) \<noteq> None"
  shows "\<exists>rc as' w'. ch_udp_app_session_request_process as p w = Inr (rc, as', w') \<and> session_fit env P I as' \<and> as_app as' = as_app as"
  using udp_application.request_process_returns [of P I "as_app as" p as w] assms by (fastforce simp: session_fit_def app_fit_def)

lemma request_found_ok:
  assumes ok: "udp_ok env P I h" and r: "r \<in> set (pl_entries (uh_req h))" and fr: "ep_fresh smem (ep (uh_tbl h))" and p: "\<not> u_is_ipv6 p" and pp: "P p"
  shows "\<exists>h'. udp_request_found ops env smem tm h r p = Inr (0, h') \<and> udp_ok env P I h' \<and> uh_apps h' = uh_apps h"
proof -
  let ?q = "pl_pdata (pl_heap (uh_req h) r)"
  have app: "session_fit env P I (ur_app_session ?q)" "process_request_session (as_app (ur_app_session ?q)) \<noteq> None"
    using ok r by (auto simp: udp_ok_def apps_ok_def Let_def)
  then obtain rc as a where pr: "ch_udp_app_session_request_process (ur_app_session ?q) p (uw_app (uh_world h)) = Inr (rc, as, a)"
    "session_fit env P I as" "as_app as = as_app (ur_app_session ?q)"
    using request_process_ok [OF app(1) pp app(2), of "uw_app (uh_world h)"] by blast
  let ?h = "h\<lparr>uh_req := pl_store r (?q\<lparr>ur_app_session := as\<rparr>) (uh_req h), uh_world := (uh_world h)\<lparr>uw_app := a\<rparr>\<rparr>"
  have h: "udp_ok env P I ?h" using ok pr(2,3) app by (auto simp: udp_ok_def apps_ok_def Let_def)
  obtain h1 where h1: "\<exists>rc'. (if rc = PROCESS_REQ_SESSION_DONE then create_udp_session_and_process ops env smem tm ?h as p else Inr (0, ?h)) =
      Inr (rc', h1)" "udp_ok env P I h1" "uh_apps h1 = uh_apps h" "uh_req h1 = uh_req ?h"
    using create_and_process_ok [OF h _ p pp, of smem as ops tm] fr pr(2) h by (cases "rc = PROCESS_REQ_SESSION_DONE") auto
  then obtain h2 where "udp_request_free ops h1 r = Inr h2" "udp_ok env P I h2" "uh_apps h2 = uh_apps h"
    using request_free_ok [OF h1(2), of r ops] r by auto
  then show ?thesis using h1 pr(1) h
    by (cases "rc = PROCESS_REQ_SESSION_CONTINUE") (auto simp: udp_request_found_def Let_def bind_res_def split: if_splits)
qed

lemma app_create_ok:
  assumes "\<forall>app \<in> set apps. app_fit env P I app" "P p"
  shows "\<exists>r w'. ch_udp_app_session_create apps p w = Inr (r, w') \<and> (\<forall>as. r = Some as \<longrightarrow> session_fit env P I as)"
  using assms(1)
proof (induction apps arbitrary: w)
  case (Cons app apps)
  have fit: "app_fit env P I app" using Cons.prems by simp
  then have "udp_application P I app" by (simp add: app_fit_def)
  from udp_application.create_returns [OF this assms(2), of w] obtain r w1
    where r: "ua_session_create app p w = Inr (r, w1)" "\<forall>a. r = Some a \<longrightarrow> I a" by blast
  show ?case using Cons r fit by (cases r) (auto simp: session_fit_def)
qed simp

lemma request_new_ok:
  assumes ok: "udp_ok env P I h" and fr: "ep_fresh smem (ep (uh_tbl h))" "ep_fresh mem1 (pl_ep (uh_req h))" "ep_fresh mem2 (pl_ep (uh_req h))"
    and p: "\<not> u_is_ipv6 p" and pp: "P p"
  shows "\<exists>rc h'. udp_request_new ops env smem mem1 mem2 tm h p = Inr (rc, h') \<and> udp_ok env P I h' \<and> uh_apps h' = uh_apps h"
proof -
  have "\<forall>app \<in> set (uh_apps h). app_fit env P I app" using ok by (simp add: udp_ok_def apps_ok_def)
  from app_create_ok [OF this pp, of "uw_app (uh_world h)"] obtain as a
    where c: "ch_udp_app_session_create (uh_apps h) p (uw_app (uh_world h)) = Inr (as, a)" "\<forall>s. as = Some s \<longrightarrow> session_fit env P I s" by blast
  let ?h = "h\<lparr>uh_world := (uh_world h)\<lparr>uw_app := a\<rparr>\<rparr>"
  have h: "udp_ok env P I ?h" using ok by (simp add: udp_ok_def apps_ok_def)
  show ?thesis
  proof (cases as)
    case None
    then show ?thesis using c h by (simp add: udp_request_new_def Let_def)
  next
    case (Some as')
    have app: "session_fit env P I as'" using c(2) Some by blast
    show ?thesis
    proof (cases "process_request_session (as_app as')")
      case None
      then show ?thesis using create_and_process_ok [OF h _ p pp app, of smem ops tm] fr(1) c Some by (auto simp: udp_request_new_def Let_def)
    next
      case (Some f)
      have q: "ureq_ok (uh_req ?h)" using h by (simp add: udp_ok_def)
      have f: "ep_fresh mem1 (pl_ep (uh_req ?h))" "ep_fresh mem2 (pl_ep (uh_req ?h))" using fr by simp_all
      from ureq_create [OF q f, of ops tm "uh_world ?h" p as']
      obtain r pl w where cr: "ch_udp_session_request_pool_entry_create ops mem1 mem2 tm (uh_req ?h) (uh_world ?h) p as' = Inr (r, pl, w)"
        "ureq_ok pl" "only_apps (uh_world ?h) w"
        "\<forall>a\<in>set (pl_entries pl). if r = Some a then ur_app_session (pl_pdata (pl_heap pl a)) = as'
           else a \<in> set (pl_entries (uh_req ?h)) \<and> pl_pdata (pl_heap pl a) = pl_pdata (pl_heap (uh_req ?h) a)" by blast
      have "udp_ok env P I (?h\<lparr>uh_req := pl, uh_world := w\<rparr>)"
        using h cr(2,4) only_apps_dout [OF cr(3)] app Some by (fastforce simp: udp_ok_def apps_ok_def Let_def split: if_splits)
      then show ?thesis using cr(1) c \<open>as = Some as'\<close> Some by (simp add: udp_request_new_def Let_def)
    qed
  qed
qed

lemma pkt_handle_ok:
  assumes ok: "udp_ok env P I h" and fr: "ep_fresh smem (ep (uh_tbl h))" "ep_fresh mem1 (pl_ep (uh_req h))" "ep_fresh mem2 (pl_ep (uh_req h))"
    and p: "\<not> u_is_ipv6 p" and pp: "P p"
  shows "\<exists>rc h'. udp_pkt_handle ops env smem mem1 mem2 tm h p = Inr (rc, h') \<and> udp_ok env P I h' \<and> uh_apps h' = uh_apps h"
proof -
  obtain r tbl where f: "ch_udp_session_pool_entry_find tm (uh_tbl h) p = Inr (r, tbl)" "utbl_ok tbl" "same_table (uh_tbl h) tbl"
    "case r of None \<Rightarrow> True | Some e \<Rightarrow> e \<in> members (uh_tbl h)"
    using utbl_find [of "uh_tbl h" tm p] ok by (fastforce simp: udp_ok_def split: option.splits)
  let ?h = "h\<lparr>uh_tbl := tbl\<rparr>"
  have m: "members tbl = members (uh_tbl h)" "\<forall>a. pdata (heap tbl a) = usess h a" "ep tbl = ep (uh_tbl h)"
    using f(3) same_table_facts(1) [OF f(3)] by (auto simp: same_table_def)
  have h: "udp_ok env P I ?h" using ok f(2) m by (simp add: udp_ok_def apps_ok_def)
  show ?thesis
  proof (cases r)
    case (Some e)
    then show ?thesis using packet_handle_ok [OF h _ pp, of e ops False] f(1,4) m by (auto simp: udp_pkt_handle_def Let_def)
  next
    case None
    have "plist_ok (uh_req h)" using ok by (simp add: udp_ok_def ureq_ok_def)
    from pl_find_ok [OF this, of tm p]
    obtain r2 pl where g: "ch_plist_entry_find tm (uh_req h) p = Inr (r2, pl)" "plist_ok pl" "set (pl_entries pl) = set (pl_entries (uh_req h))"
      "pl_frame pl = pl_frame (uh_req h)" "\<forall>a. pl_pdata (pl_heap pl a) = pl_pdata (pl_heap (uh_req h) a)"
      "case r2 of None \<Rightarrow> True | Some e \<Rightarrow> e \<in> set (pl_entries (uh_req h))" by (fastforce split: option.splits)
    let ?h2 = "?h\<lparr>uh_req := pl\<rparr>"
    have h2: "udp_ok env P I ?h2" using h g(2-5) by (simp add: udp_ok_def apps_ok_def ureq_ok_def pl_frame_def)
    have fr2: "ep_fresh smem (ep (uh_tbl ?h2))" "ep_fresh mem1 (pl_ep (uh_req ?h2))" "ep_fresh mem2 (pl_ep (uh_req ?h2))"
      using fr g(4) m(3) by (simp_all add: pl_frame_def fun_eq_iff)
    show ?thesis
    proof (cases r2)
      case None
      then show ?thesis using request_new_ok [OF h2 fr2 p pp, of ops tm] \<open>r = None\<close> f(1) g(1) by (simp add: udp_pkt_handle_def Let_def)
    next
      case (Some r3)
      then show ?thesis using request_found_ok [OF h2 _ fr2(1) p pp, of r3 ops tm] \<open>r = None\<close> f(1) g(1,3,6)
        by (auto simp: udp_pkt_handle_def Let_def)
    qed
  qed
qed

lemma timeout_free_ok:
  assumes "udp_ok env P I h"
  shows "\<exists>h'. udp_task_handlers_timeout_free ops tm h = Inr h' \<and> udp_ok env P I h' \<and> uh_apps h' = uh_apps h \<and> uh_tbl h' = uh_tbl h"
proof -
  have q: "ureq_ok (uh_req h)" "plist_ok (uh_req h)" and t: "timeout_entries (uh_tbl h) = []"
    using assms by (auto simp: udp_ok_def ureq_ok_def utbl_ok_def)
  have "\<exists>c pl w. ch_plist_entries_timeout_free ops None tm (uh_req h) (uh_world h) = Inr (c, pl, w) \<and> ureq_ok pl \<and>
    only_apps (uh_world h) w \<and> set (pl_entries pl) \<subseteq> set (pl_entries (uh_req h)) \<and> (\<forall>a\<in>set (pl_entries pl). pl_heap pl a = pl_heap (uh_req h) a)"
  proof (cases "pl_entries (uh_req h) = [] \<or> tm - pl_last_clean_time (uh_req h) < pl_entry_timeout (uh_req h)")
    case True
    then show ?thesis using q(1) by (auto simp: ch_plist_entries_timeout_free_def)
  next
    case False
    let ?p = "(uh_req h)\<lparr>pl_last_clean_time := tm\<rparr>"
    have p: "plist_ok ?p" "ureq_ok ?p" "distinct (pl_entries ?p)" "pl_frame ?p = pl_frame (uh_req h)"
      using q by (auto simp: plist_ok_def ureq_ok_def pl_frame_def)
    obtain c pl w where l: "pl_free_loop ops (\<lambda>_ _. False) tm ?p (uh_world h) 0 (pl_entries ?p) = Inr (c, pl, w)" "plist_ok pl"
      "set (pl_entries pl) \<subseteq> set (pl_entries ?p)" "pl_frame pl = pl_frame ?p" "\<forall>a\<in>set (pl_entries pl). pl_heap pl a = pl_heap ?p a"
      using pl_free_loop_ok [OF p(1) ureq_callbacks [OF p(2)] p(3) subset_refl, of ops "\<lambda>_ _. False" tm "uh_world h" 0] by fastforce
    have "ureq_ok pl" using l(2,4) p(4) q(1) by (simp add: ureq_ok_def pl_frame_def)
    then show ?thesis using False l ureq_free_loop [OF p(2,3) subset_refl l(1)] by (auto simp: ch_plist_entries_timeout_free_def)
  qed
  then obtain c pl w where f: "ch_plist_entries_timeout_free ops None tm (uh_req h) (uh_world h) = Inr (c, pl, w)" "ureq_ok pl"
    "only_apps (uh_world h) w" "set (pl_entries pl) \<subseteq> set (pl_entries (uh_req h))" "\<forall>a\<in>set (pl_entries pl). pl_heap pl a = pl_heap (uh_req h) a"
    by blast
  have "udp_ok env P I (h\<lparr>uh_req := pl, uh_world := w\<rparr>)"
    using assms f(2,4,5) only_apps_dout [OF f(3)] by (auto simp: udp_ok_def apps_ok_def Let_def subset_iff)
  then show ?thesis using f(1) empty_ring [OF t, of ops w] by (simp add: udp_task_handlers_timeout_free_def)
qed

section \<open>Runs of the task\<close>

text \<open>
  The packets that reach the task are packets that \<^verbatim>\<open>ch_packet_parse\<close> accepted, with the time they were received, and their
  UDP part is one of the packets \<open>P\<close>.
\<close>

definition udp_task_input :: "(udp_pkt \<Rightarrow> bool) \<Rightarrow> ch_packet option \<Rightarrow> bool" where
  "udp_task_input P pkt \<longleftrightarrow>
     (\<forall>k. pkt = Some k \<longrightarrow>
       (\<exists>d len q t. ch_packet_parse ch_packet_init d len = Some (Inr (PKT_PARSE_OK, q)) \<and> k = q\<lparr>timestamp := t\<rparr>) \<and>
       (\<forall>u. ch_packet_udp_init_from_pkt k = Some u \<longrightarrow> P (udp_pkt_of k u)))"

text \<open>
  The states a task reaches from a first one. The memory that \<^verbatim>\<open>malloc\<close> gives does not overlap the memory in use, and the watch
  task, which runs beside the task, has put nothing into the ring of sessions that timed out.
\<close>

inductive udp_reach ::
  "(udp_pkt \<Rightarrow> bool) \<Rightarrow> 'mp rte_mempool_ops \<Rightarrow> udp_env \<Rightarrow> ('a, 'w, 'mp) udp_handlers \<Rightarrow> ('a, 'w, 'mp) udp_handlers \<Rightarrow> bool"
  for P ops env h0 where
  start: "udp_reach P ops env h0 h0"
| run: "udp_reach P ops env h0 h \<Longrightarrow> ep_fresh smem (ep (uh_tbl h)) \<Longrightarrow> ep_fresh mem1 (pl_ep (uh_req h)) \<Longrightarrow>
    ep_fresh mem2 (pl_ep (uh_req h)) \<Longrightarrow> udp_task_input P pkt \<Longrightarrow>
    udp_session_task_run ops env smem mem1 mem2 tm h pkt = Inr h' \<Longrightarrow> udp_reach P ops env h0 h'"

text \<open>The IPv6 parser is not registered, so a packet that was parsed is none of IPv6.\<close>

lemma udp_init_ipv4: "\<not> is_ipv6 k \<Longrightarrow> ch_packet_udp_init_from_pkt k = Some u \<Longrightarrow> \<not> u_is_ipv6 (udp_pkt_of k u)"
  by (auto simp: ch_packet_udp_init_from_pkt_def ch_packet_udp_init_from_pkt_ipv4_def udp_pkt_of_def Let_def
      ch_packet_udp.defs split: option.splits)

lemma udp_task_input_facts:
  assumes "udp_task_input P (Some k)" "ch_packet_udp_init_from_pkt k = Some u"
  shows "\<not> u_is_ipv6 (udp_pkt_of k u)" "P (udp_pkt_of k u)"
proof -
  obtain d len q t where "ch_packet_parse ch_packet_init d len = Some (Inr (PKT_PARSE_OK, q))" "k = q\<lparr>timestamp := t\<rparr>"
    using assms(1) by (auto simp: udp_task_input_def)
  then have "\<not> is_ipv6 k" using packet_parse_keeps by fastforce
  then show "\<not> u_is_ipv6 (udp_pkt_of k u)" using udp_init_ipv4 assms(2) by blast
  show "P (udp_pkt_of k u)" using assms by (simp add: udp_task_input_def)
qed

lemma task_run_ok:
  assumes ok: "udp_ok env P I h" and fr: "ep_fresh smem (ep (uh_tbl h))" "ep_fresh mem1 (pl_ep (uh_req h))" "ep_fresh mem2 (pl_ep (uh_req h))"
    and p: "udp_task_input P pkt"
  shows "\<exists>h'. udp_session_task_run ops env smem mem1 mem2 tm h pkt = Inr h' \<and> udp_ok env P I h' \<and> uh_apps h' = uh_apps h"
proof -
  have "\<exists>h1. (case pkt of None \<Rightarrow> Inr h
       | Some pkt \<Rightarrow> bind_res (ch_udp_session_request_packet_handle ops env smem mem1 mem2 tm h pkt) (\<lambda>(rc, h). Inr h)) = Inr h1 \<and>
     udp_ok env P I h1 \<and> uh_apps h1 = uh_apps h"
  proof (cases pkt)
    case (Some k)
    show ?thesis
    proof (cases "ch_packet_udp_init_from_pkt k")
      case (Some u)
      then show ?thesis using pkt_handle_ok [OF ok fr udp_task_input_facts [OF p [unfolded \<open>pkt = Some k\<close>] Some], of ops tm] \<open>pkt = Some k\<close>
        by (auto simp: ch_udp_session_request_packet_handle_def)
    qed (use ok Some in \<open>simp add: ch_udp_session_request_packet_handle_def\<close>)
  qed (use ok in simp)
  then show ?thesis using timeout_free_ok [of env P I _ ops tm] by (fastforce simp: udp_session_task_run_def)
qed

lemma reach_ok:
  assumes "udp_reach P ops env h0 h" "udp_ok env P I h0"
  shows "udp_ok env P I h"
  using assms
proof (induction rule: udp_reach.induct)
  case (run h smem mem1 mem2 pkt tm h')
  then show ?case using task_run_ok [of env P I h smem mem1 mem2 pkt ops tm] by auto
qed

section \<open>Properties\<close>

text \<open>The side of a session that an IPv4 packet comes from: its source is the address of the side, its destination that of the other one.\<close>

definition other_side :: "udp_side \<Rightarrow> udp_side" where
  "other_side side = (if side = UDP_REQ then UDP_RES else UDP_REQ)"

definition comes_from :: "('a, 'w) ch_udp_session \<Rightarrow> udp_side \<Rightarrow> udp_pkt \<Rightarrow> bool" where
  "comes_from s side p \<longleftrightarrow> \<not> u_is_ipv6 p \<and> ue_ip (udp_ep s side) = u_src_ip p \<and> ue_port (udp_ep s side) = u_src_port p \<and>
     ue_ip (udp_ep s (other_side side)) = u_dst_ip p \<and> ue_port (udp_ep s (other_side side)) = u_dst_port p"

lemma comes_from_endpoint:
  assumes "comes_from s side p" "side = UDP_RES \<longrightarrow> \<not> comes_from s UDP_REQ p"
  shows "ch_udp_session_endpoint_get s p = Some side"
  using assms by (cases side) (auto simp: comes_from_def other_side_def ch_udp_session_endpoint_get_def is_udp_request_def is_udp_response_def Let_def)

text \<open>
  C20. What a packet does to its session: on the side it comes from (that of the requests where both match) one packet and the bytes of its payload are
  counted, with wrap-around at 64 bits, and its time is the last time; the other side, the addresses and the identifier stay as they are.
  The application gets the packet as a request or as a response, as it says. The session stays in the table when the application wants more;
  when it is done or failed, its session is ended once and the UDP session freed, and only when it is done the session is written.
  The other sessions stay as they are.
\<close>

theorem udp_session_packet_effect:
  assumes ok: "udp_ok env P I h" and e: "e \<in> members (uh_tbl h)" and p: "P p"
    and s: "s = usess h e" "app = as_app (us_app_session s)" "d = as_priv_data (us_app_session s)"
    and side: "comes_from s side p" "side = UDP_RES \<longrightarrow> \<not> comes_from s UDP_REQ p"
    and pr: "(if ua_is_request app d p then req_pkt_process app d p (uw_app (uh_world h)) else res_pkt_process app d p (uw_app (uh_world h))) =
      Inr (rc, d', a)"
  shows "\<exists>h' s'. ch_udp_session_packet_handle ops env h e p False = Inr (0, h') \<and> udp_ok env P I h' \<and> s' = usess h' e \<and>
    ue_packets (udp_ep s' side) = ue_packets (udp_ep s side) + 1 \<and>
    ue_bytes (udp_ep s' side) = ue_bytes (udp_ep s side) + ucast (u_payload_len p) \<and>
    ue_last_time (udp_ep s' side) = up_timestamp p \<and>
    ue_start_time (udp_ep s' side) = (if ue_packets (udp_ep s side) + 1 = 0 then up_timestamp p else ue_start_time (udp_ep s side)) \<and>
    ue_ip (udp_ep s' side) = ue_ip (udp_ep s side) \<and> ue_port (udp_ep s' side) = ue_port (udp_ep s side) \<and>
    udp_ep s' (other_side side) = udp_ep s (other_side side) \<and> us_session_id s' = us_session_id s \<and>
    us_app_session s' = \<lparr>as_app = app, as_priv_data = d'\<rparr> \<and>
    (\<forall>e'\<in>members (uh_tbl h) - {e}. e' \<in> members (uh_tbl h') \<and> usess h' e' = usess h e') \<and>
    (if rc = PROCESS_CONTINUE then e \<in> members (uh_tbl h') \<and> uh_world h' = (uh_world h)\<lparr>uw_app := a\<rparr>
     else e \<notin> members (uh_tbl h') \<and> uw_app (uh_world h') = (case ua_session_fin app of None \<Rightarrow> a | Some f \<Rightarrow> f d' a) \<and>
       (if rc = PROCESS_DONE then \<exists>w. udp_session_out env s' ((uh_world h)\<lparr>uw_app := a\<rparr>) = Inr w \<and> uw_records (uh_world h') = uw_records w
        else uw_records (uh_world h') = uw_records (uh_world h)))"
proof -
  let ?as = "(us_app_session s)\<lparr>as_priv_data := d'\<rparr>"
  let ?s = "(count_packet s side p)\<lparr>us_app_session := ?as\<rparr>"
  have as: "?as = \<lparr>as_app = app, as_priv_data = d'\<rparr>" using s by (cases "us_app_session s") simp
  have g: "(if False then Some UDP_REQ else ch_udp_session_endpoint_get (usess h e) p) = Some side"
    using comes_from_endpoint [OF side] s(1) by simp
  have "ch_udp_app_session_packet_process (us_app_session (usess h e)) p (uw_app (uh_world h)) = Inr (rc, ?as, a)"
    unfolding ch_udp_app_session_packet_process_def Let_def s(1) [symmetric] s(2,3) [symmetric] pr by simp
  from packet_handle_effect [OF ok e g this p, of ops] s(1)
  obtain h' where h': "ch_udp_session_packet_handle ops env h e p False = Inr (0, h')" "udp_ok env P I h'" "app_effect env h e rc ?s a h'" by auto
  define s' where "s' = ?s"
  have count: "udp_ep s' side = ch_udp_session_update (udp_ep s side) p" "udp_ep s' (other_side side) = udp_ep s (other_side side)"
    "us_session_id s' = us_session_id s" by (cases side; simp add: s'_def count_packet_def other_side_def)+
  have app: "us_app_session s' = \<lparr>as_app = app, as_priv_data = d'\<rparr>" unfolding s'_def as by simp
  note h' = h'(1,2) h'(3) [folded s'_def]
  have s': "usess h' e = s'" using h'(3) by (simp add: app_effect_def)
  have fin: "ch_udp_app_session_fin (us_app_session s') a = (case ua_session_fin app of None \<Rightarrow> a | Some f \<Rightarrow> f d' a)"
    unfolding app by (simp add: ch_udp_app_session_fin_def split: option.splits)
  have world: "if rc = PROCESS_CONTINUE then e \<in> members (uh_tbl h') \<and> uh_world h' = (uh_world h)\<lparr>uw_app := a\<rparr>
     else e \<notin> members (uh_tbl h') \<and> uw_app (uh_world h') = (case ua_session_fin app of None \<Rightarrow> a | Some f \<Rightarrow> f d' a) \<and>
       (if rc = PROCESS_DONE then \<exists>w. udp_session_out env s' ((uh_world h)\<lparr>uw_app := a\<rparr>) = Inr w \<and> uw_records (uh_world h') = uw_records w
        else uw_records (uh_world h') = uw_records (uh_world h))"
    using h'(3) e unfolding fin [symmetric] by (auto simp: app_effect_def split: if_splits)
  have others: "\<forall>e'\<in>members (uh_tbl h) - {e}. e' \<in> members (uh_tbl h') \<and> usess h' e' = usess h e'"
    using h'(3) by (auto simp: app_effect_def split: if_splits)
  show ?thesis
    by (rule exI [of _ h'], rule exI [of _ s'], intro conjI)
      (use h'(1,2) s' others world app in \<open>simp_all add: count ch_udp_session_update_def Let_def\<close>)
qed

text \<open>
  The packet that creates a session is counted twice: \<^verbatim>\<open>ch_udp_session_init\<close> counts it and \<^verbatim>\<open>ch_udp_session_packet_handle\<close>
  counts it again, so a session that has seen one packet says two, and twice its bytes.
\<close>

theorem udp_first_packet_counted_twice:
  assumes ok: "udp_ok env P I h" and fr: "ep_fresh smem (ep (uh_tbl h))" and p: "\<not> u_is_ipv6 p" and pp: "P p"
    and cr: "ch_udp_session_pool_entry_create ops smem tm (uh_tbl h) p as ((cur_session_id h + 1) mod 0xffffffffffffffff) = Inr (Some e, tbl)"
    and app: "session_fit env P I as"
  shows "\<exists>h'. create_udp_session_and_process ops env smem tm h as p = Inr (0, h') \<and>
    ue_packets (us_endpoint_req (usess h' e)) = 2 \<and> ue_bytes (us_endpoint_req (usess h' e)) = 2 * ucast (u_payload_len p)"
proof -
  let ?sid = "(cur_session_id h + 1) mod 0xffffffffffffffff"
  have t: "utbl_ok (uh_tbl h)" using ok by (simp add: udp_ok_def)
  have c: "utbl_ok tbl" "e \<notin> members (uh_tbl h)" "members tbl = insert e (members (uh_tbl h))"
    "\<forall>a. pdata (heap tbl a) = (if a = e then ch_udp_session_init (pdata (heap (uh_tbl h) e)) p as ?sid else pdata (heap (uh_tbl h) a))"
    using utbl_create [OF t fr p, of ops tm as ?sid] cr by auto
  let ?h = "h\<lparr>cur_session_id := cur_session_id h + 1, uh_tbl := tbl\<rparr>"
  have h: "udp_ok env P I ?h" using ok c app by (auto simp: udp_ok_def apps_ok_def udp_init_equal(3) [OF p])
  have as: "us_app_session (usess ?h e) = as" using c(4) by (simp add: udp_init_equal(3) [OF p])
  obtain rc as' a where pr: "ch_udp_app_session_packet_process (us_app_session (usess ?h e)) p (uw_app (uh_world ?h)) = Inr (rc, as', a)"
    using session_process_ok [OF app pp] unfolding as by blast
  have m: "e \<in> members (uh_tbl ?h)" using c(3) by simp
  obtain h' where h': "ch_udp_session_packet_handle ops env ?h e p True = Inr (0, h')"
    "usess h' e = (count_packet (usess ?h e) UDP_REQ p)\<lparr>us_app_session := as'\<rparr>"
    using packet_handle_effect [OF h m _ pr pp, of True UDP_REQ ops] by (auto simp: app_effect_def)
  have "create_udp_session_and_process ops env smem tm h as p = Inr (0, h')"
    using cr h'(1) by (simp add: create_udp_session_and_process_def Let_def)
  then show ?thesis using h'(2) c(4)
    by (simp add: count_packet_def ch_udp_session_update_def ch_udp_session_init_def Let_def)
qed

text \<open>
  When an application refuses a request, the request is freed but not the session the application made for it: the state
  of the application stays as the refusal left it, and nothing else refers to the session any more.
\<close>

theorem udp_refused_request_leaks:
  assumes ok: "udp_ok env P I h" and r: "r \<in> set (pl_entries (uh_req h))" and pp: "P p"
    and pr: "ch_udp_app_session_request_process (ur_app_session (pl_pdata (pl_heap (uh_req h) r))) p (uw_app (uh_world h)) =
      Inr (PROCESS_REQ_SESSION_ERROR, as, a)"
  shows "\<exists>h'. udp_request_found ops env smem tm h r p = Inr (0, h') \<and> uh_world h' = (uh_world h)\<lparr>uw_app := a\<rparr> \<and>
    uh_tbl h' = uh_tbl h \<and> set (pl_entries (uh_req h')) = set (pl_entries (uh_req h)) - {r}"
proof -
  let ?q = "pl_pdata (pl_heap (uh_req h) r)"
  let ?h = "h\<lparr>uh_req := pl_store r (?q\<lparr>ur_app_session := as\<rparr>) (uh_req h), uh_world := (uh_world h)\<lparr>uw_app := a\<rparr>\<rparr>"
  have app: "session_fit env P I (ur_app_session ?q)" "process_request_session (as_app (ur_app_session ?q)) \<noteq> None"
    using ok r by (auto simp: udp_ok_def apps_ok_def Let_def)
  have "session_fit env P I as" "as_app as = as_app (ur_app_session ?q)"
    using request_process_ok [OF app(1) pp app(2), of "uw_app (uh_world h)"] pr by auto
  then have "udp_ok env P I ?h" using ok app by (auto simp: udp_ok_def apps_ok_def Let_def)
  from request_free_ok [OF this, of r ops] r show ?thesis
    using pr by (auto simp: udp_request_found_def Let_def process_defs)
qed

section \<open>Witnesses\<close>

text \<open>The handlers with the sample session and one request to the sample application.\<close>

definition ureq_of :: "('a, 'w) ch_udp_app_session \<Rightarrow> ('a, 'w) ch_udp_session_request" where
  "ureq_of as = \<lparr>ur_app_session = as, ur_is_ipv6 = False, ur_src_ip = 1, ur_dst_ip = 3,
     ur_src_addr = [], ur_dst_addr = [], ur_src_port = 2000, ur_dst_port = 69\<rparr>"

definition uplist_of :: "('a, 'w) ch_udp_app_session \<Rightarrow> ('a, 'w, unit) udp_request_list" where
  "uplist_of as = \<lparr>pl_entries = [4120], pl_ep = ep (utbl_of as), pl_last_entry = Some 4120, pl_priv_data = (),
     entry_num = 1, entry_num_limits = 10, pl_entry_timeout = 60, pl_last_clean_time = 0,
     pl_entry_equal = udp_session_request_entry_equal, pl_entry_clean = None, pl_entry_timeout_cb = Some udp_session_request_timeout_cb,
     pl_heap = (\<lambda>_. \<lparr>pl_last_time = 10, pl_pdata = ureq_of as\<rparr>)\<rparr>"

definition uworld_of :: "'w \<Rightarrow> 'w udp_world" where
  "uworld_of a = \<lparr>uw_app = a, uw_dout = \<lparr>content = [], dsize = DOUT_SIZE_DEFAULT\<rparr>, uw_dstore = [], uw_records = []\<rparr>"

definition uh_of :: "('a, 'w) ch_udp_app_session \<Rightarrow> 'w \<Rightarrow> ('a, 'w, unit) udp_handlers" where
  "uh_of as a = \<lparr>uh_apps = [as_app as], uh_tbl = utbl_of as, uh_req = uplist_of as, uh_world = uworld_of a, cur_session_id = 9\<rparr>"

lemma uh_of_ok:
  assumes "session_fit env P I as" "process_request_session (as_app as) \<noteq> None"
  shows "udp_ok env P I (uh_of as a)" "ep_fresh (Some 100000) (ep (uh_tbl (uh_of as a)))" "ep_fresh (Some 100000) (pl_ep (uh_req (uh_of as a)))"
proof -
  have "ureq_ok (uplist_of as)"
    using sample_pool_used_ok by (auto simp: ureq_ok_def plist_ok_def uplist_of_def ep_ok_def ep_live_def utbl_of_def)
  moreover have "dout_in_use (uw_dout (uworld_of a))" by (simp add: uworld_of_def dout_in_use_def DOUT_SIZE_DEFAULT_def)
  moreover have "us_app_session (pdata (heap (utbl_of as) e)) = as" for e by (simp add: utbl_of_def sample_usession_simps)
  ultimately show "udp_ok env P I (uh_of as a)"
    using assms utbl_of_ok(1) by (auto simp: udp_ok_def apps_ok_def session_fit_def uh_of_def Let_def) (simp_all add: uplist_of_def ureq_of_def)
  show "ep_fresh (Some 100000) (ep (uh_tbl (uh_of as a)))" "ep_fresh (Some 100000) (pl_ep (uh_req (uh_of as a)))"
    using utbl_of_ok(2) by (simp_all add: uh_of_def uplist_of_def)
qed

abbreviation sample_uh :: "(nat, nat, unit) udp_handlers" where
  "sample_uh \<equiv> uh_of sample_uas 2"

definition sample_uenv :: udp_env where
  "sample_uenv = \<lparr>ue_filter = None, use_msgpack = False, ue_malloc = (\<lambda>_. False), ue_pack = (\<lambda>_. []), ue_put_ok = (\<lambda>_. True)\<rparr>"

lemma sample_usess: "usess sample_uh e = sample_usession" "us_app_session sample_usession = sample_uas"
  "members (uh_tbl sample_uh) = {4120}"
  using utbl_of_members by (simp_all add: uh_of_def utbl_of_def sample_usession_simps)

lemma sample_fit: "session_fit sample_uenv (\<lambda>_. True) (\<lambda>_. True) sample_uas" "process_request_session (as_app sample_uas) \<noteq> None"
  using sample_uapp_ok by (simp_all add: session_fit_def app_fit_def) (simp add: sample_uapp_def)

lemmas sample_uh_ok = uh_of_ok [OF sample_fit]

text \<open>The response of four bytes to the sample session, which ends it.\<close>

theorem udp_session_packet_effect_witness:
  "\<exists>h'. ch_udp_session_packet_handle sample_ops sample_uenv sample_uh 4120 (sample_upkt False 1000 4) False = Inr (0, h') \<and>
    4120 \<notin> members (uh_tbl h') \<and> uw_app (uh_world h') = 1 \<and> ue_packets (us_endpoint_res (usess h' 4120)) = 1 \<and>
    ue_bytes (us_endpoint_res (usess h' 4120)) = 4 \<and> ue_packets (us_endpoint_req (usess h' 4120)) = 1"
proof -
  let ?p = "sample_upkt False 1000 4"
  have side: "comes_from sample_usession UDP_RES ?p" "UDP_RES = UDP_RES \<longrightarrow> \<not> comes_from sample_usession UDP_REQ ?p"
    by (simp_all add: comes_from_def other_side_def sample_usession_simps)
  have app: "sample_usession = usess sample_uh 4120" "sample_uapp = as_app (us_app_session sample_usession)" "0 = as_priv_data (us_app_session sample_usession)"
    by (simp_all add: sample_usess)
  have e: "4120 \<in> members (uh_tbl sample_uh)" by (simp add: sample_usess)
  have pr: "(if ua_is_request sample_uapp 0 ?p then req_pkt_process sample_uapp 0 ?p (uw_app (uh_world sample_uh))
      else res_pkt_process sample_uapp 0 ?p (uw_app (uh_world sample_uh))) = Inr (PROCESS_DONE, 1, 2)"
    by (simp add: sample_uapp_def sample_upkt_def uh_of_def uworld_of_def)
  have fin: "(case ua_session_fin sample_uapp of None \<Rightarrow> 2 | Some f \<Rightarrow> f 1 2) = 1" by (simp add: sample_uapp_def)
  have n: "ue_packets (us_endpoint_res sample_usession) = 0" "ue_bytes (us_endpoint_res sample_usession) = 0" "u_payload_len ?p = 4"
    "ue_packets (us_endpoint_req sample_usession) = 1" by (simp_all add: sample_usession_simps)
  show ?thesis
    using udp_session_packet_effect [OF sample_uh_ok(1) e TrueI app side pr, of sample_ops] fin n
    by (auto simp: other_side_def process_defs)
qed

theorem udp_first_packet_counted_twice_witness:
  "\<exists>r tbl. ch_udp_session_pool_entry_create sample_ops (Some 100000) 20 (uh_tbl sample_uh) (sample_upkt True 1001 9)
      \<lparr>as_app = sample_uapp, as_priv_data = 0\<rparr> ((cur_session_id sample_uh + 1) mod 0xffffffffffffffff) = Inr (r, tbl) \<and>
    (case r of None \<Rightarrow> True | Some e \<Rightarrow>
       \<exists>h'. create_udp_session_and_process sample_ops sample_uenv (Some 100000) 20 sample_uh
           \<lparr>as_app = sample_uapp, as_priv_data = 0\<rparr> (sample_upkt True 1001 9) = Inr (0, h') \<and>
         ue_packets (us_endpoint_req (usess h' e)) = 2 \<and> ue_bytes (us_endpoint_req (usess h' e)) = 18)"
proof -
  let ?as = "\<lparr>as_app = sample_uapp, as_priv_data = 0\<rparr>" and ?p = "sample_upkt True 1001 9"
  have p: "\<not> u_is_ipv6 ?p" "u_payload_len ?p = 9" by (simp_all add: sample_upkt_def)
  have t: "utbl_ok (uh_tbl sample_uh)" using sample_uh_ok(1) by (simp add: udp_ok_def)
  obtain r tbl where c: "ch_udp_session_pool_entry_create sample_ops (Some 100000) 20 (uh_tbl sample_uh) ?p ?as
      ((cur_session_id sample_uh + 1) mod 0xffffffffffffffff) = Inr (r, tbl)"
    using utbl_create [OF t sample_uh_ok(2) p(1)] by blast
  show ?thesis
  proof (cases r)
    case (Some e)
    then show ?thesis
      using udp_first_packet_counted_twice [OF sample_uh_ok(1,2) p(1) TrueI c [unfolded Some]] c sample_fit p(2)
      by simp
  qed (use c in simp)
qed

theorem udp_refused_request_leaks_witness:
  "\<exists>h'. udp_request_found sample_ops sample_uenv None 20 sample_uh 4120 (sample_upkt True 2000 0) = Inr (0, h') \<and>
    uw_app (uh_world h') = 2 \<and> pl_entries (uh_req h') = []"
proof -
  have "ch_udp_app_session_request_process (ur_app_session (pl_pdata (pl_heap (uh_req sample_uh) 4120))) (sample_upkt True 2000 0)
      (uw_app (uh_world sample_uh)) = Inr (PROCESS_REQ_SESSION_ERROR, \<lparr>as_app = sample_uapp, as_priv_data = 0\<rparr>, 2)"
    by (simp add: ch_udp_app_session_request_process_def uh_of_def uplist_of_def ureq_of_def uworld_of_def sample_uapp_def
        sample_upkt_def)
  from udp_refused_request_leaks [OF sample_uh_ok(1) _ TrueI this, of sample_ops None 20]
  show ?thesis by (auto simp: uh_of_def uplist_of_def)
qed

end
