(* ===== verification/Fpath.thy ===== *)
theory Fpath
  imports Rule_Utils
begin

text \<open>
  The names of the files that contents are stored in, \<^verbatim>\<open>lib/fstore/ch_fpath.c\<close> and \<^verbatim>\<open>ch_fpath.h\<close>: a root directory, the number of
  the task, the time, a counter. Files are opened to append, so two contents with one name would be mixed.
  Shown here: a name fits into its buffer, and the names of a path, and those of paths of
  different tasks, are all different.
\<close>

section \<open>Paths\<close>

text \<open>\<open>fp_buf\<close>, \<open>fp_buf_tmp\<close>: whether the buffers for the names were allocated. The buffer itself is read before the next name is made.\<close>

record ch_fpath =
  fp_root :: string
  fp_log_id :: int
  fp_counter :: u64
  fp_create_dir_type :: int
  fp_is_need_tmp_buf :: bool
  fp_buf :: bool
  fp_buf_tmp :: bool
  fp_fname_buf_size :: nat

definition BY_SEC :: int where "BY_SEC = 0"
definition BY_MIN :: int where "BY_MIN = 1"
definition BY_HOUR :: int where "BY_HOUR = 2"
definition BY_DAY :: int where "BY_DAY = 3"

lemmas dir_type_defs = BY_SEC_def BY_MIN_def BY_HOUR_def BY_DAY_def

text \<open>The first character is read, the terminating zero of an empty string.\<close>

definition ch_fpath_create_type_get :: "string \<Rightarrow> int" where
  "ch_fpath_create_type_get v =
     (case v of
        [] \<Rightarrow> -1
      | c # _ \<Rightarrow>
          if c = CHR ''s'' \<or> c = CHR ''S'' then BY_SEC
          else if c = CHR ''m'' \<or> c = CHR ''M'' then BY_MIN
          else if c = CHR ''h'' \<or> c = CHR ''H'' then BY_HOUR
          else if c = CHR ''d'' \<or> c = CHR ''D'' then BY_DAY
          else -1)"

definition CH_UINT64_MAX_VALUE_LEN :: nat where
  "CH_UINT64_MAX_VALUE_LEN = length ''9223372036854775807'' + 1"

definition ch_fpath_fname_buf_size_get :: "string \<Rightarrow> nat" where
  "ch_fpath_fname_buf_size_get root_dir = length root_dir + 3 + 40 + 2 * CH_UINT64_MAX_VALUE_LEN + 32"

text \<open>\<open>mal\<close> says whether the system gives memory of a size.\<close>

definition ch_fpath_init :: "(nat \<Rightarrow> bool) \<Rightarrow> string \<Rightarrow> int \<Rightarrow> bool \<Rightarrow> int \<Rightarrow> int \<times> ch_fpath" where
  "ch_fpath_init mal root create_dir_type is_need_tmp_buf log_id =
     (let sz = ch_fpath_fname_buf_size_get root;
          fpath = \<lparr>fp_root = root, fp_log_id = log_id, fp_counter = 1, fp_create_dir_type = create_dir_type,
            fp_is_need_tmp_buf = is_need_tmp_buf, fp_buf = mal sz, fp_buf_tmp = (is_need_tmp_buf \<and> mal (sz + 4)), fp_fname_buf_size = sz\<rparr>
      in if \<not> fp_buf fpath \<or> is_need_tmp_buf \<and> \<not> fp_buf_tmp fpath then (-1, fpath) else (0, fpath))"

definition ch_fpath_fin :: "ch_fpath \<Rightarrow> ch_fpath" where
  "ch_fpath_fin fpath =
     (let fpath = fpath\<lparr>fp_buf := False\<rparr>
      in if fp_is_need_tmp_buf fpath \<and> fp_buf_tmp fpath then fpath\<lparr>fp_buf_tmp := False\<rparr> else fpath)"

definition ch_fpath_create :: "(nat \<Rightarrow> bool) \<Rightarrow> string \<Rightarrow> int \<Rightarrow> bool \<Rightarrow> int \<Rightarrow> ch_fpath option" where
  "ch_fpath_create mal root create_dir_type is_need_tmp_buf log_id =
     (case ch_fpath_init mal root create_dir_type is_need_tmp_buf log_id of
        (rc, fpath) \<Rightarrow> if rc \<noteq> 0 then None else Some fpath)"

definition ch_fpath_counter_update :: "ch_fpath \<Rightarrow> u64 \<Rightarrow> u64 \<times> ch_fpath" where
  "ch_fpath_counter_update fpath incr = (fp_counter fpath, fpath\<lparr>fp_counter := (fp_counter fpath + incr) mod (2 ^ 64 - 1)\<rparr>)"

section \<open>Names\<close>

text \<open>The time as \<^verbatim>\<open>localtime\<close> splits it, the year in full, and what \<^verbatim>\<open>strftime\<close> makes of \<^verbatim>\<open>%Y\<close> and the two-digit formats.\<close>

record tm =
  tm_year :: nat
  tm_mon :: nat
  tm_mday :: nat
  tm_hour :: nat
  tm_min :: nat
  tm_sec :: nat

definition two_digits :: "nat \<Rightarrow> string" where
  "two_digits n = [digit_char (n div 10 mod 10), digit_char (n mod 10)]"

definition tm_day :: "tm \<Rightarrow> string" where
  "tm_day t = decimal (tm_year t) @ two_digits (tm_mon t) @ two_digits (tm_mday t)"

definition tm_time :: "tm \<Rightarrow> string" where
  "tm_time t = tm_day t @ ''-'' @ two_digits (tm_hour t) @ two_digits (tm_min t) @ two_digits (tm_sec t)"

definition fpath_tstr :: "int \<Rightarrow> tm \<Rightarrow> string" where
  "fpath_tstr create_dir_type t =
     (if create_dir_type = BY_DAY then ''/'' @ tm_day t @ ''/'' @ tm_time t
      else if create_dir_type = BY_HOUR then ''/'' @ tm_day t @ ''/'' @ tm_day t @ ''-'' @ two_digits (tm_hour t) @ ''/'' @ tm_time t
      else if create_dir_type = BY_MIN
      then ''/'' @ tm_day t @ ''/'' @ tm_day t @ ''-'' @ two_digits (tm_hour t) @ two_digits (tm_min t) @ ''/'' @ tm_time t
      else if create_dir_type = BY_SEC then ''/'' @ tm_day t @ ''/'' @ tm_time t @ ''/'' @ tm_time t
      else ''/'' @ tm_day t @ ''/'' @ tm_time t)"

text \<open>\<^verbatim>\<open>snprintf\<close> with room for \<open>n\<close> bytes, one of them the zero; \<^verbatim>\<open>%d\<close> of an \<^verbatim>\<open>int\<close>.\<close>

definition snprintf_cut :: "nat \<Rightarrow> string \<Rightarrow> string" where
  "snprintf_cut n s = take (n - 1) s"

definition int_text :: "int \<Rightarrow> string" where
  "int_text i = (if i < 0 then ''-'' @ decimal (nat (- i)) else decimal (nat i))"

text \<open>
  The name and the name of the temporary file; \<open>ms\<close> is the time of day in milliseconds. The directories on the way are made
  (\<^verbatim>\<open>ch_dir_make_r\<close>); whether they could be made shows when the file is opened.
\<close>

definition fpath_name :: "ch_fpath \<Rightarrow> tm \<Rightarrow> u64 \<Rightarrow> string" where
  "fpath_name fpath t ms =
     fp_root fpath @ ''/'' @ int_text (fp_log_id fpath) @ fpath_tstr (fp_create_dir_type fpath) t @ ''-'' @ decimal (unat ms) @
     ''-'' @ decimal (unat (fp_counter fpath))"

definition ch_fpath_name_create :: "ch_fpath \<Rightarrow> tm \<Rightarrow> u64 \<Rightarrow> (string \<times> c_string) \<times> ch_fpath" where
  "ch_fpath_name_create fpath t ms =
     (let fname = snprintf_cut (fp_fname_buf_size fpath - 1) (fpath_name fpath t ms);
          fname_tmp = (if fp_is_need_tmp_buf fpath then Some (snprintf_cut (fp_fname_buf_size fpath + 4 - 1) (fname @ ''.tmp'')) else None)
      in ((fname, fname_tmp), snd (ch_fpath_counter_update fpath 1)))"

section \<open>A name fits into its buffer\<close>

lemma decimal_digit: "c \<in> set (decimal n) \<Longrightarrow> is_digit c"
  unfolding decimal_def set_map by (auto dest!: digits_lt simp: is_digit_def char_code_digit)

lemma no_dash: "CHR ''-'' \<notin> set (decimal n)"
  using decimal_digit [of "CHR ''-''" n] by (auto simp: is_digit_def char_code_def)

lemma no_slash: "CHR ''/'' \<notin> set (decimal n)"
  using decimal_digit [of "CHR ''/''" n] by (auto simp: is_digit_def char_code_def)

lemma decimal_inject: "decimal m = decimal n \<longleftrightarrow> m = n"
proof
  assume "decimal m = decimal n"
  then have "digits_value (decimal m) = digits_value (decimal n)" by (rule arg_cong)
  then show "m = n" by (simp add: decimal_def digits_value_digits)
qed (rule arg_cong)

lemma decimal_length: "n < 10 ^ k \<Longrightarrow> 0 < k \<Longrightarrow> length (decimal n) \<le> k"
  by (simp add: decimal_def length_digits)

lemma int_text_length: "- (2 ^ 31) \<le> i \<Longrightarrow> i < 2 ^ 31 \<Longrightarrow> length (int_text i) \<le> 11"
proof -
  assume "- (2 ^ 31) \<le> i" "i < 2 ^ 31"
  then have "nat (- i) < 10 ^ 10" "nat i < 10 ^ 10" by simp_all
  from this [THEN decimal_length] show ?thesis by (auto simp: int_text_def)
qed

lemma int_text_inject: "int_text i = int_text j \<Longrightarrow> i = j"
proof -
  assume eq: "int_text i = int_text j"
  have no: "decimal n \<noteq> CHR ''-'' # xs" for n xs using no_dash [of n] by auto
  show "i = j" using eq no no [symmetric] by (auto simp: int_text_def decimal_inject split: if_splits)
qed

lemma int_text_no_slash: "CHR ''/'' \<notin> set (int_text i)"
  using no_slash by (simp add: int_text_def)

lemma tm_day_length: "tm_year t < 10000 \<Longrightarrow> length (tm_day t) \<le> 8"
  using decimal_length [of "tm_year t" 4] by (simp add: tm_day_def two_digits_def)

lemma tm_time_length: "tm_year t < 10000 \<Longrightarrow> length (tm_time t) \<le> 15"
  using tm_day_length [of t] by (simp add: tm_time_def two_digits_def)

lemma fpath_tstr_length: "tm_year t < 10000 \<Longrightarrow> length (fpath_tstr ty t) \<le> 41"
  using tm_day_length [of t] tm_time_length [of t] by (simp add: fpath_tstr_def two_digits_def)

text \<open>What \<^verbatim>\<open>ch_fpath_create\<close> gives and the making of names keeps.\<close>

definition fpath_ok :: "ch_fpath \<Rightarrow> bool" where
  "fpath_ok fp \<longleftrightarrow> fp_fname_buf_size fp = ch_fpath_fname_buf_size_get (fp_root fp) \<and> - (2 ^ 31) \<le> fp_log_id fp \<and> fp_log_id fp < 2 ^ 31"

lemma name_create_uncut:
  assumes "fpath_ok fp" "tm_year t < 10000"
  shows "fst (fst (ch_fpath_name_create fp t ms)) = fpath_name fp t ms"
proof -
  have "length (fpath_name fp t ms) \<le> length (fp_root fp) + 95"
    using assms fpath_tstr_length [of t "fp_create_dir_type fp"] int_text_length [of "fp_log_id fp"] length_decimal [of ms] length_decimal [of "fp_counter fp"]
    by (simp add: fpath_name_def fpath_ok_def)
  then show ?thesis
    using assms(1) by (simp add: ch_fpath_name_create_def snprintf_cut_def fpath_ok_def ch_fpath_fname_buf_size_get_def CH_UINT64_MAX_VALUE_LEN_def Let_def)
qed

section \<open>Names are different\<close>

lemma split_at_unique:
  assumes "xs @ c # ys = xs' @ c # ys'" "c \<notin> set xs" "c \<notin> set xs'"
  shows "xs = xs' \<and> ys = ys'"
proof -
  have "xs = takeWhile (\<lambda>x. x \<noteq> c) (xs @ c # ys)" if "c \<notin> set xs" for xs ys using that by (induction xs) auto
  from this [OF assms(2)] this [OF assms(3)] have "xs = xs'" using assms(1) by metis
  then show ?thesis using assms(1) by simp
qed

lemma split_at_end_unique:
  assumes "xs @ c # ys = xs' @ c # ys'" "c \<notin> set ys" "c \<notin> set ys'"
  shows "ys = ys'"
  using split_at_unique [of "rev ys" c "rev xs" "rev ys'" "rev xs'"] assms by (metis rev.simps(2) rev_append rev_rev_ident append_assoc set_rev append_Cons append_Nil)

lemma name_counter: "fpath_name fp t ms = fpath_name fp' t' ms' \<Longrightarrow> fp_counter fp = fp_counter fp'"
proof -
  let ?front = "\<lambda>fp t ms. fp_root fp @ ''/'' @ int_text (fp_log_id fp) @ fpath_tstr (fp_create_dir_type fp) t @ ''-'' @ decimal (unat ms)"
  assume "fpath_name fp t ms = fpath_name fp' t' ms'"
  then have "?front fp t ms @ CHR ''-'' # decimal (unat (fp_counter fp)) = ?front fp' t' ms' @ CHR ''-'' # decimal (unat (fp_counter fp'))"
    by (simp add: fpath_name_def)
  from split_at_end_unique [OF this no_dash no_dash] show ?thesis by (simp add: decimal_inject word_unat_eq_iff)
qed

lemma tstr_slash: "\<exists>xs. fpath_tstr ty t = CHR ''/'' # xs"
  by (simp add: fpath_tstr_def)

lemma name_task:
  assumes "fpath_name fp t ms = fpath_name fp' t' ms'" "fp_root fp = fp_root fp'"
  shows "fp_log_id fp = fp_log_id fp'"
proof -
  obtain xs xs' where "fpath_tstr (fp_create_dir_type fp) t = CHR ''/'' # xs" "fpath_tstr (fp_create_dir_type fp') t' = CHR ''/'' # xs'"
    using tstr_slash by metis
  then obtain ys ys' where "int_text (fp_log_id fp) @ CHR ''/'' # ys = int_text (fp_log_id fp') @ CHR ''/'' # ys'"
    using assms by (simp add: fpath_name_def)
  from split_at_unique [OF this int_text_no_slash int_text_no_slash] show ?thesis using int_text_inject by blast
qed

text \<open>The names a path gives one after the other.\<close>

fun fpath_names :: "ch_fpath \<Rightarrow> (tm \<times> u64) list \<Rightarrow> string list" where
  "fpath_names fp [] = []"
| "fpath_names fp ((t, ms) # ts) = (case ch_fpath_name_create fp t ms of ((fname, _), fp) \<Rightarrow> fname # fpath_names fp ts)"

lemma counter_step:
  assumes "unat (fp_counter fp) < 2 ^ 64 - 1"
  shows "unat (fp_counter (snd (ch_fpath_counter_update fp 1))) = Suc (unat (fp_counter fp)) mod (2 ^ 64 - 1)"
proof -
  have "unat (fp_counter fp + 1) = Suc (unat (fp_counter fp))" using assms by (simp add: unat_plus64)
  then show ?thesis by (simp add: ch_fpath_counter_update_def unat_mod_distrib)
qed

lemma fpath_names_nth:
  assumes "fpath_ok fp" "\<forall>(t, ms)\<in>set ts. tm_year t < 10000" "unat (fp_counter fp) < 2 ^ 64 - 1" "i < length ts"
  shows "\<exists>fp' t ms. fpath_names fp ts ! i = fpath_name fp' t ms \<and> unat (fp_counter fp') = (unat (fp_counter fp) + i) mod (2 ^ 64 - 1) \<and>
    fp_root fp' = fp_root fp \<and> fp_log_id fp' = fp_log_id fp"
  using assms
proof (induction fp ts arbitrary: i rule: fpath_names.induct)
  case (2 fp t ms ts)
  obtain nm tmp fp1 where c: "ch_fpath_name_create fp t ms = ((nm, tmp), fp1)" by (metis prod.exhaust)
  then have fp1: "fp1 = snd (ch_fpath_counter_update fp 1)" by (auto simp: ch_fpath_name_create_def Let_def)
  have nm: "nm = fpath_name fp t ms" using name_create_uncut [of fp t ms] "2.prems" c by simp
  show ?case
  proof (cases i)
    case 0
    then show ?thesis using nm c "2.prems"(3) by (auto intro!: exI [of _ fp])
  next
    case (Suc k)
    have ok: "fpath_ok fp1" "fp_root fp1 = fp_root fp" "fp_log_id fp1 = fp_log_id fp"
      using "2.prems"(1) by (auto simp: fp1 ch_fpath_counter_update_def fpath_ok_def)
    have cnt: "unat (fp_counter fp1) = Suc (unat (fp_counter fp)) mod (2 ^ 64 - 1)" using counter_step [OF "2.prems"(3)] by (simp add: fp1)
    then have "unat (fp_counter fp1) < 2 ^ 64 - 1" by simp
    from "2.IH" [OF c [symmetric] refl ok(1) _ this, of k] "2.prems" Suc obtain fp' t' ms' where
      "fpath_names fp1 ts ! k = fpath_name fp' t' ms'" "unat (fp_counter fp') = (unat (fp_counter fp1) + k) mod (2 ^ 64 - 1)"
      "fp_root fp' = fp_root fp1" "fp_log_id fp' = fp_log_id fp1" by auto
    moreover have "(unat (fp_counter fp1) + k) mod (2 ^ 64 - 1) = (unat (fp_counter fp) + i) mod (2 ^ 64 - 1)"
      using Suc by (simp only: cnt mod_add_left_eq add_Suc add_Suc_right)
    ultimately show ?thesis using c Suc ok by auto
  qed
qed simp

lemma length_fpath_names [simp]: "length (fpath_names fp ts) = length ts"
  by (induction fp ts rule: fpath_names.induct) (auto split: prod.splits)

lemma mod_shift_inject:
  fixes m :: nat
  assumes "i < m" "j < m" "(c + i) mod m = (c + j) mod m"
  shows "i = j"
proof -
  have le: "i = j" if "i \<le> j" "j < m" "(c + j) mod m = (c + i) mod m" for i j
  proof -
    have "m dvd j - i" using that mod_eq_dvd_iff_nat [of "c + i" "c + j" m] by simp
    then show ?thesis using that by (auto dest: dvd_imp_le)
  qed
  show ?thesis using le [of i j] le [of j i] assms by (cases "i \<le> j") auto
qed

lemma fpath_names_one:
  assumes "fpath_ok fp" "\<forall>(t, ms)\<in>set ts. tm_year t < 10000" "unat (fp_counter fp) < 2 ^ 64 - 1" "length ts \<le> 2 ^ 64 - 1"
  shows "distinct (fpath_names fp ts)"
  unfolding distinct_conv_nth length_fpath_names
proof (intro allI impI notI)
  fix i j
  assume ij: "i < length ts" "j < length ts" "i \<noteq> j" "fpath_names fp ts ! i = fpath_names fp ts ! j"
  from fpath_names_nth [OF assms(1-3) ij(1)] fpath_names_nth [OF assms(1-3) ij(2)] ij(4)
  have "(unat (fp_counter fp) + i) mod (2 ^ 64 - 1) = (unat (fp_counter fp) + j) mod (2 ^ 64 - 1)" using name_counter by metis
  then show False using mod_shift_inject ij(1-3) assms(4) by (meson less_le_trans)
qed

lemma fpath_create_ok:
  assumes "ch_fpath_create mal root ty tmp i = Some fp" "- (2 ^ 31) \<le> i" "i < 2 ^ 31"
  shows "fpath_ok fp \<and> fp_root fp = root \<and> fp_log_id fp = i \<and> unat (fp_counter fp) < 2 ^ 64 - 1"
  using assms by (auto simp: ch_fpath_create_def ch_fpath_init_def fpath_ok_def Let_def split: if_splits)

text \<open>
  C18. No two names are the same, whatever the times they are made at: not two of one path, until its counter has gone through its
  2^64 - 1 values, and not names of two paths with the root of one and the same application and different tasks. Names are never cut by their buffer,
  which is what keeps them apart.
\<close>

theorem fpath_names_distinct:
  assumes "ch_fpath_create mal root ty tmp i = Some fp" "ch_fpath_create mal root ty tmp j = Some fp'" "i \<noteq> j"
    "- (2 ^ 31) \<le> i" "i < 2 ^ 31" "- (2 ^ 31) \<le> j" "j < 2 ^ 31"
    "\<forall>(t, ms)\<in>set ts. tm_year t < 10000" "\<forall>(t, ms)\<in>set ts'. tm_year t < 10000" "length ts \<le> 2 ^ 64 - 1" "length ts' \<le> 2 ^ 64 - 1"
  shows "distinct (fpath_names fp ts @ fpath_names fp' ts')"
proof -
  have ok: "fpath_ok fp \<and> fp_root fp = root \<and> fp_log_id fp = i \<and> unat (fp_counter fp) < 2 ^ 64 - 1"
    "fpath_ok fp' \<and> fp_root fp' = root \<and> fp_log_id fp' = j \<and> unat (fp_counter fp') < 2 ^ 64 - 1"
    using assms fpath_create_ok by blast+
  have "distinct (fpath_names fp ts)" "distinct (fpath_names fp' ts')" using ok assms fpath_names_one by blast+
  moreover have "fpath_names fp ts ! k \<noteq> fpath_names fp' ts' ! l" if "k < length ts" "l < length ts'" for k l
    using fpath_names_nth [of fp ts k] fpath_names_nth [of fp' ts' l] ok assms(3,8,9) that name_task by metis
  ultimately show ?thesis by (auto simp: in_set_conv_nth) metis
qed

theorem fpath_names_distinct_witness:
  "\<exists>fp fp'. ch_fpath_create (\<lambda>_. True) ''/data'' BY_SEC False 1 = Some fp \<and> ch_fpath_create (\<lambda>_. True) ''/data'' BY_SEC False 2 = Some fp' \<and>
     (let t = (\<lparr>tm_year = 2018, tm_mon = 9, tm_mday = 14, tm_hour = 11, tm_min = 28, tm_sec = 42\<rparr>, 7)
      in distinct (fpath_names fp [t, t, t] @ fpath_names fp' [t, t]))"
proof -
  let ?t = "(\<lparr>tm_year = 2018, tm_mon = 9, tm_mday = 14, tm_hour = 11, tm_min = 28, tm_sec = 42\<rparr>, 7) :: tm \<times> u64"
  obtain fp fp' where "ch_fpath_create (\<lambda>_. True) ''/data'' BY_SEC False 1 = Some fp" "ch_fpath_create (\<lambda>_. True) ''/data'' BY_SEC False 2 = Some fp'"
    by (simp add: ch_fpath_create_def ch_fpath_init_def Let_def)
  with fpath_names_distinct [OF this, of "[?t, ?t, ?t]" "[?t, ?t]"] show ?thesis by (simp add: Let_def)
qed

end
