(* ===== verification/Tftp_App.thy ===== *)
theory Tftp_App
  imports Dns_Output Udp_Session Fpath
begin

text \<open>
  The TFTP application \<^verbatim>\<open>udp/app/tftp/ch_tftp_app.c\<close> with its sessions (\<^verbatim>\<open>ch_tftp_session.c\<close>, \<^verbatim>\<open>ch_tftp_session.h\<close>) and the
  parsing of packets (\<^verbatim>\<open>do_tftp_packet_parse.c\<close>). A session follows one transfer and writes the data blocks to a file
  of its own. Shown here: the file of a transfer is the file that was transferred, whatever its length,
  and what happens to it when a block is sent again; what is read outside the packet and what is never given back.
\<close>

section \<open>Sessions\<close>

definition OP_RRQ :: u16 where "OP_RRQ = 1"
definition OP_WRQ :: u16 where "OP_WRQ = 2"
definition OP_DATA :: u16 where "OP_DATA = 3"
definition OP_ACK :: u16 where "OP_ACK = 4"
definition OP_ERROR :: u16 where "OP_ERROR = 5"
definition DATA_SIZE :: nat where "DATA_SIZE = 512"

lemmas tftp_op_defs = OP_RRQ_def OP_WRQ_def OP_DATA_def OP_ACK_def OP_ERROR_def

text \<open>Strings are their bytes without the zero; \<open>tf_fp\<close> is the open file as the bytes written to it.\<close>

record ch_tftp_session =
  tf_src_ip :: u32
  tf_dst_ip :: u32
  tf_src_port :: u32
  tf_dst_port :: u32
  tf_is_read :: bool
  tf_is_error :: bool
  tf_last_block :: u16
  tf_fname :: "bytes option"
  tf_mode :: "bytes option"
  tf_errmsg :: "bytes option"
  tf_fpath :: c_string
  tf_fp :: "bytes option"

text \<open>
  What is outside: \<open>te_pool\<close> says whether a memory pool can be had, \<open>te_time n\<close> is the time at the \<open>n\<close>-th name of a file, \<open>te_open\<close>
  says which files can be opened, \<open>te_write\<close> how many of the bytes get into the file.
  The world: the path of the files, the names made so far, the memory pools that sessions hold.
\<close>

record tftp_env =
  te_pool :: bool
  te_time :: "nat \<Rightarrow> tm \<times> u64"
  te_open :: "string \<Rightarrow> bool"
  te_write :: "string \<Rightarrow> bytes \<Rightarrow> nat"

record tftp_world =
  tw_fpath :: ch_fpath
  tw_names :: nat
  tw_pools :: nat

text \<open>Reading of \<open>b\<close>, the memory from the payload to the end of the packet.\<close>

definition READ_UINT16 :: "bytes \<Rightarrow> nat \<Rightarrow> u16 res" where
  "READ_UINT16 b off =
     (if off + 1 < length b then Inr (push_bit 8 (ucast (b ! off)) OR ucast (b ! (off + 1))) else Inl Out_Of_Bounds)"

definition str_at :: "bytes \<Rightarrow> nat \<Rightarrow> bytes res" where
  "str_at b off = (if 0 \<in> set (drop off b) then Inr (takeWhile (\<lambda>x. x \<noteq> 0) (drop off b)) else Inl Out_Of_Bounds)"

definition ch_tftp_session_create :: "udp_pkt \<Rightarrow> ch_tftp_session option res" where
  "ch_tftp_session_create p =
     (case up_data p of
        None \<Rightarrow> Inr None
      | Some b \<Rightarrow>
          if u_payload_len p < 4 then Inr None
          else bind_res (READ_UINT16 b 0) (\<lambda>opcode.
            if opcode \<noteq> OP_RRQ \<and> opcode \<noteq> OP_WRQ then Inr None
            else bind_res (str_at b 2) (\<lambda>fname. bind_res (str_at b (2 + length fname + 1)) (\<lambda>mode.
              Inr (Some \<lparr>tf_src_ip = u_src_ip p, tf_dst_ip = u_dst_ip p, tf_src_port = ucast (u_src_port p), tf_dst_port = ucast (u_dst_port p),
                tf_is_read = (opcode = OP_RRQ), tf_is_error = False, tf_last_block = 0, tf_fname = Some fname, tf_mode = Some mode,
                tf_errmsg = None, tf_fpath = None, tf_fp = None\<rparr>)))))"

definition ch_tftp_session_destroy :: "ch_tftp_session \<Rightarrow> ch_tftp_session" where
  "ch_tftp_session_destroy ts = (if tf_fp ts \<noteq> None then ts\<lparr>tf_fp := None\<rparr> else ts)"

definition ch_tftp_session_write :: "ch_tftp_session option \<Rightarrow> dout_op" where
  "ch_tftp_session_write s mal dout =
     (case s of
        None \<Rightarrow> Inr (0, dout)
      | Some ts \<Rightarrow> dout_seq mal
          [w_uint8 (if tf_is_read ts then 1 else 0), w_uint8 (if tf_is_error ts then 1 else 0), w_string16z (map_option (\<lambda>s. s @ [0]) (tf_fname ts)),
           w_string16z (map_option (\<lambda>s. s @ [0]) (tf_mode ts)), w_string16z (map_option (\<lambda>s. s @ [0]) (tf_errmsg ts)),
           w_string16z (map_option (\<lambda>s. text_bytes s @ [0]) (tf_fpath ts))] 0 dout)"

definition ch_tftp_session_store :: "ch_tftp_session option \<Rightarrow> ch_msgpack_store \<Rightarrow> int \<times> ch_msgpack_store" where
  "ch_tftp_session_store s d =
     (case s of
        None \<Rightarrow> (-1, d)
      | Some ts \<Rightarrow>
          let d = ch_msgpack_store_map_start d (Some ''tftp'') 6;
              d = ch_msgpack_store_write_uint8 d (Some ''isRead'') (if tf_is_read ts then 1 else 0);
              d = ch_msgpack_store_write_uint8 d (Some ''isError'') (if tf_is_error ts then 1 else 0);
              d = ch_msgpack_store_write_kv d ''fname'' (map_option c_string_of (tf_fname ts));
              d = ch_msgpack_store_write_kv d ''mode'' (map_option c_string_of (tf_mode ts));
              d = ch_msgpack_store_write_kv d ''errmsg'' (map_option c_string_of (tf_errmsg ts));
              d = ch_msgpack_store_write_kv d ''fpath'' (tf_fpath ts)
          in (0, d))"

definition ch_tftp_session_fpath_init :: "tftp_env \<Rightarrow> ch_tftp_session \<Rightarrow> string \<Rightarrow> int \<times> ch_tftp_session" where
  "ch_tftp_session_fpath_init env ts fpath =
     (if \<not> te_open env fpath then (-1, ts) else (0, ts\<lparr>tf_fp := Some [], tf_fpath := Some fpath\<rparr>))"

definition ch_tftp_session_file_write :: "tftp_env \<Rightarrow> ch_tftp_session \<Rightarrow> bytes \<Rightarrow> ch_tftp_session res" where
  "ch_tftp_session_file_write env ts data =
     (case tf_fp ts of
        None \<Rightarrow> Inl Null_Deref
      | Some b \<Rightarrow> Inr (ts\<lparr>tf_fp := Some (b @ take (te_write env (the (tf_fpath ts)) data) data)\<rparr>))"

section \<open>Packets\<close>

definition do_file_content_process ::
  "tftp_env \<Rightarrow> ch_tftp_session \<Rightarrow> tftp_world \<Rightarrow> bytes \<Rightarrow> (int \<times> ch_tftp_session \<times> tftp_world) res"
where
  "do_file_content_process env ts w data =
     (let (rc, ts, w) =
        (if tf_fp ts = None then
           let (t, ms) = te_time env (tw_names w);
               ((fname, _), fp) = ch_fpath_name_create (tw_fpath w) t ms;
               w = w\<lparr>tw_fpath := fp, tw_names := tw_names w + 1\<rparr>;
               (rc, ts) = ch_tftp_session_fpath_init env ts fname
           in (if rc \<noteq> 0 then -1 else 0, ts, w)
         else (0 :: int, ts, w))
      in if rc \<noteq> 0 then Inr (-1, ts, w)
         else bind_res (ch_tftp_session_file_write env ts data) (\<lambda>ts. Inr (0, ts, w)))"

text \<open>\<open>b\<close> as above, \<open>n\<close> the length of the payload; \<^verbatim>\<open>fwrite\<close> reads \<^verbatim>\<open>dlen - 4\<close> bytes behind the block number.\<close>

definition do_tftp_packet_parse ::
  "tftp_env \<Rightarrow> ch_tftp_session \<Rightarrow> tftp_world \<Rightarrow> bytes option \<Rightarrow> nat \<Rightarrow> (int \<times> ch_tftp_session \<times> tftp_world) res"
where
  "do_tftp_packet_parse env ts w data n =
     (case data of
        None \<Rightarrow> Inr (PROCESS_CONTINUE, ts, w)
      | Some b \<Rightarrow>
          if n < 4 then Inr (PROCESS_CONTINUE, ts, w)
          else bind_res (READ_UINT16 b 0) (\<lambda>opcode.
            if opcode \<le> OP_WRQ \<or> opcode > OP_ERROR then Inr (PROCESS_CONTINUE, ts, w)
            else if opcode = OP_DATA then
              bind_res (READ_UINT16 b 2) (\<lambda>block.
                if uint block - uint (tf_last_block ts) > 1 then Inr (PROCESS_ERR, ts, w)
                else
                  let ts = ts\<lparr>tf_last_block := block\<rparr>
                  in if n > length b then Inl Out_Of_Bounds
                     else bind_res (do_file_content_process env ts w (take (n - 4) (drop 4 b))) (\<lambda>(rc, ts, w).
                       if rc \<noteq> 0 then Inr (PROCESS_ERR, ts, w)
                       else if n - 4 < DATA_SIZE then Inr (PROCESS_DONE, ts, w)
                       else Inr (PROCESS_CONTINUE, ts, w)))
            else if opcode = OP_ACK then
              bind_res (READ_UINT16 b 2) (\<lambda>block.
                if block \<noteq> 0 \<and> block \<noteq> tf_last_block ts then Inr (PROCESS_ERR, ts, w) else Inr (PROCESS_CONTINUE, ts, w))
            else
              bind_res (str_at b 4) (\<lambda>msg. Inr (PROCESS_DONE, ts\<lparr>tf_is_error := True, tf_errmsg := Some msg\<rparr>, w))))"

section \<open>The application\<close>

definition TFTP_PORT_IS_MATCH :: "udp_pkt \<Rightarrow> bool" where
  "TFTP_PORT_IS_MATCH p \<longleftrightarrow> u_dst_port p = 69"

definition tftp_app_session_create :: "tftp_env \<Rightarrow> udp_pkt \<Rightarrow> tftp_world \<Rightarrow> (ch_tftp_session option \<times> tftp_world) res" where
  "tftp_app_session_create env p w =
     (if \<not> TFTP_PORT_IS_MATCH p then Inr (None, w)
      else if \<not> te_pool env then Inr (None, w)
      else
        let w = w\<lparr>tw_pools := tw_pools w + 1\<rparr>
        in bind_res (ch_tftp_session_create p) (\<lambda>s. Inr (s, w)))"

definition tftp_request_session_equal :: "ch_tftp_session \<Rightarrow> udp_pkt \<Rightarrow> bool" where
  "tftp_request_session_equal ts p \<longleftrightarrow>
     u_src_ip p = tf_dst_ip ts \<and> u_dst_ip p = tf_src_ip ts \<and> ucast (u_dst_port p) = tf_src_port ts"

definition tftp_process_request_session :: "ch_tftp_session \<Rightarrow> udp_pkt \<Rightarrow> int \<times> ch_tftp_session" where
  "tftp_process_request_session ts p =
     (PROCESS_REQ_SESSION_DONE,
      ts\<lparr>tf_src_ip := u_dst_ip p, tf_src_port := ucast (u_dst_port p), tf_dst_ip := u_src_ip p, tf_dst_port := ucast (u_src_port p)\<rparr>)"

definition tftp_is_request :: "ch_tftp_session \<Rightarrow> udp_pkt \<Rightarrow> bool" where
  "tftp_is_request ts p \<longleftrightarrow> tf_dst_port ts = ucast (u_dst_port p)"

definition tftp_req_pkt_process :: "tftp_env \<Rightarrow> ch_tftp_session \<Rightarrow> udp_pkt \<Rightarrow> tftp_world \<Rightarrow> (int \<times> ch_tftp_session \<times> tftp_world) res" where
  "tftp_req_pkt_process env ts p w = do_tftp_packet_parse env ts w (up_data p) (unat (u_payload_len p))"

definition tftp_res_pkt_process :: "tftp_env \<Rightarrow> ch_tftp_session \<Rightarrow> udp_pkt \<Rightarrow> tftp_world \<Rightarrow> (int \<times> ch_tftp_session \<times> tftp_world) res" where
  "tftp_res_pkt_process env ts p w = do_tftp_packet_parse env ts w (up_data p) (unat (u_payload_len p))"

definition tftp_session_write :: "ch_tftp_session option \<Rightarrow> dout_op" where
  "tftp_session_write s mal dout = bind_res (ch_tftp_session_write s mal dout) (\<lambda>(rc, dout). if rc = -1 then Inr (-1, dout) else Inr (0 + rc, dout))"

definition tftp_session_store :: "ch_tftp_session option \<Rightarrow> ch_msgpack_store \<Rightarrow> int \<times> ch_msgpack_store" where
  "tftp_session_store s d = ch_tftp_session_store s d"

definition tftp_session_fin :: "ch_tftp_session \<Rightarrow> tftp_world \<Rightarrow> ch_tftp_session \<times> tftp_world" where
  "tftp_session_fin ts w = (ch_tftp_session_destroy ts, w\<lparr>tw_pools := tw_pools w - 1\<rparr>)"

text \<open>The application as the UDP handlers call it: \<^verbatim>\<open>tftp_app\<close>.\<close>

definition PKT_RECORD_TYPE_UDP_TFTP :: u8 where "PKT_RECORD_TYPE_UDP_TFTP = 7"

definition tftp_app :: "tftp_env \<Rightarrow> (ch_tftp_session, tftp_world) ch_udp_app" where
  "tftp_app env = \<lparr>ua_type = PKT_RECORD_TYPE_UDP_TFTP, ua_session_create = tftp_app_session_create env,
     process_request_session = Some (\<lambda>ts p w. let (rc, ts) = tftp_process_request_session ts p in Inr (rc, ts, w)),
     request_session_equal = tftp_request_session_equal, ua_is_request = tftp_is_request,
     req_pkt_process = tftp_req_pkt_process env, res_pkt_process = tftp_res_pkt_process env,
     ua_session_write = (\<lambda>ts. tftp_session_write (Some ts)), ua_session_store = (\<lambda>ts d. Inr (tftp_session_store (Some ts) d)),
     ua_session_isMyProto = None, ua_session_target_get = None, ua_session_fin = Some (\<lambda>ts w. snd (tftp_session_fin ts w))\<rparr>"

text \<open>At the start; \<open>fdir\<close> and \<open>ty\<close> are what the configuration says, if it can be read.\<close>

definition ch_tftp_app_init :: "(nat \<Rightarrow> bool) \<Rightarrow> (string \<times> int) option \<Rightarrow> tftp_world option" where
  "ch_tftp_app_init mal cfg =
     (case cfg of
        None \<Rightarrow> None
      | Some (fdir, ty) \<Rightarrow>
          (case ch_fpath_create mal fdir ty False 0 of
             None \<Rightarrow> None
           | Some fp \<Rightarrow> Some \<lparr>tw_fpath = fp, tw_names = 0, tw_pools = 0\<rparr>))"

section \<open>The contract of an application\<close>

text \<open>
  The packets that the application reads without a fault: the payload lies in the packet, and the data of the packet end with two zeros behind it, where
  the reading of strings stops at the latest.
\<close>

definition tftp_pkt_ok :: "udp_pkt \<Rightarrow> bool" where
  "tftp_pkt_ok p \<longleftrightarrow> (\<forall>b. up_data p = Some b \<longrightarrow> (\<exists>m. b = m @ [0, 0] \<and> unat (u_payload_len p) \<le> length m))"

lemma READ_UINT16_inside: "off + 1 < length b \<Longrightarrow> \<exists>v. READ_UINT16 b off = Inr v"
  by (simp add: READ_UINT16_def)

lemma str_at_inside:
  assumes "off \<le> length m"
  shows "\<exists>t. str_at (m @ [0, 0]) off = Inr t \<and> off + length t \<le> length m"
proof -
  have "length (takeWhile (\<lambda>x. x \<noteq> 0) (xs @ [0, 0])) \<le> length xs" for xs :: bytes by (induction xs) auto
  from this [of "drop off m"] show ?thesis using assms by (auto simp: str_at_def)
qed

lemma str_at_last: "\<exists>t. str_at (m @ [0, 0]) (length m + 1) = Inr t"
  by (simp add: str_at_def)

lemma session_create_returns:
  assumes "tftp_pkt_ok p"
  shows "\<exists>r. ch_tftp_session_create p = Inr r"
proof (cases "up_data p")
  case (Some b)
  then obtain m where m: "b = m @ [0, 0]" "unat (u_payload_len p) \<le> length m" using assms by (auto simp: tftp_pkt_ok_def)
  show ?thesis
  proof (cases "u_payload_len p < 4")
    case False
    then have n: "4 \<le> length m" using m(2) by (simp add: word_less_nat_alt)
    then obtain op where op: "READ_UINT16 b 0 = Inr op" using READ_UINT16_inside [of 0 b] m(1) by auto
    obtain f where f: "str_at b 2 = Inr f" "2 + length f \<le> length m" using str_at_inside [of 2 m] n m(1) by auto
    obtain md where "str_at b (2 + length f + 1) = Inr md"
    proof (cases "2 + length f = length m")
      case True
      then show ?thesis using that str_at_last [of m] m(1) by auto
    next
      case False
      then show ?thesis using that str_at_inside [of "2 + length f + 1" m] f(2) m(1) by auto
    qed
    then show ?thesis using Some False op f(1) by (simp add: ch_tftp_session_create_def)
  qed (use Some in \<open>simp add: ch_tftp_session_create_def\<close>)
qed (simp add: ch_tftp_session_create_def)

lemma file_content_returns: "\<exists>rc ts' w'. do_file_content_process env ts w data = Inr (rc, ts', w')"
  by (auto simp: do_file_content_process_def ch_tftp_session_fpath_init_def ch_tftp_session_file_write_def Let_def split: prod.splits option.splits)

lemma packet_parse_returns:
  assumes "tftp_pkt_ok p"
  shows "\<exists>rc ts' w'. do_tftp_packet_parse env ts w (up_data p) (unat (u_payload_len p)) = Inr (rc, ts', w')"
proof (cases "up_data p")
  case (Some b)
  then obtain m where m: "b = m @ [0, 0]" "unat (u_payload_len p) \<le> length m" using assms by (auto simp: tftp_pkt_ok_def)
  show ?thesis
  proof (cases "unat (u_payload_len p) < 4")
    case False
    let ?n = "unat (u_payload_len p)"
    have n: "4 \<le> length m" "?n \<le> length b" using False m by simp_all
    obtain op where op: "READ_UINT16 b 0 = Inr op" using READ_UINT16_inside [of 0 b] n m(1) by auto
    obtain bl where bl: "READ_UINT16 b 2 = Inr bl" using READ_UINT16_inside [of 2 b] n m(1) by auto
    obtain msg where msg: "str_at b 4 = Inr msg" using str_at_inside [of 4 m] n m(1) by auto
    obtain rc ts' w' where c: "do_file_content_process env (ts\<lparr>tf_last_block := bl\<rparr>) w (take (?n - 4) (drop 4 b)) = Inr (rc, ts', w')"
      using file_content_returns by blast
    show ?thesis using Some False op bl msg c n(2) by (auto simp: do_tftp_packet_parse_def Let_def)
  qed (use Some in \<open>simp add: do_tftp_packet_parse_def\<close>)
qed (simp add: do_tftp_packet_parse_def)

interpretation tftp: udp_application tftp_pkt_ok "\<lambda>_. True" "tftp_app env" for env
proof
  fix p :: udp_pkt and w a f rt hex d and g :: "ch_tftp_session \<Rightarrow> ch_rule_target \<Rightarrow> bool \<Rightarrow> c_string res"
  assume p: "tftp_pkt_ok p"
  show "\<exists>r w'. ua_session_create (tftp_app env) p w = Inr (r, w') \<and> (\<forall>a. r = Some a \<longrightarrow> True)"
    using session_create_returns [OF p] by (auto simp: tftp_app_def tftp_app_session_create_def Let_def)
  show "\<exists>rc a' w'. f a p w = Inr (rc, a', w') \<and> True" if "process_request_session (tftp_app env) = Some f"
    using that by (auto simp: tftp_app_def split: prod.splits)
  show "\<exists>rc a' w'. req_pkt_process (tftp_app env) a p w = Inr (rc, a', w') \<and> True"
    using packet_parse_returns [OF p] by (auto simp: tftp_app_def tftp_req_pkt_process_def)
  show "\<exists>rc a' w'. res_pkt_process (tftp_app env) a p w = Inr (rc, a', w') \<and> True"
    using packet_parse_returns [OF p] by (auto simp: tftp_app_def tftp_res_pkt_process_def)
next
  fix a d rt hex and g :: "ch_tftp_session \<Rightarrow> ch_rule_target \<Rightarrow> bool \<Rightarrow> c_string res"
  show "\<exists>rc d'. ua_session_store (tftp_app env) a d = Inr (rc, d')" by (auto simp: tftp_app_def)
  show "\<exists>t. g a rt hex = Inr t" if "ua_session_target_get (tftp_app env) = Some g" using that by (simp add: tftp_app_def)
qed

section \<open>A transfer\<close>

text \<open>A file is sent in blocks of 512 bytes and a last one that is shorter.\<close>

function file_blocks :: "bytes \<Rightarrow> bytes list" where
  "file_blocks f = (if length f < DATA_SIZE then [f] else take DATA_SIZE f # file_blocks (drop DATA_SIZE f))"
  by auto
termination by (relation "measure length") (auto simp: DATA_SIZE_def)

declare file_blocks.simps [simp del]

definition be16_bytes :: "u16 \<Rightarrow> bytes" where
  "be16_bytes v = [ucast (drop_bit 8 v), ucast v]"

definition tftp_data :: "nat \<Rightarrow> bytes \<Rightarrow> bytes" where
  "tftp_data k d = [0, 3] @ be16_bytes (of_nat k) @ d"

definition tftp_ack :: "nat \<Rightarrow> bytes" where
  "tftp_ack k = [0, 4] @ be16_bytes (of_nat k)"

text \<open>
  The sendings of a block: a block is sent again when its acknowledgement does not arrive; \<open>as\<close> says for every time it is sent whether an
  acknowledgement of it is seen afterwards. Then the blocks that follow.
\<close>

fun block_sends :: "nat \<Rightarrow> bytes \<Rightarrow> bool list \<Rightarrow> bytes list" where
  "block_sends k d [] = []"
| "block_sends k d (a # as) = tftp_data k d # (if a then [tftp_ack k] else []) @ block_sends k d as"

fun tftp_sends :: "nat \<Rightarrow> (bytes \<times> bool list) list \<Rightarrow> bytes list" where
  "tftp_sends k [] = []"
| "tftp_sends k ((d, as) # bs) = block_sends k d as @ tftp_sends (k + 1) bs"

definition sent_bytes :: "(bytes \<times> bool list) list \<Rightarrow> bytes" where
  "sent_bytes bs = concat (map (\<lambda>(d, as). concat (replicate (length as) d)) bs)"

definition tftp_request :: "bool \<Rightarrow> bytes \<Rightarrow> bytes \<Rightarrow> bytes" where
  "tftp_request is_read fname mode = [0, if is_read then 1 else 2] @ fname @ [0] @ mode @ [0]"

text \<open>
  The packets of a transfer after the request, \<open>sent\<close> the sendings of the blocks but the last, in their order; the last block ends the transfer. And what the
  sendings make of the file.
\<close>

definition tftp_transfer :: "bool \<Rightarrow> bytes \<Rightarrow> bool list list \<Rightarrow> bytes list" where
  "tftp_transfer is_read f sent =
     (let bs = file_blocks f
      in (if is_read then [] else [tftp_ack 0]) @ tftp_sends 1 (zip (butlast bs) sent) @ [tftp_data (length bs) (List.last bs)])"

definition file_as_sent :: "bytes \<Rightarrow> bool list list \<Rightarrow> bytes" where
  "file_as_sent f sent = sent_bytes (zip (butlast (file_blocks f)) sent) @ List.last (file_blocks f)"

text \<open>The payload of a packet, with anything behind it up to the end of the frame.\<close>

definition carries :: "udp_pkt \<Rightarrow> bytes \<Rightarrow> bool" where
  "carries p m \<longleftrightarrow> unat (u_payload_len p) = length m \<and> (\<exists>pad. up_data p = Some (m @ pad))"

text \<open>The packets of a session given to the application, and what it answers.\<close>

fun tftp_run :: "tftp_env \<Rightarrow> ch_tftp_session \<Rightarrow> tftp_world \<Rightarrow> udp_pkt list \<Rightarrow> (int list \<times> ch_tftp_session \<times> tftp_world) res" where
  "tftp_run env ts w [] = Inr ([], ts, w)"
| "tftp_run env ts w (p # ps) =
     bind_res (if tftp_is_request ts p then tftp_req_pkt_process env ts p w else tftp_res_pkt_process env ts p w) (\<lambda>(rc, ts, w).
       bind_res (tftp_run env ts w ps) (\<lambda>(rcs, ts, w). Inr (rc # rcs, ts, w)))"

lemma be16_read: "READ_UINT16 (x # y # be16_bytes v @ zs) 2 = Inr v"
proof -
  have "push_bit 8 (ucast (ucast (drop_bit 8 v) :: u8)) OR ucast (ucast v :: u8) = (v :: u16)"
    by (rule bit_word_eqI) (auto simp: bit_or_iff bit_push_bit_iff bit_unsigned_iff bit_drop_bit_eq)
  then show ?thesis by (simp add: READ_UINT16_def be16_bytes_def)
qed

lemma op_read: "READ_UINT16 (0 # x # zs) 0 = Inr (ucast x)"
  by (simp add: READ_UINT16_def)

text \<open>The next name of a file, and the world after it is made.\<close>

definition tftp_name :: "tftp_env \<Rightarrow> tftp_world \<Rightarrow> string" where
  "tftp_name env w = (case te_time env (tw_names w) of (t, ms) \<Rightarrow> fst (fst (ch_fpath_name_create (tw_fpath w) t ms)))"

definition tftp_next :: "tftp_env \<Rightarrow> tftp_world \<Rightarrow> tftp_world" where
  "tftp_next env w = (case te_time env (tw_names w) of (t, ms) \<Rightarrow>
     w\<lparr>tw_fpath := snd (ch_fpath_name_create (tw_fpath w) t ms), tw_names := tw_names w + 1\<rparr>)"

text \<open>The session and the world when \<open>d\<close> was written to the file.\<close>

definition tftp_wrote :: "tftp_env \<Rightarrow> tftp_world \<Rightarrow> ch_tftp_session \<Rightarrow> bytes \<Rightarrow> ch_tftp_session" where
  "tftp_wrote env w ts d =
     (case tf_fp ts of
        None \<Rightarrow> ts\<lparr>tf_fpath := Some (tftp_name env w), tf_fp := Some d\<rparr>
      | Some c \<Rightarrow> ts\<lparr>tf_fp := Some (c @ d)\<rparr>)"

definition tftp_opened :: "tftp_env \<Rightarrow> tftp_world \<Rightarrow> ch_tftp_session \<Rightarrow> tftp_world" where
  "tftp_opened env w ts = (if tf_fp ts = None then tftp_next env w else w)"

definition files_work :: "tftp_env \<Rightarrow> bool" where
  "files_work env \<longleftrightarrow> (\<forall>n. te_open env n) \<and> (\<forall>n d. te_write env n d = length d)"

lemma content_process:
  assumes "files_work env"
  shows "do_file_content_process env ts w d = Inr (0, tftp_wrote env w ts d, tftp_opened env w ts)"
  using assms
  by (auto simp: do_file_content_process_def ch_tftp_session_fpath_init_def ch_tftp_session_file_write_def files_work_def tftp_wrote_def
      tftp_opened_def tftp_name_def tftp_next_def Let_def split: prod.splits option.splits)

lemma tftp_process_eq:
  "(if tftp_is_request ts p then tftp_req_pkt_process env ts p w else tftp_res_pkt_process env ts p w) =
   do_tftp_packet_parse env ts w (up_data p) (unat (u_payload_len p))"
  by (simp add: tftp_req_pkt_process_def tftp_res_pkt_process_def)

lemma data_parse:
  assumes "files_work env" "carries p (tftp_data k d)" "uint (of_nat k :: u16) - uint (tf_last_block ts) \<le> 1"
  shows "do_tftp_packet_parse env ts w (up_data p) (unat (u_payload_len p)) =
    Inr (if length d < DATA_SIZE then PROCESS_DONE else PROCESS_CONTINUE,
      tftp_wrote env w (ts\<lparr>tf_last_block := of_nat k\<rparr>) d, tftp_opened env w ts)"
proof -
  obtain pad where p: "up_data p = Some (0 # 3 # be16_bytes (of_nat k) @ d @ pad)" "unat (u_payload_len p) = length d + 4"
    using assms(2) by (auto simp: carries_def tftp_data_def be16_bytes_def)
  have o: "tftp_opened env w (ts\<lparr>tf_last_block := v\<rparr>) = tftp_opened env w ts" for v by (simp add: tftp_opened_def)
  have "take (length d) (drop 4 (0 # 3 # be16_bytes (of_nat k) @ d @ pad)) = d" by (simp add: be16_bytes_def)
  moreover have "length (be16_bytes (of_nat k)) = 2" by (simp add: be16_bytes_def)
  ultimately show ?thesis
    using assms(3) unfolding p do_tftp_packet_parse_def
    by (simp add: op_read be16_read content_process [OF assms(1)] tftp_op_defs o Let_def)
qed

lemma ack_parse:
  assumes "carries p (tftp_ack k)" "of_nat k = (0 :: u16) \<or> of_nat k = tf_last_block ts"
  shows "do_tftp_packet_parse env ts w (up_data p) (unat (u_payload_len p)) = Inr (PROCESS_CONTINUE, ts, w)"
proof -
  obtain pad where p: "up_data p = Some (0 # 4 # be16_bytes (of_nat k) @ pad)" "unat (u_payload_len p) = 4"
    using assms(1) by (auto simp: carries_def tftp_ack_def be16_bytes_def)
  show ?thesis using assms(2) unfolding p do_tftp_packet_parse_def by (auto simp: op_read be16_read tftp_op_defs)
qed

lemma block_step: "uint (of_nat (Suc k) :: u16) - uint (of_nat k :: u16) \<le> 1"
proof -
  have "uint (x + 1) \<le> uint x + 1" for x :: u16 using uint_add_le [of x 1] by simp
  from this [of "of_nat k"] show ?thesis by (simp add: add.commute)
qed

lemma wrote_last: "(tftp_wrote env w (ts\<lparr>tf_last_block := a\<rparr>) d)\<lparr>tf_last_block := b\<rparr> = tftp_wrote env w (ts\<lparr>tf_last_block := b\<rparr>) d"
  by (simp add: tftp_wrote_def split: option.splits)

lemma wrote_twice: "tftp_wrote env w' (tftp_wrote env w ts d) d' = tftp_wrote env w ts (d @ d')"
  by (auto simp: tftp_wrote_def split: option.splits)

lemma opened_wrote: "tftp_opened env w' (tftp_wrote env w ts d) = w'"
  by (auto simp: tftp_wrote_def tftp_opened_def split: option.splits)

lemma wrote_fields [simp]:
  "tf_last_block (tftp_wrote env w ts d) = tf_last_block ts"
  "tf_fname (tftp_wrote env w ts d) = tf_fname ts"
  "tf_mode (tftp_wrote env w ts d) = tf_mode ts"
  "tf_is_read (tftp_wrote env w ts d) = tf_is_read ts"
  "tf_is_error (tftp_wrote env w ts d) = tf_is_error ts"
  by (simp_all add: tftp_wrote_def split: option.splits)

lemma tftp_run_append:
  "tftp_run env ts w (ps @ qs) =
   bind_res (tftp_run env ts w ps) (\<lambda>(rcs, ts, w). bind_res (tftp_run env ts w qs) (\<lambda>(rcs', ts, w). Inr (rcs @ rcs', ts, w)))"
  by (induction ps arbitrary: ts w) (auto simp: bind_res_def split: sum.splits prod.splits)

text \<open>One sending, with the acknowledgement where there is one.\<close>

lemma one_send_run:
  assumes "files_work env" "list_all2 carries ps (tftp_data k d # (if a then [tftp_ack k] else []))" "length d = DATA_SIZE"
    "uint (of_nat k :: u16) - uint (tf_last_block ts) \<le> 1"
  shows "tftp_run env ts w ps =
    Inr (replicate (length ps) PROCESS_CONTINUE, tftp_wrote env w (ts\<lparr>tf_last_block := of_nat k\<rparr>) d, tftp_opened env w ts)"
proof -
  let ?ts = "tftp_wrote env w (ts\<lparr>tf_last_block := of_nat k\<rparr>) d"
  obtain p ps' where p: "ps = p # ps'" "carries p (tftp_data k d)" "list_all2 carries ps' (if a then [tftp_ack k] else [])"
    using assms(2) by (auto simp: list_all2_Cons2)
  have d: "do_tftp_packet_parse env ts w (up_data p) (unat (u_payload_len p)) = Inr (PROCESS_CONTINUE, ?ts, tftp_opened env w ts)"
    using data_parse [OF assms(1) p(2) assms(4), of w] assms(3) by simp
  have "tftp_run env ?ts w' ps' = Inr (replicate (length ps') PROCESS_CONTINUE, ?ts, w')" for w'
  proof (cases a)
    case True
    then obtain q where q: "ps' = [q]" "carries q (tftp_ack k)" using p(3) by (auto simp: list_all2_Cons2)
    show ?thesis using ack_parse [OF q(2), of ?ts env w'] unfolding q(1) tftp_run.simps tftp_process_eq by simp
  qed (use p(3) in simp)
  then show ?thesis unfolding p(1) tftp_run.simps tftp_process_eq d by simp
qed

lemma block_sends_run:
  assumes "files_work env" "list_all2 carries ps (block_sends k d as)" "as \<noteq> []" "length d = DATA_SIZE"
    "uint (of_nat k :: u16) - uint (tf_last_block ts) \<le> 1"
  shows "tftp_run env ts w ps =
    Inr (replicate (length ps) PROCESS_CONTINUE, tftp_wrote env w (ts\<lparr>tf_last_block := of_nat k\<rparr>) (concat (replicate (length as) d)), tftp_opened env w ts)"
  using assms(2,3,5)
proof (induction as arbitrary: ps ts w)
  case (Cons a as)
  let ?ts = "tftp_wrote env w (ts\<lparr>tf_last_block := of_nat k\<rparr>) d"
  have "list_all2 carries ps ((tftp_data k d # (if a then [tftp_ack k] else [])) @ block_sends k d as)" using Cons.prems(1) by simp
  then obtain ps1 ps2 where ps: "ps = ps1 @ ps2" "list_all2 carries ps1 (tftp_data k d # (if a then [tftp_ack k] else []))"
    "list_all2 carries ps2 (block_sends k d as)" unfolding list_all2_append2 by blast
  note first = one_send_run [OF assms(1) ps(2) assms(4) Cons.prems(3), of w]
  show ?case
  proof (cases "as = []")
    case True
    then show ?thesis using first ps by simp
  next
    case False
    have "tftp_run env ?ts w' ps2 = Inr (replicate (length ps2) PROCESS_CONTINUE,
        tftp_wrote env w' (?ts\<lparr>tf_last_block := of_nat k\<rparr>) (concat (replicate (length as) d)), tftp_opened env w' ?ts)" for w'
      by (rule Cons.IH [OF ps(3) False]) simp
    then show ?thesis unfolding ps(1) tftp_run_append first
      by (simp add: wrote_last wrote_twice opened_wrote replicate_add)
  qed
qed simp

lemma transfer_run:
  assumes "files_work env" "list_all2 carries ps (tftp_sends (Suc k) bs @ [tftp_data (Suc k + length bs) d])"
    "\<forall>(b, as) \<in> set bs. length b = DATA_SIZE \<and> as \<noteq> []" "length d < DATA_SIZE" "tf_last_block ts = of_nat k"
  shows "tftp_run env ts w ps = Inr (replicate (length ps - 1) PROCESS_CONTINUE @ [PROCESS_DONE],
    tftp_wrote env w (ts\<lparr>tf_last_block := of_nat (Suc k + length bs)\<rparr>) (sent_bytes bs @ d), tftp_opened env w ts)"
  using assms(2,3,5)
proof (induction bs arbitrary: k ps ts w)
  case Nil
  then obtain p where p: "ps = [p]" "carries p (tftp_data (Suc k) d)" by (auto simp: list_all2_Cons2)
  show ?case using data_parse [OF assms(1) p(2), of ts w] block_step [of k] Nil.prems(3) assms(4)
    unfolding p(1) tftp_run.simps tftp_process_eq by (simp add: sent_bytes_def del: of_nat_Suc of_nat_add)
next
  case (Cons b bs)
  obtain x as where b: "b = (x, as)" by fastforce
  have "list_all2 carries ps (block_sends (Suc k) x as @ tftp_sends (Suc (Suc k)) bs @ [tftp_data (Suc (Suc k) + length bs) d])"
    using Cons.prems(1) b by simp
  then obtain ps1 ps2 where ps: "ps = ps1 @ ps2" "list_all2 carries ps1 (block_sends (Suc k) x as)"
    "list_all2 carries ps2 (tftp_sends (Suc (Suc k)) bs @ [tftp_data (Suc (Suc k) + length bs) d])" unfolding list_all2_append2 by blast
  have x: "length x = DATA_SIZE" "as \<noteq> []" "uint (of_nat (Suc k) :: u16) - uint (tf_last_block ts) \<le> 1"
    using Cons.prems(2,3) b block_step [of k] by auto
  let ?ts = "tftp_wrote env w (ts\<lparr>tf_last_block := of_nat (Suc k)\<rparr>) (concat (replicate (length as) x))"
  have rest: "tftp_run env ?ts w' ps2 = Inr (replicate (length ps2 - 1) PROCESS_CONTINUE @ [PROCESS_DONE],
      tftp_wrote env w' (?ts\<lparr>tf_last_block := of_nat (Suc (Suc k) + length bs)\<rparr>) (sent_bytes bs @ d), tftp_opened env w' ?ts)" for w'
    by (rule Cons.IH [OF ps(3)]) (use Cons.prems(2) in auto)
  have "ps2 \<noteq> []" using ps(3) by auto
  then have "length ps - 1 = length ps1 + (length ps2 - 1)" using ps(1) by (cases ps2) simp_all
  then have "replicate (length ps - 1) PROCESS_CONTINUE = replicate (length ps1) PROCESS_CONTINUE @ replicate (length ps2 - 1) PROCESS_CONTINUE"
    by (simp only: replicate_add)
  moreover have "sent_bytes (b # bs) = concat (replicate (length as) x) @ sent_bytes bs" by (simp add: sent_bytes_def b)
  moreover have "Suc k + length (b # bs) = Suc (Suc k) + length bs" by simp
  ultimately show ?case
    unfolding ps(1) tftp_run_append block_sends_run [OF assms(1) ps(2) x(2,1,3), of w]
    by (simp add: rest wrote_last wrote_twice opened_wrote del: of_nat_Suc of_nat_add)
qed

text \<open>When every block is sent once, what is sent is the file.\<close>

lemma sent_once: "length sent = length bs \<Longrightarrow> \<forall>as \<in> set sent. length as = 1 \<Longrightarrow> sent_bytes (zip bs sent) = concat bs"
  by (induction sent bs rule: list_induct2) (auto simp: sent_bytes_def)

lemma file_blocks_shape:
  "file_blocks f \<noteq> [] \<and> (\<forall>d\<in>set (butlast (file_blocks f)). length d = DATA_SIZE) \<and> length (List.last (file_blocks f)) < DATA_SIZE \<and>
   concat (file_blocks f) = f"
proof (induction f rule: file_blocks.induct)
  case (1 f)
  show ?case
  proof (cases "length f < DATA_SIZE")
    case True
    then show ?thesis by (simp add: file_blocks.simps)
  next
    case False
    then have f: "file_blocks f = take DATA_SIZE f # file_blocks (drop DATA_SIZE f)" by (subst file_blocks.simps) simp
    have ne: "file_blocks (drop DATA_SIZE f) \<noteq> []" and all: "\<forall>d\<in>set (butlast (file_blocks (drop DATA_SIZE f))). length d = DATA_SIZE"
      and l: "length (List.last (file_blocks (drop DATA_SIZE f))) < DATA_SIZE" and c: "concat (file_blocks (drop DATA_SIZE f)) = drop DATA_SIZE f"
      using 1 [OF False] by blast+
    have "length (take DATA_SIZE f) = DATA_SIZE" using False by simp
    then show ?thesis unfolding f using ne all l c by (simp only: butlast.simps last.simps if_False list.set ball_simps concat.simps append_take_drop_id) simp
  qed
qed

lemma length_file_blocks: "length (file_blocks f) = length f div DATA_SIZE + 1"
proof (induction f rule: file_blocks.induct)
  case (1 f)
  show ?case
  proof (cases "length f < DATA_SIZE")
    case False
    then have "file_blocks f = take DATA_SIZE f # file_blocks (drop DATA_SIZE f)" by (subst file_blocks.simps) simp
    with 1 [OF False] False show ?thesis by (simp add: DATA_SIZE_def le_div_geq)
  qed (simp add: file_blocks.simps)
qed

lemma request_session:
  assumes "carries p (tftp_request is_read fname mode)" "0 \<notin> set fname" "0 \<notin> set mode"
  shows "\<exists>ts. ch_tftp_session_create p = Inr (Some ts) \<and> tf_last_block ts = 0 \<and> tf_fp ts = None \<and> tf_fname ts = Some fname \<and>
    tf_mode ts = Some mode \<and> tf_is_read ts = is_read \<and> \<not> tf_is_error ts"
proof -
  obtain pad where p: "up_data p = Some (0 # (if is_read then 1 else 2) # fname @ 0 # mode @ 0 # pad)" "unat (u_payload_len p) \<ge> 4"
    using assms(1) by (auto simp: carries_def tftp_request_def)
  have strip: "takeWhile (\<lambda>x. x \<noteq> 0) (xs @ 0 # ys) = xs" if "0 \<notin> set xs" for xs ys :: bytes using that by (induction xs) auto
  have "str_at (0 # (if is_read then 1 else 2) # fname @ 0 # mode @ 0 # pad) 2 = Inr fname" by (simp add: str_at_def strip [OF assms(2)])
  moreover have "str_at (0 # (if is_read then 1 else 2) # fname @ 0 # mode @ 0 # pad) (2 + length fname + 1) = Inr mode"
    by (simp add: str_at_def strip [OF assms(3)])
  moreover have "\<not> u_payload_len p < 4" using p(2) by (simp add: word_less_nat_alt)
  ultimately show ?thesis
    unfolding ch_tftp_session_create_def p by (cases is_read) (simp_all add: op_read tftp_op_defs)
qed

lemma file_as_sent_once:
  assumes "length sent = length (file_blocks f) - 1" "\<forall>as \<in> set sent. length as = 1"
  shows "file_as_sent f sent = f"
proof -
  have "sent_bytes (zip (butlast (file_blocks f)) sent) = concat (butlast (file_blocks f))" using sent_once assms by simp
  moreover have "concat (butlast (file_blocks f)) @ List.last (file_blocks f) = concat (file_blocks f)"
    using file_blocks_shape [of f] by (metis append_butlast_last_id concat_append concat.simps append_Nil2)
  ultimately show ?thesis using file_blocks_shape [of f] by (simp add: file_as_sent_def)
qed

text \<open>
  C17. A transfer is stored block by block as it is sent: after the request, read or write, whatever the file, the session that the request gives takes
  the packets of the transfer, in which each block but the last may be sent again any number of times before the next, each time acknowledged or not. It asks for
  more after each packet but the last, is done with the last, and then its file, the next of the path, holds every block as often as
  it was sent: the bytes of the file that was transferred when every block was sent once, and else the repetitions as well. The block numbers have
  16 bits; a file of more than 65535 blocks, whose numbers start again at zero, is stored in the same way.
\<close>

theorem tftp_transfer_stored:
  assumes "files_work env" "te_pool env" "u_dst_port p0 = 69" "carries p0 (tftp_request is_read fname mode)" "0 \<notin> set fname" "0 \<notin> set mode"
    "length sent = length (file_blocks f) - 1" "[] \<notin> set sent" "list_all2 carries ps (tftp_transfer is_read f sent)"
  shows "\<exists>ts w1 ts' w'. tftp_app_session_create env p0 w = Inr (Some ts, w1) \<and>
    tftp_run env (snd (tftp_process_request_session ts (hd ps))) w1 ps = Inr (replicate (length ps - 1) PROCESS_CONTINUE @ [PROCESS_DONE], ts', w') \<and>
    tf_fp ts' = Some (file_as_sent f sent) \<and> ((\<forall>as \<in> set sent. length as = 1) \<longrightarrow> tf_fp ts' = Some f) \<and>
    tf_fpath ts' = Some (tftp_name env w) \<and> tf_fname ts' = Some fname \<and> tf_mode ts' = Some mode \<and> tf_is_read ts' = is_read \<and> \<not> tf_is_error ts'"
proof -
  let ?w1 = "w\<lparr>tw_pools := tw_pools w + 1\<rparr>"
  obtain ts where ts: "ch_tftp_session_create p0 = Inr (Some ts)" "tf_last_block ts = 0" "tf_fp ts = None" "tf_fname ts = Some fname"
    "tf_mode ts = Some mode" "tf_is_read ts = is_read" "\<not> tf_is_error ts" using request_session [OF assms(4-6)] by blast
  let ?ts = "snd (tftp_process_request_session ts (hd ps))"
  let ?bs = "zip (butlast (file_blocks f)) sent" and ?last = "List.last (file_blocks f)"
  let ?ts' = "tftp_wrote env ?w1 (?ts\<lparr>tf_last_block := of_nat (Suc 0 + length ?bs)\<rparr>) (file_as_sent f sent)"
  have create: "tftp_app_session_create env p0 w = Inr (Some ts, ?w1)"
    using assms(2,3) ts(1) by (simp add: tftp_app_session_create_def TFTP_PORT_IS_MATCH_def Let_def)
  have s: "tf_last_block ?ts = of_nat 0" "tf_fp ?ts = None" using ts by (simp_all add: tftp_process_request_session_def)
  note shape = file_blocks_shape [of f]
  have n: "length (file_blocks f) = Suc 0 + length ?bs" using shape assms(7) by (cases "file_blocks f") simp_all
  have blocks: "\<forall>(b, as) \<in> set ?bs. length b = DATA_SIZE \<and> as \<noteq> []" using shape assms(8) by (auto dest: set_zip_leftD set_zip_rightD)
  have run: "tftp_run env ?ts ?w1 qs = Inr (replicate (length qs - 1) PROCESS_CONTINUE @ [PROCESS_DONE], ?ts', tftp_opened env ?w1 ?ts)"
    if "list_all2 carries qs (tftp_sends 1 ?bs @ [tftp_data (length (file_blocks f)) ?last])" for qs
    using transfer_run [OF assms(1) _ blocks _ s(1), of qs ?last ?w1] that shape unfolding n by (simp add: file_as_sent_def)
  have "tftp_run env ?ts ?w1 ps = Inr (replicate (length ps - 1) PROCESS_CONTINUE @ [PROCESS_DONE], ?ts', tftp_opened env ?w1 ?ts)"
  proof (cases is_read)
    case True
    then show ?thesis using run assms(9) by (simp add: tftp_transfer_def Let_def)
  next
    case False
    then obtain p qs where ps: "ps = p # qs" "carries p (tftp_ack 0)" "list_all2 carries qs (tftp_sends 1 ?bs @ [tftp_data (length (file_blocks f)) ?last])"
      using assms(9) by (auto simp: tftp_transfer_def Let_def list_all2_Cons2)
    then have "qs \<noteq> []" by auto
    then have len: "length ps - 1 = Suc (length qs - 1)" using ps(1) by (cases qs) simp_all
    have "tftp_run env ?ts ?w1 (p # qs) = Inr (replicate (Suc (length qs - 1)) PROCESS_CONTINUE @ [PROCESS_DONE], ?ts', tftp_opened env ?w1 ?ts)"
      using run [OF ps(3)] ack_parse [OF ps(2), of ?ts env ?w1] unfolding tftp_run.simps tftp_process_eq by simp
    then show ?thesis unfolding len by (simp only: ps(1) [symmetric])
  qed
  moreover have "tf_fp ?ts' = Some (file_as_sent f sent)" "tf_fpath ?ts' = Some (tftp_name env w)"
    using s by (simp_all add: tftp_wrote_def tftp_name_def)
  ultimately show ?thesis using create ts file_as_sent_once [OF assms(7)] by (auto simp: tftp_process_request_session_def)
qed

definition sample_tftp_pkt :: "bytes \<Rightarrow> udp_pkt" where
  "sample_tftp_pkt m = \<lparr>u_is_ipv6 = False, u_src_ip = 1, u_dst_ip = 2, u_src_addr = [], u_dst_addr = [], u_src_port = 4000, u_dst_port = 69,
     u_ip_dlen = 0, u_tth_len = 0, u_payload_len = of_nat (length m), u_pdata_off = None, up_data = Some m, up_timestamp = 0\<rparr>"

definition sample_tftp_env :: tftp_env where
  "sample_tftp_env = \<lparr>te_pool = True, te_time = (\<lambda>n. (\<lparr>tm_year = 2018, tm_mon = 9, tm_mday = 14, tm_hour = 11, tm_min = 28, tm_sec = 42\<rparr>, 7)),
     te_open = (\<lambda>_. True), te_write = (\<lambda>_ d. length d)\<rparr>"

definition sample_tftp_world :: tftp_world where
  "sample_tftp_world = \<lparr>tw_fpath = snd (ch_fpath_init (\<lambda>_. True) ''/data'' BY_DAY False 0), tw_names = 0, tw_pools = 0\<rparr>"

lemma tftp_sample_carries: "length m < 2 ^ 32 \<Longrightarrow> carries (sample_tftp_pkt m) m"
  by (simp add: carries_def sample_tftp_pkt_def unsigned_of_nat take_bit_eq_mod)

text \<open>A file of 600 bytes is written, its first block twice, with the acknowledgement of the first time lost.\<close>

theorem tftp_transfer_stored_witness:
  "\<exists>ts w1 ts' w'. tftp_app_session_create sample_tftp_env (sample_tftp_pkt (tftp_request False [97] [98])) sample_tftp_world = Inr (Some ts, w1) \<and>
     tftp_run sample_tftp_env (snd (tftp_process_request_session ts (sample_tftp_pkt (tftp_ack 0)))) w1
       [sample_tftp_pkt (tftp_ack 0), sample_tftp_pkt (tftp_data 1 (replicate 512 7)), sample_tftp_pkt (tftp_data 1 (replicate 512 7)), sample_tftp_pkt (tftp_ack 1),
        sample_tftp_pkt (tftp_data 2 (replicate 88 7))] =
       Inr ([PROCESS_CONTINUE, PROCESS_CONTINUE, PROCESS_CONTINUE, PROCESS_CONTINUE, PROCESS_DONE], ts', w') \<and> tf_fp ts' = Some (replicate 1112 7)"
proof -
  let ?d = "sample_tftp_pkt (tftp_data 1 (replicate 512 7))"
  let ?ps = "[sample_tftp_pkt (tftp_ack 0), ?d, ?d, sample_tftp_pkt (tftp_ack 1), sample_tftp_pkt (tftp_data 2 (replicate 88 7))]"
  have fb: "file_blocks (replicate 600 7) = [replicate 512 7, replicate 88 7]" by (simp add: file_blocks.simps DATA_SIZE_def)
  have "tftp_transfer False (replicate 600 7) [[False, True]] =
      [tftp_ack 0, tftp_data 1 (replicate 512 7), tftp_data 1 (replicate 512 7), tftp_ack 1, tftp_data 2 (replicate 88 7)]"
    unfolding tftp_transfer_def fb by (simp add: Let_def numeral_2_eq_2)
  then have "list_all2 carries ?ps (tftp_transfer False (replicate 600 7) [[False, True]])"
    by (simp add: tftp_sample_carries tftp_ack_def tftp_data_def be16_bytes_def)
  moreover have "files_work sample_tftp_env" "te_pool sample_tftp_env" by (simp_all add: files_work_def sample_tftp_env_def)
  moreover have "carries (sample_tftp_pkt (tftp_request False [97] [98])) (tftp_request False [97] [98])" by (simp add: tftp_sample_carries tftp_request_def)
  moreover have "u_dst_port (sample_tftp_pkt m) = 69" for m by (simp add: sample_tftp_pkt_def)
  moreover have "file_as_sent (replicate 600 7) [[False, True]] = replicate (512 + 512 + 88) 7"
    unfolding file_as_sent_def fb replicate_add by (simp add: sent_bytes_def)
  moreover have "length [[False, True]] = length (file_blocks (replicate 600 7)) - 1" unfolding fb by simp
  ultimately obtain ts w1 ts' w' where
    "tftp_app_session_create sample_tftp_env (sample_tftp_pkt (tftp_request False [97] [98])) sample_tftp_world = Inr (Some ts, w1)"
    "tftp_run sample_tftp_env (snd (tftp_process_request_session ts (hd ?ps))) w1 ?ps = Inr (replicate (length ?ps - 1) PROCESS_CONTINUE @ [PROCESS_DONE], ts', w')"
    "tf_fp ts' = Some (replicate (512 + 512 + 88) 7)"
    using tftp_transfer_stored [of sample_tftp_env "sample_tftp_pkt (tftp_request False [97] [98])" False "[97]" "[98]" "[[False, True]]" "replicate 600 7" ?ps
        sample_tftp_world] by auto
  moreover have "replicate (length ?ps - 1) PROCESS_CONTINUE @ [PROCESS_DONE] =
      [PROCESS_CONTINUE, PROCESS_CONTINUE, PROCESS_CONTINUE, PROCESS_CONTINUE, PROCESS_DONE]"
    by (simp add: eval_nat_numeral)
  moreover have "512 + 512 + 88 = (1112 :: nat)" by simp
  ultimately show ?thesis unfolding list.sel by metis
qed

section \<open>What goes wrong\<close>

text \<open>
  A block that is sent again, as TFTP does when an acknowledgement is lost, is taken for the next one: the number is only compared
  not to be more than one ahead, so its data are written to the file a second time.
\<close>

theorem tftp_repeated_block:
  assumes "files_work env" "carries p (tftp_data k d)" "uint (of_nat k :: u16) - uint (tf_last_block ts) \<le> 1" "length d = DATA_SIZE" "tf_fp ts = Some c"
  shows "\<exists>ts'. tftp_run env ts w [p, p] = Inr ([PROCESS_CONTINUE, PROCESS_CONTINUE], ts', w) \<and> tf_fp ts' = Some (c @ d @ d)"
proof -
  let ?ts = "tftp_wrote env w (ts\<lparr>tf_last_block := of_nat k\<rparr>) d"
  have o: "tftp_opened env w ts = w" "tftp_opened env w ?ts = w" using assms(5) by (simp add: tftp_opened_def, simp add: opened_wrote)
  have "do_tftp_packet_parse env ?ts w (up_data p) (unat (u_payload_len p)) = Inr (PROCESS_CONTINUE, tftp_wrote env w (?ts\<lparr>tf_last_block := of_nat k\<rparr>) d, w)"
    using data_parse [OF assms(1,2), of ?ts w] assms(4) o by simp
  moreover have "tf_fp (tftp_wrote env w (?ts\<lparr>tf_last_block := of_nat k\<rparr>) d) = Some (c @ d @ d)"
    using assms(5) by (simp add: wrote_last wrote_twice) (simp add: tftp_wrote_def)
  ultimately show ?thesis
    unfolding tftp_run.simps tftp_process_eq using data_parse [OF assms(1-3), of w] assms(4) o by simp
qed

theorem tftp_repeated_block_witness:
  "\<exists>ts ts'. tf_fp ts = Some [] \<and>
     tftp_run sample_tftp_env ts sample_tftp_world [sample_tftp_pkt (tftp_data 1 (replicate 512 7)), sample_tftp_pkt (tftp_data 1 (replicate 512 7))] =
       Inr ([PROCESS_CONTINUE, PROCESS_CONTINUE], ts', sample_tftp_world) \<and> tf_fp ts' = Some (replicate 1024 7)"
proof -
  let ?ts = "\<lparr>tf_src_ip = 1, tf_dst_ip = 2, tf_src_port = 4000, tf_dst_port = 69, tf_is_read = True, tf_is_error = False, tf_last_block = 0,
    tf_fname = None, tf_mode = None, tf_errmsg = None, tf_fpath = Some ''f'', tf_fp = Some []\<rparr>"
  have "files_work sample_tftp_env" by (simp add: files_work_def sample_tftp_env_def)
  moreover have "carries (sample_tftp_pkt (tftp_data 1 (replicate 512 7))) (tftp_data 1 (replicate 512 7))"
    by (simp add: tftp_sample_carries tftp_data_def be16_bytes_def)
  ultimately have "\<exists>ts'. tftp_run sample_tftp_env ?ts sample_tftp_world [sample_tftp_pkt (tftp_data 1 (replicate 512 7)), sample_tftp_pkt (tftp_data 1 (replicate 512 7))] =
       Inr ([PROCESS_CONTINUE, PROCESS_CONTINUE], ts', sample_tftp_world) \<and> tf_fp ts' = Some ([] @ replicate 512 7 @ replicate 512 7)"
    by (rule tftp_repeated_block) (simp_all add: DATA_SIZE_def)
  moreover have "[] @ replicate 512 7 @ replicate 512 7 = (replicate 1024 7 :: bytes)" by (simp only: append_Nil replicate_add [symmetric]) simp
  moreover have "tf_fp ?ts = Some []" by simp
  ultimately show ?thesis by metis
qed

text \<open>A request whose strings do not end in the packet is read behind it; a packet to the port that is no request costs a memory pool.\<close>

theorem tftp_request_overrun:
  assumes "up_data p = Some (0 # 1 # b)" "4 \<le> u_payload_len p" "0 \<notin> set b"
  shows "ch_tftp_session_create p = Inl Out_Of_Bounds"
  using assms by (simp add: ch_tftp_session_create_def op_read str_at_def tftp_op_defs not_less)

theorem tftp_pool_lost:
  assumes "te_pool env" "u_dst_port p = 69" "u_payload_len p < 4"
  shows "tftp_app_session_create env p w = Inr (None, w\<lparr>tw_pools := tw_pools w + 1\<rparr>)"
  using assms by (simp add: tftp_app_session_create_def ch_tftp_session_create_def TFTP_PORT_IS_MATCH_def Let_def split: option.splits)

text \<open>What is packed of a session is one entry of a map.\<close>

theorem tftp_store_complete: "\<exists>us. ch_tftp_session_store (Some ts) d = (0, d @ us) \<and> mp_objects 2 us"
  by (simp add: ch_tftp_session_store_def mp_write_defs Let_def eval_nat_numeral)

end
