(* ===== verification/Udp_Task.thy ===== *)
theory Udp_Task
  imports Udp_Handler Tftp_App
begin

text \<open>
  The UDP task with the contract of its applications (locale \<open>udp_application\<close>): it never faults on the packets they can read, here with the TFTP
  application as the instance, and what is put into the shared memory for a session with msgpack.
\<close>

section \<open>Properties\<close>

text \<open>
  C19. No run of the UDP task goes wrong: in every state that the task reaches from a well-formed one the table, the list of
  requests and the output buffer are well-formed, and the next run, with no packet or with a packet that \<^verbatim>\<open>ch_packet_parse\<close> accepted, returns without a fault.
  This is for packets \<open>P\<close> that the applications can read and applications that keep to the contract \<open>udp_application\<close> for them; where sessions are not packed
  with msgpack, their writers have to stay inside the buffer as well. The watch task, which runs beside it, has put no session into the ring of sessions that timed out:
  freeing a session that is in the ring frees it twice.
\<close>

theorem udp_task_never_faults:
  assumes "udp_ok env P I h0" "udp_reach P ops env h0 h"
    "ep_fresh smem (ep (uh_tbl h))" "ep_fresh mem1 (pl_ep (uh_req h))" "ep_fresh mem2 (pl_ep (uh_req h))" "udp_task_input P pkt"
  shows "udp_ok env P I h \<and> (\<exists>h'. udp_session_task_run ops env smem mem1 mem2 tm h pkt = Inr h' \<and> udp_ok env P I h')"
  using reach_ok [OF assms(2,1)] task_run_ok [OF _ assms(3-6)] by blast

text \<open>What is packed of a session itself: a map of two entries, the first of them with thirteen values under their names.\<close>

definition udp_common_record :: "('a, 'w) ch_udp_session \<Rightarrow> mp_token list" where
  "udp_common_record s =
     (let req = us_endpoint_req s; res = us_endpoint_res s
      in [MP_Map 2, MP_Str (text_bytes ''common''), MP_Map 13,
          MP_Str (text_bytes ''sessionID''), MP_Uint (unat (us_session_id s)),
          MP_Str (text_bytes ''srcIP''), MP_Uint (unat (ue_ip req)), MP_Str (text_bytes ''dstIP''), MP_Uint (unat (ue_ip res)),
          MP_Str (text_bytes ''srcPort''), MP_Uint (unat (ue_port req)), MP_Str (text_bytes ''dstPort''), MP_Uint (unat (ue_port res)),
          MP_Str (text_bytes ''reqPackets''), MP_Uint (unat (ue_packets req)), MP_Str (text_bytes ''reqBytes''), MP_Uint (unat (ue_bytes req)),
          MP_Str (text_bytes ''resPackets''), MP_Uint (unat (ue_packets res)), MP_Str (text_bytes ''resBytes''), MP_Uint (unat (ue_bytes res)),
          MP_Str (text_bytes ''reqStartTime''), MP_Uint (unat (ue_start_time req)), MP_Str (text_bytes ''reqLastTime''), MP_Uint (unat (ue_last_time req)),
          MP_Str (text_bytes ''resStartTime''), MP_Uint (unat (ue_start_time res)), MP_Str (text_bytes ''resLastTime''), MP_Uint (unat (ue_last_time res))])"

lemma udp_common_record_tokens: "udp_common_record s = MP_Map 2 # MP_Str (text_bytes ''common'') # MP_Map 13 # common_tokens s"
  by (simp add: udp_common_record_def common_tokens_def Let_def)

text \<open>
  C21. What is put for a session, with msgpack, which is the default: the packed tokens of a map of two entries, the first of them \<^verbatim>\<open>common\<close> with the
  identifier, the addresses, the ports, the packets and bytes of both sides and their times under their names, the second what the application stores behind it, which makes one complete object when the
  application stores one key and one object. The record has the type of the application and the start time of the requests. It is put once when the filter accepts
  the session, the application stores it, and the shared memory has an entry for it; otherwise nothing is put.
\<close>

theorem udp_record_stored:
  assumes "use_msgpack env" "do_is_accept (ue_filter env) s = Inr acc"
    and "ua_session_store (as_app (us_app_session s)) (as_priv_data (us_app_session s)) (udp_common_record s) = Inr (rc, udp_common_record s @ us)"
  shows "\<exists>w'. udp_session_out env s w = Inr w' \<and>
    uw_records w' = uw_records w @
      (let bs = ue_pack env (udp_common_record s @ us)
       in if acc \<and> 0 \<le> rc \<and> bs \<noteq> [] \<and> ue_put_ok env bs
          then [(ua_type (as_app (us_app_session s)), ue_start_time (us_endpoint_req s), bs)] else []) \<and>
    (mp_objects 2 us \<longrightarrow> mp_objects 1 (udp_common_record s @ us))"
proof -
  have "mp_objects 1 (udp_common_record s @ us) \<longleftrightarrow> mp_objects 28 (common_tokens s @ us)"
    unfolding udp_common_record_tokens by (simp add: numeral_eq_Suc)
  moreover have "\<exists>w'. udp_session_out env s w = Inr w' \<and>
    uw_records w' = uw_records w @
      (let bs = ue_pack env (udp_common_record s @ us)
       in if acc \<and> 0 \<le> rc \<and> bs \<noteq> [] \<and> ue_put_ok env bs
          then [(ua_type (as_app (us_app_session s)), ue_start_time (us_endpoint_req s), bs)] else [])"
  proof (cases acc)
    case True
    then have "ch_udp_app_session_store (ue_filter env) s [] = Inr (if rc < 0 then -1 else 0, udp_common_record s @ us)"
      using session_store_tokens [of "ue_filter env" s] assms(2,3) by (simp add: udp_common_record_tokens)
    then show ?thesis using True assms(1) by (simp add: udp_session_out_def ch_msgpack_store_reset_def udp_record_put_def Let_def)
  next
    case False
    then show ?thesis using assms(1,2) by (simp add: udp_session_out_def ch_udp_app_session_store_def)
  qed
  ultimately show ?thesis using common_tokens_objects [of s us] by blast
qed

section \<open>Witnesses\<close>

text \<open>A frame with a read request for the file \<^verbatim>\<open>a\<close>, from \<^verbatim>\<open>10.0.0.5:4000\<close> to \<^verbatim>\<open>10.0.0.6:69\<close>, and two zeros behind it.\<close>

definition tftp_frame :: bytes where
  "tftp_frame =
     [0,0,0,0,0,0, 0,0,0,0,0,0, 0x08,0x00,
      0x45,0, 0,34, 0,0, 0,0, 64, 17, 0,0, 10,0,0,5, 10,0,0,6,
      0x0f,0xa0, 0,69, 0,14, 0,0,
      0,1,97,0,98,0,
      0,0]"

lemma tftp_frame_parse:
  "\<exists>q. ch_packet_parse ch_packet_init tftp_frame 48 = Some (Inr (PKT_PARSE_OK, q)) \<and> udp_task_input tftp_pkt_ok (Some q)"
proof -
  let ?d = tftp_frame
  let ?p = "(packet_init ?d 48)\<lparr>l2_len := 14, parse_off := 14, l3_proto := 0x0800\<rparr>"
  have e: "ch_packet_ether_parse (packet_init ?d 48) = Some (PKT_PARSE_OK, ?p)"
    by (simp add: ch_packet_ether_parse_def packet_init_def ch_packet_data_read_def tftp_frame_def be16_def proto_defs vlan_loop_done)
  let ?q = "?p\<lparr>l3_len := 20, parse_off := 34, l4_proto := 17\<rparr>"
  have i: "packet_ipv4_parse ?p = Inr (PKT_PARSE_OK, ?q)"
    by (simp add: packet_ipv4_parse_def packet_init_def ch_packet_data_read_def tftp_frame_def be16_def IPHL_def IPV_def proto_defs)
  obtain h where h: "packet_udp_parse ?q = Inr (PKT_PARSE_OK, ?q\<lparr>pkt_type := PKT_TYPE_UDP, l4_len := 8, parse_off := 42, pkt_hash := h\<rparr>)"
    by (simp add: packet_udp_parse_def packet_init_def ch_packet_data_read_def tftp_frame_def)
  let ?r = "?q\<lparr>pkt_type := PKT_TYPE_UDP, l4_len := 8, parse_off := 42, pkt_hash := h\<rparr>"
  have ev: "ch_packet_parse ch_packet_init ?d 48 = Some (Inr (PKT_PARSE_OK, ?r))"
    using e i h by (simp add: ch_packet_parse_def find_l3 find_l4 ipv4_parser_def udp_parser_def proto_defs)
  have u: "tftp_pkt_ok (udp_pkt_of ?r u)" if "ch_packet_udp_init_from_pkt ?r = Some u" for u
  proof -
    have "u_payload_len u = 6" "u_pdata_off u = Some 42" using that
      by (auto simp: ch_packet_udp_init_from_pkt_def ch_packet_udp_init_from_pkt_ipv4_def packet_init_def ch_packet_data_read_def tftp_frame_def be16_def
          Let_def pkt_payload_len_def pkt_pdata_off_def pkt_tth_len_def)
    moreover have "pkt_data ?r = ?d" by (simp add: packet_init_def)
    moreover have "drop 42 ?d = [0,1,97,0,98,0] @ [0,0]" by (simp add: tftp_frame_def)
    ultimately show ?thesis by (auto simp: tftp_pkt_ok_def udp_pkt_of_def ch_packet_udp.defs udp_pkt.defs)
  qed
  have "?r = ?r\<lparr>timestamp := timestamp ?r\<rparr>" by simp
  with ev u show ?thesis unfolding udp_task_input_def by blast
qed

definition tftp_uenv :: udp_env where
  "tftp_uenv = \<lparr>ue_filter = None, use_msgpack = True, ue_malloc = (\<lambda>_. False), ue_pack = (\<lambda>ts. [of_nat (length ts)]), ue_put_ok = (\<lambda>_. True)\<rparr>"

definition tftp_uas :: "(ch_tftp_session, tftp_world) ch_udp_app_session" where
  "tftp_uas = \<lparr>as_app = tftp_app sample_tftp_env, as_priv_data = \<lparr>tf_src_ip = 1, tf_dst_ip = 2, tf_src_port = 1000, tf_dst_port = 53, tf_is_read = True,
     tf_is_error = False, tf_last_block = 0, tf_fname = Some [97], tf_mode = Some [98], tf_errmsg = None, tf_fpath = None, tf_fp = None\<rparr>\<rparr>"

lemma tftp_fit: "session_fit tftp_uenv tftp_pkt_ok (\<lambda>_. True) tftp_uas" "process_request_session (as_app tftp_uas) \<noteq> None"
  using tftp.udp_application_axioms by (simp_all add: session_fit_def app_fit_def tftp_uenv_def tftp_uas_def) (simp add: tftp_app_def)

theorem udp_task_never_faults_witness:
  "\<exists>q h'. ch_packet_parse ch_packet_init tftp_frame 48 = Some (Inr (PKT_PARSE_OK, q)) \<and>
     udp_session_task_run sample_ops tftp_uenv (Some 100000) (Some 100000) (Some 100000) 100 (uh_of tftp_uas sample_tftp_world) (Some q) = Inr h' \<and>
     udp_ok tftp_uenv tftp_pkt_ok (\<lambda>_. True) h'"
proof -
  obtain q where q: "ch_packet_parse ch_packet_init tftp_frame 48 = Some (Inr (PKT_PARSE_OK, q))" "udp_task_input tftp_pkt_ok (Some q)"
    using tftp_frame_parse by blast
  note ok = uh_of_ok [OF tftp_fit, where a = sample_tftp_world]
  from udp_task_never_faults [OF ok(1) udp_reach.start [where ops = sample_ops] ok(2,3,3) q(2), of 100] q(1) show ?thesis by blast
qed

text \<open>The record of a TFTP session: what is packed has 29 tokens for the session and 14 for the application.\<close>

theorem udp_record_stored_witness:
  "\<exists>w'. udp_session_out tftp_uenv (usession_of tftp_uas) (uworld_of sample_tftp_world) = Inr w' \<and> uw_records w' = [(7, 7, [43])]"
proof -
  let ?s = "usession_of tftp_uas"
  have as: "us_app_session ?s = tftp_uas" by (simp add: sample_usession_simps)
  have acc: "use_msgpack tftp_uenv" "do_is_accept (ue_filter tftp_uenv) ?s = Inr True" by (simp_all add: tftp_uenv_def do_is_accept_def)
  have store: "\<exists>us. ua_session_store (as_app tftp_uas) (as_priv_data tftp_uas) d = Inr (0, d @ us) \<and> length us = 14" for d
    by (simp add: tftp_uas_def tftp_app_def tftp_session_store_def ch_tftp_session_store_def mp_write_defs Let_def)
  have ty: "ua_type (as_app tftp_uas) = 7" "ue_start_time (us_endpoint_req ?s) = 7" "uw_records (uworld_of sample_tftp_world) = []"
    by (simp_all add: tftp_uas_def tftp_app_def PKT_RECORD_TYPE_UDP_TFTP_def sample_usession_simps uworld_of_def)
  obtain us where us: "ua_session_store (as_app (us_app_session ?s)) (as_priv_data (us_app_session ?s)) (udp_common_record ?s) =
      Inr (0, udp_common_record ?s @ us)" "length us = 14" using store unfolding as by blast
  have len: "length (udp_common_record ?s) = 29" by (simp add: udp_common_record_def Let_def)
  from udp_record_stored [OF acc us(1), of "uworld_of sample_tftp_world"]
  show ?thesis unfolding as ty by (auto simp: tftp_uenv_def us(2) len Let_def)
qed

end
