(* ===== verification/Pp_Input.thy ===== *)
theory Pp_Input
  imports Rule_Utils
begin

text \<open>
  The input of the parsers of TCP applications \<^verbatim>\<open>tcp/session/ch_pp_data_input.h\<close>: the data of one call, in front of them what
  the call before has left. The bytes from \<^verbatim>\<open>base\<close> to \<^verbatim>\<open>end\<close> are a list, \<^verbatim>\<open>pos\<close> is an offset into it. What was left
  is copied to memory of the session, and with the new data to a buffer that all sessions share
  (\<^verbatim>\<open>lib/common/ch_buffer.h\<close>). Shown here: no byte is lost or read twice between the calls, and a line
  is found whatever pieces the stream comes in.
\<close>

section \<open>The shared buffer\<close>

text \<open>Its size; the bytes in it are used within one call only. \<open>mal\<close> says whether the system gives memory.\<close>

record ch_buffer =
  b_null :: bool
  b_current_size :: nat

definition B_SIZE_DEFAULT :: nat where "B_SIZE_DEFAULT = 64 * 1024"
definition B_SIZE_EXT :: nat where "B_SIZE_EXT = 32"

definition ch_buffer_init :: "(nat \<Rightarrow> bool) \<Rightarrow> ch_buffer \<Rightarrow> int \<times> ch_buffer" where
  "ch_buffer_init mal bf =
     (if mal (B_SIZE_DEFAULT + B_SIZE_EXT) then (0, \<lparr>b_null = False, b_current_size = B_SIZE_DEFAULT\<rparr>)
      else (-1, bf\<lparr>b_null := True\<rparr>))"

definition ch_buffer_need_update :: "ch_buffer \<Rightarrow> nat \<Rightarrow> bool" where
  "ch_buffer_need_update bf nsize \<longleftrightarrow> b_current_size bf < nsize"

definition ch_buffer_update :: "(nat \<Rightarrow> bool) \<Rightarrow> ch_buffer \<Rightarrow> nat \<Rightarrow> int \<times> ch_buffer" where
  "ch_buffer_update mal bf nsize =
     (if mal (nsize + B_SIZE_EXT) then (0, \<lparr>b_null = False, b_current_size = nsize\<rparr>)
      else (-1, \<lparr>b_null = True, b_current_size = 0\<rparr>))"

section \<open>The input\<close>

text \<open>\<open>pp_remain\<close>: \<^verbatim>\<open>remain_data.data\<close> and its bytes; \<open>pp_addr\<close>: how many bytes fit between \<^verbatim>\<open>addr\<close> and \<^verbatim>\<open>addr_end\<close>.\<close>

record ch_pp_data_input =
  pp_data :: bytes
  pp_pos :: nat
  pp_remain :: "bytes option"
  pp_addr :: "nat option"

record ch_pp_data_line =
  ln_line :: bytes  \<comment> \<open>the \<^verbatim>\<open>rawlen\<close> bytes at \<^verbatim>\<open>line\<close>\<close>
  ln_len :: nat

definition ch_pp_din_init :: ch_pp_data_input where
  "ch_pp_din_init = \<lparr>pp_data = [], pp_pos = 0, pp_remain = None, pp_addr = None\<rparr>"

definition ch_pp_din_pos_update :: "ch_pp_data_input \<Rightarrow> nat \<Rightarrow> ch_pp_data_input" where
  "ch_pp_din_pos_update din sz = din\<lparr>pp_pos := pp_pos din + sz\<rparr>"

definition ch_pp_din_has_data :: "ch_pp_data_input \<Rightarrow> nat \<Rightarrow> bool" where
  "ch_pp_din_has_data din sz \<longleftrightarrow> pp_pos din + sz < length (pp_data din)"

definition ch_pp_din_rdlen :: "ch_pp_data_input \<Rightarrow> nat" where
  "ch_pp_din_rdlen din = (if pp_pos din < length (pp_data din) then length (pp_data din) - pp_pos din else 0)"

definition ch_pp_din_reset :: "ch_pp_data_input \<Rightarrow> ch_pp_data_input" where
  "ch_pp_din_reset din = din\<lparr>pp_pos := 0\<rparr>"

definition ch_pp_din_skip_to_end :: "ch_pp_data_input \<Rightarrow> ch_pp_data_input" where
  "ch_pp_din_skip_to_end din = din\<lparr>pp_pos := length (pp_data din)\<rparr>"

definition ch_pp_din_need_alloc_new_store :: "ch_pp_data_input \<Rightarrow> nat \<Rightarrow> bool" where
  "ch_pp_din_need_alloc_new_store din sz \<longleftrightarrow> (case pp_addr din of None \<Rightarrow> True | Some c \<Rightarrow> c < sz)"

definition SAFE_SIZE :: nat where "SAFE_SIZE = 8"

definition ch_pp_din_read_prefare :: "(nat \<Rightarrow> bool) \<Rightarrow> ch_buffer \<Rightarrow> ch_pp_data_input \<Rightarrow> bytes \<Rightarrow> int \<times> ch_buffer \<times> ch_pp_data_input" where
  "ch_pp_din_read_prefare mal bf din data =
     (case pp_remain din of
        None \<Rightarrow> (0, bf, din\<lparr>pp_data := data, pp_pos := 0\<rparr>)
      | Some rdata \<Rightarrow>
          if rdata = [] then (0, bf, din\<lparr>pp_data := data, pp_pos := 0\<rparr>)
          else
            let ttsize = length rdata + length data;
                (rc, bf) = (if ch_buffer_need_update bf ttsize then ch_buffer_update mal bf ttsize else (0, bf))
            in if rc \<noteq> 0 then (-1, bf, din)
               else (0, bf, din\<lparr>pp_data := rdata @ data, pp_pos := 0, pp_remain := None\<rparr>))"

definition ch_pp_din_read_end :: "(nat \<Rightarrow> bool) \<Rightarrow> ch_pp_data_input \<Rightarrow> int \<times> ch_pp_data_input" where
  "ch_pp_din_read_end pool din =
     (let rdlen = ch_pp_din_rdlen din
      in if rdlen > 0 then
           let din = (if ch_pp_din_need_alloc_new_store din rdlen
                      then din\<lparr>pp_addr := (if pool (rdlen + SAFE_SIZE) then Some rdlen else None)\<rparr> else din)
           in if pp_addr din = None then (-1, din)
              else (0, ch_pp_din_reset (din\<lparr>pp_remain := Some (drop (pp_pos din) (pp_data din))\<rparr>))
         else (0, ch_pp_din_reset (din\<lparr>pp_remain := None\<rparr>)))"

abbreviation LF :: u8 where "LF \<equiv> 10"
abbreviation CR :: u8 where "CR \<equiv> 13"

text \<open>The loop to the end of the line: how many bytes are before it.\<close>

fun lf_index :: "bytes \<Rightarrow> nat option" where
  "lf_index [] = None"
| "lf_index (c # cs) = (if c = LF then Some 0 else map_option Suc (lf_index cs))"

definition ch_pp_data_input_line_read :: "ch_pp_data_input \<Rightarrow> (ch_pp_data_line \<times> ch_pp_data_input) option" where
  "ch_pp_data_input_line_read din =
     (case lf_index (drop (pp_pos din) (pp_data din)) of
        None \<Rightarrow> None
      | Some n \<Rightarrow>
          let line = take (n + 1) (drop (pp_pos din) (pp_data din));
              len = (if n > 0 \<and> line ! (n - 1) = CR then n - 1 else n)
          in Some (\<lparr>ln_line = line, ln_len = len\<rparr>, ch_pp_din_pos_update din (n + 1)))"

section \<open>What is unread\<close>

definition pp_unread :: "ch_pp_data_input \<Rightarrow> bytes" where
  "pp_unread din = drop (pp_pos din) (pp_data din)"

definition pp_left :: "ch_pp_data_input \<Rightarrow> bytes" where
  "pp_left din = (case pp_remain din of None \<Rightarrow> [] | Some r \<Rightarrow> r)"

lemma read_prefare_ok:
  assumes "\<And>n. mal n"
  shows "\<exists>bf' din'. ch_pp_din_read_prefare mal bf din data = (0, bf', din') \<and> pp_unread din' = pp_left din @ data \<and>
    pp_pos din' \<le> length (pp_data din')"
  using assms
  by (auto simp: ch_pp_din_read_prefare_def pp_unread_def pp_left_def ch_buffer_update_def Let_def split: option.splits)

lemma read_end_ok:
  assumes "\<And>n. pool n"
  shows "\<exists>din'. ch_pp_din_read_end pool din = (0, din') \<and> pp_left din' = pp_unread din"
  using assms
  by (auto simp: ch_pp_din_read_end_def pp_unread_def pp_left_def ch_pp_din_rdlen_def ch_pp_din_reset_def
      ch_pp_din_need_alloc_new_store_def Let_def split: option.splits)

lemma has_data_unread: "ch_pp_din_has_data din 0 \<longleftrightarrow> pp_unread din \<noteq> []"
  by (auto simp: ch_pp_din_has_data_def pp_unread_def)

lemma lf_index_append: "lf_index (a @ LF # b) = Some (length a)" if "LF \<notin> set a"
  using that by (induction a) auto

lemma lf_index_None: "lf_index a = None \<longleftrightarrow> LF \<notin> set a"
  by (induction a) auto

text \<open>A line without its end.\<close>

definition strip_cr :: "bytes \<Rightarrow> bytes" where
  "strip_cr b = (if b \<noteq> [] \<and> last b = CR then butlast b else b)"

lemma line_read_at:
  assumes "pp_unread din = b @ LF # rest" "LF \<notin> set b"
  shows "\<exists>din'. ch_pp_data_input_line_read din = Some (\<lparr>ln_line = b @ [LF], ln_len = length (strip_cr b)\<rparr>, din') \<and> pp_unread din' = rest"
proof -
  have d: "drop (pp_pos din) (pp_data din) = b @ LF # rest" using assms(1) by (simp add: pp_unread_def)
  have "pp_unread (ch_pp_din_pos_update din (length b + 1)) = drop (length b + 1) (drop (pp_pos din) (pp_data din))"
    by (simp add: pp_unread_def ch_pp_din_pos_update_def add.commute)
  then have "pp_unread (ch_pp_din_pos_update din (length b + 1)) = rest" unfolding d by simp
  moreover have "(if length b > 0 \<and> (b @ [LF]) ! (length b - 1) = CR then length b - 1 else length b) = length (strip_cr b)"
    by (auto simp: strip_cr_def nth_append last_conv_nth)
  ultimately show ?thesis by (simp add: ch_pp_data_input_line_read_def d lf_index_append assms(2) Let_def)
qed

lemma line_read_None: "ch_pp_data_input_line_read din = None \<longleftrightarrow> LF \<notin> set (pp_unread din)"
  by (auto simp: ch_pp_data_input_line_read_def pp_unread_def lf_index_None [symmetric] Let_def split: option.splits)

text \<open>What is left of the data.\<close>

abbreviation din_left :: "ch_pp_data_input \<Rightarrow> nat" where
  "din_left din \<equiv> length (pp_data din) - pp_pos din"

lemma lf_index_less: "lf_index bs = Some n \<Longrightarrow> n < length bs"
  by (induction bs arbitrary: n) (auto split: if_splits)

lemma line_read_left:
  assumes "ch_pp_data_input_line_read din = Some (line, din')"
  shows "din_left din' < din_left din"
proof -
  obtain n where n: "lf_index (pp_unread din) = Some n" "din' = ch_pp_din_pos_update din (n + 1)"
    using assms by (auto simp: ch_pp_data_input_line_read_def pp_unread_def Let_def split: option.splits)
  have "n < length (pp_unread din)"
    using n(1) by (rule lf_index_less)
  then show ?thesis using n(2) by (simp add: pp_unread_def ch_pp_din_pos_update_def)
qed

end
