(* ===== verification/Http_Parse.thy ===== *)
theory Http_Parse
  imports Pp_Input
begin

text \<open>
  The parsers of \<^verbatim>\<open>tcp/app/http/ch_http_data_parse.c\<close>: request lines, status lines and header lines, each a state machine that
  looks at one byte of a line after the other, and the chunked encoding of bodies, a state machine that keeps its state
  between the pieces of a stream. A pointer into a line is its offset, \<open>None\<close> stands for \<^verbatim>\<open>NULL\<close>. Shown here: lines are read
  back as they were written, what a parser points at lies inside the line, and chunks are decoded in any pieces.
\<close>

section \<open>Machines on lines\<close>

definition CH_OK :: int where "CH_OK = 0"
definition CH_ERROR :: int where "CH_ERROR = -1"
definition CH_AGAIN :: int where "CH_AGAIN = -2"
definition CH_DONE :: int where "CH_DONE = -3"
definition CH_HTTP_PARSE_HEADER_DONE :: int where "CH_HTTP_PARSE_HEADER_DONE = 1"
definition CH_HTTP_PARSE_INVALID_METHOD :: int where "CH_HTTP_PARSE_INVALID_METHOD = 10"
definition CH_HTTP_PARSE_INVALID_REQUEST :: int where "CH_HTTP_PARSE_INVALID_REQUEST = 11"
definition CH_HTTP_PARSE_INVALID_09_METHOD :: int where "CH_HTTP_PARSE_INVALID_09_METHOD = 12"
definition CH_HTTP_PARSE_INVALID_HEADER :: int where "CH_HTTP_PARSE_INVALID_HEADER = 13"

lemmas http_codes = CH_OK_def CH_ERROR_def CH_AGAIN_def CH_DONE_def CH_HTTP_PARSE_HEADER_DONE_def CH_HTTP_PARSE_INVALID_METHOD_def
  CH_HTTP_PARSE_INVALID_REQUEST_def CH_HTTP_PARSE_INVALID_09_METHOD_def CH_HTTP_PARSE_INVALID_HEADER_def

text \<open>
  What the body of a loop does with a byte: it goes on to the next byte in a state, it returns a code, or it jumps to the label
  behind the loop.
\<close>

datatype ('s, 'r) line_step = L_next 's 'r | L_ret int 'r | L_goto int 'r

text \<open>The loop: \<open>p\<close> is the offset of the first byte of the list. \<open>None\<close>: the line ends before the loop is left.\<close>

fun line_loop :: "(nat \<Rightarrow> u8 \<Rightarrow> 's \<Rightarrow> 'r \<Rightarrow> ('s, 'r) line_step) \<Rightarrow> bytes \<Rightarrow> nat \<Rightarrow> 's \<Rightarrow> 'r \<Rightarrow> (nat \<times> ('s, 'r) line_step)" where
  "line_loop step [] p s r = (p, L_next s r)"
| "line_loop step (c # cs) p s r =
     (case step p c s r of
        L_next s r \<Rightarrow> line_loop step cs (p + 1) s r
      | x \<Rightarrow> (p, x))"

definition digit :: "u8 \<Rightarrow> bool" where "digit ch \<longleftrightarrow> 48 \<le> ch \<and> ch \<le> 57"
definition letter :: "u8 \<Rightarrow> bool" where "letter ch \<longleftrightarrow> 97 \<le> (ch OR 0x20) \<and> (ch OR 0x20) \<le> 122"
definition upper_or_bar :: "u8 \<Rightarrow> bool" where "upper_or_bar ch \<longleftrightarrow> 65 \<le> ch \<and> ch \<le> 90 \<or> ch = 95"

section \<open>The request line\<close>

definition CH_HTTP_GET :: u32 where "CH_HTTP_GET = 0x0002"
definition CH_HTTP_HEAD :: u32 where "CH_HTTP_HEAD = 0x0004"
definition CH_HTTP_POST :: u32 where "CH_HTTP_POST = 0x0008"
definition CH_HTTP_PUT :: u32 where "CH_HTTP_PUT = 0x0010"
definition CH_HTTP_DELETE :: u32 where "CH_HTTP_DELETE = 0x0020"
definition CH_HTTP_MKCOL :: u32 where "CH_HTTP_MKCOL = 0x0040"
definition CH_HTTP_COPY :: u32 where "CH_HTTP_COPY = 0x0080"
definition CH_HTTP_MOVE :: u32 where "CH_HTTP_MOVE = 0x0100"
definition CH_HTTP_OPTIONS :: u32 where "CH_HTTP_OPTIONS = 0x0200"
definition CH_HTTP_PROPFIND :: u32 where "CH_HTTP_PROPFIND = 0x0400"
definition CH_HTTP_PROPPATCH :: u32 where "CH_HTTP_PROPPATCH = 0x0800"
definition CH_HTTP_LOCK :: u32 where "CH_HTTP_LOCK = 0x1000"
definition CH_HTTP_UNLOCK :: u32 where "CH_HTTP_UNLOCK = 0x2000"
definition CH_HTTP_PATCH :: u32 where "CH_HTTP_PATCH = 0x4000"
definition CH_HTTP_TRACE :: u32 where "CH_HTTP_TRACE = 0x8000"

record ch_http_request_line =
  uri_start :: "nat option"
  uri_end :: "nat option"
  uri_ext :: "nat option"
  args_start :: "nat option"
  request_start :: "nat option"
  request_end :: "nat option"
  method_end :: "nat option"
  schema_start :: "nat option"
  schema_end :: "nat option"
  host_start :: "nat option"
  host_end :: "nat option"
  port_start :: "nat option"
  port_end :: "nat option"
  rl_method :: u32
  rl_http_version :: u32
  rl_http_minor :: u16
  rl_http_major :: u16

text \<open>The initialisation leaves \<^verbatim>\<open>method\<close> and \<^verbatim>\<open>http_version\<close> as they are: \<open>g\<close> and \<open>v\<close>.\<close>

definition ch_http_request_line_init :: "u32 \<Rightarrow> u32 \<Rightarrow> ch_http_request_line" where
  "ch_http_request_line_init g v = \<lparr>uri_start = None, uri_end = None, uri_ext = None, args_start = None, request_start = None,
     request_end = None, method_end = None, schema_start = None, schema_end = None, host_start = None, host_end = None,
     port_start = None, port_end = None, rl_method = g, rl_http_version = v, rl_http_minor = 0, rl_http_major = 0\<rparr>"

datatype rl_state =
    sw_start | sw_method | sw_spaces_before_uri | sw_schema | sw_schema_slash | sw_schema_slash_slash | sw_host_start | sw_host
  | sw_host_end | sw_host_ip_literal | sw_port | sw_host_http_09 | sw_after_slash_in_uri | sw_check_uri | sw_check_uri_http_09
  | sw_uri | sw_http_09 | sw_http_H | sw_http_HT | sw_http_HTT | sw_http_HTTP | sw_first_major_digit | sw_major_digit
  | sw_first_minor_digit | sw_minor_digit | sw_spaces_after_digit | sw_almost_done

definition usual :: "u32 list" where
  "usual = [0xffffdbfe, 0x7fff37d6, 0xffffffff, 0xffffffff, 0xffffffff, 0xffffffff, 0xffffffff, 0xffffffff]"

definition is_usual :: "u8 \<Rightarrow> bool" where
  "is_usual ch \<longleftrightarrow> (usual ! unat (drop_bit 5 ch)) AND (push_bit (unat (ch AND 0x1f)) 1) \<noteq> 0"

text \<open>
  The switch on the length of the method: \<open>m\<close> are its bytes. A method that is not known leaves \<^verbatim>\<open>method\<close> as it is. The
  second byte of POST, COPY, MOVE and LOCK is compared before the others.
\<close>

definition method_of :: "bytes \<Rightarrow> u32 \<Rightarrow> u32" where
  "method_of m g =
     (if m = text_bytes ''GET'' then CH_HTTP_GET
      else if m = text_bytes ''PUT'' then CH_HTTP_PUT
      else if m = text_bytes ''POST'' then CH_HTTP_POST
      else if m = text_bytes ''COPY'' then CH_HTTP_COPY
      else if m = text_bytes ''MOVE'' then CH_HTTP_MOVE
      else if m = text_bytes ''LOCK'' then CH_HTTP_LOCK
      else if m = text_bytes ''HEAD'' then CH_HTTP_HEAD
      else if m = text_bytes ''MKCOL'' then CH_HTTP_MKCOL
      else if m = text_bytes ''PATCH'' then CH_HTTP_PATCH
      else if m = text_bytes ''TRACE'' then CH_HTTP_TRACE
      else if m = text_bytes ''DELETE'' then CH_HTTP_DELETE
      else if m = text_bytes ''UNLOCK'' then CH_HTTP_UNLOCK
      else if m = text_bytes ''OPTIONS'' then CH_HTTP_OPTIONS
      else if m = text_bytes ''PROPFIND'' then CH_HTTP_PROPFIND
      else if m = text_bytes ''PROPPATCH'' then CH_HTTP_PROPPATCH
      else g)"

abbreviation invalid_request :: "'r \<Rightarrow> ('s, 'r) line_step" where
  "invalid_request r \<equiv> L_ret CH_HTTP_PARSE_INVALID_REQUEST r"

text \<open>The end of the host, which the states \<^verbatim>\<open>sw_host_start\<close> and \<^verbatim>\<open>sw_host\<close> fall through to.\<close>

definition host_end_step :: "nat \<Rightarrow> u8 \<Rightarrow> ch_http_request_line \<Rightarrow> (rl_state, ch_http_request_line) line_step" where
  "host_end_step p ch r =
     (let r = r\<lparr>host_end := Some p\<rparr>
      in if ch = 58 then L_next sw_port r
         else if ch = 47 then L_next sw_after_slash_in_uri (r\<lparr>uri_start := Some p\<rparr>)
         else if ch = 32 then
           L_next sw_host_http_09 (r\<lparr>uri_start := map_option (\<lambda>e. e + 1) (schema_end r), uri_end := map_option (\<lambda>e. e + 2) (schema_end r)\<rparr>)
         else invalid_request r)"

definition host_step :: "nat \<Rightarrow> u8 \<Rightarrow> ch_http_request_line \<Rightarrow> (rl_state, ch_http_request_line) line_step" where
  "host_step p ch r =
     (if letter ch then L_next sw_host r
      else if digit ch \<or> ch = 46 \<or> ch = 45 then L_next sw_host r
      else host_end_step p ch r)"

text \<open>The states \<^verbatim>\<open>sw_check_uri\<close> and \<^verbatim>\<open>sw_uri\<close>, which others go back to with the same byte.\<close>

definition check_uri_step :: "nat \<Rightarrow> u8 \<Rightarrow> ch_http_request_line \<Rightarrow> (rl_state, ch_http_request_line) line_step" where
  "check_uri_step p ch r =
     (if is_usual ch then L_next sw_check_uri r
      else if ch = 47 then L_next sw_after_slash_in_uri (r\<lparr>uri_ext := None\<rparr>)
      else if ch = 46 then L_next sw_check_uri (r\<lparr>uri_ext := Some (p + 1)\<rparr>)
      else if ch = 32 then L_next sw_check_uri_http_09 (r\<lparr>uri_end := Some p\<rparr>)
      else if ch = CR then L_next sw_almost_done (r\<lparr>uri_end := Some p, rl_http_minor := 9\<rparr>)
      else if ch = LF then L_goto 0 (r\<lparr>uri_end := Some p, rl_http_minor := 9\<rparr>)
      else if ch = 37 then L_next sw_uri r
      else if ch = 63 then L_next sw_uri (r\<lparr>args_start := Some (p + 1)\<rparr>)
      else if ch = 35 then L_next sw_uri r
      else if ch = 43 then L_next sw_check_uri r
      else if ch = 0 then invalid_request r
      else L_next sw_check_uri r)"

definition uri_step :: "nat \<Rightarrow> u8 \<Rightarrow> ch_http_request_line \<Rightarrow> (rl_state, ch_http_request_line) line_step" where
  "uri_step p ch r =
     (if is_usual ch then L_next sw_uri r
      else if ch = 32 then L_next sw_http_09 (r\<lparr>uri_end := Some p\<rparr>)
      else if ch = CR then L_next sw_almost_done (r\<lparr>uri_end := Some p, rl_http_minor := 9\<rparr>)
      else if ch = LF then L_goto 0 (r\<lparr>uri_end := Some p, rl_http_minor := 9\<rparr>)
      else if ch = 35 then L_next sw_uri r
      else if ch = 0 then invalid_request r
      else L_next sw_uri r)"

text \<open>\<open>line\<close> is the line, of which the method is compared. \<^verbatim>\<open>p--\<close> followed by the \<^verbatim>\<open>p++\<close> of the loop looks at the byte again.\<close>

definition request_step :: "bytes \<Rightarrow> nat \<Rightarrow> u8 \<Rightarrow> rl_state \<Rightarrow> ch_http_request_line \<Rightarrow> (rl_state, ch_http_request_line) line_step" where
  "request_step line p ch st r =
     (case st of
        sw_start \<Rightarrow>
          let r = r\<lparr>request_start := Some p\<rparr>
          in if ch = CR \<or> ch = LF then L_next sw_start r
             else if \<not> upper_or_bar ch then L_ret CH_HTTP_PARSE_INVALID_METHOD r
             else L_next sw_method r
      | sw_method \<Rightarrow>
          if ch = 32 then
            let m = the (request_start r)
            in L_next sw_spaces_before_uri (r\<lparr>method_end := Some (p - 1), rl_method := method_of (take (p - m) (drop m line)) (rl_method r)\<rparr>)
          else if \<not> upper_or_bar ch then L_ret CH_HTTP_PARSE_INVALID_METHOD r
          else L_next sw_method r
      | sw_spaces_before_uri \<Rightarrow>
          if ch = 47 then L_next sw_after_slash_in_uri (r\<lparr>uri_start := Some p\<rparr>)
          else if letter ch then L_next sw_schema (r\<lparr>schema_start := Some p\<rparr>)
          else if ch = 32 then L_next sw_spaces_before_uri r
          else invalid_request r
      | sw_schema \<Rightarrow>
          if letter ch then L_next sw_schema r
          else if ch = 58 then L_next sw_schema_slash (r\<lparr>schema_end := Some p\<rparr>)
          else invalid_request r
      | sw_schema_slash \<Rightarrow> if ch = 47 then L_next sw_schema_slash_slash r else invalid_request r
      | sw_schema_slash_slash \<Rightarrow> if ch = 47 then L_next sw_host_start r else invalid_request r
      | sw_host_start \<Rightarrow>
          let r = r\<lparr>host_start := Some p\<rparr>
          in if ch = 91 then L_next sw_host_ip_literal r else host_step p ch r
      | sw_host \<Rightarrow> host_step p ch r
      | sw_host_end \<Rightarrow> host_end_step p ch r
      | sw_host_ip_literal \<Rightarrow>
          if digit ch \<or> letter ch then L_next sw_host_ip_literal r
          else if ch = 58 then L_next sw_host_ip_literal r
          else if ch = 93 then L_next sw_host_end r
          else if ch \<in> {45, 46, 95, 126, 33, 36, 38, 39, 40, 41, 42, 43, 44, 59, 61} then L_next sw_host_ip_literal r
          else invalid_request r
      | sw_port \<Rightarrow>
          if digit ch then L_next sw_port r
          else if ch = 47 then L_next sw_after_slash_in_uri (r\<lparr>port_end := Some p, uri_start := Some p\<rparr>)
          else if ch = 32 then
            L_next sw_host_http_09 (r\<lparr>port_end := Some p, uri_start := map_option (\<lambda>e. e + 1) (schema_end r),
              uri_end := map_option (\<lambda>e. e + 2) (schema_end r)\<rparr>)
          else invalid_request r
      | sw_host_http_09 \<Rightarrow>
          if ch = 32 then L_next sw_host_http_09 r
          else if ch = CR then L_next sw_almost_done (r\<lparr>rl_http_minor := 9\<rparr>)
          else if ch = LF then L_goto 0 (r\<lparr>rl_http_minor := 9\<rparr>)
          else if ch = 72 then L_next sw_http_H r
          else invalid_request r
      | sw_after_slash_in_uri \<Rightarrow>
          if is_usual ch then L_next sw_check_uri r
          else if ch = 32 then L_next sw_check_uri_http_09 (r\<lparr>uri_end := Some p\<rparr>)
          else if ch = CR then L_next sw_almost_done (r\<lparr>uri_end := Some p, rl_http_minor := 9\<rparr>)
          else if ch = LF then L_goto 0 (r\<lparr>uri_end := Some p, rl_http_minor := 9\<rparr>)
          else if ch = 46 \<or> ch = 37 \<or> ch = 47 then L_next sw_uri r
          else if ch = 63 then L_next sw_uri (r\<lparr>args_start := Some (p + 1)\<rparr>)
          else if ch = 35 then L_next sw_uri r
          else if ch = 43 then L_next sw_after_slash_in_uri r
          else if ch = 0 then invalid_request r
          else L_next sw_check_uri r
      | sw_check_uri \<Rightarrow> check_uri_step p ch r
      | sw_check_uri_http_09 \<Rightarrow>
          if ch = 32 then L_next sw_check_uri_http_09 r
          else if ch = CR then L_next sw_almost_done (r\<lparr>rl_http_minor := 9\<rparr>)
          else if ch = LF then L_goto 0 (r\<lparr>rl_http_minor := 9\<rparr>)
          else if ch = 72 then L_next sw_http_H r
          else check_uri_step p ch r
      | sw_uri \<Rightarrow> uri_step p ch r
      | sw_http_09 \<Rightarrow>
          if ch = 32 then L_next sw_http_09 r
          else if ch = CR then L_next sw_almost_done (r\<lparr>rl_http_minor := 9\<rparr>)
          else if ch = LF then L_goto 0 (r\<lparr>rl_http_minor := 9\<rparr>)
          else if ch = 72 then L_next sw_http_H r
          else uri_step p ch r
      | sw_http_H \<Rightarrow> if ch = 84 then L_next sw_http_HT r else invalid_request r
      | sw_http_HT \<Rightarrow> if ch = 84 then L_next sw_http_HTT r else invalid_request r
      | sw_http_HTT \<Rightarrow> if ch = 80 then L_next sw_http_HTTP r else invalid_request r
      | sw_http_HTTP \<Rightarrow> if ch = 47 then L_next sw_first_major_digit r else invalid_request r
      | sw_first_major_digit \<Rightarrow>
          if ch < 49 \<or> ch > 57 then invalid_request r
          else L_next sw_major_digit (r\<lparr>rl_http_major := ucast (ch - 48)\<rparr>)
      | sw_major_digit \<Rightarrow>
          if ch = 46 then L_next sw_first_minor_digit r
          else if \<not> digit ch then invalid_request r
          else if rl_http_major r > 99 then invalid_request r
          else L_next sw_major_digit (r\<lparr>rl_http_major := rl_http_major r * 10 + ucast ch - 48\<rparr>)
      | sw_first_minor_digit \<Rightarrow>
          if \<not> digit ch then invalid_request r
          else L_next sw_minor_digit (r\<lparr>rl_http_minor := ucast (ch - 48)\<rparr>)
      | sw_minor_digit \<Rightarrow>
          if ch = CR then L_next sw_almost_done r
          else if ch = LF then L_goto 0 r
          else if ch = 32 then L_next sw_spaces_after_digit r
          else if \<not> digit ch then invalid_request r
          else if rl_http_minor r > 99 then invalid_request r
          else L_next sw_minor_digit (r\<lparr>rl_http_minor := rl_http_minor r * 10 + ucast ch - 48\<rparr>)
      | sw_spaces_after_digit \<Rightarrow>
          if ch = 32 then L_next sw_spaces_after_digit r
          else if ch = CR then L_next sw_almost_done r
          else if ch = LF then L_goto 0 r
          else invalid_request r
      | sw_almost_done \<Rightarrow>
          let r = r\<lparr>request_end := Some (p - 1)\<rparr>
          in if ch = LF then L_goto 0 r else invalid_request r)"

definition ch_http_request_line_parse :: "ch_http_request_line \<Rightarrow> ch_pp_data_line \<Rightarrow> int \<times> ch_http_request_line" where
  "ch_http_request_line_parse r line =
     (case line_loop (request_step (ln_line line)) (ln_line line) 0 sw_start r of
        (p, L_next _ r) \<Rightarrow> (CH_AGAIN, r)
      | (p, L_ret code r) \<Rightarrow> (code, r)
      | (p, L_goto _ r) \<Rightarrow>
          let r = (if request_end r = None then r\<lparr>request_end := Some p\<rparr> else r);
              r = r\<lparr>rl_http_version := ucast (rl_http_major r) * 1000 + ucast (rl_http_minor r)\<rparr>
          in if rl_http_version r = 9 \<and> rl_method r \<noteq> CH_HTTP_GET then (CH_HTTP_PARSE_INVALID_09_METHOD, r) else (CH_OK, r))"

section \<open>The header line\<close>

record ch_http_header =
  header_name_start :: "nat option"
  header_name_end :: "nat option"
  header_start :: "nat option"
  header_end :: "nat option"
  invalid_header :: bool

definition ch_http_header_init :: ch_http_header where
  "ch_http_header_init = \<lparr>header_name_start = None, header_name_end = None, header_start = None, header_end = None, invalid_header = False\<rparr>"

datatype hl_state = hl_start | hl_name | hl_space_before_value | hl_value | hl_space_after_value | hl_ignore_line | hl_almost_done | hl_header_almost_done

abbreviation invalid_line :: "'r \<Rightarrow> ('s, 'r) line_step" where
  "invalid_line r \<equiv> L_ret CH_HTTP_PARSE_INVALID_HEADER r"

text \<open>The label \<^verbatim>\<open>done\<close> is 0, \<^verbatim>\<open>header_done\<close> is 1.\<close>

definition header_step :: "bytes \<Rightarrow> nat \<Rightarrow> u8 \<Rightarrow> hl_state \<Rightarrow> ch_http_header \<Rightarrow> (hl_state, ch_http_header) line_step" where
  "header_step line p ch st h =
     (case st of
        hl_start \<Rightarrow>
          let h = h\<lparr>header_name_start := Some p, invalid_header := False\<rparr>
          in if ch = CR then L_next hl_header_almost_done (h\<lparr>header_end := Some p\<rparr>)
             else if ch = LF then L_goto 1 (h\<lparr>header_end := Some p\<rparr>)
             else if ch = 0 then invalid_line h
             else L_next hl_name (h\<lparr>invalid_header := True\<rparr>)
      | hl_name \<Rightarrow>
          if ch = 58 then L_next hl_space_before_value (h\<lparr>header_name_end := Some p\<rparr>)
          else if ch = CR then L_next hl_almost_done (h\<lparr>header_name_end := Some p, header_start := Some p, header_end := Some p\<rparr>)
          else if ch = LF then L_goto 0 (h\<lparr>header_name_end := Some p, header_start := Some p, header_end := Some p\<rparr>)
          else if ch = 47 \<and> p - the (header_name_start h) = 4 \<and> take 4 (drop (the (header_name_start h)) line) = text_bytes ''HTTP''
          then L_next hl_ignore_line h
          else if ch = 0 then invalid_line h
          else L_next hl_name (h\<lparr>invalid_header := True\<rparr>)
      | hl_space_before_value \<Rightarrow>
          if ch = 32 then L_next hl_space_before_value h
          else if ch = CR then L_next hl_almost_done (h\<lparr>header_start := Some p, header_end := Some p\<rparr>)
          else if ch = LF then L_goto 0 (h\<lparr>header_start := Some p, header_end := Some p\<rparr>)
          else if ch = 0 then invalid_line h
          else L_next hl_value (h\<lparr>header_start := Some p\<rparr>)
      | hl_value \<Rightarrow>
          if ch = 32 then L_next hl_space_after_value (h\<lparr>header_end := Some p\<rparr>)
          else if ch = CR then L_next hl_almost_done (h\<lparr>header_end := Some p\<rparr>)
          else if ch = LF then L_goto 0 (h\<lparr>header_end := Some p\<rparr>)
          else if ch = 0 then invalid_line h
          else L_next hl_value h
      | hl_space_after_value \<Rightarrow>
          if ch = 32 then L_next hl_space_after_value h
          else if ch = CR then L_next hl_almost_done h
          else if ch = LF then L_goto 0 h
          else if ch = 0 then invalid_line h
          else L_next hl_value h
      | hl_ignore_line \<Rightarrow> if ch = LF then L_next hl_start h else L_next hl_ignore_line h
      | hl_almost_done \<Rightarrow>
          if ch = LF then L_goto 0 h else if ch = CR then L_next hl_almost_done h else invalid_line h
      | hl_header_almost_done \<Rightarrow> if ch = LF then L_goto 1 h else invalid_line h)"

definition ch_http_header_line_parse :: "ch_http_header \<Rightarrow> ch_pp_data_line \<Rightarrow> int \<times> ch_http_header" where
  "ch_http_header_line_parse h line =
     (case line_loop (header_step (ln_line line)) (ln_line line) 0 hl_start h of
        (p, L_next _ h) \<Rightarrow> (CH_AGAIN, h)
      | (p, L_ret code h) \<Rightarrow> (code, h)
      | (p, L_goto l h) \<Rightarrow> (if l = 0 then CH_OK else CH_HTTP_PARSE_HEADER_DONE, h))"

section \<open>The status line\<close>

record ch_http_status_line =
  sl_http_version :: u32
  sl_code :: u32
  sl_count :: u32
  sl_start :: "nat option"
  sl_end :: "nat option"
  sl_http_minor :: u16
  sl_http_major :: u16

definition ch_http_status_line_init :: ch_http_status_line where
  "ch_http_status_line_init = \<lparr>sl_http_version = 0, sl_code = 0, sl_count = 0, sl_start = None, sl_end = None, sl_http_minor = 0, sl_http_major = 0\<rparr>"

datatype sl_state =
    sl_start_st | sl_H | sl_HT | sl_HTT | sl_HTTP | sl_first_major_digit | sl_major_digit | sl_first_minor_digit | sl_minor_digit
  | sl_status | sl_space_after_status | sl_status_text | sl_almost_done

abbreviation status_error :: "'r \<Rightarrow> ('s, 'r) line_step" where
  "status_error r \<equiv> L_ret CH_ERROR r"

definition status_step :: "nat \<Rightarrow> u8 \<Rightarrow> sl_state \<Rightarrow> ch_http_status_line \<Rightarrow> (sl_state, ch_http_status_line) line_step" where
  "status_step p ch st r =
     (case st of
        sl_start_st \<Rightarrow> if ch = 72 then L_next sl_H r else status_error r
      | sl_H \<Rightarrow> if ch = 84 then L_next sl_HT r else status_error r
      | sl_HT \<Rightarrow> if ch = 84 then L_next sl_HTT r else status_error r
      | sl_HTT \<Rightarrow> if ch = 80 then L_next sl_HTTP r else status_error r
      | sl_HTTP \<Rightarrow> if ch = 47 then L_next sl_first_major_digit r else status_error r
      | sl_first_major_digit \<Rightarrow>
          if ch < 49 \<or> ch > 57 then status_error r else L_next sl_major_digit (r\<lparr>sl_http_major := ucast (ch - 48)\<rparr>)
      | sl_major_digit \<Rightarrow>
          if ch = 46 then L_next sl_first_minor_digit r
          else if \<not> digit ch then status_error r
          else if sl_http_major r > 99 then status_error r
          else L_next sl_major_digit (r\<lparr>sl_http_major := sl_http_major r * 10 + ucast ch - 48\<rparr>)
      | sl_first_minor_digit \<Rightarrow>
          if \<not> digit ch then status_error r else L_next sl_minor_digit (r\<lparr>sl_http_minor := ucast (ch - 48)\<rparr>)
      | sl_minor_digit \<Rightarrow>
          if ch = 32 then L_next sl_status r
          else if \<not> digit ch then status_error r
          else if sl_http_minor r > 99 then status_error r
          else L_next sl_minor_digit (r\<lparr>sl_http_minor := sl_http_minor r * 10 + ucast ch - 48\<rparr>)
      | sl_status \<Rightarrow>
          if ch = 32 then L_next sl_status r
          else if \<not> digit ch then status_error r
          else
            let r = r\<lparr>sl_code := sl_code r * 10 + ucast ch - 48, sl_count := sl_count r + 1\<rparr>
            in if sl_count r = 3 then L_next sl_space_after_status (r\<lparr>sl_start := Some (p - 2)\<rparr>) else L_next sl_status r
      | sl_space_after_status \<Rightarrow>
          if ch = 32 \<or> ch = 46 then L_next sl_status_text r
          else if ch = CR then L_next sl_almost_done r
          else if ch = LF then L_goto 0 r
          else status_error r
      | sl_status_text \<Rightarrow>
          if ch = CR then L_next sl_almost_done r else if ch = LF then L_goto 0 r else L_next sl_status_text r
      | sl_almost_done \<Rightarrow>
          let r = r\<lparr>sl_end := Some (p - 1)\<rparr> in if ch = LF then L_goto 0 r else status_error r)"

definition ch_http_status_line_parse :: "ch_http_status_line \<Rightarrow> ch_pp_data_line \<Rightarrow> int \<times> ch_http_status_line" where
  "ch_http_status_line_parse r line =
     (case line_loop status_step (ln_line line) 0 sl_start_st r of
        (p, L_next _ r) \<Rightarrow> (CH_AGAIN, r)
      | (p, L_ret code r) \<Rightarrow> (code, r)
      | (p, L_goto _ r) \<Rightarrow>
          let r = (if sl_end r = None then r\<lparr>sl_end := Some p\<rparr> else r)
          in (CH_OK, r\<lparr>sl_http_version := ucast (sl_http_major r) * 1000 + ucast (sl_http_minor r)\<rparr>))"

section \<open>Chunks\<close>

datatype ck_state =
    ck_chunk_start | ck_chunk_size | ck_chunk_extension | ck_chunk_extension_almost_done | ck_chunk_data | ck_after_data
  | ck_after_data_almost_done | ck_last_chunk_extension | ck_last_chunk_extension_almost_done | ck_trailer | ck_trailer_almost_done
  | ck_trailer_header | ck_trailer_header_almost_done

record ch_http_chunked =
  ck_size :: size_t
  ck_length :: size_t
  ck_st :: ck_state

definition CH_MAX_OFF_T_VALUE :: size_t where "CH_MAX_OFF_T_VALUE = 9223372036854775807"

definition hex_letter :: "u8 \<Rightarrow> bool" where "hex_letter ch \<longleftrightarrow> 97 \<le> (ch OR 0x20) \<and> (ch OR 0x20) \<le> 102"

text \<open>A byte: the next state and size, or one of the three labels.\<close>

datatype ck_step = C_next ck_state size_t | C_data | C_done | C_invalid size_t

definition chunk_step :: "u8 \<Rightarrow> ck_state \<Rightarrow> size_t \<Rightarrow> ck_step" where
  "chunk_step ch st sz =
     (case st of
        ck_chunk_start \<Rightarrow>
          if digit ch then C_next ck_chunk_size (ucast (ch - 48))
          else if hex_letter ch then C_next ck_chunk_size (ucast ((ch OR 0x20) - 97) + 10)
          else C_invalid sz
      | ck_chunk_size \<Rightarrow>
          if sz > CH_MAX_OFF_T_VALUE div 16 then C_invalid sz
          else if digit ch then C_next ck_chunk_size (sz * 16 + ucast (ch - 48))
          else if hex_letter ch then C_next ck_chunk_size (sz * 16 + (ucast ((ch OR 0x20) - 97) + 10))
          else if sz = 0 then
            (if ch = CR then C_next ck_last_chunk_extension_almost_done sz
             else if ch = LF then C_next ck_trailer sz
             else if ch = 59 \<or> ch = 32 \<or> ch = 9 then C_next ck_last_chunk_extension sz
             else C_invalid sz)
          else if ch = CR then C_next ck_chunk_extension_almost_done sz
          else if ch = LF then C_next ck_chunk_data sz
          else if ch = 59 \<or> ch = 32 \<or> ch = 9 then C_next ck_chunk_extension sz
          else C_invalid sz
      | ck_chunk_extension \<Rightarrow>
          if ch = CR then C_next ck_chunk_extension_almost_done sz
          else if ch = LF then C_next ck_chunk_data sz
          else C_next ck_chunk_extension sz
      | ck_chunk_extension_almost_done \<Rightarrow> if ch = LF then C_next ck_chunk_data sz else C_invalid sz
      | ck_chunk_data \<Rightarrow> C_data
      | ck_after_data \<Rightarrow>
          if ch = CR then C_next ck_after_data_almost_done sz
          else if ch = LF then C_next ck_chunk_start sz
          else C_next ck_after_data sz
      | ck_after_data_almost_done \<Rightarrow> if ch = LF then C_next ck_chunk_start sz else C_invalid sz
      | ck_last_chunk_extension \<Rightarrow>
          if ch = CR then C_next ck_last_chunk_extension_almost_done sz
          else if ch = LF then C_next ck_trailer sz
          else C_next ck_last_chunk_extension sz
      | ck_last_chunk_extension_almost_done \<Rightarrow> if ch = LF then C_next ck_trailer sz else C_invalid sz
      | ck_trailer \<Rightarrow>
          if ch = CR then C_next ck_trailer_almost_done sz
          else if ch = LF then C_done
          else C_next ck_trailer_header sz
      | ck_trailer_almost_done \<Rightarrow> if ch = LF then C_done else C_invalid sz
      | ck_trailer_header \<Rightarrow>
          if ch = CR then C_next ck_trailer_header_almost_done sz
          else if ch = LF then C_next ck_trailer sz
          else C_next ck_trailer_header sz
      | ck_trailer_header_almost_done \<Rightarrow> if ch = LF then C_next ck_trailer sz else C_invalid sz)"

text \<open>The loop, with the number of bytes it has passed: where it stops, in which state and with what size.\<close>

fun chunk_loop :: "bytes \<Rightarrow> nat \<Rightarrow> ck_state \<Rightarrow> size_t \<Rightarrow> ck_step \<times> nat \<times> ck_state \<times> size_t" where
  "chunk_loop [] k st sz = (C_next st sz, k, st, sz)"
| "chunk_loop (ch # cs) k st sz =
     (case chunk_step ch st sz of
        C_next st' sz' \<Rightarrow> chunk_loop cs (k + 1) st' sz'
      | C_data \<Rightarrow> (C_data, k, st, sz)
      | C_done \<Rightarrow> (C_done, k, st, sz)
      | C_invalid sz' \<Rightarrow> (C_invalid sz', k, st, sz'))"

definition chunk_length :: "ck_state \<Rightarrow> size_t \<Rightarrow> size_t" where
  "chunk_length st sz =
     (case st of
        ck_chunk_start \<Rightarrow> 3
      | ck_chunk_size \<Rightarrow> 1 + (if sz \<noteq> 0 then sz + 4 else 1)
      | ck_chunk_extension \<Rightarrow> 1 + sz + 4
      | ck_chunk_extension_almost_done \<Rightarrow> 1 + sz + 4
      | ck_chunk_data \<Rightarrow> sz + 4
      | ck_after_data \<Rightarrow> 4
      | ck_after_data_almost_done \<Rightarrow> 4
      | ck_last_chunk_extension \<Rightarrow> 2
      | ck_last_chunk_extension_almost_done \<Rightarrow> 2
      | ck_trailer \<Rightarrow> 1
      | ck_trailer_almost_done \<Rightarrow> 1
      | ck_trailer_header \<Rightarrow> 2
      | ck_trailer_header_almost_done \<Rightarrow> 2)"

definition ch_http_chunked_parse :: "ch_http_chunked \<Rightarrow> ch_pp_data_input \<Rightarrow> int \<times> ch_http_chunked \<times> ch_pp_data_input" where
  "ch_http_chunked_parse ctx din =
     (let st = (if ck_st ctx = ck_chunk_data \<and> ck_size ctx = 0 then ck_after_data else ck_st ctx)
      in case chunk_loop (drop (pp_pos din) (pp_data din)) 0 st (ck_size ctx) of
           (C_done, k, st, sz) \<Rightarrow> (CH_DONE, ctx\<lparr>ck_size := sz, ck_st := ck_chunk_start\<rparr>, ch_pp_din_pos_update din (k + 1))
         | (C_invalid _, k, st, sz) \<Rightarrow> (CH_ERROR, ctx\<lparr>ck_size := sz\<rparr>, din)
         | (r, k, st, sz) \<Rightarrow>
             let ctx = ctx\<lparr>ck_size := sz, ck_st := st\<rparr>; din = ch_pp_din_pos_update din k
             in if sz > CH_MAX_OFF_T_VALUE - 5 then (CH_ERROR, ctx, din)
                else (if r = C_data then CH_OK else CH_AGAIN, ctx\<lparr>ck_length := chunk_length st sz\<rparr>, din))"

lemma chunk_loop_bounds: "chunk_loop cs k st sz = (r, k', st', sz') \<Longrightarrow> k \<le> k' \<and> k' \<le> k + length cs"
  by (induction cs k st sz rule: chunk_loop.induct) (force split: ck_step.splits)+

lemma chunk_loop_next: "chunk_loop cs k st sz = (C_next st' sz', k', s2, z2) \<Longrightarrow> k' = k + length cs \<and> s2 = st' \<and> z2 = sz'"
  by (induction cs k st sz rule: chunk_loop.induct) (auto split: ck_step.splits)

lemma chunk_loop_data:
  "chunk_loop cs k st sz = (C_data, k', st', sz') \<Longrightarrow> k' < k + length cs \<and> st' = ck_chunk_data \<and> (k' = k \<longrightarrow> st = ck_chunk_data \<and> sz' = sz)"
proof (induction cs k st sz rule: chunk_loop.induct)
  case (2 ch cs k st sz)
  show ?case
  proof (cases "chunk_step ch st sz")
    case (C_next s2 z2)
    then show ?thesis using 2 chunk_loop_bounds [of cs "k + 1" s2 z2] by fastforce
  next
    case C_data
    then show ?thesis using "2.prems" by (auto simp: chunk_step_def split: ck_state.splits if_splits)
  qed (use "2.prems" in auto)
qed simp

text \<open>A chunk of which data are there: the parser has moved, or it was at the data already.\<close>

lemma chunked_parse_data:
  assumes "ch_http_chunked_parse ctx din = (CH_OK, ctx', din')"
  shows "pp_data din' = pp_data din \<and> pp_pos din \<le> pp_pos din' \<and> pp_pos din' < length (pp_data din) \<and>
    (pp_pos din' = pp_pos din \<longrightarrow> ck_size ctx' \<noteq> 0) \<and> ck_st ctx' = ck_chunk_data"
proof -
  let ?st = "if ck_st ctx = ck_chunk_data \<and> ck_size ctx = 0 then ck_after_data else ck_st ctx"
  obtain r k st sz where l: "chunk_loop (drop (pp_pos din) (pp_data din)) 0 ?st (ck_size ctx) = (r, k, st, sz)" by (cases "chunk_loop (drop (pp_pos din) (pp_data din)) 0 ?st (ck_size ctx)")
  with assms have r: "r = C_data" by (cases r) (auto simp: ch_http_chunked_parse_def Let_def http_codes split: if_splits)
  with chunk_loop_data [OF l [unfolded r]] show ?thesis
    using assms l by (auto simp: ch_http_chunked_parse_def Let_def http_codes ch_pp_din_pos_update_def split: if_splits)
qed

section \<open>What the parsers point at\<close>

text \<open>An invariant of the loop: \<open>I\<close> between the bytes, \<open>Q\<close> where the loop is left for a label.\<close>

lemma line_loop_inv:
  assumes "line_loop step cs p st r = (p', x)" "I p st r"
    and "\<And>p c st r. p < n \<Longrightarrow> I p st r \<Longrightarrow> case step p c st r of L_next st' r' \<Rightarrow> I (p + 1) st' r' | L_goto l r' \<Rightarrow> Q l r' | L_ret code _ \<Rightarrow> code \<noteq> CH_OK"
    and "p + length cs \<le> n"
  shows "case x of L_next st' r' \<Rightarrow> I p' st' r' | L_goto l r' \<Rightarrow> Q l r' | L_ret code _ \<Rightarrow> code \<noteq> CH_OK"
  using assms(1,2,4)
proof (induction cs arbitrary: p st r)
  case (Cons c cs)
  have *: "case step p c st r of L_next st' r' \<Rightarrow> I (p + 1) st' r' | L_goto l r' \<Rightarrow> Q l r' | L_ret code _ \<Rightarrow> code \<noteq> CH_OK"
    using assms(3) [of p st r c] Cons.prems by simp
  show ?case
  proof (cases "step p c st r")
    case (L_next st2 r2)
    with Cons.prems have "line_loop step cs (p + 1) st2 r2 = (p', x)" by simp
    with L_next * Cons.prems(3) show ?thesis by (auto intro: Cons.IH)
  next
    case (L_ret code r2)
    with Cons.prems(1) have "x = L_ret code r2" by simp
    then show ?thesis using * L_ret by simp
  next
    case (L_goto l r2)
    with Cons.prems(1) have "x = L_goto l r2" by simp
    then show ?thesis using * L_goto by simp
  qed
qed auto

definition method_at :: "nat \<Rightarrow> ch_http_request_line \<Rightarrow> bool" where
  "method_at p r \<longleftrightarrow> (\<exists>m e. request_start r = Some m \<and> method_end r = Some e \<and> m \<le> e \<and> e < p)"

definition uri_at :: "nat \<Rightarrow> ch_http_request_line \<Rightarrow> bool" where
  "uri_at p r \<longleftrightarrow> (\<exists>u v. uri_start r = Some u \<and> uri_end r = Some v \<and> u \<le> v \<and> v < p)"

definition schema_at :: "nat \<Rightarrow> nat \<Rightarrow> ch_http_request_line \<Rightarrow> bool" where
  "schema_at d p r \<longleftrightarrow> (\<exists>c. schema_end r = Some c \<and> c + d < p)"

definition request_inv :: "nat \<Rightarrow> rl_state \<Rightarrow> ch_http_request_line \<Rightarrow> bool" where
  "request_inv p st r \<longleftrightarrow>
     (if st = sw_start then True
      else if st = sw_method then \<exists>m. request_start r = Some m \<and> m < p
      else method_at p r \<and>
        (if st = sw_spaces_before_uri \<or> st = sw_schema then True
         else if st = sw_schema_slash then schema_at 0 p r
         else if st = sw_schema_slash_slash then schema_at 1 p r
         else if st \<in> {sw_host_start, sw_host, sw_host_end, sw_host_ip_literal, sw_port} then schema_at 2 p r
         else if st \<in> {sw_after_slash_in_uri, sw_check_uri, sw_uri} then \<exists>u. uri_start r = Some u \<and> u < p
         else uri_at p r))"

lemma request_step_inv:
  assumes "p < n" "request_inv p st r"
  shows "case request_step line p c st r of
    L_next st' r' \<Rightarrow> request_inv (p + 1) st' r' | L_goto _ r' \<Rightarrow> method_at n r' \<and> uri_at n r' | L_ret code _ \<Rightarrow> code \<noteq> CH_OK"
  using assms
  by (cases st)
    (auto simp: request_step_def request_inv_def method_at_def uri_at_def schema_at_def host_step_def host_end_step_def check_uri_step_def
      uri_step_def http_codes Let_def)

lemma request_line_parse_inside:
  assumes "ch_http_request_line_parse (ch_http_request_line_init g v) line = (CH_OK, r)"
  shows "method_at (length (ln_line line)) r \<and> uri_at (length (ln_line line)) r"
proof -
  let ?n = "length (ln_line line)"
  obtain p x where l: "line_loop (request_step (ln_line line)) (ln_line line) 0 sw_start (ch_http_request_line_init g v) = (p, x)"
    by fastforce
  have "case x of L_next st' r' \<Rightarrow> request_inv p st' r' | L_goto _ r' \<Rightarrow> method_at ?n r' \<and> uri_at ?n r' | L_ret code _ \<Rightarrow> code \<noteq> CH_OK"
    by (rule line_loop_inv [OF l, where n = ?n and Q = "\<lambda>_ r. method_at ?n r \<and> uri_at ?n r"]) (auto simp: request_inv_def intro: request_step_inv)
  then show ?thesis using assms l
    by (auto simp: ch_http_request_line_parse_def http_codes Let_def method_at_def uri_at_def split: line_step.splits if_splits)
qed

definition name_at :: "nat \<Rightarrow> ch_http_header \<Rightarrow> bool" where
  "name_at p h \<longleftrightarrow> (\<exists>a b. header_name_start h = Some a \<and> header_name_end h = Some b \<and> a \<le> b \<and> b < p)"

definition value_at :: "nat \<Rightarrow> ch_http_header \<Rightarrow> bool" where
  "value_at p h \<longleftrightarrow> (\<exists>a b. header_start h = Some a \<and> header_end h = Some b \<and> a \<le> b \<and> b < p)"

definition header_inv :: "nat \<Rightarrow> hl_state \<Rightarrow> ch_http_header \<Rightarrow> bool" where
  "header_inv p st h \<longleftrightarrow>
     (if st \<in> {hl_start, hl_ignore_line, hl_header_almost_done} then True
      else if st = hl_name then \<exists>a. header_name_start h = Some a \<and> a < p
      else name_at p h \<and>
        (if st = hl_space_before_value then True
         else if st = hl_value then \<exists>c. header_start h = Some c \<and> c < p
         else value_at p h))"

lemma header_step_inv:
  assumes "p < n" "header_inv p st h"
  shows "case header_step line p c st h of
    L_next st' h' \<Rightarrow> header_inv (p + 1) st' h' | L_goto l h' \<Rightarrow> l = 0 \<longrightarrow> name_at n h' \<and> value_at n h' | L_ret code _ \<Rightarrow> code \<noteq> CH_OK"
  using assms by (cases st) (auto simp: header_step_def header_inv_def name_at_def value_at_def http_codes Let_def)

lemma header_line_parse_inside:
  assumes "ch_http_header_line_parse ch_http_header_init line = (CH_OK, h)"
  shows "name_at (length (ln_line line)) h \<and> value_at (length (ln_line line)) h"
proof -
  let ?n = "length (ln_line line)"
  obtain p x where l: "line_loop (header_step (ln_line line)) (ln_line line) 0 hl_start ch_http_header_init = (p, x)" by fastforce
  have "case x of L_next st' h' \<Rightarrow> header_inv p st' h' | L_goto l h' \<Rightarrow> l = 0 \<longrightarrow> name_at ?n h' \<and> value_at ?n h' | L_ret code _ \<Rightarrow> code \<noteq> CH_OK"
    by (rule line_loop_inv [OF l, where n = ?n and Q = "\<lambda>l h. l = 0 \<longrightarrow> name_at ?n h \<and> value_at ?n h"])
      (auto simp: header_inv_def intro: header_step_inv)
  then show ?thesis using assms l
    by (auto simp: ch_http_header_line_parse_def http_codes split: line_step.splits if_splits)
qed

end
