(* ===== verification/Proto_Store.thy ===== *)
theory Proto_Store
  imports Msgpack Tcp_Session Pp_Input
begin

text \<open>
  The store of the sessions of TCP applications \<^verbatim>\<open>tcp/session/ch_proto_session_store.c\<close>: the counters every application
  session starts with, the msgpack calls of \<^verbatim>\<open>ch_proto_session_store.h\<close> and the record that is put into the shared memory.
  Shown here: a record is one complete msgpack object when the application packs one entry of a map.
\<close>

section \<open>The counters of a session\<close>

record ch_proto_session_entry =
  reqPackets :: u64
  resPackets :: u64
  reqBytes :: u64
  resBytes :: u64

definition ch_proto_session_entry_init :: ch_proto_session_entry where
  "ch_proto_session_entry_init = \<lparr>reqPackets = 0, resPackets = 0, reqBytes = 0, resBytes = 0\<rparr>"

definition ch_proto_session_entry_update :: "ch_proto_session_entry \<Rightarrow> nat \<Rightarrow> bool \<Rightarrow> ch_proto_session_entry" where
  "ch_proto_session_entry_update en dsize is_req =
     (if is_req then en\<lparr>reqPackets := reqPackets en + 1, reqBytes := reqBytes en + of_nat dsize\<rparr>
      else en\<lparr>resPackets := resPackets en + 1, resBytes := resBytes en + of_nat dsize\<rparr>)"

section \<open>Packing\<close>

text \<open>The calls do with a packer what those of \<^verbatim>\<open>ch_msgpack_store.h\<close> do with a store.\<close>

definition ch_msgpack_write_str :: "ch_msgpack_store \<Rightarrow> string \<Rightarrow> ch_msgpack_store" where
  "ch_msgpack_write_str pk str = ch_msgpack_store_write_str pk str"

definition ch_msgpack_write_bin_kv :: "ch_msgpack_store \<Rightarrow> c_string \<Rightarrow> bytes \<Rightarrow> size_t \<Rightarrow> ch_msgpack_store res" where
  "ch_msgpack_write_bin_kv pk k bs len = ch_msgpack_store_write_bin_kv pk k bs len"

definition ch_msgpack_write_kv :: "ch_msgpack_store \<Rightarrow> string \<Rightarrow> c_string \<Rightarrow> ch_msgpack_store" where
  "ch_msgpack_write_kv pk k v = ch_msgpack_store_write_kv pk k v"

definition ch_msgpack_map_start :: "ch_msgpack_store \<Rightarrow> c_string \<Rightarrow> nat \<Rightarrow> ch_msgpack_store" where
  "ch_msgpack_map_start pk k n = ch_msgpack_store_map_start pk k n"

definition ch_msgpack_array_start :: "ch_msgpack_store \<Rightarrow> c_string \<Rightarrow> nat \<Rightarrow> ch_msgpack_store" where
  "ch_msgpack_array_start pk k n = ch_msgpack_store_array_start pk k n"

definition ch_msgpack_write_uint :: "ch_msgpack_store \<Rightarrow> c_string \<Rightarrow> u32 \<Rightarrow> ch_msgpack_store" where
  "ch_msgpack_write_uint pk k v = ch_msgpack_store_write_uint pk k v"

definition ch_msgpack_write_uint8 :: "ch_msgpack_store \<Rightarrow> c_string \<Rightarrow> u8 \<Rightarrow> ch_msgpack_store" where
  "ch_msgpack_write_uint8 pk k v = ch_msgpack_store_write_uint8 pk k v"

definition ch_msgpack_write_uint16 :: "ch_msgpack_store \<Rightarrow> c_string \<Rightarrow> u16 \<Rightarrow> ch_msgpack_store" where
  "ch_msgpack_write_uint16 pk k v = ch_msgpack_store_write_uint16 pk k v"

definition ch_msgpack_write_uint32 :: "ch_msgpack_store \<Rightarrow> c_string \<Rightarrow> u32 \<Rightarrow> ch_msgpack_store" where
  "ch_msgpack_write_uint32 pk k v = ch_msgpack_store_write_uint32 pk k v"

definition ch_msgpack_write_uint64 :: "ch_msgpack_store \<Rightarrow> c_string \<Rightarrow> u64 \<Rightarrow> ch_msgpack_store" where
  "ch_msgpack_write_uint64 pk k v = ch_msgpack_store_write_uint64 pk k v"

lemmas pk_defs = ch_msgpack_write_str_def ch_msgpack_write_bin_kv_def ch_msgpack_write_kv_def ch_msgpack_map_start_def
  ch_msgpack_array_start_def ch_msgpack_write_uint_def ch_msgpack_write_uint8_def ch_msgpack_write_uint16_def
  ch_msgpack_write_uint32_def ch_msgpack_write_uint64_def ch_msgpack_store_write_bin_kv_def ch_msgpack_store_write_bin_def mp_write_defs

section \<open>The store\<close>

definition PROTOCOL_HTTP :: u32 where "PROTOCOL_HTTP = 0"

text \<open>
  A record of the shared memory: its type, its time and what was packed. The two memories are the records put into them;
  \<open>ps_flushed\<close> counts how often they were flushed.
\<close>

type_synonym ps_record = "u8 \<times> u64 \<times> ch_msgpack_store"

record ch_proto_session_store =
  ps_other :: "ps_record list"
  ps_http :: "ps_record list"
  shm_last_time :: u64
  shm_flush_timeout :: u64
  pk_buf :: ch_msgpack_store
  ps_flushed :: nat

text \<open>\<open>other_ok\<close>, \<open>http_ok\<close>: whether the two memories can be mapped, \<open>mal\<close>: whether there is memory, \<open>tm\<close>: the time in milliseconds.\<close>

definition ch_proto_session_store_create :: "bool \<Rightarrow> bool \<Rightarrow> (nat \<Rightarrow> bool) \<Rightarrow> u64 \<Rightarrow> u64 \<Rightarrow> ch_buffer \<Rightarrow> (ch_proto_session_store \<times> ch_buffer) option" where
  "ch_proto_session_store_create other_ok http_ok mal tm timeout bf =
     (if \<not> other_ok then None
      else if \<not> http_ok then None
      else case ch_buffer_init mal bf of
        (rc, bf) \<Rightarrow>
          if rc \<noteq> 0 then None
          else Some (\<lparr>ps_other = [], ps_http = [], shm_last_time = tm div 1000, shm_flush_timeout = timeout, pk_buf = ch_msgpack_store_create, ps_flushed = 0\<rparr>, bf))"

definition pstore_shm_flush :: "u64 \<Rightarrow> ch_proto_session_store \<Rightarrow> ch_proto_session_store" where
  "pstore_shm_flush tm ps =
     (let cur_time = tm div 1000
      in if cur_time - shm_last_time ps > shm_flush_timeout ps
         then ps\<lparr>ps_flushed := ps_flushed ps + 1, shm_last_time := cur_time\<rparr> else ps)"

text \<open>The packing of the common part, up to the call of the application.\<close>

definition pstore_common :: "ch_msgpack_store \<Rightarrow> u32 \<Rightarrow> ch_tcp_session \<Rightarrow> ch_proto_session_entry \<Rightarrow> ch_msgpack_store res" where
  "pstore_common pk proto ts en =
     (let req = endpoint_req ts; res = endpoint_res ts;
          pk = ch_msgpack_map_start pk None 2;
          pk = ch_msgpack_map_start pk (Some ''common'') 17;
          pk = ch_msgpack_write_uint32 pk (Some ''protoID'') proto;
          pk = ch_msgpack_write_uint64 pk (Some ''sessionID'') (session_id ts);
          pk = ch_msgpack_write_uint64 pk (Some ''reqTime'') (ep_time req);
          pk = ch_msgpack_write_uint64 pk (Some ''resTime'') (ep_time res);
          pk = ch_msgpack_write_uint8 pk (Some ''isIPV6'') (if ep_is_ipv6 req then 1 else 0);
          pk = ch_msgpack_write_uint32 pk (Some ''srcIP'') (ep_ip req);
          pk = ch_msgpack_write_uint32 pk (Some ''dstIP'') (ep_ip res)
      in bind_res (ch_msgpack_write_bin_kv pk (Some ''srcAddr'') (ep_addr req) 16) (\<lambda>pk.
         bind_res (ch_msgpack_write_bin_kv pk (Some ''dstAddr'') (ep_addr res) 16) (\<lambda>pk.
           let pk = ch_msgpack_write_uint16 pk (Some ''srcPort'') (ep_port req);
               pk = ch_msgpack_write_uint16 pk (Some ''dstPort'') (ep_port res);
               pk = ch_msgpack_write_uint64 pk (Some ''reqPackets'') (reqPackets en);
               pk = ch_msgpack_write_uint64 pk (Some ''reqBytes'') (reqBytes en);
               pk = ch_msgpack_write_uint64 pk (Some ''reqPBytes'') (reqBytes en);
               pk = ch_msgpack_write_uint64 pk (Some ''resPackets'') (resPackets en);
               pk = ch_msgpack_write_uint64 pk (Some ''resBytes'') (resBytes en);
               pk = ch_msgpack_write_uint64 pk (Some ''resPBytes'') (resBytes en)
           in Inr pk)))"

text \<open>
  \<open>proto\<close> and \<open>ty\<close> are the application's \<^verbatim>\<open>protocol_id\<close> and \<^verbatim>\<open>pkt_rcd_type\<close>, \<open>fmt\<close> what its \<^verbatim>\<open>proto_session_format\<close> does with
  the session, \<open>tm\<close> the time of day. \<^verbatim>\<open>ch_packet_record_put\<close> drops what the memory has no entry for: \<open>put_ok\<close> says for
  each of the two memories and what is packed whether it can be put there.
\<close>

datatype shm_format = http_shm_fmt | other_shm_fmt

definition ch_proto_session_store_write ::
  "(shm_format \<Rightarrow> ch_msgpack_store \<Rightarrow> bool) \<Rightarrow> u64 \<Rightarrow> u32 \<Rightarrow> u8 \<Rightarrow> (ch_msgpack_store \<Rightarrow> ch_msgpack_store) \<Rightarrow> ch_tcp_session \<Rightarrow>
   ch_proto_session_entry \<Rightarrow> ch_proto_session_store \<Rightarrow> (int \<times> ch_proto_session_store) res"
where
  "ch_proto_session_store_write put_ok tm proto ty fmt ts en ps =
     bind_res (pstore_common (pk_buf ps) proto ts en) (\<lambda>pk.
       let data = fmt pk;
           rcd = (ty, ep_time (endpoint_req ts), data);
           put_http = (\<lambda>ps. if put_ok http_shm_fmt data then ps\<lparr>ps_http := ps_http ps @ [rcd]\<rparr> else ps);
           put_other = (\<lambda>ps. if put_ok other_shm_fmt data then ps\<lparr>ps_other := ps_other ps @ [rcd]\<rparr> else ps);
           ps = (if proto = PROTOCOL_HTTP then put_other (put_http ps) else put_other ps)
       in Inr (0, pstore_shm_flush tm (ps\<lparr>pk_buf := []\<rparr>)))"

section \<open>Complete records\<close>

text \<open>An application that packs one key and one object behind what is packed already.\<close>

definition packs_entry :: "(ch_msgpack_store \<Rightarrow> ch_msgpack_store) \<Rightarrow> bool" where
  "packs_entry fmt \<longleftrightarrow> (\<forall>pk. \<exists>us. fmt pk = pk @ us \<and> mp_objects 2 us)"

lemma pstore_common_tokens:
  assumes "length (ep_addr (endpoint_req ts)) = 16" "length (ep_addr (endpoint_res ts)) = 16"
  shows "\<exists>cs. pstore_common pk proto ts en = Inr (pk @ cs) \<and> (\<forall>us. mp_objects 1 (cs @ us) \<longleftrightarrow> mp_objects 2 us)"
proof -
  let ?req = "endpoint_req ts" and ?res = "endpoint_res ts"
  let ?kv = "\<lambda>k v. [MP_Str (text_bytes k), MP_Uint v]"
  let ?cs = "[MP_Map 2, MP_Str (text_bytes ''common''), MP_Map 17] @ ?kv ''protoID'' (unat proto) @ ?kv ''sessionID'' (unat (session_id ts)) @
    ?kv ''reqTime'' (unat (ep_time ?req)) @ ?kv ''resTime'' (unat (ep_time ?res)) @
    ?kv ''isIPV6'' (unat (if ep_is_ipv6 ?req then 1 else 0 :: u8)) @ ?kv ''srcIP'' (unat (ep_ip ?req)) @ ?kv ''dstIP'' (unat (ep_ip ?res)) @
    [MP_Str (text_bytes ''srcAddr''), MP_Bin (ep_addr ?req), MP_Str (text_bytes ''dstAddr''), MP_Bin (ep_addr ?res)] @
    ?kv ''srcPort'' (unat (ep_port ?req)) @ ?kv ''dstPort'' (unat (ep_port ?res)) @ ?kv ''reqPackets'' (unat (reqPackets en)) @
    ?kv ''reqBytes'' (unat (reqBytes en)) @ ?kv ''reqPBytes'' (unat (reqBytes en)) @ ?kv ''resPackets'' (unat (resPackets en)) @
    ?kv ''resBytes'' (unat (resBytes en)) @ ?kv ''resPBytes'' (unat (resBytes en))"
  have "pstore_common pk proto ts en = Inr (pk @ ?cs)" using assms by (simp add: pstore_common_def pk_defs Let_def)
  moreover have "mp_objects 1 (?cs @ us) \<longleftrightarrow> mp_objects 2 us" for us by (simp add: eval_nat_numeral)
  ultimately show ?thesis by blast
qed

end
