(* ===== verification/Http_Session.thy ===== *)
theory Http_Session
  imports Http_Parse Proto_Store
begin

text \<open>
  HTTP sessions: \<^verbatim>\<open>tcp/app/http/ch_http_session.c\<close>, \<^verbatim>\<open>ch_http_session_body.c\<close>, \<^verbatim>\<open>ch_http_session_entry.c\<close>, and of
  \<^verbatim>\<open>do_http_parse.c\<close> what works on one line or one body; the loops over the data are in \<^verbatim>\<open>Http_App\<close>. A session that requests and responses share is a value: the one that a call works
  on is \<^verbatim>\<open>cur_req\<close>, or the first of the list \<^verbatim>\<open>reqs\<close>, and is put back. A body is the bytes in its file.
\<close>

section \<open>Sessions\<close>

definition CH_HTTP_VERSION_9 :: u32 where "CH_HTTP_VERSION_9 = 9"
definition CH_HTTP_VERSION_10 :: u32 where "CH_HTTP_VERSION_10 = 1000"
definition CH_HTTP_VERSION_11 :: u32 where "CH_HTTP_VERSION_11 = 1001"
definition CH_HTTP_VERSION_20 :: u32 where "CH_HTTP_VERSION_20 = 2000"
definition CH_HTTP_CONNECTION_CLOSE :: u8 where "CH_HTTP_CONNECTION_CLOSE = 1"
definition CH_HTTP_CONNECTION_KEEP_ALIVE :: u8 where "CH_HTTP_CONNECTION_KEEP_ALIVE = 2"

type_synonym ch_table_elt = "string \<times> string"

record ch_http_headers_in =
  hi_headers :: "ch_table_elt list"
  hi_host :: "ch_table_elt option"
  hi_connection :: "ch_table_elt option"
  hi_user_agent :: "ch_table_elt option"
  hi_content_length :: "ch_table_elt option"
  hi_content_type :: "ch_table_elt option"
  hi_transfer_encoding :: "ch_table_elt option"
  hi_content_length_n :: size_t
  hi_connection_type :: u8
  hi_chunked :: bool

record ch_http_headers_out =
  ho_headers :: "ch_table_elt list"
  ho_server :: "ch_table_elt option"
  ho_connection :: "ch_table_elt option"
  ho_content_length :: "ch_table_elt option"
  ho_content_encoding :: "ch_table_elt option"
  ho_transfer_encoding :: "ch_table_elt option"
  ho_content_type :: "ch_table_elt option"
  ho_content_length_n :: size_t
  ho_connection_type :: u8
  ho_chunked :: bool

record ch_http_session_body =
  body_file :: bytes
  body_saved :: bool
  body_fname :: string
  body_chunk :: "ch_http_chunked option"
  body_len :: size_t
  body_len_accepted :: size_t

datatype parse_phase =
    PARSE_PHASE_REQ_LINE | PARSE_PHASE_REQ_HEADER | PARSE_PHASE_REQ_BODY | PARSE_PHASE_STATUS_LINE | PARSE_PHASE_RES_HEADER
  | PARSE_PHASE_RES_BODY | PARSE_PHASE_DONE

record ch_http_session =
  psEntry :: ch_proto_session_entry
  headers_in :: ch_http_headers_in
  headers_out :: ch_http_headers_out
  req_body :: "ch_http_session_body option"
  res_body :: "ch_http_session_body option"
  hs_phase :: parse_phase
  http_version :: u32
  hs_method :: c_string
  hs_uri :: c_string
  hs_host :: c_string
  in_headers_n :: u32
  out_headers_n :: u32
  status_code :: u32
  is_pass :: bool

definition http_headers_in_init :: ch_http_headers_in where
  "http_headers_in_init = \<lparr>hi_headers = [], hi_host = None, hi_connection = None, hi_user_agent = None, hi_content_length = None,
     hi_content_type = None, hi_transfer_encoding = None, hi_content_length_n = 0, hi_connection_type = CH_HTTP_CONNECTION_CLOSE,
     hi_chunked = False\<rparr>"

definition http_headers_out_init :: ch_http_headers_out where
  "http_headers_out_init = \<lparr>ho_headers = [], ho_server = None, ho_connection = None, ho_content_length = None, ho_content_encoding = None,
     ho_transfer_encoding = None, ho_content_type = None, ho_content_length_n = 0, ho_connection_type = CH_HTTP_CONNECTION_CLOSE,
     ho_chunked = False\<rparr>"

text \<open>A new session; that there is memory for it is tested where it is created.\<close>

definition ch_http_session_create :: ch_http_session where
  "ch_http_session_create = \<lparr>psEntry = ch_proto_session_entry_init, headers_in = http_headers_in_init, headers_out = http_headers_out_init,
     req_body = None, res_body = None, hs_phase = PARSE_PHASE_REQ_LINE, http_version = CH_HTTP_VERSION_11, hs_method = None, hs_uri = None,
     hs_host = None, in_headers_n = 0, out_headers_n = 0, status_code = 0, is_pass = False\<rparr>"

definition HTTP_VERSION_MAKE :: "u16 \<Rightarrow> u16 \<Rightarrow> u32" where
  "HTTP_VERSION_MAKE major minor = ucast major * 1000 + ucast minor"

text \<open>
  \<^verbatim>\<open>mp\<close> says whether the memory pool of the connection gives memory of a size. \<^verbatim>\<open>ch_pstrndup\<close> copies the text up to the first zero
  byte, or all of it, and writes through the pointer that \<^verbatim>\<open>ch_palloc\<close> gave it, also through \<^verbatim>\<open>NULL\<close>.
\<close>

definition http_pstrndup :: "(nat \<Rightarrow> bool) \<Rightarrow> bytes \<Rightarrow> string res" where
  "http_pstrndup mp d = (let t = c_string_of d in if mp (length t + 1) then Inr t else Inl Null_Deref)"

text \<open>The copy of a part of a line. An end before the start would make its size wrap round.\<close>

definition HTTP_STRNDUP :: "(nat \<Rightarrow> bool) \<Rightarrow> bytes \<Rightarrow> nat option \<Rightarrow> nat option \<Rightarrow> nat \<Rightarrow> string res" where
  "HTTP_STRNDUP mp line s e incr =
     (case (s, e) of
        (Some s, Some e) \<Rightarrow>
          if s = e then Inr []
          else if s < e \<and> e + incr \<le> length line then http_pstrndup mp (take (e - s + incr) (drop s line))
          else Inl Out_Of_Bounds
      | _ \<Rightarrow> Inr [])"

definition ch_http_session_request_line_set :: "(nat \<Rightarrow> bool) \<Rightarrow> bytes \<Rightarrow> ch_http_session \<Rightarrow> ch_http_request_line \<Rightarrow> ch_http_session res" where
  "ch_http_session_request_line_set mp line s rl =
     bind_res (HTTP_STRNDUP mp line (request_start rl) (method_end rl) 1) (\<lambda>m.
     bind_res (HTTP_STRNDUP mp line (uri_start rl) (uri_end rl) 0) (\<lambda>u.
       Inr (s\<lparr>hs_method := Some m, http_version := HTTP_VERSION_MAKE (rl_http_major rl) (rl_http_minor rl), hs_uri := Some u\<rparr>)))"

definition strcasecmp_eq :: "string \<Rightarrow> string \<Rightarrow> bool" where
  "strcasecmp_eq a b \<longleftrightarrow> map to_lower a = map to_lower b"

text \<open>\<^verbatim>\<open>strtoul(s, &end, 10)\<close>: a minus sign negates the unsigned number.\<close>

definition strtoul :: "string \<Rightarrow> u64" where
  "strtoul s =
     (let s = dropWhile is_space s;
          neg = (s \<noteq> [] \<and> hd s = CHR ''-'');
          s = (if s \<noteq> [] \<and> (hd s = CHR ''-'' \<or> hd s = CHR ''+'') then tl s else s);
          v = digits_value (takeWhile is_digit s)
      in if v \<ge> 2 ^ 64 then - 1 else if neg then - of_int v else of_int v)"

text \<open>\<^verbatim>\<open>strncasecmp\<close> is not zero when the texts differ.\<close>

definition connection_type_of :: "string \<Rightarrow> u8 \<Rightarrow> u8" where
  "connection_type_of v old =
     (if \<not> strncasecmp_eq v ''close'' (5 - 1) then CH_HTTP_CONNECTION_CLOSE
      else if \<not> strncasecmp_eq v ''keep-alive'' (10 - 1) then CH_HTTP_CONNECTION_KEEP_ALIVE
      else old)"

definition http_request_header_index_set :: "ch_http_session \<Rightarrow> ch_table_elt \<Rightarrow> ch_http_session" where
  "http_request_header_index_set s header =
     (let (k, v) = header; h = headers_in s
      in if strcasecmp_eq k ''Host'' then s\<lparr>headers_in := h\<lparr>hi_host := Some header\<rparr>, hs_host := Some v\<rparr>
         else if strcasecmp_eq k ''Connection'' then
           s\<lparr>headers_in := h\<lparr>hi_connection := Some header, hi_connection_type := connection_type_of v (hi_connection_type h)\<rparr>\<rparr>
         else if strcasecmp_eq k ''User-Agent'' then s\<lparr>headers_in := h\<lparr>hi_user_agent := Some header\<rparr>\<rparr>
         else if strcasecmp_eq k ''Content-Type'' then s\<lparr>headers_in := h\<lparr>hi_content_type := Some header\<rparr>\<rparr>
         else if strcasecmp_eq k ''Content-Length'' then
           s\<lparr>headers_in := h\<lparr>hi_content_length := Some header, hi_content_length_n := strtoul v\<rparr>\<rparr>
         else if strcasecmp_eq k ''Transfer-Encoding'' then
           s\<lparr>headers_in := h\<lparr>hi_transfer_encoding := Some header, hi_chunked := (hi_chunked h \<or> strncasecmp_eq v ''chunked'' 7)\<rparr>\<rparr>
         else s)"

definition http_response_header_index_set :: "ch_http_session \<Rightarrow> ch_table_elt \<Rightarrow> ch_http_session" where
  "http_response_header_index_set s header =
     (let (k, v) = header; h = headers_out s
      in if strcasecmp_eq k ''Server'' then s\<lparr>headers_out := h\<lparr>ho_server := Some header\<rparr>\<rparr>
         else if strcasecmp_eq k ''Connection'' then
           s\<lparr>headers_out := h\<lparr>ho_connection := Some header, ho_connection_type := connection_type_of v (ho_connection_type h)\<rparr>\<rparr>
         else if strcasecmp_eq k ''Content-Type'' then s\<lparr>headers_out := h\<lparr>ho_content_type := Some header\<rparr>\<rparr>
         else if strcasecmp_eq k ''Content-Length'' then
           s\<lparr>headers_out := h\<lparr>ho_content_length := Some header, ho_content_length_n := strtoul v\<rparr>\<rparr>
         else if strcasecmp_eq k ''Content-Encoding'' then s\<lparr>headers_out := h\<lparr>ho_content_encoding := Some header\<rparr>\<rparr>
         else if strcasecmp_eq k ''Transfer-Encoding'' then
           s\<lparr>headers_out := h\<lparr>ho_transfer_encoding := Some header, ho_chunked := (ho_chunked h \<or> strncasecmp_eq v ''chunked'' 7)\<rparr>\<rparr>
         else s)"

text \<open>
  The memory for the entry is not tested before its key is set. \<^verbatim>\<open>list_add\<close> puts the header in front of the others.
\<close>

definition sizeof_ch_table_elt_t :: nat where "sizeof_ch_table_elt_t = 32"

definition ch_http_session_header_add :: "(nat \<Rightarrow> bool) \<Rightarrow> bytes \<Rightarrow> ch_http_session \<Rightarrow> ch_http_header \<Rightarrow> bool \<Rightarrow> ch_http_session res" where
  "ch_http_session_header_add mp line s h is_req =
     (let entry = mp sizeof_ch_table_elt_t
      in bind_res (HTTP_STRNDUP mp line (header_name_start h) (header_name_end h) 0) (\<lambda>k.
         if \<not> entry then Inl Null_Deref
         else bind_res (HTTP_STRNDUP mp line (header_start h) (header_end h) 0) (\<lambda>v.
           if is_req then
             let s = s\<lparr>headers_in := (headers_in s)\<lparr>hi_headers := (k, v) # hi_headers (headers_in s)\<rparr>\<rparr>;
                 s = http_request_header_index_set s (k, v)
             in Inr (s\<lparr>in_headers_n := in_headers_n s + 1\<rparr>)
           else
             let s = s\<lparr>headers_out := (headers_out s)\<lparr>ho_headers := (k, v) # ho_headers (headers_out s)\<rparr>\<rparr>;
                 s = http_response_header_index_set s (k, v)
             in Inr (s\<lparr>out_headers_n := out_headers_n s + 1\<rparr>))))"

definition ch_http_session_status_line_set :: "ch_http_session \<Rightarrow> ch_http_status_line \<Rightarrow> ch_http_session" where
  "ch_http_session_status_line_set s st = s\<lparr>status_code := sl_code st\<rparr>"

definition ch_http_session_header_value_find :: "ch_http_session option \<Rightarrow> c_string \<Rightarrow> bool \<Rightarrow> c_string" where
  "ch_http_session_header_value_find s key is_req =
     (case (s, key) of
        (Some s, Some k) \<Rightarrow>
          if k = [] then None
          else map_option snd (find (\<lambda>(hk, _). strcasecmp_eq hk k) (if is_req then hi_headers (headers_in s) else ho_headers (headers_out s)))
      | _ \<Rightarrow> None)"

definition is_http_session_keepalive :: "ch_http_session \<Rightarrow> bool" where
  "is_http_session_keepalive s \<longleftrightarrow>
     http_version s > CH_HTTP_VERSION_10 \<and> hi_connection_type (headers_in s) = CH_HTTP_CONNECTION_KEEP_ALIVE \<and>
     ho_connection_type (headers_out s) = CH_HTTP_CONNECTION_KEEP_ALIVE"

definition ch_http_version_to_str :: "u32 \<Rightarrow> string" where
  "ch_http_version_to_str v =
     (if v = CH_HTTP_VERSION_9 then ''HTTP/0.9'' else if v = CH_HTTP_VERSION_10 then ''HTTP/1.0''
      else if v = CH_HTTP_VERSION_11 then ''HTTP/1.1'' else if v = CH_HTTP_VERSION_20 then ''HTTP/2.0'' else ''unknown'')"

section \<open>Bodies\<close>

text \<open>
  What is outside: \<open>he_dir d\<close> says whether a directory for the bodies of requests (\<open>d\<close> true) or of responses is configured,
  \<open>he_fpath d\<close> whether a path in it can be created, \<open>he_file n\<close> is the name of the \<open>n\<close>-th body file, if it can be opened,
  \<open>he_write\<close> says whether bytes can be written to a file, \<open>he_mal\<close> and \<open>he_pool\<close> whether memory of a size can be had,
  \<open>he_session\<close> whether a session can be allocated, \<open>he_accept\<close> is the filter, \<open>he_stack\<close> what is on the stack where a
  request line is put.
\<close>

record http_env =
  he_dir :: "bool \<Rightarrow> bool"
  he_fpath :: "bool \<Rightarrow> bool"
  he_file :: "nat \<Rightarrow> string option"
  he_write :: "string \<Rightarrow> bytes \<Rightarrow> bool"
  he_mal :: "nat \<Rightarrow> bool"
  he_pool :: "nat \<Rightarrow> bool"
  he_session :: bool
  he_accept :: "ch_http_session \<Rightarrow> bool \<Rightarrow> bool res"
  he_stack :: "u32 \<times> u32"

text \<open>
  What the calls change outside the session: the paths of the bodies, files created and removed, the shared buffer, the
  sessions that were written.
\<close>

record http_world =
  hw_req_fpath :: bool
  hw_res_fpath :: bool
  hw_files :: nat
  hw_unlinked :: "string list"
  hw_buffer :: ch_buffer
  hw_stored :: "ch_http_session list"

text \<open>
  The file is opened first, then the memory for the body and for the copy of the name is used without a test. A file that was opened
  has a name of at least one byte, so the copy of it to \<^verbatim>\<open>NULL\<close> is a fault.
\<close>

definition sizeof_ch_http_session_body_t :: nat where "sizeof_ch_http_session_body_t = 72"

definition ch_http_session_body_create :: "(nat \<Rightarrow> bool) \<Rightarrow> c_string \<Rightarrow> size_t \<Rightarrow> ch_http_session_body option res" where
  "ch_http_session_body_create mp fname len =
     (case fname of
        None \<Rightarrow> Inr None
      | Some f \<Rightarrow>
          if \<not> mp sizeof_ch_http_session_body_t then Inl Null_Deref
          else if \<not> mp (length f + 1) then Inl Null_Deref
          else Inr (Some \<lparr>body_file = [], body_saved = False, body_fname = f, body_chunk = None, body_len = len, body_len_accepted = 0\<rparr>))"

definition sizeof_ch_http_chunked_t :: nat where "sizeof_ch_http_chunked_t = 32"

definition ch_http_session_body_chunk_init :: "(nat \<Rightarrow> bool) \<Rightarrow> ch_http_session_body \<Rightarrow> ch_http_session_body res" where
  "ch_http_session_body_chunk_init mp b =
     (if body_chunk b = None then
        if \<not> mp sizeof_ch_http_chunked_t then Inl Null_Deref
        else Inr (b\<lparr>body_chunk := Some \<lparr>ck_size = 0, ck_length = 0, ck_st = ck_chunk_start\<rparr>\<rparr>)
      else Inr b)"

definition ch_http_session_body_destroy :: "ch_http_session_body option \<Rightarrow> ch_http_session_body option" where
  "ch_http_session_body_destroy b = map_option (\<lambda>b. if \<not> body_saved b then b\<lparr>body_saved := True\<rparr> else b) b"

definition ch_http_body_append :: "http_env \<Rightarrow> ch_http_session_body \<Rightarrow> bytes \<Rightarrow> int \<times> ch_http_session_body" where
  "ch_http_body_append env b data =
     (if data = [] then (0, b)
      else if he_write env (body_fname b) data
      then (0, b\<lparr>body_file := body_file b @ data, body_len_accepted := body_len_accepted b + of_nat (length data)\<rparr>)
      else (-1, b))"

text \<open>The result of the write is dropped. A body that is not there would be dereferenced.\<close>

definition ch_http_session_body_append :: "http_env \<Rightarrow> ch_http_session \<Rightarrow> bytes \<Rightarrow> bool \<Rightarrow> ch_http_session res" where
  "ch_http_session_body_append env s data is_req =
     (if is_req then
        case req_body s of None \<Rightarrow> Inl Null_Deref | Some b \<Rightarrow> Inr (s\<lparr>req_body := Some (snd (ch_http_body_append env b data))\<rparr>)
      else
        case res_body s of None \<Rightarrow> Inl Null_Deref | Some b \<Rightarrow> Inr (s\<lparr>res_body := Some (snd (ch_http_body_append env b data))\<rparr>))"

definition body_of :: "bool \<Rightarrow> ch_http_session \<Rightarrow> ch_http_session_body option" where
  "body_of is_req s = (if is_req then req_body s else res_body s)"

definition set_body :: "bool \<Rightarrow> ch_http_session \<Rightarrow> ch_http_session_body \<Rightarrow> ch_http_session" where
  "set_body is_req s b = (if is_req then s\<lparr>req_body := Some b\<rparr> else s\<lparr>res_body := Some b\<rparr>)"

definition add_content_length :: "bool \<Rightarrow> ch_http_session \<Rightarrow> nat \<Rightarrow> ch_http_session" where
  "add_content_length is_req s n =
     (if is_req then s\<lparr>headers_in := (headers_in s)\<lparr>hi_content_length_n := hi_content_length_n (headers_in s) + of_nat n\<rparr>\<rparr>
      else s\<lparr>headers_out := (headers_out s)\<lparr>ho_content_length_n := ho_content_length_n (headers_out s) + of_nat n\<rparr>\<rparr>)"

definition ch_http_body_is_chunked :: "ch_http_session \<Rightarrow> bool \<Rightarrow> bool" where
  "ch_http_body_is_chunked s is_req \<longleftrightarrow> (if is_req then hi_chunked (headers_in s) else ho_chunked (headers_out s))"

definition ch_is_http_body_complete :: "ch_http_session \<Rightarrow> bool \<Rightarrow> bool res" where
  "ch_is_http_body_complete s is_req =
     (case body_of is_req s of
        None \<Rightarrow> Inl Null_Deref
      | Some b \<Rightarrow> Inr (body_len_accepted b \<ge> (if is_req then hi_content_length_n (headers_in s) else ho_content_length_n (headers_out s))))"

definition HTTP_BODY_PARSE_STATE_SET :: "ch_http_session \<Rightarrow> bool \<Rightarrow> ch_http_session" where
  "HTTP_BODY_PARSE_STATE_SET s is_req = s\<lparr>hs_phase := (if is_req then PARSE_PHASE_STATUS_LINE else PARSE_PHASE_DONE)\<rparr>"

text \<open>The paths of the bodies are made when there are none yet; afterwards they are as they were left.\<close>

definition ch_proto_store_body_find_create :: "http_env \<Rightarrow> http_world \<Rightarrow> bool \<times> http_world" where
  "ch_proto_store_body_find_create env w =
     (if \<not> hw_req_fpath w \<and> \<not> hw_res_fpath w then
        let w = w\<lparr>hw_req_fpath := (he_dir env True \<and> he_fpath env True)\<rparr>
        in if he_dir env True \<and> \<not> hw_req_fpath w then (False, w)
           else
             let w = w\<lparr>hw_res_fpath := (he_dir env False \<and> he_fpath env False)\<rparr>
             in if he_dir env False \<and> \<not> hw_res_fpath w then (False, w) else (True, w)
      else (True, w))"

text \<open>The name is made from a path, which may not be there.\<close>

definition http_body_file_create :: "http_env \<Rightarrow> http_world \<Rightarrow> ch_http_session \<Rightarrow> bool \<Rightarrow> (int \<times> http_world \<times> ch_http_session) res" where
  "http_body_file_create env w s is_req =
     (if \<not> (if is_req then hw_req_fpath w else hw_res_fpath w) then Inl Null_Deref
      else
        let fname = he_file env (hw_files w); w = w\<lparr>hw_files := hw_files w + 1\<rparr>
        in bind_res (ch_http_session_body_create (he_pool env) fname 0) (\<lambda>b.
             case b of
               None \<Rightarrow> Inr (-1, w, s)
             | Some b \<Rightarrow> Inr (0, w, set_body is_req s b)))"

lemma chunk_moves:
  assumes "ch_http_chunked_parse chunk din = (CH_OK, chunk', din')"
  shows "pp_data din' = pp_data din \<and> pp_pos din \<le> pp_pos din' \<and> pp_pos din' < length (pp_data din) \<and>
    pp_pos din < pp_pos din' + unat (ck_size chunk')"
  using chunked_parse_data [OF assms] unat_gt_0 [of "ck_size chunk'"] by (cases "pp_pos din' = pp_pos din") auto

text \<open>The loop over the chunks that are in the data; a step moves the position.\<close>

function http_chunk_loop :: "http_env \<Rightarrow> ch_http_session \<Rightarrow> ch_http_session_body \<Rightarrow> ch_http_chunked \<Rightarrow> ch_pp_data_input \<Rightarrow> bool \<Rightarrow>
    int \<times> ch_http_session \<times> ch_pp_data_input"
where
  "http_chunk_loop env s b chunk din is_req =
     (case ch_http_chunked_parse chunk din of
        (rc, chunk, din) \<Rightarrow>
          if rc = CH_OK then
            let size = ch_pp_din_rdlen din;
                data = drop (pp_pos din) (pp_data din);
                over = (of_nat size > ck_size chunk);
                len = (if over then unat (ck_size chunk) else size);
                chunk' = chunk\<lparr>ck_size := (if over then 0 else ck_size chunk - of_nat size)\<rparr>;
                din' = (if over then ch_pp_din_pos_update din (unat (ck_size chunk)) else ch_pp_din_skip_to_end din);
                s = add_content_length is_req s len
            in http_chunk_loop env s (snd (ch_http_body_append env b (take len data))) chunk' din' is_req
          else
            let s = set_body is_req s (b\<lparr>body_chunk := Some chunk\<rparr>)
            in if rc = CH_DONE then (0, HTTP_BODY_PARSE_STATE_SET s is_req, din)
               else if rc = CH_AGAIN then (0, s, din)
               else (-1, s, din))"
  by pat_completeness auto

termination
  by (relation "measure (\<lambda>(env, s, b, chunk, din, is_req). length (pp_data din) - pp_pos din)")
    (auto dest!: chunk_moves [OF sym] simp: ch_pp_din_pos_update_def ch_pp_din_skip_to_end_def)

declare http_chunk_loop.simps [simp del]

definition http_body_chunked_parse :: "http_env \<Rightarrow> ch_http_session \<Rightarrow> ch_pp_data_input \<Rightarrow> bool \<Rightarrow> (int \<times> ch_http_session \<times> ch_pp_data_input) res" where
  "http_body_chunked_parse env s din is_req =
     (case body_of is_req s of
        None \<Rightarrow> Inl Null_Deref
      | Some b \<Rightarrow>
          bind_res (ch_http_session_body_chunk_init (he_pool env) b) (\<lambda>b.
            Inr (http_chunk_loop env s b (the (body_chunk b)) din is_req)))"

definition http_body_direct_append :: "http_env \<Rightarrow> ch_http_session \<Rightarrow> ch_pp_data_input \<Rightarrow> bool \<Rightarrow> (int \<times> ch_http_session \<times> ch_pp_data_input) res" where
  "http_body_direct_append env s din is_req =
     bind_res (ch_http_session_body_append env s (drop (pp_pos din) (pp_data din)) is_req) (\<lambda>s.
     bind_res (ch_is_http_body_complete s is_req) (\<lambda>complete.
       Inr (0, if complete then HTTP_BODY_PARSE_STATE_SET s is_req else s, ch_pp_din_skip_to_end din)))"

definition http_body_parse :: "http_env \<Rightarrow> http_world \<Rightarrow> ch_http_session \<Rightarrow> ch_pp_data_input \<Rightarrow> bool \<Rightarrow>
    (int \<times> http_world \<times> ch_http_session \<times> ch_pp_data_input) res"
where
  "http_body_parse env w s din is_req =
     (case ch_proto_store_body_find_create env w of
        (found, w) \<Rightarrow>
          if \<not> found then Inr (-1, w, s, din)
          else
            bind_res (if body_of is_req s = None then http_body_file_create env w s is_req else Inr (0, w, s)) (\<lambda>(rc, w, s).
              if rc \<noteq> 0 then Inr (-1, w, s, din)
              else bind_res (if ch_http_body_is_chunked s is_req then http_body_chunked_parse env s din is_req
                             else http_body_direct_append env s din is_req)
                     (\<lambda>(rc, s, din). Inr (rc, w, s, din))))"

section \<open>Lines\<close>

definition HAS_BODY :: "ch_http_session \<Rightarrow> bool \<Rightarrow> bool" where
  "HAS_BODY s is_req \<longleftrightarrow>
     (if is_req then hi_content_length_n (headers_in s) > 0 \<or> hi_chunked (headers_in s)
      else ho_content_length_n (headers_out s) > 0 \<or> ho_chunked (headers_out s))"

definition HEADER_END_STATE_SET :: "ch_http_session \<Rightarrow> bool \<Rightarrow> ch_http_session" where
  "HEADER_END_STATE_SET s is_req =
     (let has_body = HAS_BODY s is_req
      in if is_req then s\<lparr>hs_phase := (if has_body then PARSE_PHASE_REQ_BODY else PARSE_PHASE_STATUS_LINE)\<rparr>
         else s\<lparr>hs_phase := (if has_body then PARSE_PHASE_RES_BODY else PARSE_PHASE_DONE)\<rparr>)"

text \<open>\<open>None\<close>: the function returns -1.\<close>

definition http_status_line_parse :: "ch_http_session \<Rightarrow> ch_pp_data_line \<Rightarrow> ch_http_session option" where
  "http_status_line_parse s line =
     (case ch_http_status_line_parse ch_http_status_line_init line of
        (rc, st) \<Rightarrow>
          if rc \<noteq> CH_OK then None
          else Some (ch_http_session_status_line_set (s\<lparr>hs_phase := PARSE_PHASE_RES_HEADER\<rparr>) st))"

definition http_header_parse :: "http_env \<Rightarrow> ch_http_session \<Rightarrow> ch_pp_data_line \<Rightarrow> bool \<Rightarrow> ch_http_session option res" where
  "http_header_parse env s line is_req =
     (case ch_http_header_line_parse ch_http_header_init line of
        (rc, h) \<Rightarrow>
          if rc \<noteq> CH_OK then Inr None
          else bind_res (ch_http_session_header_add (he_pool env) (ln_line line) s h is_req) (\<lambda>s. Inr (Some s)))"

definition http_request_line_parse :: "http_env \<Rightarrow> ch_http_session \<Rightarrow> ch_pp_data_line \<Rightarrow> ch_http_session option res" where
  "http_request_line_parse env s line =
     (case ch_http_request_line_parse (ch_http_request_line_init (fst (he_stack env)) (snd (he_stack env))) line of
        (rc, rl) \<Rightarrow>
          if rc \<noteq> CH_OK then Inr None
          else bind_res (ch_http_session_request_line_set (he_pool env) (ln_line line) s rl) (\<lambda>s.
            Inr (Some (s\<lparr>hs_phase := (if http_version s = CH_HTTP_VERSION_9 then PARSE_PHASE_RES_BODY else PARSE_PHASE_REQ_HEADER)\<rparr>))))"

section \<open>The entry of a TCP session\<close>

text \<open>\<^verbatim>\<open>cur_res\<close> is \<^verbatim>\<open>NULL\<close> or the first session of the list, where it stays until it is removed.\<close>

record ch_http_session_entry =
  reqs :: "ch_http_session list"
  cur_req_din :: ch_pp_data_input
  cur_res_din :: ch_pp_data_input
  cur_req :: "ch_http_session option"
  cur_res :: bool

definition ch_http_sentry_init :: ch_http_session_entry where
  "ch_http_sentry_init = \<lparr>reqs = [], cur_req_din = ch_pp_din_init, cur_res_din = ch_pp_din_init, cur_req = None, cur_res = False\<rparr>"

definition req_session_get :: "http_env \<Rightarrow> ch_http_session_entry \<Rightarrow> ch_http_session option \<times> ch_http_session_entry" where
  "req_session_get env e =
     (case cur_req e of
        Some s \<Rightarrow> (Some s, e)
      | None \<Rightarrow>
          let s = (if he_session env then Some ch_http_session_create else None)
          in (s, e\<lparr>cur_req := s\<rparr>))"

definition res_session_get :: "ch_http_session_entry \<Rightarrow> ch_http_session option \<times> ch_http_session_entry" where
  "res_session_get e = (case reqs e of [] \<Rightarrow> (None, e) | s # _ \<Rightarrow> (Some s, e\<lparr>cur_res := True\<rparr>))"

text \<open>The session that is added is \<^verbatim>\<open>cur_req\<close>.\<close>

definition ch_http_sentry_session_add :: "ch_http_session_entry \<Rightarrow> ch_http_session \<Rightarrow> ch_http_session_entry" where
  "ch_http_sentry_session_add e s = e\<lparr>reqs := reqs e @ [s], cur_req := None\<rparr>"

text \<open>The session that is removed is \<^verbatim>\<open>cur_res\<close>; the files of its bodies are closed.\<close>

definition ch_http_sentry_session_remove :: "ch_http_session_entry \<Rightarrow> ch_http_session \<Rightarrow> ch_http_session_entry \<times> ch_http_session" where
  "ch_http_sentry_session_remove e s =
     (e\<lparr>reqs := tl (reqs e), cur_res := False\<rparr>,
      s\<lparr>req_body := ch_http_session_body_destroy (req_body s), res_body := ch_http_session_body_destroy (res_body s)\<rparr>)"

definition body_names :: "ch_http_session \<Rightarrow> string list" where
  "body_names s = (case req_body s of None \<Rightarrow> [] | Some b \<Rightarrow> [body_fname b]) @ (case res_body s of None \<Rightarrow> [] | Some b \<Rightarrow> [body_fname b])"

definition ch_http_sentry_session_discard :: "ch_http_session_entry \<Rightarrow> ch_http_session \<Rightarrow> http_world \<Rightarrow> ch_http_session_entry \<times> http_world" where
  "ch_http_sentry_session_discard e s w =
     (e\<lparr>reqs := tl (reqs e), cur_res := False\<rparr>, w\<lparr>hw_unlinked := hw_unlinked w @ body_names s\<rparr>)"

definition http_session_store :: "http_world \<Rightarrow> ch_http_session_entry \<Rightarrow> ch_http_session \<Rightarrow> ch_http_session_entry \<times> http_world" where
  "http_session_store w e s =
     (if \<not> is_pass s then
        let (e, s) = ch_http_sentry_session_remove e s in (e, w\<lparr>hw_stored := hw_stored w @ [s]\<rparr>)
      else ch_http_sentry_session_discard e s w)"

end
