(* ===== verification/Http_App.thy ===== *)
theory Http_App
  imports Http_Session
begin

text \<open>
  The HTTP application: the loops over the data of one call in \<^verbatim>\<open>tcp/app/http/do_http_parse.c\<close>, the creation and the end of
  the entry of a TCP session in \<^verbatim>\<open>do_http_create.c\<close>, the record of a session in \<^verbatim>\<open>do_http_format.c\<close> and
  \<^verbatim>\<open>tcp/session/ch_proto_session_store.c\<close>.
\<close>

section \<open>The requests\<close>

text \<open>
  One round of a loop: it goes on, it leaves the loop for the label \<^verbatim>\<open>out\<close>, or it changes nothing, so that the loop never
  ends. Where a round leaves the loop the session is put back into the entry.
\<close>

datatype http_iter =
    H_go ch_pp_data_input ch_http_session ch_http_session_entry http_world
  | H_out int ch_pp_data_input ch_http_session_entry http_world
  | H_spin

text \<open>A line that is not understood is written to the log, from a copy in the pool.\<close>

definition log_line :: "http_env \<Rightarrow> ch_pp_data_line \<Rightarrow> http_iter \<Rightarrow> http_iter res" where
  "log_line env line r = bind_res (http_pstrndup (he_pool env) (take (ln_len line) (ln_line line))) (\<lambda>_. Inr r)"

abbreviation put_req :: "ch_http_session \<Rightarrow> ch_http_session_entry \<Rightarrow> ch_http_session_entry" where
  "put_req s e \<equiv> e\<lparr>cur_req := Some s\<rparr>"

definition http_request_iter :: "http_env \<Rightarrow> ch_pp_data_input \<Rightarrow> ch_http_session \<Rightarrow> ch_http_session_entry \<Rightarrow> http_world \<Rightarrow> http_iter res" where
  "http_request_iter env din s e w =
     (case hs_phase s of
        PARSE_PHASE_REQ_LINE \<Rightarrow>
          (case ch_pp_data_input_line_read din of
             None \<Rightarrow> Inr (H_out PARSE_CONTINUE din (put_req s e) w)
           | Some (line, din) \<Rightarrow>
               bind_res (http_request_line_parse env s line) (\<lambda>r.
                 case r of
                   None \<Rightarrow> log_line env line (H_out PARSE_BREAK din (put_req s e) w)
                 | Some s \<Rightarrow> Inr (H_go din s e w)))
      | PARSE_PHASE_REQ_HEADER \<Rightarrow>
          (case ch_pp_data_input_line_read din of
             None \<Rightarrow> Inr (H_out PARSE_CONTINUE din (put_req s e) w)
           | Some (line, din) \<Rightarrow>
               if ln_len line = 0 then
                 let s = HEADER_END_STATE_SET s True
                 in bind_res (he_accept env s False) (\<lambda>accept.
                      if \<not> accept then Inr (H_out PARSE_BREAK din (put_req (s\<lparr>is_pass := True\<rparr>) e) w)
                      else Inr (H_go din s e w))
               else
                 bind_res (http_header_parse env s line True) (\<lambda>r.
                   case r of
                     None \<Rightarrow> log_line env line (H_out PARSE_BREAK din (put_req s e) w)
                   | Some s \<Rightarrow> Inr (H_go din s e w)))
      | PARSE_PHASE_REQ_BODY \<Rightarrow>
          bind_res (http_body_parse env w s din True) (\<lambda>(rc, w, s, din).
            if rc \<noteq> 0 then Inr (H_out PARSE_BREAK din (put_req s e) w) else Inr (H_go din s e w))
      | _ \<Rightarrow>
          (case req_session_get env (ch_http_sentry_session_add e s) of
             (None, e) \<Rightarrow> Inr (H_out PARSE_BREAK din e w)
           | (Some s, e) \<Rightarrow> Inr (H_go din s e w)))"

fun phase_rank :: "parse_phase \<Rightarrow> nat" where
  "phase_rank PARSE_PHASE_REQ_LINE = 0"
| "phase_rank PARSE_PHASE_REQ_HEADER = 1"
| "phase_rank PARSE_PHASE_REQ_BODY = 2"
| "phase_rank PARSE_PHASE_STATUS_LINE = 3"
| "phase_rank PARSE_PHASE_RES_HEADER = 4"
| "phase_rank PARSE_PHASE_RES_BODY = 5"
| "phase_rank PARSE_PHASE_DONE = 6"

lemma phase_rank_body: "phase_rank p > 2 \<longleftrightarrow> p \<notin> {PARSE_PHASE_REQ_LINE, PARSE_PHASE_REQ_HEADER, PARSE_PHASE_REQ_BODY}"
  by (cases p) auto

lemma create_phase [simp]: "hs_phase ch_http_session_create = PARSE_PHASE_REQ_LINE"
  by (simp add: ch_http_session_create_def)

lemma req_session_get_add:
  "req_session_get env (ch_http_sentry_session_add e s) =
     (let n = (if he_session env then Some ch_http_session_create else None) in (n, e\<lparr>reqs := reqs e @ [s], cur_req := n\<rparr>))"
  by (simp add: req_session_get_def ch_http_sentry_session_add_def Let_def)

lemma log_line_cases: "log_line env line r = Inr r' \<longleftrightarrow> r' = r \<and> (\<exists>t. http_pstrndup (he_pool env) (take (ln_len line) (ln_line line)) = Inr t)"
  by (auto simp: log_line_def bind_res_eq_Inr)

lemma chunked_parse_end:
  assumes "ch_http_chunked_parse chunk din = (rc, chunk', din')" "rc \<noteq> CH_OK" "rc \<noteq> CH_ERROR" "din_left din > 0"
  shows "din_left din' < din_left din"
proof -
  let ?st = "if ck_st chunk = ck_chunk_data \<and> ck_size chunk = 0 then ck_after_data else ck_st chunk"
  obtain r k st sz where l: "chunk_loop (drop (pp_pos din) (pp_data din)) 0 ?st (ck_size chunk) = (r, k, st, sz)"
    by (cases "chunk_loop (drop (pp_pos din) (pp_data din)) 0 ?st (ck_size chunk)")
  have "k = length (drop (pp_pos din) (pp_data din))" if "r = C_next a b" for a b using chunk_loop_next [OF l [unfolded that]] by simp
  with l assms show ?thesis
    by (cases r) (auto simp: ch_http_chunked_parse_def Let_def http_codes ch_pp_din_pos_update_def split: if_splits)
qed

lemma chunked_parse_le:
  assumes "ch_http_chunked_parse chunk din = (rc, chunk', din')"
  shows "pp_data din' = pp_data din \<and> pp_pos din \<le> pp_pos din'"
  using assms by (auto simp: ch_http_chunked_parse_def Let_def ch_pp_din_pos_update_def split: prod.splits ck_step.splits if_splits)

lemma http_chunk_loop_left:
  assumes "http_chunk_loop env s b chunk din is_req = (0, s', din')"
  shows "din_left din' \<le> din_left din \<and> (0 < din_left din \<longrightarrow> din_left din' < din_left din)"
  using assms
proof (induction env s b chunk din is_req rule: http_chunk_loop.induct)
  case (1 env s b chunk din is_req)
  obtain rc c d where p: "ch_http_chunked_parse chunk din = (rc, c, d)" by (cases "ch_http_chunked_parse chunk din") auto
  note l = "1.prems" [unfolded http_chunk_loop.simps [of env s b chunk din is_req] p]
  show ?case
  proof (cases "rc = CH_OK")
    case True
    let ?over = "of_nat (ch_pp_din_rdlen d) > ck_size c"
    let ?d = "if ?over then ch_pp_din_pos_update d (unat (ck_size c)) else ch_pp_din_skip_to_end d"
    have "din_left din' \<le> din_left ?d" using "1.IH" [OF p [symmetric] refl True refl refl refl refl refl refl refl] l True
      by (simp add: Let_def)
    moreover have "din_left ?d < din_left din"
      using chunk_moves [OF p [unfolded True]] by (auto simp: ch_pp_din_pos_update_def ch_pp_din_skip_to_end_def)
    ultimately show ?thesis by linarith
  next
    case False
    then have d: "din' = d" "rc \<noteq> CH_ERROR" using l by (auto simp: Let_def http_codes split: if_splits)
    then show ?thesis using chunked_parse_end [OF p False d(2)] chunked_parse_le [OF p] by fastforce
  qed
qed

lemma http_body_parse_left:
  assumes "http_body_parse env w s din is_req = Inr (0, w', s', din')" "0 < din_left din"
  shows "din_left din' < din_left din"
proof -
  obtain s1 b where
    "http_body_chunked_parse env s1 din is_req = Inr (0, s', din') \<or> http_body_direct_append env s1 din is_req = Inr (0, s', din')"
    using assms(1) by (auto simp: http_body_parse_def bind_res_eq_Inr split: prod.splits if_splits)
  then show ?thesis
  proof
    assume "http_body_chunked_parse env s1 din is_req = Inr (0, s', din')"
    then show ?thesis using assms(2) by (auto simp: http_body_chunked_parse_def bind_res_eq_Inr dest!: http_chunk_loop_left split: option.splits)
  next
    assume "http_body_direct_append env s1 din is_req = Inr (0, s', din')"
    then show ?thesis using assms(2) by (auto simp: http_body_direct_append_def bind_res_eq_Inr ch_pp_din_skip_to_end_def)
  qed
qed

lemma http_request_iter_left:
  assumes "http_request_iter env din s e w = Inr (H_go din' s' e' w')" "ch_pp_din_has_data din 0"
  shows "din_left din' < din_left din \<or> din' = din \<and> phase_rank (hs_phase s') \<le> 2 \<and> phase_rank (hs_phase s) > 2"
proof -
  have d: "0 < din_left din" using assms(2) by (simp add: ch_pp_din_has_data_def)
  show ?thesis
  proof (cases "phase_rank (hs_phase s) > 2")
    case True
    then have "din' = din \<and> s' = ch_http_session_create"
      using assms(1) by (cases "hs_phase s") (auto simp: http_request_iter_def req_session_get_add Let_def split: if_splits)
    then show ?thesis using True by simp
  next
    case False
    then consider "hs_phase s = PARSE_PHASE_REQ_LINE" | "hs_phase s = PARSE_PHASE_REQ_HEADER" | "hs_phase s = PARSE_PHASE_REQ_BODY"
      by (auto simp: phase_rank_body)
    then have "din_left din' < din_left din"
    proof cases
      case 3
      then show ?thesis using assms(1) d
        by (auto simp: http_request_iter_def bind_res_eq_Inr dest!: http_body_parse_left split: if_splits)
    qed (use assms(1) in \<open>auto simp: http_request_iter_def Let_def bind_res_eq_Inr log_line_cases dest!: line_read_left split: option.splits if_splits prod.splits\<close>)
    then show ?thesis by simp
  qed
qed

text \<open>The loop and what follows it up to the label \<^verbatim>\<open>out\<close>. \<open>None\<close>: the loop does not end.\<close>

type_synonym http_out = "int \<times> ch_pp_data_input \<times> ch_http_session_entry \<times> http_world"

function http_request_loop :: "http_env \<Rightarrow> ch_pp_data_input \<Rightarrow> ch_http_session \<Rightarrow> ch_http_session_entry \<Rightarrow> http_world \<Rightarrow> http_out option res" where
  "http_request_loop env din s e w =
     (if \<not> ch_pp_din_has_data din 0 then
        Inr (Some (PARSE_CONTINUE, din, if phase_rank (hs_phase s) > phase_rank PARSE_PHASE_REQ_BODY then ch_http_sentry_session_add e s else put_req s e, w))
      else
        case http_request_iter env din s e w of
          Inl f \<Rightarrow> Inl f
        | Inr H_spin \<Rightarrow> Inr None
        | Inr (H_out rc din e w) \<Rightarrow> Inr (Some (rc, din, e, w))
        | Inr (H_go din s e w) \<Rightarrow> http_request_loop env din s e w)"
  by pat_completeness auto

termination
  by (relation "measures [\<lambda>(env, din, s, e, w). din_left din, \<lambda>(env, din, s, e, w). if phase_rank (hs_phase s) > 2 then 1 else 0]")
    (auto dest!: http_request_iter_left)

declare http_request_loop.simps [simp del]

text \<open>What follows the label \<^verbatim>\<open>out\<close>: the rest of the data is kept.\<close>

definition do_http_request_parse :: "http_env \<Rightarrow> ch_http_session_entry \<Rightarrow> http_world \<Rightarrow> bytes \<Rightarrow> (int \<times> ch_http_session_entry \<times> http_world) option res" where
  "do_http_request_parse env e w data =
     (case req_session_get env e of
        (None, e) \<Rightarrow> Inr (Some (PARSE_BREAK, e, w))
      | (Some s, e) \<Rightarrow>
          let s = s\<lparr>psEntry := ch_proto_session_entry_update (psEntry s) (length data) True\<rparr>
          in case ch_pp_din_read_prefare (he_mal env) (hw_buffer w) (cur_req_din e) data of
               (rc, bf, din) \<Rightarrow>
                 let w = w\<lparr>hw_buffer := bf\<rparr>
                 in if rc \<noteq> 0 then Inr (Some (PARSE_BREAK, put_req s (e\<lparr>cur_req_din := din\<rparr>), w))
                    else bind_res (http_request_loop env din s e w) (\<lambda>r.
                      case r of
                        None \<Rightarrow> Inr None
                      | Some (rc, din, e, w) \<Rightarrow>
                          (case ch_pp_din_read_end (he_pool env) din of
                             (rc2, din) \<Rightarrow> Inr (Some (if rc2 \<noteq> 0 then PARSE_BREAK else rc, e\<lparr>cur_req_din := din\<rparr>, w)))))"

section \<open>The responses\<close>

text \<open>The session of a response is the first of the list.\<close>

abbreviation put_res :: "ch_http_session \<Rightarrow> ch_http_session_entry \<Rightarrow> ch_http_session_entry" where
  "put_res s e \<equiv> e\<lparr>reqs := s # tl (reqs e)\<rparr>"

definition http_response_iter :: "http_env \<Rightarrow> ch_pp_data_input \<Rightarrow> ch_http_session \<Rightarrow> ch_http_session_entry \<Rightarrow> http_world \<Rightarrow> http_iter res" where
  "http_response_iter env din s e w =
     (case hs_phase s of
        PARSE_PHASE_DONE \<Rightarrow>
          (case http_session_store w e s of
             (e, w) \<Rightarrow>
               (case res_session_get e of
                  (None, e) \<Rightarrow> Inr (H_out PARSE_BREAK din e w)
                | (Some s, e) \<Rightarrow> Inr (H_go din s e w)))
      | PARSE_PHASE_STATUS_LINE \<Rightarrow>
          (case ch_pp_data_input_line_read din of
             None \<Rightarrow> Inr (H_out PARSE_CONTINUE din (put_res s e) w)
           | Some (line, din) \<Rightarrow>
               (case http_status_line_parse s line of
                  None \<Rightarrow> log_line env line (H_out PARSE_BREAK din (put_res s e) w)
                | Some s \<Rightarrow> Inr (H_go din s e w)))
      | PARSE_PHASE_RES_HEADER \<Rightarrow>
          (case ch_pp_data_input_line_read din of
             None \<Rightarrow> Inr (H_out PARSE_CONTINUE din (put_res s e) w)
           | Some (line, din) \<Rightarrow>
               if ln_len line = 0 then
                 let s = HEADER_END_STATE_SET s False
                 in bind_res (he_accept env s True) (\<lambda>accept.
                      if \<not> accept then Inr (H_out PARSE_BREAK din (put_res (s\<lparr>is_pass := True\<rparr>) e) w)
                      else Inr (H_go din s e w))
               else
                 bind_res (http_header_parse env s line False) (\<lambda>r.
                   case r of
                     None \<Rightarrow> log_line env line (H_out PARSE_BREAK din (put_res s e) w)
                   | Some s \<Rightarrow> Inr (H_go din s e w)))
      | PARSE_PHASE_RES_BODY \<Rightarrow>
          bind_res (http_body_parse env w s din False) (\<lambda>(rc, w, s, din).
            if rc \<noteq> 0 then Inr (H_out PARSE_BREAK din (put_res s e) w) else Inr (H_go din s e w))
      | _ \<Rightarrow> Inr H_spin)"

lemma http_session_store_reqs: "http_session_store w e s = (e', w') \<Longrightarrow> reqs e' = tl (reqs e)"
  by (auto simp: http_session_store_def ch_http_sentry_session_remove_def ch_http_sentry_session_discard_def split: if_splits)

lemma res_session_get_Some: "res_session_get e = (Some s, e') \<Longrightarrow> reqs e = s # tl (reqs e) \<and> reqs e' = reqs e"
  by (auto simp: res_session_get_def split: list.splits)

lemma http_response_iter_left:
  assumes "http_response_iter env din s e w = Inr (H_go din' s' e' w')" "ch_pp_din_has_data din 0"
  shows "din_left din' < din_left din \<or> din' = din \<and> length (reqs e') < length (reqs e)"
proof (cases "hs_phase s")
  case PARSE_PHASE_RES_BODY
  then show ?thesis using assms
    by (auto simp: http_response_iter_def bind_res_eq_Inr ch_pp_din_has_data_def dest!: http_body_parse_left split: if_splits)
next
  case PARSE_PHASE_DONE
  then obtain e1 w1 where st: "http_session_store w e s = (e1, w1)" "res_session_get e1 = (Some s', e')" "din' = din"
    using assms(1) by (auto simp: http_response_iter_def split: prod.splits option.splits)
  from res_session_get_Some [OF st(2)] have "reqs e' = tl (reqs e)" "tl (reqs e) \<noteq> []" using http_session_store_reqs [OF st(1)] by auto
  then show ?thesis using st(3) by (cases "reqs e") auto
qed (use assms(1) in \<open>auto simp: http_response_iter_def Let_def bind_res_eq_Inr log_line_cases dest!: line_read_left split: option.splits if_splits prod.splits\<close>)

text \<open>The loop and what follows it up to the label \<^verbatim>\<open>out\<close>.\<close>

function http_response_loop :: "http_env \<Rightarrow> ch_pp_data_input \<Rightarrow> ch_http_session \<Rightarrow> ch_http_session_entry \<Rightarrow> http_world \<Rightarrow> http_out option res" where
  "http_response_loop env din s e w =
     (if \<not> ch_pp_din_has_data din 0 then
        if hs_phase s = PARSE_PHASE_DONE then
          case http_session_store w e s of
            (e, w) \<Rightarrow> Inr (Some (if \<not> is_http_session_keepalive s then PARSE_DONE else PARSE_CONTINUE, din, e, w))
        else Inr (Some (PARSE_CONTINUE, din, put_res s e, w))
      else
        case http_response_iter env din s e w of
          Inl f \<Rightarrow> Inl f
        | Inr H_spin \<Rightarrow> Inr None
        | Inr (H_out rc din e w) \<Rightarrow> Inr (Some (rc, din, e, w))
        | Inr (H_go din s e w) \<Rightarrow> http_response_loop env din s e w)"
  by pat_completeness auto

termination
  by (relation "measures [\<lambda>(env, din, s, e, w). din_left din, \<lambda>(env, din, s, e, w). length (reqs e)]")
    (auto dest!: http_response_iter_left)

declare http_response_loop.simps [simp del]

definition do_http_response_parse :: "http_env \<Rightarrow> ch_http_session_entry \<Rightarrow> http_world \<Rightarrow> bytes \<Rightarrow> (int \<times> ch_http_session_entry \<times> http_world) option res" where
  "do_http_response_parse env e w data =
     (case res_session_get e of
        (None, e) \<Rightarrow> Inr (Some (PARSE_BREAK, e, w))
      | (Some s, e) \<Rightarrow>
          let s = s\<lparr>psEntry := ch_proto_session_entry_update (psEntry s) (length data) False\<rparr>
          in case ch_pp_din_read_prefare (he_mal env) (hw_buffer w) (cur_res_din e) data of
               (rc, bf, din) \<Rightarrow>
                 let w = w\<lparr>hw_buffer := bf\<rparr>
                 in if rc \<noteq> 0 then Inr (Some (PARSE_BREAK, put_res s (e\<lparr>cur_res_din := din\<rparr>), w))
                    else bind_res (http_response_loop env din s e w) (\<lambda>r.
                      case r of
                        None \<Rightarrow> Inr None
                      | Some (rc, din, e, w) \<Rightarrow>
                          (case ch_pp_din_read_end (he_pool env) din of
                             (rc2, din) \<Rightarrow> Inr (Some (if rc2 \<noteq> 0 then PARSE_BREAK else rc, e\<lparr>cur_res_din := din\<rparr>, w)))))"

section \<open>The entry of a TCP session\<close>

text \<open>\<open>mp\<close>: whether a memory pool can be had.\<close>

definition do_http_session_entry_create :: "bool \<Rightarrow> ch_http_session_entry option" where
  "do_http_session_entry_create mp = (if mp then Some ch_http_sentry_init else None)"

definition CAN_STORE :: "ch_http_session \<Rightarrow> bool" where
  "CAN_STORE s \<longleftrightarrow> phase_rank (hs_phase s) \<ge> phase_rank PARSE_PHASE_REQ_HEADER"

text \<open>The sessions of the list are stored, or the files of their bodies are removed. The session of a request that is not complete is not looked at.\<close>

definition do_http_session_entry_clean :: "ch_http_session_entry \<Rightarrow> http_world \<Rightarrow> http_world" where
  "do_http_session_entry_clean e w =
     fold (\<lambda>s w.
       if is_pass s then w\<lparr>hw_unlinked := hw_unlinked w @ body_names s\<rparr>
       else if CAN_STORE s then w\<lparr>hw_stored := hw_stored w @ [s]\<rparr>
       else w) (reqs e) w"

section \<open>The record of a session\<close>

definition BODY_NAME :: "ch_http_session_body option \<Rightarrow> c_string" where
  "BODY_NAME b = (case b of None \<Rightarrow> Some [] | Some b \<Rightarrow> Some (body_fname b))"

definition pack_headers :: "ch_msgpack_store \<Rightarrow> ch_table_elt list \<Rightarrow> string \<Rightarrow> u32 \<Rightarrow> ch_msgpack_store" where
  "pack_headers pk h k n = fold (\<lambda>(k, v) pk. ch_msgpack_write_kv pk k (Some v)) h (ch_msgpack_map_start pk (Some k) (unat n))"

definition do_http_session_format :: "ch_http_session \<Rightarrow> ch_msgpack_store \<Rightarrow> ch_msgpack_store" where
  "do_http_session_format s pk =
     (let pk = ch_msgpack_map_start pk (Some ''http'') 8;
          pk = ch_msgpack_write_kv pk ''method'' (hs_method s);
          pk = ch_msgpack_write_kv pk ''uri'' (hs_uri s);
          pk = ch_msgpack_write_kv pk ''version'' (Some (ch_http_version_to_str (http_version s)));
          pk = ch_msgpack_write_uint pk (Some ''status'') (status_code s);
          pk = ch_msgpack_write_kv pk ''reqBodyPath'' (BODY_NAME (req_body s));
          pk = ch_msgpack_write_kv pk ''resBodyPath'' (BODY_NAME (res_body s));
          pk = pack_headers pk (hi_headers (headers_in s)) ''inHeaders'' (in_headers_n s)
      in pack_headers pk (ho_headers (headers_out s)) ''outHeaders'' (out_headers_n s))"

end
