(* ===== verification/Http_Text.thy ===== *)
theory Http_Text
  imports Http_Session
begin

text \<open>
  Lines that are read back: what the parsers of \<^verbatim>\<open>ch_http_data_parse.c\<close> and the setters of \<^verbatim>\<open>ch_http_session.c\<close> make of a
  request line, a header line and a status line as clients and servers write them.
\<close>

section \<open>Runs of the loop over a line\<close>

lemma line_loop_append:
  assumes "line_loop step a p s r = (p', L_next s' r')"
  shows "p' = p + length a" "line_loop step (a @ b) p s r = line_loop step b (p + length a) s' r'"
proof -
  have "p' = p + length a \<and> line_loop step (a @ b) p s r = line_loop step b (p + length a) s' r'"
    using assms by (induction a arbitrary: p s r) (fastforce split: line_step.splits)+
  then show "p' = p + length a" "line_loop step (a @ b) p s r = line_loop step b (p + length a) s' r'" by auto
qed

section \<open>The request line\<close>

definition method_ok :: "bytes \<Rightarrow> bool" where
  "method_ok m \<longleftrightarrow> 2 \<le> length m \<and> (\<forall>c \<in> set m. upper_or_bar c)"

definition uri_ok :: "bytes \<Rightarrow> bool" where
  "uri_ok u \<longleftrightarrow> u \<noteq> [] \<and> hd u = 47 \<and> (\<forall>c \<in> set u. c \<noteq> 0 \<and> c \<noteq> 32 \<and> c \<noteq> CR \<and> c \<noteq> LF)"

definition request_line_bytes :: "bytes \<Rightarrow> bytes \<Rightarrow> bytes" where
  "request_line_bytes m u = m @ [32] @ u @ [32, 72, 84, 84, 80, 47, 49, 46, 49, CR, LF]"

lemma upper_facts: "upper_or_bar c \<Longrightarrow> c \<noteq> CR \<and> c \<noteq> LF \<and> c \<noteq> 32 \<and> c \<noteq> 0"
  by (auto simp: upper_or_bar_def)

lemma method_run:
  "\<forall>c \<in> set cs. upper_or_bar c \<Longrightarrow> line_loop (request_step line) cs p sw_method r = (p + length cs, L_next sw_method r)"
  by (induction cs arbitrary: p) (auto simp: request_step_def dest: upper_facts)

text \<open>What the states of the URI leave as it is.\<close>

abbreviation uri_state :: "rl_state \<Rightarrow> bool" where
  "uri_state st \<equiv> st = sw_after_slash_in_uri \<or> st = sw_check_uri \<or> st = sw_uri"

definition line_core :: "ch_http_request_line \<Rightarrow> nat option \<times> nat option \<times> nat option" where
  "line_core r = (request_start r, method_end r, uri_start r)"

lemma uri_byte:
  assumes "uri_state st" "c \<noteq> 0" "c \<noteq> 32" "c \<noteq> CR" "c \<noteq> LF"
  shows "case request_step line p c st r of L_next st' r' \<Rightarrow> uri_state st' \<and> line_core r' = line_core r | _ \<Rightarrow> False"
  using assms by (elim disjE) (simp_all add: request_step_def check_uri_step_def uri_step_def line_core_def)

lemma uri_run:
  assumes "uri_state st" "\<forall>c \<in> set cs. c \<noteq> 0 \<and> c \<noteq> 32 \<and> c \<noteq> CR \<and> c \<noteq> LF"
  shows "\<exists>st' r'. line_loop (request_step line) cs p st r = (p + length cs, L_next st' r') \<and> uri_state st' \<and> line_core r' = line_core r"
  using assms
proof (induction cs arbitrary: p st r)
  case (Cons c cs)
  obtain st1 r1 where s: "request_step line p c st r = L_next st1 r1" "uri_state st1" "line_core r1 = line_core r"
    using uri_byte [OF Cons.prems(1), where c = c and line = line and p = p and r = r] Cons.prems(2) by (auto split: line_step.splits)
  from Cons.IH [OF s(2), of "p + 1" r1] Cons.prems(2) show ?case using s by auto
qed auto

lemma not_usual: "\<not> is_usual 32" "\<not> is_usual CR" "\<not> is_usual LF" "\<not> is_usual 0"
  by code_simp+

lemma uri_end_byte:
  assumes "uri_state st"
  shows "\<exists>st'. request_step line p 32 st r = L_next st' (r\<lparr>uri_end := Some p\<rparr>) \<and> (st' = sw_check_uri_http_09 \<or> st' = sw_http_09)"
  using assms by (auto simp: request_step_def check_uri_step_def uri_step_def not_usual)

lemma version_run:
  assumes "st = sw_check_uri_http_09 \<or> st = sw_http_09"
  shows "\<exists>r' k. line_loop (request_step line) [72, 84, 84, 80, 47, 49, 46, 49, CR, LF] p st r = (k, L_goto 0 r') \<and>
    line_core r' = line_core r \<and> uri_end r' = uri_end r \<and> rl_http_major r' = 1 \<and> rl_http_minor r' = 1"
  using assms by (auto simp: request_step_def line_core_def digit_def)

lemma request_line_parse_at:
  assumes "method_ok m" "uri_ok u"
  shows "\<exists>r. ch_http_request_line_parse (ch_http_request_line_init g v) \<lparr>ln_line = request_line_bytes m u, ln_len = n\<rparr> = (CH_OK, r) \<and>
    line_core r = (Some 0, Some (length m - 1), Some (length m + 1)) \<and> uri_end r = Some (length m + 1 + length u) \<and>
    rl_http_major r = 1 \<and> rl_http_minor r = 1"
proof -
  let ?line = "request_line_bytes m u" and ?v = "[72, 84, 84, 80, 47, 49, 46, 49, CR, LF] :: bytes"
  let ?run = "line_loop (request_step ?line)"
  obtain c m' where m: "m = c # m'" "upper_or_bar c" "\<forall>c \<in> set m'. upper_or_bar c" "m' \<noteq> []"
    using assms(1) by (cases m) (auto simp: method_ok_def Suc_le_eq)
  obtain u' where u: "u = 47 # u'" "\<forall>c \<in> set u'. c \<noteq> 0 \<and> c \<noteq> 32 \<and> c \<noteq> CR \<and> c \<noteq> LF"
    using assms(2) by (cases u) (auto simp: uri_ok_def)
  let ?r0 = "ch_http_request_line_init g v\<lparr>request_start := Some 0\<rparr>"
  let ?r1 = "?r0\<lparr>method_end := Some (length m - 1), rl_method := method_of (take (length m) ?line) (rl_method ?r0)\<rparr>"
  let ?r2 = "?r1\<lparr>uri_start := Some (length m + 1)\<rparr>"
  have "?run (c # m') 0 sw_start (ch_http_request_line_init g v) = (length m, L_next sw_method ?r0)"
    using m upper_facts [OF m(2)] method_run [OF m(3), of ?line 1 ?r0] by (simp add: request_step_def)
  note a1 = line_loop_append(2) [OF this, of "32 # u @ 32 # ?v"]
  have a2: "?run (32 # u @ 32 # ?v) (length m) sw_method ?r0 = ?run (u' @ 32 # ?v) (length m + 2) sw_after_slash_in_uri ?r2"
    using m u by (simp add: request_step_def)
  obtain st3 r3 where r3: "?run u' (length m + 2) sw_after_slash_in_uri ?r2 = (length m + 2 + length u', L_next st3 r3)" "uri_state st3"
    "line_core r3 = line_core ?r2"
    using uri_run [OF _ u(2), of sw_after_slash_in_uri ?line "length m + 2" ?r2] by auto
  note a3 = line_loop_append(2) [OF r3(1), of "32 # ?v"]
  let ?p = "length m + 2 + length u'"
  obtain st4 where st4: "request_step ?line ?p 32 st3 r3 = L_next st4 (r3\<lparr>uri_end := Some ?p\<rparr>)" "st4 = sw_check_uri_http_09 \<or> st4 = sw_http_09"
    using uri_end_byte [OF r3(2)] by blast
  have a4: "?run (32 # ?v) ?p st3 r3 = ?run ?v (?p + 1) st4 (r3\<lparr>uri_end := Some ?p\<rparr>)" using st4(1) by simp
  obtain r5 k where r5: "?run ?v (?p + 1) st4 (r3\<lparr>uri_end := Some ?p\<rparr>) = (k, L_goto 0 r5)" "line_core r5 = line_core (r3\<lparr>uri_end := Some ?p\<rparr>)"
    "uri_end r5 = Some ?p" "rl_http_major r5 = 1" "rl_http_minor r5 = 1"
    using version_run [OF st4(2), of ?line "?p + 1" "r3\<lparr>uri_end := Some ?p\<rparr>"] by auto
  have "?run ?line 0 sw_start (ch_http_request_line_init g v) = (k, L_goto 0 r5)"
    using a1 a2 a3 a4 r5(1) m(1) by (simp add: request_line_bytes_def)
  moreover have "line_core r5 = (Some 0, Some (length m - 1), Some (length m + 1))" using r5(2) r3(3) by (simp add: line_core_def)
  ultimately show ?thesis using r5(3-5) u(1) by (simp add: ch_http_request_line_parse_def line_core_def http_codes Let_def)
qed

lemma take_drop_mid: "take (length b) (drop (length a) (a @ b @ c)) = b"
  by simp

lemma http_request_line_at:
  assumes "\<And>n. he_pool env n" "method_ok m" "uri_ok u"
  shows "http_request_line_parse env s \<lparr>ln_line = request_line_bytes m u, ln_len = n\<rparr> =
    Inr (Some (s\<lparr>hs_method := Some (c_string_of m), http_version := CH_HTTP_VERSION_11, hs_uri := Some (c_string_of u),
      hs_phase := PARSE_PHASE_REQ_HEADER\<rparr>))"
proof -
  let ?line = "request_line_bytes m u"
  obtain r where r: "ch_http_request_line_parse (ch_http_request_line_init (fst (he_stack env)) (snd (he_stack env))) \<lparr>ln_line = ?line, ln_len = n\<rparr> = (CH_OK, r)"
    "request_start r = Some 0" "method_end r = Some (length m - 1)" "uri_start r = Some (length m + 1)" "uri_end r = Some (length m + 1 + length u)"
    "rl_http_major r = 1" "rl_http_minor r = 1"
    using request_line_parse_at [OF assms(2,3), of "fst (he_stack env)" "snd (he_stack env)" n] by (auto simp: line_core_def)
  have "2 \<le> length m" using assms(2) by (simp add: method_ok_def)
  then have "HTTP_STRNDUP (he_pool env) ?line (Some 0) (Some (length m - 1)) 1 = Inr (c_string_of m)"
    using assms(1) by (auto simp: HTTP_STRNDUP_def http_pstrndup_def request_line_bytes_def)
  moreover have "HTTP_STRNDUP (he_pool env) ?line (Some (length m + 1)) (Some (length m + 1 + length u)) 0 = Inr (c_string_of u)"
    using assms(1,3) by (simp add: HTTP_STRNDUP_def http_pstrndup_def request_line_bytes_def uri_ok_def)
  ultimately show ?thesis using r
    by (simp add: http_request_line_parse_def ch_http_session_request_line_set_def HTTP_VERSION_MAKE_def CH_HTTP_VERSION_11_def CH_HTTP_VERSION_9_def)
qed

section \<open>The header line\<close>

definition header_name_ok :: "bytes \<Rightarrow> bool" where
  "header_name_ok k \<longleftrightarrow> k \<noteq> [] \<and> (\<forall>c \<in> set k. c \<noteq> 0 \<and> c \<noteq> 58 \<and> c \<noteq> CR \<and> c \<noteq> LF \<and> c \<noteq> 47)"

definition header_value_ok :: "bytes \<Rightarrow> bool" where
  "header_value_ok v \<longleftrightarrow> v \<noteq> [] \<and> hd v \<noteq> 32 \<and> last v \<noteq> 32 \<and> (\<forall>c \<in> set v. c \<noteq> 0 \<and> c \<noteq> CR \<and> c \<noteq> LF)"

definition header_line_bytes :: "bytes \<Rightarrow> bytes \<Rightarrow> bytes" where
  "header_line_bytes k v = k @ [58, 32] @ v @ [CR, LF]"

lemma header_name_run:
  assumes "\<forall>c \<in> set cs. c \<noteq> 0 \<and> c \<noteq> 58 \<and> c \<noteq> CR \<and> c \<noteq> LF \<and> c \<noteq> 47"
  shows "\<exists>h'. line_loop (header_step line) cs p hl_name h = (p + length cs, L_next hl_name h') \<and> header_name_start h' = header_name_start h"
  using assms
proof (induction cs arbitrary: p h)
  case (Cons c cs)
  have "header_step line p c hl_name h = L_next hl_name (h\<lparr>invalid_header := True\<rparr>)" using Cons.prems by (simp add: header_step_def)
  then show ?case using Cons.IH [of "p + 1" "h\<lparr>invalid_header := True\<rparr>"] Cons.prems by simp
qed simp

definition header_core :: "ch_http_header \<Rightarrow> nat option \<times> nat option \<times> nat option" where
  "header_core h = (header_name_start h, header_name_end h, header_start h)"

lemma header_value_byte:
  assumes "c \<noteq> 0" "c \<noteq> CR" "c \<noteq> LF" "st = hl_value \<or> st = hl_space_after_value"
  shows "case header_step line p c st h of L_next st' h' \<Rightarrow> st' = (if c = 32 then hl_space_after_value else hl_value) \<and> header_core h' = header_core h | _ \<Rightarrow> False"
  using assms by (elim disjE) (simp_all add: header_step_def header_core_def)

lemma header_value_run:
  assumes "\<forall>c \<in> set cs. c \<noteq> 0 \<and> c \<noteq> CR \<and> c \<noteq> LF" "st = hl_value \<or> st = hl_space_after_value"
  shows "\<exists>h'. line_loop (header_step line) cs p st h =
      (p + length cs, L_next (if cs = [] then st else if last cs = 32 then hl_space_after_value else hl_value) h') \<and> header_core h' = header_core h"
  using assms
proof (induction cs arbitrary: p st h)
  case (Cons c cs)
  obtain st1 h1 where s: "header_step line p c st h = L_next st1 h1" "st1 = (if c = 32 then hl_space_after_value else hl_value)" "header_core h1 = header_core h"
    using header_value_byte [where c = c and st = st and line = line and p = p and h = h] Cons.prems by (auto split: line_step.splits)
  have "st1 = hl_value \<or> st1 = hl_space_after_value" using s(2) by simp
  from Cons.IH [OF _ this, of "p + 1" h1] Cons.prems(1)
  obtain h' where "line_loop (header_step line) cs (p + 1) st1 h1 =
      (p + 1 + length cs, L_next (if cs = [] then st1 else if last cs = 32 then hl_space_after_value else hl_value) h')" "header_core h' = header_core h"
    using s(3) by auto
  then show ?case using s(1,2) by (intro exI [of _ h']) (cases "cs = []"; simp)
qed simp

lemma header_line_parse_at:
  assumes "header_name_ok k" "header_value_ok v"
  shows "\<exists>h. ch_http_header_line_parse ch_http_header_init \<lparr>ln_line = header_line_bytes k v, ln_len = n\<rparr> = (CH_OK, h) \<and>
    header_core h = (Some 0, Some (length k), Some (length k + 2)) \<and> header_end h = Some (length k + 2 + length v)"
proof -
  let ?line = "header_line_bytes k v"
  let ?run = "line_loop (header_step ?line)"
  obtain c k' where k: "k = c # k'" "c \<noteq> 0 \<and> c \<noteq> CR \<and> c \<noteq> LF" "\<forall>c \<in> set k'. c \<noteq> 0 \<and> c \<noteq> 58 \<and> c \<noteq> CR \<and> c \<noteq> LF \<and> c \<noteq> 47"
    using assms(1) by (cases k) (auto simp: header_name_ok_def)
  obtain x v' where v: "v = x # v'" "x \<noteq> 0 \<and> x \<noteq> CR \<and> x \<noteq> LF \<and> x \<noteq> 32" "\<forall>c \<in> set v'. c \<noteq> 0 \<and> c \<noteq> CR \<and> c \<noteq> LF" "v' = [] \<or> last v' \<noteq> 32"
    using assms(2) by (cases v) (auto simp: header_value_ok_def split: if_splits)
  let ?h0 = "ch_http_header_init\<lparr>header_name_start := Some 0, invalid_header := True\<rparr>"
  have first: "header_step ?line 0 c hl_start ch_http_header_init = L_next hl_name ?h0" using k by (simp add: header_step_def ch_http_header_init_def)
  obtain h1 where h1: "?run k' 1 hl_name ?h0 = (1 + length k', L_next hl_name h1)" "header_name_start h1 = Some 0"
    using header_name_run [OF k(3), of ?line 1 ?h0] by auto
  then have "?run k 0 hl_start ch_http_header_init = (length k, L_next hl_name h1)" using first k(1) by simp
  note a1 = line_loop_append(2) [OF this, of "[58, 32] @ v @ [CR, LF]"]
  let ?h2 = "h1\<lparr>header_name_end := Some (length k), header_start := Some (length k + 2)\<rparr>"
  have a2: "?run ([58, 32] @ v @ [CR, LF]) (length k) hl_name h1 = ?run (v' @ [CR, LF]) (length k + 3) hl_value ?h2"
    using v by (simp add: header_step_def eval_nat_numeral)
  obtain h3 where h3: "?run v' (length k + 3) hl_value ?h2 = (length k + 3 + length v', L_next hl_value h3)" "header_core h3 = header_core ?h2"
    using header_value_run [OF v(3), of hl_value ?line "length k + 3" ?h2] v(4) by auto
  note a3 = line_loop_append(2) [OF h3(1), of "[CR, LF]"]
  have "?run [CR, LF] (length k + 3 + length v') hl_value h3 = (length k + 4 + length v', L_goto 0 (h3\<lparr>header_end := Some (length k + 3 + length v')\<rparr>))"
    by (simp add: header_step_def)
  then have "?run ?line 0 hl_start ch_http_header_init = (length k + 4 + length v', L_goto 0 (h3\<lparr>header_end := Some (length k + 3 + length v')\<rparr>))"
    using a1 a2 a3 by (simp add: header_line_bytes_def)
  then show ?thesis using h3(2) h1(2) v(1) by (simp add: ch_http_header_line_parse_def header_core_def)
qed

text \<open>What a header adds to a session of a request.\<close>

definition with_header :: "ch_http_session \<Rightarrow> string \<Rightarrow> string \<Rightarrow> ch_http_session" where
  "with_header s k v =
     (let s = http_request_header_index_set (s\<lparr>headers_in := (headers_in s)\<lparr>hi_headers := (k, v) # hi_headers (headers_in s)\<rparr>\<rparr>) (k, v)
      in s\<lparr>in_headers_n := in_headers_n s + 1\<rparr>)"

lemma http_header_at:
  assumes "\<And>n. he_pool env n" "header_name_ok k" "header_value_ok v"
  shows "http_header_parse env s \<lparr>ln_line = header_line_bytes k v, ln_len = n\<rparr> True = Inr (Some (with_header s (c_string_of k) (c_string_of v)))"
proof -
  obtain h where h: "ch_http_header_line_parse ch_http_header_init \<lparr>ln_line = header_line_bytes k v, ln_len = n\<rparr> = (CH_OK, h)"
    "header_name_start h = Some 0" "header_name_end h = Some (length k)" "header_start h = Some (length k + 2)" "header_end h = Some (length k + 2 + length v)"
    using header_line_parse_at [OF assms(2,3), of n] by (auto simp: header_core_def)
  have "HTTP_STRNDUP (he_pool env) (header_line_bytes k v) (Some 0) (Some (length k)) 0 = Inr (c_string_of k)"
    "HTTP_STRNDUP (he_pool env) (header_line_bytes k v) (Some (length k + 2)) (Some (length k + 2 + length v)) 0 = Inr (c_string_of v)"
    using assms by (simp_all add: HTTP_STRNDUP_def http_pstrndup_def header_line_bytes_def header_name_ok_def header_value_ok_def)
  then show ?thesis using h assms(1) by (simp add: http_header_parse_def ch_http_session_header_add_def with_header_def Let_def)
qed

end
