(* ===== verification/Http_Chunk.thy ===== *)
theory Http_Chunk
  imports Http_Session "HOL-Library.Sublist"
begin

text \<open>
  Chunked bodies: \<^verbatim>\<open>_http_body_chunked_parse\<close> of \<^verbatim>\<open>do_http_parse.c\<close> works through the data of one call with pointers and sizes and
  keeps a state for the next call. It refines a machine that reads the body byte by byte, so that the pieces the
  body comes in do not matter, and the machine decodes what a sender encodes.
\<close>

section \<open>The machine\<close>

datatype ck_machine = CK_on ck_state size_t | CK_done | CK_bad

definition ck_mk :: "ck_state \<Rightarrow> size_t \<Rightarrow> ck_machine" where
  "ck_mk st sz = CK_on (if st = ck_chunk_data \<and> sz = 0 then ck_after_data else st) sz"

abbreviation ck_limit :: size_t where "ck_limit \<equiv> CH_MAX_OFF_T_VALUE - 5"

definition ck_byte :: "ck_state \<Rightarrow> size_t \<Rightarrow> u8 \<Rightarrow> ck_machine \<times> bytes" where
  "ck_byte st sz c =
     (if st = ck_chunk_data then (ck_mk ck_chunk_data (sz - 1), [c])
      else case chunk_step c st sz of
        C_next st' sz' \<Rightarrow> (if sz' > ck_limit then CK_bad else ck_mk st' sz', [])
      | C_done \<Rightarrow> (CK_done, [])
      | _ \<Rightarrow> (CK_bad, []))"

text \<open>The machine on a list of bytes: where it stops, the body it has read, what is behind the body.\<close>

fun ck_run :: "bytes \<Rightarrow> ck_machine \<Rightarrow> bytes \<Rightarrow> ck_machine \<times> bytes \<times> bytes" where
  "ck_run cs CK_done acc = (CK_done, acc, cs)"
| "ck_run cs CK_bad acc = (CK_bad, acc, cs)"
| "ck_run [] (CK_on st sz) acc = (CK_on st sz, acc, [])"
| "ck_run (c # cs) (CK_on st sz) acc = (case ck_byte st sz c of (mc, d) \<Rightarrow> ck_run cs mc (acc @ d))"

lemma ck_run_append: "ck_run a mc acc = (CK_on st sz, acc', r) \<Longrightarrow> ck_run (a @ b) mc acc = ck_run b (CK_on st sz) acc'"
  by (induction a mc acc rule: ck_run.induct) (auto split: prod.splits)

lemma ck_run_on_rest: "ck_run a mc acc = (CK_on st sz, acc', r) \<Longrightarrow> r = []"
  by (induction a mc acc rule: ck_run.induct) (auto split: prod.splits)

lemma ck_run_done_append: "ck_run a mc acc = (CK_done, acc', r) \<Longrightarrow> ck_run (a @ b) mc acc = (CK_done, acc', r @ b)"
  by (induction a mc acc rule: ck_run.induct) (auto split: prod.splits)

lemma ck_run_bad_append: "ck_run a mc acc = (CK_bad, acc', r) \<Longrightarrow> fst (ck_run (a @ b) mc acc) = CK_bad"
  by (induction a mc acc rule: ck_run.induct) (auto split: prod.splits)

section \<open>The loops of the code\<close>

definition ck_small :: "ck_machine \<Rightarrow> bool" where
  "ck_small mc = (case mc of CK_on st sz \<Rightarrow> sz \<le> ck_limit \<and> \<not> (st = ck_chunk_data \<and> sz = 0) | _ \<Rightarrow> True)"

lemma chunk_step_data: "chunk_step c st sz = C_data \<longleftrightarrow> st = ck_chunk_data"
  by (auto simp: chunk_step_def split: ck_state.splits)

text \<open>The inner loop up to where it stops.\<close>

lemma chunk_loop_run:
  assumes "chunk_loop cs k st sz = (x, k', st', sz')" "ck_run cs (ck_mk st sz) acc = (mc, acc', rest)" "mc \<noteq> CK_bad"
    "\<not> (st = ck_chunk_data \<and> sz = 0)" "sz \<le> ck_limit"
  shows "sz' \<le> ck_limit \<and>
    (case x of
       C_next _ _ \<Rightarrow> mc = ck_mk st' sz' \<and> acc' = acc \<and> rest = []
     | C_data \<Rightarrow> ck_run (drop (k' - k) cs) (ck_mk st' sz') acc = (mc, acc', rest)
     | C_done \<Rightarrow> mc = CK_done \<and> acc' = acc \<and> rest = drop (k' + 1 - k) cs
     | C_invalid _ \<Rightarrow> False)"
  using assms
proof (induction cs arbitrary: k st sz)
  case (Cons c cs)
  note step = Cons.prems(1)
  have m: "ck_mk st sz = CK_on st sz" using Cons.prems(4) by (auto simp: ck_mk_def)
  show ?case
  proof (cases "chunk_step c st sz")
    case (C_next st1 sz1)
    then have nd: "st \<noteq> ck_chunk_data" using chunk_step_data [of c st sz] by (cases "st = ck_chunk_data") auto
    have l: "chunk_loop cs (k + 1) st1 sz1 = (x, k', st', sz')" using step C_next by simp
    have sz1: "sz1 \<le> ck_limit" and run: "ck_run cs (ck_mk st1 sz1) acc = (mc, acc', rest)"
      using Cons.prems(2,3) m nd C_next by (auto simp: ck_byte_def split: if_splits)
    have kk: "k + 1 \<le> k'" using chunk_loop_bounds [OF l] by simp
    show ?thesis
    proof (cases "st1 = ck_chunk_data \<and> sz1 = 0")
      case False
      have "drop (k' - k) (c # cs) = drop (k' - (k + 1)) cs" "drop (k' + 1 - k) (c # cs) = drop (k' + 1 - (k + 1)) cs"
        using kk by (auto simp: drop_Cons' Suc_diff_le)
      then show ?thesis using Cons.IH [OF l run Cons.prems(3) False sz1] by (cases x) simp_all
    next
      case True
      then show ?thesis
      proof (cases cs)
        case Nil
        then show ?thesis using l run sz1 by (auto simp: ck_mk_def)
      next
        case (Cons c2 cs2)
        then have "x = C_data" "k' = k + 1" "st' = ck_chunk_data" "sz' = 0" using l True by (auto simp: chunk_step_def)
        then show ?thesis using run True sz1 by simp
      qed
    qed
  next
    case C_data
    then have "x = C_data" "k' = k" "st' = st" "sz' = sz" using step by auto
    then show ?thesis using Cons.prems by simp
  next
    case C_done
    then have nd: "st \<noteq> ck_chunk_data" using chunk_step_data [of c st sz] by (cases "st = ck_chunk_data") auto
    then show ?thesis using step Cons.prems C_done m by (auto simp: ck_byte_def)
  next
    case (C_invalid z)
    then have nd: "st \<noteq> ck_chunk_data" using chunk_step_data [of c st sz] by (cases "st = ck_chunk_data") auto
    then show ?thesis using Cons.prems C_invalid m by (auto simp: ck_byte_def)
  qed
qed (auto simp: ck_mk_def split: if_splits)

text \<open>The data of a chunk, as many as are there.\<close>

lemma ck_run_data:
  assumes "n \<le> length cs" "n \<le> unat sz"
  shows "ck_run cs (ck_mk ck_chunk_data sz) acc = ck_run (drop n cs) (ck_mk ck_chunk_data (sz - of_nat n)) (acc @ take n cs)"
  using assms
proof (induction n arbitrary: cs sz acc)
  case (Suc n)
  then obtain c cs' where c: "cs = c # cs'" by (cases cs) auto
  have sz: "sz \<noteq> 0" using Suc.prems(2) by auto
  then have "unat (sz - 1) = unat sz - 1" by (simp add: unat_minus_one)
  then have "ck_run cs' (ck_mk ck_chunk_data (sz - 1)) (acc @ [c]) =
      ck_run (drop n cs') (ck_mk ck_chunk_data (sz - 1 - of_nat n)) ((acc @ [c]) @ take n cs')"
    using Suc.IH [of cs' "sz - 1" "acc @ [c]"] Suc.prems c by simp
  moreover have "ck_mk ck_chunk_data sz = CK_on ck_chunk_data sz" using sz by (simp add: ck_mk_def)
  ultimately show ?case using c by (simp add: ck_byte_def diff_diff_eq)
qed simp

text \<open>A body whose writes succeed.\<close>

definition body_after :: "ch_http_session_body \<Rightarrow> bytes \<Rightarrow> ch_http_session_body \<Rightarrow> bool" where
  "body_after b d b' \<longleftrightarrow> body_file b' = body_file b @ d \<and> body_fname b' = body_fname b"

lemma body_append_after:
  assumes "\<And>f d. he_write env f d"
  shows "body_after b d (snd (ch_http_body_append env b d))"
  using assms by (simp add: body_after_def ch_http_body_append_def)

lemma body_after_trans: "body_after b d b1 \<Longrightarrow> body_after b1 d' b2 \<Longrightarrow> body_after b (d @ d') b2"
  by (simp add: body_after_def)

definition chunk_mc :: "ch_http_chunked \<Rightarrow> ck_machine" where
  "chunk_mc chunk = ck_mk (ck_st chunk) (ck_size chunk)"

lemma chunk_mc_on [simp]: "chunk_mc chunk \<noteq> CK_done"
  by (simp add: chunk_mc_def ck_mk_def)

text \<open>The parser up to the next data or the end.\<close>

lemma chunked_parse_run:
  assumes "ck_run (pp_unread din) (chunk_mc chunk) acc = (mc, acc', rest)" "mc \<noteq> CK_bad" "ck_size chunk \<le> ck_limit"
  shows "\<exists>rc chunk' din'. ch_http_chunked_parse chunk din = (rc, chunk', din') \<and> ck_size chunk' \<le> ck_limit \<and> pp_data din' = pp_data din \<and>
    (rc = CH_OK \<and> ck_st chunk' = ck_chunk_data \<and> ck_run (pp_unread din') (chunk_mc chunk') acc = (mc, acc', rest) \<or>
     rc = CH_AGAIN \<and> pp_unread din' = [] \<and> mc = chunk_mc chunk' \<and> acc' = acc \<and> rest = [] \<or>
     rc = CH_DONE \<and> mc = CK_done \<and> acc' = acc \<and> rest = pp_unread din')"
proof -
  let ?st = "if ck_st chunk = ck_chunk_data \<and> ck_size chunk = 0 then ck_after_data else ck_st chunk"
  obtain x k st sz where l: "chunk_loop (pp_unread din) 0 ?st (ck_size chunk) = (x, k, st, sz)"
    by (cases "chunk_loop (pp_unread din) 0 ?st (ck_size chunk)")
  have "ck_run (pp_unread din) (ck_mk ?st (ck_size chunk)) acc = (mc, acc', rest)"
    using assms(1) by (auto simp: chunk_mc_def ck_mk_def)
  moreover have "\<not> (?st = ck_chunk_data \<and> ck_size chunk = 0)" by simp
  ultimately have r: "sz \<le> ck_limit" "case x of
       C_next _ _ \<Rightarrow> mc = ck_mk st sz \<and> acc' = acc \<and> rest = []
     | C_data \<Rightarrow> ck_run (drop k (pp_unread din)) (ck_mk st sz) acc = (mc, acc', rest)
     | C_done \<Rightarrow> mc = CK_done \<and> acc' = acc \<and> rest = drop (k + 1) (pp_unread din)
     | C_invalid _ \<Rightarrow> False"
    using chunk_loop_run [OF l _ assms(2) _ assms(3)] by (auto split: ck_step.splits)
  have u: "pp_unread (ch_pp_din_pos_update din n) = drop n (pp_unread din)" for n
    by (simp add: pp_unread_def ch_pp_din_pos_update_def add.commute)
  show ?thesis
  proof (cases x)
    case (C_next a z)
    then show ?thesis using l r u chunk_loop_next [OF l [unfolded C_next]]
      by (simp add: ch_http_chunked_parse_def pp_unread_def [symmetric] Let_def not_less [symmetric] chunk_mc_def ch_pp_din_pos_update_def)
  next
    case C_data
    then show ?thesis using l r u chunk_loop_data [OF l [unfolded C_data]]
      by (simp add: ch_http_chunked_parse_def pp_unread_def [symmetric] Let_def not_less [symmetric] chunk_mc_def)
        (simp add: ch_pp_din_pos_update_def)
  next
    case C_done
    then show ?thesis using l r u
      by (simp add: ch_http_chunked_parse_def pp_unread_def [symmetric] Let_def) (simp add: ch_pp_din_pos_update_def)
  qed (use r in simp)
qed

lemma ck_run_acc: "ck_run cs mc (acc1 @ acc) = (case ck_run cs mc acc of (m, d, r) \<Rightarrow> (m, acc1 @ d, r))"
  by (induction cs mc acc rule: ck_run.induct) (auto split: prod.splits)

definition chunk_result :: "bool \<Rightarrow> ck_machine \<Rightarrow> bytes \<Rightarrow> ch_http_session \<Rightarrow> ch_http_session_body \<Rightarrow> ch_http_session \<Rightarrow> bool" where
  "chunk_result is_req mc d s b s' \<longleftrightarrow>
     (\<exists>b' c. body_of is_req s' = Some b' \<and> body_after b d b' \<and> body_chunk b' = Some c \<and> ck_size c \<le> ck_limit \<and>
       (if mc = CK_done then hs_phase s' = (if is_req then PARSE_PHASE_STATUS_LINE else PARSE_PHASE_DONE)
        else chunk_mc c = mc \<and> hs_phase s' = hs_phase s))"

lemma set_body_simps [simp]:
  "body_of is_req (set_body is_req s b) = Some b" "hs_phase (set_body is_req s b) = hs_phase s"
  "body_of is_req (HTTP_BODY_PARSE_STATE_SET s is_req) = body_of is_req s"
  "hs_phase (HTTP_BODY_PARSE_STATE_SET s is_req) = (if is_req then PARSE_PHASE_STATUS_LINE else PARSE_PHASE_DONE)"
  "hs_phase (add_content_length is_req s n) = hs_phase s"
  by (simp_all add: set_body_def body_of_def HTTP_BODY_PARSE_STATE_SET_def add_content_length_def)

lemma chunk_result_step:
  assumes "chunk_result is_req mc d' s1 b1 s'" "body_after b d1 b1" "d = d1 @ d'" "hs_phase s1 = hs_phase s"
  shows "chunk_result is_req mc d s b s'"
  using assms body_after_trans [OF assms(2)] unfolding chunk_result_def by metis

lemma http_chunk_loop_run:
  assumes w: "\<And>f d. he_write env f d" and mc: "mc \<noteq> CK_bad"
    and "ck_run (pp_unread din) (chunk_mc chunk) [] = (mc, d, rest)" "ck_size chunk \<le> ck_limit" "length (pp_data din) < 2 ^ 64"
  shows "\<exists>s' din'. http_chunk_loop env s b chunk din is_req = (0, s', din') \<and> chunk_result is_req mc d s b s' \<and> pp_unread din' = rest"
  using assms
proof (induction env s b chunk din is_req arbitrary: d rule: http_chunk_loop.induct)
  case (1 env s b chunk din is_req)
  obtain rc c din1 where p: "ch_http_chunked_parse chunk din = (rc, c, din1)" "ck_size c \<le> ck_limit" "pp_data din1 = pp_data din"
    "rc = CH_OK \<and> ck_st c = ck_chunk_data \<and> ck_run (pp_unread din1) (chunk_mc c) [] = (mc, d, rest) \<or>
     rc = CH_AGAIN \<and> pp_unread din1 = [] \<and> mc = chunk_mc c \<and> d = [] \<and> rest = [] \<or>
     rc = CH_DONE \<and> mc = CK_done \<and> d = [] \<and> rest = pp_unread din1"
    using chunked_parse_run [OF "1.prems"(3,2,4)] by blast
  show ?case
  proof (cases "rc = CH_OK")
    case True
    let ?u = "pp_unread din1"
    let ?over = "of_nat (ch_pp_din_rdlen din1) > ck_size c"
    let ?len = "if ?over then unat (ck_size c) else ch_pp_din_rdlen din1"
    let ?c = "c\<lparr>ck_size := (if ?over then 0 else ck_size c - of_nat (ch_pp_din_rdlen din1))\<rparr>"
    let ?din = "if ?over then ch_pp_din_pos_update din1 (unat (ck_size c)) else ch_pp_din_skip_to_end din1"
    let ?b = "snd (ch_http_body_append env b (take ?len ?u))"
    have st: "ck_st c = ck_chunk_data" "ck_run ?u (chunk_mc c) [] = (mc, d, rest)" using p(4) True by (auto simp: http_codes)
    have n: "ch_pp_din_rdlen din1 = length ?u" by (simp add: ch_pp_din_rdlen_def pp_unread_def)
    have lt: "length ?u < 2 ^ 64" using "1.prems"(5) p(3) by (simp add: pp_unread_def)
    have ul: "unat (of_nat (length ?u) :: u64) = length ?u" using lt by (simp add: unat_of_nat)
    have ov: "of_nat (length ?u) > ck_size c \<longleftrightarrow> unat (ck_size c) < length ?u" by (simp add: word_less_nat_alt ul)
    have len: "?len \<le> length ?u" "?len \<le> unat (ck_size c)" unfolding n ov by auto
    have u: "pp_unread ?din = drop ?len ?u" unfolding n ov
      by (auto simp: pp_unread_def ch_pp_din_pos_update_def ch_pp_din_skip_to_end_def add.commute)
    have sz: "ck_size c - of_nat ?len = ck_size ?c" by simp
    have le: "ck_size ?c \<le> ck_limit" using p(2) len(2) unfolding sz [symmetric]
      using unat_sub [of "of_nat ?len" "ck_size c"] len by (simp add: word_le_nat_alt ul n split: if_splits)
    have "chunk_mc ?c = ck_mk ck_chunk_data (ck_size c - of_nat ?len)" using st(1) by (simp add: chunk_mc_def)
    then have "ck_run (pp_unread ?din) (chunk_mc ?c) (take ?len ?u) = (mc, d, rest)"
      using ck_run_data [OF len, of "[]"] st unfolding u by (simp add: chunk_mc_def)
    then obtain d' where d': "ck_run (pp_unread ?din) (chunk_mc ?c) [] = (mc, d', rest)" "d = take ?len ?u @ d'"
      using ck_run_acc [of "pp_unread ?din" "chunk_mc ?c" "take ?len ?u" "[]"] by (auto split: prod.splits)
    have "length (pp_data ?din) < 2 ^ 64"
      using "1.prems"(5) p(3) by (auto simp: ch_pp_din_pos_update_def ch_pp_din_skip_to_end_def)
    from "1.IH" [OF p(1) [symmetric] refl True refl refl refl refl refl refl refl, of d'] "1.prems"(1,2) d'(1) le this
    obtain s' din' where l: "http_chunk_loop env (add_content_length is_req s ?len) ?b ?c ?din is_req = (0, s', din')"
      "chunk_result is_req mc d' (add_content_length is_req s ?len) ?b s'" "pp_unread din' = rest"
      by (auto simp: pp_unread_def)
    have "http_chunk_loop env s b chunk din is_req = (0, s', din')"
      using l(1) True by (subst http_chunk_loop.simps) (simp add: p(1) Let_def pp_unread_def)
    moreover have "chunk_result is_req mc d s b s'"
      by (rule chunk_result_step [OF l(2)]) (simp_all add: body_append_after "1.prems"(1) d'(2))
    ultimately show ?thesis using l(3) by blast
  next
    case False
    then show ?thesis using p(2,4) "1.prems"(2)
      by (subst http_chunk_loop.simps, subst p(1))
        (auto simp: Let_def http_codes chunk_result_def body_after_def)
  qed
qed

section \<open>A body in pieces\<close>

text \<open>The calls of \<^verbatim>\<open>_http_body_chunked_parse\<close> for the pieces of a stream, each the data of one input.\<close>

definition piece_input :: "bytes \<Rightarrow> ch_pp_data_input" where
  "piece_input d = ch_pp_din_init\<lparr>pp_data := d\<rparr>"

fun body_pieces :: "http_env \<Rightarrow> bool \<Rightarrow> bytes list \<Rightarrow> ch_http_session \<Rightarrow> (int \<times> ch_http_session) res" where
  "body_pieces env is_req [] s = Inr (0, s)"
| "body_pieces env is_req (d # ds) s =
     bind_res (http_body_chunked_parse env s (piece_input d) is_req) (\<lambda>(rc, s, din).
       if rc \<noteq> 0 then Inr (rc, s) else body_pieces env is_req ds s)"

text \<open>The body once it has a chunk.\<close>

definition body_ready :: "ch_http_session_body \<Rightarrow> ch_http_session_body" where
  "body_ready b = (if body_chunk b = None then b\<lparr>body_chunk := Some \<lparr>ck_size = 0, ck_length = 0, ck_st = ck_chunk_start\<rparr>\<rparr> else b)"

definition body_mc :: "ch_http_session_body \<Rightarrow> ck_machine" where
  "body_mc b = chunk_mc (the (body_chunk (body_ready b)))"

lemma chunk_init_ready: "mp sizeof_ch_http_chunked_t \<Longrightarrow> ch_http_session_body_chunk_init mp b = Inr (body_ready b)"
  by (simp add: ch_http_session_body_chunk_init_def body_ready_def)

lemma body_ready_facts: "body_file (body_ready b) = body_file b" "body_fname (body_ready b) = body_fname b"
  by (simp_all add: body_ready_def)

lemma body_pieces_run:
  assumes w: "(\<forall>f d. he_write env f d) \<and> he_pool env sizeof_ch_http_chunked_t" and "body_of is_req s = Some b" "case body_chunk b of None \<Rightarrow> True | Some c \<Rightarrow> ck_size c \<le> ck_limit"
    and "ck_run (concat ds) (body_mc b) [] = (mc, d, [])" "mc \<noteq> CK_bad" "\<forall>d \<in> set ds. d \<noteq> [] \<and> length d < 2 ^ 64"
  shows "\<exists>s' b'. body_pieces env is_req ds s = Inr (0, s') \<and> body_of is_req s' = Some b' \<and> body_after b d b' \<and>
    hs_phase s' = (if mc = CK_done \<and> ds \<noteq> [] then if is_req then PARSE_PHASE_STATUS_LINE else PARSE_PHASE_DONE else hs_phase s)"
  using assms
proof (induction ds arbitrary: s b d)
  case Nil
  then show ?case by (auto simp: body_after_def body_mc_def chunk_mc_def ck_mk_def)
next
  case (Cons d1 ds)
  let ?b = "body_ready b"
  let ?c = "the (body_chunk ?b)"
  have u: "pp_unread (piece_input d1) = d1" "pp_data (piece_input d1) = d1" by (simp_all add: piece_input_def pp_unread_def ch_pp_din_init_def)
  have sz: "ck_size ?c \<le> ck_limit" using Cons.prems(3) by (auto simp: body_ready_def split: option.splits)
  obtain m1 o1 r1 where r1: "ck_run d1 (body_mc b) [] = (m1, o1, r1)" by (cases "ck_run d1 (body_mc b) []")
  have m1: "m1 \<noteq> CK_bad" using ck_run_bad_append [of d1 "body_mc b" "[]" o1 r1 "concat ds"] r1 Cons.prems(4,5) by auto
  obtain s1 din1 where l: "http_chunk_loop env s ?b ?c (piece_input d1) is_req = (0, s1, din1)" "chunk_result is_req m1 o1 s ?b s1"
    using http_chunk_loop_run [of env m1 "piece_input d1" ?c o1 r1 s ?b is_req] Cons.prems(1,6) m1 r1 sz u by (auto simp: body_mc_def)
  then have p: "http_body_chunked_parse env s (piece_input d1) is_req = Inr (0, s1, din1)"
    using Cons.prems(1,2) by (simp add: http_body_chunked_parse_def chunk_init_ready)
  obtain b1 c1 where b1: "body_of is_req s1 = Some b1" "body_after b o1 b1" "body_chunk b1 = Some c1" "ck_size c1 \<le> ck_limit"
    "if m1 = CK_done then hs_phase s1 = (if is_req then PARSE_PHASE_STATUS_LINE else PARSE_PHASE_DONE) else chunk_mc c1 = m1 \<and> hs_phase s1 = hs_phase s"
    using l(2) by (auto simp: chunk_result_def body_after_def body_ready_facts)
  show ?case
  proof (cases m1)
    case (CK_on st sz)
    have "body_mc b1 = m1" using b1(3,5) CK_on by (simp add: body_mc_def body_ready_def)
    moreover have "ck_run (concat ds) m1 o1 = (mc, d, [])" using ck_run_append [of d1 "body_mc b" "[]" st sz o1 r1] r1 CK_on Cons.prems(4) by simp
    then obtain d2 where "ck_run (concat ds) m1 [] = (mc, d2, [])" "d = o1 @ d2"
      using ck_run_acc [of "concat ds" m1 o1 "[]"] by (auto split: prod.splits)
    ultimately show ?thesis
      using Cons.IH [of s1 b1 d2] Cons.prems(1,5,6) b1 CK_on p body_after_trans [OF b1(2)] by (auto split: if_splits)
  next
    case CK_done
    have "ck_run (concat (d1 # ds)) (body_mc b) [] = (CK_done, o1, r1 @ concat ds)" using ck_run_done_append [OF r1 [unfolded CK_done]] by simp
    then have "mc = CK_done" "d = o1" "ds = []" using Cons.prems(4,6) by (auto simp: neq_Nil_conv)
    then show ?thesis using p b1 CK_done by simp
  qed (use m1 in simp)
qed

section \<open>What senders write\<close>

definition hex_char :: "nat \<Rightarrow> u8" where
  "hex_char n = (if n < 10 then 48 + of_nat n else 87 + of_nat n)"

fun hex_digits :: "nat \<Rightarrow> bytes" where
  "hex_digits n = (if n < 16 then [hex_char n] else hex_digits (n div 16) @ [hex_char (n mod 16)])"

declare hex_digits.simps [simp del]

definition chunk_bytes :: "bytes \<Rightarrow> bytes" where
  "chunk_bytes d = hex_digits (length d) @ [CR, LF] @ d @ [CR, LF]"

definition chunked_bytes :: "bytes list \<Rightarrow> bytes" where
  "chunked_bytes ds = concat (map chunk_bytes ds) @ [48, CR, LF, CR, LF]"

lemma hex_char_values:
  "\<forall>n \<in> set [0..<16]. if digit (hex_char n) then ucast (hex_char n - 48) = (of_nat n :: u64)
     else hex_letter (hex_char n) \<and> ucast ((hex_char n OR 0x20) - 97) + 10 = (of_nat n :: u64)"
  by code_simp

lemma hex_char_step:
  assumes "n < 16"
  shows "chunk_step (hex_char n) ck_chunk_start z = C_next ck_chunk_size (of_nat n)"
    and "z \<le> CH_MAX_OFF_T_VALUE div 16 \<Longrightarrow> chunk_step (hex_char n) ck_chunk_size z = C_next ck_chunk_size (z * 16 + of_nat n)"
proof -
  have "if digit (hex_char n) then ucast (hex_char n - 48) = (of_nat n :: u64)
     else hex_letter (hex_char n) \<and> ucast ((hex_char n OR 0x20) - 97) + 10 = (of_nat n :: u64)"
    using hex_char_values assms by (metis atLeastLessThan_iff le0 set_upt)
  then show "chunk_step (hex_char n) ck_chunk_start z = C_next ck_chunk_size (of_nat n)"
    and "z \<le> CH_MAX_OFF_T_VALUE div 16 \<Longrightarrow> chunk_step (hex_char n) ck_chunk_size z = C_next ck_chunk_size (z * 16 + of_nat n)"
    by (simp_all add: chunk_step_def split: if_splits)
qed

lemma of_nat_le_u64: "n \<le> unat k \<Longrightarrow> (of_nat n :: u64) \<le> k"
  by (simp add: word_le_nat_alt unat_of_nat)

lemma ck_hex:
  assumes "n < 2 ^ 59"
  shows "ck_run (hex_digits n @ rest) (CK_on ck_chunk_start z) acc = ck_run rest (CK_on ck_chunk_size (of_nat n)) acc"
  using assms
proof (induction n arbitrary: rest rule: hex_digits.induct)
  case (1 n)
  have lim: "(of_nat n :: u64) \<le> ck_limit" using 1(2) by (intro of_nat_le_u64) (simp add: CH_MAX_OFF_T_VALUE_def)
  show ?case
  proof (cases "n < 16")
    case True
    then show ?thesis using lim by (subst hex_digits.simps) (simp add: ck_byte_def hex_char_step(1) ck_mk_def not_less [symmetric])
  next
    case False
    have d: "(of_nat (n div 16) :: u64) \<le> CH_MAX_OFF_T_VALUE div 16"
      using 1(2) by (intro of_nat_le_u64) (simp add: CH_MAX_OFF_T_VALUE_def)
    have "of_nat (n div 16) * 16 + of_nat (n mod 16) = (of_nat n :: u64)"
      by (metis div_mult_mod_eq of_nat_add of_nat_mult of_nat_numeral)
    then have "ck_byte ck_chunk_size (of_nat (n div 16)) (hex_char (n mod 16)) = (CK_on ck_chunk_size (of_nat n), [])"
      using hex_char_step(2) [OF _ d, of "n mod 16"] lim by (simp add: ck_byte_def ck_mk_def not_less [symmetric])
    then show ?thesis using 1(1) [OF False, of "hex_char (n mod 16) # rest"] 1(2) False by (subst hex_digits.simps) simp
  qed
qed

lemma ck_chunk:
  assumes "d \<noteq> []" "length d < 2 ^ 59"
  shows "ck_run (chunk_bytes d @ rest) (CK_on ck_chunk_start z) acc = ck_run rest (CK_on ck_chunk_start 0) (acc @ d)"
proof -
  let ?n = "of_nat (length d) :: u64"
  have u: "unat ?n = length d" using assms(2) by (simp add: unat_of_nat)
  have n: "?n \<noteq> 0" using u assms(1) by (metis length_0_conv unat_0)
  have lim: "?n \<le> ck_limit" "?n \<le> CH_MAX_OFF_T_VALUE div 16" using assms(2) by (auto intro!: of_nat_le_u64 simp: CH_MAX_OFF_T_VALUE_def)
  have dig: "\<not> digit CR" "\<not> digit LF" "\<not> hex_letter CR" "\<not> hex_letter LF" by (simp_all add: digit_def hex_letter_def)
  have "ck_run (chunk_bytes d @ rest) (CK_on ck_chunk_start z) acc = ck_run ([CR, LF] @ d @ [CR, LF] @ rest) (CK_on ck_chunk_size ?n) acc"
    using ck_hex [OF assms(2), of "[CR, LF] @ d @ [CR, LF] @ rest"] by (simp add: chunk_bytes_def)
  also have "\<dots> = ck_run (d @ [CR, LF] @ rest) (ck_mk ck_chunk_data ?n) acc"
    using lim n dig by (simp add: ck_byte_def chunk_step_def ck_mk_def not_less [symmetric])
  also have "\<dots> = ck_run ([CR, LF] @ rest) (CK_on ck_after_data 0) (acc @ d)"
    using ck_run_data [of "length d" "d @ [CR, LF] @ rest" ?n acc] u by (simp add: ck_mk_def)
  also have "\<dots> = ck_run rest (CK_on ck_chunk_start 0) (acc @ d)"
    by (simp add: ck_byte_def chunk_step_def ck_mk_def CH_MAX_OFF_T_VALUE_def)
  finally show ?thesis .
qed

lemma ck_chunked:
  assumes "\<forall>d \<in> set ds. d \<noteq> [] \<and> length d < 2 ^ 59"
  shows "ck_run (chunked_bytes ds @ rest) (CK_on ck_chunk_start z) acc = (CK_done, acc @ concat ds, rest)"
  using assms
proof (induction ds arbitrary: z acc)
  case Nil
  then show ?case by (simp add: chunked_bytes_def ck_byte_def chunk_step_def ck_mk_def CH_MAX_OFF_T_VALUE_def digit_def hex_letter_def)
next
  case (Cons d ds)
  then show ?case using ck_chunk [of d "chunked_bytes ds @ rest"] by (simp add: chunked_bytes_def)
qed

section \<open>Properties\<close>

lemma chunked_body_at:
  assumes "\<And>f d. he_write env f d" "he_pool env sizeof_ch_http_chunked_t" "body_of is_req s = Some b" "body_chunk b = None"
    and "\<forall>d \<in> set ds. d \<noteq> [] \<and> length d < 2 ^ 59" "\<forall>p \<in> set pieces. p \<noteq> [] \<and> length p < 2 ^ 64" "concat pieces @ later = chunked_bytes ds"
  shows "\<exists>s' b' d'. body_pieces env is_req pieces s = Inr (0, s') \<and> body_of is_req s' = Some b' \<and> body_file b' = body_file b @ d' \<and>
    prefix d' (concat ds) \<and>
    (if later = [] then d' = concat ds \<and> hs_phase s' = (if is_req then PARSE_PHASE_STATUS_LINE else PARSE_PHASE_DONE)
     else hs_phase s' = hs_phase s)"
proof -
  have mc: "body_mc b = CK_on ck_chunk_start 0"
    using assms(4) by (simp add: body_mc_def body_ready_def chunk_mc_def ck_mk_def)
  have all: "ck_run (concat pieces @ later) (body_mc b) [] = (CK_done, concat ds, [])"
    using ck_chunked [OF assms(5), of "[]" 0 "[]"] by (simp add: assms(7) mc)
  obtain m1 d1 r1 where r: "ck_run (concat pieces) (body_mc b) [] = (m1, d1, r1)" by (cases "ck_run (concat pieces) (body_mc b) []")
  note run = body_pieces_run [OF _ assms(3), of env pieces m1 d1]
  show ?thesis
  proof (cases m1)
    case (CK_on st sz)
    have "ck_run later (CK_on st sz) d1 = (CK_done, concat ds, [])" using ck_run_append [OF r [unfolded CK_on]] all by simp
    moreover from this have "prefix d1 (concat ds)" using ck_run_acc [of later "CK_on st sz" d1 "[]"] by (auto split: prod.splits)
    ultimately show ?thesis using run assms(1,2) r CK_on assms(4,6) ck_run_on_rest [OF r [unfolded CK_on]]
      by (cases later) (auto simp: body_after_def)
  next
    case CK_done
    have "r1 = []" "later = []" "d1 = concat ds" using ck_run_done_append [OF r [unfolded CK_done], of later] all by auto
    moreover from this have "pieces \<noteq> []" using r CK_done mc by auto
    ultimately show ?thesis using run assms(1,2) r CK_done assms(4,6) by (auto simp: body_after_def)
  next
    case CK_bad
    then show ?thesis using ck_run_bad_append [OF r [unfolded CK_bad], of later] all by simp
  qed
qed

text \<open>
  C12. A chunked body is decoded whatever pieces it comes in: the chunks \<open>ds\<close>, encoded as senders do and cut
  into pieces that are not empty, are the body that is written to the file, and the session goes on to what follows the body
  after the last piece and not before. The memory for the state of the decoding, which the first piece takes from the pool, is used
  without a test: without it the first piece is a fault.
\<close>

theorem http_chunked_body_any_pieces:
  assumes "\<And>f d. he_write env f d" "body_of is_req s = Some b" "body_chunk b = None"
    and "\<forall>d \<in> set ds. d \<noteq> [] \<and> length d < 2 ^ 59" "\<forall>p \<in> set pieces. p \<noteq> [] \<and> length p < 2 ^ 64" "concat pieces @ later = chunked_bytes ds"
  shows "if he_pool env sizeof_ch_http_chunked_t then
     \<exists>s' b' d'. body_pieces env is_req pieces s = Inr (0, s') \<and> body_of is_req s' = Some b' \<and> body_file b' = body_file b @ d' \<and>
       prefix d' (concat ds) \<and>
       (if later = [] then d' = concat ds \<and> hs_phase s' = (if is_req then PARSE_PHASE_STATUS_LINE else PARSE_PHASE_DONE)
        else hs_phase s' = hs_phase s)
   else body_pieces env is_req pieces s = (if pieces = [] then Inr (0, s) else Inl Null_Deref)"
proof (cases "he_pool env sizeof_ch_http_chunked_t")
  case True
  from chunked_body_at [OF assms(1) True assms(2-6)] show ?thesis unfolding if_P [OF True] .
next
  case False
  with assms(2,3) show ?thesis by (cases pieces) (simp_all add: http_body_chunked_parse_def ch_http_session_body_chunk_init_def)
qed

text \<open>An environment in which everything succeeds.\<close>

definition sample_http_env :: http_env where
  "sample_http_env = \<lparr>he_dir = (\<lambda>_. True), he_fpath = (\<lambda>_. True), he_file = (\<lambda>n. Some ''body''), he_write = (\<lambda>_ _. True), he_mal = (\<lambda>_. True),
     he_pool = (\<lambda>_. True), he_session = True, he_accept = (\<lambda>_ _. Inr True), he_stack = (0, 0)\<rparr>"

definition sample_body :: ch_http_session_body where
  "sample_body = \<lparr>body_file = [], body_saved = False, body_fname = ''body'', body_chunk = None, body_len = 0, body_len_accepted = 0\<rparr>"

theorem http_chunked_body_any_pieces_witness:
  "\<exists>s' b'. body_pieces sample_http_env True [[50, CR], [LF, 104], [105, CR, LF, 48, CR, LF, CR], [LF]] (ch_http_session_create\<lparr>req_body := Some sample_body\<rparr>) =
     Inr (0, s') \<and> body_of True s' = Some b' \<and> body_file b' = [104, 105] \<and> hs_phase s' = PARSE_PHASE_STATUS_LINE"
  using http_chunked_body_any_pieces [of sample_http_env True "ch_http_session_create\<lparr>req_body := Some sample_body\<rparr>" sample_body "[[104, 105]]"
      "[[50, CR], [LF, 104], [105, CR, LF, 48, CR, LF, CR], [LF]]" "[]"]
  by (auto simp: sample_http_env_def sample_body_def body_of_def chunked_bytes_def chunk_bytes_def hex_digits.simps hex_char_def)

end
