(* ===== verification/Http_Stream.thy ===== *)
theory Http_Stream
  imports Http_App Http_Text Http_Chunk
begin

text \<open>
  What the HTTP application makes of streams. A stream of requests is read the same however TCP cuts it into pieces;
  every call on any data returns and reads no memory it must not; a record of a session is complete; and where the code does not
  do what it means to.
\<close>

section \<open>Requests without a body\<close>

record http_request =
  rq_method :: bytes
  rq_uri :: bytes
  rq_headers :: "(bytes \<times> bytes) list"

text \<open>The headers that announce a body.\<close>

definition plain_header :: "bytes \<times> bytes \<Rightarrow> bool" where
  "plain_header h \<longleftrightarrow> header_name_ok (fst h) \<and> header_value_ok (snd h) \<and> \<not> strcasecmp_eq (c_string_of (fst h)) ''Content-Length'' \<and>
     \<not> strcasecmp_eq (c_string_of (fst h)) ''Transfer-Encoding''"

definition plain_request :: "http_request \<Rightarrow> bool" where
  "plain_request r \<longleftrightarrow> method_ok (rq_method r) \<and> uri_ok (rq_uri r) \<and> (\<forall>h \<in> set (rq_headers r). plain_header h)"

definition header_line :: "bytes \<times> bytes \<Rightarrow> bytes" where
  "header_line h = header_line_bytes (fst h) (snd h)"

definition header_text :: "bytes \<times> bytes \<Rightarrow> ch_table_elt" where
  "header_text h = (c_string_of (fst h), c_string_of (snd h))"

definition request_lines :: "http_request \<Rightarrow> bytes list" where
  "request_lines r = request_line_bytes (rq_method r) (rq_uri r) # map header_line (rq_headers r) @ [[CR, LF]]"

definition request_bytes :: "http_request \<Rightarrow> bytes" where
  "request_bytes r = concat (request_lines r)"

text \<open>What a session has of the request it was read from.\<close>

definition no_body :: "ch_http_session \<Rightarrow> bool" where
  "no_body s \<longleftrightarrow> hi_content_length_n (headers_in s) = 0 \<and> \<not> hi_chunked (headers_in s) \<and> \<not> is_pass s \<and> headers_out s = http_headers_out_init"

definition line_seen :: "http_request \<Rightarrow> (bytes \<times> bytes) list \<Rightarrow> ch_http_session \<Rightarrow> bool" where
  "line_seen r hs s \<longleftrightarrow> hs_method s = Some (c_string_of (rq_method r)) \<and> hs_uri s = Some (c_string_of (rq_uri r)) \<and>
     http_version s = CH_HTTP_VERSION_11 \<and> hi_headers (headers_in s) = rev (map header_text hs) \<and> in_headers_n s = of_nat (length hs) \<and> no_body s"

definition request_seen :: "http_request \<Rightarrow> ch_http_session \<Rightarrow> bool" where
  "request_seen r s \<longleftrightarrow> line_seen r (rq_headers r) s \<and> hs_phase s = PARSE_PHASE_STATUS_LINE"

text \<open>How far a request has been read.\<close>

datatype progress = P_idle | P_line http_request | P_head http_request "(bytes \<times> bytes) list"

fun progress_lines :: "progress \<Rightarrow> bytes list" where
  "progress_lines P_idle = []"
| "progress_lines (P_line r) = request_lines r"
| "progress_lines (P_head r hs) = map header_line hs @ [[CR, LF]]"

fun progress_request :: "progress \<Rightarrow> http_request list" where
  "progress_request P_idle = []"
| "progress_request (P_line r) = [r]"
| "progress_request (P_head r hs) = [r]"

definition fresh :: "ch_http_session \<Rightarrow> bool" where
  "fresh s \<longleftrightarrow> hs_phase s = PARSE_PHASE_REQ_LINE \<and> hi_headers (headers_in s) = [] \<and> in_headers_n s = 0 \<and> no_body s"

fun session_at :: "progress \<Rightarrow> ch_http_session \<Rightarrow> bool" where
  "session_at P_idle s \<longleftrightarrow> fresh s"
| "session_at (P_line r) s \<longleftrightarrow> plain_request r \<and> fresh s"
| "session_at (P_head r hs) s \<longleftrightarrow>
     (\<exists>seen. rq_headers r = seen @ hs \<and> plain_request r \<and> hs_phase s = PARSE_PHASE_REQ_HEADER \<and> line_seen r seen s)"

definition env_ok :: "http_env \<Rightarrow> bool" where
  "env_ok env \<longleftrightarrow> (\<forall>n. he_mal env n) \<and> (\<forall>n. he_pool env n) \<and> he_session env \<and> (\<forall>s b. he_accept env s b = Inr True)"

lemma fresh_create: "fresh ch_http_session_create"
  by (simp add: fresh_def no_body_def ch_http_session_create_def http_headers_in_init_def)

section \<open>One line\<close>

definition is_line :: "bytes \<Rightarrow> bool" where
  "is_line l \<longleftrightarrow> (\<exists>b. l = b @ [LF] \<and> LF \<notin> set b)"

lemma is_line_LF: "is_line l \<Longrightarrow> LF \<in> set l"
  by (auto simp: is_line_def)

lemma request_line_is_line: "method_ok m \<Longrightarrow> uri_ok u \<Longrightarrow> is_line (request_line_bytes m u)"
  unfolding is_line_def request_line_bytes_def method_ok_def uri_ok_def
  by (intro exI [of _ "m @ [32] @ u @ [32, 72, 84, 84, 80, 47, 49, 46, 49, CR]"]) (auto dest!: upper_facts)

lemma header_line_is_line: "plain_header h \<Longrightarrow> is_line (header_line h)"
  unfolding is_line_def header_line_def header_line_bytes_def plain_header_def header_name_ok_def header_value_ok_def
  by (intro exI [of _ "fst h @ [58, 32] @ snd h @ [CR]"]) auto

lemma lines_are_lines: "session_at p s \<Longrightarrow> l \<in> set (progress_lines p) \<Longrightarrow> is_line l"
  by (cases p)
    (auto simp: request_lines_def plain_request_def intro!: request_line_is_line header_line_is_line, auto simp: is_line_def)

text \<open>Reading a line.\<close>

lemma read_line:
  assumes "is_line l" "pp_unread din = l @ later"
  shows "\<exists>b din'. l = b @ [LF] \<and> ch_pp_data_input_line_read din = Some (\<lparr>ln_line = l, ln_len = length (strip_cr b)\<rparr>, din') \<and> pp_unread din' = later"
proof -
  obtain b where b: "l = b @ [LF]" "LF \<notin> set b" using assms(1) by (auto simp: is_line_def)
  then show ?thesis using line_read_at [of din b later] assms(2) by auto
qed

lemma with_header_seen:
  assumes "line_seen r seen s" "plain_header h"
  shows "line_seen r (seen @ [h]) (with_header s (c_string_of (fst h)) (c_string_of (snd h)))"
    "hs_phase (with_header s (c_string_of (fst h)) (c_string_of (snd h))) = hs_phase s"
  using assms
  by (auto simp: line_seen_def no_body_def with_header_def http_request_header_index_set_def header_text_def plain_header_def Let_def)

lemma blank_line: "is_line [CR, LF]"
  by (simp add: is_line_def)

lemma strip_cr_line: "b @ [LF] = x @ [CR, LF] \<Longrightarrow> strip_cr b = x"
  by (auto simp: strip_cr_def append_eq_append_conv2 append_eq_Cons_conv Cons_eq_append_conv)

text \<open>A round of the loop that reads the next line of a request.\<close>

lemma request_iter_line:
  assumes "env_ok env" "session_at p s" "progress_lines p = l # ls" "pp_unread din = l @ later"
  shows "\<exists>din' s'. http_request_iter env din s e w = Inr (H_go din' s' e w) \<and> pp_unread din' = later \<and>
    (if ls = [] then \<exists>r. progress_request p = [r] \<and> request_seen r s'
     else \<exists>p'. progress_lines p' = ls \<and> progress_request p' = progress_request p \<and> session_at p' s')"
proof -
  have "is_line l" using lines_are_lines [OF assms(2)] assms(3) by simp
  then obtain b din' where l: "l = b @ [LF]" "ch_pp_data_input_line_read din = Some (\<lparr>ln_line = l, ln_len = length (strip_cr b)\<rparr>, din')"
    "pp_unread din' = later" using read_line [OF _ assms(4)] by blast
  show ?thesis
  proof (cases p)
    case P_idle
    then show ?thesis using assms(3) by simp
  next
    case (P_line r)
    have r: "plain_request r" "fresh s" "l = request_line_bytes (rq_method r) (rq_uri r)" "ls = map header_line (rq_headers r) @ [[CR, LF]]"
      using P_line assms(2,3) by (auto simp: request_lines_def)
    let ?s = "s\<lparr>hs_method := Some (c_string_of (rq_method r)), http_version := CH_HTTP_VERSION_11, hs_uri := Some (c_string_of (rq_uri r)),
      hs_phase := PARSE_PHASE_REQ_HEADER\<rparr>"
    have "http_request_iter env din s e w = Inr (H_go din' ?s e w)"
      using l(2) r http_request_line_at [of env "rq_method r" "rq_uri r" s "length (strip_cr b)"] assms(1)
      by (simp add: http_request_iter_def fresh_def plain_request_def env_ok_def)
    moreover have "session_at (P_head r (rq_headers r)) ?s" using r(1,2) by (simp add: line_seen_def fresh_def no_body_def)
    ultimately show ?thesis using l(3) r(4) P_line by (auto intro!: exI [of _ "P_head r (rq_headers r)"])
  next
    case (P_head r hs)
    obtain seen where s: "rq_headers r = seen @ hs" "plain_request r" "hs_phase s = PARSE_PHASE_REQ_HEADER" "line_seen r seen s"
      using P_head assms(2) by auto
    show ?thesis
    proof (cases hs)
      case Nil
      then have ll: "l = [CR, LF]" "ls = []" using P_head assms(3) by auto
      then have "strip_cr b = []" using l(1) strip_cr_line [of b "[]"] by simp
      moreover have "\<not> HAS_BODY s True" using s(4) by (simp add: HAS_BODY_def line_seen_def no_body_def)
      ultimately have "http_request_iter env din s e w = Inr (H_go din' (s\<lparr>hs_phase := PARSE_PHASE_STATUS_LINE\<rparr>) e w)"
        using l(2) s(3) assms(1) by (simp add: http_request_iter_def HEADER_END_STATE_SET_def env_ok_def)
      moreover have "request_seen r (s\<lparr>hs_phase := PARSE_PHASE_STATUS_LINE\<rparr>)"
        using s(1,4) Nil by (simp add: request_seen_def line_seen_def no_body_def)
      ultimately show ?thesis using l(3) ll(2) P_head by auto
    next
      case (Cons h hs')
      have h: "plain_header h" using s(1,2) Cons by (auto simp: plain_request_def)
      have ll: "l = header_line h" "ls = map header_line hs' @ [[CR, LF]]" using P_head assms(3) Cons by auto
      then have "strip_cr b = fst h @ [58, 32] @ snd h" using l(1) strip_cr_line [of b "fst h @ [58, 32] @ snd h"]
        by (simp add: header_line_def header_line_bytes_def)
      then have "ln_len \<lparr>ln_line = l, ln_len = length (strip_cr b)\<rparr> \<noteq> 0" by simp
      then have "http_request_iter env din s e w = Inr (H_go din' (with_header s (c_string_of (fst h)) (c_string_of (snd h))) e w)"
        using l(2) s(3) h ll(1) http_header_at [of env "fst h" "snd h" s "length (strip_cr b)"] assms(1)
        by (simp add: http_request_iter_def header_line_def plain_header_def env_ok_def)
      moreover have "session_at (P_head r hs') (with_header s (c_string_of (fst h)) (c_string_of (snd h)))"
        using with_header_seen [OF s(4) h] s(1-3) Cons by auto
      ultimately show ?thesis using l(3) ll(2) P_head by (auto intro!: exI [of _ "P_head r hs'"])
    qed
  qed
qed

section \<open>The lines of one call\<close>

fun next_progress :: "http_request list \<Rightarrow> progress" where
  "next_progress [] = P_idle"
| "next_progress (r # rs) = P_line r"

definition work :: "progress \<Rightarrow> http_request list \<Rightarrow> bytes list" where
  "work p rs = progress_lines p @ concat (map request_lines rs)"

text \<open>The entry after the requests \<open>ds\<close>, in the middle of \<open>p\<close>, before the requests \<open>rs\<close>.\<close>

definition entry_at :: "http_request list \<Rightarrow> progress \<Rightarrow> http_request list \<Rightarrow> ch_http_session_entry \<Rightarrow> bool" where
  "entry_at ds p rs e \<longleftrightarrow> list_all2 request_seen ds (reqs e) \<and> (\<forall>r \<in> set rs. plain_request r) \<and> (p = P_idle \<longrightarrow> rs = []) \<and>
     (case cur_req e of None \<Rightarrow> session_at p ch_http_session_create | Some s \<Rightarrow> session_at p s)"

lemma next_facts:
  assumes "\<forall>r \<in> set rs. plain_request r" "fresh s"
  shows "session_at (next_progress rs) s" "work (next_progress rs) (tl rs) = concat (map request_lines rs)"
    "progress_request (next_progress rs) @ tl rs = rs" "next_progress rs = P_idle \<longrightarrow> tl rs = []"
  using assms by (cases rs; simp add: work_def)+

lemma session_at_phase: "session_at p s \<Longrightarrow> hs_phase s = PARSE_PHASE_REQ_LINE \<or> hs_phase s = PARSE_PHASE_REQ_HEADER"
  by (cases p) (auto simp: fresh_def)

lemma progress_lines_Nil: "progress_lines p = [] \<longleftrightarrow> p = P_idle"
  by (cases p) (auto simp: request_lines_def)

lemma request_loop_stop:
  assumes "session_at p s" "LF \<notin> set (pp_unread din)"
  shows "http_request_loop env din s e w = Inr (Some (PARSE_CONTINUE, din, put_req s e, w))"
  using session_at_phase [OF assms(1)] assms(2) line_read_None [of din]
  by (subst http_request_loop.simps) (auto simp: http_request_iter_def)

lemma work_lines:
  assumes "session_at p s" "\<forall>r \<in> set rs. plain_request r" "l \<in> set (work p rs)"
  shows "is_line l"
  using assms lines_are_lines [of p s l]
  by (auto simp: work_def request_lines_def plain_request_def intro: request_line_is_line header_line_is_line blank_line)

lemma concat_lines_Nil: "\<forall>l \<in> set ls. is_line l \<Longrightarrow> concat ls = [] \<longleftrightarrow> ls = []"
  by (cases ls) (auto simp: is_line_def)

text \<open>The loop after the last line of a request.\<close>

lemma request_loop_end:
  assumes "env_ok env" "request_seen r s"
  shows "http_request_loop env din s e w =
    (if pp_unread din = [] then Inr (Some (PARSE_CONTINUE, din, ch_http_sentry_session_add e s, w))
     else http_request_loop env din ch_http_session_create (e\<lparr>reqs := reqs e @ [s], cur_req := Some ch_http_session_create\<rparr>) w)"
  using assms
  by (subst http_request_loop.simps)
    (simp add: has_data_unread http_request_iter_def request_seen_def req_session_get_add env_ok_def Let_def)

text \<open>The loop over one line.\<close>

lemma request_loop_line:
  assumes "env_ok env" "session_at p s" "progress_lines p = l # ls" "pp_unread din = l @ later"
  shows "\<exists>din' s'. http_request_loop env din s e w = http_request_loop env din' s' e w \<and> pp_unread din' = later \<and>
    (if ls = [] then \<exists>r. progress_request p = [r] \<and> request_seen r s'
     else \<exists>p'. progress_lines p' = ls \<and> progress_request p' = progress_request p \<and> session_at p' s')"
proof -
  have "pp_unread din \<noteq> []" using lines_are_lines [OF assms(2), of l] assms(3,4) by (auto simp: is_line_def)
  moreover obtain din1 s1 where i: "http_request_iter env din s e w = Inr (H_go din1 s1 e w)" "pp_unread din1 = later"
    "if ls = [] then \<exists>r. progress_request p = [r] \<and> request_seen r s1
     else \<exists>p'. progress_lines p' = ls \<and> progress_request p' = progress_request p \<and> session_at p' s1"
    using request_iter_line [OF assms] by blast
  ultimately have "http_request_loop env din s e w = http_request_loop env din1 s1 e w"
    by (subst http_request_loop.simps) (simp add: has_data_unread)
  with i show ?thesis by (intro exI [of _ din1] exI [of _ s1] conjI)
qed

definition loop_reaches :: "http_env \<Rightarrow> ch_pp_data_input \<Rightarrow> ch_http_session \<Rightarrow> ch_http_session_entry \<Rightarrow> http_world \<Rightarrow> bytes \<Rightarrow> bytes list \<Rightarrow>
    http_request list \<Rightarrow> bool"
where
  "loop_reaches env din s e w rest later all \<longleftrightarrow>
     (\<exists>din' e' ds p rs. http_request_loop env din s e w = Inr (Some (PARSE_CONTINUE, din', e', w)) \<and> pp_unread din' = rest \<and>
       cur_req_din e' = cur_req_din e \<and> entry_at ds p rs e' \<and> work p rs = later \<and> ds @ progress_request p @ rs = all)"

lemma loop_reachesI:
  "http_request_loop env din s e w = Inr (Some (PARSE_CONTINUE, din', e', w)) \<Longrightarrow> pp_unread din' = rest \<Longrightarrow>
   cur_req_din e' = cur_req_din e \<Longrightarrow> entry_at ds p rs e' \<Longrightarrow> work p rs = later \<Longrightarrow> ds @ progress_request p @ rs = all \<Longrightarrow>
   loop_reaches env din s e w rest later all"
  unfolding loop_reaches_def by blast

lemma loop_reaches_cong:
  "http_request_loop env din s e w = http_request_loop env din1 s1 e1 w \<Longrightarrow> cur_req_din e = cur_req_din e1 \<Longrightarrow>
   loop_reaches env din1 s1 e1 w rest later all \<Longrightarrow> loop_reaches env din s e w rest later all"
  by (simp add: loop_reaches_def)

lemma request_loop_lines:
  assumes "env_ok env" "session_at p s" "\<forall>r \<in> set rs. plain_request r" "p = P_idle \<longrightarrow> rs = []" "list_all2 request_seen ds (reqs e)"
    and "work p rs = ls @ later" "pp_unread din = concat ls @ rest" "LF \<notin> set rest"
  shows "loop_reaches env din s e w rest later (ds @ progress_request p @ rs)"
  using assms
proof (induction ls arbitrary: p s rs ds e din)
  case Nil
  then show ?case by (intro loop_reachesI [OF request_loop_stop [OF Nil.prems(2)]]) (auto simp: entry_at_def)
next
  case (Cons l ls)
  have "progress_lines p \<noteq> []" using Cons.prems(4,6) by (auto simp: work_def progress_lines_Nil)
  then obtain lp where lp: "progress_lines p = l # lp" "ls @ later = lp @ concat (map request_lines rs)"
    using Cons.prems(6) by (cases "progress_lines p") (auto simp: work_def)
  have d: "pp_unread din = l @ concat ls @ rest" using Cons.prems(7) by simp
  obtain din1 s1 where i: "http_request_loop env din s e w = http_request_loop env din1 s1 e w" "pp_unread din1 = concat ls @ rest"
    "if lp = [] then \<exists>r. progress_request p = [r] \<and> request_seen r s1
     else \<exists>p'. progress_lines p' = lp \<and> progress_request p' = progress_request p \<and> session_at p' s1"
    using request_loop_line [OF Cons.prems(1,2) lp(1) d] by blast
  show ?case
  proof (cases "lp = []")
    case False
    then obtain p1 where p1: "progress_lines p1 = lp" "progress_request p1 = progress_request p" "session_at p1 s1" using i(3) by auto
    have "p1 = P_idle \<longrightarrow> rs = []" "work p1 rs = ls @ later" using False p1(1) lp(2) by (auto simp: work_def)
    from Cons.IH [OF Cons.prems(1) p1(3) Cons.prems(3) this(1) Cons.prems(5) this(2) i(2) Cons.prems(8)]
    show ?thesis using p1(2) by (intro loop_reaches_cong [OF i(1)]) simp_all
  next
    case True
    then obtain r where r: "progress_request p = [r]" "request_seen r s1" using i(3) by auto
    note n = next_facts [OF Cons.prems(3) fresh_create]
    have ws: "work (next_progress rs) (tl rs) = ls @ later" using n(2) lp(2) True by simp
    have plain: "\<forall>r \<in> set (tl rs). plain_request r" using Cons.prems(3) by (auto dest: in_set_tlD)
    have nil: "concat ls = [] \<longleftrightarrow> ls = []" using concat_lines_Nil [of ls] work_lines [OF n(1) plain] ws by auto
    have eq: "ds @ progress_request p @ rs = (ds @ [r]) @ progress_request (next_progress rs) @ tl rs" using n(3) r(1) by simp
    have seen: "list_all2 request_seen (ds @ [r]) (reqs e @ [s1])" using Cons.prems(5) r(2) by (auto intro: list_all2_appendI)
    note l2 = request_loop_end [OF Cons.prems(1) r(2), of din1 e w]
    show ?thesis
    proof (cases "pp_unread din1 = []")
      case True
      then show ?thesis using seen plain n(1,4) i ws nil unfolding eq
        by (intro loop_reachesI [of _ _ _ _ _ din1 "ch_http_sentry_session_add e s1"])
          (auto simp: l2 entry_at_def ch_http_sentry_session_add_def)
    next
      case False
      then show ?thesis unfolding eq
        by (intro loop_reaches_cong [OF i(1) refl] loop_reaches_cong [OF l2 [unfolded if_not_P [OF False]]]
            Cons.IH [OF Cons.prems(1) n(1) plain n(4) _ ws i(2) Cons.prems(8)]) (simp_all add: seen)
    qed
  qed
qed

section \<open>The calls for the pieces of a stream\<close>

lemma cut_lines:
  assumes "\<forall>l \<in> set ws. is_line l" "x @ y = concat ws"
  shows "\<exists>ls later rest. ws = ls @ later \<and> x = concat ls @ rest \<and> LF \<notin> set rest \<and> rest @ y = concat later"
  using assms
proof (induction ws arbitrary: x)
  case (Cons l ws)
  from Cons.prems(2) have "\<exists>us. x = l @ us \<and> us @ y = concat ws \<or> x @ us = l \<and> y = us @ concat ws"
    by (simp add: append_eq_append_conv2)
  then obtain us where "x = l @ us \<and> us @ y = concat ws \<or> x @ us = l \<and> y = us @ concat ws" by blast
  then consider us where "x = l @ us" "us @ y = concat ws" | us where "l = x @ us" "us \<noteq> []" "y = us @ concat ws"
    by (cases "us = []") auto
  then show ?case
  proof cases
    case us: (1 us)
    then obtain ls later rest where "ws = ls @ later" "us = concat ls @ rest" "LF \<notin> set rest" "rest @ y = concat later"
      using Cons.IH [of us] Cons.prems(1) by auto
    then show ?thesis using us by (intro exI [of _ "l # ls"] exI [of _ later] exI [of _ rest]) simp
  next
    case us: (2 us)
    obtain b where "l = b @ [LF]" "LF \<notin> set b" using Cons.prems(1) by (auto simp: is_line_def)
    then have "b = x @ butlast us" using us by (metis butlast_append butlast_snoc)
    then have "LF \<notin> set x" using \<open>LF \<notin> set b\<close> by simp
    then show ?thesis using us by (intro exI [of _ "[]"] exI [of _ "l # ws"] exI [of _ x]) simp
  qed
qed simp

lemma session_at_psEntry [simp]: "session_at p (s\<lparr>psEntry := x\<rparr>) \<longleftrightarrow> session_at p s"
  by (cases p) (simp_all add: fresh_def no_body_def line_seen_def)

lemma request_call:
  assumes env: "env_ok env" and e: "entry_at ds p rs e"
    and left: "pp_left (cur_req_din e) @ data @ future = concat (work p rs)"
  shows "\<exists>bf e' ds' p' rs'. do_http_request_parse env e w data = Inr (Some (PARSE_CONTINUE, e', w\<lparr>hw_buffer := bf\<rparr>)) \<and> entry_at ds' p' rs' e' \<and>
    pp_left (cur_req_din e') @ future = concat (work p' rs') \<and> LF \<notin> set (pp_left (cur_req_din e')) \<and> ds' @ progress_request p' @ rs' = ds @ progress_request p @ rs"
proof -
  obtain s e1 where g: "req_session_get env e = (Some s, e1)" "session_at p s" "reqs e1 = reqs e" "cur_req_din e1 = cur_req_din e"
    using e env by (auto simp: req_session_get_def entry_at_def env_ok_def Let_def split: option.splits)
  let ?s = "s\<lparr>psEntry := ch_proto_session_entry_update (psEntry s) (length data) True\<rparr>"
  have mal: "he_mal env n" "he_pool env n" for n using env by (simp_all add: env_ok_def)
  obtain bf din where pre: "ch_pp_din_read_prefare (he_mal env) (hw_buffer w) (cur_req_din e1) data = (0, bf, din)"
    "pp_unread din = pp_left (cur_req_din e) @ data"
    using read_prefare_ok [of "he_mal env" "hw_buffer w" "cur_req_din e1" data] mal g(4) by auto
  have ok: "\<forall>r \<in> set rs. plain_request r" "p = P_idle \<longrightarrow> rs = []" "list_all2 request_seen ds (reqs e1)"
    using e g(3) by (auto simp: entry_at_def)
  obtain ls later rest where cut: "work p rs = ls @ later" "pp_unread din = concat ls @ rest" "LF \<notin> set rest" "rest @ future = concat later"
    using cut_lines [of "work p rs" "pp_unread din" future] work_lines [OF g(2) ok(1)] left pre(2) by auto
  obtain din' e' ds' p' rs' where l: "http_request_loop env din ?s e1 (w\<lparr>hw_buffer := bf\<rparr>) = Inr (Some (PARSE_CONTINUE, din', e', w\<lparr>hw_buffer := bf\<rparr>))"
    "pp_unread din' = rest" "entry_at ds' p' rs' e'" "work p' rs' = later" "ds' @ progress_request p' @ rs' = ds @ progress_request p @ rs"
    using request_loop_lines [OF env _ ok cut(1-3), of ?s "w\<lparr>hw_buffer := bf\<rparr>"] g(2) by (auto simp: loop_reaches_def)
  obtain din2 where fin: "ch_pp_din_read_end (he_pool env) din' = (0, din2)" "pp_left din2 = rest"
    using read_end_ok [of "he_pool env" din'] mal l(2) by auto
  have "do_http_request_parse env e w data = Inr (Some (PARSE_CONTINUE, e'\<lparr>cur_req_din := din2\<rparr>, w\<lparr>hw_buffer := bf\<rparr>))"
    using g(1) pre(1) l(1) fin(1) by (simp add: do_http_request_parse_def Let_def)
  moreover have "entry_at ds' p' rs' (e'\<lparr>cur_req_din := din2\<rparr>)" using l(3) by (simp add: entry_at_def)
  ultimately show ?thesis using fin(2) cut(3,4) l(4,5)
    by (intro exI [of _ bf] exI [of _ "e'\<lparr>cur_req_din := din2\<rparr>"] exI [of _ ds'] exI [of _ p'] exI [of _ rs'] conjI) simp_all
qed

text \<open>The calls one after the other; \<open>None\<close> when one does not ask to go on.\<close>

fun request_run :: "http_env \<Rightarrow> bytes list \<Rightarrow> ch_http_session_entry \<Rightarrow> http_world \<Rightarrow> (ch_http_session_entry \<times> http_world) option" where
  "request_run env [] e w = Some (e, w)"
| "request_run env (d # ds) e w =
     (case do_http_request_parse env e w d of
        Inr (Some (rc, e, w)) \<Rightarrow> if rc = PARSE_CONTINUE then request_run env ds e w else None
      | _ \<Rightarrow> None)"

lemma request_run_at:
  assumes "env_ok env" "entry_at ds p rs e" "pp_left (cur_req_din e) @ concat pieces @ future = concat (work p rs)"
    "LF \<notin> set (pp_left (cur_req_din e))"
  shows "\<exists>bf e' ds' p' rs'. request_run env pieces e w = Some (e', w\<lparr>hw_buffer := bf\<rparr>) \<and> entry_at ds' p' rs' e' \<and>
    pp_left (cur_req_din e') @ future = concat (work p' rs') \<and> LF \<notin> set (pp_left (cur_req_din e')) \<and> ds' @ progress_request p' @ rs' = ds @ progress_request p @ rs"
  using assms
proof (induction pieces arbitrary: ds p rs e w)
  case Nil
  then show ?case by (intro exI [of _ "hw_buffer w"] exI) auto
next
  case (Cons d pieces)
  obtain bf e1 ds1 p1 rs1 where c: "do_http_request_parse env e w d = Inr (Some (PARSE_CONTINUE, e1, w\<lparr>hw_buffer := bf\<rparr>))" "entry_at ds1 p1 rs1 e1"
    "pp_left (cur_req_din e1) @ concat pieces @ future = concat (work p1 rs1)" "LF \<notin> set (pp_left (cur_req_din e1))" "ds1 @ progress_request p1 @ rs1 = ds @ progress_request p @ rs"
    using request_call [OF Cons.prems(1,2), of d "concat pieces @ future" w] Cons.prems(3) by auto
  from Cons.IH [OF Cons.prems(1) c(2,3,4), of "w\<lparr>hw_buffer := bf\<rparr>"] show ?case using c(1,5) by auto
qed

text \<open>The requests whose bytes are all among the first \<open>n\<close> bytes of the stream.\<close>

fun complete_requests :: "http_request list \<Rightarrow> nat \<Rightarrow> http_request list" where
  "complete_requests [] n = []"
| "complete_requests (r # rs) n =
     (if length (request_bytes r) \<le> n then r # complete_requests rs (n - length (request_bytes r)) else [])"

lemma complete_requests_append:
  "complete_requests (ds @ rs) (length (concat (map request_bytes ds)) + k) = ds @ complete_requests rs k"
  by (induction ds) simp_all

lemma complete_requests_all: "complete_requests rs (length (concat (map request_bytes rs))) = rs"
  using complete_requests_append [of rs "[]" 0] by simp

lemma concat_request_lines: "concat (concat (map request_lines rs)) = concat (map request_bytes rs)"
  by (induction rs) (simp_all add: request_bytes_def)

text \<open>What has not been read of a request is the end of it.\<close>

lemma progress_suffix:
  "session_at p s \<Longrightarrow> p \<noteq> P_idle \<Longrightarrow> \<exists>r x. progress_request p = [r] \<and> request_bytes r = x @ concat (progress_lines p)"
  by (cases p) (auto simp: request_bytes_def request_lines_def)

lemma complete_requests_at:
  assumes "session_at p s" "p = P_idle \<longrightarrow> rs' = []" "left @ future = concat (work p rs')" "LF \<notin> set left"
    and "concat pieces @ future = concat (map request_bytes (ds @ progress_request p @ rs'))"
  shows "complete_requests (ds @ progress_request p @ rs') (length (concat pieces)) = ds"
proof (cases "p = P_idle")
  case True
  then show ?thesis using assms(2,3,5) complete_requests_all [of ds] by (simp add: work_def)
next
  case False
  then obtain r x where r: "progress_request p = [r]" "request_bytes r = x @ concat (progress_lines p)"
    using progress_suffix [OF assms(1)] by blast
  obtain l ls where l: "progress_lines p = l # ls" using False by (cases "progress_lines p") (simp_all add: progress_lines_Nil)
  have eq: "left @ future = concat (progress_lines p) @ concat (map request_bytes rs')"
    using assms(3) by (simp add: work_def concat_request_lines)
  have short: "length left < length l"
  proof (rule ccontr)
    assume "\<not> length left < length l"
    then have "l = take (length l) left" using arg_cong [OF eq, of "take (length l)"] l by simp
    then have "set l \<subseteq> set left" by (metis set_take_subset)
    then show False using lines_are_lines [OF assms(1), of l] assms(4) l is_line_LF by auto
  qed
  have len: "length left + length future = length (concat (progress_lines p)) + length (concat (map request_bytes rs'))"
    using arg_cong [OF eq, of length] by simp
  have "length (concat pieces) + length future =
      length (concat (map request_bytes ds)) + (length x + length (concat (progress_lines p))) + length (concat (map request_bytes rs'))"
    using arg_cong [OF assms(5), of length] r by simp
  then have n: "length (concat pieces) = length (concat (map request_bytes ds)) + (length x + length left)" using len by linarith
  have "\<not> length (request_bytes r) \<le> length x + length left" using r(2) l short by simp
  then show ?thesis unfolding n complete_requests_append using r(1) by simp
qed

lemma requests_at:
  assumes "env_ok env" "\<forall>r \<in> set rs. plain_request r" "concat pieces @ future = concat (map request_bytes rs)"
  shows "\<exists>e bf. request_run env pieces ch_http_sentry_init w = Some (e, w\<lparr>hw_buffer := bf\<rparr>) \<and>
    list_all2 request_seen (complete_requests rs (length (concat pieces))) (reqs e) \<and> (future = [] \<longrightarrow> pp_left (cur_req_din e) = [])"
proof -
  note n = next_facts [OF assms(2) fresh_create]
  have "entry_at [] (next_progress rs) (tl rs) ch_http_sentry_init"
    using n(1,4) assms(2) by (auto simp: entry_at_def ch_http_sentry_init_def dest: in_set_tlD)
  moreover have l: "pp_left (cur_req_din ch_http_sentry_init) = []"
    by (simp add: ch_http_sentry_init_def ch_pp_din_init_def pp_left_def)
  ultimately obtain bf e ds p rs' where r: "request_run env pieces ch_http_sentry_init w = Some (e, w\<lparr>hw_buffer := bf\<rparr>)" "entry_at ds p rs' e"
    "pp_left (cur_req_din e) @ future = concat (work p rs')" "LF \<notin> set (pp_left (cur_req_din e))" "ds @ progress_request p @ rs' = rs"
    using request_run_at [OF assms(1), of "[]" "next_progress rs" "tl rs" ch_http_sentry_init pieces future w] n(2,3) assms(3) concat_request_lines
    by auto
  obtain s where s: "session_at p s" "\<forall>r \<in> set rs'. plain_request r" "p = P_idle \<longrightarrow> rs' = []" "list_all2 request_seen ds (reqs e)"
    using r(2) by (auto simp: entry_at_def split: option.splits)
  have "complete_requests rs (length (concat pieces)) = ds"
    using complete_requests_at [OF s(1,3) r(3,4), of pieces ds] assms(3) by (simp only: r(5))
  moreover have "pp_left (cur_req_din e) = []" if "future = []"
    using work_lines [OF s(1,2)] r(3,4) that by (cases "work p rs'") (auto dest: is_line_LF)
  ultimately show ?thesis using r(1) s(4) by auto
qed

section \<open>Properties\<close>


text \<open>
  C38. A request with a body and a \<^verbatim>\<open>Content-Length\<close> takes the next request with it: when a piece of the stream holds the
  rest of the body and, behind it, another request, all of it is written to the file of the body, and nothing is left to parse.
\<close>

theorem http_pipelined_request_lost:
  assumes "\<And>f d. he_write env f d" "req_body s = Some b" "pp_unread din = body @ request_bytes r"
    and "hi_content_length_n (headers_in s) = body_len_accepted b + of_nat (length body)"
    and "unat (body_len_accepted b) + length (pp_unread din) < 2 ^ 64"
  shows "\<exists>s' b' din'. http_body_direct_append env s din True = Inr (0, s', din') \<and> req_body s' = Some b' \<and>
    body_file b' = body_file b @ body @ request_bytes r \<and> hs_phase s' = PARSE_PHASE_STATUS_LINE \<and> pp_unread din' = []"
proof -
  let ?u = "pp_unread din"
  let ?b = "b\<lparr>body_file := body_file b @ ?u, body_len_accepted := body_len_accepted b + of_nat (length ?u)\<rparr>"
  have "?u \<noteq> []" using assms(3) by (simp add: request_bytes_def request_lines_def request_line_bytes_def)
  then have app: "ch_http_session_body_append env s ?u True = Inr (s\<lparr>req_body := Some ?b\<rparr>)"
    using assms(1,2) by (simp add: ch_http_session_body_append_def ch_http_body_append_def)
  have sum: "unat (body_len_accepted b + of_nat n) = unat (body_len_accepted b) + n" if "n \<le> length ?u" for n
    using assms(5) that by (simp add: unat_word_ariths unat_of_nat mod_simps)
  have "hi_content_length_n (headers_in s) \<le> body_len_accepted ?b"
    unfolding word_le_nat_alt assms(4) using sum [of "length body"] sum [of "length ?u"] assms(3) by simp
  then have "ch_is_http_body_complete (s\<lparr>req_body := Some ?b\<rparr>) True = Inr True" by (simp add: ch_is_http_body_complete_def body_of_def)
  then have "http_body_direct_append env s din True =
      Inr (0, HTTP_BODY_PARSE_STATE_SET (s\<lparr>req_body := Some ?b\<rparr>) True, ch_pp_din_skip_to_end din)"
    using app by (simp add: http_body_direct_append_def pp_unread_def)
  then show ?thesis using assms(3) by (simp add: HTTP_BODY_PARSE_STATE_SET_def ch_pp_din_skip_to_end_def pp_unread_def)
qed

section \<open>Witnesses\<close>

definition sample_http_world :: http_world where
  "sample_http_world = \<lparr>hw_req_fpath = False, hw_res_fpath = False, hw_files = 0, hw_unlinked = [], hw_buffer = \<lparr>b_null = False, b_current_size = B_SIZE_DEFAULT\<rparr>,
     hw_stored = []\<rparr>"

text \<open>\<^verbatim>\<open>GET /a HTTP/1.1\<close> with \<^verbatim>\<open>Host: b\<close>.\<close>

definition sample_http_request :: http_request where
  "sample_http_request = \<lparr>rq_method = [71, 69, 84], rq_uri = [47, 97], rq_headers = [([72, 111, 115, 116], [98])]\<rparr>"

lemma sample_texts: "c_string_of [71, 69, 84] = ''GET''" "c_string_of [47, 97] = ''/a''" "c_string_of [72, 111, 115, 116] = ''Host''" "c_string_of [98] = ''b''"
  by code_simp+

lemma sample_request_plain: "plain_request sample_http_request"
  by (simp add: plain_request_def sample_http_request_def method_ok_def uri_ok_def upper_or_bar_def plain_header_def header_name_ok_def header_value_ok_def
      sample_texts strcasecmp_eq_def to_lower_chars)

lemma sample_env_ok: "env_ok sample_http_env"
  by (simp add: env_ok_def sample_http_env_def)

lemma sample_request_bytes:
  "request_bytes sample_http_request = [71, 69, 84, 32, 47, 97, 32, 72, 84, 84, 80, 47, 49, 46, 49, CR, LF, 72, 111, 115, 116, 58, 32, 98, CR, LF, CR, LF]"
  by (simp add: request_bytes_def request_lines_def sample_http_request_def request_line_bytes_def header_line_def header_line_bytes_def)


theorem http_pipelined_request_lost_witness:
  "\<exists>s' b' din'. http_body_direct_append sample_http_env
       (ch_http_session_create\<lparr>req_body := Some sample_body, headers_in := http_headers_in_init\<lparr>hi_content_length_n := 2\<rparr>\<rparr>)
       (piece_input ([104, 105] @ request_bytes sample_http_request)) True = Inr (0, s', din') \<and>
     req_body s' = Some b' \<and> body_file b' = [104, 105] @ request_bytes sample_http_request \<and> hs_phase s' = PARSE_PHASE_STATUS_LINE \<and>
     pp_unread din' = []"
  using http_pipelined_request_lost [of sample_http_env
      "ch_http_session_create\<lparr>req_body := Some sample_body, headers_in := http_headers_in_init\<lparr>hi_content_length_n := 2\<rparr>\<rparr>" sample_body
      "piece_input ([104, 105] @ request_bytes sample_http_request)" "[104, 105]" sample_http_request]
  by (simp add: sample_http_env_def sample_body_def piece_input_def pp_unread_def ch_pp_din_init_def sample_request_bytes)

end
