(* ===== verification/Http_Safe.thy ===== *)
theory Http_Safe
  imports Http_Stream
begin

text \<open>
  Every call of the HTTP application on any data returns, with no fault, in every state that calls lead to; and the records of
  the sessions that are stored are complete msgpack objects.
\<close>

section \<open>Invariants\<close>

text \<open>The counters of headers, which announce the size of the maps in the record.\<close>

definition counts_ok :: "ch_http_session \<Rightarrow> bool" where
  "counts_ok s \<longleftrightarrow> in_headers_n s = of_nat (length (hi_headers (headers_in s))) \<and> out_headers_n s = of_nat (length (ho_headers (headers_out s)))"

text \<open>The directories of both kinds of bodies are configured and usable, the pool has memory, and the filter answers.\<close>

definition env_safe :: "http_env \<Rightarrow> bool" where
  "env_safe env \<longleftrightarrow> (\<forall>d. he_dir env d \<and> he_fpath env d) \<and> (\<forall>n. he_pool env n) \<and> (\<forall>s b. \<exists>a. he_accept env s b = Inr a)"

definition world_safe :: "http_world \<Rightarrow> bool" where
  "world_safe w \<longleftrightarrow> hw_req_fpath w = hw_res_fpath w \<and> (\<forall>s \<in> set (hw_stored w). counts_ok s)"

definition entry_safe :: "ch_http_session_entry \<Rightarrow> bool" where
  "entry_safe e \<longleftrightarrow> (\<forall>s \<in> set (reqs e). counts_ok s \<and> 2 < phase_rank (hs_phase s)) \<and> (\<forall>s. cur_req e = Some s \<longrightarrow> counts_ok s)"

lemma HTTP_STRNDUP_inside: "(\<And>n. mp n) \<Longrightarrow> a \<le> b \<Longrightarrow> b + incr \<le> length line \<Longrightarrow> \<exists>t. HTTP_STRNDUP mp line (Some a) (Some b) incr = Inr t"
  by (auto simp: HTTP_STRNDUP_def http_pstrndup_def)

lemma request_line_set_safe:
  assumes "\<And>n. mp n" "method_at (length line) r" "uri_at (length line) r"
  shows "\<exists>m u v. ch_http_session_request_line_set mp line s r = Inr (s\<lparr>hs_method := Some m, http_version := v, hs_uri := Some u\<rparr>)"
proof -
  obtain m e u v where r: "request_start r = Some m" "method_end r = Some e" "m \<le> e" "e < length line" "uri_start r = Some u" "uri_end r = Some v"
    "u \<le> v" "v < length line" using assms(2,3) by (auto simp: method_at_def uri_at_def)
  obtain tm where "HTTP_STRNDUP mp line (Some m) (Some e) 1 = Inr tm" using HTTP_STRNDUP_inside [of mp m e 1 line] r assms(1) by auto
  moreover obtain tu where "HTTP_STRNDUP mp line (Some u) (Some v) 0 = Inr tu" using HTTP_STRNDUP_inside [of mp u v 0 line] r assms(1) by auto
  ultimately show ?thesis using r by (auto simp: ch_http_session_request_line_set_def)
qed

lemma http_request_line_safe:
  assumes "env_safe env" "counts_ok s"
  shows "\<exists>r. http_request_line_parse env s line = Inr r \<and> (\<forall>s'. r = Some s' \<longrightarrow> counts_ok s')"
proof -
  obtain rc rl where p: "ch_http_request_line_parse (ch_http_request_line_init (fst (he_stack env)) (snd (he_stack env))) line = (rc, rl)" by fastforce
  show ?thesis
  proof (cases "rc = CH_OK")
    case True
    from request_line_parse_inside [OF p [unfolded True]] obtain m u v
      where "ch_http_session_request_line_set (he_pool env) (ln_line line) s rl = Inr (s\<lparr>hs_method := Some m, http_version := v, hs_uri := Some u\<rparr>)"
      using request_line_set_safe [of "he_pool env"] assms(1) by (metis env_safe_def)
    then show ?thesis using p True assms by (simp add: http_request_line_parse_def counts_ok_def)
  qed (use p in \<open>simp add: http_request_line_parse_def\<close>)
qed

lemma index_set_headers:
  "hi_headers (headers_in (http_request_header_index_set s h)) = hi_headers (headers_in s)" "headers_out (http_request_header_index_set s h) = headers_out s"
  "in_headers_n (http_request_header_index_set s h) = in_headers_n s" "out_headers_n (http_request_header_index_set s h) = out_headers_n s"
  "hs_phase (http_request_header_index_set s h) = hs_phase s"
  "ho_headers (headers_out (http_response_header_index_set s h)) = ho_headers (headers_out s)" "headers_in (http_response_header_index_set s h) = headers_in s"
  "in_headers_n (http_response_header_index_set s h) = in_headers_n s" "out_headers_n (http_response_header_index_set s h) = out_headers_n s"
  "hs_phase (http_response_header_index_set s h) = hs_phase s"
  by (cases h; simp add: http_request_header_index_set_def http_response_header_index_set_def Let_def)+

lemma http_header_safe:
  assumes "env_safe env" "counts_ok s"
  shows "\<exists>r. http_header_parse env s line is_req = Inr r \<and> (\<forall>s'. r = Some s' \<longrightarrow> counts_ok s' \<and> hs_phase s' = hs_phase s)"
proof -
  obtain rc h where p: "ch_http_header_line_parse ch_http_header_init line = (rc, h)" by fastforce
  show ?thesis
  proof (cases "rc = CH_OK")
    case True
    from header_line_parse_inside [OF p [unfolded True]]
    obtain k v where "HTTP_STRNDUP (he_pool env) (ln_line line) (header_name_start h) (header_name_end h) 0 = Inr k"
      "HTTP_STRNDUP (he_pool env) (ln_line line) (header_start h) (header_end h) 0 = Inr v"
      using HTTP_STRNDUP_inside [where mp = "he_pool env" and incr = 0] assms(1) by (force simp: name_at_def value_at_def env_safe_def)
    then show ?thesis using p True assms
      by (auto simp: http_header_parse_def ch_http_session_header_add_def Let_def counts_ok_def index_set_headers env_safe_def)
  qed (use p in \<open>simp add: http_header_parse_def\<close>)
qed

section \<open>Bodies\<close>

definition session_frame :: "bool \<Rightarrow> ch_http_session \<Rightarrow> ch_http_session \<Rightarrow> bool" where
  "session_frame is_req s s' \<longleftrightarrow> (counts_ok s \<longrightarrow> counts_ok s') \<and>
     (hs_phase s' = hs_phase s \<or> hs_phase s' = (if is_req then PARSE_PHASE_STATUS_LINE else PARSE_PHASE_DONE))"

lemma session_frame_trans: "session_frame is_req s s1 \<Longrightarrow> session_frame is_req s1 s2 \<Longrightarrow> session_frame is_req s s2"
  by (auto simp: session_frame_def)

lemma session_frame_steps:
  "session_frame is_req s (set_body b s body)" "session_frame is_req s (HTTP_BODY_PARSE_STATE_SET s is_req)"
  "session_frame is_req s (add_content_length b s n)" "session_frame is_req s s"
  by (simp_all add: session_frame_def set_body_def HTTP_BODY_PARSE_STATE_SET_def add_content_length_def counts_ok_def)

lemma chunk_loop_frame:
  assumes "http_chunk_loop env s b chunk din is_req = (rc, s', din')"
  shows "session_frame is_req s s'"
  using assms
proof (induction env s b chunk din is_req rule: http_chunk_loop.induct)
  case (1 env s b chunk din is_req)
  obtain rc1 c d where p: "ch_http_chunked_parse chunk din = (rc1, c, d)" by (cases "ch_http_chunked_parse chunk din") auto
  note l = "1.prems" [unfolded http_chunk_loop.simps [of env s b chunk din is_req] p]
  show ?case
  proof (cases "rc1 = CH_OK")
    case True
    from "1.IH" [OF p [symmetric] refl True refl refl refl refl refl refl refl] l True
    show ?thesis by (auto simp: Let_def intro: session_frame_trans [OF session_frame_steps(3)])
  next
    case False
    then show ?thesis using l
      by (auto simp: Let_def split: if_splits intro: session_frame_steps session_frame_trans [OF session_frame_steps(1)])
  qed
qed

lemma find_create_safe:
  assumes "env_safe env" "world_safe w"
  shows "\<exists>w'. ch_proto_store_body_find_create env w = (True, w') \<and> world_safe w' \<and> hw_req_fpath w' \<and> hw_res_fpath w'"
  using assms by (auto simp: ch_proto_store_body_find_create_def env_safe_def world_safe_def Let_def)

lemma file_create_safe:
  assumes "env_safe env" "world_safe w" "hw_req_fpath w" "hw_res_fpath w"
  shows "\<exists>rc w' s'. http_body_file_create env w s is_req = Inr (rc, w', s') \<and> world_safe w' \<and> session_frame is_req s s' \<and>
    (rc = 0 \<longrightarrow> body_of is_req s' \<noteq> None)"
  using assms session_frame_steps
  by (auto simp: http_body_file_create_def ch_http_session_body_create_def env_safe_def world_safe_def Let_def split: option.splits)

lemma direct_append_safe:
  assumes "body_of is_req s = Some b"
  shows "\<exists>s' din'. http_body_direct_append env s din is_req = Inr (0, s', din') \<and> session_frame is_req s s'"
  using assms
  by (auto simp: http_body_direct_append_def ch_http_session_body_append_def ch_is_http_body_complete_def body_of_def session_frame_def
      HTTP_BODY_PARSE_STATE_SET_def counts_ok_def)

lemma body_of_parse_safe:
  assumes "env_safe env" "body_of is_req s = Some b"
  shows "\<exists>rc s' din'. (if ch_http_body_is_chunked s is_req then http_body_chunked_parse env s din is_req else http_body_direct_append env s din is_req) =
    Inr (rc, s', din') \<and> session_frame is_req s s'"
proof (cases "ch_http_body_is_chunked s is_req")
  case True
  let ?b = "body_ready b"
  obtain rc s' din' where "http_chunk_loop env s ?b (the (body_chunk ?b)) din is_req = (rc, s', din')" by (metis prod_cases3)
  then show ?thesis using True assms chunk_loop_frame by (fastforce simp: http_body_chunked_parse_def chunk_init_ready env_safe_def)
qed (use direct_append_safe [OF assms(2), of env din] in auto)

lemma body_parse_safe:
  assumes "env_safe env" "world_safe w"
  shows "\<exists>rc w' s' din'. http_body_parse env w s din is_req = Inr (rc, w', s', din') \<and> world_safe w' \<and> session_frame is_req s s'"
proof -
  obtain w1 where w1: "ch_proto_store_body_find_create env w = (True, w1)" "world_safe w1" "hw_req_fpath w1" "hw_res_fpath w1"
    using find_create_safe [OF assms] by blast
  obtain rc w2 s2 where c: "(if body_of is_req s = None then http_body_file_create env w1 s is_req else Inr (0, w1, s)) = Inr (rc, w2, s2)"
    "world_safe w2" "session_frame is_req s s2" "rc = 0 \<longrightarrow> body_of is_req s2 \<noteq> None"
    using file_create_safe [OF assms(1) w1(2-4), of s is_req] w1(2) session_frame_steps(4) by (cases "body_of is_req s") auto
  show ?thesis
  proof (cases "rc = 0")
    case True
    then obtain b where "body_of is_req s2 = Some b" using c(4) by auto
    from body_of_parse_safe [OF assms(1) this, of din] obtain rc3 s3 din3 where l:
      "(if ch_http_body_is_chunked s2 is_req then http_body_chunked_parse env s2 din is_req else http_body_direct_append env s2 din is_req) = Inr (rc3, s3, din3)"
      "session_frame is_req s2 s3" by blast
    have "http_body_parse env w s din is_req = Inr (rc3, w2, s3, din3)"
      unfolding http_body_parse_def w1(1) using c(1) True l(1) by simp
    then show ?thesis using c(2) session_frame_trans [OF c(3) l(2)] by blast
  qed (use w1(1) c(1-3) in \<open>simp add: http_body_parse_def\<close>)
qed

section \<open>The loops\<close>

text \<open>What a round of a loop may do; \<open>I\<close> holds of the session it works on.\<close>

fun iter_safe :: "(ch_http_session \<Rightarrow> bool) \<Rightarrow> http_iter \<Rightarrow> bool" where
  "iter_safe I (H_go din s e w) \<longleftrightarrow> I s \<and> entry_safe e \<and> world_safe w"
| "iter_safe I (H_out rc din e w) \<longleftrightarrow> entry_safe e \<and> world_safe w"
| "iter_safe I H_spin \<longleftrightarrow> False"

lemma counts_simps [simp]:
  "counts_ok (s\<lparr>hs_phase := p\<rparr>) = counts_ok s" "counts_ok (s\<lparr>is_pass := b\<rparr>) = counts_ok s" "counts_ok (s\<lparr>psEntry := x\<rparr>) = counts_ok s"
  "counts_ok (s\<lparr>status_code := c\<rparr>) = counts_ok s" "counts_ok (s\<lparr>req_body := x1\<rparr>) = counts_ok s" "counts_ok (s\<lparr>res_body := x2\<rparr>) = counts_ok s"
  by (simp_all add: counts_ok_def)

lemma header_end_facts:
  "counts_ok (HEADER_END_STATE_SET s b) = counts_ok s" "hs_phase (HEADER_END_STATE_SET s False) \<in> {PARSE_PHASE_RES_BODY, PARSE_PHASE_DONE}"
  by (simp_all add: HEADER_END_STATE_SET_def Let_def)

lemma put_req_safe: "entry_safe e \<Longrightarrow> counts_ok s \<Longrightarrow> entry_safe (put_req s e)"
  by (simp add: entry_safe_def)

lemma create_counts: "counts_ok ch_http_session_create"
  by (simp add: counts_ok_def ch_http_session_create_def http_headers_in_init_def http_headers_out_init_def)

lemma log_line_safe [simp]: "env_safe env \<Longrightarrow> log_line env line r = Inr r"
  by (simp add: log_line_def http_pstrndup_def env_safe_def)

lemma request_iter_safe:
  assumes "env_safe env" "world_safe w" "entry_safe e" "counts_ok s"
  shows "\<exists>x. http_request_iter env din s e w = Inr x \<and> iter_safe counts_ok x"
proof (cases "2 < phase_rank (hs_phase s)")
  case True
  then show ?thesis using assms create_counts
    by (cases "hs_phase s") (auto simp: http_request_iter_def req_session_get_add entry_safe_def Let_def)
next
  case False
  then consider "hs_phase s = PARSE_PHASE_REQ_LINE" | "hs_phase s = PARSE_PHASE_REQ_HEADER" | "hs_phase s = PARSE_PHASE_REQ_BODY"
    by (auto simp: phase_rank_body)
  then show ?thesis
  proof cases
    case 1
    show ?thesis
    proof (cases "ch_pp_data_input_line_read din")
      case (Some x)
      obtain line din1 where x: "x = (line, din1)" by fastforce
      obtain r where "http_request_line_parse env s line = Inr r" "\<forall>s'. r = Some s' \<longrightarrow> counts_ok s'"
        using http_request_line_safe [OF assms(1,4)] by blast
      then show ?thesis using 1 Some x assms put_req_safe by (cases r) (simp_all add: http_request_iter_def)
    qed (use 1 assms put_req_safe in \<open>simp add: http_request_iter_def\<close>)
  next
    case 2
    show ?thesis
    proof (cases "ch_pp_data_input_line_read din")
      case (Some x)
      obtain line din1 where x: "x = (line, din1)" by fastforce
      obtain a where "he_accept env (HEADER_END_STATE_SET s True) False = Inr a" using assms(1) by (meson env_safe_def)
      moreover obtain r where "http_header_parse env s line True = Inr r" "\<forall>s'. r = Some s' \<longrightarrow> counts_ok s' \<and> hs_phase s' = hs_phase s"
        using http_header_safe [OF assms(1,4)] by blast
      ultimately show ?thesis using 2 Some x assms put_req_safe header_end_facts(1) by (cases r) (simp_all add: http_request_iter_def Let_def)
    qed (use 2 assms put_req_safe in \<open>simp add: http_request_iter_def\<close>)
  next
    case 3
    then show ?thesis using body_parse_safe [OF assms(1,2), of s din True] assms(3,4) put_req_safe
      by (auto simp: http_request_iter_def session_frame_def)
  qed
qed

definition out_safe :: "http_out option res \<Rightarrow> bool" where
  "out_safe r \<longleftrightarrow> (\<exists>rc din e w. r = Inr (Some (rc, din, e, w)) \<and> entry_safe e \<and> world_safe w)"

lemma request_loop_safe:
  assumes "env_safe env" "world_safe w" "entry_safe e" "counts_ok s"
  shows "out_safe (http_request_loop env din s e w)"
  using assms
proof (induction env din s e w rule: http_request_loop.induct)
  case (1 env din s e w)
  show ?case
  proof (cases "ch_pp_din_has_data din 0")
    case True
    obtain x where x: "http_request_iter env din s e w = Inr x" "iter_safe counts_ok x" using request_iter_safe [OF "1.prems"] by blast
    show ?thesis
    proof (cases x)
      case (H_go din1 s1 e1 w1)
      then show ?thesis using "1.IH" [OF _ x(1) H_go] True x "1.prems"(1) by (subst http_request_loop.simps) simp
    qed (use x True in \<open>subst http_request_loop.simps, simp add: out_safe_def\<close>)+
  next
    case False
    then show ?thesis using "1.prems" put_req_safe
      by (subst http_request_loop.simps) (auto simp: out_safe_def entry_safe_def ch_http_sentry_session_add_def)
  qed
qed

definition res_inv :: "ch_http_session \<Rightarrow> bool" where
  "res_inv s \<longleftrightarrow> counts_ok s \<and> 2 < phase_rank (hs_phase s)"

lemma put_res_safe: "entry_safe e \<Longrightarrow> res_inv s \<Longrightarrow> entry_safe (put_res s e)"
  by (auto simp: entry_safe_def res_inv_def dest: in_set_tlD)

lemma session_store_safe:
  assumes "entry_safe e" "world_safe w" "counts_ok s" "http_session_store w e s = (e', w')"
  shows "entry_safe e'" "world_safe w'"
proof -
  have "reqs e' = tl (reqs e)" "cur_req e' = cur_req e" "world_safe w'" using assms(2-4)
    by (auto simp: http_session_store_def ch_http_sentry_session_remove_def ch_http_sentry_session_discard_def world_safe_def split: if_splits)
  then show "entry_safe e'" "world_safe w'" using assms(1) by (auto simp: entry_safe_def dest: in_set_tlD)
qed

lemma res_session_get_safe: "entry_safe e \<Longrightarrow> res_session_get e = (r, e') \<Longrightarrow> entry_safe e' \<and> (\<forall>s. r = Some s \<longrightarrow> res_inv s)"
  by (auto simp: res_session_get_def entry_safe_def res_inv_def split: list.splits)

lemma response_iter_safe:
  assumes "env_safe env" "world_safe w" "entry_safe e" "res_inv s"
  shows "\<exists>x. http_response_iter env din s e w = Inr x \<and> iter_safe res_inv x"
proof -
  have s: "counts_ok s" "hs_phase s \<noteq> PARSE_PHASE_REQ_LINE" "hs_phase s \<noteq> PARSE_PHASE_REQ_HEADER" "hs_phase s \<noteq> PARSE_PHASE_REQ_BODY"
    using assms(4) by (auto simp: res_inv_def)
  note put = put_res_safe [OF assms(3)]
  show ?thesis
  proof (cases "hs_phase s")
    case PARSE_PHASE_DONE
    obtain e1 w1 where st: "http_session_store w e s = (e1, w1)" by fastforce
    note safe = session_store_safe [OF assms(3,2) s(1) st]
    obtain r e2 where g: "res_session_get e1 = (r, e2)" by fastforce
    from res_session_get_safe [OF safe(1) g] show ?thesis using PARSE_PHASE_DONE st g safe(2) by (cases r) (simp_all add: http_response_iter_def)
  next
    case PARSE_PHASE_STATUS_LINE
    show ?thesis
    proof (cases "ch_pp_data_input_line_read din")
      case (Some x)
      obtain line din1 where x: "x = (line, din1)" by fastforce
      have "res_inv s1" if "http_status_line_parse s line = Some s1" for s1
        using that s(1) by (auto simp: http_status_line_parse_def ch_http_session_status_line_set_def res_inv_def split: if_splits prod.splits)
      then show ?thesis using PARSE_PHASE_STATUS_LINE Some x assms put
        by (cases "http_status_line_parse s line") (simp_all add: http_response_iter_def)
    qed (use PARSE_PHASE_STATUS_LINE assms put in \<open>simp add: http_response_iter_def\<close>)
  next
    case PARSE_PHASE_RES_HEADER
    show ?thesis
    proof (cases "ch_pp_data_input_line_read din")
      case (Some x)
      obtain line din1 where x: "x = (line, din1)" by fastforce
      let ?s = "HEADER_END_STATE_SET s False"
      obtain a where "he_accept env ?s True = Inr a" using assms(1) by (meson env_safe_def)
      moreover have "res_inv ?s" "res_inv (?s\<lparr>is_pass := True\<rparr>)" using header_end_facts [of s] s(1) by (auto simp: res_inv_def header_end_facts(1))
      moreover obtain r where "http_header_parse env s line False = Inr r" "\<forall>s'. r = Some s' \<longrightarrow> counts_ok s' \<and> hs_phase s' = hs_phase s"
        using http_header_safe [OF assms(1) s(1)] by blast
      ultimately show ?thesis using PARSE_PHASE_RES_HEADER Some x assms put by (cases r) (simp_all add: http_response_iter_def Let_def res_inv_def)
    qed (use PARSE_PHASE_RES_HEADER assms put in \<open>simp add: http_response_iter_def\<close>)
  next
    case PARSE_PHASE_RES_BODY
    obtain rc w1 s1 din1 where b: "http_body_parse env w s din False = Inr (rc, w1, s1, din1)" "world_safe w1" "session_frame False s s1"
      using body_parse_safe [OF assms(1,2), of s din False] by blast
    then have "res_inv s1" using s(1) PARSE_PHASE_RES_BODY by (auto simp: session_frame_def res_inv_def)
    then show ?thesis using PARSE_PHASE_RES_BODY b assms(3) put by (simp add: http_response_iter_def)
  qed (use s in auto)
qed

lemma response_loop_safe:
  assumes "env_safe env" "world_safe w" "entry_safe e" "res_inv s"
  shows "out_safe (http_response_loop env din s e w)"
  using assms
proof (induction env din s e w rule: http_response_loop.induct)
  case (1 env din s e w)
  show ?case
  proof (cases "ch_pp_din_has_data din 0")
    case True
    obtain x where x: "http_response_iter env din s e w = Inr x" "iter_safe res_inv x" using response_iter_safe [OF "1.prems"] by blast
    show ?thesis
    proof (cases x)
      case (H_go din1 s1 e1 w1)
      then show ?thesis using "1.IH" [OF _ x(1) H_go] True x "1.prems"(1) by (subst http_response_loop.simps) simp
    qed (use x True in \<open>subst http_response_loop.simps, simp add: out_safe_def\<close>)+
  next
    case False
    obtain e1 w1 where st: "http_session_store w e s = (e1, w1)" by fastforce
    have "counts_ok s" using "1.prems"(4) by (simp add: res_inv_def)
    from session_store_safe [OF "1.prems"(3,2) this st] show ?thesis
      using False "1.prems" put_res_safe st by (subst http_response_loop.simps) (simp add: out_safe_def)
  qed
qed

section \<open>The calls\<close>

definition call_safe :: "(int \<times> ch_http_session_entry \<times> http_world) option res \<Rightarrow> bool" where
  "call_safe r \<longleftrightarrow> (\<exists>rc e w. r = Inr (Some (rc, e, w)) \<and> entry_safe e \<and> world_safe w)"

lemma world_safe_buffer [simp]: "world_safe (w\<lparr>hw_buffer := bf\<rparr>) = world_safe w"
  by (simp add: world_safe_def)

lemma entry_safe_dins [simp]: "entry_safe (e\<lparr>cur_req_din := x\<rparr>) = entry_safe e" "entry_safe (e\<lparr>cur_res_din := x\<rparr>) = entry_safe e"
  by (simp_all add: entry_safe_def)

lemma request_parse_safe:
  assumes "env_safe env" "world_safe w" "entry_safe e"
  shows "call_safe (do_http_request_parse env e w d)"
proof -
  obtain r e1 where g: "req_session_get env e = (r, e1)" by fastforce
  have e1: "entry_safe e1" "\<forall>s. r = Some s \<longrightarrow> counts_ok s" using g assms(3) create_counts
    by (auto simp: req_session_get_def entry_safe_def Let_def split: option.splits if_splits)
  show ?thesis
  proof (cases r)
    case (Some s)
    let ?s = "s\<lparr>psEntry := ch_proto_session_entry_update (psEntry s) (length d) True\<rparr>"
    obtain rc bf din where p: "ch_pp_din_read_prefare (he_mal env) (hw_buffer w) (cur_req_din e1) d = (rc, bf, din)" by (metis prod_cases3)
    have s: "counts_ok ?s" using e1(2) Some by simp
    obtain rc2 din2 e2 w2 where l: "http_request_loop env din ?s e1 (w\<lparr>hw_buffer := bf\<rparr>) = Inr (Some (rc2, din2, e2, w2))" "entry_safe e2" "world_safe w2"
      using request_loop_safe [OF assms(1) _ e1(1) s, of "w\<lparr>hw_buffer := bf\<rparr>" din] assms(2) by (auto simp: out_safe_def)
    show ?thesis using g Some p l s put_req_safe [OF e1(1) s] assms(2)
      by (cases "ch_pp_din_read_end (he_pool env) din2") (auto simp: do_http_request_parse_def call_safe_def Let_def entry_safe_def)
  qed (use g e1 assms in \<open>simp add: do_http_request_parse_def call_safe_def\<close>)
qed

lemma response_parse_safe:
  assumes "env_safe env" "world_safe w" "entry_safe e"
  shows "call_safe (do_http_response_parse env e w d)"
proof -
  obtain r e1 where g: "res_session_get e = (r, e1)" by fastforce
  have e1: "entry_safe e1" "\<forall>s. r = Some s \<longrightarrow> res_inv s" using res_session_get_safe [OF assms(3) g] by auto
  show ?thesis
  proof (cases r)
    case (Some s)
    let ?s = "s\<lparr>psEntry := ch_proto_session_entry_update (psEntry s) (length d) False\<rparr>"
    obtain rc bf din where p: "ch_pp_din_read_prefare (he_mal env) (hw_buffer w) (cur_res_din e1) d = (rc, bf, din)" by (metis prod_cases3)
    have s: "res_inv ?s" using e1(2) Some by (simp add: res_inv_def)
    obtain rc2 din2 e2 w2 where l: "http_response_loop env din ?s e1 (w\<lparr>hw_buffer := bf\<rparr>) = Inr (Some (rc2, din2, e2, w2))" "entry_safe e2" "world_safe w2"
      using response_loop_safe [OF assms(1) _ e1(1) s, of "w\<lparr>hw_buffer := bf\<rparr>" din] assms(2) by (auto simp: out_safe_def)
    have "entry_safe (put_res ?s (e1\<lparr>cur_res_din := din\<rparr>))" using put_res_safe [of "e1\<lparr>cur_res_din := din\<rparr>" ?s] e1(1) s by simp
    then show ?thesis using g Some p l assms(2)
      by (cases "ch_pp_din_read_end (he_pool env) din2") (auto simp: do_http_response_parse_def call_safe_def Let_def)
  qed (use g e1 assms in \<open>simp add: do_http_response_parse_def call_safe_def\<close>)
qed

text \<open>The states that calls lead to, from a new entry on.\<close>

inductive http_calls :: "http_env \<Rightarrow> http_world \<Rightarrow> ch_http_session_entry \<Rightarrow> http_world \<Rightarrow> bool" for env w0 where
  http_start: "http_calls env w0 ch_http_sentry_init w0"
| http_request: "http_calls env w0 e w \<Longrightarrow> do_http_request_parse env e w d = Inr (Some (rc, e', w')) \<Longrightarrow> http_calls env w0 e' w'"
| http_response: "http_calls env w0 e w \<Longrightarrow> do_http_response_parse env e w d = Inr (Some (rc, e', w')) \<Longrightarrow> http_calls env w0 e' w'"

lemma http_calls_safe:
  assumes "http_calls env w0 e w" "env_safe env" "world_safe w0"
  shows "entry_safe e \<and> world_safe w"
  using assms
proof (induction rule: http_calls.induct)
  case http_start
  then show ?case by (simp add: entry_safe_def ch_http_sentry_init_def)
next
  case (http_request e w d rc e' w')
  then show ?case using request_parse_safe [of env w e d] by (simp add: call_safe_def)
next
  case (http_response e w d rc e' w')
  then show ?case using response_parse_safe [of env w e d] by (simp add: call_safe_def)
qed

section \<open>The record\<close>

definition header_tokens :: "ch_table_elt list \<Rightarrow> mp_token list" where
  "header_tokens h = concat (map (\<lambda>(k, v). [MP_Str (text_bytes k), MP_Str (text_bytes v)]) h)"

lemma header_tokens_objects: "mp_objects (2 * length h) (header_tokens h)"
  by (induction h) (auto simp: header_tokens_def)

lemma pack_headers_tokens: "k \<noteq> [] \<Longrightarrow> pack_headers pk h k n = pk @ [MP_Str (text_bytes k), MP_Map (unat n)] @ header_tokens h"
proof -
  have "fold (\<lambda>(k, v) pk. ch_msgpack_write_kv pk k (Some v)) h pk = pk @ header_tokens h" for pk
    by (induction h arbitrary: pk) (auto simp: header_tokens_def pk_defs)
  then show "k \<noteq> [] \<Longrightarrow> pack_headers pk h k n = pk @ [MP_Str (text_bytes k), MP_Map (unat n)] @ header_tokens h"
    by (simp add: pack_headers_def pk_defs)
qed

lemma header_entry: "unat n = length h \<Longrightarrow> mp_objects 2 ([MP_Str (text_bytes k), MP_Map (unat n)] @ header_tokens h)"
  using header_tokens_objects [of h] by (simp add: eval_nat_numeral)

lemma http_format_packs:
  assumes "counts_ok s" "length (hi_headers (headers_in s)) < 2 ^ 32" "length (ho_headers (headers_out s)) < 2 ^ 32"
  shows "\<exists>us. do_http_session_format s pk = pk @ us \<and> mp_objects 2 us"
proof -
  have n: "unat (in_headers_n s) = length (hi_headers (headers_in s))" "unat (out_headers_n s) = length (ho_headers (headers_out s))"
    using assms by (simp_all add: counts_ok_def unat_of_nat)
  let ?kv = "\<lambda>k v. [MP_Str (text_bytes k), MP_Str (text_bytes (case v of None \<Rightarrow> [] | Some s \<Rightarrow> s))]"
  let ?a = "?kv ''method'' (hs_method s) @ ?kv ''uri'' (hs_uri s) @ ?kv ''version'' (Some (ch_http_version_to_str (http_version s))) @
    [MP_Str (text_bytes ''status''), MP_Uint (unat (status_code s))] @ ?kv ''reqBodyPath'' (BODY_NAME (req_body s)) @ ?kv ''resBodyPath'' (BODY_NAME (res_body s))"
  let ?h = "[MP_Str (text_bytes ''inHeaders''), MP_Map (unat (in_headers_n s))] @ header_tokens (hi_headers (headers_in s))"
  let ?o = "[MP_Str (text_bytes ''outHeaders''), MP_Map (unat (out_headers_n s))] @ header_tokens (ho_headers (headers_out s))"
  have "mp_objects 12 ?a" by (simp add: eval_nat_numeral)
  from mp_objects_append [OF this mp_objects_append [OF header_entry [OF n(1)] header_entry [OF n(2)]]]
  have "mp_objects 16 (?a @ ?h @ ?o)" by simp
  then have "mp_objects 2 (MP_Str (text_bytes ''http'') # MP_Map 8 # ?a @ ?h @ ?o)" by (simp add: numeral_2_eq_2)
  moreover have "do_http_session_format s pk = pk @ (MP_Str (text_bytes ''http'') # MP_Map 8 # ?a @ ?h @ ?o)"
    by (simp add: do_http_session_format_def pack_headers_tokens Let_def) (simp add: pk_defs)
  ultimately show ?thesis by blast
qed

lemma clean_stored: "set (hw_stored (do_http_session_entry_clean e w)) \<subseteq> set (hw_stored w) \<union> set (reqs e)"
proof -
  let ?f = "\<lambda>s w. if is_pass s then w\<lparr>hw_unlinked := hw_unlinked w @ body_names s\<rparr>
      else if CAN_STORE s then w\<lparr>hw_stored := hw_stored w @ [s]\<rparr> else (w :: http_world)"
  have step: "set (hw_stored (?f s w)) \<subseteq> insert s (set (hw_stored w))" for s w by auto
  have "set (hw_stored (fold ?f ss w)) \<subseteq> set (hw_stored w) \<union> set ss" for ss
  proof (induction ss arbitrary: w)
    case (Cons a ss)
    have "set (hw_stored (fold ?f (a # ss) w)) \<subseteq> set (hw_stored (?f a w)) \<union> set ss" using Cons.IH [of "?f a w"] by (simp only: fold_Cons o_apply)
    then show ?case using step [of a w] by auto
  qed simp
  then show ?thesis by (simp add: do_http_session_entry_clean_def)
qed

section \<open>Properties\<close>

text \<open>
  C11. Every call returns: whatever bytes the packets of a connection carried before, in both directions, a call for the data
  of a request and one for the data of a response come back, with no access outside a line, through a \<^verbatim>\<open>NULL\<close> pointer or to a missing body, and
  no loop of them runs on for ever. This is for a configuration and a machine in which the directories of both kinds of bodies are
  set and paths in them can be made, the memory pool of the connection does not run out, and the filter rules answer; the buffer of a read, the
  sessions, the body files and the writes to them may still fail. With one directory only, or without memory in the pool, the code
  does crash: \<open>http_one_body_dir_crash\<close>, \<open>http_header_no_memory_crash\<close>.
\<close>

theorem http_calls_return:
  assumes "env_safe env" "\<not> hw_req_fpath w0" "\<not> hw_res_fpath w0" "hw_stored w0 = []" "http_calls env w0 e w"
  shows "(\<exists>rc e' w'. do_http_request_parse env e w d = Inr (Some (rc, e', w'))) \<and>
    (\<exists>rc e' w'. do_http_response_parse env e w d = Inr (Some (rc, e', w')))"
proof -
  have "entry_safe e" "world_safe w" using http_calls_safe [OF assms(5,1)] assms(2-4) by (auto simp: world_safe_def)
  then show ?thesis using request_parse_safe [OF assms(1), of w e d] response_parse_safe [OF assms(1), of w e d] by (auto simp: call_safe_def)
qed

text \<open>
  C13. The record of every session that a connection leaves, stored while it lasted or at its end, is one complete msgpack object
  with as many entries as its maps announce: the common part of the session and what the format of the application packs. It is put into
  the memory of HTTP and into the other one, each as it has an entry for it, with the type and the time of the request, and the
  packer is empty for the next one.
\<close>

theorem http_record_complete:
  assumes "env_safe env" "\<not> hw_req_fpath w0" "\<not> hw_res_fpath w0" "hw_stored w0 = []" "http_calls env w0 e w"
    and "s \<in> set (hw_stored (do_http_session_entry_clean e w))"
    and "length (hi_headers (headers_in s)) < 2 ^ 32" "length (ho_headers (headers_out s)) < 2 ^ 32"
    and "length (ep_addr (endpoint_req ts)) = 16" "length (ep_addr (endpoint_res ts)) = 16" "pk_buf ps = []"
  shows "\<exists>ps' cs d. ch_proto_session_store_write put_ok tm PROTOCOL_HTTP ty (do_http_session_format s) ts (psEntry s) ps = Inr (0, ps') \<and>
    pstore_common [] PROTOCOL_HTTP ts (psEntry s) = Inr cs \<and> d = do_http_session_format s cs \<and> mp_objects 1 d \<and>
    ps_http ps' = ps_http ps @ (if put_ok http_shm_fmt d then [(ty, ep_time (endpoint_req ts), d)] else []) \<and>
    ps_other ps' = ps_other ps @ (if put_ok other_shm_fmt d then [(ty, ep_time (endpoint_req ts), d)] else []) \<and> pk_buf ps' = []"
proof -
  have "entry_safe e" "world_safe w" using http_calls_safe [OF assms(5,1)] assms(2-4) by (auto simp: world_safe_def)
  then have s: "counts_ok s" using clean_stored [of e w] assms(6) by (auto simp: entry_safe_def world_safe_def)
  obtain cs where cs: "pstore_common [] PROTOCOL_HTTP ts (psEntry s) = Inr cs" "\<And>us. mp_objects 1 (cs @ us) \<longleftrightarrow> mp_objects 2 us"
    using pstore_common_tokens [OF assms(9,10), of "[]" PROTOCOL_HTTP "psEntry s"] by auto
  obtain us where "do_http_session_format s cs = cs @ us" "mp_objects 2 us" using http_format_packs [OF s assms(7,8)] by blast
  then show ?thesis using cs assms(11) by (auto simp: ch_proto_session_store_write_def pstore_shm_flush_def Let_def)
qed

text \<open>
  The value of a \<^verbatim>\<open>Connection\<close> header is understood the wrong way round: of an HTTP/1.1 session in which both sides sent
  one, the code takes the connection to be kept alive exactly when both values begin with \<^verbatim>\<open>clos\<close>, in any case.
\<close>

theorem http_connection_inverted:
  "is_http_session_keepalive
     (http_response_header_index_set (http_request_header_index_set (s\<lparr>http_version := CH_HTTP_VERSION_11\<rparr>) (''Connection'', v)) (''Connection'', v')) \<longleftrightarrow>
   strncasecmp_eq v ''close'' 4 \<and> strncasecmp_eq v' ''close'' 4"
proof -
  have "strncasecmp_eq x ''close'' 4 \<Longrightarrow> \<not> strncasecmp_eq x ''keep-alive'' 9" for x
    by (cases x) (auto simp: strncasecmp_eq_def to_lower_chars)
  then have "connection_type_of x old = (if strncasecmp_eq x ''close'' 4 then CH_HTTP_CONNECTION_KEEP_ALIVE else CH_HTTP_CONNECTION_CLOSE)" for x old
    by (simp add: connection_type_of_def)
  then show ?thesis
    by (simp add: http_request_header_index_set_def http_response_header_index_set_def is_http_session_keepalive_def strcasecmp_eq_def to_lower_chars
        CH_HTTP_VERSION_11_def CH_HTTP_VERSION_10_def CH_HTTP_CONNECTION_CLOSE_def CH_HTTP_CONNECTION_KEEP_ALIVE_def Let_def)
qed

text \<open>
  With a directory for the bodies of requests only, the first response with a body is answered by a read through a
  \<^verbatim>\<open>NULL\<close> path.
\<close>

theorem http_one_body_dir_crash:
  assumes "he_dir env True" "he_fpath env True" "\<not> he_dir env False" "\<not> hw_req_fpath w" "\<not> hw_res_fpath w" "res_body s = None"
  shows "http_body_parse env w s din False = Inl Null_Deref"
  using assms
  by (simp add: http_body_parse_def ch_proto_store_body_find_create_def http_body_file_create_def body_of_def Let_def)

text \<open>
  Without memory in the pool the first header of a request is written through \<^verbatim>\<open>NULL\<close>.
\<close>

theorem http_header_no_memory_crash:
  assumes "\<And>n. \<not> he_pool env n" "header_name_ok k" "header_value_ok v"
  shows "http_header_parse env s \<lparr>ln_line = header_line_bytes k v, ln_len = n\<rparr> is_req = Inl Null_Deref"
proof -
  obtain h where h: "ch_http_header_line_parse ch_http_header_init \<lparr>ln_line = header_line_bytes k v, ln_len = n\<rparr> = (CH_OK, h)"
    "header_name_start h = Some 0" "header_name_end h = Some (length k)" using header_line_parse_at [OF assms(2,3), of n] by (auto simp: header_core_def)
  have "HTTP_STRNDUP (he_pool env) (header_line_bytes k v) (Some 0) (Some (length k)) 0 = Inl Null_Deref"
    using assms by (simp add: HTTP_STRNDUP_def http_pstrndup_def header_line_bytes_def header_name_ok_def)
  then show ?thesis using h by (simp add: http_header_parse_def ch_http_session_header_add_def Let_def)
qed

section \<open>Witnesses\<close>

lemma sample_http_env_safe: "env_safe sample_http_env"
  by (auto simp: env_safe_def sample_http_env_def)

lemma sample_world_new: "\<not> hw_req_fpath sample_http_world" "\<not> hw_res_fpath sample_http_world" "hw_stored sample_http_world = []"
  by (simp_all add: sample_http_world_def)

theorem http_calls_return_witness:
  "\<exists>rc e w. do_http_request_parse sample_http_env ch_http_sentry_init sample_http_world [71, 0, 10] = Inr (Some (rc, e, w))"
  using http_calls_return [OF sample_http_env_safe sample_world_new http_start, of "[71, 0, 10]"] by blast

lemma sample_call:
  "\<exists>e bf s. do_http_request_parse sample_http_env ch_http_sentry_init sample_http_world (request_bytes sample_http_request) =
     Inr (Some (PARSE_CONTINUE, e, sample_http_world\<lparr>hw_buffer := bf\<rparr>)) \<and> reqs e = [s] \<and> request_seen sample_http_request s"
proof -
  obtain e bf where "request_run sample_http_env [request_bytes sample_http_request] ch_http_sentry_init sample_http_world =
      Some (e, sample_http_world\<lparr>hw_buffer := bf\<rparr>)" "list_all2 request_seen [sample_http_request] (reqs e)"
    using requests_at [OF sample_env_ok, of "[sample_http_request]" "[request_bytes sample_http_request]" "[]" sample_http_world] sample_request_plain by auto
  then show ?thesis by (auto simp: list_all2_Cons1 split: sum.splits option.splits if_splits)
qed

definition sample_http_session :: ch_tcp_session where
  "sample_http_session = (let ep = \<lparr>as_frag = ch_assemble_fragment_init, ep_time = 0, last_offset = 0, last_ack = 0, init_seq = 0, ep_ip = 1, ep_port = 80,
       ep_addr = replicate 16 0, ep_is_ipv6 = False\<rparr>
     in \<lparr>endpoint_req = ep, endpoint_res = ep, s_app = None, sentry = None, cur_ep = None, session_id = 0, fin1_seq = 0, fin2_seq = 0,
       s_state = SESSION_STATE_DATA, need_end = False, four_way_state = FOUR_WAY_INIT\<rparr>)"

definition sample_pstore :: ch_proto_session_store where
  "sample_pstore = \<lparr>ps_other = [], ps_http = [], shm_last_time = 0, shm_flush_timeout = 60, pk_buf = [], ps_flushed = 0\<rparr>"

theorem http_record_complete_witness:
  "\<exists>e w s ps d. do_http_request_parse sample_http_env ch_http_sentry_init sample_http_world (request_bytes sample_http_request) = Inr (Some (PARSE_CONTINUE, e, w)) \<and>
     hw_stored (do_http_session_entry_clean e w) = [s] \<and>
     ch_proto_session_store_write (\<lambda>m _. m = http_shm_fmt) 0 PROTOCOL_HTTP 9 (do_http_session_format s) sample_http_session (psEntry s) sample_pstore = Inr (0, ps) \<and>
     ps_http ps = [(9, 0, d)] \<and> mp_objects 1 d \<and> ps_other ps = []"
proof -
  obtain e bf s where c: "do_http_request_parse sample_http_env ch_http_sentry_init sample_http_world (request_bytes sample_http_request) =
     Inr (Some (PARSE_CONTINUE, e, sample_http_world\<lparr>hw_buffer := bf\<rparr>))" "reqs e = [s]" "request_seen sample_http_request s" using sample_call by blast
  let ?w = "sample_http_world\<lparr>hw_buffer := bf\<rparr>"
  have st: "hw_stored (do_http_session_entry_clean e ?w) = [s]"
    using c(2,3) by (simp add: do_http_session_entry_clean_def CAN_STORE_def request_seen_def line_seen_def no_body_def sample_http_world_def)
  have reached: "http_calls sample_http_env sample_http_world e ?w" by (rule http_request [OF http_start c(1)])
  have h: "length (hi_headers (headers_in s)) < 2 ^ 32" "length (ho_headers (headers_out s)) < 2 ^ 32"
    using c(3) by (simp_all add: request_seen_def line_seen_def no_body_def sample_http_request_def http_headers_out_init_def)
  have ts: "length (ep_addr (endpoint_req sample_http_session)) = 16" "length (ep_addr (endpoint_res sample_http_session)) = 16" "pk_buf sample_pstore = []"
    by (simp_all add: sample_http_session_def sample_pstore_def Let_def)
  have "s \<in> set (hw_stored (do_http_session_entry_clean e ?w))" using st by simp
  from http_record_complete [OF sample_http_env_safe sample_world_new reached this h ts, of "\<lambda>m _. m = http_shm_fmt" 0 9]
  obtain ps d where "ch_proto_session_store_write (\<lambda>m _. m = http_shm_fmt) 0 PROTOCOL_HTTP 9 (do_http_session_format s) sample_http_session (psEntry s) sample_pstore =
      Inr (0, ps)" "ps_http ps = [(9, 0, d)]" "mp_objects 1 d" "ps_other ps = []"
    by (auto simp: sample_pstore_def sample_http_session_def Let_def)
  then show ?thesis using c(1) st by blast
qed

theorem http_header_no_memory_crash_witness:
  "http_header_parse (sample_http_env\<lparr>he_pool := (\<lambda>_. False)\<rparr>) ch_http_session_create \<lparr>ln_line = header_line_bytes [72] [98], ln_len = 4\<rparr> True = Inl Null_Deref"
  by (rule http_header_no_memory_crash) (simp_all add: sample_http_env_def header_name_ok_def header_value_ok_def)

theorem http_one_body_dir_crash_witness:
  "http_body_parse (sample_http_env\<lparr>he_dir := (\<lambda>d. d)\<rparr>) sample_http_world ch_http_session_create (piece_input [1]) False = Inl Null_Deref"
  by (rule http_one_body_dir_crash) (simp_all add: sample_http_env_def sample_http_world_def ch_http_session_create_def)

end
