(* ===== verification/Ftp_Session.thy ===== *)
theory Ftp_Session
  imports Proto_Store Fpath
begin

text \<open>
  FTP sessions: the commands and answers of a control connection (\<^verbatim>\<open>tcp/app/ftp/ch_ftp_session.c\<close>, \<^verbatim>\<open>ch_ftp_session.h\<close>), the expected data
  connections (\<^verbatim>\<open>ch_ftp_data_connection_pool.c\<close>) and the sessions on them (\<^verbatim>\<open>ch_ftp_data_session_entry.c\<close>,
  \<^verbatim>\<open>do_ftp_data_session_entry_create.c\<close>, \<^verbatim>\<open>do_ftp_data_session_parse.c\<close>, \<^verbatim>\<open>do_ftp_data_session_format.c\<close>). Control sessions, data
  connections and data sessions point at each other and die at different times, so they live in a store from addresses; a
  pointer that is followed to an object that is no longer there is a \<open>Use_After_Free\<close>.
\<close>

section \<open>Commands and answers\<close>

text \<open>Strings of a memory pool are cut at their first zero by \<^verbatim>\<open>ch_pstrndup\<close>.\<close>

record ch_ftp_ans =
  fa_code :: u16
  fa_phrase :: c_string

record ch_ftp_cmd =
  fc_cmd :: string
  fc_args :: c_string
  fc_dcon :: "addr option"
  fc_ans_n :: size_t
  fc_ans :: "ch_ftp_ans list"

text \<open>The list of the commands starts with the newest. A pointer to a command is its number, counted from the first.\<close>

record ch_ftp_session =
  fs_cmds :: "ch_ftp_cmd list"
  fs_cur_cmd :: "nat option"
  fs_cmd_n :: size_t
  fs_user :: c_string
  fs_passwd :: c_string

definition cmd_at :: "ch_ftp_session \<Rightarrow> nat \<Rightarrow> ch_ftp_cmd" where
  "cmd_at s k = fs_cmds s ! (length (fs_cmds s) - 1 - k)"

definition cmd_update :: "ch_ftp_session \<Rightarrow> nat \<Rightarrow> (ch_ftp_cmd \<Rightarrow> ch_ftp_cmd) \<Rightarrow> ch_ftp_session" where
  "cmd_update s k f = s\<lparr>fs_cmds := (fs_cmds s)[length (fs_cmds s) - 1 - k := f (cmd_at s k)]\<rparr>"

definition ch_ftp_session_create :: ch_ftp_session where
  "ch_ftp_session_create = \<lparr>fs_cmds = [], fs_cur_cmd = None, fs_cmd_n = 0, fs_user = None, fs_passwd = None\<rparr>"

text \<open>
  \<^verbatim>\<open>memcmp\<close> of a name and the string of a command ends at the zero of a shorter string. The one with the bytes of a line compares as
  many bytes as the word has: the name and its zero, and what lies behind them.
\<close>

definition IS_CMD :: "ch_ftp_cmd \<Rightarrow> string \<Rightarrow> bool" where
  "IS_CMD c name \<longleftrightarrow> take (length name) (fc_cmd c) = name"

definition IS_CMD_STR :: "bytes \<Rightarrow> string \<Rightarrow> bool res" where
  "IS_CMD_STR w name =
     (let lit = text_bytes name @ [0]
      in if take (length lit) w = lit \<and> length w > length lit then Inl Out_Of_Bounds
         else Inr (w = take (length w) lit))"

text \<open>The words of a line are \<open>None\<close> when their \<^verbatim>\<open>data\<close> are \<^verbatim>\<open>NULL\<close>; they are not empty else.\<close>

definition ch_ftp_session_cmd_add :: "ch_ftp_session \<Rightarrow> bytes option \<Rightarrow> bytes option \<Rightarrow> ch_ftp_session res" where
  "ch_ftp_session_cmd_add s cmd_str args_str =
     (case cmd_str of
        None \<Rightarrow> Inr s
      | Some w \<Rightarrow>
          if w = [] then Inr s
          else
            let cmd_args = (case args_str of None \<Rightarrow> None | Some a \<Rightarrow> if a = [] then None else Some (c_string_of a));
                add = (\<lambda>s. Inr (s\<lparr>fs_cmds := \<lparr>fc_cmd = c_string_of w, fc_args = cmd_args, fc_dcon = None, fc_ans_n = 0, fc_ans = []\<rparr> # fs_cmds s,
                  fs_cmd_n := fs_cmd_n s + 1, fs_cur_cmd := Some (length (fs_cmds s))\<rparr>))
            in bind_res (if fs_user s = None then IS_CMD_STR w ''USER'' else Inr False) (\<lambda>is_user.
                 if is_user then add (s\<lparr>fs_user := cmd_args\<rparr>)
                 else bind_res (if fs_passwd s = None then IS_CMD_STR w ''PASS'' else Inr False) (\<lambda>is_pass.
                   if is_pass then add (s\<lparr>fs_passwd := cmd_args\<rparr>) else add s)))"

definition byte_digit :: "u8 \<Rightarrow> bool" where
  "byte_digit c \<longleftrightarrow> 48 \<le> c \<and> c \<le> 57"

definition byte_space :: "u8 \<Rightarrow> bool" where
  "byte_space c \<longleftrightarrow> c = 32 \<or> 9 \<le> c \<and> c \<le> 13"

definition str_to_uint16 :: "bytes \<Rightarrow> u16" where
  "str_to_uint16 w = foldl (\<lambda>code c. code * 10 + (ucast c - 48)) 0 (takeWhile byte_digit w)"

text \<open>The answer, with the number of its command.\<close>

definition ch_ftp_session_ans_add :: "ch_ftp_session \<Rightarrow> bytes option \<Rightarrow> bytes option \<Rightarrow> (nat \<times> ch_ftp_ans) option \<times> ch_ftp_session" where
  "ch_ftp_session_ans_add s code_str phrase_str =
     (case fs_cur_cmd s of
        None \<Rightarrow> (None, s)
      | Some k \<Rightarrow>
          (case code_str of
             None \<Rightarrow> (None, s)
           | Some w \<Rightarrow>
               if w = [] \<or> str_to_uint16 w = 0 then (None, s)
               else
                 let phrase = (case phrase_str of None \<Rightarrow> None | Some a \<Rightarrow> if a = [] then None else Some (c_string_of a));
                     ans = \<lparr>fa_code = str_to_uint16 w, fa_phrase = phrase\<rparr>
                 in (Some (k, ans), cmd_update s k (\<lambda>c. c\<lparr>fc_ans_n := fc_ans_n c + 1, fc_ans := fc_ans c @ [ans]\<rparr>))))"

fun find_number :: "(ch_ftp_cmd \<Rightarrow> bool) \<Rightarrow> ch_ftp_cmd list \<Rightarrow> nat option" where
  "find_number P [] = None"
| "find_number P (c # cs) = (if P c then Some (length cs) else find_number P cs)"

definition ch_ftp_session_find_last_cmd :: "ch_ftp_session \<Rightarrow> string \<Rightarrow> nat option" where
  "ch_ftp_session_find_last_cmd s cmd = find_number (\<lambda>c. IS_CMD c cmd) (fs_cmds s)"

text \<open>A string of an object that may be gone before it is read: \<^verbatim>\<open>NULL\<close>, the literal \<^verbatim>\<open>""\<close>, a string in the memory of the control session.\<close>

datatype ftp_str = FS_NULL | FS_EMPTY | FS_POOL string

definition ftp_str_of :: "c_string \<Rightarrow> ftp_str" where
  "ftp_str_of v = (case v of None \<Rightarrow> FS_NULL | Some s \<Rightarrow> FS_POOL s)"

definition STR_IS_EMPTY :: "ftp_str \<Rightarrow> bool" where
  "STR_IS_EMPTY v \<longleftrightarrow> v = FS_NULL \<or> v = FS_EMPTY \<or> v = FS_POOL []"

definition ch_ftp_session_fpath_name_set :: "ch_ftp_session \<Rightarrow> ftp_str \<times> ftp_str" where
  "ch_ftp_session_fpath_name_set s =
     (let fname = (case find_number (\<lambda>c. IS_CMD c ''RETR'' \<or> IS_CMD c ''STOR'') (fs_cmds s) of
              None \<Rightarrow> FS_EMPTY
            | Some k \<Rightarrow> ftp_str_of (fc_args (cmd_at s k)));
          fpath = (if STR_IS_EMPTY fname then
              (case ch_ftp_session_find_last_cmd s ''LIST'' of
                 None \<Rightarrow> FS_EMPTY
               | Some k \<Rightarrow> if \<not> str_empty (fc_args (cmd_at s k)) then ftp_str_of (fc_args (cmd_at s k)) else FS_EMPTY)
            else FS_EMPTY);
          fpath = (if STR_IS_EMPTY fpath then
              (case ch_ftp_session_find_last_cmd s ''PWD'' of
                 None \<Rightarrow> fpath
               | Some k \<Rightarrow> (case fc_ans (cmd_at s k) of [] \<Rightarrow> fpath | ans # _ \<Rightarrow> ftp_str_of (fa_phrase ans)))
            else fpath)
      in (fpath, fname))"

section \<open>The store\<close>

text \<open>The entry of a control connection; \<open>fe_session\<close> points at its session, which is in the same memory pool.\<close>

record ch_ftp_session_entry =
  fe_psEntry :: ch_proto_session_entry
  data_input_req :: ch_pp_data_input
  data_input_res :: ch_pp_data_input
  fe_session :: addr

text \<open>\<open>dc_cmd\<close>: the control session and the number of the command; \<open>dc_task\<close>: the list it is in.\<close>

record ch_ftp_data_connection =
  dc_src_ip :: u32
  dc_dst_ip :: u32
  dc_dst_port :: u32
  dc_task :: nat
  dc_session :: addr
  dc_cmd :: "(addr \<times> nat) option"
  dc_entry :: "addr option"
  dc_tsession :: "addr option"

text \<open>\<open>de_fp\<close>: the open file as the bytes written to it.\<close>

record ch_ftp_data_session_entry =
  de_psEntry :: ch_proto_session_entry
  de_dcon :: addr
  de_ftp_path :: ftp_str
  de_ftp_fname :: ftp_str
  de_fstore_path :: c_string
  de_fp :: "bytes option"

text \<open>
  What is outside: the number of the task, the ports of the configuration, whether memory can be had for a pool (\<open>fe_pool\<close>), for a session in a pool (\<open>fe_alloc\<close>),
  for the shared buffer (\<open>fe_mal\<close>) and for unread data (\<open>fe_palloc\<close>), the time at the \<open>n\<close>-th name of a file, which files can be opened, how much of the data gets into a file,
  which records fit into the shared memory, and the time of day.
\<close>

record ftp_env =
  fe_task :: nat
  fe_ports :: "u16 list"
  fe_pool :: bool
  fe_alloc :: bool
  fe_mal :: "nat \<Rightarrow> bool"
  fe_palloc :: "nat \<Rightarrow> bool"
  fe_time :: "nat \<Rightarrow> tm \<times> u64"
  fe_open :: "string \<Rightarrow> bool"
  fe_write :: "string \<Rightarrow> bytes \<Rightarrow> nat"
  fe_put :: "shm_format \<Rightarrow> ch_msgpack_store \<Rightarrow> bool"
  fe_clock :: u64

record ftp_world =
  fw_sessions :: "addr \<Rightarrow> ch_ftp_session option"
  fw_dcons :: "addr \<Rightarrow> ch_ftp_data_connection option"
  fw_entries :: "addr \<Rightarrow> ch_ftp_data_session_entry option"
  fw_tcp :: "addr \<Rightarrow> ch_tcp_session option"
  fw_lists :: "nat \<Rightarrow> addr list"
  fw_fpaths :: "nat \<Rightarrow> ch_fpath option"
  fw_names :: nat
  fw_next :: addr
  fw_pstore :: ch_proto_session_store

definition deref :: "(addr \<Rightarrow> 'x option) \<Rightarrow> addr \<Rightarrow> 'x res" where
  "deref m a = (case m a of None \<Rightarrow> Inl Use_After_Free | Some x \<Rightarrow> Inr x)"

lemma deref_simps [simp]: "deref m a = Inr x \<longleftrightarrow> m a = Some x" "deref m a = Inl e \<longleftrightarrow> m a = None \<and> e = Use_After_Free"
  by (auto simp: deref_def split: option.splits)

lemma deref_Some: "m a = Some x \<Longrightarrow> deref m a = Inr x"
  by simp

section \<open>Data connections\<close>

definition MAX_THREAD_NUM :: nat where "MAX_THREAD_NUM = 256"

text \<open>Every task has a path of its own; one that could not be made is \<^verbatim>\<open>NULL\<close>.\<close>

definition ch_ftp_data_connection_pool_init :: "(nat \<Rightarrow> bool) \<Rightarrow> string \<Rightarrow> int \<Rightarrow> ftp_world \<Rightarrow> ftp_world" where
  "ch_ftp_data_connection_pool_init mal fstore_dir ty w =
     w\<lparr>fw_fpaths := (\<lambda>i. if i < MAX_THREAD_NUM then ch_fpath_create mal fstore_dir ty False (int i + 1) else fw_fpaths w i),
       fw_lists := (\<lambda>i. if i < MAX_THREAD_NUM then [] else fw_lists w i)\<rparr>"

definition ENTRY_IS_EQUAL :: "ch_ftp_data_connection \<Rightarrow> tcp_pkt \<Rightarrow> bool" where
  "ENTRY_IS_EQUAL dcon p \<longleftrightarrow>
     t_src_ip p = dc_dst_ip dcon \<and> ucast (t_src_port p) = dc_dst_port dcon \<and> t_dst_ip p = dc_src_ip dcon \<or>
     t_dst_ip p = dc_dst_ip dcon \<and> ucast (t_dst_port p) = dc_dst_port dcon \<and> t_src_ip p = dc_src_ip dcon"

definition ch_ftp_data_connection_create :: "ftp_env \<Rightarrow> addr \<Rightarrow> u32 \<Rightarrow> u32 \<Rightarrow> u32 \<Rightarrow> ftp_world \<Rightarrow> addr option \<times> ftp_world" where
  "ch_ftp_data_connection_create env sid src_ip dst_ip dst_port w =
     (if fe_task env \<ge> MAX_THREAD_NUM then (None, w)
      else if \<not> fe_pool env then (None, w)
      else
        let a = fw_next w;
            dcon = \<lparr>dc_src_ip = src_ip, dc_dst_ip = dst_ip, dc_dst_port = dst_port, dc_task = fe_task env, dc_session = sid, dc_cmd = None,
              dc_entry = None, dc_tsession = None\<rparr>
        in (Some a, w\<lparr>fw_dcons := (fw_dcons w)(a \<mapsto> dcon), fw_lists := (fw_lists w)(fe_task env := a # fw_lists w (fe_task env)), fw_next := a + 1\<rparr>))"

fun dcon_find :: "ftp_world \<Rightarrow> tcp_pkt \<Rightarrow> addr list \<Rightarrow> addr option res" where
  "dcon_find w p [] = Inr None"
| "dcon_find w p (a # as) = bind_res (deref (fw_dcons w) a) (\<lambda>dcon. if ENTRY_IS_EQUAL dcon p then Inr (Some a) else dcon_find w p as)"

definition ch_ftp_data_connection_find :: "ftp_env \<Rightarrow> tcp_pkt \<Rightarrow> ftp_world \<Rightarrow> addr option res" where
  "ch_ftp_data_connection_find env p w =
     (if fe_task env \<ge> MAX_THREAD_NUM then Inr None else dcon_find w p (fw_lists w (fe_task env)))"

text \<open>The memory pool of a connection holds the sessions on it as well.\<close>

definition ch_ftp_data_connection_fin :: "ftp_env \<Rightarrow> addr \<Rightarrow> ftp_world \<Rightarrow> ftp_world res" where
  "ch_ftp_data_connection_fin env a w =
     (if fe_task env \<ge> MAX_THREAD_NUM then Inr w
      else bind_res (deref (fw_dcons w) a) (\<lambda>dcon.
        Inr (w\<lparr>fw_lists := (fw_lists w)(dc_task dcon := list_del a (fw_lists w (dc_task dcon))),
               fw_dcons := (fw_dcons w)(a := None),
               fw_entries := (\<lambda>x. case fw_entries w x of None \<Rightarrow> None | Some en \<Rightarrow> if de_dcon en = a then None else Some en)\<rparr>)))"

section \<open>Sessions on data connections\<close>

text \<open>The application of a data connection is made with it; its \<^verbatim>\<open>context\<close>, the connection, is the argument \<open>a\<close>.\<close>

definition ch_ftp_data_session_entry_init :: "addr \<Rightarrow> ftp_str \<Rightarrow> ftp_str \<Rightarrow> ch_ftp_data_session_entry" where
  "ch_ftp_data_session_entry_init a ftp_path ftp_fname =
     \<lparr>de_psEntry = ch_proto_session_entry_init, de_dcon = a, de_ftp_path = ftp_path, de_ftp_fname = ftp_fname, de_fstore_path = None, de_fp = None\<rparr>"

definition do_ftp_data_session_entry_create :: "ftp_env \<Rightarrow> addr \<Rightarrow> ftp_world \<Rightarrow> (addr option \<times> ftp_world) res" where
  "do_ftp_data_session_entry_create env a w =
     bind_res (deref (fw_dcons w) a) (\<lambda>dcon.
       if \<not> fe_alloc env then Inr (None, w)
       else bind_res (deref (fw_sessions w) (dc_session dcon)) (\<lambda>s.
         let (ftp_path, ftp_fname) = ch_ftp_session_fpath_name_set s;
             x = fw_next w
         in Inr (Some x, w\<lparr>fw_entries := (fw_entries w)(x \<mapsto> ch_ftp_data_session_entry_init a ftp_path ftp_fname),
                      fw_dcons := (fw_dcons w)(a \<mapsto> dcon\<lparr>dc_entry := Some x\<rparr>), fw_next := x + 1\<rparr>)))"

definition ch_ftp_data_session_entry_fpath_init :: "ftp_env \<Rightarrow> ch_ftp_data_session_entry \<Rightarrow> string \<Rightarrow> int \<times> ch_ftp_data_session_entry" where
  "ch_ftp_data_session_entry_fpath_init env en fpath =
     (if \<not> fe_open env fpath then (-1, en) else (0, en\<lparr>de_fstore_path := Some fpath, de_fp := Some []\<rparr>))"

definition ch_ftp_data_session_entry_write :: "ftp_env \<Rightarrow> ch_ftp_data_session_entry \<Rightarrow> bytes \<Rightarrow> ch_ftp_data_session_entry res" where
  "ch_ftp_data_session_entry_write env en data =
     (case de_fp en of
        None \<Rightarrow> Inl Null_Deref
      | Some b \<Rightarrow> Inr (en\<lparr>de_fp := Some (b @ take (fe_write env (the (de_fstore_path en)) data) data)\<rparr>))"

definition ch_ftp_data_session_entry_fin :: "ch_ftp_data_session_entry \<Rightarrow> ch_ftp_data_session_entry" where
  "ch_ftp_data_session_entry_fin en = (if de_fp en \<noteq> None then en\<lparr>de_fp := None\<rparr> else en)"

text \<open>The session is that of the data connection with the address \<open>ta\<close>.\<close>

definition do_content_process :: "ftp_env \<Rightarrow> addr \<Rightarrow> addr \<Rightarrow> bytes \<Rightarrow> bool \<Rightarrow> ftp_world \<Rightarrow> (int \<times> ftp_world) res" where
  "do_content_process env a ta data is_req w =
     bind_res (deref (fw_dcons w) a) (\<lambda>app_dcon.
     bind_res (deref (fw_tcp w) ta) (\<lambda>ts.
       case sentry ts of
         None \<Rightarrow> Inl Null_Deref
       | Some x \<Rightarrow>
           bind_res (deref (fw_entries w) x) (\<lambda>en.
           bind_res (deref (fw_dcons w) (de_dcon en)) (\<lambda>dcon.
             let w = (if dc_tsession dcon = None then w\<lparr>fw_dcons := (fw_dcons w)(de_dcon en \<mapsto> dcon\<lparr>dc_tsession := Some ta\<rparr>)\<rparr> else w);
                 en = en\<lparr>de_psEntry := ch_proto_session_entry_update (de_psEntry en) (length data) is_req\<rparr>;
                 w = w\<lparr>fw_entries := (fw_entries w)(x \<mapsto> en)\<rparr>
             in bind_res
                  (if de_fp en = None then
                     (case fw_fpaths w (dc_task app_dcon) of
                        None \<Rightarrow> Inl Null_Deref
                      | Some fp \<Rightarrow>
                          let (t, ms) = fe_time env (fw_names w);
                              ((fname, _), fp) = ch_fpath_name_create fp t ms;
                              w = w\<lparr>fw_fpaths := (fw_fpaths w)(dc_task app_dcon \<mapsto> fp), fw_names := fw_names w + 1\<rparr>;
                              (rc, en) = ch_ftp_data_session_entry_fpath_init env en fname
                          in Inr (if rc \<noteq> 0 then -1 else 0, en, w))
                   else Inr (0 :: int, en, w))
                  (\<lambda>(rc, en, w).
                     if rc \<noteq> 0 then Inr (-1, w)
                     else bind_res (ch_ftp_data_session_entry_write env en data) (\<lambda>en. Inr (0, w\<lparr>fw_entries := (fw_entries w)(x \<mapsto> en)\<rparr>)))))))"

definition do_ftp_data_session_request_parse :: "ftp_env \<Rightarrow> addr \<Rightarrow> addr \<Rightarrow> bytes \<Rightarrow> ftp_world \<Rightarrow> (int \<times> ftp_world) res" where
  "do_ftp_data_session_request_parse env a ta data w =
     (if data \<noteq> [] then bind_res (do_content_process env a ta data True w) (\<lambda>(rc, w). Inr (if rc \<noteq> 0 then PARSE_BREAK else PARSE_CONTINUE, w))
      else Inr (PARSE_CONTINUE, w))"

definition do_ftp_data_session_response_parse :: "ftp_env \<Rightarrow> addr \<Rightarrow> addr \<Rightarrow> bytes \<Rightarrow> ftp_world \<Rightarrow> (int \<times> ftp_world) res" where
  "do_ftp_data_session_response_parse env a ta data w =
     (if data \<noteq> [] then bind_res (do_content_process env a ta data False w) (\<lambda>(rc, w). Inr (if rc \<noteq> 0 then PARSE_BREAK else PARSE_CONTINUE, w))
      else Inr (PARSE_CONTINUE, w))"

text \<open>The strings of the record; one in the memory of a control session can be read as long as the control session lives.\<close>

definition ftp_str_read :: "ftp_world \<Rightarrow> addr \<Rightarrow> ftp_str \<Rightarrow> string res" where
  "ftp_str_read w sid v = (case v of FS_NULL \<Rightarrow> Inr [] | FS_EMPTY \<Rightarrow> Inr [] | FS_POOL s \<Rightarrow> bind_res (deref (fw_sessions w) sid) (\<lambda>_. Inr s))"

definition do_ftp_data_session_format :: "string \<Rightarrow> string \<Rightarrow> c_string \<Rightarrow> ch_msgpack_store \<Rightarrow> ch_msgpack_store" where
  "do_ftp_data_session_format ftp_path ftp_fname fstore_path pk =
     (let pk = ch_msgpack_map_start pk (Some ''ftpData'') 3;
          pk = ch_msgpack_write_kv pk ''ftpPWDDir'' (Some ftp_path);
          pk = ch_msgpack_write_kv pk ''ftpFName'' (Some ftp_fname)
      in ch_msgpack_write_kv pk ''storePath'' (Some (case fstore_path of None \<Rightarrow> [] | Some s \<Rightarrow> s)))"

definition PROTOCOL_FTP :: u32 where "PROTOCOL_FTP = 7"
definition PKT_RECORD_TYPE_TCP_FTP :: u8 where "PKT_RECORD_TYPE_TCP_FTP = 11"
definition PKT_RECORD_TYPE_TCP_FTP_DATA :: u8 where "PKT_RECORD_TYPE_TCP_FTP_DATA = 16"

definition ftp_data_store_write :: "ftp_env \<Rightarrow> ch_tcp_session \<Rightarrow> ch_ftp_data_session_entry \<Rightarrow> ftp_world \<Rightarrow> ftp_world res" where
  "ftp_data_store_write env ts en w =
     bind_res (deref (fw_dcons w) (de_dcon en)) (\<lambda>dcon.
     bind_res (ftp_str_read w (dc_session dcon) (de_ftp_path en)) (\<lambda>path.
     bind_res (ftp_str_read w (dc_session dcon) (de_ftp_fname en)) (\<lambda>fname.
     bind_res (ch_proto_session_store_write (fe_put env) (fe_clock env) PROTOCOL_FTP PKT_RECORD_TYPE_TCP_FTP_DATA
         (do_ftp_data_session_format path fname (de_fstore_path en)) ts (de_psEntry en) (fw_pstore w)) (\<lambda>(_, ps).
       Inr (w\<lparr>fw_pstore := ps\<rparr>)))))"

definition ch_ftp_data_session_entry_fin_output :: "ftp_env \<Rightarrow> ch_tcp_session \<Rightarrow> addr \<Rightarrow> ftp_world \<Rightarrow> ftp_world res" where
  "ch_ftp_data_session_entry_fin_output env ts x w =
     bind_res (deref (fw_entries w) x) (\<lambda>en.
     bind_res (ftp_data_store_write env ts en w) (\<lambda>w.
       Inr (w\<lparr>fw_entries := (fw_entries w)(x \<mapsto> ch_ftp_data_session_entry_fin en)\<rparr>)))"

text \<open>
  The data session is given back to the table of TCP sessions; \<^verbatim>\<open>sentry\<close> is set in the object that was given back, which the pool
  keeps, and initialised when it is used again.
\<close>

definition ch_ftp_data_connection_fin_output :: "ftp_env \<Rightarrow> addr \<Rightarrow> ftp_world \<Rightarrow> ftp_world res" where
  "ch_ftp_data_connection_fin_output env a w =
     (if fe_task env \<ge> MAX_THREAD_NUM then Inr w
      else bind_res (deref (fw_dcons w) a) (\<lambda>dcon.
        case (dc_entry dcon, dc_tsession dcon) of
          (Some x, Some ta) \<Rightarrow>
            bind_res (deref (fw_tcp w) ta) (\<lambda>ts.
              if sentry ts = None then Inr w
              else bind_res (ch_ftp_data_session_entry_fin_output env ts x w) (\<lambda>w.
                ch_ftp_data_connection_fin env a (w\<lparr>fw_tcp := (fw_tcp w)(ta := None)\<rparr>)))
        | _ \<Rightarrow> Inr w))"

definition FTP_DATA_SESSION_ENTRY_CAN_STORE :: "ch_ftp_data_session_entry \<Rightarrow> bool" where
  "FTP_DATA_SESSION_ENTRY_CAN_STORE en \<longleftrightarrow> \<not> str_empty (de_fstore_path en)"

definition do_ftp_data_session_entry_clean :: "ftp_env \<Rightarrow> addr \<Rightarrow> ftp_world \<Rightarrow> ftp_world res" where
  "do_ftp_data_session_entry_clean env ta w =
     bind_res (deref (fw_tcp w) ta) (\<lambda>ts.
       case sentry ts of
         None \<Rightarrow> Inr w
       | Some x \<Rightarrow>
           bind_res (deref (fw_entries w) x) (\<lambda>en.
           bind_res (if FTP_DATA_SESSION_ENTRY_CAN_STORE en then ftp_data_store_write env ts en w else Inr w) (\<lambda>w.
             let w = w\<lparr>fw_entries := (fw_entries w)(x \<mapsto> ch_ftp_data_session_entry_fin en)\<rparr>
             in bind_res (deref (fw_dcons w) (de_dcon en)) (\<lambda>dcon.
                  case dc_cmd dcon of
                    None \<Rightarrow> Inl Null_Deref
                  | Some (sid, k) \<Rightarrow>
                      bind_res (deref (fw_sessions w) sid) (\<lambda>s.
                        ch_ftp_data_connection_fin env (de_dcon en)
                          (w\<lparr>fw_sessions := (fw_sessions w)(sid \<mapsto> cmd_update s k (\<lambda>c. c\<lparr>fc_dcon := None\<rparr>))\<rparr>))))))"

end
