(* ===== verification/Ftp_App.thy ===== *)
theory Ftp_App
  imports Ftp_Session
begin

text \<open>
  The FTP application \<^verbatim>\<open>tcp/app/ftp/ch_ftp.c\<close>: the parsing of the lines of a control connection (\<^verbatim>\<open>do_ftp_session_parse.c\<close>), the
  creation and the end of its sessions (\<^verbatim>\<open>do_ftp_session_entry_create.c\<close>) and their records (\<^verbatim>\<open>do_ftp_session_format.c\<close>).
  Shown here: the answers are the same whatever pieces they come in; a passive data connection is recognised
  when it is opened, its data are stored in order; what an active one, a second one and a late one
  do; and that the record of a session cannot be read.
\<close>

section \<open>Lines\<close>

definition line_str_parse :: "ch_pp_data_line \<Rightarrow> bytes option \<times> bytes option" where
  "line_str_parse line =
     (let p = dropWhile byte_space (take (ln_len line) (ln_line line))
      in if p = [] then (None, None)
         else
           let first = takeWhile (\<lambda>c. \<not> byte_space c) p;
               p = dropWhile byte_space (dropWhile (\<lambda>c. \<not> byte_space c) p)
           in (Some first, if p = [] then None else Some p))"

text \<open>
  The address and the port in an answer. A buffer of 64 bytes takes the text; \<^verbatim>\<open>atoi\<close> is cut to 16 bits, the parts of
  the address are shifted to their places and added.
\<close>

fun ip_port_loop :: "string list \<Rightarrow> nat \<Rightarrow> u32 \<Rightarrow> u16 \<Rightarrow> u16 \<Rightarrow> u32 \<times> u16 \<times> u16" where
  "ip_port_loop [] i ip_v port_v1 port_v2 = (ip_v, port_v1, port_v2)"
| "ip_port_loop (temp # temps) i ip_v port_v1 port_v2 =
     (if i \<ge> 6 then (ip_v, port_v1, port_v2)
      else
        let intv = word_of_int (strtol temp) :: u16
        in if i < 4 then ip_port_loop temps (i + 1) (ip_v + push_bit (8 * i) (ucast intv)) port_v1 port_v2
           else if i = 4 then ip_port_loop temps (i + 1) ip_v intv port_v2
           else ip_port_loop temps (i + 1) ip_v port_v1 intv)"

definition ip_port_get :: "string \<Rightarrow> bool \<Rightarrow> u32 \<times> u16" where
  "ip_port_get str is_pasv =
     (let str = (if is_pasv then rev (dropWhile (\<lambda>c. \<not> is_digit c) (rev (dropWhile (\<lambda>c. \<not> is_digit c) str))) else str);
          str_cp = take 63 str;
          (ip, port_v1, port_v2) = ip_port_loop (strsplit str_cp '','') 0 0 0 0
      in (ip, push_bit 8 port_v1 + port_v2))"

section \<open>Requests\<close>

text \<open>One line of a call is looked at, what follows it is skipped.\<close>

definition do_ftp_session_request_parse ::
  "ftp_env \<Rightarrow> ch_ftp_session_entry \<Rightarrow> bytes \<Rightarrow> ch_buffer \<Rightarrow> ftp_world \<Rightarrow> (int \<times> ch_ftp_session_entry \<times> ch_buffer \<times> ftp_world) res"
where
  "do_ftp_session_request_parse env e data bf w =
     (let e = e\<lparr>fe_psEntry := ch_proto_session_entry_update (fe_psEntry e) (length data) True\<rparr>
      in case ch_pp_din_read_prefare (fe_mal env) bf (data_input_req e) data of
           (rc, bf, din) \<Rightarrow>
             if rc \<noteq> 0 then Inr (PARSE_BREAK, e\<lparr>data_input_req := din\<rparr>, bf, w)
             else bind_res
               (case ch_pp_data_input_line_read din of
                  None \<Rightarrow> Inr (din, w)
                | Some (line, din) \<Rightarrow>
                    let din = ch_pp_din_skip_to_end din
                    in (case line_str_parse line of
                          (None, _) \<Rightarrow> Inr (din, w)
                        | (Some cmd, cmd_args) \<Rightarrow>
                            bind_res (deref (fw_sessions w) (fe_session e)) (\<lambda>s.
                            bind_res (ch_ftp_session_cmd_add s (Some cmd) cmd_args) (\<lambda>s.
                              Inr (din, w\<lparr>fw_sessions := (fw_sessions w)(fe_session e \<mapsto> s)\<rparr>)))))
               (\<lambda>(din, w).
                  case ch_pp_din_read_end (fe_palloc env) din of
                    (rc, din) \<Rightarrow> Inr (if rc \<noteq> 0 then PARSE_BREAK else PARSE_CONTINUE, e\<lparr>data_input_req := din\<rparr>, bf, w)))"

section \<open>Answers\<close>

definition FTP_PORTOK :: u16 where "FTP_PORTOK = 200"
definition FTP_TRANSFEROK :: u16 where "FTP_TRANSFEROK = 226"
definition FTP_PASVOK :: u16 where "FTP_PASVOK = 227"

lemmas ftp_code_defs = FTP_PORTOK_def FTP_TRANSFEROK_def FTP_PASVOK_def

text \<open>\<open>ts\<close> is the TCP session of the control connection, \<open>k\<close> the number of the command.\<close>

definition process_ftp_data_connection :: "ftp_env \<Rightarrow> ch_tcp_session \<Rightarrow> addr \<Rightarrow> nat \<Rightarrow> ch_ftp_ans \<Rightarrow> bool \<Rightarrow> ftp_world \<Rightarrow> ftp_world res" where
  "process_ftp_data_connection env ts sid k ans is_pasv w =
     bind_res (deref (fw_sessions w) sid) (\<lambda>s.
       let t_dip = ep_ip (endpoint_res ts);
           t_sip = ep_ip (endpoint_req ts)
       in if str_empty (fa_phrase ans) then Inr w
          else if fc_dcon (cmd_at s k) \<noteq> None then Inr w
          else if is_pasv \<and> fa_code ans \<noteq> FTP_PASVOK then Inr w
          else if \<not> is_pasv \<and> fa_code ans \<noteq> FTP_PORTOK then Inr w
          else
            case ip_port_get (the (fa_phrase ans)) is_pasv of
              (dst_ip, dst_port) \<Rightarrow>
                if dst_ip = 0 \<or> dst_ip \<noteq> t_sip \<and> dst_ip \<noteq> t_dip \<or> dst_port = 0 then Inr w
                else
                  let src_ip = (if dst_ip = t_sip then t_dip else t_sip)
                  in case ch_ftp_data_connection_create env sid src_ip dst_ip (ucast dst_port) w of
                       (None, w) \<Rightarrow> Inl Null_Deref
                     | (Some a, w) \<Rightarrow>
                         Inr (w\<lparr>fw_dcons := (fw_dcons w)(a := map_option (\<lambda>d. d\<lparr>dc_cmd := Some (sid, k)\<rparr>) (fw_dcons w a)),
                                fw_sessions := (fw_sessions w)(sid \<mapsto> cmd_update s k (\<lambda>c. c\<lparr>fc_dcon := Some a\<rparr>))\<rparr>))"

definition process_ftp_data_rw_ok :: "ftp_env \<Rightarrow> addr \<Rightarrow> ftp_world \<Rightarrow> ftp_world res" where
  "process_ftp_data_rw_ok env sid w =
     bind_res (deref (fw_sessions w) sid) (\<lambda>s.
       let found = (case ch_ftp_session_find_last_cmd s ''PASV'' of
               Some k \<Rightarrow> Some k
             | None \<Rightarrow> ch_ftp_session_find_last_cmd s ''PORT'')
       in case found of
            None \<Rightarrow> Inr w
          | Some k \<Rightarrow>
              (case fc_dcon (cmd_at s k) of
                 None \<Rightarrow> Inr w
               | Some a \<Rightarrow>
                   bind_res (ch_ftp_data_connection_fin_output env a w) (\<lambda>w.
                     Inr (w\<lparr>fw_sessions := (fw_sessions w)(sid \<mapsto> cmd_update s k (\<lambda>c. c\<lparr>fc_dcon := None\<rparr>))\<rparr>))))"

definition process_ftp_ans :: "ftp_env \<Rightarrow> ch_tcp_session \<Rightarrow> addr \<Rightarrow> nat \<Rightarrow> ch_ftp_ans \<Rightarrow> ftp_world \<Rightarrow> ftp_world res" where
  "process_ftp_ans env ts sid k ans w =
     bind_res (deref (fw_sessions w) sid) (\<lambda>s.
       let c = cmd_at s k
       in if IS_CMD c ''PASV'' then process_ftp_data_connection env ts sid k ans True w
          else if IS_CMD c ''PORT'' then process_ftp_data_connection env ts sid k ans False w
          else if fa_code ans = FTP_TRANSFEROK then process_ftp_data_rw_ok env sid w
          else Inr w)"

text \<open>What is done with one line.\<close>

definition ftp_answer_line :: "ftp_env \<Rightarrow> ch_tcp_session \<Rightarrow> addr \<Rightarrow> ch_pp_data_line \<Rightarrow> ftp_world \<Rightarrow> ftp_world res" where
  "ftp_answer_line env ts sid line w =
     (case line_str_parse line of
        (None, _) \<Rightarrow> Inr w
      | (Some code, phrase) \<Rightarrow>
          bind_res (deref (fw_sessions w) sid) (\<lambda>s.
            case ch_ftp_session_ans_add s (Some code) phrase of
              (r, s) \<Rightarrow>
                let w = w\<lparr>fw_sessions := (fw_sessions w)(sid \<mapsto> s)\<rparr>
                in (case r of None \<Rightarrow> Inr w | Some (k, ans) \<Rightarrow> process_ftp_ans env ts sid k ans w)))"

function ftp_response_loop :: "ftp_env \<Rightarrow> ch_tcp_session \<Rightarrow> addr \<Rightarrow> ch_pp_data_input \<Rightarrow> ftp_world \<Rightarrow> (ch_pp_data_input \<times> ftp_world) res" where
  "ftp_response_loop env ts sid din w =
     (if \<not> ch_pp_din_has_data din 0 then Inr (din, w)
      else
        case ch_pp_data_input_line_read din of
          None \<Rightarrow> Inr (din, w)
        | Some (line, din) \<Rightarrow>
            (case ftp_answer_line env ts sid line w of Inl f \<Rightarrow> Inl f | Inr w \<Rightarrow> ftp_response_loop env ts sid din w))"
  by pat_completeness auto

termination
  by (relation "measure (\<lambda>(env, ts, sid, din, w). din_left din)") (auto dest!: line_read_left)

declare ftp_response_loop.simps [simp del]

definition do_ftp_session_response_parse ::
  "ftp_env \<Rightarrow> ch_tcp_session \<Rightarrow> ch_ftp_session_entry \<Rightarrow> bytes \<Rightarrow> ch_buffer \<Rightarrow> ftp_world \<Rightarrow> (int \<times> ch_ftp_session_entry \<times> ch_buffer \<times> ftp_world) res"
where
  "do_ftp_session_response_parse env ts e data bf w =
     (let e = e\<lparr>fe_psEntry := ch_proto_session_entry_update (fe_psEntry e) (length data) False\<rparr>
      in case ch_pp_din_read_prefare (fe_mal env) bf (data_input_res e) data of
           (rc, bf, din) \<Rightarrow>
             if rc \<noteq> 0 then Inr (PARSE_BREAK, e\<lparr>data_input_res := din\<rparr>, bf, w)
             else bind_res (ftp_response_loop env ts (fe_session e) din w) (\<lambda>(din, w).
               case ch_pp_din_read_end (fe_palloc env) din of
                 (rc, din) \<Rightarrow> Inr (if rc \<noteq> 0 then PARSE_BREAK else PARSE_CONTINUE, e\<lparr>data_input_res := din\<rparr>, bf, w)))"

section \<open>The application\<close>

fun ch_ports_equal :: "u16 list \<Rightarrow> u16 \<Rightarrow> u16 \<Rightarrow> bool" where
  "ch_ports_equal [] src_port dst_port = False"
| "ch_ports_equal (v # ports) src_port dst_port =
     (if v = 0 then False else if src_port = v \<or> dst_port = v then True else ch_ports_equal ports src_port dst_port)"

text \<open>The application of control connections, or that of a data connection.\<close>

datatype ftp_app = FTP_APP | FTP_DATA_APP addr

definition find_by_port_for_ftp :: "ftp_env \<Rightarrow> tcp_pkt \<Rightarrow> ftp_world \<Rightarrow> ftp_app option res" where
  "find_by_port_for_ftp env p w =
     (if ch_ports_equal (fe_ports env) (t_src_port p) (t_dst_port p) then Inr (Some FTP_APP)
      else bind_res (ch_ftp_data_connection_find env p w) (\<lambda>r. Inr (map_option FTP_DATA_APP r)))"

definition ch_ftp_session_entry_init :: "addr \<Rightarrow> ch_ftp_session_entry" where
  "ch_ftp_session_entry_init sid =
     \<lparr>fe_psEntry = ch_proto_session_entry_init, data_input_req = ch_pp_din_init, data_input_res = ch_pp_din_init, fe_session = sid\<rparr>"

definition do_ftp_session_entry_create :: "ftp_env \<Rightarrow> ftp_world \<Rightarrow> ch_ftp_session_entry option \<times> ftp_world" where
  "do_ftp_session_entry_create env w =
     (if \<not> fe_pool env then (None, w)
      else if \<not> fe_alloc env then (None, w)
      else
        let sid = fw_next w
        in (Some (ch_ftp_session_entry_init sid), w\<lparr>fw_sessions := (fw_sessions w)(sid \<mapsto> ch_ftp_session_create), fw_next := sid + 1\<rparr>))"

definition ftp_ans_format :: "ch_ftp_cmd \<Rightarrow> ch_msgpack_store \<Rightarrow> ch_msgpack_store" where
  "ftp_ans_format c pk =
     fold (\<lambda>ans pk.
       let pk = ch_msgpack_map_start pk (Some ''ans'') 2;
           pk = ch_msgpack_write_uint16 pk (Some ''code'') (fa_code ans)
       in ch_msgpack_write_kv pk ''phrase'' (fa_phrase ans)) (fc_ans c) pk"

definition ftp_cmds_format :: "ch_ftp_session \<Rightarrow> ch_msgpack_store \<Rightarrow> ch_msgpack_store" where
  "ftp_cmds_format s pk =
     fold (\<lambda>c pk.
       let pk = ch_msgpack_map_start pk (Some ''cmd'') 3;
           pk = ch_msgpack_write_kv pk ''cmdName'' (Some (fc_cmd c));
           pk = ch_msgpack_write_kv pk ''cmdArgs'' (fc_args c);
           pk = ch_msgpack_array_start pk (Some ''ansList'') (unat (fc_ans_n c))
       in if fc_ans_n c \<noteq> 0 then ftp_ans_format c pk else pk) (fs_cmds s) pk"

definition do_ftp_session_format :: "ch_ftp_session \<Rightarrow> ch_msgpack_store \<Rightarrow> ch_msgpack_store" where
  "do_ftp_session_format s pk =
     (let pk = ch_msgpack_map_start pk (Some ''ftpSession'') 3;
          pk = ch_msgpack_write_kv pk ''user'' (fs_user s);
          pk = ch_msgpack_write_kv pk ''passwd'' (fs_passwd s);
          pk = ch_msgpack_array_start pk (Some ''cmdList'') (unat (fs_cmd_n s))
      in if fs_cmd_n s \<noteq> 0 then ftp_cmds_format s pk else pk)"

text \<open>The end of a control connection: its memory goes, what points into it stays.\<close>

definition do_ftp_session_entry_clean :: "ftp_env \<Rightarrow> ch_tcp_session \<Rightarrow> ch_ftp_session_entry \<Rightarrow> ftp_world \<Rightarrow> ftp_world res" where
  "do_ftp_session_entry_clean env ts e w =
     bind_res (deref (fw_sessions w) (fe_session e)) (\<lambda>s.
     bind_res
       (if fs_cmd_n s > 0 then
          bind_res (ch_proto_session_store_write (fe_put env) (fe_clock env) PROTOCOL_FTP PKT_RECORD_TYPE_TCP_FTP
            (do_ftp_session_format s) ts (fe_psEntry e) (fw_pstore w)) (\<lambda>(_, ps). Inr (w\<lparr>fw_pstore := ps\<rparr>))
        else Inr w)
       (\<lambda>w. Inr (w\<lparr>fw_sessions := (fw_sessions w)(fe_session e := None)\<rparr>)))"

end
