(* ===== verification/Ftp_Lines.thy ===== *)
theory Ftp_Lines
  imports Ftp_App
begin

text \<open>
  The control connection as a stream: the calls of the application see the answers in pieces, cut anywhere. Here the loop over
  a piece is shown to do what is done with the complete lines of the whole stream, one after the other, and what happens to
  commands that come together.
\<close>

section \<open>Lines of a stream\<close>

text \<open>The complete lines, without their line feeds, and what follows the last of them; \<open>acc\<close> is the start of the line.\<close>

fun split_lines :: "bytes \<Rightarrow> bytes \<Rightarrow> bytes list \<times> bytes" where
  "split_lines acc [] = ([], acc)"
| "split_lines acc (c # cs) =
     (if c = LF then (case split_lines [] cs of (ls, r) \<Rightarrow> (acc # ls, r)) else split_lines (acc @ [c]) cs)"

definition ftp_line :: "bytes \<Rightarrow> ch_pp_data_line" where
  "ftp_line b = \<lparr>ln_line = b @ [LF], ln_len = length (strip_cr b)\<rparr>"

fun ftp_answers :: "ftp_env \<Rightarrow> ch_tcp_session \<Rightarrow> addr \<Rightarrow> bytes list \<Rightarrow> ftp_world \<Rightarrow> ftp_world res" where
  "ftp_answers env ts sid [] w = Inr w"
| "ftp_answers env ts sid (l # ls) w = bind_res (ftp_answer_line env ts sid (ftp_line l) w) (ftp_answers env ts sid ls)"

lemma split_lines_append:
  "split_lines acc (xs @ ys) =
     (case split_lines acc xs of (ls, r) \<Rightarrow> (case split_lines r ys of (ls', r') \<Rightarrow> (ls @ ls', r')))"
  by (induction acc xs rule: split_lines.induct) (auto split: prod.splits)

lemma split_lines_rest: "LF \<notin> set acc \<Longrightarrow> split_lines acc xs = (ls, r) \<Longrightarrow> LF \<notin> set r"
  by (induction acc xs arbitrary: ls r rule: split_lines.induct) (auto split: prod.splits if_splits)

lemma split_lines_no_lf: "LF \<notin> set xs \<Longrightarrow> split_lines acc xs = ([], acc @ xs)"
  by (induction acc xs rule: split_lines.induct) auto

lemma split_lines_line: "LF \<notin> set b \<Longrightarrow> split_lines acc (b @ LF # cs) = (case split_lines [] cs of (ls, r) \<Rightarrow> ((acc @ b) # ls, r))"
  by (induction b arbitrary: acc) (auto split: prod.splits)

lemma split_lines_acc: "LF \<notin> set acc \<Longrightarrow> split_lines acc xs = split_lines [] (acc @ xs)"
  using split_lines_append [of "[]" acc xs] by (simp add: split_lines_no_lf split: prod.splits)

lemma ftp_answers_append: "ftp_answers env ts sid (ls @ ls') w = bind_res (ftp_answers env ts sid ls w) (ftp_answers env ts sid ls')"
  by (induction ls arbitrary: w) (auto simp: bind_res_def split: sum.splits)

section \<open>The loop over a piece\<close>

lemma unread_line:
  assumes "ch_pp_data_input_line_read din = Some (line, din')"
  shows "\<exists>b rest. pp_unread din = b @ LF # rest \<and> LF \<notin> set b \<and> line = ftp_line b \<and> pp_unread din' = rest"
proof -
  have "LF \<in> set (pp_unread din)" using assms line_read_None [of din] by auto
  then obtain b rest where b: "pp_unread din = b @ LF # rest" "LF \<notin> set b" by (meson split_list_first)
  from line_read_at [OF this] assms b show ?thesis by (auto simp: ftp_line_def)
qed

lemma response_loop_lines:
  "split_lines [] (pp_unread din) = (ls, r) \<Longrightarrow>
   map_sum id (\<lambda>(din', w'). (pp_unread din', w')) (ftp_response_loop env ts sid din w) = map_sum id (Pair r) (ftp_answers env ts sid ls w)"
proof (induction env ts sid din w arbitrary: ls r rule: ftp_response_loop.induct)
  case (1 env ts sid din w)
  show ?case
  proof (cases "ch_pp_data_input_line_read din")
    case None
    then have n: "LF \<notin> set (pp_unread din)" by (simp add: line_read_None)
    have "ftp_response_loop env ts sid din w = Inr (din, w)" by (subst ftp_response_loop.simps) (simp add: None)
    then show ?thesis using "1.prems" split_lines_no_lf [OF n, of "[]"] by simp
  next
    case (Some ld)
    obtain line din' where ld: "ld = (line, din')" by (cases ld)
    from unread_line Some ld obtain b rest where b: "pp_unread din = b @ LF # rest" "LF \<notin> set b" "line = ftp_line b" "pp_unread din' = rest" by metis
    obtain ls' where ls: "ls = b # ls'" "split_lines [] rest = (ls', r)"
      using "1.prems" split_lines_line [OF b(2), of "[]" rest] b(1) by (auto split: prod.splits)
    have has: "ch_pp_din_has_data din 0" by (simp add: has_data_unread b(1))
    have step: "ftp_response_loop env ts sid din w = (case ftp_answer_line env ts sid line w of Inl f \<Rightarrow> Inl f | Inr w \<Rightarrow> ftp_response_loop env ts sid din' w)"
      by (subst ftp_response_loop.simps) (simp add: has Some ld)
    show ?thesis
    proof (cases "ftp_answer_line env ts sid line w")
      case (Inl f)
      then show ?thesis by (simp add: step ls(1) b(3))
    next
      case (Inr w1)
      from "1.IH" [OF _ Some ld [symmetric] Inr] has b(4) ls(2) show ?thesis using Inr by (simp add: step ls(1) b(3))
    qed
  qed
qed

section \<open>Answers in pieces\<close>

text \<open>Calls one after the other; the session goes on as long as the calls say so.\<close>

fun ftp_responses ::
  "ftp_env \<Rightarrow> ch_tcp_session \<Rightarrow> bytes list \<Rightarrow> ch_ftp_session_entry \<Rightarrow> ch_buffer \<Rightarrow> ftp_world \<Rightarrow> (int list \<times> ch_ftp_session_entry \<times> ch_buffer \<times> ftp_world) res"
where
  "ftp_responses env ts [] e bf w = Inr ([], e, bf, w)"
| "ftp_responses env ts (d # ds) e bf w =
     bind_res (do_ftp_session_response_parse env ts e d bf w) (\<lambda>(rc, e, bf, w).
       bind_res (ftp_responses env ts ds e bf w) (\<lambda>(rcs, e, bf, w). Inr (rc # rcs, e, bf, w)))"

definition memory_works :: "ftp_env \<Rightarrow> bool" where
  "memory_works env \<longleftrightarrow> (\<forall>n. fe_mal env n) \<and> (\<forall>n. fe_palloc env n)"

lemma response_parse_lines:
  assumes "memory_works env" "split_lines [] (pp_left (data_input_res e) @ data) = (ls, r)"
  shows "case do_ftp_session_response_parse env ts e data bf w of
      Inl f \<Rightarrow> ftp_answers env ts (fe_session e) ls w = Inl f
    | Inr (rc, e', bf', w') \<Rightarrow> rc = PARSE_CONTINUE \<and> fe_session e' = fe_session e \<and> pp_left (data_input_res e') = r \<and>
        ftp_answers env ts (fe_session e) ls w = Inr w'"
proof -
  have mal: "\<And>n. fe_mal env n" and pal: "\<And>n. fe_palloc env n" using assms(1) by (auto simp: memory_works_def)
  obtain bf' din where pre: "ch_pp_din_read_prefare (fe_mal env) bf (data_input_res e) data = (0, bf', din)"
    "pp_unread din = pp_left (data_input_res e) @ data" using read_prefare_ok [where mal = "fe_mal env" and bf = bf and din = "data_input_res e" and data = data] mal by blast
  note lines = response_loop_lines [of din ls r env ts "fe_session e" w, unfolded pre(2), OF assms(2)]
  show ?thesis
  proof (cases "ftp_response_loop env ts (fe_session e) din w")
    case (Inl f)
    then show ?thesis using lines pre(1) by (cases "ftp_answers env ts (fe_session e) ls w") (auto simp: do_ftp_session_response_parse_def Let_def)
  next
    case (Inr dw)
    obtain din' w' where dw: "dw = (din', w')" by (cases dw)
    obtain din'' where fin: "ch_pp_din_read_end (fe_palloc env) din' = (0, din'')" "pp_left din'' = pp_unread din'"
      using read_end_ok [where pool = "fe_palloc env" and din = din'] pal by blast
    from Inr dw lines have "pp_unread din' = r" "ftp_answers env ts (fe_session e) ls w = Inr w'"
      by (cases "ftp_answers env ts (fe_session e) ls w"; auto)+
    then show ?thesis using Inr dw pre(1) fin by (auto simp: do_ftp_session_response_parse_def Let_def)
  qed
qed

lemma responses_lines:
  assumes "memory_works env" "split_lines [] (pp_left (data_input_res e) @ concat ds) = (ls, r)" "LF \<notin> set (pp_left (data_input_res e))"
  shows "case ftp_responses env ts ds e bf w of
      Inl f \<Rightarrow> ftp_answers env ts (fe_session e) ls w = Inl f
    | Inr (rcs, e', bf', w') \<Rightarrow> rcs = replicate (length ds) PARSE_CONTINUE \<and> pp_left (data_input_res e') = r \<and>
        ftp_answers env ts (fe_session e) ls w = Inr w'"
  using assms(2,3)
proof (induction ds arbitrary: e bf w ls r)
  case Nil
  then show ?case by (simp add: split_lines_no_lf)
next
  case (Cons d ds)
  obtain l1 r1 where s1: "split_lines [] (pp_left (data_input_res e) @ d) = (l1, r1)" by (cases "split_lines [] (pp_left (data_input_res e) @ d)")
  have r1: "LF \<notin> set r1" using split_lines_rest [OF _ s1] by simp
  obtain l2 where l2: "split_lines [] (r1 @ concat ds) = (l2, r)" "ls = l1 @ l2"
    using Cons.prems(1) split_lines_append [of "[]" "pp_left (data_input_res e) @ d" "concat ds"] s1 split_lines_acc [OF r1]
    by (auto split: prod.splits)
  show ?case
  proof (cases "do_ftp_session_response_parse env ts e d bf w")
    case (Inl f)
    then show ?thesis using response_parse_lines [OF assms(1) s1, where ts = ts and bf = bf and w = w] by (simp add: l2(2) ftp_answers_append)
  next
    case (Inr x)
    obtain rc e1 bf1 w1 where x: "x = (rc, e1, bf1, w1)" by (metis prod.exhaust)
    from response_parse_lines [OF assms(1) s1, where ts = ts and bf = bf and w = w] Inr x
    have e1: "rc = PARSE_CONTINUE" "fe_session e1 = fe_session e" "pp_left (data_input_res e1) = r1" "ftp_answers env ts (fe_session e) l1 w = Inr w1" by simp_all
    have "split_lines [] (pp_left (data_input_res e1) @ concat ds) = (l2, r)" "LF \<notin> set (pp_left (data_input_res e1))" using l2 r1 e1 by simp_all
    from Cons.IH [OF this, where bf = bf1 and w = w1] show ?thesis using Inr x e1 l2(2) by (auto simp: ftp_answers_append split: sum.splits)
  qed
qed

text \<open>
  C16. The answers of a server are taken the same way whatever pieces of the stream the calls get: what the calls do to the session, to the
  data connections and to the stored records is what is done with the complete lines of the stream, each once, in their order, and the start of a line that
  is not complete is kept for the next call.
\<close>

theorem ftp_answers_any_pieces:
  assumes "memory_works env" "split_lines [] (pp_left (data_input_res e) @ concat ds) = (ls, r)" "LF \<notin> set (pp_left (data_input_res e))"
  shows "case ftp_responses env ts ds e bf w of
      Inl f \<Rightarrow> ftp_answers env ts (fe_session e) ls w = Inl f
    | Inr (rcs, e', bf', w') \<Rightarrow> rcs = replicate (length ds) PARSE_CONTINUE \<and> pp_left (data_input_res e') = r \<and>
        ftp_answers env ts (fe_session e) ls w = Inr w'"
  using assms by (rule responses_lines)

text \<open>A client with the address 1 and a server with the address 2; a control session without commands.\<close>

definition sample_ftp_env :: ftp_env where
  "sample_ftp_env = \<lparr>fe_task = 0, fe_ports = [21], fe_pool = True, fe_alloc = True, fe_mal = (\<lambda>_. True), fe_palloc = (\<lambda>_. True),
     fe_time = (\<lambda>_. (\<lparr>tm_year = 2018, tm_mon = 9, tm_mday = 14, tm_hour = 11, tm_min = 28, tm_sec = 42\<rparr>, 7)), fe_open = (\<lambda>_. True),
     fe_write = (\<lambda>_ d. length d), fe_put = (\<lambda>_ _. True), fe_clock = 0\<rparr>"

definition sample_ftp_tcp :: "addr option \<Rightarrow> ch_tcp_session" where
  "sample_ftp_tcp x = (let ep = \<lparr>as_frag = ch_assemble_fragment_init, ep_time = 0, last_offset = 0, last_ack = 0, init_seq = 0, ep_ip = 1, ep_port = 4000,
       ep_addr = replicate 16 0, ep_is_ipv6 = False\<rparr>
     in \<lparr>endpoint_req = ep, endpoint_res = ep\<lparr>ep_ip := 2, ep_port := 21\<rparr>, s_app = None, sentry = x, cur_ep = None, session_id = 0, fin1_seq = 0, fin2_seq = 0,
       s_state = SESSION_STATE_DATA, need_end = False, four_way_state = FOUR_WAY_INIT\<rparr>)"

definition sample_ftp_world :: ftp_world where
  "sample_ftp_world = \<lparr>fw_sessions = [0 \<mapsto> ch_ftp_session_create], fw_dcons = (\<lambda>_. None), fw_entries = (\<lambda>_. None), fw_tcp = (\<lambda>_. None), fw_lists = (\<lambda>_. []),
     fw_fpaths = (\<lambda>i. ch_fpath_create (\<lambda>_. True) ''/data'' BY_DAY False (int i + 1)), fw_names = 0, fw_next = 1,
     fw_pstore = \<lparr>ps_other = [], ps_http = [], shm_last_time = 0, shm_flush_timeout = 60, pk_buf = [], ps_flushed = 0\<rparr>\<rparr>"

definition sample_buffer :: ch_buffer where
  "sample_buffer = \<lparr>b_null = False, b_current_size = B_SIZE_DEFAULT\<rparr>"

text \<open>The line 220 in two pieces, and the first digit of the next.\<close>

theorem ftp_answers_any_pieces_witness:
  "\<exists>e' bf' w'. ftp_responses sample_ftp_env (sample_ftp_tcp None) [[50, 50], [48, 10, 51]] (ch_ftp_session_entry_init 0) sample_buffer sample_ftp_world =
     Inr ([PARSE_CONTINUE, PARSE_CONTINUE], e', bf', w') \<and> pp_left (data_input_res e') = [51] \<and>
     ftp_answers sample_ftp_env (sample_ftp_tcp None) 0 [[50, 50, 48]] sample_ftp_world = Inr w'"
proof -
  let ?e = "ch_ftp_session_entry_init 0"
  have m: "memory_works sample_ftp_env" by (simp add: memory_works_def sample_ftp_env_def)
  have l: "pp_left (data_input_res ?e) = []" by (simp add: ch_ftp_session_entry_init_def ch_pp_din_init_def pp_left_def)
  have sp: "split_lines [] (pp_left (data_input_res ?e) @ concat [[50, 50], [48, 10, 51]]) = ([[50, 50, 48]], [51])" by (simp add: l)
  have "line_str_parse (ftp_line [50, 50, 48]) = (Some [50, 50, 48], None)"
    by (simp add: line_str_parse_def ftp_line_def strip_cr_def byte_space_def)
  then have a: "\<exists>w'. ftp_answers sample_ftp_env (sample_ftp_tcp None) 0 [[50, 50, 48]] sample_ftp_world = Inr w'"
    by (simp add: ftp_answer_line_def sample_ftp_world_def deref_def ch_ftp_session_ans_add_def ch_ftp_session_create_def)
  have "fe_session ?e = 0" by (simp add: ch_ftp_session_entry_init_def)
  then show ?thesis
    using ftp_answers_any_pieces [OF m sp, where ts = "sample_ftp_tcp None" and bf = sample_buffer and w = sample_ftp_world] l a
    by (auto simp: numeral_2_eq_2 simp del: ftp_responses.simps ftp_answers.simps split: sum.splits)
qed

end
