(* ===== verification/Ftp_Data.thy ===== *)
theory Ftp_Data
  imports Ftp_Lines
begin

text \<open>
  Data connections of FTP from the answer that announces them to the record of what was transferred: the address and
  the port in the answer to \<^verbatim>\<open>PASV\<close>, the connection that is found by them, the data in its file, the two ways it ends. Then what goes
  wrong: connections that the client announces, control connections that end first, records.
\<close>

section \<open>The address in an answer\<close>

lemma strsplit_Cons:
  assumes "xs \<noteq> []" "c \<notin> set xs"
  shows "strsplit (xs @ c # ys) [c] = xs # strsplit ys [c]"
proof -
  obtain x xs' where xs: "xs = x # xs'" "x \<noteq> c" "c \<notin> set xs'" using assms by (cases xs) auto
  have "takeWhile (\<lambda>a. a \<noteq> c) (xs' @ c # ys) = xs'" "dropWhile (\<lambda>a. a \<noteq> c) (xs' @ c # ys) = c # ys" using xs(3) by (induction xs') auto
  then have "ch_strtok (xs @ c # ys) [c] = Some (xs, ys)" using xs by (simp add: ch_strtok_def)
  then show ?thesis by (subst strsplit.simps) simp
qed

lemma strsplit_single:
  assumes "xs \<noteq> []" "c \<notin> set xs"
  shows "strsplit xs [c] = [xs]"
proof -
  obtain x xs' where xs: "xs = x # xs'" "x \<noteq> c" "c \<notin> set xs'" using assms by (cases xs) auto
  have "takeWhile (\<lambda>a. a \<noteq> c) xs' = xs'" "tl (dropWhile (\<lambda>a. a \<noteq> c) xs') = []" using xs(3) by (induction xs') auto
  then have "ch_strtok xs [c] = Some (xs, [])" using xs by (simp add: ch_strtok_def)
  moreover have "strsplit [] [c] = []" by (subst strsplit.simps) (simp add: ch_strtok_def)
  ultimately show ?thesis by (subst strsplit.simps) simp
qed

lemma no_comma: "CHR '','' \<notin> set (decimal n)"
  using decimal_digit [of "CHR '',''" n] by (auto simp: is_digit_def char_code_def)

lemma decimal_nonempty [simp]: "decimal n \<noteq> []"
  by (simp add: decimal_def)

text \<open>The six numbers of an answer.\<close>

definition pasv_numbers :: "nat \<Rightarrow> nat \<Rightarrow> nat \<Rightarrow> nat \<Rightarrow> nat \<Rightarrow> nat \<Rightarrow> string" where
  "pasv_numbers h1 h2 h3 h4 p1 p2 =
     decimal h1 @ '','' @ decimal h2 @ '','' @ decimal h3 @ '','' @ decimal h4 @ '','' @ decimal p1 @ '','' @ decimal p2"

definition pasv_ip :: "nat \<Rightarrow> nat \<Rightarrow> nat \<Rightarrow> nat \<Rightarrow> u32" where
  "pasv_ip h1 h2 h3 h4 = of_nat (h1 + 256 * h2 + 65536 * h3 + 16777216 * h4)"

definition pasv_port :: "nat \<Rightarrow> nat \<Rightarrow> u16" where
  "pasv_port p1 p2 = of_nat (256 * p1 + p2)"

lemma pasv_split: "strsplit (pasv_numbers h1 h2 h3 h4 p1 p2) '','' = [decimal h1, decimal h2, decimal h3, decimal h4, decimal p1, decimal p2]"
  by (simp add: pasv_numbers_def strsplit_Cons strsplit_single no_comma)

lemma strtol_byte: "n < 256 \<Longrightarrow> word_of_int (strtol (decimal n)) = (of_nat n :: u16)"
  by (simp add: strtol_decimal LONG_MAX_def min_def)

lemma ucast_byte: "n < 256 \<Longrightarrow> (ucast (of_nat n :: u16) :: u32) = of_nat n"
  by (simp add: word_unat_eq_iff unsigned_of_nat unsigned_ucast_eq take_bit_eq_mod)

lemma pasv_loop:
  assumes "h1 < 256" "h2 < 256" "h3 < 256" "h4 < 256" "p1 < 256" "p2 < 256"
  shows "ip_port_loop [decimal h1, decimal h2, decimal h3, decimal h4, decimal p1, decimal p2] 0 0 0 0 = (pasv_ip h1 h2 h3 h4, of_nat p1, of_nat p2)"
  using assms by (simp add: strtol_byte ucast_byte pasv_ip_def push_bit_eq_mult Let_def)

text \<open>Text around the numbers: no digit in it, nothing that ends a string or a line.\<close>

definition plain_text :: "string \<Rightarrow> bool" where
  "plain_text s \<longleftrightarrow> (\<forall>c\<in>set s. \<not> is_digit c \<and> char_code c \<noteq> 0 \<and> char_code c \<noteq> 10)"

lemma numbers_digit:
  "\<exists>xs. pasv_numbers h1 h2 h3 h4 p1 p2 = hd (decimal h1) # xs" "is_digit (hd (decimal h1))"
  "\<exists>xs. rev (pasv_numbers h1 h2 h3 h4 p1 p2) = hd (rev (decimal p2)) # xs" "is_digit (hd (rev (decimal p2)))"
proof -
  show "\<exists>xs. pasv_numbers h1 h2 h3 h4 p1 p2 = hd (decimal h1) # xs" by (cases "decimal h1") (auto simp: pasv_numbers_def)
  show "\<exists>xs. rev (pasv_numbers h1 h2 h3 h4 p1 p2) = hd (rev (decimal p2)) # xs"
    by (cases "rev (decimal p2)") (auto simp: pasv_numbers_def)
  show "is_digit (hd (decimal h1))" by (rule decimal_digit [of _ h1]) simp
  show "is_digit (hd (rev (decimal p2)))" by (rule decimal_digit [of _ p2]) (metis decimal_nonempty hd_in_set rev_is_Nil_conv set_rev)
qed

lemma length_numbers:
  assumes "h1 < 256" "h2 < 256" "h3 < 256" "h4 < 256" "p1 < 256" "p2 < 256"
  shows "length (pasv_numbers h1 h2 h3 h4 p1 p2) \<le> 63"
proof -
  have "length (decimal n) \<le> 3" if "n < 256" for n using decimal_length [of n 3] that by simp
  from this [OF assms(1)] this [OF assms(2)] this [OF assms(3)] this [OF assms(4)] this [OF assms(5)] this [OF assms(6)]
  show ?thesis by (simp add: pasv_numbers_def)
qed

lemma ip_port_pasv:
  assumes "h1 < 256" "h2 < 256" "h3 < 256" "h4 < 256" "p1 < 256" "p2 < 256" "plain_text pre" "plain_text post"
  shows "ip_port_get (pre @ pasv_numbers h1 h2 h3 h4 p1 p2 @ post) True = (pasv_ip h1 h2 h3 h4, pasv_port p1 p2)"
proof -
  let ?n = "pasv_numbers h1 h2 h3 h4 p1 p2" and ?nd = "\<lambda>c. \<not> is_digit c"
  have skip: "dropWhile ?nd (xs @ ys) = ys" if "\<forall>c\<in>set xs. ?nd c" "\<exists>z zs. ys = z # zs \<and> is_digit z" for xs ys
    using that by (induction xs) auto
  have "dropWhile ?nd (pre @ ?n @ post) = ?n @ post" using assms(7) numbers_digit(1) [of h1 h2 h3 h4 p1 p2] numbers_digit(2) [of h1] by (intro skip) (auto simp: plain_text_def)
  moreover have "dropWhile ?nd (rev (?n @ post)) = rev ?n"
    using assms(8) numbers_digit(3) [of h1 h2 h3 h4 p1 p2] numbers_digit(4) [of p2]
    unfolding rev_append by (intro skip) (auto simp: plain_text_def)
  moreover have "push_bit 8 (of_nat p1) + of_nat p2 = pasv_port p1 p2" by (simp add: pasv_port_def push_bit_eq_mult mult.commute)
  ultimately show ?thesis
    using length_numbers [OF assms(1-6)] by (simp add: ip_port_get_def pasv_split pasv_loop [OF assms(1-6)] del: ip_port_loop.simps)
qed

section \<open>The answer to PASV\<close>

lemma line_words:
  assumes "code \<noteq> []" "\<forall>c\<in>set code. \<not> byte_space c" "ph \<noteq> []" "\<not> byte_space (hd ph)"
  shows "line_str_parse (ftp_line (code @ 32 # ph @ [CR])) = (Some code, Some ph)"
proof -
  have t: "take (ln_len (ftp_line (code @ 32 # ph @ [CR]))) (ln_line (ftp_line (code @ 32 # ph @ [CR]))) = code @ 32 # ph"
    by (simp add: ftp_line_def strip_cr_def butlast_append)
  have s: "byte_space 32" by (simp add: byte_space_def)
  have "dropWhile byte_space (code @ 32 # ph) = code @ 32 # ph" using assms(1,2) by (cases code) auto
  moreover have "takeWhile (\<lambda>c. \<not> byte_space c) (code @ 32 # ph) = code" "dropWhile (\<lambda>c. \<not> byte_space c) (code @ 32 # ph) = 32 # ph"
    using assms(2) s by (induction code) auto
  moreover have "dropWhile byte_space (32 # ph) = ph" using assms(3,4) s by (cases ph) auto
  ultimately show ?thesis using assms(1,3) by (simp add: line_str_parse_def t Let_def)
qed

lemma cmd_at_update [simp]: "k < length (fs_cmds s) \<Longrightarrow> cmd_at (cmd_update s k f) k = f (cmd_at s k)"
  by (simp add: cmd_at_def cmd_update_def)

lemma cmd_update_fields [simp]:
  "length (fs_cmds (cmd_update s k f)) = length (fs_cmds s)" "fs_cur_cmd (cmd_update s k f) = fs_cur_cmd s" "fs_cmd_n (cmd_update s k f) = fs_cmd_n s"
  "fs_user (cmd_update s k f) = fs_user s" "fs_passwd (cmd_update s k f) = fs_passwd s"
  by (simp_all add: cmd_update_def)

definition pasv_line :: "string \<Rightarrow> bytes" where
  "pasv_line phrase = text_bytes (''227 '' @ phrase) @ [CR]"

text \<open>A session that waits for the answer to its last command, which was \<^verbatim>\<open>PASV\<close>.\<close>

definition awaits_pasv :: "ftp_world \<Rightarrow> addr \<Rightarrow> nat \<Rightarrow> bool" where
  "awaits_pasv w sid k \<longleftrightarrow> (\<exists>s. fw_sessions w sid = Some s \<and> fs_cur_cmd s = Some k \<and> k < length (fs_cmds s) \<and> IS_CMD (cmd_at s k) ''PASV'' \<and>
     fc_dcon (cmd_at s k) = None)"

lemma pasv_answer:
  assumes "awaits_pasv w sid k" "fe_pool env" "fe_task env < 256" "phrase \<noteq> []" "\<not> is_space (hd phrase)" "\<forall>c\<in>set phrase. char_code c \<noteq> 0"
    "ip_port_get phrase True = (ip, port)" "ip \<noteq> 0" "port \<noteq> 0" "ip = ep_ip (endpoint_res ts)"
  shows "\<exists>w' s'. ftp_answer_line env ts sid (ftp_line (pasv_line phrase)) w = Inr w' \<and>
    fw_dcons w' = (fw_dcons w)(fw_next w \<mapsto> \<lparr>dc_src_ip = ep_ip (endpoint_req ts), dc_dst_ip = ip, dc_dst_port = ucast port, dc_task = fe_task env,
      dc_session = sid, dc_cmd = Some (sid, k), dc_entry = None, dc_tsession = None\<rparr>) \<and>
    fw_lists w' = (fw_lists w)(fe_task env := fw_next w # fw_lists w (fe_task env)) \<and> fw_next w' = fw_next w + 1 \<and> fw_pstore w' = fw_pstore w \<and>
    fw_sessions w' = (fw_sessions w)(sid \<mapsto> s') \<and> fc_dcon (cmd_at s' k) = Some (fw_next w)"
proof -
  obtain s where s: "fw_sessions w sid = Some s" "fs_cur_cmd s = Some k" "k < length (fs_cmds s)" "IS_CMD (cmd_at s k) ''PASV''" "fc_dcon (cmd_at s k) = None"
    using assms(1) by (auto simp: awaits_pasv_def)
  let ?ans = "\<lparr>fa_code = 227, fa_phrase = Some phrase\<rparr>"
  have code: "text_bytes ''227'' = [50, 50, 55]" "str_to_uint16 [50, 50, 55] = 227"
    by (simp_all add: text_bytes_def char_code_def str_to_uint16_def byte_digit_def)
  have sp: "byte_space (of_nat (char_code c)) \<longleftrightarrow> is_space c" for c
    using char_code_lt [of c] by (auto simp: byte_space_def is_space_def word_le_nat_alt unsigned_of_nat take_bit_eq_mod word_unat_eq_iff)
  have line: "line_str_parse (ftp_line (pasv_line phrase)) = (Some [50, 50, 55], Some (text_bytes phrase))"
    using line_words [of "[50, 50, 55]" "text_bytes phrase"] assms(4,5) sp [of "hd phrase"]
    by (simp add: pasv_line_def text_bytes_def char_code_def byte_space_def hd_map)
  let ?s1 = "cmd_update s k (\<lambda>c. c\<lparr>fc_ans_n := fc_ans_n c + 1, fc_ans := fc_ans c @ [?ans]\<rparr>)"
  have add: "ch_ftp_session_ans_add s (Some [50, 50, 55]) (Some (text_bytes phrase)) = (Some (k, ?ans), ?s1)"
    using s(2) assms(4) c_string_of_text_bytes [OF assms(6)] by (simp add: ch_ftp_session_ans_add_def code Let_def text_bytes_def)
  show ?thesis
    using s assms(2-4,7-10) line add
    by (auto simp: ftp_answer_line_def process_ftp_ans_def process_ftp_data_connection_def deref_Some IS_CMD_def str_empty_def ftp_code_defs
        ch_ftp_data_connection_create_def MAX_THREAD_NUM_def Let_def)
qed

lemma text_lf: "LF \<in> set (text_bytes s @ [CR]) \<Longrightarrow> \<exists>c\<in>set s. char_code c = 10"
proof -
  assume "LF \<in> set (text_bytes s @ [CR])"
  then obtain c where c: "c \<in> set s" "(of_nat (char_code c) :: u8) = 10" by (auto simp: text_bytes_def)
  have "unat (of_nat (char_code c) :: u8) = char_code c" by (simp add: unsigned_of_nat take_bit_nat_eq_self char_code_lt)
  with c show ?thesis by auto
qed

text \<open>
  C14. A passive data connection is recognised. The server answers \<^verbatim>\<open>PASV\<close> with its own address and a port, with a text before and behind
  the six numbers that has no digit, zero byte or line feed in it, the one before not empty and not beginning with a space, as in
  \<^verbatim>\<open>Entering Passive Mode (h1,h2,h3,h4,p1,p2).\<close>, in any pieces of the stream; then a packet of a connection from the client to that address and port, or back, that is not on a
  port of the control connections, is given to the application of the data connection that the answer made, which
  belongs to the session and to the command.
\<close>

theorem ftp_pasv_data_found:
  assumes "memory_works env" "fe_pool env" "fe_task env < 256" "awaits_pasv w (fe_session e) k" "pp_left (data_input_res e) = []"
    "h1 < 256" "h2 < 256" "h3 < 256" "h4 < 256" "p1 < 256" "p2 < 256" "plain_text pre" "plain_text post" "pre \<noteq> []" "\<not> is_space (hd pre)"
    "pasv_ip h1 h2 h3 h4 = ep_ip (endpoint_res ts)" "pasv_ip h1 h2 h3 h4 \<noteq> 0" "pasv_port p1 p2 \<noteq> 0"
    "concat ds = pasv_line (pre @ pasv_numbers h1 h2 h3 h4 p1 p2 @ post) @ [LF]"
  shows "\<exists>e' bf' w' a dcon. ftp_responses env ts ds e bf w = Inr (replicate (length ds) PARSE_CONTINUE, e', bf', w') \<and>
    fw_dcons w' a = Some dcon \<and> dc_session dcon = fe_session e \<and> dc_cmd dcon = Some (fe_session e, k) \<and> dc_entry dcon = None \<and>
    (\<forall>p. \<not> ch_ports_equal (fe_ports env) (t_src_port p) (t_dst_port p) \<and>
      (t_src_ip p = ep_ip (endpoint_req ts) \<and> t_dst_ip p = ep_ip (endpoint_res ts) \<and> t_dst_port p = pasv_port p1 p2 \<or>
       t_dst_ip p = ep_ip (endpoint_req ts) \<and> t_src_ip p = ep_ip (endpoint_res ts) \<and> t_src_port p = pasv_port p1 p2) \<longrightarrow>
      find_by_port_for_ftp env p w' = Inr (Some (FTP_DATA_APP a)))"
proof -
  let ?phrase = "pre @ pasv_numbers h1 h2 h3 h4 p1 p2 @ post"
  have nz: "char_code c \<noteq> 0 \<and> char_code c \<noteq> 10" if "c \<in> set ?phrase" for c
  proof -
    have "char_code c \<noteq> 0 \<and> char_code c \<noteq> 10" if "c \<in> set (pasv_numbers h1 h2 h3 h4 p1 p2)"
    proof -
      have "c = CHR '','' \<or> is_digit c" using that by (auto simp: pasv_numbers_def dest: decimal_digit)
      then show ?thesis by (auto simp: is_digit_def char_code_def)
    qed
    then show ?thesis using that assms(12,13) by (auto simp: plain_text_def)
  qed
  have lf: "LF \<notin> set (pasv_line ?phrase)"
    using text_lf [of "''227 '' @ ?phrase"] nz unfolding pasv_line_def by (auto simp: char_code_def)
  have lines: "split_lines [] (pp_left (data_input_res e) @ concat ds) = ([pasv_line ?phrase], [])"
    using split_lines_line [OF lf, of "[]" "[]"] by (simp add: assms(5,19))
  have ne: "?phrase \<noteq> []" "\<not> is_space (hd ?phrase)" using assms(14,15) by simp_all
  obtain w' s' where w': "ftp_answer_line env ts (fe_session e) (ftp_line (pasv_line ?phrase)) w = Inr w'"
    "fw_dcons w' = (fw_dcons w)(fw_next w \<mapsto> \<lparr>dc_src_ip = ep_ip (endpoint_req ts), dc_dst_ip = pasv_ip h1 h2 h3 h4, dc_dst_port = ucast (pasv_port p1 p2),
      dc_task = fe_task env, dc_session = fe_session e, dc_cmd = Some (fe_session e, k), dc_entry = None, dc_tsession = None\<rparr>)"
    "fw_lists w' = (fw_lists w)(fe_task env := fw_next w # fw_lists w (fe_task env))"
    using pasv_answer [OF assms(4,2,3) ne _ ip_port_pasv [OF assms(6-13)] assms(17,18,16)] nz by blast
  obtain rcs e' bf' where run: "ftp_responses env ts ds e bf w = Inr (rcs, e', bf', w')" "rcs = replicate (length ds) PARSE_CONTINUE"
    using responses_lines [OF assms(1) lines, where ts = ts and bf = bf and w = w] assms(5) w'(1) by (auto split: sum.splits)
  have "find_by_port_for_ftp env p w' = Inr (Some (FTP_DATA_APP (fw_next w)))"
    if "\<not> ch_ports_equal (fe_ports env) (t_src_port p) (t_dst_port p)"
      "t_src_ip p = ep_ip (endpoint_req ts) \<and> t_dst_ip p = ep_ip (endpoint_res ts) \<and> t_dst_port p = pasv_port p1 p2 \<or>
       t_dst_ip p = ep_ip (endpoint_req ts) \<and> t_src_ip p = ep_ip (endpoint_res ts) \<and> t_src_port p = pasv_port p1 p2" for p
    using that assms(3,16) w'(2,3)
    by (auto simp: find_by_port_for_ftp_def ch_ftp_data_connection_find_def MAX_THREAD_NUM_def deref_Some ENTRY_IS_EQUAL_def)
  then show ?thesis using run w'(2) by auto
qed

definition sample_pasv_world :: ftp_world where
  "sample_pasv_world = sample_ftp_world\<lparr>fw_sessions := [0 \<mapsto> ch_ftp_session_create\<lparr>fs_cmds :=
     [\<lparr>fc_cmd = ''PASV'', fc_args = None, fc_dcon = None, fc_ans_n = 0, fc_ans = []\<rparr>], fs_cur_cmd := Some 0, fs_cmd_n := 1\<rparr>]\<rparr>"

text \<open>The server expects the data connection on its port 1025; the answer comes in two pieces.\<close>

theorem ftp_pasv_data_found_witness:
  "let l = pasv_line (''Entering ('' @ pasv_numbers 2 0 0 0 4 1 @ '')'') @ [LF]
   in \<exists>e' bf' w' a. ftp_responses sample_ftp_env (sample_ftp_tcp None) [take 7 l, drop 7 l] (ch_ftp_session_entry_init 0) sample_buffer sample_pasv_world =
        Inr ([PARSE_CONTINUE, PARSE_CONTINUE], e', bf', w') \<and>
        find_by_port_for_ftp sample_ftp_env ((sample_tpkt 4001 [] 7)\<lparr>t_dst_port := 1025\<rparr>) w' = Inr (Some (FTP_DATA_APP a))"
proof -
  let ?l = "pasv_line (''Entering ('' @ pasv_numbers 2 0 0 0 4 1 @ '')'') @ [LF]"
  let ?e = "ch_ftp_session_entry_init 0" and ?p = "(sample_tpkt 4001 [] 7)\<lparr>t_dst_port := 1025\<rparr>"
  have "memory_works sample_ftp_env" "fe_pool sample_ftp_env" "fe_task sample_ftp_env < 256"
    by (simp_all add: memory_works_def sample_ftp_env_def)
  moreover have "awaits_pasv sample_pasv_world (fe_session ?e) 0"
    by (simp add: awaits_pasv_def sample_pasv_world_def ch_ftp_session_entry_init_def IS_CMD_def cmd_at_def)
  moreover have "pp_left (data_input_res ?e) = []" by (simp add: ch_ftp_session_entry_init_def ch_pp_din_init_def pp_left_def)
  moreover have "plain_text ''Entering (''" "plain_text '')''" "\<not> is_space (hd ''Entering ('')"
    by (simp_all add: plain_text_def is_digit_def is_space_def char_code_def)
  moreover have ip: "pasv_ip 2 0 0 0 = ep_ip (endpoint_res (sample_ftp_tcp None))" "pasv_ip 2 0 0 0 \<noteq> 0" "pasv_port 4 1 \<noteq> 0" "pasv_port 4 1 = 1025"
    by (simp_all add: pasv_ip_def pasv_port_def sample_ftp_tcp_def)
  moreover have "concat [take 7 ?l, drop 7 ?l] = pasv_line (''Entering ('' @ pasv_numbers 2 0 0 0 4 1 @ '')'') @ [LF]"
    by (simp only: concat.simps append_Nil2 append_take_drop_id)
  ultimately obtain e' bf' w' a where w': "ftp_responses sample_ftp_env (sample_ftp_tcp None) [take 7 ?l, drop 7 ?l] ?e sample_buffer sample_pasv_world =
      Inr (replicate (length [take 7 ?l, drop 7 ?l]) PARSE_CONTINUE, e', bf', w')"
    and found: "\<forall>p. \<not> ch_ports_equal (fe_ports sample_ftp_env) (t_src_port p) (t_dst_port p) \<and>
      (t_src_ip p = ep_ip (endpoint_req (sample_ftp_tcp None)) \<and> t_dst_ip p = ep_ip (endpoint_res (sample_ftp_tcp None)) \<and> t_dst_port p = pasv_port 4 1 \<or>
       t_dst_ip p = ep_ip (endpoint_req (sample_ftp_tcp None)) \<and> t_src_ip p = ep_ip (endpoint_res (sample_ftp_tcp None)) \<and> t_src_port p = pasv_port 4 1) \<longrightarrow>
      find_by_port_for_ftp sample_ftp_env p w' = Inr (Some (FTP_DATA_APP a))"
    using ftp_pasv_data_found [where env = sample_ftp_env and w = sample_pasv_world and e = ?e and k = 0 and ?h1.0 = 2 and ?h2.0 = 0 and ?h3.0 = 0 and ?h4.0 = 0
      and ?p1.0 = 4 and ?p2.0 = 1 and pre = "''Entering (''" and post = "'')''" and ts = "sample_ftp_tcp None" and ds = "[take 7 ?l, drop 7 ?l]" and bf = sample_buffer] by auto
  have "replicate (length [take 7 ?l, drop 7 ?l]) PARSE_CONTINUE = [PARSE_CONTINUE, PARSE_CONTINUE]" by (simp add: numeral_2_eq_2)
  moreover have "find_by_port_for_ftp sample_ftp_env ?p w' = Inr (Some (FTP_DATA_APP a))"
    using found ip(4) by (simp add: sample_ftp_env_def sample_tpkt_def sample_ftp_tcp_def)
  ultimately show ?thesis using w' unfolding Let_def by metis
qed

section \<open>What is transferred\<close>

text \<open>
  A data session: the connection \<open>a\<close> that is expected, the TCP session \<open>ta\<close> with its session \<open>x\<close> of the application. The control session \<open>sid\<close> of the
  connection lives.
\<close>

definition data_session :: "ftp_world \<Rightarrow> addr \<Rightarrow> addr \<Rightarrow> addr \<Rightarrow> addr \<Rightarrow> ch_tcp_session \<Rightarrow> ch_ftp_data_session_entry \<Rightarrow> bool" where
  "data_session w a ta x sid ts en \<longleftrightarrow>
     (\<exists>dcon k. fw_dcons w a = Some dcon \<and> dc_session dcon = sid \<and> dc_cmd dcon = Some (sid, k) \<and> dc_entry dcon = Some x \<and>
       dc_tsession dcon \<in> {None, Some ta} \<and> (de_fp en \<noteq> None \<longrightarrow> dc_tsession dcon = Some ta) \<and> (\<exists>fp. fw_fpaths w (dc_task dcon) = Some fp \<and> 2 < fp_fname_buf_size fp) \<and> distinct (fw_lists w (dc_task dcon))) \<and>
     fw_tcp w ta = Some ts \<and> sentry ts = Some x \<and> fw_entries w x = Some en \<and> de_dcon en = a \<and> fw_sessions w sid \<noteq> None \<and>
     (de_fp en \<noteq> None \<longrightarrow> \<not> str_empty (de_fstore_path en))"

definition ftp_files_work :: "ftp_env \<Rightarrow> bool" where
  "ftp_files_work env \<longleftrightarrow> (\<forall>n. fe_open env n) \<and> (\<forall>n d. fe_write env n d = length d)"

definition written :: "ch_ftp_data_session_entry \<Rightarrow> bytes" where
  "written en = (case de_fp en of None \<Rightarrow> [] | Some b \<Rightarrow> b)"

text \<open>What a call with data leaves alone.\<close>

definition same_rest :: "ftp_world \<Rightarrow> ftp_world \<Rightarrow> bool" where
  "same_rest w w' \<longleftrightarrow> fw_sessions w' = fw_sessions w \<and> fw_tcp w' = fw_tcp w \<and> fw_lists w' = fw_lists w \<and> fw_pstore w' = fw_pstore w"

lemma content_step:
  assumes "data_session w a ta x sid ts en" "ftp_files_work env"
  shows "\<exists>w' en'. do_content_process env a ta d r w = Inr (0, w') \<and> data_session w' a ta x sid ts en' \<and> de_fp en' = Some (written en @ d) \<and>
    de_ftp_path en' = de_ftp_path en \<and> de_ftp_fname en' = de_ftp_fname en \<and> same_rest w w'"
proof -
  obtain dcon k where d: "fw_dcons w a = Some dcon" "dc_session dcon = sid" "dc_cmd dcon = Some (sid, k)" "dc_entry dcon = Some x"
    "dc_tsession dcon \<in> {None, Some ta}" "de_fp en \<noteq> None \<longrightarrow> dc_tsession dcon = Some ta" "\<exists>fp. fw_fpaths w (dc_task dcon) = Some fp \<and> 2 < fp_fname_buf_size fp" "distinct (fw_lists w (dc_task dcon))"
    and o: "fw_tcp w ta = Some ts" "sentry ts = Some x" "fw_entries w x = Some en" "de_dcon en = a" "fw_sessions w sid \<noteq> None"
      "de_fp en \<noteq> None \<longrightarrow> \<not> str_empty (de_fstore_path en)"
    using assms(1) by (auto simp: data_session_def)
  obtain fp where fp: "fw_fpaths w (dc_task dcon) = Some fp" "2 < fp_fname_buf_size fp" using d(7) by auto
  obtain t ms where t: "fe_time env (fw_names w) = (t, ms)" by (cases "fe_time env (fw_names w)")
  obtain nm tmp fp' where nm: "ch_fpath_name_create fp t ms = ((nm, tmp), fp')" by (metis prod.exhaust)
  have nm': "nm \<noteq> []" "2 < fp_fname_buf_size fp'"
    using nm fp(2) by (auto simp: ch_fpath_name_create_def snprintf_cut_def fpath_name_def ch_fpath_counter_update_def Let_def)
  have ts: "dc_tsession dcon = None \<or> dc_tsession dcon = Some ta" using d(5) by auto
  have fw: "fe_open env n" "fe_write env n b = length b" for n b using assms(2) by (simp_all add: ftp_files_work_def)
  show ?thesis
  proof (cases "de_fp en")
    case None
    then show ?thesis using d o fp t nm nm' ts fw
      by (auto simp: do_content_process_def deref_Some data_session_def ch_ftp_data_session_entry_fpath_init_def ch_ftp_data_session_entry_write_def
          written_def same_rest_def str_empty_def Let_def)
  next
    case (Some b)
    then show ?thesis using d o fp ts fw
      by (auto simp: do_content_process_def deref_Some data_session_def ch_ftp_data_session_entry_write_def written_def same_rest_def Let_def)
  qed
qed

text \<open>The calls with data of both directions.\<close>

fun ftp_data_run :: "ftp_env \<Rightarrow> addr \<Rightarrow> addr \<Rightarrow> (bool \<times> bytes) list \<Rightarrow> ftp_world \<Rightarrow> (int list \<times> ftp_world) res" where
  "ftp_data_run env a ta [] w = Inr ([], w)"
| "ftp_data_run env a ta ((is_req, d) # ds) w =
     bind_res (if is_req then do_ftp_data_session_request_parse env a ta d w else do_ftp_data_session_response_parse env a ta d w) (\<lambda>(rc, w).
       bind_res (ftp_data_run env a ta ds w) (\<lambda>(rcs, w). Inr (rc # rcs, w)))"

lemma data_call:
  "(if is_req then do_ftp_data_session_request_parse env a ta d w else do_ftp_data_session_response_parse env a ta d w) =
   (if d \<noteq> [] then bind_res (do_content_process env a ta d is_req w) (\<lambda>(rc, w). Inr (if rc \<noteq> 0 then PARSE_BREAK else PARSE_CONTINUE, w))
    else Inr (PARSE_CONTINUE, w))"
  by (simp add: do_ftp_data_session_request_parse_def do_ftp_data_session_response_parse_def)

lemma data_run:
  assumes "data_session w a ta x sid ts en" "ftp_files_work env"
  shows "\<exists>w' en'. ftp_data_run env a ta ds w = Inr (replicate (length ds) PARSE_CONTINUE, w') \<and> data_session w' a ta x sid ts en' \<and>
    written en' = written en @ concat (map snd ds) \<and>
    de_ftp_path en' = de_ftp_path en \<and> de_ftp_fname en' = de_ftp_fname en \<and> same_rest w w'"
  using assms(1)
proof (induction ds arbitrary: w en)
  case Nil
  then show ?case by (auto simp: same_rest_def)
next
  case (Cons rd ds)
  obtain r d where rd: "rd = (r, d)" by (cases rd)
  show ?case
  proof (cases "d = []")
    case True
    from Cons.IH [OF Cons.prems] show ?thesis unfolding rd ftp_data_run.simps data_call by (auto simp: True)
  next
    case False
    from content_step [OF Cons.prems assms(2), where d = d and r = r] obtain w1 en1 where
      w1: "do_content_process env a ta d r w = Inr (0, w1)" "data_session w1 a ta x sid ts en1" "de_fp en1 = Some (written en @ d)"
        "de_ftp_path en1 = de_ftp_path en" "de_ftp_fname en1 = de_ftp_fname en" "same_rest w w1" by blast
    have "written en1 = written en @ d" using w1(3) by (simp add: written_def)
    with Cons.IH [OF w1(2)] w1 False show ?thesis unfolding rd ftp_data_run.simps data_call by (auto simp: same_rest_def)
  qed
qed

lemma ftp_str_alive: "fw_sessions w sid \<noteq> None \<Longrightarrow> \<exists>str. ftp_str_read w sid v = Inr str"
  by (auto simp: ftp_str_read_def deref_Some split: ftp_str.splits)

lemma data_format_entry: "packs_entry (do_ftp_data_session_format path fname fstore)"
  by (simp add: packs_entry_def do_ftp_data_session_format_def pk_defs Let_def eval_nat_numeral)

definition ftp_addrs_ok :: "ch_tcp_session \<Rightarrow> bool" where
  "ftp_addrs_ok ts \<longleftrightarrow> length (ep_addr (endpoint_req ts)) = 16 \<and> length (ep_addr (endpoint_res ts)) = 16"

lemma store_write_other:
  assumes "ftp_addrs_ok ts" "\<And>d. put_ok other_shm_fmt d" "pk_buf ps = []"
  shows "\<exists>ps' cs. ch_proto_session_store_write put_ok t PROTOCOL_FTP ty fmt ts pse ps = Inr (0, ps') \<and>
    ps_other ps' = ps_other ps @ [(ty, ep_time (endpoint_req ts), fmt cs)] \<and> (\<forall>us. mp_objects 1 (cs @ us) \<longleftrightarrow> mp_objects 2 us)"
proof -
  obtain cs where "pstore_common [] PROTOCOL_FTP ts pse = Inr cs" "\<forall>us. mp_objects 1 (cs @ us) \<longleftrightarrow> mp_objects 2 us"
    using pstore_common_tokens [of ts "[]" PROTOCOL_FTP pse] assms(1) by (auto simp: ftp_addrs_ok_def)
  then show ?thesis using assms(2,3)
    by (auto simp: ch_proto_session_store_write_def PROTOCOL_FTP_def PROTOCOL_HTTP_def pstore_shm_flush_def Let_def)
qed

lemma data_store:
  assumes "data_session w a ta x sid ts en" "ftp_addrs_ok ts" "\<And>d. fe_put env other_shm_fmt d" "pk_buf (fw_pstore w) = []"
  shows "\<exists>ps d. ftp_data_store_write env ts en w = Inr (w\<lparr>fw_pstore := ps\<rparr>) \<and>
    ps_other ps = ps_other (fw_pstore w) @ [(PKT_RECORD_TYPE_TCP_FTP_DATA, ep_time (endpoint_req ts), d)] \<and> mp_objects 1 d"
proof -
  obtain dcon where d: "fw_dcons w a = Some dcon" "dc_session dcon = sid" and en: "de_dcon en = a" "fw_sessions w sid \<noteq> None"
    using assms(1) by (auto simp: data_session_def)
  obtain path fname where str: "ftp_str_read w sid (de_ftp_path en) = Inr path" "ftp_str_read w sid (de_ftp_fname en) = Inr fname"
    using ftp_str_alive [OF en(2)] by metis
  obtain ps cs where ps: "ch_proto_session_store_write (fe_put env) (fe_clock env) PROTOCOL_FTP PKT_RECORD_TYPE_TCP_FTP_DATA
      (do_ftp_data_session_format path fname (de_fstore_path en)) ts (de_psEntry en) (fw_pstore w) = Inr (0, ps)"
    "ps_other ps = ps_other (fw_pstore w) @ [(PKT_RECORD_TYPE_TCP_FTP_DATA, ep_time (endpoint_req ts), do_ftp_data_session_format path fname (de_fstore_path en) cs)]"
    "\<forall>us. mp_objects 1 (cs @ us) \<longleftrightarrow> mp_objects 2 us"
    using store_write_other [OF assms(2), of "fe_put env"] assms(3,4) by blast
  moreover have "mp_objects 1 (do_ftp_data_session_format path fname (de_fstore_path en) cs)"
    using data_format_entry [of path fname "de_fstore_path en"] ps(3) unfolding packs_entry_def by metis
  moreover have "ftp_data_store_write env ts en w = Inr (w\<lparr>fw_pstore := ps\<rparr>)"
    using d en str ps(1) by (simp add: ftp_data_store_write_def deref_Some)
  ultimately show ?thesis by blast
qed

text \<open>After either end the connection and its sessions are gone.\<close>

lemma connection_fin:
  assumes "fe_task env < 256" "fw_dcons w a = Some dcon" "distinct (fw_lists w (dc_task dcon))" "fw_entries w x = Some en" "de_dcon en = a"
  shows "\<exists>w'. ch_ftp_data_connection_fin env a w = Inr w' \<and> fw_dcons w' a = None \<and> fw_entries w' x = None \<and> a \<notin> set (fw_lists w' (dc_task dcon)) \<and>
    fw_pstore w' = fw_pstore w \<and> fw_sessions w' = fw_sessions w \<and> fw_tcp w' = fw_tcp w"
  using assms by (simp add: ch_ftp_data_connection_fin_def MAX_THREAD_NUM_def deref_Some)

lemma data_clean:
  assumes "data_session w a ta x sid ts en" "de_fp en \<noteq> None" "fe_task env < 256"
    "ftp_data_store_write env ts en w = Inr (w\<lparr>fw_pstore := ps\<rparr>)"
  shows "\<exists>w'. do_ftp_data_session_entry_clean env ta w = Inr w' \<and> fw_dcons w' a = None \<and> fw_entries w' x = None \<and> fw_pstore w' = ps"
proof -
  obtain dcon k s where d: "fw_dcons w a = Some dcon" "dc_cmd dcon = Some (sid, k)" "distinct (fw_lists w (dc_task dcon))" "fw_sessions w sid = Some s"
    and o: "fw_tcp w ta = Some ts" "sentry ts = Some x" "fw_entries w x = Some en" "de_dcon en = a" "\<not> str_empty (de_fstore_path en)"
    using assms(1,2) by (auto simp: data_session_def)
  let ?en = "ch_ftp_data_session_entry_fin en"
  let ?w = "w\<lparr>fw_pstore := ps, fw_entries := (fw_entries w)(x \<mapsto> ?en), fw_sessions := (fw_sessions w)(sid \<mapsto> cmd_update s k (\<lambda>c. c\<lparr>fc_dcon := None\<rparr>))\<rparr>"
  have "de_dcon ?en = a" using o(4) by (simp add: ch_ftp_data_session_entry_fin_def)
  then obtain w' where "ch_ftp_data_connection_fin env a ?w = Inr w'" "fw_dcons w' a = None" "fw_entries w' x = None" "fw_pstore w' = ps"
    using connection_fin [OF assms(3), of ?w a dcon x ?en] d by auto
  moreover have "do_ftp_data_session_entry_clean env ta w = ch_ftp_data_connection_fin env a ?w"
    using d o assms(4) by (simp add: do_ftp_data_session_entry_clean_def deref_Some FTP_DATA_SESSION_ENTRY_CAN_STORE_def Let_def)
  ultimately show ?thesis by auto
qed

lemma data_fin_output:
  assumes "data_session w a ta x sid ts en" "de_fp en \<noteq> None" "fe_task env < 256" "ftp_data_store_write env ts en w = Inr (w\<lparr>fw_pstore := ps\<rparr>)"
  shows "\<exists>w'. ch_ftp_data_connection_fin_output env a w = Inr w' \<and> fw_dcons w' a = None \<and> fw_entries w' x = None \<and> fw_tcp w' ta = None \<and> fw_pstore w' = ps"
proof -
  obtain dcon where d: "fw_dcons w a = Some dcon" "distinct (fw_lists w (dc_task dcon))" "dc_entry dcon = Some x" "dc_tsession dcon = Some ta"
    and o: "fw_tcp w ta = Some ts" "sentry ts = Some x" "fw_entries w x = Some en" "de_dcon en = a"
    using assms(1,2) by (auto simp: data_session_def)
  let ?en = "ch_ftp_data_session_entry_fin en"
  let ?w = "w\<lparr>fw_pstore := ps, fw_entries := (fw_entries w)(x \<mapsto> ?en), fw_tcp := (fw_tcp w)(ta := None)\<rparr>"
  have "de_dcon ?en = a" using o(4) by (simp add: ch_ftp_data_session_entry_fin_def)
  then obtain w' where "ch_ftp_data_connection_fin env a ?w = Inr w'" "fw_dcons w' a = None" "fw_entries w' x = None" "fw_pstore w' = ps" "fw_tcp w' ta = None"
    using connection_fin [OF assms(3), of ?w a dcon x ?en] d by auto
  moreover have "ch_ftp_data_connection_fin_output env a w = ch_ftp_data_connection_fin env a ?w"
    using d o assms(3,4) by (simp add: ch_ftp_data_connection_fin_output_def ch_ftp_data_session_entry_fin_output_def deref_Some MAX_THREAD_NUM_def)
  ultimately show ?thesis by auto
qed

text \<open>
  C15. What is transferred on a data connection is stored in the order it comes, whatever pieces and directions it comes in, and one complete record of it is
  written, whichever end comes first: the end of the data connection, or the answer 226 on the control connection, which ends
  the data session as well. With the record the expected connection and the session on it are gone. The control session
  has to live so long.
\<close>

theorem ftp_transfer_stored:
  assumes "data_session w a ta x sid ts en" "de_fp en = None" "ftp_files_work env" "fe_task env < 256" "ftp_addrs_ok ts" "\<And>d. fe_put env other_shm_fmt d"
    "pk_buf (fw_pstore w) = []" "concat (map snd ds) \<noteq> []"
  shows "\<exists>w1 en1 d w2 w3. ftp_data_run env a ta ds w = Inr (replicate (length ds) PARSE_CONTINUE, w1) \<and>
    fw_entries w1 x = Some en1 \<and> de_fp en1 = Some (concat (map snd ds)) \<and> mp_objects 1 d \<and>
    do_ftp_data_session_entry_clean env ta w1 = Inr w2 \<and> fw_dcons w2 a = None \<and> fw_entries w2 x = None \<and>
    ps_other (fw_pstore w2) = ps_other (fw_pstore w) @ [(PKT_RECORD_TYPE_TCP_FTP_DATA, ep_time (endpoint_req ts), d)] \<and>
    ch_ftp_data_connection_fin_output env a w1 = Inr w3 \<and> fw_dcons w3 a = None \<and> fw_entries w3 x = None \<and> fw_tcp w3 ta = None \<and>
    fw_pstore w3 = fw_pstore w2"
proof -
  obtain w1 en1 where w1: "ftp_data_run env a ta ds w = Inr (replicate (length ds) PARSE_CONTINUE, w1)" "data_session w1 a ta x sid ts en1"
    "written en1 = written en @ concat (map snd ds)" "same_rest w w1" using data_run [OF assms(1,3), where ds = ds] by blast
  have en1: "de_fp en1 = Some (concat (map snd ds))" using w1(3) assms(2,8) by (auto simp: written_def split: option.splits)
  have e1: "fw_entries w1 x = Some en1" using w1(2) by (simp add: data_session_def)
  have pst: "fw_pstore w1 = fw_pstore w" using w1(4) by (simp add: same_rest_def)
  then have "pk_buf (fw_pstore w1) = []" using assms(7) by simp
  from data_store [OF w1(2) assms(5,6) this] obtain ps d where ps: "ftp_data_store_write env ts en1 w1 = Inr (w1\<lparr>fw_pstore := ps\<rparr>)"
    "ps_other ps = ps_other (fw_pstore w) @ [(PKT_RECORD_TYPE_TCP_FTP_DATA, ep_time (endpoint_req ts), d)]" "mp_objects 1 d" unfolding pst by blast
  from data_clean [OF w1(2) _ assms(4) ps(1)] data_fin_output [OF w1(2) _ assms(4) ps(1)] en1 obtain w2 w3 where
    "do_ftp_data_session_entry_clean env ta w1 = Inr w2" "fw_dcons w2 a = None" "fw_entries w2 x = None" "fw_pstore w2 = ps"
    "ch_ftp_data_connection_fin_output env a w1 = Inr w3" "fw_dcons w3 a = None" "fw_entries w3 x = None" "fw_tcp w3 ta = None" "fw_pstore w3 = ps" by auto
  with w1(1) e1 en1 ps show ?thesis by auto
qed

text \<open>A data connection with the session 6 on the TCP session 7, and the control session 0.\<close>

definition sample_data_world :: ftp_world where
  "sample_data_world = sample_pasv_world\<lparr>
     fw_dcons := [5 \<mapsto> \<lparr>dc_src_ip = 1, dc_dst_ip = 2, dc_dst_port = 1025, dc_task = 0, dc_session = 0, dc_cmd = Some (0, 0), dc_entry = Some 6, dc_tsession = None\<rparr>],
     fw_entries := [6 \<mapsto> ch_ftp_data_session_entry_init 5 FS_EMPTY (FS_POOL ''a.txt'')], fw_tcp := [7 \<mapsto> sample_ftp_tcp (Some 6)], fw_lists := (\<lambda>_. [])(0 := [5])\<rparr>"

lemma sample_data_session:
  "data_session sample_data_world 5 7 6 0 (sample_ftp_tcp (Some 6)) (ch_ftp_data_session_entry_init 5 FS_EMPTY (FS_POOL ''a.txt''))"
  by (simp add: data_session_def sample_data_world_def sample_pasv_world_def sample_ftp_world_def sample_ftp_tcp_def ch_ftp_data_session_entry_init_def
      ch_fpath_create_def ch_fpath_init_def ch_fpath_fname_buf_size_get_def Let_def)

lemma sample_ftp_addrs: "ftp_addrs_ok (sample_ftp_tcp x)"
  by (simp add: ftp_addrs_ok_def sample_ftp_tcp_def Let_def)

theorem ftp_transfer_stored_witness:
  "\<exists>w1 en1 w2 d. ftp_data_run sample_ftp_env 5 7 [(True, []), (False, [1, 2]), (False, [3])] sample_data_world = Inr ([PARSE_CONTINUE, PARSE_CONTINUE, PARSE_CONTINUE], w1) \<and>
     fw_entries w1 6 = Some en1 \<and> de_fp en1 = Some [1, 2, 3] \<and> do_ftp_data_session_entry_clean sample_ftp_env 7 w1 = Inr w2 \<and>
     ps_other (fw_pstore w2) = [(PKT_RECORD_TYPE_TCP_FTP_DATA, 0, d)] \<and> mp_objects 1 d"
proof -
  let ?ds = "[(True, []), (False, [1, 2]), (False, [3])] :: (bool \<times> bytes) list"
  have "ftp_files_work sample_ftp_env" "fe_task sample_ftp_env < 256" "fe_put sample_ftp_env other_shm_fmt d" for d by (simp_all add: ftp_files_work_def sample_ftp_env_def)
  moreover have "de_fp (ch_ftp_data_session_entry_init 5 FS_EMPTY (FS_POOL ''a.txt'')) = None" by (simp add: ch_ftp_data_session_entry_init_def)
  moreover have ps: "pk_buf (fw_pstore sample_data_world) = []" "ps_other (fw_pstore sample_data_world) = []" "ep_time (endpoint_req (sample_ftp_tcp (Some 6))) = 0"
    by (simp_all add: sample_data_world_def sample_pasv_world_def sample_ftp_world_def sample_ftp_tcp_def Let_def)
  moreover have "concat (map snd ?ds) \<noteq> []" by simp
  ultimately obtain w1 en1 d w2 where "ftp_data_run sample_ftp_env 5 7 ?ds sample_data_world = Inr (replicate (length ?ds) PARSE_CONTINUE, w1)"
    "fw_entries w1 6 = Some en1" "de_fp en1 = Some (concat (map snd ?ds))" "mp_objects 1 d" "do_ftp_data_session_entry_clean sample_ftp_env 7 w1 = Inr w2"
    "ps_other (fw_pstore w2) = ps_other (fw_pstore sample_data_world) @ [(PKT_RECORD_TYPE_TCP_FTP_DATA, ep_time (endpoint_req (sample_ftp_tcp (Some 6))), d)]"
    using ftp_transfer_stored [OF sample_data_session, of sample_ftp_env ?ds] sample_ftp_addrs by blast
  moreover have "replicate (length ?ds) PARSE_CONTINUE = [PARSE_CONTINUE, PARSE_CONTINUE, PARSE_CONTINUE]" by (simp add: numeral_3_eq_3)
  moreover have "concat (map snd ?ds) = [1, 2, 3]" by simp
  ultimately show ?thesis using ps by (metis append_Nil)
qed

section \<open>What goes wrong\<close>

text \<open>
  C39. A control connection that ends before a data connection takes the command with it that the data connection points at: when
  the data connection ends it is written to.
\<close>

theorem ftp_data_outlives_control:
  assumes "data_session w a ta x sid ts en" "fe_session e = sid" "do_ftp_session_entry_clean env cts e w = Inr w'" "ftp_addrs_ok ts"
  shows "do_ftp_data_session_entry_clean env ta w' = Inl Use_After_Free"
proof -
  obtain dcon k where d: "fw_dcons w a = Some dcon" "dc_cmd dcon = Some (sid, k)" "dc_session dcon = sid"
    and o: "fw_tcp w ta = Some ts" "sentry ts = Some x" "fw_entries w x = Some en" "de_dcon en = a"
    using assms(1) by (auto simp: data_session_def)
  have w': "fw_sessions w' sid = None" "fw_dcons w' = fw_dcons w" "fw_tcp w' = fw_tcp w" "fw_entries w' = fw_entries w"
    using assms(2,3) by (auto simp: do_ftp_session_entry_clean_def bind_res_eq_Inr split: if_splits)
  have s: "ftp_str_read w' sid v = Inl Use_After_Free \<or> (\<exists>str. ftp_str_read w' sid v = Inr str)" for v
    using w'(1) by (auto simp: ftp_str_read_def deref_def split: ftp_str.splits)
  show ?thesis
  proof (cases "FTP_DATA_SESSION_ENTRY_CAN_STORE en")
    case False
    then show ?thesis using d o w' by (simp add: do_ftp_data_session_entry_clean_def deref_def Let_def)
  next
    case True
    show ?thesis
    proof (cases "ftp_data_store_write env ts en w'")
      case (Inl f)
      obtain cs where "pstore_common (pk_buf (fw_pstore w')) PROTOCOL_FTP ts (de_psEntry en) = Inr cs"
        using pstore_common_tokens [of ts "pk_buf (fw_pstore w')" PROTOCOL_FTP "de_psEntry en"] assms(4) by (auto simp: ftp_addrs_ok_def)
      then have "f = Use_After_Free"
        using Inl d o w' s [of "de_ftp_path en"] s [of "de_ftp_fname en"]
        by (auto simp: ftp_data_store_write_def bind_res_eq_Inl ch_proto_session_store_write_def Let_def)
      then show ?thesis using Inl True o w' by (simp add: do_ftp_data_session_entry_clean_def deref_def)
    next
      case (Inr w2)
      then have "fw_dcons w2 = fw_dcons w'" "fw_sessions w2 = fw_sessions w'" by (auto simp: ftp_data_store_write_def bind_res_eq_Inr)
      then show ?thesis using Inr True d o w' by (simp add: do_ftp_data_session_entry_clean_def deref_def Let_def)
    qed
  qed
qed

theorem ftp_data_outlives_control_witness:
  "\<exists>w'. do_ftp_session_entry_clean sample_ftp_env (sample_ftp_tcp None) (ch_ftp_session_entry_init 0) sample_data_world = Inr w' \<and>
     do_ftp_data_session_entry_clean sample_ftp_env 7 w' = Inl Use_After_Free"
proof -
  let ?e = "ch_ftp_session_entry_init 0"
  have e: "fe_session ?e = 0" by (simp add: ch_ftp_session_entry_init_def)
  obtain s where s: "fw_sessions sample_data_world 0 = Some s" by (simp add: sample_data_world_def sample_pasv_world_def)
  have "pk_buf (fw_pstore sample_data_world) = []" by (simp add: sample_data_world_def sample_pasv_world_def sample_ftp_world_def)
  moreover have "fe_put sample_ftp_env other_shm_fmt d" for d by (simp add: sample_ftp_env_def)
  ultimately obtain w' where w': "do_ftp_session_entry_clean sample_ftp_env (sample_ftp_tcp None) ?e sample_data_world = Inr w'"
    using store_write_other [OF sample_ftp_addrs, where put_ok = "fe_put sample_ftp_env" and ps = "fw_pstore sample_data_world" and x1 = None and t = "fe_clock sample_ftp_env"
      and ty = PKT_RECORD_TYPE_TCP_FTP and fmt = "do_ftp_session_format s" and pse = "fe_psEntry ?e"] s e
    by (cases "fs_cmd_n s > 0") (auto simp: do_ftp_session_entry_clean_def deref_Some)
  from ftp_data_outlives_control [OF sample_data_session e this sample_ftp_addrs] w' show ?thesis by blast
qed

section \<open>The records of control connections\<close>

text \<open>How many objects follow a token as its parts.\<close>

fun mp_parts :: "mp_token \<Rightarrow> nat" where
  "mp_parts (MP_Map k) = 2 * k"
| "mp_parts (MP_Array k) = k"
| "mp_parts _ = 0"

definition mp_sum :: "mp_token list \<Rightarrow> nat" where
  "mp_sum ts = sum_list (map mp_parts ts)"

lemma mp_sum_simps [simp]: "mp_sum [] = 0" "mp_sum (t # ts) = mp_parts t + mp_sum ts" "mp_sum (ts @ us) = mp_sum ts + mp_sum us"
  by (simp_all add: mp_sum_def)

lemma mp_objects_sum: "mp_objects n ts \<Longrightarrow> n + mp_sum ts = length ts"
  unfolding mp_objects_def by (induction n ts rule: mp_skip.induct) auto

lemma fold_append: "(\<And>x pk. f x pk = pk @ g x) \<Longrightarrow> fold f xs pk = pk @ concat (map g xs)"
  by (induction xs arbitrary: pk) auto

definition ans_tokens :: "ch_ftp_ans \<Rightarrow> mp_token list" where
  "ans_tokens ans = [MP_Str (text_bytes ''ans''), MP_Map 2, MP_Str (text_bytes ''code''), MP_Uint (unat (fa_code ans)), MP_Str (text_bytes ''phrase''),
     MP_Str (text_bytes (case fa_phrase ans of None \<Rightarrow> [] | Some p \<Rightarrow> p))]"

definition cmd_tokens :: "ch_ftp_cmd \<Rightarrow> mp_token list" where
  "cmd_tokens c = [MP_Str (text_bytes ''cmd''), MP_Map 3, MP_Str (text_bytes ''cmdName''), MP_Str (text_bytes (fc_cmd c)), MP_Str (text_bytes ''cmdArgs''),
     MP_Str (text_bytes (case fc_args c of None \<Rightarrow> [] | Some a \<Rightarrow> a)), MP_Str (text_bytes ''ansList''), MP_Array (unat (fc_ans_n c))] @
     (if fc_ans_n c \<noteq> 0 then concat (map ans_tokens (fc_ans c)) else [])"

lemma ans_format: "ftp_ans_format c pk = pk @ concat (map ans_tokens (fc_ans c))"
  unfolding ftp_ans_format_def by (rule fold_append) (simp add: ans_tokens_def pk_defs Let_def)

lemma cmds_format: "ftp_cmds_format s pk = pk @ concat (map cmd_tokens (fs_cmds s))"
  unfolding ftp_cmds_format_def by (rule fold_append) (simp add: cmd_tokens_def ans_format pk_defs Let_def)

text \<open>The counters of a session and of its commands are the lengths of the lists, as adding keeps them.\<close>

definition ftp_counts :: "ch_ftp_session \<Rightarrow> bool" where
  "ftp_counts s \<longleftrightarrow> unat (fs_cmd_n s) = length (fs_cmds s) \<and> (\<forall>c\<in>set (fs_cmds s). unat (fc_ans_n c) = length (fc_ans c))"

lemma unat_Suc: "unat (n :: size_t) < 2 ^ 64 - 1 \<Longrightarrow> unat (n + 1) = Suc (unat n)"
  by (simp add: unat_plus64)

lemma cmd_add_counts:
  assumes "ch_ftp_session_cmd_add s cmd args = Inr s'" "ftp_counts s" "length (fs_cmds s) < 2 ^ 64 - 1"
  shows "ftp_counts s'"
proof -
  have "fs_cmds s' = fs_cmds s \<and> fs_cmd_n s' = fs_cmd_n s \<or>
    fs_cmd_n s' = fs_cmd_n s + 1 \<and> (\<exists>c. fs_cmds s' = c # fs_cmds s \<and> fc_ans_n c = 0 \<and> fc_ans c = [])"
    using assms(1) by (auto simp: ch_ftp_session_cmd_add_def bind_res_eq_Inr Let_def split: option.splits if_splits)
  then show ?thesis using assms(2,3) by (auto simp: ftp_counts_def unat_Suc)
qed

lemma ans_add_counts:
  assumes "ch_ftp_session_ans_add s code phrase = (r, s')" "ftp_counts s" "\<forall>c\<in>set (fs_cmds s). length (fc_ans c) < 2 ^ 64 - 1"
    "\<forall>k. fs_cur_cmd s = Some k \<longrightarrow> k < length (fs_cmds s)"
  shows "ftp_counts s'"
proof (cases "s' = s")
  case False
  then obtain k ans where k: "fs_cur_cmd s = Some k" "s' = cmd_update s k (\<lambda>c. c\<lparr>fc_ans_n := fc_ans_n c + 1, fc_ans := fc_ans c @ [ans]\<rparr>)"
    using assms(1) by (auto simp: ch_ftp_session_ans_add_def Let_def split: option.splits if_splits)
  have "cmd_at s k \<in> set (fs_cmds s)" using k(1) assms(4) by (auto simp: cmd_at_def)
  then show ?thesis using assms(2,3) k(2) by (auto simp: ftp_counts_def cmd_update_def unat_Suc dest!: set_update_subset_insert [THEN subsetD])
qed (use assms(2) in simp)

lemma cmd_tokens_sum:
  assumes "unat (fc_ans_n c) = length (fc_ans c)"
  shows "length (cmd_tokens c) = 2 + length (fc_ans c) + mp_sum (cmd_tokens c)"
proof -
  have "length (concat (map ans_tokens as)) = 2 * length as + mp_sum (concat (map ans_tokens as))" for as
    by (induction as) (auto simp: ans_tokens_def)
  then show ?thesis using assms by (auto simp: cmd_tokens_def unat_eq_0)
qed

lemma session_format:
  assumes "ftp_counts s" "fs_cmd_n s \<noteq> 0"
  shows "\<exists>us. (\<forall>pk. do_ftp_session_format s pk = pk @ us) \<and>
    length us = 2 + mp_sum us + length (fs_cmds s) + sum_list (map (\<lambda>c. length (fc_ans c)) (fs_cmds s))"
proof -
  let ?us = "[MP_Str (text_bytes ''ftpSession''), MP_Map 3, MP_Str (text_bytes ''user''), MP_Str (text_bytes (case fs_user s of None \<Rightarrow> [] | Some a \<Rightarrow> a)),
    MP_Str (text_bytes ''passwd''), MP_Str (text_bytes (case fs_passwd s of None \<Rightarrow> [] | Some a \<Rightarrow> a)), MP_Str (text_bytes ''cmdList''),
    MP_Array (unat (fs_cmd_n s))] @ concat (map cmd_tokens (fs_cmds s))"
  have "length (concat (map cmd_tokens cs)) = 2 * length cs + sum_list (map (\<lambda>c. length (fc_ans c)) cs) + mp_sum (concat (map cmd_tokens cs))"
    if "\<forall>c\<in>set cs. unat (fc_ans_n c) = length (fc_ans c)" for cs using that by (induction cs) (auto simp: cmd_tokens_sum)
  then have "length ?us = 2 + mp_sum ?us + length (fs_cmds s) + sum_list (map (\<lambda>c. length (fc_ans c)) (fs_cmds s))"
    using assms(1) by (simp add: ftp_counts_def)
  moreover have "do_ftp_session_format s pk = pk @ ?us" for pk using assms(2) by (simp add: do_ftp_session_format_def cmds_format pk_defs Let_def)
  ultimately show ?thesis by blast
qed

text \<open>
  The record of a control connection is never one complete object: each command of the array and each answer is packed with a key, as in
  a map, so there are more objects than the array and the record announce. Every session that is stored has a command.
\<close>

theorem ftp_record_unreadable:
  assumes "fw_sessions w (fe_session e) = Some s" "ftp_counts s" "fs_cmds s \<noteq> []" "ftp_addrs_ok ts" "\<And>d. fe_put env other_shm_fmt d" "pk_buf (fw_pstore w) = []"
  shows "\<exists>w' d. do_ftp_session_entry_clean env ts e w = Inr w' \<and>
    ps_other (fw_pstore w') = ps_other (fw_pstore w) @ [(PKT_RECORD_TYPE_TCP_FTP, ep_time (endpoint_req ts), d)] \<and> \<not> mp_objects 1 d"
proof -
  have n: "fs_cmd_n s \<noteq> 0" using assms(2,3) by (auto simp: ftp_counts_def)
  obtain us where us: "\<And>pk. do_ftp_session_format s pk = pk @ us"
    "length us = 2 + mp_sum us + length (fs_cmds s) + sum_list (map (\<lambda>c. length (fc_ans c)) (fs_cmds s))" using session_format [OF assms(2) n] by blast
  then have bad: "\<not> mp_objects 2 us" using mp_objects_sum [of 2 us] assms(3) by auto
  obtain ps cs where ps: "ch_proto_session_store_write (fe_put env) (fe_clock env) PROTOCOL_FTP PKT_RECORD_TYPE_TCP_FTP (do_ftp_session_format s) ts
      (fe_psEntry e) (fw_pstore w) = Inr (0, ps)"
    "ps_other ps = ps_other (fw_pstore w) @ [(PKT_RECORD_TYPE_TCP_FTP, ep_time (endpoint_req ts), do_ftp_session_format s cs)]"
    "\<forall>us. mp_objects 1 (cs @ us) \<longleftrightarrow> mp_objects 2 us" using store_write_other [OF assms(4), of "fe_put env"] assms(5,6) by blast
  have "0 < fs_cmd_n s" using n by (simp add: word_neq_0_conv)
  then have "do_ftp_session_entry_clean env ts e w = Inr (w\<lparr>fw_pstore := ps, fw_sessions := (fw_sessions w)(fe_session e := None)\<rparr>)"
    using assms(1) ps(1) by (simp add: do_ftp_session_entry_clean_def deref_Some)
  then show ?thesis using ps(2,3) us(1) bad by auto
qed

theorem ftp_record_unreadable_witness:
  "\<exists>w' d. do_ftp_session_entry_clean sample_ftp_env (sample_ftp_tcp None) (ch_ftp_session_entry_init 0) sample_pasv_world = Inr w' \<and>
     ps_other (fw_pstore w') = [(PKT_RECORD_TYPE_TCP_FTP, 0, d)] \<and> \<not> mp_objects 1 d"
proof -
  let ?e = "ch_ftp_session_entry_init 0"
  obtain s where s: "fw_sessions sample_pasv_world (fe_session ?e) = Some s" "ftp_counts s" "fs_cmds s \<noteq> []"
    by (simp add: sample_pasv_world_def ch_ftp_session_entry_init_def ftp_counts_def)
  have "pk_buf (fw_pstore sample_pasv_world) = []" "ps_other (fw_pstore sample_pasv_world) = []" "ep_time (endpoint_req (sample_ftp_tcp None)) = 0"
    "fe_put sample_ftp_env other_shm_fmt d" for d by (simp_all add: sample_pasv_world_def sample_ftp_world_def sample_ftp_tcp_def sample_ftp_env_def Let_def)
  with ftp_record_unreadable [OF s sample_ftp_addrs, of sample_ftp_env None] show ?thesis by auto
qed

section \<open>Connections that the client announces\<close>

text \<open>
  In the active mode the client sends its address with \<^verbatim>\<open>PORT\<close> and the server answers with a text. The address is looked for in the
  answer: a text without a comma that does not start like a number gives no address, and no data connection is expected.
\<close>

lemma strtol_text: "\<not> is_digit c \<Longrightarrow> \<not> is_space c \<Longrightarrow> c \<noteq> CHR ''-'' \<Longrightarrow> c \<noteq> CHR ''+'' \<Longrightarrow> strtol (c # cs) = 0"
  by (simp add: strtol_def digits_value_def LONG_MAX_def Let_def)

theorem ftp_port_ignored:
  assumes "fw_sessions w sid = Some s" "fa_phrase ans = Some (c # cs)" "CHR '','' \<notin> set (c # cs)" "\<not> is_digit c" "\<not> is_space c" "c \<noteq> CHR ''-''" "c \<noteq> CHR ''+''"
  shows "process_ftp_data_connection env ts sid k ans False w = Inr w"
proof -
  have "take 63 (c # cs) = c # take 62 cs" by simp
  moreover have "strsplit (c # take 62 cs) '','' = [c # take 62 cs]" using assms(3) by (intro strsplit_single) (auto dest: in_set_takeD)
  ultimately have "ip_port_get (c # cs) False = (0, 0)" using strtol_text [OF assms(4-7)] by (simp add: ip_port_get_def)
  then show ?thesis
    using assms(1,2) by (simp add: process_ftp_data_connection_def deref_Some Let_def)
qed

end
