(* ===== verification/Spec2Isabelle.thy ===== *)
theory Spec2Isabelle
  imports Tcp_Request Plist Pow2 Packet_Rule Dns_App Udp_Task Http_Safe Ftp_Data
begin

text \<open>
  CloudHands captures network traffic, parses the packets, reassembles the TCP and UDP sessions
  in them and hands the contents to parsers of application protocols.
  This library models the core of that way of a packet, from the bytes of the
  wire to the application parser, and the memory managers and tables below it.

  \<^bold>\<open>The parts and how they interact.\<close> A packet is parsed (\<^verbatim>\<open>packet/\<close>), its hash picks the
  worker; the worker's task (\<^verbatim>\<open>tcp/main/ch_tcp_session_task.c\<close>) makes the TCP view of the packet
  and gives it to the request handler, which finds the session of the packet in a hash table
  (\<^verbatim>\<open>lib/ptables/ch_ptable.c\<close>) or follows the handshake in a second such table; the session handler
  sorts the segments with the fragment ring (\<^verbatim>\<open>tcp/session/ch_assemble_fragment.c\<close>), whose
  fragments come from the caching allocator (\<^verbatim>\<open>lib/ptables/ch_memory.c\<close>), and feeds the parser.
  Rules, read from JSON files, are matched against packets and sessions through target contexts.
  The entries of the tables come from object pools; a watch task collects the entries that timed
  out and the table's own thread frees them.

  \<^bold>\<open>The theories\<close>, from the bottom up:
  \<^item> \<open>Prelude\<close>: machine words, faults as values (\<open>'a res\<close>), lists that stand for linked lists.
  \<^item> \<open>Pow2\<close>: \<^verbatim>\<open>ch_is_power_of_2\<close>, \<^verbatim>\<open>ch_align32pow2\<close>, \<^verbatim>\<open>ch_align64pow2\<close> of
    \<^verbatim>\<open>lib/common/ch_constants.h\<close>; the alignment is the least power of two.
  \<^item> \<open>Jhash\<close>: \<^verbatim>\<open>lib/common/ch_jhash.h\<close>; mixing loses nothing, the sorted hashes do not depend on
    the direction of a flow.
  \<^item> \<open>Memory\<close>: the allocator with its cache of freed blocks. Locale \<open>block_source\<close> states what
    its clients rely on; blocks are large enough, frees by a client that owns the block are safe.
  \<^item> \<open>Assemble\<close>: the ring of fragments; a stream is reassembled whatever the order, the overlap
    and the repetition of its segments.
  \<^item> \<open>Object_Pool\<close>: object pools and entry pools. Locale \<open>object_source\<close>; objects in use are
    distinct and apart, and a get fails only when the pool is exhausted. The DPDK mempool is a parameter, a record of functions.
  \<^item> \<open>Ptable\<close>, \<open>Plist\<close>: the hash table with its list of recently used entries, its
    callbacks and its timeouts, and the list with the same interface. Locale \<open>keyed_store\<close>, one
    interpretation for each; finds answer like the table without caches, sweeps remove
    exactly what timed out.
  \<^item> \<open>Packet\<close>: the parsers of Ethernet, VLAN tags, IPv4, IPv6, ARP, TCP, UDP and ICMP headers, the
    parser registry, the TCP and UDP views, the merging of packet segments.
  \<^item> \<open>Flow\<close>: tables whose keys are the packets of a flow. Locale \<open>flow_keys\<close> states what their hash and
    their comparison promise; it is interpreted for the three tables of sessions and requests: a flow has one bucket.
  \<^item> \<open>Tcp_Session\<close>: endpoints, sessions, requests, the two tables and the interface of the applications.
  \<^item> \<open>Tcp_Handler\<close>: data, FIN, RST and ACK packets of a session; in-order delivery.
  \<^item> \<open>Tcp_Request\<close>: the handshake, the creation of sessions, the dispatch, the task.

  \<^item> \<open>Rule_Utils\<close>, \<open>Rule_Match\<close>: the rule engine of \<^verbatim>\<open>rule/\<close> and the filter engine of \<^verbatim>\<open>filter/\<close>: the
    operators, the name tables, rules read from JSON, matching. Locale \<open>target_source\<close> states what
    the engine relies on: a context that gives the text of a target; the engine answers by the
    boolean reading of its rules.
  \<^item> \<open>Packet_Rule\<close>: the targets of packets, which interpret that locale, and the two ways in which
    they do not give the text they should.

  \<^item> \<open>Data_Output\<close>: the growing buffer of \<^verbatim>\<open>lib/common/ch_data_output.h\<close> that records are written into, and
    the reader of \<^verbatim>\<open>udp/session/ch_data_input.h\<close>; what is written is read back.

  \<^item> \<open>Msgpack\<close>: \<^verbatim>\<open>lib/common/ch_msgpack_store.h\<close>; when the calls of the packer make complete objects.
  \<^item> \<open>Udp_Session\<close>, \<open>Udp_Handler\<close>: \<^verbatim>\<open>udp/session/\<close> and the task of \<^verbatim>\<open>udp/main/\<close>: sessions, applications, requests,
    the dispatch of packets and the records written of sessions. A session is another \<open>target_source\<close> for the
    filter. Locale \<open>udp_application\<close> states what the handlers rely on in an application: for the packets it can read, its callbacks
    return, and keep an invariant of its own sessions. What a packet does to its session, counted side by side; errors of the code.

  \<^item> \<open>Dns_Name\<close>: the reader of DNS packets and the parser of names of \<^verbatim>\<open>udp/app/dns/\<close>: compressed names are read as a
    declarative reading of the packet says.
  \<^item> \<open>Dns_Rdata\<close>, \<open>Dns_Message\<close>: the 55 types of records (a parser is the list of its reading steps) and their registry;
    header, questions, requests and responses. How far behind the packet the parsers read; requests are read
    back; the records that crash the parser or are read from the wrong place.
  \<^item> \<open>Dns_Output\<close>, \<open>Dns_App\<close>: what is written and stored of records, messages and sessions, and the callbacks of the
    application. Locale \<open>entry_loop\<close> has what the loops of APL and OPT share. The store functions of all types make complete
    entries, that of a session does not; the domain of a request is what rules see.

  \<^item> \<open>Pp_Input\<close>, \<open>Proto_Store\<close>: what the parsers of TCP applications share: the input that keeps the rest of one call for
    the next (\<^verbatim>\<open>tcp/session/ch_pp_data_input.h\<close>) and the store of sessions (\<^verbatim>\<open>tcp/session/ch_proto_session_store.c\<close>) with its two
    shared memories, each of which may or may not take a record.
  \<^item> \<open>Http_Parse\<close>, \<open>Http_Session\<close>, \<open>Http_App\<close>: the HTTP application of \<^verbatim>\<open>tcp/app/http/\<close>: the parsers of lines and chunks, each a
    machine on bytes; sessions, headers and bodies; the loops over requests and responses, the end of a connection, the record.
  \<^item> \<open>Http_Text\<close>, \<open>Http_Chunk\<close>, \<open>Http_Stream\<close>, \<open>Http_Safe\<close>: what they do. Lines are read back; the loop over chunks refines a
    machine that reads byte by byte; requests and chunked bodies are read the same in whatever pieces they come; every call
    returns without a fault when the pool has memory and the directories are there, and may crash when they are not; records are complete; errors of the code.

  \<^item> \<open>Fpath\<close>: the names of the files that contents are stored in (\<^verbatim>\<open>lib/fstore/ch_fpath.c\<close>); no two are the same.
  \<^item> \<open>Tftp_App\<close>: the TFTP application of \<^verbatim>\<open>udp/app/tftp/\<close>, which interprets \<open>udp_application\<close>; a transfer is stored as its blocks were sent,
    whatever its length: the file when each block was sent once, with a repetition for every block that was sent again; what is read outside a
    request, what is never given back.
  \<^item> \<open>Udp_Task\<close>: the UDP task with its applications, TFTP among them: no run of it faults; what the record of a session is.
  \<^item> \<open>Ftp_Session\<close>, \<open>Ftp_App\<close>: the FTP application of \<^verbatim>\<open>tcp/app/ftp/\<close>: commands and answers, expected data connections, data sessions,
    parsing and records. Control sessions, connections and data sessions point at each other and end at different times, so the world
    (\<open>ftp_world\<close>) maps addresses to them, and following a pointer to an object that is gone is a fault.
  \<^item> \<open>Ftp_Lines\<close>, \<open>Ftp_Data\<close>: what it does. Answers are taken in any pieces as the complete lines of the stream; a passive data connection is
    recognised by the address and port of the answer that announces it; its data are stored in order and recorded once; active connections
    are never recognised, a data connection that outlives its control connection faults, records of control sessions cannot be read.

  \<^bold>\<open>How the model corresponds to the code.\<close> A struct is a record with the struct's fields, a
  C function a definition with the same name (leading underscores dropped), an enum a datatype.
  Integers have their widths (\<open>u8\<close> to \<open>u64\<close>) and wrap. An operation that changes a struct
  returns it; objects that live in a pool are addressed, and a table's \<open>heap\<close> maps the address
  to the object. What would corrupt memory in C (a \<^verbatim>\<open>NULL\<close> read, a write outside a block, a
  second free, a pointer to what was given back) is a value of \<open>ch_fault\<close>, so that \<open>Inr\<close> in a theorem says that it did not happen.
  The outcome of a system allocation, the time and the functions of DPDK are arguments.
  Applications are records of functions, as in the code, and their functions may fault.

  \<^bold>\<open>Memory.\<close> The parts that test what an allocation gives them have both outcomes in the model. The HTTP application uses what
  \<^verbatim>\<open>ch_palloc\<close> gives it for headers, bodies, chunks and strings without a test; there a pool without memory is a fault. The copies of strings and
  the small structs in the FTP, TFTP and DNS applications are modelled with a pool that has memory. The blocks of the caching
  allocator are their headers, without addresses: what its theorems say is about sizes, guard values and counters; that objects do not overlap is
  shown where addresses are modelled, for the object pools.

  \<^bold>\<open>Bounds.\<close> All loops of the modelled code are structural or have a measure, so no fuel is
  needed, except the chain of IPv6 extension headers, which the code itself bounds by 5, and the
  chain of VLAN tags, where the code's 16-bit offset wraps: its model is partial, and the parser
  is shown to return for packets of up to 65000 bytes. The theorems on streams ask that offsets
  stay below \<open>2\<^sup>3\<^sup>2\<close>, the range of the code's offset arithmetic.

  \<^bold>\<open>Not modelled\<close>: DPDK, the vendored libraries (the nginx-like pool and buffers, APR tables and
  strings, printf), log output and dumps, configuration files, process and thread start-up,
  shared memory and message queues, the Java and Go interfaces, the parsers of mail,
  MySQL, SSH and telnet, the small DNS variant, the session monitor, stream analysis, black and white lists and the
  statistics. In the HTTP application the filter is a parameter. The JSON library is a parameter of the rule engine, the packer of msgpack and the
  shared memory are parameters of the UDP handler.
\<close>

end
